(* ===== verification/Base.thy ===== *)
theory Base
  imports Main "HOL-Library.Word" "HOL-Library.Monad_Syntax"
begin

unbundle bit_operations_syntax

text \<open>
  The prelude of the development: the machine types of the C code (\<open>u8\<close> to \<open>u64\<close>),
  memory as byte lists with bounds-checked copies, arrays with bounds-checked access, the
  little-endian layout of integers in memory, network byte order, and the lemmas the
  component theories share.

  Undefined behaviour is a value: an operation that C leaves undefined (an access outside an
  object, a null pointer, memory that was freed) returns \<open>None\<close>, and the option monad
  passes it on, so that a theorem of the form \<open>f x = Some y\<close> says in particular that
  \<open>f\<close> performs no such access on \<open>x\<close>. The error codes of the C functions are ordinary
  return values of type \<^typ>\<open>int\<close>.

  The collections: \<open>mem_simps\<close> holds the rewrite rules of memory and arrays,
  \<open>const_vals\<close> the numeric values of the program's compile-time constants.
\<close>

named_theorems mem_simps \<open>rewrite rules for bounds-checked memory and arrays\<close>
named_theorems const_vals \<open>values of the compile-time constants\<close>

type_synonym u8 = "8 word"
type_synonym u16 = "16 word"
type_synonym u32 = "32 word"
type_synonym u64 = "64 word"
type_synonym bytes = "u8 list"

section \<open>Memory objects and arrays\<close>

text \<open>\<open>load m off n\<close> reads \<open>n\<close> bytes at offset \<open>off\<close> of the object \<open>m\<close>;
  \<open>store m off bs\<close> is \<open>memcpy(m + off, bs, sizeof bs)\<close>; both are undefined when the
  range leaves the object.\<close>

definition load :: "bytes \<Rightarrow> nat \<Rightarrow> nat \<Rightarrow> bytes option" where
  "load m off n = (if off + n \<le> length m then Some (take n (drop off m)) else None)"

definition store :: "bytes \<Rightarrow> nat \<Rightarrow> bytes \<Rightarrow> bytes option" where
  "store m off bs =
     (if off + length bs \<le> length m
      then Some (take off m @ bs @ drop (off + length bs) m) else None)"

definition arr_get :: "'a list \<Rightarrow> nat \<Rightarrow> 'a option" where
  "arr_get xs i = (if i < length xs then Some (xs ! i) else None)"

definition arr_set :: "'a list \<Rightarrow> nat \<Rightarrow> 'a \<Rightarrow> 'a list option" where
  "arr_set xs i v = (if i < length xs then Some (xs[i := v]) else None)"

text \<open>Running a sequence of steps that may each be undefined: the loops of the programs that
  process one event per round.\<close>

fun foldM :: "('s \<Rightarrow> 'e \<Rightarrow> 's option) \<Rightarrow> 's \<Rightarrow> 'e list \<Rightarrow> 's option" where
  "foldM f s [] = Some s"
| "foldM f s (e # es) = Option.bind (f s e) (\<lambda>s'. foldM f s' es)"

section \<open>Integers in memory\<close>

text \<open>The machines the program runs on are little-endian.\<close>

fun word_of_le :: "bytes \<Rightarrow> 'a::len word" where
  "word_of_le [] = 0"
| "word_of_le (b # bs) = ucast b OR push_bit 8 (word_of_le bs)"

fun le_of_word :: "nat \<Rightarrow> 'a::len word \<Rightarrow> bytes" where
  "le_of_word 0 w = []"
| "le_of_word (Suc n) w = ucast w # le_of_word n (drop_bit 8 w)"

definition load16 :: "bytes \<Rightarrow> nat \<Rightarrow> u16 option" where
  "load16 m off = map_option word_of_le (load m off 2)"

definition load32 :: "bytes \<Rightarrow> nat \<Rightarrow> u32 option" where
  "load32 m off = map_option word_of_le (load m off 4)"

definition load64 :: "bytes \<Rightarrow> nat \<Rightarrow> u64 option" where
  "load64 m off = map_option word_of_le (load m off 8)"

text \<open>\<open>__builtin_bswap16\<close>: the conversion between host and network byte order.\<close>

definition bswap16 :: "u16 \<Rightarrow> u16" where
  "bswap16 w = push_bit 8 w OR drop_bit 8 w"

definition bswap32 :: "u32 \<Rightarrow> u32" where
  "bswap32 w = word_of_le (rev (le_of_word 4 w))"

text \<open>The decimal digits \<open>printf\<close> writes for \<open>%lu\<close>, and the value they read back as.\<close>

fun dec_digits :: "nat \<Rightarrow> string" where
  "dec_digits n =
     (if n < 10 then [char_of (48 + n)] else dec_digits (n div 10) @ [char_of (48 + n mod 10)])"

declare dec_digits.simps [simp del]

definition dec_value :: "string \<Rightarrow> nat" where
  "dec_value s = foldl (\<lambda>a c. 10 * a + (of_char c - 48)) 0 s"

section \<open>Error numbers\<close>

text \<open>The values of \<^verbatim>\<open>errno.h\<close> that the functions return negated.\<close>

definition ENOENT :: int where "ENOENT = 2"
definition E2BIG :: int where "E2BIG = 7"
definition ENOMEM :: int where "ENOMEM = 12"
definition EFAULT :: int where "EFAULT = 14"
definition EBUSY :: int where "EBUSY = 16"
definition EEXIST :: int where "EEXIST = 17"
definition EINVAL :: int where "EINVAL = 22"
definition ENAMETOOLONG :: int where "ENAMETOOLONG = 36"
definition ENOTSUP :: int where "ENOTSUP = 95"

text \<open>Of libbpf's own error numbers, the ones that several files return.\<close>

definition LIBBPF_ERRNO__FORMAT :: int where "LIBBPF_ERRNO__FORMAT = 4001"
definition LIBBPF_ERRNO__INTERNAL :: int where "LIBBPF_ERRNO__INTERNAL = 4004"
definition LIBBPF_ERRNO__RELOC :: int where "LIBBPF_ERRNO__RELOC = 4005"

definition PATH_MAX :: nat where "PATH_MAX = 4096"

lemmas errno_defs = ENOENT_def E2BIG_def ENOMEM_def EFAULT_def EBUSY_def EEXIST_def EINVAL_def ENAMETOOLONG_def ENOTSUP_def

lemmas libbpf_errno_defs = LIBBPF_ERRNO__FORMAT_def LIBBPF_ERRNO__INTERNAL_def LIBBPF_ERRNO__RELOC_def

section \<open>Lemmas on memory\<close>

lemma length_store [mem_simps]: "store m off bs = Some m' \<Longrightarrow> length m' = length m"
  by (auto simp: store_def split: if_splits)

lemma store_some_iff [mem_simps]:
  "(\<exists>m'. store m off bs = Some m') \<longleftrightarrow> off + length bs \<le> length m"
  by (simp add: store_def)

lemma length_load [mem_simps]: "load m off n = Some bs \<Longrightarrow> length bs = n"
  by (auto simp: load_def split: if_splits)

lemma load_store_same:
  "store m off bs = Some m' \<Longrightarrow> load m' off (length bs) = Some bs"
  by (auto simp: store_def load_def split: if_splits)

lemma nth_store:
  assumes "store m off bs = Some m'" and "i < length m"
  shows "m' ! i = (if off \<le> i \<and> i < off + length bs then bs ! (i - off) else m ! i)"
  using assms by (auto simp: store_def nth_append min_def split: if_splits)

lemma load_store_disjoint:
  assumes "store m off bs = Some m'" and "off' + n \<le> off \<or> off + length bs \<le> off'"
  shows "load m' off' n = load m off' n"
proof -
  have len: "length m' = length m" using assms(1) by (rule length_store)
  have "take n (drop off' m') = take n (drop off' m)" if "off' + n \<le> length m"
  proof (rule nth_equalityI)
    fix i assume "i < length (take n (drop off' m'))"
    then show "take n (drop off' m') ! i = take n (drop off' m) ! i"
      using nth_store [OF assms(1), of "off' + i"] assms(2) that by (auto simp: len)
  qed (use len in simp)
  then show ?thesis by (simp add: load_def len)
qed


lemma arr_get_set [mem_simps]:
  "arr_set xs i v = Some ys \<Longrightarrow> arr_get ys j = (if j = i then Some v else arr_get xs j)"
  by (auto simp: arr_get_def arr_set_def split: if_splits)

lemma length_arr_set [mem_simps]: "arr_set xs i v = Some ys \<Longrightarrow> length ys = length xs"
  by (auto simp: arr_set_def split: if_splits)

lemma arr_get_some_iff [mem_simps]: "arr_get xs i = Some v \<longleftrightarrow> i < length xs \<and> xs ! i = v"
  by (auto simp: arr_get_def)

lemma foldM_append: "foldM f s (xs @ ys) = Option.bind (foldM f s xs) (\<lambda>s'. foldM f s' ys)"
  by (induction xs arbitrary: s) (auto split: Option.bind_splits)

lemma foldM_invariant:
  assumes "\<And>s e. I s \<Longrightarrow> \<exists>s'. f s e = Some s' \<and> I s'" and "I s"
  shows "\<exists>s'. foldM f s es = Some s' \<and> I s'"
  using assms(2)
proof (induction es arbitrary: s)
  case (Cons e es)
  then obtain s' where "f s e = Some s'" "I s'" using assms(1) by blast
  then show ?case using Cons.IH by simp
qed simp

section \<open>Lemmas on the layout of integers\<close>

lemma length_le_of_word [simp]: "length (le_of_word n w) = n"
  by (induction n arbitrary: w) auto

lemma word_of_le_of_word_take:
  "word_of_le (le_of_word n w) = take_bit (8 * n) (w :: 'a::len word)"
proof (induction n arbitrary: w)
  case 0
  then show ?case by simp
next
  case (Suc n)
  have "word_of_le (le_of_word (Suc n) w)
      = ucast (ucast w :: u8) OR push_bit 8 (take_bit (8 * n) (drop_bit 8 w))"
    by (simp add: Suc.IH)
  also have "\<dots> = take_bit (8 * Suc n) w"
    by (rule bit_word_eqI) (auto simp: bit_simps)
  finally show ?case .
qed

lemma word_of_le_of_word64 [simp]: "word_of_le (le_of_word 8 (w :: u64)) = w"
  by (simp add: word_of_le_of_word_take take_bit_word_eq_self)

lemma word_of_le_of_word32 [simp]: "word_of_le (le_of_word 4 (w :: u32)) = w"
  by (simp add: word_of_le_of_word_take take_bit_word_eq_self)

lemma word_of_le_of_word16 [simp]: "word_of_le (le_of_word 2 (w :: u16)) = w"
  by (simp add: word_of_le_of_word_take take_bit_word_eq_self)

lemma le_of_word_of_le:
  "8 * length bs \<le> LENGTH('a::len) \<Longrightarrow> le_of_word (length bs) (word_of_le bs :: 'a word) = bs"
proof (induction bs)
  case Nil
  then show ?case by simp
next
  case (Cons b bs)
  let ?w = "word_of_le bs :: 'a word"
  have lo: "ucast (ucast b OR push_bit 8 ?w :: 'a word) = b"
    using Cons.prems by (intro bit_word_eqI) (auto simp: bit_simps)
  have "bit ?w n \<Longrightarrow> n < 8 * length bs" for n
  proof -
    assume b: "bit ?w n"
    have "?w = take_bit (8 * length bs) ?w"
      using Cons.IH Cons.prems word_of_le_of_word_take [of "length bs" ?w] by simp
    then have "bit (take_bit (8 * length bs) ?w) n" using b by metis
    then show "n < 8 * length bs" by (simp add: bit_simps)
  qed
  then have top: "bit ?w n \<Longrightarrow> n + 8 < LENGTH('a)" for n
    using Cons.prems by fastforce
  have hi: "drop_bit 8 (ucast b OR push_bit 8 ?w :: 'a word) = ?w"
    by (intro bit_word_eqI) (auto simp: bit_simps add.commute dest: top bit_imp_le_length)
  show ?case using Cons.IH Cons.prems lo hi by simp
qed

lemma nth_le_of_word: "i < n \<Longrightarrow> le_of_word n w ! i = ucast (drop_bit (8 * i) w)"
proof (induction n arbitrary: w i)
  case (Suc n)
  then show ?case by (cases i) (simp_all add: drop_bit_drop_bit add.commute)
qed simp

lemma le_of_word_ucast32: "take 4 (le_of_word 8 (w :: u64)) = le_of_word 4 (ucast w :: u32)"
proof (rule nth_equalityI)
  fix i
  assume "i < length (take 4 (le_of_word 8 w))"
  then have i: "i < 4" by simp
  have "(ucast (drop_bit (8 * i) w) :: u8) = ucast (drop_bit (8 * i) (ucast w :: u32))"
    using i by (intro bit_word_eqI) (auto simp: bit_simps)
  then show "take 4 (le_of_word 8 w) ! i = le_of_word 4 (ucast w :: u32) ! i"
    using i by (simp add: nth_le_of_word)
qed simp

lemma word_of_le_low32:
  assumes "length bs = 8"
  shows "word_of_le (take 4 bs) = (ucast (word_of_le bs :: u64) :: u32)"
proof -
  have "take 4 bs = le_of_word 4 (ucast (word_of_le bs :: u64) :: u32)"
    using le_of_word_of_le [where 'a = 64, of bs] assms le_of_word_ucast32 [of "word_of_le bs"] by simp
  then show ?thesis by simp
qed

lemma high_half_zero:
  assumes "unat (w :: u64) < 2 ^ 32"
  shows "drop 4 (le_of_word 8 w) = replicate 4 0"
proof (rule nth_equalityI)
  fix i
  assume "i < length (drop 4 (le_of_word 8 w))"
  then have i: "i < 4" by simp
  have "w = take_bit 32 w" using assms
    by (metis take_bit_nat_eq_self unsigned_take_bit_eq unsigned_word_eqI)
  then have "\<not> bit w n" if "32 \<le> n" for n using that by (metis bit_take_bit_iff leD)
  then have "(ucast (drop_bit (8 * (4 + i)) w) :: u8) = 0"
    using i by (intro bit_word_eqI) (auto simp: bit_simps)
  then show "drop 4 (le_of_word 8 w) ! i = replicate 4 0 ! i"
    using i by (simp add: nth_le_of_word)
qed simp

lemma bswap16_bswap16 [simp]: "bswap16 (bswap16 w) = w"
  by (rule bit_word_eqI) (auto simp: bswap16_def bit_simps)

lemma bswap16_eq_iff [simp]: "bswap16 a = bswap16 b \<longleftrightarrow> a = b"
  by (metis bswap16_bswap16)

lemma bswap32_bswap32 [simp]: "bswap32 (bswap32 w) = w"
proof -
  have "le_of_word 4 (word_of_le (rev (le_of_word 4 w)) :: u32) = rev (le_of_word 4 w)"
    using le_of_word_of_le [where 'a = 32, of "rev (le_of_word 4 w)"] by simp
  then show ?thesis by (simp add: bswap32_def)
qed

lemma unat_of_nat_small: "n < 2 ^ LENGTH('a) \<Longrightarrow> unat (of_nat n :: 'a::len word) = n"
  by (simp add: unsigned_of_nat take_bit_nat_eq_self)

text \<open>A free-running index taken modulo a power of two, across the wrap-around of the index.\<close>

lemma index_mod:
  fixes c :: "'a::len word"
  assumes "k \<le> LENGTH('a)"
  shows "unat ((c + of_nat j) AND mask k) = (unat c + j) mod 2 ^ k"
proof -
  have "unat ((c + of_nat j) AND mask k) = unat (c + of_nat j) mod 2 ^ k"
    unfolding take_bit_eq_mask [symmetric] unsigned_take_bit_eq by (simp add: take_bit_eq_mod)
  also have "\<dots> = (unat c + unat (of_nat j :: 'a word)) mod 2 ^ LENGTH('a) mod 2 ^ k"
    by (simp add: unat_word_ariths(1))
  also have "\<dots> = (unat c + unat (of_nat j :: 'a word)) mod 2 ^ k"
    using assms by (intro mod_mod_cancel le_imp_power_dvd)
  also have "unat (of_nat j :: 'a word) = j mod 2 ^ LENGTH('a)" by (simp add: unsigned_of_nat take_bit_eq_mod)
  also have "(unat c + j mod 2 ^ LENGTH('a)) mod 2 ^ k = (unat c + j) mod 2 ^ k"
  proof -
    have "(j mod 2 ^ LENGTH('a)) mod 2 ^ k = j mod (2 ^ k :: nat)"
      using assms by (intro mod_mod_cancel le_imp_power_dvd)
    then show ?thesis by (metis mod_add_right_eq)
  qed
  finally show ?thesis .
qed

lemma dec_digits_nonempty: "dec_digits n \<noteq> []"
  by (subst dec_digits.simps) simp

lemma dec_value_snoc: "dec_value (s @ [c]) = 10 * dec_value s + (of_char c - 48)"
  by (simp add: dec_value_def)

lemma dec_value_digits [simp]: "dec_value (dec_digits n) = n"
proof (induction n rule: dec_digits.induct)
  case (1 n)
  have digit: "of_char (char_of (48 + n mod 10) :: char) = (48 + n mod 10 :: nat)"
    by simp
  show ?case
  proof (cases "n < 10")
    case True
    then show ?thesis
      by (subst dec_digits.simps) (simp add: dec_value_def)
  next
    case False
    with 1 digit show ?thesis
      by (subst dec_digits.simps) (simp add: dec_value_snoc)
  qed
qed

end
