(* ===== verification/Common_Defs.thy ===== *)
theory Common_Defs
  imports Base
begin

text \<open>
  \<^verbatim>\<open>mymodule/common.h\<close>: the compile-time parameters every program of the experiment shares
  and \<^verbatim>\<open>struct Payload\<close>, the packet the client sends, with its memory layout.
\<close>

section \<open>Parameters\<close>

definition BUFFER_SIZE :: nat where "BUFFER_SIZE = 4096"
definition PKT_BUFFER_SIZE :: nat where "PKT_BUFFER_SIZE = 128"
definition PKTS_PER_BUFFER :: nat where "PKTS_PER_BUFFER = BUFFER_SIZE div PKT_BUFFER_SIZE"
definition SIZE_OF_PAGE_HC :: nat where "SIZE_OF_PAGE_HC = 4096"
definition MAX_PKT :: nat where "MAX_PKT = 200"
definition KM_FIND_BUFF_SLOT_MAX_TRY :: nat where "KM_FIND_BUFF_SLOT_MAX_TRY = 200"
definition MAX_LOG_ENTRY_SHIFT :: nat where "MAX_LOG_ENTRY_SHIFT = 14"
definition MAX_LOG_ENTRY :: nat where "MAX_LOG_ENTRY = 2 * 2 ^ MAX_LOG_ENTRY_SHIFT"
definition PAGES_ORDER :: nat where "PAGES_ORDER = 6"
definition MAX_ENTRIES_PER_LOG_BUFF :: nat where
  "MAX_ENTRIES_PER_LOG_BUFF = (2 * 2 ^ (PAGES_ORDER - 1)) * SIZE_OF_PAGE_HC div 8"
definition NUM_LOG_BUFF :: nat where "NUM_LOG_BUFF = MAX_LOG_ENTRY div MAX_ENTRIES_PER_LOG_BUFF"
definition CLIENT_RATE :: nat where "CLIENT_RATE = 2"
definition DEST_PORT :: u16 where "DEST_PORT = 8080"
definition PL_KEEP_ALIVE :: u64 where "PL_KEEP_ALIVE = 1"
definition PL_DATA :: u64 where "PL_DATA = 2"
definition PL_LOG :: u64 where "PL_LOG = 3"

lemma BUFFER_SIZE_val [const_vals]: "BUFFER_SIZE = 4096"
  by (simp add: BUFFER_SIZE_def)
lemma PKT_BUFFER_SIZE_val [const_vals]: "PKT_BUFFER_SIZE = 128"
  by (simp add: PKT_BUFFER_SIZE_def)
lemma PKTS_PER_BUFFER_val [const_vals]: "PKTS_PER_BUFFER = 32"
  by (simp add: PKTS_PER_BUFFER_def const_vals)
lemma MAX_PKT_val [const_vals]: "MAX_PKT = 200"
  by (simp add: MAX_PKT_def)
lemma KM_FIND_BUFF_SLOT_MAX_TRY_val [const_vals]: "KM_FIND_BUFF_SLOT_MAX_TRY = 200"
  by (simp add: KM_FIND_BUFF_SLOT_MAX_TRY_def)
lemma MAX_LOG_ENTRY_val [const_vals]: "MAX_LOG_ENTRY = 32768"
  by (simp add: MAX_LOG_ENTRY_def MAX_LOG_ENTRY_SHIFT_def)
lemma MAX_ENTRIES_PER_LOG_BUFF_val [const_vals]: "MAX_ENTRIES_PER_LOG_BUFF = 32768"
  by (simp add: MAX_ENTRIES_PER_LOG_BUFF_def PAGES_ORDER_def SIZE_OF_PAGE_HC_def)
lemma NUM_LOG_BUFF_val [const_vals]: "NUM_LOG_BUFF = 1"
  by (simp add: NUM_LOG_BUFF_def const_vals)

section \<open>The payload\<close>

record Payload =
  pl_client_uid :: u64
  pl_uid :: u64
  pl_type :: u64
  pl_created_time :: u64
  pl_ks_time_arrival_1 :: u64
  pl_ks_time_arrival_2 :: u64
  pl_us_time_arrival_1 :: u64
  pl_us_time_arrival_2 :: u64
  pl_data :: bytes

definition sizeof_Payload :: nat where "sizeof_Payload = 8 * 8 + 960"

lemma sizeof_Payload_val [const_vals]: "sizeof_Payload = 1024"
  by (simp add: sizeof_Payload_def)

text \<open>The object as C lays it out in memory, and the object a copy of \<^const>\<open>sizeof_Payload\<close>
  bytes denotes.\<close>

definition bytes_of_Payload :: "Payload \<Rightarrow> bytes" where
  "bytes_of_Payload p =
     le_of_word 8 (pl_client_uid p) @ le_of_word 8 (pl_uid p) @ le_of_word 8 (pl_type p) @
     le_of_word 8 (pl_created_time p) @ le_of_word 8 (pl_ks_time_arrival_1 p) @
     le_of_word 8 (pl_ks_time_arrival_2 p) @ le_of_word 8 (pl_us_time_arrival_1 p) @
     le_of_word 8 (pl_us_time_arrival_2 p) @ pl_data p"

definition Payload_of_bytes :: "bytes \<Rightarrow> Payload" where
  "Payload_of_bytes bs =
     \<lparr>pl_client_uid = word_of_le (take 8 bs),
      pl_uid = word_of_le (take 8 (drop 8 bs)),
      pl_type = word_of_le (take 8 (drop 16 bs)),
      pl_created_time = word_of_le (take 8 (drop 24 bs)),
      pl_ks_time_arrival_1 = word_of_le (take 8 (drop 32 bs)),
      pl_ks_time_arrival_2 = word_of_le (take 8 (drop 40 bs)),
      pl_us_time_arrival_1 = word_of_le (take 8 (drop 48 bs)),
      pl_us_time_arrival_2 = word_of_le (take 8 (drop 56 bs)),
      pl_data = take 960 (drop 64 bs)\<rparr>"

definition load_Payload :: "bytes \<Rightarrow> nat \<Rightarrow> Payload option" where
  "load_Payload m off = map_option Payload_of_bytes (load m off sizeof_Payload)"

definition wf_Payload :: "Payload \<Rightarrow> bool" where
  "wf_Payload p \<longleftrightarrow> length (pl_data p) = 960"

lemma length_bytes_of_Payload: "wf_Payload p \<Longrightarrow> length (bytes_of_Payload p) = sizeof_Payload"
  by (simp add: wf_Payload_def bytes_of_Payload_def const_vals)

lemma Payload_of_bytes_of_Payload:
  assumes "wf_Payload p"
  shows "Payload_of_bytes (bytes_of_Payload p @ rest) = p"
  using assms by (cases p) (simp add: wf_Payload_def bytes_of_Payload_def Payload_of_bytes_def)

lemma word_of_le8 [simp]: "length bs = 8 \<Longrightarrow> le_of_word 8 (word_of_le bs :: u64) = bs"
  using le_of_word_of_le [where 'a = 64, of bs] by simp

lemma bytes_of_Payload_of_bytes:
  assumes "length bs = sizeof_Payload"
  shows "bytes_of_Payload (Payload_of_bytes bs) = bs"
proof -
  have split: "take 8 (drop k bs) @ drop (k + 8) bs = drop k bs" for k
    by (metis append_take_drop_id drop_drop add.commute)
  have "bytes_of_Payload (Payload_of_bytes bs)
      = take 8 (drop 0 bs) @ take 8 (drop 8 bs) @ take 8 (drop 16 bs) @ take 8 (drop 24 bs)
        @ take 8 (drop 32 bs) @ take 8 (drop 40 bs) @ take 8 (drop 48 bs)
        @ take 8 (drop 56 bs) @ drop 64 bs"
    using assms by (simp add: bytes_of_Payload_def Payload_of_bytes_def const_vals)
  also have "\<dots> = bs"
    using split [of 56] split [of 48] split [of 40] split [of 32] split [of 24] split [of 16]
      split [of 8] split [of 0] by simp
  finally show ?thesis .
qed

lemma wf_Payload_of_bytes: "length bs = sizeof_Payload \<Longrightarrow> wf_Payload (Payload_of_bytes bs)"
  by (simp add: wf_Payload_def Payload_of_bytes_def const_vals)

section \<open>The client's packet on the wire\<close>

text \<open>IPv4 and UDP headers of a packet with a payload of \<^const>\<open>sizeof_Payload\<close> bytes to port 8080,
  and a sample payload.\<close>

definition client_hdr :: bytes where
  "client_hdr = [0x45, 0, 0x04, 0x1C, 0, 0, 0x40, 0, 64, 17, 0, 0, 192, 168, 1, 12, 192, 168, 1, 24,
     0x9C, 0x40, 0x1F, 0x90, 0x04, 0x08, 0, 0]"

definition sample_payload :: Payload where
  "sample_payload = \<lparr>pl_client_uid = 1, pl_uid = 7, pl_type = PL_DATA, pl_created_time = 99,
     pl_ks_time_arrival_1 = 0, pl_ks_time_arrival_2 = 0, pl_us_time_arrival_1 = 0,
     pl_us_time_arrival_2 = 0, pl_data = replicate 960 0\<rparr>"

lemma wf_sample_payload: "wf_Payload sample_payload"
  by (simp add: wf_Payload_def sample_payload_def)

end
