(* ===== verification/Log_Table.thy ===== *)
theory Log_Table
  imports Common_Defs
begin

text \<open>
  The timestamp log every receiving program keeps: \<open>log_buffs\<close>, an array of
  \<^const>\<open>NUM_LOG_BUFF\<close> separately allocated blocks of \<^const>\<open>MAX_ENTRIES_PER_LOG_BUFF\<close>
  timestamps, indexed by the uid of the packet. The kernel module, its user-space program, the
  socket server and the eBPF user-space program share the code: the allocation loop with its
  clean-up on failure, the store guarded by the bound on the uid, and the export of the whole
  table as one decimal number per line.

  The locale \<open>uid_log\<close> is the contract the four programs rely on; its client lemmas say
  what the table holds after any sequence of packets.
\<close>

type_synonym log_table = "u64 list list"

definition wf_log :: "log_table \<Rightarrow> bool" where
  "wf_log lb \<longleftrightarrow> length lb = NUM_LOG_BUFF \<and> (\<forall>r \<in> set lb. length r = MAX_ENTRIES_PER_LOG_BUFF)"

section \<open>Operations\<close>

text \<open>The allocation loop. \<open>alloc i\<close> is what the \<open>i\<close>-th call of the allocator
  (\<^verbatim>\<open>__get_free_pages\<close> or \<^verbatim>\<open>malloc\<close>) returns: \<open>None\<close> for a null pointer, otherwise a block
  with whatever it held before. On a failure the blocks obtained so far are freed and the
  program gives up: \<open>Inl\<close> lists the freed blocks.\<close>

function alloc_log_buffs ::
    "(nat \<Rightarrow> u64 list option) \<Rightarrow> nat \<Rightarrow> log_table \<Rightarrow> log_table + log_table" where
  "alloc_log_buffs alloc i log_buffs =
     (if i < NUM_LOG_BUFF
      then (case alloc i of
              None \<Rightarrow> Inl (take i log_buffs)
            | Some r \<Rightarrow> alloc_log_buffs alloc (Suc i) (log_buffs @ [r]))
      else Inr log_buffs)"
  by pat_completeness auto
termination
  by (relation "measure (\<lambda>(alloc, i, log_buffs). NUM_LOG_BUFF - i)") auto

declare alloc_log_buffs.simps [simp del]

text \<open>\<^verbatim>\<open>if (uid < MAX_LOG_ENTRY && uid >= 0) { unsigned int buff_index = uid / MAX_ENTRIES_PER_LOG_BUFF;
  log_buffs[buff_index][uid % MAX_ENTRIES_PER_LOG_BUFF] = now; }\<close>\<close>

definition log_write :: "log_table \<Rightarrow> u64 \<Rightarrow> u64 \<Rightarrow> log_table option" where
  "log_write log_buffs uid now =
     (if uid < of_nat MAX_LOG_ENTRY \<and> uid \<ge> 0 then do {
        let buff_index = unat (ucast (uid div of_nat MAX_ENTRIES_PER_LOG_BUFF) :: u32);
        row \<leftarrow> arr_get log_buffs buff_index;
        row' \<leftarrow> arr_set row (unat (uid mod of_nat MAX_ENTRIES_PER_LOG_BUFF)) now;
        arr_set log_buffs buff_index row'
      } else Some log_buffs)"

definition log_read :: "log_table \<Rightarrow> nat \<Rightarrow> u64 option" where
  "log_read log_buffs i = do {
     row \<leftarrow> arr_get log_buffs (i div MAX_ENTRIES_PER_LOG_BUFF);
     arr_get row (i mod MAX_ENTRIES_PER_LOG_BUFF)
   }"

text \<open>The export loop: the text written to the file and the number of entries that are zero.\<close>

definition print_entry :: "u64 \<Rightarrow> string" where
  "print_entry v = dec_digits (unat v) @ [CHR 0x0A]"

function export_log :: "log_table \<Rightarrow> nat \<Rightarrow> string \<Rightarrow> u64 \<Rightarrow> (string \<times> u64) option" where
  "export_log log_buffs i out zeroed =
     (if i < MAX_LOG_ENTRY then do {
        v \<leftarrow> log_read log_buffs i;
        export_log log_buffs (Suc i) (out @ print_entry v) (if v = 0 then zeroed + 1 else zeroed)
      } else Some (out, zeroed))"
  by pat_completeness auto
termination
  by (relation "measure (\<lambda>(log_buffs, i, out, zeroed). MAX_LOG_ENTRY - i)") auto

declare export_log.simps [simp del]

text \<open>What a reader of the log file does: split it into lines and read the numbers.\<close>

fun file_lines :: "string \<Rightarrow> string list" where
  "file_lines [] = []"
| "file_lines (c # cs) =
     (if c = CHR 0x0A then [] # file_lines cs
      else (case file_lines cs of [] \<Rightarrow> [[c]] | l # ls \<Rightarrow> (c # l) # ls))"

definition parse_log :: "string \<Rightarrow> nat list" where
  "parse_log s = map dec_value (file_lines s)"

section \<open>The contract of a uid-indexed log\<close>

text \<open>The value a slot holds after a sequence of stores: the last one for its uid.\<close>

definition last_stamp :: "nat \<Rightarrow> (u64 \<times> u64) list \<Rightarrow> u64 \<Rightarrow> u64" where
  "last_stamp i evs d = foldl (\<lambda>a (uid, now). if unat uid = i then now else a) d evs"

locale uid_log =
  fixes wf :: "'l \<Rightarrow> bool"
    and wr :: "'l \<Rightarrow> u64 \<Rightarrow> u64 \<Rightarrow> 'l option"
    and rd :: "'l \<Rightarrow> nat \<Rightarrow> u64 option"
    and cap :: nat
  assumes wr_defined: "wf l \<Longrightarrow> \<exists>l'. wr l uid now = Some l' \<and> wf l'"
    and rd_defined: "wf l \<Longrightarrow> i < cap \<Longrightarrow> \<exists>v. rd l i = Some v"
    and rd_wr: "wf l \<Longrightarrow> wr l uid now = Some l' \<Longrightarrow> i < cap \<Longrightarrow>
      rd l' i = (if unat uid = i then Some now else rd l i)"
    and wr_outside: "cap \<le> unat uid \<Longrightarrow> wr l uid now = Some l"
begin

lemma run_defined:
  assumes "wf l"
  shows "\<exists>l'. foldM (\<lambda>l (uid, now). wr l uid now) l evs = Some l' \<and> wf l'"
  using assms wr_defined by (intro foldM_invariant) auto

lemma run_lookup:
  assumes "wf l" and "foldM (\<lambda>l (uid, now). wr l uid now) l evs = Some l'"
    and "i < cap" and "rd l i = Some v"
  shows "rd l' i = Some (last_stamp i evs v)"
  using assms
proof (induction evs arbitrary: l v)
  case Nil
  then show ?case by (simp add: last_stamp_def)
next
  case (Cons e evs)
  obtain uid now where e: "e = (uid, now)" by (cases e)
  from Cons.prems e obtain l1 where l1: "wr l uid now = Some l1" "wf l1"
    and run: "foldM (\<lambda>l (uid, now). wr l uid now) l1 evs = Some l'"
    using wr_defined by (fastforce split: Option.bind_splits)
  have "rd l1 i = Some (if unat uid = i then now else v)"
    using rd_wr [OF Cons.prems(1) l1(1) Cons.prems(3)] Cons.prems(4) by simp
  from Cons.IH [OF l1(2) run Cons.prems(3) this] show ?case
    by (simp add: last_stamp_def e)
qed

lemma run_untouched:
  assumes "wf l" and "foldM (\<lambda>l (uid, now). wr l uid now) l evs = Some l'"
    and "i < cap" and "\<forall>(uid, now) \<in> set evs. unat uid \<noteq> i"
  shows "rd l' i = rd l i"
proof -
  obtain v where v: "rd l i = Some v" using rd_defined [OF assms(1,3)] by blast
  have "foldl (\<lambda>a (uid, now). if unat uid = i then now else a) v evs = v"
    using assms(4) by (induction evs arbitrary: v) auto
  then show ?thesis using run_lookup [OF assms(1-3) v] v by (simp add: last_stamp_def)
qed

end

section \<open>The table satisfies the contract\<close>

lemma uid_in_range:
  "(uid :: u64) < of_nat MAX_LOG_ENTRY \<longleftrightarrow> unat uid < MAX_LOG_ENTRY"
  by (simp add: word_less_nat_alt const_vals)

lemma wf_log_row: "wf_log lb \<Longrightarrow> k < NUM_LOG_BUFF \<Longrightarrow> length (lb ! k) = MAX_ENTRIES_PER_LOG_BUFF"
  by (simp add: wf_log_def)

lemma index_bounds:
  assumes "i < MAX_LOG_ENTRY"
  shows "i div MAX_ENTRIES_PER_LOG_BUFF < NUM_LOG_BUFF"
    and "i mod MAX_ENTRIES_PER_LOG_BUFF < MAX_ENTRIES_PER_LOG_BUFF"
  using assms by (simp_all add: const_vals)

lemma uid_split:
  fixes uid :: u64
  assumes "unat uid < MAX_LOG_ENTRY"
  shows "unat (ucast (uid div of_nat MAX_ENTRIES_PER_LOG_BUFF) :: u32)
           = unat uid div MAX_ENTRIES_PER_LOG_BUFF"
    and "unat (uid mod of_nat MAX_ENTRIES_PER_LOG_BUFF) = unat uid mod MAX_ENTRIES_PER_LOG_BUFF"
proof -
  show "unat (uid mod of_nat MAX_ENTRIES_PER_LOG_BUFF) = unat uid mod MAX_ENTRIES_PER_LOG_BUFF"
    by (simp add: unat_mod_distrib const_vals)
  have "unat (uid div of_nat MAX_ENTRIES_PER_LOG_BUFF) = unat uid div MAX_ENTRIES_PER_LOG_BUFF"
    by (simp add: unat_div_distrib const_vals)
  moreover have "unat uid div MAX_ENTRIES_PER_LOG_BUFF < 2 ^ 32"
    using assms by (simp add: const_vals)
  ultimately show "unat (ucast (uid div of_nat MAX_ENTRIES_PER_LOG_BUFF) :: u32)
      = unat uid div MAX_ENTRIES_PER_LOG_BUFF"
    by (simp add: unsigned_ucast_eq take_bit_nat_eq_self)
qed

lemma log_write_in_range:
  assumes "wf_log lb" and "unat uid < MAX_LOG_ENTRY"
  shows "log_write lb uid now =
    (let r = unat uid div MAX_ENTRIES_PER_LOG_BUFF; c = unat uid mod MAX_ENTRIES_PER_LOG_BUFF
     in Some (lb[r := (lb ! r)[c := now]]))"
  using assms index_bounds [OF assms(2)] wf_log_row [OF assms(1) index_bounds(1) [OF assms(2)]]
  by (simp add: log_write_def uid_in_range uid_split Let_def arr_get_def arr_set_def wf_log_def)

lemma log_read_some:
  assumes "wf_log lb" and "i < MAX_LOG_ENTRY"
  shows "log_read lb i =
    Some (lb ! (i div MAX_ENTRIES_PER_LOG_BUFF) ! (i mod MAX_ENTRIES_PER_LOG_BUFF))"
  using assms index_bounds [OF assms(2)] wf_log_row [OF assms(1) index_bounds(1) [OF assms(2)]]
  by (simp add: log_read_def arr_get_def wf_log_def)

lemma log_write_outside: "MAX_LOG_ENTRY \<le> unat uid \<Longrightarrow> log_write lb uid now = Some lb"
  using uid_in_range [of uid] by (simp add: log_write_def)

lemma wf_log_write:
  assumes "wf_log lb"
  shows "\<exists>lb'. log_write lb uid now = Some lb' \<and> wf_log lb'"
proof (cases "unat uid < MAX_LOG_ENTRY")
  case True
  have "length (lb ! (unat uid div MAX_ENTRIES_PER_LOG_BUFF)) = MAX_ENTRIES_PER_LOG_BUFF"
    using wf_log_row [OF assms index_bounds(1) [OF True]] .
  then show ?thesis
    using assms log_write_in_range [OF assms True]
    by (auto simp: Let_def wf_log_def dest!: set_update_subset_insert [THEN subsetD])
next
  case False
  then show ?thesis using assms by (simp add: log_write_outside)
qed

interpretation lt: uid_log wf_log log_write log_read MAX_LOG_ENTRY
proof
  show "\<And>l uid now. wf_log l \<Longrightarrow> \<exists>l'. log_write l uid now = Some l' \<and> wf_log l'"
    by (rule wf_log_write)
  show "\<And>l i. wf_log l \<Longrightarrow> i < MAX_LOG_ENTRY \<Longrightarrow> \<exists>v. log_read l i = Some v"
    by (simp add: log_read_some)
  show "\<And>uid l now. MAX_LOG_ENTRY \<le> unat uid \<Longrightarrow> log_write l uid now = Some l"
    by (rule log_write_outside)
next
  fix l l' uid now i
  assume wf: "wf_log l" and w: "log_write l uid now = Some l'" and i: "i < MAX_LOG_ENTRY"
  obtain l'' where "log_write l uid now = Some l''" "wf_log l''"
    using wf_log_write [OF wf] by blast
  then have wf': "wf_log l'" using w by simp
  show "log_read l' i = (if unat uid = i then Some now else log_read l i)"
  proof (cases "unat uid < MAX_LOG_ENTRY")
    case True
    let ?R = "\<lambda>n. n div MAX_ENTRIES_PER_LOG_BUFF" and ?C = "\<lambda>n. n mod MAX_ENTRIES_PER_LOG_BUFF"
    have l': "l' = l[?R (unat uid) := (l ! ?R (unat uid))[?C (unat uid) := now]]"
      using w log_write_in_range [OF wf True] by (simp add: Let_def)
    have same: "unat uid = i \<longleftrightarrow> ?R (unat uid) = ?R i \<and> ?C (unat uid) = ?C i"
      by (metis mult_div_mod_eq)
    have "?R i < length l" "?C i < length (l ! ?R i)"
      using wf index_bounds [OF i] wf_log_row [OF wf index_bounds(1) [OF i]]
      by (simp_all add: wf_log_def)
    then show ?thesis
      unfolding log_read_some [OF wf' i] log_read_some [OF wf i]
      by (cases "?R (unat uid) = ?R i") (auto simp: l' same nth_list_update)
  next
    case False
    then show ?thesis using w i by (auto simp: log_write_outside)
  qed
qed

section \<open>Allocation\<close>

text \<open>The blocks the allocator handed out before its first failure.\<close>

lemma alloc_log_buffs_acc:
  assumes "length acc = i" and "i \<le> NUM_LOG_BUFF"
  shows "alloc_log_buffs alloc i acc =
    (let ok = takeWhile (\<lambda>k. alloc k \<noteq> None) [i..<NUM_LOG_BUFF];
         got = acc @ map (\<lambda>k. the (alloc k)) ok
     in if length got = NUM_LOG_BUFF then Inr got else Inl got)"
  using assms
proof (induction alloc i acc rule: alloc_log_buffs.induct)
  case (1 alloc i acc)
  show ?case
  proof (cases "i < NUM_LOG_BUFF")
    case True
    note unroll = alloc_log_buffs.simps [of alloc i acc] upt_conv_Cons [OF True]
    show ?thesis
    proof (cases "alloc i")
      case None
      then show ?thesis using True "1.prems" by (simp add: unroll Let_def)
    next
      case (Some r)
      have "alloc_log_buffs alloc i acc = alloc_log_buffs alloc (Suc i) (acc @ [r])"
        using True Some by (simp add: unroll)
      also have "\<dots> = (let ok = takeWhile (\<lambda>k. alloc k \<noteq> None) [Suc i..<NUM_LOG_BUFF];
            got = (acc @ [r]) @ map (\<lambda>k. the (alloc k)) ok
          in if length got = NUM_LOG_BUFF then Inr got else Inl got)"
        using 1 True Some by (intro "1.IH") auto
      finally show ?thesis using Some by (simp add: unroll Let_def)
    qed
  next
    case False
    then show ?thesis
      using "1.prems" alloc_log_buffs.simps [of alloc i acc] by simp
  qed
qed

lemma alloc_log_buffs_spec:
  "alloc_log_buffs alloc 0 [] =
    (let got = map (\<lambda>k. the (alloc k)) (takeWhile (\<lambda>k. alloc k \<noteq> None) [0..<NUM_LOG_BUFF])
     in if length got = NUM_LOG_BUFF then Inr got else Inl got)"
  using alloc_log_buffs_acc [of "[]" 0 alloc] by (simp add: Let_def)

lemma takeWhile_upt_least:
  assumes "\<not> P k" and "k < n"
  shows "takeWhile P [0..<n] = [0..<(LEAST k. \<not> P k)]"
proof -
  define l where "l = (LEAST k. \<not> P k)"
  have stop: "\<not> P l" unfolding l_def using assms(1) by (rule LeastI)
  have "l \<le> k" unfolding l_def using assms(1) by (rule Least_le)
  then have split: "[0..<n] = [0..<l] @ l # [Suc l..<n]"
    using assms(2) upt_add_eq_append [of 0 l "n - l"] upt_conv_Cons [of l n] by simp
  have "P j" if "j < l" for j
    using not_less_Least [OF that [unfolded l_def]] by simp
  then have "takeWhile P ([0..<l] @ l # [Suc l..<n]) = [0..<l]"
    using stop by (subst takeWhile_append2) auto
  then show ?thesis unfolding split l_def .
qed

lemma alloc_log_buffs_least:
  "alloc_log_buffs alloc 0 [] =
    (if \<forall>k < NUM_LOG_BUFF. alloc k \<noteq> None
     then Inr (map (\<lambda>k. the (alloc k)) [0..<NUM_LOG_BUFF])
     else Inl (map (\<lambda>k. the (alloc k)) [0..<(LEAST k. alloc k = None)]))"
proof (cases "\<forall>k < NUM_LOG_BUFF. alloc k \<noteq> None")
  case True
  then have "takeWhile (\<lambda>k. alloc k \<noteq> None) [0..<NUM_LOG_BUFF] = [0..<NUM_LOG_BUFF]"
    by (intro takeWhile_eq_all_conv [THEN iffD2]) auto
  then show ?thesis unfolding alloc_log_buffs_spec Let_def using True by (simp only:) simp
next
  case False
  then obtain k where k: "alloc k = None" "k < NUM_LOG_BUFF" by auto
  then have "takeWhile (\<lambda>k. alloc k \<noteq> None) [0..<NUM_LOG_BUFF] = [0..<(LEAST k. alloc k = None)]"
    using takeWhile_upt_least [of "\<lambda>k. alloc k \<noteq> None" k NUM_LOG_BUFF] by simp
  moreover have "(LEAST k. alloc k = None) < NUM_LOG_BUFF"
    using Least_le [of "\<lambda>k. alloc k = None" k] k by simp
  ultimately show ?thesis unfolding alloc_log_buffs_spec Let_def using False by (simp only:) simp
qed

lemma alloc_log_buffs_wf:
  assumes "\<And>k. k < NUM_LOG_BUFF \<Longrightarrow> \<exists>r. alloc k = Some r \<and> length r = MAX_ENTRIES_PER_LOG_BUFF"
  shows "\<exists>lb. alloc_log_buffs alloc 0 [] = Inr lb \<and> wf_log lb"
proof -
  have "takeWhile (\<lambda>k. alloc k \<noteq> None) [0..<NUM_LOG_BUFF] = [0..<NUM_LOG_BUFF]"
    using assms by (fastforce simp: takeWhile_eq_all_conv)
  then have "alloc_log_buffs alloc 0 [] = Inr (map (\<lambda>k. the (alloc k)) [0..<NUM_LOG_BUFF])"
    unfolding alloc_log_buffs_spec Let_def by (simp only:) simp
  moreover have "wf_log (map (\<lambda>k. the (alloc k)) [0..<NUM_LOG_BUFF])"
    using assms by (fastforce simp: wf_log_def)
  ultimately show ?thesis by blast
qed

section \<open>Export\<close>

lemma nth_concat_uniform:
  assumes "\<forall>r \<in> set xss. length r = m" and "i < m * length xss"
  shows "concat xss ! i = xss ! (i div m) ! (i mod m)"
  using assms
proof (induction xss arbitrary: i)
  case (Cons xs xss)
  show ?case
  proof (cases "i < m")
    case False
    then have "m > 0" and le: "m \<le> i" using Cons.prems by (auto intro: Nat.gr0I)
    then have "i div m = Suc ((i - m) div m)" "i mod m = (i - m) mod m"
      by (simp_all add: le_div_geq le_mod_geq)
    then show ?thesis using Cons False by (simp add: nth_append)
  qed (use Cons in \<open>simp add: nth_append\<close>)
qed simp

lemma wf_log_concat:
  assumes "wf_log lb"
  shows "length (concat lb) = MAX_LOG_ENTRY"
    and "i < MAX_LOG_ENTRY \<Longrightarrow> log_read lb i = Some (concat lb ! i)"
proof -
  have "length (concat lb) = sum_list (map length lb)" by (simp add: length_concat)
  also have "\<dots> = MAX_ENTRIES_PER_LOG_BUFF * length lb"
    using assms by (simp add: wf_log_def sum_list_triv cong: map_cong)
  finally show "length (concat lb) = MAX_LOG_ENTRY"
    using assms by (simp add: wf_log_def const_vals)
  assume "i < MAX_LOG_ENTRY"
  then show "log_read lb i = Some (concat lb ! i)"
    using assms nth_concat_uniform [of lb MAX_ENTRIES_PER_LOG_BUFF i]
    by (simp add: log_read_some) (simp add: wf_log_def const_vals)
qed

lemma lt_run_concat:
  assumes "wf_log lb" and "foldM (\<lambda>l (uid, now). log_write l uid now) lb evs = Some lb'"
  shows "concat lb' = map (\<lambda>i. last_stamp i evs (concat lb ! i)) [0..<MAX_LOG_ENTRY]"
proof -
  have wf': "wf_log lb'" using lt.run_defined [OF assms(1), of evs] assms(2) by auto
  have "log_read lb' i = Some (last_stamp i evs (concat lb ! i))" if "i < MAX_LOG_ENTRY" for i
    using lt.run_lookup [OF assms that] wf_log_concat(2) [OF assms(1) that] by blast
  then show ?thesis using wf_log_concat [OF wf'] by (intro nth_equalityI) auto
qed

lemma export_log_acc:
  assumes "wf_log lb" and "i \<le> MAX_LOG_ENTRY"
  shows "export_log lb i out z =
    Some (out @ concat (map print_entry (drop i (concat lb))),
          z + of_nat (length (filter (\<lambda>v. v = 0) (drop i (concat lb)))))"
  using assms
proof (induction lb i out z rule: export_log.induct)
  case (1 lb i out z)
  note len = wf_log_concat(1) [OF "1.prems"(1)]
  show ?case
  proof (cases "i < MAX_LOG_ENTRY")
    case True
    let ?v = "concat lb ! i"
    have "drop i (concat lb) = ?v # drop (Suc i) (concat lb)"
      using True len by (simp add: Cons_nth_drop_Suc)
    moreover have "log_read lb i = Some ?v" using wf_log_concat(2) "1.prems"(1) True .
    ultimately show ?thesis
      using 1 True by (simp add: export_log.simps [of lb i] algebra_simps)
  next
    case False
    then show ?thesis using len "1.prems" export_log.simps [of lb i out z] by simp
  qed
qed

lemma dec_digits_no_newline: "CHR 0x0A \<notin> set (dec_digits n)"
proof (induction n rule: dec_digits.induct)
  case (1 n)
  have digit: "char_of (48 + d) \<noteq> CHR 0x0A" if "d < 10" for d :: nat
  proof
    assume "char_of (48 + d) = CHR 0x0A"
    then have "of_char (char_of (48 + d) :: char) = (of_char (CHR 0x0A) :: nat)" by simp
    with that show False by simp
  qed
  show ?case
    using 1 digit [of n] digit [of "n mod 10"] by (subst dec_digits.simps) auto
qed

lemma file_lines_line:
  "CHR 0x0A \<notin> set l \<Longrightarrow> file_lines (l @ CHR 0x0A # rest) = l # file_lines rest"
  by (induction l) (auto split: list.splits)

lemma parse_print_entries:
  "parse_log (concat (map print_entry vs)) = map unat vs"
  by (induction vs)
    (simp_all add: parse_log_def print_entry_def file_lines_line dec_digits_no_newline)

lemma export_of_run:
  assumes "wf_log lb" and "foldM (\<lambda>l (uid, now). log_write l uid now) lb evs = Some lb'"
  shows "\<exists>out zeroed. export_log lb' 0 [] 0 = Some (out, zeroed)
    \<and> parse_log out = map (\<lambda>i. unat (last_stamp i evs (concat lb ! i))) [0..<MAX_LOG_ENTRY]"
proof -
  have "wf_log lb'" using lt.run_defined [OF assms(1), of evs] assms(2) by auto
  from export_log_acc [OF this, of 0 "[]" 0] obtain z where
    "export_log lb' 0 [] 0 = Some (concat (map print_entry (concat lb')), z)" by simp
  moreover have "parse_log (concat (map print_entry (concat lb')))
      = map (\<lambda>i. unat (last_stamp i evs (concat lb ! i))) [0..<MAX_LOG_ENTRY]"
    unfolding parse_print_entries lt_run_concat [OF assms] by simp
  ultimately show ?thesis by blast
qed

section \<open>Properties\<close>

text \<open>A table as a zeroing allocator hands it out.\<close>

definition zero_log :: log_table where
  "zero_log = replicate NUM_LOG_BUFF (replicate MAX_ENTRIES_PER_LOG_BUFF 0)"

lemma wf_zero_log: "wf_log zero_log"
  by (simp add: wf_log_def zero_log_def)

lemma concat_zero_log: "concat zero_log = replicate MAX_LOG_ENTRY 0"
  by (simp add: zero_log_def const_vals)

text \<open>C10: The exported text reads back as the table: for a table of the right shape the export
  loop makes no access out of bounds, the decimal numbers in the lines of its output are the
  timestamps in the order of their uids, one line per uid below \<^verbatim>\<open>MAX_LOG_ENTRY\<close>, and the
  reported count is the number of entries that are zero.\<close>

theorem export_log_roundtrip:
  assumes "wf_log lb"
  shows "\<exists>out. export_log lb 0 [] 0
      = Some (out, of_nat (length (filter (\<lambda>v. v = 0) (concat lb))))
    \<and> parse_log out = map unat (concat lb) \<and> length (parse_log out) = MAX_LOG_ENTRY"
  using export_log_acc [OF assms, of 0 "[]" 0] wf_log_concat(1) [OF assms]
  by (simp add: parse_print_entries)

theorem export_log_roundtrip_witness:
  "\<exists>out. export_log zero_log 0 [] 0 = Some (out, of_nat MAX_LOG_ENTRY)
    \<and> parse_log out = replicate MAX_LOG_ENTRY 0"
  using export_log_roundtrip [OF wf_zero_log] by (auto simp: concat_zero_log)

end
