(* ===== verification/KM_Cache.thy ===== *)
theory KM_Cache
  imports Log_Table
begin

text \<open>
  The packet cache of the kernel module (\<^verbatim>\<open>mymodule/kernel_module/intercept-module.c\<close>): the
  receive handler \<^verbatim>\<open>rxhPacketIn\<close>, which logs the arrival time of a packet and copies its UDP
  payload into a free slot of the cache, and \<^verbatim>\<open>read\<close>, which hands up to
  \<^const>\<open>PKTS_PER_BUFFER\<close> occupied slots to user space and frees them.

  The cache is an array of \<^const>\<open>MAX_PKT\<close> slots of \<^const>\<open>PKT_BUFFER_SIZE\<close> bytes with a
  status per slot and the index \<open>current_index\<close> after the last slot written. Both functions
  scan the slots cyclically from \<open>current_index\<close>.
\<close>

record sk_buff =
  skb_head :: bytes
  skb_data :: nat
  skb_network_header :: nat
  skb_transport_header :: nat

datatype rx_handler_result = RX_HANDLER_PASS

record km_state =
  km_log_buffs :: log_table
  buff_from_here :: bytes
  buff_temp :: bytes
  current_index :: nat
  status :: "int list"
  count_pkt :: u64
  count_pkt_overflow :: u64

section \<open>The receive handler\<close>

text \<open>The body of the search loop once a free slot is found. The number of bytes copied is
  \<^verbatim>\<open>(unsigned int)ntohs(udp_udphdr->len) - 8\<close>, a 32-bit unsigned value.\<close>

definition udp_copy_len :: "u16 \<Rightarrow> nat" where
  "udp_copy_len len = unat ((ucast (bswap16 len) :: u32) - 8)"

definition rx_payload :: "sk_buff \<Rightarrow> bytes option" where
  "rx_payload pkt = do {
     len \<leftarrow> load16 (skb_head pkt) (skb_transport_header pkt + 4);
     load (skb_head pkt) (skb_data pkt + 28) (udp_copy_len len)
   }"

definition rx_store_slot :: "sk_buff \<Rightarrow> nat \<Rightarrow> km_state \<Rightarrow> km_state option" where
  "rx_store_slot pkt write_index s = do {
     src \<leftarrow> rx_payload pkt;
     buf \<leftarrow> store (buff_from_here s) (write_index * PKT_BUFFER_SIZE) src;
     st \<leftarrow> arr_set (status s) write_index 1;
     Some (s\<lparr>buff_from_here := buf, status := st,
              current_index := (write_index + 1) mod MAX_PKT\<rparr>)
   }"

function rx_cache_loop :: "sk_buff \<Rightarrow> nat \<Rightarrow> nat \<Rightarrow> km_state \<Rightarrow> km_state option" where
  "rx_cache_loop pkt tries write_index s =
     (if tries < KM_FIND_BUFF_SLOT_MAX_TRY then do {
        st \<leftarrow> arr_get (status s) write_index;
        if st = 0 then rx_store_slot pkt write_index s
        else let write_index' = (write_index + 1) mod MAX_PKT; tries' = tries + 1;
                 s' = (if tries' = KM_FIND_BUFF_SLOT_MAX_TRY
                       then s\<lparr>count_pkt_overflow := count_pkt_overflow s + 1\<rparr> else s)
             in rx_cache_loop pkt tries' write_index' s'
      } else Some s)"
  by pat_completeness auto
termination
  by (relation "measure (\<lambda>(pkt, tries, wi, s). KM_FIND_BUFF_SLOT_MAX_TRY - tries)") auto

declare rx_cache_loop.simps [simp del]

text \<open>The filter at the head of the handler: IPv4, UDP, destination port 8080.\<close>

definition rx_wanted :: "sk_buff \<Rightarrow> bool option" where
  "rx_wanted pkt = do {
     version_ihl \<leftarrow> arr_get (skb_head pkt) (skb_network_header pkt);
     if drop_bit 4 version_ihl \<noteq> 4 then Some False else do {
     protocol \<leftarrow> arr_get (skb_head pkt) (skb_network_header pkt + 9);
     if protocol \<noteq> 17 then Some False else do {
     dest \<leftarrow> load16 (skb_head pkt) (skb_transport_header pkt + 2);
     Some (bswap16 dest = 8080) }}}"

definition rxhPacketIn :: "u64 \<Rightarrow> sk_buff \<Rightarrow> km_state \<Rightarrow> (rx_handler_result \<times> km_state) option" where
  "rxhPacketIn now pkt s = do {
     wanted \<leftarrow> rx_wanted pkt;
     if \<not> wanted then Some (RX_HANDLER_PASS, s) else do {
     let s = s\<lparr>count_pkt := count_pkt s + 1\<rparr>;
     uid \<leftarrow> load64 (skb_head pkt) (skb_data pkt + 28 + 8);
     lb \<leftarrow> log_write (km_log_buffs s) uid now;
     let s = s\<lparr>km_log_buffs := lb\<rparr>;
     s \<leftarrow> rx_cache_loop pkt 0 (current_index s) s;
     Some (RX_HANDLER_PASS, s) }}"

section \<open>Reading the cache from user space\<close>

text \<open>The scan of \<^verbatim>\<open>read\<close>: \<open>copied_index\<close> is the C array of \<^const>\<open>PKTS_PER_BUFFER\<close> integers,
  \<open>-1\<close> where no packet was taken.\<close>

function read_scan ::
    "km_state \<Rightarrow> nat \<Rightarrow> nat \<Rightarrow> nat \<Rightarrow> bytes \<Rightarrow> int list \<Rightarrow> (bytes \<times> int list) option" where
  "read_scan s tries ci copied_pkts temp copied_index =
     (if copied_pkts < PKTS_PER_BUFFER \<and> tries < MAX_PKT then do {
        st \<leftarrow> arr_get (status s) ci;
        if st \<noteq> 0 then do {
          chunk \<leftarrow> load (buff_from_here s) (ci * PKT_BUFFER_SIZE) PKT_BUFFER_SIZE;
          temp \<leftarrow> store temp (copied_pkts * PKT_BUFFER_SIZE) chunk;
          copied_index \<leftarrow> arr_set copied_index copied_pkts (int ci);
          read_scan s (tries + 1) ((ci + 1) mod MAX_PKT) (copied_pkts + 1) temp copied_index
        } else read_scan s (tries + 1) ((ci + 1) mod MAX_PKT) copied_pkts temp copied_index
      } else Some (temp, copied_index))"
  by pat_completeness auto
termination
  by (relation "measure (\<lambda>(s, tries, ci, n, t, c). MAX_PKT - tries)") auto

declare read_scan.simps [simp del]

text \<open>The clean-up after a successful copy: zero each delivered slot and mark it free.\<close>

definition free_slot :: "km_state \<Rightarrow> int \<Rightarrow> km_state option" where
  "free_slot s idx =
     (if idx \<noteq> -1 then do {
        buf \<leftarrow> store (buff_from_here s) (nat idx * PKT_BUFFER_SIZE) (replicate PKT_BUFFER_SIZE 0);
        st \<leftarrow> arr_set (status s) (nat idx) 0;
        Some (s\<lparr>buff_from_here := buf, status := st\<rparr>)
      } else Some s)"

text \<open>\<^verbatim>\<open>read\<close>: \<open>copy_fails\<close> is whether \<^verbatim>\<open>copy_to_user\<close> reports bytes it could not copy. The
  result is the return value, the bytes delivered to the user buffer (if any) and the new
  state. The local variable \<^verbatim>\<open>ret\<close> is computed by the code and never returned.\<close>

definition km_read ::
    "bool \<Rightarrow> u64 \<Rightarrow> u64 \<Rightarrow> km_state \<Rightarrow> (int \<times> bytes option \<times> km_state) option" where
  "km_read copy_fails len off s =
     (if of_nat BUFFER_SIZE \<le> off then Some (int BUFFER_SIZE, None, s)
      else do {
        temp \<leftarrow> store (buff_temp s) 0 (replicate BUFFER_SIZE 0);
        (temp, copied_index) \<leftarrow>
           read_scan s 0 (current_index s) 0 temp (replicate PKTS_PER_BUFFER (-1));
        let s = s\<lparr>buff_temp := temp\<rparr>;
        if copy_fails then Some (int BUFFER_SIZE, None, s)
        else do {
          out \<leftarrow> load temp 0 BUFFER_SIZE;
          s \<leftarrow> foldM free_slot s copied_index;
          Some (int BUFFER_SIZE, Some out, s)
        }
      })"

section \<open>The slots in scan order\<close>

definition cyc :: "nat \<Rightarrow> nat list" where
  "cyc ci = map (\<lambda>k. (ci + k) mod MAX_PKT) [0..<MAX_PKT]"

definition slot_of :: "bytes \<Rightarrow> nat \<Rightarrow> bytes" where
  "slot_of buf i = take PKT_BUFFER_SIZE (drop (i * PKT_BUFFER_SIZE) buf)"

abbreviation slot :: "km_state \<Rightarrow> nat \<Rightarrow> bytes" where
  "slot s \<equiv> slot_of (buff_from_here s)"

definition occupied :: "km_state \<Rightarrow> nat \<Rightarrow> bool" where
  "occupied s i \<longleftrightarrow> status s ! i \<noteq> 0"

text \<open>The abstract state of the cache: the contents of the occupied slots in scan order.\<close>

definition km_queue :: "km_state \<Rightarrow> bytes list" where
  "km_queue s = map (slot s) (filter (occupied s) (cyc (current_index s)))"

text \<open>The invariant: the arrays have their sizes, and in scan order the free slots come first,
  which makes the cache a ring buffer; free slots hold zeros.\<close>

definition km_shape :: "km_state \<Rightarrow> bool" where
  "km_shape s \<longleftrightarrow> current_index s < MAX_PKT \<and> length (status s) = MAX_PKT
     \<and> length (buff_from_here s) = MAX_PKT * PKT_BUFFER_SIZE
     \<and> length (buff_temp s) = BUFFER_SIZE \<and> wf_log (km_log_buffs s)"

definition km_inv :: "km_state \<Rightarrow> bool" where
  "km_inv s \<longleftrightarrow> km_shape s \<and> sorted (map (occupied s) (cyc (current_index s)))
     \<and> (\<forall>i < MAX_PKT. \<not> occupied s i \<longrightarrow> slot s i = replicate PKT_BUFFER_SIZE 0)"

lemma MAX_PKT_pos [simp]: "0 < MAX_PKT"
  by (simp add: const_vals)

lemma length_cyc [simp]: "length (cyc ci) = MAX_PKT"
  by (simp add: cyc_def)

lemma nth_cyc: "k < MAX_PKT \<Longrightarrow> cyc ci ! k = (ci + k) mod MAX_PKT"
  by (simp add: cyc_def)

lemma cyc_rotate: "cyc ci = rotate ci [0..<MAX_PKT]"
  by (rule nth_equalityI) (simp_all add: cyc_def nth_rotate)

lemma set_cyc [simp]: "set (cyc ci) = {..<MAX_PKT}"
  by (auto simp: cyc_rotate)

lemma distinct_cyc [simp]: "distinct (cyc ci)"
  by (simp add: cyc_rotate)

lemma cyc_Cons: "ci < MAX_PKT \<Longrightarrow> cyc ci = ci # tl (cyc ci)"
  by (simp add: cyc_def upt_conv_Cons)

lemma cyc_step:
  assumes "ci < MAX_PKT"
  shows "cyc ((ci + 1) mod MAX_PKT) = tl (cyc ci) @ [ci]"
proof -
  have "cyc ((ci + 1) mod MAX_PKT) = rotate (Suc ci) [0..<MAX_PKT]"
    using rotate_conv_mod [of "Suc ci" "[0..<MAX_PKT]"] by (simp add: cyc_rotate)
  also have "\<dots> = rotate1 (cyc ci)"
    by (simp add: cyc_rotate)
  also have "\<dots> = tl (cyc ci) @ [ci]"
    using cyc_Cons [OF assms] by (metis rotate1.simps(2))
  finally show ?thesis .
qed

section \<open>Slots\<close>

lemma slot_load:
  "length buf = MAX_PKT * PKT_BUFFER_SIZE \<Longrightarrow> i < MAX_PKT \<Longrightarrow>
    load buf (i * PKT_BUFFER_SIZE) PKT_BUFFER_SIZE = Some (slot_of buf i)"
  by (simp add: load_def slot_of_def const_vals)

lemma length_slot:
  "length buf = MAX_PKT * PKT_BUFFER_SIZE \<Longrightarrow> i < MAX_PKT \<Longrightarrow>
    length (slot_of buf i) = PKT_BUFFER_SIZE"
  by (simp add: slot_of_def const_vals)

lemma slot_store_defined:
  "length m = MAX_PKT * PKT_BUFFER_SIZE \<Longrightarrow> w < MAX_PKT \<Longrightarrow> length src \<le> PKT_BUFFER_SIZE \<Longrightarrow>
    \<exists>buf. store m (w * PKT_BUFFER_SIZE) src = Some buf"
  by (simp add: store_def const_vals)

lemma slot_store:
  assumes st: "store m (w * PKT_BUFFER_SIZE) src = Some buf"
    and len: "length m = MAX_PKT * PKT_BUFFER_SIZE"
    and src: "length src \<le> PKT_BUFFER_SIZE" and i: "i < MAX_PKT"
  shows "slot_of buf i = (if i = w then src @ drop (length src) (slot_of m w) else slot_of m i)"
proof (cases "i = w")
  case True
  have "w * PKT_BUFFER_SIZE + PKT_BUFFER_SIZE \<le> length m"
    using i len True by (simp add: const_vals)
  then show ?thesis
    using st src True
    by (auto simp: slot_of_def store_def drop_take add.commute split: if_splits)
next
  case False
  then have "i * PKT_BUFFER_SIZE + PKT_BUFFER_SIZE \<le> w * PKT_BUFFER_SIZE
      \<or> w * PKT_BUFFER_SIZE + length src \<le> i * PKT_BUFFER_SIZE"
    using src by (simp add: const_vals) linarith
  then have "load buf (i * PKT_BUFFER_SIZE) PKT_BUFFER_SIZE
      = load m (i * PKT_BUFFER_SIZE) PKT_BUFFER_SIZE"
    using load_store_disjoint [OF st] by simp
  moreover have "length buf = MAX_PKT * PKT_BUFFER_SIZE"
    using length_store [OF st] len by simp
  ultimately show ?thesis
    using slot_load [OF _ i, of buf] slot_load [OF len i] False by simp
qed

section \<open>The search for a free slot\<close>

lemma tries_eq: "KM_FIND_BUFF_SLOT_MAX_TRY = MAX_PKT"
  by (simp add: const_vals)

text \<open>The handler takes the first free slot in scan order; with none free it counts the packet
  as an overflow and leaves the cache alone.\<close>

lemma rx_cache_loop_spec:
  assumes "length (status s) = MAX_PKT" and "tries < MAX_PKT"
  shows "rx_cache_loop pkt tries ((ci + tries) mod MAX_PKT) s =
    (case filter (\<lambda>i. \<not> occupied s i) (drop tries (cyc ci)) of
       [] \<Rightarrow> Some (s\<lparr>count_pkt_overflow := count_pkt_overflow s + 1\<rparr>)
     | w # _ \<Rightarrow> rx_store_slot pkt w s)"
  using assms(2)
proof (induction "MAX_PKT - tries" arbitrary: tries)
  case 0
  then show ?case by simp
next
  case (Suc k)
  let ?wi = "(ci + tries) mod MAX_PKT"
  have get: "arr_get (status s) ?wi = Some (status s ! ?wi)"
    using assms(1) by (simp add: arr_get_def)
  have scan: "drop tries (cyc ci) = ?wi # drop (Suc tries) (cyc ci)"
    using Suc.prems Cons_nth_drop_Suc [of tries "cyc ci"] by (simp add: nth_cyc)
  have next_wi: "(?wi + 1) mod MAX_PKT = (ci + Suc tries) mod MAX_PKT"
    by (simp add: mod_Suc_eq)
  note unroll = rx_cache_loop.simps [of pkt tries ?wi s]
  show ?case
  proof (cases "occupied s ?wi")
    case False
    then show ?thesis
      using Suc.prems get scan by (simp add: unroll tries_eq occupied_def)
  next
    case True
    let ?s' = "s\<lparr>count_pkt_overflow := count_pkt_overflow s + 1\<rparr>"
    show ?thesis
    proof (cases "Suc tries = MAX_PKT")
      case last: True
      have "rx_cache_loop pkt MAX_PKT (Suc ?wi mod MAX_PKT) ?s' = Some ?s'"
        by (simp add: rx_cache_loop.simps [of pkt MAX_PKT] tries_eq)
      then show ?thesis
        using Suc.prems True get scan last
        by (simp add: unroll tries_eq occupied_def Let_def)
    next
      case False
      with Suc have "rx_cache_loop pkt (Suc tries) ((ci + Suc tries) mod MAX_PKT) s =
          (case filter (\<lambda>i. \<not> occupied s i) (drop (Suc tries) (cyc ci)) of
             [] \<Rightarrow> Some ?s' | w # _ \<Rightarrow> rx_store_slot pkt w s)"
        by (intro Suc.hyps(1)) auto
      then show ?thesis
        using Suc.prems True False get scan next_wi
        by (simp add: unroll tries_eq occupied_def Let_def)
    qed
  qed
qed

lemma rx_cache_loop_0:
  assumes "length (status s) = MAX_PKT" and "current_index s < MAX_PKT"
  shows "rx_cache_loop pkt 0 (current_index s) s =
    (case filter (\<lambda>i. \<not> occupied s i) (cyc (current_index s)) of
       [] \<Rightarrow> Some (s\<lparr>count_pkt_overflow := count_pkt_overflow s + 1\<rparr>)
     | w # _ \<Rightarrow> rx_store_slot pkt w s)"
  using rx_cache_loop_spec [OF assms(1), of 0 pkt "current_index s"] assms(2) by simp

lemma length_km_queue: "length (km_queue s) \<le> MAX_PKT"
  using length_filter_le [of "occupied s" "cyc (current_index s)"] by (simp add: km_queue_def)

text \<open>Under the invariant the slot at \<open>current_index\<close> is free unless all slots are taken.\<close>

lemma km_inv_current:
  assumes "km_inv s"
  shows "occupied s (current_index s) \<longleftrightarrow> length (km_queue s) = MAX_PKT"
    and "occupied s (current_index s) \<longleftrightarrow> filter (\<lambda>i. \<not> occupied s i) (cyc (current_index s)) = []"
proof -
  have ci: "current_index s < MAX_PKT" and sorted: "sorted (map (occupied s) (cyc (current_index s)))"
    using assms by (auto simp: km_inv_def km_shape_def)
  have head: "cyc (current_index s) = current_index s # tl (cyc (current_index s))"
    by (rule cyc_Cons [OF ci])
  have all: "occupied s (current_index s) \<longleftrightarrow> (\<forall>i \<in> set (cyc (current_index s)). occupied s i)"
  proof -
    obtain rest where rest: "cyc (current_index s) = current_index s # rest" using head by blast
    then show ?thesis using sorted by auto
  qed
  then show "occupied s (current_index s) \<longleftrightarrow>
      filter (\<lambda>i. \<not> occupied s i) (cyc (current_index s)) = []"
    by (simp add: filter_empty_conv)
  have "length (km_queue s) = MAX_PKT \<longleftrightarrow>
      length (filter (occupied s) (cyc (current_index s))) = length (cyc (current_index s))"
    by (simp add: km_queue_def)
  also have "\<dots> \<longleftrightarrow> (\<forall>i \<in> set (cyc (current_index s)). occupied s i)"
    by (metis filter_True length_filter_less less_irrefl_nat)
  finally show "occupied s (current_index s) \<longleftrightarrow> length (km_queue s) = MAX_PKT"
    using all by simp
qed

section \<open>Receiving is enqueueing\<close>

definition padded :: "bytes \<Rightarrow> bytes" where
  "padded p = p @ replicate (PKT_BUFFER_SIZE - length p) 0"

text \<open>The queue and the invariant only depend on the cache, not on the log and the counters.\<close>

lemma occupied_frame [simp]:
  "occupied (s\<lparr>count_pkt := n\<rparr>) = occupied s" "occupied (s\<lparr>km_log_buffs := lb\<rparr>) = occupied s"
  "occupied (s\<lparr>count_pkt_overflow := n\<rparr>) = occupied s" "occupied (s\<lparr>buff_temp := t\<rparr>) = occupied s"
  by (simp_all add: occupied_def fun_eq_iff)

lemma km_queue_frame [simp]:
  "km_queue (s\<lparr>count_pkt := n\<rparr>) = km_queue s" "km_queue (s\<lparr>km_log_buffs := lb\<rparr>) = km_queue s"
  "km_queue (s\<lparr>count_pkt_overflow := n\<rparr>) = km_queue s" "km_queue (s\<lparr>buff_temp := t\<rparr>) = km_queue s"
  by (simp_all add: km_queue_def)

lemma km_inv_frame [simp]:
  "km_inv (s\<lparr>count_pkt := n\<rparr>) = km_inv s"
  "km_inv (s\<lparr>count_pkt_overflow := n\<rparr>) = km_inv s"
  "km_inv s \<Longrightarrow> wf_log lb \<Longrightarrow> km_inv (s\<lparr>km_log_buffs := lb\<rparr>)"
  "km_inv s \<Longrightarrow> length t = BUFFER_SIZE \<Longrightarrow> km_inv (s\<lparr>buff_temp := t\<rparr>)"
  by (simp_all add: km_inv_def km_shape_def)

lemma rx_store_slot_enqueue:
  assumes inv: "km_inv s" and free: "\<not> occupied s (current_index s)"
    and p: "rx_payload pkt = Some p" "length p \<le> PKT_BUFFER_SIZE"
  shows "\<exists>s'. rx_store_slot pkt (current_index s) s = Some s' \<and> km_inv s'
    \<and> km_queue s' = km_queue s @ [padded p] \<and> km_log_buffs s' = km_log_buffs s
    \<and> count_pkt s' = count_pkt s \<and> count_pkt_overflow s' = count_pkt_overflow s"
proof -
  let ?ci = "current_index s"
  have ci: "?ci < MAX_PKT" and lst: "length (status s) = MAX_PKT"
    and lbuf: "length (buff_from_here s) = MAX_PKT * PKT_BUFFER_SIZE"
    and sorted: "sorted (map (occupied s) (cyc ?ci))"
    and zeros: "\<And>i. i < MAX_PKT \<Longrightarrow> \<not> occupied s i \<Longrightarrow> slot s i = replicate PKT_BUFFER_SIZE 0"
    using inv by (auto simp: km_inv_def km_shape_def)
  obtain buf where buf: "store (buff_from_here s) (?ci * PKT_BUFFER_SIZE) p = Some buf"
    using slot_store_defined [OF lbuf ci p(2)] by blast
  define s' where "s' = s\<lparr>buff_from_here := buf, status := (status s)[?ci := 1],
    current_index := (?ci + 1) mod MAX_PKT\<rparr>"
  have run: "rx_store_slot pkt ?ci s = Some s'"
    using p(1) buf lst ci by (simp add: rx_store_slot_def arr_set_def s'_def)
  have occ': "occupied s' i \<longleftrightarrow> i = ?ci \<or> occupied s i" if "i < MAX_PKT" for i
    using that lst by (cases "i = ?ci") (auto simp: occupied_def s'_def)
  have slot': "slot s' i = (if i = ?ci then padded p else slot s i)" if "i < MAX_PKT" for i
    using slot_store [OF buf lbuf p(2) that] zeros [OF ci free]
    by (simp add: s'_def padded_def)
  obtain rest where rest: "cyc ?ci = ?ci # rest" using cyc_Cons [OF ci] by blast
  have cyc': "cyc (current_index s') = rest @ [?ci]"
    using cyc_step [OF ci] rest by (simp add: s'_def)
  have in_rest: "i < MAX_PKT" "i \<noteq> ?ci" if "i \<in> set rest" for i
    using that rest distinct_cyc [of ?ci] set_cyc [of ?ci] by auto
  have occ_rest: "map (occupied s') rest = map (occupied s) rest"
    "filter (occupied s') rest = filter (occupied s) rest"
    using occ' in_rest by (auto intro!: filter_cong)
  have "km_queue s' = map (slot s') (filter (occupied s) rest) @ [slot s' ?ci]"
    using occ' [OF ci] occ_rest by (simp add: km_queue_def cyc')
  also have "map (slot s') (filter (occupied s) rest) = map (slot s) (filter (occupied s) rest)"
    using slot' in_rest by auto
  also have "\<dots> = km_queue s" using free by (simp add: km_queue_def rest)
  finally have queue: "km_queue s' = km_queue s @ [padded p]" using slot' [OF ci] by simp
  have "sorted (map (occupied s') (cyc (current_index s')))"
    unfolding cyc' map_append occ_rest(1)
    using sorted occ' [OF ci] by (simp add: rest sorted_append)
  moreover have "km_shape s'"
    using inv length_store [OF buf] by (simp add: km_inv_def km_shape_def s'_def)
  ultimately have "km_inv s'"
    using occ' slot' zeros by (auto simp: km_inv_def)
  with run queue show ?thesis by (simp add: s'_def)
qed

lemma rxhPacketIn_pass:
  "rx_wanted pkt = Some False \<Longrightarrow> rxhPacketIn now pkt s = Some (RX_HANDLER_PASS, s)"
  by (simp add: rxhPacketIn_def)

lemma rxhPacketIn_enqueue:
  assumes inv: "km_inv s" and w: "rx_wanted pkt = Some True"
    and uid: "load64 (skb_head pkt) (skb_data pkt + 36) = Some uid"
    and p: "rx_payload pkt = Some p" "length p \<le> PKT_BUFFER_SIZE"
  shows "\<exists>s'. rxhPacketIn now pkt s = Some (RX_HANDLER_PASS, s') \<and> km_inv s'
    \<and> log_write (km_log_buffs s) uid now = Some (km_log_buffs s')
    \<and> count_pkt s' = count_pkt s + 1
    \<and> km_queue s' = (if length (km_queue s) < MAX_PKT then km_queue s @ [padded p] else km_queue s)
    \<and> count_pkt_overflow s'
        = (if length (km_queue s) < MAX_PKT then count_pkt_overflow s else count_pkt_overflow s + 1)"
proof -
  obtain lb where lb: "log_write (km_log_buffs s) uid now = Some lb" "wf_log lb"
    using inv wf_log_write [of "km_log_buffs s" uid now] by (auto simp: km_inv_def km_shape_def)
  define s1 where "s1 = s\<lparr>count_pkt := count_pkt s + 1, km_log_buffs := lb\<rparr>"
  have inv1: "km_inv s1" using inv lb(2) by (simp add: s1_def)
  have q1: "km_queue s1 = km_queue s" by (simp add: s1_def)
  have rx: "rxhPacketIn now pkt s =
      Option.bind (rx_cache_loop pkt 0 (current_index s1) s1) (\<lambda>s. Some (RX_HANDLER_PASS, s))"
    using w uid lb(1) by (simp add: rxhPacketIn_def s1_def add.commute)
  have shape: "length (status s1) = MAX_PKT" "current_index s1 < MAX_PKT"
    using inv1 by (auto simp: km_inv_def km_shape_def)
  note loop = rx_cache_loop_0 [OF shape, of pkt] and cur = km_inv_current [OF inv1]
  show ?thesis
  proof (cases "occupied s1 (current_index s1)")
    case True
    then have "rx_cache_loop pkt 0 (current_index s1) s1
        = Some (s1\<lparr>count_pkt_overflow := count_pkt_overflow s1 + 1\<rparr>)"
      using loop cur by simp
    then show ?thesis using True rx inv1 q1 cur lb by (simp add: s1_def)
  next
    case False
    have "filter (\<lambda>i. \<not> occupied s1 i) (cyc (current_index s1)) =
        current_index s1 # filter (\<lambda>i. \<not> occupied s1 i) (tl (cyc (current_index s1)))"
      using False cyc_Cons [OF shape(2)] by (metis filter.simps(2))
    then have run: "rx_cache_loop pkt 0 (current_index s1) s1 = rx_store_slot pkt (current_index s1) s1"
      using loop by simp
    have "length (km_queue s) < MAX_PKT"
      using False cur(1) q1 length_km_queue [of s] by fastforce
    then show ?thesis
      using rx run rx_store_slot_enqueue [OF inv1 False p] q1 lb by (auto simp: s1_def)
  qed
qed

section \<open>Reading is dequeueing\<close>

text \<open>The slots a scan takes: the first occupied ones in scan order, as many as fit.\<close>

definition to_take :: "km_state \<Rightarrow> nat list" where
  "to_take s = take PKTS_PER_BUFFER (filter (occupied s) (cyc (current_index s)))"

lemma concat_slots_length:
  assumes "length (buff_from_here s) = MAX_PKT * PKT_BUFFER_SIZE" and "set L \<subseteq> {..<MAX_PKT}"
  shows "length (concat (map (slot s) L)) = length L * PKT_BUFFER_SIZE"
  using assms by (induction L) (auto simp: length_slot)

lemma read_scan_spec:
  assumes lst: "length (status s) = MAX_PKT"
    and lbuf: "length (buff_from_here s) = MAX_PKT * PKT_BUFFER_SIZE"
    and "tries \<le> MAX_PKT" and "n \<le> PKTS_PER_BUFFER"
    and "length temp = BUFFER_SIZE" and "length cidx = PKTS_PER_BUFFER"
    and "L = take (PKTS_PER_BUFFER - n) (filter (occupied s) (drop tries (cyc ci)))"
  shows "read_scan s tries ((ci + tries) mod MAX_PKT) n temp cidx =
    Some (take (n * PKT_BUFFER_SIZE) temp @ concat (map (slot s) L)
            @ drop ((n + length L) * PKT_BUFFER_SIZE) temp,
          take n cidx @ map int L @ drop (n + length L) cidx)"
  using assms(3-)
proof (induction "MAX_PKT - tries" arbitrary: tries n temp cidx L)
  case 0
  then show ?case using read_scan.simps [of s tries "(ci + tries) mod MAX_PKT" n temp cidx] by simp
next
  case (Suc k)
  let ?wi = "(ci + tries) mod MAX_PKT"
  have t: "tries < MAX_PKT" using Suc.hyps(2) by simp
  have get: "arr_get (status s) ?wi = Some (status s ! ?wi)"
    using lst by (simp add: arr_get_def)
  have scan: "drop tries (cyc ci) = ?wi # drop (Suc tries) (cyc ci)"
    using t Cons_nth_drop_Suc [of tries "cyc ci"] by (simp add: nth_cyc)
  have next_wi: "(?wi + 1) mod MAX_PKT = (ci + Suc tries) mod MAX_PKT"
    by (simp add: mod_Suc_eq)
  note unroll = read_scan.simps [of s tries ?wi n temp cidx]
  consider (full) "n = PKTS_PER_BUFFER" | (take) "n < PKTS_PER_BUFFER" "occupied s ?wi"
    | (skip) "n < PKTS_PER_BUFFER" "\<not> occupied s ?wi"
    using Suc.prems(2) by linarith
  then show ?case
  proof cases
    case full
    then show ?thesis using Suc.prems unroll by simp
  next
    case skip
    have L: "L = take (PKTS_PER_BUFFER - n) (filter (occupied s) (drop (Suc tries) (cyc ci)))"
      using Suc.prems(5) skip scan by simp
    have "read_scan s tries ?wi n temp cidx
        = read_scan s (Suc tries) ((ci + Suc tries) mod MAX_PKT) n temp cidx"
      using skip t get next_wi by (simp add: unroll occupied_def)
    also have "\<dots> = Some (take (n * PKT_BUFFER_SIZE) temp @ concat (map (slot s) L)
            @ drop ((n + length L) * PKT_BUFFER_SIZE) temp,
          take n cidx @ map int L @ drop (n + length L) cidx)"
      using Suc.hyps(2) Suc.prems(1-4) t by (intro Suc.hyps(1) [OF _ _ _ _ _ L]) auto
    finally show ?thesis .
  next
    case take
    define L' where "L' = take (PKTS_PER_BUFFER - Suc n) (filter (occupied s) (drop (Suc tries) (cyc ci)))"
    have L: "L = ?wi # L'"
      using Suc.prems(5) take scan by (simp add: L'_def Suc_diff_Suc [symmetric] del: Suc_diff_Suc)
    have chunk: "load (buff_from_here s) (?wi * PKT_BUFFER_SIZE) PKT_BUFFER_SIZE = Some (slot s ?wi)"
      using slot_load [OF lbuf, of ?wi] by simp
    have ls: "length (slot s ?wi) = PKT_BUFFER_SIZE" using length_slot [OF lbuf, of ?wi] by simp
    let ?temp = "take (n * PKT_BUFFER_SIZE) temp @ slot s ?wi @ drop (Suc n * PKT_BUFFER_SIZE) temp"
    let ?cidx = "cidx[n := int ?wi]"
    have fits: "n * PKT_BUFFER_SIZE + PKT_BUFFER_SIZE \<le> length temp"
      using take(1) Suc.prems(3) by (simp add: const_vals)
    then have st: "store temp (n * PKT_BUFFER_SIZE) (slot s ?wi) = Some ?temp"
      by (simp add: store_def ls add.commute)
    have "read_scan s tries ?wi n temp cidx
        = read_scan s (Suc tries) ((ci + Suc tries) mod MAX_PKT) (Suc n) ?temp ?cidx"
      using take t get next_wi chunk st Suc.prems(4)
      by (simp add: unroll occupied_def arr_set_def)
    also have "\<dots> = Some (take (Suc n * PKT_BUFFER_SIZE) ?temp @ concat (map (slot s) L')
          @ drop ((Suc n + length L') * PKT_BUFFER_SIZE) ?temp,
        take (Suc n) ?cidx @ map int L' @ drop (Suc n + length L') ?cidx)"
      using Suc.hyps(2) Suc.prems take t fits
      by (intro Suc.hyps(1)) (auto simp: L'_def ls)
    also have "take (Suc n * PKT_BUFFER_SIZE) ?temp = take (n * PKT_BUFFER_SIZE) temp @ slot s ?wi"
      using fits by (simp add: ls)
    also have "drop ((Suc n + length L') * PKT_BUFFER_SIZE) ?temp
        = drop ((n + length L) * PKT_BUFFER_SIZE) temp"
      using fits ls by (simp add: L const_vals) (simp add: ac_simps)
    also have "take (Suc n) ?cidx = take n cidx @ [int ?wi]"
      using take(1) Suc.prems(4) by (simp add: take_Suc_conv_app_nth)
    also have "drop (Suc n + length L') ?cidx = drop (n + length L) cidx"
      by (simp add: L)
    finally show ?thesis by (simp add: L)
  qed
qed

text \<open>The clean-up frees exactly the delivered slots.\<close>

lemma free_slot_defined:
  assumes "length (status s) = MAX_PKT" and "length (buff_from_here s) = MAX_PKT * PKT_BUFFER_SIZE"
    and "i < MAX_PKT"
  obtains buf where "free_slot s (int i) = Some (s\<lparr>buff_from_here := buf, status := (status s)[i := 0]\<rparr>)"
    and "length buf = MAX_PKT * PKT_BUFFER_SIZE"
    and "\<And>j. j < MAX_PKT \<Longrightarrow> slot_of buf j = (if j = i then replicate PKT_BUFFER_SIZE 0 else slot s j)"
proof -
  let ?z = "replicate PKT_BUFFER_SIZE 0 :: bytes"
  obtain buf where buf: "store (buff_from_here s) (i * PKT_BUFFER_SIZE) ?z = Some buf"
    using slot_store_defined [OF assms(2,3), of ?z] by auto
  show ?thesis
  proof (rule that)
    show "free_slot s (int i) = Some (s\<lparr>buff_from_here := buf, status := (status s)[i := 0]\<rparr>)"
      using buf assms by (simp add: free_slot_def arr_set_def)
    show "length buf = MAX_PKT * PKT_BUFFER_SIZE" using length_store [OF buf] assms by simp
    show "slot_of buf j = (if j = i then ?z else slot s j)" if "j < MAX_PKT" for j
      using slot_store [OF buf assms(2) _ that] length_slot [OF assms(2,3)] by simp
  qed
qed

lemma free_slots_none: "foldM free_slot s (replicate k (-1)) = Some s"
  by (induction k) (simp_all add: free_slot_def)

lemma free_slots_spec:
  assumes "length (status s) = MAX_PKT" and "length (buff_from_here s) = MAX_PKT * PKT_BUFFER_SIZE"
    and "set L \<subseteq> {..<MAX_PKT}"
  shows "\<exists>buf st. foldM free_slot s (map int L @ replicate k (-1))
        = Some (s\<lparr>buff_from_here := buf, status := st\<rparr>)
    \<and> length st = MAX_PKT \<and> length buf = MAX_PKT * PKT_BUFFER_SIZE
    \<and> (\<forall>j < MAX_PKT. st ! j = (if j \<in> set L then 0 else status s ! j)
        \<and> slot_of buf j = (if j \<in> set L then replicate PKT_BUFFER_SIZE 0 else slot s j))"
  using assms
proof (induction L arbitrary: s)
  case Nil
  then show ?case
    by (intro exI [of _ "buff_from_here s"] exI [of _ "status s"]) (simp add: free_slots_none)
next
  case (Cons i L)
  then have i: "i < MAX_PKT" by simp
  obtain buf where f: "free_slot s (int i) = Some (s\<lparr>buff_from_here := buf, status := (status s)[i := 0]\<rparr>)"
    and lb: "length buf = MAX_PKT * PKT_BUFFER_SIZE"
    and sl: "\<And>j. j < MAX_PKT \<Longrightarrow> slot_of buf j = (if j = i then replicate PKT_BUFFER_SIZE 0 else slot s j)"
    by (rule free_slot_defined [OF Cons.prems(1,2) i]) blast
  define s1 where "s1 = s\<lparr>buff_from_here := buf, status := (status s)[i := 0]\<rparr>"
  have s1: "length (status s1) = MAX_PKT" "length (buff_from_here s1) = MAX_PKT * PKT_BUFFER_SIZE"
    using Cons.prems lb by (simp_all add: s1_def)
  obtain buf' st' where rec: "foldM free_slot s1 (map int L @ replicate k (-1))
        = Some (s1\<lparr>buff_from_here := buf', status := st'\<rparr>)"
    and len: "length st' = MAX_PKT" "length buf' = MAX_PKT * PKT_BUFFER_SIZE"
    and each: "\<And>j. j < MAX_PKT \<Longrightarrow> st' ! j = (if j \<in> set L then 0 else status s1 ! j)
        \<and> slot_of buf' j = (if j \<in> set L then replicate PKT_BUFFER_SIZE 0 else slot s1 j)"
    using Cons.IH [OF s1] Cons.prems(3) by auto
  have "foldM free_slot s (map int (i # L) @ replicate k (-1))
      = Some (s\<lparr>buff_from_here := buf', status := st'\<rparr>)"
    using f rec by (simp add: s1_def)
  moreover have "st' ! j = (if j \<in> set (i # L) then 0 else status s ! j)
      \<and> slot_of buf' j = (if j \<in> set (i # L) then replicate PKT_BUFFER_SIZE 0 else slot s j)"
    if "j < MAX_PKT" for j
    using each [OF that] sl [OF that] that Cons.prems(1) by (cases "j = i") (simp_all add: s1_def)
  ultimately show ?case using len by blast
qed

lemma sorted_bool_split: "sorted (map P xs) \<Longrightarrow> xs = filter (\<lambda>x. \<not> P x) xs @ filter P xs"
proof (induction xs)
  case (Cons x xs)
  then show ?case
    by (cases "P x") (auto simp: filter_empty_conv filter_id_conv)
qed simp

lemma sorted_bool_join:
  assumes "\<And>a. a \<in> set A \<Longrightarrow> \<not> P a" and "\<And>b. b \<in> set B \<Longrightarrow> P b"
  shows "sorted (map P (A @ B))"
proof -
  have "map P A = replicate (length A) False" "map P B = replicate (length B) True"
    using assms by (auto intro: replicate_eqI [symmetric] simp: list_eq_iff_nth_eq)
  then show ?thesis by (simp add: sorted_append)
qed

lemma filter_not_taken:
  assumes "distinct F"
  shows "filter (\<lambda>i. i \<notin> set (take k F)) F = drop k F"
proof -
  have "filter (\<lambda>i. i \<notin> set (take k F)) (take k F @ drop k F) = drop k F"
    using set_take_disj_set_drop_if_distinct [OF assms, of k k]
    by (auto simp only: filter_append) (auto simp: filter_empty_conv filter_id_conv)
  then show ?thesis by simp
qed

lemma read_scan_0:
  assumes "km_inv s"
  shows "read_scan s 0 (current_index s) 0 (replicate BUFFER_SIZE 0) (replicate PKTS_PER_BUFFER (-1)) =
    Some (concat (take PKTS_PER_BUFFER (km_queue s))
            @ replicate (BUFFER_SIZE - length (to_take s) * PKT_BUFFER_SIZE) 0,
          map int (to_take s) @ replicate (PKTS_PER_BUFFER - length (to_take s)) (-1))"
proof -
  have "current_index s < MAX_PKT" using assms by (simp add: km_inv_def km_shape_def)
  then show ?thesis
    using assms read_scan_spec [of s 0 0 "replicate BUFFER_SIZE 0" "replicate PKTS_PER_BUFFER (-1)"
        "to_take s" "current_index s"]
    by (simp add: km_inv_def km_shape_def to_take_def km_queue_def take_map)
qed

text \<open>Freeing the taken slots drops them from the queue and keeps the ring shape.\<close>

lemma free_taken_dequeue:
  assumes inv: "km_inv s"
    and len: "length st = MAX_PKT" "length buf = MAX_PKT * PKT_BUFFER_SIZE"
    and each: "\<forall>j < MAX_PKT. st ! j = (if j \<in> set (to_take s) then 0 else status s ! j)
        \<and> slot_of buf j = (if j \<in> set (to_take s) then replicate PKT_BUFFER_SIZE 0 else slot s j)"
    and s': "s' = s\<lparr>buff_from_here := buf, status := st\<rparr>"
  shows "km_inv s' \<and> km_queue s' = drop PKTS_PER_BUFFER (km_queue s)"
proof -
  let ?C = "cyc (current_index s)"
  let ?F = "filter (occupied s) ?C"
  have T: "to_take s = take PKTS_PER_BUFFER ?F" by (simp add: to_take_def)
  have ltM: "i < MAX_PKT" if "i \<in> set ?C" for i using that by simp
  have occ': "occupied s' i \<longleftrightarrow> occupied s i \<and> i \<notin> set (to_take s)" if "i < MAX_PKT" for i
    using each that by (simp add: occupied_def s')
  have "filter (occupied s') ?C = filter (\<lambda>i. i \<notin> set (to_take s)) ?F"
    using occ' by (auto simp: filter_filter intro!: filter_cong)
  also have "\<dots> = drop PKTS_PER_BUFFER ?F"
    unfolding T by (rule filter_not_taken) simp
  finally have F': "filter (occupied s') ?C = drop PKTS_PER_BUFFER ?F" .
  have keep: "slot s' i = slot s i" if "i \<in> set (drop PKTS_PER_BUFFER ?F)" for i
  proof -
    have "i < MAX_PKT" using in_set_dropD [OF that] by auto
    moreover have "i \<notin> set (to_take s)"
      using that set_take_disj_set_drop_if_distinct [of ?F PKTS_PER_BUFFER PKTS_PER_BUFFER]
      by (auto simp: T)
    ultimately show ?thesis using each by (simp add: s')
  qed
  have "km_queue s' = map (slot s') (drop PKTS_PER_BUFFER ?F)"
    using F' by (simp add: km_queue_def s')
  also have "\<dots> = drop PKTS_PER_BUFFER (km_queue s)"
    using keep by (simp add: km_queue_def drop_map)
  finally have queue: "km_queue s' = drop PKTS_PER_BUFFER (km_queue s)" .
  have split: "?C = filter (\<lambda>i. \<not> occupied s i) ?C @ to_take s @ drop PKTS_PER_BUFFER ?F"
    using sorted_bool_split [of "occupied s" ?C] inv by (simp add: km_inv_def T)
  have low: "\<not> occupied s' i" if "i \<in> set (filter (\<lambda>i. \<not> occupied s i) ?C) \<union> set (to_take s)" for i
    using that occ' ltM in_set_takeD [of i PKTS_PER_BUFFER ?F] by (auto simp: T)
  have high: "occupied s' i" if "i \<in> set (drop PKTS_PER_BUFFER ?F)" for i
    using that unfolding F' [symmetric] by simp
  have "sorted (map (occupied s')
      ((filter (\<lambda>i. \<not> occupied s i) ?C @ to_take s) @ drop PKTS_PER_BUFFER ?F))"
    using low high by (intro sorted_bool_join) auto
  then have "sorted (map (occupied s') (cyc (current_index s')))"
    using split by (simp add: s')
  moreover have "km_shape s'" using inv len by (simp add: km_inv_def km_shape_def s')
  moreover have "\<forall>i < MAX_PKT. \<not> occupied s' i \<longrightarrow> slot s' i = replicate PKT_BUFFER_SIZE 0"
    using inv occ' each by (auto simp: km_inv_def s')
  ultimately show ?thesis using queue by (simp add: km_inv_def)
qed

lemma km_read_dequeue:
  assumes inv: "km_inv s" and off: "unat off < BUFFER_SIZE"
  shows "\<exists>s'. km_read copy_fails len off s =
        Some (int BUFFER_SIZE,
          if copy_fails then None
          else Some (concat (take PKTS_PER_BUFFER (km_queue s))
                 @ replicate (BUFFER_SIZE - length (take PKTS_PER_BUFFER (km_queue s)) * PKT_BUFFER_SIZE) 0),
          s')
    \<and> km_inv s' \<and> km_queue s' = (if copy_fails then km_queue s else drop PKTS_PER_BUFFER (km_queue s))
    \<and> km_log_buffs s' = km_log_buffs s \<and> count_pkt s' = count_pkt s
    \<and> count_pkt_overflow s' = count_pkt_overflow s"
proof -
  let ?out = "concat (take PKTS_PER_BUFFER (km_queue s))
      @ replicate (BUFFER_SIZE - length (to_take s) * PKT_BUFFER_SIZE) 0"
  let ?idx = "map int (to_take s) @ replicate (PKTS_PER_BUFFER - length (to_take s)) (-1)"
  have shape: "length (status s) = MAX_PKT" "length (buff_from_here s) = MAX_PKT * PKT_BUFFER_SIZE"
    "length (buff_temp s) = BUFFER_SIZE"
    using inv by (auto simp: km_inv_def km_shape_def)
  have T: "set (to_take s) \<subseteq> {..<MAX_PKT}"
    by (auto simp: to_take_def dest!: in_set_takeD)
  have n: "length (to_take s) = length (take PKTS_PER_BUFFER (km_queue s))"
    by (simp add: to_take_def km_queue_def)
  have "length (concat (take PKTS_PER_BUFFER (km_queue s))) = length (to_take s) * PKT_BUFFER_SIZE"
    using concat_slots_length [OF shape(2) T] by (simp add: km_queue_def to_take_def take_map)
  moreover have "length (to_take s) \<le> PKTS_PER_BUFFER" by (simp add: to_take_def)
  ultimately have out: "length ?out = BUFFER_SIZE" by (simp add: const_vals)
  have deliver: "load ?out 0 BUFFER_SIZE = Some ?out"
    unfolding load_def using out take_all [of ?out BUFFER_SIZE] by (simp only: drop_0 add_0) simp
  have clear: "store (buff_temp s) 0 (replicate BUFFER_SIZE 0) = Some (replicate BUFFER_SIZE 0)"
    using shape(3) by (simp add: store_def)
  have not_eof: "\<not> of_nat BUFFER_SIZE \<le> off"
    using off by (simp add: word_le_nat_alt const_vals)
  define s1 where "s1 = s\<lparr>buff_temp := ?out\<rparr>"
  have inv1: "km_inv s1" and q1: "km_queue s1 = km_queue s" using inv out by (simp_all add: s1_def)
  have T1: "to_take s1 = to_take s" by (simp add: s1_def to_take_def)
  have shape1: "length (status s1) = MAX_PKT"
    "length (buff_from_here s1) = MAX_PKT * PKT_BUFFER_SIZE"
    using shape by (simp_all add: s1_def)
  obtain buf st where fr: "foldM free_slot s1 ?idx = Some (s1\<lparr>buff_from_here := buf, status := st\<rparr>)"
    and lens: "length st = MAX_PKT" "length buf = MAX_PKT * PKT_BUFFER_SIZE"
    and each: "\<forall>j < MAX_PKT. st ! j = (if j \<in> set (to_take s1) then 0 else status s1 ! j)
      \<and> slot_of buf j = (if j \<in> set (to_take s1) then replicate PKT_BUFFER_SIZE 0 else slot s1 j)"
    using free_slots_spec [of s1 "to_take s" "PKTS_PER_BUFFER - length (to_take s)"] shape1 T
    unfolding T1 by blast
  note deq = free_taken_dequeue [OF inv1 lens each refl]
  have rd: "km_read copy_fails len off s =
      (if copy_fails then Some (int BUFFER_SIZE, None, s1)
       else Some (int BUFFER_SIZE, Some ?out, s1\<lparr>buff_from_here := buf, status := st\<rparr>))"
    using not_eof clear read_scan_0 [OF inv] fr deliver by (simp add: km_read_def s1_def)
  show ?thesis
    using rd deq inv1 q1 n by (cases copy_fails) (auto simp: s1_def)
qed

lemma km_read_eof:
  "BUFFER_SIZE \<le> unat off \<Longrightarrow> km_read copy_fails len off s = Some (int BUFFER_SIZE, None, s)"
  by (simp add: km_read_def word_le_nat_alt const_vals)

end
