(* ===== verification/Fifo.thy ===== *)
theory Fifo
  imports Base
begin

text \<open>
  The contract of a bounded first-in first-out buffer between a producer and a consumer, as a
  locale: the abstract content is a list, putting an item appends it while there is room, and
  getting takes a prefix. The client lemma says that along any interleaving of puts and gets
  nothing is lost, duplicated or reordered among the accepted items. It is interpreted on the
  packet cache of the kernel module and on the descriptor rings of the AF_XDP library.
\<close>

datatype ('e, 'g) fifo_event = Put 'e | Get 'g

text \<open>A run records what was accepted and what was delivered.\<close>

fun fifo_step ::
    "('s \<Rightarrow> 'p list) \<Rightarrow> nat \<Rightarrow> ('s \<Rightarrow> 'e \<Rightarrow> 's option) \<Rightarrow> ('e \<Rightarrow> 'p option) \<Rightarrow>
     ('s \<Rightarrow> 'g \<Rightarrow> ('p list \<times> 's) option) \<Rightarrow>
     's \<times> 'p list \<times> 'p list \<Rightarrow> ('e, 'g) fifo_event \<Rightarrow> ('s \<times> 'p list \<times> 'p list) option" where
  "fifo_step queue cap put item get (s, acc, del) (Put e) = do {
     s' \<leftarrow> put s e;
     let acc' = (case item e of
         None \<Rightarrow> acc | Some p \<Rightarrow> if length (queue s) < cap then acc @ [p] else acc);
     Some (s', acc', del)
   }"
| "fifo_step queue cap put item get (s, acc, del) (Get g) = do {
     (out, s') \<leftarrow> get s g;
     Some (s', acc, del @ out)
   }"

locale bounded_fifo =
  fixes inv :: "'s \<Rightarrow> bool"
    and queue :: "'s \<Rightarrow> 'p list"
    and cap :: nat
    and ok :: "'e \<Rightarrow> bool"
    and put :: "'s \<Rightarrow> 'e \<Rightarrow> 's option"
    and item :: "'e \<Rightarrow> 'p option"
    and get :: "'s \<Rightarrow> 'g \<Rightarrow> ('p list \<times> 's) option"
  assumes put_queue: "inv s \<Longrightarrow> ok e \<Longrightarrow> \<exists>s'. put s e = Some s' \<and> inv s' \<and>
      queue s' = (case item e of
        None \<Rightarrow> queue s | Some p \<Rightarrow> if length (queue s) < cap then queue s @ [p] else queue s)"
    and get_queue: "inv s \<Longrightarrow> \<exists>out s'. get s g = Some (out, s') \<and> inv s' \<and> queue s = out @ queue s'"
begin

lemma fifo_run:
  assumes "inv s" and "\<And>e. Put e \<in> set evs \<Longrightarrow> ok e" and "del @ queue s = q0 @ acc"
  shows "\<exists>s' acc' del'. foldM (fifo_step queue cap put item get) (s, acc, del) evs = Some (s', acc', del')
    \<and> inv s' \<and> del' @ queue s' = q0 @ acc'"
  using assms
proof (induction evs arbitrary: s acc del)
  case Nil
  then show ?case by simp
next
  case (Cons ev evs)
  show ?case
  proof (cases ev)
    case (Put e)
    then have "ok e" using Cons.prems(2) by simp
    from put_queue [OF Cons.prems(1) this] obtain s1 where
      s1: "put s e = Some s1" "inv s1" and q: "queue s1 = (case item e of
        None \<Rightarrow> queue s | Some p \<Rightarrow> if length (queue s) < cap then queue s @ [p] else queue s)"
      by blast
    define acc1 where "acc1 = (case item e of
      None \<Rightarrow> acc | Some p \<Rightarrow> if length (queue s) < cap then acc @ [p] else acc)"
    have "del @ queue s1 = q0 @ acc1"
    proof (cases "item e")
      case None
      then show ?thesis using Cons.prems(3) q by (simp add: acc1_def)
    next
      case (Some p)
      then show ?thesis using Cons.prems(3) q by (simp add: acc1_def)
    qed
    from Cons.IH [OF s1(2) _ this] Cons.prems(2) show ?thesis
      using s1(1) by (simp add: Put acc1_def)
  next
    case (Get g)
    obtain out s1 where s1: "get s g = Some (out, s1)" "inv s1" and q: "queue s = out @ queue s1"
      using get_queue [OF Cons.prems(1)] by blast
    have "(del @ out) @ queue s1 = q0 @ acc" using Cons.prems(3) q by simp
    from Cons.IH [OF s1(2) _ this] Cons.prems(2) show ?thesis
      using s1(1) by (simp add: Get)
  qed
qed

end

end
