(* ===== verification/KM_Fifo.thy ===== *)
theory KM_Fifo
  imports KM_Cache Fifo
begin

text \<open>
  The packet cache of the kernel module as seen end to end: packets enter through the receive
  handler and leave through \<^verbatim>\<open>read\<close> into the loop of \<^verbatim>\<open>user-processing.c\<close>, which takes every
  slot of the buffer whose first byte is not zero. The cache implements a bounded FIFO of
  \<^const>\<open>MAX_PKT\<close> packets as long as the payloads fit their slots; the client's own payload of
  \<^const>\<open>sizeof_Payload\<close> bytes does not fit.
\<close>

text \<open>The slots the user program looks at in one buffer.\<close>

definition user_slots :: "bytes \<Rightarrow> bytes list" where
  "user_slots bs = filter (\<lambda>c. hd c \<noteq> 0) (map (slot_of bs) [0..<PKTS_PER_BUFFER])"

definition km_put :: "km_state \<Rightarrow> u64 \<times> sk_buff \<Rightarrow> km_state option" where
  "km_put s e = map_option snd (rxhPacketIn (fst e) (snd e) s)"

definition km_get :: "km_state \<Rightarrow> bool \<times> u64 \<times> u64 \<Rightarrow> (bytes list \<times> km_state) option" where
  "km_get s g = (case g of (copy_fails, len, off) \<Rightarrow> do {
     (ret, out, s') \<leftarrow> km_read copy_fails len off s;
     Some (case out of None \<Rightarrow> [] | Some bs \<Rightarrow> user_slots bs, s')
   })"

definition rx_item :: "u64 \<times> sk_buff \<Rightarrow> bytes option" where
  "rx_item e = (case rx_wanted (snd e) of
     Some True \<Rightarrow> map_option padded (rx_payload (snd e)) | _ \<Rightarrow> None)"

text \<open>A frame the handler can process: either one it passes on, or a UDP packet whose buffer
  holds the bytes its headers announce, whose payload fits a slot and starts with a non-zero
  byte (the low byte of the client's identifier).\<close>

definition rx_ok :: "u64 \<times> sk_buff \<Rightarrow> bool" where
  "rx_ok e = (let pkt = snd e in
     case rx_wanted pkt of
       None \<Rightarrow> False
     | Some False \<Rightarrow> True
     | Some True \<Rightarrow> load64 (skb_head pkt) (skb_data pkt + 36) \<noteq> None
         \<and> (case rx_payload pkt of
              None \<Rightarrow> False
            | Some p \<Rightarrow> p \<noteq> [] \<and> length p \<le> PKT_BUFFER_SIZE \<and> hd p \<noteq> 0))"

definition fifo_inv :: "km_state \<Rightarrow> bool" where
  "fifo_inv s \<longleftrightarrow> km_inv s \<and> (\<forall>c \<in> set (km_queue s). hd c \<noteq> 0)"

text \<open>The state after \<^verbatim>\<open>myinit\<close> with a table \<open>lb\<close>.\<close>

definition km_init :: "log_table \<Rightarrow> km_state" where
  "km_init lb = \<lparr>km_log_buffs = lb, buff_from_here = replicate (PKT_BUFFER_SIZE * MAX_PKT) 0,
     buff_temp = replicate BUFFER_SIZE 0, current_index = 0, status = replicate MAX_PKT 0,
     count_pkt = 0, count_pkt_overflow = 0\<rparr>"

abbreviation km_run ::
    "km_state \<times> bytes list \<times> bytes list \<Rightarrow> (u64 \<times> sk_buff, bool \<times> u64 \<times> u64) fifo_event list \<Rightarrow>
     (km_state \<times> bytes list \<times> bytes list) option" where
  "km_run \<equiv> foldM (fifo_step km_queue MAX_PKT km_put rx_item km_get)"

section \<open>From slots to buffers and back\<close>

lemma km_queue_slot_length:
  assumes "km_inv s" and "c \<in> set (km_queue s)"
  shows "length c = PKT_BUFFER_SIZE"
  using assms length_slot [of "buff_from_here s"]
  by (auto simp: km_queue_def km_inv_def km_shape_def)

lemma slot_of_concat:
  assumes "\<forall>c \<in> set Q. length c = PKT_BUFFER_SIZE" and "i < length Q"
  shows "slot_of (concat Q @ rest) i = Q ! i"
  using assms
proof (induction Q arbitrary: i)
  case (Cons c Q)
  show ?case
  proof (cases i)
    case 0
    then show ?thesis using Cons.prems by (simp add: slot_of_def)
  next
    case (Suc j)
    have "slot_of (concat (c # Q) @ rest) i = slot_of (concat Q @ rest) j"
      using Cons.prems by (simp add: slot_of_def Suc)
    then show ?thesis using Cons Suc by simp
  qed
qed simp

lemma slot_of_zeros:
  assumes "length (concat Q) = length Q * PKT_BUFFER_SIZE"
    and "length Q \<le> i" and "i < PKTS_PER_BUFFER"
  shows "slot_of (concat Q @ replicate (BUFFER_SIZE - length Q * PKT_BUFFER_SIZE) 0) i
    = replicate PKT_BUFFER_SIZE 0"
proof -
  let ?r = "replicate (BUFFER_SIZE - length Q * PKT_BUFFER_SIZE) (0 :: u8)"
  have "drop (i * PKT_BUFFER_SIZE) (concat Q @ ?r)
      = replicate (BUFFER_SIZE - i * PKT_BUFFER_SIZE) 0"
    using assms by (simp add: const_vals)
  then show ?thesis using assms(3) by (simp add: slot_of_def const_vals)
qed

lemma user_slots_deliver:
  assumes len: "\<forall>c \<in> set Q. length c = PKT_BUFFER_SIZE" and hd: "\<forall>c \<in> set Q. hd c \<noteq> 0"
    and n: "length Q \<le> PKTS_PER_BUFFER"
  shows "user_slots (concat Q @ replicate (BUFFER_SIZE - length Q * PKT_BUFFER_SIZE) 0) = Q"
proof -
  let ?bs = "concat Q @ replicate (BUFFER_SIZE - length Q * PKT_BUFFER_SIZE) 0"
  have lc: "length (concat Q) = length Q * PKT_BUFFER_SIZE"
    using len by (induction Q) auto
  have low: "map (slot_of ?bs) [0..<length Q] = Q"
    using slot_of_concat [OF len] by (intro nth_equalityI) auto
  have high: "filter (\<lambda>c. hd c \<noteq> 0) (map (slot_of ?bs) [length Q..<PKTS_PER_BUFFER]) = []"
    using slot_of_zeros [OF lc] hd_replicate [of PKT_BUFFER_SIZE "0 :: u8"] PKT_BUFFER_SIZE_val
    by (auto simp: filter_empty_conv)
  have "[0..<PKTS_PER_BUFFER] = [0..<length Q] @ [length Q..<PKTS_PER_BUFFER]"
    using upt_add_eq_append [of 0 "length Q" "PKTS_PER_BUFFER - length Q"] n by simp
  then have "user_slots ?bs = filter (\<lambda>c. hd c \<noteq> 0) Q"
    unfolding user_slots_def by (simp only: map_append filter_append low high append_Nil2)
  then show ?thesis using hd by (simp add: filter_id_conv)
qed

section \<open>The cache is a bounded FIFO\<close>

lemma hd_padded: "p \<noteq> [] \<Longrightarrow> hd (padded p) = hd p"
  by (simp add: padded_def)

lemma km_put_queue:
  assumes "fifo_inv s" and "rx_ok e"
  shows "\<exists>s'. km_put s e = Some s' \<and> fifo_inv s' \<and>
    km_queue s' = (case rx_item e of None \<Rightarrow> km_queue s
      | Some p \<Rightarrow> if length (km_queue s) < MAX_PKT then km_queue s @ [p] else km_queue s)"
proof -
  obtain now pkt where e: "e = (now, pkt)" by (cases e)
  consider (pass) "rx_wanted pkt = Some False" | (want) "rx_wanted pkt = Some True"
    using assms(2) by (auto simp: rx_ok_def e split: option.splits)
  then show ?thesis
  proof cases
    case pass
    then show ?thesis using assms(1)
      by (simp add: km_put_def rx_item_def e rxhPacketIn_pass)
  next
    case want
    then obtain uid p where uid: "load64 (skb_head pkt) (skb_data pkt + 36) = Some uid"
      and p: "rx_payload pkt = Some p" "length p \<le> PKT_BUFFER_SIZE" "p \<noteq> []" "hd p \<noteq> 0"
      using assms(2) by (auto simp: rx_ok_def e split: option.splits)
    have inv: "km_inv s" using assms(1) by (simp add: fifo_inv_def)
    show ?thesis
      using rxhPacketIn_enqueue [OF inv want uid p(1,2), of now] assms(1) want p hd_padded [of p]
      by (fastforce simp: km_put_def rx_item_def e fifo_inv_def split: if_splits)
  qed
qed

lemma km_get_queue:
  assumes "fifo_inv s"
  shows "\<exists>out s'. km_get s g = Some (out, s') \<and> fifo_inv s' \<and> km_queue s = out @ km_queue s'"
proof -
  obtain fails len off where g: "g = (fails, len, off)" by (cases g)
  have inv: "km_inv s" using assms by (simp add: fifo_inv_def)
  show ?thesis
  proof (cases "unat off < BUFFER_SIZE")
    case False
    then show ?thesis using assms by (simp add: km_get_def g km_read_eof)
  next
    case True
    let ?Q = "take PKTS_PER_BUFFER (km_queue s)"
    have "user_slots (concat ?Q @ replicate (BUFFER_SIZE - length ?Q * PKT_BUFFER_SIZE) 0) = ?Q"
      using assms km_queue_slot_length [OF inv]
      by (intro user_slots_deliver) (auto simp: fifo_inv_def dest: in_set_takeD)
    then show ?thesis
      using km_read_dequeue [OF inv True, of fails len] assms
      by (cases fails) (auto simp: km_get_def g fifo_inv_def dest!: in_set_dropD)
  qed
qed

interpretation km: bounded_fifo fifo_inv km_queue MAX_PKT rx_ok km_put rx_item km_get
  by unfold_locales (use km_put_queue km_get_queue in blast)+

lemma km_init_inv:
  assumes "wf_log lb"
  shows "km_inv (km_init lb)" and "km_queue (km_init lb) = []"
proof -
  have free: "\<not> occupied (km_init lb) i" if "i < MAX_PKT" for i
    using that by (simp add: occupied_def km_init_def)
  have "slot (km_init lb) i = replicate PKT_BUFFER_SIZE 0" if "i < MAX_PKT" for i
    using that by (simp add: slot_of_def km_init_def const_vals)
  moreover have "km_shape (km_init lb)"
    using assms by (simp add: km_shape_def km_init_def)
  moreover have "sorted (map (occupied (km_init lb)) (cyc 0))"
    using free sorted_bool_join [of "cyc 0" "occupied (km_init lb)" "[]"] by simp
  ultimately show "km_inv (km_init lb)" by (simp add: km_inv_def km_init_def)
  show "km_queue (km_init lb) = []"
    using free by (auto simp: km_queue_def filter_empty_conv)
qed

section \<open>Accounting\<close>

text \<open>Every packet the handler counts is either accepted into the cache or counted as an
  overflow.\<close>

definition km_balanced :: "km_state \<times> bytes list \<times> bytes list \<Rightarrow> bool" where
  "km_balanced r = (case r of (s, acc, del) \<Rightarrow>
     fifo_inv s \<and> count_pkt s = of_nat (length acc) + count_pkt_overflow s)"

lemma km_put_balanced:
  assumes "km_balanced (s, acc, del)" and "rx_ok e"
  shows "\<exists>r. fifo_step km_queue MAX_PKT km_put rx_item km_get (s, acc, del) (Put e) = Some r \<and> km_balanced r"
proof -
  obtain now pkt where e: "e = (now, pkt)" by (cases e)
  have inv: "fifo_inv s" and bal: "count_pkt s = of_nat (length acc) + count_pkt_overflow s"
    using assms(1) by (simp_all add: km_balanced_def)
  obtain s' where s': "km_put s e = Some s'" "fifo_inv s'"
    using km_put_queue [OF inv assms(2)] by blast
  have "count_pkt s' = of_nat (length (case rx_item e of None \<Rightarrow> acc
      | Some p \<Rightarrow> if length (km_queue s) < MAX_PKT then acc @ [p] else acc)) + count_pkt_overflow s'"
  proof (cases "rx_wanted pkt = Some True")
    case False
    then have "rx_wanted pkt = Some False"
      using assms(2) by (auto simp: rx_ok_def e split: option.splits)
    then show ?thesis using s'(1) bal by (simp add: km_put_def e rxhPacketIn_pass rx_item_def)
  next
    case True
    then obtain uid p where uid: "load64 (skb_head pkt) (skb_data pkt + 36) = Some uid"
      and p: "rx_payload pkt = Some p" "length p \<le> PKT_BUFFER_SIZE"
      using assms(2) by (auto simp: rx_ok_def e split: option.splits)
    have "km_inv s" using inv by (simp add: fifo_inv_def)
    from rxhPacketIn_enqueue [OF this True uid p, of now] show ?thesis
      using s'(1) bal True p by (auto simp: km_put_def e rx_item_def)
  qed
  then show ?thesis using s' by (simp add: km_balanced_def)
qed

lemma km_get_balanced:
  assumes "km_balanced (s, acc, del)"
  shows "\<exists>r. fifo_step km_queue MAX_PKT km_put rx_item km_get (s, acc, del) (Get g) = Some r \<and> km_balanced r"
proof -
  obtain fails len off where g: "g = (fails, len, off)" by (cases g)
  have inv: "fifo_inv s" "km_inv s" using assms by (simp_all add: km_balanced_def fifo_inv_def)
  obtain out s' where s': "km_get s g = Some (out, s')" "fifo_inv s'"
    using km_get_queue [OF inv(1)] by blast
  have "count_pkt s' = count_pkt s \<and> count_pkt_overflow s' = count_pkt_overflow s"
  proof (cases "unat off < BUFFER_SIZE")
    case True
    then show ?thesis
      using km_read_dequeue [OF inv(2) True, of fails len] s'(1) by (auto simp: km_get_def g)
  next
    case False
    then show ?thesis using s'(1) by (simp add: km_get_def g km_read_eof)
  qed
  then show ?thesis using assms s' by (simp add: km_balanced_def)
qed

lemma km_run_balanced:
  assumes "km_balanced r" and "\<And>e. Put e \<in> set evs \<Longrightarrow> rx_ok e"
  shows "\<exists>r'. km_run r evs = Some r' \<and> km_balanced r'"
  using assms
proof (induction evs arbitrary: r)
  case (Cons ev evs)
  obtain s acc del where r: "r = (s, acc, del)" by (cases r)
  have "\<exists>r1. fifo_step km_queue MAX_PKT km_put rx_item km_get r ev = Some r1 \<and> km_balanced r1"
  proof (cases ev)
    case (Put e)
    then show ?thesis using Cons.prems unfolding r Put by (intro km_put_balanced) auto
  next
    case (Get g)
    then show ?thesis using Cons.prems unfolding r Get by (intro km_get_balanced) auto
  qed
  then show ?case using Cons.IH Cons.prems(2) by fastforce
qed simp

section \<open>Properties\<close>

text \<open>A sample frame: IPv4, UDP to port 8080, a 16-byte payload with client identifier 1 and
  uid 7.\<close>

definition sample_skb :: sk_buff where
  "sample_skb = \<lparr>skb_head =
     [0x45, 0, 0, 44, 0, 0, 0, 0, 64, 17, 0, 0, 192, 168, 1, 12, 192, 168, 1, 24,
      0x9C, 0x40, 0x1F, 0x90, 0, 24, 0, 0,
      1, 0, 0, 0, 0, 0, 0, 0, 7, 0, 0, 0, 0, 0, 0, 0],
     skb_data = 0, skb_network_header = 0, skb_transport_header = 20\<rparr>"

lemma sample_skb_facts:
  "rx_wanted sample_skb = Some True" "load64 (skb_head sample_skb) (skb_data sample_skb + 36) = Some 7"
  "rx_payload sample_skb = Some [1, 0, 0, 0, 0, 0, 0, 0, 7, 0, 0, 0, 0, 0, 0, 0]"
  by code_simp+

lemma sample_skb_ok: "rx_ok (now, sample_skb)"
  by (simp add: rx_ok_def sample_skb_facts const_vals)



section \<open>When the copy leaves the cache\<close>

lemma rxhPacketIn_cases:
  assumes inv: "km_inv s" and w: "rx_wanted pkt = Some True"
    and uid: "load64 (skb_head pkt) (skb_data pkt + 36) = Some uid"
  obtains (full) s' where "length (km_queue s) = MAX_PKT" "rxhPacketIn now pkt s = Some (RX_HANDLER_PASS, s')"
  | (room) s1 where "length (km_queue s) < MAX_PKT" "buff_from_here s1 = buff_from_here s"
      "current_index s1 = current_index s" "length (status s1) = MAX_PKT"
      "rxhPacketIn now pkt s =
        Option.bind (rx_store_slot pkt (current_index s) s1) (\<lambda>s. Some (RX_HANDLER_PASS, s))"
proof -
  obtain lb where lb: "log_write (km_log_buffs s) uid now = Some lb" "wf_log lb"
    using inv wf_log_write [of "km_log_buffs s" uid now] by (auto simp: km_inv_def km_shape_def)
  define s1 where "s1 = s\<lparr>count_pkt := count_pkt s + 1, km_log_buffs := lb\<rparr>"
  have inv1: "km_inv s1" using inv lb(2) by (simp add: s1_def)
  have q1: "km_queue s1 = km_queue s" by (simp add: s1_def)
  have rx: "rxhPacketIn now pkt s =
      Option.bind (rx_cache_loop pkt 0 (current_index s1) s1) (\<lambda>s. Some (RX_HANDLER_PASS, s))"
    using w uid lb(1) by (simp add: rxhPacketIn_def s1_def add.commute)
  have shape: "length (status s1) = MAX_PKT" "current_index s1 < MAX_PKT"
    using inv1 by (auto simp: km_inv_def km_shape_def)
  note loop = rx_cache_loop_0 [OF shape, of pkt] and cur = km_inv_current [OF inv1]
  show thesis
  proof (cases "occupied s1 (current_index s1)")
    case True
    then show thesis using full rx loop cur q1 by simp
  next
    case False
    have "filter (\<lambda>i. \<not> occupied s1 i) (cyc (current_index s1)) =
        current_index s1 # filter (\<lambda>i. \<not> occupied s1 i) (tl (cyc (current_index s1)))"
      using False cyc_Cons [OF shape(2)] by (metis filter.simps(2))
    moreover have "length (km_queue s) < MAX_PKT"
      using False cur(1) q1 length_km_queue [of s] by fastforce
    ultimately show thesis using room [of s1] rx loop shape by (simp add: s1_def)
  qed
qed

lemma rx_store_slot_defined:
  assumes "rx_payload pkt = Some p" and "length (status s) = MAX_PKT" and "i < MAX_PKT"
  shows "rx_store_slot pkt i s \<noteq> None \<longleftrightarrow> i * PKT_BUFFER_SIZE + length p \<le> length (buff_from_here s)"
  using assms by (auto simp: rx_store_slot_def store_def arr_set_def split: if_splits)

text \<open>C5: The exact condition under which the receive handler stays inside the cache: unless the
  cache is full, the copy of \<^verbatim>\<open>udp_len - 8\<close> bytes to the slot at \<^verbatim>\<open>current_index\<close> must end inside
  \<^verbatim>\<open>buff_from_here\<close>. The handler itself checks nothing of the kind, so for the client's own packets
  of \<^verbatim>\<open>sizeof(struct Payload)\<close> bytes it writes past the end of the heap object whenever
  \<^verbatim>\<open>current_index\<close> is above 192.\<close>

theorem rx_copy_in_bounds_iff:
  assumes "km_inv s" and "rx_wanted pkt = Some True"
    and "load64 (skb_head pkt) (skb_data pkt + 36) = Some uid" and "rx_payload pkt = Some p"
  shows "(rxhPacketIn now pkt s \<noteq> None \<longleftrightarrow> length (km_queue s) = MAX_PKT
      \<or> current_index s * PKT_BUFFER_SIZE + length p \<le> MAX_PKT * PKT_BUFFER_SIZE)
    \<and> (length p = sizeof_Payload \<and> length (km_queue s) < MAX_PKT \<and> current_index s > 192
       \<longrightarrow> rxhPacketIn now pkt s = None)"
proof -
  have shape: "current_index s < MAX_PKT" "length (buff_from_here s) = MAX_PKT * PKT_BUFFER_SIZE"
    using assms(1) by (auto simp: km_inv_def km_shape_def)
  have iff: "rxhPacketIn now pkt s \<noteq> None \<longleftrightarrow> length (km_queue s) = MAX_PKT
      \<or> current_index s * PKT_BUFFER_SIZE + length p \<le> MAX_PKT * PKT_BUFFER_SIZE"
    using assms(1-3)
  proof (cases rule: rxhPacketIn_cases [where now = now])
    case (full s')
    then show ?thesis by simp
  next
    case (room s1)
    then show ?thesis
      using rx_store_slot_defined [OF assms(4) room(4) shape(1)] shape(2)
      by (auto split: Option.bind_splits)
  qed
  then show ?thesis by (auto simp: const_vals)
qed

theorem rx_copy_in_bounds_iff_witness:
  "km_inv (km_init zero_log) \<and> rx_payload sample_skb = Some [1, 0, 0, 0, 0, 0, 0, 0, 7, 0, 0, 0, 0, 0, 0, 0]
   \<and> rxhPacketIn 5 sample_skb (km_init zero_log) \<noteq> None"
  using rx_copy_in_bounds_iff [OF km_init_inv(1) [OF wf_zero_log] sample_skb_facts, of 5]
    km_init_inv(1) [OF wf_zero_log] sample_skb_facts(3)
  by (simp add: const_vals) (simp add: km_init_def)

text \<open>The frame that carries a payload of the client (\<^verbatim>\<open>helper/client.c\<close>) as the receive handler
  sees it: an IPv4 header of 20 bytes, a UDP header with destination port \<^const>\<open>DEST_PORT\<close>,
  then \<^verbatim>\<open>struct Payload\<close>.\<close>

definition client_skb :: "Payload \<Rightarrow> sk_buff" where
  "client_skb pl = \<lparr>skb_head = client_hdr @ bytes_of_Payload pl,
     skb_data = 0, skb_network_header = 0, skb_transport_header = 20\<rparr>"

lemma client_hdr_fields:
  "length client_hdr = 28" "drop_bit 4 (client_hdr ! 0) = 4" "client_hdr ! 9 = 17"
  "bswap16 (word_of_le (take 2 (drop 22 client_hdr))) = 8080"
  "udp_copy_len (word_of_le (take 2 (drop 24 client_hdr))) = 1024"
  by code_simp+

lemma client_skb_facts:
  assumes "wf_Payload pl"
  shows "rx_wanted (client_skb pl) = Some True"
    and "load64 (skb_head (client_skb pl)) (skb_data (client_skb pl) + 36) = Some (pl_uid pl)"
    and "rx_payload (client_skb pl) = Some (bytes_of_Payload pl)"
proof -
  note len = length_bytes_of_Payload [OF assms]
  have get: "arr_get (client_hdr @ bytes_of_Payload pl) i = Some (client_hdr ! i)" if "i < 28" for i
    using that by (simp add: arr_get_def client_hdr_fields nth_append)
  have ld: "load16 (client_hdr @ bytes_of_Payload pl) i = Some (word_of_le (take 2 (drop i client_hdr)))"
    if "i \<le> 26" for i
    using that by (simp add: load16_def load_def client_hdr_fields)
  show "rx_wanted (client_skb pl) = Some True"
    using client_hdr_fields get [of 0] get [of 9] ld [of 22] by (simp add: rx_wanted_def client_skb_def)
  show "rx_payload (client_skb pl) = Some (bytes_of_Payload pl)"
    using client_hdr_fields(1,5) ld [of 24] len
    by (simp add: rx_payload_def client_skb_def load_def const_vals)
  have "load (client_hdr @ bytes_of_Payload pl) 36 8 = Some (take 8 (drop 8 (bytes_of_Payload pl)))"
    using len by (simp add: load_def client_hdr_fields(1) const_vals)
  then show "load64 (skb_head (client_skb pl)) (skb_data (client_skb pl) + 36) = Some (pl_uid pl)"
    by (simp add: load64_def client_skb_def bytes_of_Payload_def)
qed



section \<open>The timestamps the module logs\<close>

text \<open>The (uid, time) pairs a sequence of events makes the handler log.\<close>

definition rx_stamps :: "(u64 \<times> sk_buff, bool \<times> u64 \<times> u64) fifo_event list \<Rightarrow> (u64 \<times> u64) list" where
  "rx_stamps evs = concat (map (\<lambda>ev. case ev of
     Put (now, pkt) \<Rightarrow> if rx_wanted pkt = Some True
       then (case load64 (skb_head pkt) (skb_data pkt + 36) of Some uid \<Rightarrow> [(uid, now)] | None \<Rightarrow> [])
       else []
   | Get g \<Rightarrow> []) evs)"

lemma km_step_log:
  assumes "fifo_inv s" and "\<And>e. ev = Put e \<Longrightarrow> rx_ok e"
    and "fifo_step km_queue MAX_PKT km_put rx_item km_get (s, acc, del) ev = Some (s', acc', del')"
  shows "fifo_inv s' \<and>
    foldM (\<lambda>l (uid, now). log_write l uid now) (km_log_buffs s) (rx_stamps [ev]) = Some (km_log_buffs s')"
proof (cases ev)
  case (Get g)
  obtain fails len off where g: "g = (fails, len, off)" by (cases g)
  have inv: "km_inv s" using assms(1) by (simp add: fifo_inv_def)
  have get: "\<exists>out. km_get s g = Some (out, s')"
    using assms(3) by (auto simp: Get split: Option.bind_splits)
  then have "fifo_inv s'" using km_get_queue [OF assms(1), of g] by auto
  moreover have "km_log_buffs s' = km_log_buffs s"
  proof (cases "unat off < BUFFER_SIZE")
    case True
    then show ?thesis
      using km_read_dequeue [OF inv True, of fails len] get by (auto simp: km_get_def g)
  next
    case False
    then show ?thesis using get by (auto simp: km_get_def g km_read_eof)
  qed
  ultimately show ?thesis by (simp add: rx_stamps_def Get)
next
  case (Put e)
  obtain now pkt where e: "e = (now, pkt)" by (cases e)
  have ok: "rx_ok e" using assms(2) Put by simp
  have put: "km_put s e = Some s'"
    using assms(3) by (auto simp: Put split: Option.bind_splits)
  then have inv': "fifo_inv s'" using km_put_queue [OF assms(1) ok] by auto
  show ?thesis
  proof (cases "rx_wanted pkt = Some True")
    case False
    then have "rx_wanted pkt = Some False"
      using ok by (auto simp: rx_ok_def e split: option.splits)
    then show ?thesis using put inv' by (simp add: km_put_def e rxhPacketIn_pass rx_stamps_def Put)
  next
    case True
    then obtain uid p where uid: "load64 (skb_head pkt) (skb_data pkt + 36) = Some uid"
      and p: "rx_payload pkt = Some p" "length p \<le> PKT_BUFFER_SIZE"
      using ok by (auto simp: rx_ok_def e split: option.splits)
    have "km_inv s" using assms(1) by (simp add: fifo_inv_def)
    from rxhPacketIn_enqueue [OF this True uid p, of now] show ?thesis
      using put inv' True uid by (auto simp: km_put_def e rx_stamps_def Put)
  qed
qed

lemma km_run_log:
  assumes "fifo_inv s" and "\<And>e. Put e \<in> set evs \<Longrightarrow> rx_ok e"
    and "km_run (s, acc, del) evs = Some (s', acc', del')"
  shows "foldM (\<lambda>l (uid, now). log_write l uid now) (km_log_buffs s) (rx_stamps evs)
    = Some (km_log_buffs s')"
  using assms
proof (induction evs arbitrary: s acc del)
  case Nil
  then show ?case by (simp add: rx_stamps_def)
next
  case (Cons ev evs)
  from Cons.prems(3) obtain s1 acc1 del1 where
    st: "fifo_step km_queue MAX_PKT km_put rx_item km_get (s, acc, del) ev = Some (s1, acc1, del1)"
    and run: "km_run (s1, acc1, del1) evs = Some (s', acc', del')"
    by (auto split: Option.bind_splits)
  have log1: "fifo_inv s1" "foldM (\<lambda>l (uid, now). log_write l uid now) (km_log_buffs s) (rx_stamps [ev])
      = Some (km_log_buffs s1)"
    using km_step_log [OF Cons.prems(1) _ st] Cons.prems(2) by auto
  have "rx_stamps (ev # evs) = rx_stamps [ev] @ rx_stamps evs" by (simp add: rx_stamps_def)
  then show ?case
    using log1 Cons.IH [OF log1(1) _ run] Cons.prems(2) by (simp add: foldM_append)
qed

lemma km_run_final_log:
  assumes "wf_log lb" and "\<And>e. Put e \<in> set evs \<Longrightarrow> rx_ok e"
  shows "\<exists>s' acc del. km_run (km_init lb, [], []) evs = Some (s', acc, del) \<and> wf_log (km_log_buffs s')
    \<and> (\<forall>i < MAX_LOG_ENTRY. log_read (km_log_buffs s') i
          = Some (last_stamp i (rx_stamps evs) (concat lb ! i)))"
proof -
  have init: "fifo_inv (km_init lb)"
    using km_init_inv [OF assms(1)] by (simp add: fifo_inv_def)
  obtain s' acc del where run: "km_run (km_init lb, [], []) evs = Some (s', acc, del)"
    and "fifo_inv s'"
    using km.fifo_run [of "km_init lb" evs "[]" "[]" "[]"] init assms(2) km_init_inv(2) [OF assms(1)]
    by auto
  then have "wf_log (km_log_buffs s')" by (simp add: fifo_inv_def km_inv_def km_shape_def)
  moreover have "foldM (\<lambda>l (uid, now). log_write l uid now) lb (rx_stamps evs) = Some (km_log_buffs s')"
    using km_run_log [OF init assms(2) run] by (simp add: km_init_def)
  ultimately show ?thesis
    using run lt.run_lookup [OF assms(1)] wf_log_concat(2) [OF assms(1)] by blast
qed



text \<open>C2: One call of the receive handler on a UDP packet to port 8080 whose payload fits a slot
  implements a bounded enqueue: the payload, padded with zeros to the slot size, becomes the last
  element of the queue when fewer than \<^verbatim>\<open>MAX_PKT\<close> slots are taken; otherwise the packet is dropped
  from the cache and \<^verbatim>\<open>count_pkt_overflow\<close> incremented. In both cases the packet is counted, its
  arrival logged, and the result is \<^verbatim>\<open>RX_HANDLER_PASS\<close>.\<close>

theorem rx_refines_enqueue:
  assumes "km_inv s" and "rx_wanted pkt = Some True"
    and "load64 (skb_head pkt) (skb_data pkt + 36) = Some uid"
    and "rx_payload pkt = Some p" and "length p \<le> PKT_BUFFER_SIZE"
  shows "\<exists>s'. rxhPacketIn now pkt s = Some (RX_HANDLER_PASS, s') \<and> km_inv s'
    \<and> log_write (km_log_buffs s) uid now = Some (km_log_buffs s')
    \<and> count_pkt s' = count_pkt s + 1
    \<and> km_queue s' = (if length (km_queue s) < MAX_PKT then km_queue s @ [padded p] else km_queue s)
    \<and> count_pkt_overflow s'
        = (if length (km_queue s) < MAX_PKT then count_pkt_overflow s else count_pkt_overflow s + 1)"
  using assms by (rule rxhPacketIn_enqueue)

theorem rx_refines_enqueue_witness:
  "\<exists>s'. rxhPacketIn 5 sample_skb (km_init zero_log) = Some (RX_HANDLER_PASS, s')
    \<and> count_pkt s' = 1 \<and> km_queue s' = [padded [1, 0, 0, 0, 0, 0, 0, 0, 7, 0, 0, 0, 0, 0, 0, 0]]"
  using rx_refines_enqueue [OF km_init_inv(1) [OF wf_zero_log] sample_skb_facts, of 5]
    km_init_inv(2) [OF wf_zero_log]
  by (auto simp: const_vals) (auto simp: km_init_def)

text \<open>C3: A read at an offset below \<^verbatim>\<open>BUFFER_SIZE\<close> implements a batched dequeue: it delivers the
  oldest packets, up to \<^verbatim>\<open>PKTS_PER_BUFFER\<close> of them, in order of arrival and padded with zero slots,
  and removes exactly those from the cache; when the copy to user space fails nothing is removed.
  The return value is \<^verbatim>\<open>BUFFER_SIZE\<close> in every case, also when the copy failed.\<close>

theorem km_read_refines_dequeue:
  assumes "km_inv s" and "unat off < BUFFER_SIZE"
  shows "\<exists>s'. km_read copy_fails len off s =
        Some (int BUFFER_SIZE,
          if copy_fails then None
          else Some (concat (take PKTS_PER_BUFFER (km_queue s))
                 @ replicate (BUFFER_SIZE - length (take PKTS_PER_BUFFER (km_queue s)) * PKT_BUFFER_SIZE) 0),
          s')
    \<and> km_inv s' \<and> km_queue s' = (if copy_fails then km_queue s else drop PKTS_PER_BUFFER (km_queue s))
    \<and> km_log_buffs s' = km_log_buffs s \<and> count_pkt s' = count_pkt s
    \<and> count_pkt_overflow s' = count_pkt_overflow s"
  using assms by (rule km_read_dequeue)

theorem km_read_refines_dequeue_witness:
  "\<exists>s'. km_read True 4096 0 (km_init zero_log) = Some (int BUFFER_SIZE, None, s') \<and> km_queue s' = []"
  using km_read_refines_dequeue [OF km_init_inv(1) [OF wf_zero_log], of 0 True 4096]
    km_init_inv(2) [OF wf_zero_log] by (auto simp: const_vals)

end
