(* ===== verification/KM_Module.thy ===== *)
theory KM_Module
  imports KM_Fifo
begin

text \<open>
  The rest of \<^verbatim>\<open>mymodule/kernel_module/intercept-module.c\<close>: the operations of the proc file on
  the page each open file owns (\<^verbatim>\<open>open\<close>, \<^verbatim>\<open>write\<close>, \<^verbatim>\<open>mmap\<close>, \<^verbatim>\<open>vm_fault\<close>, \<^verbatim>\<open>release\<close>), the
  registration of the receive handler with the network device, and \<^verbatim>\<open>myinit\<close> and \<^verbatim>\<open>myexit\<close>
  with the resources they acquire and release. What the kernel returns to the module
  (allocations, registration, file operations) is an argument.
\<close>

section \<open>The page of an open file\<close>

text \<open>Addresses are numbers, 0 is the null pointer; an address outside the domain of the heap
  is unallocated or freed, and using it is undefined.\<close>

record mmap_info =
  mi_data :: nat

record kheap =
  kh_infos :: "nat \<rightharpoonup> mmap_info"
  kh_pages :: "nat \<rightharpoonup> bytes"
  kh_refs :: "nat \<Rightarrow> nat"

record filp =
  private_data :: nat

record vm_area =
  vm_ops_set :: bool
  vm_flags :: u64
  vm_private_data :: nat

definition PAGE_SIZE :: nat where "PAGE_SIZE = 4096"
definition VM_DONTEXPAND :: u64 where "VM_DONTEXPAND = 0x00040000"
definition VM_DONTDUMP :: u64 where "VM_DONTDUMP = 0x04000000"

text \<open>\<open>info_addr\<close> and \<open>page_addr\<close> are what \<^verbatim>\<open>kmalloc\<close> and \<^verbatim>\<open>get_zeroed_page\<close> return; neither is
  checked.\<close>

definition km_open :: "nat \<Rightarrow> nat \<Rightarrow> filp \<Rightarrow> kheap \<Rightarrow> (int \<times> filp \<times> kheap) option" where
  "km_open info_addr page_addr f h =
     (if info_addr = 0 then None
      else if page_addr = 0 then None
      else do {
        page \<leftarrow> store (replicate PAGE_SIZE 0) 0 [0x61, 0x73, 0x64, 0x66];
        Some (0, f\<lparr>private_data := info_addr\<rparr>,
              h\<lparr>kh_infos := (kh_infos h)(info_addr \<mapsto> \<lparr>mi_data = page_addr\<rparr>),
                kh_pages := (kh_pages h)(page_addr \<mapsto> page),
                kh_refs := (kh_refs h)(page_addr := 1)\<rparr>)
      })"

text \<open>\<^verbatim>\<open>write\<close>: \<open>uncopied\<close> is the result of \<^verbatim>\<open>copy_from_user\<close>, which fills the part of the
  destination it could not copy with zeros.\<close>

definition km_write ::
    "nat \<Rightarrow> filp \<Rightarrow> bytes \<Rightarrow> nat \<Rightarrow> kheap \<Rightarrow> (int \<times> kheap) option" where
  "km_write uncopied f buf len h = do {
     info \<leftarrow> kh_infos h (private_data f);
     page \<leftarrow> kh_pages h (mi_data info);
     let n = min len BUFFER_SIZE;
     src \<leftarrow> load buf 0 (n - uncopied);
     page' \<leftarrow> store page 0 (src @ replicate (min n uncopied) 0);
     Some (if uncopied \<noteq> 0 then - EFAULT else int len,
           h\<lparr>kh_pages := (kh_pages h)(mi_data info \<mapsto> page')\<rparr>)
   }"

definition km_mmap :: "filp \<Rightarrow> vm_area \<Rightarrow> int \<times> vm_area" where
  "km_mmap f vma =
     (0, vma\<lparr>vm_ops_set := True, vm_flags := vm_flags vma OR (VM_DONTEXPAND OR VM_DONTDUMP),
             vm_private_data := private_data f\<rparr>)"

text \<open>\<^verbatim>\<open>vm_fault\<close>: the page handed to the fault, if any, with its reference count raised.\<close>

definition vm_fault :: "vm_area \<Rightarrow> kheap \<Rightarrow> (int \<times> nat option \<times> kheap) option" where
  "vm_fault vma h = do {
     info \<leftarrow> kh_infos h (vm_private_data vma);
     Some (if mi_data info \<noteq> 0
           then (0, Some (mi_data info),
                 h\<lparr>kh_refs := (kh_refs h)(mi_data info := kh_refs h (mi_data info) + 1)\<rparr>)
           else (0, None, h))
   }"

text \<open>\<^verbatim>\<open>free_page\<close> drops one reference; the page goes away with the last.\<close>

definition free_page :: "nat \<Rightarrow> kheap \<Rightarrow> kheap option" where
  "free_page p h =
     (if kh_pages h p = None then None
      else Some (if kh_refs h p \<le> 1
                 then h\<lparr>kh_pages := (kh_pages h)(p := None), kh_refs := (kh_refs h)(p := 0)\<rparr>
                 else h\<lparr>kh_refs := (kh_refs h)(p := kh_refs h p - 1)\<rparr>))"

definition km_release :: "filp \<Rightarrow> kheap \<Rightarrow> (int \<times> filp \<times> kheap) option" where
  "km_release f h = do {
     info \<leftarrow> kh_infos h (private_data f);
     h \<leftarrow> free_page (mi_data info) h;
     Some (0, f\<lparr>private_data := 0\<rparr>, h\<lparr>kh_infos := (kh_infos h)(private_data f := None)\<rparr>)
   }"

section \<open>The receive handler and the network devices\<close>

datatype rx_handler = RxhPacketIn | OtherHandler

record net_device =
  dev_name :: string
  dev_rx_handler :: "rx_handler option"

text \<open>\<open>reg\<close> is the result of \<^verbatim>\<open>netdev_rx_handler_register\<close> for a device.\<close>

fun registerRxHandlers :: "(net_device \<Rightarrow> int) \<Rightarrow> net_device list \<Rightarrow> net_device list" where
  "registerRxHandlers reg [] = []"
| "registerRxHandlers reg (d # ds) =
     (if dev_name d = ''ens33''
      then (if reg d \<noteq> 0 then d else d\<lparr>dev_rx_handler := Some RxhPacketIn\<rparr>) # ds
      else d # registerRxHandlers reg ds)"

fun unregisterRxHandlers :: "net_device list \<Rightarrow> net_device list" where
  "unregisterRxHandlers [] = []"
| "unregisterRxHandlers (d # ds) =
     (if dev_name d = ''ens33'' then d\<lparr>dev_rx_handler := None\<rparr> # ds
      else d # unregisterRxHandlers ds)"

section \<open>Loading and unloading\<close>

text \<open>What the module holds while it is loaded.\<close>

datatype kobj = BuffFromHere | BuffTemp | LogBuff nat | ProcEntry

record mod_state =
  ms_km :: km_state
  ms_live :: "kobj set"
  ms_devs :: "net_device list"

record init_env =
  env_buff :: "bytes option"
  env_temp :: "bytes option"
  env_pages :: "nat \<Rightarrow> u64 list option"
  env_proc :: bool
  env_reg :: "net_device \<Rightarrow> int"

text \<open>\<^verbatim>\<open>myinit\<close>: the two buffers come from \<^verbatim>\<open>kmalloc\<close>, whose result is used unchecked; the log
  blocks come from \<^verbatim>\<open>__get_free_pages\<close>, which does not clear them. The state of the module is
  what its static initialisers give, with the buffers filled in.\<close>

definition myinit :: "init_env \<Rightarrow> net_device list \<Rightarrow> (int \<times> mod_state) option" where
  "myinit env devs = do {
     buf \<leftarrow> env_buff env;
     buf \<leftarrow> store buf 0 (replicate (PKT_BUFFER_SIZE * MAX_PKT) 0);
     temp \<leftarrow> env_temp env;
     temp \<leftarrow> store temp 0 (replicate BUFFER_SIZE 0);
     let km = \<lparr>km_log_buffs = [], buff_from_here = buf, buff_temp = temp, current_index = 0,
               status = replicate MAX_PKT 0, count_pkt = 0, count_pkt_overflow = 0\<rparr>;
     let live = {BuffFromHere, BuffTemp};
     case alloc_log_buffs (env_pages env) 0 [] of
       Inl freed \<Rightarrow> Some (-1, \<lparr>ms_km = km, ms_live = live, ms_devs = devs\<rparr>)
     | Inr lb \<Rightarrow>
         let live = live \<union> set (map LogBuff [0..<length lb]);
             live = (if env_proc env then insert ProcEntry live else live)
         in Some (0, \<lparr>ms_km = km\<lparr>km_log_buffs := lb\<rparr>, ms_live = live,
                      ms_devs = registerRxHandlers (env_reg env) devs\<rparr>)
   }"

text \<open>The export loop of \<^verbatim>\<open>myexit\<close>; \<open>vfs_write content pos text\<close> gives the new content of the
  file and the new position.\<close>

function export_file ::
    "(string \<Rightarrow> nat \<Rightarrow> string \<Rightarrow> string \<times> nat) \<Rightarrow> log_table \<Rightarrow> nat \<Rightarrow> string \<Rightarrow> nat \<Rightarrow> u64
     \<Rightarrow> (string \<times> u64) option" where
  "export_file vfs_write log_buffs i file pos zeroed =
     (if i < MAX_LOG_ENTRY then do {
        v \<leftarrow> log_read log_buffs i;
        let (file, pos) = vfs_write file pos (print_entry v);
        export_file vfs_write log_buffs (Suc i) file pos (if v = 0 then zeroed + 1 else zeroed)
      } else Some (file, zeroed))"
  by pat_completeness auto
termination
  by (relation "measure (\<lambda>(w, log_buffs, i, file, pos, zeroed). MAX_LOG_ENTRY - i)") auto

declare export_file.simps [simp del]

text \<open>\<^verbatim>\<open>kfree\<close> and \<^verbatim>\<open>free_pages\<close>: freeing what is not allocated is undefined.\<close>

definition free_obj :: "kobj set \<Rightarrow> kobj \<Rightarrow> kobj set option" where
  "free_obj live b = (if b \<in> live then Some (live - {b}) else None)"

text \<open>\<^verbatim>\<open>myexit\<close>: \<open>file\<close> is the content of the log file when \<^verbatim>\<open>filp_open\<close> succeeds (it is opened
  without truncation) and \<open>None\<close> when it fails. The result is the content of the file, if it
  was written, and the new state.\<close>

definition myexit ::
    "(string \<Rightarrow> nat \<Rightarrow> string \<Rightarrow> string \<times> nat) \<Rightarrow> string option \<Rightarrow> mod_state
     \<Rightarrow> (string option \<times> mod_state) option" where
  "myexit vfs_write file m =
     (let m = m\<lparr>ms_devs := unregisterRxHandlers (ms_devs m)\<rparr>
      in case file of
           None \<Rightarrow> Some (None, m)
         | Some content \<Rightarrow> do {
             (content', zeroed) \<leftarrow> export_file vfs_write (km_log_buffs (ms_km m)) 0 content 0 0;
             live \<leftarrow> foldM free_obj (ms_live m - {ProcEntry})
                       ([BuffFromHere, BuffTemp] @ map LogBuff [0..<NUM_LOG_BUFF]);
             Some (Some content', m\<lparr>ms_live := live\<rparr>)
           })"

section \<open>Facts about the devices\<close>

lemma unregister_register:
  "unregisterRxHandlers (registerRxHandlers reg ds) = unregisterRxHandlers ds"
  by (induction ds) auto

lemma unregister_id:
  "\<forall>d \<in> set ds. dev_name d = ''ens33'' \<longrightarrow> dev_rx_handler d = None \<Longrightarrow> unregisterRxHandlers ds = ds"
  by (induction ds) auto

section \<open>Facts about the export\<close>

text \<open>The documented effect of \<^verbatim>\<open>vfs_write\<close> on a regular file: the bytes replace those at the
  position and the file grows when needed.\<close>

definition writes_at :: "(string \<Rightarrow> nat \<Rightarrow> string \<Rightarrow> string \<times> nat) \<Rightarrow> bool" where
  "writes_at w \<longleftrightarrow> (\<forall>f p d. p \<le> length f \<longrightarrow>
     w f p d = (take p f @ d @ drop (p + length d) f, p + length d))"

definition plain_write :: "string \<Rightarrow> nat \<Rightarrow> string \<Rightarrow> string \<times> nat" where
  "plain_write f p d = (take p f @ d @ drop (p + length d) f, p + length d)"

lemma writes_at_plain: "writes_at plain_write"
  by (simp add: writes_at_def plain_write_def)

lemma export_file_acc:
  assumes w: "writes_at w" and "wf_log lb" and "i \<le> MAX_LOG_ENTRY" and "pos \<le> length fl"
  shows "export_file w lb i fl pos z =
    (let text = concat (map print_entry (drop i (concat lb)))
     in Some (take pos fl @ text @ drop (pos + length text) fl,
              z + of_nat (length (filter (\<lambda>v. v = 0) (drop i (concat lb))))))"
  using assms
proof (induction w lb i fl pos z rule: export_file.induct)
  case (1 w lb i fl pos z)
  note len = wf_log_concat(1) [OF "1.prems"(2)]
  show ?case
  proof (cases "i < MAX_LOG_ENTRY")
    case True
    let ?v = "concat lb ! i"
    let ?e = "print_entry ?v"
    let ?fl = "take pos fl @ ?e @ drop (pos + length ?e) fl"
    have rd: "log_read lb i = Some ?v" using wf_log_concat(2) "1.prems"(2) True .
    have wr: "w fl pos ?e = (?fl, pos + length ?e)"
      using "1.prems"(1,4) by (simp add: writes_at_def)
    have pre: "take (pos + length ?e) ?fl = take pos fl @ ?e"
      using "1.prems"(4) by simp
    have post: "drop (pos + length ?e + n) ?fl = drop (pos + length ?e + n) fl" for n
      using "1.prems"(4) by (simp add: algebra_simps)
    have "pos + length ?e \<le> length ?fl" using "1.prems"(4) by simp
    with 1 True rd wr have "export_file w lb (Suc i) ?fl (pos + length ?e) (if ?v = 0 then z + 1 else z) =
        (let text = concat (map print_entry (drop (Suc i) (concat lb)))
         in Some (take (pos + length ?e) ?fl @ text @ drop (pos + length ?e + length text) ?fl,
              (if ?v = 0 then z + 1 else z)
                + of_nat (length (filter (\<lambda>v. v = 0) (drop (Suc i) (concat lb))))))"
      by (intro "1.IH") auto
    moreover have "drop i (concat lb) = ?v # drop (Suc i) (concat lb)"
      using True len by (simp add: Cons_nth_drop_Suc)
    ultimately show ?thesis
      using True rd wr unfolding pre post
      by (simp add: export_file.simps [of w lb i] Let_def algebra_simps)
  next
    case False
    then show ?thesis using len "1.prems" export_file.simps [of w lb i fl pos z] by simp
  qed
qed

lemma export_file_0:
  assumes "writes_at w" and "wf_log lb"
  shows "\<exists>text. export_file w lb 0 fl 0 0 = Some (text @ drop (length text) fl,
      of_nat (length (filter (\<lambda>v. v = 0) (concat lb)))) \<and> parse_log text = map unat (concat lb)"
  using export_file_acc [OF assms, of 0 0 fl 0] by (auto simp: Let_def parse_print_entries)

section \<open>Facts about loading and unloading\<close>

definition good_env :: "init_env \<Rightarrow> bool" where
  "good_env env \<longleftrightarrow> map_option length (env_buff env) = Some (PKT_BUFFER_SIZE * MAX_PKT)
     \<and> map_option length (env_temp env) = Some BUFFER_SIZE
     \<and> (\<forall>k < NUM_LOG_BUFF. map_option length (env_pages env k) = Some MAX_ENTRIES_PER_LOG_BUFF)"

lemma store_whole: "length m = n \<Longrightarrow> store m 0 (replicate n v) = Some (replicate n v)"
  by (simp add: store_def)

lemma myinit_ok:
  assumes "good_env env"
  shows "\<exists>lb. wf_log lb \<and> alloc_log_buffs (env_pages env) 0 [] = Inr lb \<and> myinit env devs =
    Some (0, \<lparr>ms_km = km_init lb,
              ms_live = {BuffFromHere, BuffTemp} \<union> LogBuff ` {..<NUM_LOG_BUFF}
                          \<union> (if env_proc env then {ProcEntry} else {}),
              ms_devs = registerRxHandlers (env_reg env) devs\<rparr>)"
proof -
  from assms obtain b t where b: "env_buff env = Some b" "length b = PKT_BUFFER_SIZE * MAX_PKT"
    and t: "env_temp env = Some t" "length t = BUFFER_SIZE" by (auto simp: good_env_def)
  obtain lb where lb: "alloc_log_buffs (env_pages env) 0 [] = Inr lb" "wf_log lb"
    using alloc_log_buffs_wf [of "env_pages env"] assms by (auto simp: good_env_def)
  then show ?thesis
    using b t lb by (intro exI [of _ lb])
      (auto simp: myinit_def store_whole km_init_def wf_log_def lessThan_atLeast0)
qed

lemma myinit_no_pages:
  assumes "env_buff env = Some b" "length b = PKT_BUFFER_SIZE * MAX_PKT"
    and "env_temp env = Some t" "length t = BUFFER_SIZE"
    and "k < NUM_LOG_BUFF" and "env_pages env k = None"
  shows "\<exists>m. myinit env devs = Some (-1, m) \<and> ms_live m = {BuffFromHere, BuffTemp} \<and> ms_devs m = devs"
proof -
  have "\<not> (\<forall>k < NUM_LOG_BUFF. env_pages env k \<noteq> None)" using assms(5,6) by blast
  then obtain freed where "alloc_log_buffs (env_pages env) 0 [] = Inl freed"
    unfolding alloc_log_buffs_least by (simp only: if_False)
  then show ?thesis using assms(1-4) by (simp add: myinit_def store_whole)
qed

lemma free_obj_all:
  "distinct bs \<Longrightarrow> set bs \<subseteq> live \<Longrightarrow> foldM free_obj live bs = Some (live - set bs)"
proof (induction bs arbitrary: live)
  case (Cons b bs)
  have "foldM free_obj (live - {b}) bs = Some (live - {b} - set bs)"
    using Cons.prems by (intro Cons.IH) auto
  moreover have "live - {b} - set bs = live - set (b # bs)" by auto
  moreover have "free_obj live b = Some (live - {b})"
    using Cons.prems by (simp add: free_obj_def)
  ultimately show ?case by simp
qed simp

lemma myexit_ok:
  assumes w: "writes_at w" and wf: "wf_log (km_log_buffs (ms_km m))"
    and live: "{BuffFromHere, BuffTemp} \<union> LogBuff ` {..<NUM_LOG_BUFF} \<subseteq> ms_live m"
  shows "\<exists>out. myexit w (Some old) m = Some (Some (out @ drop (length out) old),
      m\<lparr>ms_devs := unregisterRxHandlers (ms_devs m),
        ms_live := ms_live m - ({ProcEntry, BuffFromHere, BuffTemp} \<union> LogBuff ` {..<NUM_LOG_BUFF})\<rparr>)
    \<and> parse_log out = map unat (concat (km_log_buffs (ms_km m)))"
proof -
  let ?bs = "[BuffFromHere, BuffTemp] @ map LogBuff [0..<NUM_LOG_BUFF]"
  have "distinct ?bs" by (auto simp: distinct_map inj_on_def)
  moreover have "set ?bs \<subseteq> ms_live m - {ProcEntry}" using live by (auto simp: lessThan_atLeast0)
  ultimately have "foldM free_obj (ms_live m - {ProcEntry}) ?bs = Some (ms_live m - {ProcEntry} - set ?bs)"
    by (rule free_obj_all)
  moreover have "ms_live m - {ProcEntry} - set ?bs
      = ms_live m - ({ProcEntry, BuffFromHere, BuffTemp} \<union> LogBuff ` {..<NUM_LOG_BUFF})"
    by (auto simp: lessThan_atLeast0)
  ultimately show ?thesis
    using export_file_0 [OF w wf, of old] by (auto simp: myexit_def Let_def simp del: foldM.simps)
qed

section \<open>Properties\<close>


definition sample_env :: init_env where
  "sample_env = \<lparr>env_buff = Some (replicate (PKT_BUFFER_SIZE * MAX_PKT) 9),
     env_temp = Some (replicate BUFFER_SIZE 9),
     env_pages = (\<lambda>k. Some (replicate MAX_ENTRIES_PER_LOG_BUFF 0)), env_proc = True, env_reg = (\<lambda>d. 0)\<rparr>"

definition sample_devs :: "net_device list" where
  "sample_devs = [\<lparr>dev_name = ''lo'', dev_rx_handler = None\<rparr>,
     \<lparr>dev_name = ''ens33'', dev_rx_handler = None\<rparr>]"

lemma good_sample_env: "good_env sample_env"
  by (simp add: good_env_def sample_env_def)


text \<open>The two error exits leak. When a block of the log cannot be allocated, \<^verbatim>\<open>myinit\<close> returns
  -1, the module is not loaded, and the packet cache and the transfer buffer stay allocated.
  When the log file cannot be opened, \<^verbatim>\<open>myexit\<close> returns with the handler unregistered and every
  allocation and the proc entry, whose operations point into the unloaded module, still in
  place.\<close>

lemma module_error_exits_leak:
  assumes "env_buff env = Some b" "length b = PKT_BUFFER_SIZE * MAX_PKT"
    and "env_temp env = Some t" "length t = BUFFER_SIZE"
    and "k < NUM_LOG_BUFF"
  shows "(env_pages env k = None \<longrightarrow>
      (\<exists>m. myinit env devs = Some (-1, m) \<and> ms_live m = {BuffFromHere, BuffTemp} \<and> ms_devs m = devs))
    \<and> (good_env env \<longrightarrow> (\<exists>m m'. myinit env devs = Some (0, m)
      \<and> myexit w None m = Some (None, m') \<and> ms_live m' = {BuffFromHere, BuffTemp}
          \<union> LogBuff ` {..<NUM_LOG_BUFF} \<union> (if env_proc env then {ProcEntry} else {})
      \<and> ms_devs m' = unregisterRxHandlers devs))"
  using myinit_no_pages [OF assms] myinit_ok [of env devs]
  by (auto simp: myexit_def unregister_register)

lemma module_error_exits_leak_example:
  "(\<exists>m. myinit (sample_env\<lparr>env_pages := (\<lambda>k. None)\<rparr>) sample_devs = Some (-1, m)
      \<and> ms_live m = {BuffFromHere, BuffTemp} \<and> ms_devs m = sample_devs)
   \<and> (\<exists>m m'. myinit sample_env sample_devs = Some (0, m) \<and> myexit plain_write None m = Some (None, m')
      \<and> ms_live m' = {BuffFromHere, BuffTemp} \<union> LogBuff ` {..<NUM_LOG_BUFF} \<union> {ProcEntry})"
proof
  let ?env = "sample_env\<lparr>env_pages := (\<lambda>k. None)\<rparr>"
  have b: "env_buff ?env = Some (replicate (PKT_BUFFER_SIZE * MAX_PKT) 9)"
      "env_temp ?env = Some (replicate BUFFER_SIZE 9)" "env_pages ?env 0 = None" "0 < NUM_LOG_BUFF"
    by (simp_all add: sample_env_def NUM_LOG_BUFF_val)
  show "\<exists>m. myinit ?env sample_devs = Some (-1, m)
      \<and> ms_live m = {BuffFromHere, BuffTemp} \<and> ms_devs m = sample_devs"
    using module_error_exits_leak [OF b(1) _ b(2) _ b(4)] b(3) by simp
  have c: "env_buff sample_env = Some (replicate (PKT_BUFFER_SIZE * MAX_PKT) 9)"
      "env_temp sample_env = Some (replicate BUFFER_SIZE 9)" "env_proc sample_env"
    by (simp_all add: sample_env_def)
  show "\<exists>m m'. myinit sample_env sample_devs = Some (0, m) \<and> myexit plain_write None m = Some (None, m')
      \<and> ms_live m' = {BuffFromHere, BuffTemp} \<union> LogBuff ` {..<NUM_LOG_BUFF} \<union> {ProcEntry}"
    using module_error_exits_leak [OF c(1) _ c(2) _ b(4), of sample_devs plain_write]
      good_sample_env c(3) by auto
qed

text \<open>The page of the proc file: what a successful \<^verbatim>\<open>write\<close> of \<^verbatim>\<open>len\<close> bytes stores is what a
  mapping of the same open file shows at its first access, for the first \<^verbatim>\<open>BUFFER_SIZE\<close> bytes;
  the return value claims all \<^verbatim>\<open>len\<close> bytes. The rest of the page keeps what \<^verbatim>\<open>open\<close> put there.
  After \<^verbatim>\<open>release\<close> the descriptor of the file is freed, and the page stays alive for the
  mapping.\<close>

lemma proc_file_session:
  assumes "ia \<noteq> 0" and "pa \<noteq> 0" and "length buf = len"
  shows "\<exists>f1 h1 h2 h3 h4. km_open ia pa f h = Some (0, f1, h1)
    \<and> km_write 0 f1 buf len h1 = Some (int len, h2)
    \<and> vm_fault (snd (km_mmap f1 vma)) h2 = Some (0, Some pa, h3)
    \<and> kh_pages h3 pa = Some (take BUFFER_SIZE buf
         @ drop len ([0x61, 0x73, 0x64, 0x66] @ replicate (PAGE_SIZE - 4) 0))
    \<and> km_release f1 h3 = Some (0, f\<lparr>private_data := 0\<rparr>, h4)
    \<and> kh_infos h4 ia = None \<and> kh_pages h4 pa = kh_pages h3 pa \<and> kh_refs h4 pa = 1"
proof -
  let ?page = "[0x61, 0x73, 0x64, 0x66] @ replicate (PAGE_SIZE - 4) 0 :: bytes"
  have page: "store (replicate PAGE_SIZE 0) 0 [0x61, 0x73, 0x64, 0x66] = Some ?page"
    by (simp add: store_def PAGE_SIZE_def)
  have len: "length ?page = BUFFER_SIZE" by (simp add: PAGE_SIZE_def const_vals)
  have src: "load buf 0 (min len BUFFER_SIZE) = Some (take BUFFER_SIZE buf)"
    using assms(3) by (simp add: load_def min_def)
  have "drop (min len BUFFER_SIZE) ?page = drop len ?page"
    using len by (simp only: min_def) simp
  then have wr: "store ?page 0 (take BUFFER_SIZE buf) = Some (take BUFFER_SIZE buf @ drop len ?page)"
    using assms(3) len by (simp only: store_def) simp
  show ?thesis
    using assms(1,2) page src wr
    by (simp add: km_open_def km_write_def km_mmap_def vm_fault_def km_release_def free_page_def)
qed

lemma proc_file_session_example:
  "\<exists>f1 h1 h2 h3 h4. km_open 1 2 \<lparr>private_data = 0\<rparr> \<lparr>kh_infos = Map.empty, kh_pages = Map.empty,
        kh_refs = (\<lambda>_. 0)\<rparr> = Some (0, f1, h1)
    \<and> km_write 0 f1 [1, 2, 3] 3 h1 = Some (3, h2)
    \<and> vm_fault (snd (km_mmap f1 \<lparr>vm_ops_set = False, vm_flags = 0, vm_private_data = 0\<rparr>)) h2
        = Some (0, Some 2, h3)
    \<and> kh_pages h3 2 = Some ([1, 2, 3, 0x66] @ replicate (PAGE_SIZE - 4) 0)
    \<and> km_release f1 h3 = Some (0, \<lparr>private_data = 0\<rparr>, h4)"
  using proc_file_session [of 1 2 "[1, 2, 3]" 3 "\<lparr>private_data = 0\<rparr>"
      "\<lparr>kh_infos = Map.empty, kh_pages = Map.empty, kh_refs = (\<lambda>_. 0)\<rparr>"
      "\<lparr>vm_ops_set = False, vm_flags = 0, vm_private_data = 0\<rparr>"]
  by (auto simp: const_vals)

end
