(* ===== verification/User_Processing.thy ===== *)
theory User_Processing
  imports KM_Fifo
begin

text \<open>
  \<^verbatim>\<open>mymodule/kernel_module/user-processing.c\<close>: the user-space program that polls the proc file
  of the kernel module, takes the packets out of each buffer and logs when it saw them, until a
  signal clears \<^verbatim>\<open>keep_running\<close>; then it exports its log.
\<close>

text \<open>\<^verbatim>\<open>get_nsecs\<close>, from the two fields of the \<^verbatim>\<open>timespec\<close>.\<close>

definition get_nsecs :: "u64 \<Rightarrow> u64 \<Rightarrow> u64" where
  "get_nsecs tv_sec tv_nsec = tv_sec * 1000000000 + tv_nsec"

text \<open>The body of the loop over the slots of one buffer; \<open>now i\<close> is the clock when slot \<open>i\<close> is
  processed. The copy into the local payload takes \<^const>\<open>sizeof_Payload\<close> bytes.\<close>

definition up_slot :: "bytes \<Rightarrow> (nat \<Rightarrow> u64) \<Rightarrow> log_table \<Rightarrow> nat \<Rightarrow> log_table option" where
  "up_slot buff_read now lb i = do {
     c \<leftarrow> arr_get buff_read (i * PKT_BUFFER_SIZE);
     if c = 0 then Some lb else do {
     pl \<leftarrow> load_Payload buff_read (i * PKT_BUFFER_SIZE);
     if pl_client_uid pl \<noteq> 0 \<and> pl_type pl = PL_DATA \<and> pl_created_time pl \<noteq> 0
     then log_write lb (pl_uid pl) (now i)
     else Some lb }}"

text \<open>One round of the polling loop: clear the buffer, \<^verbatim>\<open>pread\<close> (which stores the bytes
  \<open>data\<close> at its start; its result is not looked at), process the slots.\<close>

definition up_round :: "log_table \<Rightarrow> bytes \<times> (nat \<Rightarrow> u64) \<Rightarrow> log_table option" where
  "up_round lb r = do {
     buff_read \<leftarrow> store (replicate BUFFER_SIZE 0) 0 (fst r);
     foldM (up_slot buff_read (snd r)) lb [0..<PKTS_PER_BUFFER]
   }"

text \<open>The program. Its environment: the results of \<^verbatim>\<open>malloc\<close>, whether the proc file can be
  opened and mapped, the rounds until the signal arrives, whether the log file can be opened.
  A failed assertion aborts; a null \<^verbatim>\<open>FILE\<close> pointer is used unchecked.\<close>

record up_env =
  up_malloc :: "nat \<Rightarrow> u64 list option"
  up_open :: bool
  up_mmap :: bool
  up_rounds :: "(bytes \<times> (nat \<Rightarrow> u64)) list"
  up_fopen :: bool

datatype exit_state = Exit int | Abort

definition up_main :: "up_env \<Rightarrow> (exit_state \<times> (string \<times> u64) option) option" where
  "up_main env = (case alloc_log_buffs (up_malloc env) 0 [] of
     Inl freed \<Rightarrow> Some (Exit (-1), None)
   | Inr lb \<Rightarrow>
       if \<not> up_open env then Some (Abort, None)
       else if \<not> up_mmap env then Some (Abort, None)
       else do {
         lb \<leftarrow> foldM up_round lb (up_rounds env);
         if \<not> up_fopen env then None else do {
         (text, zeroed) \<leftarrow> export_log lb 0 [] 0;
         Some (Exit 0, Some (text, zeroed)) }
       })"

section \<open>One buffer\<close>

text \<open>The header fields of the packet in a slot, and what one round logs for the slots it
  looks at.\<close>

definition slot_valid :: "bytes \<Rightarrow> bool" where
  "slot_valid c \<longleftrightarrow> word_of_le (take 8 c) \<noteq> (0 :: u64)
     \<and> word_of_le (take 8 (drop 16 c)) = PL_DATA \<and> word_of_le (take 8 (drop 24 c)) \<noteq> (0 :: u64)"

definition slot_uid :: "bytes \<Rightarrow> u64" where
  "slot_uid c = word_of_le (take 8 (drop 8 c))"

definition up_stamps :: "bytes \<Rightarrow> (nat \<Rightarrow> u64) \<Rightarrow> nat list \<Rightarrow> (u64 \<times> u64) list" where
  "up_stamps buf now is = map (\<lambda>i. (slot_uid (slot_of buf i), now i))
     (filter (\<lambda>i. hd (slot_of buf i) \<noteq> 0 \<and> slot_valid (slot_of buf i)) is)"

lemma payload_in_bounds_iff:
  "length buf = BUFFER_SIZE \<Longrightarrow> i < PKTS_PER_BUFFER \<Longrightarrow>
    (\<exists>pl. load_Payload buf (i * PKT_BUFFER_SIZE) = Some pl) \<longleftrightarrow> i < 25"
  by (auto simp: load_Payload_def load_def const_vals)

lemma payload_fields:
  assumes "load_Payload buf (i * PKT_BUFFER_SIZE) = Some pl"
  shows "slot_uid (slot_of buf i) = pl_uid pl"
    and "slot_valid (slot_of buf i) \<longleftrightarrow>
      pl_client_uid pl \<noteq> 0 \<and> pl_type pl = PL_DATA \<and> pl_created_time pl \<noteq> 0"
  using assms
  by (auto simp: load_Payload_def load_def Payload_of_bytes_def slot_uid_def slot_valid_def
      slot_of_def const_vals drop_take split: if_splits)

lemma up_slot_stamps:
  assumes len: "length buf = BUFFER_SIZE" and i: "i < PKTS_PER_BUFFER"
    and ok: "buf ! (i * PKT_BUFFER_SIZE) \<noteq> 0 \<Longrightarrow> i < 25"
  shows "up_slot buf now lb i = foldM (\<lambda>l (uid, t). log_write l uid t) lb (up_stamps buf now [i])"
proof -
  let ?c = "buf ! (i * PKT_BUFFER_SIZE)"
  have at: "i * PKT_BUFFER_SIZE < length buf" using len i by (simp add: const_vals)
  then have c: "arr_get buf (i * PKT_BUFFER_SIZE) = Some ?c" by (simp add: arr_get_def)
  have hd: "hd (slot_of buf i) = ?c"
    using at by (simp add: slot_of_def hd_take hd_drop_conv_nth const_vals)
  show ?thesis
  proof (cases "?c = 0")
    case True
    then show ?thesis using c hd by (simp add: up_slot_def up_stamps_def)
  next
    case False
    then obtain pl where pl: "load_Payload buf (i * PKT_BUFFER_SIZE) = Some pl"
      using payload_in_bounds_iff [OF len i] ok by auto
    show ?thesis
      using c hd False pl payload_fields [OF pl] by (simp add: up_slot_def up_stamps_def)
  qed
qed

lemma up_slot_overread:
  assumes "length buf = BUFFER_SIZE" and "i < PKTS_PER_BUFFER"
    and "buf ! (i * PKT_BUFFER_SIZE) \<noteq> 0" and "25 \<le> i"
  shows "up_slot buf now lb i = None"
proof -
  have "i * PKT_BUFFER_SIZE < length buf" using assms by (simp add: const_vals)
  moreover have "load_Payload buf (i * PKT_BUFFER_SIZE) = None"
    using payload_in_bounds_iff [OF assms(1,2)] assms(4) by (metis not_le option.exhaust)
  ultimately show ?thesis using assms(3) by (simp add: up_slot_def arr_get_def)
qed

lemma up_slots_stamps:
  assumes "length buf = BUFFER_SIZE"
    and "\<forall>i \<in> set is. i < PKTS_PER_BUFFER \<and> (buf ! (i * PKT_BUFFER_SIZE) \<noteq> 0 \<longrightarrow> i < 25)"
  shows "foldM (up_slot buf now) lb is
    = foldM (\<lambda>l (uid, t). log_write l uid t) lb (up_stamps buf now is)"
  using assms(2)
proof (induction "is" arbitrary: lb)
  case Nil
  then show ?case by (simp add: up_stamps_def)
next
  case (Cons i "is")
  have "up_stamps buf now (i # is) = up_stamps buf now [i] @ up_stamps buf now is"
    by (simp add: up_stamps_def)
  moreover have "up_slot buf now lb i
      = foldM (\<lambda>l (uid, t). log_write l uid t) lb (up_stamps buf now [i])"
    using Cons.prems by (intro up_slot_stamps [OF assms(1)]) auto
  ultimately show ?case using Cons by (simp add: foldM_append cong: Option.bind_cong)
qed

lemma foldM_None_at:
  assumes "\<And>s. f s e = None" and "e \<in> set es"
  shows "foldM f s es = None"
  using assms(2)
proof (induction es arbitrary: s)
  case (Cons d es)
  then show ?case using assms(1) by (cases "f s d") auto
qed simp

lemma up_round_eq:
  "length (fst r) = BUFFER_SIZE \<Longrightarrow>
    up_round lb r = foldM (up_slot (fst r) (snd r)) lb [0..<PKTS_PER_BUFFER]"
  by (simp add: up_round_def store_def)

section \<open>From the kernel module to the log\<close>

text \<open>What the program logs for a queue of packets it receives in one buffer.\<close>

definition queue_stamps :: "bytes list \<Rightarrow> (nat \<Rightarrow> u64) \<Rightarrow> (u64 \<times> u64) list" where
  "queue_stamps Q now = map (\<lambda>i. (slot_uid (Q ! i), now i))
     (filter (\<lambda>i. slot_valid (Q ! i)) [0..<length Q])"

lemma up_stamps_queue:
  assumes len: "\<forall>c \<in> set Q. length c = PKT_BUFFER_SIZE" and hd: "\<forall>c \<in> set Q. hd c \<noteq> 0"
    and n: "length Q \<le> PKTS_PER_BUFFER"
  shows "up_stamps (concat Q @ replicate (BUFFER_SIZE - length Q * PKT_BUFFER_SIZE) 0) now
    [0..<PKTS_PER_BUFFER] = queue_stamps Q now"
proof -
  let ?buf = "concat Q @ replicate (BUFFER_SIZE - length Q * PKT_BUFFER_SIZE) 0"
  let ?P = "\<lambda>i. hd (slot_of ?buf i) \<noteq> 0 \<and> slot_valid (slot_of ?buf i)"
  have lc: "length (concat Q) = length Q * PKT_BUFFER_SIZE" using len by (induction Q) auto
  have low: "slot_of ?buf i = Q ! i" if "i < length Q" for i
    using slot_of_concat [OF len that] .
  have "filter ?P [length Q..<PKTS_PER_BUFFER] = []"
    using slot_of_zeros [OF lc] hd_replicate [of PKT_BUFFER_SIZE "0 :: u8"] PKT_BUFFER_SIZE_val
    by (auto simp: filter_empty_conv)
  moreover have "[0..<PKTS_PER_BUFFER] = [0..<length Q] @ [length Q..<PKTS_PER_BUFFER]"
    using upt_add_eq_append [of 0 "length Q" "PKTS_PER_BUFFER - length Q"] n by simp
  moreover have "filter ?P [0..<length Q] = filter (\<lambda>i. slot_valid (Q ! i)) [0..<length Q]"
    using low hd by (intro filter_cong) auto
  ultimately have "filter ?P [0..<PKTS_PER_BUFFER] = filter (\<lambda>i. slot_valid (Q ! i)) [0..<length Q]"
    by (simp only: filter_append append_Nil2)
  then show ?thesis unfolding up_stamps_def queue_stamps_def using low by simp
qed

lemma first_byte_queue:
  assumes len: "\<forall>c \<in> set Q. length c = PKT_BUFFER_SIZE" and "length Q \<le> i"
    and "i < PKTS_PER_BUFFER"
  shows "(concat Q @ replicate (BUFFER_SIZE - length Q * PKT_BUFFER_SIZE) 0) ! (i * PKT_BUFFER_SIZE) = 0"
proof -
  have "length (concat Q) = length Q * PKT_BUFFER_SIZE" using len by (induction Q) auto
  then show ?thesis using assms(2,3) by (simp add: nth_append const_vals)
qed

lemma up_round_queue:
  assumes "\<forall>c \<in> set Q. length c = PKT_BUFFER_SIZE" and "\<forall>c \<in> set Q. hd c \<noteq> 0"
    and n: "length Q \<le> 25"
  shows "up_round lb (concat Q @ replicate (BUFFER_SIZE - length Q * PKT_BUFFER_SIZE) 0, now)
    = foldM (\<lambda>l (uid, t). log_write l uid t) lb (queue_stamps Q now)"
proof -
  let ?buf = "concat Q @ replicate (BUFFER_SIZE - length Q * PKT_BUFFER_SIZE) 0"
  have "length (concat Q) = length Q * PKT_BUFFER_SIZE" using assms(1) by (induction Q) auto
  then have len: "length ?buf = BUFFER_SIZE" using n by (simp add: const_vals)
  have "i < 25" if "i < PKTS_PER_BUFFER" "?buf ! (i * PKT_BUFFER_SIZE) \<noteq> 0" for i
    using first_byte_queue [OF assms(1), of i] n that by (cases "length Q \<le> i") auto
  then have "foldM (up_slot ?buf now) lb [0..<PKTS_PER_BUFFER]
      = foldM (\<lambda>l (uid, t). log_write l uid t) lb (queue_stamps Q now)"
    using up_slots_stamps [OF len] up_stamps_queue [OF assms(1,2)] n by (simp add: PKTS_PER_BUFFER_val)
  then show ?thesis using up_round_eq [of "(?buf, now)" lb] len by simp
qed

section \<open>The whole program\<close>

definition round_ok :: "bytes \<times> (nat \<Rightarrow> u64) \<Rightarrow> bool" where
  "round_ok r \<longleftrightarrow> length (fst r) = BUFFER_SIZE
     \<and> (\<forall>i < PKTS_PER_BUFFER. fst r ! (i * PKT_BUFFER_SIZE) \<noteq> 0 \<longrightarrow> i < 25)"

definition rounds_stamps :: "(bytes \<times> (nat \<Rightarrow> u64)) list \<Rightarrow> (u64 \<times> u64) list" where
  "rounds_stamps rs = concat (map (\<lambda>r. up_stamps (fst r) (snd r) [0..<PKTS_PER_BUFFER]) rs)"

lemma up_round_stamps:
  assumes "round_ok r"
  shows "up_round lb r = foldM (\<lambda>l (uid, t). log_write l uid t) lb
    (up_stamps (fst r) (snd r) [0..<PKTS_PER_BUFFER])"
  using assms up_round_eq [of r lb] up_slots_stamps [of "fst r" "[0..<PKTS_PER_BUFFER]"]
  by (simp add: round_ok_def)

lemma up_rounds_stamps:
  "\<forall>r \<in> set rs. round_ok r \<Longrightarrow>
    foldM up_round lb rs = foldM (\<lambda>l (uid, t). log_write l uid t) lb (rounds_stamps rs)"
proof (induction rs arbitrary: lb)
  case (Cons r rs)
  then show ?case
    using up_round_stamps [of r lb]
    by (simp add: rounds_stamps_def foldM_append cong: Option.bind_cong)
qed (simp add: rounds_stamps_def)

section \<open>Properties\<close>

text \<open>C9: A round of the program on a full buffer of \<^verbatim>\<open>BUFFER_SIZE\<close> bytes stays within the buffer
  exactly when no slot from the 26th on is in use: the program copies a whole payload of 1024
  bytes from each 128-byte slot, so the copy from any of the last seven slots reads past the
  end of \<^verbatim>\<open>buff_read\<close>.\<close>

theorem up_round_in_bounds_iff:
  assumes "wf_log lb" and "length buf = BUFFER_SIZE"
  shows "(\<exists>lb'. up_round lb (buf, now) = Some lb')
    \<longleftrightarrow> (\<forall>i < PKTS_PER_BUFFER. buf ! (i * PKT_BUFFER_SIZE) \<noteq> 0 \<longrightarrow> i < 25)"
proof
  assume run: "\<exists>lb'. up_round lb (buf, now) = Some lb'"
  show "\<forall>i < PKTS_PER_BUFFER. buf ! (i * PKT_BUFFER_SIZE) \<noteq> 0 \<longrightarrow> i < 25"
  proof (intro allI impI, rule ccontr)
    fix i
    assume i: "i < PKTS_PER_BUFFER" and "buf ! (i * PKT_BUFFER_SIZE) \<noteq> 0" "\<not> i < 25"
    then have "up_slot buf now l i = None" for l
      using up_slot_overread [OF assms(2)] by simp
    then have "foldM (up_slot buf now) lb [0..<PKTS_PER_BUFFER] = None"
      using i by (intro foldM_None_at) auto
    then show False using run assms(2) up_round_eq [of "(buf, now)" lb] by simp
  qed
next
  assume ok: "\<forall>i < PKTS_PER_BUFFER. buf ! (i * PKT_BUFFER_SIZE) \<noteq> 0 \<longrightarrow> i < 25"
  have "up_round lb (buf, now)
      = foldM (\<lambda>l (uid, t). log_write l uid t) lb (up_stamps buf now [0..<PKTS_PER_BUFFER])"
    using up_round_eq [of "(buf, now)" lb] up_slots_stamps [OF assms(2), of "[0..<PKTS_PER_BUFFER]"]
      assms(2) ok by simp
  then show "\<exists>lb'. up_round lb (buf, now) = Some lb'"
    using lt.run_defined [OF assms(1)] by auto
qed

theorem up_round_in_bounds_iff_witness:
  "(\<exists>lb'. up_round zero_log (replicate BUFFER_SIZE 0, \<lambda>_. 3) = Some lb')
   \<and> \<not> (\<exists>lb'. up_round zero_log ((replicate BUFFER_SIZE 0)[3200 := 1], \<lambda>_. 3) = Some lb')"
proof
  show "\<exists>lb'. up_round zero_log (replicate BUFFER_SIZE 0, \<lambda>_. 3) = Some lb'"
    using up_round_in_bounds_iff [OF wf_zero_log, of "replicate BUFFER_SIZE 0" "\<lambda>_. 3"]
    by (simp add: const_vals)
  let ?buf = "(replicate BUFFER_SIZE 0)[3200 := 1] :: bytes"
  have "25 < PKTS_PER_BUFFER" "?buf ! (25 * PKT_BUFFER_SIZE) \<noteq> 0" "\<not> 25 < (25 :: nat)"
    by (simp_all add: const_vals)
  moreover have "length ?buf = BUFFER_SIZE" by simp
  ultimately show "\<not> (\<exists>lb'. up_round zero_log (?buf, \<lambda>_. 3) = Some lb')"
    using up_round_in_bounds_iff [OF wf_zero_log, of ?buf "\<lambda>_. 3"] by blast
qed


text \<open>A packet of the shape the client sends, cut after the creation time.\<close>

definition sample_data_skb :: sk_buff where
  "sample_data_skb = \<lparr>skb_head =
     [0x45, 0, 0, 60, 0, 0, 0, 0, 64, 17, 0, 0, 192, 168, 1, 12, 192, 168, 1, 24,
      0x9C, 0x40, 0x1F, 0x90, 0, 40, 0, 0,
      1, 0, 0, 0, 0, 0, 0, 0, 7, 0, 0, 0, 0, 0, 0, 0,
      2, 0, 0, 0, 0, 0, 0, 0, 9, 0, 0, 0, 0, 0, 0, 0],
     skb_data = 0, skb_network_header = 0, skb_transport_header = 20\<rparr>"

definition sample_data :: bytes where
  "sample_data = [1, 0, 0, 0, 0, 0, 0, 0, 7, 0, 0, 0, 0, 0, 0, 0,
      2, 0, 0, 0, 0, 0, 0, 0, 9, 0, 0, 0, 0, 0, 0, 0]"

lemma sample_data_facts:
  "rx_wanted sample_data_skb = Some True"
  "load64 (skb_head sample_data_skb) (skb_data sample_data_skb + 36) = Some 7"
  "rx_payload sample_data_skb = Some sample_data"
  "slot_valid sample_data" "slot_uid sample_data = 7"
  by code_simp+

lemma slot_fields_padded:
  assumes "32 \<le> length p"
  shows "slot_valid (padded p) = slot_valid p" "slot_uid (padded p) = slot_uid p"
  using assms by (simp_all add: slot_valid_def slot_uid_def padded_def)


text \<open>The program as a whole: when the allocations succeed and the proc file, the mapping and
  the log file can be opened, and no buffer uses a slot from the 26th on, the program runs
  without undefined behaviour, exits with status 0, and the file it writes reads back as the
  time at which the last valid packet of each uid was seen.\<close>

lemma up_main_exports:
  assumes "\<And>k. k < NUM_LOG_BUFF \<Longrightarrow> \<exists>r. up_malloc env k = Some r \<and> length r = MAX_ENTRIES_PER_LOG_BUFF"
    and "up_open env" "up_mmap env" "up_fopen env" and "\<forall>r \<in> set (up_rounds env). round_ok r"
  shows "\<exists>lb out zeroed. alloc_log_buffs (up_malloc env) 0 [] = Inr lb
    \<and> up_main env = Some (Exit 0, Some (out, zeroed))
    \<and> parse_log out = map (\<lambda>i. unat (last_stamp i (rounds_stamps (up_rounds env)) (concat lb ! i)))
        [0..<MAX_LOG_ENTRY]"
proof -
  obtain lb where lb: "alloc_log_buffs (up_malloc env) 0 [] = Inr lb" "wf_log lb"
    using alloc_log_buffs_wf [of "up_malloc env"] assms(1) by blast
  obtain lb' where run: "foldM up_round lb (up_rounds env) = Some lb'" "wf_log lb'"
    and st: "foldM (\<lambda>l (uid, t). log_write l uid t) lb (rounds_stamps (up_rounds env)) = Some lb'"
    using lt.run_defined [OF lb(2)] up_rounds_stamps [OF assms(5), of lb] by auto
  then show ?thesis
    using lb run(1) assms(2-4) export_of_run [OF lb(2) st] by (auto simp: up_main_def)
qed

lemma up_main_exports_example:
  "\<exists>lb out zeroed. up_main \<lparr>up_malloc = (\<lambda>k. Some (replicate MAX_ENTRIES_PER_LOG_BUFF 0)),
      up_open = True, up_mmap = True, up_rounds = [(replicate BUFFER_SIZE 0, \<lambda>_. 3)], up_fopen = True\<rparr>
    = Some (Exit 0, Some (out, zeroed)) \<and> length (parse_log out) = MAX_LOG_ENTRY"
proof -
  let ?env = "\<lparr>up_malloc = (\<lambda>k. Some (replicate MAX_ENTRIES_PER_LOG_BUFF 0)), up_open = True,
    up_mmap = True, up_rounds = [(replicate BUFFER_SIZE 0, \<lambda>_. 3)], up_fopen = True\<rparr>"
  have "round_ok (replicate BUFFER_SIZE 0, \<lambda>_. 3)" by (simp add: round_ok_def const_vals)
  then show ?thesis using up_main_exports [of ?env] by auto
qed

end
