(* ===== verification/Client_Server.thy ===== *)
theory Client_Server
  imports User_Processing
begin

text \<open>
  \<^verbatim>\<open>mymodule/helper/client.c\<close>, which sends the numbered packets of an experiment, and
  \<^verbatim>\<open>mymodule/helper/server.c\<close>, the reference receiver on an ordinary UDP socket.
\<close>

section \<open>The client\<close>

text \<open>The payload before the loop: the fields of the initialiser, zeros elsewhere.\<close>

definition client_payload :: Payload where
  "client_payload = \<lparr>pl_client_uid = 1, pl_uid = 0, pl_type = PL_DATA, pl_created_time = 0,
     pl_ks_time_arrival_1 = 0, pl_ks_time_arrival_2 = 0, pl_us_time_arrival_1 = 0,
     pl_us_time_arrival_2 = 0, pl_data = replicate 960 0\<rparr>"

text \<open>The loop. \<open>clock k\<close> is the value of \<^verbatim>\<open>get_nsecs\<close> in the round of uid \<open>k\<close>; the last round,
  which only reports, reads the clock into \<^verbatim>\<open>stop\<close> and divides by the elapsed milliseconds.
  The result is the packets handed to \<^verbatim>\<open>sendto\<close>, how often the loop slept, and the rate;
  a division by zero is undefined.\<close>

function client_loop ::
    "(nat \<Rightarrow> u64) \<Rightarrow> u64 \<Rightarrow> u64 \<Rightarrow> u64 \<Rightarrow> Payload \<Rightarrow> Payload list \<Rightarrow> nat \<Rightarrow> (Payload list \<times> nat \<times> u64) option" where
  "client_loop clock start uid count_i pl sent slept =
     (if of_nat MAX_LOG_ENTRY < uid then
        (let stop = clock (unat uid); ms = (stop - start) div 1000000
         in if ms = 0 then None else Some (sent, slept, of_nat MAX_LOG_ENTRY div ms))
      else
        (let pl = pl\<lparr>pl_uid := uid, pl_created_time := clock (unat uid)\<rparr>
         in client_loop clock start (uid + 1) (count_i + 1) pl (sent @ [pl])
              (if CLIENT_RATE \<noteq> 0 \<and> count_i mod of_nat CLIENT_RATE = 0 then slept + 1 else slept)))"
  by pat_completeness auto
termination
proof (relation "measure (\<lambda>(clock, start, uid, rest). Suc MAX_LOG_ENTRY - unat (uid :: u64))", goal_cases)
  case 1
  then show ?case by simp
next
  case (2 clock start uid count_i pl sent slept)
  then have "unat uid \<le> MAX_LOG_ENTRY" by (simp add: word_less_nat_alt const_vals)
  then show ?case by (simp add: const_vals unat_word_ariths(1))
qed

declare client_loop.simps [simp del]

datatype client_result = ClientFail | ClientOk "Payload list" nat u64

definition client_main :: "bool \<Rightarrow> u64 \<Rightarrow> (nat \<Rightarrow> u64) \<Rightarrow> client_result option" where
  "client_main socket_ok start clock =
     (if \<not> socket_ok then Some ClientFail
      else map_option (\<lambda>(sent, slept, rate). ClientOk sent slept rate)
             (client_loop clock start 0 0 client_payload [] 0))"

section \<open>The server\<close>

definition MAXLINE :: nat where "MAXLINE = 1024"

text \<open>One round of the receive loop: the buffer is cleared, \<^verbatim>\<open>recvfrom\<close> stores the datagram cut to
  \<^const>\<open>MAXLINE\<close> bytes (nothing when it fails, which is not checked), and whatever the buffer
  holds is taken as a payload. The second component says whether the loop goes on.\<close>

definition srv_round :: "log_table \<Rightarrow> bytes \<times> u64 \<Rightarrow> (log_table \<times> bool) option" where
  "srv_round lb e = do {
     buffer \<leftarrow> store (replicate MAXLINE 0) 0 (take MAXLINE (fst e));
     pl \<leftarrow> load_Payload buffer 0;
     lb \<leftarrow> log_write lb (pl_uid pl) (snd e);
     Some (lb, pl_uid pl \<noteq> of_nat (MAX_LOG_ENTRY - 1))
   }"

text \<open>The loop over the datagrams that arrive before the signal clears \<^verbatim>\<open>keep_running\<close>.\<close>

fun srv_loop :: "log_table \<Rightarrow> (bytes \<times> u64) list \<Rightarrow> log_table option" where
  "srv_loop lb [] = Some lb"
| "srv_loop lb (e # es) = do {
     (lb, go_on) \<leftarrow> srv_round lb e;
     if go_on then srv_loop lb es else Some lb
   }"

record srv_env =
  srv_args :: "string list"
  srv_malloc :: "nat \<Rightarrow> u64 list option"
  srv_socket :: bool
  srv_bind :: bool
  srv_datagrams :: "(bytes \<times> u64) list"
  srv_fopen :: bool

definition EXIT_FAILURE :: int where "EXIT_FAILURE = 1"

definition srv_main :: "srv_env \<Rightarrow> (int \<times> (string \<times> u64) option) option" where
  "srv_main env =
     (if length (srv_args env) \<noteq> 2 then Some (EXIT_FAILURE, None)
      else if srv_args env ! 1 \<noteq> ''km'' \<and> srv_args env ! 1 \<noteq> ''ebpf'' then Some (EXIT_FAILURE, None)
      else (case alloc_log_buffs (srv_malloc env) 0 [] of
              Inl freed \<Rightarrow> Some (-1, None)
            | Inr lb \<Rightarrow>
                if \<not> srv_socket env then Some (EXIT_FAILURE, None)
                else if \<not> srv_bind env then Some (EXIT_FAILURE, None)
                else do {
                  lb \<leftarrow> srv_loop lb (srv_datagrams env);
                  if \<not> srv_fopen env then None else do {
                  (out, zeroed) \<leftarrow> export_log lb 0 [] 0;
                  Some (0, Some (out, zeroed)) }
                }))"

section \<open>Facts about the client\<close>

text \<open>The packet of one round.\<close>

definition client_packet :: "(nat \<Rightarrow> u64) \<Rightarrow> nat \<Rightarrow> Payload" where
  "client_packet clock k = client_payload\<lparr>pl_uid := of_nat k, pl_created_time := clock k\<rparr>"

lemma wf_client_packet: "wf_Payload (client_packet clock k)"
  by (simp add: wf_Payload_def client_packet_def client_payload_def)

text \<open>Only the uid and the creation time change from round to round.\<close>

definition client_like :: "Payload \<Rightarrow> bool" where
  "client_like pl \<longleftrightarrow> (\<exists>u t. pl = client_payload\<lparr>pl_uid := u, pl_created_time := t\<rparr>)"

lemma client_like_upd:
  "client_like pl \<Longrightarrow> pl\<lparr>pl_uid := u, pl_created_time := t\<rparr> = client_payload\<lparr>pl_uid := u, pl_created_time := t\<rparr>"
  by (auto simp: client_like_def)

lemma client_loop_acc:
  assumes "k \<le> Suc MAX_LOG_ENTRY" and "client_like pl"
  shows "\<exists>slept'. client_loop clock start (of_nat k) c pl sent slept =
    (let ms = (clock (Suc MAX_LOG_ENTRY) - start) div 1000000
     in if ms = 0 then None
        else Some (sent @ map (client_packet clock) [k..<Suc MAX_LOG_ENTRY], slept',
                   of_nat MAX_LOG_ENTRY div ms))"
  using assms
proof (induction "Suc MAX_LOG_ENTRY - k" arbitrary: k c pl sent slept)
  case 0
  then have k: "k = Suc MAX_LOG_ENTRY" by simp
  define u :: u64 where "u = of_nat k"
  have "unat u = Suc MAX_LOG_ENTRY" and "of_nat MAX_LOG_ENTRY < u"
    by (simp_all add: u_def k word_less_nat_alt const_vals)
  then show ?case
    unfolding u_def [symmetric] by (simp add: client_loop.simps [of clock start u] Let_def k)
next
  case (Suc n)
  then have k: "k < Suc MAX_LOG_ENTRY" by simp
  have u: "unat (of_nat k :: u64) = k" using k by (intro unat_of_nat_small) (simp add: const_vals)
  have "\<not> (of_nat MAX_LOG_ENTRY :: u64) < of_nat k"
    using k u by (simp add: word_less_nat_alt const_vals)
  then have step: "client_loop clock start (of_nat k) c pl sent slept =
      client_loop clock start (of_nat (Suc k)) (c + 1) (client_packet clock k) (sent @ [client_packet clock k])
        (if CLIENT_RATE \<noteq> 0 \<and> c mod of_nat CLIENT_RATE = 0 then slept + 1 else slept)"
    using client_like_upd [OF Suc.prems(2)]
    by (simp add: client_loop.simps [of clock start "of_nat k"] Let_def u client_packet_def add.commute)
  have "client_like (client_packet clock k)" by (auto simp: client_like_def client_packet_def)
  then have "\<exists>slept'. client_loop clock start (of_nat (Suc k)) (c + 1) (client_packet clock k)
        (sent @ [client_packet clock k]) slept1 =
      (let ms = (clock (Suc MAX_LOG_ENTRY) - start) div 1000000
       in if ms = 0 then None
          else Some ((sent @ [client_packet clock k]) @ map (client_packet clock) [Suc k..<Suc MAX_LOG_ENTRY],
                     slept', of_nat MAX_LOG_ENTRY div ms))" for slept1
    using Suc.hyps(2) k by (intro Suc.hyps(1)) auto
  then show ?case
    unfolding step upt_conv_Cons [OF k] list.map append_assoc append_Cons append_Nil .
qed

lemma client_like_init: "client_like client_payload"
  by (simp add: client_like_def exI [of _ 0] client_payload_def)

section \<open>Facts about the server\<close>

lemma srv_round_packet:
  assumes "wf_Payload p"
  shows "srv_round lb (bytes_of_Payload p, now) = do {
    lb \<leftarrow> log_write lb (pl_uid p) now; Some (lb, pl_uid p \<noteq> of_nat (MAX_LOG_ENTRY - 1)) }"
proof -
  have len: "length (bytes_of_Payload p) = MAXLINE"
    using length_bytes_of_Payload [OF assms] by (simp add: MAXLINE_def const_vals)
  then have "store (replicate MAXLINE 0) 0 (take MAXLINE (bytes_of_Payload p)) = Some (bytes_of_Payload p)"
    by (simp add: store_def)
  moreover have "load_Payload (bytes_of_Payload p) 0 = Some p"
    using len Payload_of_bytes_of_Payload [OF assms, of "[]"]
    by (simp add: load_Payload_def load_def const_vals MAXLINE_def)
  ultimately show ?thesis by (simp add: srv_round_def)
qed

text \<open>The packets up to and including the first with the last uid are the ones the server
  logs.\<close>

fun srv_seen :: "(bytes \<times> u64) list \<Rightarrow> (u64 \<times> u64) list" where
  "srv_seen [] = []"
| "srv_seen (e # es) =
     (let uid = word_of_le (take 8 (drop 8 (take MAXLINE (fst e) @ replicate (MAXLINE - length (fst e)) 0)))
      in (uid, snd e) # (if uid = of_nat (MAX_LOG_ENTRY - 1) then [] else srv_seen es))"

lemma srv_round_any:
  "srv_round lb e = (let uid = word_of_le (take 8 (drop 8
      (take MAXLINE (fst e) @ replicate (MAXLINE - length (fst e)) 0)))
    in do { lb \<leftarrow> log_write lb uid (snd e); Some (lb, uid \<noteq> of_nat (MAX_LOG_ENTRY - 1)) })"
proof -
  define b where "b = take MAXLINE (fst e) @ replicate (MAXLINE - length (fst e)) 0"
  have "store (replicate MAXLINE 0) 0 (take MAXLINE (fst e)) = Some b"
    by (simp add: b_def store_def min_def)
  moreover have "length b = sizeof_Payload" by (simp add: b_def MAXLINE_def const_vals)
  then have "load_Payload b 0 = Some (Payload_of_bytes b)" by (simp add: load_Payload_def load_def)
  moreover have "pl_uid (Payload_of_bytes b) = word_of_le (take 8 (drop 8 b))"
    by (simp add: Payload_of_bytes_def)
  ultimately show ?thesis unfolding b_def [symmetric] by (simp add: srv_round_def Let_def)
qed

lemma srv_loop_seen:
  "srv_loop lb es = foldM (\<lambda>l (uid, now). log_write l uid now) lb (srv_seen es)"
proof (induction es arbitrary: lb)
  case (Cons e es)
  show ?case
    by (simp add: srv_round_any Let_def Cons.IH)
qed simp

lemma srv_seen_client:
  assumes "k < MAX_LOG_ENTRY"
  shows "srv_seen (map (\<lambda>i. (bytes_of_Payload (client_packet clock i), arrival i)) [k..<Suc MAX_LOG_ENTRY] @ later)
    = map (\<lambda>i. (of_nat i, arrival i)) [k..<MAX_LOG_ENTRY]"
  using assms
proof (induction "MAX_LOG_ENTRY - k" arbitrary: k)
  case (Suc n)
  let ?p = "bytes_of_Payload (client_packet clock k)"
  have len: "length ?p = MAXLINE"
    using length_bytes_of_Payload [OF wf_client_packet] by (simp add: MAXLINE_def const_vals)
  have "Payload_of_bytes ?p = client_packet clock k"
    using Payload_of_bytes_of_Payload [OF wf_client_packet, of _ _ "[]"] by simp
  moreover have "word_of_le (take 8 (drop 8 ?p)) = pl_uid (Payload_of_bytes ?p)"
    by (simp add: Payload_of_bytes_def)
  ultimately have uid: "word_of_le (take 8 (drop 8 ?p)) = (of_nat k :: u64)"
    by (simp add: client_packet_def)
  have k: "k < Suc MAX_LOG_ENTRY" using Suc.prems by simp
  have last: "(of_nat k :: u64) = of_nat (MAX_LOG_ENTRY - 1) \<longleftrightarrow> k = MAX_LOG_ENTRY - 1"
    using Suc.prems unat_of_nat_small [where 'a = 64, of k]
      unat_of_nat_small [where 'a = 64, of "MAX_LOG_ENTRY - 1"]
    by (auto simp: MAX_LOG_ENTRY_val)
  have ih: "k \<noteq> MAX_LOG_ENTRY - 1 \<Longrightarrow>
      srv_seen (map (\<lambda>i. (bytes_of_Payload (client_packet clock i), arrival i)) [Suc k..<Suc MAX_LOG_ENTRY] @ later)
        = map (\<lambda>i. (of_nat i, arrival i)) [Suc k..<MAX_LOG_ENTRY]"
    using Suc.hyps(2) Suc.prems by (intro Suc.hyps(1)) auto
  have "[Suc k..<MAX_LOG_ENTRY] = []" if "k = MAX_LOG_ENTRY - 1" using that by simp
  then show ?case
    using len uid last ih unfolding upt_conv_Cons [OF k] upt_conv_Cons [OF Suc.prems]
    by (simp add: Let_def del: upt_Suc)
qed simp

lemma last_stamp_upt:
  assumes "i < n" and "n \<le> 2 ^ 64"
  shows "last_stamp i (map (\<lambda>k. (of_nat k, f k)) [0..<n]) d = f i"
  using assms
proof (induction n)
  case (Suc n)
  then have "unat (of_nat n :: u64) = n" by (intro unat_of_nat_small) simp
  then show ?case using Suc by (cases "i = n") (auto simp: last_stamp_def)
qed simp

lemma client_main_eq:
  "\<exists>slept. client_main True start clock =
    (let ms = (clock (Suc MAX_LOG_ENTRY) - start) div 1000000
     in if ms = 0 then None
        else Some (ClientOk (map (client_packet clock) [0..<Suc MAX_LOG_ENTRY]) slept
                    (of_nat MAX_LOG_ENTRY div ms)))"
proof -
  obtain slept where "client_loop clock start (of_nat 0) 0 client_payload [] 0 =
      (let ms = (clock (Suc MAX_LOG_ENTRY) - start) div 1000000
       in if ms = 0 then None
          else Some ([] @ map (client_packet clock) [0..<Suc MAX_LOG_ENTRY], slept,
                     of_nat MAX_LOG_ENTRY div ms))"
    using client_loop_acc [OF _ client_like_init, of 0 clock start 0 "[]" 0] by blast
  then show ?thesis by (simp add: client_main_def Let_def del: upt_Suc)
qed

lemma srv_main_run:
  assumes "srv_args env = [prog, mode]" and "mode = ''km'' \<or> mode = ''ebpf''"
    and "\<And>k. k < NUM_LOG_BUFF \<Longrightarrow> \<exists>r. srv_malloc env k = Some r \<and> length r = MAX_ENTRIES_PER_LOG_BUFF"
    and "srv_socket env" "srv_bind env" "srv_fopen env"
  shows "\<exists>lb out zeroed. alloc_log_buffs (srv_malloc env) 0 [] = Inr lb
    \<and> srv_main env = Some (0, Some (out, zeroed))
    \<and> parse_log out = map (\<lambda>i. unat (last_stamp i (srv_seen (srv_datagrams env)) (concat lb ! i)))
        [0..<MAX_LOG_ENTRY]"
proof -
  obtain lb where lb: "alloc_log_buffs (srv_malloc env) 0 [] = Inr lb" "wf_log lb"
    using alloc_log_buffs_wf [of "srv_malloc env"] assms(3) by blast
  obtain lb' where run: "foldM (\<lambda>l (uid, now). log_write l uid now) lb (srv_seen (srv_datagrams env)) = Some lb'"
    using lt.run_defined [OF lb(2)] by blast
  then show ?thesis
    using lb(1) assms(1,2,4-6) export_of_run [OF lb(2) run]
    by (auto simp: srv_main_def srv_loop_seen)
qed

section \<open>Properties\<close>

text \<open>The client sends the packets with uids 0 to \<^verbatim>\<open>MAX_LOG_ENTRY\<close>, one more than the logs have
  entries, each exactly once and in order, each marked as data of client 1 with the time of its
  sending, and then reports its rate and stops, provided the run took at least a millisecond;
  on a faster run it divides by zero.\<close>

lemma client_sends_each_uid_once:
  "\<exists>slept. client_main True start clock =
    (let ms = (clock (Suc MAX_LOG_ENTRY) - start) div 1000000
     in if ms = 0 then None
        else Some (ClientOk (map (client_packet clock) [0..<Suc MAX_LOG_ENTRY]) slept
                    (of_nat MAX_LOG_ENTRY div ms)))"
  by (rule client_main_eq)

text \<open>The server's log. Whatever datagrams arrive (of any content and length, received or
  failed), the server runs without undefined behaviour and the file it writes reads back as the
  time of the last datagram of each uid, among those up to the first one with the last uid,
  which ends the loop.\<close>

lemma srv_main_exports:
  assumes "srv_args env = [prog, mode]" and "mode = ''km'' \<or> mode = ''ebpf''"
    and "\<And>k. k < NUM_LOG_BUFF \<Longrightarrow> \<exists>r. srv_malloc env k = Some r \<and> length r = MAX_ENTRIES_PER_LOG_BUFF"
    and "srv_socket env" "srv_bind env" "srv_fopen env"
  shows "\<exists>lb out zeroed. alloc_log_buffs (srv_malloc env) 0 [] = Inr lb
    \<and> srv_main env = Some (0, Some (out, zeroed))
    \<and> parse_log out = map (\<lambda>i. unat (last_stamp i (srv_seen (srv_datagrams env)) (concat lb ! i)))
        [0..<MAX_LOG_ENTRY]"
  using assms by (rule srv_main_run)

definition sample_srv :: "(bytes \<times> u64) list \<Rightarrow> srv_env" where
  "sample_srv ds = \<lparr>srv_args = [''server'', ''km''],
     srv_malloc = (\<lambda>k. Some (replicate MAX_ENTRIES_PER_LOG_BUFF 0)), srv_socket = True, srv_bind = True,
     srv_datagrams = ds, srv_fopen = True\<rparr>"

lemma sample_srv_simps [simp]:
  "srv_args (sample_srv ds) = [''server'', ''km'']" "srv_socket (sample_srv ds)" "srv_bind (sample_srv ds)"
  "srv_datagrams (sample_srv ds) = ds" "srv_fopen (sample_srv ds)"
  "srv_malloc (sample_srv ds) k = Some (replicate MAX_ENTRIES_PER_LOG_BUFF 0)"
  by (simp_all add: sample_srv_def)

lemma srv_main_exports_example:
  "\<exists>lb out zeroed. alloc_log_buffs (srv_malloc (sample_srv [([], 3)])) 0 [] = Inr lb
    \<and> srv_main (sample_srv [([], 3)]) = Some (0, Some (out, zeroed))
    \<and> parse_log out = map (\<lambda>i. unat (last_stamp i (srv_seen [([], 3)]) (concat lb ! i))) [0..<MAX_LOG_ENTRY]"
  using srv_main_exports [of "sample_srv [([], 3)]" "''server''" "''km''"] by simp

text \<open>C11: Client and server: when the network delivers all packets of the client in order, the
  server stops by itself after the packet with the last uid, and line \<open>i\<close> of the file it writes
  is the arrival time of the packet with uid \<open>i\<close>, for all \<^verbatim>\<open>MAX_LOG_ENTRY\<close> uids, whatever the
  memory of the log held before.\<close>

theorem client_server_log_complete:
  assumes "srv_args env = [prog, ''km'']"
    and "\<And>k. k < NUM_LOG_BUFF \<Longrightarrow> \<exists>r. srv_malloc env k = Some r \<and> length r = MAX_ENTRIES_PER_LOG_BUFF"
    and "srv_socket env" "srv_bind env" "srv_fopen env"
    and "client_main True start clock = Some (ClientOk sent slept rate)"
    and "srv_datagrams env = map (\<lambda>(k, p). (bytes_of_Payload p, arrival k)) (enumerate 0 sent) @ later"
  shows "\<exists>out zeroed. srv_main env = Some (0, Some (out, zeroed))
    \<and> parse_log out = map (\<lambda>i. unat (arrival i)) [0..<MAX_LOG_ENTRY]"
proof -
  have sent: "sent = map (client_packet clock) [0..<Suc MAX_LOG_ENTRY]"
    using client_main_eq [of start clock] assms(6) by (auto simp: Let_def simp del: upt_Suc split: if_splits)
  have "map (\<lambda>(k, p). (bytes_of_Payload p, arrival k)) (enumerate 0 sent)
      = map (\<lambda>i. (bytes_of_Payload (client_packet clock i), arrival i)) [0..<Suc MAX_LOG_ENTRY]"
    unfolding sent enumerate_map_upt by simp
  then have seen: "srv_seen (srv_datagrams env) = map (\<lambda>i. (of_nat i, arrival i)) [0..<MAX_LOG_ENTRY]"
    unfolding assms(7) using srv_seen_client [of 0 clock arrival later]
    by (simp add: MAX_LOG_ENTRY_val del: upt_Suc)
  obtain lb out zeroed where "srv_main env = Some (0, Some (out, zeroed))" and
    "parse_log out = map (\<lambda>i. unat (last_stamp i (srv_seen (srv_datagrams env)) (concat lb ! i)))
        [0..<MAX_LOG_ENTRY]"
    using srv_main_run [OF assms(1) _ assms(2-5)] by auto
  moreover have "last_stamp i (srv_seen (srv_datagrams env)) d = arrival i" if "i < MAX_LOG_ENTRY" for i d
    unfolding seen using that by (intro last_stamp_upt) (simp_all add: MAX_LOG_ENTRY_val)
  ultimately show ?thesis by auto
qed

theorem client_server_log_complete_witness:
  "\<exists>sent slept rate out zeroed. client_main True 0 (\<lambda>k. of_nat k * 1000000) = Some (ClientOk sent slept rate)
    \<and> srv_main (sample_srv (map (\<lambda>(k, p). (bytes_of_Payload p, of_nat k + 5)) (enumerate 0 sent)))
        = Some (0, Some (out, zeroed))
    \<and> parse_log out = map (\<lambda>i. unat (of_nat i + 5 :: u64)) [0..<MAX_LOG_ENTRY]"
proof -
  let ?clock = "\<lambda>k. of_nat k * 1000000 :: u64"
  have "(?clock (Suc MAX_LOG_ENTRY) - 0) div 1000000 \<noteq> 0" by (simp add: MAX_LOG_ENTRY_val)
  then obtain sent slept rate where c: "client_main True 0 ?clock = Some (ClientOk sent slept rate)"
    using client_main_eq [of 0 ?clock] by (auto simp: Let_def simp del: upt_Suc)
  let ?env = "sample_srv (map (\<lambda>(k, p). (bytes_of_Payload p, of_nat k + 5)) (enumerate 0 sent))"
  show ?thesis
    using client_server_log_complete [of ?env "''server''", OF _ _ _ _ _ c, of "\<lambda>k. of_nat k + 5" "[]"] c
    by simp
qed

end
