(* ===== verification/Parsing.thy ===== *)
theory Parsing
  imports Base
begin

text \<open>
  \<^verbatim>\<open>eBPF_app/common/parsing_helpers.h\<close>: the header parsers of the XDP program. A packet is the
  list of its bytes between \<^verbatim>\<open>data\<close> and \<^verbatim>\<open>data_end\<close>, a pointer into it is an offset, and a read
  past \<^verbatim>\<open>data_end\<close> is undefined. A parser returns the C return value, the new cursor and the
  header pointer it stored, if it did.

  The locale \<open>bounded_parser\<close> is the contract the XDP program relies on: no parser reads outside
  the packet, and the cursor only moves forward within it.
\<close>

type_synonym parse_result = "int \<times> nat \<times> nat option"

definition ETH_P_8021Q :: u16 where "ETH_P_8021Q = 0x8100"
definition ETH_P_8021AD :: u16 where "ETH_P_8021AD = 0x88A8"
definition ETH_P_IP :: u16 where "ETH_P_IP = 0x0800"
definition ETH_P_IPV6 :: u16 where "ETH_P_IPV6 = 0x86DD"
definition VLAN_MAX_DEPTH :: nat where "VLAN_MAX_DEPTH = 2"
definition VLAN_VID_MASK :: u16 where "VLAN_VID_MASK = 0x0fff"

text \<open>The sizes of the header structures.\<close>

definition sizeof_ethhdr :: nat where "sizeof_ethhdr = 14"
definition sizeof_vlan_hdr :: nat where "sizeof_vlan_hdr = 4"
definition sizeof_ipv6hdr :: nat where "sizeof_ipv6hdr = 40"
definition sizeof_iphdr :: nat where "sizeof_iphdr = 20"
definition sizeof_icmp6hdr :: nat where "sizeof_icmp6hdr = 8"
definition sizeof_icmphdr :: nat where "sizeof_icmphdr = 8"
definition sizeof_icmphdr_common :: nat where "sizeof_icmphdr_common = 4"
definition sizeof_udphdr :: nat where "sizeof_udphdr = 8"
definition sizeof_tcphdr :: nat where "sizeof_tcphdr = 20"

lemmas sizeof_defs = sizeof_ethhdr_def sizeof_vlan_hdr_def sizeof_ipv6hdr_def sizeof_iphdr_def
  sizeof_icmp6hdr_def sizeof_icmphdr_def sizeof_icmphdr_common_def sizeof_udphdr_def sizeof_tcphdr_def

section \<open>The parsers\<close>

definition proto_is_vlan :: "u16 \<Rightarrow> bool" where
  "proto_is_vlan h_proto \<longleftrightarrow> h_proto = bswap16 ETH_P_8021Q \<or> h_proto = bswap16 ETH_P_8021AD"

text \<open>The unrolled loop over VLAN tags, from round \<open>i\<close> on; \<open>vlans\<close> is \<open>None\<close> for a null pointer.\<close>

function vlan_loop ::
    "bytes \<Rightarrow> nat \<Rightarrow> u16 \<Rightarrow> nat \<Rightarrow> u16 list option \<Rightarrow> (u16 \<times> nat \<times> u16 list option) option" where
  "vlan_loop pkt i h_proto vlh vlans =
     (if i < VLAN_MAX_DEPTH then
        (if \<not> proto_is_vlan h_proto then Some (h_proto, vlh, vlans)
         else if length pkt < vlh + sizeof_vlan_hdr then Some (h_proto, vlh, vlans)
         else do {
           h_proto \<leftarrow> load16 pkt (vlh + 2);
           vlans \<leftarrow> (case vlans of
               None \<Rightarrow> Some None
             | Some ids \<Rightarrow> do {
                 tci \<leftarrow> load16 pkt vlh;
                 ids \<leftarrow> arr_set ids i (bswap16 tci AND VLAN_VID_MASK);
                 Some (Some ids) });
           vlan_loop pkt (i + 1) h_proto (vlh + sizeof_vlan_hdr) vlans
         })
      else Some (h_proto, vlh, vlans))"
  by pat_completeness auto
termination
  by (relation "measure (\<lambda>(pkt, i, rest). VLAN_MAX_DEPTH - i)") auto

declare vlan_loop.simps [simp del]

definition parse_ethhdr_vlan ::
    "bytes \<Rightarrow> nat \<Rightarrow> u16 list option \<Rightarrow> (int \<times> nat \<times> nat option \<times> u16 list option) option" where
  "parse_ethhdr_vlan pkt pos vlans =
     (if length pkt < pos + sizeof_ethhdr then Some (-1, pos, None, vlans)
      else do {
        h_proto \<leftarrow> load16 pkt (pos + 12);
        (h_proto, vlh, vlans) \<leftarrow> vlan_loop pkt 0 h_proto (pos + sizeof_ethhdr) vlans;
        Some (uint h_proto, vlh, Some pos, vlans)
      })"

definition parse_ethhdr :: "bytes \<Rightarrow> nat \<Rightarrow> parse_result option" where
  "parse_ethhdr pkt pos = do {
     (ret, pos', eth, vlans) \<leftarrow> parse_ethhdr_vlan pkt pos None;
     Some (ret, pos', eth)
   }"

definition parse_ip6hdr :: "bytes \<Rightarrow> nat \<Rightarrow> parse_result option" where
  "parse_ip6hdr pkt pos =
     (if length pkt < pos + sizeof_ipv6hdr then Some (-1, pos, None)
      else do {
        nexthdr \<leftarrow> arr_get pkt (pos + 6);
        Some (uint nexthdr, pos + sizeof_ipv6hdr, Some pos)
      })"

definition parse_iphdr :: "bytes \<Rightarrow> nat \<Rightarrow> parse_result option" where
  "parse_iphdr pkt pos =
     (if length pkt < pos + sizeof_iphdr then Some (-1, pos, None)
      else do {
        version_ihl \<leftarrow> arr_get pkt pos;
        let hdrsize = unat (version_ihl AND 0x0f) * 4;
        if hdrsize < sizeof_iphdr then Some (-1, pos, None)
        else if length pkt < pos + hdrsize then Some (-1, pos, None)
        else do {
          protocol \<leftarrow> arr_get pkt (pos + 9);
          Some (uint protocol, pos + hdrsize, Some pos)
        }
      })"

definition parse_icmp6hdr :: "bytes \<Rightarrow> nat \<Rightarrow> parse_result option" where
  "parse_icmp6hdr pkt pos =
     (if length pkt < pos + sizeof_icmp6hdr then Some (-1, pos, None)
      else do {
        icmp6_type \<leftarrow> arr_get pkt pos;
        Some (uint icmp6_type, pos + sizeof_icmp6hdr, Some pos)
      })"

definition parse_icmphdr :: "bytes \<Rightarrow> nat \<Rightarrow> parse_result option" where
  "parse_icmphdr pkt pos =
     (if length pkt < pos + sizeof_icmphdr then Some (-1, pos, None)
      else do {
        t \<leftarrow> arr_get pkt pos;
        Some (uint t, pos + sizeof_icmphdr, Some pos)
      })"

definition parse_icmphdr_common :: "bytes \<Rightarrow> nat \<Rightarrow> parse_result option" where
  "parse_icmphdr_common pkt pos =
     (if length pkt < pos + sizeof_icmphdr_common then Some (-1, pos, None)
      else do {
        t \<leftarrow> arr_get pkt pos;
        Some (uint t, pos + sizeof_icmphdr_common, Some pos)
      })"

text \<open>\<^verbatim>\<open>bpf_ntohs(h->len) - sizeof(struct udphdr)\<close> is an \<^verbatim>\<open>unsigned long\<close> cut to an \<^verbatim>\<open>int\<close>. The cursor and
  the header pointer are stored before the length is checked.\<close>

definition parse_udphdr :: "bytes \<Rightarrow> nat \<Rightarrow> parse_result option" where
  "parse_udphdr pkt pos =
     (if length pkt < pos + sizeof_udphdr then Some (-1, pos, None)
      else do {
        l \<leftarrow> load16 pkt (pos + 4);
        let len = sint (ucast ((ucast (bswap16 l) :: u64) - of_nat sizeof_udphdr) :: u32);
        Some (if len < 0 then -1 else len, pos + sizeof_udphdr, Some pos)
      })"

definition parse_tcphdr :: "bytes \<Rightarrow> nat \<Rightarrow> parse_result option" where
  "parse_tcphdr pkt pos =
     (if length pkt < pos + sizeof_tcphdr then Some (-1, pos, None)
      else do {
        doff \<leftarrow> arr_get pkt (pos + 12);
        let len = unat (drop_bit 4 doff) * 4;
        if len < sizeof_tcphdr then Some (-1, pos, None)
        else if length pkt < pos + len then Some (-1, pos, None)
        else Some (int len, pos + len, Some pos)
      })"

section \<open>The contract of a parser\<close>

text \<open>Running a list of parsers one after the other until one fails.\<close>

fun parse_all :: "(bytes \<Rightarrow> nat \<Rightarrow> parse_result option) list \<Rightarrow> bytes \<Rightarrow> nat \<Rightarrow> (bool \<times> nat) option" where
  "parse_all [] pkt pos = Some (True, pos)"
| "parse_all (p # ps) pkt pos = do {
     (ret, pos', hdr) \<leftarrow> p pkt pos;
     if ret < 0 then Some (False, pos') else parse_all ps pkt pos'
   }"

locale bounded_parser =
  fixes p :: "bytes \<Rightarrow> nat \<Rightarrow> parse_result option"
    and size :: nat
  assumes in_bounds: "pos \<le> length pkt \<Longrightarrow> \<exists>ret pos' hdr. p pkt pos = Some (ret, pos', hdr)
      \<and> pos \<le> pos' \<and> pos' \<le> length pkt"
    and accepts: "p pkt pos = Some (ret, pos', hdr) \<Longrightarrow>
      hdr = None \<and> ret = -1 \<and> pos' = pos \<or> hdr = Some pos \<and> pos + size \<le> pos'"
begin

lemma header_inside:
  assumes "pos \<le> length pkt" and "p pkt pos = Some (ret, pos', Some h)"
  shows "h + size \<le> length pkt"
  using in_bounds [OF assms(1)] accepts [OF assms(2)] assms(2) by fastforce

lemma short_packet_rejected:
  assumes "pos \<le> length pkt" and "length pkt < pos + size"
  shows "p pkt pos = Some (-1, pos, None)"
  using in_bounds [OF assms(1)] accepts assms(2) by fastforce

lemma then_all:
  assumes "\<And>pos. pos \<le> length pkt \<Longrightarrow> \<exists>ok pos'. parse_all ps pkt pos = Some (ok, pos') \<and> pos' \<le> length pkt"
    and "pos \<le> length pkt"
  shows "\<exists>ok pos'. parse_all (p # ps) pkt pos = Some (ok, pos') \<and> pos' \<le> length pkt"
  using in_bounds [OF assms(2)] assms(1) by auto

end

section \<open>The parsers satisfy the contract\<close>

lemma load16_some: "off + 2 \<le> length m \<Longrightarrow> \<exists>v. load16 m off = Some v"
  by (simp add: load16_def load_def)

lemma vlan_loop_total:
  assumes "vlh \<le> length pkt" and "\<And>ids. vlans = Some ids \<Longrightarrow> length ids = VLAN_MAX_DEPTH"
  shows "\<exists>h' vlh' vlans'. vlan_loop pkt i h vlh vlans = Some (h', vlh', vlans')
    \<and> vlh \<le> vlh' \<and> vlh' \<le> length pkt"
  using assms
proof (induction pkt i h vlh vlans rule: vlan_loop.induct)
  case (1 pkt i h vlh vlans)
  show ?case
  proof (cases "i < VLAN_MAX_DEPTH \<and> proto_is_vlan h \<and> vlh + sizeof_vlan_hdr \<le> length pkt")
    case False
    then show ?thesis using "1.prems" by (auto simp: vlan_loop.simps [of pkt i h vlh vlans])
  next
    case True
    then obtain h1 tci where rd: "load16 pkt (vlh + 2) = Some h1" "load16 pkt vlh = Some tci"
      using load16_some [of "vlh + 2" pkt] load16_some [of vlh pkt] by (auto simp: sizeof_defs)
    obtain vlans1 where v: "(case vlans of None \<Rightarrow> Some None | Some ids \<Rightarrow> do {
        ids \<leftarrow> arr_set ids i (bswap16 tci AND VLAN_VID_MASK); Some (Some ids) }) = Some vlans1"
      and len: "\<And>ids. vlans1 = Some ids \<Longrightarrow> length ids = VLAN_MAX_DEPTH"
      using True "1.prems"(2) by (cases vlans) (auto simp: arr_set_def)
    have "\<exists>h' vlh' vlans'. vlan_loop pkt (i + 1) h1 (vlh + sizeof_vlan_hdr) vlans1 = Some (h', vlh', vlans')
        \<and> vlh + sizeof_vlan_hdr \<le> vlh' \<and> vlh' \<le> length pkt"
      using True rd v len by (intro "1.IH") (auto split: option.splits)
    moreover have "vlan_loop pkt i h vlh vlans = vlan_loop pkt (i + 1) h1 (vlh + sizeof_vlan_hdr) vlans1"
      using True rd v by (cases vlans) (auto simp: vlan_loop.simps [of pkt i h vlh] split: Option.bind_splits)
    ultimately show ?thesis by auto
  qed
qed

lemma parse_ethhdr_vlan_total:
  assumes "pos \<le> length pkt" and "\<And>ids. vlans = Some ids \<Longrightarrow> length ids = VLAN_MAX_DEPTH"
  shows "\<exists>ret pos' eth vlans'. parse_ethhdr_vlan pkt pos vlans = Some (ret, pos', eth, vlans')
    \<and> pos' \<le> length pkt \<and> (eth = None \<and> ret = -1 \<and> pos' = pos \<or> eth = Some pos \<and> pos + sizeof_ethhdr \<le> pos' \<and> 0 \<le> ret)"
proof (cases "length pkt < pos + sizeof_ethhdr")
  case False
  then obtain h where h: "load16 pkt (pos + 12) = Some h"
    using load16_some [of "pos + 12" pkt] by (auto simp: sizeof_defs)
  show ?thesis
    using False h vlan_loop_total [of "pos + sizeof_ethhdr" pkt vlans 0 h] assms(2)
    by (fastforce simp: parse_ethhdr_vlan_def)
qed (use assms in \<open>simp add: parse_ethhdr_vlan_def\<close>)

interpretation eth: bounded_parser parse_ethhdr sizeof_ethhdr
proof
  fix pos :: nat and pkt :: bytes
  assume "pos \<le> length pkt"
  then show "\<exists>ret pos' hdr. parse_ethhdr pkt pos = Some (ret, pos', hdr) \<and> pos \<le> pos' \<and> pos' \<le> length pkt"
    using parse_ethhdr_vlan_total [of pos pkt None] by (fastforce simp: parse_ethhdr_def)
next
  fix pkt :: bytes and pos ret pos' hdr
  assume p: "parse_ethhdr pkt pos = Some (ret, pos', hdr)"
  show "hdr = None \<and> ret = -1 \<and> pos' = pos \<or> hdr = Some pos \<and> pos + sizeof_ethhdr \<le> pos'"
  proof (cases "length pkt < pos + sizeof_ethhdr")
    case True
    then show ?thesis using p by (simp add: parse_ethhdr_def parse_ethhdr_vlan_def)
  next
    case False
    then have "pos \<le> length pkt" by simp
    from parse_ethhdr_vlan_total [OF this, of None] show ?thesis
      using p by (auto simp: parse_ethhdr_def)
  qed
qed

lemmas parser_defs = parse_ip6hdr_def parse_iphdr_def parse_icmp6hdr_def parse_icmphdr_def
  parse_icmphdr_common_def parse_udphdr_def parse_tcphdr_def arr_get_def Let_def

interpretation ip6: bounded_parser parse_ip6hdr sizeof_ipv6hdr
  by unfold_locales (auto simp: parser_defs sizeof_defs split: if_splits)

interpretation ip: bounded_parser parse_iphdr sizeof_iphdr
  by unfold_locales (auto simp: parser_defs sizeof_defs split: if_splits)

interpretation icmp6: bounded_parser parse_icmp6hdr sizeof_icmp6hdr
  by unfold_locales (auto simp: parser_defs sizeof_defs split: if_splits)

interpretation icmp: bounded_parser parse_icmphdr sizeof_icmphdr
  by unfold_locales (auto simp: parser_defs sizeof_defs split: if_splits)

interpretation icmp_common: bounded_parser parse_icmphdr_common sizeof_icmphdr_common
  by unfold_locales (auto simp: parser_defs sizeof_defs split: if_splits)

interpretation udp: bounded_parser parse_udphdr sizeof_udphdr
  by unfold_locales (auto simp: parser_defs sizeof_defs load16_def load_def split: if_splits Option.bind_splits)

interpretation tcp: bounded_parser parse_tcphdr sizeof_tcphdr
  by unfold_locales (auto simp: parser_defs sizeof_defs split: if_splits)

section \<open>Frames with VLAN tags\<close>

text \<open>A 16-bit field in network byte order, and an Ethernet frame with its VLAN tags as pairs of
  tag protocol and tag control information.\<close>

definition be16 :: "u16 \<Rightarrow> bytes" where
  "be16 w = [ucast (drop_bit 8 w), ucast w]"

definition eth_frame :: "bytes \<Rightarrow> bytes \<Rightarrow> (u16 \<times> u16) list \<Rightarrow> u16 \<Rightarrow> bytes \<Rightarrow> bytes" where
  "eth_frame dst src tags proto rest =
     dst @ src @ concat (map (\<lambda>(tpid, tci). be16 tpid @ be16 tci) tags) @ be16 proto @ rest"

lemma length_be16 [simp]: "length (be16 w) = 2"
  by (simp add: be16_def)

lemma word_of_le_be16 [simp]: "word_of_le (be16 w) = bswap16 w"
  by (rule bit_word_eqI) (auto simp: be16_def bswap16_def bit_simps add.commute dest: bit_imp_le_length)

lemma load16_be16: "length pre = n \<Longrightarrow> load16 (pre @ be16 w @ post) n = Some (bswap16 w)"
  by (simp add: load16_def load_def)

lemma proto_is_vlan_bswap [simp]:
  "proto_is_vlan (bswap16 t) \<longleftrightarrow> t = ETH_P_8021Q \<or> t = ETH_P_8021AD"
  by (simp add: proto_is_vlan_def)

text \<open>The loop on the tags of a frame; \<open>pre\<close> ends after the EtherType field the loop starts
  from.\<close>

lemma vlan_loop_tags:
  assumes "\<forall>(tpid, tci) \<in> set tags. tpid = ETH_P_8021Q \<or> tpid = ETH_P_8021AD"
    and "proto \<noteq> ETH_P_8021Q" "proto \<noteq> ETH_P_8021AD"
    and "length ids = VLAN_MAX_DEPTH" and "i + length tags \<le> VLAN_MAX_DEPTH"
    and "pkt = pre @ concat (map (\<lambda>(tpid, tci). be16 tpid @ be16 tci) tags) @ be16 proto @ rest"
  shows "vlan_loop pkt i (bswap16 (hd (map fst tags @ [proto]))) (length pre + 2) (Some ids)
    = Some (bswap16 proto, length pre + 2 + 4 * length tags,
        Some (take i ids @ map (\<lambda>(tpid, tci). tci AND VLAN_VID_MASK) tags @ drop (i + length tags) ids))"
  using assms
proof (induction tags arbitrary: i ids pre)
  case Nil
  then show ?case by (simp add: vlan_loop.simps)
next
  case (Cons t tags)
  obtain tpid tci where t: "t = (tpid, tci)" by (cases t)
  let ?pre = "pre @ be16 tpid @ be16 tci"
  let ?next = "hd (map fst tags @ [proto])"
  have tpid: "proto_is_vlan (bswap16 tpid)" using Cons.prems(1) by (simp add: t)
  have i: "i < VLAN_MAX_DEPTH" "i + 1 + length tags \<le> VLAN_MAX_DEPTH" using Cons.prems(5) by simp_all
  have pkt: "pkt = ?pre @ concat (map (\<lambda>(tpid, tci). be16 tpid @ be16 tci) tags) @ be16 proto @ rest"
    using Cons.prems(6) by (simp add: t)
  have "load16 pkt (length pre + 2) = Some (bswap16 tci)"
    using load16_be16 [of "pre @ be16 tpid" "length pre + 2" tci] unfolding pkt by simp
  moreover obtain post where "pkt = ?pre @ be16 ?next @ post"
    using that unfolding pkt by (cases tags) auto
  then have "load16 pkt (length pre + 2 + 2) = Some (bswap16 ?next)"
    and "length pre + 2 + sizeof_vlan_hdr \<le> length pkt"
    using load16_be16 [of ?pre "length pre + 2 + 2" ?next] by (simp_all add: sizeof_defs)
  moreover have "arr_set ids i (bswap16 (bswap16 tci) AND VLAN_VID_MASK) = Some (ids[i := tci AND VLAN_VID_MASK])"
    using i Cons.prems(4) by (simp add: arr_set_def)
  ultimately have "vlan_loop pkt i (bswap16 tpid) (length pre + 2) (Some ids)
      = vlan_loop pkt (i + 1) (bswap16 ?next) (length ?pre + 2) (Some (ids[i := tci AND VLAN_VID_MASK]))"
    using tpid i by (simp add: vlan_loop.simps [of pkt i] sizeof_defs)
  also have "\<dots> = Some (bswap16 proto, length ?pre + 2 + 4 * length tags,
      Some (take (i + 1) (ids[i := tci AND VLAN_VID_MASK]) @ map (\<lambda>(tpid, tci). tci AND VLAN_VID_MASK) tags
        @ drop (i + 1 + length tags) (ids[i := tci AND VLAN_VID_MASK])))"
    using Cons.prems i pkt by (intro Cons.IH) auto
  finally show ?case
    using i Cons.prems(4) by (simp add: t take_Suc_conv_app_nth)
qed

lemma eth_frame_parsed:
  assumes "length dst = 6" and "length src = 6" and "length tags \<le> VLAN_MAX_DEPTH"
    and "\<forall>(tpid, tci) \<in> set tags. tpid = ETH_P_8021Q \<or> tpid = ETH_P_8021AD"
    and "proto \<noteq> ETH_P_8021Q" "proto \<noteq> ETH_P_8021AD" and "length ids = VLAN_MAX_DEPTH"
  shows "parse_ethhdr_vlan (eth_frame dst src tags proto rest) 0 (Some ids)
    = Some (uint (bswap16 proto), 14 + 4 * length tags, Some 0,
        Some (map (\<lambda>(tpid, tci). tci AND VLAN_VID_MASK) tags @ drop (length tags) ids))"
proof -
  let ?f = "eth_frame dst src tags proto rest"
  let ?first = "hd (map fst tags @ [proto])"
  obtain post where f: "?f = (dst @ src) @ be16 ?first @ post"
    using that by (cases tags) (auto simp: eth_frame_def)
  have "load16 ?f 12 = Some (bswap16 ?first)"
    unfolding f using assms(1,2) by (intro load16_be16) simp
  moreover have "\<not> length ?f < sizeof_ethhdr" unfolding f using assms(1,2) by (simp add: sizeof_defs)
  moreover have "vlan_loop ?f 0 (bswap16 ?first) (length (dst @ src) + 2) (Some ids)
    = Some (bswap16 proto, length (dst @ src) + 2 + 4 * length tags,
        Some (take 0 ids @ map (\<lambda>(tpid, tci). tci AND VLAN_VID_MASK) tags @ drop (0 + length tags) ids))"
    using assms by (intro vlan_loop_tags) (auto simp: eth_frame_def)
  ultimately show ?thesis
    using assms(1,2) by (simp add: parse_ethhdr_vlan_def sizeof_defs)
qed

text \<open>Without a place for the identifiers the loop does the same.\<close>

lemma vlan_loop_None:
  assumes "length ids = VLAN_MAX_DEPTH" and "vlan_loop pkt i h vlh (Some ids) = Some (h', vlh', vs)"
  shows "vlan_loop pkt i h vlh None = Some (h', vlh', None)"
  using assms
proof (induction pkt i h vlh "Some ids" arbitrary: ids rule: vlan_loop.induct)
  case (1 pkt i h vlh)
  show ?case
  proof (cases "i < VLAN_MAX_DEPTH \<and> proto_is_vlan h \<and> vlh + sizeof_vlan_hdr \<le> length pkt")
    case False
    then show ?thesis using "1.prems" by (auto simp: vlan_loop.simps [of pkt i h vlh] split: if_splits)
  next
    case True
    then obtain h1 tci where rd: "load16 pkt (vlh + 2) = Some h1" "load16 pkt vlh = Some tci"
      using load16_some [of "vlh + 2" pkt] load16_some [of vlh pkt] by (auto simp: sizeof_defs)
    let ?ids = "ids[i := bswap16 tci AND VLAN_VID_MASK]"
    have set: "arr_set ids i (bswap16 tci AND VLAN_VID_MASK) = Some ?ids"
      using True "1.prems"(1) by (simp add: arr_set_def)
    have "vlan_loop pkt (i + 1) h1 (vlh + sizeof_vlan_hdr) (Some ?ids) = Some (h', vlh', vs)"
      using "1.prems"(2) True rd set by (simp add: vlan_loop.simps [of pkt i h vlh])
    then have "vlan_loop pkt (i + 1) h1 (vlh + sizeof_vlan_hdr) None = Some (h', vlh', None)"
      using True rd set "1.prems"(1) by (intro "1.hyps" [of h1 ?ids]) auto
    then show ?thesis using True rd by (simp add: vlan_loop.simps [of pkt i h vlh])
  qed
qed

lemma parse_ethhdr_frame:
  assumes "length dst = 6" and "length src = 6" and "length tags \<le> VLAN_MAX_DEPTH"
    and "\<forall>(tpid, tci) \<in> set tags. tpid = ETH_P_8021Q \<or> tpid = ETH_P_8021AD"
    and "proto \<noteq> ETH_P_8021Q" "proto \<noteq> ETH_P_8021AD"
  shows "parse_ethhdr (eth_frame dst src tags proto rest) 0
    = Some (uint (bswap16 proto), 14 + 4 * length tags, Some 0)"
proof -
  let ?ids = "replicate VLAN_MAX_DEPTH 0"
  have "length ?ids = VLAN_MAX_DEPTH" by simp
  from eth_frame_parsed [OF assms this, of rest] vlan_loop_None [OF this] show ?thesis
    by (fastforce simp: parse_ethhdr_def parse_ethhdr_vlan_def split: if_splits Option.bind_splits)
qed

lemma udp_len_cut:
  "sint (ucast ((ucast (w :: u16) :: u64) - 8) :: u32) = int (unat w) - 8"
proof -
  have cut: "(ucast ((ucast w :: u64) - 8) :: u32) = word_of_int (uint w - 8)"
    by transfer simp
  have small: "sint (word_of_int x :: u32) = x" if "- 2147483648 \<le> x" "x < 2147483648" for x
    using that by (simp add: signed_of_int signed_take_bit_int_eq_self)
  have "uint w < 65536" using uint_lt2p [of w] by simp
  then show ?thesis unfolding cut using uint_ge_0 [of w] by (subst small) auto
qed

section \<open>Properties\<close>

text \<open>C12: Bounds of the packet parsers. Any sequence of the header parsers, run on any packet from
  any cursor position inside it, reads only bytes between \<^verbatim>\<open>data\<close> and \<^verbatim>\<open>data_end\<close>, and the cursor
  stays inside the packet, also when a parser rejects the packet.\<close>

theorem parsers_in_bounds:
  assumes "set ps \<subseteq> {parse_ethhdr, parse_ip6hdr, parse_iphdr, parse_icmp6hdr, parse_icmphdr,
      parse_icmphdr_common, parse_udphdr, parse_tcphdr}" and "pos \<le> length pkt"
  shows "\<exists>ok pos'. parse_all ps pkt pos = Some (ok, pos') \<and> pos' \<le> length pkt"
  using assms
proof (induction ps arbitrary: pos)
  case (Cons p ps)
  then have ih: "\<And>pos. pos \<le> length pkt \<Longrightarrow>
      \<exists>ok pos'. parse_all ps pkt pos = Some (ok, pos') \<and> pos' \<le> length pkt" by simp
  from Cons.prems(1) consider "p = parse_ethhdr" | "p = parse_ip6hdr" | "p = parse_iphdr"
    | "p = parse_icmp6hdr" | "p = parse_icmphdr" | "p = parse_icmphdr_common" | "p = parse_udphdr"
    | "p = parse_tcphdr" by auto
  then show ?case
    using Cons.prems(2) ih
    by cases (simp_all only: eth.then_all ip6.then_all ip.then_all icmp6.then_all icmp.then_all
        icmp_common.then_all udp.then_all tcp.then_all)
qed auto

theorem parsers_in_bounds_witness:
  "\<exists>ok pos'. parse_all [parse_ethhdr, parse_iphdr, parse_udphdr] (replicate 20 0) 0 = Some (ok, pos')
    \<and> pos' \<le> 20"
  using parsers_in_bounds [of "[parse_ethhdr, parse_iphdr, parse_udphdr]" 0 "replicate 20 0"] by simp

text \<open>VLAN tags. On a frame with up to \<^verbatim>\<open>VLAN_MAX_DEPTH\<close> 802.1Q or 802.1ad tags, the Ethernet
  parser skips all tags, returns the EtherType of the payload in network byte order, leaves
  the header pointer at the Ethernet header and collects the VLAN identifiers of the tags in
  order.\<close>

lemma parse_ethhdr_vlan_tags:
  assumes "length dst = 6" and "length src = 6" and "length tags \<le> VLAN_MAX_DEPTH"
    and "\<forall>(tpid, tci) \<in> set tags. tpid = ETH_P_8021Q \<or> tpid = ETH_P_8021AD"
    and "proto \<noteq> ETH_P_8021Q" "proto \<noteq> ETH_P_8021AD" and "length ids = VLAN_MAX_DEPTH"
  shows "parse_ethhdr_vlan (eth_frame dst src tags proto rest) 0 (Some ids)
    = Some (uint (bswap16 proto), 14 + 4 * length tags, Some 0,
        Some (map (\<lambda>(tpid, tci). tci AND VLAN_VID_MASK) tags @ drop (length tags) ids))"
  using assms by (rule eth_frame_parsed)

lemma parse_ethhdr_vlan_tags_example:
  "parse_ethhdr_vlan (eth_frame (replicate 6 1) (replicate 6 2) [(ETH_P_8021AD, 0x2064), (ETH_P_8021Q, 0x0065)]
      ETH_P_IP [0x45]) 0 (Some [0, 0]) = Some (uint (bswap16 ETH_P_IP), 22, Some 0, Some [0x64, 0x65])"
  using parse_ethhdr_vlan_tags [of "replicate 6 1" "replicate 6 2"
      "[(ETH_P_8021AD, 0x2064), (ETH_P_8021Q, 0x0065)]" ETH_P_IP "[0, 0]" "[0x45]"]
  by (simp add: VLAN_MAX_DEPTH_def VLAN_VID_MASK_def ETH_P_8021Q_def ETH_P_8021AD_def ETH_P_IP_def)

text \<open>The UDP parser, on a header inside the packet, returns the payload length the header
  announces, and -1 when the announced length is shorter than the header itself, with the
  subtraction done in wrapped machine arithmetic; the length is not compared with the bytes the
  packet has, and cursor and header pointer are stored in both cases.\<close>

lemma parse_udphdr_length:
  assumes "pos + 8 \<le> length pkt"
  shows "\<exists>l. load16 pkt (pos + 4) = Some l \<and> parse_udphdr pkt pos =
    Some (if unat (bswap16 l) < 8 then -1 else int (unat (bswap16 l)) - 8, pos + 8, Some pos)"
proof -
  obtain l where "load16 pkt (pos + 4) = Some l" using assms load16_some [of "pos + 4" pkt] by auto
  moreover have "unat (bswap16 l) < 8 \<longleftrightarrow> int (unat (bswap16 l)) - 8 < 0" by linarith
  ultimately show ?thesis
    using assms by (simp add: parse_udphdr_def sizeof_defs udp_len_cut Let_def del: of_nat_unat)
qed

lemma parse_udphdr_length_example:
  "parse_udphdr ([0, 0, 0, 0] @ be16 5 @ [0, 0]) 0 = Some (-1, 8, Some 0)
   \<and> parse_udphdr ([0, 0, 0, 0] @ be16 1032 @ [0, 0]) 0 = Some (1024, 8, Some 0)"
  using parse_udphdr_length [of 0 "[0, 0, 0, 0] @ be16 5 @ [0, 0]"]
    parse_udphdr_length [of 0 "[0, 0, 0, 0] @ be16 1032 @ [0, 0]"]
    load16_be16 [of "[0, 0, 0, 0]" 4 5 "[0, 0]"] load16_be16 [of "[0, 0, 0, 0]" 4 1032 "[0, 0]"]
  by simp

end
