(* ===== verification/Rewrite.thy ===== *)
theory Rewrite
  imports Parsing
begin

text \<open>
  \<^verbatim>\<open>eBPF_app/common/rewrite_helpers.h\<close>: pushing and popping VLAN tags and swapping addresses
  in a packet. The context of the XDP program is the packet buffer with the offsets of the
  packet in it; the room before \<^verbatim>\<open>data\<close> is not accessible. The kernel helper that moves the head
  of the packet is an argument, with its documented behaviour as a predicate.
\<close>

record xdp_md =
  xd_buf :: bytes
  xd_data :: nat
  xd_end :: nat

text \<open>Reads and writes of the program stay between \<^verbatim>\<open>data\<close> and \<^verbatim>\<open>data_end\<close>.\<close>

definition pkt_load :: "xdp_md \<Rightarrow> nat \<Rightarrow> nat \<Rightarrow> bytes option" where
  "pkt_load ctx off n =
     (if xd_data ctx \<le> off \<and> off + n \<le> xd_end ctx then load (xd_buf ctx) off n else None)"

definition pkt_store :: "xdp_md \<Rightarrow> nat \<Rightarrow> bytes \<Rightarrow> xdp_md option" where
  "pkt_store ctx off bs =
     (if xd_data ctx \<le> off \<and> off + length bs \<le> xd_end ctx
      then map_option (\<lambda>b. ctx\<lparr>xd_buf := b\<rparr>) (store (xd_buf ctx) off bs) else None)"

section \<open>Operations\<close>

type_synonym adjust_head = "xdp_md \<Rightarrow> int \<Rightarrow> int \<times> xdp_md"

definition vlan_tag_pop :: "adjust_head \<Rightarrow> xdp_md \<Rightarrow> nat \<Rightarrow> (int \<times> xdp_md) option" where
  "vlan_tag_pop bpf_xdp_adjust_head ctx eth = do {
     h_proto \<leftarrow> pkt_load ctx (eth + 12) 2;
     if \<not> proto_is_vlan (word_of_le h_proto) then Some (-1, ctx) else do {
     let vlh = eth + sizeof_ethhdr;
     if xd_end ctx < vlh + sizeof_vlan_hdr then Some (-1, ctx) else do {
     tci \<leftarrow> pkt_load ctx vlh 2;
     let vlid = uint (bswap16 (word_of_le tci));
     h_proto \<leftarrow> pkt_load ctx (vlh + 2) 2;
     eth_cpy \<leftarrow> pkt_load ctx eth sizeof_ethhdr;
     let (err, ctx) = bpf_xdp_adjust_head ctx (int sizeof_vlan_hdr);
     if err \<noteq> 0 then Some (-1, ctx) else do {
     let eth = xd_data ctx;
     if xd_end ctx < eth + sizeof_ethhdr then Some (-1, ctx) else do {
     ctx \<leftarrow> pkt_store ctx eth eth_cpy;
     ctx \<leftarrow> pkt_store ctx (eth + 12) h_proto;
     Some (vlid, ctx) }}}}}"

text \<open>\<^verbatim>\<open>bpf_htons(vlid)\<close> takes the low 16 bits of the \<^verbatim>\<open>int\<close>.\<close>

definition vlan_tag_push :: "adjust_head \<Rightarrow> xdp_md \<Rightarrow> nat \<Rightarrow> int \<Rightarrow> (int \<times> xdp_md) option" where
  "vlan_tag_push bpf_xdp_adjust_head ctx eth vlid = do {
     eth_cpy \<leftarrow> pkt_load ctx eth sizeof_ethhdr;
     let (err, ctx) = bpf_xdp_adjust_head ctx (0 - int sizeof_vlan_hdr);
     if err \<noteq> 0 then Some (-1, ctx) else do {
     let eth = xd_data ctx;
     if xd_end ctx < eth + sizeof_ethhdr then Some (-1, ctx) else do {
     ctx \<leftarrow> pkt_store ctx eth eth_cpy;
     let vlh = eth + sizeof_ethhdr;
     if xd_end ctx < vlh + sizeof_vlan_hdr then Some (-1, ctx) else do {
     ctx \<leftarrow> pkt_store ctx vlh (le_of_word 2 (bswap16 (word_of_int vlid)));
     h_proto \<leftarrow> pkt_load ctx (eth + 12) 2;
     ctx \<leftarrow> pkt_store ctx (vlh + 2) h_proto;
     ctx \<leftarrow> pkt_store ctx (eth + 12) (le_of_word 2 (bswap16 ETH_P_8021Q));
     Some (0, ctx) }}}}"

text \<open>The three swaps go through a temporary: fields \<open>a\<close> and \<open>b\<close> of \<open>n\<close> bytes of the header at
  \<open>h\<close>.\<close>

definition swap_fields :: "nat \<Rightarrow> nat \<Rightarrow> nat \<Rightarrow> nat \<Rightarrow> xdp_md \<Rightarrow> xdp_md option" where
  "swap_fields h a b n ctx = do {
     tmp \<leftarrow> pkt_load ctx (h + a) n;
     other \<leftarrow> pkt_load ctx (h + b) n;
     ctx \<leftarrow> pkt_store ctx (h + a) other;
     pkt_store ctx (h + b) tmp
   }"

definition swap_src_dst_mac :: "nat \<Rightarrow> xdp_md \<Rightarrow> xdp_md option" where
  "swap_src_dst_mac eth = swap_fields eth 6 0 6"

definition swap_src_dst_ipv6 :: "nat \<Rightarrow> xdp_md \<Rightarrow> xdp_md option" where
  "swap_src_dst_ipv6 ipv6 = swap_fields ipv6 8 24 16"

definition swap_src_dst_ipv4 :: "nat \<Rightarrow> xdp_md \<Rightarrow> xdp_md option" where
  "swap_src_dst_ipv4 iphdr = swap_fields iphdr 12 16 4"

section \<open>The packet\<close>

text \<open>The bytes the program sees, and the documented behaviour of the kernel helper: moving the
  head succeeds when it stays in the buffer and leaves room for an Ethernet header.\<close>

definition pkt_of :: "xdp_md \<Rightarrow> bytes" where
  "pkt_of ctx = take (xd_end ctx - xd_data ctx) (drop (xd_data ctx) (xd_buf ctx))"

definition wf_md :: "xdp_md \<Rightarrow> bool" where
  "wf_md ctx \<longleftrightarrow> xd_data ctx \<le> xd_end ctx \<and> xd_end ctx \<le> length (xd_buf ctx)"

definition adjusts_head :: "adjust_head \<Rightarrow> bool" where
  "adjusts_head adj \<longleftrightarrow> (\<forall>ctx d.
     (if 0 \<le> int (xd_data ctx) + d \<and> int (xd_data ctx) + d + int sizeof_ethhdr \<le> int (xd_end ctx)
      then adj ctx d = (0, ctx\<lparr>xd_data := nat (int (xd_data ctx) + d)\<rparr>)
      else fst (adj ctx d) \<noteq> 0 \<and> snd (adj ctx d) = ctx))"

definition plain_adjust :: adjust_head where
  "plain_adjust ctx d =
     (if 0 \<le> int (xd_data ctx) + d \<and> int (xd_data ctx) + d + int sizeof_ethhdr \<le> int (xd_end ctx)
      then (0, ctx\<lparr>xd_data := nat (int (xd_data ctx) + d)\<rparr>) else (-22, ctx))"

lemma adjusts_head_plain: "adjusts_head plain_adjust"
  by (simp add: adjusts_head_def plain_adjust_def)

text \<open>Every context is a room before the packet, the packet, and a tail.\<close>

definition md_of :: "bytes \<Rightarrow> bytes \<Rightarrow> bytes \<Rightarrow> xdp_md" where
  "md_of room pkt tail = \<lparr>xd_buf = room @ pkt @ tail, xd_data = length room,
     xd_end = length room + length pkt\<rparr>"

lemma wf_md_split:
  assumes "wf_md ctx"
  shows "ctx = md_of (take (xd_data ctx) (xd_buf ctx)) (pkt_of ctx) (drop (xd_end ctx) (xd_buf ctx))"
proof -
  let ?b = "xd_buf ctx" and ?d = "xd_data ctx" and ?e = "xd_end ctx"
  have le: "?d \<le> ?e" "?e \<le> length ?b" using assms by (auto simp: wf_md_def)
  have "drop ?d ?b = take (?e - ?d) (drop ?d ?b) @ drop (?e - ?d) (drop ?d ?b)"
    by (rule append_take_drop_id [symmetric])
  then have "?b = take ?d ?b @ take (?e - ?d) (drop ?d ?b) @ drop ?e ?b"
    using le by (metis append_take_drop_id drop_drop le_add_diff_inverse2)
  then show ?thesis using le by (cases ctx) (simp add: md_of_def pkt_of_def)
qed

lemma wf_md_of [simp]: "wf_md (md_of room pkt tail)"
  by (simp add: wf_md_def md_of_def)

lemma pkt_of_md_of [simp]: "pkt_of (md_of room pkt tail) = pkt"
  by (simp add: pkt_of_def md_of_def)

lemma md_of_sel [simp]:
  "xd_data (md_of room pkt tail) = length room" "xd_end (md_of room pkt tail) = length room + length pkt"
  by (simp_all add: md_of_def)

lemma pkt_load_md [simp]:
  "pkt_load (md_of room (pre @ x @ post) tail) (length room + length pre) (length x) = Some x"
  by (simp add: pkt_load_def md_of_def load_def)

lemma pkt_store_md [simp]:
  "length y = length x \<Longrightarrow> pkt_store (md_of room (pre @ x @ post) tail) (length room + length pre) y
    = Some (md_of room (pre @ y @ post) tail)"
  by (simp add: pkt_store_def md_of_def store_def)

lemma adjust_forward:
  assumes "adjusts_head adj" and "length x = 4" and "14 \<le> length pkt"
  shows "adj (md_of room (x @ pkt) tail) 4 = (0, md_of (room @ x) pkt tail)"
  using assms by (auto simp: adjusts_head_def md_of_def sizeof_defs nat_add_distrib)

lemma adjust_back:
  assumes "adjusts_head adj" and "length x = 4"
  shows "14 \<le> length pkt \<Longrightarrow> adj (md_of (room @ x) pkt tail) (- 4) = (0, md_of room (x @ pkt) tail)"
  using assms by (auto simp: adjusts_head_def md_of_def sizeof_defs)

section \<open>Pushing and popping a tag\<close>

lemma vlan_tag_push_md:
  assumes adj: "adjusts_head adj" and len: "length x = 4" "length h = 12" "length p = 2"
  shows "vlan_tag_push adj (md_of (room @ x) (h @ p @ rest) tail) (length (room @ x)) vlid
    = Some (0, md_of room (h @ le_of_word 2 (bswap16 ETH_P_8021Q)
        @ le_of_word 2 (bswap16 (word_of_int vlid)) @ p @ rest) tail)"
proof -
  let ?tci = "le_of_word 2 (bswap16 (word_of_int vlid))" and ?t = "le_of_word 2 (bswap16 ETH_P_8021Q)"
  define y where "y = x @ h @ p"
  define A B1 B2 where "A = take 14 y" and "B1 = take 2 (drop 14 y)" and "B2 = drop 16 y"
  have "B1 @ B2 = drop 14 y"
    unfolding B1_def B2_def using append_take_drop_id [of 2 "drop 14 y"] by simp
  then have "y = A @ B1 @ B2" unfolding A_def by simp
  then have AB: "x @ h @ p @ rest = A @ B1 @ B2 @ rest" unfolding y_def by (metis append_assoc)
  have "length y = 18" using len by (simp add: y_def)
  then have lens: "length A = 14" "length B1 = 2" "length B2 = 2"
    by (simp_all add: A_def B1_def B2_def)
  have "pkt_load (md_of (room @ x) (h @ p @ rest) tail) (length (room @ x)) sizeof_ethhdr = Some (h @ p)"
    using pkt_load_md [of "room @ x" "[]" "h @ p" rest tail] len by (simp add: sizeof_defs)
  moreover have "adj (md_of (room @ x) (h @ p @ rest) tail) (- 4) = (0, md_of room (A @ B1 @ B2 @ rest) tail)"
    using adjust_back [OF adj len(1), of "h @ p @ rest"] len by (simp add: AB)
  moreover have "pkt_store (md_of room (A @ B1 @ B2 @ rest) tail) (length room) (h @ p)
      = Some (md_of room (h @ p @ B1 @ B2 @ rest) tail)"
    using pkt_store_md [of "h @ p" A room "[]" "B1 @ B2 @ rest" tail] len lens by simp
  moreover have "pkt_store (md_of room (h @ p @ B1 @ B2 @ rest) tail) (length room + 14) ?tci
      = Some (md_of room (h @ p @ ?tci @ B2 @ rest) tail)"
    using pkt_store_md [of ?tci B1 room "h @ p" "B2 @ rest" tail] len lens by simp
  moreover have "pkt_load (md_of room (h @ p @ ?tci @ B2 @ rest) tail) (length room + 12) 2 = Some p"
    using pkt_load_md [of room h p "?tci @ B2 @ rest" tail] len by simp
  moreover have "pkt_store (md_of room (h @ p @ ?tci @ B2 @ rest) tail) (length room + 14 + 2) p
      = Some (md_of room (h @ p @ ?tci @ p @ rest) tail)"
    using pkt_store_md [of p B2 room "h @ p @ ?tci" rest tail] len lens by (simp add: add.commute)
  moreover have "pkt_store (md_of room (h @ p @ ?tci @ p @ rest) tail) (length room + 12) ?t
      = Some (md_of room (h @ ?t @ ?tci @ p @ rest) tail)"
    using pkt_store_md [of ?t p room h "?tci @ p @ rest" tail] len by simp
  ultimately show ?thesis
    using len lens by (simp add: vlan_tag_push_def sizeof_defs)
qed

lemma vlan_tag_pop_md:
  assumes adj: "adjusts_head adj" and len: "length h = 12" "length t = 2" "length tci = 2" "length p = 2"
    and vlan: "proto_is_vlan (word_of_le t)"
  shows "vlan_tag_pop adj (md_of room (h @ t @ tci @ p @ rest) tail) (length room)
    = Some (uint (bswap16 (word_of_le tci)), md_of (room @ take 4 h) (h @ p @ rest) tail)"
proof -
  let ?ctx = "md_of room (h @ t @ tci @ p @ rest) tail" and ?room = "room @ take 4 h"
  have "pkt_load ?ctx (length room + 12) 2 = Some t"
    using pkt_load_md [of room h t "tci @ p @ rest" tail] len by simp
  moreover have "pkt_load ?ctx (length room + 14) 2 = Some tci"
    using pkt_load_md [of room "h @ t" tci "p @ rest" tail] len by simp
  moreover have "pkt_load ?ctx (length room + 14 + 2) 2 = Some p"
    using pkt_load_md [of room "h @ t @ tci" p rest tail] len by (simp add: add.commute)
  moreover have "pkt_load ?ctx (length room) 14 = Some (h @ t)"
    using pkt_load_md [of room "[]" "h @ t" "tci @ p @ rest" tail] len by simp
  moreover have "adj ?ctx 4 = (0, md_of ?room (drop 4 h @ t @ tci @ p @ rest) tail)"
    using adjust_forward [OF adj, of "take 4 h" "drop 4 h @ t @ tci @ p @ rest"] len
    by (simp add: append_assoc [symmetric] del: append_assoc)
  moreover have "pkt_store (md_of ?room (drop 4 h @ t @ tci @ p @ rest) tail) (length ?room) (h @ t)
      = Some (md_of ?room (h @ t @ rest) tail)"
    using pkt_store_md [of "h @ t" "drop 4 h @ t @ tci @ p" ?room "[]" rest tail] len by simp
  moreover have "pkt_store (md_of ?room (h @ t @ rest) tail) (length ?room + 12) p
      = Some (md_of ?room (h @ p @ rest) tail)"
    using pkt_store_md [of p t ?room h rest tail] len by simp
  ultimately show ?thesis
    using len vlan by (simp add: vlan_tag_pop_def sizeof_defs)
qed

section \<open>Swapping fields\<close>

lemma pkt_load_buf:
  "xd_data ctx \<le> off \<Longrightarrow> off + n \<le> xd_end ctx \<Longrightarrow> pkt_load ctx off n = load (xd_buf ctx) off n"
  by (simp add: pkt_load_def)

text \<open>Two disjoint fields change places, every other range keeps its bytes, and a second swap
  restores the packet.\<close>

lemma swap_fields_spec:
  assumes wf: "wf_md ctx" and disj: "a + n \<le> b \<or> b + n \<le> a"
    and inb: "xd_data ctx \<le> h" "h + a + n \<le> xd_end ctx" "h + b + n \<le> xd_end ctx"
  shows "\<exists>ctx'. swap_fields h a b n ctx = Some ctx'
    \<and> pkt_load ctx' (h + a) n = pkt_load ctx (h + b) n
    \<and> pkt_load ctx' (h + b) n = pkt_load ctx (h + a) n
    \<and> swap_fields h a b n ctx' = Some ctx"
proof -
  let ?m = "xd_buf ctx"
  have le: "xd_end ctx \<le> length ?m" using wf by (simp add: wf_md_def)
  obtain x y where x: "load ?m (h + a) n = Some x" and y: "load ?m (h + b) n = Some y"
    using inb le by (auto simp: load_def)
  have lx: "length x = n" and ly: "length y = n" using length_load x y by blast+
  obtain m1 where m1: "store ?m (h + a) y = Some m1" using inb le ly by (simp add: store_def)
  have l1: "length m1 = length ?m" using length_store [OF m1] .
  obtain m2 where m2: "store m1 (h + b) x = Some m2" using inb le lx l1 by (simp add: store_def)
  have l2: "length m2 = length ?m" using length_store [OF m2] l1 by simp
  have a2: "load m2 (h + a) n = Some y"
    using load_store_disjoint [OF m2, of "h + a" n] load_store_same [OF m1] disj lx ly by auto
  have b2: "load m2 (h + b) n = Some x" using load_store_same [OF m2] lx by simp
  obtain m3 where m3: "store m2 (h + a) x = Some m3" using inb le lx l2 by (simp add: store_def)
  have l3: "length m3 = length ?m" using length_store [OF m3] l2 by simp
  obtain m4 where m4: "store m3 (h + b) y = Some m4" using inb le ly l3 by (simp add: store_def)
  have l4: "length m4 = length ?m" using length_store [OF m4] l3 by simp
  have xv: "x ! j = ?m ! (h + a + j)" and yv: "y ! j = ?m ! (h + b + j)" if "j < n" for j
    using x y that inb le by (auto simp: load_def split: if_splits)
  have "m4 = ?m"
  proof (rule nth_equalityI)
    fix i assume "i < length m4"
    then have i: "i < length ?m" by (simp add: l4)
    show "m4 ! i = ?m ! i"
      using nth_store [OF m4, of i] nth_store [OF m3, of i] nth_store [OF m2, of i] nth_store [OF m1, of i]
        xv [of "i - (h + a)"] yv [of "i - (h + b)"] i l1 l2 l3 lx ly disj by auto
  qed (simp add: l4)
  then have restored: "store m3 (h + b) y = Some ?m" using m4 by simp
  show ?thesis
    using x y m1 m2 a2 b2 m3 restored inb lx ly
    by (intro exI [of _ "ctx\<lparr>xd_buf := m2\<rparr>"])
      (auto simp: swap_fields_def pkt_load_def pkt_store_def)
qed

section \<open>Properties\<close>



text \<open>The address swaps. On a header inside the packet, each of the three swaps exchanges the
  source and destination fields without leaving the packet, and applying it a second time
  restores the packet.\<close>

lemma swap_src_dst_involutive:
  assumes "wf_md ctx" and "xd_data ctx \<le> h"
  shows "(h + 14 \<le> xd_end ctx \<longrightarrow> (\<exists>c. swap_src_dst_mac h ctx = Some c \<and> pkt_load c h 6 = pkt_load ctx (h + 6) 6
        \<and> pkt_load c (h + 6) 6 = pkt_load ctx h 6 \<and> swap_src_dst_mac h c = Some ctx))
    \<and> (h + 40 \<le> xd_end ctx \<longrightarrow> (\<exists>c. swap_src_dst_ipv6 h ctx = Some c
        \<and> pkt_load c (h + 8) 16 = pkt_load ctx (h + 24) 16
        \<and> pkt_load c (h + 24) 16 = pkt_load ctx (h + 8) 16 \<and> swap_src_dst_ipv6 h c = Some ctx))
    \<and> (h + 20 \<le> xd_end ctx \<longrightarrow> (\<exists>c. swap_src_dst_ipv4 h ctx = Some c
        \<and> pkt_load c (h + 12) 4 = pkt_load ctx (h + 16) 4
        \<and> pkt_load c (h + 16) 4 = pkt_load ctx (h + 12) 4 \<and> swap_src_dst_ipv4 h c = Some ctx))"
proof (intro conjI impI)
  assume "h + 14 \<le> xd_end ctx"
  then show "\<exists>c. swap_src_dst_mac h ctx = Some c \<and> pkt_load c h 6 = pkt_load ctx (h + 6) 6
        \<and> pkt_load c (h + 6) 6 = pkt_load ctx h 6 \<and> swap_src_dst_mac h c = Some ctx"
    using swap_fields_spec [OF assms(1) _ assms(2), of 6 6 0] by (fastforce simp: swap_src_dst_mac_def)
next
  assume "h + 40 \<le> xd_end ctx"
  then show "\<exists>c. swap_src_dst_ipv6 h ctx = Some c
        \<and> pkt_load c (h + 8) 16 = pkt_load ctx (h + 24) 16
        \<and> pkt_load c (h + 24) 16 = pkt_load ctx (h + 8) 16 \<and> swap_src_dst_ipv6 h c = Some ctx"
    unfolding swap_src_dst_ipv6_def using assms by (intro swap_fields_spec) auto
next
  assume "h + 20 \<le> xd_end ctx"
  then show "\<exists>c. swap_src_dst_ipv4 h ctx = Some c
        \<and> pkt_load c (h + 12) 4 = pkt_load ctx (h + 16) 4
        \<and> pkt_load c (h + 16) 4 = pkt_load ctx (h + 12) 4 \<and> swap_src_dst_ipv4 h c = Some ctx"
    unfolding swap_src_dst_ipv4_def using assms by (intro swap_fields_spec) auto
qed

lemma swap_src_dst_involutive_example:
  "\<exists>c. swap_src_dst_mac 0 (md_of [] ([1, 2, 3, 4, 5, 6] @ replicate 34 0) []) = Some c
    \<and> pkt_load c 6 6 = pkt_load (md_of [] ([1, 2, 3, 4, 5, 6] @ replicate 34 0) []) 0 6
    \<and> swap_src_dst_mac 0 c = Some (md_of [] ([1, 2, 3, 4, 5, 6] @ replicate 34 0) [])"
  using swap_src_dst_involutive [of "md_of [] ([1, 2, 3, 4, 5, 6] @ replicate 34 0) []" 0]
  by (simp only: md_of_sel wf_md_of) auto

end
