(* ===== verification/Ebpf_Kern.thy ===== *)
theory Ebpf_Kern
  imports Parsing Common_Defs
begin

text \<open>
  \<^verbatim>\<open>eBPF_app/eBPF_measure/ebpf_measure_kern.c\<close>: the XDP program that records the arrival time and
  a copy of every payload in BPF maps, and \<^verbatim>\<open>eBPF_app/common/xdp_stats_kern.h\<close>, the per-action
  statistics.

  BPF maps live in the kernel and are reached through its helpers, so the helpers are an
  argument of the programs: a record of operations on a map of type \<open>'m\<close>. The documented
  behaviour of array maps is the predicate \<open>array_map\<close>, a hypothesis of the theorems.
\<close>

section \<open>Maps\<close>

text \<open>\<open>map_write\<close> is the store through the pointer a successful lookup returned; \<open>map_ok\<close> holds of
  the maps the kernel created.\<close>

record ('m, 'v) bpf_map =
  map_ok :: "'m \<Rightarrow> bool"
  map_lookup :: "'m \<Rightarrow> u32 \<Rightarrow> 'v option"
  map_write :: "'m \<Rightarrow> u32 \<Rightarrow> 'v \<Rightarrow> 'm"
  map_update :: "'m \<Rightarrow> u32 \<Rightarrow> 'v \<Rightarrow> int \<times> 'm"

definition array_map :: "('m, 'v) bpf_map \<Rightarrow> nat \<Rightarrow> bool" where
  "array_map mp max_entries \<longleftrightarrow> (\<forall>m. map_ok mp m \<longrightarrow>
     (\<forall>k. (map_lookup mp m k = None) = (max_entries \<le> unat k)) \<and>
     (\<forall>k v. unat k < max_entries \<longrightarrow> map_ok mp (map_write mp m k v)
        \<and> (\<forall>j. map_lookup mp (map_write mp m k v) j = (if j = k then Some v else map_lookup mp m j))
        \<and> map_update mp m k v = (0, map_write mp m k v)) \<and>
     (\<forall>k v. max_entries \<le> unat k \<longrightarrow> map_update mp m k v = (- E2BIG, m)))"

text \<open>An instance: a list of values.\<close>

definition list_map :: "nat \<Rightarrow> ('v list, 'v) bpf_map" where
  "list_map n = \<lparr>map_ok = (\<lambda>m. length m = n), map_lookup = (\<lambda>m k. arr_get m (unat k)),
     map_write = (\<lambda>m k v. m[unat k := v]),
     map_update = (\<lambda>m k v. if unat k < length m then (0, m[unat k := v]) else (- E2BIG, m))\<rparr>"

lemma array_map_list: "array_map (list_map n) n"
  by (auto simp: array_map_def list_map_def arr_get_def nth_list_update)
    (metis unsigned_word_eqI)

section \<open>The program\<close>

datatype xdp_action = XDP_ABORTED | XDP_DROP | XDP_PASS | XDP_TX | XDP_REDIRECT

definition IPPROTO_UDP :: int where "IPPROTO_UDP = 17"

record ('t, 'p, 's) ebpf_maps =
  uid_timestamps :: 't
  pkt_payload :: 'p
  xdp_stats_map :: 's

record ('t, 'p, 's) map_helpers =
  ts_map :: "('t, u64) bpf_map"
  pl_map :: "('p, bytes) bpf_map"
  st_map :: "('s, u32) bpf_map"

text \<open>The part behind the length checks: the payload is taken at the fixed offset 42 from the
  start of the frame, and the key of the maps is the first four of the eight bytes of its uid.
  The result of the update is only compared with -1 for a message.\<close>

definition record_packet ::
    "('t, 'p, 's) map_helpers \<Rightarrow> u64 \<Rightarrow> u32 \<Rightarrow> bytes \<Rightarrow> ('t, 'p, 's) ebpf_maps \<Rightarrow> ('t, 'p, 's) ebpf_maps option" where
  "record_packet h now index pkt s = do {
     key \<leftarrow> load32 pkt (42 + 8);
     let ts = (case map_lookup (ts_map h) (uid_timestamps s) key of
                 None \<Rightarrow> uid_timestamps s
               | Some t \<Rightarrow> map_write (ts_map h) (uid_timestamps s) key now);
     pl \<leftarrow> load pkt 42 sizeof_Payload;
     let (r, pp) = map_update (pl_map h) (pkt_payload s) key pl;
     let st = (case map_lookup (st_map h) (xdp_stats_map s) index of
                 None \<Rightarrow> xdp_stats_map s
               | Some c \<Rightarrow> map_write (st_map h) (xdp_stats_map s) index (c + 1));
     Some \<lparr>uid_timestamps = ts, pkt_payload = pp, xdp_stats_map = st\<rparr>
   }"

definition xdp_sock_prog ::
    "('t, 'p, 's) map_helpers \<Rightarrow> u64 \<Rightarrow> u32 \<Rightarrow> bytes \<Rightarrow> ('t, 'p, 's) ebpf_maps
     \<Rightarrow> (xdp_action \<times> ('t, 'p, 's) ebpf_maps) option" where
  "xdp_sock_prog h now index pkt s = do {
     (eth_type, pos, eth) \<leftarrow> parse_ethhdr pkt 0;
     if eth_type \<noteq> uint (bswap16 ETH_P_IP) then Some (XDP_PASS, s) else do {
     (ip_type, pos, iphdr) \<leftarrow> parse_iphdr pkt pos;
     if ip_type \<noteq> IPPROTO_UDP then Some (XDP_PASS, s) else do {
     (len, pos, udphdr) \<leftarrow> parse_udphdr pkt pos;
     if len \<noteq> int sizeof_Payload then Some (XDP_PASS, s) else do {
     udphdr \<leftarrow> udphdr;
     dest \<leftarrow> load16 pkt (udphdr + 2);
     if dest \<noteq> bswap16 DEST_PORT then Some (XDP_PASS, s)
     else if length pkt \<ge> 106 then
       (if length pkt \<ge> 42 + sizeof_Payload
        then map_option (\<lambda>s'. (XDP_PASS, s')) (record_packet h now index pkt s)
        else Some (XDP_PASS, s))
     else Some (XDP_PASS, s) }}}}"

section \<open>Statistics per action\<close>

record datarec =
  rx_packets :: u64
  rx_bytes :: u64

definition XDP_ACTION_MAX :: u32 where "XDP_ACTION_MAX = 5"

text \<open>\<^verbatim>\<open>xdp_stats_record_action\<close>, with the actions as the numbers of the C enumeration; a result of
  0 is \<^const>\<open>XDP_ABORTED\<close>.\<close>

definition xdp_stats_record_action ::
    "('m, datarec) bpf_map \<Rightarrow> u64 \<Rightarrow> u32 \<Rightarrow> 'm \<Rightarrow> u32 \<times> 'm" where
  "xdp_stats_record_action mp pkt_len action m =
     (if XDP_ACTION_MAX \<le> action then (0, m)
      else (case map_lookup mp m action of
              None \<Rightarrow> (0, m)
            | Some rec \<Rightarrow> (action, map_write mp m action
                (rec\<lparr>rx_packets := rx_packets rec + 1, rx_bytes := rx_bytes rec + pkt_len\<rparr>))))"

section \<open>Facts about maps\<close>

lemma array_map_lookup_None:
  "array_map mp n \<Longrightarrow> map_ok mp m \<Longrightarrow> map_lookup mp m k = None \<longleftrightarrow> n \<le> unat k"
  by (simp add: array_map_def)

lemma array_map_lookup_Some:
  "array_map mp n \<Longrightarrow> map_ok mp m \<Longrightarrow> unat k < n \<Longrightarrow> \<exists>v. map_lookup mp m k = Some v"
  using array_map_lookup_None [of mp n m k] by (cases "map_lookup mp m k") auto

lemma array_map_write:
  assumes "array_map mp n" and "map_ok mp m" and "unat k < n"
  shows "map_ok mp (map_write mp m k v)"
    and "map_lookup mp (map_write mp m k v) j = (if j = k then Some v else map_lookup mp m j)"
    and "map_update mp m k v = (0, map_write mp m k v)"
  using assms unfolding array_map_def by blast+

lemma array_map_update_out:
  "array_map mp n \<Longrightarrow> map_ok mp m \<Longrightarrow> n \<le> unat k \<Longrightarrow> map_update mp m k v = (- E2BIG, m)"
  unfolding array_map_def by blast

text \<open>The maps as the program declares them.\<close>

definition maps_declared :: "('t, 'p, 's) map_helpers \<Rightarrow> bool" where
  "maps_declared h \<longleftrightarrow> array_map (ts_map h) (1 + MAX_LOG_ENTRY)
     \<and> array_map (pl_map h) (1 + MAX_LOG_ENTRY) \<and> array_map (st_map h) 64"

definition maps_ok :: "('t, 'p, 's) map_helpers \<Rightarrow> ('t, 'p, 's) ebpf_maps \<Rightarrow> bool" where
  "maps_ok h s \<longleftrightarrow> map_ok (ts_map h) (uid_timestamps s) \<and> map_ok (pl_map h) (pkt_payload s)
     \<and> map_ok (st_map h) (xdp_stats_map s)"

text \<open>What the program leaves in the maps for a key: the reads of the user-space program.\<close>

lemma record_packet_spec:
  assumes "maps_declared h" and "maps_ok h s" and "42 + sizeof_Payload \<le> length pkt"
    and key: "load32 pkt 50 = Some key"
  shows "\<exists>s'. record_packet h now index pkt s = Some s' \<and> maps_ok h s'
    \<and> (\<forall>k. map_lookup (ts_map h) (uid_timestamps s') k
          = (if k = key \<and> unat key \<le> MAX_LOG_ENTRY then Some now
             else map_lookup (ts_map h) (uid_timestamps s) k))
    \<and> (\<forall>k. map_lookup (pl_map h) (pkt_payload s') k
          = (if k = key \<and> unat key \<le> MAX_LOG_ENTRY then load pkt 42 sizeof_Payload
             else map_lookup (pl_map h) (pkt_payload s) k))
    \<and> (\<forall>k. map_lookup (st_map h) (xdp_stats_map s') k
          = (if k = index \<and> unat index < 64
             then map_option (\<lambda>c. c + 1) (map_lookup (st_map h) (xdp_stats_map s) k)
             else map_lookup (st_map h) (xdp_stats_map s) k))"
proof -
  have am: "array_map (ts_map h) (Suc MAX_LOG_ENTRY)" "array_map (pl_map h) (Suc MAX_LOG_ENTRY)"
    "array_map (st_map h) 64"
    and ok: "map_ok (ts_map h) (uid_timestamps s)" "map_ok (pl_map h) (pkt_payload s)"
    "map_ok (st_map h) (xdp_stats_map s)"
    using assms(1,2) by (auto simp: maps_declared_def maps_ok_def)
  obtain pl where pl: "load pkt 42 sizeof_Payload = Some pl" using assms(3) by (simp add: load_def)
  define ts where "ts = (case map_lookup (ts_map h) (uid_timestamps s) key of
      None \<Rightarrow> uid_timestamps s | Some t \<Rightarrow> map_write (ts_map h) (uid_timestamps s) key now)"
  define st where "st = (case map_lookup (st_map h) (xdp_stats_map s) index of
      None \<Rightarrow> xdp_stats_map s | Some c \<Rightarrow> map_write (st_map h) (xdp_stats_map s) index (c + 1))"
  define pp where "pp = snd (map_update (pl_map h) (pkt_payload s) key pl)"
  have ts: "map_ok (ts_map h) ts \<and> (\<forall>k. map_lookup (ts_map h) ts k
      = (if k = key \<and> unat key \<le> MAX_LOG_ENTRY then Some now else map_lookup (ts_map h) (uid_timestamps s) k))"
    using array_map_lookup_None [OF am(1) ok(1), of key] array_map_write [OF am(1) ok(1), of key now] ok(1)
    by (auto simp: ts_def split: option.split)
  have pp: "map_ok (pl_map h) pp \<and> (\<forall>k. map_lookup (pl_map h) pp k
      = (if k = key \<and> unat key \<le> MAX_LOG_ENTRY then Some pl else map_lookup (pl_map h) (pkt_payload s) k))"
  proof (cases "unat key < Suc MAX_LOG_ENTRY")
    case True
    then show ?thesis using array_map_write [OF am(2) ok(2) True] by (simp add: pp_def)
  next
    case False
    then show ?thesis using array_map_update_out [OF am(2) ok(2)] ok(2) by (simp add: pp_def)
  qed
  have st: "map_ok (st_map h) st \<and> (\<forall>k. map_lookup (st_map h) st k = (if k = index \<and> unat index < 64
      then map_option (\<lambda>c. c + 1) (map_lookup (st_map h) (xdp_stats_map s) k)
      else map_lookup (st_map h) (xdp_stats_map s) k))"
    using array_map_lookup_None [OF am(3) ok(3), of index] array_map_write [OF am(3) ok(3), of index] ok(3)
    by (auto simp: st_def split: option.split)
  have "record_packet h now index pkt s = Some \<lparr>uid_timestamps = ts, pkt_payload = pp, xdp_stats_map = st\<rparr>"
    using key pl by (simp add: record_packet_def ts_def st_def pp_def Let_def case_prod_beta)
  then show ?thesis using ts pp st pl by (simp add: maps_ok_def)
qed

section \<open>Facts about the program\<close>

lemma load32_some: "off + 4 \<le> length m \<Longrightarrow> \<exists>v. load32 m off = Some v"
  by (simp add: load32_def load_def)

lemma parse_udphdr_defined:
  assumes "parse_udphdr pkt pos = Some (len, pos', hdr)" and "0 \<le> len"
  shows "hdr = Some pos \<and> pos + 8 \<le> length pkt"
  using assms by (auto simp: parse_udphdr_def sizeof_defs Let_def split: if_splits Option.bind_splits)

lemma xdp_sock_prog_total:
  assumes "maps_declared h" and "maps_ok h s"
  shows "\<exists>s'. xdp_sock_prog h now index pkt s = Some (XDP_PASS, s') \<and> maps_ok h s'
    \<and> (s' = s \<or> 42 + sizeof_Payload \<le> length pkt \<and> record_packet h now index pkt s = Some s')"
proof -
  obtain et p1 e where e: "parse_ethhdr pkt 0 = Some (et, p1, e)" "p1 \<le> length pkt"
    using eth.in_bounds [of 0 pkt] by auto
  obtain it p2 i where i: "parse_iphdr pkt p1 = Some (it, p2, i)" "p2 \<le> length pkt"
    using ip.in_bounds [OF e(2)] by auto
  obtain len p3 u where u: "parse_udphdr pkt p2 = Some (len, p3, u)"
    using udp.in_bounds [OF i(2)] by auto
  show ?thesis
  proof (cases "et = uint (bswap16 ETH_P_IP) \<and> it = IPPROTO_UDP \<and> len = int sizeof_Payload")
    case False
    then show ?thesis using e i u assms(2) by (auto simp: xdp_sock_prog_def)
  next
    case True
    then have u': "u = Some p2" "p2 + 8 \<le> length pkt" using parse_udphdr_defined [OF u] by auto
    then obtain dest where d: "load16 pkt (p2 + 2) = Some dest" using load16_some [of "p2 + 2" pkt] by auto
    show ?thesis
    proof (cases "dest = bswap16 DEST_PORT \<and> 42 + sizeof_Payload \<le> length pkt")
      case False
      then show ?thesis using True e i u u' d assms(2) by (auto simp: xdp_sock_prog_def)
    next
      case recorded: True
      then obtain key where "load32 pkt 50 = Some key" using load32_some [of 50 pkt] by (auto simp: const_vals)
      from record_packet_spec [OF assms _ this, of now index] recorded obtain s' where
        "record_packet h now index pkt s = Some s'" "maps_ok h s'" by auto
      then show ?thesis using True recorded e i u u' d by (auto simp: xdp_sock_prog_def const_vals)
    qed
  qed
qed

text \<open>The frame of a client packet, with or without VLAN tags, passes all filters.\<close>

definition client_frame :: "bytes \<Rightarrow> bytes \<Rightarrow> (u16 \<times> u16) list \<Rightarrow> Payload \<Rightarrow> bytes" where
  "client_frame dst src tags p = eth_frame dst src tags ETH_P_IP (client_hdr @ bytes_of_Payload p)"

lemma client_hdr_parse:
  shows "parse_iphdr (pre @ client_hdr @ rest) (length pre) = Some (17, length pre + 20, Some (length pre))"
    and "parse_udphdr (pre @ client_hdr @ rest) (length pre + 20) = Some (1024, length pre + 28, Some (length pre + 20))"
    and "load16 (pre @ client_hdr @ rest) (length pre + 20 + 2) = Some (bswap16 DEST_PORT)"
proof -
  have len: "length client_hdr = 28" by (simp add: client_hdr_def)
  have get: "arr_get (pre @ client_hdr @ rest) (length pre + i) = Some (client_hdr ! i)" if "i < 28" for i
    using that by (simp add: arr_get_def nth_append len)
  have ld: "load16 (pre @ client_hdr @ rest) (length pre + i) = Some (word_of_le (take 2 (drop i client_hdr)))"
    if "i \<le> 26" for i
    using that by (simp add: load16_def load_def len)
  have vals: "unat (client_hdr ! 0 AND 0x0f) = 5" "client_hdr ! 9 = 17"
    "uint (bswap16 (word_of_le (take 2 (drop 24 client_hdr)))) = 1032"
    "(word_of_le (take 2 (drop 22 client_hdr)) :: u16) = bswap16 DEST_PORT"
    by code_simp+
  show "parse_iphdr (pre @ client_hdr @ rest) (length pre) = Some (17, length pre + 20, Some (length pre))"
    using get [of 0] get [of 9] vals(1,2) len by (simp add: parse_iphdr_def sizeof_defs Let_def)
  show "parse_udphdr (pre @ client_hdr @ rest) (length pre + 20) = Some (1024, length pre + 28, Some (length pre + 20))"
    using ld [of 24] vals(3) len
    by (simp add: parse_udphdr_def sizeof_defs Let_def udp_len_cut add.commute)
  show "load16 (pre @ client_hdr @ rest) (length pre + 20 + 2) = Some (bswap16 DEST_PORT)"
    using ld [of 22] vals(4) by (simp add: add.commute)
qed

lemma client_frame_recorded:
  assumes "length dst = 6" and "length src = 6" and "length tags \<le> VLAN_MAX_DEPTH"
    and "\<forall>(tpid, tci) \<in> set tags. tpid = ETH_P_8021Q \<or> tpid = ETH_P_8021AD"
    and "wf_Payload p"
  shows "xdp_sock_prog h now index (client_frame dst src tags p) s
      = map_option (\<lambda>s'. (XDP_PASS, s')) (record_packet h now index (client_frame dst src tags p) s)"
    and "length (client_frame dst src tags p) = 42 + 4 * length tags + sizeof_Payload"
proof -
  let ?pre = "dst @ src @ concat (map (\<lambda>(tpid, tci). be16 tpid @ be16 tci) tags) @ be16 ETH_P_IP"
  let ?pkt = "client_frame dst src tags p"
  have pkt: "?pkt = ?pre @ client_hdr @ bytes_of_Payload p"
    by (simp add: client_frame_def eth_frame_def)
  have "length (concat (map (\<lambda>(tpid, tci). be16 tpid @ be16 tci) tags)) = 4 * length tags"
    by (induction tags) auto
  then have pre: "length ?pre = 14 + 4 * length tags" using assms(1,2) by simp
  moreover have "length client_hdr = 28" by (simp add: client_hdr_def)
  ultimately show len: "length ?pkt = 42 + 4 * length tags + sizeof_Payload"
    unfolding pkt using length_bytes_of_Payload [OF assms(5)] by simp
  have "parse_ethhdr ?pkt 0 = Some (uint (bswap16 ETH_P_IP), 14 + 4 * length tags, Some 0)"
    unfolding client_frame_def
    by (rule parse_ethhdr_frame [OF assms(1-4)]) (simp_all add: ETH_P_IP_def ETH_P_8021Q_def ETH_P_8021AD_def)
  moreover note client_hdr_parse [of ?pre "bytes_of_Payload p", folded pkt, unfolded pre]
  moreover have "42 + sizeof_Payload \<le> length ?pkt" "106 \<le> length ?pkt"
    unfolding len by (simp_all add: const_vals)
  ultimately show "xdp_sock_prog h now index ?pkt s
      = map_option (\<lambda>s'. (XDP_PASS, s')) (record_packet h now index ?pkt s)"
    by (simp add: xdp_sock_prog_def IPPROTO_UDP_def sizeof_Payload_val)
qed

section \<open>Properties\<close>

text \<open>C15: The XDP program is safe and transparent: on every frame, of any length and content, it
  reads only inside the frame, keeps the maps well formed and passes the frame on to the network
  stack; it changes the maps only for frames that hold a whole payload behind the first 42
  bytes.\<close>

theorem xdp_prog_safe:
  assumes "maps_declared h" and "maps_ok h s"
  shows "\<exists>s'. xdp_sock_prog h now index pkt s = Some (XDP_PASS, s') \<and> maps_ok h s'
    \<and> (length pkt < 42 + sizeof_Payload \<longrightarrow> s' = s)"
  using xdp_sock_prog_total [OF assms, of now index pkt] by auto

definition list_helpers :: "(u64 list, bytes list, u32 list) map_helpers" where
  "list_helpers = \<lparr>ts_map = list_map (1 + MAX_LOG_ENTRY), pl_map = list_map (1 + MAX_LOG_ENTRY),
     st_map = list_map 64\<rparr>"

definition zero_maps :: "(u64 list, bytes list, u32 list) ebpf_maps" where
  "zero_maps = \<lparr>uid_timestamps = replicate (1 + MAX_LOG_ENTRY) 0,
     pkt_payload = replicate (1 + MAX_LOG_ENTRY) (replicate sizeof_Payload 0),
     xdp_stats_map = replicate 64 0\<rparr>"

lemma list_helpers_ok: "maps_declared list_helpers" "maps_ok list_helpers zero_maps"
  by (simp_all add: maps_declared_def maps_ok_def list_helpers_def zero_maps_def array_map_list)
    (simp_all add: list_map_def)

theorem xdp_prog_safe_witness:
  "\<exists>s'. xdp_sock_prog list_helpers 5 0 [1, 2, 3] zero_maps = Some (XDP_PASS, s') \<and> s' = zero_maps"
  using xdp_prog_safe [OF list_helpers_ok, of 5 0 "[1, 2, 3]"] by (auto simp: const_vals)

text \<open>For an untagged packet of the client, the program records the arrival time and the whole
  payload in the entries of the maps for the low 32 bits of its uid, when they are at most
  \<^verbatim>\<open>MAX_LOG_ENTRY\<close>, leaves all other entries alone, and counts the packet on its receive
  queue.\<close>

lemma xdp_prog_records_client_packet:
  assumes "maps_declared h" and "maps_ok h s" and "length dst = 6" and "length src = 6" and "wf_Payload p"
  shows "\<exists>s'. xdp_sock_prog h now index (client_frame dst src [] p) s = Some (XDP_PASS, s')
    \<and> (\<forall>k. map_lookup (ts_map h) (uid_timestamps s') k =
          (if k = ucast (pl_uid p) \<and> unat k \<le> MAX_LOG_ENTRY then Some now
           else map_lookup (ts_map h) (uid_timestamps s) k))
    \<and> (\<forall>k. map_lookup (pl_map h) (pkt_payload s') k =
          (if k = ucast (pl_uid p) \<and> unat k \<le> MAX_LOG_ENTRY then Some (bytes_of_Payload p)
           else map_lookup (pl_map h) (pkt_payload s) k))
    \<and> (\<forall>k. map_lookup (st_map h) (xdp_stats_map s') k =
          (if k = index \<and> unat k < 64 then map_option (\<lambda>c. c + 1) (map_lookup (st_map h) (xdp_stats_map s) k)
           else map_lookup (st_map h) (xdp_stats_map s) k))"
proof -
  let ?pkt = "client_frame dst src [] p"
  have fr: "xdp_sock_prog h now index ?pkt s = map_option (\<lambda>s'. (XDP_PASS, s')) (record_packet h now index ?pkt s)"
    "length ?pkt = 42 + sizeof_Payload"
    using client_frame_recorded [OF assms(3,4) _ _ assms(5), of "[]"] by (simp_all add: VLAN_MAX_DEPTH_def)
  define pre where "pre = dst @ src @ be16 ETH_P_IP @ client_hdr"
  have pkt: "?pkt = pre @ bytes_of_Payload p" and pre: "length pre = 42"
    using assms(3,4) by (simp_all add: pre_def client_frame_def eth_frame_def client_hdr_def)
  have pl: "load ?pkt 42 sizeof_Payload = Some (bytes_of_Payload p)"
    unfolding pkt load_def using pre length_bytes_of_Payload [OF assms(5)] by simp
  have "load ?pkt 50 4 = Some (take 4 (drop 8 (bytes_of_Payload p)))"
    unfolding pkt load_def using pre length_bytes_of_Payload [OF assms(5)] by (simp add: const_vals)
  moreover have "take 4 (drop 8 (bytes_of_Payload p)) = le_of_word 4 (ucast (pl_uid p) :: u32)"
    by (simp add: bytes_of_Payload_def le_of_word_ucast32)
  ultimately have key: "load32 ?pkt 50 = Some (ucast (pl_uid p))" by (simp add: load32_def)
  have "42 + sizeof_Payload \<le> length ?pkt" using fr(2) by simp
  from record_packet_spec [OF assms(1,2) this key, of now index, unfolded pl] obtain s' where
    s': "record_packet h now index ?pkt s = Some s'"
    and ts: "\<And>k. map_lookup (ts_map h) (uid_timestamps s') k = (if k = ucast (pl_uid p)
      \<and> unat (ucast (pl_uid p) :: u32) \<le> MAX_LOG_ENTRY then Some now else map_lookup (ts_map h) (uid_timestamps s) k)"
    and pp: "\<And>k. map_lookup (pl_map h) (pkt_payload s') k = (if k = ucast (pl_uid p)
      \<and> unat (ucast (pl_uid p) :: u32) \<le> MAX_LOG_ENTRY then Some (bytes_of_Payload p)
      else map_lookup (pl_map h) (pkt_payload s) k)"
    and st: "\<And>k. map_lookup (st_map h) (xdp_stats_map s') k = (if k = index \<and> unat index < 64
      then map_option (\<lambda>c. c + 1) (map_lookup (st_map h) (xdp_stats_map s) k)
      else map_lookup (st_map h) (xdp_stats_map s) k)" by blast
  have "xdp_sock_prog h now index ?pkt s = Some (XDP_PASS, s')" using fr(1) s' by simp
  then show ?thesis by (intro exI [of _ s'] conjI allI) (use ts pp st in auto)
qed

lemma xdp_prog_records_client_packet_example:
  "\<exists>s'. xdp_sock_prog list_helpers 5 0 (client_frame (replicate 6 1) (replicate 6 2) [] sample_payload) zero_maps
      = Some (XDP_PASS, s')
    \<and> map_lookup (ts_map list_helpers) (uid_timestamps s') 7 = Some 5
    \<and> map_lookup (pl_map list_helpers) (pkt_payload s') 7 = Some (bytes_of_Payload sample_payload)"
proof -
  have uid: "(ucast (pl_uid sample_payload) :: u32) = 7" by (simp add: sample_payload_def)
  have "unat (7 :: u32) \<le> MAX_LOG_ENTRY" by (simp add: const_vals)
  then show ?thesis
    using xdp_prog_records_client_packet [OF list_helpers_ok _ _ wf_sample_payload,
        of "replicate 6 1" "replicate 6 2" 5 0] uid by auto
qed

text \<open>The program accepts VLAN-tagged frames, but still reads the payload at offset 42: of a
  client packet behind one tag it takes the high half of the client identifier for the key, so
  the packet of every client whose identifier is below \<open>2 ^ 32\<close> is recorded as a packet of uid 0,
  whatever its uid.\<close>

lemma xdp_prog_tagged_packet_misread:
  assumes "maps_declared h" and "maps_ok h s" and "length dst = 6" and "length src = 6" and "wf_Payload p"
    and "unat (pl_client_uid p) < 2 ^ 32"
  shows "\<exists>s'. xdp_sock_prog h now index (client_frame dst src [(ETH_P_8021Q, tci)] p) s = Some (XDP_PASS, s')
    \<and> (\<forall>k. map_lookup (ts_map h) (uid_timestamps s') k =
          (if k = 0 then Some now else map_lookup (ts_map h) (uid_timestamps s) k))"
proof -
  let ?pkt = "client_frame dst src [(ETH_P_8021Q, tci)] p"
  have fr: "xdp_sock_prog h now index ?pkt s = map_option (\<lambda>s'. (XDP_PASS, s')) (record_packet h now index ?pkt s)"
    "length ?pkt = 46 + sizeof_Payload"
    using client_frame_recorded [OF assms(3,4) _ _ assms(5), of "[(ETH_P_8021Q, tci)]"]
    by (simp_all add: VLAN_MAX_DEPTH_def)
  define pre where "pre = dst @ src @ be16 ETH_P_8021Q @ be16 tci @ be16 ETH_P_IP @ client_hdr"
  have pkt: "?pkt = pre @ bytes_of_Payload p" and pre: "length pre = 46"
    using assms(3,4) by (simp_all add: pre_def client_frame_def eth_frame_def client_hdr_def)
  have "load ?pkt 50 4 = Some (take 4 (drop 4 (bytes_of_Payload p)))"
    unfolding pkt load_def using pre length_bytes_of_Payload [OF assms(5)] by (simp add: const_vals)
  moreover have "take 4 (drop 4 (bytes_of_Payload p)) = replicate 4 0"
    unfolding bytes_of_Payload_def using high_half_zero [OF assms(6)] by simp
  ultimately have key: "load32 ?pkt 50 = Some 0" by (simp add: load32_def eval_nat_numeral)
  have "42 + sizeof_Payload \<le> length ?pkt" using fr(2) by simp
  from record_packet_spec [OF assms(1,2) this key, of now index] obtain s' where
    s': "record_packet h now index ?pkt s = Some s'"
    and ts: "\<And>k. map_lookup (ts_map h) (uid_timestamps s') k = (if k = 0 \<and> unat (0 :: u32) \<le> MAX_LOG_ENTRY
      then Some now else map_lookup (ts_map h) (uid_timestamps s) k)" by blast
  have "xdp_sock_prog h now index ?pkt s = Some (XDP_PASS, s')" using fr(1) s' by simp
  then show ?thesis by (intro exI [of _ s'] conjI allI) (use ts in auto)
qed

lemma xdp_prog_tagged_packet_misread_example:
  "pl_uid sample_payload = 7 \<and> (\<exists>s'. xdp_sock_prog list_helpers 5 0
      (client_frame (replicate 6 1) (replicate 6 2) [(ETH_P_8021Q, 100)] sample_payload) zero_maps
      = Some (XDP_PASS, s') \<and> map_lookup (ts_map list_helpers) (uid_timestamps s') 0 = Some 5)"
  using xdp_prog_tagged_packet_misread [OF list_helpers_ok _ _ wf_sample_payload,
      of "replicate 6 1" "replicate 6 2" 5 0 100] by (auto simp: sample_payload_def)

end
