(* ===== verification/Ebpf_User.thy ===== *)
theory Ebpf_User
  imports Ebpf_Kern Log_Table "HOL-Library.Sublist"
begin

text \<open>
  \<^verbatim>\<open>eBPF_app/eBPF_measure/ebpf_measure_user.c\<close>: the polling of the payload map, the checksum
  helpers, and the XDP program and the user-space program running side by side as a transition
  system whose steps are the arrival of a frame and one poll.
\<close>

section \<open>Checksums\<close>

definition csum16_add :: "u16 \<Rightarrow> u16 \<Rightarrow> u16" where
  "csum16_add csum addend =
     (let res = csum + addend in res + (if res < addend then 1 else 0))"

definition csum16_sub :: "u16 \<Rightarrow> u16 \<Rightarrow> u16" where
  "csum16_sub csum addend = csum16_add csum (NOT addend)"

definition csum_replace2 :: "u16 \<Rightarrow> u16 \<Rightarrow> u16 \<Rightarrow> u16" where
  "csum_replace2 s old new = NOT (csum16_add (csum16_sub (NOT s) old) new)"

section \<open>Polling\<close>

definition gettime :: "u64 \<Rightarrow> u64 \<Rightarrow> u64" where
  "gettime tv_sec tv_nsec = tv_sec * 1000000000 + tv_nsec"

definition valid_payload :: "Payload \<Rightarrow> bool" where
  "valid_payload pl \<longleftrightarrow> pl_client_uid pl \<noteq> 0 \<and> pl_type pl = PL_DATA \<and> pl_created_time pl \<noteq> 0"

text \<open>\<^verbatim>\<open>fetch_and_process_packet\<close>: whether a packet was processed, and the log.\<close>

definition fetch_and_process_packet ::
    "('t, 'p, 's) map_helpers \<Rightarrow> ('t, 'p, 's) ebpf_maps \<Rightarrow> u64 \<Rightarrow> u32 \<Rightarrow> log_table \<Rightarrow> (bool \<times> log_table) option" where
  "fetch_and_process_packet h maps now next_uid lb =
     (case map_lookup (pl_map h) (pkt_payload maps) next_uid of
        None \<Rightarrow> Some (False, lb)
      | Some bs \<Rightarrow>
          let map_pl = Payload_of_bytes bs in
          if valid_payload map_pl then
            (if pl_uid map_pl < of_nat MAX_LOG_ENTRY \<and> pl_uid map_pl \<ge> 0
             then map_option (\<lambda>lb'. (True, lb')) (log_write lb (pl_uid map_pl) now)
             else Some (False, lb))
          else Some (False, lb))"

section \<open>Kernel and user space side by side\<close>

record ('t, 'p, 's) ebpf_state =
  es_maps :: "('t, 'p, 's) ebpf_maps"
  es_log :: log_table
  es_next :: u32

text \<open>A frame arrives at a time on a receive queue; the user program polls at a time.\<close>

datatype ebpf_event = KernPkt u64 u32 bytes | UserPoll u64

inductive ebpf_run ::
    "('t, 'p, 's) map_helpers \<Rightarrow> ('t, 'p, 's) ebpf_state \<Rightarrow> ebpf_event list \<Rightarrow> ('t, 'p, 's) ebpf_state \<Rightarrow> bool"
  for h s0 where
  run_start: "ebpf_run h s0 [] s0"
| run_frame: "ebpf_run h s0 evs s \<Longrightarrow> xdp_sock_prog h now index pkt (es_maps s) = Some (action, maps) \<Longrightarrow>
    ebpf_run h s0 (evs @ [KernPkt now index pkt]) (s\<lparr>es_maps := maps\<rparr>)"
| run_hit: "ebpf_run h s0 evs s \<Longrightarrow>
    fetch_and_process_packet h (es_maps s) now (es_next s) (es_log s) = Some (True, lb) \<Longrightarrow>
    ebpf_run h s0 (evs @ [UserPoll now]) (s\<lparr>es_log := lb, es_next := es_next s + 1\<rparr>)"
| run_miss: "ebpf_run h s0 evs s \<Longrightarrow>
    fetch_and_process_packet h (es_maps s) now (es_next s) (es_log s) = Some (False, lb) \<Longrightarrow>
    ebpf_run h s0 (evs @ [UserPoll now]) (s\<lparr>es_log := lb\<rparr>)"

inductive_cases ebpf_run_nilE: "ebpf_run h s0 [] s"

definition poll_times :: "ebpf_event list \<Rightarrow> u64 list" where
  "poll_times evs = List.map_filter (\<lambda>e. case e of UserPoll now \<Rightarrow> Some now | _ \<Rightarrow> None) evs"

text \<open>The frame brings a valid payload with a uid to the place where the program looks for it.\<close>

definition brings :: "ebpf_event \<Rightarrow> nat \<Rightarrow> bool" where
  "brings e uid \<longleftrightarrow> (case e of
     KernPkt now index pkt \<Rightarrow> (case load_Payload pkt 42 of
         None \<Rightarrow> False | Some pl \<Rightarrow> valid_payload pl \<and> unat (pl_uid pl) = uid)
   | UserPoll now \<Rightarrow> False)"

text \<open>The start of an experiment: the kernel hands out zeroed maps.\<close>

definition ebpf_start :: "('t, 'p, 's) map_helpers \<Rightarrow> ('t, 'p, 's) ebpf_state \<Rightarrow> bool" where
  "ebpf_start h s \<longleftrightarrow> maps_ok h (es_maps s) \<and> wf_log (es_log s) \<and> es_next s = 0
     \<and> (\<forall>k bs. map_lookup (pl_map h) (pkt_payload (es_maps s)) k = Some bs \<longrightarrow> bs = replicate sizeof_Payload 0)"

section \<open>Facts about the checksum\<close>

lemma csum16_add_cases:
  "unat (csum16_add a b) =
    (if unat a + unat b < 65536 then unat a + unat b else unat a + unat b - 65535)"
proof -
  have lt: "unat a < 65536" "unat b < 65536" using unsigned_less [of a] unsigned_less [of b] by simp_all
  show ?thesis
  proof (cases "unat a + unat b < 65536")
    case True
    then have s: "unat (a + b) = unat a + unat b" by (simp add: unat_word_ariths(1))
    then have "\<not> a + b < b" by (simp add: word_less_nat_alt)
    then show ?thesis using True s by (simp add: csum16_add_def Let_def)
  next
    case False
    then have s: "unat (a + b) = unat a + unat b - 65536"
      using lt by (simp add: unat_word_ariths(1) mod_if)
    then have "a + b < b" using lt False by (simp add: word_less_nat_alt)
    moreover have "unat (a + b + 1) = unat a + unat b - 65535"
      using s lt False by (simp add: unat_word_ariths(1))
    ultimately show ?thesis using False by (simp add: csum16_add_def Let_def)
  qed
qed

lemma csum16_add_mod:
  "unat (csum16_add a b) mod 65535 = (unat a + unat b) mod 65535"
proof (cases "unat a + unat b < 65536")
  case False
  then have "unat a + unat b = 65535 + (unat a + unat b - 65535)" by simp
  then show ?thesis using False by (metis csum16_add_cases mod_add_self1)
qed (simp add: csum16_add_cases)

lemma unat_not16: "unat (NOT w :: u16) = 65535 - unat w"
proof -
  have max: "unat (- 1 :: u16) = 65535" by (simp add: unsigned_minus_1_eq_mask mask_eq_exp_minus_1)
  have "NOT w = - 1 - w" by (simp add: not_eq_complement)
  moreover have "w \<le> - 1" by (rule word_order.extremum)
  ultimately show ?thesis using max by (simp add: unat_sub)
qed

lemma csum_arith:
  fixes x a b c :: nat
  assumes "x mod 65535 = (a + (65535 - b) + c) mod 65535" and "b \<le> 65535"
  shows "(int x - (int a - int b + int c)) mod 65535 = 0"
proof -
  have "int x mod 65535 = int (a + (65535 - b) + c) mod 65535"
    using arg_cong [OF assms(1), of int] by (simp only: zmod_int of_nat_numeral)
  also have "int (a + (65535 - b) + c) = (int a - int b + int c) + 65535"
    using assms(2) by (simp add: of_nat_diff)
  finally have "int x mod 65535 = (int a - int b + int c) mod 65535" by simp
  then show ?thesis by (simp add: mod_eq_dvd_iff)
qed

section \<open>Facts about the transition system\<close>

lemma poll_times_snoc:
  "poll_times (evs @ [KernPkt now index pkt]) = poll_times evs"
  "poll_times (evs @ [UserPoll now]) = poll_times evs @ [now]"
  by (simp_all add: poll_times_def map_filter_def)

text \<open>What holds along a run: every stored payload came with a frame whose key it is stored under;
  the first \<open>es_next\<close> uids were logged, one poll after the other, each after a frame brought it;
  the rest of the log is untouched.\<close>

definition stored_ok ::
    "('t, 'p, 's) map_helpers \<Rightarrow> ebpf_event list \<Rightarrow> ('t, 'p, 's) ebpf_state \<Rightarrow> bool" where
  "stored_ok h evs s \<longleftrightarrow> (\<forall>k bs. map_lookup (pl_map h) (pkt_payload (es_maps s)) k = Some bs \<longrightarrow>
     bs = replicate sizeof_Payload 0 \<or> (\<exists>now index pkt. KernPkt now index pkt \<in> set evs
       \<and> load pkt 42 sizeof_Payload = Some bs \<and> load32 pkt 50 = Some k))"

definition logged_ok :: "log_table \<Rightarrow> ebpf_event list \<Rightarrow> ('t, 'p, 's) ebpf_state \<Rightarrow> bool" where
  "logged_ok lb0 evs s \<longleftrightarrow> wf_log (es_log s) \<and> unat (es_next s) \<le> MAX_LOG_ENTRY
     \<and> (\<exists>ts. length ts = unat (es_next s) \<and> subseq ts (poll_times evs)
          \<and> (\<forall>i < length ts. log_read (es_log s) i = Some (ts ! i) \<and> (\<exists>e \<in> set evs. brings e i)))
     \<and> (\<forall>i < MAX_LOG_ENTRY. unat (es_next s) \<le> i \<longrightarrow> log_read (es_log s) i = log_read lb0 i)"

lemma stored_key:
  assumes "load pkt 42 sizeof_Payload = Some bs" and "load32 pkt 50 = Some k"
  shows "k = ucast (pl_uid (Payload_of_bytes bs))"
proof -
  have bs: "bs = take sizeof_Payload (drop 42 pkt)" and len: "42 + sizeof_Payload \<le> length pkt"
    using assms(1) by (auto simp: load_def split: if_splits)
  have "k = word_of_le (take 4 (drop 50 pkt))"
    using assms(2) by (auto simp: load32_def load_def split: if_splits)
  also have "take 4 (drop 50 pkt) = take 4 (take 8 (drop 8 bs))"
    by (simp add: bs drop_take const_vals)
  also have "word_of_le \<dots> = (ucast (word_of_le (take 8 (drop 8 bs)) :: u64) :: u32)"
    using len by (intro word_of_le_low32) (simp add: bs const_vals)
  finally show ?thesis by (simp add: Payload_of_bytes_def)
qed

lemma stored_ok_frame:
  assumes "maps_declared h" and "maps_ok h (es_maps s)" and "stored_ok h evs s"
    and "xdp_sock_prog h now index pkt (es_maps s) = Some (action, maps)"
  shows "maps_ok h maps \<and> stored_ok h (evs @ [KernPkt now index pkt]) (s\<lparr>es_maps := maps\<rparr>)"
proof -
  from xdp_sock_prog_total [OF assms(1,2), of now index pkt] assms(4)
  have ok: "maps_ok h maps" and cases: "maps = es_maps s \<or>
      42 + sizeof_Payload \<le> length pkt \<and> record_packet h now index pkt (es_maps s) = Some maps"
    by auto
  from cases have "stored_ok h (evs @ [KernPkt now index pkt]) (s\<lparr>es_maps := maps\<rparr>)"
  proof
    assume "maps = es_maps s"
    then show ?thesis using assms(3) by (fastforce simp: stored_ok_def)
  next
    assume r: "42 + sizeof_Payload \<le> length pkt \<and> record_packet h now index pkt (es_maps s) = Some maps"
    then obtain key where key: "load32 pkt 50 = Some key" using load32_some [of 50 pkt] by (auto simp: const_vals)
    have "map_lookup (pl_map h) (pkt_payload maps) k = (if k = key \<and> unat key \<le> MAX_LOG_ENTRY
        then load pkt 42 sizeof_Payload else map_lookup (pl_map h) (pkt_payload (es_maps s)) k)" for k
      using record_packet_spec [OF assms(1,2) _ key, of now index] r by auto
    then show ?thesis using assms(3) key unfolding stored_ok_def by (fastforce split: if_splits)
  qed
  then show ?thesis using ok by blast
qed

lemma fetch_miss:
  "fetch_and_process_packet h maps now k lb = Some (False, lb') \<Longrightarrow> lb' = lb"
  by (auto simp: fetch_and_process_packet_def Let_def split: option.splits if_splits)

lemma fetch_total:
  "wf_log lb \<Longrightarrow> \<exists>hit lb'. fetch_and_process_packet h maps now k lb = Some (hit, lb')"
  using wf_log_write [of lb]
  by (fastforce simp: fetch_and_process_packet_def Let_def split: option.splits)

lemma valid_not_zero: "\<not> valid_payload (Payload_of_bytes (replicate sizeof_Payload 0))"
  by (simp add: valid_payload_def Payload_of_bytes_def const_vals eval_nat_numeral)

lemma fetch_hit:
  assumes "stored_ok h evs s" and "wf_log (es_log s)"
    and "fetch_and_process_packet h (es_maps s) now (es_next s) (es_log s) = Some (True, lb)"
  shows "unat (es_next s) < MAX_LOG_ENTRY \<and> wf_log lb \<and> (\<exists>e \<in> set evs. brings e (unat (es_next s)))
    \<and> (\<forall>i < MAX_LOG_ENTRY. log_read lb i = (if i = unat (es_next s) then Some now else log_read (es_log s) i))"
proof -
  from assms(3) obtain bs where bs: "map_lookup (pl_map h) (pkt_payload (es_maps s)) (es_next s) = Some bs"
    and v: "valid_payload (Payload_of_bytes bs)" and lt: "pl_uid (Payload_of_bytes bs) < of_nat MAX_LOG_ENTRY"
    and wr: "log_write (es_log s) (pl_uid (Payload_of_bytes bs)) now = Some lb"
    by (auto simp: fetch_and_process_packet_def Let_def split: option.splits if_splits)
  let ?uid = "pl_uid (Payload_of_bytes bs)"
  have "bs \<noteq> replicate sizeof_Payload 0" using v valid_not_zero by metis
  then obtain now' index pkt where ev: "KernPkt now' index pkt \<in> set evs"
    and ld: "load pkt 42 sizeof_Payload = Some bs" "load32 pkt 50 = Some (es_next s)"
    using assms(1) bs unfolding stored_ok_def by blast
  have uid: "unat ?uid < MAX_LOG_ENTRY" using lt by (simp add: uid_in_range)
  then have next_uid: "unat (es_next s) = unat ?uid"
    using stored_key [OF ld] by (simp add: unsigned_ucast_eq take_bit_nat_eq_self const_vals)
  have "brings (KernPkt now' index pkt) (unat ?uid)"
    using ld(1) v by (simp add: brings_def load_Payload_def)
  moreover have "wf_log lb" using wf_log_write [OF assms(2)] wr by (metis option.inject)
  moreover have "log_read lb i = (if unat ?uid = i then Some now else log_read (es_log s) i)"
    if "i < MAX_LOG_ENTRY" for i using lt.rd_wr [OF assms(2) wr that] .
  ultimately show ?thesis using uid next_uid ev by auto
qed

lemma logged_ok_later:
  assumes "logged_ok lb0 evs s" and "subseq (poll_times evs) (poll_times (evs @ [e]))"
  shows "logged_ok lb0 (evs @ [e]) s"
proof -
  obtain ts where ts: "length ts = unat (es_next s)" "subseq ts (poll_times evs)"
    "\<forall>i < length ts. log_read (es_log s) i = Some (ts ! i) \<and> (\<exists>e \<in> set evs. brings e i)"
    using assms(1) by (auto simp: logged_ok_def)
  have "subseq ts (poll_times (evs @ [e]))" using ts(2) assms(2) by (rule subseq_order.order_trans)
  then show ?thesis using assms(1) ts unfolding logged_ok_def by fastforce
qed

lemma logged_ok_hit:
  assumes "logged_ok lb0 evs s" and "stored_ok h evs s"
    and "fetch_and_process_packet h (es_maps s) now (es_next s) (es_log s) = Some (True, lb)"
  shows "logged_ok lb0 (evs @ [UserPoll now]) (s\<lparr>es_log := lb, es_next := es_next s + 1\<rparr>)"
proof -
  let ?n = "unat (es_next s)"
  obtain ts where ts: "length ts = ?n" "subseq ts (poll_times evs)"
    and each: "\<forall>i < length ts. log_read (es_log s) i = Some (ts ! i) \<and> (\<exists>e \<in> set evs. brings e i)"
    and rest: "\<forall>i < MAX_LOG_ENTRY. ?n \<le> i \<longrightarrow> log_read (es_log s) i = log_read lb0 i"
    and wf: "wf_log (es_log s)"
    using assms(1) by (auto simp: logged_ok_def)
  note hit = fetch_hit [OF assms(2) wf assms(3)]
  then have n: "?n < MAX_LOG_ENTRY" and log: "\<And>i. i < MAX_LOG_ENTRY \<Longrightarrow>
      log_read lb i = (if i = ?n then Some now else log_read (es_log s) i)" by auto
  have next_n: "unat (es_next s + 1) = Suc ?n"
    using n by (simp add: unat_word_ariths(1) const_vals)
  have "log_read lb i = Some ((ts @ [now]) ! i) \<and> (\<exists>e \<in> set (evs @ [UserPoll now]). brings e i)"
    if "i < length (ts @ [now])" for i
    using that each hit log [of i] ts(1) n by (cases "i = ?n") (auto simp: nth_append)
  moreover have "subseq (ts @ [now]) (poll_times (evs @ [UserPoll now]))"
    unfolding poll_times_snoc using ts(2) by (intro list_emb_append_mono) auto
  moreover have "log_read lb i = log_read lb0 i" if "i < MAX_LOG_ENTRY" "Suc ?n \<le> i" for i
    using that rest log [of i] by auto
  moreover have "wf_log lb" using hit by blast
  ultimately show ?thesis
    using n ts(1) next_n unfolding logged_ok_def
    by (intro conjI exI [of _ "ts @ [now]"]) (simp_all add: next_n)
qed

lemma ebpf_run_inv:
  assumes "ebpf_run h s0 evs s" and "maps_declared h" and "ebpf_start h s0"
  shows "maps_ok h (es_maps s) \<and> stored_ok h evs s \<and> logged_ok (es_log s0) evs s"
  using assms
proof (induction rule: ebpf_run.induct)
  case run_start
  then show ?case
    by (auto simp: ebpf_start_def stored_ok_def logged_ok_def)
next
  case (run_frame evs s now index pkt action maps)
  then have "logged_ok (es_log s0) (evs @ [KernPkt now index pkt]) s"
    by (intro logged_ok_later) (auto simp: poll_times_snoc)
  then show ?case
    using run_frame stored_ok_frame [OF run_frame.prems(1), of s evs now index pkt action maps]
    by (simp add: logged_ok_def)
next
  case (run_hit evs s now lb)
  then show ?case
    using logged_ok_hit [of "es_log s0" evs s h now lb] by (fastforce simp: stored_ok_def)
next
  case (run_miss evs s now lb)
  then have "logged_ok (es_log s0) (evs @ [UserPoll now]) s"
    by (intro logged_ok_later) (auto simp: poll_times_snoc)
  then show ?case
    using run_miss fetch_miss [OF run_miss.hyps(2)] by (fastforce simp: stored_ok_def logged_ok_def)
qed

lemma ebpf_run_exists:
  assumes "maps_declared h" and "ebpf_start h s0"
  shows "\<exists>s. ebpf_run h s0 evs s"
proof (induction evs rule: rev_induct)
  case Nil
  show ?case by (rule exI) (rule run_start)
next
  case (snoc e evs)
  then obtain s where run: "ebpf_run h s0 evs s" by blast
  note inv = ebpf_run_inv [OF run assms]
  show ?case
  proof (cases e)
    case (KernPkt now index pkt)
    then show ?thesis
      using xdp_sock_prog_total [OF assms(1), of "es_maps s" now index pkt] inv run_frame [OF run] by blast
  next
    case (UserPoll now)
    obtain hit lb where f: "fetch_and_process_packet h (es_maps s) now (es_next s) (es_log s) = Some (hit, lb)"
      using fetch_total inv unfolding logged_ok_def by blast
    show ?thesis
    proof (cases hit)
      case True
      then show ?thesis using run_hit [OF run, of now lb] f UserPoll by auto
    next
      case False
      then show ?thesis using run_miss [OF run, of now lb] f UserPoll by auto
    qed
  qed
qed

section \<open>Properties\<close>

text \<open>C14: The eBPF measurement as a whole. From zeroed maps, any interleaving of arriving frames
  (of any content) and polls of the user program runs without undefined behaviour in either
  program; afterwards the user log holds, for the first \<open>es_next\<close> uids, the times of polls in the
  order of the polls, each for a valid payload of that uid that a frame had brought, and every
  other entry of the log is untouched.\<close>

theorem ebpf_logs_in_order:
  assumes "maps_declared h" and "ebpf_start h s0"
  shows "(\<exists>s. ebpf_run h s0 evs s) \<and> (\<forall>s. ebpf_run h s0 evs s \<longrightarrow>
    (\<exists>ts. length ts = unat (es_next s) \<and> unat (es_next s) \<le> MAX_LOG_ENTRY \<and> subseq ts (poll_times evs)
      \<and> (\<forall>i < length ts. log_read (es_log s) i = Some (ts ! i) \<and> (\<exists>e \<in> set evs. brings e i))
      \<and> (\<forall>i < MAX_LOG_ENTRY. unat (es_next s) \<le> i \<longrightarrow> log_read (es_log s) i = log_read (es_log s0) i)))"
  using ebpf_run_exists [OF assms, of evs] ebpf_run_inv [OF _ assms, of evs]
  unfolding logged_ok_def by blast

definition sample_start :: "(u64 list, bytes list, u32 list) ebpf_state" where
  "sample_start = \<lparr>es_maps = zero_maps, es_log = zero_log, es_next = 0\<rparr>"

lemma sample_start_ok: "ebpf_start list_helpers sample_start"
proof -
  have "bs = replicate sizeof_Payload 0"
    if "map_lookup (pl_map list_helpers) (pkt_payload zero_maps) k = Some bs" for k bs
    using that by (simp add: list_helpers_def list_map_def zero_maps_def arr_get_def nth_Cons
        split: if_splits nat.splits)
  then show ?thesis
    using list_helpers_ok(2) wf_zero_log by (simp add: ebpf_start_def sample_start_def)
qed

theorem ebpf_logs_in_order_witness:
  "\<exists>s. ebpf_run list_helpers sample_start [KernPkt 1 0 [1, 2, 3], UserPoll 2] s
    \<and> unat (es_next s) \<le> MAX_LOG_ENTRY"
  using ebpf_logs_in_order [OF list_helpers_ok(1) sample_start_ok, of "[KernPkt 1 0 [1, 2, 3], UserPoll 2]"]
  by blast



text \<open>Updating an Internet checksum for a replaced 16-bit field is the update of the
  one's-complement sum: modulo 65535, the complement of the new checksum is the complement of
  the old one, less the old field, plus the new one.\<close>

lemma csum_replace2_incremental:
  "(int (unat (NOT (csum_replace2 s old new))) - (int (unat (NOT s)) - int (unat old) + int (unat new))) mod 65535 = 0"
proof -
  have "unat old < 2 ^ LENGTH(16)" by (rule unsigned_less)
  then have lt: "unat old \<le> 65535" by simp
  let ?t = "csum16_sub (NOT s) old"
  have "unat (csum16_add ?t new) mod 65535 = (unat ?t + unat new) mod 65535" by (rule csum16_add_mod)
  moreover have "unat ?t mod 65535 = (unat (NOT s) + (65535 - unat old)) mod 65535"
    unfolding csum16_sub_def by (simp only: csum16_add_mod unat_not16)
  ultimately have "unat (csum16_add ?t new) mod 65535 = (unat (NOT s) + (65535 - unat old) + unat new) mod 65535"
    by (metis mod_add_left_eq)
  then show ?thesis using lt by (simp only: csum_replace2_def bit.double_compl csum_arith)
qed

end
