(* ===== verification/Bpf_Object.thy ===== *)
theory Bpf_Object
  imports Base
begin

text \<open>
  The part of \<^verbatim>\<open>eBPF_app/libbpf/src/libbpf.c\<close> the loader of the measuring program uses: iteration
  over the programs and maps of a BPF object, lookup by name, file descriptors, reuse of a
  pinned map, and \<^verbatim>\<open>bpf_prog_load_xattr\<close>. Pointers into the arrays of an object are indices.
  Opening an ELF file and loading an object into the kernel are arguments.
\<close>

definition BPF_PROG_TYPE_UNSPEC :: nat where "BPF_PROG_TYPE_UNSPEC = 0"
definition BPF_PROG_TYPE_XDP :: nat where "BPF_PROG_TYPE_XDP = 6"
definition BPF_MAP_TYPE_PERF_EVENT_ARRAY :: nat where "BPF_MAP_TYPE_PERF_EVENT_ARRAY = 4"

text \<open>\<open>bp_text\<close>: the program is the text section of an object with calls between programs, which
  the iterators skip.\<close>

record bpf_program =
  bp_section :: string
  bp_text :: bool
  bp_type :: nat
  bp_attach_type :: nat
  bp_ifindex :: u32
  bp_log_level :: int
  bp_flags :: u32
  bp_fds :: "int list"

record map_def =
  md_type :: nat
  md_key_size :: u32
  md_value_size :: u32
  md_max_entries :: u32
  md_flags :: u32

record bpf_map_obj =
  bm_name :: string
  bm_fd :: int
  bm_def :: map_def
  bm_key_type_id :: u32
  bm_value_type_id :: u32
  bm_ifindex :: u32
  bm_reused :: bool

record bpf_object =
  bo_programs :: "bpf_program list"
  bo_maps :: "bpf_map_obj list"

section \<open>Programs\<close>

definition bpf_program__iter :: "nat option \<Rightarrow> bpf_object \<Rightarrow> bool \<Rightarrow> nat option" where
  "bpf_program__iter p obj forward =
     (let nr_programs = length (bo_programs obj) in
      if nr_programs = 0 then None
      else (case p of
              None \<Rightarrow> Some (if forward then 0 else nr_programs - 1)
            | Some i \<Rightarrow>
                let idx = int i + (if forward then 1 else -1)
                in if int nr_programs \<le> idx \<or> idx < 0 then None else Some (nat idx)))"

text \<open>The loop that skips function storage; it ends because the index only moves forward.\<close>

function bpf_program__next_from :: "nat option \<Rightarrow> bpf_object \<Rightarrow> nat option" where
  "bpf_program__next_from prev obj =
     (case bpf_program__iter prev obj True of
        None \<Rightarrow> None
      | Some i \<Rightarrow> if bp_text (bo_programs obj ! i) then bpf_program__next_from (Some i) obj else Some i)"
  by pat_completeness auto
termination
  by (relation "measure (\<lambda>(prev, obj). case prev of None \<Rightarrow> Suc (length (bo_programs obj))
      | Some i \<Rightarrow> length (bo_programs obj) - i)")
    (auto simp: bpf_program__iter_def Let_def split: option.splits if_splits)

declare bpf_program__next_from.simps [simp del]

definition bpf_program__next :: "nat option \<Rightarrow> bpf_object \<Rightarrow> nat option" where
  "bpf_program__next prev obj = bpf_program__next_from prev obj"

lemma bpf_program__iter_forward:
  "bpf_program__iter prev obj True = Some i \<Longrightarrow>
    i < length (bo_programs obj) \<and> i = (case prev of None \<Rightarrow> 0 | Some j \<Rightarrow> Suc j)"
  by (auto simp: bpf_program__iter_def Let_def split: option.splits if_splits)

lemma bpf_program__next_forward:
  "bpf_program__next prev obj = Some i \<Longrightarrow>
    i < length (bo_programs obj) \<and> (case prev of None \<Rightarrow> True | Some j \<Rightarrow> j < i)"
  unfolding bpf_program__next_def
proof (induction prev obj rule: bpf_program__next_from.induct)
  case (1 prev obj)
  obtain k where k: "bpf_program__iter prev obj True = Some k"
    using "1.prems" by (auto simp: bpf_program__next_from.simps [of prev obj] split: option.splits)
  note fw = bpf_program__iter_forward [OF k]
  show ?case
  proof (cases "bp_text (bo_programs obj ! k)")
    case True
    then have "bpf_program__next_from (Some k) obj = Some i"
      using "1.prems" k by (simp add: bpf_program__next_from.simps [of prev obj])
    from "1.IH" [OF k True this] show ?thesis using fw by (auto split: option.splits)
  next
    case False
    then have "i = k" using "1.prems" k by (simp add: bpf_program__next_from.simps [of prev obj])
    then show ?thesis using fw by (auto split: option.splits)
  qed
qed

text \<open>\<^verbatim>\<open>bpf_object__for_each_program\<close>: the indices the loop visits.\<close>

function for_each_program :: "nat option \<Rightarrow> bpf_object \<Rightarrow> nat list" where
  "for_each_program prev obj =
     (case bpf_program__next prev obj of
        None \<Rightarrow> []
      | Some i \<Rightarrow> i # for_each_program (Some i) obj)"
  by pat_completeness auto
termination
  by (relation "measure (\<lambda>(prev, obj). case prev of None \<Rightarrow> Suc (length (bo_programs obj))
      | Some i \<Rightarrow> length (bo_programs obj) - i)")
    (auto dest!: bpf_program__next_forward split: option.splits)

declare for_each_program.simps [simp del]

definition bpf_object__find_program_by_title :: "bpf_object \<Rightarrow> string \<Rightarrow> nat option" where
  "bpf_object__find_program_by_title obj title =
     find (\<lambda>i. bp_section (bo_programs obj ! i) = title) (for_each_program None obj)"

definition bpf_program__nth_fd :: "bpf_program option \<Rightarrow> int \<Rightarrow> int" where
  "bpf_program__nth_fd prog n = (case prog of
     None \<Rightarrow> - EINVAL
   | Some p \<Rightarrow>
       if int (length (bp_fds p)) \<le> n \<or> n < 0 then - EINVAL
       else (let fd = bp_fds p ! nat n in if fd < 0 then - ENOENT else fd))"

definition bpf_program__fd :: "bpf_program option \<Rightarrow> int" where
  "bpf_program__fd prog = bpf_program__nth_fd prog 0"

definition bpf_program__set_ifindex :: "u32 \<Rightarrow> bpf_program \<Rightarrow> bpf_program" where
  "bpf_program__set_ifindex ifi p = p\<lparr>bp_ifindex := ifi\<rparr>"

definition bpf_program__set_type :: "nat \<Rightarrow> bpf_program \<Rightarrow> bpf_program" where
  "bpf_program__set_type t p = p\<lparr>bp_type := t\<rparr>"

section \<open>Maps\<close>

definition bpf_map__fd :: "bpf_map_obj option \<Rightarrow> int" where
  "bpf_map__fd m = (case m of None \<Rightarrow> - EINVAL | Some m \<Rightarrow> bm_fd m)"

definition bpf_map__is_offload_neutral :: "bpf_map_obj \<Rightarrow> bool" where
  "bpf_map__is_offload_neutral m \<longleftrightarrow> md_type (bm_def m) = BPF_MAP_TYPE_PERF_EVENT_ARRAY"

definition bpf_map__set_ifindex :: "u32 \<Rightarrow> bpf_map_obj \<Rightarrow> bpf_map_obj" where
  "bpf_map__set_ifindex ifi m = m\<lparr>bm_ifindex := ifi\<rparr>"

definition bpf_object__find_map_by_name :: "bpf_object \<Rightarrow> string \<Rightarrow> bpf_map_obj option" where
  "bpf_object__find_map_by_name obj name = find (\<lambda>m. bm_name m = name) (bo_maps obj)"

definition bpf_object__find_map_fd_by_name :: "bpf_object \<Rightarrow> string \<Rightarrow> int" where
  "bpf_object__find_map_fd_by_name obj name = bpf_map__fd (bpf_object__find_map_by_name obj name)"

text \<open>\<^verbatim>\<open>bpf_map__reuse_fd\<close>, with the results of the system calls: the information about the file
  descriptor or an error, whether \<^verbatim>\<open>strdup\<close> succeeds, the results of \<^verbatim>\<open>open\<close>, \<^verbatim>\<open>dup3\<close> and of closing
  the old descriptor, and \<^verbatim>\<open>errno\<close>. The macro \<^verbatim>\<open>zclose\<close> sets the old descriptor to -1 also when
  closing fails.\<close>

record map_info =
  mi_name :: string
  mi_def :: map_def
  mi_key_type_id :: u32
  mi_value_type_id :: u32

record reuse_env =
  re_info :: "int \<Rightarrow> int + map_info"
  re_strdup :: bool
  re_open :: int
  re_dup3 :: int
  re_close :: int
  re_errno :: int

definition bpf_map__reuse_fd :: "reuse_env \<Rightarrow> int \<Rightarrow> bpf_map_obj \<Rightarrow> int \<times> bpf_map_obj" where
  "bpf_map__reuse_fd env fd m = (case re_info env fd of
     Inl err \<Rightarrow> (err, m)
   | Inr info \<Rightarrow>
       if \<not> re_strdup env then (- re_errno env, m)
       else if re_open env < 0 then (- re_errno env, m)
       else if re_dup3 env < 0 then (- re_errno env, m)
       else if bm_fd m \<ge> 0 \<and> re_close env \<noteq> 0 then (- re_errno env, m\<lparr>bm_fd := -1\<rparr>)
       else (0, m\<lparr>bm_fd := re_dup3 env, bm_name := mi_name info, bm_def := mi_def info,
                  bm_key_type_id := mi_key_type_id info, bm_value_type_id := mi_value_type_id info,
                  bm_reused := True\<rparr>))"

section \<open>Loading a file\<close>

record load_attr =
  la_file :: "string option"
  la_prog_type :: nat
  la_attach_type :: nat
  la_ifindex :: u32
  la_log_level :: int
  la_flags :: u32

text \<open>The loop over the programs: \<open>Inl\<close> when one has no type, otherwise the updated programs.\<close>

fun load_set_programs :: "load_attr \<Rightarrow> bpf_program list \<Rightarrow> int + bpf_program list" where
  "load_set_programs attr [] = Inr []"
| "load_set_programs attr (p # ps) =
     (if bp_text p then (case load_set_programs attr ps of Inl e \<Rightarrow> Inl e | Inr ps \<Rightarrow> Inr (p # ps))
      else
        (let p = (if la_prog_type attr \<noteq> BPF_PROG_TYPE_UNSPEC
                  then p\<lparr>bp_type := la_prog_type attr, bp_attach_type := la_attach_type attr\<rparr> else p)
         in if bp_type p = BPF_PROG_TYPE_UNSPEC then Inl (- EINVAL)
            else (case load_set_programs attr ps of Inl e \<Rightarrow> Inl e
                  | Inr ps \<Rightarrow> Inr (p\<lparr>bp_ifindex := la_ifindex attr, bp_log_level := la_log_level attr,
                                     bp_flags := la_flags attr\<rparr> # ps))))"

definition load_set_maps :: "u32 \<Rightarrow> bpf_map_obj list \<Rightarrow> bpf_map_obj list" where
  "load_set_maps ifi ms =
     map (\<lambda>m. if \<not> bpf_map__is_offload_neutral m then bpf_map__set_ifindex ifi m else m) ms"

text \<open>\<open>opened\<close> is what \<^verbatim>\<open>bpf_object__open_xattr\<close> gives, \<open>load_obj\<close> is \<^verbatim>\<open>bpf_object__load\<close>. The result is the
  return value and, on success, the object and the file descriptor of its first program.\<close>

definition bpf_prog_load_xattr ::
    "bpf_object option \<Rightarrow> (bpf_object \<Rightarrow> int \<times> bpf_object) \<Rightarrow> load_attr \<Rightarrow> int \<times> (bpf_object \<times> int) option" where
  "bpf_prog_load_xattr opened load_obj attr =
     (if la_file attr = None then (- EINVAL, None)
      else (case opened of
              None \<Rightarrow> (- ENOENT, None)
            | Some obj \<Rightarrow> (case load_set_programs attr (bo_programs obj) of
                Inl e \<Rightarrow> (e, None)
              | Inr ps \<Rightarrow>
                  let first_prog = bpf_program__next None obj;
                      obj = obj\<lparr>bo_programs := ps, bo_maps := load_set_maps (la_ifindex attr) (bo_maps obj)\<rparr>
                  in (case first_prog of
                        None \<Rightarrow> (- ENOENT, None)
                      | Some i \<Rightarrow>
                          let (err, obj) = load_obj obj
                          in if err \<noteq> 0 then (- EINVAL, None)
                             else (0, Some (obj, bpf_program__fd (Some (bo_programs obj ! i))))))))"

section \<open>Facts about the iteration\<close>

text \<open>The programs a loop can still visit, from an index on.\<close>

definition progs_from :: "nat \<Rightarrow> bpf_object \<Rightarrow> nat list" where
  "progs_from k obj = filter (\<lambda>i. \<not> bp_text (bo_programs obj ! i)) [k..<length (bo_programs obj)]"

definition start_of :: "nat option \<Rightarrow> nat" where
  "start_of prev = (case prev of None \<Rightarrow> 0 | Some j \<Rightarrow> Suc j)"

lemma iter_forward_eq:
  "bpf_program__iter prev obj True =
    (if start_of prev < length (bo_programs obj) then Some (start_of prev) else None)"
  by (auto simp: bpf_program__iter_def Let_def start_of_def nat_add_distrib split: option.splits)

lemma progs_from_step:
  "k < length (bo_programs obj) \<Longrightarrow> progs_from k obj =
    (if bp_text (bo_programs obj ! k) then progs_from (Suc k) obj else k # progs_from (Suc k) obj)"
  by (simp add: progs_from_def upt_conv_Cons)

lemma next_from_eq:
  "bpf_program__next_from prev obj = (case progs_from (start_of prev) obj of [] \<Rightarrow> None | i # _ \<Rightarrow> Some i)"
proof (induction prev obj rule: bpf_program__next_from.induct)
  case (1 prev obj)
  let ?k = "start_of prev"
  show ?case
  proof (cases "?k < length (bo_programs obj)")
    case True
    have "start_of (Some ?k) = Suc ?k" by (simp add: start_of_def)
    then show ?thesis
      using 1 True progs_from_step [OF True]
      by (simp add: bpf_program__next_from.simps [of prev obj] iter_forward_eq)
  next
    case False
    then show ?thesis
      by (simp add: bpf_program__next_from.simps [of prev obj] iter_forward_eq progs_from_def)
  qed
qed

lemma progs_from_tail:
  "progs_from k obj = i # is \<Longrightarrow> is = progs_from (Suc i) obj"
proof (induction "length (bo_programs obj) - k" arbitrary: k)
  case 0
  then show ?case by (simp add: progs_from_def)
next
  case (Suc n)
  then have k: "k < length (bo_programs obj)" by simp
  show ?case
    using Suc.hyps(1) [of "Suc k"] Suc.hyps(2) Suc.prems progs_from_step [OF k]
    by (cases "bp_text (bo_programs obj ! k)") auto
qed

lemma for_each_program_from: "for_each_program prev obj = progs_from (start_of prev) obj"
proof (induction prev obj rule: for_each_program.induct)
  case (1 prev obj)
  show ?case
  proof (cases "progs_from (start_of prev) obj")
    case Nil
    then show ?thesis
      by (simp add: for_each_program.simps [of prev obj] bpf_program__next_def next_from_eq)
  next
    case (Cons i "is")
    then have next_i: "bpf_program__next prev obj = Some i"
      by (simp add: bpf_program__next_def next_from_eq)
    have "for_each_program (Some i) obj = is"
      using "1.IH" [OF next_i] progs_from_tail [OF Cons] by (simp add: start_of_def)
    then show ?thesis using Cons next_i by (simp add: for_each_program.simps [of prev obj])
  qed
qed

section \<open>Properties\<close>

text \<open>C40: The program iterator of libbpf ends and visits every program of the object exactly once
  and in order, except function storage, which it skips.\<close>

theorem for_each_program_complete:
  "for_each_program None obj
    = filter (\<lambda>i. \<not> bp_text (bo_programs obj ! i)) [0..<length (bo_programs obj)]"
  by (simp add: for_each_program_from start_of_def progs_from_def)

end
