(* ===== verification/Params.thy ===== *)
theory Params
  imports Base
begin

text \<open>
  \<^verbatim>\<open>eBPF_app/common/common_params.c\<close> and \<^verbatim>\<open>common_defines.h\<close>: the configuration of the measuring
  program, its command line and its usage message. What \<^verbatim>\<open>getopt_long\<close> returns is an argument:
  the list of option codes with their arguments.
\<close>

section \<open>Configuration\<close>

definition IF_NAMESIZE :: nat where "IF_NAMESIZE = 16"
definition EXIT_OK :: int where "EXIT_OK = 0"
definition EXIT_FAIL :: int where "EXIT_FAIL = 1"
definition EXIT_FAIL_OPTION :: int where "EXIT_FAIL_OPTION = 2"
definition EXIT_FAIL_XDP :: int where "EXIT_FAIL_XDP = 30"
definition EXIT_FAIL_BPF :: int where "EXIT_FAIL_BPF = 40"

definition XDP_FLAGS_UPDATE_IF_NOEXIST :: u32 where "XDP_FLAGS_UPDATE_IF_NOEXIST = 1"
definition XDP_FLAGS_SKB_MODE :: u32 where "XDP_FLAGS_SKB_MODE = 2"
definition XDP_FLAGS_DRV_MODE :: u32 where "XDP_FLAGS_DRV_MODE = 4"
definition XDP_FLAGS_HW_MODE :: u32 where "XDP_FLAGS_HW_MODE = 8"
definition XDP_FLAGS_MODES :: u32 where "XDP_FLAGS_MODES = 14"
definition XDP_COPY :: u16 where "XDP_COPY = 2"
definition XDP_ZEROCOPY :: u16 where "XDP_ZEROCOPY = 4"

lemmas xdp_flag_defs = XDP_FLAGS_UPDATE_IF_NOEXIST_def XDP_FLAGS_SKB_MODE_def XDP_FLAGS_DRV_MODE_def
  XDP_FLAGS_HW_MODE_def XDP_FLAGS_MODES_def XDP_COPY_def XDP_ZEROCOPY_def

text \<open>The character arrays of the structure are strings of their fixed length.\<close>

record config =
  xdp_flags :: u32
  ifindex :: int
  ifname_buf :: string
  redirect_ifindex :: int
  redirect_ifname_buf :: string
  do_unload :: bool
  reuse_maps_flag :: bool
  pin_dir :: string
  filename :: string
  progsec :: string
  src_mac :: string
  dest_mac :: string
  xsk_bind_flags :: u16
  xsk_if_queue :: int
  xsk_poll_mode :: bool

text \<open>\<^verbatim>\<open>strncpy(dest, src, n)\<close> fills all \<open>n\<close> characters: it cuts a longer source without a
  terminator and pads a shorter one with null characters. Reading an array as a C string needs a
  terminator inside it.\<close>

definition c_strncpy :: "nat \<Rightarrow> string \<Rightarrow> string" where
  "c_strncpy n s = take n s @ replicate (n - length s) (CHR 0x00)"

definition c_string :: "string \<Rightarrow> string option" where
  "c_string buf = (if CHR 0x00 \<in> set buf then Some (takeWhile (\<lambda>c. c \<noteq> CHR 0x00) buf) else None)"

definition c_digit :: "char \<Rightarrow> bool" where
  "c_digit c \<longleftrightarrow> CHR ''0'' = c \<or> c \<in> set ''123456789''"

definition c_atoi :: "string \<Rightarrow> int" where
  "c_atoi s = (let s = dropWhile (\<lambda>c. c = CHR '' '') s in
     case s of [] \<Rightarrow> 0
     | c # cs \<Rightarrow> if c = CHR ''-'' then - int (dec_value (takeWhile c_digit cs))
                 else if c = CHR ''+'' then int (dec_value (takeWhile c_digit cs))
                 else int (dec_value (takeWhile c_digit s)))"

section \<open>The table of options\<close>

record option_wrapper =
  ow_name :: "string option"
  ow_has_arg :: bool
  ow_val :: nat
  ow_help :: string
  ow_metavar :: "string option"
  ow_required :: bool

definition BUFSIZE :: nat where "BUFSIZE = 30"

text \<open>One line of the usage message. \<^verbatim>\<open>snprintf\<close> returns the length it would have written, which
  is used as an index into the 30-character buffer without a check.\<close>

definition print_option :: "option_wrapper \<Rightarrow> string \<Rightarrow> string option" where
  "print_option ow name = do {
     let short = (if ow_val ow > 64 then '' -'' @ [char_of (ow_val ow)] @ '','' else ''    '');
     let text = '' --'' @ name;
     let pos = length text;
     let buf = take (BUFSIZE - 1) text;
     buf \<leftarrow> (case ow_metavar ow of
               None \<Rightarrow> Some buf
             | Some mv \<Rightarrow> if pos \<le> BUFSIZE then Some (buf @ take (BUFSIZE - pos - 1) ('' '' @ mv)) else None);
     Some (short @ buf @ replicate (22 - length buf) (CHR '' '') @ ''  '' @ ow_help ow @ [CHR 0x0A])
   }"

text \<open>The loop ends at the entry without a name; running off the table is undefined.\<close>

fun print_option_list :: "option_wrapper list \<Rightarrow> bool \<Rightarrow> string option" where
  "print_option_list [] required = None"
| "print_option_list (ow # ows) required = (case ow_name ow of
     None \<Rightarrow> Some []
   | Some name \<Rightarrow>
       if ow_required ow \<noteq> required then print_option_list ows required
       else do {
         line \<leftarrow> print_option ow name;
         rest \<leftarrow> print_option_list ows required;
         Some (line @ rest)
       })"

definition usage :: "string \<Rightarrow> string \<Rightarrow> option_wrapper list \<Rightarrow> bool \<Rightarrow> string option" where
  "usage prog_name doc ows full = do {
     let head = ''Usage: '' @ prog_name @ '' [options]'' @ [CHR 0x0A];
     if \<not> full then Some (head @ ''Use --help (or -h) to see full option list.'' @ [CHR 0x0A])
     else do {
       req \<leftarrow> print_option_list ows True;
       other \<leftarrow> print_option_list ows False;
       Some (head @ [CHR 0x0A] @ ''DOCUMENTATION:'' @ [CHR 0x0A] @ '' '' @ doc @ [CHR 0x0A]
         @ ''Required options:'' @ [CHR 0x0A] @ req @ [CHR 0x0A]
         @ ''Other options:'' @ [CHR 0x0A] @ other @ [CHR 0x0A])
     }
   }"

text \<open>\<^verbatim>\<open>option_wrappers_to_options\<close>: the entries before the one without a name are copied into a
  block of exactly that many; \<open>malloc_ok\<close> is whether \<^verbatim>\<open>malloc\<close> succeeds. \<open>Inl\<close> is the return
  value -1.\<close>

definition option_wrappers_to_options ::
    "bool \<Rightarrow> option_wrapper list \<Rightarrow> (int + option_wrapper list) option" where
  "option_wrappers_to_options malloc_ok ows =
     (let named = takeWhile (\<lambda>ow. ow_name ow \<noteq> None) ows
      in if length named = length ows then None
         else if \<not> malloc_ok then Some (Inl (-1))
         else Some (Inr (take (length named) ows)))"

section \<open>The command line\<close>

datatype opt_code = OptChar char | OptFilename | OptProgsec | OptOffload

text \<open>\<open>Inl\<close> is the jump to the error label, with the help flag.\<close>

type_synonym opt_result = "bool + config \<times> bool"

definition set_mode :: "u32 \<Rightarrow> config \<Rightarrow> config" where
  "set_mode m cfg = cfg\<lparr>xdp_flags := (xdp_flags cfg AND NOT XDP_FLAGS_MODES) OR m\<rparr>"

definition bind_copy :: "config \<Rightarrow> config" where
  "bind_copy cfg = cfg\<lparr>xsk_bind_flags := (xsk_bind_flags cfg AND XDP_ZEROCOPY) OR XDP_COPY\<rparr>"

definition bind_zerocopy :: "config \<Rightarrow> config" where
  "bind_zerocopy cfg = cfg\<lparr>xsk_bind_flags := (xsk_bind_flags cfg AND XDP_COPY) OR XDP_ZEROCOPY\<rparr>"

definition parse_char ::
    "(string \<Rightarrow> int) \<Rightarrow> char \<Rightarrow> string \<Rightarrow> config \<Rightarrow> bool \<Rightarrow> opt_result" where
  "parse_char if_nametoindex c optarg cfg verbose =
     (if c = CHR ''d'' then
        (if IF_NAMESIZE \<le> length optarg then Inl False
         else let cfg = cfg\<lparr>ifname_buf := c_strncpy IF_NAMESIZE optarg, ifindex := if_nametoindex optarg\<rparr>
              in if ifindex cfg = 0 then Inl False else Inr (cfg, verbose))
      else if c = CHR ''r'' then
        (if IF_NAMESIZE \<le> length optarg then Inl False
         else let cfg = cfg\<lparr>redirect_ifname_buf := c_strncpy IF_NAMESIZE optarg,
                            redirect_ifindex := if_nametoindex optarg\<rparr>
              in if redirect_ifindex cfg = 0 then Inl False else Inr (cfg, verbose))
      else if c = CHR ''A'' then Inr (set_mode 0 cfg, verbose)
      else if c = CHR ''S'' then Inr (bind_copy (set_mode XDP_FLAGS_SKB_MODE cfg), verbose)
      else if c = CHR ''N'' then Inr (set_mode XDP_FLAGS_DRV_MODE cfg, verbose)
      else if c = CHR ''F'' then
        Inr (cfg\<lparr>xdp_flags := xdp_flags cfg AND NOT XDP_FLAGS_UPDATE_IF_NOEXIST\<rparr>, verbose)
      else if c = CHR ''M'' then Inr (cfg\<lparr>reuse_maps_flag := True\<rparr>, verbose)
      else if c = CHR ''U'' then Inr (cfg\<lparr>do_unload := True\<rparr>, verbose)
      else if c = CHR ''p'' then Inr (cfg\<lparr>xsk_poll_mode := True\<rparr>, verbose)
      else if c = CHR ''q'' then Inr (cfg, False)
      else if c = CHR ''Q'' then Inr (cfg\<lparr>xsk_if_queue := c_atoi optarg\<rparr>, verbose)
      else if c = CHR ''L'' then Inr (cfg\<lparr>src_mac := c_strncpy 18 optarg\<rparr>, verbose)
      else if c = CHR ''R'' then Inr (cfg\<lparr>dest_mac := c_strncpy 18 optarg\<rparr>, verbose)
      else if c = CHR ''c'' then Inr (bind_copy cfg, verbose)
      else if c = CHR ''z'' then Inr (bind_zerocopy cfg, verbose)
      else if c = CHR ''h'' then Inl True
      else Inl False)"

definition parse_opt ::
    "(string \<Rightarrow> int) \<Rightarrow> opt_code \<Rightarrow> string \<Rightarrow> config \<Rightarrow> bool \<Rightarrow> opt_result" where
  "parse_opt if_nametoindex opt optarg cfg verbose = (case opt of
     OptOffload \<Rightarrow> Inr (set_mode XDP_FLAGS_HW_MODE cfg, verbose)
   | OptFilename \<Rightarrow> Inr (cfg\<lparr>filename := c_strncpy 512 optarg\<rparr>, verbose)
   | OptProgsec \<Rightarrow> Inr (cfg\<lparr>progsec := c_strncpy 32 optarg\<rparr>, verbose)
   | OptChar c \<Rightarrow> parse_char if_nametoindex c optarg cfg verbose)"

text \<open>The loop over what \<^verbatim>\<open>getopt_long\<close> returns, and the function: it returns the configuration or
  the process exits with a code.\<close>

fun parse_opts ::
    "(string \<Rightarrow> int) \<Rightarrow> (opt_code \<times> string) list \<Rightarrow> config \<Rightarrow> bool \<Rightarrow> opt_result" where
  "parse_opts nti [] cfg verbose = Inr (cfg, verbose)"
| "parse_opts nti ((opt, optarg) # rest) cfg verbose = (case parse_opt nti opt optarg cfg verbose of
     Inl full_help \<Rightarrow> Inl full_help
   | Inr (cfg, verbose) \<Rightarrow> parse_opts nti rest cfg verbose)"

definition parse_cmdline_args ::
    "bool \<Rightarrow> (string \<Rightarrow> int) \<Rightarrow> option_wrapper list \<Rightarrow> (opt_code \<times> string) list \<Rightarrow> string \<Rightarrow> string
     \<Rightarrow> config \<Rightarrow> (int + config \<times> bool) option" where
  "parse_cmdline_args malloc_ok if_nametoindex ows opts prog_name doc cfg = do {
     lo \<leftarrow> option_wrappers_to_options malloc_ok ows;
     case lo of
       Inl e \<Rightarrow> Some (Inl EXIT_FAIL_OPTION)
     | Inr long_options \<Rightarrow> (case parse_opts if_nametoindex opts cfg True of
         Inr (cfg, verbose) \<Rightarrow> Some (Inr (cfg, verbose))
       | Inl full_help \<Rightarrow> do {
           msg \<leftarrow> usage prog_name doc ows full_help;
           Some (Inl EXIT_FAIL_OPTION) })
   }"

section \<open>Facts\<close>

lemma length_c_strncpy [simp]: "length (c_strncpy n s) = n"
  by (simp add: c_strncpy_def min_def)

lemma c_string_strncpy:
  assumes "CHR 0x00 \<notin> set s"
  shows "c_string (c_strncpy n s) = (if length s < n then Some s else None)"
proof (cases "length s < n")
  case True
  then obtain m where m: "n - length s = Suc m" by (cases "n - length s") auto
  have "takeWhile (\<lambda>c. c \<noteq> CHR 0x00) (s @ CHR 0x00 # replicate m (CHR 0x00)) = s"
    using assms by (subst takeWhile_append2) auto
  then show ?thesis using True m by (simp add: c_string_def c_strncpy_def)
next
  case False
  then show ?thesis using assms by (auto simp: c_string_def c_strncpy_def dest: in_set_takeD)
qed

text \<open>What every option keeps: the sizes of the character arrays, at most one mode flag, an
  interface index that names an interface, terminated interface names.\<close>

definition one_mode :: "u32 \<Rightarrow> bool" where
  "one_mode flags \<longleftrightarrow> flags AND XDP_FLAGS_MODES
     \<in> {0, XDP_FLAGS_SKB_MODE, XDP_FLAGS_DRV_MODE, XDP_FLAGS_HW_MODE}"

definition wf_config :: "config \<Rightarrow> bool" where
  "wf_config cfg \<longleftrightarrow> length (ifname_buf cfg) = IF_NAMESIZE \<and> length (redirect_ifname_buf cfg) = IF_NAMESIZE
     \<and> length (filename cfg) = 512 \<and> length (progsec cfg) = 32
     \<and> length (src_mac cfg) = 18 \<and> length (dest_mac cfg) = 18
     \<and> one_mode (xdp_flags cfg) \<and> ifindex cfg \<noteq> 0"

lemma mode_bits:
  "(f AND NOT XDP_FLAGS_MODES OR m) AND XDP_FLAGS_MODES = m AND XDP_FLAGS_MODES"
  "(f AND NOT XDP_FLAGS_UPDATE_IF_NOEXIST) AND XDP_FLAGS_MODES = f AND XDP_FLAGS_MODES"
proof -
  show "(f AND NOT XDP_FLAGS_MODES OR m) AND XDP_FLAGS_MODES = m AND XDP_FLAGS_MODES"
    by (rule bit_word_eqI) (auto simp: bit_simps)
  have "XDP_FLAGS_MODES AND NOT XDP_FLAGS_UPDATE_IF_NOEXIST = XDP_FLAGS_MODES"
    by code_simp
  then show "(f AND NOT XDP_FLAGS_UPDATE_IF_NOEXIST) AND XDP_FLAGS_MODES = f AND XDP_FLAGS_MODES"
    by (metis and.assoc and.commute)
qed

lemma no_mode_bits: "(f AND NOT XDP_FLAGS_MODES) AND XDP_FLAGS_MODES = 0"
  by (rule bit_word_eqI) (auto simp: bit_simps)

lemma modes_fixed:
  "0 AND XDP_FLAGS_MODES = 0" "XDP_FLAGS_SKB_MODE AND XDP_FLAGS_MODES = XDP_FLAGS_SKB_MODE"
  "XDP_FLAGS_DRV_MODE AND XDP_FLAGS_MODES = XDP_FLAGS_DRV_MODE"
  "XDP_FLAGS_HW_MODE AND XDP_FLAGS_MODES = XDP_FLAGS_HW_MODE"
  by (simp_all add: xdp_flag_defs)

lemma wf_set_mode:
  "wf_config cfg \<Longrightarrow> m \<in> {0, XDP_FLAGS_SKB_MODE, XDP_FLAGS_DRV_MODE, XDP_FLAGS_HW_MODE} \<Longrightarrow>
    wf_config (set_mode m cfg)"
  by (auto simp: wf_config_def set_mode_def one_mode_def mode_bits modes_fixed)

lemma wf_bind [simp]: "wf_config (bind_copy cfg) = wf_config cfg" "wf_config (bind_zerocopy cfg) = wf_config cfg"
  by (simp_all add: wf_config_def bind_copy_def bind_zerocopy_def)

text \<open>The options one by one: the result of an option is an error or a well-formed
  configuration.\<close>

definition keeps_wf :: "opt_result \<Rightarrow> bool" where
  "keeps_wf r = (case r of Inl _ \<Rightarrow> True | Inr (cfg, v) \<Rightarrow> wf_config cfg)"

lemma keeps_wf_simps [simp]: "keeps_wf (Inl e)" "keeps_wf (Inr (cfg, v)) = wf_config cfg"
  by (simp_all add: keeps_wf_def)

lemma keeps_wf_if: "(b \<Longrightarrow> keeps_wf x) \<Longrightarrow> (\<not> b \<Longrightarrow> keeps_wf y) \<Longrightarrow> keeps_wf (if b then x else y)"
  by simp

lemma wf_parse_char:
  assumes "wf_config cfg"
  shows "keeps_wf (parse_char nti c optarg cfg v)"
  unfolding parse_char_def Let_def
  by (intro keeps_wf_if)
    (use assms in \<open>simp_all add: wf_config_def set_mode_def bind_copy_def bind_zerocopy_def
      one_mode_def mode_bits no_mode_bits modes_fixed\<close>)

lemma wf_parse_opt:
  assumes "wf_config cfg"
  shows "keeps_wf (parse_opt nti opt optarg cfg v)"
proof (cases opt)
  case (OptChar c)
  then show ?thesis using wf_parse_char [OF assms] by (simp add: parse_opt_def)
next
  case OptOffload
  then show ?thesis using wf_set_mode [OF assms] by (simp add: parse_opt_def)
qed (use assms in \<open>simp_all add: parse_opt_def wf_config_def\<close>)

lemma wf_parse_opts:
  "wf_config cfg \<Longrightarrow> parse_opts nti opts cfg v = Inr (cfg', v') \<Longrightarrow> wf_config cfg'"
proof (induction nti opts cfg v rule: parse_opts.induct)
  case (2 nti opt optarg rest cfg v)
  then show ?case
    using wf_parse_opt [of cfg nti opt optarg v] by (auto split: sum.splits prod.splits)
qed simp

lemma bind_flags_step:
  "((if a then XDP_COPY else 0) OR (if b then XDP_ZEROCOPY else 0)) AND XDP_ZEROCOPY OR XDP_COPY
    = XDP_COPY OR (if b then XDP_ZEROCOPY else 0)"
  "((if a then XDP_COPY else 0) OR (if b then XDP_ZEROCOPY else 0)) AND XDP_COPY OR XDP_ZEROCOPY
    = (if a then XDP_COPY else 0) OR XDP_ZEROCOPY"
  by (simp_all add: xdp_flag_defs)

lemma bind_flags_acc:
  assumes "set opts \<subseteq> {(OptChar (CHR ''c''), []), (OptChar (CHR ''z''), [])}"
    and "xsk_bind_flags cfg = (if a then XDP_COPY else 0) OR (if b then XDP_ZEROCOPY else 0)"
  shows "\<exists>cfg'. parse_opts nti opts cfg v = Inr (cfg', v) \<and> xsk_bind_flags cfg' =
    (if a \<or> (OptChar (CHR ''c''), []) \<in> set opts then XDP_COPY else 0)
      OR (if b \<or> (OptChar (CHR ''z''), []) \<in> set opts then XDP_ZEROCOPY else 0)"
  using assms
proof (induction opts arbitrary: cfg a b)
  case (Cons e opts)
  then consider "e = (OptChar (CHR ''c''), [])" | "e = (OptChar (CHR ''z''), [])" by auto
  then show ?case
  proof cases
    case 1
    have "xsk_bind_flags (bind_copy cfg) = (if True then XDP_COPY else 0) OR (if b then XDP_ZEROCOPY else 0)"
      using Cons.prems(2) bind_flags_step(1) by (simp add: bind_copy_def)
    from Cons.IH [OF _ this] Cons.prems(1) 1 show ?thesis by (simp add: parse_opt_def parse_char_def)
  next
    case 2
    have "xsk_bind_flags (bind_zerocopy cfg) = (if a then XDP_COPY else 0) OR (if True then XDP_ZEROCOPY else 0)"
      using Cons.prems(2) bind_flags_step(2) by (simp add: bind_zerocopy_def)
    from Cons.IH [OF _ this] Cons.prems(1) 2 show ?thesis by (simp add: parse_opt_def parse_char_def)
  qed
qed simp

section \<open>Properties\<close>

text \<open>Whatever options are given, a command line that is accepted leaves a well-formed
  configuration: at most one of the XDP mode flags is set (the last mode option wins over the
  earlier ones), the interface index is not zero, and the character arrays have their sizes. A
  command line that is rejected ends the process with \<^verbatim>\<open>EXIT_FAIL_OPTION\<close>.\<close>

lemma parse_cmdline_config_wf:
  assumes "wf_config cfg" and "parse_cmdline_args malloc_ok nti ows opts prog doc cfg = Some r"
  shows "case r of Inl code \<Rightarrow> code = EXIT_FAIL_OPTION | Inr (cfg', verbose) \<Rightarrow> wf_config cfg'"
  using assms wf_parse_opts [OF assms(1), of nti opts True]
  by (auto simp: parse_cmdline_args_def split: sum.splits Option.bind_splits)

definition default_config :: config where
  "default_config = \<lparr>xdp_flags = 0, ifindex = -1, ifname_buf = c_strncpy IF_NAMESIZE [], redirect_ifindex = 0,
     redirect_ifname_buf = c_strncpy IF_NAMESIZE [], do_unload = False, reuse_maps_flag = False,
     pin_dir = c_strncpy 512 [], filename = c_strncpy 512 [], progsec = c_strncpy 32 ''xdp_sock'',
     src_mac = c_strncpy 18 [], dest_mac = c_strncpy 18 [], xsk_bind_flags = 0, xsk_if_queue = 0,
     xsk_poll_mode = False\<rparr>"

lemma wf_default_config: "wf_config default_config"
  by (simp add: wf_config_def default_config_def one_mode_def)

definition sample_options :: "option_wrapper list" where
  "sample_options = [\<lparr>ow_name = Some ''skb-mode'', ow_has_arg = False, ow_val = 83,
       ow_help = ''Install XDP program in SKB mode'', ow_metavar = None, ow_required = False\<rparr>,
     \<lparr>ow_name = None, ow_has_arg = False, ow_val = 0, ow_help = [], ow_metavar = None, ow_required = False\<rparr>]"

lemma parse_cmdline_config_wf_example:
  "\<exists>cfg verbose. parse_cmdline_args True (\<lambda>_. 3) sample_options [(OptChar (CHR ''S''), []), (OptChar (CHR ''N''), [])]
      ''prog'' ''doc'' default_config = Some (Inr (cfg, verbose)) \<and> wf_config cfg
    \<and> xdp_flags cfg = XDP_FLAGS_DRV_MODE"
proof -
  obtain cfg v where p: "parse_cmdline_args True (\<lambda>_. 3) sample_options
      [(OptChar (CHR ''S''), []), (OptChar (CHR ''N''), [])] ''prog'' ''doc'' default_config = Some (Inr (cfg, v))"
    and f: "xdp_flags cfg = XDP_FLAGS_DRV_MODE"
    by (simp add: parse_cmdline_args_def option_wrappers_to_options_def sample_options_def parse_opt_def
        parse_char_def set_mode_def bind_copy_def default_config_def xdp_flag_defs)
  then show ?thesis using parse_cmdline_config_wf [OF wf_default_config p] by auto
qed

text \<open>The copy and zero-copy options do not override each other: starting from no flags, a
  command line of these options sets \<^verbatim>\<open>XDP_COPY\<close> when it has \<^verbatim>\<open>-c\<close> and \<^verbatim>\<open>XDP_ZEROCOPY\<close> when it has
  \<^verbatim>\<open>-z\<close>, so a command line with both asks for both modes at once.\<close>

lemma bind_flags_accumulate:
  assumes "set opts \<subseteq> {(OptChar (CHR ''c''), []), (OptChar (CHR ''z''), [])}"
    and "xsk_bind_flags cfg = 0"
  shows "\<exists>cfg'. parse_opts nti opts cfg v = Inr (cfg', v) \<and> xsk_bind_flags cfg' =
    (if (OptChar (CHR ''c''), []) \<in> set opts then XDP_COPY else 0)
      OR (if (OptChar (CHR ''z''), []) \<in> set opts then XDP_ZEROCOPY else 0)"
  using bind_flags_acc [OF assms(1), of cfg False False nti v] assms(2) by simp

text \<open>The option table handed to \<^verbatim>\<open>getopt_long\<close> has no terminating entry: the copy of the table
  contains exactly the named entries, while \<^verbatim>\<open>getopt_long\<close> looks for one without a name.\<close>

lemma option_table_unterminated:
  assumes "option_wrappers_to_options True ows = Some (Inr opts)"
  shows "\<forall>o' \<in> set opts. ow_name o' \<noteq> None"
  using assms by (auto simp: option_wrappers_to_options_def Let_def takeWhile_eq_take [symmetric]
      dest: set_takeWhileD split: if_splits)

end
