(* ===== verification/Xdp_Loader.thy ===== *)
theory Xdp_Loader
  imports Bpf_Object Params
begin

text \<open>
  \<^verbatim>\<open>eBPF_app/common/common_user_bpf_xdp.c\<close> and \<^verbatim>\<open>common_libbpf.c\<close>: loading an object file, reusing
  or pinning its maps, and attaching its program to the XDP hook of an interface. The calls that
  reach the kernel are arguments: the two operations on the XDP hook are a record over the
  state of the hook, the rest are functions from their arguments to their results.
\<close>

section \<open>The XDP hook\<close>

record 'n link_ops =
  bpf_set_link_xdp_fd :: "'n \<Rightarrow> int \<Rightarrow> int \<Rightarrow> u32 \<Rightarrow> int \<times> 'n"
  bpf_get_link_xdp_id :: "'n \<Rightarrow> int \<Rightarrow> u32 \<Rightarrow> int \<times> u32"

definition xdp_link_attach :: "'n link_ops \<Rightarrow> int \<Rightarrow> u32 \<Rightarrow> int \<Rightarrow> 'n \<Rightarrow> int \<times> 'n" where
  "xdp_link_attach ops ifi flags prog_fd n =
     (let (err, n) = bpf_set_link_xdp_fd ops n ifi prog_fd flags;
          (err, n) =
            (if err = - EEXIST \<and> flags AND XDP_FLAGS_UPDATE_IF_NOEXIST = 0 then
               (let old_flags = flags;
                    flags = flags AND NOT XDP_FLAGS_MODES;
                    flags = flags OR (if old_flags AND XDP_FLAGS_SKB_MODE \<noteq> 0
                                      then XDP_FLAGS_DRV_MODE else XDP_FLAGS_SKB_MODE);
                    (err, n) = bpf_set_link_xdp_fd ops n ifi (-1) flags
                in if err = 0 then bpf_set_link_xdp_fd ops n ifi prog_fd old_flags else (err, n))
             else (err, n))
      in if err < 0 then (EXIT_FAIL_XDP, n) else (EXIT_OK, n))"

definition xdp_link_detach :: "'n link_ops \<Rightarrow> int \<Rightarrow> u32 \<Rightarrow> u32 \<Rightarrow> 'n \<Rightarrow> int \<times> 'n" where
  "xdp_link_detach ops ifi flags expected_prog_id n =
     (let (err, curr_prog_id) = bpf_get_link_xdp_id ops n ifi flags in
      if err \<noteq> 0 then (EXIT_FAIL_XDP, n)
      else if curr_prog_id = 0 then (EXIT_OK, n)
      else if expected_prog_id \<noteq> 0 \<and> curr_prog_id \<noteq> expected_prog_id then (EXIT_FAIL, n)
      else (let (err, n) = bpf_set_link_xdp_fd ops n ifi (-1) flags
            in if err < 0 then (EXIT_FAIL_XDP, n) else (EXIT_OK, n)))"

section \<open>Object files\<close>

text \<open>The environment: opening an object file, loading it, opening a pinned file, and the system
  calls behind the reuse of a map.\<close>

record obj_env =
  oe_open :: "string \<Rightarrow> bpf_object option"
  oe_load :: "bpf_object \<Rightarrow> int \<times> bpf_object"
  oe_obj_get :: "string \<Rightarrow> int"
  oe_reuse :: reuse_env

definition load_bpf_object_file :: "obj_env \<Rightarrow> string \<Rightarrow> int \<Rightarrow> bpf_object option" where
  "load_bpf_object_file env file ifi =
     (let (err, r) = bpf_prog_load_xattr (oe_open env file) (oe_load env)
            \<lparr>la_file = Some file, la_prog_type = BPF_PROG_TYPE_XDP, la_attach_type = 0,
             la_ifindex = word_of_int ifi, la_log_level = 0, la_flags = 0\<rparr>
      in if err \<noteq> 0 then None else map_option fst r)"

definition open_bpf_object :: "obj_env \<Rightarrow> string \<Rightarrow> int \<Rightarrow> bpf_object option" where
  "open_bpf_object env file ifi = do {
     obj \<leftarrow> oe_open env file;
     let first_prog = bpf_program__next None obj;
     let progs = map (\<lambda>p. if bp_text p then p
           else bpf_program__set_ifindex (word_of_int ifi) (bpf_program__set_type BPF_PROG_TYPE_XDP p))
           (bo_programs obj);
     let obj = obj\<lparr>bo_programs := progs, bo_maps := load_set_maps (word_of_int ifi) (bo_maps obj)\<rparr>;
     if first_prog = None then None else Some obj
   }"

text \<open>The loop over the maps stops at the first error; the maps before it keep their new
  descriptor.\<close>

fun reuse_map_list :: "obj_env \<Rightarrow> string \<Rightarrow> bpf_map_obj list \<Rightarrow> int \<times> bpf_map_obj list" where
  "reuse_map_list env path [] = (0, [])"
| "reuse_map_list env path (m # ms) =
     (let buf = path @ ''/'' @ bm_name m in
      if PATH_MAX \<le> length buf then (- ENAMETOOLONG, m # ms)
      else
        (let pinned_map_fd = oe_obj_get env buf in
         if pinned_map_fd < 0 then (pinned_map_fd, m # ms)
         else
           (let (err, m) = bpf_map__reuse_fd (oe_reuse env) pinned_map_fd m in
            if err \<noteq> 0 then (err, m # ms)
            else (let (err, ms) = reuse_map_list env path ms in (err, m # ms)))))"

definition reuse_maps :: "obj_env \<Rightarrow> bpf_object option \<Rightarrow> string option \<Rightarrow> int \<times> bpf_object option" where
  "reuse_maps env obj path = (case obj of
     None \<Rightarrow> (- ENOENT, None)
   | Some obj \<Rightarrow> (case path of
       None \<Rightarrow> (- EINVAL, Some obj)
     | Some path \<Rightarrow>
         let (err, ms) = reuse_map_list env path (bo_maps obj)
         in (err, Some (obj\<lparr>bo_maps := ms\<rparr>))))"

definition load_bpf_object_file_reuse_maps :: "obj_env \<Rightarrow> string \<Rightarrow> int \<Rightarrow> string \<Rightarrow> bpf_object option" where
  "load_bpf_object_file_reuse_maps env file ifi dir = do {
     obj \<leftarrow> open_bpf_object env file ifi;
     let (err, obj) = reuse_maps env (Some obj) (Some dir);
     if err \<noteq> 0 then None else do {
     obj \<leftarrow> obj;
     let (err, obj) = oe_load env obj;
     if err \<noteq> 0 then None else Some obj }}"

text \<open>The last part of \<^verbatim>\<open>load_bpf_and_xdp_attach\<close>, once a program is selected.\<close>

definition attach_program ::
    "'n link_ops \<Rightarrow> config \<Rightarrow> bpf_object \<Rightarrow> nat \<Rightarrow> 'n \<Rightarrow> (int + bpf_object \<times> config) \<times> 'n" where
  "attach_program ops cfg obj i n =
     (let prog = bo_programs obj ! i;
          cfg = cfg\<lparr>progsec := c_strncpy 32 (bp_section prog)\<rparr>;
          prog_fd = bpf_program__fd (Some prog)
      in if prog_fd \<le> 0 then (Inl EXIT_FAIL_BPF, n)
         else (let (err, n) = xdp_link_attach ops (ifindex cfg) (xdp_flags cfg) prog_fd n
               in if err \<noteq> 0 then (Inl err, n) else (Inr (obj, cfg), n)))"

text \<open>\<^verbatim>\<open>load_bpf_and_xdp_attach\<close>: \<open>Inl\<close> is the exit code of the process, \<open>Inr\<close> the object and the
  changed configuration. An array of the configuration without a terminator makes reading it
  undefined.\<close>

definition load_bpf_and_xdp_attach ::
    "obj_env \<Rightarrow> 'n link_ops \<Rightarrow> config \<Rightarrow> 'n \<Rightarrow> ((int + bpf_object \<times> config) \<times> 'n) option" where
  "load_bpf_and_xdp_attach env ops cfg n = do {
     let offload_ifindex = (if xdp_flags cfg AND XDP_FLAGS_HW_MODE \<noteq> 0 then ifindex cfg else 0);
     file \<leftarrow> c_string (filename cfg);
     dir \<leftarrow> c_string (pin_dir cfg);
     let bpf_obj = (if reuse_maps_flag cfg then load_bpf_object_file_reuse_maps env file offload_ifindex dir
                    else load_bpf_object_file env file offload_ifindex);
     case bpf_obj of
       None \<Rightarrow> Some (Inl EXIT_FAIL_BPF, n)
     | Some obj \<Rightarrow> do {
         sec \<leftarrow> c_string (progsec cfg);
         let bpf_prog = (if sec \<noteq> [] then bpf_object__find_program_by_title obj sec
                         else bpf_program__next None obj);
         case bpf_prog of
           None \<Rightarrow> Some (Inl EXIT_FAIL_BPF, n)
         | Some i \<Rightarrow> Some (attach_program ops cfg obj i n)
       }
   }"

section \<open>Helpers around maps and actions\<close>

definition action2str :: "u32 \<Rightarrow> string option" where
  "action2str action =
     (if action < 6
      then Some ([''XDP_ABORTED'', ''XDP_DROP'', ''XDP_PASS'', ''XDP_TX'', ''XDP_REDIRECT'', ''XDP_UNKNOWN'']
                  ! unat action)
      else None)"

definition check_map_fd_info :: "map_def \<Rightarrow> map_def \<Rightarrow> int" where
  "check_map_fd_info info exp =
     (if md_key_size exp \<noteq> 0 \<and> md_key_size exp \<noteq> md_key_size info then EXIT_FAIL
      else if md_value_size exp \<noteq> 0 \<and> md_value_size exp \<noteq> md_value_size info then EXIT_FAIL
      else if md_max_entries exp \<noteq> 0 \<and> md_max_entries exp \<noteq> md_max_entries info then EXIT_FAIL
      else if md_type exp \<noteq> 0 \<and> md_type exp \<noteq> md_type info then EXIT_FAIL
      else 0)"

text \<open>\<open>get_info\<close> is \<^verbatim>\<open>bpf_obj_get_info_by_fd\<close>; \<open>want_info\<close> is whether the caller passed a place for it.
  The path is cut to the size of the buffer.\<close>

definition open_bpf_map_file ::
    "(string \<Rightarrow> int) \<Rightarrow> (int \<Rightarrow> int + map_def) \<Rightarrow> string \<Rightarrow> string \<Rightarrow> bool \<Rightarrow> int \<times> map_def option" where
  "open_bpf_map_file bpf_obj_get get_info dir mapname want_info =
     (let file = take (PATH_MAX - 1) (dir @ ''/'' @ mapname);
          fd = bpf_obj_get file
      in if fd < 0 then (fd, None)
         else if want_info
              then (case get_info fd of Inl err \<Rightarrow> (EXIT_FAIL_BPF, None) | Inr info \<Rightarrow> (fd, Some info))
              else (fd, None))"

section \<open>Loading with pinned maps\<close>

record bpf_pinned_map =
  pm_name :: string
  pm_filename :: string
  pm_fd :: int

record pin_attr =
  pa_file :: "string option"
  pa_prog_type :: nat
  pa_attach_type :: nat
  pa_ifindex :: int

text \<open>The first inner loop of \<^verbatim>\<open>bpf_prog_load_xattr_maps\<close>, for one map: every requested pinned map of its
  name that can be opened replaces the descriptor. The result of the reuse is ignored. The name
  is a pointer taken before the loop, and a successful reuse frees the string behind it:
  \<open>None\<close> for \<open>mapname\<close> is the dangling pointer.\<close>

fun try_pinned ::
    "obj_env \<Rightarrow> string option \<Rightarrow> bpf_map_obj \<Rightarrow> bpf_pinned_map list \<Rightarrow> (bpf_map_obj \<times> bpf_pinned_map list) option" where
  "try_pinned env mapname m [] = Some (m, [])"
| "try_pinned env mapname m (p # ps) = do {
     nm \<leftarrow> mapname;
     let (mapname, m, p) =
        (if nm \<noteq> pm_name p then (mapname, m, p)
         else (let fd = oe_obj_get env (pm_filename p)
               in if fd > 0
                  then (let (err, m) = bpf_map__reuse_fd (oe_reuse env) fd m
                        in (if err = 0 then None else mapname, m, p\<lparr>pm_fd := fd\<rparr>))
                  else (mapname, m, p)));
     (m, ps) \<leftarrow> try_pinned env mapname m ps;
     Some (m, p # ps)
   }"

fun open_pinned ::
    "obj_env \<Rightarrow> int \<Rightarrow> bpf_map_obj list \<Rightarrow> bpf_pinned_map list \<Rightarrow> (bpf_map_obj list \<times> bpf_pinned_map list) option" where
  "open_pinned env ifi [] ps = Some ([], ps)"
| "open_pinned env ifi (m # ms) ps = do {
     let mapname = bm_name m;
     let m = (if \<not> bpf_map__is_offload_neutral m then bpf_map__set_ifindex (word_of_int ifi) m else m);
     (m, ps) \<leftarrow> try_pinned env (Some mapname) m ps;
     (ms, ps) \<leftarrow> open_pinned env ifi ms ps;
     Some (m # ms, ps)
   }"

text \<open>After loading: the requested maps that were not opened are pinned; \<open>pin\<close> is \<^verbatim>\<open>bpf_map__pin\<close>.\<close>

definition pin_one :: "(bpf_map_obj \<Rightarrow> string \<Rightarrow> int) \<Rightarrow> bpf_map_obj \<Rightarrow> bpf_pinned_map \<Rightarrow> bpf_pinned_map" where
  "pin_one pin m p =
     (if bm_name m \<noteq> pm_name p then p
      else if pm_fd p \<noteq> -1 then p
      else if pin m (pm_filename p) \<noteq> 0 then p
      else p\<lparr>pm_fd := bpf_map__fd (Some m)\<rparr>)"

definition pin_rest :: "(bpf_map_obj \<Rightarrow> string \<Rightarrow> int) \<Rightarrow> bpf_map_obj list \<Rightarrow> bpf_pinned_map list \<Rightarrow> bpf_pinned_map list" where
  "pin_rest pin ms ps = foldl (\<lambda>ps m. map (pin_one pin m) ps) ps ms"

definition bpf_prog_load_xattr_maps ::
    "obj_env \<Rightarrow> (bpf_map_obj \<Rightarrow> string \<Rightarrow> int) \<Rightarrow> pin_attr \<Rightarrow> bpf_pinned_map list
     \<Rightarrow> (int \<times> bpf_pinned_map list \<times> (bpf_object \<times> int) option) option" where
  "bpf_prog_load_xattr_maps env pin attr pinned = (case pa_file attr of
     None \<Rightarrow> Some (- EINVAL, pinned, None)
   | Some file \<Rightarrow> (case oe_open env file of
       None \<Rightarrow> Some (- ENOENT, pinned, None)
     | Some obj \<Rightarrow> do {
         let first_prog = bpf_program__next None obj;
         let progs = map (\<lambda>p. if bp_text p then p
               else p\<lparr>bp_ifindex := word_of_int (pa_ifindex attr), bp_type := pa_prog_type attr,
                      bp_attach_type := pa_attach_type attr\<rparr>) (bo_programs obj);
         let pinned = map (\<lambda>p. p\<lparr>pm_fd := -1\<rparr>) pinned;
         (ms, pinned) \<leftarrow> open_pinned env (pa_ifindex attr) (bo_maps obj) pinned;
         let obj = obj\<lparr>bo_programs := progs, bo_maps := ms\<rparr>;
         Some (case first_prog of
               None \<Rightarrow> (- ENOENT, pinned, None)
             | Some i \<Rightarrow>
                 let (err, obj) = oe_load env obj
                 in if err \<noteq> 0 then (- EINVAL, pinned, None)
                    else (0, pin_rest pin (bo_maps obj) pinned,
                          Some (obj, bpf_program__fd (Some (bo_programs obj ! i)))))
       }))"

section \<open>The hook of the kernel\<close>

text \<open>The documented behaviour of the XDP hook of an interface, for native and generic mode: one
  program at a time; a program of the other mode is an error, one of the same mode is replaced
  unless the flags forbid it; the descriptor -1 removes the program of the given mode.
  \<open>view\<close> is the mode and the descriptor of the attached program.\<close>

definition native_or_skb :: "u32 \<Rightarrow> bool" where
  "native_or_skb m \<longleftrightarrow> m = XDP_FLAGS_SKB_MODE \<or> m = XDP_FLAGS_DRV_MODE"

definition xdp_hook :: "'n link_ops \<Rightarrow> ('n \<Rightarrow> (u32 \<times> int) option) \<Rightarrow> int \<Rightarrow> bool" where
  "xdp_hook ops view ifi \<longleftrightarrow>
     (\<forall>n fd flags m err n'. flags AND XDP_FLAGS_MODES = m \<longrightarrow> native_or_skb m \<longrightarrow>
        bpf_set_link_xdp_fd ops n ifi fd flags = (err, n') \<longrightarrow>
        (if fd \<ge> 0 then
           (case view n of
              None \<Rightarrow> err = 0 \<and> view n' = Some (m, fd)
            | Some (m0, fd0) \<Rightarrow>
                if m0 \<noteq> m then err = - EEXIST \<and> n' = n
                else if flags AND XDP_FLAGS_UPDATE_IF_NOEXIST \<noteq> 0 then err = - EBUSY \<and> n' = n
                else err = 0 \<and> view n' = Some (m, fd))
         else
           (case view n of
              None \<Rightarrow> err = 0 \<and> n' = n
            | Some (m0, fd0) \<Rightarrow> err = 0 \<and> (if m0 = m then view n' = None else n' = n))))"

text \<open>An instance: the state is the attached program.\<close>

definition plain_hook :: "(u32 \<times> int) option link_ops" where
  "plain_hook = \<lparr>bpf_set_link_xdp_fd = (\<lambda>n ifi fd flags.
       let m = flags AND XDP_FLAGS_MODES in
       if fd \<ge> 0 then
         (case n of None \<Rightarrow> (0, Some (m, fd))
          | Some (m0, fd0) \<Rightarrow> if m0 \<noteq> m then (- EEXIST, n)
              else if flags AND XDP_FLAGS_UPDATE_IF_NOEXIST \<noteq> 0 then (- EBUSY, n) else (0, Some (m, fd)))
       else (case n of None \<Rightarrow> (0, n) | Some (m0, fd0) \<Rightarrow> (0, if m0 = m then None else n))),
     bpf_get_link_xdp_id = (\<lambda>n ifi flags.
       (0, case n of None \<Rightarrow> 0 | Some (m0, fd0) \<Rightarrow> 1))\<rparr>"

lemma xdp_hook_plain: "xdp_hook plain_hook (\<lambda>n. n) ifi"
  by (auto simp: xdp_hook_def plain_hook_def Let_def split: option.splits prod.splits if_splits)

lemma hook_set:
  assumes "xdp_hook ops view ifi" and "native_or_skb (flags AND XDP_FLAGS_MODES)" and "0 \<le> fd"
    and "bpf_set_link_xdp_fd ops n ifi fd flags = (err, n')"
  shows "case view n of
      None \<Rightarrow> err = 0 \<and> view n' = Some (flags AND XDP_FLAGS_MODES, fd)
    | Some (m0, fd0) \<Rightarrow>
        if m0 \<noteq> flags AND XDP_FLAGS_MODES then err = - EEXIST \<and> n' = n
        else if flags AND XDP_FLAGS_UPDATE_IF_NOEXIST \<noteq> 0 then err = - EBUSY \<and> n' = n
        else err = 0 \<and> view n' = Some (flags AND XDP_FLAGS_MODES, fd)"
  using assms(1) [unfolded xdp_hook_def, rule_format, OF refl assms(2,4)] assms(3) by simp

lemma hook_remove:
  assumes "xdp_hook ops view ifi" and "native_or_skb (flags AND XDP_FLAGS_MODES)"
    and "bpf_set_link_xdp_fd ops n ifi (-1) flags = (err, n')"
    and "view n = Some (flags AND XDP_FLAGS_MODES, fd0)"
  shows "err = 0 \<and> view n' = None"
  using assms(1) [unfolded xdp_hook_def, rule_format, OF refl assms(2,3)] assms(4) by simp

text \<open>The flags of the second attempt ask for the other mode.\<close>

lemma other_mode:
  fixes flags :: u32
  assumes "native_or_skb (flags AND XDP_FLAGS_MODES)" and "native_or_skb m0" and "m0 \<noteq> flags AND XDP_FLAGS_MODES"
  shows "(flags AND NOT XDP_FLAGS_MODES OR (if flags AND XDP_FLAGS_SKB_MODE \<noteq> 0
      then XDP_FLAGS_DRV_MODE else XDP_FLAGS_SKB_MODE)) AND XDP_FLAGS_MODES = m0"
proof -
  have "flags AND XDP_FLAGS_SKB_MODE = (flags AND XDP_FLAGS_MODES) AND XDP_FLAGS_SKB_MODE"
    by (metis and.assoc and.commute modes_fixed(2))
  then show ?thesis
    using assms unfolding mode_bits native_or_skb_def by (auto simp: xdp_flag_defs)
qed

lemma attach_program_outcomes:
  assumes "attach_program ops cfg obj i n = (r, n')"
  shows "case r of
      Inl code \<Rightarrow> code = EXIT_FAIL_BPF \<and> n' = n \<or> code = EXIT_FAIL_XDP
    | Inr (obj', cfg') \<Rightarrow> obj' = obj \<and> 0 < bpf_program__fd (Some (bo_programs obj ! i))
        \<and> progsec cfg' = c_strncpy 32 (bp_section (bo_programs obj ! i))
        \<and> xdp_link_attach ops (ifindex cfg) (xdp_flags cfg) (bpf_program__fd (Some (bo_programs obj ! i))) n
            = (EXIT_OK, n')"
proof -
  let ?fd = "bpf_program__fd (Some (bo_programs obj ! i))"
  obtain code n1 where a: "xdp_link_attach ops (ifindex cfg) (xdp_flags cfg) ?fd n = (code, n1)" by fastforce
  have "code = EXIT_OK \<or> code = EXIT_FAIL_XDP"
    using a by (auto simp: xdp_link_attach_def Let_def split: prod.splits if_splits)
  then show ?thesis
    using assms a by (auto simp: attach_program_def Let_def EXIT_OK_def EXIT_FAIL_XDP_def split: if_splits)
qed

lemma xdp_link_attach_hook:
  assumes "xdp_hook ops view ifi" and "native_or_skb (flags AND XDP_FLAGS_MODES)" and "0 \<le> fd"
    and "\<And>m0 fd0. view n = Some (m0, fd0) \<Longrightarrow> native_or_skb m0"
  shows "\<exists>code n'. xdp_link_attach ops ifi flags fd n = (code, n') \<and>
    (if flags AND XDP_FLAGS_UPDATE_IF_NOEXIST = 0 \<or> view n = None
     then code = EXIT_OK \<and> view n' = Some (flags AND XDP_FLAGS_MODES, fd)
     else code = EXIT_FAIL_XDP \<and> n' = n)"
proof -
  obtain err1 n1 where s1: "bpf_set_link_xdp_fd ops n ifi fd flags = (err1, n1)" by fastforce
  note h1 = hook_set [OF assms(1-3) s1]
  define flags2 where "flags2 = flags AND NOT XDP_FLAGS_MODES OR (if flags AND XDP_FLAGS_SKB_MODE \<noteq> 0
      then XDP_FLAGS_DRV_MODE else XDP_FLAGS_SKB_MODE)"
  show ?thesis
  proof (cases "\<exists>m0 fd0. view n = Some (m0, fd0) \<and> m0 \<noteq> flags AND XDP_FLAGS_MODES
      \<and> flags AND XDP_FLAGS_UPDATE_IF_NOEXIST = 0")
    case False
    then show ?thesis
      using h1 s1 by (auto simp: xdp_link_attach_def EEXIST_def EBUSY_def split: option.splits if_splits)
  next
    case True
    then obtain m0 fd0 where v: "view n = Some (m0, fd0)" "m0 \<noteq> flags AND XDP_FLAGS_MODES"
      and force: "flags AND XDP_FLAGS_UPDATE_IF_NOEXIST = 0" by blast
    then have e1: "err1 = - EEXIST" "n1 = n" using h1 by auto
    have f2: "flags2 AND XDP_FLAGS_MODES = m0"
      unfolding flags2_def using other_mode [OF assms(2) assms(4) [OF v(1)] v(2)] .
    obtain err2 n2 where s2: "bpf_set_link_xdp_fd ops n ifi (-1) flags2 = (err2, n2)" by fastforce
    have r2: "err2 = 0 \<and> view n2 = None"
      using hook_remove [OF assms(1) _ s2] f2 v(1) assms(4) by simp
    obtain err3 n3 where s3: "bpf_set_link_xdp_fd ops n2 ifi fd flags = (err3, n3)" by fastforce
    have "err3 = 0 \<and> view n3 = Some (flags AND XDP_FLAGS_MODES, fd)"
      using hook_set [OF assms(1-3) s3] r2 by simp
    then show ?thesis
      using s1 e1 force s2 r2 s3 unfolding flags2_def by (simp add: xdp_link_attach_def Let_def)
  qed
qed

section \<open>Properties\<close>

text \<open>Attaching a program in native or generic mode. Without the flag that forbids it, the
  program replaces whatever is on the hook, also a program of the other mode, which is removed
  first; with the flag, a hook that is in use is reported as \<^verbatim>\<open>EXIT_FAIL_XDP\<close> and left as it
  is.\<close>

lemma xdp_link_attach_replaces:
  assumes "xdp_hook ops view ifi" and "native_or_skb (flags AND XDP_FLAGS_MODES)" and "0 \<le> fd"
    and "\<And>m0 fd0. view n = Some (m0, fd0) \<Longrightarrow> native_or_skb m0"
  shows "\<exists>code n'. xdp_link_attach ops ifi flags fd n = (code, n') \<and>
    (if flags AND XDP_FLAGS_UPDATE_IF_NOEXIST = 0 \<or> view n = None
     then code = EXIT_OK \<and> view n' = Some (flags AND XDP_FLAGS_MODES, fd)
     else code = EXIT_FAIL_XDP \<and> n' = n)"
  by (rule xdp_link_attach_hook [OF assms])

lemma xdp_link_attach_replaces_example:
  "\<exists>code n'. xdp_link_attach plain_hook 3 XDP_FLAGS_DRV_MODE 9 (Some (XDP_FLAGS_SKB_MODE, 5)) = (code, n')
    \<and> code = EXIT_OK \<and> n' = Some (XDP_FLAGS_DRV_MODE, 9)"
proof -
  have m: "XDP_FLAGS_DRV_MODE AND XDP_FLAGS_UPDATE_IF_NOEXIST = 0" by (simp add: xdp_flag_defs)
  show ?thesis
    using xdp_link_attach_replaces [OF xdp_hook_plain, of XDP_FLAGS_DRV_MODE 9 "Some (XDP_FLAGS_SKB_MODE, 5)" 3] m
    by (auto simp: native_or_skb_def modes_fixed)
qed

text \<open>Loading and attaching: the process ends with \<^verbatim>\<open>EXIT_FAIL_BPF\<close> before the hook is touched, or
  with \<^verbatim>\<open>EXIT_FAIL_XDP\<close> from a failed attachment, or the function returns an object whose selected
  program, in the section the configuration then names, has a valid descriptor that
  \<^verbatim>\<open>xdp_link_attach\<close> attached with success.\<close>

lemma load_and_attach_outcomes:
  assumes "load_bpf_and_xdp_attach env ops cfg n = Some (r, n')"
  shows "case r of
      Inl code \<Rightarrow> code = EXIT_FAIL_BPF \<and> n' = n \<or> code = EXIT_FAIL_XDP
    | Inr (obj, cfg') \<Rightarrow> \<exists>i. 0 < bpf_program__fd (Some (bo_programs obj ! i))
        \<and> progsec cfg' = c_strncpy 32 (bp_section (bo_programs obj ! i))
        \<and> xdp_link_attach ops (ifindex cfg) (xdp_flags cfg) (bpf_program__fd (Some (bo_programs obj ! i))) n
            = (EXIT_OK, n')"
proof -
  from assms consider "r = Inl EXIT_FAIL_BPF" "n' = n" | obj i where "attach_program ops cfg obj i n = (r, n')"
    unfolding load_bpf_and_xdp_attach_def Let_def by (auto split: Option.bind_splits option.splits)
  then show ?thesis
  proof cases
    case 1
    then show ?thesis by simp
  next
    case 2
    from attach_program_outcomes [OF this] show ?thesis by (auto split: sum.splits)
  qed
qed

definition sample_obj :: bpf_object where
  "sample_obj = \<lparr>bo_programs = [\<lparr>bp_section = ''xdp_sock'', bp_text = False, bp_type = 6, bp_attach_type = 0,
      bp_ifindex = 0, bp_log_level = 0, bp_flags = 0, bp_fds = [7]\<rparr>], bo_maps = []\<rparr>"

definition sample_obj_env :: obj_env where
  "sample_obj_env = \<lparr>oe_open = (\<lambda>_. Some sample_obj), oe_load = (\<lambda>ob. (0, ob)), oe_obj_get = (\<lambda>_. 4),
     oe_reuse = \<lparr>re_info = (\<lambda>_. Inr \<lparr>mi_name = ''m'', mi_def = \<lparr>md_type = 2, md_key_size = 4, md_value_size = 8,
       md_max_entries = 1, md_flags = 0\<rparr>, mi_key_type_id = 0, mi_value_type_id = 0\<rparr>),
       re_strdup = True, re_open = 5, re_dup3 = 5, re_close = 0, re_errno = 0\<rparr>\<rparr>"

lemma sample_next: "bpf_program__next None sample_obj = Some 0"
  by (simp add: bpf_program__next_def next_from_eq progs_from_def start_of_def sample_obj_def)

text \<open>A configuration that selects no section, so that the first program is attached.\<close>

definition sample_cfg :: config where
  "sample_cfg = \<lparr>xdp_flags = XDP_FLAGS_SKB_MODE, ifindex = 3, ifname_buf = c_strncpy IF_NAMESIZE [],
     redirect_ifindex = 0, redirect_ifname_buf = c_strncpy IF_NAMESIZE [], do_unload = False,
     reuse_maps_flag = False, pin_dir = c_strncpy 512 [], filename = c_strncpy 512 ''prog.o'',
     progsec = c_strncpy 32 [], src_mac = c_strncpy 18 [], dest_mac = c_strncpy 18 [], xsk_bind_flags = 0,
     xsk_if_queue = 0, xsk_poll_mode = False\<rparr>"

lemma load_and_attach_outcomes_example:
  "\<exists>r n'. load_bpf_and_xdp_attach (sample_obj_env\<lparr>oe_open := (\<lambda>_. None)\<rparr>) plain_hook sample_cfg None = Some (r, n')
    \<and> (case r of Inl code \<Rightarrow> code = EXIT_FAIL_BPF \<and> n' = None \<or> code = EXIT_FAIL_XDP | Inr _ \<Rightarrow> True)"
proof -
  have "load_bpf_and_xdp_attach (sample_obj_env\<lparr>oe_open := (\<lambda>_. None)\<rparr>) plain_hook sample_cfg None
      = Some (Inl EXIT_FAIL_BPF, None)"
    by (simp add: load_bpf_and_xdp_attach_def sample_cfg_def c_string_strncpy load_bpf_object_file_def
        bpf_prog_load_xattr_def sample_obj_env_def ENOENT_def)
  from this load_and_attach_outcomes [OF this] show ?thesis by auto
qed

text \<open>Loading with pinned maps uses freed memory: when a map is requested together with at
  least one other and its pinned file can be opened and reused, the reuse frees the name of the
  map, and the comparison with the next requested name reads it.\<close>

lemma pinned_reuse_use_after_free:
  assumes "pa_file attr = Some fname" and "oe_open env fname = Some obj" and "bo_maps obj = m # ms"
    and "pm_name p = bm_name m" and "0 < oe_obj_get env (pm_filename p)"
    and "\<And>m'. fst (bpf_map__reuse_fd (oe_reuse env) (oe_obj_get env (pm_filename p)) m') = 0"
  shows "bpf_prog_load_xattr_maps env pin attr (p # q # ps) = None"
proof -
  let ?m = "if \<not> bpf_map__is_offload_neutral m then bpf_map__set_ifindex (word_of_int (pa_ifindex attr)) m else m"
  obtain m1 where "bpf_map__reuse_fd (oe_reuse env) (oe_obj_get env (pm_filename p)) ?m = (0, m1)"
    using assms(6) [of ?m] by (metis prod.collapse)
  then have "try_pinned env (Some (bm_name m)) ?m (map (\<lambda>p. p\<lparr>pm_fd := -1\<rparr>) (p # q # ps)) = None"
    using assms(4,5) by (simp add: Let_def)
  then show ?thesis
    using assms(1-3) unfolding bpf_prog_load_xattr_maps_def by (simp add: Let_def del: try_pinned.simps)
qed

definition sample_map :: bpf_map_obj where
  "sample_map = \<lparr>bm_name = ''m'', bm_fd = -1, bm_def = \<lparr>md_type = 2, md_key_size = 4, md_value_size = 8,
     md_max_entries = 1, md_flags = 0\<rparr>, bm_key_type_id = 0, bm_value_type_id = 0, bm_ifindex = 0,
     bm_reused = False\<rparr>"

definition sample_pin_env :: obj_env where
  "sample_pin_env = sample_obj_env\<lparr>oe_open := (\<lambda>_. Some (sample_obj\<lparr>bo_maps := [sample_map]\<rparr>))\<rparr>"

lemma pinned_reuse_use_after_free_example:
  "bpf_prog_load_xattr_maps sample_pin_env (\<lambda>_ _. 0)
     \<lparr>pa_file = Some ''f'', pa_prog_type = 6, pa_attach_type = 0, pa_ifindex = 0\<rparr>
     [\<lparr>pm_name = ''m'', pm_filename = ''/a'', pm_fd = -1\<rparr>, \<lparr>pm_name = ''n'', pm_filename = ''/b'', pm_fd = -1\<rparr>] = None"
proof (rule pinned_reuse_use_after_free [where fname = "''f''" and obj = "sample_obj\<lparr>bo_maps := [sample_map]\<rparr>"
      and m = sample_map and ms = "[]"])
  fix m' :: bpf_map_obj
  show "fst (bpf_map__reuse_fd (oe_reuse sample_pin_env)
      (oe_obj_get sample_pin_env (pm_filename \<lparr>pm_name = ''m'', pm_filename = ''/a'', pm_fd = -1\<rparr>)) m') = 0"
    by (simp add: bpf_map__reuse_fd_def sample_pin_env_def sample_obj_env_def)
qed (simp_all add: sample_pin_env_def sample_obj_env_def sample_map_def)

end
