(* ===== verification/Ebpf_Main.thy ===== *)
theory Ebpf_Main
  imports Ebpf_User Xdp_Loader
begin

text \<open>
  \<^verbatim>\<open>main\<close> of \<^verbatim>\<open>eBPF_app/eBPF_measure/ebpf_measure_user.c\<close>: the command line, loading and attaching
  the XDP program, the measuring loop until the interrupt signal, the two log files, detaching.
  The measuring loop is the functional form of the transition system of \<^verbatim>\<open>Ebpf_User\<close>; the frames
  that arrive while the files are written are not modelled.
\<close>

section \<open>The options of the program\<close>

definition opt_row :: "string \<Rightarrow> bool \<Rightarrow> nat \<Rightarrow> string \<Rightarrow> option_wrapper" where
  "opt_row name has_arg v help = \<lparr>ow_name = Some name, ow_has_arg = has_arg, ow_val = v, ow_help = help,
     ow_metavar = None, ow_required = False\<rparr>"

definition long_options :: "option_wrapper list" where
  "long_options =
    [opt_row ''help'' False 104 ''Show help'',
     (opt_row ''dev'' True 100 ''Operate on device <ifname>'')\<lparr>ow_metavar := Some ''<ifname>'', ow_required := True\<rparr>,
     opt_row ''skb-mode'' False 83 ''Install XDP program in SKB (AKA generic) mode'',
     opt_row ''native-mode'' False 78 ''Install XDP program in native mode'',
     opt_row ''auto-mode'' False 65 ''Auto-detect SKB or native mode'',
     opt_row ''force'' False 70 ''Force install, replacing existing program on interface'',
     opt_row ''copy'' False 99 ''Force copy mode'',
     opt_row ''zero-copy'' False 122 ''Force zero-copy mode'',
     opt_row ''queue'' True 81 ''Configure interface receive queue for AF_XDP, default=0'',
     opt_row ''poll-mode'' False 112 ''Use the poll() API waiting for packets to arrive'',
     opt_row ''unload'' False 85 ''Unload XDP program instead of loading'',
     opt_row ''quiet'' False 113 ''Quiet mode (no output)'',
     (opt_row ''filename'' True 1 ''Load program from <file>'')\<lparr>ow_metavar := Some ''<file>''\<rparr>,
     (opt_row ''progsec'' True 2 ''Load program in <section> of the ELF file'')\<lparr>ow_metavar := Some ''<section>''\<rparr>,
     \<lparr>ow_name = None, ow_has_arg = False, ow_val = 0, ow_help = [], ow_metavar = None, ow_required = False\<rparr>]"

section \<open>The measuring loop\<close>

fun ebpf_step ::
    "('t, 'p, 's) map_helpers \<Rightarrow> ('t, 'p, 's) ebpf_state \<Rightarrow> ebpf_event \<Rightarrow> ('t, 'p, 's) ebpf_state option" where
  "ebpf_step h s (KernPkt now index pkt) = do {
     (action, maps) \<leftarrow> xdp_sock_prog h now index pkt (es_maps s);
     Some (s\<lparr>es_maps := maps\<rparr>)
   }"
| "ebpf_step h s (UserPoll now) = do {
     (hit, lb) \<leftarrow> fetch_and_process_packet h (es_maps s) now (es_next s) (es_log s);
     Some (if hit then s\<lparr>es_log := lb, es_next := es_next s + 1\<rparr> else s\<lparr>es_log := lb\<rparr>)
   }"

text \<open>The export of the kernel's time stamps: an entry that cannot be read leaves no line.\<close>

function export_kern :: "('t, 'p, 's) map_helpers \<Rightarrow> ('t, 'p, 's) ebpf_maps \<Rightarrow> nat \<Rightarrow> string \<Rightarrow> string" where
  "export_kern h maps i out =
     (if i < MAX_LOG_ENTRY
      then (case map_lookup (ts_map h) (uid_timestamps maps) (of_nat i) of
              Some v \<Rightarrow> export_kern h maps (Suc i) (out @ print_entry v)
            | None \<Rightarrow> export_kern h maps (Suc i) out)
      else out)"
  by pat_completeness auto
termination
  by (relation "measure (\<lambda>(h, maps, i, out). MAX_LOG_ENTRY - i)") auto

declare export_kern.simps [simp del]

section \<open>The program\<close>

definition EXIT_FAILURE :: int where "EXIT_FAILURE = 1"

text \<open>The environment of the process: whether the allocation of the option table succeeds,
  \<^verbatim>\<open>if_nametoindex\<close>, the object loader, the XDP hook, what the kernel has behind two map
  descriptors, the allocator of the log and whether the two log files can be opened. What is left
  behind: the exit code, the files written and the state of the hook.\<close>

record ('t, 'p, 's, 'n) main_env =
  me_malloc :: bool
  me_nametoindex :: "string \<Rightarrow> int"
  me_obj :: obj_env
  me_link :: "'n link_ops"
  me_maps :: "int \<Rightarrow> int \<Rightarrow> ('t, 'p, 's) map_helpers \<times> ('t, 'p, 's) ebpf_maps"
  me_alloc :: "nat \<Rightarrow> u64 list option"
  me_fopen_us :: bool
  me_fopen_kern :: bool

record 'n main_out =
  mo_code :: int
  mo_user_log :: "string option"
  mo_kern_log :: "string option"
  mo_hook :: 'n

definition early_exit :: "int \<Rightarrow> 'n \<Rightarrow> 'n main_out" where
  "early_exit code n = \<lparr>mo_code = code, mo_user_log = None, mo_kern_log = None, mo_hook = n\<rparr>"

definition open_maps :: "bpf_object \<Rightarrow> int + int \<times> int" where
  "open_maps obj =
     (let time_fd = bpf_map__fd (bpf_object__find_map_by_name obj ''uid_timestamps'') in
      if time_fd < 0 then Inl EXIT_FAILURE
      else
        (let pkt_fd = bpf_map__fd (bpf_object__find_map_by_name obj ''pkt_payload'') in
         if pkt_fd < 0 then Inl EXIT_FAILURE else Inr (time_fd, pkt_fd)))"

text \<open>From the allocation of the log to the end of \<^verbatim>\<open>main\<close>.\<close>

definition main_measure ::
    "('t, 'p, 's, 'n) main_env \<Rightarrow> config \<Rightarrow> int \<Rightarrow> int \<Rightarrow> ebpf_event list \<Rightarrow> 'n \<Rightarrow> 'n main_out option" where
  "main_measure env cfg time_fd pkt_fd evs n =
     (case alloc_log_buffs (me_alloc env) 0 [] of
        Inl freed \<Rightarrow> Some (early_exit (-1) n)
      | Inr lb \<Rightarrow> do {
          let (h, maps) = me_maps env time_fd pkt_fd;
          s \<leftarrow> foldM (ebpf_step h) \<lparr>es_maps = maps, es_log = lb, es_next = 0\<rparr> evs;
          if \<not> me_fopen_us env then None else do {
          (out, zeroed) \<leftarrow> export_log (es_log s) 0 [] 0;
          if \<not> me_fopen_kern env then None else do {
          let out2 = export_kern h (es_maps s) 0 [];
          let (err, n) = xdp_link_detach (me_link env) (ifindex cfg) (xdp_flags cfg) 0 n;
          Some \<lparr>mo_code = EXIT_OK, mo_user_log = Some out, mo_kern_log = Some out2, mo_hook = n\<rparr> }}})"

definition main_load ::
    "('t, 'p, 's, 'n) main_env \<Rightarrow> config \<Rightarrow> 'n \<Rightarrow> ((int + config \<times> int \<times> int) \<times> 'n) option" where
  "main_load env cfg n =
     (if filename cfg ! 0 \<noteq> CHR 0x00 then do {
        (r, n) \<leftarrow> load_bpf_and_xdp_attach (me_obj env) (me_link env) cfg n;
        case r of
          Inl code \<Rightarrow> Some (Inl code, n)
        | Inr (obj, cfg) \<Rightarrow> (case open_maps obj of
            Inl code \<Rightarrow> Some (Inl code, n)
          | Inr (time_fd, pkt_fd) \<Rightarrow> Some (Inr (cfg, time_fd, pkt_fd), n))
      } else Some (Inr (cfg, 0, 0), n))"

text \<open>\<open>opts\<close> is what \<^verbatim>\<open>getopt_long\<close> returns for the arguments, \<open>evs\<close> what happens until the interrupt
  signal ends the loop. \<open>None\<close> is undefined behaviour: a file that cannot be opened is written
  through a null pointer.\<close>

definition ebpf_main ::
    "('t, 'p, 's, 'n) main_env \<Rightarrow> string \<Rightarrow> nat \<Rightarrow> (opt_code \<times> string) list \<Rightarrow> ebpf_event list \<Rightarrow> 'n
     \<Rightarrow> 'n main_out option" where
  "ebpf_main env argv0 argc opts evs n = do {
     r \<leftarrow> parse_cmdline_args (me_malloc env) (me_nametoindex env) long_options opts argv0 ''__doc__'' default_config;
     case r of
       Inl code \<Rightarrow> Some (early_exit code n)
     | Inr (cfg, verbose) \<Rightarrow>
         if ifindex cfg = -1 then do {
           msg \<leftarrow> usage argv0 ''__doc__'' long_options (argc = 1);
           Some (early_exit EXIT_FAIL_OPTION n)
         }
         else if do_unload cfg then
           (let (code, n) = xdp_link_detach (me_link env) (ifindex cfg) (xdp_flags cfg) 0 n
            in Some (early_exit code n))
         else do {
           (r, n) \<leftarrow> main_load env cfg n;
           case r of
             Inl code \<Rightarrow> Some (early_exit code n)
           | Inr (cfg, time_fd, pkt_fd) \<Rightarrow> main_measure env cfg time_fd pkt_fd evs n
         }
   }"

section \<open>Facts\<close>

text \<open>The functional loop is the transition system.\<close>

lemma foldM_snoc: "foldM f s (xs @ [x]) = Option.bind (foldM f s xs) (\<lambda>s'. f s' x)"
  by (induction xs arbitrary: s) (auto split: Option.bind_splits)

lemma ebpf_step_of_run: "ebpf_run h s0 evs s \<Longrightarrow> foldM (ebpf_step h) s0 evs = Some s"
  by (induction rule: ebpf_run.induct) (simp_all add: foldM_snoc)

lemma foldM_ebpf_step:
  assumes "maps_declared h" and "ebpf_start h s0"
  shows "\<exists>s. foldM (ebpf_step h) s0 evs = Some s \<and> ebpf_run h s0 evs s"
  using ebpf_run_exists [OF assms, of evs] ebpf_step_of_run by blast

lemma export_kern_acc:
  assumes "\<And>i. i < MAX_LOG_ENTRY \<Longrightarrow> map_lookup (ts_map h) (uid_timestamps maps) (of_nat i) = Some (stamp i)"
  shows "export_kern h maps i out = out @ concat (map (\<lambda>i. print_entry (stamp i)) [i..<MAX_LOG_ENTRY])"
  using assms
proof (induction h maps i out rule: export_kern.induct)
  case (1 h maps i out)
  show ?case
  proof (cases "i < MAX_LOG_ENTRY")
    case True
    then show ?thesis
      using "1.IH"(2) [OF True "1.prems" [OF True] "1.prems"] "1.prems" [OF True]
      by (simp add: export_kern.simps [of h maps i] upt_conv_Cons)
  next
    case False
    then show ?thesis by (simp add: export_kern.simps [of h maps i])
  qed
qed

lemma export_kern_lines:
  assumes "maps_declared h" and "maps_ok h maps"
  shows "parse_log (export_kern h maps 0 [])
    = map (\<lambda>i. unat (the (map_lookup (ts_map h) (uid_timestamps maps) (of_nat i)))) [0..<MAX_LOG_ENTRY]"
proof -
  define stamp where "stamp i = the (map_lookup (ts_map h) (uid_timestamps maps) (of_nat i))" for i
  have ts: "array_map (ts_map h) (1 + MAX_LOG_ENTRY)" "map_ok (ts_map h) (uid_timestamps maps)"
    using assms by (simp_all add: maps_declared_def maps_ok_def)
  have small: "unat (of_nat i :: u32) = i" if "i < MAX_LOG_ENTRY" for i
    using that by (simp add: MAX_LOG_ENTRY_val unat_of_nat_small)
  have "\<exists>v. map_lookup (ts_map h) (uid_timestamps maps) (of_nat i) = Some v" if "i < MAX_LOG_ENTRY" for i
  proof -
    have "(map_lookup (ts_map h) (uid_timestamps maps) (of_nat i) = None) = (1 + MAX_LOG_ENTRY \<le> unat (of_nat i :: u32))"
      using ts(1) [unfolded array_map_def, THEN spec, THEN mp, OF ts(2)] by blast
    then show ?thesis using that small [OF that] by simp
  qed
  then have "export_kern h maps 0 [] = concat (map (\<lambda>i. print_entry (stamp i)) [0..<MAX_LOG_ENTRY])"
    using export_kern_acc [of h maps stamp 0 "[]"] by (fastforce simp: stamp_def)
  also have "\<dots> = concat (map print_entry (map stamp [0..<MAX_LOG_ENTRY]))" by (simp add: comp_def)
  finally have "parse_log (export_kern h maps 0 []) = map unat (map stamp [0..<MAX_LOG_ENTRY])"
    by (simp only: parse_print_entries)
  then show ?thesis by (simp add: stamp_def comp_def)
qed

lemma main_load_some:
  assumes "filename cfg ! 0 \<noteq> CHR 0x00"
    and "load_bpf_and_xdp_attach (me_obj env) (me_link env) cfg n = Some (Inr (obj, cfg'), n1)"
  shows "main_load env cfg n = (case open_maps obj of
      Inl code \<Rightarrow> Some (Inl code, n1) | Inr (t, p) \<Rightarrow> Some (Inr (cfg', t, p), n1))"
  using assms by (auto simp: main_load_def split: sum.splits)

text \<open>Loading changes no other field of the configuration, and its success means that the hook has
  the program.\<close>

lemma load_attached:
  assumes "load_bpf_and_xdp_attach env ops cfg n = Some (Inr (obj, cfg'), n1)"
  shows "ifindex cfg' = ifindex cfg \<and> xdp_flags cfg' = xdp_flags cfg
    \<and> (\<exists>fd > 0. xdp_link_attach ops (ifindex cfg) (xdp_flags cfg) fd n = (EXIT_OK, n1))"
proof -
  from assms obtain obj0 i where a: "attach_program ops cfg obj0 i n = (Inr (obj, cfg'), n1)"
    unfolding load_bpf_and_xdp_attach_def Let_def by (auto split: Option.bind_splits option.splits)
  then have "ifindex cfg' = ifindex cfg \<and> xdp_flags cfg' = xdp_flags cfg"
    by (auto simp: attach_program_def Let_def split: prod.splits if_splits)
  then show ?thesis using attach_program_outcomes [OF a] by auto
qed

text \<open>The documented behaviour of the query: a program of the asked mode has an id.\<close>

definition xdp_ids :: "'n link_ops \<Rightarrow> ('n \<Rightarrow> (u32 \<times> int) option) \<Rightarrow> int \<Rightarrow> bool" where
  "xdp_ids ops view ifi \<longleftrightarrow> (\<forall>n flags fd. view n = Some (flags AND XDP_FLAGS_MODES, fd) \<longrightarrow>
     (\<exists>id. bpf_get_link_xdp_id ops n ifi flags = (0, id) \<and> id \<noteq> 0))"

lemma xdp_ids_plain: "xdp_ids plain_hook (\<lambda>n. n) ifi"
  by (auto simp: xdp_ids_def plain_hook_def)

lemma xdp_link_detach_removes:
  assumes "xdp_hook ops view ifi" and "xdp_ids ops view ifi" and "native_or_skb (flags AND XDP_FLAGS_MODES)"
    and "view n = Some (flags AND XDP_FLAGS_MODES, fd)"
  shows "\<exists>n'. xdp_link_detach ops ifi flags 0 n = (EXIT_OK, n') \<and> view n' = None"
proof -
  obtain i where i: "bpf_get_link_xdp_id ops n ifi flags = (0, i)" "i \<noteq> 0"
    using assms(2,4) unfolding xdp_ids_def by blast
  obtain err n' where r: "bpf_set_link_xdp_fd ops n ifi (-1) flags = (err, n')" by fastforce
  have "err = 0 \<and> view n' = None" by (rule hook_remove [OF assms(1,3) r assms(4)])
  then show ?thesis using i r by (simp add: xdp_link_detach_def)
qed

section \<open>Properties\<close>

text \<open>C13: A measurement from end to end. When the command line names an interface and an object
  file, the program loads and attaches with both maps found, the log can be allocated and the
  files opened, then whatever frames arrive until the interrupt, the process ends with
  \<^verbatim>\<open>EXIT_OK\<close> after a run of the transition system of frames and polls; the user-space file reads
  back as the log of the final state, the kernel file as the time stamps of its map, both with
  one line for each uid.\<close>

theorem ebpf_main_measures:
  assumes "parse_cmdline_args (me_malloc env) (me_nametoindex env) long_options opts argv0 ''__doc__'' default_config
      = Some (Inr (cfg, v))"
    and "ifindex cfg \<noteq> -1" and "\<not> do_unload cfg" and "filename cfg ! 0 \<noteq> CHR 0x00"
    and "load_bpf_and_xdp_attach (me_obj env) (me_link env) cfg n = Some (Inr (obj, cfg'), n1)"
    and "open_maps obj = Inr (t, p)" and "me_maps env t p = (h, maps)" and "maps_declared h"
    and "ebpf_start h \<lparr>es_maps = maps, es_log = zero_log, es_next = 0\<rparr>"
    and "\<And>k. k < NUM_LOG_BUFF \<Longrightarrow> \<exists>r. me_alloc env k = Some r \<and> length r = MAX_ENTRIES_PER_LOG_BUFF"
    and "me_fopen_us env" and "me_fopen_kern env"
  shows "\<exists>lb s out kern. alloc_log_buffs (me_alloc env) 0 [] = Inr lb
    \<and> ebpf_run h \<lparr>es_maps = maps, es_log = lb, es_next = 0\<rparr> evs s
    \<and> ebpf_main env argv0 argc opts evs n = Some \<lparr>mo_code = EXIT_OK, mo_user_log = Some out, mo_kern_log = Some kern,
        mo_hook = snd (xdp_link_detach (me_link env) (ifindex cfg) (xdp_flags cfg) 0 n1)\<rparr>
    \<and> parse_log out = map unat (concat (es_log s)) \<and> length (parse_log out) = MAX_LOG_ENTRY
    \<and> parse_log kern = map (\<lambda>i. unat (the (map_lookup (ts_map h) (uid_timestamps (es_maps s)) (of_nat i)))) [0..<MAX_LOG_ENTRY]"
proof -
  obtain lb where lb: "alloc_log_buffs (me_alloc env) 0 [] = Inr lb" "wf_log lb"
    using alloc_log_buffs_wf [of "me_alloc env"] assms(10) by blast
  let ?s0 = "\<lparr>es_maps = maps, es_log = lb, es_next = 0\<rparr>"
  have start: "ebpf_start h ?s0" using assms(9) lb(2) by (simp add: ebpf_start_def)
  obtain s where s: "foldM (ebpf_step h) ?s0 evs = Some s" "ebpf_run h ?s0 evs s"
    using foldM_ebpf_step [OF assms(8) start] by blast
  have inv: "maps_ok h (es_maps s)" "wf_log (es_log s)"
    using ebpf_run_inv [OF s(2) assms(8) start] by (auto simp: logged_ok_def)
  obtain out z where out: "export_log (es_log s) 0 [] 0 = Some (out, z)"
    and lines: "parse_log out = map unat (concat (es_log s))"
    using export_log_acc [OF inv(2), of 0 "[]" 0] by (auto simp: parse_print_entries)
  have "main_measure env cfg' t p evs n1 = Some \<lparr>mo_code = EXIT_OK, mo_user_log = Some out,
      mo_kern_log = Some (export_kern h (es_maps s) 0 []),
      mo_hook = snd (xdp_link_detach (me_link env) (ifindex cfg) (xdp_flags cfg) 0 n1)\<rparr>"
    using lb(1) s(1) out assms(7,11,12) load_attached [OF assms(5)]
    by (simp add: main_measure_def split_beta)
  then have "ebpf_main env argv0 argc opts evs n = Some \<lparr>mo_code = EXIT_OK, mo_user_log = Some out,
      mo_kern_log = Some (export_kern h (es_maps s) 0 []),
      mo_hook = snd (xdp_link_detach (me_link env) (ifindex cfg) (xdp_flags cfg) 0 n1)\<rparr>"
    using assms(1-3) main_load_some [OF assms(4,5)] assms(6) by (simp add: ebpf_main_def)
  then show ?thesis
    using lb(1) s(2) lines wf_log_concat(1) [OF inv(2)] export_kern_lines [OF assms(8) inv(1)] by fastforce
qed

text \<open>A process that attaches a program in generic mode, with zeroed maps behind its descriptors.\<close>

definition sample_main_obj :: bpf_object where
  "sample_main_obj = sample_obj\<lparr>bo_maps := [sample_map\<lparr>bm_name := ''uid_timestamps'', bm_fd := 5\<rparr>,
     sample_map\<lparr>bm_name := ''pkt_payload'', bm_fd := 6\<rparr>]\<rparr>"

definition sample_main_env :: "(u64 list, bytes list, u32 list, (u32 \<times> int) option) main_env" where
  "sample_main_env = \<lparr>me_malloc = True, me_nametoindex = (\<lambda>_. 3),
     me_obj = sample_obj_env\<lparr>oe_open := (\<lambda>_. Some sample_main_obj)\<rparr>, me_link = plain_hook,
     me_maps = (\<lambda>_ _. (list_helpers, zero_maps)),
     me_alloc = (\<lambda>_. Some (replicate MAX_ENTRIES_PER_LOG_BUFF 0)), me_fopen_us = True, me_fopen_kern = True\<rparr>"

definition sample_opts :: "(opt_code \<times> string) list" where
  "sample_opts = [(OptChar (CHR ''d''), ''eth0''), (OptChar (CHR ''S''), []), (OptFilename, ''prog.o'')]"

definition sample_main_cfg :: config where
  "sample_main_cfg = default_config\<lparr>xdp_flags := XDP_FLAGS_SKB_MODE, ifindex := 3,
     ifname_buf := c_strncpy IF_NAMESIZE ''eth0'', filename := c_strncpy 512 ''prog.o'', xsk_bind_flags := XDP_COPY\<rparr>"

lemma sample_main_parse:
  "parse_cmdline_args (me_malloc sample_main_env) (me_nametoindex sample_main_env) long_options sample_opts
      argv0 doc default_config = Some (Inr (sample_main_cfg, True))"
  by (simp add: parse_cmdline_args_def option_wrappers_to_options_def long_options_def opt_row_def sample_opts_def
      parse_opt_def parse_char_def set_mode_def bind_copy_def sample_main_env_def sample_main_cfg_def
      default_config_def xdp_flag_defs IF_NAMESIZE_def)

lemma sample_main_cfg_fields:
  "ifindex sample_main_cfg \<noteq> -1" "\<not> do_unload sample_main_cfg" "filename sample_main_cfg ! 0 \<noteq> CHR 0x00"
  by (simp_all add: sample_main_cfg_def default_config_def c_strncpy_def)

lemma sample_main_next:
  "bpf_program__next None sample_main_obj = Some 0"
  "bpf_object__find_program_by_title sample_main_obj ''xdp_sock'' = Some 0"
  by (simp_all add: bpf_program__next_def next_from_eq bpf_object__find_program_by_title_def for_each_program_from
      progs_from_def start_of_def sample_main_obj_def sample_obj_def)

lemma sample_main_load_file:
  "load_bpf_object_file (me_obj sample_main_env) fname 0 = Some sample_main_obj"
proof -
  have "load_set_programs \<lparr>la_file = Some fname, la_prog_type = BPF_PROG_TYPE_XDP, la_attach_type = 0,
      la_ifindex = word_of_int 0, la_log_level = 0, la_flags = 0\<rparr> (bo_programs sample_main_obj)
      = Inr (bo_programs sample_main_obj)"
    by (simp add: sample_main_obj_def sample_obj_def BPF_PROG_TYPE_XDP_def BPF_PROG_TYPE_UNSPEC_def)
  moreover have "load_set_maps (word_of_int 0) (bo_maps sample_main_obj) = bo_maps sample_main_obj"
    by (simp add: load_set_maps_def sample_main_obj_def sample_map_def bpf_map__set_ifindex_def)
  ultimately show ?thesis
    using sample_main_next
    by (simp add: load_bpf_object_file_def bpf_prog_load_xattr_def sample_main_env_def sample_obj_env_def Let_def)
qed

lemma sample_main_load:
  "\<exists>cfg'. load_bpf_and_xdp_attach (me_obj sample_main_env) (me_link sample_main_env) sample_main_cfg None
      = Some (Inr (sample_main_obj, cfg'), Some (XDP_FLAGS_SKB_MODE, 7))"
proof -
  have cfg: "xdp_flags sample_main_cfg AND XDP_FLAGS_HW_MODE = 0" "\<not> reuse_maps_flag sample_main_cfg"
    "c_string (filename sample_main_cfg) = Some ''prog.o''" "c_string (pin_dir sample_main_cfg) = Some []"
    "c_string (progsec sample_main_cfg) = Some ''xdp_sock''"
    by (simp_all add: sample_main_cfg_def default_config_def c_string_strncpy xdp_flag_defs)
  have "bpf_program__fd (Some (bo_programs sample_main_obj ! 0)) = 7"
    by (simp add: sample_main_obj_def sample_obj_def bpf_program__fd_def bpf_program__nth_fd_def)
  then have "\<exists>cfg'. attach_program plain_hook sample_main_cfg sample_main_obj 0 None
      = (Inr (sample_main_obj, cfg'), Some (XDP_FLAGS_SKB_MODE, 7))"
    by (simp add: attach_program_def Let_def xdp_link_attach_def plain_hook_def sample_main_cfg_def EXIT_OK_def
        EEXIST_def modes_fixed)
  then show ?thesis
    using cfg sample_main_next(2) sample_main_load_file [of "''prog.o''"]
    by (simp add: load_bpf_and_xdp_attach_def Let_def) (simp add: sample_main_env_def)
qed

lemma sample_main_maps: "open_maps sample_main_obj = Inr (5, 6)" "me_maps sample_main_env t p = (list_helpers, zero_maps)"
  by (simp_all add: open_maps_def sample_main_obj_def bpf_object__find_map_by_name_def bpf_map__fd_def sample_main_env_def)

theorem ebpf_main_measures_witness:
  "\<exists>out kern. ebpf_main sample_main_env ''prog'' 5 sample_opts [UserPoll 1] None
      = Some \<lparr>mo_code = EXIT_OK, mo_user_log = Some out, mo_kern_log = Some kern, mo_hook = None\<rparr>
    \<and> length (parse_log out) = MAX_LOG_ENTRY"
proof -
  obtain cfg' where load: "load_bpf_and_xdp_attach (me_obj sample_main_env) (me_link sample_main_env) sample_main_cfg None
      = Some (Inr (sample_main_obj, cfg'), Some (XDP_FLAGS_SKB_MODE, 7))"
    using sample_main_load by blast
  have start: "ebpf_start list_helpers \<lparr>es_maps = zero_maps, es_log = zero_log, es_next = 0\<rparr>"
    using sample_start_ok by (simp add: sample_start_def)
  have detach: "snd (xdp_link_detach (me_link sample_main_env) (ifindex sample_main_cfg) (xdp_flags sample_main_cfg) 0
      (Some (XDP_FLAGS_SKB_MODE, 7))) = None"
    by (simp add: xdp_link_detach_def sample_main_env_def plain_hook_def sample_main_cfg_def modes_fixed Let_def)
  have env: "\<exists>r. me_alloc sample_main_env k = Some r \<and> length r = MAX_ENTRIES_PER_LOG_BUFF"
      "me_fopen_us sample_main_env" "me_fopen_kern sample_main_env" for k
    by (simp_all add: sample_main_env_def)
  from ebpf_main_measures [OF sample_main_parse [of "''prog''"] sample_main_cfg_fields load sample_main_maps list_helpers_ok(1)
      start env, where argc = 5 and evs = "[UserPoll 1]"]
  show ?thesis unfolding detach by blast
qed

text \<open>What is left on the interface. Once the program is attached, in native or generic mode,
  the process leaves the hook empty exactly when it wrote its log files; the early exits (a map that
  is missing, a log that cannot be allocated) leave the XDP program attached.\<close>

lemma ebpf_main_detaches_after_export:
  assumes "parse_cmdline_args (me_malloc env) (me_nametoindex env) long_options opts argv0 ''__doc__'' default_config
      = Some (Inr (cfg, v))"
    and "ifindex cfg \<noteq> -1" and "\<not> do_unload cfg" and "filename cfg ! 0 \<noteq> CHR 0x00"
    and "load_bpf_and_xdp_attach (me_obj env) (me_link env) cfg n = Some (Inr (obj, cfg'), n1)"
    and "xdp_hook (me_link env) view (ifindex cfg)" and "xdp_ids (me_link env) view (ifindex cfg)"
    and "native_or_skb (xdp_flags cfg AND XDP_FLAGS_MODES)" and "view n = None"
    and "ebpf_main env argv0 argc opts evs n = Some r"
  shows "if mo_user_log r \<noteq> None then mo_code r = EXIT_OK \<and> view (mo_hook r) = None
    else mo_code r \<noteq> EXIT_OK \<and> (\<exists>fd > 0. view (mo_hook r) = Some (xdp_flags cfg AND XDP_FLAGS_MODES, fd))"
proof -
  obtain fd where fd: "0 < fd" "xdp_link_attach (me_link env) (ifindex cfg) (xdp_flags cfg) fd n = (EXIT_OK, n1)"
    and same: "ifindex cfg' = ifindex cfg" "xdp_flags cfg' = xdp_flags cfg"
    using load_attached [OF assms(5)] by blast
  have v1: "view n1 = Some (xdp_flags cfg AND XDP_FLAGS_MODES, fd)"
    using xdp_link_attach_hook [OF assms(6,8), of fd n] fd assms(9) by simp
  obtain n' where d: "xdp_link_detach (me_link env) (ifindex cfg) (xdp_flags cfg) 0 n1 = (EXIT_OK, n')" "view n' = None"
    using xdp_link_detach_removes [OF assms(6-8) v1] by blast
  show ?thesis
  proof (cases "open_maps obj")
    case (Inl code)
    then have "r = early_exit code n1" "code = EXIT_FAILURE"
      using assms(1-3,10) main_load_some [OF assms(4,5)]
      by (auto simp: ebpf_main_def open_maps_def Let_def split: if_splits)
    then show ?thesis using v1 fd(1) by (simp add: early_exit_def EXIT_FAILURE_def EXIT_OK_def)
  next
    case (Inr tp)
    then obtain t p where "main_measure env cfg' t p evs n1 = Some r"
      using assms(1-3,10) main_load_some [OF assms(4,5)] by (cases tp) (simp add: ebpf_main_def)
    then have "r = early_exit (-1) n1 \<or> mo_user_log r \<noteq> None \<and> mo_code r = EXIT_OK \<and> mo_hook r = n'"
      using d(1) by (auto simp: main_measure_def same split: sum.splits Option.bind_splits prod.splits if_splits)
    then show ?thesis using v1 fd(1) d(2) by (auto simp: early_exit_def EXIT_OK_def)
  qed
qed

text \<open>The same process when the first allocation fails.\<close>

lemma ebpf_main_detaches_after_export_example:
  "\<exists>r. ebpf_main (sample_main_env\<lparr>me_alloc := (\<lambda>_. None)\<rparr>) ''prog'' 5 sample_opts [] None = Some r
    \<and> mo_code r \<noteq> EXIT_OK \<and> (\<exists>fd > 0. mo_hook r = Some (XDP_FLAGS_SKB_MODE, fd))"
proof -
  let ?env = "sample_main_env\<lparr>me_alloc := (\<lambda>_. None)\<rparr>"
  obtain cfg' where load: "load_bpf_and_xdp_attach (me_obj ?env) (me_link ?env) sample_main_cfg None
      = Some (Inr (sample_main_obj, cfg'), Some (XDP_FLAGS_SKB_MODE, 7))"
    using sample_main_load by auto
  have parse: "parse_cmdline_args (me_malloc ?env) (me_nametoindex ?env) long_options sample_opts ''prog'' ''__doc__''
      default_config = Some (Inr (sample_main_cfg, True))"
    using sample_main_parse by simp
  have hook: "xdp_hook (me_link ?env) (\<lambda>n. n) (ifindex sample_main_cfg)" "xdp_ids (me_link ?env) (\<lambda>n. n) (ifindex sample_main_cfg)"
    using xdp_hook_plain xdp_ids_plain by (simp_all add: sample_main_env_def)
  have mode: "xdp_flags sample_main_cfg AND XDP_FLAGS_MODES = XDP_FLAGS_SKB_MODE"
    by (simp add: sample_main_cfg_def modes_fixed)
  have "alloc_log_buffs (me_alloc ?env) 0 [] = Inl []"
    by (simp add: alloc_log_buffs.simps [of _ 0] NUM_LOG_BUFF_val)
  then have main: "ebpf_main ?env ''prog'' 5 sample_opts [] None = Some (early_exit (-1) (Some (XDP_FLAGS_SKB_MODE, 7)))"
    using parse sample_main_cfg_fields main_load_some [OF sample_main_cfg_fields(3) load] sample_main_maps(1)
    by (simp add: ebpf_main_def main_measure_def)
  from ebpf_main_detaches_after_export [OF parse sample_main_cfg_fields load hook _ _ main] main show ?thesis
    unfolding mode by (simp add: native_or_skb_def early_exit_def)
qed

end
