(* ===== verification/Hashmap.thy ===== *)
theory Hashmap
  imports Bpf_Object "HOL-Library.Multiset"
begin

text \<open>
  \<^verbatim>\<open>eBPF_app/libbpf/src/hashmap.c\<close> and \<^verbatim>\<open>hashmap.h\<close>: the chained hash table of libbpf. A chain is a
  list of entries, and the pointer to the bucket array is null, a block, or dangling after
  \<^verbatim>\<open>hashmap__clear\<close>. The context argument of the two callbacks is part of the callbacks. Sizes count
  objects in memory and are natural numbers; hashes are 64-bit words. \<open>None\<close> is undefined
  behaviour.
\<close>

section \<open>The table\<close>

definition HASHMAP_MIN_CAP_BITS :: nat where "HASHMAP_MIN_CAP_BITS = 2"

text \<open>A table without buckets has \<open>bits = 0\<close> and the shift is as wide as the word, for which the
  language defines no value: \<open>ov\<close> is whatever the machine computes.\<close>

definition hash_bits :: "(u64 \<Rightarrow> u64) \<Rightarrow> u64 \<Rightarrow> nat \<Rightarrow> nat" where
  "hash_bits ov h bits = unat (if bits = 0 then ov (h * 11400714819323198485)
                               else drop_bit (64 - bits) (h * 11400714819323198485))"

datatype 'e bucket_ptr = NullPtr | Dangling | Block "'e list list"

record ('k, 'v) hashmap =
  hash_fn :: "'k \<Rightarrow> u64"
  equal_fn :: "'k \<Rightarrow> 'k \<Rightarrow> bool"
  hm_buckets :: "('k \<times> 'v) bucket_ptr"
  hm_cap :: nat
  hm_cap_bits :: nat
  hm_sz :: nat

datatype insert_strategy = HASHMAP_ADD | HASHMAP_SET | HASHMAP_UPDATE | HASHMAP_APPEND

section \<open>Operations\<close>

definition hashmap_add_entry :: "'e list list \<Rightarrow> nat \<Rightarrow> 'e \<Rightarrow> 'e list list option" where
  "hashmap_add_entry bs h e = do {
     chain \<leftarrow> arr_get bs h;
     arr_set bs h (e # chain)
   }"

definition hashmap_del_entry :: "'e list \<Rightarrow> nat \<Rightarrow> 'e list" where
  "hashmap_del_entry chain i = take i chain @ drop (Suc i) chain"

definition hashmap__init :: "('k \<Rightarrow> u64) \<Rightarrow> ('k \<Rightarrow> 'k \<Rightarrow> bool) \<Rightarrow> ('k, 'v) hashmap" where
  "hashmap__init hash equal = \<lparr>hash_fn = hash, equal_fn = equal, hm_buckets = NullPtr,
     hm_cap = 0, hm_cap_bits = 0, hm_sz = 0\<rparr>"

definition hashmap__new :: "bool \<Rightarrow> ('k \<Rightarrow> u64) \<Rightarrow> ('k \<Rightarrow> 'k \<Rightarrow> bool) \<Rightarrow> int + ('k, 'v) hashmap" where
  "hashmap__new malloc_ok hash equal =
     (if \<not> malloc_ok then Inl (- ENOMEM) else Inr (hashmap__init hash equal))"

text \<open>The block of the buckets is freed, the pointer to it stays.\<close>

definition hashmap__clear :: "('k, 'v) hashmap \<Rightarrow> ('k, 'v) hashmap option" where
  "hashmap__clear m = (case hm_buckets m of
     Dangling \<Rightarrow> None
   | NullPtr \<Rightarrow> Some (m\<lparr>hm_cap := 0, hm_cap_bits := 0, hm_sz := 0\<rparr>)
   | Block bs \<Rightarrow> Some (m\<lparr>hm_buckets := Dangling, hm_cap := 0, hm_cap_bits := 0, hm_sz := 0\<rparr>))"

definition hashmap__free :: "('k, 'v) hashmap option \<Rightarrow> unit option" where
  "hashmap__free m = (case m of
     None \<Rightarrow> Some ()
   | Some m \<Rightarrow> do { m' \<leftarrow> hashmap__clear m; Some () })"

definition hashmap__size :: "('k, 'v) hashmap \<Rightarrow> nat" where
  "hashmap__size m = hm_sz m"

definition hashmap__capacity :: "('k, 'v) hashmap \<Rightarrow> nat" where
  "hashmap__capacity m = hm_cap m"

definition hashmap_needs_to_grow :: "('k, 'v) hashmap \<Rightarrow> bool" where
  "hashmap_needs_to_grow m \<longleftrightarrow> hm_cap m = 0 \<or> (hm_sz m + 1) * 4 div 3 > hm_cap m"

text \<open>\<^verbatim>\<open>hashmap__for_each_entry\<close>: the entries in the order of the loops.\<close>

definition hashmap__for_each_entry :: "('k, 'v) hashmap \<Rightarrow> ('k \<times> 'v) list option" where
  "hashmap__for_each_entry m = (case hm_buckets m of
     Block bs \<Rightarrow> if hm_cap m \<le> length bs then Some (concat (take (hm_cap m) bs)) else None
   | _ \<Rightarrow> if hm_cap m = 0 then Some [] else None)"

text \<open>\<open>calloc\<close> is whether an allocation of so many pointers succeeds; it cannot when their size does
  not fit the address space.\<close>

definition hashmap_grow ::
    "(u64 \<Rightarrow> u64) \<Rightarrow> (nat \<Rightarrow> bool) \<Rightarrow> ('k, 'v) hashmap \<Rightarrow> (int \<times> ('k, 'v) hashmap) option" where
  "hashmap_grow ov calloc m = do {
     let new_cap_bits = max (hm_cap_bits m + 1) HASHMAP_MIN_CAP_BITS;
     let new_cap = 2 ^ new_cap_bits;
     if \<not> (calloc new_cap \<and> new_cap * 8 < 2 ^ 64) then Some (- ENOMEM, m)
     else do {
       entries \<leftarrow> hashmap__for_each_entry m;
       new_buckets \<leftarrow> foldM (\<lambda>nb e. hashmap_add_entry nb (hash_bits ov (hash_fn m (fst e)) new_cap_bits) e)
                        (replicate new_cap []) entries;
       if hm_buckets m = Dangling then None
       else Some (0, m\<lparr>hm_cap := new_cap, hm_cap_bits := new_cap_bits, hm_buckets := Block new_buckets\<rparr>)
     }
   }"

fun chain_find :: "('k \<Rightarrow> 'k \<Rightarrow> bool) \<Rightarrow> 'k \<Rightarrow> ('k \<times> 'v) list \<Rightarrow> nat \<Rightarrow> (nat \<times> 'k \<times> 'v) option" where
  "chain_find eq key [] i = None"
| "chain_find eq key (cur # rest) i =
     (if eq (fst cur) key then Some (i, cur) else chain_find eq key rest (Suc i))"

text \<open>The place of the entry in its chain, and the entry.\<close>

definition hashmap_find_entry ::
    "('k, 'v) hashmap \<Rightarrow> 'k \<Rightarrow> nat \<Rightarrow> (nat \<times> 'k \<times> 'v) option option" where
  "hashmap_find_entry m key h = (case hm_buckets m of
     NullPtr \<Rightarrow> Some None
   | Dangling \<Rightarrow> None
   | Block bs \<Rightarrow> do {
       chain \<leftarrow> arr_get bs h;
       Some (chain_find (equal_fn m) key chain 0)
     })"

text \<open>An assignment through the pointer to an entry, or through the pointer to it.\<close>

definition update_chain :: "nat \<Rightarrow> ('e list \<Rightarrow> 'e list) \<Rightarrow> 'e bucket_ptr \<Rightarrow> 'e bucket_ptr option" where
  "update_chain h f p = (case p of
     Block bs \<Rightarrow> do {
       chain \<leftarrow> arr_get bs h;
       bs \<leftarrow> arr_set bs h (f chain);
       Some (Block bs)
     }
   | _ \<Rightarrow> None)"

text \<open>The second half of \<^verbatim>\<open>hashmap__insert\<close>, where a new entry is added.\<close>

definition hashmap_insert_new ::
    "(u64 \<Rightarrow> u64) \<Rightarrow> (nat \<Rightarrow> bool) \<Rightarrow> bool \<Rightarrow> ('k, 'v) hashmap \<Rightarrow> 'k \<Rightarrow> 'v \<Rightarrow> (int \<times> ('k, 'v) hashmap) option" where
  "hashmap_insert_new ov calloc malloc_ok m key val = do {
     (err, m) \<leftarrow> (if hashmap_needs_to_grow m then hashmap_grow ov calloc m else Some (0, m));
     if err \<noteq> 0 then Some (err, m)
     else if \<not> malloc_ok then Some (- ENOMEM, m)
     else do {
       let h = hash_bits ov (hash_fn m key) (hm_cap_bits m);
       bs \<leftarrow> update_chain h (\<lambda>chain. (key, val) # chain) (hm_buckets m);
       Some (0, m\<lparr>hm_buckets := bs, hm_sz := hm_sz m + 1\<rparr>)
     }
   }"

text \<open>The result is the return value, the old entry handed back through the pointers, and the
  table.\<close>

definition hashmap__insert ::
    "(u64 \<Rightarrow> u64) \<Rightarrow> (nat \<Rightarrow> bool) \<Rightarrow> bool \<Rightarrow> ('k, 'v) hashmap \<Rightarrow> 'k \<Rightarrow> 'v \<Rightarrow> insert_strategy
     \<Rightarrow> (int \<times> ('k \<times> 'v) option \<times> ('k, 'v) hashmap) option" where
  "hashmap__insert ov calloc malloc_ok m key val strategy = do {
     let h = hash_bits ov (hash_fn m key) (hm_cap_bits m);
     found \<leftarrow> (if strategy \<noteq> HASHMAP_APPEND then hashmap_find_entry m key h else Some None);
     case found of
       Some (i, entry) \<Rightarrow>
         if strategy = HASHMAP_SET \<or> strategy = HASHMAP_UPDATE then do {
           bs \<leftarrow> update_chain h (\<lambda>chain. chain[i := (key, val)]) (hm_buckets m);
           Some (0, Some entry, m\<lparr>hm_buckets := bs\<rparr>)
         }
         else Some (- EEXIST, Some entry, m)
     | None \<Rightarrow>
         if strategy = HASHMAP_UPDATE then Some (- ENOENT, None, m)
         else do {
           (err, m) \<leftarrow> hashmap_insert_new ov calloc malloc_ok m key val;
           Some (err, None, m)
         }
   }"

definition hashmap__find :: "(u64 \<Rightarrow> u64) \<Rightarrow> ('k, 'v) hashmap \<Rightarrow> 'k \<Rightarrow> 'v option option" where
  "hashmap__find ov m key = do {
     found \<leftarrow> hashmap_find_entry m key (hash_bits ov (hash_fn m key) (hm_cap_bits m));
     Some (map_option (\<lambda>(i, entry). snd entry) found)
   }"

definition hashmap__delete ::
    "(u64 \<Rightarrow> u64) \<Rightarrow> ('k, 'v) hashmap \<Rightarrow> 'k \<Rightarrow> (('k \<times> 'v) option \<times> ('k, 'v) hashmap) option" where
  "hashmap__delete ov m key = do {
     let h = hash_bits ov (hash_fn m key) (hm_cap_bits m);
     found \<leftarrow> hashmap_find_entry m key h;
     case found of
       None \<Rightarrow> Some (None, m)
     | Some (i, entry) \<Rightarrow> do {
         bs \<leftarrow> update_chain h (\<lambda>chain. hashmap_del_entry chain i) (hm_buckets m);
         Some (Some entry, m\<lparr>hm_buckets := bs, hm_sz := hm_sz m - 1\<rparr>)
       }
   }"

text \<open>\<^verbatim>\<open>hashmap__for_each_key_entry\<close>.\<close>

definition hashmap__for_each_key_entry :: "(u64 \<Rightarrow> u64) \<Rightarrow> ('k, 'v) hashmap \<Rightarrow> 'k \<Rightarrow> ('k \<times> 'v) list option" where
  "hashmap__for_each_key_entry ov m key = (case hm_buckets m of
     NullPtr \<Rightarrow> Some []
   | Dangling \<Rightarrow> None
   | Block bs \<Rightarrow> do {
       chain \<leftarrow> arr_get bs (hash_bits ov (hash_fn m key) (hm_cap_bits m));
       Some (filter (\<lambda>cur. equal_fn m (fst cur) key) chain)
     })"

text \<open>The four insertions of the header.\<close>

definition hashmap__add where
  "hashmap__add ov calloc malloc_ok m key val =
     map_option (\<lambda>(err, old, m). (err, m)) (hashmap__insert ov calloc malloc_ok m key val HASHMAP_ADD)"

definition hashmap__set where
  "hashmap__set ov calloc malloc_ok m key val = hashmap__insert ov calloc malloc_ok m key val HASHMAP_SET"

definition hashmap__update where
  "hashmap__update ov calloc malloc_ok m key val = hashmap__insert ov calloc malloc_ok m key val HASHMAP_UPDATE"

definition hashmap__append where
  "hashmap__append ov calloc malloc_ok m key val =
     map_option (\<lambda>(err, old, m). (err, m)) (hashmap__insert ov calloc malloc_ok m key val HASHMAP_APPEND)"

text \<open>The callbacks of the clients: the deduplication of type information uses numbers as keys
  (\<^verbatim>\<open>btf.c\<close>), its printer uses strings (\<^verbatim>\<open>btf_dump.c\<close>), whose characters are signed.\<close>

definition btf_dedup_identity_hash_fn :: "u64 \<Rightarrow> u64" where "btf_dedup_identity_hash_fn key = key"
definition btf_dedup_collision_hash_fn :: "u64 \<Rightarrow> u64" where "btf_dedup_collision_hash_fn key = 0"
definition btf_dedup_equal_fn :: "u64 \<Rightarrow> u64 \<Rightarrow> bool" where "btf_dedup_equal_fn k1 k2 \<longleftrightarrow> k1 = k2"

definition str_hash_fn :: "string \<Rightarrow> u64" where
  "str_hash_fn s = foldl (\<lambda>h c. h * 31 + signed (of_char c :: 8 word)) 0 s"

definition str_equal_fn :: "string \<Rightarrow> string \<Rightarrow> bool" where "str_equal_fn a b \<longleftrightarrow> a = b"

section \<open>The invariant\<close>

definition hm_content :: "('k, 'v) hashmap \<Rightarrow> ('k \<times> 'v) multiset" where
  "hm_content m = (case hm_buckets m of Block bs \<Rightarrow> mset (concat bs) | _ \<Rightarrow> {#})"

text \<open>A table with buckets has a power of two of them, every entry is in the chain of its hash, the
  size counts the entries and the table is at most three quarters full.\<close>

definition in_place :: "('k \<Rightarrow> nat) \<Rightarrow> ('k \<times> 'v) list list \<Rightarrow> bool" where
  "in_place ix bs \<longleftrightarrow> (\<forall>i < length bs. \<forall>e \<in> set (bs ! i). ix (fst e) = i)"

abbreviation hm_index :: "('k, 'v) hashmap \<Rightarrow> 'k \<Rightarrow> nat" where
  "hm_index m k \<equiv> hash_bits (\<lambda>x. x) (hash_fn m k) (hm_cap_bits m)"

definition hm_wf :: "('k, 'v) hashmap \<Rightarrow> bool" where
  "hm_wf m \<longleftrightarrow> (case hm_buckets m of
     NullPtr \<Rightarrow> hm_cap m = 0 \<and> hm_cap_bits m = 0 \<and> hm_sz m = 0
   | Dangling \<Rightarrow> False
   | Block bs \<Rightarrow> 2 \<le> hm_cap_bits m \<and> hm_cap_bits m \<le> 60 \<and> hm_cap m = 2 ^ hm_cap_bits m
       \<and> length bs = hm_cap m \<and> in_place (hm_index m) bs
       \<and> hm_sz m = length (concat bs) \<and> hm_sz m * 4 div 3 \<le> hm_cap m)"

lemma hash_bits_less: "0 < bits \<Longrightarrow> bits \<le> 64 \<Longrightarrow> hash_bits ov h bits < 2 ^ bits"
proof -
  assume b: "0 < bits" "bits \<le> 64"
  let ?w = "h * 11400714819323198485"
  have "unat ?w < 2 ^ LENGTH(64)" by (rule unsigned_less)
  also have "(2 :: nat) ^ LENGTH(64) = 2 ^ bits * 2 ^ (64 - bits)"
    using b by (simp flip: power_add)
  finally have "unat ?w div 2 ^ (64 - bits) < 2 ^ bits"
    by (rule less_mult_imp_div_less)
  moreover have "unat (drop_bit (64 - bits) ?w) = unat ?w div 2 ^ (64 - bits)"
    unfolding unat_drop_bit_eq by (simp add: drop_bit_eq_div)
  ultimately show ?thesis using b by (simp add: hash_bits_def del: drop_bit_eq_div)
qed

lemma hash_bits_ov: "0 < bits \<Longrightarrow> hash_bits ov h bits = hash_bits ov' h bits"
  by (simp add: hash_bits_def)

lemma hm_wf_block:
  assumes "hm_wf m" and "hm_buckets m = Block bs"
  shows "hm_index m k < length bs" "hash_bits ov (hash_fn m k) (hm_cap_bits m) = hm_index m k"
  using assms hash_bits_less [of "hm_cap_bits m" "\<lambda>x. x" "hash_fn m k"]
  by (auto simp: hm_wf_def intro: hash_bits_ov)

lemma hm_wf_load: "hm_wf m \<Longrightarrow> hm_buckets m = Block bs \<Longrightarrow> hm_sz m * 4 div 3 \<le> hm_cap m"
  by (auto simp only: hm_wf_def bucket_ptr.case)

section \<open>Chains\<close>

lemma mset_concat_update:
  "i < length bs \<Longrightarrow> mset (concat (bs[i := c])) + mset (bs ! i) = mset (concat bs) + mset c"
proof (induction bs arbitrary: i)
  case (Cons b bs)
  show ?case
  proof (cases i)
    case 0
    then show ?thesis by (simp add: union_ac)
  next
    case (Suc j)
    then have "mset (concat (bs[j := c])) + mset (bs ! j) = mset (concat bs) + mset c"
      using Cons by simp
    then have "mset b + (mset (concat (bs[j := c])) + mset (bs ! j)) = mset b + (mset (concat bs) + mset c)"
      by (rule arg_cong)
    then show ?thesis using Suc by (simp only: list_update_code nth_Cons_Suc concat.simps mset_append union_assoc)
  qed
qed simp

lemma in_place_update:
  "in_place ix bs \<Longrightarrow> \<forall>e \<in> set c. ix (fst e) = i \<Longrightarrow> in_place ix (bs[i := c])"
  unfolding in_place_def by (metis length_list_update nth_list_update_eq nth_list_update_neq)

lemma chain_find_some:
  "chain_find (=) key chain i = Some (j, e) \<Longrightarrow>
    i \<le> j \<and> j - i < length chain \<and> chain ! (j - i) = e \<and> fst e = key"
proof (induction chain arbitrary: i)
  case (Cons c chain)
  show ?case
  proof (cases "fst c = key")
    case False
    then have "chain_find (=) key chain (Suc i) = Some (j, e)" using Cons.prems by simp
    from Cons.IH [OF this] show ?thesis by (auto simp: nth_Cons' Suc_diff_Suc)
  qed (use Cons.prems in auto)
qed simp

lemma chain_find_none: "chain_find (=) key chain i = None \<longleftrightarrow> (\<forall>e \<in> set chain. fst e \<noteq> key)"
  by (induction chain arbitrary: i) auto

lemma find_entry_block:
  assumes "hm_wf m" and "hm_buckets m = Block bs" and "equal_fn m = (=)"
  shows "hashmap_find_entry m k (hm_index m k) = Some (chain_find (=) k (bs ! hm_index m k) 0)"
  using assms(2,3) hm_wf_block(1) [OF assms(1,2), of k] by (simp add: hashmap_find_entry_def arr_get_def)

text \<open>A key is somewhere in the table only when it is in its chain.\<close>

lemma content_chain:
  assumes "hm_wf m" and "hm_buckets m = Block bs"
  shows "(k, v) \<in># hm_content m \<longleftrightarrow> (k, v) \<in> set (bs ! hm_index m k)"
proof
  assume "(k, v) \<in># hm_content m"
  then obtain i where i: "i < length bs" "(k, v) \<in> set (bs ! i)"
    using assms(2) by (auto simp: hm_content_def) (metis in_set_conv_nth)
  then have "hm_index m k = i" using assms by (fastforce simp: hm_wf_def in_place_def)
  then show "(k, v) \<in> set (bs ! hm_index m k)" using i by simp
next
  assume "(k, v) \<in> set (bs ! hm_index m k)"
  then show "(k, v) \<in># hm_content m"
    using assms(2) hm_wf_block(1) [OF assms, of k] by (auto simp: hm_content_def)
qed

section \<open>What the operations do to the content\<close>

definition same_fns :: "('k, 'v) hashmap \<Rightarrow> ('k, 'v) hashmap \<Rightarrow> bool" where
  "same_fns m m' \<longleftrightarrow> hash_fn m' = hash_fn m \<and> equal_fn m' = equal_fn m"

lemma same_fns_refl [simp]: "same_fns m m"
  by (simp add: same_fns_def)

text \<open>Replacing one chain replaces the same entries in the content.\<close>

lemma replace_chain:
  assumes wf: "hm_wf m" and blk: "hm_buckets m = Block bs"
    and c: "\<forall>e \<in> set c. hm_index m (fst e) = hm_index m k"
    and diff: "mset c + R = mset (bs ! hm_index m k) + A"
    and sz: "sz' + size R = hm_sz m + size A" and load: "sz' * 4 div 3 \<le> hm_cap m"
  defines "m' \<equiv> m\<lparr>hm_buckets := Block (bs[hm_index m k := c]), hm_sz := sz'\<rparr>"
  shows "update_chain (hm_index m k) (\<lambda>_. c) (hm_buckets m) = Some (hm_buckets m')"
    and "hm_content m' + R = hm_content m + A" and "hm_wf m'"
proof -
  let ?i = "hm_index m k"
  have i: "?i < length bs" by (rule hm_wf_block(1) [OF wf blk])
  then show "update_chain ?i (\<lambda>_. c) (hm_buckets m) = Some (hm_buckets m')"
    using blk by (simp add: update_chain_def arr_get_def arr_set_def m'_def)
  have "hm_content m' + R + mset (bs ! ?i) = (mset (concat (bs[?i := c])) + mset (bs ! ?i)) + R"
    by (simp add: hm_content_def m'_def union_ac)
  also have "\<dots> = mset (concat bs) + (mset c + R)" 
    by (simp only: mset_concat_update [OF i] union_assoc)
  also have "\<dots> = hm_content m + A + mset (bs ! ?i)"
    unfolding diff by (simp add: blk hm_content_def union_ac)
  finally show eq: "hm_content m' + R = hm_content m + A" by simp
  have "size (hm_content m') + size R = size (hm_content m) + size A"
    using arg_cong [OF eq, of size] by simp
  then have "sz' = length (concat (bs[?i := c]))"
    using sz wf blk by (simp add: hm_content_def m'_def hm_wf_def size_mset [symmetric] del: size_mset)
  then show "hm_wf m'"
    using wf blk load in_place_update [OF _ c, of bs] by (simp add: hm_wf_def m'_def)
qed

lemma add_entries:
  assumes "\<And>e. e \<in> set es \<Longrightarrow> ix (fst e) < length nb" and "in_place ix nb"
  shows "\<exists>nb'. foldM (\<lambda>nb e. hashmap_add_entry nb (ix (fst e)) e) nb es = Some nb' \<and> length nb' = length nb
    \<and> in_place ix nb' \<and> mset (concat nb') = mset (concat nb) + mset es"
  using assms
proof (induction es arbitrary: nb)
  case (Cons e es)
  let ?i = "ix (fst e)"
  let ?nb = "nb[?i := e # nb ! ?i]"
  have i: "?i < length nb" using Cons.prems(1) by simp
  have "\<forall>x \<in> set (e # nb ! ?i). ix (fst x) = ?i" using Cons.prems(2) i by (auto simp: in_place_def)
  then have "in_place ix ?nb" using in_place_update [OF Cons.prems(2)] by blast
  from Cons.IH [OF _ this] Cons.prems(1) obtain nb' where
    nb': "foldM (\<lambda>nb e. hashmap_add_entry nb (ix (fst e)) e) ?nb es = Some nb'" "length nb' = length nb"
    "in_place ix nb'" "mset (concat nb') = mset (concat ?nb) + mset es"
    by auto
  have "mset (concat ?nb) = add_mset e (mset (concat nb))"
    using mset_concat_update [OF i, of "e # nb ! ?i"] by simp
  then show ?case using nb' i by (simp add: hashmap_add_entry_def arr_get_def arr_set_def)
qed simp

lemma for_each_entry_content:
  assumes "hm_wf m"
  shows "\<exists>es. hashmap__for_each_entry m = Some es \<and> mset es = hm_content m \<and> length es = hm_sz m"
  using assms by (auto simp: hm_wf_def hashmap__for_each_entry_def hm_content_def split: bucket_ptr.splits)

lemma grow_spec:
  assumes wf: "hm_wf m"
  shows "hashmap_grow ov calloc m = Some (- ENOMEM, m) \<or>
    (\<exists>m'. hashmap_grow ov calloc m = Some (0, m') \<and> hm_wf m' \<and> same_fns m m' \<and> hm_content m' = hm_content m
      \<and> hm_sz m' = hm_sz m \<and> hm_buckets m' \<noteq> NullPtr \<and> (hm_sz m' + 1) * 4 div 3 \<le> hm_cap m')"
proof -
  define bits where "bits = max (hm_cap_bits m + 1) HASHMAP_MIN_CAP_BITS"
  define ix where "ix k = hash_bits (\<lambda>x. x) (hash_fn m k) bits" for k
  show ?thesis
  proof (cases "calloc (2 ^ bits) \<and> (2 :: nat) ^ bits * 8 < 2 ^ 64")
    case False
    then show ?thesis by (simp add: hashmap_grow_def Let_def bits_def)
  next
    case True
    then have "(2 :: nat) ^ (bits + 3) < 2 ^ 64" by (simp add: power_add)
    then have "bits + 3 < 64" by (rule power_less_imp_less_exp [rotated]) simp
    then have bits: "2 \<le> bits" "bits \<le> 60" by (auto simp: bits_def HASHMAP_MIN_CAP_BITS_def)
    obtain es where es: "hashmap__for_each_entry m = Some es" "mset es = hm_content m" "length es = hm_sz m"
      using for_each_entry_content [OF wf] by blast
    have ov: "hash_bits ov (hash_fn m k) bits = ix k" for k
      unfolding ix_def using bits by (intro hash_bits_ov) simp
    have "ix k < length (replicate (2 ^ bits) ([] :: ('a \<times> 'b) list))" for k
      unfolding ix_def using bits by (simp add: hash_bits_less)
    moreover have "in_place ix (replicate (2 ^ bits) ([] :: ('a \<times> 'b) list))" by (simp add: in_place_def)
    ultimately obtain nb where nb: "foldM (\<lambda>nb e. hashmap_add_entry nb (ix (fst e)) e) (replicate (2 ^ bits) []) es = Some nb"
      "length nb = 2 ^ bits" "in_place ix nb" "mset (concat nb) = mset es"
      using add_entries [of es ix "replicate (2 ^ bits) []"] by auto
    let ?m = "m\<lparr>hm_cap := 2 ^ bits, hm_cap_bits := bits, hm_buckets := Block nb\<rparr>"
    have "hashmap_grow ov calloc m = Some (0, ?m)"
      using True es(1) nb(1) wf unfolding hashmap_grow_def Let_def bits_def [symmetric] ov
      by (auto simp: hm_wf_def)
    moreover have room: "(hm_sz m + 1) * 4 div 3 \<le> 2 ^ bits"
    proof (cases "hm_buckets m")
      case (Block bs)
      then have "2 ^ bits = 2 * hm_cap m" "hm_sz m * 4 div 3 \<le> hm_cap m" "4 \<le> hm_cap m"
        using wf power_increasing [of 2 "hm_cap_bits m" "2 :: nat"]
        by (auto simp: hm_wf_def bits_def HASHMAP_MIN_CAP_BITS_def max_def)
      then show ?thesis by simp
    qed (use wf power_increasing [OF bits(1), of "2 :: nat"] in \<open>auto simp: hm_wf_def\<close>)
    moreover have "hm_sz m = length (concat nb)" using arg_cong [OF nb(4), of size] es(3) by simp
    then have "hm_wf ?m"
      using bits nb(2,3) room by (simp add: hm_wf_def ix_def [abs_def])
    moreover have "hm_content ?m = hm_content m" using nb(4) es(2) by (simp add: hm_content_def)
    ultimately show ?thesis by (auto simp: same_fns_def)
  qed
qed

lemma insert_new_spec:
  assumes wf: "hm_wf m"
  shows "\<exists>e m'. hashmap_insert_new ov calloc malloc_ok m k v = Some (e, m') \<and> hm_wf m' \<and> same_fns m m'
    \<and> (e = 0 \<and> hm_content m' = add_mset (k, v) (hm_content m) \<or> e = - ENOMEM \<and> hm_content m' = hm_content m)"
proof -
  define g where "g = (if hashmap_needs_to_grow m then hashmap_grow ov calloc m else Some (0, m))"
  have "g = Some (- ENOMEM, m) \<or> (\<exists>m1. g = Some (0, m1) \<and> hm_wf m1 \<and> same_fns m m1 \<and> hm_content m1 = hm_content m
      \<and> (hm_sz m1 + 1) * 4 div 3 \<le> hm_cap m1 \<and> hm_buckets m1 \<noteq> NullPtr)"
  proof (cases "hashmap_needs_to_grow m")
    case True
    then show ?thesis using grow_spec [OF wf, of ov calloc] by (auto simp: g_def)
  next
    case False
    then show ?thesis using wf by (auto simp: g_def hashmap_needs_to_grow_def hm_wf_def)
  qed
  then consider "g = Some (- ENOMEM, m)" | m1 where "g = Some (0, m1)" "hm_wf m1" "same_fns m m1"
      "hm_content m1 = hm_content m" "(hm_sz m1 + 1) * 4 div 3 \<le> hm_cap m1" "hm_buckets m1 \<noteq> NullPtr"
    by blast
  then show ?thesis
  proof cases
    case 1
    then show ?thesis using wf by (simp add: hashmap_insert_new_def ENOMEM_def flip: g_def)
  next
    case 2
    then obtain bs where bs: "hm_buckets m1 = Block bs" by (cases "hm_buckets m1") (auto simp: hm_wf_def)
    let ?c = "(k, v) # bs ! hm_index m1 k"
    have c: "\<forall>e \<in> set ?c. hm_index m1 (fst e) = hm_index m1 k"
      using 2(2) bs hm_wf_block(1) [OF 2(2) bs, of k] by (auto simp: hm_wf_def in_place_def)
    have "mset ?c + {#} = mset (bs ! hm_index m1 k) + {#(k, v)#}" by simp
    note r = replace_chain [OF 2(2) bs c this, of "hm_sz m1 + 1"]
    have "hashmap_insert_new ov calloc malloc_ok m k v = (if malloc_ok
        then Some (0, m1\<lparr>hm_buckets := Block (bs[hm_index m1 k := ?c]), hm_sz := hm_sz m1 + 1\<rparr>)
        else Some (- ENOMEM, m1))"
      using 2(1) bs hm_wf_block(1) [OF 2(2) bs, of k] hm_wf_block(2) [OF 2(2) bs, of ov k]
      by (simp add: hashmap_insert_new_def Let_def update_chain_def arr_get_def arr_set_def flip: g_def)
    then show ?thesis using 2 r(2,3) by (auto simp: same_fns_def)
  qed
qed

lemma find_entry_null:
  "hm_wf m \<Longrightarrow> hm_buckets m = NullPtr \<Longrightarrow> hm_content m = {#}"
  by (simp add: hm_content_def)

text \<open>Finding an entry: either the place of one entry of the key, or the key is not there.\<close>

lemma find_entry_spec:
  assumes wf: "hm_wf m" and eq: "equal_fn m = (=)"
  shows "(hashmap_find_entry m k (hash_bits ov (hash_fn m k) (hm_cap_bits m)) = Some None \<and> (\<forall>v. (k, v) \<notin># hm_content m))
    \<or> (\<exists>bs j v. hm_buckets m = Block bs \<and> hash_bits ov (hash_fn m k) (hm_cap_bits m) = hm_index m k
        \<and> hashmap_find_entry m k (hm_index m k) = Some (Some (j, (k, v)))
        \<and> j < length (bs ! hm_index m k) \<and> bs ! hm_index m k ! j = (k, v) \<and> (k, v) \<in># hm_content m)"
proof (cases "hm_buckets m")
  case NullPtr
  then show ?thesis using find_entry_null [OF wf] by (simp add: hashmap_find_entry_def)
next
  case Dangling
  then show ?thesis using wf by (simp add: hm_wf_def)
next
  case (Block bs)
  let ?chain = "bs ! hm_index m k"
  note fe = find_entry_block [OF wf Block eq, of k] and ov = hm_wf_block(2) [OF wf Block, of ov k]
  show ?thesis
  proof (cases "chain_find (=) k ?chain 0")
    case None
    then show ?thesis
      using fe chain_find_none [of k ?chain 0] content_chain [OF wf Block, of k] by (auto simp: ov)
  next
    case (Some je)
    then obtain j e where je: "chain_find (=) k ?chain 0 = Some (j, e)" by (cases je) auto
    from chain_find_some [OF je] have "j < length ?chain" "?chain ! j = e" "fst e = k" by auto
    moreover obtain v where "e = (k, v)" using \<open>fst e = k\<close> by (cases e) auto
    ultimately show ?thesis
      using fe je Block content_chain [OF wf Block, of k v] by (auto simp: ov) (metis nth_mem)
  qed
qed

lemma update_found:
  assumes wf: "hm_wf m" and bs: "hm_buckets m = Block bs"
    and j: "j < length (bs ! hm_index m k)" "bs ! hm_index m k ! j = (k, w)"
  shows "\<exists>m'. update_chain (hm_index m k) (\<lambda>chain. chain[j := (k, v)]) (hm_buckets m) = Some (hm_buckets m')
    \<and> m' = m\<lparr>hm_buckets := hm_buckets m'\<rparr> \<and> hm_wf m' \<and> hm_content m' + {#(k, w)#} = hm_content m + {#(k, v)#}"
proof -
  let ?chain = "bs ! hm_index m k" and ?c = "(bs ! hm_index m k)[j := (k, v)]"
  have i: "hm_index m k < length bs" by (rule hm_wf_block(1) [OF wf bs])
  have c: "\<forall>e \<in> set ?c. hm_index m (fst e) = hm_index m k"
    using wf bs i set_update_subset_insert [of ?chain j "(k, v)"] by (force simp: hm_wf_def in_place_def)
  have "mset ?c + {#(k, w)#} = mset ?chain + {#(k, v)#}"
    using j by (simp add: mset_update) (metis add_mset_diff_bothsides diff_single_trivial insert_DiffM nth_mem_mset)
  note r = replace_chain [OF wf bs c this, of "hm_sz m"]
  let ?m = "m\<lparr>hm_buckets := Block (bs[hm_index m k := ?c]), hm_sz := hm_sz m\<rparr>"
  have "hm_sz m * 4 div 3 \<le> hm_cap m" by (rule hm_wf_load [OF wf bs])
  then show ?thesis
    using r(2,3) bs i by (intro exI [of _ ?m]) (simp add: update_chain_def arr_get_def arr_set_def)
qed

lemma insert_spec:
  assumes wf: "hm_wf m" and eq: "equal_fn m = (=)"
  shows "\<exists>e old m'. hashmap__insert ov calloc malloc_ok m k v strategy = Some (e, old, m') \<and> hm_wf m' \<and> same_fns m m' \<and>
    (if strategy \<noteq> HASHMAP_APPEND \<and> (\<exists>w. (k, w) \<in># hm_content m) then
       (\<exists>w. old = Some (k, w) \<and> (k, w) \<in># hm_content m \<and>
         (if strategy = HASHMAP_ADD then e = - EEXIST \<and> m' = m
          else e = 0 \<and> hm_content m' + {#(k, w)#} = hm_content m + {#(k, v)#}))
     else old = None \<and>
       (if strategy = HASHMAP_UPDATE then e = - ENOENT \<and> m' = m
        else e = 0 \<and> hm_content m' = add_mset (k, v) (hm_content m) \<or> e = - ENOMEM \<and> hm_content m' = hm_content m))"
proof -
  let ?h = "hash_bits ov (hash_fn m k) (hm_cap_bits m)"
  note defs = hashmap__insert_def Let_def
  from insert_new_spec [OF wf, of ov calloc malloc_ok k v] obtain e m1 where
    new: "hashmap_insert_new ov calloc malloc_ok m k v = Some (e, m1)" "hm_wf m1" "same_fns m m1"
    "e = 0 \<and> hm_content m1 = add_mset (k, v) (hm_content m) \<or> e = - ENOMEM \<and> hm_content m1 = hm_content m"
    by blast
  from find_entry_spec [OF wf eq, of k ov] show ?thesis
  proof
    assume a: "hashmap_find_entry m k ?h = Some None \<and> (\<forall>v. (k, v) \<notin># hm_content m)"
    then have "hashmap__insert ov calloc malloc_ok m k v strategy
        = (if strategy = HASHMAP_UPDATE then Some (- ENOENT, None, m) else Some (e, None, m1))"
      using new(1) by (simp add: defs)
    then show ?thesis using a new wf by (cases "strategy = HASHMAP_UPDATE") auto
  next
    assume "\<exists>bs j w. hm_buckets m = Block bs \<and> ?h = hm_index m k
      \<and> hashmap_find_entry m k (hm_index m k) = Some (Some (j, (k, w)))
      \<and> j < length (bs ! hm_index m k) \<and> bs ! hm_index m k ! j = (k, w) \<and> (k, w) \<in># hm_content m"
    then obtain bs j w where b: "hm_buckets m = Block bs" "?h = hm_index m k"
      "hashmap_find_entry m k (hm_index m k) = Some (Some (j, (k, w)))"
      "j < length (bs ! hm_index m k)" "bs ! hm_index m k ! j = (k, w)" "(k, w) \<in># hm_content m"
      by blast
    obtain m2 where m2: "update_chain (hm_index m k) (\<lambda>chain. chain[j := (k, v)]) (hm_buckets m) = Some (hm_buckets m2)"
      "m2 = m\<lparr>hm_buckets := hm_buckets m2\<rparr>" "hm_wf m2" "hm_content m2 + {#(k, w)#} = hm_content m + {#(k, v)#}"
      using update_found [OF wf b(1,4,5)] by blast
    have "same_fns m m2" by (subst m2(2)) (simp add: same_fns_def)
    have "hashmap__insert ov calloc malloc_ok m k v strategy = (case strategy of
        HASHMAP_ADD \<Rightarrow> Some (- EEXIST, Some (k, w), m) | HASHMAP_APPEND \<Rightarrow> Some (e, None, m1)
      | _ \<Rightarrow> Some (0, Some (k, w), m2))"
      using new(1) b(2,3) m2(1) by (cases strategy) (simp_all add: defs flip: m2(2))
    then show ?thesis
      using new m2(3,4) b(6) wf \<open>same_fns m m2\<close> by (cases strategy) auto
  qed
qed

lemma delete_spec:
  assumes wf: "hm_wf m" and eq: "equal_fn m = (=)"
  shows "\<exists>old m'. hashmap__delete ov m k = Some (old, m') \<and> hm_wf m' \<and> same_fns m m' \<and>
    (case old of None \<Rightarrow> m' = m \<and> (\<forall>v. (k, v) \<notin># hm_content m)
     | Some e \<Rightarrow> fst e = k \<and> add_mset e (hm_content m') = hm_content m)"
proof -
  let ?h = "hash_bits ov (hash_fn m k) (hm_cap_bits m)"
  from find_entry_spec [OF wf eq, of k ov] show ?thesis
  proof
    assume "hashmap_find_entry m k ?h = Some None \<and> (\<forall>v. (k, v) \<notin># hm_content m)"
    then show ?thesis using wf by (simp add: hashmap__delete_def Let_def)
  next
    assume "\<exists>bs j w. hm_buckets m = Block bs \<and> ?h = hm_index m k
      \<and> hashmap_find_entry m k (hm_index m k) = Some (Some (j, (k, w)))
      \<and> j < length (bs ! hm_index m k) \<and> bs ! hm_index m k ! j = (k, w) \<and> (k, w) \<in># hm_content m"
    then obtain bs j w where b: "hm_buckets m = Block bs" "?h = hm_index m k"
      "hashmap_find_entry m k (hm_index m k) = Some (Some (j, (k, w)))"
      "j < length (bs ! hm_index m k)" "bs ! hm_index m k ! j = (k, w)" "(k, w) \<in># hm_content m"
      by blast
    let ?chain = "bs ! hm_index m k"
    let ?c = "hashmap_del_entry ?chain j"
    have i: "hm_index m k < length bs" by (rule hm_wf_block(1) [OF wf b(1)])
    have "set ?c \<subseteq> set ?chain"
      unfolding hashmap_del_entry_def by (auto dest: in_set_takeD in_set_dropD)
    then have c: "\<forall>e \<in> set ?c. hm_index m (fst e) = hm_index m k"
      using wf b(1) i by (force simp: hm_wf_def in_place_def)
    have "?chain = take j ?chain @ (k, w) # drop (Suc j) ?chain"
      using id_take_nth_drop [OF b(4)] b(5) by simp
    then have "mset ?c + {#(k, w)#} = mset ?chain + {#}"
      unfolding hashmap_del_entry_def by (metis mset_append mset.simps(2) union_mset_add_mset_right add.right_neutral add_mset_add_single)
    note r = replace_chain [OF wf b(1) c this, of "hm_sz m - 1"]
    have "size (hm_content m) = hm_sz m" using wf b(1) by (simp add: hm_content_def hm_wf_def)
    then have "0 < hm_sz m" using b(6) by (metis empty_not_add_mset gr0I multi_member_split size_eq_0_iff_empty)
    moreover have "hm_sz m * 4 div 3 \<le> hm_cap m" by (rule hm_wf_load [OF wf b(1)])
    moreover have "hashmap__delete ov m k
        = Some (Some (k, w), m\<lparr>hm_buckets := Block (bs[hm_index m k := ?c]), hm_sz := hm_sz m - 1\<rparr>)"
      using b(1-3) i by (simp add: hashmap__delete_def Let_def update_chain_def arr_get_def arr_set_def)
    ultimately show ?thesis using r(2,3) by (auto simp: same_fns_def)
  qed
qed

section \<open>The contract of a finite map\<close>

text \<open>The operations of a map whose insertions may fail for lack of memory: \<open>get\<close> returns the value
  of a key, \<open>put\<close> whether it succeeded, \<open>del\<close> whether there was something to delete. The additional
  argument of \<open>put\<close> stands for the answers of the allocator.\<close>

datatype ('a, 'k, 'v) map_op = PutOp 'a 'k 'v | DelOp 'k

fun map_step :: "('m \<Rightarrow> 'a \<Rightarrow> 'k \<Rightarrow> 'v \<Rightarrow> (bool \<times> 'm) option) \<Rightarrow> ('m \<Rightarrow> 'k \<Rightarrow> (bool \<times> 'm) option)
    \<Rightarrow> 'm \<times> ('k \<rightharpoonup> 'v) \<Rightarrow> ('a, 'k, 'v) map_op \<Rightarrow> ('m \<times> ('k \<rightharpoonup> 'v)) option" where
  "map_step put del (m, f) (PutOp a k v) = do {
     (ok, m') \<leftarrow> put m a k v;
     Some (m', if ok then f(k \<mapsto> v) else f)
   }"
| "map_step put del (m, f) (DelOp k) = do {
     (ok, m') \<leftarrow> del m k;
     Some (m', f(k := None))
   }"

locale finite_map_impl =
  fixes inv :: "'m \<Rightarrow> bool"
    and get :: "'m \<Rightarrow> 'k \<Rightarrow> 'v option option"
    and put :: "'m \<Rightarrow> 'a \<Rightarrow> 'k \<Rightarrow> 'v \<Rightarrow> (bool \<times> 'm) option"
    and del :: "'m \<Rightarrow> 'k \<Rightarrow> (bool \<times> 'm) option"
    and count_of :: "'m \<Rightarrow> nat"
  assumes put_get: "inv m \<Longrightarrow> \<exists>ok m'. put m a k v = Some (ok, m') \<and> inv m'
      \<and> (\<forall>j. get m' j = (if ok \<and> j = k then Some (Some v) else get m j))"
    and del_get: "inv m \<Longrightarrow> \<exists>m'. del m k = Some (get m k \<noteq> Some None, m') \<and> inv m'
      \<and> (\<forall>j. get m' j = (if j = k then Some None else get m j))"
    and get_count: "inv m \<Longrightarrow> (\<And>j. get m j = Some (f j)) \<Longrightarrow> finite (dom f) \<and> count_of m = card (dom f)"
begin

lemma map_run:
  assumes "inv m" and "\<And>j. get m j = Some (f j)"
  shows "\<exists>m' f'. foldM (map_step put del) (m, f) ops = Some (m', f') \<and> inv m' \<and> (\<forall>j. get m' j = Some (f' j))"
  using assms
proof (induction ops arbitrary: m f)
  case (Cons x ops)
  show ?case
  proof (cases x)
    case (PutOp a k v)
    obtain ok m1 where p: "put m a k v = Some (ok, m1)" "inv m1"
      "\<forall>j. get m1 j = (if ok \<and> j = k then Some (Some v) else get m j)"
      using put_get [OF Cons.prems(1)] by blast
    have "get m1 j = Some ((if ok then f(k \<mapsto> v) else f) j)" for j using p(3) Cons.prems(2) by simp
    from Cons.IH [OF p(2), of "if ok then f(k \<mapsto> v) else f", OF this] show ?thesis using p(1) by (simp add: PutOp)
  next
    case (DelOp k)
    obtain b m1 where p: "del m k = Some (b, m1)" "inv m1" "\<forall>j. get m1 j = (if j = k then Some None else get m j)"
      using del_get [OF Cons.prems(1)] by blast
    have "get m1 j = Some ((f(k := None)) j)" for j using p(3) Cons.prems(2) by simp
    from Cons.IH [OF p(2), of "f(k := None)", OF this] show ?thesis using p(1) by (simp add: DelOp fun_upd_def)
  qed
qed simp

end

section \<open>The hash table as a finite map\<close>

definition unique_keys :: "('k \<times> 'v) multiset \<Rightarrow> bool" where
  "unique_keys C \<longleftrightarrow> (\<forall>k. count (image_mset fst C) k \<le> 1)"

definition map_inv :: "('k, 'v) hashmap \<Rightarrow> bool" where
  "map_inv m \<longleftrightarrow> hm_wf m \<and> equal_fn m = (=) \<and> unique_keys (hm_content m)"

definition hm_put :: "(u64 \<Rightarrow> u64) \<Rightarrow> ('k, 'v) hashmap \<Rightarrow> (nat \<Rightarrow> bool) \<times> bool \<Rightarrow> 'k \<Rightarrow> 'v \<Rightarrow> (bool \<times> ('k, 'v) hashmap) option" where
  "hm_put ov m a k v = map_option (\<lambda>(err, old, m'). (err = 0, m')) (hashmap__set ov (fst a) (snd a) m k v)"

definition hm_del :: "(u64 \<Rightarrow> u64) \<Rightarrow> ('k, 'v) hashmap \<Rightarrow> 'k \<Rightarrow> (bool \<times> ('k, 'v) hashmap) option" where
  "hm_del ov m k = map_option (\<lambda>(old, m'). (old \<noteq> None, m')) (hashmap__delete ov m k)"

lemma unique_keys_add: "unique_keys (add_mset (k, v) C) \<longleftrightarrow> unique_keys C \<and> (\<forall>w. (k, w) \<notin># C)"
proof -
  have step: "(\<forall>j. (if j = k then Suc (c j) else c j) \<le> 1) \<longleftrightarrow> (\<forall>j. c j \<le> 1) \<and> c k = 0" for c :: "'a \<Rightarrow> nat"
  proof
    assume a: "\<forall>j. (if j = k then Suc (c j) else c j) \<le> 1"
    then have "c k = 0" using spec [OF a, of k] by simp
    moreover have "c j \<le> 1" for j using spec [OF a, of j] by (simp split: if_splits)
    ultimately show "(\<forall>j. c j \<le> 1) \<and> c k = 0" by blast
  qed auto
  have "count (image_mset fst C) k = 0 \<longleftrightarrow> k \<notin> fst ` set_mset C" by (simp add: count_eq_zero_iff)
  also have "\<dots> \<longleftrightarrow> (\<forall>w. (k, w) \<notin># C)" by (auto simp: image_iff)
  finally have none: "count (image_mset fst C) k = 0 \<longleftrightarrow> (\<forall>w. (k, w) \<notin># C)" .
  have "count (image_mset fst (add_mset (k, v) C)) j
      = (if j = k then Suc (count (image_mset fst C) j) else count (image_mset fst C) j)" for j
    by simp
  then show ?thesis unfolding unique_keys_def by (simp only: step none)
qed

lemma unique_keys_same:
  "unique_keys C \<Longrightarrow> (k, v) \<in># C \<Longrightarrow> (k, w) \<in># C \<Longrightarrow> w = v"
  by (metis add_mset_remove_trivial_If insert_DiffM insert_noteq_member prod.inject unique_keys_add)

lemma find_spec:
  assumes "hm_wf m" and "equal_fn m = (=)"
  shows "\<exists>r. hashmap__find ov m k = Some r \<and>
    (case r of None \<Rightarrow> \<forall>v. (k, v) \<notin># hm_content m | Some v \<Rightarrow> (k, v) \<in># hm_content m)"
  using find_entry_spec [OF assms, of k ov] by (fastforce simp: hashmap__find_def)

lemma find_iff:
  assumes "map_inv m"
  shows "hashmap__find ov m k = Some (Some v) \<longleftrightarrow> (k, v) \<in># hm_content m"
    and "hashmap__find ov m k = Some None \<longleftrightarrow> (\<forall>v. (k, v) \<notin># hm_content m)"
  using assms find_spec [of m ov k] unique_keys_same [of "hm_content m" k]
  by (auto simp: map_inv_def split: option.splits)

lemma find_defined: "map_inv m \<Longrightarrow> \<exists>r. hashmap__find ov m k = Some r"
  using find_spec [of m ov k] by (auto simp: map_inv_def)

text \<open>The value of a key is determined by the content.\<close>

lemma find_eqI:
  assumes "map_inv m" and "map_inv m'" and "\<And>v. (j, v) \<in># hm_content m' \<longleftrightarrow> (j, v) \<in># hm_content m"
  shows "hashmap__find ov m' j = hashmap__find ov m j"
proof -
  obtain r where r: "hashmap__find ov m j = Some r" using find_defined [OF assms(1)] by blast
  show ?thesis
    using r find_iff [OF assms(1), of ov j] find_iff [OF assms(2), of ov j] assms(3)
    by (cases r) (simp, metis+)
qed

lemma set_spec:
  assumes "hm_wf m" and "equal_fn m = (=)"
  shows "\<exists>e old m'. hashmap__insert ov calloc malloc_ok m k v HASHMAP_SET = Some (e, old, m') \<and> hm_wf m' \<and> same_fns m m' \<and>
    (if \<exists>w. (k, w) \<in># hm_content m
     then \<exists>w. (k, w) \<in># hm_content m \<and> e = 0 \<and> hm_content m' + {#(k, w)#} = hm_content m + {#(k, v)#}
     else e = 0 \<and> hm_content m' = add_mset (k, v) (hm_content m) \<or> e = - ENOMEM \<and> hm_content m' = hm_content m)"
  using insert_spec [OF assms, of ov calloc malloc_ok k v HASHMAP_SET]
  by (simp only: insert_strategy.distinct if_False simp_thms) (metis (full_types))

lemma hm_put_law:
  assumes inv: "map_inv m"
  shows "\<exists>ok m'. hm_put ov m a k v = Some (ok, m') \<and> map_inv m'
    \<and> (\<forall>j. hashmap__find ov m' j = (if ok \<and> j = k then Some (Some v) else hashmap__find ov m j))"
proof -
  have wf: "hm_wf m" "equal_fn m = (=)" and u: "unique_keys (hm_content m)"
    using inv by (simp_all add: map_inv_def)
  obtain e old m' where ins: "hashmap__insert ov (fst a) (snd a) m k v HASHMAP_SET = Some (e, old, m')"
    and m': "hm_wf m'" "same_fns m m'"
    and cases: "if \<exists>w. (k, w) \<in># hm_content m
      then \<exists>w. (k, w) \<in># hm_content m \<and> e = 0 \<and> hm_content m' + {#(k, w)#} = hm_content m + {#(k, v)#}
      else e = 0 \<and> hm_content m' = add_mset (k, v) (hm_content m) \<or> e = - ENOMEM \<and> hm_content m' = hm_content m"
    using set_spec [OF wf, of ov "fst a" "snd a" k v] by blast
  then have put: "hm_put ov m a k v = Some (e = 0, m')" by (simp add: hm_put_def hashmap__set_def)
  have eq': "equal_fn m' = (=)" using m'(2) wf(2) by (simp add: same_fns_def)
  consider (stored) C where "e = 0" "hm_content m' = add_mset (k, v) C" "\<forall>w. (k, w) \<notin># C" "unique_keys C"
      "\<And>j w. j \<noteq> k \<Longrightarrow> (j, w) \<in># C \<longleftrightarrow> (j, w) \<in># hm_content m"
    | (failed) "e \<noteq> 0" "hm_content m' = hm_content m"
  proof (cases "\<exists>w. (k, w) \<in># hm_content m")
    case True
    then obtain w where w: "(k, w) \<in># hm_content m" "e = 0"
      "hm_content m' + {#(k, w)#} = hm_content m + {#(k, v)#}" using cases by auto
    then obtain C where C: "hm_content m = add_mset (k, w) C" by (metis insert_DiffM)
    then have "hm_content m' = add_mset (k, v) C" using w(3) by simp
    then show ?thesis using C u w(2) that(1) by (simp add: unique_keys_add)
  next
    case False
    then show ?thesis using cases u that(1) [of "hm_content m"] that(2) by (auto simp: ENOMEM_def)
  qed
  then show ?thesis
  proof cases
    case stored
    have "map_inv m'" using m'(1) eq' stored by (simp add: map_inv_def unique_keys_add)
    moreover have "hashmap__find ov m' j = hashmap__find ov m j" if "j \<noteq> k" for j
      using stored that by (intro find_eqI [OF inv \<open>map_inv m'\<close>]) auto
    moreover have "hashmap__find ov m' k = Some (Some v)"
      using stored(2) by (simp add: find_iff(1) [OF \<open>map_inv m'\<close>])
    ultimately show ?thesis using put stored(1) by auto
  next
    case failed
    have "map_inv m'" using m'(1) eq' failed(2) u by (simp add: map_inv_def)
    then have "hashmap__find ov m' j = hashmap__find ov m j" for j
      using failed(2) by (intro find_eqI [OF inv]) auto
    then show ?thesis using put failed(1) \<open>map_inv m'\<close> by auto
  qed
qed

lemma hm_del_law:
  assumes inv: "map_inv m"
  shows "\<exists>m'. hm_del ov m k = Some (hashmap__find ov m k \<noteq> Some None, m') \<and> map_inv m'
    \<and> (\<forall>j. hashmap__find ov m' j = (if j = k then Some None else hashmap__find ov m j))"
proof -
  have wf: "hm_wf m" "equal_fn m = (=)" and u: "unique_keys (hm_content m)"
    using inv by (simp_all add: map_inv_def)
  obtain old m' where d: "hashmap__delete ov m k = Some (old, m')" "hm_wf m'" "same_fns m m'"
    and cases: "case old of None \<Rightarrow> m' = m \<and> (\<forall>v. (k, v) \<notin># hm_content m)
     | Some e \<Rightarrow> fst e = k \<and> add_mset e (hm_content m') = hm_content m"
    using delete_spec [OF wf, of ov k] by blast
  have eq': "equal_fn m' = (=)" using d(3) wf(2) by (simp add: same_fns_def)
  show ?thesis
  proof (cases old)
    case None
    then show ?thesis using d(1) cases inv find_iff(2) [OF inv, of ov k] by (auto simp: hm_del_def)
  next
    case (Some e)
    then obtain v where "e = (k, v)" using cases by (cases e) auto
    then have c: "hm_content m = add_mset (k, v) (hm_content m')" using cases Some by simp
    have inv': "map_inv m'" using d(2) eq' u c by (simp add: map_inv_def unique_keys_add)
    have gone: "hashmap__find ov m' k = Some None"
      using u c by (simp add: find_iff(2) [OF inv'] unique_keys_add)
    have "hashmap__find ov m k = Some (Some v)" using c by (simp add: find_iff(1) [OF inv])
    moreover have "hashmap__find ov m' j = hashmap__find ov m j" if "j \<noteq> k" for j
      using c that by (intro find_eqI [OF inv inv']) auto
    ultimately show ?thesis using d(1) Some inv' gone by (auto simp: hm_del_def)
  qed
qed

lemma unique_card: "unique_keys C \<Longrightarrow> size C = card (fst ` set_mset C)"
  by (induction C) (auto simp: unique_keys_add card_insert_if image_iff)

lemma hm_count_law:
  assumes inv: "map_inv m" and "\<And>j. hashmap__find ov m j = Some (f j)"
  shows "finite (dom f) \<and> hashmap__size m = card (dom f)"
proof -
  have "dom f = fst ` set_mset (hm_content m)"
  proof (intro set_eqI)
    fix k
    have "k \<in> dom f \<longleftrightarrow> hashmap__find ov m k \<noteq> Some None" using assms(2) by auto
    also have "\<dots> \<longleftrightarrow> k \<in> fst ` set_mset (hm_content m)" using find_iff(2) [OF inv] by force
    finally show "k \<in> dom f \<longleftrightarrow> k \<in> fst ` set_mset (hm_content m)" .
  qed
  moreover have "hashmap__size m = size (hm_content m)"
    using inv by (auto simp: map_inv_def hm_wf_def hashmap__size_def hm_content_def split: bucket_ptr.splits)
  ultimately show ?thesis
    using inv unique_card [of "hm_content m"] by (simp add: map_inv_def)
qed

interpretation hm: finite_map_impl map_inv "hashmap__find ov" "hm_put ov" "hm_del ov" hashmap__size for ov
proof
  show "\<And>m a k v. map_inv m \<Longrightarrow> \<exists>ok m'. hm_put ov m a k v = Some (ok, m') \<and> map_inv m'
      \<and> (\<forall>j. hashmap__find ov m' j = (if ok \<and> j = k then Some (Some v) else hashmap__find ov m j))"
    by (rule hm_put_law)
  show "\<And>m k. map_inv m \<Longrightarrow> \<exists>m'. hm_del ov m k = Some (hashmap__find ov m k \<noteq> Some None, m') \<and> map_inv m'
      \<and> (\<forall>j. hashmap__find ov m' j = (if j = k then Some None else hashmap__find ov m j))"
    by (rule hm_del_law)
  show "\<And>m f. map_inv m \<Longrightarrow> (\<And>j. hashmap__find ov m j = Some (f j)) \<Longrightarrow> finite (dom f) \<and> hashmap__size m = card (dom f)"
    by (rule hm_count_law)
qed

lemma map_inv_init: "map_inv (hashmap__init hash (=))" "hashmap__find ov (hashmap__init hash (=)) k = Some None"
  by (simp_all add: map_inv_def hashmap__init_def hm_wf_def hm_content_def unique_keys_def hashmap__find_def
      hashmap_find_entry_def)

section \<open>Properties\<close>


text \<open>What an insertion does to the entries of a well-formed table, for each strategy: a key that
  is present is refused by \<^verbatim>\<open>HASHMAP_ADD\<close> and its entry replaced by \<^verbatim>\<open>HASHMAP_SET\<close> and
  \<^verbatim>\<open>HASHMAP_UPDATE\<close>, the old entry being handed back; a key that is not is refused by
  \<^verbatim>\<open>HASHMAP_UPDATE\<close>; otherwise, and always with \<^verbatim>\<open>HASHMAP_APPEND\<close>, one entry is added to the others or
  the allocator failed and the entries are the same, even if the table was rehashed. The table
  stays well-formed: every entry in its chain, at most three quarters full.\<close>

lemma hashmap_insert_contract:
  assumes "hm_wf m" and "equal_fn m = (=)"
  shows "\<exists>e old m'. hashmap__insert ov calloc malloc_ok m k v strategy = Some (e, old, m') \<and> hm_wf m' \<and>
    (if strategy \<noteq> HASHMAP_APPEND \<and> (\<exists>w. (k, w) \<in># hm_content m) then
       (\<exists>w. old = Some (k, w) \<and> (k, w) \<in># hm_content m \<and>
         (if strategy = HASHMAP_ADD then e = - EEXIST \<and> m' = m
          else e = 0 \<and> hm_content m' + {#(k, w)#} = hm_content m + {#(k, v)#}))
     else old = None \<and>
       (if strategy = HASHMAP_UPDATE then e = - ENOENT \<and> m' = m
        else e = 0 \<and> hm_content m' = add_mset (k, v) (hm_content m) \<or> e = - ENOMEM \<and> hm_content m' = hm_content m))"
  using insert_spec [OF assms, of ov calloc malloc_ok k v strategy] by blast

lemma hashmap_insert_contract_example:
  "\<exists>e old m'. hashmap__insert (\<lambda>x. x) (\<lambda>_. True) True (hashmap__init btf_dedup_identity_hash_fn (=)) (7 :: u64) (1 :: nat) HASHMAP_ADD
      = Some (e, old, m') \<and> hm_wf m' \<and> old = None \<and> (e = 0 \<and> hm_content m' = {#(7, 1)#} \<or> e = - ENOMEM)"
proof -
  let ?m = "hashmap__init btf_dedup_identity_hash_fn (=) :: (u64, nat) hashmap"
  have m: "hm_wf ?m" "equal_fn ?m = (=)" "hm_content ?m = {#}"
    by (simp_all add: hashmap__init_def hm_wf_def hm_content_def)
  show ?thesis
    using hashmap_insert_contract [OF m(1,2), of "\<lambda>x. x" "\<lambda>_. True" True 7 1 HASHMAP_ADD] by (auto simp: m(3))
qed

section \<open>Two places where the code departs from its documentation\<close>

text \<open>The header says that with \<^verbatim>\<open>HASHMAP_APPEND\<close> a lookup returns the entry inserted last. Growing the
  table turns the chains around: after two values for the key 7 and two other keys, the lookup
  returns the first (the hash function is the one that forces collisions).\<close>

definition append_all :: "(u64 \<times> nat) list \<Rightarrow> (u64, nat) hashmap option" where
  "append_all es = foldM (\<lambda>m (k, v). map_option snd (hashmap__append (\<lambda>x. x) (\<lambda>_. True) True m k v))
     (hashmap__init btf_dedup_collision_hash_fn btf_dedup_equal_fn) es"

lemma replicate_4: "replicate 4 x = [x, x, x, x]" by (simp add: numeral_eq_Suc)

lemma replicate_8: "replicate 8 x = [x, x, x, x, x, x, x, x]" by (simp add: numeral_eq_Suc)

lemma append_find_order:
  "Option.bind (append_all [(7, 1), (7, 2)]) (\<lambda>m. hashmap__find (\<lambda>x. x) m 7) = Some (Some 2)"
  "Option.bind (append_all [(7, 1), (7, 2), (8, 3), (9, 4)]) (\<lambda>m. hashmap__find (\<lambda>x. x) m 7) = Some (Some 1)"
  by (simp_all add: append_all_def hashmap__append_def hashmap__insert_def hashmap_insert_new_def hashmap_grow_def
      hashmap_needs_to_grow_def hashmap__for_each_entry_def hashmap_add_entry_def update_chain_def arr_get_def arr_set_def
      hashmap__init_def btf_dedup_collision_hash_fn_def btf_dedup_equal_fn_def hash_bits_def HASHMAP_MIN_CAP_BITS_def
      hashmap__find_def hashmap_find_entry_def Let_def replicate_4 replicate_8)

text \<open>\<^verbatim>\<open>hashmap__clear\<close> resets the sizes and keeps the pointer to the freed buckets: the next lookup reads
  freed memory, the next insertion frees it again.\<close>

lemma clear_then_find:
  assumes "hm_buckets m = Block bs" and "hashmap__clear m = Some m'"
  shows "hashmap__find ov m' k = None" "hashmap__clear m' = None"
  using assms by (auto simp: hashmap__clear_def hashmap__find_def hashmap_find_entry_def)

end
