(* ===== verification/Nlattr.thy ===== *)
theory Nlattr
  imports Base
begin

text \<open>
  \<^verbatim>\<open>eBPF_app/libbpf/src/nlattr.c\<close> and \<^verbatim>\<open>nlattr.h\<close>: the parser of netlink attributes. A message is a buffer
  of bytes, a pointer to an attribute is an offset in it, and a read outside the buffer is
  undefined (\<open>None\<close>). The comparisons of the C code that mix signed and unsigned operands are
  written out.
\<close>

unbundle bit_operations_syntax

section \<open>Constants and attributes\<close>

definition NLA_HDRLEN :: nat where "NLA_HDRLEN = 4"
definition NLMSG_HDRLEN :: nat where "NLMSG_HDRLEN = 16"
definition NLA_TYPE_MASK :: u16 where "NLA_TYPE_MASK = 0x3FFF"
definition NLM_F_CAPPED :: u16 where "NLM_F_CAPPED = 0x100"
definition NLM_F_ACK_TLVS :: u16 where "NLM_F_ACK_TLVS = 0x200"
definition LIBBPF_NLA_UNSPEC :: nat where "LIBBPF_NLA_UNSPEC = 0"
definition LIBBPF_NLA_U32 :: nat where "LIBBPF_NLA_U32 = 3"
definition LIBBPF_NLA_STRING :: nat where "LIBBPF_NLA_STRING = 5"
definition LIBBPF_NLA_TYPE_MAX :: nat where "LIBBPF_NLA_TYPE_MAX = 8"
definition NLMSGERR_ATTR_MSG :: nat where "NLMSGERR_ATTR_MSG = 1"
definition NLMSGERR_ATTR_MAX :: nat where "NLMSGERR_ATTR_MAX = 3"

definition NLA_ALIGN :: "nat \<Rightarrow> nat" where
  "NLA_ALIGN n = (n + 3) div 4 * 4"

definition nla_attr_minlen :: "nat list" where
  "nla_attr_minlen = [0, 1, 2, 4, 8, 1, 0, 0, 0]"

record nla_policy =
  np_type :: nat
  np_minlen :: nat
  np_maxlen :: nat

definition nla_len :: "bytes \<Rightarrow> nat \<Rightarrow> nat option" where
  "nla_len buf pos = map_option unat (load16 buf pos)"

definition nla_type :: "bytes \<Rightarrow> nat \<Rightarrow> nat option" where
  "nla_type buf pos = map_option (\<lambda>t. unat (t AND NLA_TYPE_MASK)) (load16 buf (pos + 2))"

definition libbpf_nla_data :: "nat \<Rightarrow> nat" where
  "libbpf_nla_data pos = pos + NLA_HDRLEN"

definition libbpf_nla_len :: "bytes \<Rightarrow> nat \<Rightarrow> int option" where
  "libbpf_nla_len buf pos = map_option (\<lambda>l. int l - int NLA_HDRLEN) (nla_len buf pos)"

definition libbpf_nla_getattr_u8 :: "bytes \<Rightarrow> nat \<Rightarrow> u8 option" where
  "libbpf_nla_getattr_u8 buf pos = arr_get buf (libbpf_nla_data pos)"

definition libbpf_nla_getattr_u32 :: "bytes \<Rightarrow> nat \<Rightarrow> u32 option" where
  "libbpf_nla_getattr_u32 buf pos = load32 buf (libbpf_nla_data pos)"

text \<open>The bytes up to the terminator.\<close>

definition libbpf_nla_getattr_str :: "bytes \<Rightarrow> nat \<Rightarrow> bytes option" where
  "libbpf_nla_getattr_str buf pos =
     (let s = drop (libbpf_nla_data pos) buf in if 0 \<in> set s then Some (takeWhile (\<lambda>b. b \<noteq> 0) s) else None)"

section \<open>The iteration\<close>

definition nla_next :: "nat \<Rightarrow> nat \<Rightarrow> int \<Rightarrow> nat \<times> int" where
  "nla_next len pos remaining = (pos + NLA_ALIGN len, remaining - int (NLA_ALIGN len))"

text \<open>The first comparison of \<^verbatim>\<open>nla_ok\<close> is between an \<^verbatim>\<open>int\<close> and a \<^verbatim>\<open>size_t\<close>, so that a negative
  \<open>remaining\<close> passes it as a large number.\<close>

definition nla_ok :: "bytes \<Rightarrow> nat \<Rightarrow> int \<Rightarrow> bool option" where
  "nla_ok buf pos remaining =
     (if 4 \<le> uint (word_of_int remaining :: u64) then do {
        len \<leftarrow> nla_len buf pos;
        Some (4 \<le> len \<and> int len \<le> remaining)
      } else Some False)"

definition validate_nla :: "bytes \<Rightarrow> nat \<Rightarrow> nat \<Rightarrow> nla_policy list \<Rightarrow> int option" where
  "validate_nla buf pos maxtype policy = do {
     type \<leftarrow> nla_type buf pos;
     if type > maxtype then Some 0
     else do {
       pt \<leftarrow> arr_get policy type;
       if np_type pt > LIBBPF_NLA_TYPE_MAX then Some 0
       else do {
         let minlen = (if np_minlen pt \<noteq> 0 then np_minlen pt
                       else if np_type pt \<noteq> LIBBPF_NLA_UNSPEC then nla_attr_minlen ! np_type pt else 0);
         len \<leftarrow> libbpf_nla_len buf pos;
         if uint (word_of_int len :: u32) < int minlen then Some (-1)
         else if np_maxlen pt \<noteq> 0 \<and> len > int (np_maxlen pt) then Some (-1)
         else if np_type pt = LIBBPF_NLA_STRING then do {
           b \<leftarrow> arr_get buf (nat (int (libbpf_nla_data pos) + len - 1));
           if b \<noteq> 0 then Some (-1) else Some 0
         }
         else Some 0
       }
     }
   }"

lemma nla_ok_true:
  "nla_ok buf pos rem = Some True \<Longrightarrow> \<exists>len. nla_len buf pos = Some len \<and> 4 \<le> len \<and> int len \<le> rem"
  by (auto simp: nla_ok_def split: if_splits Option.bind_splits)

lemma NLA_ALIGN_ge: "n \<le> NLA_ALIGN n" "NLA_ALIGN n < n + 4" "4 dvd NLA_ALIGN n"
  unfolding NLA_ALIGN_def by (presburger, presburger, simp)

lemma NLA_ALIGN_pos: "4 \<le> n \<Longrightarrow> 0 < NLA_ALIGN n"
  using NLA_ALIGN_ge(1) [of n] by linarith

text \<open>The loop of \<^verbatim>\<open>libbpf_nla_parse\<close>: the return value and the index array.\<close>

function nla_parse_from ::
    "bytes \<Rightarrow> nat \<Rightarrow> nla_policy list option \<Rightarrow> nat \<Rightarrow> int \<Rightarrow> nat option list \<Rightarrow> (int \<times> nat option list) option" where
  "nla_parse_from buf maxtype policy pos rem tb =
     (case nla_ok buf pos rem of
        None \<Rightarrow> None
      | Some False \<Rightarrow> Some (0, tb)
      | Some True \<Rightarrow> (case (nla_len buf pos, nla_type buf pos) of
          (Some len, Some type) \<Rightarrow>
            let (pos', rem') = nla_next len pos rem in
            if type > maxtype then nla_parse_from buf maxtype policy pos' rem' tb
            else (case (case policy of None \<Rightarrow> Some 0 | Some pol \<Rightarrow> validate_nla buf pos maxtype pol) of
                    None \<Rightarrow> None
                  | Some err \<Rightarrow>
                      if err < 0 then Some (err, tb)
                      else (case arr_set tb type (Some pos) of
                              None \<Rightarrow> None
                            | Some tb' \<Rightarrow> nla_parse_from buf maxtype policy pos' rem' tb'))
        | _ \<Rightarrow> None))"
  by pat_completeness auto

termination
  by (relation "measure (\<lambda>(buf, maxtype, policy, pos, rem, tb). nat rem)")
    (auto dest!: nla_ok_true simp: nla_next_def NLA_ALIGN_pos)

declare nla_parse_from.simps [simp del]

definition libbpf_nla_parse ::
    "bytes \<Rightarrow> nat \<Rightarrow> nat \<Rightarrow> int \<Rightarrow> nla_policy list option \<Rightarrow> (int \<times> nat option list) option" where
  "libbpf_nla_parse buf maxtype head len policy =
     nla_parse_from buf maxtype policy head len (replicate (maxtype + 1) None)"

definition libbpf_nla_parse_nested ::
    "bytes \<Rightarrow> nat \<Rightarrow> nat \<Rightarrow> nla_policy list option \<Rightarrow> (int \<times> nat option list) option" where
  "libbpf_nla_parse_nested buf maxtype pos policy = do {
     len \<leftarrow> libbpf_nla_len buf pos;
     libbpf_nla_parse buf maxtype (libbpf_nla_data pos) len policy
   }"

section \<open>Extended error messages\<close>

definition extack_policy :: "nla_policy list" where
  "extack_policy = [\<lparr>np_type = 0, np_minlen = 0, np_maxlen = 0\<rparr>, \<lparr>np_type = LIBBPF_NLA_STRING, np_minlen = 0, np_maxlen = 0\<rparr>,
     \<lparr>np_type = LIBBPF_NLA_U32, np_minlen = 0, np_maxlen = 0\<rparr>, \<lparr>np_type = 0, np_minlen = 0, np_maxlen = 0\<rparr>]"

text \<open>The message header is at \<open>pos\<close>; the result is the return value, which is always 0, and the text
  that is printed, if any.\<close>

definition libbpf_nla_dump_errormsg :: "bytes \<Rightarrow> nat \<Rightarrow> (int \<times> bytes option) option" where
  "libbpf_nla_dump_errormsg buf pos = do {
     nlmsg_len \<leftarrow> load32 buf pos;
     flags \<leftarrow> load16 buf (pos + 6);
     if flags AND NLM_F_ACK_TLVS = 0 then Some (0, None)
     else do {
       let err = pos + NLMSG_HDRLEN;
       hlen \<leftarrow> (if flags AND NLM_F_CAPPED = 0
                then map_option (\<lambda>inner. 20 + sint (inner - of_nat NLMSG_HDRLEN)) (load32 buf (err + 4))
                else Some 20);
       let attr = int err + hlen;
       let alen = sint (nlmsg_len - word_of_int hlen);
       if attr < 0 then None
       else do {
         (e, tb) \<leftarrow> libbpf_nla_parse buf NLMSGERR_ATTR_MAX (nat attr) alen (Some extack_policy);
         if e \<noteq> 0 then Some (0, None)
         else (case tb ! NLMSGERR_ATTR_MSG of
                 None \<Rightarrow> Some (0, None)
               | Some p \<Rightarrow> do { s \<leftarrow> libbpf_nla_getattr_str buf p; Some (0, Some s) })
       }
     }
   }"

section \<open>Facts\<close>

lemma nla_ok_range:
  assumes "0 \<le> rem" and "rem < 2 ^ 31" and "pos + nat rem \<le> length buf"
  shows "\<exists>b. nla_ok buf pos rem = Some b"
proof -
  have "uint (word_of_int rem :: u64) = rem"
    using assms(1,2) by (simp add: uint_word_of_int_eq take_bit_int_eq_self)
  then show ?thesis using assms by (auto simp: nla_ok_def nla_len_def load16_def load_def)
qed

text \<open>An attribute that lies in the part of the buffer before \<open>hi\<close> and is accepted by the policy.\<close>

definition attr_ok :: "bytes \<Rightarrow> nat \<Rightarrow> nla_policy list option \<Rightarrow> nat \<Rightarrow> nat \<Rightarrow> nat \<Rightarrow> nat \<Rightarrow> bool" where
  "attr_ok buf maxtype policy lo hi t p \<longleftrightarrow> lo \<le> p \<and> (\<exists>l. nla_len buf p = Some l \<and> 4 \<le> l \<and> p + l \<le> hi)
     \<and> nla_type buf p = Some t
     \<and> (case policy of None \<Rightarrow> True | Some pol \<Rightarrow> validate_nla buf p maxtype pol = Some 0)"

lemma validate_total:
  assumes "nla_len buf pos = Some l" and "4 \<le> l" and "pos + l \<le> length buf" and "nla_type buf pos = Some t"
    and "t \<le> maxtype" and "maxtype < length pol"
  shows "validate_nla buf pos maxtype pol \<in> {Some 0, Some (-1)}"
proof -
  have l: "l < 65536" using assms(1) unsigned_less [of "the (load16 buf pos)"] by (auto simp: nla_len_def)
  define len where "len = int l - 4"
  have u: "uint (word_of_int len :: u32) = len"
    using assms(2) l unfolding uint_word_of_int_eq by (intro take_bit_int_eq_self) (simp_all add: len_def)
  have read: "\<exists>b. arr_get buf (nat (int (libbpf_nla_data pos) + len - 1)) = Some b" if "1 \<le> len"
    using that assms(3) by (auto simp: arr_get_def libbpf_nla_data_def NLA_HDRLEN_def len_def)
  have minlen: "1 \<le> len" if "\<not> len < int (if np_minlen pt \<noteq> 0 then np_minlen pt
      else if np_type pt \<noteq> LIBBPF_NLA_UNSPEC then nla_attr_minlen ! np_type pt else 0)" "np_type pt = LIBBPF_NLA_STRING" for pt
    using that by (auto simp: LIBBPF_NLA_UNSPEC_def LIBBPF_NLA_STRING_def nla_attr_minlen_def split: if_splits)
  obtain pt where pt: "arr_get pol t = Some pt" using assms(5,6) by (simp add: arr_get_def)
  have len: "libbpf_nla_len buf pos = Some len"
    using assms(1) by (simp add: libbpf_nla_len_def NLA_HDRLEN_def len_def)
  show ?thesis
    using minlen [of pt] read assms(4,5) pt len
    by (auto simp: validate_nla_def Let_def u split: if_splits)
qed

lemma nla_parse_from_safe:
  assumes "0 \<le> rem" and "rem < 2 ^ 31" and "4 dvd rem" and "lo \<le> pos" and "pos + nat rem = hi" and "hi \<le> length buf"
    and "length tb = maxtype + 1" and "case policy of None \<Rightarrow> True | Some pol \<Rightarrow> maxtype < length pol"
    and "\<And>t p. tb ! t = Some p \<Longrightarrow> t \<le> maxtype \<Longrightarrow> attr_ok buf maxtype policy lo hi t p"
  shows "\<exists>err tb'. nla_parse_from buf maxtype policy pos rem tb = Some (err, tb') \<and> err \<in> {0, -1}
    \<and> length tb' = maxtype + 1 \<and> (\<forall>t \<le> maxtype. \<forall>p. tb' ! t = Some p \<longrightarrow> attr_ok buf maxtype policy lo hi t p)"
  using assms
proof (induction buf maxtype policy pos rem tb rule: nla_parse_from.induct)
  case (1 buf maxtype policy pos rem tb)
  note unroll = nla_parse_from.simps [of buf maxtype policy pos rem tb]
  obtain b where b: "nla_ok buf pos rem = Some b"
    using nla_ok_range [of rem pos buf] "1.prems"(1,2,5,6) by auto
  show ?case
  proof (cases b)
    case False
    then show ?thesis using b "1.prems"(7,9) by (auto simp: unroll)
  next
    case True
    with b have ok: "nla_ok buf pos rem = Some True" by simp
    then obtain l where l: "nla_len buf pos = Some l" "4 \<le> l" "int l \<le> rem" using nla_ok_true by blast
    let ?a = "NLA_ALIGN l"
    have a: "int ?a \<le> rem" "l \<le> ?a" "4 dvd ?a"
      using NLA_ALIGN_ge [of l] l(3) "1.prems"(3) by (auto elim!: dvdE)
    have fits: "pos + l \<le> hi" using l(3) "1.prems"(1,5) by linarith
    obtain t where t: "nla_type buf pos = Some t"
      using fits l(2) "1.prems"(6) by (auto simp: nla_type_def load16_def load_def)
    have next_ok: "0 \<le> rem - int ?a" "rem - int ?a < 2 ^ 31" "4 dvd rem - int ?a" "lo \<le> pos + ?a"
      "pos + ?a + nat (rem - int ?a) = hi"
      using a "1.prems"(1-5) by auto
    show ?thesis
    proof (cases "t > maxtype")
      case True
      from "1.IH"(1) [OF ok] show ?thesis
        using True next_ok "1.prems"(6-9) l(1) t ok by (simp add: unroll nla_next_def)
    next
      case False
      define v where "v = (case policy of None \<Rightarrow> Some 0 | Some pol \<Rightarrow> validate_nla buf pos maxtype pol)"
      have v: "v \<in> {Some 0, Some (-1)}"
        using validate_total [OF l(1,2) _ t] fits "1.prems"(6,8) False by (auto simp: v_def split: option.splits)
      show ?thesis
      proof (cases "v = Some 0")
        case True
        have "attr_ok buf maxtype policy lo hi t pos"
          using l fits t True "1.prems"(4) by (auto simp: attr_ok_def v_def split: option.splits)
        then have "attr_ok buf maxtype policy lo hi t' p" if "tb[t := Some pos] ! t' = Some p" "t' \<le> maxtype" for t' p
          using that "1.prems"(7,9) False by (cases "t' = t") auto
        then show ?thesis
          using "1.IH"(2) [OF ok] False next_ok "1.prems"(6-8) l(1) t ok True v_def
          by (simp add: unroll nla_next_def arr_set_def)
      next
        case False
        then show ?thesis
          using v \<open>\<not> t > maxtype\<close> "1.prems"(7,9) l(1) t ok by (simp add: unroll nla_next_def flip: v_def)
      qed
    qed
  qed
qed

section \<open>Writing attributes\<close>

text \<open>The reference: a stream of attributes as the kernel writes it, each padded to the
  alignment.\<close>

definition put_attr :: "nat \<times> bytes \<Rightarrow> bytes" where
  "put_attr a = le_of_word 2 (of_nat (4 + length (snd a)) :: u16) @ le_of_word 2 (of_nat (fst a) :: u16)
     @ snd a @ replicate (NLA_ALIGN (4 + length (snd a)) - (4 + length (snd a))) 0"

definition put_attrs :: "(nat \<times> bytes) list \<Rightarrow> bytes" where
  "put_attrs as = concat (map put_attr as)"

definition can_put :: "nat \<times> bytes \<Rightarrow> bool" where
  "can_put a \<longleftrightarrow> fst a < 2 ^ 14 \<and> 4 + length (snd a) < 2 ^ 16"

definition nla_payload :: "bytes \<Rightarrow> nat \<Rightarrow> bytes option" where
  "nla_payload buf pos = do {
     len \<leftarrow> libbpf_nla_len buf pos;
     load buf (libbpf_nla_data pos) (nat len)
   }"

text \<open>Where each attribute of a stream starts.\<close>

fun attr_offsets :: "nat \<Rightarrow> (nat \<times> bytes) list \<Rightarrow> (nat \<times> nat) list" where
  "attr_offsets pos [] = []"
| "attr_offsets pos (a # as) = (fst a, pos) # attr_offsets (pos + NLA_ALIGN (4 + length (snd a))) as"

lemma length_put_attr: "length (put_attr a) = NLA_ALIGN (4 + length (snd a))"
  using NLA_ALIGN_ge(1) [of "4 + length (snd a)"] by (simp add: put_attr_def)

lemma read_put_attr:
  assumes "can_put a"
  shows "nla_len (pre @ put_attr a @ post) (length pre) = Some (4 + length (snd a))"
    and "nla_type (pre @ put_attr a @ post) (length pre) = Some (fst a)"
    and "nla_payload (pre @ put_attr a @ post) (length pre) = Some (snd a)"
proof -
  show len: "nla_len (pre @ put_attr a @ post) (length pre) = Some (4 + length (snd a))"
    using assms unat_of_nat_small [of "4 + length (snd a)", where 'a = 16]
    by (simp add: nla_len_def load16_def load_def put_attr_def can_put_def)
  have "unat (of_nat (fst a) AND NLA_TYPE_MASK) = fst a"
  proof -
    have "(of_nat (fst a) :: u16) AND NLA_TYPE_MASK = take_bit 14 (of_nat (fst a))"
      by (simp add: NLA_TYPE_MASK_def take_bit_eq_mask mask_numeral)
    also have "unat \<dots> = take_bit 14 (unat (of_nat (fst a) :: u16))"
      by (simp add: unsigned_take_bit_eq)
    also have "unat (of_nat (fst a) :: u16) = fst a"
      using assms by (intro unat_of_nat_small) (simp add: can_put_def)
    also have "take_bit 14 (fst a) = fst a"
      using assms by (simp add: take_bit_nat_eq_self can_put_def)
    finally show ?thesis .
  qed
  then show "nla_type (pre @ put_attr a @ post) (length pre) = Some (fst a)"
    by (simp add: nla_type_def load16_def load_def put_attr_def)
  show "nla_payload (pre @ put_attr a @ post) (length pre) = Some (snd a)"
    using len by (simp add: nla_payload_def libbpf_nla_len_def libbpf_nla_data_def NLA_HDRLEN_def load_def put_attr_def)
qed

lemma nla_ok_ge: "4 \<le> len \<Longrightarrow> int len \<le> rem \<Longrightarrow> rem < 2 ^ 31 \<Longrightarrow> nla_len buf pos = Some len \<Longrightarrow> nla_ok buf pos rem = Some True"
proof -
  assume a: "4 \<le> len" "int len \<le> rem" "rem < 2 ^ 31" "nla_len buf pos = Some len"
  then have "uint (word_of_int rem :: u64) = rem" by (simp add: uint_word_of_int_eq take_bit_int_eq_self)
  then show ?thesis using a by (simp add: nla_ok_def)
qed

lemma nla_parse_put:
  assumes "\<forall>a \<in> set as. can_put a" and "length (put_attrs as) < 2 ^ 31" and "length tb = maxtype + 1"
  shows "nla_parse_from (pre @ put_attrs as @ post) maxtype None (length pre) (int (length (put_attrs as))) tb
    = Some (0, foldl (\<lambda>tb (t, p). if t \<le> maxtype then tb[t := Some p] else tb) tb (attr_offsets (length pre) as))"
  using assms
proof (induction "as" arbitrary: pre tb)
  case Nil
  then show ?case by (simp add: nla_parse_from.simps put_attrs_def nla_ok_def)
next
  case (Cons a "as")
  let ?buf = "pre @ put_attr a @ put_attrs as @ post" and ?n = "4 + length (snd a)"
  have buf: "pre @ put_attrs (a # as) @ post = ?buf" by (simp add: put_attrs_def)
  have len: "int (length (put_attrs (a # as))) = int (NLA_ALIGN ?n) + int (length (put_attrs as))"
    by (simp add: put_attrs_def length_put_attr)
  note read = read_put_attr [of a pre "put_attrs as @ post"]
  have ok: "nla_ok ?buf (length pre) (int (length (put_attrs (a # as)))) = Some True"
    using Cons.prems(1,2) NLA_ALIGN_ge(1) [of ?n] read(1) len by (intro nla_ok_ge [of ?n]) auto
  have "nla_parse_from ?buf maxtype None (length pre + NLA_ALIGN ?n) (int (length (put_attrs as))) tb'
      = Some (0, foldl (\<lambda>tb (t, p). if t \<le> maxtype then tb[t := Some p] else tb) tb' (attr_offsets (length pre + NLA_ALIGN ?n) as))"
    if "length tb' = maxtype + 1" for tb'
    using Cons.IH [of tb' "pre @ put_attr a"] Cons.prems that by (simp add: length_put_attr put_attrs_def)
  then show ?case
    unfolding buf nla_parse_from.simps [of ?buf maxtype None "length pre" "int (length (put_attrs (a # as)))" tb]
    using ok read(1,2) Cons.prems(1,3) by (simp add: nla_next_def len arr_set_def)
qed

lemma foldl_index:
  "t \<le> maxtype \<Longrightarrow> length tb = maxtype + 1 \<Longrightarrow>
    foldl (\<lambda>tb (t, p). if t \<le> maxtype then tb[t := Some p] else tb) tb ops ! t
      = (case map_of (rev ops) t of None \<Rightarrow> tb ! t | Some p \<Rightarrow> Some p)"
proof (induction ops rule: rev_induct)
  case (snoc x ops)
  have "length (foldl (\<lambda>tb (t, p). if t \<le> maxtype then tb[t := Some p] else tb) tb ops) = length tb"
    by (induction ops rule: rev_induct) (auto split: prod.splits)
  then show ?case using snoc by (cases x) (auto simp: nth_list_update)
qed simp

lemma offsets_payload:
  assumes "\<forall>a \<in> set as. can_put a"
  shows "map (\<lambda>(t, p). (t, nla_payload (pre @ put_attrs as @ post) p)) (attr_offsets (length pre) as)
    = map (\<lambda>(t, v). (t, Some v)) as"
  using assms
proof (induction "as" arbitrary: pre)
  case (Cons a "as")
  have "nla_payload (pre @ put_attrs (a # as) @ post) (length pre) = Some (snd a)"
    using read_put_attr(3) [of a pre "put_attrs as @ post"] Cons.prems by (simp add: put_attrs_def)
  then show ?case
    using Cons.IH [of "pre @ put_attr a"] Cons.prems
    by (cases a) (simp add: length_put_attr put_attrs_def)
qed simp

section \<open>Properties\<close>

text \<open>C35: Parsing reads back what was written. For a stream of attributes, each padded to the alignment
  and anywhere in a buffer, the parser succeeds, and for every type up to the maximum its index has
  the payload of the last attribute of that type, or nothing when there is none; attributes of
  higher types are ignored.\<close>

theorem nla_parse_roundtrip:
  assumes "\<forall>a \<in> set as. can_put a" and "length (put_attrs as) < 2 ^ 31"
  shows "\<exists>tb. libbpf_nla_parse (pre @ put_attrs as @ post) maxtype (length pre) (int (length (put_attrs as))) None = Some (0, tb)
    \<and> (\<forall>t \<le> maxtype. (case tb ! t of None \<Rightarrow> map_of (rev as) t = None
         | Some p \<Rightarrow> nla_payload (pre @ put_attrs as @ post) p = map_of (rev as) t \<and> map_of (rev as) t \<noteq> None))"
proof -
  let ?buf = "pre @ put_attrs as @ post" and ?off = "attr_offsets (length pre) as"
  let ?tb = "foldl (\<lambda>tb (t, p). if t \<le> maxtype then tb[t := Some p] else tb) (replicate (maxtype + 1) None) ?off"
  have "case ?tb ! t of None \<Rightarrow> map_of (rev as) t = None
      | Some p \<Rightarrow> nla_payload ?buf p = map_of (rev as) t \<and> map_of (rev as) t \<noteq> None" if t: "t \<le> maxtype" for t
  proof -
    have "map_option Some (map_of (rev as) t) = map_option (nla_payload ?buf) (map_of (rev ?off) t)"
      using arg_cong [OF offsets_payload [OF assms(1), of pre post], of "\<lambda>xs. map_of (rev xs) t"]
      by (simp add: rev_map map_of_map)
    moreover have "?tb ! t = map_of (rev ?off) t"
      unfolding foldl_index [OF t length_replicate] using t
      by (auto simp del: replicate.simps replicate_Suc simp: nth_replicate split: option.splits)
    ultimately show ?thesis
      by (cases "map_of (rev ?off) t"; cases "map_of (rev as) t") auto
  qed
  then show ?thesis
    using nla_parse_put [OF assms, of "replicate (maxtype + 1) None" maxtype pre post]
    by (simp add: libbpf_nla_parse_def)
qed

theorem nla_parse_roundtrip_witness:
  "\<exists>tb. libbpf_nla_parse (put_attrs [(1, [7]), (5, []), (1, [8, 9])]) 2 0 20 None = Some (0, tb)
    \<and> Option.bind (tb ! 1) (nla_payload (put_attrs [(1, [7]), (5, []), (1, [8, 9])])) = Some [8, 9] \<and> tb ! 2 = None"
proof -
  let ?as = "[(1, [7]), (5, []), (1, [8, 9])] :: (nat \<times> bytes) list"
  have len: "length (put_attrs ?as) = 20" by (simp add: put_attrs_def length_put_attr NLA_ALIGN_def)
  then have lt: "length (put_attrs ?as) < 2 ^ 31" by simp
  have can: "\<forall>a \<in> set ?as. can_put a" by (simp add: can_put_def)
  obtain tb where tb: "libbpf_nla_parse (put_attrs ?as) 2 0 20 None = Some (0, tb)"
    "\<forall>t \<le> 2. (case tb ! t of None \<Rightarrow> map_of (rev ?as) t = None
      | Some p \<Rightarrow> nla_payload (put_attrs ?as) p = map_of (rev ?as) t \<and> map_of (rev ?as) t \<noteq> None)"
    using nla_parse_roundtrip [OF can lt, of "[]" "[]" 2]
    unfolding len append_Nil append_Nil2 list.size(3) of_nat_numeral by blast
  have "Option.bind (tb ! 1) (nla_payload (put_attrs ?as)) = Some [8, 9]"
    using spec [OF tb(2), of 1] by (cases "tb ! 1") simp_all
  moreover have "tb ! 2 = None"
    using spec [OF tb(2), of 2] by (cases "tb ! 2") simp_all
  ultimately show ?thesis using tb(1) by blast
qed

text \<open>Parsing untrusted bytes is safe for a stream whose length is a multiple of the alignment:
  whatever the bytes are, the parser ends, reads only inside the buffer and returns 0 or -1, and
  every entry of the index is an attribute of its type that lies inside the stream and passed the
  policy.\<close>

lemma nla_parse_safe:
  assumes "0 \<le> len" and "len < 2 ^ 31" and "4 dvd len" and "head + nat len \<le> length buf"
    and "case policy of None \<Rightarrow> True | Some pol \<Rightarrow> maxtype < length pol"
  shows "\<exists>err tb. libbpf_nla_parse buf maxtype head len policy = Some (err, tb) \<and> err \<in> {0, -1}
    \<and> length tb = maxtype + 1
    \<and> (\<forall>t \<le> maxtype. \<forall>p. tb ! t = Some p \<longrightarrow> attr_ok buf maxtype policy head (head + nat len) t p)"
proof -
  have "replicate (maxtype + 1) None ! t = (None :: nat option)" if "t \<le> maxtype" for t
    using that by (simp add: nth_replicate del: replicate_Suc replicate.simps)
  then show ?thesis
    unfolding libbpf_nla_parse_def
    by (intro nla_parse_from_safe [OF assms(1-3) order_refl refl assms(4) length_replicate assms(5)]) simp
qed

lemma nla_parse_safe_example:
  "\<exists>err tb. libbpf_nla_parse [255, 255, 1, 0, 5, 0, 2, 0] 3 0 8 (Some extack_policy) = Some (err, tb) \<and> err \<in> {0, -1}"
  using nla_parse_safe [of 8 0 "[255, 255, 1, 0, 5, 0, 2, 0]" 3 "Some extack_policy"]
  by (auto simp: extack_policy_def)

text \<open>Without the alignment it is not: after an attribute whose padding is not part of the stream,
  \<open>remaining\<close> is negative, passes the unsigned comparison, and the length of an attribute behind the
  end of the buffer is read.\<close>

lemma nla_parse_unaligned_overread:
  "libbpf_nla_parse [5, 0, 1, 0, 42] 1 0 5 None = None"
  by (simp add: libbpf_nla_parse_def nla_parse_from.simps [of _ _ _ 0] nla_parse_from.simps [of _ _ _ 8] nla_ok_def
      nla_len_def nla_type_def load16_def load_def nla_next_def NLA_ALIGN_def NLA_TYPE_MASK_def arr_set_def)

end
