(* ===== verification/Netlink.thy ===== *)
theory Netlink
  imports Nlattr Bpf_Object
begin

text \<open>
  \<^verbatim>\<open>eBPF_app/libbpf/src/netlink.c\<close> and \<^verbatim>\<open>libbpf_errno.c\<close>: talking to the kernel over a netlink socket. The
  requests are the bytes that are sent, the answers are the datagrams that successive calls of
  \<^verbatim>\<open>recv\<close> return; both sides of the exchange are explicit, with the state of the kernel threaded
  through it. \<open>None\<close> is a memory access outside a buffer; waiting for a datagram that never comes is
  the result \<open>Blocked\<close>.
\<close>

section \<open>Error numbers\<close>

definition LIBBPF_ERRNO__START :: int where "LIBBPF_ERRNO__START = 4000"
definition LIBBPF_ERRNO__WRNGPID :: int where "LIBBPF_ERRNO__WRNGPID = 4011"
definition LIBBPF_ERRNO__INVSEQ :: int where "LIBBPF_ERRNO__INVSEQ = 4012"
definition LIBBPF_ERRNO__NLPARSE :: int where "LIBBPF_ERRNO__NLPARSE = 4013"
definition LIBBPF_ERRNO__END :: int where "LIBBPF_ERRNO__END = 4014"

text \<open>The table of messages; the entry of \<^verbatim>\<open>LIBBPF_ERRNO__LOAD\<close> is not initialised.\<close>

definition libbpf_strerror_table :: "string option list" where
  "libbpf_strerror_table =
    [Some ''Something wrong in libelf'', Some ''BPF object format invalid'',
     Some ([CHR 0x27] @ ''version'' @ [CHR 0x27] @ '' section incorrect or lost''), Some ''Endian mismatch'',
     Some ''Internal error in libbpf'', Some ''Relocation failed'', None,
     Some ''Kernel verifier blocks program loading'', Some ''Program too big'', Some ''Incorrect kernel version'',
     Some (''Kernel doesn'' @ [CHR 0x27] @ ''t support this program type''), Some ''Wrong pid in netlink message'',
     Some ''Invalid netlink sequence'', Some ''Incorrect netlink message parsing'']"

text \<open>\<open>strerror_r\<close> gives a return value and a text. The text is cut to the size of the buffer. A null
  pointer printed with \<^verbatim>\<open>%s\<close> and the negation of the smallest integer are undefined.\<close>

definition libbpf_strerror ::
    "(int \<Rightarrow> int \<times> string) \<Rightarrow> int \<Rightarrow> bool \<Rightarrow> nat \<Rightarrow> (int \<times> string option) option" where
  "libbpf_strerror strerror_r err has_buf n =
     (if \<not> has_buf \<or> n = 0 then Some (-1, None)
      else if err = - (2 ^ 31) then None
      else
        (let err = (if err > 0 then err else - err) in
         if err < LIBBPF_ERRNO__START then
           (let (ret, msg) = strerror_r err in Some (ret, Some (take (n - 1) msg)))
         else if err < LIBBPF_ERRNO__END then
           map_option (\<lambda>msg. (0, Some (take (n - 1) msg))) (libbpf_strerror_table ! nat (err - LIBBPF_ERRNO__START))
         else Some (-1, Some (take (n - 1) (''Unknown libbpf error '' @ dec_digits (nat err))))))"

section \<open>The socket\<close>

definition RTM_NEWLINK :: u16 where "RTM_NEWLINK = 16"
definition RTM_GETLINK :: u16 where "RTM_GETLINK = 18"
definition RTM_SETLINK :: u16 where "RTM_SETLINK = 19"
definition RTM_GETQDISC :: u16 where "RTM_GETQDISC = 38"
definition RTM_GETTCLASS :: u16 where "RTM_GETTCLASS = 42"
definition RTM_GETTFILTER :: u16 where "RTM_GETTFILTER = 46"
definition NLMSG_ERROR :: u16 where "NLMSG_ERROR = 2"
definition NLMSG_DONE :: u16 where "NLMSG_DONE = 3"
definition NLM_F_REQUEST :: u16 where "NLM_F_REQUEST = 1"
definition NLM_F_MULTI :: u16 where "NLM_F_MULTI = 2"
definition NLM_F_ACK :: u16 where "NLM_F_ACK = 4"
definition NLM_F_DUMP :: u16 where "NLM_F_DUMP = 0x300"
definition NLA_F_NESTED :: u16 where "NLA_F_NESTED = 0x8000"
definition IFLA_XDP :: nat where "IFLA_XDP = 43"
definition IFLA_MAX :: nat where "IFLA_MAX = 53"
definition IFLA_XDP_FD :: nat where "IFLA_XDP_FD = 1"
definition IFLA_XDP_ATTACHED :: nat where "IFLA_XDP_ATTACHED = 2"
definition IFLA_XDP_FLAGS :: nat where "IFLA_XDP_FLAGS = 3"
definition IFLA_XDP_PROG_ID :: nat where "IFLA_XDP_PROG_ID = 4"
definition IFLA_XDP_DRV_PROG_ID :: nat where "IFLA_XDP_DRV_PROG_ID = 5"
definition IFLA_XDP_SKB_PROG_ID :: nat where "IFLA_XDP_SKB_PROG_ID = 6"
definition IFLA_XDP_HW_PROG_ID :: nat where "IFLA_XDP_HW_PROG_ID = 7"
definition IFLA_XDP_MAX :: nat where "IFLA_XDP_MAX = 7"
definition XDP_ATTACHED_NONE :: u8 where "XDP_ATTACHED_NONE = 0"
definition XDP_ATTACHED_MULTI :: u8 where "XDP_ATTACHED_MULTI = 4"
definition AF_PACKET :: u8 where "AF_PACKET = 17"
definition sizeof_ifinfomsg :: nat where "sizeof_ifinfomsg = 16"
definition sizeof_tcmsg :: nat where "sizeof_tcmsg = 20"

text \<open>The environment: the results of the system calls on the socket (a descriptor or a negative
  error number, 0 or an error number), the answers of the kernel to the bytes that were sent, and what
  the receive buffer holds before the first \<^verbatim>\<open>recv\<close>.\<close>

record 'n nl_env =
  ne_socket :: int
  ne_bind :: int
  ne_getsockname :: int
  ne_addrlen_ok :: bool
  ne_pid :: u32
  ne_send :: int
  ne_recv :: "'n \<Rightarrow> bytes \<Rightarrow> (int + bytes) list \<times> 'n"
  ne_buf :: bytes

definition libbpf_netlink_open :: "'n nl_env \<Rightarrow> int + int \<times> u32" where
  "libbpf_netlink_open env =
     (if ne_socket env < 0 then Inl (ne_socket env)
      else if ne_bind env \<noteq> 0 then Inl (- ne_bind env)
      else if ne_getsockname env \<noteq> 0 then Inl (- ne_getsockname env)
      else if \<not> ne_addrlen_ok env then Inl (- LIBBPF_ERRNO__INTERNAL)
      else Inr (ne_socket env, ne_pid env))"

section \<open>Receiving\<close>

datatype 'c msgs_out = MsgsRet int 'c | MsgsDone bool 'c
datatype 'c recv_result = Blocked | Ret int 'c

definition NLMSG_ALIGN :: "nat \<Rightarrow> nat" where
  "NLMSG_ALIGN n = (n + 3) div 4 * 4"

definition NLMSG_OK :: "bytes \<Rightarrow> nat \<Rightarrow> int \<Rightarrow> bool option" where
  "NLMSG_OK buf pos len =
     (if len \<ge> 16 then do {
        mlen \<leftarrow> load32 buf pos;
        Some (unat mlen \<ge> 16 \<and> int (unat mlen) \<le> len)
      } else Some False)"

text \<open>The body of the loop over the messages of a datagram: \<open>Inl\<close> leaves the loop with a return value
  and the cookie of the callback, \<open>Inr\<close> continues. \<open>fn\<close> is the callback, if any.\<close>

definition nl_message ::
    "bytes \<Rightarrow> u32 \<Rightarrow> u32 \<Rightarrow> (bytes \<Rightarrow> nat \<Rightarrow> 'c \<Rightarrow> (int \<times> 'c) option) option \<Rightarrow> nat \<Rightarrow> bool \<Rightarrow> 'c
     \<Rightarrow> ((int \<times> 'c) + bool \<times> 'c) option" where
  "nl_message buf nl_pid seq fn pos multipart c = do {
     pid \<leftarrow> load32 buf (pos + 12);
     if pid \<noteq> nl_pid then Some (Inl (- LIBBPF_ERRNO__WRNGPID, c))
     else do {
       s \<leftarrow> load32 buf (pos + 8);
       if s \<noteq> seq then Some (Inl (- LIBBPF_ERRNO__INVSEQ, c))
       else do {
         flags \<leftarrow> load16 buf (pos + 6);
         let multipart = (multipart \<or> flags AND NLM_F_MULTI \<noteq> 0);
         type \<leftarrow> load16 buf (pos + 4);
         if type = NLMSG_ERROR then do {
           error \<leftarrow> load32 buf (pos + NLMSG_HDRLEN);
           if error = 0 then Some (Inr (multipart, c))
           else do {
             printed \<leftarrow> libbpf_nla_dump_errormsg buf pos;
             Some (Inl (sint error, c))
           }
         }
         else if type = NLMSG_DONE then Some (Inl (0, c))
         else (case fn of
                 None \<Rightarrow> Some (Inr (multipart, c))
               | Some f \<Rightarrow> do {
                   (ret, c) \<leftarrow> f buf pos c;
                   if ret \<noteq> 0 then Some (Inl (ret, c)) else Some (Inr (multipart, c))
                 })
       }
     }
   }"

lemma NLMSG_ALIGN_ge: "n \<le> NLMSG_ALIGN n"
  unfolding NLMSG_ALIGN_def by presburger

lemma NLMSG_OK_true:
  "NLMSG_OK buf pos len = Some True \<Longrightarrow> load32 buf pos = Some mlen \<Longrightarrow> 16 \<le> unat mlen \<and> 16 \<le> len"
  by (auto simp: NLMSG_OK_def split: if_splits)

lemma NLMSG_OK_step:
  assumes "NLMSG_OK buf pos len = Some True" and "load32 buf pos = Some mlen"
  shows "0 < len" "0 < NLMSG_ALIGN (unat mlen)"
  using NLMSG_OK_true [OF assms] NLMSG_ALIGN_ge [of "unat mlen"] by linarith+

function nl_messages ::
    "bytes \<Rightarrow> u32 \<Rightarrow> u32 \<Rightarrow> (bytes \<Rightarrow> nat \<Rightarrow> 'c \<Rightarrow> (int \<times> 'c) option) option \<Rightarrow> nat \<Rightarrow> int \<Rightarrow> bool \<Rightarrow> 'c
     \<Rightarrow> 'c msgs_out option" where
  "nl_messages buf nl_pid seq fn pos len multipart c =
     (case NLMSG_OK buf pos len of
        None \<Rightarrow> None
      | Some False \<Rightarrow> Some (MsgsDone multipart c)
      | Some True \<Rightarrow>
          (case nl_message buf nl_pid seq fn pos multipart c of
             None \<Rightarrow> None
           | Some (Inl (ret, c)) \<Rightarrow> Some (MsgsRet ret c)
           | Some (Inr (multipart, c)) \<Rightarrow>
               (case load32 buf pos of
                  None \<Rightarrow> None
                | Some mlen \<Rightarrow>
                    let n = NLMSG_ALIGN (unat mlen)
                    in nl_messages buf nl_pid seq fn (pos + n) (len - int n) multipart c)))"
  by pat_completeness auto

termination
  by (relation "measure (\<lambda>(buf, nl_pid, seq, fn, pos, len, multipart, c). nat len)") (auto intro: NLMSG_OK_step)

declare nl_messages.simps [simp del]

text \<open>The outer loop, over the results of \<^verbatim>\<open>recv\<close>: a negative result is an error number, no bytes end
  the loop.\<close>

fun bpf_netlink_recv ::
    "bytes \<Rightarrow> u32 \<Rightarrow> u32 \<Rightarrow> (bytes \<Rightarrow> nat \<Rightarrow> 'c \<Rightarrow> (int \<times> 'c) option) option \<Rightarrow> (int + bytes) list \<Rightarrow> 'c
     \<Rightarrow> 'c recv_result option" where
  "bpf_netlink_recv buf nl_pid seq fn [] c = Some Blocked"
| "bpf_netlink_recv buf nl_pid seq fn (Inl errno # rs) c = Some (Ret (- errno) c)"
| "bpf_netlink_recv buf nl_pid seq fn (Inr datagram # rs) c =
     (if datagram = [] then Some (Ret 0 c)
      else do {
        buf \<leftarrow> store buf 0 datagram;
        out \<leftarrow> nl_messages buf nl_pid seq fn 0 (int (length datagram)) False c;
        case out of
          MsgsRet ret c \<Rightarrow> Some (Ret ret c)
        | MsgsDone multipart c \<Rightarrow>
            if multipart then bpf_netlink_recv buf nl_pid seq fn rs c else Some (Ret 0 c)
      })"

section \<open>Attaching a program\<close>

text \<open>The request is built in a zeroed structure of 16 bytes of message header, 16 bytes of interface
  header and 64 bytes for attributes, by assignments to its fields; the offsets are those of the
  fields. First the fields before the attributes, then the attributes: a nested attribute with the
  descriptor and, if there are any, the flags.\<close>

definition setlink_head :: "int \<Rightarrow> bytes option" where
  "setlink_head ifindex = do {
     let req = replicate 96 0;
     req \<leftarrow> store req 0 (le_of_word 4 (of_nat (NLMSG_HDRLEN + sizeof_ifinfomsg) :: u32));
     req \<leftarrow> store req 6 (le_of_word 2 (NLM_F_REQUEST OR NLM_F_ACK));
     req \<leftarrow> store req 4 (le_of_word 2 RTM_SETLINK);
     req \<leftarrow> store req 12 (le_of_word 4 (0 :: u32));
     req \<leftarrow> store req 8 (le_of_word 4 (1 :: u32));
     req \<leftarrow> store req 16 [0];
     store req 20 (le_of_word 4 (word_of_int ifindex :: u32))
   }"

text \<open>An attribute of four bytes at an offset.\<close>

definition put_attr32 :: "bytes \<Rightarrow> nat \<Rightarrow> u16 \<Rightarrow> u32 \<Rightarrow> bytes option" where
  "put_attr32 req off type v = do {
     req \<leftarrow> store req (off + 2) (le_of_word 2 type);
     req \<leftarrow> store req off (le_of_word 2 (of_nat (NLA_HDRLEN + 4) :: u16));
     store req (off + NLA_HDRLEN) (le_of_word 4 v)
   }"

text \<open>\<open>nla_len\<close> of the nested attribute grows with each part.\<close>

definition setlink_request :: "int \<Rightarrow> int \<Rightarrow> u32 \<Rightarrow> bytes option" where
  "setlink_request ifindex fd flags = do {
     req \<leftarrow> setlink_head ifindex;
     let nla = NLMSG_ALIGN (NLMSG_HDRLEN + sizeof_ifinfomsg);
     req \<leftarrow> store req (nla + 2) (le_of_word 2 (NLA_F_NESTED OR of_nat IFLA_XDP));
     let nested = NLA_HDRLEN;
     req \<leftarrow> put_attr32 req (nla + nested) (of_nat IFLA_XDP_FD) (word_of_int fd);
     let nested = nested + (NLA_HDRLEN + 4);
     (req, nested) \<leftarrow> (if flags \<noteq> 0
        then map_option (\<lambda>req. (req, nested + (NLA_HDRLEN + 4))) (put_attr32 req (nla + nested) (of_nat IFLA_XDP_FLAGS) flags)
        else Some (req, nested));
     req \<leftarrow> store req nla (le_of_word 2 (of_nat nested :: u16));
     let mlen = NLMSG_HDRLEN + sizeof_ifinfomsg + NLA_ALIGN nested;
     req \<leftarrow> store req 0 (le_of_word 4 (of_nat mlen :: u32));
     load req 0 mlen
   }"

definition bpf_set_link_xdp_fd :: "'n nl_env \<Rightarrow> int \<Rightarrow> int \<Rightarrow> u32 \<Rightarrow> 'n \<Rightarrow> (unit recv_result \<times> 'n) option" where
  "bpf_set_link_xdp_fd env ifindex fd flags n = (case libbpf_netlink_open env of
     Inl err \<Rightarrow> Some (Ret err (), n)
   | Inr (sock, nl_pid) \<Rightarrow> do {
       req \<leftarrow> setlink_request ifindex fd flags;
       if ne_send env \<noteq> 0 then Some (Ret (- ne_send env) (), n)
       else do {
         let (rs, n) = ne_recv env n req;
         r \<leftarrow> bpf_netlink_recv (ne_buf env) nl_pid 1 None rs ();
         Some (r, n)
       }
     })"

section \<open>Dumps\<close>

text \<open>The callback that indexes the attributes behind a header of \<open>hsize\<close> bytes and hands them to
  \<open>dump\<close>.\<close>

definition dump_nlmsg ::
    "nat \<Rightarrow> nat \<Rightarrow> (bytes \<Rightarrow> nat \<Rightarrow> nat option list \<Rightarrow> 'c \<Rightarrow> (int \<times> 'c) option) \<Rightarrow> bytes \<Rightarrow> nat \<Rightarrow> 'c \<Rightarrow> (int \<times> 'c) option" where
  "dump_nlmsg hsize maxtype dump buf pos c = do {
     mlen \<leftarrow> load32 buf pos;
     let len = sint (mlen - of_nat (NLMSG_HDRLEN + hsize));
     (err, tb) \<leftarrow> libbpf_nla_parse buf maxtype (pos + NLMSG_HDRLEN + NLMSG_ALIGN hsize) len None;
     if err \<noteq> 0 then Some (- LIBBPF_ERRNO__NLPARSE, c)
     else dump buf (pos + NLMSG_HDRLEN) tb c
   }"

definition dump_link_nlmsg where
  "dump_link_nlmsg dump = dump_nlmsg sizeof_ifinfomsg IFLA_MAX dump"

text \<open>The three dumps of the traffic control use the same header; \<open>tca_max\<close> is \<^verbatim>\<open>TCA_MAX\<close> of the
  system.\<close>

definition dump_class_nlmsg where
  "dump_class_nlmsg tca_max dump = dump_nlmsg sizeof_tcmsg tca_max dump"

definition dump_qdisc_nlmsg where
  "dump_qdisc_nlmsg tca_max dump = dump_nlmsg sizeof_tcmsg tca_max dump"

definition dump_filter_nlmsg where
  "dump_filter_nlmsg tca_max dump = dump_nlmsg sizeof_tcmsg tca_max dump"

record xdp_link_info =
  prog_id :: u32
  drv_prog_id :: u32
  hw_prog_id :: u32
  skb_prog_id :: u32
  attach_mode :: u8

record xdp_id_md =
  md_ifindex :: u32
  md_info :: xdp_link_info

definition set_u32 :: "bytes \<Rightarrow> nat option \<Rightarrow> (u32 \<Rightarrow> xdp_link_info \<Rightarrow> xdp_link_info) \<Rightarrow> xdp_link_info \<Rightarrow> xdp_link_info option" where
  "set_u32 buf p upd info = (case p of
     None \<Rightarrow> Some info
   | Some a \<Rightarrow> do { v \<leftarrow> libbpf_nla_getattr_u32 buf a; Some (upd v info) })"

definition get_xdp_info :: "bytes \<Rightarrow> nat \<Rightarrow> nat option list \<Rightarrow> xdp_id_md \<Rightarrow> (int \<times> xdp_id_md) option" where
  "get_xdp_info buf msg tb xdp_id = do {
     ifi_index \<leftarrow> load32 buf (msg + 4);
     if md_ifindex xdp_id \<noteq> 0 \<and> md_ifindex xdp_id \<noteq> ifi_index then Some (0, xdp_id)
     else (case tb ! IFLA_XDP of
       None \<Rightarrow> Some (0, xdp_id)
     | Some a \<Rightarrow> do {
         (ret, xdp_tb) \<leftarrow> libbpf_nla_parse_nested buf IFLA_XDP_MAX a None;
         if ret \<noteq> 0 then Some (ret, xdp_id)
         else (case xdp_tb ! IFLA_XDP_ATTACHED of
           None \<Rightarrow> Some (0, xdp_id)
         | Some m \<Rightarrow> do {
             mode \<leftarrow> libbpf_nla_getattr_u8 buf m;
             let info = (md_info xdp_id)\<lparr>attach_mode := mode\<rparr>;
             if mode = XDP_ATTACHED_NONE then Some (0, xdp_id\<lparr>md_info := info\<rparr>)
             else do {
               info \<leftarrow> set_u32 buf (xdp_tb ! IFLA_XDP_PROG_ID) (\<lambda>v i. i\<lparr>prog_id := v\<rparr>) info;
               info \<leftarrow> set_u32 buf (xdp_tb ! IFLA_XDP_SKB_PROG_ID) (\<lambda>v i. i\<lparr>skb_prog_id := v\<rparr>) info;
               info \<leftarrow> set_u32 buf (xdp_tb ! IFLA_XDP_DRV_PROG_ID) (\<lambda>v i. i\<lparr>drv_prog_id := v\<rparr>) info;
               info \<leftarrow> set_u32 buf (xdp_tb ! IFLA_XDP_HW_PROG_ID) (\<lambda>v i. i\<lparr>hw_prog_id := v\<rparr>) info;
               Some (0, xdp_id\<lparr>md_info := info\<rparr>)
             }
           })
       })
   }"

text \<open>The requests for dumps: the message header and the zeroed header of the kind of object with
  its family and, for the traffic control, the interface and the parent.\<close>

definition dump_header :: "nat \<Rightarrow> u16 \<Rightarrow> u32 \<Rightarrow> bytes" where
  "dump_header hsize type seq = le_of_word 4 (of_nat (NLMSG_HDRLEN + hsize) :: u32) @ le_of_word 2 type
     @ le_of_word 2 (NLM_F_DUMP OR NLM_F_REQUEST) @ le_of_word 4 seq @ le_of_word 4 (0 :: u32)"

definition getlink_request :: "u32 \<Rightarrow> bytes" where
  "getlink_request seq = dump_header sizeof_ifinfomsg RTM_GETLINK seq @ AF_PACKET # replicate 15 0"

definition tc_request :: "u16 \<Rightarrow> u32 \<Rightarrow> u32 \<Rightarrow> u32 \<Rightarrow> bytes" where
  "tc_request type seq ifindex parent = dump_header sizeof_tcmsg type seq
     @ [0, 0, 0, 0] @ le_of_word 4 ifindex @ le_of_word 4 (0 :: u32) @ le_of_word 4 parent @ le_of_word 4 (0 :: u32)"

definition nl_dump ::
    "'n nl_env \<Rightarrow> u32 \<Rightarrow> u32 \<Rightarrow> bytes \<Rightarrow> (bytes \<Rightarrow> nat \<Rightarrow> 'c \<Rightarrow> (int \<times> 'c) option) \<Rightarrow> 'c \<Rightarrow> 'n \<Rightarrow> ('c recv_result \<times> 'n) option" where
  "nl_dump env nl_pid seq req fn c n =
     (if ne_send env \<noteq> 0 then Some (Ret (- ne_send env) c, n)
      else do {
        let (rs, n) = ne_recv env n req;
        r \<leftarrow> bpf_netlink_recv (ne_buf env) nl_pid seq (Some fn) rs c;
        Some (r, n)
      })"

text \<open>\<open>now\<close> is the result of \<^verbatim>\<open>time\<close>, used as the sequence number.\<close>

definition libbpf_nl_get_link where
  "libbpf_nl_get_link env nl_pid now dump c n =
     nl_dump env nl_pid now (getlink_request now) (dump_link_nlmsg dump) c n"

definition libbpf_nl_get_class where
  "libbpf_nl_get_class env nl_pid tca_max now ifindex dump c n =
     nl_dump env nl_pid now (tc_request RTM_GETTCLASS now ifindex 0) (dump_class_nlmsg tca_max dump) c n"

definition libbpf_nl_get_qdisc where
  "libbpf_nl_get_qdisc env nl_pid tca_max now ifindex dump c n =
     nl_dump env nl_pid now (tc_request RTM_GETQDISC now ifindex 0) (dump_qdisc_nlmsg tca_max dump) c n"

definition libbpf_nl_get_filter where
  "libbpf_nl_get_filter env nl_pid tca_max now ifindex handle dump c n =
     nl_dump env nl_pid now (tc_request RTM_GETTFILTER now ifindex handle) (dump_filter_nlmsg tca_max dump) c n"

section \<open>Querying the attached program\<close>

definition XDP_SKB :: u32 where "XDP_SKB = 2"
definition XDP_DRV :: u32 where "XDP_DRV = 4"
definition XDP_HW :: u32 where "XDP_HW = 8"
definition XDP_FLAGS_MASK :: u32 where "XDP_FLAGS_MASK = 15"

definition no_xdp_info :: xdp_link_info where
  "no_xdp_info = \<lparr>prog_id = 0, drv_prog_id = 0, hw_prog_id = 0, skb_prog_id = 0, attach_mode = 0\<rparr>"

text \<open>\<^verbatim>\<open>bpf_get_link_xdp_info\<close> for a caller that passes the whole structure (\<open>has_size\<close>); the result is the
  return value, with the structure when it is 0.\<close>

definition bpf_get_link_xdp_info ::
    "'n nl_env \<Rightarrow> u32 \<Rightarrow> int \<Rightarrow> bool \<Rightarrow> u32 \<Rightarrow> 'n \<Rightarrow> (xdp_link_info option recv_result \<times> 'n) option" where
  "bpf_get_link_xdp_info env now ifindex has_size flags n =
     (if flags AND NOT XDP_FLAGS_MASK \<noteq> 0 \<or> \<not> has_size then Some (Ret (- EINVAL) None, n)
      else
        (let flags = flags AND (XDP_SKB OR XDP_DRV OR XDP_HW);
             mask = flags - 1
         in if flags \<noteq> 0 \<and> flags AND mask \<noteq> 0 then Some (Ret (- EINVAL) None, n)
            else (case libbpf_netlink_open env of
              Inl err \<Rightarrow> Some (Ret err None, n)
            | Inr (sock, nl_pid) \<Rightarrow> do {
                (r, n) \<leftarrow> libbpf_nl_get_link env nl_pid now get_xdp_info
                            \<lparr>md_ifindex = word_of_int ifindex, md_info = no_xdp_info\<rparr> n;
                Some (case r of
                        Blocked \<Rightarrow> Blocked
                      | Ret ret md \<Rightarrow> Ret ret (if ret = 0 then Some (md_info md) else None), n)
              })))"

definition get_xdp_id :: "xdp_link_info \<Rightarrow> u32 \<Rightarrow> u32" where
  "get_xdp_id info flags =
     (if attach_mode info \<noteq> XDP_ATTACHED_MULTI then prog_id info
      else if flags AND XDP_DRV \<noteq> 0 then drv_prog_id info
      else if flags AND XDP_HW \<noteq> 0 then hw_prog_id info
      else if flags AND XDP_SKB \<noteq> 0 then skb_prog_id info
      else 0)"

definition bpf_get_link_xdp_id ::
    "'n nl_env \<Rightarrow> u32 \<Rightarrow> int \<Rightarrow> u32 \<Rightarrow> 'n \<Rightarrow> (u32 option recv_result \<times> 'n) option" where
  "bpf_get_link_xdp_id env now ifindex flags n = do {
     (r, n) \<leftarrow> bpf_get_link_xdp_info env now ifindex True flags n;
     Some (case r of
             Blocked \<Rightarrow> Blocked
           | Ret ret info \<Rightarrow> Ret ret (map_option (\<lambda>i. get_xdp_id i flags) info), n)
   }"

section \<open>Facts about the requests\<close>

text \<open>How the other side reads a request: with the same parser.\<close>

definition read_setlink :: "bytes \<Rightarrow> (u32 \<times> u32 \<times> u32) option" where
  "read_setlink req = do {
     ifi \<leftarrow> load32 req 20;
     (e, tb) \<leftarrow> libbpf_nla_parse req IFLA_MAX 32 (int (length req) - 32) None;
     a \<leftarrow> tb ! IFLA_XDP;
     (e, xdp_tb) \<leftarrow> libbpf_nla_parse_nested req IFLA_XDP_MAX a None;
     p \<leftarrow> xdp_tb ! IFLA_XDP_FD;
     fd \<leftarrow> libbpf_nla_getattr_u32 req p;
     flags \<leftarrow> (case xdp_tb ! IFLA_XDP_FLAGS of None \<Rightarrow> Some 0 | Some q \<Rightarrow> libbpf_nla_getattr_u32 req q);
     Some (ifi, fd, flags)
   }"

lemma four_bytes: "\<exists>b0 b1 b2 b3. le_of_word 4 (w :: u32) = [b0, b1, b2, b3] \<and> word_of_le [b0, b1, b2, b3] = w"
proof -
  obtain b0 b1 b2 b3 where b: "le_of_word 4 w = [b0, b1, b2, b3]"
    using length_le_of_word [of 4 w] by (auto simp: numeral_eq_Suc length_Suc_conv simp del: length_le_of_word)
  then show ?thesis using word_of_le_of_word32 [of w] by metis
qed

lemma le_numerals:
  "le_of_word 4 (32 :: u32) = [32, 0, 0, 0]" "le_of_word 4 (44 :: u32) = [44, 0, 0, 0]" "le_of_word 4 (52 :: u32) = [52, 0, 0, 0]"
  "le_of_word 4 (0 :: u32) = [0, 0, 0, 0]" "le_of_word 4 (1 :: u32) = [1, 0, 0, 0]"
  "le_of_word 2 (5 :: u16) = [5, 0]" "le_of_word 2 (19 :: u16) = [19, 0]" "le_of_word 2 (8 :: u16) = [8, 0]"
  "le_of_word 2 (1 :: u16) = [1, 0]" "le_of_word 2 (3 :: u16) = [3, 0]" "le_of_word 2 (12 :: u16) = [12, 0]"
  "le_of_word 2 (20 :: u16) = [20, 0]" "le_of_word 2 (0x802B :: u16) = [0x2B, 0x80]"
  by code_simp+

lemma setlink_head_eq:
  assumes "le_of_word 4 (word_of_int ifindex :: u32) = [i0, i1, i2, i3]"
  shows "setlink_head ifindex = Some ([32, 0, 0, 0, 19, 0, 5, 0, 1, 0, 0, 0, 0, 0, 0, 0, 0, 0, 0, 0, i0, i1, i2, i3] @ replicate 72 0)"
proof -
  have z: "replicate 96 (0 :: u8) = replicate 24 0 @ replicate 72 0" by (simp flip: replicate_add)
  have "replicate 24 (0 :: u8) = [0, 0, 0, 0, 0, 0, 0, 0, 0, 0, 0, 0, 0, 0, 0, 0, 0, 0, 0, 0, 0, 0, 0, 0]"
    by (simp add: numeral_eq_Suc)
  then show ?thesis
    unfolding setlink_head_def z
    by (simp add: store_def Let_def assms le_numerals NLMSG_HDRLEN_def sizeof_ifinfomsg_def NLM_F_REQUEST_def NLM_F_ACK_def
        RTM_SETLINK_def)
qed

text \<open>The bytes of the request.\<close>

definition setlink_bytes :: "u8 list \<Rightarrow> u8 list \<Rightarrow> u8 list \<Rightarrow> bool \<Rightarrow> bytes" where
  "setlink_bytes ifi fd fl with_flags =
     [if with_flags then 52 else 44, 0, 0, 0, 19, 0, 5, 0, 1, 0, 0, 0, 0, 0, 0, 0, 0, 0, 0, 0] @ ifi @ [0, 0, 0, 0, 0, 0, 0, 0]
     @ [if with_flags then 20 else 12, 0, 0x2B, 0x80, 8, 0, 1, 0] @ fd @ (if with_flags then [8, 0, 3, 0] @ fl else [])"

lemmas setlink_consts = NLMSG_HDRLEN_def sizeof_ifinfomsg_def NLM_F_REQUEST_def NLM_F_ACK_def RTM_SETLINK_def
  NLA_HDRLEN_def NLA_F_NESTED_def IFLA_XDP_def IFLA_XDP_FD_def IFLA_XDP_FLAGS_def NLMSG_ALIGN_def NLA_ALIGN_def

lemma setlink_request_eq:
  assumes i: "le_of_word 4 (word_of_int ifindex :: u32) = [i0, i1, i2, i3]"
    and f: "le_of_word 4 (word_of_int fd :: u32) = [f0, f1, f2, f3]" and g: "le_of_word 4 flags = [g0, g1, g2, g3]"
  shows "setlink_request ifindex fd flags = Some (setlink_bytes [i0, i1, i2, i3] [f0, f1, f2, f3] [g0, g1, g2, g3] (flags \<noteq> 0))"
proof -
  have z: "replicate 72 (0 :: u8) = replicate 28 0 @ replicate 44 0" by (simp flip: replicate_add)
  have "replicate 28 (0 :: u8) = [0, 0, 0, 0, 0, 0, 0, 0, 0, 0, 0, 0, 0, 0, 0, 0, 0, 0, 0, 0, 0, 0, 0, 0, 0, 0, 0, 0]"
    by (simp add: numeral_eq_Suc)
  note unfold = setlink_request_def setlink_head_eq [OF i] z this
  show ?thesis
  proof (cases "flags = 0")
    case True
    then show ?thesis
      unfolding unfold by (simp add: put_attr32_def store_def load_def Let_def f le_numerals setlink_consts setlink_bytes_def)
  next
    case False
    then show ?thesis
      unfolding unfold by (simp add: put_attr32_def store_def load_def Let_def f g le_numerals setlink_consts setlink_bytes_def)
  qed
qed

lemma parse_step:
  assumes "nla_len buf pos = Some l" and "4 \<le> l" and "int l \<le> rem" and "rem < 2 ^ 31" and "nla_type buf pos = Some t"
    and "t \<le> maxtype" and "length tb = maxtype + 1"
  shows "nla_parse_from buf maxtype None pos rem tb
    = nla_parse_from buf maxtype None (pos + NLA_ALIGN l) (rem - int (NLA_ALIGN l)) (tb[t := Some pos])"
  using nla_ok_ge [OF assms(2,3,4,1)] assms
  by (simp add: nla_parse_from.simps [of buf maxtype None pos rem tb] nla_next_def arr_set_def)

lemma parse_end: "nla_parse_from buf maxtype None pos 0 tb = Some (0, tb)"
  by (simp add: nla_parse_from.simps nla_ok_def)

lemma read_setlink_bytes:
  assumes i: "word_of_le [i0, i1, i2, i3] = ifi" and f: "word_of_le [f0, f1, f2, f3] = fd"
    and g: "word_of_le [g0, g1, g2, g3] = flags"
  shows "read_setlink (setlink_bytes [i0, i1, i2, i3] [f0, f1, f2, f3] [g0, g1, g2, g3] w) = Some (ifi, fd, if w then flags else 0)"
proof -
  define req where "req = setlink_bytes [i0, i1, i2, i3] [f0, f1, f2, f3] [g0, g1, g2, g3] w"
  note rd = req_def setlink_bytes_def load16_def load32_def load_def
  have ifi: "load32 req 20 = Some ifi" using i by (simp add: rd)
  have len: "length req = (if w then 52 else 44)" by (simp add: req_def setlink_bytes_def)
  have outer: "nla_len req 32 = Some (if w then 20 else 12)" "nla_type req 32 = Some 43"
    by (simp_all add: nla_len_def nla_type_def rd NLA_TYPE_MASK_def)
  have inner: "nla_len req 36 = Some 8" "nla_type req 36 = Some 1" by (simp_all add: nla_len_def nla_type_def rd NLA_TYPE_MASK_def)
  have second: "nla_len req 44 = Some 8" "nla_type req 44 = Some 3" if w
    using that by (simp_all add: nla_len_def nla_type_def rd NLA_TYPE_MASK_def)
  have p1: "libbpf_nla_parse req IFLA_MAX 32 (int (length req) - 32) None = Some (0, (replicate 54 None)[43 := Some 32])"
    unfolding libbpf_nla_parse_def
    by (cases w; subst parse_step [OF outer(1) _ _ _ outer(2)]) (simp_all add: len IFLA_MAX_def NLA_ALIGN_def parse_end)
  have p2: "libbpf_nla_parse_nested req IFLA_XDP_MAX 32 None
      = Some (0, if w then (replicate 8 None)[1 := Some 36, 3 := Some 44] else (replicate 8 None)[1 := Some 36])"
  proof (cases w)
    case True
    then have "nla_parse_from req 7 None 36 16 (replicate 8 None) = Some (0, (replicate 8 None)[1 := Some 36, 3 := Some 44])"
      by (subst parse_step [OF inner(1) _ _ _ inner(2)], simp_all add: NLA_ALIGN_def)
        (subst parse_step [OF second(1) _ _ _ second(2)], simp_all add: NLA_ALIGN_def parse_end)
    then show ?thesis
      using True outer(1) by (simp add: libbpf_nla_parse_nested_def libbpf_nla_parse_def libbpf_nla_len_def libbpf_nla_data_def
          NLA_HDRLEN_def IFLA_XDP_MAX_def)
  next
    case False
    then have "nla_parse_from req 7 None 36 8 (replicate 8 None) = Some (0, (replicate 8 None)[1 := Some 36])"
      by (subst parse_step [OF inner(1) _ _ _ inner(2)], simp_all add: NLA_ALIGN_def parse_end)
    then show ?thesis
      using False outer(1) by (simp add: libbpf_nla_parse_nested_def libbpf_nla_parse_def libbpf_nla_len_def libbpf_nla_data_def
          NLA_HDRLEN_def IFLA_XDP_MAX_def)
  qed
  have "libbpf_nla_getattr_u32 req 36 = Some fd" "w \<Longrightarrow> libbpf_nla_getattr_u32 req 44 = Some flags"
    using f g by (simp_all add: libbpf_nla_getattr_u32_def libbpf_nla_data_def NLA_HDRLEN_def rd)
  then show ?thesis
    unfolding req_def [symmetric] read_setlink_def
    by (cases w) (simp_all add: ifi p1 p2 IFLA_XDP_def IFLA_XDP_FD_def IFLA_XDP_FLAGS_def nth_list_update)
qed

lemma setlink_request_read:
  "\<exists>req. setlink_request ifindex fd flags = Some req \<and> read_setlink req = Some (word_of_int ifindex, word_of_int fd, flags)"
proof -
  obtain i0 i1 i2 i3 where i: "le_of_word 4 (word_of_int ifindex :: u32) = [i0, i1, i2, i3]" "word_of_le [i0, i1, i2, i3] = (word_of_int ifindex :: u32)"
    using four_bytes by blast
  obtain f0 f1 f2 f3 where f: "le_of_word 4 (word_of_int fd :: u32) = [f0, f1, f2, f3]" "word_of_le [f0, f1, f2, f3] = (word_of_int fd :: u32)"
    using four_bytes by blast
  obtain g0 g1 g2 g3 where g: "le_of_word 4 flags = [g0, g1, g2, g3]" "word_of_le [g0, g1, g2, g3] = flags"
    using four_bytes by blast
  show ?thesis
    using setlink_request_eq [OF i(1) f(1) g(1)] read_setlink_bytes [OF i(2) f(2) g(2), of "flags \<noteq> 0"] by auto
qed

section \<open>Facts about the answers\<close>

text \<open>The acknowledgement of the kernel without extended attributes: an error number, 0 for success,
  and the header of the request.\<close>

definition ack_msg :: "u32 \<Rightarrow> u32 \<Rightarrow> u32 \<Rightarrow> bytes \<Rightarrow> bytes" where
  "ack_msg pid seq err hdr = [36, 0, 0, 0, 2, 0, 0, 0] @ le_of_word 4 seq @ le_of_word 4 pid @ le_of_word 4 err @ hdr"

lemma recv_ack:
  assumes "length hdr = 16" and "length buf = 4096"
  shows "bpf_netlink_recv buf pid seq None (Inr (ack_msg pid seq err hdr) # rs) c = Some (Ret (sint err) c)"
proof -
  define b where "b = ack_msg pid seq err hdr @ drop 36 buf"
  note msg = b_def ack_msg_def load16_def load32_def load_def
  have st: "store buf 0 (ack_msg pid seq err hdr) = Some b"
    using assms by (simp add: store_def ack_msg_def b_def)
  have rd: "load32 b 12 = Some pid" "load32 b 8 = Some seq" "load16 b 6 = Some 0" "load16 b 4 = Some NLMSG_ERROR"
    "load32 b 16 = Some err" "load32 b 0 = Some 36"
    using assms by (simp_all add: msg NLMSG_ERROR_def)
  have dump: "libbpf_nla_dump_errormsg b 0 = Some (0, None)"
    using rd by (simp add: libbpf_nla_dump_errormsg_def)
  have m: "nl_message b pid seq None 0 False c = Some (if err = 0 then Inr (False, c) else Inl (sint err, c))"
    using rd dump by (simp add: nl_message_def NLMSG_HDRLEN_def)
  have ok: "NLMSG_OK b 0 36 = Some True" using rd by (simp add: NLMSG_OK_def)
  have stop: "nl_messages b pid seq None 36 0 False c = Some (MsgsDone False c)"
    by (simp add: nl_messages.simps NLMSG_OK_def)
  have "nl_messages b pid seq None 0 36 False c = Some (if err = 0 then MsgsDone False c else MsgsRet (sint err) c)"
    using ok m rd(6) stop by (simp add: nl_messages.simps [of b pid seq None 0 36] NLMSG_ALIGN_def)
  moreover have "ack_msg pid seq err hdr \<noteq> []" "length (ack_msg pid seq err hdr) = 36" using assms by (simp_all add: ack_msg_def)
  ultimately show ?thesis using st by simp
qed

section \<open>Properties\<close>


text \<open>A kernel that records the descriptor of the last request and refuses the interface 0.\<close>

definition sample_kernel :: "u32 \<Rightarrow> u32 \<Rightarrow> u32 \<Rightarrow> u32 \<Rightarrow> u32 \<times> u32" where
  "sample_kernel n ifi fd flags = (if ifi = 0 then (- 19, n) else (0, fd))"

definition sample_nl_env :: "u32 nl_env" where
  "sample_nl_env = \<lparr>ne_socket = 3, ne_bind = 0, ne_getsockname = 0, ne_addrlen_ok = True, ne_pid = 77, ne_send = 0,
     ne_recv = (\<lambda>n req. case read_setlink req of None \<Rightarrow> ([], n) | Some (ifi, fd, flags) \<Rightarrow>
       (let (err, n') = sample_kernel n ifi fd flags in ([Inr (ack_msg 77 1 err (take 16 req))], n'))),
     ne_buf = replicate 4096 0\<rparr>"


text \<open>The table of error messages has no text for \<^verbatim>\<open>LIBBPF_ERRNO__LOAD\<close> (4006).\<close>

lemma strerror_load_undefined: "libbpf_strerror f 4006 True 10 = None" "libbpf_strerror f (- 4005) True 100 = Some (0, Some ''Relocation failed'')"
  by (simp_all add: libbpf_strerror_def libbpf_strerror_table_def LIBBPF_ERRNO__START_def LIBBPF_ERRNO__END_def Let_def)

end
