(* ===== verification/Linfo.thy ===== *)
theory Linfo
  imports Bpf_Object
begin

text \<open>
  \<^verbatim>\<open>eBPF_app/libbpf/src/bpf_prog_linfo.c\<close>: the line information of a loaded program, split by the
  functions the compiler of the kernel made of it, and the lookup of the line of an address or an
  instruction. The two raw tables are byte buffers of records of a size only known at run time; a
  read outside a buffer is \<open>None\<close>. The 32-bit counts are natural numbers, the products that the C code
  computes in 32 bits are reduced modulo \<open>2^32\<close>.
\<close>

section \<open>State\<close>

record prog_linfo =
  raw_linfo :: bytes
  raw_jited_linfo :: bytes
  nr_jited_linfo_per_func :: "nat list"
  jited_linfo_func_idx :: "nat list"
  nr_linfo :: nat
  nr_jited_func :: nat
  rec_size :: nat
  jited_rec_size :: nat

text \<open>The parts of \<^verbatim>\<open>struct bpf_prog_info\<close> that are used; a missing pointer is \<open>None\<close>.\<close>

record prog_info =
  nr_line_info :: nat
  line_info_rec_size :: nat
  line_info :: bytes
  nr_jited_ksyms :: nat
  jited_ksyms :: "u64 list option"
  nr_jited_func_lens :: nat
  jited_func_lens :: "u32 list option"
  nr_jited_line_info :: nat
  jited_line_info_rec_size :: nat
  jited_line_info :: "bytes option"

section \<open>Operations\<close>

text \<open>One round of the loop of \<^verbatim>\<open>dissect_jited_func\<close>. The state is the offset of the current record,
  \<open>prev_i\<close>, \<open>f\<close> and the two arrays; \<open>Inl\<close> is the jump to the error exit.\<close>

record dissect_state =
  ds_off :: nat
  ds_prev :: nat
  ds_f :: nat
  ds_idx :: "nat list"
  ds_per :: "nat list"

definition dissect_step ::
    "bytes \<Rightarrow> nat \<Rightarrow> u64 list \<Rightarrow> u32 list \<Rightarrow> nat \<Rightarrow> dissect_state \<Rightarrow> (int + dissect_state) option" where
  "dissect_step raw rsize ksym_func ksym_len i s = do {
     last \<leftarrow> load64 raw (ds_off s);
     let off = ds_off s + rsize;
     cur \<leftarrow> load64 raw off;
     fn \<leftarrow> arr_get ksym_func (ds_f s);
     if fn = cur then do {
       idx \<leftarrow> arr_set (ds_idx s) (ds_f s) i;
       prev_fn \<leftarrow> arr_get ksym_func (ds_f s - 1);
       prev_len \<leftarrow> arr_get ksym_len (ds_f s - 1);
       if last - prev_fn + 1 > ucast prev_len then Some (Inl (- EINVAL))
       else do {
         per \<leftarrow> arr_set (ds_per s) (ds_f s - 1) (i - ds_prev s);
         Some (Inr \<lparr>ds_off = off, ds_prev = i, ds_f = ds_f s + 1, ds_idx = idx, ds_per = per\<rparr>)
       }
     }
     else if cur \<le> last then Some (Inl (- EINVAL))
     else Some (Inr (s\<lparr>ds_off := off\<rparr>))
   }"

function dissect_loop ::
    "bytes \<Rightarrow> nat \<Rightarrow> u64 list \<Rightarrow> u32 list \<Rightarrow> nat \<Rightarrow> nat \<Rightarrow> nat \<Rightarrow> dissect_state \<Rightarrow> (int + dissect_state) option" where
  "dissect_loop raw rsize ksym_func ksym_len nr nr_func i s =
     (if i < nr \<and> ds_f s < nr_func
      then (case dissect_step raw rsize ksym_func ksym_len i s of
              None \<Rightarrow> None
            | Some (Inl e) \<Rightarrow> Some (Inl e)
            | Some (Inr s') \<Rightarrow> dissect_loop raw rsize ksym_func ksym_len nr nr_func (Suc i) s')
      else Some (Inr s))"
  by pat_completeness auto
termination
  by (relation "measure (\<lambda>(raw, rsize, ksym_func, ksym_len, nr, nr_func, i, s). nr - i)") auto

declare dissect_loop.simps [simp del]

definition dissect_jited_func ::
    "prog_linfo \<Rightarrow> u64 list \<Rightarrow> u32 list \<Rightarrow> (int \<times> prog_linfo) option" where
  "dissect_jited_func li ksym_func ksym_len = do {
     fn0 \<leftarrow> arr_get ksym_func 0;
     first \<leftarrow> load64 (raw_jited_linfo li) 0;
     if fn0 \<noteq> first then Some (- EINVAL, li)
     else do {
       idx \<leftarrow> arr_set (jited_linfo_func_idx li) 0 0;
       r \<leftarrow> dissect_loop (raw_jited_linfo li) (jited_rec_size li) ksym_func ksym_len (nr_linfo li) (nr_jited_func li) 1
              \<lparr>ds_off = 0, ds_prev = 0, ds_f = 1, ds_idx = idx, ds_per = nr_jited_linfo_per_func li\<rparr>;
       case r of
         Inl e \<Rightarrow> Some (e, li)
       | Inr s \<Rightarrow>
           if ds_f s \<noteq> nr_jited_func li then Some (- EINVAL, li)
           else do {
             per \<leftarrow> arr_set (ds_per s) (nr_jited_func li - 1) (nr_linfo li - ds_prev s);
             Some (0, li\<lparr>jited_linfo_func_idx := ds_idx s, nr_jited_linfo_per_func := per\<rparr>)
           }
     }
   }"

text \<open>\<open>malloc k\<close> is whether the \<open>k\<close>-th allocation succeeds, \<open>junk\<close> what the memory of the two arrays
  holds; the result is null or the structure. First the part behind the test whether the
  information about the compiled program is there.\<close>

definition linfo_add_jited ::
    "(nat \<Rightarrow> bool) \<Rightarrow> nat \<Rightarrow> prog_info \<Rightarrow> bytes \<Rightarrow> u64 list \<Rightarrow> u32 list \<Rightarrow> prog_linfo \<Rightarrow> prog_linfo option option" where
  "linfo_add_jited malloc junk info jl ks fl li =
     (if \<not> malloc 2 then Some None
      else do {
        jraw \<leftarrow> load jl 0 (nr_line_info info * jited_line_info_rec_size info);
        if \<not> malloc 3 then Some None
        else if \<not> malloc 4 then Some None
        else do {
          (err, li) \<leftarrow> dissect_jited_func (li\<lparr>nr_jited_func := nr_jited_ksyms info,
              jited_rec_size := jited_line_info_rec_size info, raw_jited_linfo := jraw,
              nr_jited_linfo_per_func := replicate (nr_jited_ksyms info) junk,
              jited_linfo_func_idx := replicate (nr_jited_ksyms info) junk\<rparr>) ks fl;
          if err \<noteq> 0 then Some None else Some (Some li)
        }
      })"

definition bpf_prog_linfo__new ::
    "(nat \<Rightarrow> bool) \<Rightarrow> nat \<Rightarrow> prog_info \<Rightarrow> prog_linfo option option" where
  "bpf_prog_linfo__new malloc junk info =
     (if nr_line_info info = 0 then Some None
      else if line_info_rec_size info < 4 then Some None
      else if \<not> malloc 0 then Some None
      else if \<not> malloc 1 then Some None
      else do {
        raw \<leftarrow> load (line_info info) 0 (nr_line_info info * line_info_rec_size info);
        let li = \<lparr>raw_linfo = raw, raw_jited_linfo = [], nr_jited_linfo_per_func = [], jited_linfo_func_idx = [],
                  nr_linfo = nr_line_info info, nr_jited_func = 0, rec_size = line_info_rec_size info, jited_rec_size = 0\<rparr>;
        case (jited_line_info info, jited_ksyms info, jited_func_lens info) of
          (Some jl, Some ks, Some fl) \<Rightarrow>
            if nr_jited_ksyms info = 0 \<or> nr_jited_line_info info \<noteq> nr_line_info info
               \<or> jited_line_info_rec_size info < 8 \<or> nr_jited_func_lens info \<noteq> nr_jited_ksyms info
            then Some (Some li)
            else linfo_add_jited malloc junk info jl ks fl li
        | _ \<Rightarrow> Some (Some li)
      })"

text \<open>The search loop: the number of records, from an offset on, before the first whose key is
  larger.\<close>

fun lfind_scan :: "(nat \<Rightarrow> 'k::linorder option) \<Rightarrow> nat \<Rightarrow> 'k \<Rightarrow> nat \<Rightarrow> nat \<Rightarrow> nat option" where
  "lfind_scan read rsize key 0 off = Some 0"
| "lfind_scan read rsize key (Suc n) off = do {
     v \<leftarrow> read off;
     if key < v then Some 0
     else do { k \<leftarrow> lfind_scan read rsize key n (off + rsize); Some (Suc k) }
   }"

text \<open>The result of the two lookups is null or the offset of the record in the table.\<close>

definition bpf_prog_linfo__lfind_addr_func ::
    "prog_linfo \<Rightarrow> u64 \<Rightarrow> nat \<Rightarrow> nat \<Rightarrow> nat option option" where
  "bpf_prog_linfo__lfind_addr_func li addr func_idx nr_skip =
     (if func_idx \<ge> nr_jited_func li then Some None
      else do {
        nr \<leftarrow> arr_get (nr_jited_linfo_per_func li) func_idx;
        if nr_skip \<ge> nr then Some None
        else do {
          idx \<leftarrow> arr_get (jited_linfo_func_idx li) func_idx;
          let start = idx + nr_skip;
          let joff = (start * jited_rec_size li) mod 2 ^ 32;
          v \<leftarrow> load64 (raw_jited_linfo li) joff;
          if addr < v then Some None
          else do {
            let off = (start * rec_size li) mod 2 ^ 32;
            k \<leftarrow> lfind_scan (load64 (raw_jited_linfo li)) (jited_rec_size li) addr (nr - nr_skip) joff;
            Some (Some (off + k * rec_size li - rec_size li))
          }
        }
      })"

definition bpf_prog_linfo__lfind :: "prog_linfo \<Rightarrow> u32 \<Rightarrow> nat \<Rightarrow> nat option option" where
  "bpf_prog_linfo__lfind li insn_off nr_skip =
     (if nr_skip \<ge> nr_linfo li then Some None
      else do {
        let off = (nr_skip * rec_size li) mod 2 ^ 32;
        v \<leftarrow> load32 (raw_linfo li) off;
        if insn_off < v then Some None
        else do {
          k \<leftarrow> lfind_scan (load32 (raw_linfo li)) (rec_size li) insn_off (nr_linfo li - nr_skip) off;
          Some (Some (off + k * rec_size li - rec_size li))
        }
      })"

section \<open>Facts about the search\<close>

lemma lfind_scan_spec:
  assumes "\<And>j. j < n \<Longrightarrow> read (off + j * rsize) = Some (v j)"
  shows "\<exists>k. lfind_scan read rsize key n off = Some k \<and> k \<le> n \<and> (\<forall>j < k. v j \<le> key) \<and> (k < n \<longrightarrow> key < v k)"
  using assms
proof (induction n arbitrary: off v)
  case (Suc n)
  have v0: "read off = Some (v 0)" using Suc.prems [of 0] by simp
  show ?case
  proof (cases "key < v 0")
    case False
    have "read (off + rsize + j * rsize) = Some (v (Suc j))" if "j < n" for j
      using Suc.prems [of "Suc j"] that by (simp add: ac_simps)
    from Suc.IH [of "off + rsize" "\<lambda>j. v (Suc j)", OF this] obtain k where
      k: "lfind_scan read rsize key n (off + rsize) = Some k" "k \<le> n" "\<forall>j < k. v (Suc j) \<le> key" "k < n \<longrightarrow> key < v (Suc k)"
      by blast
    have "v j \<le> key" if "j < Suc k" for j using that False k(3) by (cases j) auto
    then show ?thesis using False v0 k(1,2,4) by (intro exI [of _ "Suc k"]) auto
  qed (use v0 in auto)
qed simp

section \<open>Facts about the split\<close>

text \<open>The address of a record of the table of the compiled program.\<close>

definition jaddr :: "bytes \<Rightarrow> nat \<Rightarrow> nat \<Rightarrow> u64" where
  "jaddr raw rsize k = the (load64 raw (k * rsize))"

lemma load_record:
  assumes "length raw = nr * rsize" and "8 \<le> rsize" and "k < nr"
  shows "load64 raw (k * rsize) = Some (jaddr raw rsize k)"
proof -
  have "Suc k * rsize \<le> nr * rsize" using assms(3) by (intro mult_le_mono1) simp
  then have "k * rsize + 8 \<le> length raw" using assms(1,2) by simp
  then show ?thesis by (simp add: jaddr_def load64_def load_def)
qed

definition dissect_inv :: "bytes \<Rightarrow> nat \<Rightarrow> u64 list \<Rightarrow> nat \<Rightarrow> nat \<Rightarrow> nat \<Rightarrow> dissect_state \<Rightarrow> bool" where
  "dissect_inv raw rsize ksym nr nr_func i s \<longleftrightarrow> ds_off s = (i - 1) * rsize \<and> 1 \<le> ds_f s \<and> ds_f s \<le> nr_func
     \<and> length (ds_idx s) = nr_func \<and> length (ds_per s) = nr_func
     \<and> ds_idx s ! 0 = 0 \<and> ds_idx s ! (ds_f s - 1) = ds_prev s \<and> ds_prev s < i \<and> ds_prev s < nr
     \<and> (\<forall>g. g + 1 < ds_f s \<longrightarrow> 0 < ds_per s ! g \<and> ds_idx s ! g + ds_per s ! g = ds_idx s ! (g + 1))
     \<and> (\<forall>g < ds_f s. jaddr raw rsize (ds_idx s ! g) = ksym ! g)"

lemma dissect_step_inv:
  assumes inv: "dissect_inv raw rsize ksym nr nr_func i s" and i: "1 \<le> i" "i < nr" and f: "ds_f s < nr_func"
    and raw: "length raw = nr * rsize" "8 \<le> rsize" and len: "length ksym = nr_func" "length klen = nr_func"
  shows "dissect_step raw rsize ksym klen i s = Some (Inl (- EINVAL))
    \<or> (\<exists>s'. dissect_step raw rsize ksym klen i s = Some (Inr s') \<and> dissect_inv raw rsize ksym nr nr_func (Suc i) s')"
proof -
  note I = inv [unfolded dissect_inv_def]
  have off: "ds_off s + rsize = i * rsize" "ds_off s = (i - 1) * rsize"
    using I i(1) by (cases i; simp)+
  have rd: "load64 raw (ds_off s) = Some (jaddr raw rsize (i - 1))" "load64 raw (i * rsize) = Some (jaddr raw rsize i)"
    using load_record [OF raw, of "i - 1"] load_record [OF raw, of i] i off(2) by simp_all
  have arr: "arr_get ksym (ds_f s) = Some (ksym ! ds_f s)" "arr_get ksym (ds_f s - 1) = Some (ksym ! (ds_f s - 1))"
    "arr_get klen (ds_f s - 1) = Some (klen ! (ds_f s - 1))" "arr_set (ds_idx s) (ds_f s) i = Some ((ds_idx s)[ds_f s := i])"
    "arr_set (ds_per s) (ds_f s - 1) v = Some ((ds_per s)[ds_f s - 1 := v])" for v
    using f len I by (simp_all add: arr_get_def arr_set_def)
  let ?found = "\<lparr>ds_off = i * rsize, ds_prev = i, ds_f = ds_f s + 1, ds_idx = (ds_idx s)[ds_f s := i],
    ds_per = (ds_per s)[ds_f s - 1 := i - ds_prev s]\<rparr>"
  have step: "dissect_step raw rsize ksym klen i s =
      (if ksym ! ds_f s = jaddr raw rsize i then
         (if jaddr raw rsize (i - 1) - ksym ! (ds_f s - 1) + 1 > ucast (klen ! (ds_f s - 1)) then Some (Inl (- EINVAL))
          else Some (Inr ?found))
       else if jaddr raw rsize i \<le> jaddr raw rsize (i - 1) then Some (Inl (- EINVAL))
       else Some (Inr (s\<lparr>ds_off := i * rsize\<rparr>)))"
    by (simp only: dissect_step_def Let_def off(1) rd arr Option.bind.simps)
  have moved: "dissect_inv raw rsize ksym nr nr_func (Suc i) (s\<lparr>ds_off := i * rsize\<rparr>)"
    using I by (auto simp: dissect_inv_def)
  have found: "dissect_inv raw rsize ksym nr nr_func (Suc i) ?found" if hit: "ksym ! ds_f s = jaddr raw rsize i"
  proof -
    have per: "0 < (ds_per s)[ds_f s - 1 := i - ds_prev s] ! g
        \<and> (ds_idx s)[ds_f s := i] ! g + (ds_per s)[ds_f s - 1 := i - ds_prev s] ! g = (ds_idx s)[ds_f s := i] ! (g + 1)"
      if "g < ds_f s" for g
      using that I f by (cases "g = ds_f s - 1") (auto simp: nth_list_update)
    have "jaddr raw rsize ((ds_idx s)[ds_f s := i] ! g) = ksym ! g" if "g < Suc (ds_f s)" for g
      using that I f hit by (cases "g = ds_f s") (auto simp: nth_list_update)
    then show ?thesis using I f i per by (auto simp: dissect_inv_def)
  qed
  show ?thesis unfolding step using moved found by auto
qed

lemma dissect_loop_inv:
  assumes "dissect_inv raw rsize ksym nr nr_func i s" and "1 \<le> i"
    and "length raw = nr * rsize" "8 \<le> rsize" and "length ksym = nr_func" "length klen = nr_func"
  shows "dissect_loop raw rsize ksym klen nr nr_func i s = Some (Inl (- EINVAL))
    \<or> (\<exists>s' i'. dissect_loop raw rsize ksym klen nr nr_func i s = Some (Inr s') \<and> dissect_inv raw rsize ksym nr nr_func i' s')"
  using assms
proof (induction raw rsize ksym klen nr nr_func i s rule: dissect_loop.induct)
  case (1 raw rsize ksym klen nr nr_func i s)
  note unroll = dissect_loop.simps [of raw rsize ksym klen nr nr_func i s]
  show ?case
  proof (cases "i < nr \<and> ds_f s < nr_func")
    case True
    from dissect_step_inv [OF "1.prems"(1,2) conjunct1 [OF True] conjunct2 [OF True] "1.prems"(3-6)] show ?thesis
    proof
      assume "\<exists>s'. dissect_step raw rsize ksym klen i s = Some (Inr s') \<and> dissect_inv raw rsize ksym nr nr_func (Suc i) s'"
      then obtain s' where s': "dissect_step raw rsize ksym klen i s = Some (Inr s')"
        "dissect_inv raw rsize ksym nr nr_func (Suc i) s'" by blast
      from "1.IH" [OF True s'(1) refl s'(2) _ "1.prems"(3-6)] show ?thesis using True s'(1) by (simp add: unroll)
    qed (use True in \<open>simp add: unroll\<close>)
  next
    case False
    then show ?thesis using "1.prems"(1) unroll by auto
  qed
qed

text \<open>The functions split the records: each has its own consecutive, nonempty part, which starts at
  the record with its address.\<close>

definition linfo_split :: "prog_linfo \<Rightarrow> u64 list \<Rightarrow> bool" where
  "linfo_split li ksym \<longleftrightarrow> length (jited_linfo_func_idx li) = nr_jited_func li
     \<and> length (nr_jited_linfo_per_func li) = nr_jited_func li \<and> jited_linfo_func_idx li ! 0 = 0
     \<and> (\<forall>f < nr_jited_func li. 0 < nr_jited_linfo_per_func li ! f
          \<and> jited_linfo_func_idx li ! f + nr_jited_linfo_per_func li ! f
              = (if f + 1 < nr_jited_func li then jited_linfo_func_idx li ! (f + 1) else nr_linfo li)
          \<and> jaddr (raw_jited_linfo li) (jited_rec_size li) (jited_linfo_func_idx li ! f) = ksym ! f)"

lemma dissect_split:
  assumes raw: "length (raw_jited_linfo li) = nr_linfo li * jited_rec_size li" "8 \<le> jited_rec_size li" and nr: "0 < nr_linfo li"
    and len: "length ksym = nr_jited_func li" "length klen = nr_jited_func li" "0 < nr_jited_func li"
    "length (jited_linfo_func_idx li) = nr_jited_func li" "length (nr_jited_linfo_per_func li) = nr_jited_func li"
  shows "\<exists>err li'. dissect_jited_func li ksym klen = Some (err, li') \<and> (err = - EINVAL \<or> err = 0 \<and> linfo_split li' ksym
    \<and> li' = li\<lparr>jited_linfo_func_idx := jited_linfo_func_idx li', nr_jited_linfo_per_func := nr_jited_linfo_per_func li'\<rparr>)"
proof -
  let ?s0 = "\<lparr>ds_off = 0, ds_prev = 0, ds_f = 1, ds_idx = (jited_linfo_func_idx li)[0 := 0], ds_per = nr_jited_linfo_per_func li\<rparr>"
  define loop where "loop = dissect_loop (raw_jited_linfo li) (jited_rec_size li) ksym klen (nr_linfo li) (nr_jited_func li) 1 ?s0"
  have first: "load64 (raw_jited_linfo li) 0 = Some (jaddr (raw_jited_linfo li) (jited_rec_size li) 0)"
    using load_record [OF raw nr] by simp
  have d: "dissect_jited_func li ksym klen = (if ksym ! 0 \<noteq> jaddr (raw_jited_linfo li) (jited_rec_size li) 0 then Some (- EINVAL, li)
      else Option.bind loop (\<lambda>r. case r of Inl e \<Rightarrow> Some (e, li) | Inr s \<Rightarrow>
        if ds_f s \<noteq> nr_jited_func li then Some (- EINVAL, li)
        else Option.bind (arr_set (ds_per s) (nr_jited_func li - 1) (nr_linfo li - ds_prev s))
          (\<lambda>per. Some (0, li\<lparr>jited_linfo_func_idx := ds_idx s, nr_jited_linfo_per_func := per\<rparr>))))"
    using len by (simp only: dissect_jited_func_def first arr_get_def arr_set_def if_True Option.bind.simps loop_def)
  show ?thesis
  proof (cases "ksym ! 0 = jaddr (raw_jited_linfo li) (jited_rec_size li) 0")
    case True
    then have "dissect_inv (raw_jited_linfo li) (jited_rec_size li) ksym (nr_linfo li) (nr_jited_func li) 1 ?s0"
      using len nr by (auto simp: dissect_inv_def nth_list_update)
    from dissect_loop_inv [OF this le_refl raw len(1,2)] show ?thesis
      unfolding loop_def [symmetric]
    proof
      assume "\<exists>s' i'. loop = Some (Inr s') \<and> dissect_inv (raw_jited_linfo li) (jited_rec_size li) ksym (nr_linfo li) (nr_jited_func li) i' s'"
      then obtain s i where s: "loop = Some (Inr s)"
        and I: "dissect_inv (raw_jited_linfo li) (jited_rec_size li) ksym (nr_linfo li) (nr_jited_func li) i s" by blast
      let ?n = "nr_jited_func li"
      let ?li = "li\<lparr>jited_linfo_func_idx := ds_idx s, nr_jited_linfo_per_func := (ds_per s)[?n - 1 := nr_linfo li - ds_prev s]\<rparr>"
      have "linfo_split ?li ksym" if "ds_f s = ?n"
        using I [unfolded dissect_inv_def] that len(3)
        by (auto simp: linfo_split_def nth_list_update)
      then show ?thesis
        using I True by (auto simp: d s dissect_inv_def arr_set_def)
    qed (use True in \<open>simp add: d\<close>)
  qed (simp add: d)
qed

text \<open>What the kernel hands over: the tables have the announced number of entries.\<close>

definition wf_info :: "prog_info \<Rightarrow> bool" where
  "wf_info info \<longleftrightarrow> nr_line_info info * line_info_rec_size info \<le> length (line_info info)
     \<and> (\<forall>jl. jited_line_info info = Some jl \<longrightarrow> nr_jited_line_info info * jited_line_info_rec_size info \<le> length jl)
     \<and> (\<forall>ks. jited_ksyms info = Some ks \<longrightarrow> length ks = nr_jited_ksyms info)
     \<and> (\<forall>fl. jited_func_lens info = Some fl \<longrightarrow> length fl = nr_jited_func_lens info)"

definition linfo_ok :: "prog_linfo \<Rightarrow> prog_info \<Rightarrow> bool" where
  "linfo_ok li info \<longleftrightarrow> 0 < nr_linfo li \<and> 4 \<le> rec_size li \<and> length (raw_linfo li) = nr_linfo li * rec_size li
     \<and> (nr_jited_func li \<noteq> 0 \<longrightarrow> 8 \<le> jited_rec_size li \<and> length (raw_jited_linfo li) = nr_linfo li * jited_rec_size li
          \<and> linfo_split li (the (jited_ksyms info)))"

lemma linfo_add_jited_ok:
  assumes info: "wf_info info" "jited_line_info info = Some jl" "jited_ksyms info = Some ks" "jited_func_lens info = Some fl"
      "nr_jited_ksyms info \<noteq> 0" "nr_jited_line_info info = nr_line_info info" "8 \<le> jited_line_info_rec_size info"
      "nr_jited_func_lens info = nr_jited_ksyms info"
    and li: "linfo_ok li info" "nr_linfo li = nr_line_info info"
  shows "\<exists>r. linfo_add_jited malloc junk info jl ks fl li = Some r \<and> (case r of None \<Rightarrow> True | Some li \<Rightarrow> linfo_ok li info)"
proof -
  let ?jraw = "take (nr_line_info info * jited_line_info_rec_size info) jl"
  define li2 where "li2 = li\<lparr>nr_jited_func := nr_jited_ksyms info, jited_rec_size := jited_line_info_rec_size info,
    raw_jited_linfo := ?jraw, nr_jited_linfo_per_func := replicate (nr_jited_ksyms info) junk,
    jited_linfo_func_idx := replicate (nr_jited_ksyms info) junk\<rparr>"
  have jl: "load jl 0 (nr_line_info info * jited_line_info_rec_size info) = Some ?jraw"
    and jlen: "length ?jraw = nr_line_info info * jited_line_info_rec_size info"
    and lens: "length ks = nr_jited_ksyms info" "length fl = nr_jited_ksyms info"
    using info by (auto simp: load_def wf_info_def)
  have pos: "0 < nr_line_info info" using li by (simp add: linfo_ok_def)
  obtain err li3 where d: "dissect_jited_func li2 ks fl = Some (err, li3)" "err = - EINVAL \<or> err = 0 \<and> linfo_split li3 ks
      \<and> li3 = li2\<lparr>jited_linfo_func_idx := jited_linfo_func_idx li3, nr_jited_linfo_per_func := nr_jited_linfo_per_func li3\<rparr>"
    using dissect_split [of li2 ks fl] info li(2) pos jlen lens by (auto simp: li2_def)
  have "linfo_ok li3 info" if "err = 0"
  proof -
    have split: "linfo_split li3 ks" and eq: "li3 = li2\<lparr>jited_linfo_func_idx := jited_linfo_func_idx li3,
        nr_jited_linfo_per_func := nr_jited_linfo_per_func li3\<rparr>"
      using d(2) that by (auto simp: EINVAL_def)
    have "raw_linfo li3 = raw_linfo li" "raw_jited_linfo li3 = ?jraw" "nr_linfo li3 = nr_line_info info"
      "rec_size li3 = rec_size li" "jited_rec_size li3 = jited_line_info_rec_size info"
      by (subst eq, simp add: li2_def li(2))+
    then show ?thesis using split info li jlen by (auto simp: linfo_ok_def)
  qed
  moreover have "linfo_add_jited malloc junk info jl ks fl li
      = (if \<not> malloc 2 \<or> \<not> malloc 3 \<or> \<not> malloc 4 \<or> err \<noteq> 0 then Some None else Some (Some li3))"
    using jl d(1) by (simp add: linfo_add_jited_def li2_def)
  ultimately show ?thesis by auto
qed

lemma linfo_new_ok:
  assumes wf: "wf_info info"
  shows "\<exists>r. bpf_prog_linfo__new malloc junk info = Some r \<and> (case r of None \<Rightarrow> True | Some li \<Rightarrow> linfo_ok li info)"
proof (cases "nr_line_info info = 0 \<or> line_info_rec_size info < 4 \<or> \<not> malloc 0 \<or> \<not> malloc 1")
  case False
  let ?raw = "take (nr_line_info info * line_info_rec_size info) (line_info info)"
  have raw: "load (line_info info) 0 (nr_line_info info * line_info_rec_size info) = Some ?raw"
    and len: "length ?raw = nr_line_info info * line_info_rec_size info"
    using wf by (simp_all add: load_def wf_info_def)
  define li where "li = \<lparr>raw_linfo = ?raw, raw_jited_linfo = [], nr_jited_linfo_per_func = [], jited_linfo_func_idx = [],
    nr_linfo = nr_line_info info, nr_jited_func = 0, rec_size = line_info_rec_size info, jited_rec_size = 0\<rparr>"
  have li: "linfo_ok li info" "nr_linfo li = nr_line_info info" using False len by (auto simp: linfo_ok_def li_def)
  have new: "bpf_prog_linfo__new malloc junk info = (case (jited_line_info info, jited_ksyms info, jited_func_lens info) of
      (Some jl, Some ks, Some fl) \<Rightarrow> if nr_jited_ksyms info = 0 \<or> nr_jited_line_info info \<noteq> nr_line_info info
           \<or> jited_line_info_rec_size info < 8 \<or> nr_jited_func_lens info \<noteq> nr_jited_ksyms info
        then Some (Some li) else linfo_add_jited malloc junk info jl ks fl li
    | _ \<Rightarrow> Some (Some li))"
    using False raw unfolding bpf_prog_linfo__new_def Let_def li_def by simp
  show ?thesis
    unfolding new using li linfo_add_jited_ok [OF wf _ _ _ _ _ _ _ li, of _ _ _ malloc junk]
    by (auto simp: not_less split: option.splits)
qed (auto simp: bpf_prog_linfo__new_def)

lemma dissect_sizes:
  "dissect_jited_func li ks fl = Some (err, li') \<Longrightarrow>
    nr_linfo li' = nr_linfo li \<and> rec_size li' = rec_size li \<and> jited_rec_size li' = jited_rec_size li"
  by (auto simp: dissect_jited_func_def split: Option.bind_splits sum.splits if_splits)

lemma linfo_new_sizes:
  assumes "bpf_prog_linfo__new malloc junk info = Some (Some li)"
  shows "nr_linfo li = nr_line_info info \<and> rec_size li = line_info_rec_size info
    \<and> (nr_jited_func li = 0 \<or> jited_rec_size li = jited_line_info_rec_size info)"
  using assms
  by (auto simp: bpf_prog_linfo__new_def linfo_add_jited_def Let_def dest!: dissect_sizes
      split: Option.bind_splits option.splits if_splits)

lemma lfind_addr_spec:
  assumes ok: "linfo_ok li info" and f: "func < nr_jited_func li" "skip < nr_jited_linfo_per_func li ! func"
    and small: "nr_linfo li * rec_size li < 2 ^ 32" "nr_linfo li * jited_rec_size li < 2 ^ 32"
  defines "start \<equiv> jited_linfo_func_idx li ! func + skip"
    and "stop \<equiv> jited_linfo_func_idx li ! func + nr_jited_linfo_per_func li ! func"
    and "A \<equiv> jaddr (raw_jited_linfo li) (jited_rec_size li)"
  shows "stop \<le> nr_linfo li" and "\<exists>r. bpf_prog_linfo__lfind_addr_func li addr func skip = Some r \<and> (case r of None \<Rightarrow> addr < A start
    | Some off \<Rightarrow> \<exists>k. off = k * rec_size li \<and> start \<le> k \<and> k < stop \<and> (\<forall>j. start \<le> j \<longrightarrow> j \<le> k \<longrightarrow> A j \<le> addr)
        \<and> (k + 1 < stop \<longrightarrow> addr < A (k + 1)))"
proof -
  have J: "8 \<le> jited_rec_size li" "length (raw_jited_linfo li) = nr_linfo li * jited_rec_size li"
    and S: "linfo_split li (the (jited_ksyms info))"
    using ok f(1) by (auto simp: linfo_ok_def)
  have mono: "g < nr_jited_func li \<Longrightarrow> jited_linfo_func_idx li ! g + nr_jited_linfo_per_func li ! g \<le> nr_linfo li" for g
  proof (induction "nr_jited_func li - g" arbitrary: g)
    case (Suc n)
    show ?case
    proof (cases "g + 1 < nr_jited_func li")
      case True
      then have "jited_linfo_func_idx li ! (g + 1) + nr_jited_linfo_per_func li ! (g + 1) \<le> nr_linfo li"
        using Suc.hyps by simp
      moreover have "jited_linfo_func_idx li ! g + nr_jited_linfo_per_func li ! g = jited_linfo_func_idx li ! (g + 1)"
        using S [unfolded linfo_split_def] Suc.prems True by auto
      ultimately show ?thesis by linarith
    qed (use S Suc.prems in \<open>simp add: linfo_split_def\<close>)
  qed simp
  then show stop: "stop \<le> nr_linfo li" using f(1) by (simp add: stop_def)
  have st: "start < stop" "start < nr_linfo li" using f(2) stop by (simp_all add: start_def stop_def)
  have m: "start * jited_rec_size li < 2 ^ 32" "start * rec_size li < 2 ^ 32"
    using st(2) small by (meson le_less_trans less_imp_le mult_le_mono1)+
  have rd: "load64 (raw_jited_linfo li) (start * jited_rec_size li + j * jited_rec_size li) = Some (A (start + j))"
    if "j < stop - start" for j
    using load_record [OF J(2,1), of "start + j"] that stop by (simp add: A_def add_mult_distrib)
  then obtain k where k: "lfind_scan (load64 (raw_jited_linfo li)) (jited_rec_size li) addr (stop - start) (start * jited_rec_size li) = Some k"
    "k \<le> stop - start" "\<forall>j < k. A (start + j) \<le> addr" "k < stop - start \<longrightarrow> addr < A (start + k)"
    using lfind_scan_spec [of "stop - start" "load64 (raw_jited_linfo li)" "start * jited_rec_size li" "jited_rec_size li" "\<lambda>j. A (start + j)"]
    by blast
  have v0: "load64 (raw_jited_linfo li) (start * jited_rec_size li) = Some (A start)"
    using rd [of 0] st(1) by simp
  have len: "func < length (nr_jited_linfo_per_func li)" "func < length (jited_linfo_func_idx li)"
    using S f(1) by (simp_all add: linfo_split_def)
  have "nr_jited_linfo_per_func li ! func - skip = stop - start" by (simp add: start_def stop_def)
  then have eq: "bpf_prog_linfo__lfind_addr_func li addr func skip = (if addr < A start then Some None
      else Some (Some (start * rec_size li + k * rec_size li - rec_size li)))"
    using f len k(1) m v0 unfolding bpf_prog_linfo__lfind_addr_func_def start_def [symmetric]
    by (simp add: arr_get_def Let_def flip: start_def)
  show "\<exists>r. bpf_prog_linfo__lfind_addr_func li addr func skip = Some r \<and> (case r of None \<Rightarrow> addr < A start
    | Some off \<Rightarrow> \<exists>k. off = k * rec_size li \<and> start \<le> k \<and> k < stop \<and> (\<forall>j. start \<le> j \<longrightarrow> j \<le> k \<longrightarrow> A j \<le> addr)
        \<and> (k + 1 < stop \<longrightarrow> addr < A (k + 1)))"
  proof (cases "addr < A start")
    case False
    then have "0 < k" using k(4) st(1) by (cases k) auto
    have "A j \<le> addr" if "start \<le> j" "j \<le> start + k - 1" for j
      using k(3) [rule_format, of "j - start"] that \<open>0 < k\<close> by simp
    moreover have "start * rec_size li + k * rec_size li - rec_size li = (start + k - 1) * rec_size li"
      using \<open>0 < k\<close> by (simp add: algebra_simps diff_mult_distrib2)
    moreover have "start \<le> start + k - 1" "start + k - 1 < stop" "start + k - 1 + 1 < stop \<longrightarrow> addr < A (start + k - 1 + 1)"
      using k(2,4) \<open>0 < k\<close> st(1) by auto
    ultimately show ?thesis using False eq by (intro exI [of _ "Some ((start + k - 1) * rec_size li)"]) auto
  qed (simp add: eq)
qed

section \<open>Properties\<close>

text \<open>The line of an address. For whatever the kernel hands over and whatever the allocator
  answers, \<^verbatim>\<open>bpf_prog_linfo__new\<close> reads only inside the tables and gives nothing or a structure in
  which the functions split the records into consecutive nonempty parts, each starting at the
  address of its function. In it, the lookup of an address in a function, after skipping some of
  its records, stays inside the tables; it finds nothing exactly when the address is before the
  first record looked at, and otherwise the record up to which all addresses are at most the given
  one and after which the next, if the function has one, is larger. The tables must be smaller than
  4 GiB.\<close>

lemma linfo_lookup_correct:
  assumes "wf_info info" and "nr_line_info info * line_info_rec_size info < 2 ^ 32"
    and "nr_line_info info * jited_line_info_rec_size info < 2 ^ 32"
  shows "\<exists>r. bpf_prog_linfo__new malloc junk info = Some r \<and> (\<forall>li. r = Some li \<longrightarrow> linfo_ok li info \<and>
    (\<forall>func < nr_jited_func li. \<forall>skip < nr_jited_linfo_per_func li ! func. \<forall>addr.
      let start = jited_linfo_func_idx li ! func + skip;
          stop = jited_linfo_func_idx li ! func + nr_jited_linfo_per_func li ! func;
          A = jaddr (raw_jited_linfo li) (jited_rec_size li)
      in stop \<le> nr_linfo li \<and> (\<exists>found. bpf_prog_linfo__lfind_addr_func li addr func skip = Some found \<and> (case found of
           None \<Rightarrow> addr < A start
         | Some off \<Rightarrow> \<exists>k. off = k * rec_size li \<and> start \<le> k \<and> k < stop
             \<and> (\<forall>j. start \<le> j \<longrightarrow> j \<le> k \<longrightarrow> A j \<le> addr) \<and> (k + 1 < stop \<longrightarrow> addr < A (k + 1))))))"
proof -
  obtain r where r: "bpf_prog_linfo__new malloc junk info = Some r" "\<And>li. r = Some li \<Longrightarrow> linfo_ok li info"
    using linfo_new_ok [OF assms(1), of malloc junk] by fastforce
  have same: "nr_linfo li = nr_line_info info \<and> rec_size li = line_info_rec_size info
      \<and> (nr_jited_func li = 0 \<or> jited_rec_size li = jited_line_info_rec_size info)" if "r = Some li" for li
    using linfo_new_sizes r(1) that by blast
  show ?thesis
    unfolding Let_def using r same lfind_addr_spec [where info = info] assms(2,3) by (intro exI [of _ r]) fastforce
qed

text \<open>One function with two records, at the addresses 16 and 20.\<close>

definition sample_info :: prog_info where
  "sample_info = \<lparr>nr_line_info = 2, line_info_rec_size = 4, line_info = replicate 8 0, nr_jited_ksyms = 1,
     jited_ksyms = Some [16], nr_jited_func_lens = 1, jited_func_lens = Some [8], nr_jited_line_info = 2,
     jited_line_info_rec_size = 8, jited_line_info = Some (le_of_word 8 (16 :: u64) @ le_of_word 8 (20 :: u64))\<rparr>"

lemma linfo_lookup_correct_example:
  "\<exists>r. bpf_prog_linfo__new (\<lambda>_. True) 0 sample_info = Some r \<and> (\<forall>li. r = Some li \<longrightarrow> linfo_ok li sample_info)"
  using linfo_lookup_correct [of sample_info "\<lambda>_. True" 0] by (auto simp: wf_info_def sample_info_def)

end
