(* ===== verification/Xsk_Ring.thy ===== *)
theory Xsk_Ring
  imports Fifo
begin

text \<open>
  \<^verbatim>\<open>eBPF_app/libbpf/src/xsk.h\<close>: the rings of descriptors that a user-space program and the kernel share for
  AF_XDP sockets. The two free-running 32-bit indices and the descriptors are in shared memory; each
  side keeps a copy of the indices. The memory barriers have no effect in a model where each
  transaction of a side is one step. Both sides of a ring are put together from the functions of the
  header.
\<close>

unbundle bit_operations_syntax

section \<open>Rings\<close>

record xsk_ring =
  cached_prod :: u32
  cached_cons :: u32
  ring_mask :: u32
  ring_size :: u32

record 'd xsk_shared =
  sh_producer :: u32
  sh_consumer :: u32
  sh_ring :: "'d list"
  sh_flags :: u32

definition XDP_RING_NEED_WAKEUP :: u32 where "XDP_RING_NEED_WAKEUP = 1"
definition XSK_UNALIGNED_BUF_OFFSET_SHIFT :: nat where "XSK_UNALIGNED_BUF_OFFSET_SHIFT = 48"
definition XSK_UNALIGNED_BUF_ADDR_MASK :: u64 where "XSK_UNALIGNED_BUF_ADDR_MASK = mask XSK_UNALIGNED_BUF_OFFSET_SHIFT"

text \<open>The descriptor an index names, for reading and for writing: the same computation in the four
  accessors of the header.\<close>

definition xsk_ring_prod__fill_addr :: "xsk_ring \<Rightarrow> u32 \<Rightarrow> nat" where
  "xsk_ring_prod__fill_addr fill idx = unat (idx AND ring_mask fill)"

definition xsk_ring_cons__comp_addr :: "xsk_ring \<Rightarrow> u32 \<Rightarrow> nat" where
  "xsk_ring_cons__comp_addr r idx = unat (idx AND ring_mask r)"

definition xsk_ring_prod__tx_desc :: "xsk_ring \<Rightarrow> u32 \<Rightarrow> nat" where
  "xsk_ring_prod__tx_desc tx idx = unat (idx AND ring_mask tx)"

definition xsk_ring_cons__rx_desc :: "xsk_ring \<Rightarrow> u32 \<Rightarrow> nat" where
  "xsk_ring_cons__rx_desc rx idx = unat (idx AND ring_mask rx)"

definition xsk_ring_prod__needs_wakeup :: "'d xsk_shared \<Rightarrow> bool" where
  "xsk_ring_prod__needs_wakeup sh \<longleftrightarrow> sh_flags sh AND XDP_RING_NEED_WAKEUP \<noteq> 0"

definition xsk_prod_nb_free :: "'d xsk_shared \<Rightarrow> xsk_ring \<Rightarrow> u32 \<Rightarrow> u32 \<times> xsk_ring" where
  "xsk_prod_nb_free sh r nb =
     (let free_entries = cached_cons r - cached_prod r in
      if free_entries \<ge> nb then (free_entries, r)
      else
        (let r = r\<lparr>cached_cons := sh_consumer sh + ring_size r\<rparr>
         in (cached_cons r - cached_prod r, r)))"

definition xsk_cons_nb_avail :: "'d xsk_shared \<Rightarrow> xsk_ring \<Rightarrow> u32 \<Rightarrow> u32 \<times> xsk_ring" where
  "xsk_cons_nb_avail sh r nb =
     (let entries = cached_prod r - cached_cons r;
          (entries, r) = (if entries = 0
             then (let r = r\<lparr>cached_prod := sh_producer sh\<rparr> in (cached_prod r - cached_cons r, r))
             else (entries, r))
      in (if entries > nb then nb else entries, r))"

text \<open>The number of entries is a \<^verbatim>\<open>size_t\<close>, which the two functions above and the additions to the
  indices cut to 32 bits. The result is the number reserved and the first index.\<close>

definition xsk_ring_prod__reserve :: "'d xsk_shared \<Rightarrow> xsk_ring \<Rightarrow> u64 \<Rightarrow> (u64 \<times> u32 option) \<times> xsk_ring" where
  "xsk_ring_prod__reserve sh pr nb =
     (let (free, pr) = xsk_prod_nb_free sh pr (ucast nb) in
      if ucast free < nb then ((0, None), pr)
      else ((nb, Some (cached_prod pr)), pr\<lparr>cached_prod := cached_prod pr + ucast nb\<rparr>))"

definition xsk_ring_prod__submit :: "'d xsk_shared \<Rightarrow> u64 \<Rightarrow> 'd xsk_shared" where
  "xsk_ring_prod__submit sh nb = sh\<lparr>sh_producer := sh_producer sh + ucast nb\<rparr>"

definition xsk_ring_cons__peek :: "'d xsk_shared \<Rightarrow> xsk_ring \<Rightarrow> u64 \<Rightarrow> (u64 \<times> u32 option) \<times> xsk_ring" where
  "xsk_ring_cons__peek sh co nb =
     (let (entries, co) = xsk_cons_nb_avail sh co (ucast nb) in
      if entries > 0
      then ((ucast entries, Some (cached_cons co)), co\<lparr>cached_cons := cached_cons co + entries\<rparr>)
      else ((0, None), co))"

definition xsk_ring_cons__release :: "'d xsk_shared \<Rightarrow> u64 \<Rightarrow> 'd xsk_shared" where
  "xsk_ring_cons__release sh nb = sh\<lparr>sh_consumer := sh_consumer sh + ucast nb\<rparr>"

definition xsk_umem__extract_addr :: "u64 \<Rightarrow> u64" where
  "xsk_umem__extract_addr addr = addr AND XSK_UNALIGNED_BUF_ADDR_MASK"

definition xsk_umem__extract_offset :: "u64 \<Rightarrow> u64" where
  "xsk_umem__extract_offset addr = drop_bit XSK_UNALIGNED_BUF_OFFSET_SHIFT addr"

definition xsk_umem__add_offset_to_addr :: "u64 \<Rightarrow> u64" where
  "xsk_umem__add_offset_to_addr addr = xsk_umem__extract_addr addr + xsk_umem__extract_offset addr"

definition xsk_umem__get_data :: "bytes \<Rightarrow> u64 \<Rightarrow> u8 option" where
  "xsk_umem__get_data umem_area addr = arr_get umem_area (unat addr)"

section \<open>Both sides\<close>

text \<open>A producer that reserves a number of entries, writes them and submits them, and a consumer
  that peeks, reads what it got and releases it.\<close>

record 'd xsk_pair =
  xp_shared :: "'d xsk_shared"
  xp_prod :: xsk_ring
  xp_cons :: xsk_ring

definition write_desc :: "xsk_ring \<Rightarrow> u32 \<Rightarrow> 'd \<Rightarrow> 'd list \<Rightarrow> 'd list option" where
  "write_desc r idx d ds = arr_set ds (xsk_ring_prod__tx_desc r idx) d"

definition ring_put :: "'d xsk_pair \<Rightarrow> 'd \<Rightarrow> 'd xsk_pair option" where
  "ring_put s d =
     (let ((n, idx), pr) = xsk_ring_prod__reserve (xp_shared s) (xp_prod s) 1 in
      case idx of
        None \<Rightarrow> Some (s\<lparr>xp_prod := pr\<rparr>)
      | Some i \<Rightarrow> do {
          ds \<leftarrow> write_desc pr i d (sh_ring (xp_shared s));
          Some (s\<lparr>xp_prod := pr, xp_shared := xsk_ring_prod__submit ((xp_shared s)\<lparr>sh_ring := ds\<rparr>) 1\<rparr>)
        })"

fun read_descs :: "xsk_ring \<Rightarrow> 'd list \<Rightarrow> u32 \<Rightarrow> nat \<Rightarrow> 'd list option" where
  "read_descs r ds idx 0 = Some []"
| "read_descs r ds idx (Suc n) = do {
     d \<leftarrow> arr_get ds (xsk_ring_cons__rx_desc r idx);
     rest \<leftarrow> read_descs r ds (idx + 1) n;
     Some (d # rest)
   }"

definition ring_get :: "'d xsk_pair \<Rightarrow> u64 \<Rightarrow> ('d list \<times> 'd xsk_pair) option" where
  "ring_get s nb =
     (let ((n, idx), co) = xsk_ring_cons__peek (xp_shared s) (xp_cons s) nb in
      case idx of
        None \<Rightarrow> Some ([], s\<lparr>xp_cons := co\<rparr>)
      | Some i \<Rightarrow> do {
          out \<leftarrow> read_descs co (sh_ring (xp_shared s)) i (unat n);
          Some (out, s\<lparr>xp_cons := co, xp_shared := xsk_ring_cons__release (xp_shared s) n\<rparr>)
        })"

section \<open>The invariant\<close>

text \<open>The descriptors between the two indices.\<close>

definition ring_queue :: "'d xsk_pair \<Rightarrow> 'd list" where
  "ring_queue s = (let sh = xp_shared s in
     map (\<lambda>j. sh_ring sh ! ((unat (sh_consumer sh) + j) mod length (sh_ring sh)))
       [0..<unat (sh_producer sh - sh_consumer sh)])"

definition ring_inv :: "nat \<Rightarrow> 'd xsk_pair \<Rightarrow> bool" where
  "ring_inv k s \<longleftrightarrow> k < 32 \<and> length (sh_ring (xp_shared s)) = 2 ^ k
     \<and> ring_mask (xp_prod s) = mask k \<and> ring_mask (xp_cons s) = mask k \<and> ring_size (xp_prod s) = 2 ^ k
     \<and> cached_prod (xp_prod s) = sh_producer (xp_shared s) \<and> cached_cons (xp_cons s) = sh_consumer (xp_shared s)
     \<and> unat (sh_producer (xp_shared s) - sh_consumer (xp_shared s)) \<le> 2 ^ k
     \<and> unat (cached_cons (xp_prod s) - sh_producer (xp_shared s))
         + unat (sh_producer (xp_shared s) - sh_consumer (xp_shared s)) \<le> 2 ^ k
     \<and> unat (cached_prod (xp_cons s) - sh_consumer (xp_shared s))
         \<le> unat (sh_producer (xp_shared s) - sh_consumer (xp_shared s))"

lemma mod_neq_in_window:
  fixes a :: nat
  assumes "i < j" and "j < i + n"
  shows "(a + i) mod n \<noteq> (a + j) mod n"
proof
  assume "(a + i) mod n = (a + j) mod n"
  then have "n dvd (a + j) - (a + i)" using assms(1) by (subst mod_eq_dvd_iff_nat [symmetric]) auto
  then have "n dvd j - i" by simp
  then show False using assms by (auto dest: dvd_imp_le)
qed

lemma producer_index:
  fixes p c :: u32
  assumes "k < 32"
  shows "unat (p AND mask k) = (unat c + unat (p - c)) mod 2 ^ k"
  using index_mod [of k c "unat (p - c)"] assms by simp

lemma free_entries:
  fixes p c :: u32
  assumes "k < 32" and "unat (p - c) \<le> 2 ^ k"
  shows "unat (c + 2 ^ k - p) = 2 ^ k - unat (p - c)"
proof -
  have "(2 :: nat) ^ k < 2 ^ LENGTH(32)" using assms(1) by (intro power_strict_increasing) simp_all
  from unat_of_nat_small [OF this] have sz: "unat (2 ^ k :: u32) = 2 ^ k" by simp
  have "c + 2 ^ k - p = 2 ^ k - (p - c)" by simp
  moreover have "p - c \<le> 2 ^ k" using assms(2) sz by (simp add: word_le_nat_alt)
  ultimately show ?thesis by (metis sz unat_sub)
qed

lemma unat_plus_one:
  fixes x :: u32
  assumes "unat x < 2 ^ k" and "k < 32"
  shows "unat (x + 1) = unat x + 1"
proof -
  have "(2 :: nat) ^ k \<le> 2 ^ 31" using assms(2) by (intro power_increasing) auto
  then have "unat x + 1 < 2 ^ 32" using assms(1) by simp
  then show ?thesis by (simp add: unat_word_ariths(1))
qed

lemma unat_ucast_up: "unat (ucast (w :: u32) :: u64) = unat w"
proof -
  have "unat w < 2 ^ LENGTH(32)" by (rule unsigned_less)
  then show ?thesis unfolding unsigned_ucast_eq by (intro take_bit_nat_eq_self) simp
qed

lemma ring_put_law:
  assumes inv: "ring_inv k s"
  shows "\<exists>s'. ring_put s d = Some s' \<and> ring_inv k s'
    \<and> ring_queue s' = (if length (ring_queue s) < 2 ^ k then ring_queue s @ [d] else ring_queue s)"
proof -
  note I = inv [unfolded ring_inv_def]
  define sh pr where "sh = xp_shared s" and "pr = xp_prod s"
  define p c where "p = sh_producer sh" and "c = sh_consumer sh"
  define u where "u = unat (p - c)"
  have k: "k < 32" and u: "u \<le> 2 ^ k" and len: "length (sh_ring sh) = 2 ^ k" and cp: "cached_prod pr = p"
    and stale: "unat (cached_cons pr - p) + u \<le> 2 ^ k" and m: "ring_mask pr = mask k" "ring_size pr = 2 ^ k"
    using I by (simp_all add: sh_def pr_def p_def c_def u_def)
  have q: "length (ring_queue s) = u" by (simp add: ring_queue_def Let_def u_def p_def c_def sh_def)
  define r where "r = (if 1 \<le> cached_cons pr - p then pr else pr\<lparr>cached_cons := c + 2 ^ k\<rparr>)"
  have r: "cached_prod r = p" "ring_mask r = mask k" "ring_size r = 2 ^ k" by (simp_all add: r_def cp m)
  have full: "unat (c + 2 ^ k - p) = 2 ^ k - u" unfolding u_def by (rule free_entries) (use k u in \<open>simp_all add: u_def\<close>)
  have rstale: "unat (cached_cons r - p) + u \<le> 2 ^ k"
    using stale full u by (simp add: r_def)
  have pos: "1 \<le> cached_cons r - p \<longleftrightarrow> u < 2 ^ k"
    using stale full u by (auto simp: r_def word_le_nat_alt)
  have res: "xsk_ring_prod__reserve sh pr 1 = (if 1 \<le> cached_cons r - p
      then ((1, Some p), r\<lparr>cached_prod := p + 1\<rparr>) else ((0, None), r))"
  proof -
    have "xsk_prod_nb_free sh pr 1 = (cached_cons r - p, r)"
      by (simp add: xsk_prod_nb_free_def Let_def r_def cp m c_def)
    moreover have "(ucast (cached_cons r - p) < (1 :: u64)) = (\<not> 1 \<le> cached_cons r - p)"
      by (auto simp: word_less_nat_alt word_le_nat_alt unat_ucast_up)
    ultimately show ?thesis by (simp add: xsk_ring_prod__reserve_def r)
  qed
  show ?thesis
  proof (cases "u < 2 ^ k")
    case False
    then have "ring_put s d = Some (s\<lparr>xp_prod := r\<rparr>)" using res pos by (simp add: ring_put_def sh_def pr_def)
    moreover have "ring_inv k (s\<lparr>xp_prod := r\<rparr>)"
      using I r rstale by (auto simp: ring_inv_def sh_def p_def c_def u_def)
    ultimately show ?thesis using False q by (simp add: ring_queue_def)
  next
    case True
    let ?i = "(unat c + u) mod 2 ^ k"
    let ?s = "s\<lparr>xp_prod := r\<lparr>cached_prod := p + 1\<rparr>, xp_shared := sh\<lparr>sh_ring := (sh_ring sh)[?i := d], sh_producer := p + 1\<rparr>\<rparr>"
    have "xsk_ring_prod__tx_desc (r\<lparr>cached_prod := p + 1\<rparr>) p = ?i"
      using producer_index [OF k, of p c] by (simp add: xsk_ring_prod__tx_desc_def r u_def)
    then have put: "ring_put s d = Some ?s"
      using True res pos len by (simp add: ring_put_def write_desc_def arr_set_def xsk_ring_prod__submit_def sh_def pr_def p_def)
    have "p + 1 - c = (p - c) + 1" by simp
    then have u1: "unat (p + 1 - c) = u + 1"
      unfolding u_def by (rule trans [OF arg_cong [of _ _ unat] unat_plus_one [OF True [unfolded u_def] k]])
    have "cached_cons r - (p + 1) = (cached_cons r - p) - 1" by simp
    moreover have nz: "cached_cons r - p \<noteq> 0" using pos True by (auto simp: word_le_nat_alt)
    ultimately have "unat (cached_cons r - (p + 1)) = unat (cached_cons r - p) - 1" by (metis unat_minus_one)
    moreover have "0 < unat (cached_cons r - p)" using nz by (rule unat_gt_0 [THEN iffD2])
    ultimately have "ring_inv k ?s"
      using I r rstale True u1 len by (auto simp: ring_inv_def sh_def p_def c_def u_def)
    moreover have "ring_queue ?s = ring_queue s @ [d]"
    proof -
      have "(sh_ring sh)[?i := d] ! ((unat c + j) mod 2 ^ k) = sh_ring sh ! ((unat c + j) mod 2 ^ k)" if "j < u" for j
        using mod_neq_in_window [of j u "2 ^ k" "unat c"] that True by (intro nth_list_update_neq) simp
      moreover have "(sh_ring sh)[?i := d] ! ?i = d" using len by simp
      ultimately show ?thesis
        using len u1 by (simp add: ring_queue_def Let_def c_def [symmetric] p_def [symmetric] u_def [symmetric] sh_def [symmetric])
    qed
    ultimately show ?thesis using put True q by auto
  qed
qed

text \<open>The descriptors by their index as the header computes it.\<close>

definition desc_at :: "nat \<Rightarrow> 'd list \<Rightarrow> u32 \<Rightarrow> nat \<Rightarrow> 'd" where
  "desc_at k ds c j = ds ! unat ((c + of_nat j) AND mask k)"

lemma ring_queue_desc:
  assumes "ring_inv k s"
  shows "ring_queue s = map (desc_at k (sh_ring (xp_shared s)) (sh_consumer (xp_shared s)))
    [0..<unat (sh_producer (xp_shared s) - sh_consumer (xp_shared s))]"
proof -
  have "k < 32" "length (sh_ring (xp_shared s)) = 2 ^ k" using assms by (simp_all add: ring_inv_def)
  then show ?thesis by (simp add: ring_queue_def Let_def desc_at_def index_mod)
qed

lemma read_descs_eq:
  assumes "k < 32" and "length ds = 2 ^ k" and "ring_mask r = mask k"
  shows "read_descs r ds (c + of_nat i) n = Some (map (desc_at k ds c) [i..<i + n])"
proof (induction n arbitrary: i)
  case (Suc n)
  have "unat ((c + of_nat i) AND mask k) < length ds"
    using assms(1,2) by (simp add: index_mod)
  moreover have "read_descs r ds (c + of_nat i + 1) n = Some (map (desc_at k ds c) [Suc i..<Suc i + n])"
    using Suc.IH [of "Suc i"] by (simp only: of_nat_Suc ac_simps)
  moreover have "[i..<i + Suc n] = i # [Suc i..<Suc i + n]" by (subst upt_conv_Cons) simp_all
  ultimately show ?case
    by (simp only: read_descs.simps arr_get_def xsk_ring_cons__rx_desc_def assms(3) desc_at_def [of k ds c i] if_True
        Option.bind.simps list.map)
qed simp

lemma ring_get_law:
  assumes inv: "ring_inv k s"
  shows "\<exists>out s'. ring_get s nb = Some (out, s') \<and> ring_inv k s' \<and> ring_queue s = out @ ring_queue s'"
proof -
  note I = inv [unfolded ring_inv_def]
  define sh co where "sh = xp_shared s" and "co = xp_cons s"
  define p c where "p = sh_producer sh" and "c = sh_consumer sh"
  define u where "u = unat (p - c)"
  have k: "k < 32" and u: "u \<le> 2 ^ k" and len: "length (sh_ring sh) = 2 ^ k" and cc: "cached_cons co = c"
    and fresh: "unat (cached_prod co - c) \<le> u" and m: "ring_mask co = mask k"
    using I by (simp_all add: sh_def co_def p_def c_def u_def)
  define r where "r = (if cached_prod co - c = 0 then co\<lparr>cached_prod := p\<rparr> else co)"
  define e where "e = cached_prod r - c"
  define n where "n = (if e > ucast nb then ucast nb else e)"
  have r: "cached_cons r = c" "ring_mask r = mask k" by (simp_all add: r_def cc m)
  have e: "unat e \<le> u" using fresh by (simp add: e_def r_def u_def)
  have n: "unat n \<le> unat e" by (auto simp: n_def word_less_nat_alt)
  have peek: "xsk_ring_cons__peek sh co nb = (if n > 0 then ((ucast n, Some c), r\<lparr>cached_cons := c + n\<rparr>) else ((0, None), r))"
    by (simp add: xsk_ring_cons__peek_def xsk_cons_nb_avail_def Let_def r_def e_def n_def cc p_def)
  have base: "ring_inv k (s\<lparr>xp_cons := r\<rparr>)"
    using I r e by (auto simp: ring_inv_def sh_def co_def p_def c_def u_def e_def)
  show ?thesis
  proof (cases "n > 0")
    case False
    then have "ring_get s nb = Some ([], s\<lparr>xp_cons := r\<rparr>)" using peek by (simp add: ring_get_def sh_def co_def)
    then show ?thesis using base by (simp add: ring_queue_def)
  next
    case True
    let ?s = "s\<lparr>xp_cons := r\<lparr>cached_cons := c + n\<rparr>, xp_shared := sh\<lparr>sh_consumer := c + n\<rparr>\<rparr>"
    let ?out = "map (desc_at k (sh_ring sh) c) [0..<unat n]"
    have "read_descs (r\<lparr>cached_cons := c + n\<rparr>) (sh_ring sh) c (unat n) = Some ?out"
      using read_descs_eq [of k "sh_ring sh" "r\<lparr>cached_cons := c + n\<rparr>" c 0 "unat n"] k len r by simp
    moreover have "ucast (ucast n :: u64) = n" by (rule bit_word_eqI) (auto simp: bit_simps)
    ultimately have get: "ring_get s nb = Some (?out, ?s)"
      using True peek by (simp add: ring_get_def unat_ucast_up xsk_ring_cons__release_def sh_def co_def c_def)
    have sub: "unat (x - (c + n)) = unat (x - c) - unat n" if "unat n \<le> unat (x - c)" for x
    proof -
      have "x - (c + n) = (x - c) - n" by simp
      then show ?thesis using that by (metis unat_sub word_le_nat_alt)
    qed
    have left: "unat (p - (c + n)) = u - unat n" "unat (cached_prod r - (c + n)) = unat e - unat n"
      using sub [of p] sub [of "cached_prod r"] n e by (simp_all add: u_def e_def)
    have inv': "ring_inv k ?s"
      using base r left n e by (auto simp: ring_inv_def sh_def p_def c_def u_def e_def)
    have "desc_at k (sh_ring sh) (c + n) j = desc_at k (sh_ring sh) c (unat n + j)" for j
      by (simp add: desc_at_def add.assoc)
    then have "ring_queue ?s = map (\<lambda>j. desc_at k (sh_ring sh) c (unat n + j)) [0..<u - unat n]"
      using ring_queue_desc [OF inv'] left(1) by (simp add: p_def [symmetric])
    moreover have "[0..<u] = [0..<unat n] @ map (\<lambda>j. unat n + j) [0..<u - unat n]"
      using n e by (intro nth_equalityI) (auto simp: nth_append)
    moreover have "ring_queue s = map (desc_at k (sh_ring sh) c) [0..<u]"
      using ring_queue_desc [OF inv] by (simp add: sh_def p_def c_def u_def)
    ultimately have "ring_queue s = ?out @ ring_queue ?s" by (simp add: comp_def)
    then show ?thesis using get inv' by blast
  qed
qed

section \<open>The ring as a bounded queue\<close>

interpretation xr: bounded_fifo "ring_inv k" ring_queue "2 ^ k" "\<lambda>_. True" ring_put Some ring_get for k
proof
  show "\<exists>s'. ring_put s e = Some s' \<and> ring_inv k s' \<and> ring_queue s' = (case Some e of
      None \<Rightarrow> ring_queue s | Some p \<Rightarrow> if length (ring_queue s) < 2 ^ k then ring_queue s @ [p] else ring_queue s)"
    if "ring_inv k s" for s :: "'a xsk_pair" and e
    using ring_put_law [OF that, of e] by simp
  show "\<exists>out s'. ring_get s g = Some (out, s') \<and> ring_inv k s' \<and> ring_queue s = out @ ring_queue s'"
    if "ring_inv k s" for s :: "'a xsk_pair" and g
    by (rule ring_get_law [OF that])
qed

text \<open>The ring as it is mapped at the start: both indices are equal, and the copy of the consumer index
  on the producer side is ahead by the size.\<close>

definition ring_start :: "nat \<Rightarrow> u32 \<Rightarrow> 'd list \<Rightarrow> 'd xsk_pair" where
  "ring_start k i ds =
     \<lparr>xp_shared = \<lparr>sh_producer = i, sh_consumer = i, sh_ring = ds, sh_flags = 0\<rparr>,
      xp_prod = \<lparr>cached_prod = i, cached_cons = i + 2 ^ k, ring_mask = mask k, ring_size = 2 ^ k\<rparr>,
      xp_cons = \<lparr>cached_prod = i, cached_cons = i, ring_mask = mask k, ring_size = 2 ^ k\<rparr>\<rparr>"

lemma ring_start_inv:
  assumes "k < 32" and "length ds = 2 ^ k"
  shows "ring_inv k (ring_start k i ds)" "ring_queue (ring_start k i ds) = []"
proof -
  have "unat (2 ^ k :: u32) = 2 ^ k" using free_entries [OF assms(1), of i i] by simp
  then show "ring_inv k (ring_start k i ds)" using assms by (simp add: ring_inv_def ring_start_def)
qed (simp add: ring_queue_def ring_start_def)

section \<open>Properties\<close>

text \<open>C28: The descriptor ring is a bounded queue. From a freshly mapped ring of a power-of-two size,
  wherever its free-running 32-bit indices start and however often they wrap around, any
  interleaving of a producer that reserves, writes and submits one descriptor at a time and of a
  consumer that peeks, reads and releases up to a given number runs inside the ring; the accepted
  descriptors are, in order, those delivered followed by those in the ring, and a descriptor is
  refused only when the ring is full, although both sides work with stale copies of the indices.\<close>

theorem xsk_ring_fifo:
  assumes "k < 32" and "length ds = 2 ^ k"
  shows "\<exists>s acc del. foldM (fifo_step ring_queue (2 ^ k) ring_put Some ring_get) (ring_start k i ds, [], []) evs = Some (s, acc, del)
    \<and> del @ ring_queue s = acc \<and> length (ring_queue s) \<le> 2 ^ k"
proof -
  obtain s acc del where run: "foldM (fifo_step ring_queue (2 ^ k) ring_put Some ring_get) (ring_start k i ds, [], []) evs = Some (s, acc, del)"
    "ring_inv k s" "del @ ring_queue s = [] @ acc"
    using xr.fifo_run [of k "ring_start k i ds" evs "[]" "[]" "[]"] ring_start_inv [OF assms] by auto
  have "length (ring_queue s) \<le> 2 ^ k" using run(2) by (simp add: ring_queue_def ring_inv_def Let_def)
  then show ?thesis using run by auto
qed

theorem xsk_ring_fifo_witness:
  "\<exists>s acc del. foldM (fifo_step ring_queue 2 ring_put Some ring_get) (ring_start 1 (- 1) [0, 0 :: nat], [], [])
      [Put 5, Put 6, Put 7, Get 1, Put 8, Get 9] = Some (s, acc, del) \<and> del @ ring_queue s = acc"
proof -
  have "1 < (32 :: nat)" "length [0, 0 :: nat] = 2 ^ 1" by simp_all
  from xsk_ring_fifo [OF this, of "- 1" "[Put 5, Put 6, Put 7, Get 1, Put 8, Get 9]"] show ?thesis
    unfolding power_one_right by blast
qed

end
