(* ===== verification/Btf.thy ===== *)
theory Btf
  imports Base
begin

text \<open>
  \<^verbatim>\<open>eBPF_app/libbpf/src/btf.c\<close>, the first part: parsing a blob of type information
  (\<^verbatim>\<open>btf__new\<close>), the table of its types, and the queries on it (size and target of a type,
  lookup by name, the key and value types of a map). The blob is a byte list, a pointer to a type is the
  static void type or an offset into the blob, a cell of the table is \<open>None\<close> until it is written.
  Outer \<open>None\<close> is an access outside the blob or the table, or of a cell that was never written.
  The outcome of every allocation is an argument.
\<close>

unbundle bit_operations_syntax

section \<open>Constants and accessors\<close>

definition BTF_MAGIC :: u16 where "BTF_MAGIC = 0xeB9F"
definition BTF_VERSION :: u8 where "BTF_VERSION = 1"
definition BTF_MAX_NR_TYPES :: u32 where "BTF_MAX_NR_TYPES = 0x7fffffff"
definition BTF_MAX_STR_OFFSET :: u32 where "BTF_MAX_STR_OFFSET = 0x7fffffff"
definition MAX_RESOLVE_DEPTH :: nat where "MAX_RESOLVE_DEPTH = 32"
definition UINT32_MAX :: u32 where "UINT32_MAX = 0xffffffff"

definition BTF_KIND_INT :: u32 where "BTF_KIND_INT = 1"
definition BTF_KIND_PTR :: u32 where "BTF_KIND_PTR = 2"
definition BTF_KIND_ARRAY :: u32 where "BTF_KIND_ARRAY = 3"
definition BTF_KIND_STRUCT :: u32 where "BTF_KIND_STRUCT = 4"
definition BTF_KIND_UNION :: u32 where "BTF_KIND_UNION = 5"
definition BTF_KIND_ENUM :: u32 where "BTF_KIND_ENUM = 6"
definition BTF_KIND_FWD :: u32 where "BTF_KIND_FWD = 7"
definition BTF_KIND_TYPEDEF :: u32 where "BTF_KIND_TYPEDEF = 8"
definition BTF_KIND_VOLATILE :: u32 where "BTF_KIND_VOLATILE = 9"
definition BTF_KIND_CONST :: u32 where "BTF_KIND_CONST = 10"
definition BTF_KIND_RESTRICT :: u32 where "BTF_KIND_RESTRICT = 11"
definition BTF_KIND_FUNC :: u32 where "BTF_KIND_FUNC = 12"
definition BTF_KIND_FUNC_PROTO :: u32 where "BTF_KIND_FUNC_PROTO = 13"
definition BTF_KIND_VAR :: u32 where "BTF_KIND_VAR = 14"
definition BTF_KIND_DATASEC :: u32 where "BTF_KIND_DATASEC = 15"

lemmas btf_kind_defs = BTF_KIND_INT_def BTF_KIND_PTR_def BTF_KIND_ARRAY_def BTF_KIND_STRUCT_def BTF_KIND_UNION_def
  BTF_KIND_ENUM_def BTF_KIND_FWD_def BTF_KIND_TYPEDEF_def BTF_KIND_VOLATILE_def BTF_KIND_CONST_def BTF_KIND_RESTRICT_def
  BTF_KIND_FUNC_def BTF_KIND_FUNC_PROTO_def BTF_KIND_VAR_def BTF_KIND_DATASEC_def

definition BTF_INFO_KIND :: "u32 \<Rightarrow> u32" where "BTF_INFO_KIND info = drop_bit 24 info AND 0x0f"
definition BTF_INFO_VLEN :: "u32 \<Rightarrow> u32" where "BTF_INFO_VLEN info = info AND 0xffff"

text \<open>\<^verbatim>\<open>struct btf_header\<close> has 24 bytes, \<^verbatim>\<open>struct btf_type\<close> twelve.\<close>

definition BTF_HDR :: nat where "BTF_HDR = 24"
definition BTF_TYPE :: nat where "BTF_TYPE = 12"

datatype btf_ptr = Btf_void | Btf_at nat

record btf =
  btf_data :: bytes
  btf_types :: "btf_ptr option list"
  btf_strings :: nat
  btf_nohdr_data :: nat
  nr_types :: u32
  types_size :: u32
  btf_data_size :: u32
  btf_fd :: int

definition hdr_magic :: "bytes \<Rightarrow> u16 option" where "hdr_magic d = load16 d 0"
definition hdr_version :: "bytes \<Rightarrow> u8 option" where "hdr_version d = arr_get d 2"
definition hdr_flags :: "bytes \<Rightarrow> u8 option" where "hdr_flags d = arr_get d 3"
definition hdr_type_off :: "bytes \<Rightarrow> u32 option" where "hdr_type_off d = load32 d 8"
definition hdr_str_off :: "bytes \<Rightarrow> u32 option" where "hdr_str_off d = load32 d 16"
definition hdr_str_len :: "bytes \<Rightarrow> u32 option" where "hdr_str_len d = load32 d 20"

text \<open>The fields of a type; the static void type is all zeros.\<close>

fun btf_field :: "btf \<Rightarrow> btf_ptr \<Rightarrow> nat \<Rightarrow> u32 option" where
  "btf_field b Btf_void k = (if k < BTF_TYPE then Some 0 else None)"
| "btf_field b (Btf_at off) k = load32 (btf_data b) (off + k)"

definition t_name_off :: "btf \<Rightarrow> btf_ptr \<Rightarrow> u32 option" where "t_name_off b t = btf_field b t 0"
definition t_info :: "btf \<Rightarrow> btf_ptr \<Rightarrow> u32 option" where "t_info b t = btf_field b t 4"
definition t_size :: "btf \<Rightarrow> btf_ptr \<Rightarrow> u32 option" where "t_size b t = btf_field b t 8"
definition t_type :: "btf \<Rightarrow> btf_ptr \<Rightarrow> u32 option" where "t_type b t = btf_field b t 8"
definition btf_kind :: "btf \<Rightarrow> btf_ptr \<Rightarrow> u32 option" where "btf_kind b t = map_option BTF_INFO_KIND (t_info b t)"
definition btf_vlen :: "btf \<Rightarrow> btf_ptr \<Rightarrow> u32 option" where "btf_vlen b t = map_option BTF_INFO_VLEN (t_info b t)"
definition array_type :: "btf \<Rightarrow> btf_ptr \<Rightarrow> u32 option" where "array_type b t = btf_field b t BTF_TYPE"
definition array_nelems :: "btf \<Rightarrow> btf_ptr \<Rightarrow> u32 option" where "array_nelems b t = btf_field b t (BTF_TYPE + 8)"
definition member_type :: "btf \<Rightarrow> btf_ptr \<Rightarrow> nat \<Rightarrow> u32 option" where
  "member_type b t i = btf_field b t (BTF_TYPE + 12 * i + 4)"

section \<open>Parsing\<close>

text \<open>\<^verbatim>\<open>btf_add_type\<close>: making room for one more type, and storing it.\<close>

definition btf_grow_types :: "(u32 \<Rightarrow> bool) \<Rightarrow> btf \<Rightarrow> (int + btf) option" where
  "btf_grow_types realloc_ok b =
     (if types_size b - nr_types b < 2 then
        if types_size b = BTF_MAX_NR_TYPES then Some (Inl (- E2BIG))
        else
          (let expand_by = max (drop_bit 2 (types_size b)) 16;
               new_size = min BTF_MAX_NR_TYPES (types_size b + expand_by);
               n = unat new_size
           in if \<not> realloc_ok new_size then Some (Inl (- ENOMEM))
              else do {
                let new_types = take n (btf_types b) @ replicate (n - length (btf_types b)) None;
                new_types \<leftarrow> (if nr_types b = 0 then arr_set new_types 0 (Some Btf_void) else Some new_types);
                Some (Inr (b\<lparr>btf_types := new_types, types_size := new_size\<rparr>))
              })
      else Some (Inr b))"

definition btf_add_type :: "(u32 \<Rightarrow> bool) \<Rightarrow> btf \<Rightarrow> btf_ptr \<Rightarrow> (int \<times> btf) option" where
  "btf_add_type realloc_ok b t = do {
     r \<leftarrow> btf_grow_types realloc_ok b;
     (case r of
        Inl err \<Rightarrow> Some (err, b)
      | Inr b \<Rightarrow> do {
          let nr = nr_types b + 1;
          types \<leftarrow> arr_set (btf_types b) (unat nr) (Some t);
          Some (0, b\<lparr>btf_types := types, nr_types := nr\<rparr>)
        })
   }"

definition btf_parse_hdr :: "btf \<Rightarrow> (int \<times> btf) option" where
  "btf_parse_hdr b =
     (if unat (btf_data_size b) < BTF_HDR then Some (- EINVAL, b)
      else do {
        magic \<leftarrow> hdr_magic (btf_data b);
        version \<leftarrow> hdr_version (btf_data b);
        flags \<leftarrow> hdr_flags (btf_data b);
        type_off \<leftarrow> hdr_type_off (btf_data b);
        str_off \<leftarrow> hdr_str_off (btf_data b);
        let meta_left = btf_data_size b - of_nat BTF_HDR;
        Some (if magic \<noteq> BTF_MAGIC then (- EINVAL, b)
              else if version \<noteq> BTF_VERSION then (- ENOTSUP, b)
              else if flags \<noteq> 0 then (- ENOTSUP, b)
              else if meta_left = 0 then (- EINVAL, b)
              else if meta_left < type_off then (- EINVAL, b)
              else if meta_left < str_off then (- EINVAL, b)
              else if type_off \<ge> str_off then (- EINVAL, b)
              else if type_off AND 0x02 \<noteq> 0 then (- EINVAL, b)
              else (0, b\<lparr>btf_nohdr_data := BTF_HDR\<rparr>))
      })"

definition btf_parse_str_sec :: "btf \<Rightarrow> (int \<times> btf) option" where
  "btf_parse_str_sec b = do {
     str_off \<leftarrow> hdr_str_off (btf_data b);
     str_len \<leftarrow> hdr_str_len (btf_data b);
     let start = btf_nohdr_data b + unat str_off;
     let fin = start + unat str_len;
     bad \<leftarrow> (if str_len = 0 \<or> str_len - 1 > BTF_MAX_STR_OFFSET then Some True
             else do {
               first \<leftarrow> arr_get (btf_data b) start;
               if first \<noteq> 0 then Some True
               else do {
                 last \<leftarrow> arr_get (btf_data b) (fin - 1);
                 Some (last \<noteq> 0)
               }
             });
     Some (if bad then (- EINVAL, b) else (0, b\<lparr>btf_strings := start\<rparr>))
   }"

definition btf_type_size :: "u32 \<Rightarrow> int" where
  "btf_type_size info =
     (let base_size = int BTF_TYPE; vlen = uint (BTF_INFO_VLEN info); k = BTF_INFO_KIND info
      in if k \<in> {BTF_KIND_FWD, BTF_KIND_CONST, BTF_KIND_VOLATILE, BTF_KIND_RESTRICT, BTF_KIND_PTR, BTF_KIND_TYPEDEF, BTF_KIND_FUNC}
           then base_size
         else if k = BTF_KIND_INT then base_size + 4
         else if k = BTF_KIND_ENUM then base_size + vlen * 8
         else if k = BTF_KIND_ARRAY then base_size + 12
         else if k \<in> {BTF_KIND_STRUCT, BTF_KIND_UNION} then base_size + vlen * 12
         else if k = BTF_KIND_FUNC_PROTO then base_size + vlen * 8
         else if k = BTF_KIND_VAR then base_size + 4
         else if k = BTF_KIND_DATASEC then base_size + vlen * 12
         else - EINVAL)"

lemma btf_type_size_cases: "btf_type_size info = - EINVAL \<or> 12 \<le> btf_type_size info"
  by (simp add: btf_type_size_def BTF_TYPE_def Let_def)

lemma btf_type_size_kind:
  assumes "0 \<le> btf_type_size info"
  shows "1 \<le> BTF_INFO_KIND info" "BTF_INFO_KIND info \<le> 15"
proof -
  have "BTF_INFO_KIND info \<noteq> 0" using assms by (auto simp: btf_type_size_def btf_kind_defs errno_defs Let_def)
  then show "1 \<le> BTF_INFO_KIND info" by (simp add: word_le_nat_alt Suc_le_eq unat_gt_0)
  show "BTF_INFO_KIND info \<le> 15" unfolding BTF_INFO_KIND_def by (rule word_and_le1)
qed

lemma btf_type_size_progress: "\<not> btf_type_size info < 0 \<Longrightarrow> 0 < nat (btf_type_size info)"
  using btf_type_size_cases [of info] by (auto simp: EINVAL_def)

function btf_type_loop :: "(u32 \<Rightarrow> bool) \<Rightarrow> nat \<Rightarrow> nat \<Rightarrow> btf \<Rightarrow> (int \<times> btf) option" where
  "btf_type_loop realloc_ok next_type end_type b =
     (if next_type < end_type then
        (case t_info b (Btf_at next_type) of
           None \<Rightarrow> None
         | Some info \<Rightarrow>
             if btf_type_size info < 0 then Some (btf_type_size info, b)
             else
               (case btf_add_type realloc_ok b (Btf_at next_type) of
                  None \<Rightarrow> None
                | Some (err, b') \<Rightarrow>
                    if err \<noteq> 0 then Some (err, b')
                    else btf_type_loop realloc_ok (next_type + nat (btf_type_size info)) end_type b'))
      else Some (0, b))"
  by pat_completeness auto
termination
  by (relation "measure (\<lambda>(r, next_type, end_type, b). end_type - next_type)")
    (auto dest: btf_type_size_progress)

declare btf_type_loop.simps [simp del]

definition btf_parse_type_sec :: "(u32 \<Rightarrow> bool) \<Rightarrow> btf \<Rightarrow> (int \<times> btf) option" where
  "btf_parse_type_sec realloc_ok b = do {
     type_off \<leftarrow> hdr_type_off (btf_data b);
     str_off \<leftarrow> hdr_str_off (btf_data b);
     btf_type_loop realloc_ok (btf_nohdr_data b + unat type_off) (btf_nohdr_data b + unat str_off) b
   }"

text \<open>Freeing closes the descriptor, if there is one.\<close>

definition btf__free :: "btf option \<Rightarrow> int list" where
  "btf__free b = (case b of None \<Rightarrow> [] | Some b \<Rightarrow> if btf_fd b \<noteq> -1 then [btf_fd b] else [])"

text \<open>\<open>Inl\<close> is \<^verbatim>\<open>ERR_PTR\<close>. The caller's buffer is \<open>data\<close>, of which \<open>sz\<close> bytes are copied.\<close>

definition btf__new :: "bool \<Rightarrow> bool \<Rightarrow> (u32 \<Rightarrow> bool) \<Rightarrow> bytes \<Rightarrow> u32 \<Rightarrow> (int + btf) option" where
  "btf__new calloc_ok malloc_ok realloc_ok data sz =
     (if \<not> calloc_ok then Some (Inl (- ENOMEM))
      else if \<not> malloc_ok then Some (Inl (- ENOMEM))
      else do {
        copy \<leftarrow> load data 0 (unat sz);
        let b = \<lparr>btf_data = copy, btf_types = [], btf_strings = 0, btf_nohdr_data = 0, nr_types = 0, types_size = 0,
                 btf_data_size = sz, btf_fd = -1\<rparr>;
        (err, b) \<leftarrow> btf_parse_hdr b;
        if err \<noteq> 0 then Some (Inl err)
        else do {
          (err, b) \<leftarrow> btf_parse_str_sec b;
          if err \<noteq> 0 then Some (Inl err)
          else do {
            (err, b) \<leftarrow> btf_parse_type_sec realloc_ok b;
            Some (if err \<noteq> 0 then Inl err else Inr b)
          }
        }
      })"

section \<open>Queries\<close>

definition btf__get_nr_types :: "btf \<Rightarrow> u32" where "btf__get_nr_types b = nr_types b"

text \<open>Inner \<open>None\<close> is the null pointer.\<close>

definition btf__type_by_id :: "btf \<Rightarrow> u32 \<Rightarrow> btf_ptr option option" where
  "btf__type_by_id b type_id =
     (if type_id > nr_types b then Some None
      else do { t \<leftarrow> arr_get (btf_types b) (unat type_id); map_option Some t })"

definition btf_type_is_void :: "btf \<Rightarrow> btf_ptr \<Rightarrow> bool option" where
  "btf_type_is_void b t = (if t = Btf_void then Some True else map_option (\<lambda>k. k = BTF_KIND_FWD) (btf_kind b t))"

definition btf_type_is_void_or_null :: "btf \<Rightarrow> btf_ptr option \<Rightarrow> bool option" where
  "btf_type_is_void_or_null b t = (case t of None \<Rightarrow> Some True | Some t \<Rightarrow> btf_type_is_void b t)"

text \<open>The loop of \<^verbatim>\<open>btf__resolve_size\<close>, with the number of rounds left; \<open>Inl\<close> returns at once, \<open>Inr\<close>
  leaves the loop with \<open>nelems\<close> and \<open>size\<close>.\<close>

fun btf_resolve_size_loop :: "nat \<Rightarrow> btf \<Rightarrow> btf_ptr option \<Rightarrow> u32 \<Rightarrow> (int + u32 \<times> int) option" where
  "btf_resolve_size_loop 0 b t nelems = Some (Inr (nelems, -1))"
| "btf_resolve_size_loop (Suc i) b t nelems =
     (case btf_type_is_void_or_null b t of
        None \<Rightarrow> None
      | Some True \<Rightarrow> Some (Inr (nelems, -1))
      | Some False \<Rightarrow>
          (case btf_kind b (the t) of
             None \<Rightarrow> None
           | Some k \<Rightarrow>
               if k \<in> {BTF_KIND_INT, BTF_KIND_STRUCT, BTF_KIND_UNION, BTF_KIND_ENUM, BTF_KIND_DATASEC} then
                 map_option (\<lambda>sz. Inr (nelems, uint sz)) (t_size b (the t))
               else if k = BTF_KIND_PTR then Some (Inr (nelems, 8))
               else if k \<in> {BTF_KIND_TYPEDEF, BTF_KIND_VOLATILE, BTF_KIND_CONST, BTF_KIND_RESTRICT, BTF_KIND_VAR} then do {
                 type_id \<leftarrow> t_type b (the t);
                 t' \<leftarrow> btf__type_by_id b type_id;
                 btf_resolve_size_loop i b t' nelems
               }
               else if k = BTF_KIND_ARRAY then do {
                 n \<leftarrow> array_nelems b (the t);
                 if nelems \<noteq> 0 \<and> n > UINT32_MAX div nelems then Some (Inl (- E2BIG))
                 else do {
                   type_id \<leftarrow> array_type b (the t);
                   t' \<leftarrow> btf__type_by_id b type_id;
                   btf_resolve_size_loop i b t' (nelems * n)
                 }
               }
               else Some (Inl (- EINVAL))))"

definition btf__resolve_size :: "btf \<Rightarrow> u32 \<Rightarrow> int option" where
  "btf__resolve_size b type_id = do {
     t \<leftarrow> btf__type_by_id b type_id;
     r \<leftarrow> btf_resolve_size_loop MAX_RESOLVE_DEPTH b t 1;
     Some (case r of
             Inl err \<Rightarrow> err
           | Inr (nelems, sz) \<Rightarrow>
               if sz < 0 then - EINVAL
               else if nelems \<noteq> 0 \<and> sz > uint (UINT32_MAX div nelems) then - E2BIG
               else uint nelems * sz)
   }"

definition is_mod_typedef_var :: "u32 \<Rightarrow> bool" where
  "is_mod_typedef_var k \<longleftrightarrow> k \<in> {BTF_KIND_VOLATILE, BTF_KIND_CONST, BTF_KIND_RESTRICT} \<or> k = BTF_KIND_TYPEDEF \<or> k = BTF_KIND_VAR"

text \<open>The loop of \<^verbatim>\<open>btf__resolve_type\<close> returns the rounds that were left, the pointer and the id.\<close>

fun btf_resolve_type_loop :: "nat \<Rightarrow> btf \<Rightarrow> btf_ptr option \<Rightarrow> u32 \<Rightarrow> (nat \<times> btf_ptr option \<times> u32) option" where
  "btf_resolve_type_loop 0 b t type_id = Some (0, t, type_id)"
| "btf_resolve_type_loop (Suc i) b t type_id =
     (case btf_type_is_void_or_null b t of
        None \<Rightarrow> None
      | Some True \<Rightarrow> Some (Suc i, t, type_id)
      | Some False \<Rightarrow>
          (case btf_kind b (the t) of
             None \<Rightarrow> None
           | Some k \<Rightarrow>
               if is_mod_typedef_var k then do {
                 type_id \<leftarrow> t_type b (the t);
                 t' \<leftarrow> btf__type_by_id b type_id;
                 btf_resolve_type_loop i b t' type_id
               }
               else Some (Suc i, t, type_id)))"

definition btf__resolve_type :: "btf \<Rightarrow> u32 \<Rightarrow> int option" where
  "btf__resolve_type b type_id = do {
     t \<leftarrow> btf__type_by_id b type_id;
     (left, t, type_id) \<leftarrow> btf_resolve_type_loop MAX_RESOLVE_DEPTH b t type_id;
     if left = 0 then Some (- EINVAL)
     else do {
       v \<leftarrow> btf_type_is_void_or_null b t;
       Some (if v then - EINVAL else sint type_id)
     }
   }"

text \<open>\<^verbatim>\<open>strcmp\<close> with a string in the blob: equality, reading up to the first difference. A name is
  its bytes without the terminating zero.\<close>

fun strcmp_at :: "bytes \<Rightarrow> nat \<Rightarrow> bytes \<Rightarrow> bool option" where
  "strcmp_at m off [] = map_option (\<lambda>c. c = 0) (arr_get m off)"
| "strcmp_at m off (x # xs) =
     (case arr_get m off of None \<Rightarrow> None | Some c \<Rightarrow> if c = x then strcmp_at m (Suc off) xs else Some False)"

definition btf__name_by_offset :: "btf \<Rightarrow> u32 \<Rightarrow> nat option option" where
  "btf__name_by_offset b offset = do {
     str_len \<leftarrow> hdr_str_len (btf_data b);
     Some (if offset < str_len then Some (btf_strings b + unat offset) else None)
   }"

definition str_bytes :: "string \<Rightarrow> bytes" where "str_bytes s = map (\<lambda>c. of_nat (of_char c)) s"

text \<open>The loop of \<^verbatim>\<open>btf__find_by_name\<close> over the ids from \<open>i\<close>, \<open>n\<close> of them left.\<close>

fun btf_find_loop :: "nat \<Rightarrow> nat \<Rightarrow> btf \<Rightarrow> bytes \<Rightarrow> int option" where
  "btf_find_loop 0 i b type_name = Some (- ENOENT)"
| "btf_find_loop (Suc n) i b type_name =
     (case arr_get (btf_types b) i of
        Some (Some t) \<Rightarrow> do {
          off \<leftarrow> t_name_off b t;
          name \<leftarrow> btf__name_by_offset b off;
          hit \<leftarrow> (case name of None \<Rightarrow> Some False | Some p \<Rightarrow> strcmp_at (btf_data b) p type_name);
          if hit then Some (int i) else btf_find_loop n (Suc i) b type_name
        }
      | _ \<Rightarrow> None)"

definition btf__find_by_name :: "btf \<Rightarrow> bytes \<Rightarrow> int option" where
  "btf__find_by_name b type_name =
     (if type_name = str_bytes ''void'' then Some 0 else btf_find_loop (unat (nr_types b)) 1 b type_name)"

text \<open>\<^verbatim>\<open>snprintf\<close> writes at most 255 bytes and returns the length of the whole text.\<close>

definition container_name :: "bytes \<Rightarrow> bytes" where "container_name map_name = str_bytes ''____btf_map_'' @ map_name"

definition btf__get_map_kv_tids :: "btf \<Rightarrow> bytes \<Rightarrow> u32 \<Rightarrow> u32 \<Rightarrow> (int + u32 \<times> u32) option" where
  "btf__get_map_kv_tids b map_name expected_key_size expected_value_size =
     (if length (container_name map_name) = 256 then Some (Inl (- EINVAL))
      else do {
        container_id \<leftarrow> btf__find_by_name b (take 255 (container_name map_name));
        if container_id < 0 then Some (Inl container_id)
        else do {
          container_type \<leftarrow> btf__type_by_id b (of_int container_id);
          (case container_type of
             None \<Rightarrow> Some (Inl (- EINVAL))
           | Some t \<Rightarrow> do {
               k \<leftarrow> btf_kind b t;
               vlen \<leftarrow> btf_vlen b t;
               if k \<noteq> BTF_KIND_STRUCT \<or> vlen < 2 then Some (Inl (- EINVAL))
               else do {
                 key \<leftarrow> member_type b t 0;
                 key_size \<leftarrow> btf__resolve_size b key;
                 if key_size < 0 then Some (Inl key_size)
                 else if uint expected_key_size \<noteq> key_size then Some (Inl (- EINVAL))
                 else do {
                   val \<leftarrow> member_type b t 1;
                   value_size \<leftarrow> btf__resolve_size b val;
                   Some (if value_size < 0 then Inl value_size
                         else if uint expected_value_size \<noteq> value_size then Inl (- EINVAL)
                         else Inr (key, val))
                 }
               }
             })
        }
      })"

section \<open>Loading and reading back\<close>

text \<open>\<open>sys_bpf\<close> is the system call with or without a log: a descriptor, or minus the error number.\<close>

definition bpf_load_btf :: "(bool \<Rightarrow> bytes \<Rightarrow> int) \<Rightarrow> bytes \<Rightarrow> bool \<Rightarrow> bool \<Rightarrow> int" where
  "bpf_load_btf sys_bpf data has_log do_log =
     (let fd = sys_bpf (do_log \<and> has_log) data
      in if fd < 0 \<and> \<not> do_log \<and> has_log then sys_bpf True data else fd)"

definition btf__load :: "bool \<Rightarrow> (bool \<Rightarrow> bytes \<Rightarrow> int) \<Rightarrow> btf \<Rightarrow> int \<times> btf" where
  "btf__load malloc_ok sys_bpf b =
     (if btf_fd b \<ge> 0 then (- EEXIST, b)
      else if \<not> malloc_ok then (- ENOMEM, b)
      else
        (let r = bpf_load_btf sys_bpf (take (unat (btf_data_size b)) (btf_data b)) True False
         in if r < 0 then (r, b\<lparr>btf_fd := -1\<rparr>) else (0, b\<lparr>btf_fd := r\<rparr>)))"

definition btf__fd :: "btf \<Rightarrow> int" where "btf__fd b = btf_fd b"

definition btf__get_raw_data :: "btf \<Rightarrow> bytes \<times> u32" where
  "btf__get_raw_data b = (btf_data b, btf_data_size b)"

section \<open>The table of types\<close>

text \<open>The table holds the void type and the types \<open>ts\<close>, in this order.\<close>

definition btf_table :: "btf \<Rightarrow> btf_ptr list \<Rightarrow> bool" where
  "btf_table b ts \<longleftrightarrow>
     length (btf_types b) = unat (types_size b) \<and> types_size b \<le> BTF_MAX_NR_TYPES \<and> nr_types b = of_nat (length ts) \<and>
     (if ts = [] then types_size b = 0
      else length ts < unat (types_size b) \<and> take (Suc (length ts)) (btf_types b) = map Some (Btf_void # ts))"

definition btf_same_blob :: "btf \<Rightarrow> btf \<Rightarrow> bool" where
  "btf_same_blob b b' \<longleftrightarrow> btf_data b' = btf_data b \<and> btf_strings b' = btf_strings b \<and>
     btf_nohdr_data b' = btf_nohdr_data b \<and> btf_data_size b' = btf_data_size b \<and> btf_fd b' = btf_fd b"

lemma btf_same_blob_refl [simp]: "btf_same_blob b b"
  by (simp add: btf_same_blob_def)

lemma btf_same_blob_trans: "btf_same_blob a b \<Longrightarrow> btf_same_blob b c \<Longrightarrow> btf_same_blob a c"
  by (simp add: btf_same_blob_def)

lemma new_size_grows:
  assumes "ts \<le> BTF_MAX_NR_TYPES"
  defines "new_size \<equiv> min BTF_MAX_NR_TYPES (ts + max (drop_bit 2 ts) 16)"
  shows "min (2 ^ 31 - 1) (unat ts + 16) \<le> unat new_size" "new_size \<le> BTF_MAX_NR_TYPES"
proof -
  let ?e = "max (drop_bit 2 ts) 16"
  have ts: "unat ts \<le> 2 ^ 31 - 1" using assms(1) by (simp add: BTF_MAX_NR_TYPES_def word_le_nat_alt)
  have "unat (drop_bit 2 ts) = unat ts div 4" by (simp add: drop_bit_eq_div unat_div)
  then have e: "16 \<le> unat ?e" "unat ?e \<le> 2 ^ 30"
    using ts by (auto simp: max_def word_le_nat_alt)
  then have "unat (ts + ?e) = unat ts + unat ?e" using ts by (intro unat_add_lem [THEN iffD1]) simp
  then show "min (2 ^ 31 - 1) (unat ts + 16) \<le> unat new_size"
    using e by (simp add: new_size_def BTF_MAX_NR_TYPES_def min_def word_le_nat_alt)
  show "new_size \<le> BTF_MAX_NR_TYPES" by (simp add: new_size_def)
qed

lemma table_append:
  assumes "take (Suc n) xs = map Some ys" and "Suc n < length xs"
  shows "take (Suc (Suc n)) (xs[Suc n := Some y]) = map Some (ys @ [y])"
  using assms by (simp add: take_Suc_conv_app_nth)

lemma unat_of_nat_below:
  assumes "n < unat (w :: u32)"
  shows "unat (of_nat n :: u32) = n"
proof -
  have "unat w < 2 ^ LENGTH(32)" by (rule unsigned_less)
  then show ?thesis using assms by (intro unat_of_nat_small) linarith
qed

lemma btf_table_nr: "btf_table b ts \<Longrightarrow> unat (nr_types b) = length ts"
  by (cases "ts = []") (auto simp: btf_table_def intro: unat_of_nat_below)

text \<open>The table with room for one more type.\<close>

definition btf_room :: "btf \<Rightarrow> btf_ptr list \<Rightarrow> bool" where
  "btf_room b ts \<longleftrightarrow>
     length (btf_types b) = unat (types_size b) \<and> types_size b \<le> BTF_MAX_NR_TYPES \<and> nr_types b = of_nat (length ts) \<and>
     Suc (length ts) < unat (types_size b) \<and> take (Suc (length ts)) (btf_types b) = map Some (Btf_void # ts)"

lemma btf_table_grown:
  assumes "btf_table b ts" "unat (types_size b) < unat n" "16 \<le> unat n" "n \<le> BTF_MAX_NR_TYPES"
  defines "xs \<equiv> take (unat n) (btf_types b) @ replicate (unat n - length (btf_types b)) None"
  shows "btf_room (b\<lparr>btf_types := if nr_types b = 0 then xs[0 := Some Btf_void] else xs, types_size := n\<rparr>) ts"
proof -
  have len: "length xs = unat n" using assms(1,2) by (simp add: xs_def btf_table_def)
  have nr: "unat (nr_types b) = length ts" using assms(1) by (rule btf_table_nr)
  show ?thesis
  proof (cases "ts = []")
    case True
    then have "nr_types b = 0" using assms(1) by (simp add: btf_table_def)
    then show ?thesis using True len assms(3,4) by (cases xs) (simp_all add: btf_room_def)
  next
    case False
    then have "nr_types b \<noteq> 0" using nr by auto
    then show ?thesis using False assms(1,2,4) len by (auto simp: btf_room_def btf_table_def xs_def)
  qed
qed

lemma btf_grow_types_table:
  assumes "btf_table b ts"
  shows "case btf_grow_types r b of
      None \<Rightarrow> False
    | Some (Inl e) \<Rightarrow> e \<in> {- E2BIG, - ENOMEM}
    | Some (Inr b') \<Rightarrow> btf_room b' ts \<and> btf_same_blob b b'"
proof -
  have ts: "types_size b \<le> BTF_MAX_NR_TYPES" using assms by (simp add: btf_table_def)
  have nr: "unat (nr_types b) = length ts" using assms by (rule btf_table_nr)
  have "nr_types b \<le> types_size b"
    using assms nr by (cases "ts = []") (simp_all add: btf_table_def word_le_nat_alt)
  then have d: "types_size b - nr_types b < 2 \<longleftrightarrow> unat (types_size b) < Suc (Suc (length ts))"
    by (simp add: word_less_nat_alt unat_sub nr) arith
  define n where "n = min BTF_MAX_NR_TYPES (types_size b + max (drop_bit 2 (types_size b)) 16)"
  have n: "min (2 ^ 31 - 1) (unat (types_size b) + 16) \<le> unat n" "n \<le> BTF_MAX_NR_TYPES"
    using new_size_grows [OF ts] by (simp_all add: n_def)
  have grown: "btf_room (b\<lparr>btf_types := if nr_types b = 0 then xs[0 := Some Btf_void] else xs, types_size := n\<rparr>) ts"
    if "types_size b \<noteq> BTF_MAX_NR_TYPES" "xs = take (unat n) (btf_types b) @ replicate (unat n - length (btf_types b)) None" for xs
  proof -
    have "unat (types_size b) < 2 ^ 31 - 1"
      using ts that(1) by (simp add: BTF_MAX_NR_TYPES_def word_le_nat_alt word_unat_eq_iff)
    then have "unat (types_size b) < unat n" "16 \<le> unat n" using n(1) by auto
    then show ?thesis unfolding that(2) by (rule btf_table_grown [OF assms _ _ n(2)])
  qed
  have pos: "0 < unat n" using n(1) by (auto simp: min_def split: if_splits)
  show ?thesis
  proof (cases "types_size b - nr_types b < 2")
    case False
    then show ?thesis using assms d by (auto simp: btf_grow_types_def btf_room_def btf_table_def split: if_splits)
  next
    case True
    then show ?thesis
      using grown pos by (auto simp: btf_grow_types_def Let_def arr_set_def btf_same_blob_def n_def [symmetric] split: if_splits)
  qed
qed

lemma btf_add_type_table:
  assumes "btf_table b ts"
  shows "case btf_add_type r b t of
      None \<Rightarrow> False
    | Some (err, b') \<Rightarrow> btf_same_blob b b' \<and> (if err = 0 then btf_table b' (ts @ [t]) else err \<in> {- E2BIG, - ENOMEM})"
proof (cases "btf_grow_types r b")
  case None
  then show ?thesis using btf_grow_types_table [OF assms, of r] by simp
next
  case (Some x)
  show ?thesis
  proof (cases x)
    case (Inl e)
    then show ?thesis
      using btf_grow_types_table [OF assms, of r] Some by (auto simp: btf_add_type_def errno_defs)
  next
    case (Inr b1)
    then have room: "btf_room b1 ts" "btf_same_blob b b1" using btf_grow_types_table [OF assms, of r] Some by auto
    then have nr: "unat (nr_types b1 + 1) = Suc (length ts)"
      using unat_of_nat_below [of "Suc (length ts)" "types_size b1"] by (simp add: btf_room_def add.commute)
    have tk: "take (Suc (Suc (length ts))) ((btf_types b1)[Suc (length ts) := Some t]) = map Some ((Btf_void # ts) @ [t])"
      using room(1) by (intro table_append) (auto simp: btf_room_def)
    show ?thesis
      using room nr tk by (auto simp: btf_add_type_def Some Inr arr_set_def btf_same_blob_def btf_room_def btf_table_def)
  qed
qed

text \<open>The specification of a type section: the offsets of the records from \<open>off\<close> to \<open>fin\<close>, one after
  the other, each of a known kind.\<close>

function type_chain :: "bytes \<Rightarrow> nat \<Rightarrow> nat \<Rightarrow> nat list option" where
  "type_chain d off fin =
     (if off < fin then
        (case load32 d (off + 4) of
           None \<Rightarrow> None
         | Some info \<Rightarrow>
             if btf_type_size info < 0 then None
             else map_option (Cons off) (type_chain d (off + nat (btf_type_size info)) fin))
      else Some [])"
  by pat_completeness auto
termination
  by (relation "measure (\<lambda>(d, off, fin). fin - off)") (auto dest: btf_type_size_progress)

declare type_chain.simps [simp del]

lemma btf_type_loop_table:
  assumes "btf_type_loop r off fin b = Some (err, b')" "btf_table b ts"
  shows "btf_same_blob b b' \<and> (err = 0 \<longrightarrow> (\<exists>os. type_chain (btf_data b) off fin = Some os \<and> btf_table b' (ts @ map Btf_at os)))"
  using assms
proof (induction r off fin b arbitrary: ts rule: btf_type_loop.induct)
  case (1 r off fin b)
  show ?case
  proof (cases "off < fin")
    case False
    then show ?thesis using 1(2,3) by (simp add: btf_type_loop.simps type_chain.simps)
  next
    case in_sec: True
    then obtain info where info: "load32 (btf_data b) (off + 4) = Some info" "t_info b (Btf_at off) = Some info"
      using 1(2) by (cases "t_info b (Btf_at off)") (simp_all add: btf_type_loop.simps t_info_def)
    show ?thesis
    proof (cases "btf_type_size info < 0")
      case True
      then show ?thesis using 1(2) in_sec info by (auto simp: btf_type_loop.simps)
    next
      case sz: False
      obtain e b1 where add: "btf_add_type r b (Btf_at off) = Some (e, b1)"
        using btf_add_type_table [OF 1(3), where r = r and t = "Btf_at off"] by (auto split: option.splits)
      have b1: "btf_same_blob b b1" "e = 0 \<Longrightarrow> btf_table b1 (ts @ [Btf_at off])"
        using btf_add_type_table [OF 1(3), where r = r and t = "Btf_at off"] add by auto
      show ?thesis
      proof (cases "e = 0")
        case False
        then show ?thesis using 1(2) in_sec info sz add b1 by (simp add: btf_type_loop.simps [of r off])
      next
        case True
        have "btf_type_loop r (off + nat (btf_type_size info)) fin b1 = Some (err, b')"
          using 1(2) in_sec info sz add True by (subst (asm) btf_type_loop.simps) simp
        from 1(1) [OF in_sec info(2) sz add refl _ this b1(2) [OF True]]
        have ih: "btf_same_blob b1 b' \<and> (err = 0 \<longrightarrow> (\<exists>os. type_chain (btf_data b1) (off + nat (btf_type_size info)) fin = Some os \<and>
            btf_table b' ((ts @ [Btf_at off]) @ map Btf_at os)))"
          using True by simp
        have "btf_data b1 = btf_data b" using b1(1) by (simp add: btf_same_blob_def)
        then show ?thesis
          using ih b1(1) in_sec info sz by (auto simp: type_chain.simps [of _ off] intro: btf_same_blob_trans)
      qed
    qed
  qed
qed

lemma btf_table_type_by_id:
  assumes "btf_table b ts" "ts \<noteq> []"
  shows "btf__type_by_id b tid = Some (if tid = 0 then Some Btf_void
      else if unat tid \<le> length ts then Some (ts ! (unat tid - 1)) else None)"
proof -
  have tk: "take (Suc (length ts)) (btf_types b) = map Some (Btf_void # ts)" and len: "length ts < length (btf_types b)"
    using assms by (auto simp: btf_table_def)
  have nr: "unat (nr_types b) = length ts" using assms(1) by (rule btf_table_nr)
  show ?thesis
  proof (cases "unat tid \<le> length ts")
    case True
    have "btf_types b ! unat tid = map Some (Btf_void # ts) ! unat tid"
      using True arg_cong [OF tk, of "\<lambda>xs. xs ! unat tid"] by simp
    then show ?thesis
      using True len nr by (cases "unat tid") (auto simp: btf__type_by_id_def arr_get_def word_less_nat_alt unat_eq_0)
  next
    case False
    then show ?thesis using nr by (auto simp: btf__type_by_id_def word_less_nat_alt)
  qed
qed

lemma type_chain_bounds:
  assumes "type_chain d off fin = Some os" "p \<in> set os"
  shows "off \<le> p \<and> p < fin \<and> (\<exists>info. load32 d (p + 4) = Some info \<and> 0 \<le> btf_type_size info)"
  using assms
proof (induction d off fin arbitrary: os rule: type_chain.induct)
  case (1 d off fin)
  show ?case
    using 1 by (subst (asm) (2) type_chain.simps) (force split: if_splits option.splits)
qed

lemma btf_parse_hdr_ok:
  assumes "btf_parse_hdr b = Some (0, b')"
  obtains type_off str_off where "hdr_type_off (btf_data b) = Some type_off" "hdr_str_off (btf_data b) = Some str_off"
    "b' = b\<lparr>btf_nohdr_data := 24\<rparr>" "type_off < str_off" "24 + unat str_off \<le> unat (btf_data_size b)"
proof -
  have "unat (btf_data_size b - 24) = unat (btf_data_size b) - 24" if "\<not> unat (btf_data_size b) < 24"
    using that unat_sub [of 24 "btf_data_size b"] by (simp add: word_le_nat_alt)
  then show thesis
    using assms that
    by (auto simp: btf_parse_hdr_def BTF_HDR_def errno_defs Let_def word_le_nat_alt word_less_nat_alt split: if_splits Option.bind_splits)
qed

lemma btf_parse_str_sec_ok:
  assumes "btf_parse_str_sec b = Some (0, b')"
  obtains str_off where "hdr_str_off (btf_data b) = Some str_off" "b' = b\<lparr>btf_strings := btf_nohdr_data b + unat str_off\<rparr>"
  using assms by (auto simp: btf_parse_str_sec_def errno_defs Let_def split: if_splits Option.bind_splits)

lemma btf_new_parts:
  assumes "btf__new c m r data sz = Some (Inr b)"
  obtains type_off str_off b0 where "hdr_type_off (btf_data b) = Some type_off" "hdr_str_off (btf_data b) = Some str_off"
    "btf_data b = take (unat sz) data" "type_off < str_off" "24 + unat str_off \<le> unat sz"
    "btf_strings b = 24 + unat str_off" "btf_fd b = -1" "btf_data_size b = sz"
    "btf_type_loop r (24 + unat type_off) (24 + unat str_off) b0 = Some (0, b)" "btf_table b0 []"
proof -
  define b00 where "b00 = \<lparr>btf_data = take (unat sz) data, btf_types = [], btf_strings = 0, btf_nohdr_data = 0, nr_types = 0,
      types_size = 0, btf_data_size = sz, btf_fd = -1\<rparr>"
  obtain b1 b2 where b1: "btf_parse_hdr b00 = Some (0, b1)" and b2: "btf_parse_str_sec b1 = Some (0, b2)"
    and b3: "btf_parse_type_sec r b2 = Some (0, b)"
    using assms by (auto simp: btf__new_def load_def b00_def split: if_splits Option.bind_splits)
  from btf_parse_hdr_ok [OF b1] obtain type_off str_off where h: "hdr_type_off (btf_data b00) = Some type_off"
    "hdr_str_off (btf_data b00) = Some str_off" "b1 = b00\<lparr>btf_nohdr_data := 24\<rparr>" "type_off < str_off"
    "24 + unat str_off \<le> unat (btf_data_size b00)" .
  have s: "b2 = b00\<lparr>btf_nohdr_data := 24, btf_strings := 24 + unat str_off\<rparr>"
    using btf_parse_str_sec_ok [OF b2] h by (metis btf.select_convs(1,4) btf.simps(12) btf.surjective btf.update_convs(4) option.inject)
  have loop: "btf_type_loop r (24 + unat type_off) (24 + unat str_off) b2 = Some (0, b)"
    using b3 h s by (simp add: btf_parse_type_sec_def)
  have t0: "btf_table b2 []" by (simp add: s b00_def btf_table_def)
  have "btf_same_blob b2 b" using btf_type_loop_table [OF loop t0] by simp
  then show thesis using that [of type_off str_off b2] h s loop t0 by (simp add: btf_same_blob_def b00_def)
qed

lemma btf_new_chain:
  assumes "btf__new c m r data sz = Some (Inr b)"
  obtains type_off str_off os where "hdr_type_off (btf_data b) = Some type_off" "hdr_str_off (btf_data b) = Some str_off"
    "type_chain (btf_data b) (24 + unat type_off) (24 + unat str_off) = Some os" "os \<noteq> []" "btf_table b (map Btf_at os)"
proof -
  from btf_new_parts [OF assms] obtain type_off str_off b0 where h: "hdr_type_off (btf_data b) = Some type_off"
    "hdr_str_off (btf_data b) = Some str_off" "type_off < str_off"
    and loop: "btf_type_loop r (24 + unat type_off) (24 + unat str_off) b0 = Some (0, b)" and t0: "btf_table b0 []"
    by metis
  obtain os where os: "type_chain (btf_data b) (24 + unat type_off) (24 + unat str_off) = Some os" "btf_table b (map Btf_at os)"
    using btf_type_loop_table [OF loop t0] by (auto simp: btf_same_blob_def)
  have "os \<noteq> []"
    using os(1) h(3) by (subst (asm) type_chain.simps) (auto simp: word_less_nat_alt split: option.splits if_splits)
  then show thesis using that h os by blast
qed

section \<open>Sizes\<close>

text \<open>The size of a type, without a bound on the depth or the value.\<close>

inductive has_size :: "btf \<Rightarrow> u32 \<Rightarrow> nat \<Rightarrow> bool" for b :: btf where
  has_size_sized: "btf__type_by_id b tid = Some (Some t) \<Longrightarrow> btf_kind b t = Some k
    \<Longrightarrow> k \<in> {BTF_KIND_INT, BTF_KIND_STRUCT, BTF_KIND_UNION, BTF_KIND_ENUM, BTF_KIND_DATASEC}
    \<Longrightarrow> t_size b t = Some s \<Longrightarrow> has_size b tid (unat s)"
| has_size_ptr: "btf__type_by_id b tid = Some (Some t) \<Longrightarrow> btf_kind b t = Some BTF_KIND_PTR \<Longrightarrow> has_size b tid 8"
| has_size_mod: "btf__type_by_id b tid = Some (Some t) \<Longrightarrow> btf_kind b t = Some k \<Longrightarrow> is_mod_typedef_var k
    \<Longrightarrow> t_type b t = Some tid' \<Longrightarrow> has_size b tid' n \<Longrightarrow> has_size b tid n"
| has_size_array: "btf__type_by_id b tid = Some (Some t) \<Longrightarrow> btf_kind b t = Some BTF_KIND_ARRAY
    \<Longrightarrow> array_nelems b t = Some m \<Longrightarrow> array_type b t = Some tid' \<Longrightarrow> has_size b tid' n \<Longrightarrow> has_size b tid (unat m * n)"

lemma mult_no_overflow:
  assumes "\<not> (x \<noteq> 0 \<and> y > UINT32_MAX div x)"
  shows "unat (x * y) = unat x * unat (y :: u32)"
proof (cases "x = 0")
  case False
  then have "unat y \<le> (2 ^ 32 - 1) div unat x" using assms by (simp add: UINT32_MAX_def word_less_nat_alt unat_div)
  then have "unat x * unat y \<le> unat x * ((2 ^ 32 - 1) div unat x)" by (rule mult_le_mono2)
  also have "\<dots> \<le> 2 ^ 32 - 1" by (rule times_div_less_eq_dividend)
  finally show ?thesis by (intro unat_mult_lem [THEN iffD1]) simp
qed simp

lemma btf_resolve_size_loop_step:
  assumes "btf_type_is_void_or_null b (Some t) = Some False" "btf_kind b t = Some k"
  shows "btf_resolve_size_loop (Suc i) b (Some t) nelems =
    (if k \<in> {BTF_KIND_INT, BTF_KIND_STRUCT, BTF_KIND_UNION, BTF_KIND_ENUM, BTF_KIND_DATASEC} then
       map_option (\<lambda>sz. Inr (nelems, uint sz)) (t_size b t)
     else if k = BTF_KIND_PTR then Some (Inr (nelems, 8))
     else if k \<in> {BTF_KIND_TYPEDEF, BTF_KIND_VOLATILE, BTF_KIND_CONST, BTF_KIND_RESTRICT, BTF_KIND_VAR} then
       Option.bind (t_type b t) (\<lambda>type_id. Option.bind (btf__type_by_id b type_id) (\<lambda>t'. btf_resolve_size_loop i b t' nelems))
     else if k = BTF_KIND_ARRAY then
       Option.bind (array_nelems b t) (\<lambda>n. if nelems \<noteq> 0 \<and> n > UINT32_MAX div nelems then Some (Inl (- E2BIG))
         else Option.bind (array_type b t) (\<lambda>type_id. Option.bind (btf__type_by_id b type_id) (\<lambda>t'.
           btf_resolve_size_loop i b t' (nelems * n))))
     else Some (Inl (- EINVAL)))"
  unfolding btf_resolve_size_loop.simps(2) assms option.case bool.case option.sel ..

lemma btf_resolve_size_loop_err: "btf_resolve_size_loop i b t nelems = Some (Inl e) \<Longrightarrow> e \<in> {- E2BIG, - EINVAL}"
  by (induction i b t nelems rule: btf_resolve_size_loop.induct)
    (auto split: option.splits bool.splits if_splits Option.bind_splits)

lemma btf_resolve_size_loop_sound:
  assumes "btf_resolve_size_loop i b t nelems = Some (Inr (n, sz))" "0 \<le> sz" "btf__type_by_id b tid = Some t"
  shows "\<exists>k. has_size b tid (k * nat sz) \<and> unat n = unat nelems * k"
  using assms
proof (induction i arbitrary: t nelems tid)
  case (Suc i)
  then obtain t0 where t: "t = Some t0" and void: "btf_type_is_void_or_null b t = Some False"
    by (cases t) (auto simp: btf_type_is_void_or_null_def split: option.splits bool.splits)
  then obtain k where k: "btf_kind b t0 = Some k" using Suc.prems(1) by (cases "btf_kind b t0") simp_all
  note tid = Suc.prems(3) [unfolded t]
  note step = Suc.prems(1) [unfolded t, unfolded btf_resolve_size_loop_step [OF void [unfolded t] k]]
  consider (sized) "k \<in> {BTF_KIND_INT, BTF_KIND_STRUCT, BTF_KIND_UNION, BTF_KIND_ENUM, BTF_KIND_DATASEC}"
    | (ptr) "k = BTF_KIND_PTR" | (mod) "k \<in> {BTF_KIND_TYPEDEF, BTF_KIND_VOLATILE, BTF_KIND_CONST, BTF_KIND_RESTRICT, BTF_KIND_VAR}"
    | (array) "k = BTF_KIND_ARRAY"
    using step by (auto split: if_splits)
  then show ?case
  proof cases
    case sized
    then obtain s where s: "t_size b t0 = Some s" "n = nelems" "sz = uint s" using step by auto
    then have "has_size b tid (1 * nat sz)" using has_size_sized [OF tid k sized s(1)] by simp
    then show ?thesis using s(2) by (metis mult.right_neutral)
  next
    case ptr
    then have s: "n = nelems" "sz = 8" using step by (simp_all add: btf_kind_defs)
    then have "has_size b tid (1 * nat sz)" using has_size_ptr [OF tid] k ptr by simp
    then show ?thesis using s(1) by (metis mult.right_neutral)
  next
    case mod
    then have ne: "k \<notin> {BTF_KIND_INT, BTF_KIND_STRUCT, BTF_KIND_UNION, BTF_KIND_ENUM, BTF_KIND_DATASEC}" "k \<noteq> BTF_KIND_PTR"
      by (auto simp: btf_kind_defs)
    obtain tid' t' where s: "t_type b t0 = Some tid'" "btf__type_by_id b tid' = Some t'"
      "btf_resolve_size_loop i b t' nelems = Some (Inr (n, sz))"
      using step mod ne by (simp only: if_True if_False option.distinct split: Option.bind_splits)
    have "is_mod_typedef_var k" using mod by (auto simp: is_mod_typedef_var_def)
    then show ?thesis using has_size_mod [OF tid k _ s(1)] Suc.IH [OF s(3) Suc.prems(2) s(2)] by blast
  next
    case array
    then have ne: "k \<notin> {BTF_KIND_INT, BTF_KIND_STRUCT, BTF_KIND_UNION, BTF_KIND_ENUM, BTF_KIND_DATASEC}" "k \<noteq> BTF_KIND_PTR"
      "k \<notin> {BTF_KIND_TYPEDEF, BTF_KIND_VOLATILE, BTF_KIND_CONST, BTF_KIND_RESTRICT, BTF_KIND_VAR}"
      by (auto simp: btf_kind_defs)
    obtain cnt tid' t' where s: "array_nelems b t0 = Some cnt" "\<not> (nelems \<noteq> 0 \<and> cnt > UINT32_MAX div nelems)"
      "array_type b t0 = Some tid'" "btf__type_by_id b tid' = Some t'"
      "btf_resolve_size_loop i b t' (nelems * cnt) = Some (Inr (n, sz))"
      using step array ne by (auto split: if_splits Option.bind_splits)
    obtain m where m: "has_size b tid' (m * nat sz)" "unat n = unat (nelems * cnt) * m"
      using Suc.IH [OF s(5) Suc.prems(2) s(4)] by blast
    have "has_size b tid (unat cnt * (m * nat sz))" using has_size_array [OF tid _ s(1,3) m(1)] k array by simp
    then show ?thesis
      using m(2) mult_no_overflow [OF s(2)] by (intro exI [of _ "unat cnt * m"]) (simp add: mult.assoc)
  qed
qed simp

lemma btf_resolve_size_sound:
  assumes "btf__resolve_size b tid = Some sz" "0 \<le> sz"
  shows "has_size b tid (nat sz) \<and> sz < 2 ^ 32"
proof -
  obtain t r where t: "btf__type_by_id b tid = Some t" and r: "btf_resolve_size_loop MAX_RESOLVE_DEPTH b t 1 = Some r"
    using assms(1) by (auto simp: btf__resolve_size_def split: Option.bind_splits)
  obtain n s where rs: "r = Inr (n, s)" "0 \<le> s" "sz = uint n * s" "\<not> (n \<noteq> 0 \<and> s > uint (UINT32_MAX div n))"
  proof (cases r)
    case (Inl e)
    then show thesis
      using btf_resolve_size_loop_err [OF r [unfolded Inl]] assms t r by (auto simp: btf__resolve_size_def errno_defs)
  next
    case (Inr p)
    then show thesis
      using that [of "fst p" "snd p"] assms t r by (cases p) (auto simp: btf__resolve_size_def errno_defs split: if_splits)
  qed
  have size: "has_size b tid (unat n * nat s)"
    using btf_resolve_size_loop_sound [OF r [unfolded rs(1)] rs(2) t] by auto
  have "unat n * nat s \<le> 2 ^ 32 - 1"
  proof (cases "n = 0")
    case False
    then have "nat s \<le> (2 ^ 32 - 1) div unat n"
      using rs(2,4) by (simp add: UINT32_MAX_def uint_div nat_le_iff zdiv_int)
    then have "unat n * nat s \<le> unat n * ((2 ^ 32 - 1) div unat n)" by (rule mult_le_mono2)
    also have "\<dots> \<le> 2 ^ 32 - 1" by (rule times_div_less_eq_dividend)
    finally show ?thesis .
  qed simp
  moreover have sz: "nat sz = unat n * nat s" using rs(2,3) by (simp add: nat_mult_distrib)
  ultimately have "nat sz < 2 ^ 32" by simp
  then show ?thesis using size sz assms(2) by (simp add: nat_less_iff)
qed

section \<open>Names\<close>

text \<open>The type \<open>tid\<close> carries the name \<open>nm\<close>.\<close>

definition type_named :: "btf \<Rightarrow> u32 \<Rightarrow> bytes \<Rightarrow> bool" where
  "type_named b tid nm \<longleftrightarrow> (case btf__type_by_id b tid of
     Some (Some t) \<Rightarrow>
       (case t_name_off b t of
          Some off \<Rightarrow> (case btf__name_by_offset b off of Some (Some p) \<Rightarrow> strcmp_at (btf_data b) p nm = Some True | _ \<Rightarrow> False)
        | None \<Rightarrow> False)
   | _ \<Rightarrow> False)"

lemma strcmp_at_eq:
  "strcmp_at m off nm = Some True \<longleftrightarrow> off + length nm < length m \<and> take (length nm) (drop off m) = nm \<and> m ! (off + length nm) = 0"
proof (induction m off nm rule: strcmp_at.induct)
  case (2 m off x xs)
  show ?case
  proof (cases "off < length m")
    case True
    then show ?thesis using 2 by (auto simp: arr_get_def Cons_nth_drop_Suc [OF True, symmetric] split: if_splits)
  qed (simp add: arr_get_def)
qed (auto simp: arr_get_def)

lemma type_named_of_cell:
  assumes "arr_get (btf_types b) i = Some (Some t)" "i \<le> unat (nr_types b)" "t_name_off b t = Some off"
    "btf__name_by_offset b off = Some (Some p)"
  shows "type_named b (of_nat i) nm \<longleftrightarrow> strcmp_at (btf_data b) p nm = Some True"
proof -
  have "unat (nr_types b) < 2 ^ LENGTH(32)" by (rule unsigned_less)
  then have "i < 2 ^ LENGTH(32)" using assms(2) by linarith
  then have u: "unat (of_nat i :: u32) = i" by (rule unat_of_nat_small)
  then have "btf__type_by_id b (of_nat i) = Some (Some t)"
    using assms(1,2) by (simp add: btf__type_by_id_def word_less_nat_alt)
  then show ?thesis using assms(3,4) by (simp add: type_named_def)
qed

lemma btf_find_loop_sound:
  assumes "btf_find_loop n i b nm = Some r" "i + n = Suc (unat (nr_types b))" "0 \<le> r"
  shows "\<exists>j. r = int j \<and> i \<le> j \<and> j \<le> unat (nr_types b) \<and> type_named b (of_nat j) nm"
  using assms
proof (induction n i b nm rule: btf_find_loop.induct)
  case (2 n i b nm)
  obtain t where t: "arr_get (btf_types b) i = Some (Some t)" using 2(2) by (auto split: option.splits)
  obtain off name hit where c: "t_name_off b t = Some off" "btf__name_by_offset b off = Some name"
    "(case name of None \<Rightarrow> Some False | Some p \<Rightarrow> strcmp_at (btf_data b) p nm) = Some hit"
    using 2(2) unfolding btf_find_loop.simps t option.case by (simp only: Option.bind_eq_Some_conv) blast
  note c = t c
  show ?case
  proof (cases hit)
    case True
    then obtain p where "name = Some p" "strcmp_at (btf_data b) p nm = Some True" using c(4) by (cases name) auto
    then have "type_named b (of_nat i) nm" using type_named_of_cell [OF c(1) _ c(2)] c(3) 2(3) by simp
    then show ?thesis using 2(2,3) c True by auto
  next
    case False
    then have "btf_find_loop n (Suc i) b nm = Some r" using 2(2) c by simp
    then show ?thesis using 2(1) [OF c(1) refl c(2,3,4) _ _ _] 2(3,4) False by force
  qed
qed (simp add: errno_defs)

lemma btf_map_kv_container:
  assumes "btf__get_map_kv_tids b map_name ks vs = Some (Inr (key, val))"
  shows "\<exists>tid t. type_named b tid (take 255 (container_name map_name)) \<and> btf__type_by_id b tid = Some (Some t)
    \<and> btf_kind b t = Some BTF_KIND_STRUCT \<and> member_type b t 0 = Some key \<and> member_type b t 1 = Some val
    \<and> has_size b key (unat ks) \<and> has_size b val (unat vs)"
proof -
  obtain cid t vl where c: "btf__find_by_name b (take 255 (container_name map_name)) = Some cid" "0 \<le> cid"
    "btf__type_by_id b (of_int cid) = Some (Some t)" "btf_kind b t = Some BTF_KIND_STRUCT" "member_type b t 0 = Some key"
    "member_type b t 1 = Some val" "btf__resolve_size b key = Some (uint ks)" "btf__resolve_size b val = Some (uint vs)"
    using assms by (auto simp: btf__get_map_kv_tids_def split: if_splits Option.bind_splits option.splits)
  have "take 255 (container_name map_name) \<noteq> str_bytes ''void''"
    by (simp add: container_name_def str_bytes_def)
  then have "btf_find_loop (unat (nr_types b)) 1 b (take 255 (container_name map_name)) = Some cid"
    using c(1) by (simp add: btf__find_by_name_def)
  from btf_find_loop_sound [OF this _ c(2)]
  have "type_named b (of_int cid) (take 255 (container_name map_name))" by auto
  moreover have "has_size b key (unat ks)" "has_size b val (unat vs)"
    using btf_resolve_size_sound [OF c(7)] btf_resolve_size_sound [OF c(8)] by simp_all
  ultimately show ?thesis using c by blast
qed

section \<open>Properties\<close>

text \<open>A blob with an integer type, a typedef of it, an array of three of these, and the container of the
  map \<open>m\<close> with the integer as key and the array as value.\<close>

definition sample_types :: bytes where
  "sample_types =
     le_of_word 4 (1 :: u32) @ le_of_word 4 (0x01000000 :: u32) @ le_of_word 4 (4 :: u32) @ le_of_word 4 (32 :: u32) @
     le_of_word 4 (5 :: u32) @ le_of_word 4 (0x08000000 :: u32) @ le_of_word 4 (1 :: u32) @
     le_of_word 4 (0 :: u32) @ le_of_word 4 (0x03000000 :: u32) @ le_of_word 4 (0 :: u32) @
       le_of_word 4 (2 :: u32) @ le_of_word 4 (1 :: u32) @ le_of_word 4 (3 :: u32) @
     le_of_word 4 (7 :: u32) @ le_of_word 4 (0x04000002 :: u32) @ le_of_word 4 (16 :: u32) @
       le_of_word 4 (0 :: u32) @ le_of_word 4 (1 :: u32) @ le_of_word 4 (0 :: u32) @
       le_of_word 4 (0 :: u32) @ le_of_word 4 (3 :: u32) @ le_of_word 4 (32 :: u32)"

definition sample_blob :: bytes where
  "sample_blob =
     le_of_word 2 (0xeB9F :: u16) @ [1, 0] @ le_of_word 4 (24 :: u32) @ le_of_word 4 (0 :: u32) @ le_of_word 4 (88 :: u32) @
     le_of_word 4 (88 :: u32) @ le_of_word 4 (21 :: u32) @ sample_types @
     [0] @ str_bytes ''int'' @ [0] @ str_bytes ''t'' @ [0] @ str_bytes ''____btf_map_m'' @ [0]"

lemma sample_len: "length sample_blob = 133"
  by code_simp

lemma sample_new: "case btf__new True True (\<lambda>_. True) sample_blob 133 of
    Some (Inr b) \<Rightarrow> btf_data b = sample_blob \<and> btf_strings b = 112 \<and> nr_types b = 4 \<and> btf__get_map_kv_tids b (str_bytes ''m'') 4 12 = Some (Inr (1, 3))
  | _ \<Rightarrow> False"
  by code_simp

text \<open>Reading the type section stays inside the blob when seven bytes follow it.\<close>

lemma btf_type_loop_defined:
  assumes "btf_table b ts" "fin + 7 \<le> length (btf_data b)"
  shows "btf_type_loop r off fin b \<noteq> None"
  using assms
proof (induction r off fin b arbitrary: ts rule: btf_type_loop.induct)
  case (1 r off fin b)
  show ?case
  proof (cases "off < fin")
    case True
    then obtain info where info: "t_info b (Btf_at off) = Some info"
      using 1(3) by (simp add: t_info_def load32_def load_def)
    obtain e b1 where add: "btf_add_type r b (Btf_at off) = Some (e, b1)" "btf_same_blob b b1"
      "e = 0 \<Longrightarrow> btf_table b1 (ts @ [Btf_at off])"
      using btf_add_type_table [OF 1(2), where r = r and t = "Btf_at off"] by (auto split: option.splits if_splits)
    show ?thesis
    proof (cases "btf_type_size info < 0 \<or> e \<noteq> 0")
      case False
      then have "btf_type_loop r (off + nat (btf_type_size info)) fin b1 \<noteq> None"
        using 1(1) [OF True info _ add(1) refl _ add(3)] add(2) 1(3) by (simp add: btf_same_blob_def)
      then show ?thesis using True info add False by (subst btf_type_loop.simps) simp
    qed (use True info add in \<open>auto simp: btf_type_loop.simps [of r off]\<close>)
  qed (simp add: btf_type_loop.simps)
qed

lemma btf_new_defined:
  assumes "unat sz \<le> length data" "24 \<le> unat sz" "hdr_str_off data = Some str_off" "hdr_str_len data = Some str_len"
    and "24 + unat str_off + unat str_len \<le> unat sz" "7 \<le> unat str_len"
  shows "btf__new c m r data sz \<noteq> None"
proof -
  define b0 where "b0 = \<lparr>btf_data = take (unat sz) data, btf_types = [], btf_strings = 0, btf_nohdr_data = 0, nr_types = 0,
      types_size = 0, btf_data_size = sz, btf_fd = -1\<rparr>"
  have len: "length (btf_data b0) = unat sz" using assms(1) by (simp add: b0_def)
  have off: "hdr_str_off (btf_data b0) = Some str_off" "hdr_str_len (btf_data b0) = Some str_len"
    using assms(1-4) by (auto simp: b0_def hdr_str_off_def hdr_str_len_def load32_def load_def drop_take min_def split: if_splits)
  have "btf_parse_hdr b0 \<noteq> None"
    using len assms(2) off
    by (simp add: btf_parse_hdr_def hdr_magic_def hdr_version_def hdr_flags_def hdr_type_off_def load16_def load32_def load_def arr_get_def
        Let_def del: not_None_eq)
  then obtain e1 b1 where p1: "btf_parse_hdr b0 = Some (e1, b1)" by auto
  have b1: "b1 = b0\<lparr>btf_nohdr_data := 24\<rparr>" if "e1 = 0" using btf_parse_hdr_ok [of b0 b1] p1 that by blast
  have "btf_parse_str_sec b1 \<noteq> None" if "e1 = 0"
    using b1 [OF that] off assms(5,6) len by (auto simp: btf_parse_str_sec_def Let_def arr_get_def split: Option.bind_splits)
  then obtain e2 b2 where p2: "e1 = 0 \<Longrightarrow> btf_parse_str_sec b1 = Some (e2, b2)" by fastforce
  have b2: "b2 = b0\<lparr>btf_nohdr_data := 24, btf_strings := 24 + unat str_off\<rparr>" if "e1 = 0" "e2 = 0"
    using btf_parse_str_sec_ok [of b1 b2] p2 b1 that off by auto
  have "btf_parse_type_sec r b2 \<noteq> None" if "e1 = 0" "e2 = 0"
  proof -
    have "btf_table b2 []" by (simp add: b2 [OF that] b0_def btf_table_def)
    moreover obtain ty where "hdr_type_off (btf_data b0) = Some ty"
      using len assms(2) by (simp add: hdr_type_off_def load32_def load_def)
    ultimately show ?thesis
      using btf_type_loop_defined [of b2 "[]" "24 + unat str_off"] b2 [OF that] off len assms(5,6)
      by (simp add: btf_parse_type_sec_def)
  qed
  then show ?thesis using p1 p2 assms(1) by (auto simp: btf__new_def load_def b0_def)
qed

text \<open>The length of the string section is never compared with the size of the blob.\<close>

definition bad_blob :: bytes where
  "bad_blob = take 20 sample_blob @ le_of_word 4 (1000 :: u32) @ drop 24 sample_blob"

lemma btf_new_reads_past_blob: "length bad_blob = 133 \<and> btf__new True True (\<lambda>_. True) bad_blob 133 = None"
proof -
  have "length bad_blob = 133" by (simp add: bad_blob_def sample_len)
  moreover have "case btf__new True True (\<lambda>_. True) bad_blob 133 of None \<Rightarrow> True | _ \<Rightarrow> False" by code_simp
  ultimately show ?thesis by (simp split: option.splits)
qed

lemma sample_btf:
  obtains b where "btf__new True True (\<lambda>_. True) sample_blob 133 = Some (Inr b)" "btf_data b = sample_blob" "btf_strings b = 112" "nr_types b = 4"
    "btf__get_map_kv_tids b (str_bytes ''m'') 4 12 = Some (Inr (1, 3))"
  using sample_new by (auto split: option.splits sum.splits)

text \<open>C39: a blob that \<open>btf__new\<close> accepts has a complete table of types: its type section is a chain of records,
  each starting where the one before ends and each of one of the fifteen kinds, and looking up any
  32-bit id is defined: id zero is the void type, the ids from one are the records in their order, every other id
  gives the null pointer.\<close>

theorem btf_new_type_table:
  assumes "btf__new calloc_ok malloc_ok realloc_ok data sz = Some (Inr b)"
  shows "\<exists>type_off str_off os.
      hdr_type_off (btf_data b) = Some type_off \<and> hdr_str_off (btf_data b) = Some str_off
    \<and> type_chain (btf_data b) (24 + unat type_off) (24 + unat str_off) = Some os
    \<and> unat (btf__get_nr_types b) = length os \<and> os \<noteq> []
    \<and> (\<forall>p\<in>set os. \<exists>k\<in>{1..15}. btf_kind b (Btf_at p) = Some k)
    \<and> (\<forall>tid. btf__type_by_id b tid = Some (if tid = 0 then Some Btf_void
         else if unat tid \<le> length os then Some (Btf_at (os ! (unat tid - 1))) else None))"
proof -
  from btf_new_chain [OF assms] obtain type_off str_off os where h: "hdr_type_off (btf_data b) = Some type_off"
    "hdr_str_off (btf_data b) = Some str_off" and os: "type_chain (btf_data b) (24 + unat type_off) (24 + unat str_off) = Some os"
    "os \<noteq> []" "btf_table b (map Btf_at os)" .
  have "btf__type_by_id b tid = Some (if tid = 0 then Some Btf_void
       else if unat tid \<le> length os then Some (Btf_at (os ! (unat tid - 1))) else None)" for tid
  proof -
    have "map Btf_at os ! (unat tid - 1) = Btf_at (os ! (unat tid - 1))" if "tid \<noteq> 0" "unat tid \<le> length os"
      using that unat_gt_0 [of tid] by (intro nth_map) linarith
    then show ?thesis using btf_table_type_by_id [OF os(3), of tid] os(2) by simp
  qed
  moreover have "\<exists>k\<in>{1..15}. btf_kind b (Btf_at p) = Some k" if "p \<in> set os" for p
    using type_chain_bounds [OF os(1) that] by (auto simp: btf_kind_def t_info_def dest: btf_type_size_kind)
  moreover have "unat (btf__get_nr_types b) = length os" using btf_table_nr [OF os(3)] by (simp add: btf__get_nr_types_def)
  ultimately show ?thesis using h os by blast
qed

theorem btf_new_type_table_witness:
  "\<exists>b os. btf__new True True (\<lambda>_. True) sample_blob 133 = Some (Inr b) \<and> length os = 4
    \<and> btf__type_by_id b 4 = Some (Some (Btf_at (os ! 3))) \<and> btf__type_by_id b 5 = Some None"
proof -
  obtain b where b: "btf__new True True (\<lambda>_. True) sample_blob 133 = Some (Inr b)" "nr_types b = 4" by (rule sample_btf)
  show ?thesis using btf_new_type_table [OF b(1)] b by (auto simp: btf__get_nr_types_def intro: exI [of _ b])
qed

text \<open>when the key and value types of a map are found, they are the types of the first two members of a structure
  with the name of the map's container, and their sizes, arrays multiplied out without a bound, are exactly the
  sizes of the map's keys and values: no product wrapped around on the way.\<close>

lemma btf_map_kv_sound:
  assumes "btf__get_map_kv_tids b map_name ks vs = Some (Inr (key, val))"
  shows "\<exists>tid t. type_named b tid (take 255 (container_name map_name)) \<and> btf__type_by_id b tid = Some (Some t)
    \<and> btf_kind b t = Some BTF_KIND_STRUCT \<and> member_type b t 0 = Some key \<and> member_type b t 1 = Some val
    \<and> has_size b key (unat ks) \<and> has_size b val (unat vs)"
  using assms by (rule btf_map_kv_container)

lemma btf_map_kv_sound_example:
  "\<exists>b. btf_data b = sample_blob \<and> has_size b 1 4 \<and> has_size b 3 12"
proof -
  obtain b where b: "btf_data b = sample_blob" "btf__get_map_kv_tids b (str_bytes ''m'') 4 12 = Some (Inr (1, 3))" by (rule sample_btf)
  show ?thesis using btf_map_kv_sound [OF b(2)] b(1) by auto
qed

end
