(* ===== verification/Btf_Query.thy ===== *)
theory Btf_Query
  imports Btf
begin

text \<open>
  The accessors of \<^verbatim>\<open>eBPF_app/libbpf/src/btf.h\<close> and \<^verbatim>\<open>include/uapi/linux/btf.h\<close> that the readers of type
  information in \<^verbatim>\<open>libbpf.c\<close> share: members with their bit offsets, integers, names as strings, and
  \<^verbatim>\<open>skip_mods_and_typedefs\<close>. A name is read up to its terminating zero; the last byte of the string section is
  zero in every blob that \<^verbatim>\<open>btf__new\<close> accepts.
\<close>

unbundle bit_operations_syntax

section \<open>Accessors\<close>

definition BTF_INFO_KFLAG :: "u32 \<Rightarrow> u32" where "BTF_INFO_KFLAG info = drop_bit 31 info"
definition BTF_INT_ENCODING :: "u32 \<Rightarrow> u32" where "BTF_INT_ENCODING v = drop_bit 24 (v AND 0x0f000000)"
definition BTF_INT_OFFSET :: "u32 \<Rightarrow> u32" where "BTF_INT_OFFSET v = drop_bit 16 (v AND 0x00ff0000)"
definition BTF_INT_BITS :: "u32 \<Rightarrow> u32" where "BTF_INT_BITS v = v AND 0x000000ff"
definition BTF_INT_SIGNED :: u32 where "BTF_INT_SIGNED = 1"
definition BTF_MEMBER_BITFIELD_SIZE :: "u32 \<Rightarrow> u32" where "BTF_MEMBER_BITFIELD_SIZE v = drop_bit 24 v"
definition BTF_MEMBER_BIT_OFFSET :: "u32 \<Rightarrow> u32" where "BTF_MEMBER_BIT_OFFSET v = v AND 0xffffff"

definition btf_kflag :: "btf \<Rightarrow> btf_ptr \<Rightarrow> bool option" where
  "btf_kflag b t = map_option (\<lambda>info. BTF_INFO_KFLAG info \<noteq> 0) (t_info b t)"

definition btf_is_mod :: "btf \<Rightarrow> btf_ptr \<Rightarrow> bool option" where
  "btf_is_mod b t = map_option (\<lambda>k. k = BTF_KIND_VOLATILE \<or> k = BTF_KIND_CONST \<or> k = BTF_KIND_RESTRICT) (btf_kind b t)"

definition btf_is_typedef :: "btf \<Rightarrow> btf_ptr \<Rightarrow> bool option" where
  "btf_is_typedef b t = map_option (\<lambda>k. k = BTF_KIND_TYPEDEF) (btf_kind b t)"

definition btf_is_composite :: "btf \<Rightarrow> btf_ptr \<Rightarrow> bool option" where
  "btf_is_composite b t = map_option (\<lambda>k. k = BTF_KIND_STRUCT \<or> k = BTF_KIND_UNION) (btf_kind b t)"

definition btf_is_array :: "btf \<Rightarrow> btf_ptr \<Rightarrow> bool option" where
  "btf_is_array b t = map_option (\<lambda>k. k = BTF_KIND_ARRAY) (btf_kind b t)"

definition btf_is_ptr :: "btf \<Rightarrow> btf_ptr \<Rightarrow> bool option" where
  "btf_is_ptr b t = map_option (\<lambda>k. k = BTF_KIND_PTR) (btf_kind b t)"

definition btf_is_struct :: "btf \<Rightarrow> btf_ptr \<Rightarrow> bool option" where
  "btf_is_struct b t = map_option (\<lambda>k. k = BTF_KIND_STRUCT) (btf_kind b t)"

definition btf_is_enum :: "btf \<Rightarrow> btf_ptr \<Rightarrow> bool option" where
  "btf_is_enum b t = map_option (\<lambda>k. k = BTF_KIND_ENUM) (btf_kind b t)"

definition btf_is_var :: "btf \<Rightarrow> btf_ptr \<Rightarrow> bool option" where
  "btf_is_var b t = map_option (\<lambda>k. k = BTF_KIND_VAR) (btf_kind b t)"

definition btf_is_datasec :: "btf \<Rightarrow> btf_ptr \<Rightarrow> bool option" where
  "btf_is_datasec b t = map_option (\<lambda>k. k = BTF_KIND_DATASEC) (btf_kind b t)"

text \<open>The word that follows an integer type, and the members that follow a structure.\<close>

definition btf_int_encoding :: "btf \<Rightarrow> btf_ptr \<Rightarrow> u32 option" where
  "btf_int_encoding b t = map_option BTF_INT_ENCODING (btf_field b t BTF_TYPE)"

definition btf_int_offset :: "btf \<Rightarrow> btf_ptr \<Rightarrow> u32 option" where
  "btf_int_offset b t = map_option BTF_INT_OFFSET (btf_field b t BTF_TYPE)"

definition btf_int_bits :: "btf \<Rightarrow> btf_ptr \<Rightarrow> u32 option" where
  "btf_int_bits b t = map_option BTF_INT_BITS (btf_field b t BTF_TYPE)"

definition member_name_off :: "btf \<Rightarrow> btf_ptr \<Rightarrow> u32 \<Rightarrow> u32 option" where
  "member_name_off b t i = btf_field b t (BTF_TYPE + 12 * unat i)"

definition member_offset :: "btf \<Rightarrow> btf_ptr \<Rightarrow> u32 \<Rightarrow> u32 option" where
  "member_offset b t i = btf_field b t (BTF_TYPE + 12 * unat i + 8)"

definition btf_member_bit_offset :: "btf \<Rightarrow> btf_ptr \<Rightarrow> u32 \<Rightarrow> u32 option" where
  "btf_member_bit_offset b t i = do {
     kflag \<leftarrow> btf_kflag b t;
     off \<leftarrow> member_offset b t i;
     Some (if kflag then BTF_MEMBER_BIT_OFFSET off else off)
   }"

definition btf_member_bitfield_size :: "btf \<Rightarrow> btf_ptr \<Rightarrow> u32 \<Rightarrow> u32 option" where
  "btf_member_bitfield_size b t i = do {
     kflag \<leftarrow> btf_kflag b t;
     off \<leftarrow> member_offset b t i;
     Some (if kflag then BTF_MEMBER_BITFIELD_SIZE off else 0)
   }"

section \<open>Names\<close>

text \<open>A string in memory, up to its terminating zero.\<close>

fun c_str_from :: "bytes \<Rightarrow> bytes option" where
  "c_str_from [] = None"
| "c_str_from (c # cs) = (if c = 0 then Some [] else map_option ((#) c) (c_str_from cs))"

definition c_str :: "bytes \<Rightarrow> nat \<Rightarrow> bytes option" where "c_str m p = c_str_from (drop p m)"

text \<open>The string a name offset stands for; inner \<open>None\<close> is the null pointer.\<close>

definition btf_name :: "btf \<Rightarrow> u32 \<Rightarrow> bytes option option" where
  "btf_name b off = do {
     p \<leftarrow> btf__name_by_offset b off;
     (case p of None \<Rightarrow> Some None | Some p \<Rightarrow> map_option Some (c_str (btf_data b) p))
   }"

definition str_is_empty :: "bytes option \<Rightarrow> bool" where
  "str_is_empty s \<longleftrightarrow> s = None \<or> s = Some []"

section \<open>Skipping modifiers\<close>

text \<open>A type id outside the table gives a null pointer, which the test of the loop reads: the result is never a null pointer.
  A chain of modifiers that returns to itself has no result.\<close>

partial_function (option) skip_loop :: "btf \<Rightarrow> btf_ptr option \<Rightarrow> u32 \<Rightarrow> (btf_ptr option \<times> u32) option" where
  "skip_loop b t res_id = do {
     p \<leftarrow> t;
     m \<leftarrow> btf_is_mod b p;
     d \<leftarrow> btf_is_typedef b p;
     if m \<or> d then do {
       target \<leftarrow> t_type b p;
       t \<leftarrow> btf__type_by_id b target;
       skip_loop b t target
     }
     else Some (t, res_id)
   }"

text \<open>The same with the tests as case distinctions, for evaluation.\<close>

lemma skip_loop_code [code]:
  "skip_loop b t res_id = (case t of None \<Rightarrow> None | Some p \<Rightarrow> (case btf_kind b p of None \<Rightarrow> None | Some k \<Rightarrow>
     if k = BTF_KIND_VOLATILE \<or> k = BTF_KIND_CONST \<or> k = BTF_KIND_RESTRICT \<or> k = BTF_KIND_TYPEDEF then
       (case t_type b p of None \<Rightarrow> None | Some target \<Rightarrow>
         (case btf__type_by_id b target of None \<Rightarrow> None | Some t' \<Rightarrow> skip_loop b t' target))
     else Some (t, res_id)))"
  by (subst skip_loop.simps) (auto simp: btf_is_mod_def btf_is_typedef_def split: option.splits)

definition skip_mods_and_typedefs :: "btf \<Rightarrow> u32 \<Rightarrow> (btf_ptr option \<times> u32) option" where
  "skip_mods_and_typedefs b type_id = do {
     t \<leftarrow> btf__type_by_id b type_id;
     skip_loop b t type_id
   }"

lemma skip_loop_result:
  assumes "skip_loop b t i = Some (t', i')"
  shows "\<exists>p k. t' = Some p \<and> btf_kind b p = Some k
    \<and> k \<notin> {BTF_KIND_VOLATILE, BTF_KIND_CONST, BTF_KIND_RESTRICT, BTF_KIND_TYPEDEF}
    \<and> (t' = t \<and> i' = i \<or> btf__type_by_id b i' = Some (Some p))"
proof -
  define P where "P = (\<lambda>t i r. \<exists>p k. fst r = Some p \<and> btf_kind b p = Some k
    \<and> k \<notin> {BTF_KIND_VOLATILE, BTF_KIND_CONST, BTF_KIND_RESTRICT, BTF_KIND_TYPEDEF}
    \<and> (fst r = t \<and> snd r = i \<or> btf__type_by_id b (snd r) = Some (Some p)))"
  have "b = b \<longrightarrow> P t i (t', i')"
  proof (rule skip_loop.raw_induct [where P = "\<lambda>b' t i r. b' = b \<longrightarrow> P t i r", OF _ assms], goal_cases)
    case (1 f b' t i r)
    show ?case
    proof
      assume eq: "b' = b"
      obtain p m d where p: "t = Some p" "btf_is_mod b p = Some m" "btf_is_typedef b p = Some d"
        using 1(2) eq by (auto split: Option.bind_splits)
      show "P t i r"
      proof (cases "m \<or> d")
        case True
        then obtain target t1 where "btf__type_by_id b target = Some t1" "f b t1 target = Some r"
          using 1(2) p eq by (auto split: Option.bind_splits)
        then show ?thesis using 1(1) [of b t1 target r] by (auto simp: P_def)
      next
        case False
        then have "r = (t, i)" using 1(2) p eq by simp
        then show ?thesis using p False by (auto simp: P_def btf_is_mod_def btf_is_typedef_def)
      qed
    qed
  qed
  then show ?thesis by (simp add: P_def)
qed

text \<open>What a successful call gives: a type of the table that is neither modifier nor typedef.\<close>

lemma skip_mods_result:
  assumes "skip_mods_and_typedefs b i = Some (t, i')"
  obtains p k where "t = Some p" "btf__type_by_id b i' = Some (Some p)" "btf_kind b p = Some k"
    "k \<notin> {BTF_KIND_VOLATILE, BTF_KIND_CONST, BTF_KIND_RESTRICT, BTF_KIND_TYPEDEF}"
  using assms skip_loop_result
  by (fastforce simp: skip_mods_and_typedefs_def split: Option.bind_splits)

lemma skip_mods_not_null: "skip_mods_and_typedefs b i \<noteq> Some (None, i')"
  by (metis skip_mods_result option.distinct(1))

lemma skip_loop_stop:
  assumes "btf_kind b p = Some k" "k \<notin> {BTF_KIND_VOLATILE, BTF_KIND_CONST, BTF_KIND_RESTRICT, BTF_KIND_TYPEDEF}"
  shows "skip_loop b (Some p) i = Some (Some p, i)"
  using assms by (subst skip_loop.simps) (simp add: btf_is_mod_def btf_is_typedef_def)

text \<open>Skipping twice is skipping once.\<close>

lemma skip_mods_idem:
  assumes "skip_mods_and_typedefs b i = Some (t, i')"
  shows "skip_mods_and_typedefs b i' = Some (t, i')"
proof -
  obtain p k where "t = Some p" "btf__type_by_id b i' = Some (Some p)" "btf_kind b p = Some k"
    "k \<notin> {BTF_KIND_VOLATILE, BTF_KIND_CONST, BTF_KIND_RESTRICT, BTF_KIND_TYPEDEF}"
    by (rule skip_mods_result [OF assms])
  then show ?thesis using skip_loop_stop [of b p k i'] by (simp add: skip_mods_and_typedefs_def)
qed

text \<open>An id outside the table ends in reading through the null pointer, whatever the caller checks afterwards.\<close>

lemma skip_mods_bad_id: "type_id > nr_types b \<Longrightarrow> skip_mods_and_typedefs b type_id = None"
  by (subst skip_mods_and_typedefs_def, subst skip_loop.simps) (simp add: btf__type_by_id_def)

section \<open>Chains that end\<close>

text \<open>\<open>skips b i p r\<close>: the chain of modifiers from \<open>i\<close> ends at the type \<open>p\<close> with the id \<open>r\<close>.\<close>

inductive skips :: "btf \<Rightarrow> u32 \<Rightarrow> btf_ptr \<Rightarrow> u32 \<Rightarrow> bool" for b where
  skips_stop: "btf__type_by_id b i = Some (Some p) \<Longrightarrow> btf_kind b p = Some k
    \<Longrightarrow> k \<notin> {BTF_KIND_VOLATILE, BTF_KIND_CONST, BTF_KIND_RESTRICT, BTF_KIND_TYPEDEF} \<Longrightarrow> skips b i p i"
| skips_step: "btf__type_by_id b i = Some (Some p) \<Longrightarrow> btf_kind b p = Some k
    \<Longrightarrow> k \<in> {BTF_KIND_VOLATILE, BTF_KIND_CONST, BTF_KIND_RESTRICT, BTF_KIND_TYPEDEF}
    \<Longrightarrow> t_type b p = Some j \<Longrightarrow> skips b j q r \<Longrightarrow> skips b i q r"

text \<open>On such a chain the function returns, with the end of the chain.\<close>

lemma skip_mods_returns:
  assumes "skips b i p r"
  shows "skip_mods_and_typedefs b i = Some (Some p, r)"
  using assms
proof (induction rule: skips.induct)
  case (skips_stop i p k)
  then show ?case using skip_loop_stop [of b p k i] by (simp add: skip_mods_and_typedefs_def)
next
  case (skips_step i p k j q r)
  then obtain t where "btf__type_by_id b j = Some t" "skip_loop b t j = Some (Some q, r)"
    by (auto simp: skip_mods_and_typedefs_def split: Option.bind_splits)
  moreover have "(case btf_is_mod b p of Some m \<Rightarrow> case btf_is_typedef b p of Some d \<Rightarrow> m \<or> d)"
    using skips_step by (auto simp: btf_is_mod_def btf_is_typedef_def)
  ultimately show ?case using skips_step(1-4)
    by (auto simp: skip_mods_and_typedefs_def skip_loop.simps [of b "Some p"] btf_is_mod_def btf_is_typedef_def)
qed

end
