(* ===== verification/Core_Spec.thy ===== *)
theory Core_Spec
  imports Btf_Query
begin

text \<open>
  \<^verbatim>\<open>eBPF_app/libbpf/src/libbpf.c\<close>: describing a field of a type and finding it again in another type. An access
  string such as \<open>0:1:2\<close> is parsed against the type information of the program (\<^verbatim>\<open>bpf_core_spec_parse\<close>), and matched
  by the names of its fields against a type of the kernel (\<^verbatim>\<open>bpf_core_match_member\<close>, \<^verbatim>\<open>bpf_core_spec_match\<close>).
  What both compute is stated with the relation \<open>walk\<close>, which is what an access path means in C: the bit offset of the
  field, and the names and indices one would write in C.
\<close>

unbundle bit_operations_syntax

section \<open>Specifications\<close>

definition BPF_CORE_SPEC_MAX_LEN :: nat where "BPF_CORE_SPEC_MAX_LEN = 64"

record bpf_core_accessor =
  acc_type_id :: u32
  acc_idx :: u32
  acc_name :: "bytes option"

definition zero_acc :: bpf_core_accessor where "zero_acc = \<lparr>acc_type_id = 0, acc_idx = 0, acc_name = None\<rparr>"

record bpf_core_spec =
  cs_spec :: "bpf_core_accessor list"
  cs_len :: nat
  cs_raw_spec :: "int list"
  cs_raw_len :: nat
  cs_bit_offset :: u32

definition zero_spec :: bpf_core_spec where
  "zero_spec = \<lparr>cs_spec = replicate BPF_CORE_SPEC_MAX_LEN zero_acc, cs_len = 0,
     cs_raw_spec = replicate BPF_CORE_SPEC_MAX_LEN 0, cs_raw_len = 0, cs_bit_offset = 0\<rparr>"

text \<open>\<open>spec->spec[spec->len++] = acc\<close> and \<open>spec->raw_spec[spec->raw_len++] = i\<close>.\<close>

definition push_acc :: "bpf_core_accessor \<Rightarrow> bpf_core_spec \<Rightarrow> bpf_core_spec option" where
  "push_acc acc spec = do {
     accs \<leftarrow> arr_set (cs_spec spec) (cs_len spec) acc;
     Some (spec\<lparr>cs_spec := accs, cs_len := cs_len spec + 1\<rparr>)
   }"

definition push_raw :: "int \<Rightarrow> bpf_core_spec \<Rightarrow> bpf_core_spec option" where
  "push_raw i spec = do {
     raw \<leftarrow> arr_set (cs_raw_spec spec) (cs_raw_len spec) i;
     Some (spec\<lparr>cs_raw_spec := raw, cs_raw_len := cs_raw_len spec + 1\<rparr>)
   }"

definition add_bits :: "u32 \<Rightarrow> bpf_core_spec \<Rightarrow> bpf_core_spec" where
  "add_bits n spec = spec\<lparr>cs_bit_offset := cs_bit_offset spec + n\<rparr>"

section \<open>Parsing an access string\<close>

text \<open>\<open>sscanf(s, "%d%n", ...)\<close>: white space, a sign and digits; inner \<open>None\<close> when nothing was converted, else the
  number and the characters read. A number outside the type has no defined result.\<close>

definition is_space :: "u8 \<Rightarrow> bool" where "is_space c \<longleftrightarrow> c = 32 \<or> 9 \<le> c \<and> c \<le> 13"
definition is_digit :: "u8 \<Rightarrow> bool" where "is_digit c \<longleftrightarrow> 48 \<le> c \<and> c \<le> 57"

definition digits_value :: "bytes \<Rightarrow> nat" where
  "digits_value ds = foldl (\<lambda>n c. 10 * n + (unat c - 48)) 0 ds"

definition sscanf_d :: "bytes \<Rightarrow> (int \<times> nat) option option" where
  "sscanf_d s =
     (let s1 = dropWhile is_space s;
          signed = (s1 \<noteq> [] \<and> hd s1 \<in> {43, 45});
          s2 = (if signed then tl s1 else s1);
          ds = takeWhile is_digit s2;
          v = (if signed \<and> hd s1 = 45 then - int (digits_value ds) else int (digits_value ds))
      in if ds = [] then Some None
         else if v < - (2 ^ 31) \<or> 2 ^ 31 \<le> v then None
         else Some (Some (v, length s - length (dropWhile is_digit s2))))"

lemma sscanf_d_progress:
  assumes "sscanf_d s = Some (Some (v, n))"
  shows "0 < n" "n \<le> length s"
proof -
  obtain s2 where n: "n = length s - length (dropWhile is_digit s2)" "takeWhile is_digit s2 \<noteq> []" "length s2 \<le> length (dropWhile is_space s)"
    using assms by (auto simp: sscanf_d_def Let_def split: if_splits)
  moreover have "length (takeWhile is_digit s2) + length (dropWhile is_digit s2) = length s2"
    by (metis length_append takeWhile_dropWhile_id)
  moreover have "length (dropWhile is_space s) \<le> length s" by (rule length_dropWhile_le)
  moreover have "0 < length (takeWhile is_digit s2)" using n(2) by simp
  ultimately show "0 < n" "n \<le> length s" by linarith+
qed

definition skip_colon :: "bytes \<Rightarrow> bytes" where
  "skip_colon s = (if s \<noteq> [] \<and> hd s = 58 then tl s else s)"

function parse_raw_spec :: "bytes \<Rightarrow> bpf_core_spec \<Rightarrow> (int + bpf_core_spec) option" where
  "parse_raw_spec s spec =
     (if s = [] then Some (Inr spec)
      else (case sscanf_d (skip_colon s) of
         None \<Rightarrow> None
       | Some None \<Rightarrow> Some (Inl (- EINVAL))
       | Some (Some (access_idx, parsed_len)) \<Rightarrow>
           if cs_raw_len spec = BPF_CORE_SPEC_MAX_LEN then Some (Inl (- E2BIG))
           else (case push_raw access_idx spec of
              None \<Rightarrow> None
            | Some spec \<Rightarrow> parse_raw_spec (drop parsed_len (skip_colon s)) spec)))"
  by pat_completeness auto
termination
proof (relation "measure (\<lambda>(s, spec). length s)")
  show "((drop n (skip_colon s), spec'), (s, spec)) \<in> measure (\<lambda>(s, spec). length s)"
    if "s \<noteq> []" "sscanf_d (skip_colon s) = Some r" "r = Some y" "(v, n) = y" for s spec spec' r y v n
  proof -
    have "length (skip_colon s) \<le> length s" by (simp add: skip_colon_def)
    then show ?thesis using that sscanf_d_progress [of "skip_colon s" v n] by auto
  qed
qed auto

declare parse_raw_spec.simps [simp del]

text \<open>Arithmetic of the type \<^verbatim>\<open>__s64\<close>, where an overflow is undefined, and of \<^verbatim>\<open>int\<close> from \<^verbatim>\<open>__s64\<close>.\<close>

definition s64 :: "int \<Rightarrow> int option" where
  "s64 v = (if - (2 ^ 63) \<le> v \<and> v < 2 ^ 63 then Some v else None)"

definition to_s32 :: "int \<Rightarrow> int" where "to_s32 v = sint (of_int v :: u32)"

text \<open>One round of the loop that interprets the numbers: \<open>Inl\<close> returns, \<open>Inr\<close> goes on with the id of the next type.
  The comparison with the number of members is one of signed integers; the one with the number of elements is unsigned.\<close>

definition parse_step :: "btf \<Rightarrow> int \<Rightarrow> u32 \<Rightarrow> bpf_core_spec \<Rightarrow> (int + u32 \<times> bpf_core_spec) option" where
  "parse_step b access_idx type_id spec = do {
     (t, type_id) \<leftarrow> skip_mods_and_typedefs b type_id;
     (case t of
        None \<Rightarrow> Some (Inl (- EINVAL))
      | Some t \<Rightarrow> do {
          composite \<leftarrow> btf_is_composite b t;
          arr \<leftarrow> btf_is_array b t;
          vlen \<leftarrow> btf_vlen b t;
          if composite then
            (if access_idx \<ge> uint vlen then Some (Inl (- EINVAL))
             else do {
               let i = of_int access_idx;
               bit_offset \<leftarrow> btf_member_bit_offset b t i;
               let spec = add_bits bit_offset spec;
               name_off \<leftarrow> member_name_off b t i;
               next_id \<leftarrow> member_type b t (unat i);
               if name_off \<noteq> 0 then do {
                 name \<leftarrow> btf_name b name_off;
                 if str_is_empty name then Some (Inl (- EINVAL))
                 else do {
                   spec \<leftarrow> push_acc \<lparr>acc_type_id = type_id, acc_idx = i, acc_name = name\<rparr> spec;
                   Some (Inr (next_id, spec))
                 }
               }
               else Some (Inr (next_id, spec))
             })
          else if arr then do {
            elem \<leftarrow> array_type b t;
            nelems \<leftarrow> array_nelems b t;
            (t, type_id) \<leftarrow> skip_mods_and_typedefs b elem;
            if t = None \<or> of_int access_idx \<ge> nelems then Some (Inl (- EINVAL))
            else do {
              spec \<leftarrow> push_acc \<lparr>acc_type_id = type_id, acc_idx = of_int access_idx, acc_name = None\<rparr> spec;
              sz \<leftarrow> btf__resolve_size b type_id;
              if sz < 0 then Some (Inl sz)
              else do {
                off \<leftarrow> s64 (access_idx * sz * 8);
                Some (Inr (type_id, add_bits (of_int off) spec))
              }
            }
          }
          else Some (Inl (- EINVAL))
        })
   }"

fun parse_steps :: "btf \<Rightarrow> int list \<Rightarrow> u32 \<Rightarrow> bpf_core_spec \<Rightarrow> (int + bpf_core_spec) option" where
  "parse_steps b [] type_id spec = Some (Inr spec)"
| "parse_steps b (i # is) type_id spec = do {
     r \<leftarrow> parse_step b i type_id spec;
     (case r of Inl err \<Rightarrow> Some (Inl err) | Inr (type_id, spec) \<Rightarrow> parse_steps b is type_id spec)
   }"

definition bpf_core_spec_parse :: "btf \<Rightarrow> u32 \<Rightarrow> bytes option \<Rightarrow> (int + bpf_core_spec) option" where
  "bpf_core_spec_parse b type_id spec_str =
     (case spec_str of
        None \<Rightarrow> Some (Inl (- EINVAL))
      | Some s \<Rightarrow>
          if s = [] \<or> hd s = 58 then Some (Inl (- EINVAL))
          else do {
            r \<leftarrow> parse_raw_spec s zero_spec;
            (case r of
               Inl err \<Rightarrow> Some (Inl err)
             | Inr spec \<Rightarrow>
                 if cs_raw_len spec = 0 then Some (Inl (- EINVAL))
                 else do {
                   (t, type_id) \<leftarrow> skip_mods_and_typedefs b type_id;
                   if t = None then Some (Inl (- EINVAL))
                   else do {
                     access_idx \<leftarrow> arr_get (cs_raw_spec spec) 0;
                     spec \<leftarrow> push_acc \<lparr>acc_type_id = type_id, acc_idx = of_int access_idx, acc_name = None\<rparr> spec;
                     sz \<leftarrow> btf__resolve_size b type_id;
                     if sz < 0 then Some (Inl (to_s32 sz))
                     else do {
                       off \<leftarrow> s64 (access_idx * sz * 8);
                       parse_steps b (tl (take (cs_raw_len spec) (cs_raw_spec spec))) type_id (spec\<lparr>cs_bit_offset := of_int off\<rparr>)
                     }
                   }
                 })
          })"

section \<open>Names without their flavor\<close>

text \<open>\<open>bpf_core_is_flavor_sep s i\<close>: at \<open>i\<close> the name has a character, three underscores and another character. The name is
  followed by its terminating zero.\<close>

definition name_at :: "bytes \<Rightarrow> nat \<Rightarrow> u8" where "name_at s i = (if i < length s then s ! i else 0)"

definition bpf_core_is_flavor_sep :: "bytes \<Rightarrow> nat \<Rightarrow> bool" where
  "bpf_core_is_flavor_sep s i \<longleftrightarrow>
     name_at s i \<noteq> 95 \<and> name_at s (i + 1) = 95 \<and> name_at s (i + 2) = 95 \<and> name_at s (i + 3) = 95 \<and> name_at s (i + 4) \<noteq> 95"

text \<open>The loop from \<open>n - 5\<close> down; \<open>k\<close> positions are left.\<close>

fun flavor_loop :: "bytes \<Rightarrow> nat \<Rightarrow> nat" where
  "flavor_loop s 0 = length s"
| "flavor_loop s (Suc i) = (if bpf_core_is_flavor_sep s i then i + 1 else flavor_loop s i)"

definition bpf_core_essential_name_len :: "bytes \<Rightarrow> nat" where
  "bpf_core_essential_name_len s = flavor_loop s (length s - 4)"

definition essential :: "bytes \<Rightarrow> bytes" where "essential s = take (bpf_core_essential_name_len s) s"

text \<open>The comparison of two names up to their flavors: equal lengths and \<^verbatim>\<open>strncmp\<close>.\<close>

definition same_essential :: "bytes \<Rightarrow> bytes \<Rightarrow> bool" where
  "same_essential s s' \<longleftrightarrow> bpf_core_essential_name_len s = bpf_core_essential_name_len s' \<and>
     take (bpf_core_essential_name_len s) s = take (bpf_core_essential_name_len s) s'"

section \<open>Matching fields\<close>

text \<open>Two fields are compatible: 1, not compatible: 0, or an error. An array is followed to its elements; the null pointer of a
  name that is out of range is read.\<close>

partial_function (option) bpf_core_fields_are_compat :: "btf \<Rightarrow> u32 \<Rightarrow> btf \<Rightarrow> u32 \<Rightarrow> int option" where
  "bpf_core_fields_are_compat lb local_id tb targ_id = do {
     (lt, local_id) \<leftarrow> skip_mods_and_typedefs lb local_id;
     (tt, targ_id) \<leftarrow> skip_mods_and_typedefs tb targ_id;
     if lt = None \<or> tt = None then Some (- EINVAL)
     else do {
       local_type \<leftarrow> lt;
       targ_type \<leftarrow> tt;
       lc \<leftarrow> btf_is_composite lb local_type;
       tc \<leftarrow> btf_is_composite tb targ_type;
       lk \<leftarrow> btf_kind lb local_type;
       tk \<leftarrow> btf_kind tb targ_type;
       if lc \<and> tc then Some 1
       else if lk \<noteq> tk then Some 0
       else if lk = BTF_KIND_PTR then Some 1
       else if lk = BTF_KIND_FWD \<or> lk = BTF_KIND_ENUM then do {
         local_off \<leftarrow> t_name_off lb local_type;
         targ_off \<leftarrow> t_name_off tb targ_type;
         ln \<leftarrow> btf_name lb local_off;
         tn \<leftarrow> btf_name tb targ_off;
         local_name \<leftarrow> ln;
         targ_name \<leftarrow> tn;
         Some (if bpf_core_essential_name_len local_name = 0 \<or> bpf_core_essential_name_len targ_name = 0
                 \<or> same_essential local_name targ_name then 1 else 0)
       }
       else if lk = BTF_KIND_INT then do {
         lo \<leftarrow> btf_int_offset lb local_type;
         to \<leftarrow> btf_int_offset tb targ_type;
         Some (if lo = 0 \<and> to = 0 then 1 else 0)
       }
       else if lk = BTF_KIND_ARRAY then do {
         local_id \<leftarrow> array_type lb local_type;
         targ_id \<leftarrow> array_type tb targ_type;
         bpf_core_fields_are_compat lb local_id tb targ_id
       }
       else Some 0
     }
   }"

lemma bpf_core_fields_are_compat_code [code]:
  "bpf_core_fields_are_compat lb local_id tb targ_id =
     (case (skip_mods_and_typedefs lb local_id, skip_mods_and_typedefs tb targ_id) of
        (Some (Some lt, _), Some (Some tt, _)) \<Rightarrow>
          (case (btf_kind lb lt, btf_kind tb tt) of
             (Some lk, Some tk) \<Rightarrow>
               if (lk = BTF_KIND_STRUCT \<or> lk = BTF_KIND_UNION) \<and> (tk = BTF_KIND_STRUCT \<or> tk = BTF_KIND_UNION) then Some 1
               else if lk \<noteq> tk then Some 0
               else if lk = BTF_KIND_PTR then Some 1
               else if lk = BTF_KIND_FWD \<or> lk = BTF_KIND_ENUM then do {
                 local_off \<leftarrow> t_name_off lb lt;
                 targ_off \<leftarrow> t_name_off tb tt;
                 ln \<leftarrow> btf_name lb local_off;
                 tn \<leftarrow> btf_name tb targ_off;
                 local_name \<leftarrow> ln;
                 targ_name \<leftarrow> tn;
                 Some (if bpf_core_essential_name_len local_name = 0 \<or> bpf_core_essential_name_len targ_name = 0
                         \<or> same_essential local_name targ_name then 1 else 0)
               }
               else if lk = BTF_KIND_INT then do {
                 lo \<leftarrow> btf_int_offset lb lt;
                 to \<leftarrow> btf_int_offset tb tt;
                 Some (if lo = 0 \<and> to = 0 then 1 else 0)
               }
               else if lk = BTF_KIND_ARRAY then
                 (case (array_type lb lt, array_type tb tt) of
                    (Some li, Some ti) \<Rightarrow> bpf_core_fields_are_compat lb li tb ti
                  | _ \<Rightarrow> None)
               else Some 0
           | _ \<Rightarrow> None)
      | (Some (None, _), Some _) \<Rightarrow> Some (- EINVAL)
      | (Some _, Some (None, _)) \<Rightarrow> Some (- EINVAL)
      | _ \<Rightarrow> None)"
proof (cases "skip_mods_and_typedefs lb local_id")
  case (Some l)
  show ?thesis
  proof (cases "skip_mods_and_typedefs tb targ_id")
    case t: (Some t)
    show ?thesis
      by (subst bpf_core_fields_are_compat.simps, cases l; cases t; cases "fst l"; cases "fst t";
          cases "btf_kind lb (the (fst l))"; cases "btf_kind tb (the (fst t))";
          cases "array_type lb (the (fst l))"; cases "array_type tb (the (fst t))")
        (simp_all add: Some t btf_is_composite_def)
  qed (subst bpf_core_fields_are_compat.simps, simp add: Some split: prod.splits option.splits)
qed (subst bpf_core_fields_are_compat.simps, simp)

text \<open>The start of \<^verbatim>\<open>bpf_core_match_member\<close>: \<open>Inl\<close> returns, \<open>Inr\<close> are the structure with its id and the number of its
  members.\<close>

definition match_enter :: "btf \<Rightarrow> u32 \<Rightarrow> (int + u32 \<times> btf_ptr \<times> nat) option" where
  "match_enter tb targ_id = do {
     (t, targ_id) \<leftarrow> skip_mods_and_typedefs tb targ_id;
     (case t of
        None \<Rightarrow> Some (Inl (- EINVAL))
      | Some t \<Rightarrow> do {
          composite \<leftarrow> btf_is_composite tb t;
          n \<leftarrow> btf_vlen tb t;
          Some (if composite then Inr (targ_id, t, unat n) else Inl 0)
        })
   }"

definition unspeculate :: "u32 \<Rightarrow> bpf_core_spec \<Rightarrow> bpf_core_spec" where
  "unspeculate bit_offset spec = spec\<lparr>cs_bit_offset := cs_bit_offset spec - bit_offset, cs_raw_len := cs_raw_len spec - 1\<rparr>"

text \<open>The loop over the members from \<open>i\<close>. The recursive call for an embedded structure is the same loop from its first
  member; \<open>local_name\<close> and \<open>local_mtype\<close> are the name and type of the field that is looked for.\<close>

partial_function (option) match_loop ::
    "btf \<Rightarrow> bytes \<Rightarrow> u32 \<Rightarrow> btf \<Rightarrow> u32 \<Rightarrow> btf_ptr \<Rightarrow> nat \<Rightarrow> nat \<Rightarrow> bpf_core_spec \<Rightarrow> u32 \<Rightarrow> (int \<times> bpf_core_spec \<times> u32) option" where
  "match_loop lb local_name local_mtype tb targ_id t n i spec next_targ_id =
     (if i < n then do {
        bit_offset \<leftarrow> btf_member_bit_offset tb t (of_nat i);
        if cs_raw_len spec = BPF_CORE_SPEC_MAX_LEN then Some (- E2BIG, spec, next_targ_id)
        else do {
          spec \<leftarrow> push_raw (int i) (add_bits bit_offset spec);
          name_off \<leftarrow> member_name_off tb t (of_nat i);
          mtype \<leftarrow> member_type tb t i;
          targ_name \<leftarrow> btf_name tb name_off;
          if str_is_empty targ_name then do {
            r \<leftarrow> match_enter tb mtype;
            (found, spec, next_targ_id) \<leftarrow> (case r of
                Inl err \<Rightarrow> Some (err, spec, next_targ_id)
              | Inr (id', t', n') \<Rightarrow> match_loop lb local_name local_mtype tb id' t' n' 0 spec next_targ_id);
            if found \<noteq> 0 then Some (found, spec, next_targ_id)
            else match_loop lb local_name local_mtype tb targ_id t n (Suc i) (unspeculate bit_offset spec) next_targ_id
          }
          else if targ_name = Some local_name then do {
            spec \<leftarrow> push_acc \<lparr>acc_type_id = targ_id, acc_idx = of_nat i, acc_name = targ_name\<rparr> spec;
            found \<leftarrow> bpf_core_fields_are_compat lb local_mtype tb mtype;
            Some (found, if found = 0 then spec\<lparr>cs_len := cs_len spec - 1\<rparr> else spec, mtype)
          }
          else match_loop lb local_name local_mtype tb targ_id t n (Suc i) (unspeculate bit_offset spec) next_targ_id
        }
      }
      else Some (0, spec, next_targ_id))"

lemma match_loop_code [code]:
  "match_loop lb local_name local_mtype tb targ_id t n i spec next_targ_id =
     (if i < n then
        (case (btf_member_bit_offset tb t (of_nat i), cs_raw_len spec = BPF_CORE_SPEC_MAX_LEN) of
           (None, _) \<Rightarrow> None
         | (Some bit_offset, True) \<Rightarrow> Some (- E2BIG, spec, next_targ_id)
         | (Some bit_offset, False) \<Rightarrow>
             (case (push_raw (int i) (add_bits bit_offset spec), member_name_off tb t (of_nat i), member_type tb t i) of
                (Some spec, Some name_off, Some mtype) \<Rightarrow>
                  (case btf_name tb name_off of
                     None \<Rightarrow> None
                   | Some targ_name \<Rightarrow>
                       if str_is_empty targ_name then
                         (case (case match_enter tb mtype of
                                  None \<Rightarrow> None
                                | Some (Inl err) \<Rightarrow> Some (err, spec, next_targ_id)
                                | Some (Inr (id', t', n')) \<Rightarrow> match_loop lb local_name local_mtype tb id' t' n' 0 spec next_targ_id) of
                            None \<Rightarrow> None
                          | Some (found, spec, next_targ_id) \<Rightarrow>
                              if found \<noteq> 0 then Some (found, spec, next_targ_id)
                              else match_loop lb local_name local_mtype tb targ_id t n (Suc i) (unspeculate bit_offset spec) next_targ_id)
                       else if targ_name = Some local_name then do {
                         spec \<leftarrow> push_acc \<lparr>acc_type_id = targ_id, acc_idx = of_nat i, acc_name = targ_name\<rparr> spec;
                         found \<leftarrow> bpf_core_fields_are_compat lb local_mtype tb mtype;
                         Some (found, if found = 0 then spec\<lparr>cs_len := cs_len spec - 1\<rparr> else spec, mtype)
                       }
                       else match_loop lb local_name local_mtype tb targ_id t n (Suc i) (unspeculate bit_offset spec) next_targ_id)
              | _ \<Rightarrow> None))
      else Some (0, spec, next_targ_id))"
  by (subst match_loop.simps) (auto split: option.splits Option.bind_splits sum.splits bool.splits)

definition bpf_core_match_member ::
    "btf \<Rightarrow> bpf_core_accessor \<Rightarrow> btf \<Rightarrow> u32 \<Rightarrow> bpf_core_spec \<Rightarrow> u32 \<Rightarrow> (int \<times> bpf_core_spec \<times> u32) option" where
  "bpf_core_match_member lb local_acc tb targ_id spec next_targ_id = do {
     r \<leftarrow> match_enter tb targ_id;
     (case r of
        Inl err \<Rightarrow> Some (err, spec, next_targ_id)
      | Inr (targ_id, t, n) \<Rightarrow> do {
          lt \<leftarrow> btf__type_by_id lb (acc_type_id local_acc);
          local_type \<leftarrow> lt;
          name_off \<leftarrow> member_name_off lb local_type (acc_idx local_acc);
          local_mtype \<leftarrow> member_type lb local_type (unat (acc_idx local_acc));
          name \<leftarrow> btf_name lb name_off;
          local_name \<leftarrow> name;
          match_loop lb local_name local_mtype tb targ_id t n 0 spec next_targ_id
        })
   }"

text \<open>One round of \<^verbatim>\<open>bpf_core_spec_match\<close>: a result that is not positive returns. \<open>i\<close> is the place of the accessor.\<close>

definition match_index :: "btf \<Rightarrow> nat \<Rightarrow> bpf_core_accessor \<Rightarrow> u32 \<Rightarrow> bpf_core_spec \<Rightarrow> (int \<times> u32 \<times> bpf_core_spec) option" where
  "match_index tb i local_acc targ_id spec =
     (if cs_raw_len spec = BPF_CORE_SPEC_MAX_LEN then Some (- E2BIG, targ_id, spec)
      else do {
        accs \<leftarrow> arr_set (cs_spec spec) i \<lparr>acc_type_id = targ_id, acc_idx = acc_idx local_acc, acc_name = None\<rparr>;
        spec \<leftarrow> push_raw (sint (acc_idx local_acc)) (spec\<lparr>cs_spec := accs, cs_len := cs_len spec + 1\<rparr>);
        sz \<leftarrow> btf__resolve_size tb targ_id;
        let sz = to_s32 sz;
        if sz < 0 then Some (sz, targ_id, spec)
        else Some (1, targ_id, add_bits (acc_idx local_acc * of_int sz * 8) spec)
      })"

definition match_acc :: "btf \<Rightarrow> btf \<Rightarrow> nat \<Rightarrow> bpf_core_accessor \<Rightarrow> u32 \<Rightarrow> bpf_core_spec \<Rightarrow> (int \<times> u32 \<times> bpf_core_spec) option" where
  "match_acc lb tb i local_acc targ_id spec = do {
     (tt, targ_id) \<leftarrow> skip_mods_and_typedefs tb targ_id;
     (case tt of
        None \<Rightarrow> Some (- EINVAL, targ_id, spec)
      | Some targ_type \<Rightarrow>
          if acc_name local_acc \<noteq> None then do {
            (matched, spec, targ_id) \<leftarrow> bpf_core_match_member lb local_acc tb targ_id spec targ_id;
            Some (matched, targ_id, spec)
          }
          else if i > 0 then do {
            arr \<leftarrow> btf_is_array tb targ_type;
            if \<not> arr then Some (0, targ_id, spec)
            else do {
              elem \<leftarrow> array_type tb targ_type;
              nelems \<leftarrow> array_nelems tb targ_type;
              if acc_idx local_acc \<ge> nelems then Some (0, targ_id, spec)
              else do {
                (et, targ_id) \<leftarrow> skip_mods_and_typedefs tb elem;
                if et = None then Some (- EINVAL, targ_id, spec) else match_index tb i local_acc targ_id spec
              }
            }
          }
          else match_index tb i local_acc targ_id spec)
   }"

fun match_accs :: "btf \<Rightarrow> btf \<Rightarrow> nat \<Rightarrow> bpf_core_accessor list \<Rightarrow> u32 \<Rightarrow> bpf_core_spec \<Rightarrow> (int \<times> bpf_core_spec) option" where
  "match_accs lb tb i [] targ_id spec = Some (1, spec)"
| "match_accs lb tb i (acc # accs) targ_id spec = do {
     (matched, targ_id, spec) \<leftarrow> match_acc lb tb i acc targ_id spec;
     if matched \<le> 0 then Some (matched, spec) else match_accs lb tb (Suc i) accs targ_id spec
   }"

definition bpf_core_spec_match :: "btf \<Rightarrow> bpf_core_spec \<Rightarrow> btf \<Rightarrow> u32 \<Rightarrow> (int \<times> bpf_core_spec) option" where
  "bpf_core_spec_match lb local_spec tb targ_id =
     match_accs lb tb 0 (take (cs_len local_spec) (cs_spec local_spec)) targ_id zero_spec"

end
