(* ===== verification/Core_Match.thy ===== *)
theory Core_Match
  imports Core_Spec
begin

text \<open>
  What an access path means, and that parsing an access string and matching it against another type compute paths with
  the same meaning: \<open>walk\<close> follows member and element numbers from a type, adding up bit offsets modulo \<open>2^32\<close>, and collects the
  labels, the names and indices that C source text would show. Anonymous members leave no label.
\<close>

unbundle bit_operations_syntax

section \<open>Access paths\<close>

datatype label = Idx u32 | Field bytes

definition labels_of :: "bytes option \<Rightarrow> label list" where
  "labels_of name = (if str_is_empty name then [] else [Field (the name)])"

text \<open>A step into a member of a structure or union, and a step to an element of an array.\<close>

inductive member_step :: "btf \<Rightarrow> u32 \<Rightarrow> u32 \<Rightarrow> u32 \<Rightarrow> label list \<Rightarrow> u32 \<Rightarrow> bool" for b where
  member: "skip_mods_and_typedefs b i = Some (Some t, i') \<Longrightarrow> btf_is_composite b t = Some True
    \<Longrightarrow> btf_vlen b t = Some n \<Longrightarrow> k < n \<Longrightarrow> btf_member_bit_offset b t k = Some off
    \<Longrightarrow> member_name_off b t k = Some name_off \<Longrightarrow> btf_name b name_off = Some name \<Longrightarrow> member_type b t (unat k) = Some j
    \<Longrightarrow> member_step b i k off (labels_of name) j"

inductive elem_step :: "btf \<Rightarrow> u32 \<Rightarrow> u32 \<Rightarrow> u32 \<Rightarrow> label list \<Rightarrow> u32 \<Rightarrow> bool" for b where
  elem: "skip_mods_and_typedefs b i = Some (Some t, i') \<Longrightarrow> btf_is_array b t = Some True
    \<Longrightarrow> array_type b t = Some e \<Longrightarrow> array_nelems b t = Some n \<Longrightarrow> k < n
    \<Longrightarrow> skip_mods_and_typedefs b e = Some (Some t', j) \<Longrightarrow> btf__resolve_size b j = Some sz \<Longrightarrow> 0 \<le> sz
    \<Longrightarrow> elem_step b i k (k * of_int sz * 8) [Idx k] j"

inductive walk :: "btf \<Rightarrow> u32 \<Rightarrow> u32 list \<Rightarrow> u32 \<Rightarrow> label list \<Rightarrow> u32 \<Rightarrow> bool" for b where
  walk_nil: "walk b i [] 0 [] i"
| walk_cons: "member_step b i k off ls j \<or> elem_step b i k off ls j \<Longrightarrow> walk b j ks off' ls' j'
    \<Longrightarrow> walk b i (k # ks) (off + off') (ls @ ls') j'"

text \<open>The designator of a relocation starts with an index into an array of the root type.\<close>

inductive access :: "btf \<Rightarrow> u32 \<Rightarrow> u32 list \<Rightarrow> u32 \<Rightarrow> label list \<Rightarrow> u32 \<Rightarrow> bool" for b where
  access: "skip_mods_and_typedefs b i = Some (Some t, i') \<Longrightarrow> btf__resolve_size b i' = Some sz \<Longrightarrow> 0 \<le> sz
    \<Longrightarrow> walk b i' ks off ls j \<Longrightarrow> access b i (k # ks) (k * of_int sz * 8 + off) (Idx k # ls) j"

lemma walk_append:
  "walk b i ks off ls j \<Longrightarrow> walk b j ks' off' ls' j' \<Longrightarrow> walk b i (ks @ ks') (off + off') (ls @ ls') j'"
proof (induction rule: walk.induct)
  case (walk_cons i k off ls j ks off1 ls1 j1)
  then have "walk b j (ks @ ks') (off1 + off') (ls1 @ ls') j'" by blast
  from walk.walk_cons [OF walk_cons(1) this] show ?case by (simp add: algebra_simps)
qed simp

lemma walk_one: "member_step b i k off ls j \<or> elem_step b i k off ls j \<Longrightarrow> walk b i [k] off ls j"
  using walk_cons [OF _ walk_nil] by fastforce

text \<open>Steps do not depend on the modifiers in front of a type.\<close>

lemma member_step_skip:
  assumes "skip_mods_and_typedefs b i = Some (t, i')" "member_step b i' k off ls j"
  shows "member_step b i k off ls j"
  using assms(2) by cases (use assms(1) skip_mods_idem [OF assms(1)] in \<open>auto intro: member_step.intros\<close>)

lemma elem_step_skip:
  assumes "skip_mods_and_typedefs b i = Some (t, i')" "elem_step b i' k off ls j"
  shows "elem_step b i k off ls j"
  using assms(2) by cases (use assms(1) skip_mods_idem [OF assms(1)] in \<open>auto intro: elem_step.intros\<close>)

section \<open>Views of a specification\<close>

definition accs :: "bpf_core_spec \<Rightarrow> bpf_core_accessor list" where "accs s = take (cs_len s) (cs_spec s)"
definition raw :: "bpf_core_spec \<Rightarrow> u32 list" where "raw s = map of_int (take (cs_raw_len s) (cs_raw_spec s))"
definition acc_label :: "bpf_core_accessor \<Rightarrow> label" where
  "acc_label a = (case acc_name a of None \<Rightarrow> Idx (acc_idx a) | Some n \<Rightarrow> Field n)"

lemma take_arr_set: "arr_set xs n v = Some ys \<Longrightarrow> take (Suc n) ys = take n xs @ [v]"
  by (auto simp: arr_set_def take_Suc_conv_app_nth split: if_splits)

lemma push_acc_view:
  assumes "push_acc a s = Some s'"
  shows "accs s' = accs s @ [a]" "raw s' = raw s" "cs_bit_offset s' = cs_bit_offset s" "cs_len s' = Suc (cs_len s)"
    "cs_raw_spec s' = cs_raw_spec s" "cs_raw_len s' = cs_raw_len s"
  using assms take_arr_set by (fastforce simp: push_acc_def accs_def raw_def split: Option.bind_splits)+

lemma push_raw_view:
  assumes "push_raw i s = Some s'"
  shows "raw s' = raw s @ [of_int i]" "accs s' = accs s" "cs_bit_offset s' = cs_bit_offset s" "cs_raw_len s' = Suc (cs_raw_len s)"
    "cs_len s' = cs_len s"
  using assms take_arr_set by (fastforce simp: push_raw_def accs_def raw_def split: Option.bind_splits)+

lemma add_bits_view [simp]:
  "raw (add_bits n s) = raw s" "accs (add_bits n s) = accs s" "cs_bit_offset (add_bits n s) = cs_bit_offset s + n"
  "cs_len (add_bits n s) = cs_len s" "cs_raw_len (add_bits n s) = cs_raw_len s" "cs_raw_spec (add_bits n s) = cs_raw_spec s"
  by (simp_all add: raw_def accs_def add_bits_def)

lemma accs_update [simp]: "accs (s\<lparr>cs_bit_offset := n\<rparr>) = accs s" "raw (s\<lparr>cs_bit_offset := n\<rparr>) = raw s"
  by (simp_all add: accs_def raw_def)

lemma zero_spec_view [simp]: "accs zero_spec = []" "raw zero_spec = []" "cs_bit_offset zero_spec = 0" "cs_len zero_spec = 0" "cs_raw_len zero_spec = 0"
  by (simp_all add: accs_def raw_def zero_spec_def)

section \<open>Parsing\<close>

text \<open>What holds of every blob that was accepted: its size is a 32-bit number, and the name at offset 0 is the empty string.\<close>

definition blob_ok :: "btf \<Rightarrow> bool" where "blob_ok b \<longleftrightarrow> length (btf_data b) < 2 ^ 32 \<and> btf_name b 0 = Some (Some [])"

lemma member_offset_inside: "member_offset b t k = Some off \<Longrightarrow> 12 * unat k < length (btf_data b)"
  by (cases t) (auto simp: member_offset_def BTF_TYPE_def load32_def load_def split: if_splits)

lemma member_index_nonneg:
  assumes "btf_member_bit_offset b t (of_int x) = Some off" "length (btf_data b) < 2 ^ 32" "- (2 ^ 31) \<le> x" "x < 2 ^ 31"
  shows "0 \<le> x"
proof (rule ccontr)
  assume neg: "\<not> 0 \<le> x"
  obtain m where "member_offset b t (of_int x) = Some m"
    using assms(1) by (auto simp: btf_member_bit_offset_def split: Option.bind_splits)
  then have "12 * unat (of_int x :: u32) < length (btf_data b)" by (rule member_offset_inside)
  moreover have "uint (of_int x :: u32) = x + 2 ^ 32"
  proof -
    have "uint (of_int x :: u32) = x mod 2 ^ 32" by (simp add: uint_word_of_int_eq take_bit_eq_mod)
    also have "\<dots> = (x + 2 ^ 32) mod 2 ^ 32" by (rule mod_add_self2 [symmetric])
    also have "\<dots> = x + 2 ^ 32" using neg assms(3) by (intro mod_pos_pos_trivial) auto
    finally show ?thesis .
  qed
  ultimately show False using neg assms(2,3) by (simp add: unat_eq_nat_uint)
qed

text \<open>A named accessor refers to a member of that name.\<close>

definition acc_ok :: "btf \<Rightarrow> bpf_core_accessor \<Rightarrow> bool" where
  "acc_ok b a \<longleftrightarrow> acc_name a = None \<or>
     (\<exists>t n off. btf__type_by_id b (acc_type_id a) = Some (Some t) \<and> btf_vlen b t = Some n \<and> acc_idx a < n
        \<and> member_name_off b t (acc_idx a) = Some off \<and> btf_name b off = Some (acc_name a))"

lemma parse_step_walk:
  assumes "parse_step b x i spec = Some (Inr (j, spec'))" "blob_ok b" "- (2 ^ 31) \<le> x" "x < 2 ^ 31"
  shows "\<exists>off as. (member_step b i (of_int x) off (map acc_label as) j \<or> elem_step b i (of_int x) off (map acc_label as) j)
    \<and> accs spec' = accs spec @ as \<and> (\<forall>a\<in>set as. acc_ok b a) \<and> cs_bit_offset spec' = cs_bit_offset spec + off
    \<and> cs_raw_spec spec' = cs_raw_spec spec \<and> cs_raw_len spec' = cs_raw_len spec"
proof -
  obtain t i' c a n where s: "skip_mods_and_typedefs b i = Some (Some t, i')" "btf_is_composite b t = Some c" "btf_is_array b t = Some a"
      "btf_vlen b t = Some n"
    using assms(1) by (auto simp: parse_step_def split: Option.bind_splits option.splits)
  show ?thesis
  proof (cases c)
    case True
    let ?k = "of_int x :: u32"
    obtain off name_off where m: "x < uint n" "btf_member_bit_offset b t ?k = Some off" "member_name_off b t ?k = Some name_off"
        "member_type b t (unat ?k) = Some j"
      and rest: "(if name_off \<noteq> 0 then do {
           name \<leftarrow> btf_name b name_off;
           if str_is_empty name then Some (Inl (- EINVAL))
           else do {
             spec \<leftarrow> push_acc \<lparr>acc_type_id = i', acc_idx = ?k, acc_name = name\<rparr> (add_bits off spec);
             Some (Inr (j, spec))
           }
         } else Some (Inr (j, add_bits off spec))) = Some (Inr (j, spec'))"
      using assms(1) s True by (auto simp: parse_step_def Let_def split: Option.bind_splits if_splits)
    have k: "?k < n"
    proof -
      have "0 \<le> x" using member_index_nonneg [OF m(2)] assms(2-4) by (simp add: blob_ok_def)
      then show ?thesis using m(1) by (simp add: word_less_def uint_word_of_int_eq le_less_trans [OF iffD2 [OF take_bit_int_less_eq_self_iff]])
    qed
    show ?thesis
    proof (cases "name_off = 0")
      case True
      then have nm: "btf_name b name_off = Some (Some [])" using assms(2) by (simp add: blob_ok_def)
      have "member_step b i ?k off (labels_of (Some [])) j"
        by (rule member [OF s(1) _ s(4) k m(2,3) nm m(4)]) (use s \<open>c\<close> in simp)
      then show ?thesis using rest True by (intro exI [of _ off] exI [of _ "[]"]) (auto simp: labels_of_def str_is_empty_def)
    next
      case False
      then obtain name where nm: "btf_name b name_off = Some name" "\<not> str_is_empty name"
        and p: "push_acc \<lparr>acc_type_id = i', acc_idx = ?k, acc_name = name\<rparr> (add_bits off spec) = Some spec'"
        using rest by (auto split: Option.bind_splits if_splits)
      have "member_step b i ?k off (labels_of name) j"
        by (rule member [OF s(1) _ s(4) k m(2,3) nm(1) m(4)]) (use s \<open>c\<close> in simp)
      moreover have "btf__type_by_id b i' = Some (Some t)" using skip_mods_result [OF s(1)] by auto
      ultimately show ?thesis using nm push_acc_view [OF p] m(3) s(4) k
        by (intro exI [of _ off] exI [of _ "[\<lparr>acc_type_id = i', acc_idx = ?k, acc_name = name\<rparr>]"])
          (auto simp: labels_of_def str_is_empty_def acc_label_def acc_ok_def)
    qed
  next
    case False
    then have a using assms(1) s by (auto simp: parse_step_def split: if_splits)
    obtain e nel t' sz where e: "array_type b t = Some e" "array_nelems b t = Some nel" "skip_mods_and_typedefs b e = Some (Some t', j)"
        "of_int x < nel" "btf__resolve_size b j = Some sz" "0 \<le> sz"
      and p: "push_acc \<lparr>acc_type_id = j, acc_idx = of_int x, acc_name = None\<rparr> spec \<bind> (\<lambda>spec. s64 (x * sz * 8) \<bind> (\<lambda>off.
         Some (Inr (j, add_bits (of_int off) spec)))) = Some (Inr (j, spec') :: int + u32 \<times> bpf_core_spec)"
      using assms(1) s False by (auto simp: parse_step_def not_le split: Option.bind_splits if_splits)
    have "elem_step b i (of_int x) (of_int x * of_int sz * 8) [Idx (of_int x)] j"
      by (rule elem [OF s(1) _ e(1,2,4,3,5,6)]) (use s \<open>a\<close> in simp)
    moreover obtain spec1 where "push_acc \<lparr>acc_type_id = j, acc_idx = of_int x, acc_name = None\<rparr> spec = Some spec1"
      "spec' = add_bits (of_int (x * sz * 8)) spec1"
      using p by (auto simp: s64_def split: Option.bind_splits if_splits)
    ultimately show ?thesis using push_acc_view
      by (intro exI [of _ "of_int x * of_int sz * 8"] exI [of _ "[\<lparr>acc_type_id = j, acc_idx = of_int x, acc_name = None\<rparr>]"])
        (fastforce simp: acc_label_def acc_ok_def)
  qed
qed

lemma parse_steps_walk:
  assumes "parse_steps b xs i spec = Some (Inr spec')" "blob_ok b" "\<forall>x\<in>set xs. - (2 ^ 31) \<le> x \<and> x < 2 ^ 31"
  shows "\<exists>off as j. walk b i (map of_int xs) off (map acc_label as) j \<and> accs spec' = accs spec @ as \<and> (\<forall>a\<in>set as. acc_ok b a)
    \<and> cs_bit_offset spec' = cs_bit_offset spec + off \<and> cs_raw_spec spec' = cs_raw_spec spec \<and> cs_raw_len spec' = cs_raw_len spec"
  using assms
proof (induction xs arbitrary: i spec)
  case Nil
  then show ?case using walk_nil [of b i] by (intro exI [of _ 0] exI [of _ "[]"] exI [of _ i]) auto
next
  case (Cons x xs)
  obtain j spec1 where s: "parse_step b x i spec = Some (Inr (j, spec1))" "parse_steps b xs j spec1 = Some (Inr spec')"
    using Cons.prems(1) by (auto split: Option.bind_splits sum.splits)
  obtain off as where st: "member_step b i (of_int x) off (map acc_label as) j \<or> elem_step b i (of_int x) off (map acc_label as) j"
      "accs spec1 = accs spec @ as" "\<forall>a\<in>set as. acc_ok b a" "cs_bit_offset spec1 = cs_bit_offset spec + off"
      "cs_raw_spec spec1 = cs_raw_spec spec" "cs_raw_len spec1 = cs_raw_len spec"
    using parse_step_walk [OF s(1) Cons.prems(2)] Cons.prems(3) by auto
  obtain off' as' j' where w: "walk b j (map of_int xs) off' (map acc_label as') j'" "accs spec' = accs spec1 @ as'" "\<forall>a\<in>set as'. acc_ok b a"
      "cs_bit_offset spec' = cs_bit_offset spec1 + off'" "cs_raw_spec spec' = cs_raw_spec spec1" "cs_raw_len spec' = cs_raw_len spec1"
    using Cons.IH [OF s(2) Cons.prems(2)] Cons.prems(3) by auto
  then show ?case using walk_cons [OF st(1) w(1)] st
    by (intro exI [of _ "off + off'"] exI [of _ "as @ as'"] exI [of _ j']) (auto simp: algebra_simps)
qed

lemma sscanf_d_range: "sscanf_d s = Some (Some (v, n)) \<Longrightarrow> - (2 ^ 31) \<le> v \<and> v < 2 ^ 31"
  by (auto simp: sscanf_d_def Let_def split: if_splits)

text \<open>The first part of the parser only collects numbers.\<close>

lemma parse_raw_spec_numbers:
  assumes "parse_raw_spec s spec = Some (Inr spec')"
    and "\<forall>x\<in>set (take (cs_raw_len spec) (cs_raw_spec spec)). - (2 ^ 31) \<le> x \<and> x < 2 ^ 31"
  shows "(\<forall>x\<in>set (take (cs_raw_len spec') (cs_raw_spec spec')). - (2 ^ 31) \<le> x \<and> x < 2 ^ 31) \<and> accs spec' = accs spec"
  using assms
proof (induction s spec rule: parse_raw_spec.induct)
  case (1 s spec)
  show ?case
  proof (cases "s = []")
    case True
    then show ?thesis using 1(2,3) by (simp add: parse_raw_spec.simps)
  next
    case False
    then obtain v n spec1 where d: "sscanf_d (skip_colon s) = Some (Some (v, n))" "cs_raw_len spec \<noteq> BPF_CORE_SPEC_MAX_LEN"
        "push_raw v spec = Some spec1" "parse_raw_spec (drop n (skip_colon s)) spec1 = Some (Inr spec')"
      using 1(2) parse_raw_spec.simps [of s spec] by (auto split: option.splits if_splits)
    from d(3) have "take (cs_raw_len spec1) (cs_raw_spec spec1) = take (cs_raw_len spec) (cs_raw_spec spec) @ [v]"
      by (auto simp: push_raw_def dest: take_arr_set split: Option.bind_splits)
    then have "\<forall>x\<in>set (take (cs_raw_len spec1) (cs_raw_spec spec1)). - (2 ^ 31) \<le> x \<and> x < 2 ^ 31"
      using 1(3) sscanf_d_range [OF d(1)] by auto
    from 1(1) [OF False d(1) refl refl d(2,3,4) this] show ?thesis unfolding push_raw_view(2) [OF d(3)] .
  qed
qed

text \<open>What a parsed specification says: the path of the numbers in the string exists, its bit offset is that of the path, and its accessors are
  the labels along it.\<close>

definition access_path :: "bytes \<Rightarrow> u32 list" where
  "access_path s = (case parse_raw_spec s zero_spec of Some (Inr spec) \<Rightarrow> raw spec | _ \<Rightarrow> [])"

lemma spec_parse_access:
  assumes "bpf_core_spec_parse b i (Some s) = Some (Inr spec)" "blob_ok b"
  shows "\<exists>j. access b i (access_path s) (cs_bit_offset spec) (map acc_label (accs spec)) j"
    and "\<forall>a\<in>set (accs spec). acc_ok b a" and "accs spec \<noteq> []" and "acc_name (hd (accs spec)) = None"
proof -
  obtain sp1 t i' x sp2 sz off where p: "parse_raw_spec s zero_spec = Some (Inr sp1)" "cs_raw_len sp1 \<noteq> 0"
      "skip_mods_and_typedefs b i = Some (Some t, i')" "arr_get (cs_raw_spec sp1) 0 = Some x"
      "push_acc \<lparr>acc_type_id = i', acc_idx = of_int x, acc_name = None\<rparr> sp1 = Some sp2" "btf__resolve_size b i' = Some sz" "0 \<le> sz"
      "s64 (x * sz * 8) = Some off"
      "parse_steps b (tl (take (cs_raw_len sp2) (cs_raw_spec sp2))) i' (sp2\<lparr>cs_bit_offset := of_int off\<rparr>) = Some (Inr spec)"
    using assms(1) by (auto simp: bpf_core_spec_parse_def split: if_splits Option.bind_splits sum.splits)
  have r: "\<forall>x\<in>set (take (cs_raw_len sp1) (cs_raw_spec sp1)). - (2 ^ 31) \<le> x \<and> x < 2 ^ 31" "accs sp1 = []"
    using parse_raw_spec_numbers [OF p(1)] by simp_all
  have sp2: "accs sp2 = [\<lparr>acc_type_id = i', acc_idx = of_int x, acc_name = None\<rparr>]" "cs_raw_spec sp2 = cs_raw_spec sp1"
      "cs_raw_len sp2 = cs_raw_len sp1"
    using push_acc_view [OF p(5)] r(2) by simp_all
  let ?xs = "take (cs_raw_len sp1) (cs_raw_spec sp1)"
  have xs: "?xs = x # tl ?xs"
    using p(2,4) by (cases "cs_raw_spec sp1"; cases "cs_raw_len sp1") (auto simp: arr_get_def split: if_splits)
  then have "\<forall>x\<in>set (tl ?xs). - (2 ^ 31) \<le> x \<and> x < 2 ^ 31" using r(1) by (metis list.set_intros(2))
  then obtain off' as j where w: "walk b i' (map of_int (tl ?xs)) off' (map acc_label as) j" "accs spec = accs sp2 @ as" "\<forall>a\<in>set as. acc_ok b a"
      "cs_bit_offset spec = of_int off + off'" "cs_raw_spec spec = cs_raw_spec sp2" "cs_raw_len spec = cs_raw_len sp2"
    using parse_steps_walk [OF p(9) assms(2)] sp2 by auto
  have "access_path s = of_int x # map of_int (tl ?xs)" using p(1) xs by (simp add: access_path_def raw_def) (metis list.simps(9))
  moreover have "of_int off = (of_int x * of_int sz * 8 :: u32)" using p(8) by (auto simp: s64_def split: if_splits)
  ultimately show "\<exists>j. access b i (access_path s) (cs_bit_offset spec) (map acc_label (accs spec)) j"
    using access.intros [OF p(3,6,7) w(1), of "of_int x"] w(2,4) sp2(1) by (auto simp: acc_label_def)
  show "\<forall>a\<in>set (accs spec). acc_ok b a" "accs spec \<noteq> []" "acc_name (hd (accs spec)) = None"
    using w(2,3) sp2(1) by (auto simp: acc_ok_def)
qed

section \<open>Matching\<close>

text \<open>A field found through anonymous members: the path to it ends with the step into the field itself.\<close>

inductive field_at :: "btf \<Rightarrow> u32 \<Rightarrow> u32 list \<Rightarrow> u32 \<Rightarrow> bytes \<Rightarrow> u32 \<Rightarrow> bool" for b where
  field_here: "member_step b i k off [Field nm] j \<Longrightarrow> field_at b i [k] off nm j"
| field_below: "member_step b i k off [] j \<Longrightarrow> field_at b j ks off' nm j' \<Longrightarrow> field_at b i (k # ks) (off + off') nm j'"

lemma field_at_walk: "field_at b i ks off nm j \<Longrightarrow> walk b i ks off [Field nm] j"
proof (induction rule: field_at.induct)
  case (field_here i k off nm j)
  then show ?case by (blast intro: walk_one)
next
  case (field_below i k off j ks off' nm j')
  then show ?case using walk_cons [of b i k off "[]" j] by fastforce
qed

lemma field_at_nonempty: "field_at b i ks off nm j \<Longrightarrow> ks \<noteq> []"
  by (induction rule: field_at.induct) auto

lemma field_at_skip:
  assumes "skip_mods_and_typedefs b i = Some (t, i')" "field_at b i' ks off nm j"
  shows "field_at b i ks off nm j"
  using assms(2) by cases (blast intro: field_at.intros member_step_skip [OF assms(1)])+

text \<open>The rule of C that the members of a structure, those of its anonymous members included, have different names.\<close>

definition unique_names :: "btf \<Rightarrow> bool" where
  "unique_names b \<longleftrightarrow> (\<forall>i nm ks off j ks' off' j'. field_at b i ks off nm j \<and> field_at b i ks' off' nm j' \<longrightarrow> ks = ks')"

definition same_view :: "bpf_core_spec \<Rightarrow> bpf_core_spec \<Rightarrow> bool" where
  "same_view s s' \<longleftrightarrow> raw s' = raw s \<and> cs_raw_len s' = cs_raw_len s \<and> cs_bit_offset s' = cs_bit_offset s \<and> accs s' = accs s \<and> cs_len s' = cs_len s"

text \<open>What a search leaves behind: a field at a place from \<open>i\<close> on is found and appended, or nothing has changed, or there is
  such a field that is not compatible.\<close>

definition match_result ::
    "btf \<Rightarrow> bytes \<Rightarrow> u32 \<Rightarrow> btf \<Rightarrow> u32 \<Rightarrow> nat \<Rightarrow> bpf_core_spec \<Rightarrow> int \<times> bpf_core_spec \<times> u32 \<Rightarrow> bool" where
  "match_result lb nm mt tb tid i spec r = (case r of (found, spec', j) \<Rightarrow>
     (found > 0 \<longrightarrow> (\<exists>ks off a. field_at tb tid ks off nm j \<and> i \<le> unat (hd ks) \<and> raw spec' = raw spec @ ks
        \<and> cs_bit_offset spec' = cs_bit_offset spec + off \<and> accs spec' = accs spec @ [a] \<and> acc_name a = Some nm \<and> acc_ok tb a
        \<and> cs_len spec' = Suc (cs_len spec) \<and> bpf_core_fields_are_compat lb mt tb j = Some found))
     \<and> (found = 0 \<longrightarrow> same_view spec spec' \<or> (\<exists>ks off j'. field_at tb tid ks off nm j' \<and> i \<le> unat (hd ks))))"

lemma match_enter_cases:
  assumes "match_enter tb i = Some r"
  obtains (stop) err where "r = Inl err" "err \<le> 0"
  | (enter) i' t n where "r = Inr (i', t, unat n)" "skip_mods_and_typedefs tb i = Some (Some t, i')" "btf_is_composite tb t = Some True"
      "btf_vlen tb t = Some n"
  using assms by (auto simp: match_enter_def EINVAL_def split: Option.bind_splits option.splits if_splits)

lemma same_view_refl [simp]: "same_view s s"
  by (simp add: same_view_def)

lemma same_view_trans: "same_view s s1 \<Longrightarrow> same_view s1 s2 \<Longrightarrow> same_view s s2"
  by (simp add: same_view_def)

lemma unspeculate_same:
  assumes "push_raw x (add_bits off spec) = Some s1" "same_view s1 s2"
  shows "same_view spec (unspeculate off s2)"
proof -
  have r: "raw s2 = raw spec @ [of_int x]" "cs_raw_len s2 = Suc (cs_raw_len spec)" "cs_bit_offset s2 = cs_bit_offset spec + off"
      "accs s2 = accs spec" "cs_len s2 = cs_len spec"
    using push_raw_view [OF assms(1)] assms(2) by (simp_all add: same_view_def)
  have "cs_raw_len spec < length (cs_raw_spec spec)"
    using assms(1) by (auto simp: push_raw_def arr_set_def split: Option.bind_splits if_splits)
  then have "length (raw spec) = cs_raw_len spec" by (simp add: raw_def)
  then have "take (cs_raw_len spec) (raw s2) = raw spec" using r(1) by simp
  moreover have "raw (unspeculate off s2) = take (cs_raw_len spec) (raw s2)"
    using r(2) by (simp add: raw_def unspeculate_def take_map min_def)
  ultimately show ?thesis using r by (simp add: same_view_def unspeculate_def accs_def)
qed

lemma match_result_same:
  assumes "same_view spec spec2" "match_result lb nm mt tb tid i spec2 r"
  shows "match_result lb nm mt tb tid i spec r"
  using assms by (auto simp: match_result_def same_view_def split: prod.splits)

lemma match_result_later: "match_result lb nm mt tb tid (Suc i) spec r \<Longrightarrow> match_result lb nm mt tb tid i spec r"
  unfolding match_result_def by (fastforce split: prod.splits)

text \<open>After a field of this name was passed over, none is found later.\<close>

lemma match_result_passed:
  assumes "match_result lb nm mt tb tid (Suc i) spec2 r" "unique_names tb" "field_at tb tid ks off nm j" "unat (hd ks) = i"
  shows "match_result lb nm mt tb tid i spec r"
proof -
  obtain found spec' j' where r: "r = (found, spec', j')" by (cases r)
  have "\<not> 0 < found"
  proof
    assume "0 < found"
    then obtain ks' off' where "field_at tb tid ks' off' nm j'" "Suc i \<le> unat (hd ks')"
      using assms(1) by (auto simp: match_result_def r)
    moreover from this assms(2,3) have "ks = ks'" unfolding unique_names_def by blast
    ultimately show False using assms(4) by simp
  qed
  then show ?thesis using assms(3,4) by (auto simp: match_result_def r)
qed

lemma match_hit:
  assumes "push_raw (int i) (add_bits off spec) = Some s1" "unat (of_nat i :: u32) = i" "member_step tb tid (of_nat i) off [Field nm] mtype"
    "push_acc a s1 = Some s2" "acc_name a = Some nm" "acc_ok tb a" "bpf_core_fields_are_compat lb mt tb mtype = Some found"
  shows "match_result lb nm mt tb tid i spec (found, if found = 0 then s2\<lparr>cs_len := cs_len s2 - 1\<rparr> else s2, mtype)"
proof -
  have f: "field_at tb tid [of_nat i] off nm mtype" using assms(3) by (rule field_here)
  then show ?thesis
    using push_raw_view [OF assms(1)] push_acc_view [OF assms(4)] assms(2,5-7) unfolding match_result_def
    by (fastforce intro!: exI [of _ "[of_nat i]"])
qed

lemma match_below:
  assumes "push_raw (int i) (add_bits off spec) = Some s1" "unat (of_nat i :: u32) = i" "member_step tb tid (of_nat i) off [] mtype"
    "skip_mods_and_typedefs tb mtype = Some (t', id')" "match_result lb nm mt tb id' 0 s1 (found, s2, j)" "found > 0"
  shows "match_result lb nm mt tb tid i spec (found, s2, j)"
proof -
  obtain ks off' a where f: "field_at tb id' ks off' nm j" "raw s2 = raw s1 @ ks" "cs_bit_offset s2 = cs_bit_offset s1 + off'"
      "accs s2 = accs s1 @ [a]" "acc_name a = Some nm" "acc_ok tb a" "cs_len s2 = Suc (cs_len s1)" "bpf_core_fields_are_compat lb mt tb j = Some found"
    using assms(5,6) by (auto simp: match_result_def)
  have "field_at tb tid (of_nat i # ks) (off + off') nm j"
    by (rule field_below [OF assms(3) field_at_skip [OF assms(4) f(1)]])
  then show ?thesis using push_raw_view [OF assms(1)] f assms(2,6) unfolding match_result_def
    by (auto intro!: exI [of _ "of_nat i # ks"] exI [of _ "off + off'"])
qed

lemma match_loop_result:
  assumes "match_loop lb nm mt tb tid t n i spec nxt = Some r" "unique_names tb" "skip_mods_and_typedefs tb tid = Some (Some t, tid)"
    "btf_is_composite tb t = Some True" "btf_vlen tb t = Some vl" "n = unat vl"
  shows "match_result lb nm mt tb tid i spec r"
proof -
  define Q where "Q = (\<lambda>lb nm mt tb tid t n i spec (nxt :: u32) r. unique_names tb \<longrightarrow> skip_mods_and_typedefs tb tid = Some (Some t, tid)
    \<longrightarrow> btf_is_composite tb t = Some True \<longrightarrow> (\<forall>vl. btf_vlen tb t = Some vl \<longrightarrow> n = unat vl \<longrightarrow> match_result lb nm mt tb tid i spec r))"
  have "Q lb nm mt tb tid t n i spec nxt r"
  proof (rule match_loop.raw_induct [where P = Q, OF _ assms(1)], goal_cases)
    case (1 f lb nm mt tb tid t n i spec nxt r)
    show ?case unfolding Q_def
    proof (intro impI allI)
      fix vl
      assume u: "unique_names tb" and t: "skip_mods_and_typedefs tb tid = Some (Some t, tid)" "btf_is_composite tb t = Some True"
        "btf_vlen tb t = Some vl" and n: "n = unat vl"
      have IH: "match_result lb nm mt tb tid' i' spec' r'"
        if "f lb nm mt tb tid' t' n' i' spec' nxt' = Some r'" "skip_mods_and_typedefs tb tid' = Some (Some t', tid')"
          "btf_is_composite tb t' = Some True" "btf_vlen tb t' = Some vl'" "n' = unat vl'" for tid' t' n' i' spec' nxt' r' vl'
        using 1(1) [OF that(1)] that(2-) u by (simp add: Q_def)
      show "match_result lb nm mt tb tid i spec r"
      proof (cases "i < n")
        case False
        then have "r = (0, spec, nxt)" using 1(2) by simp
        then show ?thesis by (simp add: match_result_def)
      next
        case True
        have later: "match_result lb nm mt tb tid i spec r"
          if "f lb nm mt tb tid t n (Suc i) spec' nxt' = Some r" "same_view spec spec'" for spec' nxt'
          by (rule match_result_same [OF that(2) match_result_later [OF IH [OF that(1) t n]]])
        have k: "(of_nat i :: u32) < vl" "unat (of_nat i :: u32) = i"
          using True n by (simp_all add: word_less_nat_alt unat_of_nat_below [of i vl])
        obtain off where off: "btf_member_bit_offset tb t (of_nat i) = Some off" using 1(2) True by (auto split: Option.bind_splits)
        show ?thesis
        proof (cases "cs_raw_len spec = BPF_CORE_SPEC_MAX_LEN")
          case long: True
          then have "r = (- E2BIG, spec, nxt)" using 1(2) True off by simp
          then show ?thesis by (simp add: match_result_def E2BIG_def)
        next
          case False
          obtain s1 name_off mtype name where m: "push_raw (int i) (add_bits off spec) = Some s1" "member_name_off tb t (of_nat i) = Some name_off"
              "member_type tb t i = Some mtype" "btf_name tb name_off = Some name"
            using 1(2) True off False by (auto split: Option.bind_splits)
          have st: "member_step tb tid (of_nat i) off (labels_of name) mtype"
            using member_step.intros [OF t k(1) off m(2,4)] m(3) k(2) by simp
          consider (anon) "str_is_empty name" | (hit) "\<not> str_is_empty name" "name = Some nm" | (other) "\<not> str_is_empty name" "name \<noteq> Some nm" by blast
          then show ?thesis
          proof cases
            case other
            then show ?thesis using 1(2) True off False m later [OF _ unspeculate_same [OF m(1) same_view_refl]] by simp
          next
            case hit
            then obtain s2 found where "push_acc \<lparr>acc_type_id = tid, acc_idx = of_nat i, acc_name = name\<rparr> s1 = Some s2"
                "bpf_core_fields_are_compat lb mt tb mtype = Some found" "r = (found, if found = 0 then s2\<lparr>cs_len := cs_len s2 - 1\<rparr> else s2, mtype)"
              using 1(2) True off False m by (auto split: Option.bind_splits)
            moreover have "acc_ok tb \<lparr>acc_type_id = tid, acc_idx = of_nat i, acc_name = name\<rparr>"
              using t(3) k(1) m(2,4) skip_mods_result [OF t(1)] by (auto simp: acc_ok_def)
            ultimately show ?thesis using match_hit [OF m(1) k(2)] st hit by (simp add: labels_of_def)
          next
            case anon
            have st: "member_step tb tid (of_nat i) off [] mtype" using st anon by (simp add: labels_of_def)
            obtain e found s2 nx2 where e: "match_enter tb mtype = Some e"
                "(case e of Inl err \<Rightarrow> Some (err, s1, nxt) | Inr (id', t', n') \<Rightarrow> f lb nm mt tb id' t' n' 0 s1 nxt) = Some (found, s2, nx2)"
              and r: "if found \<noteq> 0 then r = (found, s2, nx2) else f lb nm mt tb tid t n (Suc i) (unspeculate off s2) nx2 = Some r"
              using 1(2) True off False m anon by (auto split: Option.bind_splits if_splits)
            from e(1) show ?thesis
            proof (cases rule: match_enter_cases)
              case (stop err)
              then have "found \<le> 0" "s2 = s1" using e(2) by auto
              then show ?thesis using r later [OF _ unspeculate_same [OF m(1) same_view_refl]]
                by (cases "found = 0") (auto simp: match_result_def)
            next
              case (enter i' t' n')
              have inner: "match_result lb nm mt tb i' 0 s1 (found, s2, nx2)"
                using IH [OF _ skip_mods_idem [OF enter(2)] enter(3,4)] e(2) enter(1) by auto
              consider "found > 0" | "found < 0" | (same) "found = 0" "same_view s1 s2"
                | (seen) ks off' j where "found = 0" "field_at tb i' ks off' nm j"
                using inner by (fastforce simp: match_result_def)
              then show ?thesis
              proof cases
                case seen
                then have "field_at tb tid (of_nat i # ks) (off + off') nm j" by (blast intro: field_below [OF st] field_at_skip [OF enter(2)])
                then show ?thesis using match_result_passed [OF IH [OF _ t n] u] r seen(1) k(2) by fastforce
              qed (use r match_below [OF m(1) k(2) st enter(2) inner] later [OF _ unspeculate_same [OF m(1)]] in \<open>auto simp: match_result_def\<close>)
            qed
          qed
        qed
      qed
    qed
  qed
  then show ?thesis using assms by (simp add: Q_def)
qed

lemma resolve_size_loop_error: "btf_resolve_size_loop n b t m = Some (Inl e) \<Longrightarrow> e \<in> {- EINVAL, - E2BIG}"
proof (induction n arbitrary: t m)
  case (Suc n)
  from Suc.prems show ?case
    by (auto split: option.splits bool.splits if_splits Option.bind_splits dest: Suc.IH)
qed simp

lemma resolve_size_error: "btf__resolve_size b i = Some sz \<Longrightarrow> 0 \<le> sz \<or> sz \<in> {- EINVAL, - E2BIG}"
  by (auto simp: btf__resolve_size_def split: Option.bind_splits sum.splits if_splits dest: resolve_size_loop_error)

lemma to_s32_word [simp]: "of_int (to_s32 v) = (of_int v :: u32)"
  by (simp add: to_s32_def)

lemma to_s32_size: "btf__resolve_size b i = Some sz \<Longrightarrow> 0 \<le> to_s32 sz \<Longrightarrow> 0 \<le> sz"
  using resolve_size_error [of b i sz] by (auto simp: to_s32_def errno_defs)

lemma match_index_view:
  assumes "match_index tb (cs_len spec) a tid spec = Some (m, j, spec')" "m > 0"
  obtains sz where "btf__resolve_size tb tid = Some sz" "0 \<le> sz" "j = tid" "raw spec' = raw spec @ [acc_idx a]"
    "accs spec' = accs spec @ [\<lparr>acc_type_id = tid, acc_idx = acc_idx a, acc_name = None\<rparr>]" "cs_len spec' = Suc (cs_len spec)"
    "cs_bit_offset spec' = cs_bit_offset spec + acc_idx a * of_int sz * 8"
proof -
  let ?a = "\<lparr>acc_type_id = tid, acc_idx = acc_idx a, acc_name = None\<rparr>"
  obtain as s1 sz where d: "arr_set (cs_spec spec) (cs_len spec) ?a = Some as"
      "push_raw (sint (acc_idx a)) (spec\<lparr>cs_spec := as, cs_len := cs_len spec + 1\<rparr>) = Some s1"
      "btf__resolve_size tb tid = Some sz" "0 \<le> to_s32 sz" "j = tid" "spec' = add_bits (acc_idx a * of_int (to_s32 sz) * 8) s1"
    using assms by (auto simp: match_index_def Let_def E2BIG_def split: Option.bind_splits if_splits)
  have "push_acc ?a spec = Some (spec\<lparr>cs_spec := as, cs_len := cs_len spec + 1\<rparr>)" using d(1) by (simp add: push_acc_def)
  note v = push_acc_view [OF this] push_raw_view [OF d(2)]
  show ?thesis using that [OF d(3) to_s32_size [OF d(3,4)] d(5)] v d(6) by simp
qed

text \<open>One accessor: the step in the other type has the same label.\<close>

lemma match_acc_walk:
  assumes "match_acc lb tb (cs_len spec) a tid spec = Some (m, j, spec')" "m > 0" "0 < cs_len spec" "acc_ok lb a" "unique_names tb"
  shows "\<exists>ks off a'. walk tb tid ks off [acc_label a] j \<and> accs spec' = accs spec @ [a'] \<and> acc_label a' = acc_label a \<and> acc_ok tb a'
    \<and> raw spec' = raw spec @ ks \<and> cs_bit_offset spec' = cs_bit_offset spec + off \<and> cs_len spec' = Suc (cs_len spec)"
proof -
  obtain t tid' where t: "skip_mods_and_typedefs tb tid = Some (Some t, tid')"
    using assms(1,2) by (auto simp: match_acc_def EINVAL_def split: Option.bind_splits option.splits)
  show ?thesis
  proof (cases "acc_name a")
    case None
    then obtain e n t' j' where e: "btf_is_array tb t = Some True" "array_type tb t = Some e" "array_nelems tb t = Some n" "acc_idx a < n"
        "skip_mods_and_typedefs tb e = Some (Some t', j')" "match_index tb (cs_len spec) a j' spec = Some (m, j, spec')"
      using assms(1-3) t by (auto simp: match_acc_def EINVAL_def not_le split: Option.bind_splits if_splits)
    obtain sz where z: "btf__resolve_size tb j' = Some sz" "0 \<le> sz" "j = j'" "raw spec' = raw spec @ [acc_idx a]"
        "accs spec' = accs spec @ [\<lparr>acc_type_id = j', acc_idx = acc_idx a, acc_name = None\<rparr>]" "cs_len spec' = Suc (cs_len spec)"
        "cs_bit_offset spec' = cs_bit_offset spec + acc_idx a * of_int sz * 8"
      by (rule match_index_view [OF e(6) assms(2)])
    have "elem_step tb tid (acc_idx a) (acc_idx a * of_int sz * 8) [Idx (acc_idx a)] j'"
      by (rule elem [OF t e(1-5) z(1,2)])
    then have "walk tb tid [acc_idx a] (acc_idx a * of_int sz * 8) [acc_label a] j" using None z(3) by (simp add: walk_one acc_label_def)
    with z None show ?thesis by (fastforce simp: acc_label_def acc_ok_def)
  next
    case (Some nm)
    then have "bpf_core_match_member lb a tb tid' spec tid' = Some (m, spec', j)"
      using assms(1) t by (auto simp: match_acc_def split: Option.bind_splits)
    then obtain i2 t2 n mt lt off where l: "skip_mods_and_typedefs tb tid' = Some (Some t2, i2)" "btf_is_composite tb t2 = Some True"
        "btf_vlen tb t2 = Some n" "btf__type_by_id lb (acc_type_id a) = Some (Some lt)" "member_name_off lb lt (acc_idx a) = Some off"
        "match_loop lb nm mt tb i2 t2 (unat n) 0 spec tid' = Some (m, spec', j)"
      using assms(2,4) Some
      by (auto simp: bpf_core_match_member_def acc_ok_def split: Option.bind_splits sum.splits elim!: match_enter_cases)
    have "i2 = tid'" "t2 = t" using skip_mods_idem [OF t] l(1) by auto
    then have "match_result lb nm mt tb tid' 0 spec (m, spec', j)"
      using match_loop_result [OF l(6) assms(5) _ l(2,3) refl] l(1) by simp
    then obtain ks off a' where f: "field_at tb tid' ks off nm j" "raw spec' = raw spec @ ks" "cs_bit_offset spec' = cs_bit_offset spec + off"
        "accs spec' = accs spec @ [a']" "acc_name a' = Some nm" "acc_ok tb a'" "cs_len spec' = Suc (cs_len spec)"
      using assms(2) by (auto simp: match_result_def)
    have "walk tb tid ks off [Field nm] j" by (rule field_at_walk [OF field_at_skip [OF t f(1)]])
    with f Some show ?thesis by (fastforce simp: acc_label_def)
  qed
qed

lemma match_accs_walk:
  assumes "match_accs lb tb (cs_len spec) as tid spec = Some (m, spec')" "m > 0" "0 < cs_len spec" "\<forall>a\<in>set as. acc_ok lb a" "unique_names tb"
  shows "\<exists>ks off as' j. walk tb tid ks off (map acc_label as) j \<and> accs spec' = accs spec @ as' \<and> map acc_label as' = map acc_label as \<and> (\<forall>a\<in>set as'. acc_ok tb a)
    \<and> raw spec' = raw spec @ ks \<and> cs_bit_offset spec' = cs_bit_offset spec + off"
  using assms
proof (induction as arbitrary: tid spec)
  case Nil
  then show ?case using walk_nil [of tb tid] by fastforce
next
  case (Cons a as)
  obtain m1 j s1 where s: "match_acc lb tb (cs_len spec) a tid spec = Some (m1, j, s1)" "m1 > 0"
      "match_accs lb tb (Suc (cs_len spec)) as j s1 = Some (m, spec')"
    using Cons.prems(1,2) by (auto split: Option.bind_splits if_splits)
  obtain ks off a' where w: "walk tb tid ks off [acc_label a] j" "accs s1 = accs spec @ [a']" "acc_label a' = acc_label a" "acc_ok tb a'"
      "raw s1 = raw spec @ ks" "cs_bit_offset s1 = cs_bit_offset spec + off" "cs_len s1 = Suc (cs_len spec)"
    using match_acc_walk [OF s(1,2) Cons.prems(3) _ Cons.prems(5)] Cons.prems(4) by auto
  obtain ks' off' as' j' where w': "walk tb j ks' off' (map acc_label as) j'" "accs spec' = accs s1 @ as'" "map acc_label as' = map acc_label as" "\<forall>a\<in>set as'. acc_ok tb a"
      "raw spec' = raw s1 @ ks'" "cs_bit_offset spec' = cs_bit_offset s1 + off'"
    using Cons.IH [of s1 j] s(3) w(7) Cons.prems by auto
  show ?case
    using walk_append [OF w(1) w'(1)] w w'
    by (intro exI [of _ "ks @ ks'"] exI [of _ "off + off'"] exI [of _ "a' # as'"] exI [of _ j']) (auto simp: algebra_simps)
qed

text \<open>What a match says: the same designator exists in the other type, and the matched specification has its path and bit offset.\<close>

lemma spec_match_access:
  assumes "bpf_core_spec_match lb spec tb tid = Some (m, spec')" "m > 0" "unique_names tb"
    "\<forall>a\<in>set (accs spec). acc_ok lb a" "accs spec \<noteq> []" "acc_name (hd (accs spec)) = None"
  shows "\<exists>j. access tb tid (raw spec') (cs_bit_offset spec') (map acc_label (accs spec)) j \<and> map acc_label (accs spec') = map acc_label (accs spec)
    \<and> (\<forall>a\<in>set (accs spec'). acc_ok tb a) \<and> accs spec' \<noteq> []
    \<and> (\<exists>t. skip_mods_and_typedefs tb tid = Some (t, acc_type_id (hd (accs spec'))))"
proof -
  obtain a as where as: "accs spec = a # as" using assms(5) by (cases "accs spec") auto
  have "match_accs lb tb (cs_len zero_spec) (a # as) tid zero_spec = Some (m, spec')"
    using assms(1) as by (simp add: bpf_core_spec_match_def accs_def [symmetric])
  then obtain m1 j s1 where s: "match_acc lb tb (cs_len zero_spec) a tid zero_spec = Some (m1, j, s1)" "m1 > 0"
      "match_accs lb tb 1 as j s1 = Some (m, spec')"
    using assms(2) by (auto split: Option.bind_splits if_splits)
  obtain t tid' where t: "skip_mods_and_typedefs tb tid = Some (Some t, tid')"
      "match_index tb (cs_len zero_spec) a tid' zero_spec = Some (m1, j, s1)"
    using s(1,2) assms(6) as by (auto simp: match_acc_def EINVAL_def split: Option.bind_splits option.splits)
  obtain sz where z: "btf__resolve_size tb tid' = Some sz" "0 \<le> sz" "j = tid'" "raw s1 = raw zero_spec @ [acc_idx a]"
      "accs s1 = accs zero_spec @ [\<lparr>acc_type_id = tid', acc_idx = acc_idx a, acc_name = None\<rparr>]" "cs_len s1 = Suc (cs_len zero_spec)"
      "cs_bit_offset s1 = cs_bit_offset zero_spec + acc_idx a * of_int sz * 8"
    by (rule match_index_view [OF t(2) s(2)])
  obtain ks off as' j' where w: "walk tb tid' ks off (map acc_label as) j'" "accs spec' = accs s1 @ as'" "map acc_label as' = map acc_label as" "\<forall>a\<in>set as'. acc_ok tb a"
      "raw spec' = raw s1 @ ks" "cs_bit_offset spec' = cs_bit_offset s1 + off"
    using match_accs_walk [of lb tb s1 as tid' m spec'] s(3) z(3,6) assms(2-4) as by auto
  show ?thesis
    using access.intros [OF t(1) z(1,2) w(1), of "acc_idx a"] w z as assms(6) t(1) by (auto simp: acc_label_def acc_ok_def)
qed

end
