(* ===== verification/Btf_Ext.thy ===== *)
theory Btf_Ext
  imports Btf
begin

text \<open>
  \<^verbatim>\<open>eBPF_app/libbpf/src/btf.c\<close>, the extension section \<^verbatim>\<open>.BTF.ext\<close>: the checks of its three
  subsections (\<^verbatim>\<open>btf_ext__new\<close>) and the relocation of their records when programs are appended to one
  another (\<^verbatim>\<open>btf_ext__reloc_func_info\<close>, \<^verbatim>\<open>btf_ext__reloc_line_info\<close>). A subsection is a
  record size and a sequence of headers, each followed by that many records. Offsets and lengths that the
  checks keep below \<open>2 ^ 32\<close> are natural numbers; the products of the relocation, which C computes in
  32 bits, are words.
\<close>

unbundle bit_operations_syntax

section \<open>Data\<close>

record btf_ext_info =
  ei_info :: nat
  ei_rec_size :: u32
  ei_len :: u32

record btf_extension =
  ext_data :: bytes
  ext_data_size :: u32
  ext_func_info :: btf_ext_info
  ext_line_info :: btf_ext_info
  ext_field_reloc_info :: btf_ext_info

definition ext_info_null :: btf_ext_info where "ext_info_null = \<lparr>ei_info = 0, ei_rec_size = 0, ei_len = 0\<rparr>"

definition ext_hdr_len :: "bytes \<Rightarrow> u32 option" where "ext_hdr_len d = load32 d 4"

section \<open>Checking the section\<close>

text \<open>The loop over the headers of a subsection: \<open>sinfo\<close> is the offset of the next header and
  \<open>info_left\<close> what remains. A header has eight bytes, the number of its records in the last four.\<close>

function ext_secs_loop :: "bytes \<Rightarrow> u32 \<Rightarrow> nat \<Rightarrow> nat \<Rightarrow> int option" where
  "ext_secs_loop d record_size sinfo info_left =
     (if info_left = 0 then Some 0
      else if info_left < 8 then Some (- EINVAL)
      else
        (case load32 d (sinfo + 4) of
           None \<Rightarrow> None
         | Some num_records \<Rightarrow>
             if num_records = 0 then Some (- EINVAL)
             else
               (let total_record_size = 8 + unat num_records * unat record_size
                in if info_left < total_record_size then Some (- EINVAL)
                   else ext_secs_loop d record_size (sinfo + total_record_size) (info_left - total_record_size))))"
  by pat_completeness auto
termination
  by (relation "measure (\<lambda>(d, r, s, left). left)") auto

declare ext_secs_loop.simps [simp del]

definition btf_ext_setup_info :: "bytes \<Rightarrow> u32 \<Rightarrow> u32 \<Rightarrow> u32 \<Rightarrow> u32 \<Rightarrow> btf_ext_info \<Rightarrow> (int \<times> btf_ext_info) option" where
  "btf_ext_setup_info d data_size off len min_rec_size ext_info =
     (if len = 0 then Some (0, ext_info)
      else if off AND 0x03 \<noteq> 0 then Some (- EINVAL, ext_info)
      else do {
        hdr_len \<leftarrow> ext_hdr_len d;
        let info = unat hdr_len + unat off;
        if unat data_size < info + unat len then Some (- EINVAL, ext_info)
        else if unat len < 4 then Some (- EINVAL, ext_info)
        else do {
          record_size \<leftarrow> load32 d info;
          if record_size < min_rec_size \<or> record_size AND 0x03 \<noteq> 0 then Some (- EINVAL, ext_info)
          else if unat len - 4 = 0 then Some (- EINVAL, ext_info)
          else do {
            err \<leftarrow> ext_secs_loop d record_size (info + 4) (unat len - 4);
            Some (if err \<noteq> 0 then (err, ext_info)
                  else (0, \<lparr>ei_info = info + 4, ei_rec_size = record_size, ei_len = len - 4\<rparr>))
          }
        }
      })"

text \<open>The smallest records have 8, 16 and 16 bytes.\<close>

definition btf_ext_setup_func_info :: "btf_extension \<Rightarrow> (int \<times> btf_extension) option" where
  "btf_ext_setup_func_info e = do {
     off \<leftarrow> load32 (ext_data e) 8;
     len \<leftarrow> load32 (ext_data e) 12;
     (err, i) \<leftarrow> btf_ext_setup_info (ext_data e) (ext_data_size e) off len 8 (ext_func_info e);
     Some (err, e\<lparr>ext_func_info := i\<rparr>)
   }"

definition btf_ext_setup_line_info :: "btf_extension \<Rightarrow> (int \<times> btf_extension) option" where
  "btf_ext_setup_line_info e = do {
     off \<leftarrow> load32 (ext_data e) 16;
     len \<leftarrow> load32 (ext_data e) 20;
     (err, i) \<leftarrow> btf_ext_setup_info (ext_data e) (ext_data_size e) off len 16 (ext_line_info e);
     Some (err, e\<lparr>ext_line_info := i\<rparr>)
   }"

definition btf_ext_setup_field_reloc :: "btf_extension \<Rightarrow> (int \<times> btf_extension) option" where
  "btf_ext_setup_field_reloc e = do {
     off \<leftarrow> load32 (ext_data e) 24;
     len \<leftarrow> load32 (ext_data e) 28;
     (err, i) \<leftarrow> btf_ext_setup_info (ext_data e) (ext_data_size e) off len 16 (ext_field_reloc_info e);
     Some (err, e\<lparr>ext_field_reloc_info := i\<rparr>)
   }"

definition btf_ext_parse_hdr :: "bytes \<Rightarrow> u32 \<Rightarrow> int option" where
  "btf_ext_parse_hdr d data_size =
     (if unat data_size < 8 then Some (- EINVAL)
      else do {
        hdr_len \<leftarrow> ext_hdr_len d;
        magic \<leftarrow> load16 d 0;
        version \<leftarrow> arr_get d 2;
        flags \<leftarrow> arr_get d 3;
        Some (if data_size < hdr_len then - EINVAL
              else if magic \<noteq> BTF_MAGIC then - EINVAL
              else if version \<noteq> BTF_VERSION then - ENOTSUP
              else if flags \<noteq> 0 then - ENOTSUP
              else if data_size = hdr_len then - EINVAL
              else 0)
      })"

text \<open>After each step that fails the extension is freed and the error returned.\<close>

definition btf_ext__new :: "bool \<Rightarrow> bool \<Rightarrow> bytes \<Rightarrow> u32 \<Rightarrow> (int + btf_extension) option" where
  "btf_ext__new calloc_ok malloc_ok data sz = do {
     err \<leftarrow> btf_ext_parse_hdr data sz;
     if err \<noteq> 0 then Some (Inl err)
     else if \<not> calloc_ok then Some (Inl (- ENOMEM))
     else if \<not> malloc_ok then Some (Inl (- ENOMEM))
     else do {
       copy \<leftarrow> load data 0 (unat sz);
       let e = \<lparr>ext_data = copy, ext_data_size = sz, ext_func_info = ext_info_null, ext_line_info = ext_info_null,
                ext_field_reloc_info = ext_info_null\<rparr>;
       hdr_len \<leftarrow> ext_hdr_len (ext_data e);
       if hdr_len < 24 then Some (Inr e)
       else do {
         (err, e) \<leftarrow> btf_ext_setup_func_info e;
         if err \<noteq> 0 then Some (Inl err)
         else do {
           (err, e) \<leftarrow> btf_ext_setup_line_info e;
           if err \<noteq> 0 then Some (Inl err)
           else if hdr_len < 32 then Some (Inr e)
           else do {
             (err, e) \<leftarrow> btf_ext_setup_field_reloc e;
             Some (if err \<noteq> 0 then Inl err else Inr e)
           }
         }
       }
     }
   }"

definition btf_ext__get_raw_data :: "btf_extension \<Rightarrow> bytes \<times> u32" where
  "btf_ext__get_raw_data e = (ext_data e, ext_data_size e)"

definition btf_ext__func_info_rec_size :: "btf_extension \<Rightarrow> u32" where
  "btf_ext__func_info_rec_size e = ei_rec_size (ext_func_info e)"

definition btf_ext__line_info_rec_size :: "btf_extension \<Rightarrow> u32" where
  "btf_ext__line_info_rec_size e = ei_rec_size (ext_line_info e)"

section \<open>Relocating records\<close>

text \<open>The bytes that \<^verbatim>\<open>realloc\<close> adds have no value before the copy writes them; they are zeros here.\<close>

definition realloc_bytes :: "bytes \<Rightarrow> nat \<Rightarrow> bytes" where
  "realloc_bytes old n = take n old @ replicate (n - length old) 0"

text \<open>The loop that adjusts the first word of the records \<open>i\<close> and following, \<open>n\<close> of them.\<close>

fun adjust_insn_off :: "nat \<Rightarrow> u32 \<Rightarrow> bytes \<Rightarrow> u32 \<Rightarrow> u32 \<Rightarrow> u32 \<Rightarrow> bytes option" where
  "adjust_insn_off 0 i data existing_len record_size insns_cnt = Some data"
| "adjust_insn_off (Suc n) i data existing_len record_size insns_cnt = do {
     let off = unat existing_len + unat (i * record_size);
     insn_off \<leftarrow> load32 data off;
     data \<leftarrow> store data off (le_of_word 4 (insn_off div 8 + insns_cnt));
     adjust_insn_off n (i + 1) data existing_len record_size insns_cnt
   }"

definition reloc_sec :: "bool \<Rightarrow> bytes \<Rightarrow> nat \<Rightarrow> u32 \<Rightarrow> u32 \<Rightarrow> u32 \<Rightarrow> bytes \<Rightarrow> u32 \<Rightarrow> (int \<times> bytes \<times> u32) option" where
  "reloc_sec realloc_ok d sinfo num_info record_size insns_cnt info cnt =
     (let records_len = num_info * record_size;
          existing_len = cnt * record_size
      in if \<not> realloc_ok then Some (- ENOMEM, info, cnt)
         else do {
           let data = realloc_bytes info (unat (existing_len + records_len));
           recs \<leftarrow> load d (sinfo + 8) (unat records_len);
           data \<leftarrow> store data (unat existing_len) recs;
           data \<leftarrow> adjust_insn_off (unat num_info) 0 data existing_len record_size insns_cnt;
           Some (0, data, cnt + num_info)
         })"

text \<open>The search for the section. Skipping a section adds its length in 32 bits; the option monad gives a
  search that never ends no value.\<close>

partial_function (option) reloc_loop ::
    "bool \<Rightarrow> btf \<Rightarrow> bytes \<Rightarrow> bytes \<Rightarrow> u32 \<Rightarrow> u32 \<Rightarrow> bytes \<Rightarrow> u32 \<Rightarrow> nat \<Rightarrow> u64 \<Rightarrow> (int \<times> bytes \<times> u32) option" where
  "reloc_loop realloc_ok b d sec_name record_size insns_cnt info cnt sinfo remain_len =
     (if remain_len = 0 then Some (- ENOENT, info, cnt)
      else do {
        num_info \<leftarrow> load32 d (sinfo + 4);
        name_off \<leftarrow> load32 d sinfo;
        name \<leftarrow> btf__name_by_offset b name_off;
        p \<leftarrow> name;
        same \<leftarrow> strcmp_at (btf_data b) p sec_name;
        let step = 8 + num_info * record_size;
        if \<not> same then
          reloc_loop realloc_ok b d sec_name record_size insns_cnt info cnt (sinfo + 8 + unat (num_info * record_size))
            (remain_len - ucast step)
        else reloc_sec realloc_ok d sinfo num_info record_size insns_cnt info cnt
      })"

definition btf_ext_reloc_info ::
    "bool \<Rightarrow> btf \<Rightarrow> bytes \<Rightarrow> btf_ext_info \<Rightarrow> bytes \<Rightarrow> u32 \<Rightarrow> bytes \<Rightarrow> u32 \<Rightarrow> (int \<times> bytes \<times> u32) option" where
  "btf_ext_reloc_info realloc_ok b d ext_info sec_name insns_cnt info cnt =
     reloc_loop realloc_ok b d sec_name (ei_rec_size ext_info) insns_cnt info cnt (ei_info ext_info) (ucast (ei_len ext_info))"

definition btf_ext__reloc_func_info ::
    "bool \<Rightarrow> btf \<Rightarrow> btf_extension \<Rightarrow> bytes \<Rightarrow> u32 \<Rightarrow> bytes \<Rightarrow> u32 \<Rightarrow> (int \<times> bytes \<times> u32) option" where
  "btf_ext__reloc_func_info realloc_ok b e sec_name insns_cnt func_info cnt =
     btf_ext_reloc_info realloc_ok b (ext_data e) (ext_func_info e) sec_name insns_cnt func_info cnt"

definition btf_ext__reloc_line_info ::
    "bool \<Rightarrow> btf \<Rightarrow> btf_extension \<Rightarrow> bytes \<Rightarrow> u32 \<Rightarrow> bytes \<Rightarrow> u32 \<Rightarrow> (int \<times> bytes \<times> u32) option" where
  "btf_ext__reloc_line_info realloc_ok b e sec_name insns_cnt line_info cnt =
     btf_ext_reloc_info realloc_ok b (ext_data e) (ext_line_info e) sec_name insns_cnt line_info cnt"

section \<open>The layout the checks establish\<close>

text \<open>From \<open>pos\<close> to \<open>fin\<close> there are headers, each followed by its records; \<open>secs\<close> lists them with their
  offsets and the numbers of their records.\<close>

inductive ext_tiled :: "bytes \<Rightarrow> nat \<Rightarrow> nat \<Rightarrow> nat \<Rightarrow> (nat \<times> u32) list \<Rightarrow> bool" for d r where
  tiled_nil: "ext_tiled d r fin fin []"
| tiled_cons: "load32 d (pos + 4) = Some num \<Longrightarrow> num \<noteq> 0 \<Longrightarrow> ext_tiled d r (pos + 8 + unat num * r) fin secs
    \<Longrightarrow> ext_tiled d r pos fin ((pos, num) # secs)"

inductive_cases ext_tiled_nilE: "ext_tiled d r pos fin []"
inductive_cases ext_tiled_consE: "ext_tiled d r pos fin ((p, num) # secs)"

lemma ext_tiled_le: "ext_tiled d r pos fin secs \<Longrightarrow> pos \<le> fin"
  by (induction rule: ext_tiled.induct) auto

lemma ext_tiled_unique: "ext_tiled d r pos fin s1 \<Longrightarrow> ext_tiled d r pos fin s2 \<Longrightarrow> s1 = s2"
proof (induction arbitrary: s2 rule: ext_tiled.induct)
  case (tiled_nil fin)
  then show ?case by cases (auto dest: ext_tiled_le)
next
  case (tiled_cons pos num fin secs)
  then have "pos < fin" by (auto dest: ext_tiled_le)
  with tiled_cons.prems tiled_cons.hyps(1) tiled_cons.IH show ?case by cases auto
qed

definition ext_info_ok :: "bytes \<Rightarrow> nat \<Rightarrow> btf_ext_info \<Rightarrow> bool" where
  "ext_info_ok d min_rec i \<longleftrightarrow> i = ext_info_null \<or>
     (min_rec \<le> unat (ei_rec_size i) \<and> ei_len i \<noteq> 0 \<and> ei_info i + unat (ei_len i) \<le> length d \<and>
      (\<exists>secs. ext_tiled d (unat (ei_rec_size i)) (ei_info i) (ei_info i + unat (ei_len i)) secs))"

definition ext_ok :: "btf_extension \<Rightarrow> bool" where
  "ext_ok e \<longleftrightarrow> ext_info_ok (ext_data e) 8 (ext_func_info e) \<and> ext_info_ok (ext_data e) 16 (ext_line_info e)
     \<and> ext_info_ok (ext_data e) 16 (ext_field_reloc_info e)"

lemma ext_secs_loop_defined: "pos + left \<le> length d \<Longrightarrow> ext_secs_loop d r pos left \<noteq> None"
proof (induction d r pos left rule: ext_secs_loop.induct)
  case (1 d r pos left)
  show ?case
    using 1 by (subst ext_secs_loop.simps) (auto simp: load32_def load_def Let_def simp del: not_None_eq)
qed

lemma ext_secs_loop_tiled:
  assumes "ext_secs_loop d r pos left = Some 0"
  shows "\<exists>secs. ext_tiled d (unat r) pos (pos + left) secs"
  using assms
proof (induction d r pos left rule: ext_secs_loop.induct)
  case (1 d r pos left)
  show ?case
  proof (cases "left = 0")
    case True
    then show ?thesis using tiled_nil by auto
  next
    case False
    then obtain num where num: "load32 d (pos + 4) = Some num" "num \<noteq> 0" "\<not> left < 8"
      "\<not> left < 8 + unat num * unat r" "ext_secs_loop d r (pos + (8 + unat num * unat r)) (left - (8 + unat num * unat r)) = Some 0"
      using 1(2) by (subst (asm) ext_secs_loop.simps) (auto simp: Let_def errno_defs split: if_splits option.splits)
    obtain secs where "ext_tiled d (unat r) (pos + (8 + unat num * unat r)) (pos + left) secs"
      using 1(1) [OF False num(3,1,2) refl num(4,5)] num(4) by auto
    then show ?thesis using tiled_cons [OF num(1,2)] by (metis add.assoc)
  qed
qed

lemma btf_ext_setup_info_ok:
  assumes "unat data_size = length d" "8 \<le> length d" "ext_info_ok d (unat min_rec) i"
  shows "case btf_ext_setup_info d data_size off len min_rec i of
      None \<Rightarrow> False
    | Some (err, i') \<Rightarrow> if err = 0 then ext_info_ok d (unat min_rec) i' else i' = i"
proof -
  obtain h where h: "ext_hdr_len d = Some h" using assms(2) by (simp add: ext_hdr_len_def load32_def load_def)
  show ?thesis
  proof (cases "len = 0 \<or> off AND 3 \<noteq> 0 \<or> unat data_size < unat h + unat off + unat len \<or> unat len < 4")
    case True
    then show ?thesis using assms(3) h by (auto simp: btf_ext_setup_info_def errno_defs Let_def)
  next
    case fits: False
    then obtain r where r: "load32 d (unat h + unat off) = Some r"
      using assms(1) by (simp add: load32_def load_def)
    have "ext_secs_loop d r (unat h + unat off + 4) (unat len - 4) \<noteq> None"
      using fits assms(1) by (intro ext_secs_loop_defined) simp
    then obtain err where err: "ext_secs_loop d r (unat h + unat off + 4) (unat len - 4) = Some err" by blast
    have len: "unat (len - 4) = unat len - 4" using fits unat_sub [of 4 len] by (simp add: word_le_nat_alt)
    have "ext_info_ok d (unat min_rec) \<lparr>ei_info = unat h + unat off + 4, ei_rec_size = r, ei_len = len - 4\<rparr>"
      if z: "err = 0" "\<not> r < min_rec" "unat len - 4 \<noteq> 0"
    proof -
      let ?p = "unat h + unat off + 4"
      obtain secs where "ext_tiled d (unat r) ?p (?p + unat (len - 4)) secs"
        using ext_secs_loop_tiled [of d r ?p "unat len - 4"] err z(1) by (auto simp: len)
      moreover have "?p + unat (len - 4) \<le> length d" using fits assms(1) by (simp add: len)
      moreover have "len - 4 \<noteq> 0" using z(3) len by auto
      ultimately show ?thesis using z(2) by (auto simp: ext_info_ok_def word_le_nat_alt not_less)
    qed
    then show ?thesis using fits h r err by (auto simp: btf_ext_setup_info_def errno_defs Let_def)
  qed
qed

lemma ext_info_ok_null [simp]: "ext_info_ok d n ext_info_null"
  by (simp add: ext_info_ok_def)

lemma btf_ext_setup_steps:
  assumes "unat (ext_data_size e) = length (ext_data e)" "ext_ok e"
  shows "24 \<le> length (ext_data e) \<Longrightarrow> \<exists>err i. btf_ext_setup_func_info e = Some (err, e\<lparr>ext_func_info := i\<rparr>)
      \<and> (err = 0 \<longrightarrow> ext_ok (e\<lparr>ext_func_info := i\<rparr>))"
    and "24 \<le> length (ext_data e) \<Longrightarrow> \<exists>err i. btf_ext_setup_line_info e = Some (err, e\<lparr>ext_line_info := i\<rparr>)
      \<and> (err = 0 \<longrightarrow> ext_ok (e\<lparr>ext_line_info := i\<rparr>))"
    and "32 \<le> length (ext_data e) \<Longrightarrow> \<exists>err i. btf_ext_setup_field_reloc e = Some (err, e\<lparr>ext_field_reloc_info := i\<rparr>)
      \<and> (err = 0 \<longrightarrow> ext_ok (e\<lparr>ext_field_reloc_info := i\<rparr>))"
proof -
  have step: "\<exists>err i'. btf_ext_setup_info (ext_data e) (ext_data_size e) off len min_rec i = Some (err, i')
      \<and> (err = 0 \<longrightarrow> ext_info_ok (ext_data e) (unat min_rec) i')"
    if "8 \<le> length (ext_data e)" "ext_info_ok (ext_data e) (unat min_rec) i" for min_rec i off len
    using btf_ext_setup_info_ok [OF assms(1) that, of off len] by (auto split: option.splits if_splits)
  have ld: "\<exists>w. load32 (ext_data e) k = Some w" if "k + 4 \<le> length (ext_data e)" for k
    using that by (simp add: load32_def load_def)
  show "\<exists>err i. btf_ext_setup_func_info e = Some (err, e\<lparr>ext_func_info := i\<rparr>) \<and> (err = 0 \<longrightarrow> ext_ok (e\<lparr>ext_func_info := i\<rparr>))"
    if len: "24 \<le> length (ext_data e)"
  proof -
    obtain off l where ol: "load32 (ext_data e) 8 = Some off" "load32 (ext_data e) 12 = Some l" using ld [of 8] ld [of 12] len by auto
    show ?thesis
      using step [of 8 "ext_func_info e" off l] len assms(2) by (auto simp: btf_ext_setup_func_info_def ext_ok_def ol)
  qed
  show "\<exists>err i. btf_ext_setup_line_info e = Some (err, e\<lparr>ext_line_info := i\<rparr>) \<and> (err = 0 \<longrightarrow> ext_ok (e\<lparr>ext_line_info := i\<rparr>))"
    if len: "24 \<le> length (ext_data e)"
  proof -
    obtain off l where ol: "load32 (ext_data e) 16 = Some off" "load32 (ext_data e) 20 = Some l" using ld [of 16] ld [of 20] len by auto
    show ?thesis
      using step [of 16 "ext_line_info e" off l] len assms(2) by (auto simp: btf_ext_setup_line_info_def ext_ok_def ol)
  qed
  show "\<exists>err i. btf_ext_setup_field_reloc e = Some (err, e\<lparr>ext_field_reloc_info := i\<rparr>) \<and> (err = 0 \<longrightarrow> ext_ok (e\<lparr>ext_field_reloc_info := i\<rparr>))"
    if len: "32 \<le> length (ext_data e)"
  proof -
    obtain off l where ol: "load32 (ext_data e) 24 = Some off" "load32 (ext_data e) 28 = Some l" using ld [of 24] ld [of 28] len by auto
    show ?thesis
      using step [of 16 "ext_field_reloc_info e" off l] len assms(2) by (auto simp: btf_ext_setup_field_reloc_def ext_ok_def ol)
  qed
qed

lemma btf_ext_new_ok:
  assumes "unat sz \<le> length data"
  shows "\<exists>r. btf_ext__new calloc_ok malloc_ok data sz = Some r \<and> (\<forall>e. r = Inr e \<longrightarrow> ext_ok e \<and> ext_data e = take (unat sz) data)"
proof -
  define e0 where "e0 = \<lparr>ext_data = take (unat sz) data, ext_data_size = sz, ext_func_info = ext_info_null,
    ext_line_info = ext_info_null, ext_field_reloc_info = ext_info_null\<rparr>"
  have e0: "unat (ext_data_size e0) = length (ext_data e0)" "ext_ok e0" "length (ext_data e0) = unat sz" "ext_data e0 = take (unat sz) data"
    using assms by (simp_all add: e0_def ext_ok_def)
  have "btf_ext_parse_hdr data sz \<noteq> None"
    using assms by (simp add: btf_ext_parse_hdr_def ext_hdr_len_def load32_def load16_def load_def arr_get_def del: not_None_eq)
  then obtain err where err: "btf_ext_parse_hdr data sz = Some err" by blast
  show ?thesis
  proof (cases "err = 0 \<and> calloc_ok \<and> malloc_ok")
    case False
    then show ?thesis using err by (auto simp: btf_ext__new_def)
  next
    case True
    obtain h where h: "ext_hdr_len data = Some h" "8 \<le> unat sz" "unat h \<le> unat sz"
      using True err by (auto simp: btf_ext_parse_hdr_def errno_defs word_less_nat_alt split: if_splits Option.bind_splits)
    then have h0: "ext_hdr_len (ext_data e0) = Some h"
      using assms by (auto simp: e0(4) ext_hdr_len_def load32_def load_def drop_take min_def split: if_splits)
    have new: "btf_ext__new calloc_ok malloc_ok data sz =
      (if h < 24 then Some (Inr e0)
       else Option.bind (btf_ext_setup_func_info e0) (\<lambda>(err, e). if err \<noteq> 0 then Some (Inl err)
         else Option.bind (btf_ext_setup_line_info e) (\<lambda>(err, e). if err \<noteq> 0 then Some (Inl err)
           else if h < 32 then Some (Inr e)
           else Option.bind (btf_ext_setup_field_reloc e) (\<lambda>(err, e). Some (if err \<noteq> 0 then Inl err else Inr e)))))"
      using True err h0 [unfolded e0(4)] assms by (simp add: btf_ext__new_def load_def e0_def)
    show ?thesis
    proof (cases "h < 24")
      case True
      then show ?thesis using new e0 by simp
    next
      case h24: False
      then have l24: "24 \<le> length (ext_data e0)" using h(3) e0(3) by (simp add: word_less_nat_alt)
      obtain err1 i1 where s1: "btf_ext_setup_func_info e0 = Some (err1, e0\<lparr>ext_func_info := i1\<rparr>)"
        "err1 = 0 \<Longrightarrow> ext_ok (e0\<lparr>ext_func_info := i1\<rparr>)" using btf_ext_setup_steps(1) [OF e0(1,2) l24] by blast
      let ?e1 = "e0\<lparr>ext_func_info := i1\<rparr>"
      have e1: "unat (ext_data_size ?e1) = length (ext_data ?e1)" "24 \<le> length (ext_data ?e1)" using e0 l24 by simp_all
      obtain err2 i2 where s2: "err1 = 0 \<Longrightarrow> btf_ext_setup_line_info ?e1 = Some (err2, ?e1\<lparr>ext_line_info := i2\<rparr>)"
        "err1 = 0 \<Longrightarrow> err2 = 0 \<Longrightarrow> ext_ok (?e1\<lparr>ext_line_info := i2\<rparr>)"
        using btf_ext_setup_steps(2) [OF e1(1) s1(2) e1(2)] by blast
      let ?e2 = "?e1\<lparr>ext_line_info := i2\<rparr>"
      have e2: "unat (ext_data_size ?e2) = length (ext_data ?e2)" using e0 by simp
      have l32: "32 \<le> length (ext_data ?e2)" if "\<not> h < 32" using that h(3) e0(3) by (simp add: word_less_nat_alt)
      obtain err3 i3 where s3: "err1 = 0 \<Longrightarrow> err2 = 0 \<Longrightarrow> \<not> h < 32 \<Longrightarrow> btf_ext_setup_field_reloc ?e2 = Some (err3, ?e2\<lparr>ext_field_reloc_info := i3\<rparr>)"
        "err1 = 0 \<Longrightarrow> err2 = 0 \<Longrightarrow> \<not> h < 32 \<Longrightarrow> err3 = 0 \<Longrightarrow> ext_ok (?e2\<lparr>ext_field_reloc_info := i3\<rparr>)"
        using btf_ext_setup_steps(3) [OF e2 s2(2) l32] by blast
      show ?thesis using new h24 s1 s2 s3 e0(4) by (cases "err1 = 0"; cases "err2 = 0"; cases "h < 32") auto
    qed
  qed
qed

section \<open>Facts about the relocation\<close>

fun records :: "nat \<Rightarrow> nat \<Rightarrow> bytes \<Rightarrow> bytes list" where
  "records 0 r bs = []"
| "records (Suc n) r bs = take r bs # records n r (drop r bs)"

definition reloc_record :: "u32 \<Rightarrow> bytes \<Rightarrow> bytes" where
  "reloc_record insns_cnt rec = le_of_word 4 (word_of_le (take 4 rec) div 8 + insns_cnt :: u32) @ drop 4 rec"

lemma records_take: "records n r (take (n * r) bs) = records n r bs"
proof (induction n arbitrary: bs)
  case (Suc n)
  have "drop r (take (r + n * r) bs) = take (n * r) (drop r bs)" by (simp add: drop_take)
  then show ?case using Suc by (simp add: min_def)
qed simp

lemma length_reloc_record: "4 \<le> length rec \<Longrightarrow> length (reloc_record k rec) = length rec"
  by (simp add: reloc_record_def)

lemma unat_mult_of_nat:
  assumes "k * unat (r :: u32) < 2 ^ 32"
  shows "unat (of_nat k * r) = k * unat r"
proof -
  have "of_nat k * r = (of_nat (k * unat r) :: u32)" by simp
  then show ?thesis using unat_of_nat_small [where 'a = 32, of "k * unat r"] assms by (simp del: of_nat_mult)
qed

lemma adjust_one:
  assumes "length X = off" "4 \<le> length R"
  shows "load32 (X @ R @ Y) off = Some (word_of_le (take 4 R))"
    and "store (X @ R @ Y) off (le_of_word 4 (word_of_le (take 4 R) div 8 + k :: u32)) = Some (X @ reloc_record k R @ Y)"
  using assms by (simp_all add: load32_def load_def store_def reloc_record_def)

lemma adjust_insn_off_records:
  assumes "length data = ex + (k + n) * unat r" "ex + (k + n) * unat r < 2 ^ 32" "4 \<le> unat r" "unat existing_len = ex"
  shows "adjust_insn_off n (of_nat k) data existing_len r c =
    Some (take (ex + k * unat r) data @ concat (map (reloc_record c) (records n (unat r) (drop (ex + k * unat r) data))))"
  using assms
proof (induction n arbitrary: k data)
  case (Suc n)
  let ?off = "ex + k * unat r"
  let ?X = "take ?off data" and ?R = "take (unat r) (drop ?off data)" and ?Y = "drop (unat r) (drop ?off data)"
  have data: "data = ?X @ ?R @ ?Y" by (simp only: append_take_drop_id)
  have lens: "length ?X = ?off" "length ?R = unat r" using Suc.prems(1) by (simp_all add: algebra_simps)
  have "k * unat r < 2 ^ 32" using Suc.prems(2) by (simp add: algebra_simps)
  then have o: "unat existing_len + unat (of_nat k * r) = ?off" using Suc.prems(4) by (simp add: unat_mult_of_nat)
  let ?data = "?X @ reloc_record c ?R @ ?Y"
  have R4: "4 \<le> length ?R" using lens(2) Suc.prems(3) by simp
  have lR: "length (reloc_record c ?R) = unat r" using length_reloc_record [OF R4] lens(2) by simp
  have ld: "load32 data ?off = Some (word_of_le (take 4 ?R))"
    and st: "store data ?off (le_of_word 4 (word_of_le (take 4 ?R) div 8 + c :: u32)) = Some ?data"
    using adjust_one [OF lens(1) R4] data by metis+
  have len: "length ?data = length data" using lR lens Suc.prems(1) by (simp add: algebra_simps)
  have s: "adjust_insn_off (Suc n) (of_nat k) data existing_len r c = adjust_insn_off n (of_nat (Suc k)) ?data existing_len r c"
    unfolding adjust_insn_off.simps Let_def o ld st Option.bind.simps by (simp add: add.commute)
  have "adjust_insn_off n (of_nat (Suc k)) ?data existing_len r c =
    Some (take (ex + Suc k * unat r) ?data @ concat (map (reloc_record c) (records n (unat r) (drop (ex + Suc k * unat r) ?data))))"
    using Suc.prems len by (intro Suc.IH) (simp_all add: algebra_simps)
  moreover have "take (ex + Suc k * unat r) ?data = ?X @ reloc_record c ?R" "drop (ex + Suc k * unat r) ?data = ?Y"
    using lR lens(1) by (simp_all add: algebra_simps)
  ultimately show ?case unfolding s by simp
qed simp

lemma ext_tiled_bounds:
  assumes "ext_tiled d r pos fin secs" "(p, num) \<in> set secs"
  shows "pos \<le> p \<and> p + 8 + unat num * r \<le> fin \<and> load32 d (p + 4) = Some num"
  using assms
proof (induction rule: ext_tiled.induct)
  case (tiled_cons pos num' fin secs)
  then show ?case using ext_tiled_le [OF tiled_cons.hyps(3)] by auto
qed simp

lemma reloc_sec_result:
  assumes "length info = unat cnt * unat r" "unat cnt * unat r + unat num * unat r < 2 ^ 32" "4 \<le> unat r"
    and "p + 8 + unat num * unat r \<le> length d"
  shows "reloc_sec True d p num r c info cnt =
    Some (0, info @ concat (map (reloc_record c) (records (unat num) (unat r) (drop (p + 8) d))), cnt + num)"
proof -
  have rl: "unat (num * r) = unat num * unat r" "unat (cnt * r) = unat cnt * unat r"
    using unat_mult_of_nat [of "unat num" r] unat_mult_of_nat [of "unat cnt" r] assms(2) by simp_all
  then have sum: "unat (cnt * r + num * r) = unat cnt * unat r + unat num * unat r"
    using unat_add_lem [of "cnt * r" "num * r"] assms(2) by simp
  let ?recs = "take (unat num * unat r) (drop (p + 8) d)"
  have len: "length ?recs = unat num * unat r" using assms(4) by simp
  have "adjust_insn_off (unat num) (of_nat 0) (info @ ?recs) (cnt * r) r c =
    Some (take (unat cnt * unat r + 0 * unat r) (info @ ?recs) @
      concat (map (reloc_record c) (records (unat num) (unat r) (drop (unat cnt * unat r + 0 * unat r) (info @ ?recs)))))"
    using assms(1-3) rl len by (intro adjust_insn_off_records) simp_all
  then have adj: "adjust_insn_off (unat num) 0 (info @ ?recs) (cnt * r) r c =
    Some (info @ concat (map (reloc_record c) (records (unat num) (unat r) (drop (p + 8) d))))"
    using assms(1) by (simp add: records_take)
  have st: "store (realloc_bytes info (unat cnt * unat r + unat num * unat r)) (unat cnt * unat r) ?recs = Some (info @ ?recs)"
    using assms(1) len by (simp add: store_def realloc_bytes_def)
  show ?thesis
    unfolding reloc_sec_def Let_def rl sum using assms(4) st adj by (simp add: load_def)
qed

definition sec_named :: "btf \<Rightarrow> bytes \<Rightarrow> bytes \<Rightarrow> nat \<times> u32 \<Rightarrow> bool option" where
  "sec_named b d nm s = do {
     off \<leftarrow> load32 d (fst s);
     name \<leftarrow> btf__name_by_offset b off;
     p \<leftarrow> name;
     strcmp_at (btf_data b) p nm
   }"

lemma reloc_loop_result:
  assumes "ext_tiled d (unat r) pos fin secs" "fin - pos < 2 ^ 32" "\<forall>s\<in>set secs. sec_named b d nm s \<noteq> None"
  shows "reloc_loop ok b d nm r c info cnt pos (of_nat (fin - pos)) =
    (case find (\<lambda>s. sec_named b d nm s = Some True) secs of
       None \<Rightarrow> Some (- ENOENT, info, cnt)
     | Some (p, num) \<Rightarrow> reloc_sec ok d p num r c info cnt)"
  using assms
proof (induction rule: ext_tiled.induct)
  case (tiled_nil fin)
  then show ?case by (simp add: reloc_loop.simps)
next
  case (tiled_cons pos num fin secs)
  let ?n = "8 + unat num * unat r" and ?left = "fin - (pos + 8 + unat num * unat r)"
  have le: "pos + 8 + unat num * unat r \<le> fin" using ext_tiled_le [OF tiled_cons.hyps(3)] .
  then have split: "fin - pos = ?n + ?left" by simp
  have small: "?n < 2 ^ 32" using le tiled_cons.prems(1) by linarith
  then have mul: "unat (num * r) = unat num * unat r" using unat_mult_of_nat [of "unat num" r] by simp
  have step: "ucast (8 + num * r) = (of_nat ?n :: u64)"
  proof -
    have "unat (8 + num * r) = ?n" using unat_add_lem [of 8 "num * r"] mul small by simp
    then show ?thesis by (metis of_nat_unat)
  qed
  have "unat (of_nat (fin - pos) :: u64) = fin - pos" using tiled_cons.prems(1) by (intro unat_of_nat_small) simp
  moreover have "fin - pos \<noteq> 0" using le by linarith
  ultimately have nz: "(of_nat (fin - pos) :: u64) \<noteq> 0" by (metis unat_0)
  obtain x where x: "sec_named b d nm (pos, num) = Some x" using tiled_cons.prems(2) by auto
  then obtain off q where q: "load32 d pos = Some off" "btf__name_by_offset b off = Some (Some q)"
    "strcmp_at (btf_data b) q nm = Some x"
    by (auto simp: sec_named_def split: Option.bind_splits)
  have rest: "(of_nat (fin - pos) :: u64) - of_nat ?n = of_nat ?left" unfolding split of_nat_add by simp
  show ?case
  proof (cases x)
    case True
    then show ?thesis using nz q x tiled_cons.hyps(1) by (subst reloc_loop.simps) (simp add: Let_def)
  next
    case False
    have "reloc_loop ok b d nm r c info cnt pos (of_nat (fin - pos)) =
        reloc_loop ok b d nm r c info cnt (pos + 8 + unat num * unat r) (of_nat (fin - pos) - of_nat ?n)"
      using False nz q tiled_cons.hyps(1) by (subst reloc_loop.simps) (simp only: Let_def mul step if_False if_True Option.bind.simps simp_thms)
    then show ?thesis using tiled_cons.IH tiled_cons.prems le False x by (simp only: rest) simp
  qed
qed

lemma ext_info_secs:
  assumes "ext_info_ok d min_rec i"
  obtains secs where "ext_tiled d (unat (ei_rec_size i)) (ei_info i) (ei_info i + unat (ei_len i)) secs"
    "secs \<noteq> [] \<Longrightarrow> ei_info i + unat (ei_len i) \<le> length d \<and> min_rec \<le> unat (ei_rec_size i)"
proof (cases "i = ext_info_null")
  case True
  then show thesis using that [of "[]"] tiled_nil by (simp add: ext_info_null_def)
qed (use assms that in \<open>auto simp: ext_info_ok_def\<close>)

lemma btf_ext_reloc_info_result:
  assumes "ext_info_ok d min_rec i" "4 \<le> min_rec"
  shows "\<exists>secs. ext_tiled d (unat (ei_rec_size i)) (ei_info i) (ei_info i + unat (ei_len i)) secs \<and>
    (\<forall>b nm k info cnt. (\<forall>s\<in>set secs. sec_named b d nm s \<noteq> None) \<longrightarrow> length info = unat cnt * unat (ei_rec_size i)
      \<longrightarrow> unat cnt * unat (ei_rec_size i) + unat (ei_len i) < 2 ^ 32
      \<longrightarrow> btf_ext_reloc_info True b d i nm k info cnt =
        (case find (\<lambda>s. sec_named b d nm s = Some True) secs of
           None \<Rightarrow> Some (- ENOENT, info, cnt)
         | Some (p, num) \<Rightarrow> Some (0, info @ concat (map (reloc_record k) (records (unat num) (unat (ei_rec_size i)) (drop (p + 8) d))), cnt + num)))"
proof -
  let ?r = "ei_rec_size i" and ?fin = "ei_info i + unat (ei_len i)"
  obtain secs where secs: "ext_tiled d (unat ?r) (ei_info i) ?fin secs"
    "secs \<noteq> [] \<Longrightarrow> ?fin \<le> length d \<and> min_rec \<le> unat ?r" using ext_info_secs [OF assms(1)] by metis
  have "btf_ext_reloc_info True b d i nm k info cnt =
        (case find (\<lambda>s. sec_named b d nm s = Some True) secs of
           None \<Rightarrow> Some (- ENOENT, info, cnt)
         | Some (p, num) \<Rightarrow> Some (0, info @ concat (map (reloc_record k) (records (unat num) (unat ?r) (drop (p + 8) d))), cnt + num))"
    if names: "\<forall>s\<in>set secs. sec_named b d nm s \<noteq> None" and len: "length info = unat cnt * unat ?r"
      and small: "unat cnt * unat ?r + unat (ei_len i) < 2 ^ 32" for b nm k info cnt
  proof -
    have "btf_ext_reloc_info True b d i nm k info cnt =
       (case find (\<lambda>s. sec_named b d nm s = Some True) secs of
         None \<Rightarrow> Some (- ENOENT, info, cnt) | Some (p, num) \<Rightarrow> reloc_sec True d p num ?r k info cnt)"
      using reloc_loop_result [OF secs(1) _ names, of True k info cnt] small by (simp add: btf_ext_reloc_info_def)
    moreover have "reloc_sec True d p num ?r k info cnt =
        Some (0, info @ concat (map (reloc_record k) (records (unat num) (unat ?r) (drop (p + 8) d))), cnt + num)"
      if "find (\<lambda>s. sec_named b d nm s = Some True) secs = Some (p, num)" for p num
    proof -
      have mem: "(p, num) \<in> set secs" using that by (auto simp: find_Some_iff)
      then have "?fin \<le> length d" "4 \<le> unat ?r" using secs(2) assms(2) by fastforce+
      moreover have "p + 8 + unat num * unat ?r \<le> ?fin" "ei_info i \<le> p" using ext_tiled_bounds [OF secs(1) mem] by simp_all
      ultimately show ?thesis using len small by (intro reloc_sec_result) linarith+
    qed
    ultimately show ?thesis by (auto split: option.splits)
  qed
  then show ?thesis using secs(1) by blast
qed

section \<open>Properties\<close>

text \<open>C34: checking an extension section never reads outside it, whatever it holds, and always returns: an error, or an
  extension whose three subsections are empty or lie inside the section and consist of headers that are each
  followed by exactly their records, at least one, of at least the smallest size.\<close>

theorem btf_ext_new_safe:
  assumes "unat sz \<le> length data"
  shows "\<exists>r. btf_ext__new calloc_ok malloc_ok data sz = Some r
    \<and> (\<forall>e. r = Inr e \<longrightarrow> ext_ok e \<and> ext_data e = take (unat sz) data)"
  using assms by (rule btf_ext_new_ok)

definition sample_ext :: bytes where
  "sample_ext = le_of_word 2 (0xeB9F :: u16) @ [1, 0] @ le_of_word 4 (24 :: u32) @ le_of_word 4 (0 :: u32) @ le_of_word 4 (28 :: u32)
     @ le_of_word 4 (28 :: u32) @ le_of_word 4 (0 :: u32)
     @ le_of_word 4 (8 :: u32) @ le_of_word 4 (1 :: u32) @ le_of_word 4 (2 :: u32)
     @ le_of_word 4 (8 :: u32) @ le_of_word 4 (1 :: u32) @ le_of_word 4 (16 :: u32) @ le_of_word 4 (2 :: u32)"

lemma sample_ext_accepted: "length sample_ext = 52 \<and> (case btf_ext__new True True sample_ext 52 of
    Some (Inr e) \<Rightarrow> ext_func_info e = \<lparr>ei_info = 28, ei_rec_size = 8, ei_len = 24\<rparr> | _ \<Rightarrow> False)"
  by code_simp

theorem btf_ext_new_safe_witness:
  "\<exists>e. btf_ext__new True True sample_ext 52 = Some (Inr e) \<and> ext_ok e \<and> ei_info (ext_func_info e) = 28"
proof -
  have "unat (52 :: u32) \<le> length sample_ext" using sample_ext_accepted by simp
  then show ?thesis
    using btf_ext_new_safe [of 52 sample_ext True True] sample_ext_accepted by (auto split: option.splits sum.splits)
qed

text \<open>relocating the function records of a section of the program: the records of the first header whose name is
  the section's are appended to the table, with the instruction offset of each divided by the size of an
  instruction and moved by the number of instructions before, every other byte as it was, and the count grows by their
  number; when there is no such header the error is returned and nothing changes.\<close>

lemma btf_ext_reloc_func_info_spec:
  assumes "btf_ext__new calloc_ok malloc_ok data sz = Some (Inr e)" "unat sz \<le> length data"
  shows "\<exists>secs. ext_tiled (ext_data e) (unat (btf_ext__func_info_rec_size e)) (ei_info (ext_func_info e))
        (ei_info (ext_func_info e) + unat (ei_len (ext_func_info e))) secs
    \<and> (\<forall>b nm insns_cnt info cnt.
         (\<forall>s\<in>set secs. sec_named b (ext_data e) nm s \<noteq> None)
         \<longrightarrow> length info = unat cnt * unat (btf_ext__func_info_rec_size e)
         \<longrightarrow> unat cnt * unat (btf_ext__func_info_rec_size e) + unat (ei_len (ext_func_info e)) < 2 ^ 32
         \<longrightarrow> btf_ext__reloc_func_info True b e nm insns_cnt info cnt =
           (case find (\<lambda>s. sec_named b (ext_data e) nm s = Some True) secs of
              None \<Rightarrow> Some (- ENOENT, info, cnt)
            | Some (p, num) \<Rightarrow> Some (0, info @ concat (map (reloc_record insns_cnt)
                (records (unat num) (unat (btf_ext__func_info_rec_size e)) (drop (p + 8) (ext_data e)))), cnt + num)))"
proof -
  have "ext_info_ok (ext_data e) 8 (ext_func_info e)"
    using btf_ext_new_ok [OF assms(2), of calloc_ok malloc_ok] assms(1) by (auto simp: ext_ok_def)
  from btf_ext_reloc_info_result [OF this] show ?thesis
    unfolding btf_ext__reloc_func_info_def btf_ext__func_info_rec_size_def by simp
qed

lemma sample_ext_loads: "load32 sample_ext 32 = Some 2" "load32 sample_ext 28 = Some 1"
  by code_simp+

lemma sample_ext_tiled: "ext_tiled sample_ext 8 28 52 [(28, 2)]"
  by (rule tiled_cons) (simp_all add: sample_ext_loads tiled_nil)

lemma sample_ext_named:
  assumes "btf_data b = sample_blob" "btf_strings b = 112"
  shows "sec_named b sample_ext (str_bytes ''int'') (28, 2) = Some True"
proof -
  have "hdr_str_len sample_blob = Some 21" "strcmp_at sample_blob 113 (str_bytes ''int'') = Some True" by code_simp+
  then show ?thesis using assms by (simp add: sec_named_def sample_ext_loads btf__name_by_offset_def)
qed

lemma sample_ext_records:
  "concat (map (reloc_record 10) (records 2 8 (drop 36 sample_ext))) =
     le_of_word 4 (11 :: u32) @ le_of_word 4 (1 :: u32) @ le_of_word 4 (12 :: u32) @ le_of_word 4 (2 :: u32)"
  by code_simp

lemma btf_ext_reloc_func_info_spec_example:
  "\<exists>b e. btf__new True True (\<lambda>_. True) sample_blob 133 = Some (Inr b) \<and> btf_ext__new True True sample_ext 52 = Some (Inr e)
    \<and> btf_ext__reloc_func_info True b e (str_bytes ''int'') 10 [] 0 =
        Some (0, le_of_word 4 (11 :: u32) @ le_of_word 4 (1 :: u32) @ le_of_word 4 (12 :: u32) @ le_of_word 4 (2 :: u32), 2)"
proof -
  obtain b where b: "btf__new True True (\<lambda>_. True) sample_blob 133 = Some (Inr b)" "btf_data b = sample_blob" "btf_strings b = 112"
    by (rule sample_btf)
  obtain e where e: "btf_ext__new True True sample_ext 52 = Some (Inr e)" "ext_func_info e = \<lparr>ei_info = 28, ei_rec_size = 8, ei_len = 24\<rparr>"
    using sample_ext_accepted by (auto split: option.splits sum.splits)
  have len: "unat (52 :: u32) \<le> length sample_ext" using sample_ext_accepted by simp
  then have d: "ext_data e = sample_ext" using btf_ext_new_ok [OF len, of True True] e(1) sample_ext_accepted by simp
  have u: "unat (btf_ext__func_info_rec_size e) = 8" by (simp add: btf_ext__func_info_rec_size_def e(2))
  from btf_ext_reloc_func_info_spec [OF e(1) len]
  obtain secs where secs: "ext_tiled sample_ext 8 28 52 secs"
    and all: "\<And>b nm k info cnt. (\<forall>s\<in>set secs. sec_named b sample_ext nm s \<noteq> None) \<Longrightarrow> length info = unat cnt * 8
      \<Longrightarrow> unat cnt * 8 + unat (24 :: u32) < 2 ^ 32
      \<Longrightarrow> btf_ext__reloc_func_info True b e nm k info cnt =
        (case find (\<lambda>s. sec_named b sample_ext nm s = Some True) secs of
           None \<Rightarrow> Some (- ENOENT, info, cnt)
         | Some (p, num) \<Rightarrow> Some (0, info @ concat (map (reloc_record k) (records (unat num) 8 (drop (p + 8) sample_ext))), cnt + num))"
    unfolding u d e(2) btf_ext_info.simps by auto
  have "secs = [(28, 2)]" using ext_tiled_unique [OF secs sample_ext_tiled] .
  then show ?thesis
    using all [of b "str_bytes ''int''" "[]" 0 10] sample_ext_named [OF b(2,3)] b(1) e(1) sample_ext_records by simp
qed

end
