(* ===== verification/Bpf_Sys.thy ===== *)
theory Bpf_Sys
  imports Base
begin

text \<open>
  \<^verbatim>\<open>eBPF_app/libbpf/src/bpf.c\<close>: the functions around the bpf system call that do more than fill in its argument, that is
  creating maps and loading programs with its retries. The kernel is an argument: a
  record of functions over its state, each of which returns a result of at least zero or minus the error number.
  The error number of the C library is part of the state. Outer \<open>None\<close> is undefined behaviour, or a loop that does
  not end because the kernel answers \<^verbatim>\<open>EAGAIN\<close> for ever.
\<close>

unbundle bit_operations_syntax

definition EAGAIN :: int where "EAGAIN = 11"
definition ENOSPC :: int where "ENOSPC = 28"
definition BPF_OBJ_NAME_LEN :: nat where "BPF_OBJ_NAME_LEN = 16"
definition BPF_F_NUMA_NODE :: u32 where "BPF_F_NUMA_NODE = 4"
definition BPF_PROG_TYPE_KPROBE :: nat where "BPF_PROG_TYPE_KPROBE = 2"
definition BPF_PROG_TYPE_TRACING :: nat where "BPF_PROG_TYPE_TRACING = 26"

lemmas sys_errno_defs = EAGAIN_def ENOSPC_def

record bpf_insn =
  in_code :: u8
  in_dst_reg :: u8
  in_src_reg :: u8
  in_off :: u16
  in_imm :: u32

section \<open>The kernel\<close>

text \<open>The arguments of the two commands: what the union holds when the system call is made. A name has 16 bytes.\<close>

record map_create_args =
  mc_type :: nat
  mc_key_size :: u32
  mc_value_size :: u32
  mc_max_entries :: u32
  mc_flags :: u32
  mc_name :: bytes
  mc_numa_node :: u32
  mc_btf_fd :: u32
  mc_btf_key_type_id :: u32
  mc_btf_value_type_id :: u32
  mc_ifindex :: u32
  mc_inner_map_fd :: u32

record prog_load_args =
  pl_type :: nat
  pl_attach_type :: nat
  pl_attach_btf_id :: u32
  pl_ifindex :: u32
  pl_insns :: "bpf_insn list"
  pl_license :: string
  pl_log_level :: u32
  pl_log_size :: nat
  pl_kern_version :: u32
  pl_btf_fd :: u32
  pl_func_info_rec_size :: u32
  pl_func_info_cnt :: u32
  pl_func_info :: "bytes option"
  pl_line_info_rec_size :: u32
  pl_line_info_cnt :: u32
  pl_line_info :: "bytes option"
  pl_name :: bytes
  pl_flags :: u32

text \<open>The answer to loading a program: the result, the sizes of the records as the kernel leaves them in the union, and
  the first byte of the log, if it wrote one.\<close>

record prog_load_answer =
  pa_ret :: int
  pa_func_rec_size :: u32
  pa_line_rec_size :: u32
  pa_log :: "u8 option"

record 'k bpf_kernel =
  bk_map_create :: "map_create_args \<Rightarrow> 'k \<Rightarrow> int \<times> 'k"
  bk_prog_load :: "prog_load_args \<Rightarrow> 'k \<Rightarrow> prog_load_answer \<times> 'k"

text \<open>A process: the state of the kernel, the error number, and the variables of the caller that it asked to be filled in.\<close>

record 'k process =
  p_kern :: 'k
  p_errno :: int
  p_user :: "nat \<Rightarrow> int"

text \<open>The convention of a system call: -1 and the error number, or the result.\<close>

definition sys_ret :: "int \<Rightarrow> 'k \<Rightarrow> 'k process \<Rightarrow> int \<times> 'k process" where
  "sys_ret r k p = (if r < 0 then (-1, p\<lparr>p_kern := k, p_errno := - r\<rparr>) else (r, p\<lparr>p_kern := k\<rparr>))"

section \<open>Creating maps\<close>

definition obj_name :: "string option \<Rightarrow> bytes" where
  "obj_name name = (case name of
     None \<Rightarrow> replicate BPF_OBJ_NAME_LEN 0
   | Some s \<Rightarrow> (let n = min (length s) (BPF_OBJ_NAME_LEN - 1)
               in take n (map (\<lambda>c. of_nat (of_char c)) s) @ replicate (BPF_OBJ_NAME_LEN - n) 0))"

record bpf_create_map_attr =
  cm_name :: "string option"
  cm_map_type :: nat
  cm_map_flags :: u32
  cm_key_size :: u32
  cm_value_size :: u32
  cm_max_entries :: u32
  cm_numa_node :: u32
  cm_btf_fd :: u32
  cm_btf_key_type_id :: u32
  cm_btf_value_type_id :: u32
  cm_map_ifindex :: u32
  cm_inner_map_fd :: u32

definition zero_map_attr :: bpf_create_map_attr where
  "zero_map_attr = \<lparr>cm_name = None, cm_map_type = 0, cm_map_flags = 0, cm_key_size = 0, cm_value_size = 0, cm_max_entries = 0,
     cm_numa_node = 0, cm_btf_fd = 0, cm_btf_key_type_id = 0, cm_btf_value_type_id = 0, cm_map_ifindex = 0, cm_inner_map_fd = 0\<rparr>"

definition map_args_of :: "bpf_create_map_attr \<Rightarrow> map_create_args" where
  "map_args_of a = \<lparr>mc_type = cm_map_type a, mc_key_size = cm_key_size a, mc_value_size = cm_value_size a,
     mc_max_entries = cm_max_entries a, mc_flags = cm_map_flags a, mc_name = obj_name (cm_name a), mc_numa_node = cm_numa_node a,
     mc_btf_fd = cm_btf_fd a, mc_btf_key_type_id = cm_btf_key_type_id a, mc_btf_value_type_id = cm_btf_value_type_id a,
     mc_ifindex = cm_map_ifindex a, mc_inner_map_fd = cm_inner_map_fd a\<rparr>"

definition bpf_create_map_xattr :: "('k, 'z) bpf_kernel_scheme \<Rightarrow> bpf_create_map_attr \<Rightarrow> 'k process \<Rightarrow> int \<times> 'k process" where
  "bpf_create_map_xattr kn a p = (let (r, k) = bk_map_create kn (map_args_of a) (p_kern p) in sys_ret r k p)"

definition bpf_create_map_node ::
    "('k, 'z) bpf_kernel_scheme \<Rightarrow> nat \<Rightarrow> string option \<Rightarrow> u32 \<Rightarrow> u32 \<Rightarrow> u32 \<Rightarrow> u32 \<Rightarrow> int \<Rightarrow> 'k process \<Rightarrow> int \<times> 'k process" where
  "bpf_create_map_node kn map_type name key_size value_size max_entries map_flags node p =
     (let a = zero_map_attr\<lparr>cm_name := name, cm_map_type := map_type, cm_map_flags := map_flags, cm_key_size := key_size,
                cm_value_size := value_size, cm_max_entries := max_entries\<rparr>;
          a = (if node \<ge> 0 then a\<lparr>cm_numa_node := of_int node, cm_map_flags := map_flags OR BPF_F_NUMA_NODE\<rparr> else a)
      in bpf_create_map_xattr kn a p)"

definition bpf_create_map ::
    "('k, 'z) bpf_kernel_scheme \<Rightarrow> nat \<Rightarrow> u32 \<Rightarrow> u32 \<Rightarrow> u32 \<Rightarrow> u32 \<Rightarrow> 'k process \<Rightarrow> int \<times> 'k process" where
  "bpf_create_map kn map_type key_size value_size max_entries map_flags p =
     bpf_create_map_xattr kn (zero_map_attr\<lparr>cm_map_type := map_type, cm_map_flags := map_flags, cm_key_size := key_size,
       cm_value_size := value_size, cm_max_entries := max_entries\<rparr>) p"

definition bpf_create_map_name ::
    "('k, 'z) bpf_kernel_scheme \<Rightarrow> nat \<Rightarrow> string option \<Rightarrow> u32 \<Rightarrow> u32 \<Rightarrow> u32 \<Rightarrow> u32 \<Rightarrow> 'k process \<Rightarrow> int \<times> 'k process" where
  "bpf_create_map_name kn map_type name key_size value_size max_entries map_flags p =
     bpf_create_map_xattr kn (zero_map_attr\<lparr>cm_name := name, cm_map_type := map_type, cm_map_flags := map_flags,
       cm_key_size := key_size, cm_value_size := value_size, cm_max_entries := max_entries\<rparr>) p"

definition bpf_create_map_in_map_node ::
    "('k, 'z) bpf_kernel_scheme \<Rightarrow> nat \<Rightarrow> string option \<Rightarrow> u32 \<Rightarrow> int \<Rightarrow> u32 \<Rightarrow> u32 \<Rightarrow> int \<Rightarrow> 'k process \<Rightarrow> int \<times> 'k process" where
  "bpf_create_map_in_map_node kn map_type name key_size inner_map_fd max_entries map_flags node p =
     (let a = (map_args_of zero_map_attr)\<lparr>mc_type := map_type, mc_key_size := key_size, mc_value_size := 4,
                mc_inner_map_fd := of_int inner_map_fd, mc_max_entries := max_entries, mc_flags := map_flags, mc_name := obj_name name\<rparr>;
          a = (if node \<ge> 0 then a\<lparr>mc_flags := map_flags OR BPF_F_NUMA_NODE, mc_numa_node := of_int node\<rparr> else a);
          (r, k) = bk_map_create kn a (p_kern p)
      in sys_ret r k p)"

definition bpf_create_map_in_map ::
    "('k, 'z) bpf_kernel_scheme \<Rightarrow> nat \<Rightarrow> string option \<Rightarrow> u32 \<Rightarrow> int \<Rightarrow> u32 \<Rightarrow> u32 \<Rightarrow> 'k process \<Rightarrow> int \<times> 'k process" where
  "bpf_create_map_in_map kn map_type name key_size inner_map_fd max_entries map_flags p =
     bpf_create_map_in_map_node kn map_type name key_size inner_map_fd max_entries map_flags (-1) p"

section \<open>Loading programs\<close>

text \<open>The union of the interface and the type to attach to is one field.\<close>

record bpf_load_program_attr =
  lp_prog_type :: nat
  lp_expected_attach_type :: nat
  lp_name :: "string option"
  lp_insns :: "bpf_insn list"
  lp_license :: string
  lp_kern_version :: u32
  lp_ifindex_or_btf_id :: u32
  lp_prog_btf_fd :: u32
  lp_func_info_rec_size :: u32
  lp_func_info :: "bytes option"
  lp_func_info_cnt :: u32
  lp_line_info_rec_size :: u32
  lp_line_info :: "bytes option"
  lp_line_info_cnt :: u32
  lp_log_level :: u32
  lp_prog_flags :: u32

text \<open>Zeroing what follows the part of each record that the kernel knows. \<open>None\<close>: a read behind the records.\<close>

fun zero_tails :: "nat \<Rightarrow> nat \<Rightarrow> nat \<Rightarrow> bytes \<Rightarrow> bytes option" where
  "zero_tails 0 actual expected orecord = Some []"
| "zero_tails (Suc cnt) actual expected orecord = do {
     r \<leftarrow> load orecord 0 expected;
     rest \<leftarrow> zero_tails cnt actual expected (drop actual orecord);
     Some (r @ replicate (actual - expected) 0 @ rest)
   }"

text \<open>Inner \<open>None\<close> is the null pointer.\<close>

definition alloc_zero_tailing_info :: "(nat \<Rightarrow> bool) \<Rightarrow> bytes option \<Rightarrow> u32 \<Rightarrow> u32 \<Rightarrow> u32 \<Rightarrow> bytes option option" where
  "alloc_zero_tailing_info malloc_ok orecord cnt actual_rec_size expected_rec_size =
     (if \<not> malloc_ok (unat actual_rec_size * unat cnt) then Some None
      else do {
        rec \<leftarrow> orecord;
        map_option Some (zero_tails (unat cnt) (unat actual_rec_size) (unat expected_rec_size) rec)
      })"

text \<open>The system call is repeated while it is interrupted. The kernel writes the sizes of the records it knows back into the
  argument, and the log into the buffer.\<close>

partial_function (option) sys_bpf_prog_load ::
    "('k, 'z) bpf_kernel_scheme \<Rightarrow> prog_load_args \<Rightarrow> u8 option \<Rightarrow> 'k process \<Rightarrow> (int \<times> prog_load_args \<times> u8 option \<times> 'k process) option" where
  "sys_bpf_prog_load kn a log p =
     (let (ans, k) = bk_prog_load kn a (p_kern p);
          a = a\<lparr>pl_func_info_rec_size := pa_func_rec_size ans, pl_line_info_rec_size := pa_line_rec_size ans\<rparr>;
          log = (if pl_log_level a \<noteq> 0 \<and> pa_log ans \<noteq> None then pa_log ans else log);
          (fd, p) = sys_ret (pa_ret ans) k p
      in if fd < 0 \<and> p_errno p = EAGAIN then sys_bpf_prog_load kn a log p else Some (fd, a, log, p))"

definition prog_args_of :: "bpf_load_program_attr \<Rightarrow> nat \<Rightarrow> prog_load_args" where
  "prog_args_of la log_buf_sz =
     \<lparr>pl_type = lp_prog_type la, pl_attach_type = lp_expected_attach_type la,
      pl_attach_btf_id = (if lp_prog_type la = BPF_PROG_TYPE_TRACING then lp_ifindex_or_btf_id la else 0),
      pl_ifindex = (if lp_prog_type la = BPF_PROG_TYPE_TRACING then 0 else lp_ifindex_or_btf_id la),
      pl_insns = lp_insns la, pl_license = lp_license la, pl_log_level = lp_log_level la,
      pl_log_size = (if lp_log_level la \<noteq> 0 then log_buf_sz else 0), pl_kern_version = lp_kern_version la, pl_btf_fd = lp_prog_btf_fd la,
      pl_func_info_rec_size = lp_func_info_rec_size la, pl_func_info_cnt = lp_func_info_cnt la, pl_func_info = lp_func_info la,
      pl_line_info_rec_size = lp_line_info_rec_size la, pl_line_info_cnt = lp_line_info_cnt la, pl_line_info = lp_line_info la,
      pl_name = obj_name (lp_name la), pl_flags = lp_prog_flags la\<rparr>"

text \<open>One correction after \<^verbatim>\<open>E2BIG\<close>: \<open>Inl\<close> leaves the function (memory), \<open>Inr None\<close> leaves the loop, otherwise the new
  argument and which of the two tables have been replaced.\<close>

definition correct_info ::
    "(nat \<Rightarrow> bool) \<Rightarrow> bpf_load_program_attr \<Rightarrow> prog_load_args \<Rightarrow> bool \<Rightarrow> bool \<Rightarrow> (unit + (prog_load_args \<times> bool \<times> bool) option) option" where
  "correct_info malloc_ok la a finfo linfo =
     (if \<not> finfo \<and> pl_func_info_cnt a \<noteq> 0 \<and> pl_func_info_rec_size a < lp_func_info_rec_size la then do {
        info \<leftarrow> alloc_zero_tailing_info malloc_ok (lp_func_info la) (lp_func_info_cnt la) (lp_func_info_rec_size la) (pl_func_info_rec_size a);
        Some (case info of
                None \<Rightarrow> Inl ()
              | Some i \<Rightarrow> Inr (Some (a\<lparr>pl_func_info := Some i, pl_func_info_rec_size := lp_func_info_rec_size la\<rparr>, True, linfo)))
      }
      else if \<not> linfo \<and> pl_line_info_cnt a \<noteq> 0 \<and> pl_line_info_rec_size a < lp_line_info_rec_size la then do {
        info \<leftarrow> alloc_zero_tailing_info malloc_ok (lp_line_info la) (lp_line_info_cnt la) (lp_line_info_rec_size la) (pl_line_info_rec_size a);
        Some (case info of
                None \<Rightarrow> Inl ()
              | Some i \<Rightarrow> Inr (Some (a\<lparr>pl_line_info := Some i, pl_line_info_rec_size := lp_line_info_rec_size la\<rparr>, finfo, True)))
      }
      else Some (Inr None))"

definition info_left :: "bool \<Rightarrow> bool \<Rightarrow> nat" where
  "info_left finfo linfo = (if finfo then 0 else 1) + (if linfo then 0 else 1)"

lemma correct_info_progress:
  "correct_info malloc_ok la a finfo linfo = Some (Inr (Some (a', finfo', linfo'))) \<Longrightarrow> info_left finfo' linfo' < info_left finfo linfo"
  by (auto simp: correct_info_def info_left_def split: if_splits option.splits Option.bind_splits)

text \<open>The loop: the first component says that the function returns without the attempt with a log.\<close>

function info_loop ::
    "('k, 'z) bpf_kernel_scheme \<Rightarrow> (nat \<Rightarrow> bool) \<Rightarrow> bpf_load_program_attr \<Rightarrow> prog_load_args \<Rightarrow> bool \<Rightarrow> bool \<Rightarrow> u8 option \<Rightarrow> int \<Rightarrow> 'k process
      \<Rightarrow> (bool \<times> int \<times> prog_load_args \<times> u8 option \<times> 'k process) option" where
  "info_loop kn malloc_ok la a finfo linfo log fd p =
     (if p_errno p = E2BIG \<and> (\<not> finfo \<or> \<not> linfo) then
        (case correct_info malloc_ok la a finfo linfo of
           None \<Rightarrow> None
         | Some (Inl _) \<Rightarrow> Some (True, fd, a, log, p)
         | Some (Inr None) \<Rightarrow> Some (False, fd, a, log, p)
         | Some (Inr (Some (a, finfo, linfo))) \<Rightarrow>
             (case sys_bpf_prog_load kn a log p of
                None \<Rightarrow> None
              | Some (fd, a, log, p) \<Rightarrow>
                  if fd \<ge> 0 then Some (True, fd, a, log, p) else info_loop kn malloc_ok la a finfo linfo log fd p))
      else Some (False, fd, a, log, p))"
  by pat_completeness auto
termination
  by (relation "measure (\<lambda>(kn, ok, la, a, finfo, linfo, log, fd, p). info_left finfo linfo)")
    (auto dest: correct_info_progress)

declare info_loop.simps [simp del]

text \<open>\<open>log\<close> is the first byte of the buffer of \<open>log_buf_sz\<close> bytes; \<open>has_buf\<close>: it is not the null pointer.\<close>

definition bpf_load_program_xattr ::
    "('k, 'z) bpf_kernel_scheme \<Rightarrow> (nat \<Rightarrow> bool) \<Rightarrow> bpf_load_program_attr \<Rightarrow> bool \<Rightarrow> u8 option \<Rightarrow> nat \<Rightarrow> 'k process
      \<Rightarrow> (int \<times> u8 option \<times> 'k process) option" where
  "bpf_load_program_xattr kn malloc_ok la has_buf log log_buf_sz p =
     (if has_buf \<noteq> (log_buf_sz \<noteq> 0) then Some (- EINVAL, log, p)
      else if lp_log_level la > 7 \<or> lp_log_level la \<noteq> 0 \<and> \<not> has_buf then Some (- EINVAL, log, p)
      else do {
        (fd, a, log, p) \<leftarrow> sys_bpf_prog_load kn (prog_args_of la log_buf_sz) log p;
        if fd \<ge> 0 then Some (fd, log, p)
        else do {
          (finished, fd, a, log, p) \<leftarrow> info_loop kn malloc_ok la a False False log fd p;
          if finished then Some (fd, log, p)
          else if lp_log_level la \<noteq> 0 \<or> \<not> has_buf then Some (fd, log, p)
          else do {
            (fd, a, log, p) \<leftarrow> sys_bpf_prog_load kn (a\<lparr>pl_log_size := log_buf_sz, pl_log_level := 1\<rparr>) (Some 0) p;
            Some (fd, log, p)
          }
        }
      })"

definition bpf_load_program ::
    "('k, 'z) bpf_kernel_scheme \<Rightarrow> (nat \<Rightarrow> bool) \<Rightarrow> nat \<Rightarrow> bpf_insn list \<Rightarrow> string \<Rightarrow> u32 \<Rightarrow> bool \<Rightarrow> u8 option \<Rightarrow> nat \<Rightarrow> 'k process
      \<Rightarrow> (int \<times> u8 option \<times> 'k process) option" where
  "bpf_load_program kn malloc_ok typ insns license kern_version has_buf log log_buf_sz p =
     bpf_load_program_xattr kn malloc_ok
       \<lparr>lp_prog_type = typ, lp_expected_attach_type = 0, lp_name = None, lp_insns = insns, lp_license = license,
        lp_kern_version = kern_version, lp_ifindex_or_btf_id = 0, lp_prog_btf_fd = 0, lp_func_info_rec_size = 0, lp_func_info = None,
        lp_func_info_cnt = 0, lp_line_info_rec_size = 0, lp_line_info = None, lp_line_info_cnt = 0, lp_log_level = 0, lp_prog_flags = 0\<rparr>
       has_buf log log_buf_sz p"

section \<open>Descriptors\<close>

text \<open>What a call does to the open descriptors \<open>opn\<close> and the programs \<open>loaded\<close> behind them: a descriptor that is returned is
  new and refers to the program; an error changes nothing.\<close>

definition same_fds :: "('k \<Rightarrow> int set) \<Rightarrow> ('k \<Rightarrow> int \<rightharpoonup> bpf_insn list) \<Rightarrow> 'k \<Rightarrow> 'k \<Rightarrow> bool" where
  "same_fds opn loaded k k' \<longleftrightarrow> opn k' = opn k \<and> loaded k' = loaded k"

definition fd_call :: "('k \<Rightarrow> int set) \<Rightarrow> ('k \<Rightarrow> int \<rightharpoonup> bpf_insn list) \<Rightarrow> 'k \<Rightarrow> int \<Rightarrow> 'k \<Rightarrow> bool" where
  "fd_call opn loaded k r k' \<longleftrightarrow>
     (if r \<ge> 0 then r \<notin> opn k \<and> opn k' = insert r (opn k) \<and> loaded k' = loaded k else same_fds opn loaded k k')"

definition prog_call :: "('k \<Rightarrow> int set) \<Rightarrow> ('k \<Rightarrow> int \<rightharpoonup> bpf_insn list) \<Rightarrow> bpf_insn list \<Rightarrow> 'k \<Rightarrow> int \<Rightarrow> 'k \<Rightarrow> bool" where
  "prog_call opn loaded insns k r k' \<longleftrightarrow>
     (if r \<ge> 0 then r \<notin> opn k \<and> opn k' = insert r (opn k) \<and> loaded k' = (loaded k)(r \<mapsto> insns) else same_fds opn loaded k k')"

lemma same_fds_refl [simp]: "same_fds opn loaded k k"
  by (simp add: same_fds_def)

lemma same_fds_trans: "same_fds opn loaded k k' \<Longrightarrow> same_fds opn loaded k' k'' \<Longrightarrow> same_fds opn loaded k k''"
  by (simp add: same_fds_def)

lemma prog_call_fail: "r < 0 \<Longrightarrow> prog_call opn loaded insns k r k' \<longleftrightarrow> same_fds opn loaded k k'"
  by (simp add: prog_call_def)

lemma prog_call_after: "same_fds opn loaded k k' \<Longrightarrow> prog_call opn loaded insns k' r k'' \<longleftrightarrow> prog_call opn loaded insns k r k''"
  by (auto simp: prog_call_def same_fds_def)

lemma sys_ret_kern [simp]: "p_kern (snd (sys_ret r k p)) = k"
  by (simp add: sys_ret_def)

lemma sys_ret_neg [simp]: "fst (sys_ret r k p) < 0 \<longleftrightarrow> r < 0" "fst (sys_ret r k p) \<ge> 0 \<longleftrightarrow> r \<ge> 0"
  by (auto simp: sys_ret_def)

lemma sys_ret_call:
  assumes "sys_ret r k p = (fd, p')"
  shows "p_kern p' = k" "fd_call opn loaded k0 fd k \<longleftrightarrow> fd_call opn loaded k0 r k" "prog_call opn loaded insns k0 fd k \<longleftrightarrow> prog_call opn loaded insns k0 r k"
  using assms by (auto simp: sys_ret_def fd_call_def prog_call_def split: if_splits)

text \<open>The documented behaviour of the two commands.\<close>

definition kernel_allocs :: "('k, 'z) bpf_kernel_scheme \<Rightarrow> ('k \<Rightarrow> int set) \<Rightarrow> ('k \<Rightarrow> int \<rightharpoonup> bpf_insn list) \<Rightarrow> bool" where
  "kernel_allocs kn opn loaded \<longleftrightarrow>
     (\<forall>a k. fd_call opn loaded k (fst (bk_map_create kn a k)) (snd (bk_map_create kn a k))) \<and>
     (\<forall>a k. prog_call opn loaded (pl_insns a) k (pa_ret (fst (bk_prog_load kn a k))) (snd (bk_prog_load kn a k)))"

lemma create_map_xattr_call:
  assumes "kernel_allocs kn opn loaded" "bpf_create_map_xattr kn a p = (fd, p')"
  shows "fd_call opn loaded (p_kern p) fd (p_kern p')"
proof -
  obtain r k where rk: "bk_map_create kn (map_args_of a) (p_kern p) = (r, k)" by fastforce
  then have "fd_call opn loaded (p_kern p) r k" using assms(1) by (metis kernel_allocs_def fst_conv snd_conv)
  moreover have "sys_ret r k p = (fd, p')" using assms(2) rk by (simp add: bpf_create_map_xattr_def)
  ultimately show ?thesis by (simp add: sys_ret_call)
qed

lemma sys_bpf_prog_load_call:
  assumes "kernel_allocs kn opn loaded" "sys_bpf_prog_load kn a log p = Some (fd, a', log', p')"
  shows "prog_call opn loaded (pl_insns a) (p_kern p) fd (p_kern p') \<and> pl_insns a' = pl_insns a"
proof -
  have "case res of (fd, a', log', p') \<Rightarrow> kernel_allocs kn opn loaded \<longrightarrow>
      prog_call opn loaded (pl_insns a) (p_kern p) fd (p_kern p') \<and> pl_insns a' = pl_insns a"
    if "sys_bpf_prog_load kn a log p = Some res" for res
  proof (rule sys_bpf_prog_load.raw_induct [where P = "\<lambda>kn a log p res. case res of (fd, a', log', p') \<Rightarrow> kernel_allocs kn opn loaded \<longrightarrow>
      prog_call opn loaded (pl_insns a) (p_kern p) fd (p_kern p') \<and> pl_insns a' = pl_insns a", OF _ that], goal_cases)
    case (1 rec kn a log p res)
    obtain ans k where ak: "bk_prog_load kn a (p_kern p) = (ans, k)" by fastforce
    obtain fd p1 where fp: "sys_ret (pa_ret ans) k p = (fd, p1)" by fastforce
    have call: "prog_call opn loaded (pl_insns a) (p_kern p) fd (p_kern p1)" if "kernel_allocs kn opn loaded"
      using that ak sys_ret_call [OF fp] by (metis kernel_allocs_def fst_conv snd_conv)
    show ?case
    proof (cases "fd < 0 \<and> p_errno p1 = EAGAIN")
      case True
      then show ?thesis using 1 ak fp call by (fastforce simp: Let_def prog_call_fail dest: prog_call_after)
    next
      case False
      then show ?thesis using 1 ak fp call by (auto simp: Let_def)
    qed
  qed
  then show ?thesis using assms by fastforce
qed

lemma correct_info_insns:
  "correct_info malloc_ok la a finfo linfo = Some (Inr (Some (a', finfo', linfo'))) \<Longrightarrow> pl_insns a' = pl_insns a"
  by (auto simp: correct_info_def split: if_splits option.splits Option.bind_splits)

lemma info_loop_call:
  assumes "info_loop kn malloc_ok la a finfo linfo log fd p = Some (fin, fd', a', log', p')" "fd < 0" "kernel_allocs kn opn loaded"
  shows "prog_call opn loaded (pl_insns a) (p_kern p) fd' (p_kern p') \<and> pl_insns a' = pl_insns a \<and> (\<not> fin \<longrightarrow> fd' < 0)"
  using assms
proof (induction kn malloc_ok la a finfo linfo log fd p rule: info_loop.induct)
  case (1 kn malloc_ok la a finfo linfo log fd p)
  let ?more = "p_errno p = E2BIG \<and> (\<not> finfo \<or> \<not> linfo)" and ?c = "correct_info malloc_ok la a finfo linfo"
  show ?case
  proof (cases "?more \<and> (\<exists>r. ?c = Some (Inr (Some r)))")
    case False
    then show ?thesis using "1.prems"
      by (auto simp: info_loop.simps [of kn malloc_ok la a finfo linfo] prog_call_fail split: if_splits option.splits sum.splits)
  next
    case True
    then obtain a1 f1 l1 where more: ?more and c: "?c = Some (Inr (Some (a1, f1, l1)))" by (metis prod_cases3)
    obtain fd1 a2 log1 p1 where s: "sys_bpf_prog_load kn a1 log p = Some (fd1, a2, log1, p1)"
      using "1.prems"(1) more c by (auto simp: info_loop.simps [of kn malloc_ok la a finfo linfo] split: option.splits)
    note call = sys_bpf_prog_load_call [OF "1.prems"(3) s]
    have eq: "info_loop kn malloc_ok la a finfo linfo log fd p
        = (if fd1 \<ge> 0 then Some (True, fd1, a2, log1, p1) else info_loop kn malloc_ok la a2 f1 l1 log1 fd1 p1)"
      using more c s by (subst info_loop.simps) simp
    show ?thesis
    proof (cases "fd1 \<ge> 0")
      case True
      then show ?thesis using eq "1.prems"(1) call correct_info_insns [OF c] by simp
    next
      case False
      then show ?thesis
        using "1.IH" [OF more c refl refl refl refl s refl refl refl] eq "1.prems" call correct_info_insns [OF c]
        by (auto simp: prog_call_fail prog_call_after intro: same_fds_trans)
    qed
  qed
qed

lemma bpf_load_program_xattr_call:
  assumes "bpf_load_program_xattr kn malloc_ok la has_buf log sz p = Some (fd, log', p')" "kernel_allocs kn opn loaded"
  shows "prog_call opn loaded (lp_insns la) (p_kern p) fd (p_kern p')"
proof -
  note call = sys_bpf_prog_load_call [OF assms(2)]
  have insns: "pl_insns (prog_args_of la sz) = lp_insns la" by (simp add: prog_args_of_def)
  show ?thesis
  proof (cases "has_buf \<noteq> (sz \<noteq> 0) \<or> lp_log_level la > 7 \<or> lp_log_level la \<noteq> 0 \<and> \<not> has_buf")
    case True
    then show ?thesis using assms(1) by (auto simp: bpf_load_program_xattr_def prog_call_fail EINVAL_def split: if_splits)
  next
    case False
    then obtain fd1 a1 log1 p1 where s1: "sys_bpf_prog_load kn (prog_args_of la sz) log p = Some (fd1, a1, log1, p1)"
      using assms(1) by (auto simp: bpf_load_program_xattr_def split: Option.bind_splits)
    note c1 = call [OF s1]
    show ?thesis
    proof (cases "fd1 \<ge> 0")
      case True
      then show ?thesis using assms(1) False s1 c1 insns by (auto simp: bpf_load_program_xattr_def split: if_splits)
    next
      case neg: False
      then obtain fin fd2 a2 log2 p2 where s2: "info_loop kn malloc_ok la a1 False False log1 fd1 p1 = Some (fin, fd2, a2, log2, p2)"
        using assms(1) False s1 by (auto simp: bpf_load_program_xattr_def split: Option.bind_splits)
      note c2 = info_loop_call [OF s2 _ assms(2)]
      have c12: "prog_call opn loaded (lp_insns la) (p_kern p) fd2 (p_kern p2)" "pl_insns a2 = lp_insns la" "\<not> fin \<longrightarrow> fd2 < 0"
        using c1 c2 neg insns by (auto simp: prog_call_fail prog_call_after intro: same_fds_trans)
      have "(fd, p') = (fd2, p2) \<or> fd2 < 0 \<and> (\<exists>a log. sys_bpf_prog_load kn (a2\<lparr>pl_log_size := sz, pl_log_level := 1\<rparr>) (Some 0) p2 = Some (fd, a, log, p'))"
        using assms(1) False s1 neg s2 c12(3) by (auto simp: bpf_load_program_xattr_def split: Option.bind_splits if_splits)
      then show ?thesis using c12 call by (fastforce simp: prog_call_fail prog_call_after intro: same_fds_trans)
    qed
  qed
qed

end
