(* ===== verification/Reloc.thy ===== *)
theory Reloc
  imports Btf_Ext Bpf_Sys
begin

text \<open>
  Relocation in \<^verbatim>\<open>eBPF_app/libbpf/src/libbpf.c\<close>: what the relocation entries of a section ask for
  (\<^verbatim>\<open>bpf_program__collect_reloc\<close>) and patching the instructions of the programs (\<^verbatim>\<open>bpf_program__relocate\<close>): the descriptors of
  the maps are filled in, the functions of the text section are appended to every program that calls them, and the
  calls are redirected to the copy. The entries and symbols that libelf returns are arguments, as is the outcome of the
  relocation against the kernel's types. \<open>None\<close> is an access outside an array, or of memory that was never
  written.
\<close>

unbundle bit_operations_syntax

section \<open>Data\<close>

definition BPF_PSEUDO_MAP_FD :: u8 where "BPF_PSEUDO_MAP_FD = 1"
definition BPF_PSEUDO_MAP_VALUE :: u8 where "BPF_PSEUDO_MAP_VALUE = 2"
definition BPF_PSEUDO_CALL :: u8 where "BPF_PSEUDO_CALL = 1"
definition SHN_LORESERVE :: int where "SHN_LORESERVE = 0xff00"

text \<open>The codes of a call and of the load of a 64-bit constant, which takes two instructions.\<close>

definition BPF_JMP_CALL :: u8 where "BPF_JMP_CALL = 0x85"
definition BPF_LD_IMM_DW :: u8 where "BPF_LD_IMM_DW = 0x18"

datatype relo_type = RELO_LD64 | RELO_CALL | RELO_DATA

text \<open>\<open>rd_idx\<close> is the index of a map or the offset in the text section.\<close>

record reloc_desc =
  rd_type :: relo_type
  rd_insn_idx :: nat
  rd_idx :: nat

record reloc_prog =
  rp_idx :: int
  rp_section_name :: bytes
  rp_insns :: "bpf_insn list"
  rp_main_prog_cnt :: nat
  rp_reloc_desc :: "reloc_desc option list option"
  rp_func_info :: "bytes option"
  rp_func_info_cnt :: u32
  rp_func_info_rec_size :: u32
  rp_line_info :: "bytes option"
  rp_line_info_cnt :: u32
  rp_line_info_rec_size :: u32

datatype libbpf_map_type = LIBBPF_MAP_UNSPEC | LIBBPF_MAP_DATA | LIBBPF_MAP_BSS | LIBBPF_MAP_RODATA

record reloc_map =
  rm_fd :: int
  rm_sec_idx :: int
  rm_sec_offset :: nat
  rm_libbpf_type :: libbpf_map_type

record reloc_obj =
  ro_programs :: "reloc_prog list"
  ro_maps :: "reloc_map list"
  ro_text_shndx :: int
  ro_maps_shndx :: int
  ro_btf_maps_shndx :: int
  ro_data_shndx :: int
  ro_bss_shndx :: int
  ro_rodata_shndx :: int
  ro_global_data :: bool
  ro_has_pseudo_calls :: bool
  ro_relaxed_core_relocs :: bool
  ro_btf_ext :: "(btf \<times> btf_extension) option"

section \<open>Collecting relocations\<close>

definition bpf_object__shndx_is_data :: "reloc_obj \<Rightarrow> int \<Rightarrow> bool" where
  "bpf_object__shndx_is_data obj shndx \<longleftrightarrow> shndx = ro_data_shndx obj \<or> shndx = ro_bss_shndx obj \<or> shndx = ro_rodata_shndx obj"

definition bpf_object__shndx_is_maps :: "reloc_obj \<Rightarrow> int \<Rightarrow> bool" where
  "bpf_object__shndx_is_maps obj shndx \<longleftrightarrow> shndx = ro_maps_shndx obj \<or> shndx = ro_btf_maps_shndx obj"

definition bpf_object__relo_in_known_section :: "reloc_obj \<Rightarrow> int \<Rightarrow> bool" where
  "bpf_object__relo_in_known_section obj shndx \<longleftrightarrow>
     shndx = ro_text_shndx obj \<or> bpf_object__shndx_is_maps obj shndx \<or> bpf_object__shndx_is_data obj shndx"

definition bpf_object__section_to_libbpf_map_type :: "reloc_obj \<Rightarrow> int \<Rightarrow> libbpf_map_type" where
  "bpf_object__section_to_libbpf_map_type obj shndx =
     (if shndx = ro_data_shndx obj then LIBBPF_MAP_DATA
      else if shndx = ro_bss_shndx obj then LIBBPF_MAP_BSS
      else if shndx = ro_rodata_shndx obj then LIBBPF_MAP_RODATA
      else LIBBPF_MAP_UNSPEC)"

definition bpf_object__find_prog_by_idx :: "reloc_obj \<Rightarrow> int \<Rightarrow> reloc_prog option" where
  "bpf_object__find_prog_by_idx obj idx = find (\<lambda>p. rp_idx p = idx) (ro_programs obj)"

text \<open>What libelf returns for an entry: the offset, and the symbol with its section, its value and whether it is
  global; a missing entry or symbol is \<open>None\<close>. The instruction is an unsigned int.\<close>

record elf_sym =
  es_shndx :: nat
  es_value :: nat
  es_global :: bool

type_synonym elf_rel = "(nat \<times> elf_sym option) option"

definition rel_insn_idx :: "nat \<Rightarrow> nat" where
  "rel_insn_idx r_offset = r_offset div 8 mod 2 ^ 32"

text \<open>The search for the map of a symbol: the index of the first that matches, or the number of maps.\<close>

definition find_reloc_map :: "reloc_obj \<Rightarrow> libbpf_map_type \<Rightarrow> elf_sym \<Rightarrow> nat" where
  "find_reloc_map obj typ es =
     length (takeWhile (\<lambda>m. \<not> (rm_libbpf_type m = typ \<and>
       (typ \<noteq> LIBBPF_MAP_UNSPEC \<or> rm_sec_idx m = int (es_shndx es) \<and> rm_sec_offset m = es_value es))) (ro_maps obj))"

text \<open>One entry: an error, or the description, which stays unwritten when the symbol is in neither kind of section.\<close>

definition collect_one :: "reloc_obj \<Rightarrow> bpf_insn list \<Rightarrow> elf_rel \<Rightarrow> (int + reloc_desc option) option" where
  "collect_one obj insns rel =
     (case rel of
        None \<Rightarrow> Some (Inl (- LIBBPF_ERRNO__FORMAT))
      | Some (_, None) \<Rightarrow> Some (Inl (- LIBBPF_ERRNO__FORMAT))
      | Some (r_offset, Some es) \<Rightarrow>
          (let shdr_idx = int (es_shndx es); insn_idx = rel_insn_idx r_offset
           in if shdr_idx \<ge> SHN_LORESERVE then do { _ \<leftarrow> arr_get insns insn_idx; Some (Inl (- LIBBPF_ERRNO__RELOC)) }
              else if \<not> bpf_object__relo_in_known_section obj shdr_idx then Some (Inl (- LIBBPF_ERRNO__RELOC))
              else do {
                insn \<leftarrow> arr_get insns insn_idx;
                if in_code insn = BPF_JMP_CALL then
                  Some (if in_src_reg insn \<noteq> BPF_PSEUDO_CALL then Inl (- LIBBPF_ERRNO__RELOC)
                        else Inr (Some \<lparr>rd_type = RELO_CALL, rd_insn_idx = insn_idx, rd_idx = es_value es\<rparr>))
                else if in_code insn \<noteq> BPF_LD_IMM_DW then Some (Inl (- LIBBPF_ERRNO__RELOC))
                else if bpf_object__shndx_is_maps obj shdr_idx \<or> bpf_object__shndx_is_data obj shdr_idx then
                  (let typ = bpf_object__section_to_libbpf_map_type obj shdr_idx;
                       map_idx = find_reloc_map obj typ es
                   in if typ \<noteq> LIBBPF_MAP_UNSPEC \<and> (es_global es \<or> \<not> ro_global_data obj) then Some (Inl (- LIBBPF_ERRNO__RELOC))
                      else if map_idx \<ge> length (ro_maps obj) then Some (Inl (- LIBBPF_ERRNO__RELOC))
                      else Some (Inr (Some \<lparr>rd_type = if typ \<noteq> LIBBPF_MAP_UNSPEC then RELO_DATA else RELO_LD64,
                                            rd_insn_idx = insn_idx, rd_idx = map_idx\<rparr>)))
                else Some (Inr None)
              }))"

text \<open>The loop fills the array up to the entry that fails.\<close>

fun collect_loop :: "reloc_obj \<Rightarrow> bpf_insn list \<Rightarrow> elf_rel list \<Rightarrow> (int \<times> reloc_desc option list) option" where
  "collect_loop obj insns [] = Some (0, [])"
| "collect_loop obj insns (rel # rels) = do {
     r \<leftarrow> collect_one obj insns rel;
     (case r of
        Inl err \<Rightarrow> Some (err, replicate (Suc (length rels)) None)
      | Inr d \<Rightarrow> do {
          (err, ds) \<leftarrow> collect_loop obj insns rels;
          Some (err, d # ds)
        })
   }"

definition is_call_desc :: "reloc_desc option \<Rightarrow> bool" where
  "is_call_desc d = (case d of Some r \<Rightarrow> rd_type r = RELO_CALL | None \<Rightarrow> False)"

definition bpf_program__collect_reloc ::
    "bool \<Rightarrow> elf_rel list \<Rightarrow> reloc_prog \<Rightarrow> reloc_obj \<Rightarrow> (int \<times> reloc_prog \<times> reloc_obj) option" where
  "bpf_program__collect_reloc malloc_ok rels prog obj =
     (if \<not> malloc_ok then Some (- ENOMEM, prog\<lparr>rp_reloc_desc := None\<rparr>, obj)
      else do {
        (err, ds) \<leftarrow> collect_loop obj (rp_insns prog) rels;
        Some (err, prog\<lparr>rp_reloc_desc := Some ds\<rparr>,
              if list_ex is_call_desc ds then obj\<lparr>ro_has_pseudo_calls := True\<rparr> else obj)
      })"

text \<open>The relocation sections of the file: whether it is one, the section it applies to, whether the allocation works, and
  the entries.\<close>

type_synonym reloc_sec = "bool \<times> int \<times> bool \<times> elf_rel list"

fun collect_sections :: "reloc_sec list \<Rightarrow> reloc_obj \<Rightarrow> (int \<times> reloc_obj) option" where
  "collect_sections [] obj = Some (0, obj)"
| "collect_sections ((is_rel, idx, malloc_ok, rels) # secs) obj =
     (if \<not> is_rel then Some (- LIBBPF_ERRNO__INTERNAL, obj)
      else (case bpf_object__find_prog_by_idx obj idx of
              None \<Rightarrow> Some (- LIBBPF_ERRNO__RELOC, obj)
            | Some prog \<Rightarrow> do {
                (err, prog, obj) \<leftarrow> bpf_program__collect_reloc malloc_ok rels prog obj;
                let i = length (takeWhile (\<lambda>p. rp_idx p \<noteq> idx) (ro_programs obj));
                let obj = obj\<lparr>ro_programs := (ro_programs obj)[i := prog]\<rparr>;
                if err \<noteq> 0 then Some (err, obj) else collect_sections secs obj
              }))"

definition bpf_object__collect_reloc :: "bool \<Rightarrow> reloc_sec list \<Rightarrow> reloc_obj \<Rightarrow> (int \<times> reloc_obj) option" where
  "bpf_object__collect_reloc elf_valid secs obj =
     (if \<not> elf_valid then Some (- LIBBPF_ERRNO__INTERNAL, obj) else collect_sections secs obj)"

section \<open>Relocating a program\<close>

definition check_btf_ext_reloc_err :: "int \<Rightarrow> bytes option \<Rightarrow> int" where
  "check_btf_ext_reloc_err err info = (if err \<noteq> - ENOENT then err else if info \<noteq> None then err else 0)"

text \<open>A missing table of records is the null pointer.\<close>

definition reloc_func_infos :: "bool \<Rightarrow> btf \<Rightarrow> btf_extension \<Rightarrow> bytes \<Rightarrow> u32 \<Rightarrow> reloc_prog \<Rightarrow> (int \<times> reloc_prog) option" where
  "reloc_func_infos ok b e name insn_offset prog = do {
     let old = (case rp_func_info prog of None \<Rightarrow> [] | Some i \<Rightarrow> i);
     (err, info, cnt) \<leftarrow> btf_ext__reloc_func_info ok b e name insn_offset old (rp_func_info_cnt prog);
     Some (if err \<noteq> 0 then (err, prog)
           else (0, prog\<lparr>rp_func_info := Some info, rp_func_info_cnt := cnt, rp_func_info_rec_size := btf_ext__func_info_rec_size e\<rparr>))
   }"

definition reloc_line_infos :: "bool \<Rightarrow> btf \<Rightarrow> btf_extension \<Rightarrow> bytes \<Rightarrow> u32 \<Rightarrow> reloc_prog \<Rightarrow> (int \<times> reloc_prog) option" where
  "reloc_line_infos ok b e name insn_offset prog = do {
     let old = (case rp_line_info prog of None \<Rightarrow> [] | Some i \<Rightarrow> i);
     (err, info, cnt) \<leftarrow> btf_ext__reloc_line_info ok b e name insn_offset old (rp_line_info_cnt prog);
     Some (if err \<noteq> 0 then (err, prog)
           else (0, prog\<lparr>rp_line_info := Some info, rp_line_info_cnt := cnt, rp_line_info_rec_size := btf_ext__line_info_rec_size e\<rparr>))
   }"

definition bpf_program_reloc_btf_ext :: "bool \<Rightarrow> btf \<times> btf_extension \<Rightarrow> bytes \<Rightarrow> u32 \<Rightarrow> reloc_prog \<Rightarrow> (int \<times> reloc_prog) option" where
  "bpf_program_reloc_btf_ext ok be name insn_offset prog = do {
     (err, prog) \<leftarrow> (if insn_offset = 0 \<or> rp_func_info prog \<noteq> None
                     then reloc_func_infos ok (fst be) (snd be) name insn_offset prog else Some (0, prog));
     if err \<noteq> 0 then Some (check_btf_ext_reloc_err err (rp_func_info prog), prog)
     else do {
       (err, prog) \<leftarrow> (if insn_offset = 0 \<or> rp_line_info prog \<noteq> None
                       then reloc_line_infos ok (fst be) (snd be) name insn_offset prog else Some (0, prog));
       Some (if err \<noteq> 0 then (check_btf_ext_reloc_err err (rp_line_info prog), prog) else (0, prog))
     }
   }"

text \<open>Appending the text section, the first time a call is met.\<close>

definition append_text :: "bool \<Rightarrow> reloc_obj \<Rightarrow> reloc_prog \<Rightarrow> (int \<times> reloc_prog) option" where
  "append_text ok obj prog =
     (if rp_main_prog_cnt prog \<noteq> 0 then Some (0, prog)
      else (case bpf_object__find_prog_by_idx obj (ro_text_shndx obj) of
              None \<Rightarrow> Some (- LIBBPF_ERRNO__RELOC, prog)
            | Some txt \<Rightarrow>
                if \<not> ok then Some (- ENOMEM, prog)
                else do {
                  (err, prog) \<leftarrow> (case ro_btf_ext obj of
                      None \<Rightarrow> Some (0, prog)
                    | Some be \<Rightarrow> bpf_program_reloc_btf_ext ok be (rp_section_name txt) (of_nat (length (rp_insns prog))) prog);
                  Some (if err \<noteq> 0 then (err, prog)
                        else (0, prog\<lparr>rp_insns := rp_insns prog @ rp_insns txt, rp_main_prog_cnt := length (rp_insns prog)\<rparr>))
                }))"

definition bpf_program__reloc_text :: "bool \<Rightarrow> reloc_obj \<Rightarrow> reloc_desc \<Rightarrow> reloc_prog \<Rightarrow> (int \<times> reloc_prog) option" where
  "bpf_program__reloc_text ok obj relo prog =
     (if rd_type relo \<noteq> RELO_CALL then Some (- LIBBPF_ERRNO__RELOC, prog)
      else if rp_idx prog = ro_text_shndx obj then Some (- LIBBPF_ERRNO__RELOC, prog)
      else do {
        (err, prog) \<leftarrow> append_text ok obj prog;
        if err \<noteq> 0 then Some (err, prog)
        else do {
          insn \<leftarrow> arr_get (rp_insns prog) (rd_insn_idx relo);
          let imm = in_imm insn + of_nat (rp_main_prog_cnt prog) - of_nat (rd_insn_idx relo);
          insns \<leftarrow> arr_set (rp_insns prog) (rd_insn_idx relo) (insn\<lparr>in_imm := imm\<rparr>);
          Some (0, prog\<lparr>rp_insns := insns\<rparr>)
        }
      })"

definition reloc_map_ref :: "reloc_obj \<Rightarrow> reloc_desc \<Rightarrow> reloc_prog \<Rightarrow> (int \<times> reloc_prog) option" where
  "reloc_map_ref obj relo prog =
     (let i = rd_insn_idx relo; insns = rp_insns prog
      in if i + 1 \<ge> length insns then Some (- LIBBPF_ERRNO__RELOC, prog)
         else do {
           m \<leftarrow> arr_get (ro_maps obj) (rd_idx relo);
           insn \<leftarrow> arr_get insns i;
           next_insn \<leftarrow> arr_get insns (i + 1);
           insns \<leftarrow> (if rd_type relo = RELO_DATA then arr_set insns (i + 1) (next_insn\<lparr>in_imm := in_imm insn\<rparr>) else Some insns);
           insns \<leftarrow> arr_set insns i (insn\<lparr>in_src_reg := if rd_type relo = RELO_DATA then BPF_PSEUDO_MAP_VALUE else BPF_PSEUDO_MAP_FD,
                                        in_imm := of_int (rm_fd m)\<rparr>);
           Some (0, prog\<lparr>rp_insns := insns\<rparr>)
         })"

definition reloc_one :: "bool \<Rightarrow> reloc_obj \<Rightarrow> reloc_desc \<Rightarrow> reloc_prog \<Rightarrow> (int \<times> reloc_prog) option" where
  "reloc_one ok obj relo prog =
     (if rd_type relo = RELO_CALL then bpf_program__reloc_text ok obj relo prog else reloc_map_ref obj relo prog)"

fun relocate_loop :: "bool \<Rightarrow> reloc_obj \<Rightarrow> reloc_desc option list \<Rightarrow> reloc_prog \<Rightarrow> (int \<times> reloc_prog) option" where
  "relocate_loop ok obj [] prog = Some (0, prog\<lparr>rp_reloc_desc := None\<rparr>)"
| "relocate_loop ok obj (relo # relos) prog = do {
     relo \<leftarrow> relo;
     (err, prog) \<leftarrow> reloc_one ok obj relo prog;
     if err \<noteq> 0 then Some (err, prog) else relocate_loop ok obj relos prog
   }"

definition bpf_program__relocate :: "bool \<Rightarrow> reloc_obj \<Rightarrow> reloc_prog \<Rightarrow> (int \<times> reloc_prog) option" where
  "bpf_program__relocate ok obj prog = do {
     (err, prog) \<leftarrow> (case ro_btf_ext obj of
         None \<Rightarrow> Some (0, prog)
       | Some be \<Rightarrow> bpf_program_reloc_btf_ext ok be (rp_section_name prog) 0 prog);
     if err \<noteq> 0 then Some (err, prog)
     else (case rp_reloc_desc prog of None \<Rightarrow> Some (0, prog) | Some relos \<Rightarrow> relocate_loop ok obj relos prog)
   }"

text \<open>The programs are relocated in their order, each on the object as the ones before left it. \<open>core\<close> is the
  relocation against the kernel's types (theory \<open>Core_Reloc\<close>), which only runs with an extension section.\<close>

fun relocate_progs :: "bool \<Rightarrow> reloc_obj \<Rightarrow> nat \<Rightarrow> nat \<Rightarrow> (int \<times> reloc_obj) option" where
  "relocate_progs ok obj 0 i = Some (0, obj)"
| "relocate_progs ok obj (Suc n) i = do {
     prog \<leftarrow> arr_get (ro_programs obj) i;
     (err, prog) \<leftarrow> bpf_program__relocate ok obj prog;
     progs \<leftarrow> arr_set (ro_programs obj) i prog;
     let obj = obj\<lparr>ro_programs := progs\<rparr>;
     if err \<noteq> 0 then Some (err, obj) else relocate_progs ok obj n (Suc i)
   }"

definition bpf_object__relocate :: "bool \<Rightarrow> (reloc_obj \<Rightarrow> (int \<times> reloc_obj) option) \<Rightarrow> reloc_obj \<Rightarrow> (int \<times> reloc_obj) option" where
  "bpf_object__relocate ok core obj = do {
     (err, obj) \<leftarrow> (if ro_btf_ext obj = None then Some (0, obj) else core obj);
     if err \<noteq> 0 then Some (err, obj) else relocate_progs ok obj (length (ro_programs obj)) 0
   }"

section \<open>The effect of a relocation\<close>

text \<open>The instructions a relocation changes, and what it does to the \<open>n\<close> instructions of the program itself.\<close>

definition touched :: "reloc_desc \<Rightarrow> nat set" where
  "touched r = (if rd_type r = RELO_DATA then {rd_insn_idx r, rd_insn_idx r + 1} else {rd_insn_idx r})"

definition map_fd :: "reloc_obj \<Rightarrow> reloc_desc \<Rightarrow> u32" where
  "map_fd obj r = of_int (rm_fd (ro_maps obj ! rd_idx r))"

definition relo_effect :: "reloc_obj \<Rightarrow> nat \<Rightarrow> bpf_insn list \<Rightarrow> reloc_desc \<Rightarrow> bpf_insn list" where
  "relo_effect obj n xs r =
     (let i = rd_insn_idx r
      in case rd_type r of
           RELO_CALL \<Rightarrow> xs[i := (xs ! i)\<lparr>in_imm := in_imm (xs ! i) + of_nat n - of_nat i\<rparr>]
         | RELO_LD64 \<Rightarrow> xs[i := (xs ! i)\<lparr>in_src_reg := BPF_PSEUDO_MAP_FD, in_imm := map_fd obj r\<rparr>]
         | RELO_DATA \<Rightarrow> xs[i + 1 := (xs ! (i + 1))\<lparr>in_imm := in_imm (xs ! i)\<rparr>,
                            i := (xs ! i)\<lparr>in_src_reg := BPF_PSEUDO_MAP_VALUE, in_imm := map_fd obj r\<rparr>])"

lemma length_relo_effect [simp]: "length (relo_effect obj n xs r) = length xs"
  by (cases "rd_type r") (simp_all add: relo_effect_def Let_def)

lemma length_relo_effects [simp]: "length (foldl (relo_effect obj n) xs rs) = length xs"
  by (induction rs arbitrary: xs) simp_all

lemma relo_effect_other: "j \<notin> touched r \<Longrightarrow> relo_effect obj n xs r ! j = xs ! j"
  by (cases "rd_type r") (auto simp: relo_effect_def touched_def Let_def)

lemma relo_effect_local:
  assumes j: "j \<in> touched r" and len: "length ys = length xs" and eq: "\<And>k. k \<in> touched r \<Longrightarrow> ys ! k = xs ! k"
  shows "relo_effect obj n ys r ! j = relo_effect obj n xs r ! j"
proof -
  have i: "ys ! rd_insn_idx r = xs ! rd_insn_idx r" by (rule eq) (simp add: touched_def)
  have i1: "ys ! (rd_insn_idx r + 1) = xs ! (rd_insn_idx r + 1)" if "rd_type r = RELO_DATA"
    using that by (intro eq) (simp add: touched_def)
  have upd: "ys[k := v] ! j = xs[k := v] ! j" for k v
    using eq [OF j] len by (cases "k = j"; cases "j < length xs") (simp_all add: list_update_beyond)
  have upd2: "ys[k := v, k' := v'] ! j = xs[k := v, k' := v'] ! j" for k v k' v'
    using upd [of k v] len by (cases "k' = j"; cases "j < length xs") (simp_all add: list_update_beyond)
  show ?thesis using upd upd2 i i1 by (cases "rd_type r") (simp_all add: relo_effect_def Let_def)
qed

fun separate :: "reloc_desc list \<Rightarrow> bool" where
  "separate [] \<longleftrightarrow> True"
| "separate (r # rs) \<longleftrightarrow> (\<forall>s\<in>set rs. touched r \<inter> touched s = {}) \<and> separate rs"

lemma relo_effects_other:
  assumes "\<forall>r\<in>set rs. j \<notin> touched r"
  shows "foldl (relo_effect obj n) xs rs ! j = xs ! j"
  using assms by (induction rs arbitrary: xs) (simp_all add: relo_effect_other)

lemma relo_effects_at:
  assumes "separate rs" "r \<in> set rs" "j \<in> touched r"
  shows "foldl (relo_effect obj n) xs rs ! j = relo_effect obj n xs r ! j"
  using assms(1,2)
proof (induction rs arbitrary: xs)
  case (Cons h rs)
  show ?case
  proof (cases "r = h")
    case True
    then have "\<forall>s\<in>set rs. j \<notin> touched s" using Cons.prems(1) assms(3) by auto
    then show ?thesis using True by (simp add: relo_effects_other)
  next
    case False
    then have r: "r \<in> set rs" "touched h \<inter> touched r = {}" using Cons.prems by auto
    have "foldl (relo_effect obj n) (relo_effect obj n xs h) rs ! j = relo_effect obj n (relo_effect obj n xs h) r ! j"
      using Cons.IH Cons.prems(1) r(1) by simp
    also have "\<dots> = relo_effect obj n xs r ! j"
      using r(2) by (intro relo_effect_local [OF assms(3)]) (auto intro: relo_effect_other)
    finally show ?thesis by simp
  qed
qed simp

section \<open>The code has this effect\<close>

lemma reloc_btf_ext_insns:
  assumes "bpf_program_reloc_btf_ext ok be name off prog = Some (err, prog')"
  shows "rp_insns prog' = rp_insns prog \<and> rp_main_prog_cnt prog' = rp_main_prog_cnt prog \<and> rp_reloc_desc prog' = rp_reloc_desc prog
    \<and> rp_idx prog' = rp_idx prog"
  using assms
  by (auto simp: bpf_program_reloc_btf_ext_def reloc_func_infos_def reloc_line_infos_def Let_def
      split: if_splits Option.bind_splits prod.splits)

text \<open>Before and after the text section has been appended to the program's own \<open>n\<close> instructions \<open>ys\<close>.\<close>

definition reloc_state :: "bpf_insn list \<Rightarrow> nat \<Rightarrow> bpf_insn list \<Rightarrow> bool \<Rightarrow> reloc_prog \<Rightarrow> bool" where
  "reloc_state txt n ys appended p \<longleftrightarrow> length ys = n \<and>
     (if appended then rp_main_prog_cnt p = n \<and> rp_insns p = ys @ txt else rp_main_prog_cnt p = 0 \<and> rp_insns p = ys)"

lemma append_text_state:
  assumes "append_text ok obj p = Some (0, p')" "reloc_state (rp_insns t) n ys appended p" "0 < n"
    and "bpf_object__find_prog_by_idx obj (ro_text_shndx obj) = Some t"
  shows "reloc_state (rp_insns t) n ys True p'"
  using assms
  by (auto simp: append_text_def reloc_state_def errno_defs libbpf_errno_defs dest!: reloc_btf_ext_insns
      split: if_splits Option.bind_splits option.splits)

lemma reloc_one_state:
  assumes r: "reloc_one ok obj r p = Some (0, p')" and st: "reloc_state (rp_insns t) n ys appended p" and n: "0 < n"
    and i: "rd_insn_idx r < n" "rd_type r \<noteq> RELO_CALL \<Longrightarrow> rd_insn_idx r + 1 < n"
    and t: "rd_type r = RELO_CALL \<Longrightarrow> bpf_object__find_prog_by_idx obj (ro_text_shndx obj) = Some t"
  shows "reloc_state (rp_insns t) n (relo_effect obj n ys r) (appended \<or> rd_type r = RELO_CALL) p'"
proof (cases "rd_type r = RELO_CALL")
  case True
  then obtain p1 where p1: "append_text ok obj p = Some (0, p1)"
    and set: "rp_idx p \<noteq> ro_text_shndx obj" 
    "p' = p1\<lparr>rp_insns := (rp_insns p1)[rd_insn_idx r := (rp_insns p1 ! rd_insn_idx r)
      \<lparr>in_imm := in_imm (rp_insns p1 ! rd_insn_idx r) + of_nat (rp_main_prog_cnt p1) - of_nat (rd_insn_idx r)\<rparr>]\<rparr>"
    using r by (auto simp: reloc_one_def bpf_program__reloc_text_def Let_def arr_get_def arr_set_def LIBBPF_ERRNO__RELOC_def
        split: if_splits Option.bind_splits)
  have "reloc_state (rp_insns t) n ys True p1" using append_text_state [OF p1 st n t [OF True]] .
  then show ?thesis
    using set(2) i(1) True by (auto simp: reloc_state_def relo_effect_def Let_def nth_append list_update_append)
next
  case False
  then have i1: "rd_insn_idx r + 1 < n" by (rule i(2))
  have len: "n \<le> length (rp_insns p)" "\<And>k. k < n \<Longrightarrow> rp_insns p ! k = ys ! k"
    using st by (auto simp: reloc_state_def nth_append split: if_splits)
  have "rp_insns p' = relo_effect obj n (rp_insns p) r \<and> rp_main_prog_cnt p' = rp_main_prog_cnt p"
    using r False len(1) i1
    by (cases "rd_type r")
      (auto simp: reloc_one_def reloc_map_ref_def relo_effect_def map_fd_def Let_def arr_get_def arr_set_def LIBBPF_ERRNO__RELOC_def
        split: if_splits Option.bind_splits)
  moreover have "relo_effect obj n (ys @ zs) r = relo_effect obj n ys r @ zs" for zs
    using False i1 st by (cases "rd_type r") (auto simp: relo_effect_def Let_def reloc_state_def nth_append list_update_append)
  ultimately show ?thesis using st False by (auto simp: reloc_state_def)
qed

lemma relocate_loop_state:
  assumes "relocate_loop ok obj (map Some rs) p = Some (0, p')" "reloc_state (rp_insns t) n ys appended p" "0 < n"
    and "\<forall>r\<in>set rs. rd_insn_idx r < n \<and> (rd_type r \<noteq> RELO_CALL \<longrightarrow> rd_insn_idx r + 1 < n)
      \<and> (rd_type r = RELO_CALL \<longrightarrow> bpf_object__find_prog_by_idx obj (ro_text_shndx obj) = Some t)"
  shows "reloc_state (rp_insns t) n (foldl (relo_effect obj n) ys rs) (appended \<or> (\<exists>r\<in>set rs. rd_type r = RELO_CALL)) p'
    \<and> rp_reloc_desc p' = None"
  using assms
proof (induction rs arbitrary: p ys appended)
  case Nil
  then show ?case by (auto simp: reloc_state_def)
next
  case (Cons r rs)
  obtain p1 where p1: "reloc_one ok obj r p = Some (0, p1)" "relocate_loop ok obj (map Some rs) p1 = Some (0, p')"
    using Cons.prems(1) by (auto split: Option.bind_splits if_splits)
  have "reloc_state (rp_insns t) n (relo_effect obj n ys r) (appended \<or> rd_type r = RELO_CALL) p1"
    using reloc_one_state [OF p1(1) Cons.prems(2,3)] Cons.prems(4) by simp
  from Cons.IH [OF p1(2) this Cons.prems(3)] Cons.prems(4) show ?case by (simp add: disj_assoc)
qed

section \<open>Collecting and relocating\<close>

text \<open>The map a symbol stands for: the one at its place in a section of maps, or the map of its data section.\<close>

definition resolves :: "reloc_obj \<Rightarrow> elf_sym \<Rightarrow> reloc_map \<Rightarrow> bool" where
  "resolves obj es m \<longleftrightarrow>
     (let typ = bpf_object__section_to_libbpf_map_type obj (int (es_shndx es))
      in rm_libbpf_type m = typ \<and> (typ = LIBBPF_MAP_UNSPEC \<longrightarrow> rm_sec_idx m = int (es_shndx es) \<and> rm_sec_offset m = es_value es))"

text \<open>What an entry asks of the \<open>n\<close> instructions \<open>old\<close> of a program: a call goes to the function at the same place of the
  copy of the text section that starts at \<open>n\<close>; a load of an address gets the descriptor of the map, and for a variable
  its offset in the second half.\<close>

definition patched :: "reloc_obj \<Rightarrow> bpf_insn list \<Rightarrow> bpf_insn list \<Rightarrow> nat \<Rightarrow> elf_sym \<Rightarrow> bool" where
  "patched obj old new i es \<longleftrightarrow> i < length old \<and>
     (if in_code (old ! i) = BPF_JMP_CALL then
        (\<exists>imm. new ! i = (old ! i)\<lparr>in_imm := imm\<rparr> \<and> of_nat i + 1 + imm = of_nat (length old) + (1 + in_imm (old ! i)))
      else \<exists>m\<in>set (ro_maps obj). resolves obj es m \<and>
        (if rm_libbpf_type m = LIBBPF_MAP_UNSPEC then
           new ! i = (old ! i)\<lparr>in_src_reg := BPF_PSEUDO_MAP_FD, in_imm := of_int (rm_fd m)\<rparr>
         else new ! i = (old ! i)\<lparr>in_src_reg := BPF_PSEUDO_MAP_VALUE, in_imm := of_int (rm_fd m)\<rparr>
              \<and> new ! (i + 1) = (old ! (i + 1))\<lparr>in_imm := in_imm (old ! i)\<rparr>))"

lemma find_reloc_map_type:
  assumes "\<not> length (ro_maps obj) \<le> find_reloc_map obj typ es"
  shows "rm_libbpf_type (ro_maps obj ! find_reloc_map obj typ es) = typ"
  using nth_length_takeWhile [OF assms [unfolded find_reloc_map_def not_le]] by (auto simp: find_reloc_map_def)

lemma find_reloc_map_place:
  assumes "\<not> length (ro_maps obj) \<le> find_reloc_map obj LIBBPF_MAP_UNSPEC es"
  shows "rm_sec_idx (ro_maps obj ! find_reloc_map obj LIBBPF_MAP_UNSPEC es) = int (es_shndx es)"
    and "rm_sec_offset (ro_maps obj ! find_reloc_map obj LIBBPF_MAP_UNSPEC es) = es_value es"
  using nth_length_takeWhile [OF assms [unfolded find_reloc_map_def not_le]] by (auto simp: find_reloc_map_def)

definition desc_of :: "reloc_obj \<Rightarrow> bpf_insn list \<Rightarrow> elf_rel \<Rightarrow> reloc_desc \<Rightarrow> bool" where
  "desc_of obj insns rel r \<longleftrightarrow> (\<exists>off es. rel = Some (off, Some es) \<and> rd_insn_idx r = rel_insn_idx off \<and> rd_insn_idx r < length insns \<and>
     (if rd_type r = RELO_CALL then in_code (insns ! rd_insn_idx r) = BPF_JMP_CALL
      else in_code (insns ! rd_insn_idx r) = BPF_LD_IMM_DW \<and> rd_idx r < length (ro_maps obj) \<and> resolves obj es (ro_maps obj ! rd_idx r)
        \<and> (rd_type r = RELO_DATA \<longleftrightarrow> rm_libbpf_type (ro_maps obj ! rd_idx r) \<noteq> LIBBPF_MAP_UNSPEC)))"

lemma collect_one_desc:
  assumes "collect_one obj insns rel = Some (Inr (Some r))"
  shows "desc_of obj insns rel r"
  using assms
  by (auto simp: collect_one_def desc_of_def Let_def arr_get_def resolves_def find_reloc_map_type find_reloc_map_place
      split: option.splits if_splits Option.bind_splits)

lemma collect_loop_descs:
  assumes "collect_loop obj insns rels = Some (0, map Some rs)"
  shows "list_all2 (desc_of obj insns) rels rs"
  using assms
proof (induction rels arbitrary: rs)
  case (Cons rel rels)
  have "err \<noteq> 0" if "collect_one obj insns rel = Some (Inl err)" for err
    using that by (auto simp: collect_one_def libbpf_errno_defs Let_def split: option.splits if_splits Option.bind_splits)
  then show ?case
    using Cons by (auto dest: collect_one_desc split: Option.bind_splits sum.splits)
qed simp

lemma reloc_one_progress:
  assumes st: "reloc_state (rp_insns t) n ys appended p" "0 < n" and d: "desc_of obj insns rel r" "length insns = n"
    and i: "rd_type r \<noteq> RELO_CALL \<Longrightarrow> rd_insn_idx r + 1 < n"
    and t: "rd_type r = RELO_CALL \<Longrightarrow> bpf_object__find_prog_by_idx obj (ro_text_shndx obj) = Some t"
    and "rp_idx p \<noteq> ro_text_shndx obj" "ro_btf_ext obj = None"
  shows "\<exists>p'. reloc_one True obj r p = Some (0, p') \<and> rp_idx p' = rp_idx p"
  using assms
  by (cases "rd_type r")
    (auto simp: reloc_one_def bpf_program__reloc_text_def append_text_def reloc_map_ref_def reloc_state_def desc_of_def
      arr_get_def arr_set_def Let_def split: if_splits)

lemma relocate_loop_progress:
  assumes "reloc_state (rp_insns t) n ys appended p" "0 < n" "list_all2 (desc_of obj insns) rels rs" "length insns = n"
    and "\<forall>r\<in>set rs. (rd_type r \<noteq> RELO_CALL \<longrightarrow> rd_insn_idx r + 1 < n)
      \<and> (rd_type r = RELO_CALL \<longrightarrow> bpf_object__find_prog_by_idx obj (ro_text_shndx obj) = Some t)"
    and "rp_idx p \<noteq> ro_text_shndx obj" "ro_btf_ext obj = None"
  shows "\<exists>p'. relocate_loop True obj (map Some rs) p = Some (0, p')"
  using assms
proof (induction rs arbitrary: p ys appended rels)
  case (Cons r rs)
  obtain rel rels' where rel: "rels = rel # rels'" "desc_of obj insns rel r" "list_all2 (desc_of obj insns) rels' rs"
    using Cons.prems(3) by (auto simp: list_all2_Cons2)
  obtain p1 where p1: "reloc_one True obj r p = Some (0, p1)" "rp_idx p1 = rp_idx p"
    using reloc_one_progress [OF Cons.prems(1,2) rel(2) Cons.prems(4)] Cons.prems(5-7) by auto
  have "rd_insn_idx r < n" using rel(2) Cons.prems(4) by (auto simp: desc_of_def)
  then have "reloc_state (rp_insns t) n (relo_effect obj n ys r) (appended \<or> rd_type r = RELO_CALL) p1"
    using reloc_one_state [OF p1(1) Cons.prems(1,2)] Cons.prems(5) by simp
  from Cons.IH [OF this Cons.prems(2) rel(3) Cons.prems(4) _ _ Cons.prems(7)] Cons.prems(5,6) p1 show ?case by simp
qed simp

text \<open>The second half of a load of 64 bits has the code 0.\<close>

definition wide_loads :: "bpf_insn list \<Rightarrow> bool" where
  "wide_loads insns = list_all (\<lambda>i. in_code (insns ! i) = BPF_LD_IMM_DW \<longrightarrow> i + 1 < length insns \<and> in_code (insns ! (i + 1)) = 0)
     [0..<length insns]"

lemma desc_of_code: "desc_of obj insns rel r \<Longrightarrow> in_code (insns ! rd_insn_idx r) \<noteq> 0 \<and> rd_insn_idx r < length insns"
  by (auto simp: desc_of_def BPF_JMP_CALL_def BPF_LD_IMM_DW_def split: if_splits)

lemma desc_of_wide:
  assumes "desc_of obj insns rel r" "wide_loads insns" "rd_type r \<noteq> RELO_CALL"
  shows "rd_insn_idx r + 1 < length insns \<and> in_code (insns ! (rd_insn_idx r + 1)) = 0"
  using assms by (auto simp: desc_of_def wide_loads_def list_all_iff split: if_splits)

lemma separate_descs:
  assumes "list_all2 (desc_of obj insns) rels rs" "distinct (map rd_insn_idx rs)" "wide_loads insns"
  shows "separate rs"
  using assms
proof (induction rs arbitrary: rels rule: list.induct)
  case (Cons r rs)
  obtain rel rels' where rel: "desc_of obj insns rel r" "list_all2 (desc_of obj insns) rels' rs"
    using Cons.prems(1) by (auto simp: list_all2_Cons2)
  have "touched r \<inter> touched s = {}" if mem: "s \<in> set rs" for s
  proof -
    obtain rel' where s: "desc_of obj insns rel' s"
      using rel(2) mem by (auto simp: list_all2_conv_all_nth in_set_conv_nth)
    have "rd_insn_idx r \<noteq> rd_insn_idx s" using Cons.prems(2) imageI [OF mem, of rd_insn_idx] by auto
    moreover have "rd_type r = RELO_DATA \<Longrightarrow> rd_insn_idx s \<noteq> rd_insn_idx r + 1"
      using desc_of_wide [OF rel(1) Cons.prems(3)] desc_of_code [OF s] by (metis relo_type.distinct(5))
    moreover have "rd_type s = RELO_DATA \<Longrightarrow> rd_insn_idx r \<noteq> rd_insn_idx s + 1"
      using desc_of_wide [OF s Cons.prems(3)] desc_of_code [OF rel(1)] by (metis relo_type.distinct(5))
    ultimately show ?thesis by (auto simp: touched_def)
  qed
  then show ?case using Cons.IH [OF rel(2)] Cons.prems(2,3) by simp
qed simp

lemma relo_effects_patched:
  assumes "list_all2 (desc_of obj insns) rels rs" "separate rs" "wide_loads insns" "Some (off, Some es) \<in> set rels"
  shows "patched obj insns (foldl (relo_effect obj (length insns)) insns rs) (rel_insn_idx off) es"
proof -
  obtain r where r: "r \<in> set rs" "desc_of obj insns (Some (off, Some es)) r"
    using assms(1,4) by (metis list_all2_conv_all_nth in_set_conv_nth)
  let ?new = "foldl (relo_effect obj (length insns)) insns rs" and ?i = "rd_insn_idx r"
  have i: "rel_insn_idx off = ?i" "?i < length insns" using r(2) by (auto simp: desc_of_def)
  have at: "?new ! j = relo_effect obj (length insns) insns r ! j" if "j \<in> touched r" for j
    using relo_effects_at [OF assms(2) r(1) that] .
  have i_at: "?new ! ?i = relo_effect obj (length insns) insns r ! ?i" by (rule at) (simp add: touched_def)
  show ?thesis
  proof (cases "rd_type r = RELO_CALL")
    case True
    then show ?thesis using r(2) i i_at by (auto simp: patched_def desc_of_def relo_effect_def Let_def)
  next
    case False
    have m: "ro_maps obj ! rd_idx r \<in> set (ro_maps obj)" "resolves obj es (ro_maps obj ! rd_idx r)"
      "in_code (insns ! ?i) \<noteq> BPF_JMP_CALL"
      and data: "rd_type r = RELO_DATA \<longleftrightarrow> rm_libbpf_type (ro_maps obj ! rd_idx r) \<noteq> LIBBPF_MAP_UNSPEC"
      using r(2) False by (auto simp: desc_of_def BPF_JMP_CALL_def BPF_LD_IMM_DW_def)
    have i1: "?i + 1 < length insns" using desc_of_wide [OF r(2) assms(3) False] by simp
    have "?new ! (?i + 1) = relo_effect obj (length insns) insns r ! (?i + 1)" if "rd_type r = RELO_DATA"
      using that by (intro at) (simp add: touched_def)
    then show ?thesis using False m data i i1 i_at
      by (cases "rd_type r") (auto simp: patched_def relo_effect_def map_fd_def Let_def intro!: bexI [OF _ m(1)])
  qed
qed

lemma collect_reloc_descs:
  assumes "bpf_program__collect_reloc True rels prog obj = Some (0, prog1, obj1)" "rp_reloc_desc prog1 = Some (map Some rs)"
  shows "list_all2 (desc_of obj (rp_insns prog)) rels rs" "prog1 = prog\<lparr>rp_reloc_desc := Some (map Some rs)\<rparr>"
    "obj1 = obj \<or> obj1 = obj\<lparr>ro_has_pseudo_calls := True\<rparr>" "r \<in> set rs \<Longrightarrow> rd_type r = RELO_CALL \<Longrightarrow> ro_has_pseudo_calls obj1"
  using assms
  by (auto simp: bpf_program__collect_reloc_def list_ex_iff is_call_desc_def intro: collect_loop_descs
      split: Option.bind_splits if_splits)

lemma object_flag_irrelevant [simp]:
  "relo_effect (obj\<lparr>ro_has_pseudo_calls := c\<rparr>) = relo_effect obj"
  "desc_of (obj\<lparr>ro_has_pseudo_calls := c\<rparr>) = desc_of obj"
  "bpf_object__find_prog_by_idx (obj\<lparr>ro_has_pseudo_calls := c\<rparr>) = bpf_object__find_prog_by_idx obj"
  by (auto simp: relo_effect_def map_fd_def desc_of_def resolves_def bpf_object__section_to_libbpf_map_type_def
      bpf_object__find_prog_by_idx_def Let_def fun_eq_iff split: relo_type.splits)


text \<open>A program with a load of a map, a load of a variable and a call.\<close>

definition demo_insn :: "u8 \<Rightarrow> u8 \<Rightarrow> u32 \<Rightarrow> bpf_insn" where
  "demo_insn code src imm = \<lparr>in_code = code, in_dst_reg = 1, in_src_reg = src, in_off = 0, in_imm = imm\<rparr>"

definition demo_prog :: "int \<Rightarrow> bpf_insn list \<Rightarrow> reloc_desc option list option \<Rightarrow> reloc_prog" where
  "demo_prog idx insns ds = \<lparr>rp_idx = idx, rp_section_name = [], rp_insns = insns, rp_main_prog_cnt = 0, rp_reloc_desc = ds,
     rp_func_info = None, rp_func_info_cnt = 0, rp_func_info_rec_size = 0, rp_line_info = None, rp_line_info_cnt = 0,
     rp_line_info_rec_size = 0\<rparr>"

definition demo_insns :: "bpf_insn list" where
  "demo_insns = [demo_insn 0x18 0 0, demo_insn 0 0 0, demo_insn 0x18 0 4, demo_insn 0 0 0, demo_insn 0x85 1 0xffffffff, demo_insn 0x95 0 0]"

definition demo_obj :: "reloc_prog list \<Rightarrow> bool \<Rightarrow> reloc_obj" where
  "demo_obj progs calls = \<lparr>ro_programs = progs,
     ro_maps = [\<lparr>rm_fd = 7, rm_sec_idx = 3, rm_sec_offset = 0, rm_libbpf_type = LIBBPF_MAP_UNSPEC\<rparr>,
                \<lparr>rm_fd = 9, rm_sec_idx = 4, rm_sec_offset = 0, rm_libbpf_type = LIBBPF_MAP_DATA\<rparr>],
     ro_text_shndx = 2, ro_maps_shndx = 3, ro_btf_maps_shndx = -1, ro_data_shndx = 4, ro_bss_shndx = -1, ro_rodata_shndx = -1,
     ro_global_data = True, ro_has_pseudo_calls = calls, ro_relaxed_core_relocs = False, ro_btf_ext = None\<rparr>"

definition demo_rels :: "elf_rel list" where
  "demo_rels = [Some (0, Some \<lparr>es_shndx = 3, es_value = 0, es_global = True\<rparr>),
     Some (16, Some \<lparr>es_shndx = 4, es_value = 0, es_global = False\<rparr>), Some (32, Some \<lparr>es_shndx = 2, es_value = 0, es_global = True\<rparr>)]"

definition demo_descs :: "reloc_desc list" where
  "demo_descs = [\<lparr>rd_type = RELO_LD64, rd_insn_idx = 0, rd_idx = 0\<rparr>, \<lparr>rd_type = RELO_DATA, rd_insn_idx = 2, rd_idx = 1\<rparr>,
     \<lparr>rd_type = RELO_CALL, rd_insn_idx = 4, rd_idx = 0\<rparr>]"

definition demo_text :: "reloc_prog" where
  "demo_text = demo_prog 2 [demo_insn 0x18 0 0, demo_insn 0 0 0, demo_insn 0x95 0 0] (Some [Some \<lparr>rd_type = RELO_LD64, rd_insn_idx = 0, rd_idx = 0\<rparr>])"

lemmas demo_defs = demo_insn_def demo_prog_def demo_insns_def demo_obj_def demo_rels_def demo_descs_def demo_text_def
  BPF_JMP_CALL_def BPF_LD_IMM_DW_def BPF_PSEUDO_CALL_def SHN_LORESERVE_def

lemmas collect_defs = bpf_program__collect_reloc_def collect_one_def find_reloc_map_def is_call_desc_def rel_insn_idx_def
  bpf_object__relo_in_known_section_def bpf_object__shndx_is_maps_def bpf_object__shndx_is_data_def
  bpf_object__section_to_libbpf_map_type_def arr_get_def

lemma demo_collects:
  "bpf_program__collect_reloc True demo_rels (demo_prog 5 demo_insns None) (demo_obj [demo_text] False)
     = Some (0, demo_prog 5 demo_insns (Some (map Some demo_descs)), demo_obj [demo_text] True)"
  by (simp add: demo_defs collect_defs)


section \<open>The order of the programs\<close>

text \<open>The text section is copied as it stands: into a program that comes before it in the file, the copy goes without its
  relocations, and the load of the map keeps the descriptor 0. The other way round the copy is relocated.\<close>

definition copied_imm :: "reloc_prog list \<Rightarrow> nat \<Rightarrow> u32 option" where
  "copied_imm progs i = do {
     (err, obj) \<leftarrow> bpf_object__relocate True (\<lambda>obj. Some (0, obj)) (demo_obj progs True);
     if err \<noteq> 0 then None else Some (in_imm (rp_insns (ro_programs obj ! i) ! 6))
   }"

lemma text_relocated_too_late:
  "copied_imm [demo_prog 5 demo_insns (Some (map Some demo_descs)), demo_text] 0 = Some 0"
  "copied_imm [demo_text, demo_prog 5 demo_insns (Some (map Some demo_descs))] 1 = Some 7"
  by code_simp+

text \<open>A load whose symbol is a function leaves its description unwritten, and the relocation then reads it; an
  entry with an offset behind the code is looked up without a check.\<close>

lemma function_address_unwritten:
  "collect_loop (demo_obj [] False) demo_insns [Some (0, Some \<lparr>es_shndx = 2, es_value = 0, es_global = True\<rparr>)] = Some (0, [None])"
  "relocate_loop ok obj (None # ds) p = None"
  by (simp_all add: demo_defs collect_defs)

lemma reloc_offset_unchecked:
  "collect_one (demo_obj [] False) demo_insns (Some (48, Some \<lparr>es_shndx = 2, es_value = 0, es_global = True\<rparr>)) = None"
  by (simp add: demo_defs collect_defs)

end
