(* ===== verification/Core_Reloc.thy ===== *)
theory Core_Reloc
  imports Core_Match Reloc Hashmap
begin

text \<open>
  \<^verbatim>\<open>eBPF_app/libbpf/src/libbpf.c\<close>: relocating programs against the types of the running kernel. For every record of
  the extension section, the candidates among the kernel's types are searched (\<^verbatim>\<open>bpf_core_find_cands\<close>) and kept in
  a hash table, the field is matched in each (\<open>Core_Spec\<close>), and the instruction is patched with what the record asks
  for (\<^verbatim>\<open>bpf_core_calc_field_relo\<close>, \<^verbatim>\<open>bpf_core_reloc_insn\<close>). Messages are not modelled.
\<close>

unbundle bit_operations_syntax

definition ESRCH :: int where "ESRCH = 3"
definition EBADF :: int where "EBADF = 9"

definition BPF_FIELD_BYTE_OFFSET :: u32 where "BPF_FIELD_BYTE_OFFSET = 0"
definition BPF_FIELD_BYTE_SIZE :: u32 where "BPF_FIELD_BYTE_SIZE = 1"
definition BPF_FIELD_EXISTS :: u32 where "BPF_FIELD_EXISTS = 2"
definition BPF_FIELD_SIGNED :: u32 where "BPF_FIELD_SIGNED = 3"
definition BPF_FIELD_LSHIFT_U64 :: u32 where "BPF_FIELD_LSHIFT_U64 = 4"
definition BPF_FIELD_RSHIFT_U64 :: u32 where "BPF_FIELD_RSHIFT_U64 = 5"

lemmas field_kind_defs = BPF_FIELD_BYTE_OFFSET_def BPF_FIELD_BYTE_SIZE_def BPF_FIELD_EXISTS_def BPF_FIELD_SIGNED_def
  BPF_FIELD_LSHIFT_U64_def BPF_FIELD_RSHIFT_U64_def

record bpf_field_reloc =
  fr_insn_off :: u32
  fr_type_id :: u32
  fr_access_str_off :: u32
  fr_kind :: u32

section \<open>The value of a relocation\<close>

text \<open>The loop that looks for the smallest unit that holds a bit field: \<open>Inl\<close> is an error, \<open>Inr\<close> the unit's size and offset
  in bytes. A division by zero is undefined.\<close>

definition unit_off :: "u32 \<Rightarrow> u32 \<Rightarrow> u32 option" where
  "unit_off bit_off byte_sz = (if byte_sz = 0 then None else Some (bit_off div 8 div byte_sz * byte_sz))"

function bitfield_unit :: "u32 \<Rightarrow> u32 \<Rightarrow> u32 \<Rightarrow> u32 \<Rightarrow> (int + u32 \<times> u32) option" where
  "bitfield_unit bit_off bit_sz byte_sz byte_off =
     (if bit_off + bit_sz - byte_off * 8 > byte_sz * 8 then
        if byte_sz \<ge> 8 then Some (Inl (- E2BIG))
        else (case unit_off bit_off (byte_sz * 2) of
           None \<Rightarrow> None
         | Some byte_off \<Rightarrow> bitfield_unit bit_off bit_sz (byte_sz * 2) byte_off)
      else Some (Inr (byte_sz, byte_off)))"
  by pat_completeness auto
termination
proof (relation "measure (\<lambda>(_, _, byte_sz, _). 8 - unat byte_sz)")
  show "((bit_off, bit_sz, byte_sz * 2, byte_off'), (bit_off, bit_sz, byte_sz, byte_off)) \<in> measure (\<lambda>(_, _, byte_sz, _). 8 - unat byte_sz)"
    if "\<not> 8 \<le> byte_sz" "unit_off bit_off (byte_sz * 2) = Some byte_off'" for bit_off bit_sz byte_sz byte_off byte_off' :: u32
  proof -
    have "byte_sz \<noteq> 0" using that(2) by (auto simp: unit_off_def)
    then have "0 < unat byte_sz" "unat byte_sz < 8" using that(1) by (simp_all add: unat_gt_0 word_le_nat_alt)
    moreover have "unat (byte_sz * 2) = unat byte_sz * 2" using \<open>unat byte_sz < 8\<close> by (subst unat_mult_lem [THEN iffD1]) auto
    ultimately show ?thesis by simp
  qed
qed auto

declare bitfield_unit.simps [simp del]

text \<open>The size in bytes, offset in bytes and size in bits of the memory access, and whether the field is a bit field.\<close>

definition field_access :: "btf \<Rightarrow> btf_ptr \<Rightarrow> u32 \<Rightarrow> u32 \<Rightarrow> (int + u32 \<times> u32 \<times> u32 \<times> bool) option" where
  "field_access b t i bit_off = do {
     mtype \<leftarrow> member_type b t (unat i);
     (mt, _) \<leftarrow> skip_mods_and_typedefs b mtype;
     bit_sz \<leftarrow> btf_member_bitfield_size b t i;
     if bit_sz > 0 then do {
       m \<leftarrow> mt;
       byte_sz \<leftarrow> t_size b m;
       byte_off \<leftarrow> unit_off bit_off byte_sz;
       r \<leftarrow> bitfield_unit bit_off bit_sz byte_sz byte_off;
       Some (case r of Inl err \<Rightarrow> Inl err | Inr (byte_sz, byte_off) \<Rightarrow> Inr (byte_sz, byte_off, bit_sz, True))
     }
     else do {
       sz \<leftarrow> btf__resolve_size b mtype;
       Some (if sz < 0 then Inl (- EINVAL) else Inr (of_int sz, bit_off div 8, of_int sz * 8, False))
     }
   }"

text \<open>The signedness: an enumeration is taken to be signed, anything else is read as if it were an integer type.\<close>

definition field_signed :: "btf \<Rightarrow> btf_ptr \<Rightarrow> u32 \<Rightarrow> bool option" where
  "field_signed b t i = do {
     mtype \<leftarrow> member_type b t (unat i);
     (mt, _) \<leftarrow> skip_mods_and_typedefs b mtype;
     m \<leftarrow> mt;
     enum \<leftarrow> btf_is_enum b m;
     if enum then Some True
     else do { enc \<leftarrow> btf_int_encoding b m; Some (enc AND BTF_INT_SIGNED \<noteq> 0) }
   }"

text \<open>The value and whether it can be checked against the instruction.\<close>

definition bpf_core_calc_field_relo :: "u32 \<Rightarrow> btf \<Rightarrow> bpf_core_spec \<Rightarrow> (int + u32 \<times> bool) option" where
  "bpf_core_calc_field_relo kind b spec = do {
     acc \<leftarrow> (if cs_len spec = 0 then None else arr_get (cs_spec spec) (cs_len spec - 1));
     tt \<leftarrow> btf__type_by_id b (acc_type_id acc);
     if acc_name acc = None then
       (if kind = BPF_FIELD_BYTE_OFFSET then Some (Inr (cs_bit_offset spec div 8, True))
        else if kind = BPF_FIELD_BYTE_SIZE then do {
          sz \<leftarrow> btf__resolve_size b (acc_type_id acc);
          Some (if sz < 0 then Inl (- EINVAL) else Inr (of_int sz, True))
        }
        else Some (Inl (- EINVAL)))
     else do {
       t \<leftarrow> tt;
       r \<leftarrow> field_access b t (acc_idx acc) (cs_bit_offset spec);
       (case r of
          Inl err \<Rightarrow> Some (Inl err)
        | Inr (byte_sz, byte_off, bit_sz, bitfield) \<Rightarrow>
            if kind = BPF_FIELD_BYTE_OFFSET then Some (Inr (byte_off, \<not> bitfield))
            else if kind = BPF_FIELD_BYTE_SIZE then Some (Inr (byte_sz, \<not> bitfield))
            else if kind = BPF_FIELD_SIGNED then do {
              sgn \<leftarrow> field_signed b t (acc_idx acc);
              Some (Inr (if sgn then 1 else 0, True))
            }
            else if kind = BPF_FIELD_LSHIFT_U64 then Some (Inr (64 - (cs_bit_offset spec + bit_sz - byte_off * 8), \<not> bitfield))
            else if kind = BPF_FIELD_RSHIFT_U64 then Some (Inr (64 - bit_sz, True))
            else Some (Inl (- EINVAL)))
     }
   }"

section \<open>Patching an instruction\<close>

text \<open>The values before and after: \<open>None\<close> for the value before when it is not known.\<close>

definition relo_values :: "u32 \<Rightarrow> btf \<Rightarrow> bpf_core_spec \<Rightarrow> btf \<Rightarrow> bpf_core_spec option \<Rightarrow> (int + u32 option \<times> u32) option" where
  "relo_values kind lb local_spec tb targ_spec =
     (if kind = BPF_FIELD_EXISTS then Some (Inr (Some 1, if targ_spec \<noteq> None then 1 else 0))
      else (case targ_spec of
         None \<Rightarrow> Some (Inr (None, -1))
       | Some targ_spec \<Rightarrow> do {
           r \<leftarrow> bpf_core_calc_field_relo kind lb local_spec;
           (case r of
              Inl err \<Rightarrow> Some (Inl err)
            | Inr (orig_val, validate) \<Rightarrow> do {
                r \<leftarrow> bpf_core_calc_field_relo kind tb targ_spec;
                Some (case r of Inl err \<Rightarrow> Inl err | Inr (new_val, _) \<Rightarrow> Inr (if validate then Some orig_val else None, new_val))
              })
         }))"

definition BPF_CLASS :: "u8 \<Rightarrow> u8" where "BPF_CLASS code = code AND 0x07"
definition BPF_SRC :: "u8 \<Rightarrow> u8" where "BPF_SRC code = code AND 0x08"
definition BPF_ALU :: u8 where "BPF_ALU = 4"
definition BPF_ALU64 :: u8 where "BPF_ALU64 = 7"
definition BPF_K :: u8 where "BPF_K = 0"

definition bpf_core_reloc_insn ::
    "reloc_prog \<Rightarrow> bpf_field_reloc \<Rightarrow> btf \<Rightarrow> bpf_core_spec \<Rightarrow> btf \<Rightarrow> bpf_core_spec option \<Rightarrow> (int \<times> reloc_prog) option" where
  "bpf_core_reloc_insn prog relo lb local_spec tb targ_spec =
     (if fr_insn_off relo mod 8 \<noteq> 0 then Some (- EINVAL, prog)
      else do {
        let insn_idx = unat (fr_insn_off relo div 8);
        r \<leftarrow> relo_values (fr_kind relo) lb local_spec tb targ_spec;
        (case r of
           Inl err \<Rightarrow> Some (err, prog)
         | Inr (orig_val, new_val) \<Rightarrow> do {
             insn \<leftarrow> arr_get (rp_insns prog) insn_idx;
             if BPF_CLASS (in_code insn) = BPF_ALU \<or> BPF_CLASS (in_code insn) = BPF_ALU64 then
               if BPF_SRC (in_code insn) \<noteq> BPF_K then Some (- EINVAL, prog)
               else if orig_val \<noteq> None \<and> orig_val \<noteq> Some (in_imm insn) then Some (- EINVAL, prog)
               else do {
                 insns \<leftarrow> arr_set (rp_insns prog) insn_idx (insn\<lparr>in_imm := new_val\<rparr>);
                 Some (0, prog\<lparr>rp_insns := insns\<rparr>)
               }
             else Some (- EINVAL, prog)
           })
      })"

section \<open>Candidates\<close>

text \<open>The environment: \<open>ce_room n\<close> is the number of bytes that a block really has when \<open>n\<close> bytes were asked for, at least \<open>n\<close>. The
  rest are outcomes of allocations and of the hash table, and the files of the kernel's type information.\<close>

record core_env =
  ce_room :: "nat \<Rightarrow> nat"
  ce_calloc :: bool
  ce_realloc :: "nat \<Rightarrow> bool"
  ce_overlong :: "u64 \<Rightarrow> u64"
  ce_hm_new :: bool
  ce_hm_calloc :: "nat \<Rightarrow> bool"
  ce_hm_malloc :: bool
  ce_release :: string
  ce_readable :: "string \<Rightarrow> bool"
  ce_stat :: "string \<Rightarrow> int + nat"
  ce_malloc :: "nat \<Rightarrow> bool"
  ce_fopen :: "string \<Rightarrow> int"
  ce_fread :: "string \<Rightarrow> nat \<Rightarrow> bytes"
  ce_btf_new :: "bytes \<Rightarrow> (int + btf) option"
  ce_parse_elf :: "string \<Rightarrow> int + btf"

record ids_vec =
  iv_data :: "u32 list"
  iv_len :: nat

text \<open>Adding a candidate: the new size passed to \<^verbatim>\<open>realloc\<close> counts entries, not bytes.\<close>

definition push_cand :: "core_env \<Rightarrow> u32 \<Rightarrow> ids_vec \<Rightarrow> (int + ids_vec) option" where
  "push_cand env i v =
     (if \<not> ce_realloc env (iv_len v + 1) then Some (Inl (- ENOMEM))
      else if ce_room env (iv_len v + 1) < 4 * (iv_len v + 1) then None
      else Some (Inr \<lparr>iv_data = take (iv_len v) (iv_data v) @ [i], iv_len = iv_len v + 1\<rparr>))"

text \<open>The loop over the types of the kernel; \<open>k\<close> are left.\<close>

fun cands_loop :: "core_env \<Rightarrow> btf \<Rightarrow> bytes \<Rightarrow> nat \<Rightarrow> nat \<Rightarrow> ids_vec \<Rightarrow> (int + ids_vec) option" where
  "cands_loop env tb local_name 0 i v = Some (Inr v)"
| "cands_loop env tb local_name (Suc k) i v = do {
     tt \<leftarrow> btf__type_by_id tb (of_nat i);
     t \<leftarrow> tt;
     off \<leftarrow> t_name_off tb t;
     targ_name \<leftarrow> btf_name tb off;
     if str_is_empty targ_name \<or> \<not> same_essential local_name (the targ_name) then cands_loop env tb local_name k (Suc i) v
     else do {
       r \<leftarrow> push_cand env (of_nat i) v;
       (case r of Inl err \<Rightarrow> Some (Inl err) | Inr v \<Rightarrow> cands_loop env tb local_name k (Suc i) v)
     }
   }"

definition bpf_core_find_cands :: "core_env \<Rightarrow> btf \<Rightarrow> u32 \<Rightarrow> btf \<Rightarrow> (int + ids_vec) option" where
  "bpf_core_find_cands env lb local_type_id tb = do {
     tt \<leftarrow> btf__type_by_id lb local_type_id;
     (case tt of
        None \<Rightarrow> Some (Inl (- EINVAL))
      | Some t \<Rightarrow> do {
          off \<leftarrow> t_name_off lb t;
          local_name \<leftarrow> btf_name lb off;
          if str_is_empty local_name then Some (Inl (- EINVAL))
          else if \<not> ce_calloc env then Some (Inl (- ENOMEM))
          else cands_loop env tb (the local_name) (unat (btf__get_nr_types tb)) 1 \<lparr>iv_data = [], iv_len = 0\<rparr>
        })
   }"

section \<open>Relocating a field\<close>

definition bpf_core_hash_fn :: "u64 \<Rightarrow> u64" where "bpf_core_hash_fn key = key"
definition bpf_core_equal_fn :: "u64 \<Rightarrow> u64 \<Rightarrow> bool" where "bpf_core_equal_fn k1 k2 \<longleftrightarrow> k1 = k2"
definition u32_as_hash_key :: "u32 \<Rightarrow> u64" where "u32_as_hash_key x = ucast x"

text \<open>The lists of candidates are on the heap; the hash table maps a type id to the place of its list.\<close>

record core_cache =
  cc_map :: "(u64, nat) hashmap"
  cc_vecs :: "ids_vec list"

definition find_or_add_cands :: "core_env \<Rightarrow> btf \<Rightarrow> u32 \<Rightarrow> btf \<Rightarrow> core_cache \<Rightarrow> (int + nat \<times> core_cache) option" where
  "find_or_add_cands env lb local_id tb c = do {
     cached \<leftarrow> hashmap__find (ce_overlong env) (cc_map c) (u32_as_hash_key local_id);
     (case cached of
        Some p \<Rightarrow> Some (Inr (p, c))
      | None \<Rightarrow> do {
          r \<leftarrow> bpf_core_find_cands env lb local_id tb;
          (case r of
             Inl err \<Rightarrow> Some (Inl err)
           | Inr v \<Rightarrow> do {
               let p = length (cc_vecs c);
               (err, _, hm) \<leftarrow> hashmap__set (ce_overlong env) (ce_hm_calloc env) (ce_hm_malloc env) (cc_map c) (u32_as_hash_key local_id) p;
               Some (if err \<noteq> 0 then Inl err else Inr (p, \<lparr>cc_map = hm, cc_vecs = cc_vecs c @ [v]\<rparr>))
             })
        })
   }"

text \<open>The loop over the candidates: \<open>i\<close> is the next one, \<open>k\<close> are left, \<open>j\<close> have matched and been moved to the front. The first
  match fixes the specification, the others have to agree with its bit offset.\<close>

fun match_cands ::
    "btf \<Rightarrow> bpf_core_spec \<Rightarrow> btf \<Rightarrow> nat \<Rightarrow> nat \<Rightarrow> nat \<Rightarrow> bpf_core_spec option \<Rightarrow> u32 list
      \<Rightarrow> ((int + nat \<times> bpf_core_spec option) \<times> u32 list) option" where
  "match_cands lb local_spec tb 0 i j targ_spec data = Some (Inr (j, targ_spec), data)"
| "match_cands lb local_spec tb (Suc k) i j targ_spec data = do {
     cand_id \<leftarrow> arr_get data i;
     ct \<leftarrow> btf__type_by_id tb cand_id;
     cand_type \<leftarrow> ct;
     (err, cand_spec) \<leftarrow> bpf_core_spec_match lb local_spec tb cand_id;
     if err < 0 then Some (Inl err, data)
     else if err = 0 then match_cands lb local_spec tb k (Suc i) j targ_spec data
     else do {
       ts \<leftarrow> (if j = 0 then Some cand_spec else targ_spec);
       if cs_bit_offset cand_spec \<noteq> cs_bit_offset ts then Some (Inl (- EINVAL), data)
       else do {
         acc \<leftarrow> arr_get (cs_spec cand_spec) 0;
         data \<leftarrow> arr_set data j (acc_type_id acc);
         match_cands lb local_spec tb k (Suc i) (Suc j) (Some ts) data
       }
     }
   }"

definition apply_field_reloc ::
    "core_env \<Rightarrow> bool \<Rightarrow> btf \<Rightarrow> btf \<Rightarrow> bpf_field_reloc \<Rightarrow> bpf_core_spec \<Rightarrow> reloc_prog \<Rightarrow> core_cache \<Rightarrow> (int \<times> reloc_prog \<times> core_cache) option" where
  "apply_field_reloc env relaxed lb tb relo local_spec prog c = do {
     r \<leftarrow> find_or_add_cands env lb (fr_type_id relo) tb c;
     (case r of
        Inl err \<Rightarrow> Some (err, prog, c)
      | Inr (p, c) \<Rightarrow> do {
          v \<leftarrow> arr_get (cc_vecs c) p;
          (r, data) \<leftarrow> match_cands lb local_spec tb (iv_len v) 0 0 None (iv_data v);
          (case r of
             Inl err \<Rightarrow> Some (err, prog, c\<lparr>cc_vecs := (cc_vecs c)[p := v\<lparr>iv_data := data\<rparr>]\<rparr>)
           | Inr (j, targ_spec) \<Rightarrow> do {
               let c = c\<lparr>cc_vecs := (cc_vecs c)[p := \<lparr>iv_data = data, iv_len = (if j > 0 then j else iv_len v)\<rparr>]\<rparr>;
               if j = 0 \<and> \<not> relaxed \<and> fr_kind relo \<noteq> BPF_FIELD_EXISTS then Some (- ESRCH, prog, c)
               else do {
                 (err, prog) \<leftarrow> bpf_core_reloc_insn prog relo lb local_spec tb (if j = 0 then None else targ_spec);
                 Some (if err \<noteq> 0 then - EINVAL else 0, prog, c)
               }
             })
        })
   }"

definition bpf_core_reloc_field ::
    "core_env \<Rightarrow> bool \<Rightarrow> btf \<Rightarrow> btf \<Rightarrow> bpf_field_reloc \<Rightarrow> reloc_prog \<Rightarrow> core_cache \<Rightarrow> (int \<times> reloc_prog \<times> core_cache) option" where
  "bpf_core_reloc_field env relaxed lb tb relo prog c = do {
     tt \<leftarrow> btf__type_by_id lb (fr_type_id relo);
     (case tt of
        None \<Rightarrow> Some (- EINVAL, prog, c)
      | Some local_type \<Rightarrow> do {
          off \<leftarrow> t_name_off lb local_type;
          local_name \<leftarrow> btf_name lb off;
          if str_is_empty local_name then Some (- EINVAL, prog, c)
          else do {
            spec_str \<leftarrow> btf_name lb (fr_access_str_off relo);
            if str_is_empty spec_str then Some (- EINVAL, prog, c)
            else do {
              r \<leftarrow> bpf_core_spec_parse lb (fr_type_id relo) spec_str;
              (case r of
                 Inl err \<Rightarrow> Some (- EINVAL, prog, c)
               | Inr local_spec \<Rightarrow> apply_field_reloc env relaxed lb tb relo local_spec prog c)
            }
          }
        })
   }"

section \<open>Relocating an object\<close>

text \<open>The records of a section from \<open>pos\<close>, \<open>n\<close> of them left.\<close>

fun reloc_records ::
    "core_env \<Rightarrow> bool \<Rightarrow> btf \<Rightarrow> btf \<Rightarrow> bytes \<Rightarrow> u32 \<Rightarrow> nat \<Rightarrow> nat \<Rightarrow> reloc_prog \<Rightarrow> core_cache \<Rightarrow> (int \<times> reloc_prog \<times> core_cache) option" where
  "reloc_records env relaxed lb tb d rec_size 0 pos prog c = Some (0, prog, c)"
| "reloc_records env relaxed lb tb d rec_size (Suc n) pos prog c = do {
     insn_off \<leftarrow> load32 d pos;
     type_id \<leftarrow> load32 d (pos + 4);
     access_str_off \<leftarrow> load32 d (pos + 8);
     kind \<leftarrow> load32 d (pos + 12);
     (err, prog, c) \<leftarrow> bpf_core_reloc_field env relaxed lb tb
        \<lparr>fr_insn_off = insn_off, fr_type_id = type_id, fr_access_str_off = access_str_off, fr_kind = kind\<rparr> prog c;
     if err \<noteq> 0 then Some (err, prog, c) else reloc_records env relaxed lb tb d rec_size n (pos + unat rec_size) prog c
   }"

text \<open>The place of the first program with this section name.\<close>

definition find_program_by_title :: "reloc_obj \<Rightarrow> bytes \<Rightarrow> nat option" where
  "find_program_by_title obj title = find (\<lambda>i. rp_section_name (ro_programs obj ! i) = title) [0..<length (ro_programs obj)]"

text \<open>The sections from \<open>pos\<close> to \<open>fin\<close>; the option monad gives an iteration that never ends no value.\<close>

partial_function (option) reloc_sections ::
    "core_env \<Rightarrow> btf \<Rightarrow> btf \<Rightarrow> bytes \<Rightarrow> u32 \<Rightarrow> nat \<Rightarrow> nat \<Rightarrow> reloc_obj \<Rightarrow> core_cache \<Rightarrow> (int \<times> reloc_obj) option" where
  "reloc_sections env lb tb d rec_size pos fin obj c =
     (if pos < fin then do {
        sec_name_off \<leftarrow> load32 d pos;
        num_info \<leftarrow> load32 d (pos + 4);
        sec_name \<leftarrow> btf_name lb sec_name_off;
        if str_is_empty sec_name then Some (- EINVAL, obj)
        else (case find_program_by_title obj (the sec_name) of
           None \<Rightarrow> Some (- EINVAL, obj)
         | Some i \<Rightarrow> do {
             prog \<leftarrow> arr_get (ro_programs obj) i;
             (err, prog, c) \<leftarrow> reloc_records env (ro_relaxed_core_relocs obj) lb tb d rec_size (unat num_info) (pos + 8) prog c;
             progs \<leftarrow> arr_set (ro_programs obj) i prog;
             let obj = obj\<lparr>ro_programs := progs\<rparr>;
             if err \<noteq> 0 then Some (err, obj)
             else reloc_sections env lb tb d rec_size (pos + 8 + unat (rec_size * num_info)) fin obj c
           })
      }
      else Some (0, obj))"

text \<open>Reading the type information of the kernel.\<close>

definition btf_load_raw :: "core_env \<Rightarrow> string \<Rightarrow> (int + btf) option" where
  "btf_load_raw env path =
     (case ce_stat env path of
        Inl e \<Rightarrow> Some (Inl (- e))
      | Inr st_size \<Rightarrow>
          if \<not> ce_malloc env st_size then Some (Inl (- ENOMEM))
          else if ce_fopen env path \<noteq> 0 then Some (Inl (- ce_fopen env path))
          else (let data = ce_fread env path st_size
                in if length data < st_size then Some (Inl (- EBADF)) else ce_btf_new env data))"

definition kernel_locations :: "string \<Rightarrow> (string \<times> bool) list" where
  "kernel_locations r =
     [(''/sys/kernel/btf/vmlinux'', True),
      (''/boot/vmlinux-'' @ r, False),
      (''/lib/modules/'' @ r @ ''/vmlinux-'' @ r, False),
      (''/lib/modules/'' @ r @ ''/build/vmlinux'', False),
      (''/usr/lib/modules/'' @ r @ ''/kernel/vmlinux'', False),
      (''/usr/lib/debug/boot/vmlinux-'' @ r, False),
      (''/usr/lib/debug/boot/vmlinux-'' @ r @ ''.debug'', False),
      (''/usr/lib/debug/lib/modules/'' @ r @ ''/vmlinux'', False)]"

fun try_locations :: "core_env \<Rightarrow> (string \<times> bool) list \<Rightarrow> (int + btf) option" where
  "try_locations env [] = Some (Inl (- ESRCH))"
| "try_locations env ((text, is_raw) # ls) =
     (let path = take (PATH_MAX - 1) text
      in if \<not> ce_readable env path then try_locations env ls
         else do {
           r \<leftarrow> (if is_raw then btf_load_raw env path else Some (ce_parse_elf env path));
           (case r of Inl err \<Rightarrow> try_locations env ls | Inr b \<Rightarrow> Some (Inr b))
         })"

definition bpf_core_find_kernel_btf :: "core_env \<Rightarrow> (int + btf) option" where
  "bpf_core_find_kernel_btf env = try_locations env (kernel_locations (ce_release env))"

definition bpf_core_reloc_fields :: "core_env \<Rightarrow> string option \<Rightarrow> reloc_obj \<Rightarrow> (int \<times> reloc_obj) option" where
  "bpf_core_reloc_fields env targ_btf_path obj = do {
     r \<leftarrow> (case targ_btf_path of Some path \<Rightarrow> Some (ce_parse_elf env path) | None \<Rightarrow> bpf_core_find_kernel_btf env);
     (case r of
        Inl err \<Rightarrow> Some (err, obj)
      | Inr targ_btf \<Rightarrow>
          (case hashmap__new (ce_hm_new env) bpf_core_hash_fn bpf_core_equal_fn of
             Inl err \<Rightarrow> Some (err, obj)
           | Inr cand_cache \<Rightarrow> do {
               (b, e) \<leftarrow> ro_btf_ext obj;
               let seg = ext_field_reloc_info e;
               reloc_sections env b targ_btf (ext_data e) (ei_rec_size seg) (ei_info seg) (ei_info seg + unat (ei_len seg)) obj
                 \<lparr>cc_map = cand_cache, cc_vecs = []\<rparr>
             }))
   }"

definition bpf_object__relocate_core :: "core_env \<Rightarrow> string option \<Rightarrow> reloc_obj \<Rightarrow> (int \<times> reloc_obj) option" where
  "bpf_object__relocate_core env targ_btf_path obj = do {
     (b, e) \<leftarrow> ro_btf_ext obj;
     if ei_len (ext_field_reloc_info e) \<noteq> 0 then bpf_core_reloc_fields env targ_btf_path obj else Some (0, obj)
   }"

end
