(* ===== verification/Core_Correct.thy ===== *)
theory Core_Correct
  imports Core_Reloc
begin

text \<open>
  What the relocation against the kernel's types achieves: the candidates are the types of the same essential name, a
  field is relocated to the offset of the same designator in a candidate, and the values for a bit field describe a memory access that
  yields exactly its bits. It also keeps the programs in their places, which loading an object relies on.
\<close>

unbundle bit_operations_syntax

section \<open>The programs stay in their places\<close>

lemma reloc_sections_length:
  assumes "reloc_sections env lb tb d rs pos fin obj c = Some (err, obj')"
  shows "length (ro_programs obj') = length (ro_programs obj)"
proof -
  have "length (ro_programs (snd (err, obj'))) = length (ro_programs obj)"
  proof (rule reloc_sections.raw_induct
      [where P = "\<lambda>env lb tb d rs pos fin obj c r. length (ro_programs (snd r)) = length (ro_programs obj)", OF _ assms], goal_cases)
    case (1 f env lb tb d rs pos fin obj c r)
    from 1(2) show ?case
      by (auto simp: Let_def arr_set_def split: if_splits Option.bind_splits option.splits dest!: 1(1))
  qed
  then show ?thesis by simp
qed

lemma relocate_core_length:
  "bpf_object__relocate_core env path obj = Some (err, obj') \<Longrightarrow> length (ro_programs obj') = length (ro_programs obj)"
  by (auto simp: bpf_object__relocate_core_def bpf_core_reloc_fields_def Let_def
      split: if_splits Option.bind_splits sum.splits dest: reloc_sections_length)

section \<open>Bit fields\<close>

text \<open>Bit \<open>n\<close> of an object in memory.\<close>

definition mem_bit :: "bytes \<Rightarrow> nat \<Rightarrow> bool" where
  "mem_bit m n \<longleftrightarrow> n div 8 < length m \<and> bit (m ! (n div 8)) (n mod 8)"

lemma mem_bit_Cons: "mem_bit (b # bs) n \<longleftrightarrow> (if n < 8 then bit b n else mem_bit bs (n - 8))"
  by (auto simp: mem_bit_def nth_Cons' le_div_geq le_mod_geq)

lemma bit_word_of_le: "bit (word_of_le bs :: 'a::len word) n \<longleftrightarrow> n < LENGTH('a) \<and> mem_bit bs n"
proof (induction bs arbitrary: n)
  case Nil
  then show ?case by (simp add: mem_bit_def)
next
  case (Cons b bs)
  have "\<not> bit b n" if "8 \<le> n" using bit_imp_le_length [of b n] that by auto
  then show ?case using Cons.IH [of "n - 8"] by (auto simp: mem_bit_Cons bit_or_iff bit_push_bit_iff bit_ucast_iff)
qed

lemma mem_bit_part:
  "mem_bit (take s (drop i m)) n \<longleftrightarrow> n div 8 < s \<and> mem_bit m (8 * i + n)"
  by (auto simp: mem_bit_def)

text \<open>The unit found for a bit field is aligned to its size and covers the field.\<close>

lemma bitfield_unit_covers:
  assumes "bitfield_unit bit_off bit_sz byte_sz byte_off = Some (Inr (s, off))"
    "unit_off bit_off byte_sz = Some byte_off" "byte_sz \<in> {1, 2, 4, 8}"
  shows "unit_off bit_off s = Some off \<and> s \<in> {1, 2, 4, 8} \<and> bit_off + bit_sz - off * 8 \<le> s * 8"
  using assms
proof (induction bit_off bit_sz byte_sz byte_off rule: bitfield_unit.induct)
  case (1 bit_off bit_sz byte_sz byte_off)
  show ?case
  proof (cases "bit_off + bit_sz - byte_off * 8 > byte_sz * 8")
    case False
    then show ?thesis using 1(2-4) by (auto simp: bitfield_unit.simps [of bit_off bit_sz byte_sz])
  next
    case True
    then obtain byte_off' where n: "\<not> 8 \<le> byte_sz" "unit_off bit_off (byte_sz * 2) = Some byte_off'"
        "bitfield_unit bit_off bit_sz (byte_sz * 2) byte_off' = Some (Inr (s, off))"
      using 1(2) by (auto simp: bitfield_unit.simps [of bit_off bit_sz byte_sz] split: if_splits option.splits)
    have "byte_sz * 2 \<in> {1, 2, 4, 8}" using n(1) 1(4) by auto
    then show ?thesis using 1(1) [OF True n(1,2,3,2)] by blast
  qed
qed

text \<open>The last accessor of a specification is a bit field of \<open>n\<close> bits, whose type has 1, 2, 4 or 8 bytes.\<close>

definition bit_field :: "btf \<Rightarrow> bpf_core_spec \<Rightarrow> u32 \<Rightarrow> bool" where
  "bit_field b spec n \<longleftrightarrow> (\<exists>acc t j m i' s. 0 < cs_len spec \<and> arr_get (cs_spec spec) (cs_len spec - 1) = Some acc \<and> acc_name acc \<noteq> None
     \<and> btf__type_by_id b (acc_type_id acc) = Some (Some t) \<and> btf_member_bitfield_size b t (acc_idx acc) = Some n \<and> 0 < n
     \<and> member_type b t (unat (acc_idx acc)) = Some j \<and> skip_mods_and_typedefs b j = Some (Some m, i') \<and> t_size b m = Some s \<and> s \<in> {1, 2, 4, 8})"

lemma bit_field_values:
  assumes "bit_field b spec n" "bpf_core_calc_field_relo kind0 b spec = Some (Inr v0)"
  obtains s off where "unit_off (cs_bit_offset spec) s = Some off" "s \<in> {1, 2, 4, 8}" "cs_bit_offset spec + n - off * 8 \<le> s * 8"
    "\<And>kind v vd. bpf_core_calc_field_relo kind b spec = Some (Inr (v, vd)) \<Longrightarrow>
      (kind = BPF_FIELD_BYTE_OFFSET \<longrightarrow> v = off) \<and> (kind = BPF_FIELD_BYTE_SIZE \<longrightarrow> v = s)
      \<and> (kind = BPF_FIELD_LSHIFT_U64 \<longrightarrow> v = 64 - (cs_bit_offset spec + n - off * 8)) \<and> (kind = BPF_FIELD_RSHIFT_U64 \<longrightarrow> v = 64 - n)"
proof -
  obtain acc t j m i' s0 where f: "0 < cs_len spec" "arr_get (cs_spec spec) (cs_len spec - 1) = Some acc" "acc_name acc \<noteq> None"
      "btf__type_by_id b (acc_type_id acc) = Some (Some t)" "btf_member_bitfield_size b t (acc_idx acc) = Some n" "0 < n"
      "member_type b t (unat (acc_idx acc)) = Some j" "skip_mods_and_typedefs b j = Some (Some m, i')" "t_size b m = Some s0" "s0 \<in> {1, 2, 4, 8}"
    using assms(1) by (auto simp: bit_field_def)
  obtain s off where fa: "field_access b t (acc_idx acc) (cs_bit_offset spec) = Some (Inr (s, off, n, True))"
    using assms(2) f by (auto simp: bpf_core_calc_field_relo_def field_access_def split: Option.bind_splits sum.splits if_splits)
  then obtain o0 where u: "unit_off (cs_bit_offset spec) s0 = Some o0" "bitfield_unit (cs_bit_offset spec) n s0 o0 = Some (Inr (s, off))"
    using f(5-9) by (auto simp: field_access_def split: Option.bind_splits sum.splits)
  have c: "unit_off (cs_bit_offset spec) s = Some off" "s \<in> {1, 2, 4, 8}" "cs_bit_offset spec + n - off * 8 \<le> s * 8"
    using bitfield_unit_covers [OF u(2,1) f(10)] by auto
  show thesis
    by (rule that [OF c]) (use f fa in \<open>auto simp: bpf_core_calc_field_relo_def field_kind_defs split: Option.bind_splits if_splits\<close>)
qed

lemma shifts_extract:
  fixes w :: u64
  assumes "l = 64 - (d + n)" "r = 64 - n" "d + n \<le> 64"
  shows "bit (drop_bit r (push_bit l w)) k \<longleftrightarrow> k < n \<and> bit w (d + k)"
proof (cases "k < n")
  case True
  then have "r + k < 64" "l \<le> r + k" "r + k - l = d + k" using assms by auto
  then show ?thesis using True by (simp add: bit_drop_bit_eq bit_push_bit_iff)
next
  case False
  then have "64 \<le> r + k" using assms by auto
  then show ?thesis using False by (auto simp: bit_drop_bit_eq bit_push_bit_iff dest: bit_imp_le_length)
qed

lemma unit_off_nat:
  assumes "unit_off bit_off s = Some off" "s \<in> {1, 2, 4, 8}" "unat bit_off + unat n < 2 ^ 32" "bit_off + n - off * 8 \<le> s * 8"
  shows "8 * unat off \<le> unat bit_off" "unat (bit_off + n - off * 8) = unat bit_off - 8 * unat off + unat n"
    "unat bit_off - 8 * unat off + unat n \<le> 8 * unat s"
proof -
  have off: "off = bit_off div 8 div s * s" using assms(1) by (auto simp: unit_off_def split: if_splits)
  have le: "unat (bit_off div 8 div s) * unat s \<le> unat bit_off div 8" by (simp add: unat_div)
  moreover have "unat bit_off div 8 < 2 ^ 32" using assms(3) by simp
  ultimately have "unat off = unat (bit_off div 8 div s) * unat s" unfolding off by (intro unat_mult_lem [THEN iffD1]) simp
  then have o8: "8 * unat off \<le> unat bit_off" using le by linarith
  show "8 * unat off \<le> unat bit_off" by (rule o8)
  have m: "unat (off * 8) = unat off * 8" using o8 assms(3) by (subst unat_mult_lem [THEN iffD1]) simp_all
  have a: "unat (bit_off + n) = unat bit_off + unat n" using assms(3) by (intro unat_add_lem [THEN iffD1]) simp
  have "off * 8 \<le> bit_off + n" using m a o8 by (simp add: word_le_nat_alt)
  then show d: "unat (bit_off + n - off * 8) = unat bit_off - 8 * unat off + unat n" using m a o8 by (simp add: unat_sub)
  have "unat (s * 8) = 8 * unat s" using assms(2) by auto
  then show "unat bit_off - 8 * unat off + unat n \<le> 8 * unat s" using assms(4) d by (simp add: word_le_nat_alt)
qed

text \<open>C21: Reading a bit field through its relocated values. The program loads \<open>sz\<close> bytes at \<open>off\<close>, shifts the value left by \<open>l\<close> and right by
  \<open>r\<close>, as the macros for reading bit fields do. For every object in memory this yields exactly the bits of the field, whatever unit the
  relocation has chosen.\<close>

theorem core_bitfield_read:
  assumes "bit_field b spec n" "unat (cs_bit_offset spec) + unat n < 2 ^ 32"
    and "bpf_core_calc_field_relo BPF_FIELD_BYTE_OFFSET b spec = Some (Inr (off, v1))"
    and "bpf_core_calc_field_relo BPF_FIELD_BYTE_SIZE b spec = Some (Inr (sz, v2))"
    and "bpf_core_calc_field_relo BPF_FIELD_LSHIFT_U64 b spec = Some (Inr (l, v3))"
    and "bpf_core_calc_field_relo BPF_FIELD_RSHIFT_U64 b spec = Some (Inr (r, v4))"
    and "load m (unat off) (unat sz) = Some bs"
  shows "bit (drop_bit (unat r) (push_bit (unat l) (word_of_le bs :: u64))) k \<longleftrightarrow> k < unat n \<and> mem_bit m (unat (cs_bit_offset spec) + k)"
proof -
  obtain s o1 where v: "unit_off (cs_bit_offset spec) s = Some o1" "s \<in> {1, 2, 4, 8}" "cs_bit_offset spec + n - o1 * 8 \<le> s * 8"
      "off = o1" "sz = s" "l = 64 - (cs_bit_offset spec + n - o1 * 8)" "r = 64 - n"
    by (rule bit_field_values [OF assms(1,3)]) (use assms(3-6) in blast)
  let ?d = "unat (cs_bit_offset spec) - 8 * unat off"
  have u: "8 * unat off \<le> unat (cs_bit_offset spec)" "unat (cs_bit_offset spec + n - off * 8) = ?d + unat n" "?d + unat n \<le> 8 * unat s"
    using unit_off_nat [OF v(1,2) assms(2) v(3)] v(4) by simp_all
  have le: "8 * unat s \<le> 64" using v(2) by auto
  have l: "unat l = 64 - (?d + unat n)" unfolding v(6) v(4) [symmetric] using u le by (subst unat_sub) (simp_all add: word_le_nat_alt)
  have r: "unat r = 64 - unat n" unfolding v(7) using u le by (subst unat_sub) (simp_all add: word_le_nat_alt)
  have "bit (drop_bit (unat r) (push_bit (unat l) (word_of_le bs :: u64))) k \<longleftrightarrow> k < unat n \<and> bit (word_of_le bs :: u64) (?d + k)"
    using shifts_extract [OF l r] u(3) le by simp
  also have "\<dots> \<longleftrightarrow> k < unat n \<and> mem_bit bs (?d + k)"
    using u(3) le by (auto simp: bit_word_of_le)
  also have "\<dots> \<longleftrightarrow> k < unat n \<and> mem_bit m (unat (cs_bit_offset spec) + k)"
    using u assms(7) v(5) by (auto simp: load_def mem_bit_part algebra_simps split: if_splits)
  finally show ?thesis .
qed

section \<open>Candidates\<close>

text \<open>A type whose name is not empty and agrees up to the flavor.\<close>

definition is_cand :: "btf \<Rightarrow> bytes \<Rightarrow> u32 \<Rightarrow> bool" where
  "is_cand tb local_name i \<longleftrightarrow> (\<exists>t off name. btf__type_by_id tb i = Some (Some t) \<and> t_name_off tb t = Some off
     \<and> btf_name tb off = Some (Some name) \<and> name \<noteq> [] \<and> same_essential local_name name)"

text \<open>The names of all types can be read.\<close>

definition names_readable :: "btf \<Rightarrow> bool" where
  "names_readable tb \<longleftrightarrow> (\<forall>i. 1 \<le> i \<and> i \<le> nr_types tb \<longrightarrow>
     (\<exists>t off name. btf__type_by_id tb i = Some (Some t) \<and> t_name_off tb t = Some off \<and> btf_name tb off = Some name))"

definition cand_ids :: "btf \<Rightarrow> bytes \<Rightarrow> nat \<Rightarrow> nat \<Rightarrow> u32 list" where
  "cand_ids tb local_name i k = filter (is_cand tb local_name) (map of_nat [i..<i + k])"

lemma cand_ids_Suc: "cand_ids tb nm i (Suc k) = (if is_cand tb nm (of_nat i) then of_nat i # cand_ids tb nm (Suc i) k else cand_ids tb nm (Suc i) k)"
proof -
  have "[i..<i + Suc k] = i # [Suc i..<Suc i + k]" by (simp add: upt_conv_Cons)
  then show ?thesis by (simp only: cand_ids_def list.map filter.simps)
qed

text \<open>The block has room for the first \<open>m\<close> candidates after those that are there.\<close>

definition room_for :: "core_env \<Rightarrow> nat \<Rightarrow> nat \<Rightarrow> bool" where
  "room_for env n m \<longleftrightarrow> (\<forall>k. n < k \<and> k \<le> n + m \<longrightarrow> 4 * k \<le> ce_room env k)"

lemma room_for_Suc: "room_for env n (Suc m) \<longleftrightarrow> 4 * Suc n \<le> ce_room env (Suc n) \<and> room_for env (Suc n) m"
proof -
  have "(n < k \<and> k \<le> n + Suc m) \<longleftrightarrow> k = Suc n \<or> (Suc n < k \<and> k \<le> Suc n + m)" for k by auto
  then show ?thesis by (auto simp: room_for_def)
qed

lemma cands_loop_result:
  assumes "names_readable tb" "1 \<le> i" "i + k \<le> Suc (unat (nr_types tb))" "\<forall>n. ce_realloc env n" "length (iv_data v) = iv_len v"
  shows "cands_loop env tb nm k i v =
    (if room_for env (iv_len v) (length (cand_ids tb nm i k))
     then Some (Inr \<lparr>iv_data = iv_data v @ cand_ids tb nm i k, iv_len = iv_len v + length (cand_ids tb nm i k)\<rparr>) else None)"
  using assms(2,3,5)
proof (induction k arbitrary: i v)
  case 0
  then show ?case by (simp add: cand_ids_def room_for_def)
next
  case (Suc k)
  have "unat (nr_types tb) < 2 ^ LENGTH(32)" by (rule unsigned_less)
  then have "unat (of_nat i :: u32) = i" using Suc.prems(2) by (intro unat_of_nat_small) linarith
  then have "1 \<le> (of_nat i :: u32)" "of_nat i \<le> nr_types tb" using Suc.prems(1,2) by (simp_all add: word_le_nat_alt)
  then obtain t off name where n: "btf__type_by_id tb (of_nat i) = Some (Some t)" "t_name_off tb t = Some off" "btf_name tb off = Some name"
    using assms(1) unfolding names_readable_def by blast
  have cand: "is_cand tb nm (of_nat i) \<longleftrightarrow> \<not> (str_is_empty name \<or> \<not> same_essential nm (the name))"
    using n by (auto simp: is_cand_def str_is_empty_def)
  show ?case
  proof (cases "is_cand tb nm (of_nat i)")
    case False
    then show ?thesis using n cand Suc.IH [of "Suc i" v] Suc.prems by (simp add: cand_ids_Suc)
  next
    case True
    let ?v = "\<lparr>iv_data = iv_data v @ [of_nat i], iv_len = iv_len v + 1\<rparr>"
    have "cands_loop env tb nm (Suc k) i v = (if ce_room env (iv_len v + 1) < 4 * (iv_len v + 1) then None else cands_loop env tb nm k (Suc i) ?v)"
      using n cand True assms(4) Suc.prems(3) by (simp add: push_cand_def)
    also have "\<dots> = (if room_for env (iv_len v) (length (cand_ids tb nm i (Suc k)))
       then Some (Inr \<lparr>iv_data = iv_data v @ cand_ids tb nm i (Suc k), iv_len = iv_len v + length (cand_ids tb nm i (Suc k))\<rparr>) else None)"
      using Suc.IH [of "Suc i" ?v] Suc.prems True by (auto simp: cand_ids_Suc room_for_Suc not_less)
    finally show ?thesis .
  qed
qed

text \<open>The search for candidates, when no allocation fails: it returns exactly the types of the kernel whose names agree with that of
  the local type up to the flavor, in the order of their ids, provided that the allocator hands out four times the bytes that the code asks
  for. When a block has no more room than that, the search writes outside it.\<close>

lemma find_cands_exact:
  assumes "btf__type_by_id lb i = Some (Some t)" "t_name_off lb t = Some off" "btf_name lb off = Some (Some name)" "name \<noteq> []"
    and "names_readable tb" "ce_calloc env" "\<forall>n. ce_realloc env n"
  defines "ids \<equiv> filter (is_cand tb name) (map of_nat [1..<Suc (unat (nr_types tb))])"
  shows "bpf_core_find_cands env lb i tb =
    (if \<forall>k. 1 \<le> k \<and> k \<le> length ids \<longrightarrow> 4 * k \<le> ce_room env k then Some (Inr \<lparr>iv_data = ids, iv_len = length ids\<rparr>) else None)"
proof -
  have ids: "ids = cand_ids tb name 1 (unat (nr_types tb))" by (simp add: ids_def cand_ids_def)
  have "bpf_core_find_cands env lb i tb = cands_loop env tb name (unat (nr_types tb)) 1 \<lparr>iv_data = [], iv_len = 0\<rparr>"
    using assms(1-4,6) by (simp add: bpf_core_find_cands_def str_is_empty_def btf__get_nr_types_def)
  also have "\<dots> = (if room_for env 0 (length ids) then Some (Inr \<lparr>iv_data = ids, iv_len = length ids\<rparr>) else None)"
    using cands_loop_result [OF assms(5) _ _ assms(7), of 1 "unat (nr_types tb)" "\<lparr>iv_data = [], iv_len = 0\<rparr>" name] by (simp add: ids)
  also have "room_for env 0 (length ids) \<longleftrightarrow> (\<forall>k. 1 \<le> k \<and> k \<le> length ids \<longrightarrow> 4 * k \<le> ce_room env k)"
    by (simp add: room_for_def Suc_le_eq)
  finally show ?thesis .
qed

section \<open>The cached candidates\<close>

definition type_name :: "btf \<Rightarrow> u32 \<Rightarrow> bytes \<Rightarrow> bool" where
  "type_name b i name \<longleftrightarrow> (\<exists>t off. btf__type_by_id b i = Some (Some t) \<and> t_name_off b t = Some off \<and> btf_name b off = Some (Some name))"

text \<open>An entry of a list is a candidate or, after it has matched, the type that the candidate stands for.\<close>

definition cand_ok :: "btf \<Rightarrow> bytes \<Rightarrow> u32 \<Rightarrow> bool" where
  "cand_ok tb name x \<longleftrightarrow> (\<exists>c. is_cand tb name c \<and> (x = c \<or> (\<exists>t. skip_mods_and_typedefs tb c = Some (t, x))))"

definition vec_ok :: "btf \<Rightarrow> bytes \<Rightarrow> ids_vec \<Rightarrow> bool" where
  "vec_ok tb name v \<longleftrightarrow> iv_len v \<le> length (iv_data v) \<and> (\<forall>x\<in>set (take (iv_len v) (iv_data v)). cand_ok tb name x)"

text \<open>The invariant of the cache: it maps different types to different lists, each with candidates for its type.\<close>

definition cache_ok :: "core_env \<Rightarrow> btf \<Rightarrow> btf \<Rightarrow> core_cache \<Rightarrow> bool" where
  "cache_ok env lb tb c \<longleftrightarrow> map_inv (cc_map c) \<and>
     (\<forall>k p. hashmap__find (ce_overlong env) (cc_map c) k = Some (Some p) \<longrightarrow> p < length (cc_vecs c)
        \<and> (\<exists>i name. k = u32_as_hash_key i \<and> type_name lb i name \<and> vec_ok tb name (cc_vecs c ! p))) \<and>
     (\<forall>k k' p. hashmap__find (ce_overlong env) (cc_map c) k = Some (Some p) \<and> hashmap__find (ce_overlong env) (cc_map c) k' = Some (Some p) \<longrightarrow> k = k')"

lemma cache_ok_start: "cache_ok env lb tb \<lparr>cc_map = hashmap__init bpf_core_hash_fn bpf_core_equal_fn, cc_vecs = []\<rparr>"
proof -
  have "bpf_core_equal_fn = (=)" by (intro ext) (simp add: bpf_core_equal_fn_def)
  then show ?thesis by (simp add: cache_ok_def map_inv_init)
qed

lemma type_name_unique: "type_name b i n \<Longrightarrow> type_name b i n' \<Longrightarrow> n = n'"
  by (auto simp: type_name_def)

lemma hash_key_inj:
  assumes "u32_as_hash_key i = u32_as_hash_key j"
  shows "i = j"
proof -
  have "unat (u32_as_hash_key w) = unat w" for w
  proof -
    have "unat w < 2 ^ LENGTH(32)" by (rule unsigned_less)
    then show ?thesis by (simp add: u32_as_hash_key_def unsigned_ucast_eq take_bit_nat_eq_self)
  qed
  then show ?thesis using assms by (metis word_unat_eq_iff)
qed

lemma cands_loop_sound:
  assumes "cands_loop env tb name k i v = Some (Inr v')" "length (iv_data v) = iv_len v" "\<forall>x\<in>set (iv_data v). is_cand tb name x"
  shows "length (iv_data v') = iv_len v' \<and> (\<forall>x\<in>set (iv_data v'). is_cand tb name x)"
  using assms
proof (induction k arbitrary: i v)
  case (Suc k)
  obtain t off nm where n: "btf__type_by_id tb (of_nat i) = Some (Some t)" "t_name_off tb t = Some off" "btf_name tb off = Some nm"
    using Suc.prems(1) by (auto split: Option.bind_splits)
  show ?case
  proof (cases "str_is_empty nm \<or> \<not> same_essential name (the nm)")
    case True
    then show ?thesis using Suc.IH [of "Suc i" v] Suc.prems n by simp
  next
    case False
    then have c: "is_cand tb name (of_nat i)" using n by (auto simp: is_cand_def str_is_empty_def)
    obtain v1 where "push_cand env (of_nat i) v = Some (Inr v1)" "cands_loop env tb name k (Suc i) v1 = Some (Inr v')"
      using False Suc.prems(1) n by (auto split: Option.bind_splits sum.splits)
    then show ?thesis using Suc.IH [of "Suc i" v1] Suc.prems(2,3) c by (auto simp: push_cand_def split: if_splits)
  qed
qed simp

lemma find_cands_sound:
  assumes "bpf_core_find_cands env lb i tb = Some (Inr v)" "type_name lb i name"
  shows "vec_ok tb name v"
proof -
  have "cands_loop env tb name (unat (btf__get_nr_types tb)) 1 \<lparr>iv_data = [], iv_len = 0\<rparr> = Some (Inr v)"
    using assms by (auto simp: bpf_core_find_cands_def type_name_def split: Option.bind_splits if_splits)
  from cands_loop_sound [OF this] show ?thesis by (auto simp: vec_ok_def cand_ok_def)
qed

lemma find_or_add_sound:
  assumes "find_or_add_cands env lb i tb c = Some (Inr (p, c'))" "cache_ok env lb tb c" "type_name lb i name"
  shows "cache_ok env lb tb c' \<and> p < length (cc_vecs c') \<and> vec_ok tb name (cc_vecs c' ! p)
    \<and> hashmap__find (ce_overlong env) (cc_map c') (u32_as_hash_key i) = Some (Some p)"
proof (cases "hashmap__find (ce_overlong env) (cc_map c) (u32_as_hash_key i)")
  case (Some r)
  show ?thesis
  proof (cases r)
    case found: (Some q)
    then have "q = p" "c' = c" using assms(1) Some by (auto simp: find_or_add_cands_def)
    moreover obtain i' name' where "q < length (cc_vecs c)" and i': "u32_as_hash_key i = u32_as_hash_key i'" "type_name lb i' name'"
        and ok: "vec_ok tb name' (cc_vecs c ! q)"
      using assms(2) Some found unfolding cache_ok_def by blast
    moreover have "name' = name" using type_name_unique assms(3) i'(2) hash_key_inj [OF i'(1)] by blast
    ultimately show ?thesis using assms(2) Some found by simp
  next
    case none: None
    obtain v old hm where v: "bpf_core_find_cands env lb i tb = Some (Inr v)" "p = length (cc_vecs c)"
        "hashmap__set (ce_overlong env) (ce_hm_calloc env) (ce_hm_malloc env) (cc_map c) (u32_as_hash_key i) p = Some (0, old, hm)"
        "c' = \<lparr>cc_map = hm, cc_vecs = cc_vecs c @ [v]\<rparr>"
      using assms(1) Some none by (auto simp: find_or_add_cands_def Let_def split: Option.bind_splits sum.splits if_splits)
    have inv: "map_inv (cc_map c)" using assms(2) by (simp add: cache_ok_def)
    have "hm_put (ce_overlong env) (cc_map c) (ce_hm_calloc env, ce_hm_malloc env) (u32_as_hash_key i) p = Some (True, hm)"
      using v(3) by (simp add: hm_put_def)
    then have hm: "map_inv hm" "hashmap__find (ce_overlong env) hm j = (if j = u32_as_hash_key i then Some (Some p) else hashmap__find (ce_overlong env) (cc_map c) j)" for j
      using hm.put_get [OF inv, of "ce_overlong env" "(ce_hm_calloc env, ce_hm_malloc env)" "u32_as_hash_key i" p] by auto
    have old: "q < length (cc_vecs c) \<and> (\<exists>i name. k = u32_as_hash_key i \<and> type_name lb i name \<and> vec_ok tb name (cc_vecs c ! q))"
      if "hashmap__find (ce_overlong env) (cc_map c) k = Some (Some q)" for k q
      using assms(2) that unfolding cache_ok_def by blast
    have "cache_ok env lb tb c'" unfolding cache_ok_def
    proof (intro conjI allI impI)
      show "map_inv (cc_map c')" using hm(1) v(4) by simp
    next
      fix k q assume "hashmap__find (ce_overlong env) (cc_map c') k = Some (Some q)"
      then show "q < length (cc_vecs c')" "\<exists>i name. k = u32_as_hash_key i \<and> type_name lb i name \<and> vec_ok tb name (cc_vecs c' ! q)"
        using hm(2) [of k] old [of k q] v assms(3) find_cands_sound [OF v(1) assms(3)] by (auto simp: nth_append split: if_splits)
    next
      fix k k' q
      assume "hashmap__find (ce_overlong env) (cc_map c') k = Some (Some q) \<and> hashmap__find (ce_overlong env) (cc_map c') k' = Some (Some q)"
      then show "k = k'" using hm(2) [of k] hm(2) [of k'] old [of k q] old [of k' q] v(2,4) assms(2)
        unfolding cache_ok_def by (auto split: if_splits)
    qed
    then show ?thesis using v hm(2) [of "u32_as_hash_key i"] find_cands_sound [OF v(1) assms(3)] by simp
  qed
qed (use assms(1) in \<open>simp add: find_or_add_cands_def\<close>)

section \<open>Relocating a field\<close>

text \<open>No member of a type in the table is a bit field.\<close>

definition plain_fields :: "btf \<Rightarrow> bool" where
  "plain_fields b \<longleftrightarrow> (\<forall>i t n k s. btf__type_by_id b i = Some (Some t) \<and> btf_vlen b t = Some n \<and> k < n \<and> btf_member_bitfield_size b t k = Some s \<longrightarrow> s = 0)"

lemma calc_plain_offset:
  assumes "plain_fields b" "\<forall>a\<in>set (accs spec). acc_ok b a" "bpf_core_calc_field_relo BPF_FIELD_BYTE_OFFSET b spec = Some (Inr (v, vd))"
  shows "v = cs_bit_offset spec div 8 \<and> vd"
proof -
  obtain acc tt where a: "0 < cs_len spec" "arr_get (cs_spec spec) (cs_len spec - 1) = Some acc" "btf__type_by_id b (acc_type_id acc) = Some tt"
    using assms(3) by (auto simp: bpf_core_calc_field_relo_def split: Option.bind_splits if_splits)
  show ?thesis
  proof (cases "acc_name acc = None")
    case True
    then show ?thesis using assms(3) a by (auto simp: bpf_core_calc_field_relo_def)
  next
    case False
    have "acc \<in> set (accs spec)" using a(1,2) by (auto simp: accs_def arr_get_def in_set_conv_nth split: if_splits intro!: exI [of _ "cs_len spec - 1"])
    then obtain t n where t: "tt = Some t" "btf_vlen b t = Some n" "acc_idx acc < n" using assms(2) False a(3) by (fastforce simp: acc_ok_def)
    then obtain s where s: "btf_member_bitfield_size b t (acc_idx acc) = Some s"
      using assms(3) a t False by (auto simp: bpf_core_calc_field_relo_def field_access_def split: Option.bind_splits)
    then have "s = 0" using assms(1) a(3) t unfolding plain_fields_def by blast
    then show ?thesis using assms(3) a t False s
      by (auto simp: bpf_core_calc_field_relo_def field_access_def field_kind_defs split: Option.bind_splits if_splits sum.splits)
  qed
qed

lemma bitfield_unit_error: "bitfield_unit a n s off \<noteq> Some (Inl 0)"
proof (induction a n s off rule: bitfield_unit.induct)
  case (1 a n s off)
  show ?case by (auto simp: bitfield_unit.simps [of a n s off] E2BIG_def split: option.splits dest: 1(1))
qed

lemma field_access_error: "field_access b t i off = Some (Inl e) \<Longrightarrow> e \<noteq> 0"
  by (auto simp: field_access_def EINVAL_def bitfield_unit_error split: Option.bind_splits if_splits sum.splits)

lemma calc_error: "bpf_core_calc_field_relo kind b spec = Some (Inl e) \<Longrightarrow> e \<noteq> 0"
  by (auto simp: bpf_core_calc_field_relo_def EINVAL_def split: Option.bind_splits if_splits sum.splits dest: field_access_error)

lemma relo_values_error: "relo_values kind lb ls tb ts = Some (Inl e) \<Longrightarrow> e \<noteq> 0"
  by (auto simp: relo_values_def split: Option.bind_splits if_splits sum.splits option.splits dest: calc_error)

text \<open>A relocation of a byte offset: the instruction held the offset of the field in the program's type and gets the one in the other type.\<close>

lemma reloc_insn_offset:
  assumes "bpf_core_reloc_insn prog relo lb ls tb (Some ts) = Some (0, prog')" "fr_kind relo = BPF_FIELD_BYTE_OFFSET"
    "plain_fields lb" "plain_fields tb" "\<forall>a\<in>set (accs ls). acc_ok lb a" "\<forall>a\<in>set (accs ts). acc_ok tb a"
  shows "\<exists>insn. arr_get (rp_insns prog) (unat (fr_insn_off relo div 8)) = Some insn \<and> in_imm insn = cs_bit_offset ls div 8
    \<and> prog' = prog\<lparr>rp_insns := (rp_insns prog)[unat (fr_insn_off relo div 8) := insn\<lparr>in_imm := cs_bit_offset ts div 8\<rparr>]\<rparr>"
proof -
  obtain ov nv where v: "relo_values (fr_kind relo) lb ls tb (Some ts) = Some (Inr (ov, nv))"
    using assms(1) by (auto simp: bpf_core_reloc_insn_def Let_def EINVAL_def split: Option.bind_splits sum.splits if_splits dest: relo_values_error)
  then obtain o1 vd w where "bpf_core_calc_field_relo BPF_FIELD_BYTE_OFFSET lb ls = Some (Inr (o1, vd))"
      "bpf_core_calc_field_relo BPF_FIELD_BYTE_OFFSET tb ts = Some (Inr (nv, w))" "ov = (if vd then Some o1 else None)"
    using assms(2) by (auto simp: relo_values_def field_kind_defs split: Option.bind_splits sum.splits)
  then have "ov = Some (cs_bit_offset ls div 8)" "nv = cs_bit_offset ts div 8"
    using calc_plain_offset [OF assms(3,5)] calc_plain_offset [OF assms(4,6)] by auto
  then show ?thesis using assms(1) v by (auto simp: bpf_core_reloc_insn_def Let_def EINVAL_def arr_set_def split: Option.bind_splits if_splits)
qed

lemma access_skip:
  assumes "skip_mods_and_typedefs b c = Some (t, x)" "access b x ks off ls j"
  shows "access b c ks off ls j"
  using assms(2) by cases (use assms(1) skip_mods_idem [OF assms(1)] in \<open>auto intro: access.intros\<close>)

text \<open>The matching of the candidates keeps them candidates, and the specification it ends with comes from one of them.\<close>

lemma match_cands_sound:
  assumes "match_cands lb ls tb k i j targ data = Some (Inr (j', targ'), data')" "unique_names tb" "\<forall>a\<in>set (accs ls). acc_ok lb a"
    "accs ls \<noteq> []" "acc_name (hd (accs ls)) = None" "i + k \<le> length data" "j \<le> i" "n = i + k" "\<forall>x\<in>set (take n data). cand_ok tb name x"
    "0 < j \<Longrightarrow> \<exists>x m ts. targ = Some ts \<and> cand_ok tb name x \<and> 0 < m \<and> bpf_core_spec_match lb ls tb x = Some (m, ts)"
  shows "length data' = length data \<and> j' \<le> n \<and> (\<forall>x\<in>set (take n data'). cand_ok tb name x)
    \<and> (0 < j' \<longrightarrow> (\<exists>x m ts. targ' = Some ts \<and> cand_ok tb name x \<and> 0 < m \<and> bpf_core_spec_match lb ls tb x = Some (m, ts)))"
  using assms(1,6-)
proof (induction k arbitrary: i j targ data)
  case 0
  then show ?case by auto
next
  case (Suc k)
  obtain x m cs where x: "arr_get data i = Some x" "bpf_core_spec_match lb ls tb x = Some (m, cs)" "0 \<le> m"
    using Suc.prems(1) by (auto split: Option.bind_splits if_splits)
  have ok: "cand_ok tb name x"
    using x(1) Suc.prems(2,4,5) nth_mem [of i "take n data"] by (auto simp: arr_get_def split: if_splits)
  show ?case
  proof (cases "m = 0")
    case True
    then show ?thesis using Suc.prems x Suc.IH [of "Suc i" j targ data] by (auto split: Option.bind_splits)
  next
    case False
    then have m: "0 < m" using x(3) by simp
    obtain ts acc data1 where d: "(if j = 0 then Some cs else targ) = Some ts" "arr_get (cs_spec cs) 0 = Some acc"
        "arr_set data j (acc_type_id acc) = Some data1" "match_cands lb ls tb k (Suc i) (Suc j) (Some ts) data1 = Some (Inr (j', targ'), data')"
      using Suc.prems(1) x m by (auto split: Option.bind_splits if_splits)
    obtain t where t: "skip_mods_and_typedefs tb x = Some (t, acc_type_id (hd (accs cs)))" "accs cs \<noteq> []"
      using spec_match_access [OF x(2) m assms(2-5)] by auto
    then have "hd (accs cs) = acc" using d(2) by (cases "cs_spec cs"; cases "cs_len cs") (auto simp: accs_def arr_get_def)
    then have "cand_ok tb name (acc_type_id acc)" using ok t(1) skip_mods_idem by (fastforce simp: cand_ok_def)
    moreover have "data1 = data[j := acc_type_id acc]" using d(3) by (auto simp: arr_set_def split: if_splits)
    ultimately have y: "\<forall>y\<in>set (take n data1). cand_ok tb name y"
      using Suc.prems(5) by (auto simp: take_update_swap dest!: set_update_subset_insert [THEN subsetD])
    have m1: "\<exists>x m ts'. Some ts = Some ts' \<and> cand_ok tb name x \<and> 0 < m \<and> bpf_core_spec_match lb ls tb x = Some (m, ts')"
      using d(1) ok m x(2) Suc.prems(6) by (cases "j = 0") auto
    have l: "length data1 = length data" using d(3) by (auto simp: arr_set_def split: if_splits)
    have "Suc i + k \<le> length data1" "Suc j \<le> Suc i" "n = Suc i + k" using Suc.prems(2-4) l by simp_all
    from Suc.IH [OF d(4) this y m1] show ?thesis unfolding l .
  qed
qed

lemma cache_ok_update:
  assumes "cache_ok env lb tb c" "hashmap__find (ce_overlong env) (cc_map c) (u32_as_hash_key i) = Some (Some p)"
    "type_name lb i name" "vec_ok tb name v"
  shows "cache_ok env lb tb (c\<lparr>cc_vecs := (cc_vecs c)[p := v]\<rparr>)"
  unfolding cache_ok_def
proof (intro conjI allI impI)
  show "map_inv (cc_map (c\<lparr>cc_vecs := (cc_vecs c)[p := v]\<rparr>))" using assms(1) by (simp add: cache_ok_def)
next
  fix k q assume "hashmap__find (ce_overlong env) (cc_map (c\<lparr>cc_vecs := (cc_vecs c)[p := v]\<rparr>)) k = Some (Some q)"
  then have q: "hashmap__find (ce_overlong env) (cc_map c) k = Some (Some q)" by simp
  then have o: "q < length (cc_vecs c)" "\<exists>i name. k = u32_as_hash_key i \<and> type_name lb i name \<and> vec_ok tb name (cc_vecs c ! q)"
    using assms(1) unfolding cache_ok_def by blast+
  show "q < length (cc_vecs (c\<lparr>cc_vecs := (cc_vecs c)[p := v]\<rparr>))" using o(1) by simp
  have "k = u32_as_hash_key i" if "q = p" using assms(1,2) q that unfolding cache_ok_def by blast
  then show "\<exists>i name. k = u32_as_hash_key i \<and> type_name lb i name \<and> vec_ok tb name (cc_vecs (c\<lparr>cc_vecs := (cc_vecs c)[p := v]\<rparr>) ! q)"
    using o assms(3,4) by (cases "q = p") auto
next
  fix k k' q
  assume "hashmap__find (ce_overlong env) (cc_map (c\<lparr>cc_vecs := (cc_vecs c)[p := v]\<rparr>)) k = Some (Some q)
    \<and> hashmap__find (ce_overlong env) (cc_map (c\<lparr>cc_vecs := (cc_vecs c)[p := v]\<rparr>)) k' = Some (Some q)"
  then show "k = k'" using assms(1) unfolding cache_ok_def by simp
qed

lemma cands_loop_error: "cands_loop env tb name k i v \<noteq> Some (Inl 0)"
  by (induction k arbitrary: i v) (auto simp: push_cand_def ENOMEM_def split: Option.bind_splits sum.splits if_splits)

lemma find_or_add_error: "find_or_add_cands env lb i tb c \<noteq> Some (Inl 0)"
  by (auto simp: find_or_add_cands_def bpf_core_find_cands_def cands_loop_error errno_defs Let_def
      split: Option.bind_splits sum.splits option.splits if_splits)

lemma match_cands_error: "match_cands lb ls tb k i j targ data \<noteq> Some (Inl 0, data')"
  by (induction k arbitrary: i j targ data) (auto simp: EINVAL_def split: Option.bind_splits)

lemma apply_field_reloc_sound:
  assumes "apply_field_reloc env False lb tb relo ls prog c = Some (0, prog', c')" "cache_ok env lb tb c" "type_name lb (fr_type_id relo) name"
    "unique_names tb" "\<forall>a\<in>set (accs ls). acc_ok lb a" "accs ls \<noteq> []" "acc_name (hd (accs ls)) = None" "fr_kind relo \<noteq> BPF_FIELD_EXISTS"
  shows "cache_ok env lb tb c' \<and> (\<exists>x m ts. cand_ok tb name x \<and> 0 < m \<and> bpf_core_spec_match lb ls tb x = Some (m, ts)
    \<and> bpf_core_reloc_insn prog relo lb ls tb (Some ts) = Some (0, prog'))"
proof -
  obtain p c1 v j targ data where f: "find_or_add_cands env lb (fr_type_id relo) tb c = Some (Inr (p, c1))" "arr_get (cc_vecs c1) p = Some v"
      "match_cands lb ls tb (iv_len v) 0 0 None (iv_data v) = Some (Inr (j, targ), data)" "j \<noteq> 0"
      "bpf_core_reloc_insn prog relo lb ls tb targ = Some (0, prog')" "c' = c1\<lparr>cc_vecs := (cc_vecs c1)[p := \<lparr>iv_data = data, iv_len = j\<rparr>]\<rparr>"
    using assms(1,8) by (auto simp: apply_field_reloc_def Let_def EINVAL_def ESRCH_def find_or_add_error match_cands_error split: Option.bind_splits sum.splits if_splits)
  note s = find_or_add_sound [OF f(1) assms(2,3)]
  have v: "vec_ok tb name v" using s f(2) by (auto simp: arr_get_def split: if_splits)
  then have r: "length data = length (iv_data v)" "j \<le> iv_len v" "\<forall>x\<in>set (take (iv_len v) data). cand_ok tb name x"
      "\<exists>x m ts. targ = Some ts \<and> cand_ok tb name x \<and> 0 < m \<and> bpf_core_spec_match lb ls tb x = Some (m, ts)"
    using match_cands_sound [OF f(3) assms(4-7), of "iv_len v" name] f(4) by (auto simp: vec_ok_def)
  have "vec_ok tb name \<lparr>iv_data = data, iv_len = j\<rparr>"
    using v r(1-3) set_take_subset_set_take [OF r(2), of data] by (simp add: vec_ok_def subset_iff)
  then show ?thesis using cache_ok_update [of env lb tb c1] s assms(3) f(5,6) r(4) by blast
qed


section \<open>An example\<close>

text \<open>The program knows \<open>struct s { int a; int b; }\<close>, the kernel has \<open>struct s___k { int x; struct { int c; int b; }; }\<close>. Of the
  header of 24 bytes only the length of the strings is read. The third example has \<open>struct s { int f : 5; }\<close> with the
  field at bit 30.\<close>

definition demo_btf :: "bytes \<Rightarrow> nat list \<Rightarrow> nat \<Rightarrow> btf" where
  "demo_btf d offs strs = \<lparr>btf_data = d, btf_types = Some Btf_void # map (\<lambda>off. Some (Btf_at off)) offs,
     btf_strings = strs, btf_nohdr_data = 24, nr_types = of_nat (length offs), types_size = of_nat (Suc (length offs)),
     btf_data_size = 0, btf_fd = -1\<rparr>"

definition demo_local :: btf where
  "demo_local = demo_btf
    [0, 0, 0, 0, 0, 0, 0, 0, 0, 0, 0, 0, 0, 0, 0, 0, 0, 0, 0, 0, 15, 0, 0, 0, 1, 0, 0, 0, 0, 0, 0, 1, 4, 0, 0, 0, 32, 0, 0,
     1, 5, 0, 0, 0, 2, 0, 0, 4, 8, 0, 0, 0, 7, 0, 0, 0, 1, 0, 0, 0, 0, 0, 0, 0, 9, 0, 0, 0, 1, 0, 0, 0, 32, 0, 0, 0, 0, 105,
     110, 116, 0, 115, 0, 97, 0, 98, 0, 48, 58, 49, 0] [24, 40] 76"

definition demo_kernel :: btf where
  "demo_kernel = demo_btf
    [0, 0, 0, 0, 0, 0, 0, 0, 0, 0, 0, 0, 0, 0, 0, 0, 0, 0, 0, 0, 17, 0, 0, 0, 1, 0, 0, 0, 0, 0, 0, 1, 4, 0, 0, 0, 32, 0, 0,
     1, 5, 0, 0, 0, 2, 0, 0, 4, 12, 0, 0, 0, 11, 0, 0, 0, 1, 0, 0, 0, 0, 0, 0, 0, 0, 0, 0, 0, 3, 0, 0, 0, 32, 0, 0, 0, 0, 0,
     0, 0, 2, 0, 0, 4, 8, 0, 0, 0, 13, 0, 0, 0, 1, 0, 0, 0, 0, 0, 0, 0, 15, 0, 0, 0, 1, 0, 0, 0, 32, 0, 0, 0, 0, 105, 110,
     116, 0, 115, 95, 95, 95, 107, 0, 120, 0, 99, 0, 98, 0] [24, 40, 76] 112"

definition demo_bits :: btf where
  "demo_bits = demo_btf
    [0, 0, 0, 0, 0, 0, 0, 0, 0, 0, 0, 0, 0, 0, 0, 0, 0, 0, 0, 0, 13, 0, 0, 0, 1, 0, 0, 0, 0, 0, 0, 1, 4, 0, 0, 0, 32, 0, 0,
     1, 5, 0, 0, 0, 1, 0, 0, 132, 8, 0, 0, 0, 7, 0, 0, 0, 1, 0, 0, 0, 30, 0, 0, 5, 0, 105, 110, 116, 0, 115, 0, 102, 0, 48,
     58, 48, 0] [24, 40] 64"

definition demo_env :: "(nat \<Rightarrow> nat) \<Rightarrow> core_env" where
  "demo_env room = \<lparr>ce_room = room, ce_calloc = True, ce_realloc = (\<lambda>_. True), ce_overlong = (\<lambda>x. x), ce_hm_new = True, ce_hm_calloc = (\<lambda>_. True),
     ce_hm_malloc = True, ce_release = [], ce_readable = (\<lambda>_. False), ce_stat = (\<lambda>_. Inl 2), ce_malloc = (\<lambda>_. True), ce_fopen = (\<lambda>_. 2),
     ce_fread = (\<lambda>_ _. []), ce_btf_new = (\<lambda>_. None), ce_parse_elf = (\<lambda>_. Inl 2)\<rparr>"

definition demo_cache :: core_cache where
  "demo_cache = \<lparr>cc_map = hashmap__init bpf_core_hash_fn bpf_core_equal_fn, cc_vecs = []\<rparr>"

definition demo_relo :: bpf_field_reloc where
  "demo_relo = \<lparr>fr_insn_off = 0, fr_type_id = 2, fr_access_str_off = 11, fr_kind = BPF_FIELD_BYTE_OFFSET\<rparr>"

definition core_prog :: reloc_prog where "core_prog = demo_prog 1 [demo_insn 0xb7 0 4] None"

definition demo_acc :: "u32 \<Rightarrow> u32 \<Rightarrow> string option \<Rightarrow> bpf_core_accessor" where
  "demo_acc i k name = \<lparr>acc_type_id = i, acc_idx = k, acc_name = map_option str_bytes name\<rparr>"

definition demo_spec :: "bpf_core_accessor list \<Rightarrow> int list \<Rightarrow> u32 \<Rightarrow> bpf_core_spec" where
  "demo_spec as is off = \<lparr>cs_spec = as @ replicate (64 - length as) zero_acc, cs_len = length as,
     cs_raw_spec = is @ replicate (64 - length is) 0, cs_raw_len = length is, cs_bit_offset = off\<rparr>"

definition local_spec :: bpf_core_spec where
  "local_spec = demo_spec [demo_acc 2 0 None, demo_acc 2 1 (Some ''b'')] [0, 1] 32"

definition kernel_spec :: bpf_core_spec where
  "kernel_spec = demo_spec [demo_acc 2 0 None, demo_acc 3 1 (Some ''b'')] [0, 1, 1] 64"

lemma demo_relo_fields [simp]:
  "fr_insn_off demo_relo = 0" "fr_type_id demo_relo = 2" "fr_access_str_off demo_relo = 11" "fr_kind demo_relo = BPF_FIELD_BYTE_OFFSET"
  by (simp_all add: demo_relo_def)

lemma demo_names:
  "btf__type_by_id demo_local 2 = Some (Some (Btf_at 40))" "t_name_off demo_local (Btf_at 40) = Some 5"
  "btf_name demo_local 5 = Some (Some [115])" "btf_name demo_local 11 = Some (Some [48, 58, 49])"
  by code_simp+

lemma demo_parse: "bpf_core_spec_parse demo_local 2 (Some [48, 58, 49]) = Some (Inr local_spec)"
  by code_simp

lemma demo_cands: "bpf_core_find_cands (demo_env (max 24)) demo_local 2 demo_kernel = Some (Inr \<lparr>iv_data = [2], iv_len = 1\<rparr>)"
  by code_simp

lemma demo_match: "match_cands demo_local local_spec demo_kernel 1 0 0 None [2] = Some (Inr (1, Some kernel_spec), [2])"
  by code_simp

lemma demo_patch:
  "bpf_core_reloc_insn core_prog demo_relo demo_local local_spec demo_kernel (Some kernel_spec)
     = Some (0, core_prog\<lparr>rp_insns := [demo_insn 0xb7 0 8]\<rparr>)"
  by code_simp

lemma demo_insert:
  "\<exists>old hm. hashmap__set (\<lambda>x. x) (\<lambda>_. True) True (cc_map demo_cache) (u32_as_hash_key 2) 0 = Some (0, old, hm)"
  by (simp add: demo_cache_def hashmap__set_def hashmap__insert_def hashmap_insert_new_def hashmap_grow_def
      hashmap_needs_to_grow_def hashmap__for_each_entry_def hashmap_add_entry_def update_chain_def arr_get_def arr_set_def
      hashmap__init_def bpf_core_hash_fn_def hash_bits_def HASHMAP_MIN_CAP_BITS_def u32_as_hash_key_def
      hashmap__find_def hashmap_find_entry_def Let_def replicate_4)

lemma demo_relocates:
  "\<exists>c. bpf_core_reloc_field (demo_env (max 24)) False demo_local demo_kernel demo_relo core_prog demo_cache
     = Some (0, core_prog\<lparr>rp_insns := [demo_insn 0xb7 0 8]\<rparr>, c)"
proof -
  obtain old hm where hm: "hashmap__set (\<lambda>x. x) (\<lambda>_. True) True (cc_map demo_cache) (u32_as_hash_key 2) 0 = Some (0, old, hm)"
    using demo_insert by blast
  have "hashmap__find (\<lambda>x. x) (cc_map demo_cache) (u32_as_hash_key 2) = Some None"
    by (simp add: demo_cache_def hashmap__init_def hashmap__find_def hashmap_find_entry_def)
  then have "find_or_add_cands (demo_env (max 24)) demo_local 2 demo_kernel demo_cache = Some (Inr (0, \<lparr>cc_map = hm, cc_vecs = [\<lparr>iv_data = [2], iv_len = 1\<rparr>]\<rparr>))"
    using hm demo_cands by (simp add: find_or_add_cands_def demo_env_def demo_cache_def)
  then show ?thesis
    using demo_names demo_parse demo_match demo_patch
    by (simp add: bpf_core_reloc_field_def apply_field_reloc_def str_is_empty_def arr_get_def del: match_cands.simps One_nat_def)
qed

lemma demo_blobs: "blob_ok demo_local" "cache_ok env lb tb demo_cache"
proof -
  have "btf_name demo_local 0 = Some (Some [])" "length (btf_data demo_local) < 4294967296" by code_simp (simp add: demo_local_def demo_btf_def)
  then show "blob_ok demo_local" by (simp add: blob_ok_def)
qed (simp add: demo_cache_def cache_ok_start)

text \<open>The types of a table.\<close>

lemma demo_type_cases:
  assumes "btf__type_by_id (demo_btf d offs strs) i = Some (Some t)" "length offs < 2 ^ 32"
  shows "t = Btf_void \<or> (\<exists>k < length offs. i = of_nat (Suc k) \<and> t = Btf_at (offs ! k))"
proof -
  have le: "unat i \<le> length offs"
    using assms by (auto simp: btf__type_by_id_def demo_btf_def word_le_nat_alt not_less unat_of_nat_small split: if_splits)
  show ?thesis
  proof (cases "unat i")
    case 0
    then show ?thesis using assms(1) by (auto simp: btf__type_by_id_def demo_btf_def arr_get_def split: if_splits)
  next
    case (Suc k)
    then have "i = of_nat (Suc k)" by (metis of_nat_unat ucast_id)
    then show ?thesis using assms(1) le Suc
      by (intro disjI2 exI [of _ k]) (auto simp: btf__type_by_id_def demo_btf_def arr_get_def split: if_splits)
  qed
qed

lemma demo_types:
  "btf__type_by_id demo_local i = Some (Some t) \<Longrightarrow> t \<in> {Btf_void, Btf_at 24, Btf_at 40}"
  "btf__type_by_id demo_kernel i = Some (Some t) \<Longrightarrow> t \<in> {Btf_void, Btf_at 24, Btf_at 40, Btf_at 76}"
  unfolding demo_local_def demo_kernel_def by (drule demo_type_cases; force simp: less_Suc_eq)+

lemma plain_fieldsI:
  assumes "\<And>i t. btf__type_by_id b i = Some (Some t) \<Longrightarrow> btf_kflag b t = Some False"
  shows "plain_fields b"
  unfolding plain_fields_def using assms by (fastforce simp: btf_member_bitfield_size_def split: Option.bind_splits)

lemma demo_kflags:
  "btf_kflag demo_local Btf_void = Some False" "btf_kflag demo_local (Btf_at 24) = Some False" "btf_kflag demo_local (Btf_at 40) = Some False"
  "btf_kflag demo_kernel Btf_void = Some False" "btf_kflag demo_kernel (Btf_at 24) = Some False" "btf_kflag demo_kernel (Btf_at 40) = Some False"
  "btf_kflag demo_kernel (Btf_at 76) = Some False"
  by code_simp+

lemma demo_plain: "plain_fields demo_local" "plain_fields demo_kernel"
  using demo_types demo_kflags by (auto intro!: plain_fieldsI)

lemma demo_kernel_values:
  "btf_is_composite demo_kernel Btf_void = Some False" "btf_is_composite demo_kernel (Btf_at 24) = Some False"
  "btf_vlen demo_kernel (Btf_at 40) = Some 2" "btf_vlen demo_kernel (Btf_at 76) = Some 2"
  "member_name_off demo_kernel (Btf_at 40) 0 = Some 11" "member_name_off demo_kernel (Btf_at 40) 1 = Some 0"
  "member_name_off demo_kernel (Btf_at 76) 0 = Some 13" "member_name_off demo_kernel (Btf_at 76) 1 = Some 15"
  "btf_name demo_kernel 11 = Some (Some (str_bytes ''x''))" "btf_name demo_kernel 0 = Some (Some [])"
  "btf_name demo_kernel 13 = Some (Some (str_bytes ''c''))" "btf_name demo_kernel 15 = Some (Some (str_bytes ''b''))"
  "member_type demo_kernel (Btf_at 40) 0 = Some 1" "member_type demo_kernel (Btf_at 40) 1 = Some 3"
  "member_type demo_kernel (Btf_at 76) 0 = Some 1" "member_type demo_kernel (Btf_at 76) 1 = Some 1"
  "skip_mods_and_typedefs demo_kernel 1 = Some (Some (Btf_at 24), 1)" "skip_mods_and_typedefs demo_kernel 3 = Some (Some (Btf_at 76), 3)"
  by code_simp+

lemma less_2_cases_word: "(k :: u32) < 2 \<Longrightarrow> k = 0 \<or> k = 1"
  by (simp add: word_less_nat_alt word_unat_eq_iff) linarith

lemma demo_member_steps:
  assumes "member_step demo_kernel i k off ls j"
  shows "\<exists>i'. skip_mods_and_typedefs demo_kernel i = Some (Some (Btf_at 40), i') \<and> (k = 0 \<and> ls = [Field (str_bytes ''x'')] \<and> j = 1 \<or> k = 1 \<and> ls = [] \<and> j = 3)
    \<or> skip_mods_and_typedefs demo_kernel i = Some (Some (Btf_at 76), i') \<and> j = 1 \<and> (k = 0 \<and> ls = [Field (str_bytes ''c'')] \<or> k = 1 \<and> ls = [Field (str_bytes ''b'')])"
  using assms
proof cases
  case (member t i' n name_off name)
  have "t \<in> {Btf_void, Btf_at 24, Btf_at 40, Btf_at 76}"
    by (rule skip_mods_result [OF member(2)]) (use demo_types(2) in simp)
  then show ?thesis using member less_2_cases_word [of k] demo_kernel_values by (auto simp: labels_of_def str_is_empty_def str_bytes_def)
qed

lemma demo_fields:
  assumes "field_at demo_kernel i ks off nm j"
  shows "\<exists>i'. skip_mods_and_typedefs demo_kernel i = Some (Some (Btf_at 40), i') \<and>
      (ks = [0] \<and> nm = str_bytes ''x'' \<or> ks = [1, 0] \<and> nm = str_bytes ''c'' \<or> ks = [1, 1] \<and> nm = str_bytes ''b'')
    \<or> skip_mods_and_typedefs demo_kernel i = Some (Some (Btf_at 76), i') \<and> (ks = [0] \<and> nm = str_bytes ''c'' \<or> ks = [1] \<and> nm = str_bytes ''b'')"
  using assms
proof (induction rule: field_at.induct)
  case (field_here i k off nm j)
  then show ?case using demo_member_steps [OF field_here] by auto
next
  case (field_below i k off j ks off' nm j')
  then show ?case using demo_member_steps [OF field_below(1)] demo_kernel_values by auto
qed

lemma demo_unique: "unique_names demo_kernel"
  unfolding unique_names_def by (auto dest!: demo_fields simp: str_bytes_def)


lemma demo_ids: "1 \<le> i \<Longrightarrow> i \<le> nr_types demo_kernel \<Longrightarrow> i \<in> {1, 2, 3 :: u32}"
  by (simp add: demo_kernel_def demo_btf_def word_le_nat_alt word_unat_eq_iff) linarith

lemma demo_kernel_names:
  "btf__type_by_id demo_kernel 1 = Some (Some (Btf_at 24))" "btf__type_by_id demo_kernel 2 = Some (Some (Btf_at 40))"
  "btf__type_by_id demo_kernel 3 = Some (Some (Btf_at 76))" "t_name_off demo_kernel (Btf_at 24) = Some 1" "t_name_off demo_kernel (Btf_at 40) = Some 5"
  "t_name_off demo_kernel (Btf_at 76) = Some 0" "btf_name demo_kernel 1 = Some (Some (str_bytes ''int''))"
  "btf_name demo_kernel 5 = Some (Some (str_bytes ''s___k''))"
  by code_simp+

lemma demo_readable: "names_readable demo_kernel"
  unfolding names_readable_def using demo_ids demo_kernel_names demo_kernel_values(10) by fastforce

lemma demo_cand_list: "filter (is_cand demo_kernel [115]) (map of_nat [1..<Suc (unat (nr_types demo_kernel))]) = [2]"
proof -
  have "same_essential [115] (str_bytes ''s___k'')" "\<not> same_essential [115] (str_bytes ''int'')" by code_simp+
  then have "is_cand demo_kernel [115] 2" "\<not> is_cand demo_kernel [115] 1" "\<not> is_cand demo_kernel [115] 3"
    using demo_kernel_names demo_kernel_values(10) by (auto simp: is_cand_def str_bytes_def)
  moreover have "map of_nat [1..<Suc (unat (nr_types demo_kernel))] = [1, 2, 3 :: u32]" by (simp add: demo_kernel_def demo_btf_def upt_rec)
  ultimately show ?thesis by simp
qed

lemma find_cands_exact_example:
  "bpf_core_find_cands (demo_env (max 24)) demo_local 2 demo_kernel = Some (Inr \<lparr>iv_data = [2], iv_len = 1\<rparr>)
   \<and> bpf_core_find_cands (demo_env (\<lambda>n. n)) demo_local 2 demo_kernel = None"
proof -
  have env: "ce_calloc (demo_env r)" "\<forall>n. ce_realloc (demo_env r) n" "ce_room (demo_env r) = r" for r by (simp_all add: demo_env_def)
  show ?thesis
    using find_cands_exact [OF demo_names(1-3) _ demo_readable env(1,2), of "max 24"]
      find_cands_exact [OF demo_names(1-3) _ demo_readable env(1,2), of "\<lambda>n. n"] unfolding demo_cand_list env(3)
    by (auto simp: le_Suc_eq)
qed

definition bits_spec :: bpf_core_spec where
  "bits_spec = demo_spec [demo_acc 2 0 None, demo_acc 2 0 (Some ''f'')] [0, 0] 30"

lemma demo_bits_values:
  "bpf_core_calc_field_relo BPF_FIELD_BYTE_OFFSET demo_bits bits_spec = Some (Inr (0, False))"
  "bpf_core_calc_field_relo BPF_FIELD_BYTE_SIZE demo_bits bits_spec = Some (Inr (8, False))"
  "bpf_core_calc_field_relo BPF_FIELD_LSHIFT_U64 demo_bits bits_spec = Some (Inr (29, False))"
  "bpf_core_calc_field_relo BPF_FIELD_RSHIFT_U64 demo_bits bits_spec = Some (Inr (59, True))"
  by code_simp+

lemma demo_bit_field: "bit_field demo_bits bits_spec 5"
proof -
  have "arr_get (cs_spec bits_spec) (cs_len bits_spec - 1) = Some (demo_acc 2 0 (Some ''f''))"
    "btf__type_by_id demo_bits 2 = Some (Some (Btf_at 40))" "btf_member_bitfield_size demo_bits (Btf_at 40) 0 = Some 5"
    "member_type demo_bits (Btf_at 40) 0 = Some 1" "skip_mods_and_typedefs demo_bits 1 = Some (Some (Btf_at 24), 1)"
    "t_size demo_bits (Btf_at 24) = Some 4"
    by code_simp+
  then show ?thesis unfolding bit_field_def by (fastforce simp: bits_spec_def demo_spec_def demo_acc_def)
qed

theorem core_bitfield_read_witness:
  "bit (drop_bit 59 (push_bit 29 (word_of_le [0, 0, 0, 0x80, 0x07, 0, 0, 0] :: u64))) 3 \<longleftrightarrow> mem_bit [0, 0, 0, 0x80, 0x07, 0, 0, 0] 33"
  using core_bitfield_read [OF demo_bit_field _ demo_bits_values, of "[0, 0, 0, 0x80, 0x07, 0, 0, 0]" "[0, 0, 0, 0x80, 0x07, 0, 0, 0]" 3]
  by (simp add: load_def bits_spec_def demo_spec_def)

section \<open>What goes wrong\<close>

text \<open>The comment says that enumerations are assumed to be unsigned; the value that is patched in says signed.\<close>

lemma enum_taken_as_signed:
  assumes "member_type b t (unat i) = Some j" "skip_mods_and_typedefs b j = Some (Some m, j')" "btf_is_enum b m = Some True"
  shows "field_signed b t i = Some True"
  using assms by (simp add: field_signed_def)

text \<open>The place of the instruction comes from the record and is not compared with the number of instructions.\<close>

lemma core_insn_unchecked:
  assumes "fr_insn_off relo mod 8 = 0" "relo_values (fr_kind relo) lb ls tb ts = Some (Inr v)"
    "length (rp_insns prog) \<le> unat (fr_insn_off relo div 8)"
  shows "bpf_core_reloc_insn prog relo lb ls tb ts = None"
  using assms by (cases v) (simp add: bpf_core_reloc_insn_def arr_get_def Let_def)

text \<open>An access string with a negative number passes the comparison with the number of members and reads outside the type.\<close>

lemma negative_member_index:
  assumes "x < 0" "- (2 ^ 31) \<le> x" "length (btf_data b) < 2 ^ 32" "skip_mods_and_typedefs b i = Some (Some t, i')" "btf_is_composite b t = Some True"
  shows "parse_step b x i spec = None"
proof -
  have "btf_member_bit_offset b t (of_int x) = None"
    using member_index_nonneg [of b t x] assms(1-3) by (cases "btf_member_bit_offset b t (of_int x)") auto
  moreover have "\<not> uint n \<le> x" for n :: u32 using assms(1) uint_ge_0 [of n] by linarith
  ultimately show ?thesis using assms(4,5) by (auto simp: parse_step_def Let_def split: Option.bind_splits)
qed

text \<open>A bit field whose type has size zero is a division by zero.\<close>

lemma zero_sized_bit_field:
  assumes "member_type b t (unat i) = Some j" "skip_mods_and_typedefs b j = Some (Some m, j')" "btf_member_bitfield_size b t i = Some n" "0 < n" "t_size b m = Some 0"
  shows "field_access b t i off = None"
  using assms by (simp add: field_access_def unit_off_def)

end
