(* ===== verification/Pinning.thy ===== *)
theory Pinning
  imports Bpf_Object
begin

text \<open>
  Pinning in \<^verbatim>\<open>eBPF_app/libbpf/src/libbpf.c\<close>: entering the maps and programs of a loaded object into the BPF file system
  (\<^verbatim>\<open>bpf_map__pin\<close>, \<^verbatim>\<open>bpf_program__pin\<close>, \<^verbatim>\<open>bpf_object__pin\<close>), taking them out again, and the rollback when a step
  fails. The file system is an argument: a record of the system calls over its state, each of which returns zero
  or minus the error number; its documented behaviour is the predicate \<open>bpf_fs\<close>. Whether \<^verbatim>\<open>strdup\<close> succeeds is a function of
  the path. The negative result of \<^verbatim>\<open>snprintf\<close>, an encoding error, does not occur for these formats.
\<close>

section \<open>The file system\<close>

definition BPF_FS_MAGIC :: u64 where "BPF_FS_MAGIC = 0xcafe4a11"

record 'f fs_ops =
  fs_strdup :: "string \<Rightarrow> bool"
  fs_mkdir :: "string \<Rightarrow> 'f \<Rightarrow> int \<times> 'f"
  fs_statfs :: "string \<Rightarrow> 'f \<Rightarrow> int + u64"
  fs_obj_pin :: "int \<Rightarrow> string \<Rightarrow> 'f \<Rightarrow> int \<times> 'f"
  fs_unlink :: "string \<Rightarrow> 'f \<Rightarrow> int \<times> 'f"
  fs_rmdir :: "string \<Rightarrow> 'f \<Rightarrow> int \<times> 'f"

text \<open>\<^verbatim>\<open>dirname\<close> of the C library: the path without its last component.\<close>

definition strip_slashes :: "string \<Rightarrow> string" where
  "strip_slashes s = rev (dropWhile (\<lambda>c. c = CHR ''/'') (rev s))"

definition dirname :: "string \<Rightarrow> string" where
  "dirname path =
     (let s = strip_slashes path;
          d = rev (dropWhile (\<lambda>c. c \<noteq> CHR ''/'') (rev s))
      in if s = [] then (if path = [] then ''.'' else ''/'')
         else if d = [] then ''.''
         else if strip_slashes d = [] then ''/'' else strip_slashes d)"

definition make_parent_dir :: "'f fs_ops \<Rightarrow> string \<Rightarrow> 'f \<Rightarrow> int \<times> 'f" where
  "make_parent_dir ops path f =
     (if \<not> fs_strdup ops path then (- ENOMEM, f)
      else (let (err, f) = fs_mkdir ops (dirname path) f in (if err = - EEXIST then 0 else err, f)))"

definition check_path :: "'f fs_ops \<Rightarrow> string option \<Rightarrow> 'f \<Rightarrow> int" where
  "check_path ops path f =
     (case path of
        None \<Rightarrow> - EINVAL
      | Some path \<Rightarrow>
          if \<not> fs_strdup ops path then - ENOMEM
          else (case fs_statfs ops (dirname path) f of
                  Inl err \<Rightarrow> err
                | Inr f_type \<Rightarrow> if f_type \<noteq> BPF_FS_MAGIC then - EINVAL else 0))"

section \<open>Programs\<close>

text \<open>\<^verbatim>\<open>__bpf_program__pin_name\<close>: the name of the section with every slash replaced.\<close>

definition bpf_program__pin_name :: "bpf_program \<Rightarrow> string" where
  "bpf_program__pin_name prog = map (\<lambda>c. if c = CHR ''/'' then CHR ''_'' else c) (bp_section prog)"

definition bpf_program__pin_instance :: "'f fs_ops \<Rightarrow> bpf_program option \<Rightarrow> string \<Rightarrow> int \<Rightarrow> 'f \<Rightarrow> int \<times> 'f" where
  "bpf_program__pin_instance ops prog path i f =
     (let (err, f) = make_parent_dir ops path f in
      if err \<noteq> 0 then (err, f)
      else if check_path ops (Some path) f \<noteq> 0 then (check_path ops (Some path) f, f)
      else (case prog of
              None \<Rightarrow> (- EINVAL, f)
            | Some prog \<Rightarrow>
                if i < 0 \<or> i \<ge> int (length (bp_fds prog)) then (- EINVAL, f)
                else fs_obj_pin ops (bp_fds prog ! nat i) path f))"

definition bpf_program__unpin_instance :: "'f fs_ops \<Rightarrow> bpf_program option \<Rightarrow> string \<Rightarrow> int \<Rightarrow> 'f \<Rightarrow> int \<times> 'f" where
  "bpf_program__unpin_instance ops prog path i f =
     (if check_path ops (Some path) f \<noteq> 0 then (check_path ops (Some path) f, f)
      else (case prog of
              None \<Rightarrow> (- EINVAL, f)
            | Some prog \<Rightarrow>
                if i < 0 \<or> i \<ge> int (length (bp_fds prog)) then (- EINVAL, f)
                else fs_unlink ops path f))"

text \<open>The path of an instance.\<close>

definition inst_path :: "string \<Rightarrow> nat \<Rightarrow> string" where
  "inst_path path i = path @ ''/'' @ dec_digits i"

text \<open>The rollback over the instances below \<open>i\<close>, from the last.\<close>

fun unpin_instances :: "'f fs_ops \<Rightarrow> bpf_program \<Rightarrow> string \<Rightarrow> nat \<Rightarrow> 'f \<Rightarrow> 'f" where
  "unpin_instances ops prog path 0 f = f"
| "unpin_instances ops prog path (Suc i) f =
     (let f = (if length (inst_path path i) \<ge> PATH_MAX then f
               else snd (bpf_program__unpin_instance ops (Some prog) (inst_path path i) (int i) f))
      in unpin_instances ops prog path i f)"

text \<open>Pinning the instances from \<open>i\<close>, \<open>n\<close> of them; on an error those before are taken out and the directory is removed.\<close>

fun pin_instances :: "'f fs_ops \<Rightarrow> bpf_program \<Rightarrow> string \<Rightarrow> nat \<Rightarrow> nat \<Rightarrow> 'f \<Rightarrow> int \<times> 'f" where
  "pin_instances ops prog path 0 i f = (0, f)"
| "pin_instances ops prog path (Suc n) i f =
     (let (err, f) = (if length (inst_path path i) \<ge> PATH_MAX then (- ENAMETOOLONG, f)
                      else bpf_program__pin_instance ops (Some prog) (inst_path path i) (int i) f)
      in if err \<noteq> 0 then (err, snd (fs_rmdir ops path (unpin_instances ops prog path i f)))
         else pin_instances ops prog path n (Suc i) f)"

definition bpf_program__pin :: "'f fs_ops \<Rightarrow> bpf_program option \<Rightarrow> string \<Rightarrow> 'f \<Rightarrow> int \<times> 'f" where
  "bpf_program__pin ops prog path f =
     (let (err, f) = make_parent_dir ops path f in
      if err \<noteq> 0 then (err, f)
      else if check_path ops (Some path) f \<noteq> 0 then (check_path ops (Some path) f, f)
      else (case prog of
              None \<Rightarrow> (- EINVAL, f)
            | Some p \<Rightarrow>
                if length (bp_fds p) = 0 then (- EINVAL, f)
                else if length (bp_fds p) = 1 then bpf_program__pin_instance ops prog path 0 f
                else pin_instances ops p path (length (bp_fds p)) 0 f))"

fun unpin_all_instances :: "'f fs_ops \<Rightarrow> bpf_program \<Rightarrow> string \<Rightarrow> nat \<Rightarrow> nat \<Rightarrow> 'f \<Rightarrow> int \<times> 'f" where
  "unpin_all_instances ops prog path 0 i f = fs_rmdir ops path f"
| "unpin_all_instances ops prog path (Suc n) i f =
     (if length (inst_path path i) \<ge> PATH_MAX then (- ENAMETOOLONG, f)
      else (let (err, f) = bpf_program__unpin_instance ops (Some prog) (inst_path path i) (int i) f
            in if err \<noteq> 0 then (err, f) else unpin_all_instances ops prog path n (Suc i) f))"

definition bpf_program__unpin :: "'f fs_ops \<Rightarrow> bpf_program option \<Rightarrow> string \<Rightarrow> 'f \<Rightarrow> int \<times> 'f" where
  "bpf_program__unpin ops prog path f =
     (if check_path ops (Some path) f \<noteq> 0 then (check_path ops (Some path) f, f)
      else (case prog of
              None \<Rightarrow> (- EINVAL, f)
            | Some p \<Rightarrow>
                if length (bp_fds p) = 0 then (- EINVAL, f)
                else if length (bp_fds p) = 1 then bpf_program__unpin_instance ops prog path 0 f
                else unpin_all_instances ops p path (length (bp_fds p)) 0 f))"

section \<open>Maps\<close>

record pin_map = bpf_map_obj +
  pm_pin_path :: "string option"
  pm_pinned :: bool

text \<open>The part of \<^verbatim>\<open>bpf_map__pin\<close> after the path has been settled.\<close>

definition map_pin_at :: "'f fs_ops \<Rightarrow> pin_map \<Rightarrow> string \<Rightarrow> 'f \<Rightarrow> int \<times> pin_map option \<times> 'f" where
  "map_pin_at ops m pp f =
     (let (err, f) = make_parent_dir ops pp f in
      if err \<noteq> 0 then (err, Some m, f)
      else if check_path ops (Some pp) f \<noteq> 0 then (check_path ops (Some pp) f, Some m, f)
      else (let (err, f) = fs_obj_pin ops (bm_fd m) pp f in
            if err \<noteq> 0 then (err, Some m, f) else (0, Some (m\<lparr>pm_pinned := True\<rparr>), f)))"

definition bpf_map__pin :: "'f fs_ops \<Rightarrow> pin_map option \<Rightarrow> string option \<Rightarrow> 'f \<Rightarrow> int \<times> pin_map option \<times> 'f" where
  "bpf_map__pin ops mp path f =
     (case mp of
        None \<Rightarrow> (- EINVAL, None, f)
      | Some m \<Rightarrow>
          (case pm_pin_path m of
             Some pp \<Rightarrow>
               if path \<noteq> None \<and> path \<noteq> Some pp then (- EINVAL, Some m, f)
               else if pm_pinned m then (0, Some m, f)
               else map_pin_at ops m pp f
           | None \<Rightarrow>
               (case path of
                  None \<Rightarrow> (- EINVAL, Some m, f)
                | Some pp \<Rightarrow>
                    if pm_pinned m then (- EEXIST, Some m, f)
                    else if \<not> fs_strdup ops pp then (- ENOMEM, Some m, f)
                    else map_pin_at ops (m\<lparr>pm_pin_path := Some pp\<rparr>) pp f)))"

definition bpf_map__unpin :: "'f fs_ops \<Rightarrow> pin_map option \<Rightarrow> string option \<Rightarrow> 'f \<Rightarrow> int \<times> pin_map option \<times> 'f" where
  "bpf_map__unpin ops mp path f =
     (case mp of
        None \<Rightarrow> (- EINVAL, None, f)
      | Some m \<Rightarrow>
          (let target = (case pm_pin_path m of
                 Some pp \<Rightarrow> if path \<noteq> None \<and> path \<noteq> Some pp then None else Some pp
               | None \<Rightarrow> path)
           in case target of
                None \<Rightarrow> (- EINVAL, Some m, f)
              | Some pp \<Rightarrow>
                  if check_path ops (Some pp) f \<noteq> 0 then (check_path ops (Some pp) f, Some m, f)
                  else (let (err, f) = fs_unlink ops pp f in
                        if err \<noteq> 0 then (err, Some m, f) else (0, Some (m\<lparr>pm_pinned := False\<rparr>), f))))"

definition bpf_map__set_pin_path :: "'f fs_ops \<Rightarrow> string option \<Rightarrow> pin_map \<Rightarrow> int \<times> pin_map" where
  "bpf_map__set_pin_path ops path m =
     (case path of
        Some p \<Rightarrow> if \<not> fs_strdup ops p then (- ENOMEM, m) else (0, m\<lparr>pm_pin_path := Some p\<rparr>)
      | None \<Rightarrow> (0, m\<lparr>pm_pin_path := None\<rparr>))"

definition bpf_map__get_pin_path :: "pin_map \<Rightarrow> string option" where "bpf_map__get_pin_path m = pm_pin_path m"
definition bpf_map__is_pinned :: "pin_map \<Rightarrow> bool" where "bpf_map__is_pinned m = pm_pinned m"

section \<open>Objects\<close>

record pin_object =
  po_loaded :: bool
  po_maps :: "pin_map list"
  po_programs :: "bpf_program list"

text \<open>The path for a map: \<open>Inl\<close> is an error, \<open>Inr None\<close> a map that is left out.\<close>

definition map_target :: "string option \<Rightarrow> pin_map \<Rightarrow> int + string option option" where
  "map_target path m =
     (case path of
        Some p \<Rightarrow> if length (p @ ''/'' @ bm_name m) \<ge> PATH_MAX then Inl (- ENAMETOOLONG) else Inr (Some (Some (p @ ''/'' @ bm_name m)))
      | None \<Rightarrow> if pm_pin_path m = None then Inr None else Inr (Some None))"

text \<open>The rollback over the maps before, nearest first.\<close>

fun unpin_prev_maps :: "'f fs_ops \<Rightarrow> pin_map list \<Rightarrow> 'f \<Rightarrow> pin_map list \<times> 'f" where
  "unpin_prev_maps ops [] f = ([], f)"
| "unpin_prev_maps ops (m # prev) f =
     (let (m, f) = (if pm_pin_path m = None then (m, f)
                    else (let (err, m', f) = bpf_map__unpin ops (Some m) None f in (the m', f)));
          (prev, f) = unpin_prev_maps ops prev f
      in (m # prev, f))"

text \<open>The loop over the maps; \<open>prev\<close> are those that were visited, the nearest first.\<close>

fun pin_maps_loop :: "'f fs_ops \<Rightarrow> string option \<Rightarrow> pin_map list \<Rightarrow> pin_map list \<Rightarrow> 'f \<Rightarrow> int \<times> pin_map list \<times> 'f" where
  "pin_maps_loop ops path prev [] f = (0, rev prev, f)"
| "pin_maps_loop ops path prev (m # ms) f =
     (case map_target path m of
        Inl err \<Rightarrow> (let (prev, f) = unpin_prev_maps ops prev f in (err, rev prev @ m # ms, f))
      | Inr None \<Rightarrow> pin_maps_loop ops path (m # prev) ms f
      | Inr (Some pin_path) \<Rightarrow>
          (let (err, m', f) = bpf_map__pin ops (Some m) pin_path f in
           if err \<noteq> 0 then (let (prev, f) = unpin_prev_maps ops prev f in (err, rev prev @ the m' # ms, f))
           else pin_maps_loop ops path (the m' # prev) ms f))"

definition bpf_object__pin_maps :: "'f fs_ops \<Rightarrow> pin_object option \<Rightarrow> string option \<Rightarrow> 'f \<Rightarrow> int \<times> pin_object option \<times> 'f" where
  "bpf_object__pin_maps ops obj path f =
     (case obj of
        None \<Rightarrow> (- ENOENT, None, f)
      | Some obj \<Rightarrow>
          if \<not> po_loaded obj then (- ENOENT, Some obj, f)
          else (let (err, maps, f) = pin_maps_loop ops path [] (po_maps obj) f in (err, Some (obj\<lparr>po_maps := maps\<rparr>), f)))"

fun unpin_maps_loop :: "'f fs_ops \<Rightarrow> string option \<Rightarrow> pin_map list \<Rightarrow> 'f \<Rightarrow> int \<times> pin_map list \<times> 'f" where
  "unpin_maps_loop ops path [] f = (0, [], f)"
| "unpin_maps_loop ops path (m # ms) f =
     (case map_target path m of
        Inl err \<Rightarrow> (err, m # ms, f)
      | Inr None \<Rightarrow> (let (err, ms, f) = unpin_maps_loop ops path ms f in (err, m # ms, f))
      | Inr (Some pin_path) \<Rightarrow>
          (let (err, m', f) = bpf_map__unpin ops (Some m) pin_path f in
           if err \<noteq> 0 then (err, the m' # ms, f)
           else (let (err, ms, f) = unpin_maps_loop ops path ms f in (err, the m' # ms, f))))"

definition bpf_object__unpin_maps :: "'f fs_ops \<Rightarrow> pin_object option \<Rightarrow> string option \<Rightarrow> 'f \<Rightarrow> int \<times> pin_object option \<times> 'f" where
  "bpf_object__unpin_maps ops obj path f =
     (case obj of
        None \<Rightarrow> (- ENOENT, None, f)
      | Some obj \<Rightarrow>
          (let (err, maps, f) = unpin_maps_loop ops path (po_maps obj) f in (err, Some (obj\<lparr>po_maps := maps\<rparr>), f)))"

text \<open>The iterators over the programs leave out the section that only holds functions.\<close>

definition visited_programs :: "pin_object \<Rightarrow> bpf_program list" where
  "visited_programs obj = filter (\<lambda>p. \<not> bp_text p) (po_programs obj)"

definition prog_path :: "string \<Rightarrow> bpf_program \<Rightarrow> string" where
  "prog_path path prog = path @ ''/'' @ bpf_program__pin_name prog"

fun unpin_prev_programs :: "'f fs_ops \<Rightarrow> string \<Rightarrow> bpf_program list \<Rightarrow> 'f \<Rightarrow> 'f" where
  "unpin_prev_programs ops path [] f = f"
| "unpin_prev_programs ops path (p # prev) f =
     (let f = (if length (prog_path path p) \<ge> PATH_MAX then f else snd (bpf_program__unpin ops (Some p) (prog_path path p) f))
      in unpin_prev_programs ops path prev f)"

fun pin_programs_loop :: "'f fs_ops \<Rightarrow> string \<Rightarrow> bpf_program list \<Rightarrow> bpf_program list \<Rightarrow> 'f \<Rightarrow> int \<times> 'f" where
  "pin_programs_loop ops path prev [] f = (0, f)"
| "pin_programs_loop ops path prev (p # ps) f =
     (if length (prog_path path p) \<ge> PATH_MAX then (- ENAMETOOLONG, unpin_prev_programs ops path prev f)
      else (let (err, f) = bpf_program__pin ops (Some p) (prog_path path p) f
            in if err \<noteq> 0 then (err, unpin_prev_programs ops path prev f)
               else pin_programs_loop ops path (p # prev) ps f))"

definition bpf_object__pin_programs :: "'f fs_ops \<Rightarrow> pin_object option \<Rightarrow> string \<Rightarrow> 'f \<Rightarrow> int \<times> 'f" where
  "bpf_object__pin_programs ops obj path f =
     (case obj of
        None \<Rightarrow> (- ENOENT, f)
      | Some obj \<Rightarrow> if \<not> po_loaded obj then (- ENOENT, f) else pin_programs_loop ops path [] (visited_programs obj) f)"

fun unpin_programs_loop :: "'f fs_ops \<Rightarrow> string \<Rightarrow> bpf_program list \<Rightarrow> 'f \<Rightarrow> int \<times> 'f" where
  "unpin_programs_loop ops path [] f = (0, f)"
| "unpin_programs_loop ops path (p # ps) f =
     (if length (prog_path path p) \<ge> PATH_MAX then (- ENAMETOOLONG, f)
      else (let (err, f) = bpf_program__unpin ops (Some p) (prog_path path p) f
            in if err \<noteq> 0 then (err, f) else unpin_programs_loop ops path ps f))"

definition bpf_object__unpin_programs :: "'f fs_ops \<Rightarrow> pin_object option \<Rightarrow> string \<Rightarrow> 'f \<Rightarrow> int \<times> 'f" where
  "bpf_object__unpin_programs ops obj path f =
     (case obj of
        None \<Rightarrow> (- ENOENT, f)
      | Some obj \<Rightarrow> unpin_programs_loop ops path (visited_programs obj) f)"

definition bpf_object__pin :: "'f fs_ops \<Rightarrow> pin_object option \<Rightarrow> string \<Rightarrow> 'f \<Rightarrow> int \<times> pin_object option \<times> 'f" where
  "bpf_object__pin ops obj path f =
     (let (err, obj, f) = bpf_object__pin_maps ops obj (Some path) f in
      if err \<noteq> 0 then (err, obj, f)
      else (let (err, f) = bpf_object__pin_programs ops obj path f in
            if err \<noteq> 0 then (let (e, obj, f) = bpf_object__unpin_maps ops obj (Some path) f in (err, obj, f))
            else (0, obj, f)))"

section \<open>What the file system does\<close>

text \<open>The documented behaviour: \<open>view\<close> is what is pinned where and \<open>fsdir\<close> whether a directory is on the BPF file system.
  Pinning enters an object at a path that is free or fails and changes nothing, removing a pinned path succeeds, and
  the calls on directories do not touch what is pinned. A directory stays on the file system unless it is removed itself. The paths
  for which \<^verbatim>\<open>strdup\<close> fails do not change.\<close>

definition bpf_fs :: "'f fs_ops \<Rightarrow> ('f \<Rightarrow> string \<rightharpoonup> int) \<Rightarrow> bool" where
  "bpf_fs ops view \<longleftrightarrow>
     (\<forall>f fd p. fst (fs_obj_pin ops fd p f) = 0 \<longrightarrow>
        p \<notin> dom (view f) \<and> view (snd (fs_obj_pin ops fd p f)) = (view f)(p \<mapsto> fd)) \<and>
     (\<forall>f fd p. fst (fs_obj_pin ops fd p f) \<noteq> 0 \<longrightarrow> view (snd (fs_obj_pin ops fd p f)) = view f) \<and>
     (\<forall>f p. p \<in> dom (view f) \<longrightarrow> fst (fs_unlink ops p f) = 0 \<and> view (snd (fs_unlink ops p f)) = (view f)(p := None)) \<and>
     (\<forall>f d. view (snd (fs_mkdir ops d f)) = view f \<and> view (snd (fs_rmdir ops d f)) = view f) \<and>
     (\<forall>f d. fs_statfs ops d f \<noteq> Inl 0) \<and>
     (\<forall>f d. fs_statfs ops d f = Inr BPF_FS_MAGIC \<longrightarrow>
        (\<forall>d'. fs_statfs ops d (snd (fs_mkdir ops d' f)) = Inr BPF_FS_MAGIC) \<and>
        (\<forall>fd p. fs_statfs ops d (snd (fs_obj_pin ops fd p f)) = Inr BPF_FS_MAGIC) \<and>
        (\<forall>p. fs_statfs ops d (snd (fs_unlink ops p f)) = Inr BPF_FS_MAGIC) \<and>
        (\<forall>d'. d' \<noteq> d \<longrightarrow> fs_statfs ops d (snd (fs_rmdir ops d' f)) = Inr BPF_FS_MAGIC))"

lemma bpf_fs_laws:
  assumes "bpf_fs ops view"
  shows fs_pin_ok: "fs_obj_pin ops fd p f = (0, f') \<Longrightarrow> p \<notin> dom (view f) \<and> view f' = (view f)(p \<mapsto> fd)"
    and fs_pin_fail: "fs_obj_pin ops fd p f = (err, f') \<Longrightarrow> err \<noteq> 0 \<Longrightarrow> view f' = view f"
    and fs_unlink_ok: "view f p = Some fd \<Longrightarrow> \<exists>f'. fs_unlink ops p f = (0, f') \<and> view f' = (view f)(p := None)"
    and fs_dirs: "view (snd (fs_mkdir ops d f)) = view f" "view (snd (fs_rmdir ops d f)) = view f"
  using assms unfolding bpf_fs_def
  by (metis fst_conv snd_conv, metis fst_conv snd_conv, metis domI prod.collapse, metis, metis)

text \<open>A directory is usable for a path when it is on the file system and its name can be copied.\<close>

definition path_ok :: "'f fs_ops \<Rightarrow> string \<Rightarrow> 'f \<Rightarrow> bool" where
  "path_ok ops p f \<longleftrightarrow> check_path ops (Some p) f = 0"

lemma path_ok_iff:
  assumes "bpf_fs ops view"
  shows "path_ok ops p f \<longleftrightarrow> fs_strdup ops p \<and> fs_statfs ops (dirname p) f = Inr BPF_FS_MAGIC"
proof -
  have "fs_statfs ops (dirname p) f \<noteq> Inl 0" using assms unfolding bpf_fs_def by blast
  then show ?thesis by (auto simp: path_ok_def check_path_def errno_defs split: sum.splits)
qed

lemma path_ok_stable:
  assumes "bpf_fs ops view" "path_ok ops p f"
  shows "path_ok ops p (snd (fs_mkdir ops d f))" "path_ok ops p (snd (fs_obj_pin ops fd q f))"
    "path_ok ops p (snd (fs_unlink ops q f))"
  using assms(2) unfolding path_ok_iff [OF assms(1)] using assms(1) unfolding bpf_fs_def by metis+

text \<open>A step that changes nothing that is pinned and keeps the usable paths usable.\<close>

definition fs_quiet :: "'f fs_ops \<Rightarrow> ('f \<Rightarrow> string \<rightharpoonup> int) \<Rightarrow> 'f \<Rightarrow> 'f \<Rightarrow> bool" where
  "fs_quiet ops view f f' \<longleftrightarrow> view f' = view f \<and> (\<forall>p. path_ok ops p f \<longrightarrow> path_ok ops p f')"

lemma fs_quiet_refl [simp]: "fs_quiet ops view f f"
  by (simp add: fs_quiet_def)

lemma make_parent_dir_quiet:
  assumes "bpf_fs ops view"
  shows "fs_quiet ops view f (snd (make_parent_dir ops p f))"
  using fs_dirs(1) [OF assms] path_ok_stable(1) [OF assms]
  by (auto simp: make_parent_dir_def fs_quiet_def split_def Let_def)

lemma obj_pin_cases:
  assumes "bpf_fs ops view" "fs_obj_pin ops fd p f = (err, f')"
  shows "if err = 0 then p \<notin> dom (view f) \<and> view f' = (view f)(p \<mapsto> fd) \<and> (\<forall>q. path_ok ops q f \<longrightarrow> path_ok ops q f')
    else fs_quiet ops view f f'"
  using fs_pin_ok [OF assms(1), of fd p f f'] fs_pin_fail [OF assms] path_ok_stable(2) [OF assms(1), of _ f fd p] assms(2)
  by (auto simp: fs_quiet_def)

lemma unlink_pinned:
  assumes "bpf_fs ops view" "view f p = Some fd"
  obtains f' where "fs_unlink ops p f = (0, f')" "view f' = (view f)(p := None)" "\<forall>q. path_ok ops q f \<longrightarrow> path_ok ops q f'"
  using fs_unlink_ok [OF assms] path_ok_stable(3) [OF assms(1), of _ f p] by (metis snd_conv)

section \<open>Maps: all or nothing\<close>

lemma map_pin_at_cases:
  assumes fs: "bpf_fs ops view" and pin: "map_pin_at ops m pp f = (err, m', f')"
  shows "if err = 0 then m' = Some (m\<lparr>pm_pinned := True\<rparr>) \<and> pp \<notin> dom (view f) \<and> view f' = (view f)(pp \<mapsto> bm_fd m)
         \<and> path_ok ops pp f' \<and> (\<forall>q. path_ok ops q f \<longrightarrow> path_ok ops q f')
       else m' = Some m \<and> fs_quiet ops view f f'"
proof -
  obtain e1 f1 where mk: "make_parent_dir ops pp f = (e1, f1)" by fastforce
  have q1: "fs_quiet ops view f f1" using make_parent_dir_quiet [OF fs, of f pp] mk by simp
  obtain e3 f3 where op: "fs_obj_pin ops (bm_fd m) pp f1 = (e3, f3)" by fastforce
  show ?thesis
  proof (cases "e1 = 0 \<and> path_ok ops pp f1")
    case False
    then show ?thesis using pin mk q1 by (auto simp: map_pin_at_def path_ok_def split: if_splits)
  next
    case True
    then show ?thesis
      using pin mk q1 op obj_pin_cases [OF fs op] by (auto simp: map_pin_at_def path_ok_def fs_quiet_def split: if_splits)
  qed
qed

lemma bpf_map_pin_cases:
  assumes fs: "bpf_fs ops view" and np: "\<not> pm_pinned m" and pin: "bpf_map__pin ops (Some m) path f = (err, m', f')"
  obtains m1 where "m' = Some m1" "bm_fd m1 = bm_fd m"
    "if err = 0 then \<exists>pp. pm_pin_path m1 = Some pp \<and> pm_pinned m1 \<and> pp \<notin> dom (view f) \<and> view f' = (view f)(pp \<mapsto> bm_fd m)
         \<and> path_ok ops pp f' \<and> (\<forall>q. path_ok ops q f \<longrightarrow> path_ok ops q f')
     else \<not> pm_pinned m1 \<and> fs_quiet ops view f f'"
proof (cases "pm_pin_path m")
  case (Some pp)
  then show thesis
    using pin np map_pin_at_cases [OF fs, of m pp f err m' f'] that
    by (auto simp: bpf_map__pin_def errno_defs split: if_splits)
next
  case None
  show thesis
  proof (cases path)
    case None
    then show thesis using \<open>pm_pin_path m = None\<close> pin np that by (auto simp: bpf_map__pin_def errno_defs)
  next
    case (Some pp)
    then show thesis
      using None pin np map_pin_at_cases [OF fs, of "m\<lparr>pm_pin_path := Some pp\<rparr>" pp f err m' f'] that
      by (auto simp: bpf_map__pin_def errno_defs split: if_splits)
  qed
qed

text \<open>What the maps visited so far, the nearest first, have added to what was pinned before.\<close>

inductive pin_stack :: "(string \<rightharpoonup> int) \<Rightarrow> pin_map list \<Rightarrow> (string \<rightharpoonup> int) \<Rightarrow> bool" for v0 where
  stack_nil: "pin_stack v0 [] v0"
| stack_skip: "pin_stack v0 prev v \<Longrightarrow> pm_pin_path m = None \<Longrightarrow> \<not> pm_pinned m \<Longrightarrow> pin_stack v0 (m # prev) v"
| stack_pin: "pin_stack v0 prev v \<Longrightarrow> pm_pin_path m = Some pp \<Longrightarrow> pm_pinned m \<Longrightarrow> pp \<notin> dom v
    \<Longrightarrow> pin_stack v0 (m # prev) (v(pp \<mapsto> bm_fd m))"

definition paths_ok :: "'f fs_ops \<Rightarrow> pin_map list \<Rightarrow> 'f \<Rightarrow> bool" where
  "paths_ok ops ms f \<longleftrightarrow> (\<forall>m\<in>set ms. \<forall>pp. pm_pin_path m = Some pp \<longrightarrow> path_ok ops pp f)"

lemma paths_ok_Cons: "paths_ok ops (m # ms) f \<longleftrightarrow> (\<forall>pp. pm_pin_path m = Some pp \<longrightarrow> path_ok ops pp f) \<and> paths_ok ops ms f"
  by (auto simp: paths_ok_def)

lemma unpin_prev_maps_restores:
  assumes "bpf_fs ops view" "pin_stack v0 prev v" "v = view f" "paths_ok ops prev f"
  shows "\<exists>f'. unpin_prev_maps ops prev f = (map (\<lambda>m. m\<lparr>pm_pinned := False\<rparr>) prev, f') \<and> view f' = v0"
  using assms(2-4)
proof (induction arbitrary: f rule: pin_stack.induct)
  case stack_nil
  then show ?case by simp
next
  case (stack_skip prev v m)
  then obtain f' where "unpin_prev_maps ops prev f = (map (\<lambda>m. m\<lparr>pm_pinned := False\<rparr>) prev, f')" "view f' = v0"
    by (auto simp: paths_ok_Cons)
  then show ?case using stack_skip by simp
next
  case (stack_pin prev v m pp)
  have "view f pp = Some (bm_fd m)" using stack_pin.prems(1) by (metis fun_upd_same)
  from unlink_pinned [OF assms(1) this] obtain f1 where f1: "fs_unlink ops pp f = (0, f1)" "view f1 = (view f)(pp := None)"
    "\<forall>q. path_ok ops q f \<longrightarrow> path_ok ops q f1" .
  have "view f1 = v" using f1(2) stack_pin.hyps(4) stack_pin.prems(1) [symmetric] by (auto simp: fun_eq_iff dom_def)
  moreover have "paths_ok ops prev f1" using f1(3) stack_pin.prems(2) by (auto simp: paths_ok_def)
  ultimately obtain f' where "unpin_prev_maps ops prev f1 = (map (\<lambda>m. m\<lparr>pm_pinned := False\<rparr>) prev, f')" "view f' = v0"
    using stack_pin.IH by metis
  then show ?case
    using stack_pin.hyps(2) stack_pin.prems(2) f1(1) by (simp add: bpf_map__unpin_def paths_ok_Cons path_ok_def)
qed

lemma pin_maps_loop_outcome:
  assumes fs: "bpf_fs ops view" and st: "pin_stack v0 prev (view f)" "paths_ok ops prev f" and np: "\<forall>m\<in>set ms. \<not> pm_pinned m"
    and loop: "pin_maps_loop ops path prev ms f = (err, maps, f')"
  shows "if err = 0 then pin_stack v0 (rev maps) (view f') else view f' = v0 \<and> (\<forall>m\<in>set maps. \<not> pm_pinned m)"
  using st np loop
proof (induction ms arbitrary: prev f)
  case Nil
  then show ?case by auto
next
  case (Cons m ms)
  obtain prev' f1 where undo: "unpin_prev_maps ops prev f = (prev', f1)" by fastforce
  have restored: "prev' = map (\<lambda>m. m\<lparr>pm_pinned := False\<rparr>) prev \<and> view f1 = v0"
    using unpin_prev_maps_restores [OF fs Cons.prems(1) refl Cons.prems(2)] undo by auto
  consider (name) e where "map_target path m = Inl e" | (skip) "map_target path m = Inr None"
    | (pin) pp where "map_target path m = Inr (Some pp)" by (metis old.sum.exhaust option.exhaust)
  then show ?case
  proof cases
    case name
    then have "e \<noteq> 0" by (auto simp: map_target_def errno_defs split: option.splits if_splits)
    then show ?thesis using name Cons.prems(3,4) undo restored by auto
  next
    case skip
    then have np: "pm_pin_path m = None" "\<not> pm_pinned m"
      using Cons.prems(3) by (auto simp: map_target_def split: option.splits if_splits)
    have "pin_stack v0 (m # prev) (view f)" "paths_ok ops (m # prev) f"
      using Cons.prems(1,2) np by (simp_all add: stack_skip paths_ok_Cons)
    then show ?thesis using Cons.IH [of "m # prev" f] Cons.prems(3,4) skip by simp
  next
    case pin
    obtain e m' f2 where p: "bpf_map__pin ops (Some m) pp f = (e, m', f2)" by (metis prod_cases3)
    have npm: "\<not> pm_pinned m" using Cons.prems(3) by simp
    obtain m1 where m1: "m' = Some m1" "bm_fd m1 = bm_fd m"
      "if e = 0 then \<exists>pp. pm_pin_path m1 = Some pp \<and> pm_pinned m1 \<and> pp \<notin> dom (view f) \<and> view f2 = (view f)(pp \<mapsto> bm_fd m)
         \<and> path_ok ops pp f2 \<and> (\<forall>q. path_ok ops q f \<longrightarrow> path_ok ops q f2)
       else \<not> pm_pinned m1 \<and> fs_quiet ops view f f2"
      by (rule bpf_map_pin_cases [OF fs npm p])
    show ?thesis
    proof (cases "e = 0")
      case True
      then obtain q where q: "pm_pin_path m1 = Some q" "pm_pinned m1" "q \<notin> dom (view f)" "view f2 = (view f)(q \<mapsto> bm_fd m)"
        "path_ok ops q f2" "\<forall>q. path_ok ops q f \<longrightarrow> path_ok ops q f2" using m1(3) by auto
      have "pin_stack v0 (m1 # prev) (view f2)" using stack_pin [OF Cons.prems(1) q(1-3)] q(4) m1(2) by simp
      moreover have "paths_ok ops (m1 # prev) f2" using Cons.prems(2) q(1,5,6) by (auto simp: paths_ok_def)
      ultimately show ?thesis using Cons.IH [of "m1 # prev" f2] Cons.prems(3,4) pin p m1(1) True by simp
    next
      case False
      then have quiet: "view f2 = view f" "paths_ok ops prev f2" "\<not> pm_pinned m1"
        using m1(3) Cons.prems(2) by (auto simp: fs_quiet_def paths_ok_def)
      have "pin_stack v0 prev (view f2)" using Cons.prems(1) quiet(1) by simp
      from unpin_prev_maps_restores [OF fs this refl quiet(2)]
      show ?thesis using False Cons.prems(3,4) pin p m1(1) quiet(3) by auto
    qed
  qed
qed

lemma pin_stack_view:
  assumes "pin_stack v0 prev v"
  shows "(\<forall>m\<in>set prev. case pm_pin_path m of None \<Rightarrow> \<not> pm_pinned m | Some pp \<Rightarrow> pm_pinned m \<and> v0 pp = None \<and> v pp = Some (bm_fd m))
    \<and> (\<forall>q. Some q \<notin> pm_pin_path ` set prev \<longrightarrow> v q = v0 q) \<and> (\<forall>q. v q = None \<longrightarrow> v0 q = None)"
  using assms
proof (induction rule: pin_stack.induct)
  case (stack_pin prev v m pp)
  then have "v pp = None" by (auto simp: dom_def)
  moreover have "pp' \<noteq> pp" if "m' \<in> set prev" "pm_pin_path m' = Some pp'" for m' pp'
    using stack_pin.IH that calculation by (auto split: option.splits)
  ultimately show ?case using stack_pin by (auto split: option.splits)
qed (auto split: option.splits)

section \<open>Programs: all or nothing\<close>

text \<open>What is pinned when the first \<open>i\<close> instances of a program are.\<close>

fun inst_view :: "(string \<rightharpoonup> int) \<Rightarrow> int list \<Rightarrow> string \<Rightarrow> nat \<Rightarrow> string \<rightharpoonup> int" where
  "inst_view v0 fds path 0 = v0"
| "inst_view v0 fds path (Suc i) = (inst_view v0 fds path i)(inst_path path i \<mapsto> fds ! i)"

definition inst_stack :: "'f fs_ops \<Rightarrow> (string \<rightharpoonup> int) \<Rightarrow> int list \<Rightarrow> string \<Rightarrow> nat \<Rightarrow> 'f \<Rightarrow> bool" where
  "inst_stack ops v0 fds path i f \<longleftrightarrow> i \<le> length fds \<and>
     (\<forall>j<i. inst_path path j \<notin> dom (inst_view v0 fds path j) \<and> path_ok ops (inst_path path j) f
        \<and> length (inst_path path j) < PATH_MAX)"

lemma unpin_instances_restores:
  assumes fs: "bpf_fs ops view" and "inst_stack ops v0 (bp_fds p) path i f" and "view f = inst_view v0 (bp_fds p) path i"
  shows "view (unpin_instances ops p path i f) = v0"
  using assms(2,3)
proof (induction i arbitrary: f)
  case (Suc i)
  let ?q = "inst_path path i"
  have fresh: "?q \<notin> dom (inst_view v0 (bp_fds p) path i)" "path_ok ops ?q f" "length ?q < PATH_MAX" "i < length (bp_fds p)"
    using Suc.prems(1) by (auto simp: inst_stack_def)
  have "view f ?q = Some (bp_fds p ! i)" using Suc.prems(2) by simp
  from unlink_pinned [OF fs this] obtain f1 where f1: "fs_unlink ops ?q f = (0, f1)" "view f1 = (view f)(?q := None)"
    "\<forall>q. path_ok ops q f \<longrightarrow> path_ok ops q f1" .
  have "bpf_program__unpin_instance ops (Some p) ?q (int i) f = (0, f1)"
    using fresh f1(1) by (simp add: bpf_program__unpin_instance_def path_ok_def)
  moreover have "view (unpin_instances ops p path i f1) = v0"
  proof (rule Suc.IH)
    show "inst_stack ops v0 (bp_fds p) path i f1" using Suc.prems(1) f1(3) by (auto simp: inst_stack_def)
    show "view f1 = inst_view v0 (bp_fds p) path i" using f1(2) Suc.prems(2) fresh(1) by (auto simp: fun_eq_iff dom_def)
  qed
  ultimately show ?case using fresh(3) by (simp add: Let_def)
qed simp

lemma pin_instance_cases:
  assumes fs: "bpf_fs ops view" and pin: "bpf_program__pin_instance ops (Some p) q (int i) f = (err, f')"
  shows "if err = 0 then i < length (bp_fds p) \<and> q \<notin> dom (view f) \<and> view f' = (view f)(q \<mapsto> bp_fds p ! i) \<and> path_ok ops q f'
      \<and> (\<forall>q. path_ok ops q f \<longrightarrow> path_ok ops q f')
    else fs_quiet ops view f f'"
proof -
  obtain e1 f1 where mk: "make_parent_dir ops q f = (e1, f1)" by fastforce
  have q1: "fs_quiet ops view f f1" using make_parent_dir_quiet [OF fs, of f q] mk by simp
  obtain e3 f3 where op: "fs_obj_pin ops (bp_fds p ! i) q f1 = (e3, f3)" by fastforce
  show ?thesis
  proof (cases "e1 = 0 \<and> path_ok ops q f1 \<and> i < length (bp_fds p)")
    case False
    then show ?thesis using pin mk q1 by (auto simp: bpf_program__pin_instance_def path_ok_def errno_defs split: if_splits)
  next
    case True
    then show ?thesis
      using pin mk q1 op obj_pin_cases [OF fs op]
      by (auto simp: bpf_program__pin_instance_def path_ok_def fs_quiet_def split: if_splits)
  qed
qed

lemma pin_instances_outcome:
  assumes fs: "bpf_fs ops view" and "inst_stack ops v0 (bp_fds p) path i f" "view f = inst_view v0 (bp_fds p) path i"
    and "i + n = length (bp_fds p)" "pin_instances ops p path n i f = (err, f')"
  shows "if err = 0 then view f' = inst_view v0 (bp_fds p) path (length (bp_fds p)) else view f' = v0"
  using assms(2-)
proof (induction n arbitrary: i f)
  case (Suc n)
  let ?q = "inst_path path i"
  show ?case
  proof (cases "PATH_MAX \<le> length ?q")
    case True
    then show ?thesis
      using Suc.prems(4) unpin_instances_restores [OF fs Suc.prems(1,2)] fs_dirs(2) [OF fs]
      by (auto simp: errno_defs)
  next
    case False
    obtain e f1 where p: "bpf_program__pin_instance ops (Some p) ?q (int i) f = (e, f1)" by fastforce
    note c = pin_instance_cases [OF fs p]
    show ?thesis
    proof (cases "e = 0")
      case True
      have "inst_stack ops v0 (bp_fds p) path (Suc i) f1"
        using Suc.prems(1,2) c True False by (auto simp: inst_stack_def less_Suc_eq)
      moreover have "view f1 = inst_view v0 (bp_fds p) path (Suc i)" using c True Suc.prems(2) by simp
      ultimately show ?thesis using Suc.IH [of "Suc i" f1] Suc.prems(3,4) p True False by simp
    next
      case err: False
      then have "inst_stack ops v0 (bp_fds p) path i f1" "view f1 = inst_view v0 (bp_fds p) path i"
        using c Suc.prems(1,2) by (auto simp: inst_stack_def fs_quiet_def)
      then show ?thesis
        using unpin_instances_restores [OF fs] fs_dirs(2) [OF fs] Suc.prems(4) p err False by auto
    qed
  qed
qed simp

lemma bpf_program_pin_outcome:
  assumes fs: "bpf_fs ops view" and pin: "bpf_program__pin ops (Some p) path f = (err, f')"
  shows "if err = 0 then view f' = (if length (bp_fds p) = 1 then (view f)(path \<mapsto> bp_fds p ! 0)
      else inst_view (view f) (bp_fds p) path (length (bp_fds p))) else view f' = view f"
proof -
  obtain e1 f1 where mk: "make_parent_dir ops path f = (e1, f1)" by fastforce
  have q1: "view f1 = view f" using make_parent_dir_quiet [OF fs, of f path] mk by (simp add: fs_quiet_def)
  show ?thesis
  proof (cases "e1 = 0 \<and> path_ok ops path f1 \<and> bp_fds p \<noteq> []")
    case False
    then show ?thesis using pin mk q1 by (auto simp: bpf_program__pin_def path_ok_def errno_defs split: if_splits)
  next
    case True
    show ?thesis
    proof (cases "length (bp_fds p) = 1")
      case one: True
      then have "bpf_program__pin_instance ops (Some p) path (int 0) f1 = (err, f')"
        using True pin mk by (simp add: bpf_program__pin_def path_ok_def)
      from pin_instance_cases [OF fs this] show ?thesis using one q1 by (auto simp: fs_quiet_def)
    next
      case many: False
      then have "pin_instances ops p path (length (bp_fds p)) 0 f1 = (err, f')"
        using True pin mk by (simp add: bpf_program__pin_def path_ok_def)
      from pin_instances_outcome [OF fs _ _ _ this, of "view f"] show ?thesis using many q1 by (simp add: inst_stack_def)
    qed
  qed
qed

section \<open>Properties\<close>


text \<open>A file system that does what is documented, for which all directories exist.\<close>

definition plain_fs :: "(string \<rightharpoonup> int) fs_ops" where
  "plain_fs = \<lparr>fs_strdup = (\<lambda>p. True), fs_mkdir = (\<lambda>d f. (- EEXIST, f)), fs_statfs = (\<lambda>d f. Inr BPF_FS_MAGIC),
     fs_obj_pin = (\<lambda>fd p f. if f p = None then (0, f(p \<mapsto> fd)) else (- EEXIST, f)),
     fs_unlink = (\<lambda>p f. if f p = None then (- ENOENT, f) else (0, f(p := None))), fs_rmdir = (\<lambda>d f. (0, f))\<rparr>"

lemma bpf_fs_plain: "bpf_fs plain_fs (\<lambda>f. f)"
  by (auto simp: bpf_fs_def plain_fs_def errno_defs)

definition sample_pin_map :: "string \<Rightarrow> int \<Rightarrow> pin_map" where
  "sample_pin_map nm fd = \<lparr>bm_name = nm, bm_fd = fd, bm_def = \<lparr>md_type = 2, md_key_size = 4, md_value_size = 8, md_max_entries = 16, md_flags = 0\<rparr>,
     bm_key_type_id = 0, bm_value_type_id = 0, bm_ifindex = 0, bm_reused = False, pm_pin_path = None, pm_pinned = False\<rparr>"

definition sample_pin_object :: pin_object where
  "sample_pin_object = \<lparr>po_loaded = True, po_maps = [sample_pin_map ''a'' 4, sample_pin_map ''b'' 5, sample_pin_map ''a'' 6], po_programs = []\<rparr>"

text \<open>The third map has the name of the first, so that its path is taken.\<close>

lemmas pin_map_eval = sample_pin_map_def plain_fs_def bpf_map__pin_def map_pin_at_def map_target_def make_parent_dir_def
  check_path_def bpf_map__unpin_def PATH_MAX_def errno_defs


text \<open>A map that was pinned before the call is taken out of the file system as well when a later map fails.\<close>

lemma pin_maps_rollback_too_far:
  "let old = (sample_pin_map ''a'' 4)\<lparr>pm_pin_path := Some ''/p/a'', pm_pinned := True\<rparr>;
       f = [''/p/a'' \<mapsto> 4, ''/p/b'' \<mapsto> 9];
       (err, maps, f') = pin_maps_loop plain_fs (Some ''/p'') [] [old, sample_pin_map ''b'' 5] f
   in err = - EEXIST \<and> f' ''/p/a'' = None"
  by (simp add: pin_map_eval)

text \<open>A map that could not be pinned keeps the path, and pinning it somewhere else is refused.\<close>

lemma pin_failure_keeps_path:
  "let (err, m, f) = bpf_map__pin plain_fs (Some (sample_pin_map ''a'' 4)) (Some ''/p/a'') [''/p/a'' \<mapsto> 9];
       (err', m', f') = bpf_map__pin plain_fs m (Some ''/q/a'') f
   in err = - EEXIST \<and> err' = - EINVAL"
  by (simp add: pin_map_eval)

end
