(* ===== verification/Obj_Load.thy ===== *)
theory Obj_Load
  imports Core_Correct Pinning
begin

text \<open>
  Loading an opened object in \<^verbatim>\<open>eBPF_app/libbpf/src/libbpf.c\<close>: creating or reusing its maps (\<^verbatim>\<open>bpf_object__create_maps\<close>), relocating and
  loading its programs (\<^verbatim>\<open>bpf_program__load\<close>), the clean-up when a step fails (\<^verbatim>\<open>bpf_object__load_xattr\<close>), unloading and closing.
  The kernel of \<open>Bpf_Sys\<close> is extended by the other system calls; what it does with descriptors is the
  predicate \<open>kernel_fds\<close>. Relocation and pinning are those of \<open>Reloc\<close> and \<open>Pinning\<close>.
\<close>

unbundle bit_operations_syntax

section \<open>State\<close>

definition BPF_MAP_TYPE_ARRAY_OF_MAPS :: nat where "BPF_MAP_TYPE_ARRAY_OF_MAPS = 12"
definition BPF_MAP_TYPE_HASH_OF_MAPS :: nat where "BPF_MAP_TYPE_HASH_OF_MAPS = 13"
definition LIBBPF_ERRNO__VERIFY :: int where "LIBBPF_ERRNO__VERIFY = 4007"
definition LIBBPF_ERRNO__PROG2BIG :: int where "LIBBPF_ERRNO__PROG2BIG = 4008"
definition LIBBPF_ERRNO__PROGTYPE :: int where "LIBBPF_ERRNO__PROGTYPE = 4010"
definition BPF_LOG_BUF_SIZE :: nat where "BPF_LOG_BUF_SIZE = 0xffffff"
definition BPF_MAXINSNS :: nat where "BPF_MAXINSNS = 4096"
definition INT_MAX :: nat where "INT_MAX = 0x7fffffff"

record load_map =
  lm_map :: pin_map
  lm_sec_idx :: int
  lm_sec_offset :: nat
  lm_inner_map_fd :: int
  lm_libbpf_type :: libbpf_map_type

text \<open>What a preprocessor answers: an error, the instructions to load instead (\<open>None\<close>: none), and the variable that
  receives the descriptor.\<close>

type_synonym prep = "nat \<Rightarrow> bpf_insn list \<Rightarrow> int \<times> bpf_insn list option \<times> nat option"

text \<open>\<open>ld_nr\<close> and \<open>ld_fds\<close> are \<^verbatim>\<open>instances\<close>. The instructions are a null pointer after loading, which the empty list stands for.\<close>

record load_prog =
  ld_prog :: reloc_prog
  ld_name :: "string option"
  ld_type :: nat
  ld_attach_type :: nat
  ld_ifindex :: u32
  ld_attach_btf_id :: u32
  ld_log_level :: u32
  ld_flags :: u32
  ld_nr :: int
  ld_fds :: "int list option"
  ld_prep :: "prep option"

record load_obj =
  lo_maps :: "load_map list"
  lo_programs :: "load_prog list"
  lo_loaded :: bool
  lo_license :: string
  lo_kern_version :: u32
  lo_data :: bytes
  lo_rodata :: bytes
  lo_btf :: "btf option"
  lo_btf_ext :: "btf_extension option"
  lo_caps_name :: bool
  lo_caps_global_data :: bool
  lo_has_pseudo_calls :: bool
  lo_relaxed_core_relocs :: bool
  lo_text_shndx :: int
  lo_maps_shndx :: int
  lo_btf_maps_shndx :: int
  lo_data_shndx :: int
  lo_bss_shndx :: int
  lo_rodata_shndx :: int

record 'k obj_kernel = "'k bpf_kernel" +
  ok_close :: "int \<Rightarrow> 'k \<Rightarrow> int \<times> 'k"
  ok_obj_get :: "string \<Rightarrow> 'k \<Rightarrow> int \<times> 'k"
  ok_info :: "int \<Rightarrow> 'k \<Rightarrow> int + map_info"
  ok_open_root :: "'k \<Rightarrow> int \<times> 'k"
  ok_dup3 :: "int \<Rightarrow> int \<Rightarrow> 'k \<Rightarrow> int \<times> 'k"
  ok_update :: "int \<Rightarrow> bytes \<Rightarrow> 'k \<Rightarrow> int \<times> 'k"
  ok_freeze :: "int \<Rightarrow> 'k \<Rightarrow> int \<times> 'k"
  ok_fs :: "'k fs_ops"
  ok_cpus :: int
  ok_malloc :: "nat \<Rightarrow> bool"
  ok_strdup :: bool

definition close_fd :: "'k obj_kernel \<Rightarrow> int \<Rightarrow> 'k process \<Rightarrow> int \<times> 'k process" where
  "close_fd kn fd p = (let (r, k) = ok_close kn fd (p_kern p) in sys_ret r k p)"

definition zclose :: "'k obj_kernel \<Rightarrow> int \<Rightarrow> 'k process \<Rightarrow> int \<times> 'k process" where
  "zclose kn fd p = (if fd \<ge> 0 then close_fd kn fd p else (0, p))"

section \<open>Attributes of maps\<close>

definition bpf_map_type__is_map_in_map :: "nat \<Rightarrow> bool" where
  "bpf_map_type__is_map_in_map t \<longleftrightarrow> t = BPF_MAP_TYPE_ARRAY_OF_MAPS \<or> t = BPF_MAP_TYPE_HASH_OF_MAPS"

definition bpf_map__is_internal :: "load_map \<Rightarrow> bool" where
  "bpf_map__is_internal m \<longleftrightarrow> lm_libbpf_type m \<noteq> LIBBPF_MAP_UNSPEC"

definition bpf_map__resize :: "load_map option \<Rightarrow> u32 \<Rightarrow> int \<times> load_map option" where
  "bpf_map__resize m max_entries = (case m of
     None \<Rightarrow> (- EINVAL, None)
   | Some m \<Rightarrow>
       if max_entries = 0 then (- EINVAL, Some m)
       else if bm_fd (lm_map m) \<ge> 0 then (- EBUSY, Some m)
       else (0, Some (m\<lparr>lm_map := (lm_map m)\<lparr>bm_def := (bm_def (lm_map m))\<lparr>md_max_entries := max_entries\<rparr>\<rparr>\<rparr>)))"

definition bpf_map__set_inner_map_fd :: "load_map \<Rightarrow> int \<Rightarrow> int \<times> load_map" where
  "bpf_map__set_inner_map_fd m fd =
     (if \<not> bpf_map_type__is_map_in_map (md_type (bm_def (lm_map m))) then (- EINVAL, m)
      else if lm_inner_map_fd m \<noteq> -1 then (- EINVAL, m)
      else (0, m\<lparr>lm_inner_map_fd := fd\<rparr>))"

text \<open>\<^verbatim>\<open>libbpf_type_to_btf_name\<close> has no entry for the maps of the user.\<close>

fun libbpf_type_to_btf_name :: "libbpf_map_type \<Rightarrow> string option" where
  "libbpf_type_to_btf_name LIBBPF_MAP_UNSPEC = None"
| "libbpf_type_to_btf_name LIBBPF_MAP_DATA = Some ''.data''"
| "libbpf_type_to_btf_name LIBBPF_MAP_BSS = Some ''.bss''"
| "libbpf_type_to_btf_name LIBBPF_MAP_RODATA = Some ''.rodata''"

definition set_btf_ids :: "u32 \<Rightarrow> u32 \<Rightarrow> load_map \<Rightarrow> load_map" where
  "set_btf_ids key val m = m\<lparr>lm_map := (lm_map m)\<lparr>bm_key_type_id := key, bm_value_type_id := val\<rparr>\<rparr>"

definition bpf_map_find_btf_info :: "load_obj \<Rightarrow> btf \<Rightarrow> load_map \<Rightarrow> (int \<times> load_map) option" where
  "bpf_map_find_btf_info obj b m =
     (let d = bm_def (lm_map m) in
      if lm_sec_idx m = lo_btf_maps_shndx obj then Some (0, m)
      else if \<not> bpf_map__is_internal m then do {
        r \<leftarrow> btf__get_map_kv_tids b (str_bytes (bm_name (lm_map m))) (md_key_size d) (md_value_size d);
        Some (case r of
                Inl err \<Rightarrow> if err < 0 then (err, m) else (0, set_btf_ids 0 0 m)
              | Inr (key, val) \<Rightarrow> (0, set_btf_ids key val m))
      }
      else do {
        name \<leftarrow> libbpf_type_to_btf_name (lm_libbpf_type m);
        ret \<leftarrow> btf__find_by_name b (str_bytes name);
        Some (if ret < 0 then (ret, m) else (0, set_btf_ids 0 (of_int ret) m))
      })"

section \<open>Reusing a pinned map\<close>

definition map_is_reuse_compat :: "'k obj_kernel \<Rightarrow> load_map \<Rightarrow> int \<Rightarrow> 'k process \<Rightarrow> bool" where
  "map_is_reuse_compat kn m fd p = (case ok_info kn fd (p_kern p) of
     Inl err \<Rightarrow> False
   | Inr info \<Rightarrow> mi_def info = bm_def (lm_map m))"

text \<open>\<^verbatim>\<open>bpf_map__reuse_fd\<close> with its system calls. When \<^verbatim>\<open>dup3\<close> fails, the variable with the new descriptor has been overwritten.\<close>

definition reuse_fd_calls :: "'k obj_kernel \<Rightarrow> int \<Rightarrow> load_map \<Rightarrow> 'k process \<Rightarrow> int \<times> load_map \<times> 'k process" where
  "reuse_fd_calls kn fd m p =
     (case ok_info kn fd (p_kern p) of
        Inl err \<Rightarrow> (-1, m, p\<lparr>p_errno := - err\<rparr>)
      | Inr info \<Rightarrow>
          if \<not> ok_strdup kn then (- ENOMEM, m, p\<lparr>p_errno := ENOMEM\<rparr>)
          else
            (let (r, k) = ok_open_root kn (p_kern p); (new_fd, p) = sys_ret r k p in
             if new_fd < 0 then (- p_errno p, m, p)
             else
               (let (r, k) = ok_dup3 kn fd new_fd (p_kern p); (new_fd, p) = sys_ret r k p in
                if new_fd < 0 then (- p_errno p, m, snd (close_fd kn new_fd p))
                else
                  (let (err, p) = zclose kn (bm_fd (lm_map m)) p; m = m\<lparr>lm_map := (lm_map m)\<lparr>bm_fd := -1\<rparr>\<rparr> in
                   if err \<noteq> 0 then (- p_errno p, m, snd (close_fd kn new_fd p))
                   else (0, m\<lparr>lm_map := (lm_map m)\<lparr>bm_fd := new_fd, bm_name := mi_name info, bm_def := mi_def info,
                               bm_key_type_id := mi_key_type_id info, bm_value_type_id := mi_value_type_id info,
                               bm_reused := True\<rparr>\<rparr>, p)))))"

definition bpf_object__reuse_map :: "'k obj_kernel \<Rightarrow> string \<Rightarrow> load_map \<Rightarrow> 'k process \<Rightarrow> int \<times> load_map \<times> 'k process" where
  "bpf_object__reuse_map kn path m p =
     (let (r, k) = ok_obj_get kn path (p_kern p); (pin_fd, p) = sys_ret r k p in
      if pin_fd < 0 then (if p_errno p = ENOENT then 0 else - p_errno p, m, p)
      else if \<not> map_is_reuse_compat kn m pin_fd p then (- EINVAL, m, snd (close_fd kn pin_fd p))
      else
        (let (err, m, p) = reuse_fd_calls kn pin_fd m p in
         if err \<noteq> 0 then (err, m, snd (close_fd kn pin_fd p))
         else (0, m\<lparr>lm_map := (lm_map m)\<lparr>pm_pinned := True\<rparr>\<rparr>, p)))"

section \<open>Creating maps\<close>

definition bpf_object__populate_internal_map :: "'k obj_kernel \<Rightarrow> load_obj \<Rightarrow> load_map \<Rightarrow> 'k process \<Rightarrow> int \<times> 'k process" where
  "bpf_object__populate_internal_map kn obj m p =
     (if lm_libbpf_type m = LIBBPF_MAP_BSS then (0, p)
      else
        (let data = (if lm_libbpf_type m = LIBBPF_MAP_DATA then lo_data obj else lo_rodata obj);
             (r, k) = ok_update kn (bm_fd (lm_map m)) data (p_kern p);
             (err, p) = sys_ret r k p
         in if err = 0 \<and> lm_libbpf_type m = LIBBPF_MAP_RODATA
            then (let (r, k) = ok_freeze kn (bm_fd (lm_map m)) (p_kern p) in (0, snd (sys_ret r k p)))
            else (err, p)))"

text \<open>The attributes are one variable for all the maps. \<open>nr_cpus\<close> is zero until it is asked for.\<close>

definition set_create_attr ::
    "int \<Rightarrow> load_obj \<Rightarrow> load_map \<Rightarrow> bpf_create_map_attr \<Rightarrow> int \<Rightarrow> (int + bpf_create_map_attr) \<times> int" where
  "set_create_attr cpus obj m attr nr_cpus =
     (let mp = lm_map m; d = bm_def mp;
          attr = (if lo_caps_name obj then attr\<lparr>cm_name := Some (bm_name mp)\<rparr> else attr);
          attr = attr\<lparr>cm_map_ifindex := bm_ifindex mp, cm_map_type := md_type d, cm_map_flags := md_flags d,
                      cm_key_size := md_key_size d, cm_value_size := md_value_size d\<rparr>;
          per_cpu = (md_type d = BPF_MAP_TYPE_PERF_EVENT_ARRAY \<and> md_max_entries d = 0);
          nr_cpus = (if per_cpu \<and> nr_cpus = 0 then cpus else nr_cpus)
      in if per_cpu \<and> nr_cpus < 0 then (Inl nr_cpus, nr_cpus)
         else
           (let attr = attr\<lparr>cm_max_entries := if per_cpu then of_int nr_cpus else md_max_entries d,
                            cm_btf_fd := 0, cm_btf_key_type_id := 0, cm_btf_value_type_id := 0\<rparr>;
                attr = (if bpf_map_type__is_map_in_map (md_type d) \<and> lm_inner_map_fd m \<ge> 0
                        then attr\<lparr>cm_inner_map_fd := of_int (lm_inner_map_fd m)\<rparr> else attr)
            in (Inr attr, nr_cpus)))"

definition set_btf_attr :: "load_obj \<Rightarrow> load_map \<Rightarrow> bpf_create_map_attr \<Rightarrow> (load_map \<times> bpf_create_map_attr) option" where
  "set_btf_attr obj m attr =
     (case lo_btf obj of
        None \<Rightarrow> Some (m, attr)
      | Some b \<Rightarrow> do {
          (err, m) \<leftarrow> bpf_map_find_btf_info obj b m;
          Some (if err \<noteq> 0 then (m, attr)
                else (m, attr\<lparr>cm_btf_fd := of_int (btf__fd b), cm_btf_key_type_id := bm_key_type_id (lm_map m),
                              cm_btf_value_type_id := bm_value_type_id (lm_map m)\<rparr>))
        })"

text \<open>Creation, with a second attempt without type information.\<close>

definition create_map_fd ::
    "'k obj_kernel \<Rightarrow> load_map \<Rightarrow> bpf_create_map_attr \<Rightarrow> 'k process \<Rightarrow> load_map \<times> bpf_create_map_attr \<times> 'k process" where
  "create_map_fd kn m attr p =
     (let (fd, p) = bpf_create_map_xattr kn attr p in
      if fd < 0 \<and> (cm_btf_key_type_id attr \<noteq> 0 \<or> cm_btf_value_type_id attr \<noteq> 0) then
        (let attr = attr\<lparr>cm_btf_fd := 0, cm_btf_key_type_id := 0, cm_btf_value_type_id := 0\<rparr>;
             m = set_btf_ids 0 0 m;
             (fd, p) = bpf_create_map_xattr kn attr p
         in (m\<lparr>lm_map := (lm_map m)\<lparr>bm_fd := fd\<rparr>\<rparr>, attr, p))
      else (m\<lparr>lm_map := (lm_map m)\<lparr>bm_fd := fd\<rparr>\<rparr>, attr, p))"

text \<open>How one round of the loop ends: the next map, a return, or a return after the maps before have been closed.\<close>

datatype map_outcome = Map_next | Map_return int | Map_err_out int

definition finish_map :: "'k obj_kernel \<Rightarrow> load_obj \<Rightarrow> load_map \<Rightarrow> 'k process \<Rightarrow> map_outcome \<times> load_map \<times> 'k process" where
  "finish_map kn obj m p =
     (let (err, p) = (if bpf_map__is_internal m then bpf_object__populate_internal_map kn obj m p else (0, p)) in
      if err < 0 then
        (Map_err_out err, m\<lparr>lm_map := (lm_map m)\<lparr>bm_fd := -1\<rparr>\<rparr>, snd (zclose kn (bm_fd (lm_map m)) p))
      else if pm_pin_path (lm_map m) \<noteq> None \<and> \<not> pm_pinned (lm_map m) then
        (let (err, mp, k) = bpf_map__pin (ok_fs kn) (Some (lm_map m)) None (p_kern p) in
         (if err \<noteq> 0 then Map_return err else Map_next, m\<lparr>lm_map := the mp\<rparr>, p\<lparr>p_kern := k\<rparr>))
      else (Map_next, m, p))"

definition create_one_map ::
    "'k obj_kernel \<Rightarrow> load_obj \<Rightarrow> load_map \<Rightarrow> bpf_create_map_attr \<Rightarrow> int \<Rightarrow> 'k process
      \<Rightarrow> (map_outcome \<times> load_map \<times> bpf_create_map_attr \<times> int \<times> 'k process) option" where
  "create_one_map kn obj m attr nr_cpus p =
     (let (err, m, p) = (case pm_pin_path (lm_map m) of
            None \<Rightarrow> (0, m, p)
          | Some path \<Rightarrow> bpf_object__reuse_map kn path m p)
      in if err \<noteq> 0 then Some (Map_return err, m, attr, nr_cpus, p)
         else if bm_fd (lm_map m) \<ge> 0 then Some (Map_next, m, attr, nr_cpus, p)
         else
           (case set_create_attr (ok_cpus kn) obj m attr nr_cpus of
              (Inl err, nr_cpus) \<Rightarrow> Some (Map_err_out err, m, attr, nr_cpus, p)
            | (Inr attr, nr_cpus) \<Rightarrow> do {
                (m, attr) \<leftarrow> set_btf_attr obj m attr;
                let (m, attr, p) = create_map_fd kn m attr p;
                if bm_fd (lm_map m) < 0 then Some (Map_err_out (- p_errno p), m, attr, nr_cpus, p)
                else (let (res, m, p) = finish_map kn obj m p in Some (res, m, attr, nr_cpus, p))
              }))"

fun close_maps :: "'k obj_kernel \<Rightarrow> load_map list \<Rightarrow> 'k process \<Rightarrow> load_map list \<times> 'k process" where
  "close_maps kn [] p = ([], p)"
| "close_maps kn (m # ms) p =
     (let (e, p) = zclose kn (bm_fd (lm_map m)) p;
          (ms, p) = close_maps kn ms p
      in (m\<lparr>lm_map := (lm_map m)\<lparr>bm_fd := -1\<rparr>\<rparr> # ms, p))"

text \<open>\<open>prev\<close> are the maps before the current one.\<close>

fun create_maps_loop ::
    "'k obj_kernel \<Rightarrow> load_obj \<Rightarrow> load_map list \<Rightarrow> load_map list \<Rightarrow> bpf_create_map_attr \<Rightarrow> int \<Rightarrow> 'k process
      \<Rightarrow> (int \<times> load_map list \<times> 'k process) option" where
  "create_maps_loop kn obj prev [] attr nr_cpus p = Some (0, prev, p)"
| "create_maps_loop kn obj prev (m # ms) attr nr_cpus p = do {
     (res, m, attr, nr_cpus, p) \<leftarrow> create_one_map kn obj m attr nr_cpus p;
     (case res of
        Map_next \<Rightarrow> create_maps_loop kn obj (prev @ [m]) ms attr nr_cpus p
      | Map_return err \<Rightarrow> Some (err, prev @ m # ms, p)
      | Map_err_out err \<Rightarrow> (let (prev, p) = close_maps kn prev p in Some (err, prev @ m # ms, p)))
   }"

definition bpf_object__create_maps :: "'k obj_kernel \<Rightarrow> load_obj \<Rightarrow> 'k process \<Rightarrow> (int \<times> load_obj \<times> 'k process) option" where
  "bpf_object__create_maps kn obj p = do {
     (err, maps, p) \<leftarrow> create_maps_loop kn obj [] (lo_maps obj) zero_map_attr 0 p;
     Some (err, obj\<lparr>lo_maps := maps\<rparr>, p)
   }"

section \<open>Loading programs\<close>

definition bpf_object__btf_fd :: "load_obj \<Rightarrow> int" where
  "bpf_object__btf_fd obj = (case lo_btf obj of None \<Rightarrow> -1 | Some b \<Rightarrow> btf__fd b)"

text \<open>The interface is stored first and the type to attach to last; the two share their place.\<close>

definition set_load_attr :: "load_obj \<Rightarrow> load_prog \<Rightarrow> bpf_insn list \<Rightarrow> bpf_load_program_attr" where
  "set_load_attr obj prog insns =
     (let rp = ld_prog prog;
          btf_fd = (if lo_btf_ext obj \<noteq> None then bpf_object__btf_fd obj else -1);
          la = \<lparr>lp_prog_type = ld_type prog, lp_expected_attach_type = ld_attach_type prog,
                lp_name = (if lo_caps_name obj then ld_name prog else None), lp_insns = insns, lp_license = lo_license obj,
                lp_kern_version = lo_kern_version obj, lp_ifindex_or_btf_id = ld_ifindex prog,
                lp_prog_btf_fd = (if btf_fd \<ge> 0 then of_int btf_fd else 0),
                lp_func_info_rec_size = rp_func_info_rec_size rp, lp_func_info = rp_func_info rp, lp_func_info_cnt = rp_func_info_cnt rp,
                lp_line_info_rec_size = rp_line_info_rec_size rp, lp_line_info = rp_line_info rp, lp_line_info_cnt = rp_line_info_cnt rp,
                lp_log_level = ld_log_level prog, lp_prog_flags = ld_flags prog\<rparr>
      in la\<lparr>lp_ifindex_or_btf_id := ld_attach_btf_id prog\<rparr>)"

text \<open>What follows a failed attempt: the log, the size and the type are tried as reasons. \<open>None\<close>: the byte of the log that is read was
  never written.\<close>

definition load_failure ::
    "'k obj_kernel \<Rightarrow> bpf_load_program_attr \<Rightarrow> bool \<Rightarrow> u8 option \<Rightarrow> 'k process \<Rightarrow> (int \<times> 'k process) option" where
  "load_failure kn la has_buf log p = do {
     verbose \<leftarrow> (if has_buf then map_option (\<lambda>c. c \<noteq> 0) log else Some False);
     if verbose then Some (- LIBBPF_ERRNO__VERIFY, p)
     else if length (lp_insns la) \<ge> BPF_MAXINSNS then Some (- LIBBPF_ERRNO__PROG2BIG, p)
     else if lp_prog_type la \<noteq> BPF_PROG_TYPE_KPROBE then do {
       let err = - p_errno p;
       (fd, _, p) \<leftarrow> bpf_load_program_xattr kn (ok_malloc kn)
          (la\<lparr>lp_prog_type := BPF_PROG_TYPE_KPROBE, lp_expected_attach_type := 0\<rparr>) False None 0 p;
       Some (if fd \<ge> 0 then (- LIBBPF_ERRNO__PROGTYPE, snd (close_fd kn fd p)) else (err, p))
     }
     else Some (- p_errno p, p)
   }"

text \<open>The attempts with a log buffer of \<open>sz\<close> bytes, which doubles; doubling beyond the largest integer is undefined. The
  result is the return value, the descriptor that was stored, and the process.\<close>

function load_retry :: "'k obj_kernel \<Rightarrow> bpf_load_program_attr \<Rightarrow> nat \<Rightarrow> 'k process \<Rightarrow> (int \<times> int option \<times> 'k process) option" where
  "load_retry kn la sz p =
     (let has_buf = ok_malloc kn sz; p0 = (if has_buf then p else p\<lparr>p_errno := ENOMEM\<rparr>)
      in case bpf_load_program_xattr kn (ok_malloc kn) la has_buf None sz p0 of
           None \<Rightarrow> None
         | Some (ret, log, p) \<Rightarrow>
             if ret \<ge> 0 then Some (0, Some ret, p)
             else if p_errno p = ENOSPC then
               (if 2 * sz > INT_MAX \<or> sz = 0 then None else load_retry kn la (2 * sz) p)
             else (case load_failure kn la has_buf log p of None \<Rightarrow> None | Some (err, p) \<Rightarrow> Some (err, None, p)))"
  by pat_completeness auto
termination
  by (relation "measure (\<lambda>(kn, la, sz, p). INT_MAX - sz)") (auto simp: INT_MAX_def Let_def)

declare load_retry.simps [simp del]

definition load_program ::
    "'k obj_kernel \<Rightarrow> load_obj \<Rightarrow> load_prog \<Rightarrow> bpf_insn list \<Rightarrow> 'k process \<Rightarrow> (int \<times> int option \<times> 'k process) option" where
  "load_program kn obj prog insns p =
     (if insns = [] then Some (- EINVAL, None, p) else load_retry kn (set_load_attr obj prog insns) BPF_LOG_BUF_SIZE p)"

definition bpf_program__set_prep :: "bool \<Rightarrow> load_prog \<Rightarrow> int \<Rightarrow> prep option \<Rightarrow> int \<times> load_prog" where
  "bpf_program__set_prep malloc_ok prog nr_instances pre =
     (if nr_instances \<le> 0 \<or> pre = None then (- EINVAL, prog)
      else if ld_nr prog > 0 \<or> ld_fds prog \<noteq> None then (- EINVAL, prog)
      else if \<not> malloc_ok then (- ENOMEM, prog)
      else (0, prog\<lparr>ld_nr := nr_instances, ld_fds := Some (replicate (nat nr_instances) (-1)), ld_prep := pre\<rparr>))"

text \<open>The instances from \<open>i\<close>, \<open>n\<close> of them left, with their descriptors.\<close>

fun load_instances ::
    "'k obj_kernel \<Rightarrow> load_obj \<Rightarrow> load_prog \<Rightarrow> prep \<Rightarrow> nat \<Rightarrow> nat \<Rightarrow> int list \<Rightarrow> 'k process \<Rightarrow> (int \<times> int list \<times> 'k process) option" where
  "load_instances kn obj prog pre 0 i fds p = Some (0, fds, p)"
| "load_instances kn obj prog pre (Suc n) i fds p =
     (let (err, new_insns, pfd) = pre i (rp_insns (ld_prog prog)) in
      if err \<noteq> 0 then Some (err, fds, p)
      else if new_insns = None \<or> new_insns = Some [] then do {
        fds \<leftarrow> arr_set fds i (-1);
        let p = (case pfd of None \<Rightarrow> p | Some v \<Rightarrow> p\<lparr>p_user := (p_user p)(v := -1)\<rparr>);
        load_instances kn obj prog pre n (Suc i) fds p
      }
      else do {
        (err, fd, p) \<leftarrow> load_program kn obj prog (the new_insns) p;
        if err \<noteq> 0 then Some (err, fds, p)
        else do {
          fd \<leftarrow> fd;
          let p = (case pfd of None \<Rightarrow> p | Some v \<Rightarrow> p\<lparr>p_user := (p_user p)(v := fd)\<rparr>);
          fds \<leftarrow> arr_set fds i fd;
          load_instances kn obj prog pre n (Suc i) fds p
        }
      })"

definition drop_insns :: "load_prog \<Rightarrow> load_prog" where
  "drop_insns prog = prog\<lparr>ld_prog := (ld_prog prog)\<lparr>rp_insns := []\<rparr>\<rparr>"

definition load_single ::
    "'k obj_kernel \<Rightarrow> load_obj \<Rightarrow> load_prog \<Rightarrow> int list \<Rightarrow> 'k process \<Rightarrow> (int \<times> int list \<times> 'k process) option" where
  "load_single kn obj prog fds p = do {
     (err, fd, p) \<leftarrow> load_program kn obj prog (rp_insns (ld_prog prog)) p;
     if err \<noteq> 0 then Some (err, fds, p)
     else do { fd \<leftarrow> fd; fds \<leftarrow> arr_set fds 0 fd; Some (0, fds, p) }
   }"

text \<open>Once the array of descriptors is there.\<close>

definition load_prepared :: "'k obj_kernel \<Rightarrow> load_obj \<Rightarrow> load_prog \<Rightarrow> 'k process \<Rightarrow> (int \<times> load_prog \<times> 'k process) option" where
  "load_prepared kn obj prog p = do {
     fds \<leftarrow> ld_fds prog;
     (err, fds, p) \<leftarrow> (case ld_prep prog of
         None \<Rightarrow> load_single kn obj prog fds p
       | Some pre \<Rightarrow> load_instances kn obj prog pre (nat (ld_nr prog)) 0 fds p);
     Some (err, drop_insns (prog\<lparr>ld_fds := Some fds\<rparr>), p)
   }"

definition bpf_program__load :: "'k obj_kernel \<Rightarrow> load_obj \<Rightarrow> load_prog \<Rightarrow> 'k process \<Rightarrow> (int \<times> load_prog \<times> 'k process) option" where
  "bpf_program__load kn obj prog p =
     (if ld_nr prog < 0 \<or> ld_fds prog = None then
        if ld_prep prog \<noteq> None then Some (- LIBBPF_ERRNO__INTERNAL, prog, p)
        else if \<not> ok_malloc kn 4 then Some (- ENOMEM, prog\<lparr>ld_fds := None\<rparr>, p\<lparr>p_errno := ENOMEM\<rparr>)
        else load_prepared kn obj (prog\<lparr>ld_nr := 1, ld_fds := Some [-1]\<rparr>) p
      else load_prepared kn obj prog p)"

definition bpf_program__is_function_storage :: "load_prog \<Rightarrow> load_obj \<Rightarrow> bool" where
  "bpf_program__is_function_storage prog obj \<longleftrightarrow> rp_idx (ld_prog prog) = lo_text_shndx obj \<and> lo_has_pseudo_calls obj"

fun load_progs_loop ::
    "'k obj_kernel \<Rightarrow> load_obj \<Rightarrow> u32 \<Rightarrow> load_prog list \<Rightarrow> 'k process \<Rightarrow> (int \<times> load_prog list \<times> 'k process) option" where
  "load_progs_loop kn obj log_level [] p = Some (0, [], p)"
| "load_progs_loop kn obj log_level (prog # progs) p =
     (if bpf_program__is_function_storage prog obj then do {
        (err, progs, p) \<leftarrow> load_progs_loop kn obj log_level progs p;
        Some (err, prog # progs, p)
      }
      else do {
        (err, prog, p) \<leftarrow> bpf_program__load kn obj (prog\<lparr>ld_log_level := ld_log_level prog OR log_level\<rparr>) p;
        if err \<noteq> 0 then Some (err, prog # progs, p)
        else do {
          (err, progs, p) \<leftarrow> load_progs_loop kn obj log_level progs p;
          Some (err, prog # progs, p)
        }
      })"

definition bpf_object__load_progs :: "'k obj_kernel \<Rightarrow> load_obj \<Rightarrow> u32 \<Rightarrow> 'k process \<Rightarrow> (int \<times> load_obj \<times> 'k process) option" where
  "bpf_object__load_progs kn obj log_level p = do {
     (err, progs, p) \<leftarrow> load_progs_loop kn obj log_level (lo_programs obj) p;
     Some (err, obj\<lparr>lo_programs := progs\<rparr>, p)
   }"

section \<open>Unloading\<close>

fun close_fds :: "'k obj_kernel \<Rightarrow> int list \<Rightarrow> 'k process \<Rightarrow> 'k process" where
  "close_fds kn [] p = p"
| "close_fds kn (fd # fds) p = close_fds kn fds (snd (zclose kn fd p))"

text \<open>A positive number of instances without their array would be a null pointer.\<close>

definition bpf_program__unload :: "'k obj_kernel \<Rightarrow> load_prog \<Rightarrow> 'k process \<Rightarrow> (load_prog \<times> 'k process) option" where
  "bpf_program__unload kn prog p = do {
     p \<leftarrow> (if ld_nr prog > 0
           then do { fds \<leftarrow> ld_fds prog; if length fds < nat (ld_nr prog) then None else Some (close_fds kn (take (nat (ld_nr prog)) fds) p) }
           else Some p);
     Some (prog\<lparr>ld_nr := -1, ld_fds := None, ld_prog := (ld_prog prog)\<lparr>rp_func_info := None, rp_line_info := None\<rparr>\<rparr>, p)
   }"

fun unload_progs :: "'k obj_kernel \<Rightarrow> load_prog list \<Rightarrow> 'k process \<Rightarrow> (load_prog list \<times> 'k process) option" where
  "unload_progs kn [] p = Some ([], p)"
| "unload_progs kn (prog # progs) p = do {
     (prog, p) \<leftarrow> bpf_program__unload kn prog p;
     (progs, p) \<leftarrow> unload_progs kn progs p;
     Some (prog # progs, p)
   }"

definition bpf_object__unload :: "'k obj_kernel \<Rightarrow> load_obj \<Rightarrow> 'k process \<Rightarrow> (int \<times> load_obj \<times> 'k process) option" where
  "bpf_object__unload kn obj p = do {
     let (maps, p) = close_maps kn (lo_maps obj) p;
     (progs, p) \<leftarrow> unload_progs kn (lo_programs obj) p;
     Some (0, obj\<lparr>lo_maps := maps, lo_programs := progs\<rparr>, p)
   }"

section \<open>Loading an object\<close>

text \<open>The part of the object that relocation works on, and its result put back. An extension section only exists beside type
  information.\<close>

definition reloc_part :: "load_obj \<Rightarrow> reloc_obj option" where
  "reloc_part obj = (if lo_btf_ext obj \<noteq> None \<and> lo_btf obj = None then None else Some
     \<lparr>ro_programs = map ld_prog (lo_programs obj),
      ro_maps = map (\<lambda>m. \<lparr>rm_fd = bm_fd (lm_map m), rm_sec_idx = lm_sec_idx m, rm_sec_offset = lm_sec_offset m,
                          rm_libbpf_type = lm_libbpf_type m\<rparr>) (lo_maps obj),
      ro_text_shndx = lo_text_shndx obj, ro_maps_shndx = lo_maps_shndx obj, ro_btf_maps_shndx = lo_btf_maps_shndx obj,
      ro_data_shndx = lo_data_shndx obj, ro_bss_shndx = lo_bss_shndx obj, ro_rodata_shndx = lo_rodata_shndx obj,
      ro_global_data = lo_caps_global_data obj, ro_has_pseudo_calls = lo_has_pseudo_calls obj,
      ro_relaxed_core_relocs = lo_relaxed_core_relocs obj,
      ro_btf_ext = (case lo_btf_ext obj of None \<Rightarrow> None | Some e \<Rightarrow> Some (the (lo_btf obj), e))\<rparr>)"

text \<open>\<open>core\<close> is the environment of the relocation against the kernel's types, and the file of these types if the caller names one.\<close>

abbreviation core_fn :: "core_env \<times> string option \<Rightarrow> reloc_obj \<Rightarrow> (int \<times> reloc_obj) option" where
  "core_fn core \<equiv> bpf_object__relocate_core (fst core) (snd core)"

definition relocate_object ::
    "bool \<Rightarrow> core_env \<times> string option \<Rightarrow> load_obj \<Rightarrow> (int \<times> load_obj) option" where
  "relocate_object realloc_ok core obj = do {
     ro \<leftarrow> reloc_part obj;
     (err, ro) \<leftarrow> bpf_object__relocate realloc_ok (core_fn core) ro;
     Some (err, obj\<lparr>lo_programs := map2 (\<lambda>prog rp. prog\<lparr>ld_prog := rp\<rparr>) (lo_programs obj) (ro_programs ro)\<rparr>)
   }"

fun unpin_auto_pinned :: "'k obj_kernel \<Rightarrow> load_map list \<Rightarrow> 'k process \<Rightarrow> load_map list \<times> 'k process" where
  "unpin_auto_pinned kn [] p = ([], p)"
| "unpin_auto_pinned kn (m # ms) p =
     (let (mp, k) = (if pm_pinned (lm_map m) \<and> \<not> bm_reused (lm_map m)
                     then (let (err, mp, k) = bpf_map__unpin (ok_fs kn) (Some (lm_map m)) None (p_kern p) in (the mp, k))
                     else (lm_map m, p_kern p));
          (ms, p) = unpin_auto_pinned kn ms (p\<lparr>p_kern := k\<rparr>)
      in (m\<lparr>lm_map := mp\<rparr> # ms, p))"

definition load_steps ::
    "'k obj_kernel \<Rightarrow> bool \<Rightarrow> core_env \<times> string option \<Rightarrow> u32 \<Rightarrow> load_obj \<Rightarrow> 'k process \<Rightarrow> (int \<times> load_obj \<times> 'k process) option" where
  "load_steps kn realloc_ok core log_level obj p = do {
     (err, obj, p) \<leftarrow> bpf_object__create_maps kn obj p;
     if err \<noteq> 0 then Some (err, obj, p)
     else do {
       (err, obj) \<leftarrow> relocate_object realloc_ok core obj;
       if err \<noteq> 0 then Some (err, obj, p) else bpf_object__load_progs kn obj log_level p
     }
   }"

definition bpf_object__load_xattr ::
    "'k obj_kernel \<Rightarrow> bool \<Rightarrow> core_env \<times> string option \<Rightarrow> u32 \<Rightarrow> load_obj option \<Rightarrow> 'k process
      \<Rightarrow> (int \<times> load_obj option \<times> 'k process) option" where
  "bpf_object__load_xattr kn realloc_ok core log_level obj p =
     (case obj of
        None \<Rightarrow> Some (- EINVAL, None, p)
      | Some obj \<Rightarrow>
          if lo_loaded obj then Some (- EINVAL, Some obj, p)
          else do {
            (err, obj, p) \<leftarrow> load_steps kn realloc_ok core log_level (obj\<lparr>lo_loaded := True\<rparr>) p;
            if err = 0 then Some (0, Some obj, p)
            else do {
              let (maps, p) = unpin_auto_pinned kn (lo_maps obj) p;
              (_, obj, p) \<leftarrow> bpf_object__unload kn (obj\<lparr>lo_maps := maps\<rparr>) p;
              Some (err, Some obj, p)
            }
          })"

definition bpf_object__load ::
    "'k obj_kernel \<Rightarrow> bool \<Rightarrow> core_env \<times> string option \<Rightarrow> load_obj option \<Rightarrow> 'k process \<Rightarrow> (int \<times> load_obj option \<times> 'k process) option" where
  "bpf_object__load kn realloc_ok core obj p = bpf_object__load_xattr kn realloc_ok core 0 obj p"

section \<open>The descriptors of an object\<close>

text \<open>The documented behaviour of the kernel: a descriptor that a call returns is new, \<^verbatim>\<open>close\<close> takes one away, and the calls on the
  contents of maps and on the file system leave the descriptors alone.\<close>

definition kernel_fds :: "'k obj_kernel \<Rightarrow> ('k \<Rightarrow> int set) \<Rightarrow> ('k \<Rightarrow> int \<rightharpoonup> bpf_insn list) \<Rightarrow> bool" where
  "kernel_fds kn opn loaded \<longleftrightarrow> kernel_allocs kn opn loaded \<and>
     (\<forall>fd k. opn (snd (ok_close kn fd k)) = opn k - {fd} \<and> loaded (snd (ok_close kn fd k)) = (loaded k)(fd := None)) \<and>
     (\<forall>fd d k. same_fds opn loaded k (snd (ok_update kn fd d k))) \<and>
     (\<forall>fd k. same_fds opn loaded k (snd (ok_freeze kn fd k)))"

text \<open>Everything open that was not open at the start belongs to \<open>own\<close>, and what was is still open.\<close>

definition fd_inv :: "int set \<Rightarrow> int set \<Rightarrow> int set \<Rightarrow> bool" where
  "fd_inv base own now \<longleftrightarrow> base \<subseteq> now \<and> now \<subseteq> base \<union> own \<and> own \<inter> base = {}"

definition own_fd :: "int \<Rightarrow> int set" where
  "own_fd fd = (if 0 \<le> fd then {fd} else {})"

definition map_fds :: "load_map \<Rightarrow> int set" where
  "map_fds m = own_fd (bm_fd (lm_map m))"

definition prog_fds :: "load_prog \<Rightarrow> int set" where
  "prog_fds prog = (case ld_fds prog of None \<Rightarrow> {} | Some fds \<Rightarrow> \<Union> (own_fd ` set fds))"

definition obj_fds :: "load_obj \<Rightarrow> int set" where
  "obj_fds obj = \<Union> (map_fds ` set (lo_maps obj)) \<union> \<Union> (prog_fds ` set (lo_programs obj))"

lemma fd_inv_new: "fd_inv base own now \<Longrightarrow> fd \<notin> now \<Longrightarrow> fd_inv base (insert fd own) (insert fd now)"
  by (auto simp: fd_inv_def)

lemma fd_inv_close: "fd_inv base ({fd} \<union> own) now \<Longrightarrow> fd_inv base own (now - {fd})"
  by (auto simp: fd_inv_def)

lemma fd_inv_none: "fd_inv base {} now \<longleftrightarrow> now = base"
  by (auto simp: fd_inv_def)

lemma close_fd_law:
  assumes "kernel_fds kn opn loaded"
  shows "opn (p_kern (snd (close_fd kn fd p))) = opn (p_kern p) - {fd}"
    "loaded (p_kern (snd (close_fd kn fd p))) = (loaded (p_kern p))(fd := None)"
  using assms by (auto simp: close_fd_def kernel_fds_def split_beta)

lemma zclose_inv:
  assumes "kernel_fds kn opn loaded" "fd_inv base (own_fd fd \<union> own) (opn (p_kern p))"
  shows "fd_inv base own (opn (p_kern (snd (zclose kn fd p))))"
  using assms(2) close_fd_law [OF assms(1), of fd p] fd_inv_close [of base fd own]
  by (auto simp: zclose_def own_fd_def split: if_splits)

lemma close_maps_inv:
  assumes "kernel_fds kn opn loaded" "fd_inv base (\<Union> (map_fds ` set ms) \<union> own) (opn (p_kern p))" "close_maps kn ms p = (ms', p')"
  shows "fd_inv base own (opn (p_kern p')) \<and> \<Union> (map_fds ` set ms') = {} \<and> map lm_sec_idx ms' = map lm_sec_idx ms"
  using assms(2,3)
proof (induction ms arbitrary: p ms' p')
  case (Cons m ms)
  obtain ms1 p1 where c: "close_maps kn ms (snd (zclose kn (bm_fd (lm_map m)) p)) = (ms1, p1)" by fastforce
  then have eq: "ms' = m\<lparr>lm_map := (lm_map m)\<lparr>bm_fd := -1\<rparr>\<rparr> # ms1" "p' = p1"
    using Cons.prems(2) by (auto simp: Let_def split: prod.splits)
  have "fd_inv base (\<Union> (map_fds ` set ms) \<union> own) (opn (p_kern (snd (zclose kn (bm_fd (lm_map m)) p))))"
    using zclose_inv [OF assms(1), of base "bm_fd (lm_map m)" "\<Union> (map_fds ` set ms) \<union> own" p] Cons.prems(1)
    by (simp add: map_fds_def Un_assoc)
  from Cons.IH [OF this c] eq show ?case by (simp add: map_fds_def own_fd_def)
qed simp

lemma close_fds_inv:
  assumes "kernel_fds kn opn loaded" "fd_inv base (\<Union> (own_fd ` set fds) \<union> own) (opn (p_kern p))"
  shows "fd_inv base own (opn (p_kern (close_fds kn fds p)))"
  using assms(2)
proof (induction fds arbitrary: p)
  case (Cons fd fds)
  then show ?case using zclose_inv [OF assms(1), of base fd "\<Union> (own_fd ` set fds) \<union> own" p] by (simp add: Un_assoc)
qed simp

lemma populate_same_fds:
  assumes "kernel_fds kn opn loaded"
  shows "same_fds opn loaded (p_kern p) (p_kern (snd (bpf_object__populate_internal_map kn obj m p)))"
  using assms by (auto simp: bpf_object__populate_internal_map_def kernel_fds_def split_beta Let_def same_fds_def)

lemma finish_map_inv:
  assumes "kernel_fds kn opn loaded" "finish_map kn obj m p = (res, m', p')" "pm_pin_path (lm_map m) = None"
    and "fd_inv base (map_fds m \<union> own) (opn (p_kern p))"
  shows "fd_inv base (map_fds m' \<union> own) (opn (p_kern p'))" "pm_pin_path (lm_map m') = None"
    "res = Map_next \<Longrightarrow> same_fds opn loaded (p_kern p) (p_kern p') \<and> m' = m"
proof -
  obtain err p1 where e: "(if bpf_map__is_internal m then bpf_object__populate_internal_map kn obj m p else (0, p)) = (err, p1)" by fastforce
  then have same: "same_fds opn loaded (p_kern p) (p_kern p1)"
    using populate_same_fds [OF assms(1), of p obj m] by (metis same_fds_refl snd_conv)
  have res: "(res, m', p') = (if err < 0 then (Map_err_out err, m\<lparr>lm_map := (lm_map m)\<lparr>bm_fd := -1\<rparr>\<rparr>, snd (zclose kn (bm_fd (lm_map m)) p1))
      else (Map_next, m, p1))"
    using assms(2,3) e by (auto simp: finish_map_def split: if_splits)
  show "fd_inv base (map_fds m' \<union> own) (opn (p_kern p'))"
    using res assms(4) same zclose_inv [OF assms(1), of base "bm_fd (lm_map m)" own p1]
    by (auto simp: map_fds_def own_fd_def [of "-1"] same_fds_def split: if_splits)
  show "pm_pin_path (lm_map m') = None" "res = Map_next \<Longrightarrow> same_fds opn loaded (p_kern p) (p_kern p') \<and> m' = m"
    using res assms(3) same by (auto split: if_splits)
qed

lemma kernel_fds_allocs: "kernel_fds kn opn loaded \<Longrightarrow> kernel_allocs kn opn loaded"
  by (simp add: kernel_fds_def)

lemma create_map_fd_call:
  assumes "kernel_fds kn opn loaded" "create_map_fd kn m attr p = (m', attr', p')"
  shows "fd_call opn loaded (p_kern p) (bm_fd (lm_map m')) (p_kern p') \<and> pm_pin_path (lm_map m') = pm_pin_path (lm_map m)"
  using assms(2) by (auto simp: create_map_fd_def Let_def fd_call_def same_fds_def set_btf_ids_def split: prod.splits if_splits
      dest!: create_map_xattr_call [OF kernel_fds_allocs [OF assms(1)]])

lemma set_btf_attr_keeps:
  assumes "set_btf_attr obj m attr = Some (m', attr')"
  shows "bm_fd (lm_map m') = bm_fd (lm_map m) \<and> pm_pin_path (lm_map m') = pm_pin_path (lm_map m)"
proof -
  have "bm_fd (lm_map m') = bm_fd (lm_map m) \<and> pm_pin_path (lm_map m') = pm_pin_path (lm_map m)"
    if "bpf_map_find_btf_info obj b m = Some (err, m')" for b err m'
    using that by (auto simp: bpf_map_find_btf_info_def set_btf_ids_def Let_def split: if_splits Option.bind_splits sum.splits)
  then show ?thesis using assms by (auto simp: set_btf_attr_def split: option.splits if_splits Option.bind_splits)
qed

text \<open>A state of the kernel that has at least the descriptors and programs of another.\<close>

definition more_fds :: "('k \<Rightarrow> int set) \<Rightarrow> ('k \<Rightarrow> int \<rightharpoonup> bpf_insn list) \<Rightarrow> 'k \<Rightarrow> 'k \<Rightarrow> bool" where
  "more_fds opn loaded k k' \<longleftrightarrow> opn k \<subseteq> opn k' \<and> (\<forall>fd\<in>opn k. loaded k' fd = loaded k fd)"

lemma more_fds_refl [simp]: "more_fds opn loaded k k"
  by (simp add: more_fds_def)

lemma more_fds_trans: "more_fds opn loaded k k' \<Longrightarrow> more_fds opn loaded k' k'' \<Longrightarrow> more_fds opn loaded k k''"
  by (auto simp: more_fds_def)

lemma same_more_fds: "same_fds opn loaded k k' \<Longrightarrow> more_fds opn loaded k k'"
  by (simp add: same_fds_def more_fds_def)

lemma fd_call_more: "fd_call opn loaded k r k' \<Longrightarrow> more_fds opn loaded k k'"
  by (auto simp: fd_call_def more_fds_def same_fds_def split: if_splits)

lemma prog_call_more: "prog_call opn loaded insns k r k' \<Longrightarrow> more_fds opn loaded k k'"
  by (auto simp: prog_call_def more_fds_def same_fds_def split: if_splits)

lemma fd_call_inv:
  assumes "fd_call opn loaded k r k'" "fd_inv base own (opn k)"
  shows "fd_inv base (own_fd r \<union> own) (opn k')"
  using assms fd_inv_new [of base own "opn k" r] by (auto simp: fd_call_def same_fds_def own_fd_def split: if_splits)

lemma prog_call_inv:
  assumes "prog_call opn loaded insns k r k'" "fd_inv base own (opn k)"
  shows "fd_inv base (own_fd r \<union> own) (opn k')"
  using assms fd_inv_new [of base own "opn k" r] by (auto simp: prog_call_def same_fds_def own_fd_def split: if_splits)

text \<open>The ways a round can go for a map that has no path to be pinned at.\<close>

lemma set_create_attr_error: "set_create_attr cpus obj m attr n = (Inl err, n') \<Longrightarrow> err < 0"
  by (auto simp: set_create_attr_def Let_def split: if_splits)

lemma create_one_map_cases:
  assumes "create_one_map kn obj m attr n p = Some (res, m', attr', n', p')" "pm_pin_path (lm_map m) = None"
  obtains (preset) "bm_fd (lm_map m) \<ge> 0" "(res, m', p') = (Map_next, m, p)"
    | (cpus) err where "bm_fd (lm_map m) < 0" "err < 0" "(res, m', p') = (Map_err_out err, m, p)"
    | (create) a m1 a1 m2 a2 p2 where "bm_fd (lm_map m) < 0" "set_btf_attr obj m a = Some (m1, a1)" "create_map_fd kn m1 a1 p = (m2, a2, p2)"
        "if bm_fd (lm_map m2) < 0 then (res, m', p') = (Map_err_out (- p_errno p2), m2, p2) else finish_map kn obj m2 p2 = (res, m', p')"
  using assms
  by (auto simp: create_one_map_def Let_def split: if_splits prod.splits sum.splits Option.bind_splits dest: set_create_attr_error)

lemma create_one_map_inv:
  assumes kn: "kernel_fds kn opn loaded" and c: "create_one_map kn obj m attr n p = Some (res, m', attr', n', p')"
    and pin: "pm_pin_path (lm_map m) = None" and inv: "fd_inv base (map_fds m \<union> own) (opn (p_kern p))"
  shows "fd_inv base (map_fds m' \<union> own) (opn (p_kern p'))"
    "res = Map_next \<Longrightarrow> more_fds opn loaded (p_kern p) (p_kern p') \<and> 0 \<le> bm_fd (lm_map m') \<and> (map_fds m \<subseteq> opn (p_kern p) \<longrightarrow> map_fds m' \<subseteq> opn (p_kern p'))"
proof -
  from c pin
  have "fd_inv base (map_fds m' \<union> own) (opn (p_kern p')) \<and>
    (res = Map_next \<longrightarrow> more_fds opn loaded (p_kern p) (p_kern p') \<and> 0 \<le> bm_fd (lm_map m') \<and> (map_fds m \<subseteq> opn (p_kern p) \<longrightarrow> map_fds m' \<subseteq> opn (p_kern p')))"
  proof (cases rule: create_one_map_cases)
    case (create a m1 a1 m2 a2 p2)
    note cr = create_map_fd_call [OF kn create(3)]
    have pin2: "pm_pin_path (lm_map m2) = None" using set_btf_attr_keeps [OF create(2)] cr pin by simp
    have own: "map_fds m = {}" using create(1) by (simp add: map_fds_def own_fd_def)
    have inv2: "fd_inv base (map_fds m2 \<union> own) (opn (p_kern p2))"
      using fd_call_inv [OF conjunct1 [OF cr], of base own] inv own by (simp add: map_fds_def)
    show ?thesis
    proof (cases "bm_fd (lm_map m2) < 0")
      case True
      then show ?thesis using create(4) inv2 by simp
    next
      case False
      then have f: "finish_map kn obj m2 p2 = (res, m', p')" using create(4) by simp
      have "map_fds m2 \<subseteq> opn (p_kern p2)" using cr False by (auto simp: fd_call_def map_fds_def own_fd_def)
      then show ?thesis
        using finish_map_inv [OF kn f pin2 inv2] False fd_call_more [OF conjunct1 [OF cr]] by (auto simp: same_fds_def more_fds_def)
    qed
  qed (use inv in simp_all)
  then show "fd_inv base (map_fds m' \<union> own) (opn (p_kern p'))"
    "res = Map_next \<Longrightarrow> more_fds opn loaded (p_kern p) (p_kern p') \<and> 0 \<le> bm_fd (lm_map m') \<and> (map_fds m \<subseteq> opn (p_kern p) \<longrightarrow> map_fds m' \<subseteq> opn (p_kern p'))"
    by auto
qed

lemma create_map_fd_errno:
  "create_map_fd kn m attr p = (m', attr', p') \<Longrightarrow> bm_fd (lm_map m') < 0 \<Longrightarrow> p_errno p' > 0"
  by (auto simp: create_map_fd_def bpf_create_map_xattr_def sys_ret_def Let_def split: prod.splits if_splits)

lemma create_one_map_errors:
  assumes "create_one_map kn obj m attr n p = Some (res, m', attr', n', p')" "pm_pin_path (lm_map m) = None" "kernel_fds kn opn loaded"
  shows "res \<noteq> Map_return err" "res \<noteq> Map_err_out 0"
proof -
  have "res = Map_next \<or> (\<exists>e<0. res = Map_err_out e)"
    using assms(1,2)
  proof (cases rule: create_one_map_cases)
    case (create a m1 a1 m2 a2 p2)
    then have "pm_pin_path (lm_map m2) = None"
      using set_btf_attr_keeps [OF create(2)] create_map_fd_call [OF assms(3) create(3)] assms(2) by simp
    then show ?thesis using create(4) create_map_fd_errno [OF create(3)] by (auto simp: finish_map_def Let_def split: if_splits prod.splits)
  qed auto
  then show "res \<noteq> Map_return err" "res \<noteq> Map_err_out 0" by auto
qed

lemma create_maps_loop_inv:
  assumes kn: "kernel_fds kn opn loaded" and "create_maps_loop kn obj prev ms attr n p = Some (err, maps, p')"
    and "\<forall>m\<in>set ms. pm_pin_path (lm_map m) = None" "fd_inv base (\<Union> (map_fds ` set (prev @ ms)) \<union> own) (opn (p_kern p))"
  shows "fd_inv base (\<Union> (map_fds ` set maps) \<union> own) (opn (p_kern p')) \<and>
    (err = 0 \<longrightarrow> more_fds opn loaded (p_kern p) (p_kern p') \<and> length maps = length prev + length ms
      \<and> ((\<forall>m\<in>set prev. 0 \<le> bm_fd (lm_map m)) \<longrightarrow> (\<forall>m\<in>set maps. 0 \<le> bm_fd (lm_map m)))
      \<and> (\<Union> (map_fds ` set (prev @ ms)) \<subseteq> opn (p_kern p) \<longrightarrow> \<Union> (map_fds ` set maps) \<subseteq> opn (p_kern p')))"
  using assms(2-)
proof (induction ms arbitrary: prev attr n p)
  case Nil
  then show ?case by auto
next
  case (Cons m ms)
  obtain res m1 attr1 n1 p1 where c: "create_one_map kn obj m attr n p = Some (res, m1, attr1, n1, p1)"
    using Cons.prems(1) by (auto split: Option.bind_splits)
  have pin: "pm_pin_path (lm_map m) = None" using Cons.prems(2) by simp
  have "fd_inv base (map_fds m \<union> (\<Union> (map_fds ` set prev) \<union> \<Union> (map_fds ` set ms) \<union> own)) (opn (p_kern p))"
    using Cons.prems(3) by (simp add: Un_ac)
  note one = create_one_map_inv [OF kn c pin this]
  show ?case
  proof (cases res)
    case Map_next
    then have loop: "create_maps_loop kn obj (prev @ [m1]) ms attr1 n1 p1 = Some (err, maps, p')" using Cons.prems(1) c by simp
    have "fd_inv base (\<Union> (map_fds ` set ((prev @ [m1]) @ ms)) \<union> own) (opn (p_kern p1))" using one(1) by (simp add: Un_ac)
    from Cons.IH [OF loop _ this] Cons.prems(2) one(2) [OF Map_next] show ?thesis
      by (auto simp: more_fds_def)
  next
    case (Map_return e)
    then show ?thesis using create_one_map_errors [OF c pin kn] by simp
  next
    case (Map_err_out e)
    obtain prev' p2 where cl: "close_maps kn prev p1 = (prev', p2)" by fastforce
    have "fd_inv base (\<Union> (map_fds ` set prev) \<union> (map_fds m1 \<union> \<Union> (map_fds ` set ms) \<union> own)) (opn (p_kern p1))"
      using one(1) by (simp add: Un_ac)
    from close_maps_inv [OF kn this cl] Cons.prems(1) c cl Map_err_out create_one_map_errors(2) [OF c pin kn] show ?thesis
      by (auto simp: Un_ac)
  qed
qed

text \<open>The paths stay empty.\<close>

definition no_pin :: "load_map list \<Rightarrow> bool" where
  "no_pin ms \<longleftrightarrow> (\<forall>m\<in>set ms. pm_pin_path (lm_map m) = None)"

lemma create_one_map_no_pin:
  assumes "create_one_map kn obj m attr n p = Some (res, m', attr', n', p')" "pm_pin_path (lm_map m) = None" "kernel_fds kn opn loaded"
  shows "pm_pin_path (lm_map m') = None"
  using assms(1,2)
proof (cases rule: create_one_map_cases)
  case (create a m1 a1 m2 a2 p2)
  then have "pm_pin_path (lm_map m2) = None"
    using set_btf_attr_keeps [OF create(2)] create_map_fd_call [OF assms(3) create(3)] assms(2) by simp
  then show ?thesis using create(4) by (auto simp: finish_map_def Let_def split: if_splits prod.splits)
qed (use assms(2) in auto)

lemma close_maps_no_pin: "no_pin (fst (close_maps kn ms p)) \<longleftrightarrow> no_pin ms"
  by (induction ms arbitrary: p) (auto simp: no_pin_def Let_def split_beta)

lemma create_maps_loop_no_pin:
  assumes "create_maps_loop kn obj prev ms attr n p = Some (err, maps, p')" "no_pin prev" "no_pin ms" "kernel_fds kn opn loaded"
  shows "no_pin maps"
  using assms(1-3)
proof (induction ms arbitrary: prev attr n p)
  case (Cons m ms)
  obtain res m1 attr1 n1 p1 where c: "create_one_map kn obj m attr n p = Some (res, m1, attr1, n1, p1)"
    using Cons.prems(1) by (auto split: Option.bind_splits)
  have m1: "pm_pin_path (lm_map m1) = None" using create_one_map_no_pin [OF c _ assms(4)] Cons.prems(3) by (simp add: no_pin_def)
  have cl: "no_pin (fst (close_maps kn prev p1))" using close_maps_no_pin Cons.prems(2) by blast
  show ?case
    using Cons.IH [of "prev @ [m1]" attr1 n1 p1] Cons.prems c m1 cl
    by (auto simp: no_pin_def split_beta split: map_outcome.splits)
qed (simp add: no_pin_def)

lemma unpin_auto_pinned_nothing: "no_pin ms \<Longrightarrow> unpin_auto_pinned kn ms p = (ms, p)"
proof (induction ms arbitrary: p)
  case (Cons m ms)
  have "bpf_map__unpin (ok_fs kn) (Some (lm_map m)) None (p_kern p) = (- EINVAL, Some (lm_map m), p_kern p)"
    using Cons.prems by (simp add: bpf_map__unpin_def no_pin_def)
  then show ?case using Cons by (simp add: no_pin_def Let_def)
qed simp

section \<open>Loading a program\<close>

text \<open>What an attempt leaves behind: the new descriptor, or nothing.\<close>

definition load_result ::
    "('k \<Rightarrow> int set) \<Rightarrow> ('k \<Rightarrow> int \<rightharpoonup> bpf_insn list) \<Rightarrow> bpf_insn list \<Rightarrow> 'k \<Rightarrow> int option \<Rightarrow> 'k \<Rightarrow> bool" where
  "load_result opn loaded insns k fd k' \<longleftrightarrow> (case fd of
     Some fd \<Rightarrow> 0 \<le> fd \<and> prog_call opn loaded insns k fd k'
   | None \<Rightarrow> opn k' = opn k \<and> more_fds opn loaded k k')"

lemma load_failure_fds:
  assumes kn: "kernel_fds kn opn loaded" and "load_failure kn la has_buf log p = Some (err, p')"
  shows "opn (p_kern p') = opn (p_kern p) \<and> more_fds opn loaded (p_kern p) (p_kern p')"
  using assms(2) close_fd_law [OF kn]
  by (auto simp: load_failure_def Let_def more_fds_def prog_call_def same_fds_def
      dest!: bpf_load_program_xattr_call [OF _ kernel_fds_allocs [OF kn]] split: if_splits Option.bind_splits)

lemma load_result_same: "same_fds opn loaded k k1 \<Longrightarrow> load_result opn loaded insns k1 fd k2 \<longleftrightarrow> load_result opn loaded insns k fd k2"
  by (auto simp: load_result_def same_fds_def more_fds_def prog_call_def split: option.splits)

lemma load_retry_fds:
  assumes "load_retry kn la sz p = Some (err, fd, p')" "kernel_fds kn opn loaded"
  shows "load_result opn loaded (lp_insns la) (p_kern p) fd (p_kern p') \<and> (fd \<noteq> None \<longrightarrow> err = 0)"
  using assms
proof (induction kn la sz p rule: load_retry.induct)
  case (1 kn la sz p)
  let ?p0 = "if ok_malloc kn sz then p else p\<lparr>p_errno := ENOMEM\<rparr>"
  obtain ret log p1 where x: "bpf_load_program_xattr kn (ok_malloc kn) la (ok_malloc kn sz) None sz ?p0 = Some (ret, log, p1)"
    using "1.prems"(1) by (auto simp: load_retry.simps [of kn la sz] Let_def split: option.splits)
  have call: "prog_call opn loaded (lp_insns la) (p_kern p) ret (p_kern p1)"
    using bpf_load_program_xattr_call [OF x kernel_fds_allocs [OF "1.prems"(2)]] by (cases "ok_malloc kn sz") simp_all
  show ?case
  proof (cases "ret \<ge> 0")
    case True
    then show ?thesis using "1.prems"(1) x call by (auto simp: load_retry.simps [of kn la sz] Let_def load_result_def)
  next
    case False
    then have same: "same_fds opn loaded (p_kern p) (p_kern p1)" using call by (simp add: prog_call_fail)
    show ?thesis
    proof (cases "p_errno p1 = ENOSPC")
      case True
      then have "load_retry kn la (2 * sz) p1 = Some (err, fd, p')" "\<not> (2 * sz > INT_MAX \<or> sz = 0)"
        using "1.prems"(1) x False by (auto simp: load_retry.simps [of kn la sz] Let_def split: if_splits)
      then have "load_result opn loaded (lp_insns la) (p_kern p1) fd (p_kern p') \<and> (fd \<noteq> None \<longrightarrow> err = 0)"
        using "1.IH" [OF refl refl x refl refl False True] "1.prems"(2) by blast
      then show ?thesis using load_result_same [OF same] by blast
    next
      case no: False
      then obtain e where f: "load_failure kn la (ok_malloc kn sz) log p1 = Some (e, p')" and none: "fd = None"
        using "1.prems"(1) x False by (auto simp: load_retry.simps [of kn la sz] Let_def split: option.splits)
      have "load_result opn loaded (lp_insns la) (p_kern p1) fd (p_kern p') \<and> (fd \<noteq> None \<longrightarrow> err = 0)"
        using load_failure_fds [OF "1.prems"(2) f] none by (simp add: load_result_def)
      then show ?thesis using load_result_same [OF same] by blast
    qed
  qed
qed

lemma load_program_fds:
  assumes "load_program kn obj prog insns p = Some (err, fd, p')" "kernel_fds kn opn loaded"
  shows "load_result opn loaded insns (p_kern p) fd (p_kern p') \<and> (fd \<noteq> None \<longrightarrow> err = 0)"
proof (cases "insns = []")
  case True
  then show ?thesis using assms(1) by (auto simp: load_program_def load_result_def)
next
  case False
  then have "load_retry kn (set_load_attr obj prog insns) BPF_LOG_BUF_SIZE p = Some (err, fd, p')"
    using assms(1) by (simp add: load_program_def)
  from load_retry_fds [OF this assms(2)] show ?thesis by (simp add: set_load_attr_def Let_def)
qed

lemma load_result_inv:
  assumes "load_result opn loaded insns k fd k'" "fd_inv base own (opn k)"
  shows "more_fds opn loaded k k'" "fd_inv base (own_fd (case fd of None \<Rightarrow> -1 | Some fd \<Rightarrow> fd) \<union> own) (opn k')"
    "fd = Some x \<Longrightarrow> 0 \<le> x \<and> x \<in> opn k' \<and> loaded k' x = Some insns"
proof (goal_cases)
  case 1
  then show ?case using assms(1) prog_call_more [of opn loaded insns k _ k'] by (auto simp: load_result_def split: option.splits)
next
  case 2
  then show ?case using assms prog_call_inv [of opn loaded insns k _ k' base own]
    by (auto simp: load_result_def own_fd_def [of "-1"] split: option.splits)
next
  case 3
  then show ?case using assms(1) by (auto simp: load_result_def prog_call_def)
qed

abbreviation list_fds :: "int list \<Rightarrow> int set" where
  "list_fds fds \<equiv> \<Union> (own_fd ` set fds)"

lemma list_fds_neg: "\<forall>fd\<in>set fds. fd < 0 \<Longrightarrow> list_fds fds = {}"
  by (induction fds) (simp_all add: own_fd_def)

lemma list_fds_update:
  assumes "i < length fds" "fds ! i < 0"
  shows "list_fds (fds[i := fd]) = own_fd fd \<union> list_fds fds"
proof -
  have "set fds = insert (fds ! i) (set (take i fds) \<union> set (drop (Suc i) fds))"
    using id_take_nth_drop [OF assms(1)] by (metis Un_insert_right list.simps(15) set_append)
  moreover have "set (fds[i := fd]) = insert fd (set (take i fds) \<union> set (drop (Suc i) fds))"
    using assms(1) by (simp add: upd_conv_take_nth_drop)
  ultimately show ?thesis using assms(2) by (auto simp: own_fd_def)
qed

lemma load_instances_inv:
  assumes kn: "kernel_fds kn opn loaded" and "load_instances kn obj prog pre n i fds p = Some (err, fds', p')"
    and "\<forall>j<length fds. i \<le> j \<longrightarrow> fds ! j < 0" "fd_inv base (list_fds fds \<union> own) (opn (p_kern p))"
  shows "fd_inv base (list_fds fds' \<union> own) (opn (p_kern p')) \<and> more_fds opn loaded (p_kern p) (p_kern p') \<and> length fds' = length fds"
  using assms(2-)
proof (induction n arbitrary: i fds p)
  case (Suc n)
  obtain e ni pfd where pre: "pre i (rp_insns (ld_prog prog)) = (e, ni, pfd)" by (metis prod_cases3)
  let ?user = "\<lambda>v p. case pfd of None \<Rightarrow> p | Some x \<Rightarrow> p\<lparr>p_user := (p_user p)(x := v)\<rparr>"
  have kern: "p_kern (?user v p) = p_kern p" for v p by (simp split: option.splits)
  have step: ?case if r: "load_instances kn obj prog pre n (Suc i) (fds[i := fd]) (?user fd p1) = Some (err, fds', p')" "i < length fds"
    and inv: "fd_inv base (own_fd fd \<union> (list_fds fds \<union> own)) (opn (p_kern p1))" "more_fds opn loaded (p_kern p) (p_kern p1)" for fd p1
  proof -
    have neg: "fds ! i < 0" using Suc.prems(2) r(2) by simp
    have "fd_inv base (list_fds (fds[i := fd]) \<union> own) (opn (p_kern (?user fd p1)))"
      using inv(1) by (simp add: list_fds_update [OF r(2) neg] kern Un_assoc)
    moreover have "\<forall>j<length (fds[i := fd]). Suc i \<le> j \<longrightarrow> fds[i := fd] ! j < 0" using Suc.prems(2) by auto
    ultimately show ?case using Suc.IH [OF r(1)] inv(2) more_fds_trans by (fastforce simp: kern)
  qed
  consider (err) "e \<noteq> 0" "(err, fds', p') = (e, fds, p)"
    | (skip) "i < length fds" "load_instances kn obj prog pre n (Suc i) (fds[i := -1]) (?user (-1) p) = Some (err, fds', p')"
    | (load) new e1 fd p1 where "load_program kn obj prog new p = Some (e1, fd, p1)"
        "if e1 \<noteq> 0 then (err, fds', p') = (e1, fds, p1)
         else \<exists>x. fd = Some x \<and> i < length fds \<and> load_instances kn obj prog pre n (Suc i) (fds[i := x]) (?user x p1) = Some (err, fds', p')"
    using Suc.prems(1) pre by (auto simp: arr_set_def Let_def split: if_splits Option.bind_splits)
  then show ?case
  proof cases
    case err
    then show ?thesis using Suc.prems(3) by simp
  next
    case skip
    have "own_fd (-1) = {}" by (simp add: own_fd_def)
    then show ?thesis using step [OF skip(2,1)] Suc.prems(3) by simp
  next
    case (load new e1 fd p1)
    note lp = load_program_fds [OF load(1) kn]
    note res = load_result_inv [OF conjunct1 [OF lp] Suc.prems(3)]
    show ?thesis
    proof (cases "e1 = 0")
      case True
      then obtain x where x: "fd = Some x" "i < length fds" "load_instances kn obj prog pre n (Suc i) (fds[i := x]) (?user x p1) = Some (err, fds', p')"
        using load(2) by auto
      show ?thesis using step [OF x(3,2)] res(1,2) x(1) by simp
    next
      case False
      then have "fd = None" "(err, fds', p') = (e1, fds, p1)" using lp load(2) by auto
      then show ?thesis using res(1,2) by (simp add: own_fd_def)
    qed
  qed
qed simp

text \<open>A program whose array of descriptors fits their number, and one that has not been loaded yet.\<close>

definition prog_ok :: "load_prog \<Rightarrow> bool" where
  "prog_ok prog \<longleftrightarrow> (case ld_fds prog of None \<Rightarrow> ld_nr prog \<le> 0 | Some fds \<Rightarrow> 0 < ld_nr prog \<and> length fds = nat (ld_nr prog))"

definition prog_unloaded :: "load_prog \<Rightarrow> bool" where
  "prog_unloaded prog \<longleftrightarrow> prog_ok prog \<and> (\<forall>fds. ld_fds prog = Some fds \<longrightarrow> (\<forall>fd\<in>set fds. fd < 0))"

text \<open>The kernel runs the instructions behind the first descriptor of the program.\<close>

definition runs :: "('k \<Rightarrow> int set) \<Rightarrow> ('k \<Rightarrow> int \<rightharpoonup> bpf_insn list) \<Rightarrow> bpf_insn list \<Rightarrow> load_prog \<Rightarrow> 'k \<Rightarrow> bool" where
  "runs opn loaded insns prog k \<longleftrightarrow> (\<exists>fd fds. ld_fds prog = Some (fd # fds) \<and> 0 \<le> fd \<and> fd \<in> opn k \<and> loaded k fd = Some insns)"

lemma runs_more: "runs opn loaded insns prog k \<Longrightarrow> more_fds opn loaded k k' \<Longrightarrow> runs opn loaded insns prog k'"
  by (auto simp: runs_def more_fds_def)

lemma load_single_inv:
  assumes kn: "kernel_fds kn opn loaded" and s: "load_single kn obj prog fds p = Some (err, fds', p')"
    and neg: "\<forall>fd\<in>set fds. fd < 0" and inv: "fd_inv base (list_fds fds \<union> own) (opn (p_kern p))"
  shows "fd_inv base (list_fds fds' \<union> own) (opn (p_kern p'))" "more_fds opn loaded (p_kern p) (p_kern p')" "length fds' = length fds"
    "err = 0 \<Longrightarrow> \<exists>fd fds1. fds' = fd # fds1 \<and> 0 \<le> fd \<and> fd \<in> opn (p_kern p') \<and> loaded (p_kern p') fd = Some (rp_insns (ld_prog prog))"
proof -
  obtain e fd p1 where l: "load_program kn obj prog (rp_insns (ld_prog prog)) p = Some (e, fd, p1)"
    and r: "if e \<noteq> 0 then (err, fds', p') = (e, fds, p1) else \<exists>x. fd = Some x \<and> fds \<noteq> [] \<and> (err, fds', p') = (0, fds[0 := x], p1)"
    using s by (auto simp: load_single_def arr_set_def split: if_splits Option.bind_splits)
  note lp = load_program_fds [OF l kn]
  note res = load_result_inv [OF conjunct1 [OF lp] inv]
  have "fd_inv base (list_fds fds' \<union> own) (opn (p_kern p')) \<and> more_fds opn loaded (p_kern p) (p_kern p') \<and> length fds' = length fds
    \<and> (err = 0 \<longrightarrow> (\<exists>fd fds1. fds' = fd # fds1 \<and> 0 \<le> fd \<and> fd \<in> opn (p_kern p') \<and> loaded (p_kern p') fd = Some (rp_insns (ld_prog prog))))"
  proof (cases "e = 0")
    case True
    then obtain x where x: "fd = Some x" "fds \<noteq> []" "(err, fds', p') = (0, fds[0 := x], p1)" using r by auto
    have "list_fds (fds[0 := x]) = own_fd x \<union> list_fds fds" using x(2) neg by (intro list_fds_update) auto
    then show ?thesis using x res(1,2) res(3) [OF x(1)] by (cases fds) (auto simp: Un_assoc)
  next
    case False
    then have "fd = None" "(err, fds', p') = (e, fds, p1)" using lp r by auto
    then show ?thesis using res(1,2) False by (simp add: own_fd_def [of "-1"])
  qed
  then show "fd_inv base (list_fds fds' \<union> own) (opn (p_kern p'))" "more_fds opn loaded (p_kern p) (p_kern p')" "length fds' = length fds"
    "err = 0 \<Longrightarrow> \<exists>fd fds1. fds' = fd # fds1 \<and> 0 \<le> fd \<and> fd \<in> opn (p_kern p') \<and> loaded (p_kern p') fd = Some (rp_insns (ld_prog prog))"
    by auto
qed

lemma load_prepared_inv:
  assumes kn: "kernel_fds kn opn loaded" and l: "load_prepared kn obj prog p = Some (err, prog', p')"
    and un: "prog_unloaded prog" "ld_fds prog \<noteq> None" and inv: "fd_inv base own (opn (p_kern p))"
  shows "fd_inv base (prog_fds prog' \<union> own) (opn (p_kern p'))" "more_fds opn loaded (p_kern p) (p_kern p')" "prog_ok prog'"
    "err = 0 \<Longrightarrow> ld_prep prog = None \<Longrightarrow> runs opn loaded (rp_insns (ld_prog prog)) prog' (p_kern p')"
proof -
  obtain fds where fds: "ld_fds prog = Some fds" using un(2) by auto
  obtain fds' where s: "(case ld_prep prog of None \<Rightarrow> load_single kn obj prog fds p
      | Some pre \<Rightarrow> load_instances kn obj prog pre (nat (ld_nr prog)) 0 fds p) = Some (err, fds', p')"
    and prog': "prog' = drop_insns (prog\<lparr>ld_fds := Some fds'\<rparr>)"
    using l fds by (auto simp: load_prepared_def split: Option.bind_splits)
  have neg: "\<forall>fd\<in>set fds. fd < 0" using un(1) fds by (simp add: prog_unloaded_def)
  have inv': "fd_inv base (list_fds fds \<union> own) (opn (p_kern p))" using inv list_fds_neg [OF neg] by simp
  have "fd_inv base (list_fds fds' \<union> own) (opn (p_kern p')) \<and> more_fds opn loaded (p_kern p) (p_kern p') \<and> length fds' = length fds"
    using load_single_inv(1-3) [OF kn _ neg inv'] load_instances_inv [OF kn _ _ inv'] s neg by (fastforce split: option.splits)
  moreover have "prog_fds prog' = list_fds fds'" by (simp add: prog' prog_fds_def drop_insns_def)
  moreover have "prog_ok prog'" if "length fds' = length fds"
    using that un(1) fds by (simp add: prog' prog_ok_def prog_unloaded_def drop_insns_def)
  ultimately show "fd_inv base (prog_fds prog' \<union> own) (opn (p_kern p'))" "more_fds opn loaded (p_kern p) (p_kern p')" "prog_ok prog'"
    by auto
  show "runs opn loaded (rp_insns (ld_prog prog)) prog' (p_kern p')" if "err = 0" "ld_prep prog = None"
    using load_single_inv(4) [OF kn _ neg inv', of obj prog err fds' p'] s that by (auto simp: runs_def prog' drop_insns_def)
qed

lemma bpf_program__load_inv:
  assumes kn: "kernel_fds kn opn loaded" and l: "bpf_program__load kn obj prog p = Some (err, prog', p')"
    and un: "prog_unloaded prog" and inv: "fd_inv base own (opn (p_kern p))"
  shows "fd_inv base (prog_fds prog' \<union> own) (opn (p_kern p')) \<and> more_fds opn loaded (p_kern p) (p_kern p') \<and> prog_ok prog' \<and>
    (err = 0 \<longrightarrow> ld_prep prog = None \<longrightarrow> runs opn loaded (rp_insns (ld_prog prog)) prog' (p_kern p'))"
proof (cases "ld_nr prog < 0 \<or> ld_fds prog = None")
  case fresh: True
  have none: "ld_fds prog = None" using fresh un by (auto simp: prog_unloaded_def prog_ok_def split: option.splits)
  let ?prog = "prog\<lparr>ld_nr := 1, ld_fds := Some [-1]\<rparr>"
  show ?thesis
  proof (cases "ld_prep prog = None \<and> ok_malloc kn 4")
    case True
    then have l': "load_prepared kn obj ?prog p = Some (err, prog', p')" using l fresh by (simp add: bpf_program__load_def split: if_splits)
    have "prog_unloaded ?prog" by (simp add: prog_unloaded_def prog_ok_def)
    from load_prepared_inv [OF kn l' this _ inv] show ?thesis by simp
  next
    case False
    then have "err \<noteq> 0" "prog' = prog \<or> prog' = prog\<lparr>ld_fds := None\<rparr>" "p_kern p' = p_kern p"
      using l fresh by (auto simp: bpf_program__load_def errno_defs libbpf_errno_defs split: if_splits)
    moreover have "prog_fds prog' = {}" "prog_ok prog'"
      using calculation(2) none un by (auto simp: prog_fds_def prog_unloaded_def prog_ok_def)
    ultimately show ?thesis using inv by simp
  qed
next
  case False
  then have "load_prepared kn obj prog p = Some (err, prog', p')" using l by (auto simp: bpf_program__load_def)
  from load_prepared_inv [OF kn this un _ inv] False show ?thesis by simp
qed

lemma load_progs_loop_inv:
  assumes kn: "kernel_fds kn opn loaded" and "load_progs_loop kn obj lvl progs p = Some (err, progs', p')"
    and "\<forall>prog\<in>set progs. prog_unloaded prog" "fd_inv base own (opn (p_kern p))"
  shows "fd_inv base (\<Union> (prog_fds ` set progs') \<union> own) (opn (p_kern p')) \<and> more_fds opn loaded (p_kern p) (p_kern p')
    \<and> (\<forall>prog\<in>set progs'. prog_ok prog) \<and> length progs' = length progs
    \<and> (err = 0 \<longrightarrow> (\<forall>i<length progs. \<not> bpf_program__is_function_storage (progs ! i) obj \<longrightarrow> ld_prep (progs ! i) = None \<longrightarrow>
        runs opn loaded (rp_insns (ld_prog (progs ! i))) (progs' ! i) (p_kern p')))"
  using assms(2-)
proof (induction progs arbitrary: progs' p own)
  case (Cons prog progs)
  have un: "prog_unloaded prog" "\<forall>prog\<in>set progs. prog_unloaded prog" using Cons.prems(2) by simp_all
  have keep: "prog_fds prog = {} \<and> prog_ok prog" if "prog_unloaded prog" for prog
    using that list_fds_neg by (auto simp: prog_unloaded_def prog_fds_def split: option.splits)
  show ?case
  proof (cases "bpf_program__is_function_storage prog obj")
    case True
    then obtain progs1 where l: "load_progs_loop kn obj lvl progs p = Some (err, progs1, p')" "progs' = prog # progs1"
      using Cons.prems(1) by (auto split: Option.bind_splits)
    from Cons.IH [OF l(1) un(2) Cons.prems(3)] keep [OF un(1)] True l(2) show ?thesis by (auto simp: less_Suc_eq_0_disj)
  next
    case False
    let ?prog = "prog\<lparr>ld_log_level := ld_log_level prog OR lvl\<rparr>"
    have unl: "prog_unloaded ?prog" using un(1) by (simp add: prog_unloaded_def prog_ok_def split: option.splits)
    obtain e q p1 where l: "bpf_program__load kn obj ?prog p = Some (e, q, p1)" using Cons.prems(1) False by (auto split: Option.bind_splits)
    note one = bpf_program__load_inv [OF kn l unl Cons.prems(3)]
    show ?thesis
    proof (cases "e = 0")
      case True
      then obtain progs1 where r: "load_progs_loop kn obj lvl progs p1 = Some (err, progs1, p')" "progs' = q # progs1"
        using Cons.prems(1) False l by (auto split: Option.bind_splits)
      note ih = Cons.IH [OF r(1) un(2) conjunct1 [OF one]]
      have "more_fds opn loaded (p_kern p) (p_kern p')"
        by (rule more_fds_trans [OF conjunct1 [OF conjunct2 [OF one]] conjunct1 [OF conjunct2 [OF ih]]])
      moreover have "ld_prep prog = None \<Longrightarrow> runs opn loaded (rp_insns (ld_prog prog)) q (p_kern p')"
        using one True runs_more [OF _ conjunct1 [OF conjunct2 [OF ih]]] by simp
      ultimately show ?thesis using ih one r(2) by (auto simp: less_Suc_eq_0_disj Un_ac)
    next
      case err: False
      then have r: "err = e" "progs' = q # progs" "p' = p1" using Cons.prems(1) False l by auto
      have "\<Union> (prog_fds ` set progs) = {}" "\<forall>prog\<in>set progs. prog_ok prog" using un(2) keep by auto
      then show ?thesis using one r err by simp
    qed
  qed
qed simp

section \<open>Loading an object\<close>

lemma unload_progs_inv:
  assumes kn: "kernel_fds kn opn loaded" and "\<forall>prog\<in>set progs. prog_ok prog" "fd_inv base (\<Union> (prog_fds ` set progs) \<union> own) (opn (p_kern p))"
  shows "\<exists>progs' p'. unload_progs kn progs p = Some (progs', p') \<and> fd_inv base own (opn (p_kern p')) \<and> \<Union> (prog_fds ` set progs') = {}"
  using assms(2,3)
proof (induction progs arbitrary: p)
  case (Cons prog progs)
  have "\<exists>q p1. bpf_program__unload kn prog p = Some (q, p1) \<and> prog_fds q = {} \<and> fd_inv base (\<Union> (prog_fds ` set progs) \<union> own) (opn (p_kern p1))"
  proof (cases "ld_fds prog")
    case None
    then show ?thesis using Cons.prems by (simp add: bpf_program__unload_def prog_ok_def prog_fds_def)
  next
    case (Some fds)
    then have "length fds = nat (ld_nr prog)" "ld_nr prog > 0" using Cons.prems(1) by (simp_all add: prog_ok_def)
    then show ?thesis
      using Some Cons.prems(2) close_fds_inv [OF kn, of base fds "\<Union> (prog_fds ` set progs) \<union> own" p]
      by (simp add: bpf_program__unload_def prog_fds_def Un_assoc)
  qed
  then obtain q p1 where q: "bpf_program__unload kn prog p = Some (q, p1)" "prog_fds q = {}"
    and inv: "fd_inv base (\<Union> (prog_fds ` set progs) \<union> own) (opn (p_kern p1))" by blast
  from Cons.IH [OF _ inv] Cons.prems(1) q show ?case by auto
qed simp

lemma bpf_object__unload_inv:
  assumes kn: "kernel_fds kn opn loaded" and "\<forall>prog\<in>set (lo_programs obj). prog_ok prog" "fd_inv base (obj_fds obj) (opn (p_kern p))"
  shows "\<exists>obj' p'. bpf_object__unload kn obj p = Some (0, obj', p') \<and> opn (p_kern p') = base \<and> obj_fds obj' = {}"
proof -
  obtain maps p1 where c: "close_maps kn (lo_maps obj) p = (maps, p1)" by fastforce
  note m = close_maps_inv [OF kn assms(3) [unfolded obj_fds_def] c]
  have "fd_inv base (\<Union> (prog_fds ` set (lo_programs obj)) \<union> {}) (opn (p_kern p1))" using m by simp
  from unload_progs_inv [OF kn assms(2) this] m c show ?thesis
    by (auto simp: bpf_object__unload_def fd_inv_none obj_fds_def)
qed

lemma relocate_progs_length: "relocate_progs ok ro n i = Some (err, ro') \<Longrightarrow> length (ro_programs ro') = length (ro_programs ro)"
  by (induction n arbitrary: ro i) (auto simp: arr_set_def Let_def split: Option.bind_splits if_splits)

lemma bpf_object__relocate_length:
  assumes "bpf_object__relocate ok (core_fn core) ro = Some (err, ro')"
  shows "length (ro_programs ro') = length (ro_programs ro)"
  using assms
  by (auto simp: bpf_object__relocate_def dest!: relocate_progs_length relocate_core_length split: if_splits Option.bind_splits)

lemma relocate_object_keeps:
  assumes "relocate_object ok core obj = Some (err, obj')"
  shows "\<exists>ro ro'. reloc_part obj = Some ro \<and> bpf_object__relocate ok (core_fn core) ro = Some (err, ro') \<and> length (ro_programs ro') = length (lo_programs obj)
    \<and> obj' = obj\<lparr>lo_programs := map2 (\<lambda>prog rp. prog\<lparr>ld_prog := rp\<rparr>) (lo_programs obj) (ro_programs ro')\<rparr>"
proof -
  obtain ro ro' where ro: "reloc_part obj = Some ro" "bpf_object__relocate ok (core_fn core) ro = Some (err, ro')"
    "obj' = obj\<lparr>lo_programs := map2 (\<lambda>prog rp. prog\<lparr>ld_prog := rp\<rparr>) (lo_programs obj) (ro_programs ro')\<rparr>"
    using assms by (auto simp: relocate_object_def split: Option.bind_splits)
  have "length (ro_programs ro') = length (ro_programs ro)"
    by (rule bpf_object__relocate_length [OF ro(2)])
  moreover have "length (ro_programs ro) = length (lo_programs obj)" using ro(1) by (auto simp: reloc_part_def split: if_splits)
  ultimately show ?thesis using ro by auto
qed

text \<open>Putting the relocated instructions back does not touch the descriptors.\<close>

lemma map2_prog_fds:
  assumes "length rps = length progs"
  shows "prog_fds ` set (map2 (\<lambda>prog rp. prog\<lparr>ld_prog := rp\<rparr>) progs rps) = prog_fds ` set progs"
    "(\<forall>prog\<in>set (map2 (\<lambda>prog rp. prog\<lparr>ld_prog := rp\<rparr>) progs rps). prog_unloaded prog) \<longleftrightarrow> (\<forall>prog\<in>set progs. prog_unloaded prog)"
  using assms
  by (induction progs rps rule: list_induct2') (simp_all add: prog_fds_def prog_unloaded_def prog_ok_def cong: option.case_cong)

definition loadable :: "load_obj \<Rightarrow> bool" where
  "loadable obj \<longleftrightarrow> \<not> lo_loaded obj \<and> no_pin (lo_maps obj) \<and> (\<forall>prog\<in>set (lo_programs obj). prog_unloaded prog)"

text \<open>Success: the relocation that was done, with the descriptors of the maps, and a kernel that runs its result.\<close>

definition loaded_as ::
    "bool \<Rightarrow> core_env \<times> string option \<Rightarrow> ('k \<Rightarrow> int set) \<Rightarrow> ('k \<Rightarrow> int \<rightharpoonup> bpf_insn list) \<Rightarrow> load_obj \<Rightarrow> load_obj \<Rightarrow> 'k \<Rightarrow> bool" where
  "loaded_as ok core opn loaded obj obj' k \<longleftrightarrow>
     (\<exists>ro ro'. reloc_part (obj\<lparr>lo_maps := lo_maps obj'\<rparr>) = Some ro \<and> bpf_object__relocate ok (core_fn core) ro = Some (0, ro') \<and>
        length (ro_programs ro') = length (lo_programs obj) \<and>
        (\<forall>i<length (lo_programs obj). ld_prep (lo_programs obj ! i) = None \<longrightarrow>
           \<not> (rp_idx (ro_programs ro' ! i) = lo_text_shndx obj \<and> lo_has_pseudo_calls obj) \<longrightarrow>
           runs opn loaded (rp_insns (ro_programs ro' ! i)) (lo_programs obj' ! i) k))"

lemma load_steps_inv:
  assumes kn: "kernel_fds kn opn loaded" and l: "load_steps kn ok core lvl obj p = Some (err, obj', p')"
    and pin: "no_pin (lo_maps obj)" and un: "\<forall>prog\<in>set (lo_programs obj). prog_unloaded prog"
    and inv: "fd_inv base (obj_fds obj) (opn (p_kern p))"
  shows "fd_inv base (obj_fds obj') (opn (p_kern p'))" "\<forall>prog\<in>set (lo_programs obj'). prog_ok prog" "no_pin (lo_maps obj')"
    "err = 0 \<Longrightarrow> (\<forall>m\<in>set (lo_maps obj'). 0 \<le> bm_fd (lm_map m)) \<and> loaded_as ok core opn loaded obj obj' (p_kern p')
      \<and> (obj_fds obj \<subseteq> opn (p_kern p) \<longrightarrow> \<Union> (map_fds ` set (lo_maps obj')) \<subseteq> opn (p_kern p'))"
proof -
  have progs: "\<Union> (prog_fds ` set (lo_programs obj)) = {}"
    using un list_fds_neg by (auto simp: prog_unloaded_def prog_fds_def split: option.splits)
  obtain e1 maps p1 where c: "create_maps_loop kn obj [] (lo_maps obj) zero_map_attr 0 p = Some (e1, maps, p1)"
    using l by (auto simp: load_steps_def bpf_object__create_maps_def split: Option.bind_splits)
  have "fd_inv base (\<Union> (map_fds ` set ([] @ lo_maps obj)) \<union> {}) (opn (p_kern p))" using inv progs by (simp add: obj_fds_def)
  note m = create_maps_loop_inv [OF kn c pin [unfolded no_pin_def] this]
  have pin1: "no_pin maps" by (rule create_maps_loop_no_pin [OF c _ pin kn]) (simp add: no_pin_def)
  let ?obj = "obj\<lparr>lo_maps := maps\<rparr>"
  have inv1: "fd_inv base (\<Union> (map_fds ` set maps)) (opn (p_kern p1))" using m by simp
  have all: "fd_inv base (obj_fds obj') (opn (p_kern p')) \<and> (\<forall>prog\<in>set (lo_programs obj'). prog_ok prog) \<and> no_pin (lo_maps obj') \<and>
    (err = 0 \<longrightarrow> (\<forall>m\<in>set (lo_maps obj'). 0 \<le> bm_fd (lm_map m)) \<and> loaded_as ok core opn loaded obj obj' (p_kern p')
      \<and> (obj_fds obj \<subseteq> opn (p_kern p) \<longrightarrow> \<Union> (map_fds ` set (lo_maps obj')) \<subseteq> opn (p_kern p')))"
  proof (cases "e1 = 0")
    case False
    then have r: "err = e1" "obj' = ?obj" "p' = p1" using l c by (auto simp: load_steps_def bpf_object__create_maps_def)
    then show ?thesis using False inv1 progs pin1 un by (simp add: obj_fds_def prog_unloaded_def)
  next
    case True
    obtain e2 obj2 where r: "relocate_object ok core ?obj = Some (e2, obj2)"
      using l c True by (auto simp: load_steps_def bpf_object__create_maps_def split: Option.bind_splits)
    obtain ro ro' where ro: "reloc_part ?obj = Some ro" "bpf_object__relocate ok (core_fn core) ro = Some (e2, ro')"
      "length (ro_programs ro') = length (lo_programs obj)"
      "obj2 = ?obj\<lparr>lo_programs := map2 (\<lambda>prog rp. prog\<lparr>ld_prog := rp\<rparr>) (lo_programs obj) (ro_programs ro')\<rparr>"
      using relocate_object_keeps [OF r] by auto
    note fds2 = map2_prog_fds [OF ro(3)]
    have un2: "\<forall>prog\<in>set (lo_programs obj2). prog_unloaded prog" using fds2(2) un ro(4) by simp
    have own2: "obj_fds obj2 = \<Union> (map_fds ` set maps)" "lo_maps obj2 = maps" using fds2(1) progs ro(4) by (simp_all add: obj_fds_def)
    show ?thesis
    proof (cases "e2 = 0")
      case False
      then have "err = e2" "obj' = obj2" "p' = p1" using l c True r by (auto simp: load_steps_def bpf_object__create_maps_def)
      then show ?thesis using False inv1 own2 un2 pin1 by (simp add: prog_unloaded_def)
    next
      case e2: True
      obtain progs' where pl: "load_progs_loop kn obj2 lvl (lo_programs obj2) p1 = Some (err, progs', p')" "obj' = obj2\<lparr>lo_programs := progs'\<rparr>"
        using l c True r e2 by (auto simp: load_steps_def bpf_object__create_maps_def bpf_object__load_progs_def split: Option.bind_splits)
      note ld = load_progs_loop_inv [OF kn pl(1) un2 inv1]
      have "loaded_as ok core opn loaded obj obj' (p_kern p')" if "err = 0"
        unfolding loaded_as_def using ro e2 ld that pl(2) by (intro exI [of _ ro] exI [of _ ro']) (auto simp: bpf_program__is_function_storage_def)
      moreover have "\<Union> (map_fds ` set maps) \<subseteq> opn (p_kern p')" if "obj_fds obj \<subseteq> opn (p_kern p)"
        using m that ld True progs by (auto simp: obj_fds_def more_fds_def)
      ultimately show ?thesis using ld pl(2) own2(2) pin1 m True by (auto simp: obj_fds_def Un_ac)
    qed
  qed
  then show "fd_inv base (obj_fds obj') (opn (p_kern p'))" "\<forall>prog\<in>set (lo_programs obj'). prog_ok prog" "no_pin (lo_maps obj')"
    "err = 0 \<Longrightarrow> (\<forall>m\<in>set (lo_maps obj'). 0 \<le> bm_fd (lm_map m)) \<and> loaded_as ok core opn loaded obj obj' (p_kern p')
      \<and> (obj_fds obj \<subseteq> opn (p_kern p) \<longrightarrow> \<Union> (map_fds ` set (lo_maps obj')) \<subseteq> opn (p_kern p'))"
    by auto
qed

lemma reloc_part_loaded [simp]: "reloc_part (obj\<lparr>lo_loaded := b, lo_maps := ms\<rparr>) = reloc_part (obj\<lparr>lo_maps := ms\<rparr>)"
  by (simp add: reloc_part_def split: option.splits)

lemma fd_inv_start: "fd_inv (now - own) own now"
  by (auto simp: fd_inv_def)



section \<open>An example\<close>

text \<open>A kernel that keeps the list of the open descriptors and refuses programs that do not end with an exit instruction.\<close>

type_synonym small_kernel = "int list \<times> (int \<rightharpoonup> bpf_insn list)"

definition next_fd :: "int list \<Rightarrow> int" where "next_fd fds = foldr max fds 2 + 1"

lemma next_fd_fresh [simp]: "next_fd fds \<notin> set fds" "0 \<le> next_fd fds" "\<not> next_fd fds < 0"
proof -
  have "(\<forall>fd\<in>set fds. fd \<le> foldr max fds 2) \<and> 2 \<le> foldr max fds 2" by (induction fds) auto
  then show "next_fd fds \<notin> set fds" "0 \<le> next_fd fds" "\<not> next_fd fds < 0" by (auto simp: next_fd_def)
qed

definition small_fs :: "small_kernel fs_ops" where
  "small_fs = \<lparr>fs_strdup = \<lambda>_. True, fs_mkdir = \<lambda>_ k. (0, k), fs_statfs = \<lambda>_ _. Inl (- ENOENT), fs_obj_pin = \<lambda>_ _ k. (- EINVAL, k),
     fs_unlink = \<lambda>_ k. (- ENOENT, k), fs_rmdir = \<lambda>_ k. (- ENOENT, k)\<rparr>"

definition small_kernel_ops :: "small_kernel obj_kernel" where
  "small_kernel_ops =
     \<lparr>bk_map_create = \<lambda>a (fds, ld). (next_fd fds, next_fd fds # fds, ld),
      bk_prog_load = \<lambda>a (fds, ld).
        if pl_insns a \<noteq> [] \<and> in_code (last (pl_insns a)) = 0x95
        then (\<lparr>pa_ret = next_fd fds, pa_func_rec_size = 0, pa_line_rec_size = 0, pa_log = None\<rparr>, next_fd fds # fds, ld(next_fd fds \<mapsto> pl_insns a))
        else (\<lparr>pa_ret = - EINVAL, pa_func_rec_size = 0, pa_line_rec_size = 0, pa_log = None\<rparr>, fds, ld),
      ok_close = \<lambda>fd (fds, ld). (0, removeAll fd fds, ld(fd := None)),
      ok_obj_get = \<lambda>_ k. (- ENOENT, k), ok_info = \<lambda>_ _. Inl (- EINVAL), ok_open_root = \<lambda>k. (- ENOENT, k), ok_dup3 = \<lambda>_ _ k. (- EINVAL, k),
      ok_update = \<lambda>_ _ k. (0, k), ok_freeze = \<lambda>_ k. (0, k), ok_fs = small_fs, ok_cpus = 4, ok_malloc = \<lambda>_. True, ok_strdup = True\<rparr>"

lemma small_kernel_fds: "kernel_fds small_kernel_ops (\<lambda>k. set (fst k)) snd"
  by (auto simp: kernel_fds_def kernel_allocs_def small_kernel_ops_def fd_call_def prog_call_def same_fds_def EINVAL_def)

definition small_obj :: "u8 \<Rightarrow> load_obj" where
  "small_obj code =
     \<lparr>lo_maps = [\<lparr>lm_map = \<lparr>bm_name = ''m'', bm_fd = -1, bm_def = \<lparr>md_type = 2, md_key_size = 4, md_value_size = 8, md_max_entries = 1, md_flags = 0\<rparr>,
         bm_key_type_id = 0, bm_value_type_id = 0, bm_ifindex = 0, bm_reused = False, pm_pin_path = None, pm_pinned = False\<rparr>,
         lm_sec_idx = 3, lm_sec_offset = 0, lm_inner_map_fd = -1, lm_libbpf_type = LIBBPF_MAP_UNSPEC\<rparr>],
      lo_programs = [\<lparr>ld_prog = demo_prog 5 [demo_insn 0x18 0 0, demo_insn 0 0 0, demo_insn code 0 0]
           (Some [Some \<lparr>rd_type = RELO_LD64, rd_insn_idx = 0, rd_idx = 0\<rparr>]),
         ld_name = Some ''p'', ld_type = 6, ld_attach_type = 0, ld_ifindex = 0, ld_attach_btf_id = 0, ld_log_level = 0, ld_flags = 0,
         ld_nr = -1, ld_fds = None, ld_prep = None\<rparr>],
      lo_loaded = False, lo_license = ''GPL'', lo_kern_version = 0, lo_data = [], lo_rodata = [], lo_btf = None, lo_btf_ext = None,
      lo_caps_name = True, lo_caps_global_data = True, lo_has_pseudo_calls = False, lo_relaxed_core_relocs = False, lo_text_shndx = 2, lo_maps_shndx = 3,
      lo_btf_maps_shndx = -1, lo_data_shndx = 4, lo_bss_shndx = -1, lo_rodata_shndx = -1\<rparr>"

definition small_process :: "small_kernel process" where
  "small_process = \<lparr>p_kern = ([0, 1, 2], Map.empty), p_errno = 0, p_user = (\<lambda>_. 0)\<rparr>"

definition small_core :: "core_env \<times> string option" where "small_core = (demo_env (max 24), None)"

lemma small_loadable: "loadable (small_obj code)"
  by (simp add: loadable_def small_obj_def no_pin_def prog_unloaded_def prog_ok_def)

lemmas small_defs = small_kernel_ops_def small_obj_def small_process_def demo_insn_def demo_prog_def next_fd_def errno_defs sys_errno_defs libbpf_errno_defs
  BPF_PSEUDO_MAP_FD_def BPF_PROG_TYPE_TRACING_def BPF_PROG_TYPE_KPROBE_def BPF_LOG_BUF_SIZE_def BPF_MAXINSNS_def BPF_MAP_TYPE_PERF_EVENT_ARRAY_def
  BPF_MAP_TYPE_ARRAY_OF_MAPS_def BPF_MAP_TYPE_HASH_OF_MAPS_def

lemmas create_defs = bpf_object__create_maps_def create_one_map_def set_create_attr_def set_btf_attr_def create_map_fd_def bpf_create_map_xattr_def
  map_args_of_def sys_ret_def finish_map_def bpf_map__is_internal_def bpf_map_type__is_map_in_map_def zero_map_attr_def

lemma small_maps:
  "bpf_object__create_maps small_kernel_ops ((small_obj code)\<lparr>lo_loaded := True\<rparr>) small_process
     = Some (0, (small_obj code)\<lparr>lo_loaded := True, lo_maps := [(hd (lo_maps (small_obj code)))\<lparr>lm_map := (lm_map (hd (lo_maps (small_obj code))))\<lparr>bm_fd := 3\<rparr>\<rparr>]\<rparr>,
         small_process\<lparr>p_kern := ([3, 0, 1, 2], Map.empty)\<rparr>)"
  by (simp add: create_defs small_defs)

lemmas relocate_defs = relocate_object_def reloc_part_def bpf_object__relocate_def bpf_program__relocate_def reloc_one_def reloc_map_ref_def
  arr_get_def arr_set_def numeral_2_eq_2

text \<open>The programs after the relocation: the load has the descriptor of the map.\<close>

definition small_progs :: "u8 \<Rightarrow> load_prog list" where
  "small_progs code = [(hd (lo_programs (small_obj code)))\<lparr>ld_prog := demo_prog 5 [demo_insn 0x18 1 3, demo_insn 0 0 0, demo_insn code 0 0] None\<rparr>]"

lemma small_relocated:
  "relocate_object True small_core ((small_obj code)\<lparr>lo_loaded := True, lo_maps := [(hd (lo_maps (small_obj code)))\<lparr>lm_map := (lm_map (hd (lo_maps (small_obj code))))\<lparr>bm_fd := 3\<rparr>\<rparr>]\<rparr>)
     = Some (0, (small_obj code)\<lparr>lo_loaded := True, lo_maps := [(hd (lo_maps (small_obj code)))\<lparr>lm_map := (lm_map (hd (lo_maps (small_obj code))))\<lparr>bm_fd := 3\<rparr>\<rparr>],
          lo_programs := small_progs code\<rparr>)"
  by (simp add: relocate_defs small_defs small_progs_def)

lemmas load_defs = bpf_program__is_function_storage_def bpf_program__load_def load_prepared_def load_single_def load_program_def
  set_load_attr_def load_retry.simps bpf_load_program_xattr_def prog_args_of_def sys_bpf_prog_load.simps info_loop.simps load_failure_def
  drop_insns_def sys_ret_def arr_set_def

lemma small_load_steps:
  "load_steps small_kernel_ops True small_core 0 ((small_obj code)\<lparr>lo_loaded := True\<rparr>) small_process
     = bpf_object__load_progs small_kernel_ops ((small_obj code)\<lparr>lo_loaded := True, lo_maps := [(hd (lo_maps (small_obj code)))\<lparr>lm_map := (lm_map (hd (lo_maps (small_obj code))))\<lparr>bm_fd := 3\<rparr>\<rparr>],
          lo_programs := small_progs code\<rparr>) 0 (small_process\<lparr>p_kern := ([3, 0, 1, 2], Map.empty)\<rparr>)"
  by (simp add: load_steps_def small_maps small_relocated)

lemma small_load_ok:
  "\<exists>obj' p'. load_steps small_kernel_ops True small_core 0 ((small_obj 0x95)\<lparr>lo_loaded := True\<rparr>) small_process = Some (0, obj', p')"
  unfolding small_load_steps by (simp add: bpf_object__load_progs_def small_progs_def load_defs small_defs)

lemma small_load_fails:
  "\<exists>obj' p'. load_steps small_kernel_ops True small_core 0 ((small_obj 0)\<lparr>lo_loaded := True\<rparr>) small_process = Some (- EINVAL, obj', p')"
  unfolding small_load_steps by (simp add: bpf_object__load_progs_def small_progs_def load_defs small_defs)

lemma small_obj_fds: "obj_fds (small_obj code) = {}"
  by (simp add: small_obj_def obj_fds_def map_fds_def own_fd_def prog_fds_def)

lemma small_failure:
  "\<exists>obj' p'. bpf_object__load_xattr small_kernel_ops True small_core 0 (Some (small_obj 0)) small_process = Some (- EINVAL, obj', p')"
proof -
  have "\<not> lo_loaded (small_obj 0)" by (simp add: small_obj_def)
  then show ?thesis
    unfolding bpf_object__load_xattr_def
    by (simp add: small_load_steps)
      (simp add: bpf_object__load_progs_def small_progs_def load_defs small_defs bpf_object__unload_def bpf_program__unload_def zclose_def close_fd_def)
qed



section \<open>What goes wrong\<close>

text \<open>The interface a program is meant for never reaches the kernel: the identifier of the type to attach to, zero for
  everything but tracing programs, is stored over it. A program for hardware offload is loaded as an ordinary one.\<close>

lemma load_drops_ifindex:
  "pl_ifindex (prog_args_of (set_load_attr obj prog insns) sz) = (if ld_type prog = BPF_PROG_TYPE_TRACING then 0 else ld_attach_btf_id prog)"
  by (simp add: prog_args_of_def set_load_attr_def Let_def)

text \<open>Reusing a pinned map keeps the descriptor that the lookup of the path returned: 3 stays open, and no map holds it. When
  \<^verbatim>\<open>dup3\<close> fails, the descriptor of the root directory stays open as well.\<close>

definition pinned_kernel :: "int \<Rightarrow> small_kernel obj_kernel" where
  "pinned_kernel dup_err = small_kernel_ops\<lparr>ok_obj_get := \<lambda>_ (fds, ld). (next_fd fds, next_fd fds # fds, ld),
     ok_info := \<lambda>_ _. Inr \<lparr>mi_name = ''m'', mi_def = bm_def (lm_map (hd (lo_maps (small_obj 0)))), mi_key_type_id = 0, mi_value_type_id = 0\<rparr>,
     ok_open_root := \<lambda>(fds, ld). (next_fd fds, next_fd fds # fds, ld),
     ok_dup3 := \<lambda>_ new_fd k. (if dup_err < 0 then dup_err else new_fd, k)\<rparr>"

lemma reuse_leaks:
  "\<exists>m p. bpf_object__reuse_map (pinned_kernel 0) ''/x'' (hd (lo_maps (small_obj 0))) small_process = (0, m, p)
     \<and> fst (p_kern p) = [4, 3, 0, 1, 2] \<and> bm_fd (lm_map m) = 4"
  "\<exists>m p. bpf_object__reuse_map (pinned_kernel (- EINVAL)) ''/x'' (hd (lo_maps (small_obj 0))) small_process = (- EINVAL, m, p)
     \<and> fst (p_kern p) = [4, 0, 1, 2] \<and> bm_fd (lm_map m) = -1"
  by (simp_all add: pinned_kernel_def bpf_object__reuse_map_def reuse_fd_calls_def map_is_reuse_compat_def small_defs sys_ret_def close_fd_def zclose_def)

text \<open>The attributes of one map are left over for the next: a map of maps without an inner map is created with the inner map of the
  one before.\<close>

lemma stale_inner_map_fd:
  assumes "set_create_attr cpus obj m attr n = (Inr attr', n')" "lm_inner_map_fd m < 0"
  shows "cm_inner_map_fd attr' = cm_inner_map_fd attr"
  using assms by (auto simp: set_create_attr_def Let_def split: if_splits)

text \<open>A log level that the interface refuses: the log is inspected although nothing was ever written to it.\<close>

lemma load_log_unwritten:
  assumes "lp_log_level la > 7" "ok_malloc kn sz" "sz \<noteq> 0" "p_errno p \<noteq> ENOSPC"
  shows "load_retry kn la sz p = None"
  using assms by (simp add: load_retry.simps [of kn la sz p] bpf_load_program_xattr_def load_failure_def EINVAL_def)

end
