(* ===== verification/Elf_File.thy ===== *)
theory Elf_File
  imports Obj_Load "HOL-Library.Multiset"
begin

text \<open>
  Reading an ELF file in \<^verbatim>\<open>eBPF_app/libbpf/src/libbpf.c\<close>, the first part: the object that is being opened, opening the file,
  its programs and their names, the license and the version, the sizes of sections and the offsets of variables. What
  libelf returns for a file is an argument: the headers and data of the sections, the strings of the string tables and
  the symbols; any of them may be missing. Outer \<open>None\<close> is an access outside a section, or through a null pointer.
\<close>

unbundle bit_operations_syntax

section \<open>ELF files\<close>

definition SHT_PROGBITS :: u32 where "SHT_PROGBITS = 1"
definition SHT_SYMTAB :: u32 where "SHT_SYMTAB = 2"
definition SHT_NOBITS :: u32 where "SHT_NOBITS = 8"
definition SHT_REL :: u32 where "SHT_REL = 9"
definition SHF_EXECINSTR :: u64 where "SHF_EXECINSTR = 4"
definition STB_GLOBAL :: u8 where "STB_GLOBAL = 1"
definition STT_OBJECT :: u8 where "STT_OBJECT = 1"
definition ET_REL :: u16 where "ET_REL = 1"
definition EM_BPF :: u16 where "EM_BPF = 247"
definition ELFDATA2LSB :: u8 where "ELFDATA2LSB = 1"
definition ELF_SYM :: nat where "ELF_SYM = 24"

lemmas elf_const_defs = SHT_PROGBITS_def SHT_SYMTAB_def SHT_NOBITS_def SHT_REL_def SHF_EXECINSTR_def STB_GLOBAL_def
  STT_OBJECT_def ET_REL_def EM_BPF_def ELFDATA2LSB_def ELF_SYM_def

definition EIO :: int where "EIO = 5"
definition LIBBPF_ERRNO__LIBELF :: int where "LIBBPF_ERRNO__LIBELF = 4000"
definition LIBBPF_ERRNO__ENDIAN :: int where "LIBBPF_ERRNO__ENDIAN = 4003"

text \<open>The data of a section without bits has a size and a null pointer.\<close>

record elf_data =
  d_buf :: "bytes option"
  d_size :: nat

record elf_shdr =
  sh_name :: nat
  sh_type :: u32
  sh_flags :: u64
  sh_size :: nat
  sh_link :: u32
  sh_info :: u32
  sh_entsize :: nat

record elf_scn =
  sn_shdr :: "elf_shdr option"
  sn_data :: "elf_data option"

record elf_ehdr =
  e_type :: u16
  e_machine :: u16
  e_data :: u8
  e_shstrndx :: nat

record gelf_sym =
  st_name :: nat
  st_info :: u8
  st_shndx :: u16
  st_value :: u64

text \<open>The sections start with the null section, which \<^verbatim>\<open>elf_nextscn\<close> skips and \<^verbatim>\<open>elf_getscn\<close> does not. A relocation
  entry is its offset and the index of its symbol.\<close>

record elf_file =
  el_ehdr :: "elf_ehdr option"
  el_scns :: "elf_scn list"
  el_rawdata :: "nat \<Rightarrow> bool"
  el_strptr :: "nat \<Rightarrow> nat \<Rightarrow> string option"
  el_getsym :: "elf_data \<Rightarrow> nat \<Rightarrow> gelf_sym option"
  el_getrel :: "elf_data \<Rightarrow> nat \<Rightarrow> (nat \<times> nat) option"

definition elf_getscn :: "elf_file \<Rightarrow> int \<Rightarrow> elf_scn option" where
  "elf_getscn elf idx = (if 0 \<le> idx then arr_get (el_scns elf) (nat idx) else None)"

definition GELF_ST_BIND :: "u8 \<Rightarrow> u8" where "GELF_ST_BIND info = drop_bit 4 info"
definition GELF_ST_TYPE :: "u8 \<Rightarrow> u8" where "GELF_ST_TYPE info = info AND 0xf"

section \<open>The object\<close>

text \<open>The array of maps is \<open>lo_maps\<close> followed by \<open>eo_spare_maps\<close>: the number of maps is the length of the first, the capacity
  that of both. The name of a map that has none yet is empty. \<open>eo_license\<close> is the array of 64 bytes.\<close>

record elf_obj = load_obj +
  eo_path :: string
  eo_name :: string
  eo_license :: bytes
  eo_spare_maps :: "load_map list"
  eo_caps_btf_func :: bool
  eo_caps_btf_datasec :: bool
  eo_fd :: int
  eo_obj_buf :: "bytes option"
  eo_elf :: "elf_file option"
  eo_ehdr :: elf_ehdr
  eo_symbols :: "elf_data option"
  eo_data :: "elf_data option"
  eo_rodata :: "elf_data option"
  eo_bss :: "elf_data option"
  eo_strtabidx :: nat
  eo_reloc :: "(elf_shdr \<times> elf_data) list"

text \<open>The environment of opening: the kernel, libelf, and the outcome of every allocation.\<close>

record 'k open_env =
  oe_kernel :: "'k obj_kernel"
  oe_open :: "string \<Rightarrow> 'k \<Rightarrow> int \<times> 'k"
  oe_btf_load :: "bool \<Rightarrow> bytes \<Rightarrow> 'k \<Rightarrow> int \<times> 'k"
  oe_elf_version :: bool
  oe_elf_begin :: "int \<Rightarrow> 'k \<Rightarrow> elf_file option"
  oe_elf_memory :: "bytes \<Rightarrow> elf_file option"
  oe_release :: string
  oe_calloc :: bool
  oe_strdup :: "string \<Rightarrow> bool"
  oe_pin_strdup :: "string \<Rightarrow> bool"
  oe_malloc :: "nat \<Rightarrow> bool"
  oe_programs :: "nat \<Rightarrow> bool"
  oe_maps :: "nat \<Rightarrow> bool"
  oe_relocs :: "nat \<Rightarrow> bool"
  oe_btf_calloc :: bool
  oe_btf_types :: "u32 \<Rightarrow> bool"

section \<open>Strings\<close>

definition bytes_str :: "bytes \<Rightarrow> string" where "bytes_str bs = map (\<lambda>b. char_of (unat b)) bs"

lemma bytes_str_inverse [simp]: "bytes_str (str_bytes s) = s"
proof -
  have "unat (of_nat (of_char c) :: u8) = of_char c" for c
    by (simp add: unsigned_of_nat take_bit_eq_mod)
  then show ?thesis by (simp add: bytes_str_def str_bytes_def comp_def)
qed

lemma str_bytes_inverse [simp]: "str_bytes (bytes_str bs) = bs"
proof -
  have "(of_nat (unat b mod 256) :: u8) = b" for b :: u8
  proof -
    have "unat b < 2 ^ LENGTH(8)" by (rule unsigned_less)
    then show ?thesis by simp
  qed
  then show ?thesis by (simp add: bytes_str_def str_bytes_def comp_def)
qed

section \<open>Instructions\<close>

text \<open>The copy of a section into an array of instructions: eight bytes each, the two registers share one.\<close>

definition insn_of_bytes :: "bytes \<Rightarrow> bpf_insn" where
  "insn_of_bytes bs =
     \<lparr>in_code = bs ! 0, in_dst_reg = bs ! 1 AND 0xf, in_src_reg = drop_bit 4 (bs ! 1),
      in_off = word_of_le (take 2 (drop 2 bs)), in_imm = word_of_le (take 4 (drop 4 bs))\<rparr>"

definition insn_bytes :: "bpf_insn \<Rightarrow> bytes" where
  "insn_bytes i = [in_code i, in_dst_reg i OR push_bit 4 (in_src_reg i)] @ le_of_word 2 (in_off i) @ le_of_word 4 (in_imm i)"

definition decode_insns :: "bytes \<Rightarrow> bpf_insn list" where
  "decode_insns bs = map (\<lambda>i. insn_of_bytes (take 8 (drop (8 * i) bs))) [0..<length bs div 8]"

definition encode_insns :: "bpf_insn list \<Rightarrow> bytes" where
  "encode_insns is = concat (map insn_bytes is)"

lemma le_of_word_of_le_length: "length bs = n \<Longrightarrow> 8 * n \<le> LENGTH('a::len) \<Longrightarrow> le_of_word n (word_of_le bs :: 'a word) = bs"
  using le_of_word_of_le [where 'a = 'a, of bs] by simp

lemma insn_bytes_inverse:
  assumes "length bs = 8"
  shows "insn_bytes (insn_of_bytes bs) = bs"
proof -
  obtain c r a b e f g h where bs: "bs = [c, r, a, b, e, f, g, h]"
    using assms by (auto simp: numeral_eq_Suc length_Suc_conv)
  have "(r AND 0xf) OR push_bit 4 (drop_bit 4 r) = r"
  proof (rule bit_word_eqI)
    fix n assume n: "n < LENGTH(8)"
    have "r AND 0xf = take_bit 4 r" by (simp add: take_bit_eq_mask mask_numeral)
    then show "bit ((r AND 0xf) OR push_bit 4 (drop_bit 4 r)) n = bit r n" using n by (cases "n < 4") (auto simp: bit_simps)
  qed
  moreover have "le_of_word 2 (word_of_le [a, b] :: u16) = [a, b]" by (rule le_of_word_of_le_length) simp_all
  moreover have "le_of_word 4 (word_of_le [e, f, g, h] :: u32) = [e, f, g, h]" by (rule le_of_word_of_le_length) simp_all
  ultimately show ?thesis unfolding bs insn_bytes_def insn_of_bytes_def by simp
qed

lemma chunks_concat: "concat (map (\<lambda>i. take k (drop (k * i) bs)) [0..<n]) = take (k * n) bs"
proof (induction n)
  case (Suc n)
  then show ?case using take_add [of "k * n" k bs] by (simp add: add.commute [of k])
qed simp

lemma encode_decode_insns:
  assumes "length bs mod 8 = 0"
  shows "encode_insns (decode_insns bs) = bs"
proof -
  have eight: "8 * (length bs div 8) = length bs" using assms by presburger
  have "map (insn_bytes \<circ> (\<lambda>i. insn_of_bytes (take 8 (drop (8 * i) bs)))) [0..<length bs div 8]
      = map (\<lambda>i. take 8 (drop (8 * i) bs)) [0..<length bs div 8]"
  proof (rule map_cong)
    fix i assume "i \<in> set [0..<length bs div 8]"
    then have "8 * i + 8 \<le> length bs" by simp
    then show "(insn_bytes \<circ> (\<lambda>i. insn_of_bytes (take 8 (drop (8 * i) bs)))) i = take 8 (drop (8 * i) bs)"
      by (simp add: insn_bytes_inverse)
  qed simp
  then have "encode_insns (decode_insns bs) = concat (map (\<lambda>i. take 8 (drop (8 * i) bs)) [0..<length bs div 8])"
    unfolding encode_insns_def decode_insns_def map_map by (rule arg_cong)
  then show ?thesis by (simp add: chunks_concat eight)
qed

section \<open>Programs\<close>

text \<open>A program without contents: all bytes zero.\<close>

definition zero_reloc_prog :: reloc_prog where
  "zero_reloc_prog = \<lparr>rp_idx = 0, rp_section_name = [], rp_insns = [], rp_main_prog_cnt = 0, rp_reloc_desc = None, rp_func_info = None,
     rp_func_info_cnt = 0, rp_func_info_rec_size = 0, rp_line_info = None, rp_line_info_cnt = 0, rp_line_info_rec_size = 0\<rparr>"

definition zero_prog :: load_prog where
  "zero_prog = \<lparr>ld_prog = zero_reloc_prog, ld_name = None, ld_type = 0, ld_attach_type = 0, ld_ifindex = 0, ld_attach_btf_id = 0,
     ld_log_level = 0, ld_flags = 0, ld_nr = 0, ld_fds = None, ld_prep = None\<rparr>"

definition bpf_program__exit :: "'k obj_kernel \<Rightarrow> load_prog \<Rightarrow> 'k process \<Rightarrow> (load_prog \<times> 'k process) option" where
  "bpf_program__exit kn prog p = do {
     (prog, p) \<leftarrow> bpf_program__unload kn prog p;
     Some (prog\<lparr>ld_name := None, ld_prog := (ld_prog prog)\<lparr>rp_idx := -1, rp_section_name := [], rp_insns := [], rp_reloc_desc := None\<rparr>\<rparr>, p)
   }"

text \<open>The name under which a program is pinned is a function of the name of its section; the copy of that name is not
  checked before its slashes are replaced.\<close>

definition bpf_program__init :: "'k open_env \<Rightarrow> elf_data \<Rightarrow> string \<Rightarrow> int \<Rightarrow> (int + load_prog) option" where
  "bpf_program__init env data section_name idx =
     (if d_size data = 0 \<or> d_size data mod 8 \<noteq> 0 then Some (Inl (- EINVAL))
      else if \<not> oe_strdup env section_name then Some (Inl (- ENOMEM))
      else if \<not> oe_pin_strdup env section_name then None
      else if \<not> oe_malloc env (d_size data) then Some (Inl (- ENOMEM))
      else do {
        buf \<leftarrow> d_buf data;
        bs \<leftarrow> load buf 0 (d_size data);
        Some (Inr (zero_prog\<lparr>ld_nr := -1, ld_type := BPF_PROG_TYPE_UNSPEC,
          ld_prog := zero_reloc_prog\<lparr>rp_section_name := str_bytes section_name, rp_insns := decode_insns bs, rp_idx := idx\<rparr>\<rparr>))
      })"

definition bpf_object__add_program :: "'k open_env \<Rightarrow> elf_data \<Rightarrow> string \<Rightarrow> int \<Rightarrow> elf_obj \<Rightarrow> (int \<times> elf_obj) option" where
  "bpf_object__add_program env data section_name idx obj = do {
     r \<leftarrow> bpf_program__init env data section_name idx;
     Some (case r of
             Inl err \<Rightarrow> (err, obj)
           | Inr prog \<Rightarrow>
               if \<not> oe_programs env (length (lo_programs obj) + 1) then (- ENOMEM, obj)
               else (0, obj\<lparr>lo_programs := lo_programs obj @ [prog]\<rparr>))
   }"

text \<open>The search for the symbol of a program: the first global one of its section, which must have a name.\<close>

fun prog_sym_name :: "elf_file \<Rightarrow> elf_data \<Rightarrow> nat \<Rightarrow> int \<Rightarrow> nat list \<Rightarrow> int + string option" where
  "prog_sym_name elf symbols strtabidx idx [] = Inr None"
| "prog_sym_name elf symbols strtabidx idx (si # sis) =
     (case el_getsym elf symbols si of
        None \<Rightarrow> prog_sym_name elf symbols strtabidx idx sis
      | Some esym \<Rightarrow>
          if uint (st_shndx esym) \<noteq> idx then prog_sym_name elf symbols strtabidx idx sis
          else if GELF_ST_BIND (st_info esym) \<noteq> STB_GLOBAL then prog_sym_name elf symbols strtabidx idx sis
          else (case el_strptr elf strtabidx (st_name esym) of
                  None \<Rightarrow> Inl (- LIBBPF_ERRNO__LIBELF)
                | Some name \<Rightarrow> Inr (Some name)))"

definition nr_syms :: "elf_data \<Rightarrow> nat" where "nr_syms symbols = d_size symbols div ELF_SYM"

fun init_prog_names_loop :: "'k open_env \<Rightarrow> elf_file \<Rightarrow> elf_data \<Rightarrow> elf_obj \<Rightarrow> load_prog list \<Rightarrow> int \<times> load_prog list" where
  "init_prog_names_loop env elf symbols obj [] = (0, [])"
| "init_prog_names_loop env elf symbols obj (prog # progs) =
     (let idx = rp_idx (ld_prog prog) in
      case prog_sym_name elf symbols (eo_strtabidx obj) idx [0..<nr_syms symbols] of
        Inl err \<Rightarrow> (err, prog # progs)
      | Inr name \<Rightarrow>
          (case (if name = None \<and> idx = lo_text_shndx obj then Some ''.text'' else name) of
             None \<Rightarrow> (- EINVAL, prog # progs)
           | Some name \<Rightarrow>
               if \<not> oe_strdup env name then (- ENOMEM, prog # progs)
               else (let (err, progs) = init_prog_names_loop env elf symbols obj progs in (err, prog\<lparr>ld_name := Some name\<rparr> # progs))))"

text \<open>An object without a symbol table would be read through a null pointer.\<close>

definition bpf_object__init_prog_names :: "'k open_env \<Rightarrow> elf_obj \<Rightarrow> (int \<times> elf_obj) option" where
  "bpf_object__init_prog_names env obj =
     (if lo_programs obj = [] then Some (0, obj)
      else do {
        symbols \<leftarrow> eo_symbols obj;
        elf \<leftarrow> eo_elf obj;
        let (err, progs) = init_prog_names_loop env elf symbols obj (lo_programs obj);
        Some (err, obj\<lparr>lo_programs := progs\<rparr>)
      })"

section \<open>The version of the kernel\<close>

text \<open>The conversion \<^verbatim>\<open>%u\<close> of \<^verbatim>\<open>sscanf\<close>: white space, a sign, digits; the value saturates at 64 bits and is cut to 32.\<close>

definition is_space :: "char \<Rightarrow> bool" where
  "is_space c \<longleftrightarrow> (let n = of_char c :: nat in 9 \<le> n \<and> n \<le> 13 \<or> n = 32)"

definition is_digit :: "char \<Rightarrow> bool" where
  "is_digit c \<longleftrightarrow> (let n = of_char c :: nat in 48 \<le> n \<and> n \<le> 57)"

definition scan_uint :: "string \<Rightarrow> (u32 \<times> string) option" where
  "scan_uint s =
     (let s = dropWhile is_space s;
          neg = (s \<noteq> [] \<and> hd s = CHR ''-'');
          s = (if s \<noteq> [] \<and> (hd s = CHR ''-'' \<or> hd s = CHR ''+'') then tl s else s);
          ds = takeWhile is_digit s;
          v = dec_value ds
      in if ds = [] then None
         else Some (if v \<ge> 2 ^ 64 then 0xffffffff else if neg then - of_nat v else of_nat v, dropWhile is_digit s))"

definition scan_dot :: "string \<Rightarrow> string option" where
  "scan_dot s = (if s \<noteq> [] \<and> hd s = CHR ''.'' then Some (tl s) else None)"

definition KERNEL_VERSION :: "u32 \<Rightarrow> u32 \<Rightarrow> u32 \<Rightarrow> u32" where
  "KERNEL_VERSION a b c = push_bit 16 a + push_bit 8 b + c"

definition get_kernel_version :: "string \<Rightarrow> u32" where
  "get_kernel_version release =
     (case do {
        (major, s) \<leftarrow> scan_uint release;
        s \<leftarrow> scan_dot s;
        (minor, s) \<leftarrow> scan_uint s;
        s \<leftarrow> scan_dot s;
        (patch, s) \<leftarrow> scan_uint s;
        Some (KERNEL_VERSION major minor patch)
      } of None \<Rightarrow> 0 | Some v \<Rightarrow> v)"

section \<open>Opening the file\<close>

definition basename :: "string \<Rightarrow> string" where
  "basename path = rev (takeWhile (\<lambda>c. c \<noteq> CHR ''/'') (rev path))"

text \<open>\<^verbatim>\<open>strncpy\<close> into the array of 16 bytes of the name.\<close>

definition object_name :: "string option \<Rightarrow> string \<Rightarrow> string" where
  "object_name name path = (case name of
     Some s \<Rightarrow> take (BPF_OBJ_NAME_LEN - 1) s
   | None \<Rightarrow> takeWhile (\<lambda>c. c \<noteq> CHR ''.'') (take (BPF_OBJ_NAME_LEN - 1) (basename path)))"

definition zero_ehdr :: elf_ehdr where "zero_ehdr = \<lparr>e_type = 0, e_machine = 0, e_data = 0, e_shstrndx = 0\<rparr>"

text \<open>The object as \<^verbatim>\<open>calloc\<close> returns it.\<close>

definition zero_obj :: elf_obj where
  "zero_obj =
     \<lparr>lo_maps = [], lo_programs = [], lo_loaded = False, lo_license = '''', lo_kern_version = 0, lo_data = [], lo_rodata = [],
      lo_btf = None, lo_btf_ext = None, lo_caps_name = False, lo_caps_global_data = False, lo_has_pseudo_calls = False,
      lo_relaxed_core_relocs = False, lo_text_shndx = 0, lo_maps_shndx = 0, lo_btf_maps_shndx = 0, lo_data_shndx = 0, lo_bss_shndx = 0,
      lo_rodata_shndx = 0, eo_path = '''', eo_name = '''', eo_license = replicate 64 0, eo_spare_maps = [], eo_caps_btf_func = False,
      eo_caps_btf_datasec = False, eo_fd = 0, eo_obj_buf = None, eo_elf = None, eo_ehdr = zero_ehdr, eo_symbols = None, eo_data = None,
      eo_rodata = None, eo_bss = None, eo_strtabidx = 0, eo_reloc = []\<rparr>"

definition bpf_object__new :: "'k open_env \<Rightarrow> string \<Rightarrow> bytes option \<Rightarrow> string option \<Rightarrow> int + elf_obj" where
  "bpf_object__new env path obj_buf name =
     (if \<not> oe_calloc env then Inl (- ENOMEM)
      else Inr (zero_obj\<lparr>eo_path := path, eo_name := object_name name path, eo_fd := -1, eo_obj_buf := obj_buf,
        lo_maps_shndx := -1, lo_btf_maps_shndx := -1, lo_data_shndx := -1, lo_rodata_shndx := -1, lo_bss_shndx := -1,
        lo_kern_version := get_kernel_version (oe_release env)\<rparr>))"

definition bpf_object__elf_finish :: "'k open_env \<Rightarrow> elf_obj \<Rightarrow> 'k process \<Rightarrow> elf_obj \<times> 'k process" where
  "bpf_object__elf_finish env obj p =
     (if eo_elf obj = None then (obj, p)
      else (obj\<lparr>eo_elf := None, eo_symbols := None, eo_data := None, eo_rodata := None, eo_bss := None, eo_reloc := [],
                 eo_fd := -1, eo_obj_buf := None\<rparr>,
            snd (zclose (oe_kernel env) (eo_fd obj) p)))"

text \<open>The checks on the header of a file that libelf accepts.\<close>

definition elf_check_ehdr :: "elf_file \<Rightarrow> int + elf_ehdr" where
  "elf_check_ehdr elf =
     (case el_ehdr elf of
        None \<Rightarrow> Inl (- LIBBPF_ERRNO__FORMAT)
      | Some ep \<Rightarrow>
          if e_type ep \<noteq> ET_REL \<or> e_machine ep \<noteq> 0 \<and> e_machine ep \<noteq> EM_BPF then Inl (- LIBBPF_ERRNO__FORMAT) else Inr ep)"

definition elf_init_checked :: "'k open_env \<Rightarrow> elf_file option \<Rightarrow> elf_obj \<Rightarrow> 'k process \<Rightarrow> int \<times> elf_obj \<times> 'k process" where
  "elf_init_checked env elf obj p =
     (let obj = obj\<lparr>eo_elf := elf\<rparr> in
      case elf of
        None \<Rightarrow> (- LIBBPF_ERRNO__LIBELF, bpf_object__elf_finish env obj p)
      | Some e \<Rightarrow>
          (case elf_check_ehdr e of
             Inl err \<Rightarrow> (err, bpf_object__elf_finish env obj p)
           | Inr ep \<Rightarrow> (0, obj\<lparr>eo_ehdr := ep\<rparr>, p)))"

definition elf_init_file :: "'k open_env \<Rightarrow> elf_obj \<Rightarrow> 'k process \<Rightarrow> int \<times> elf_obj \<times> 'k process" where
  "elf_init_file env obj p =
     (let (r, k) = oe_open env (eo_path obj) (p_kern p); (fd, p) = sys_ret r k p; obj = obj\<lparr>eo_fd := fd\<rparr> in
      if fd < 0 then (- p_errno p, obj, p)
      else elf_init_checked env (oe_elf_begin env fd (p_kern p)) obj p)"

definition bpf_object__elf_init :: "'k open_env \<Rightarrow> elf_obj \<Rightarrow> 'k process \<Rightarrow> int \<times> elf_obj \<times> 'k process" where
  "bpf_object__elf_init env obj p =
     (if eo_elf obj \<noteq> None then (- LIBBPF_ERRNO__LIBELF, obj, p)
      else (case eo_obj_buf obj of
              Some buf \<Rightarrow> if buf \<noteq> [] then elf_init_checked env (oe_elf_memory env buf) obj p else elf_init_file env obj p
            | None \<Rightarrow> elf_init_file env obj p))"

definition bpf_object__check_endianness :: "elf_obj \<Rightarrow> int" where
  "bpf_object__check_endianness obj = (if e_data (eo_ehdr obj) = ELFDATA2LSB then 0 else - LIBBPF_ERRNO__ENDIAN)"

section \<open>License, version, sections and variables\<close>

definition c_string :: "bytes \<Rightarrow> string" where "c_string bs = bytes_str (takeWhile (\<lambda>b. b \<noteq> 0) bs)"

definition bpf_object__init_license :: "elf_data \<Rightarrow> elf_obj \<Rightarrow> (int \<times> elf_obj) option" where
  "bpf_object__init_license data obj = do {
     bs \<leftarrow> (if d_size data = 0 then Some [] else do { buf \<leftarrow> d_buf data; load buf 0 (min (d_size data) 63) });
     license \<leftarrow> store (eo_license obj) 0 bs;
     Some (0, obj\<lparr>eo_license := license, lo_license := c_string license\<rparr>)
   }"

definition bpf_object__init_kversion :: "elf_data \<Rightarrow> elf_obj \<Rightarrow> (int \<times> elf_obj) option" where
  "bpf_object__init_kversion data obj =
     (if d_size data \<noteq> 4 then Some (- LIBBPF_ERRNO__FORMAT, obj)
      else do {
        buf \<leftarrow> d_buf data;
        kver \<leftarrow> load32 buf 0;
        Some (0, obj\<lparr>lo_kern_version := kver\<rparr>)
      })"

text \<open>The search over the sections from the first.\<close>

fun search_section_size :: "elf_file \<Rightarrow> nat \<Rightarrow> string \<Rightarrow> elf_scn list \<Rightarrow> int + nat" where
  "search_section_size elf shstrndx name [] = Inl (- ENOENT)"
| "search_section_size elf shstrndx name (scn # scns) =
     (case sn_shdr scn of
        None \<Rightarrow> Inl (- EIO)
      | Some sh \<Rightarrow>
          (case el_strptr elf shstrndx (sh_name sh) of
             None \<Rightarrow> Inl (- EIO)
           | Some sec_name \<Rightarrow>
               if name \<noteq> sec_name then search_section_size elf shstrndx name scns
               else (case sn_data scn of None \<Rightarrow> Inl (- EIO) | Some data \<Rightarrow> Inr (d_size data))))"

definition bpf_object_search_section_size :: "elf_obj \<Rightarrow> string \<Rightarrow> (int + nat) option" where
  "bpf_object_search_section_size obj name = do {
     elf \<leftarrow> eo_elf obj;
     Some (search_section_size elf (e_shstrndx (eo_ehdr obj)) name (tl (el_scns elf)))
   }"

text \<open>The size is a 32-bit variable; it is zero when there is no such section.\<close>

definition size_of_data :: "elf_data option \<Rightarrow> u32" where
  "size_of_data data = (case data of None \<Rightarrow> 0 | Some d \<Rightarrow> of_nat (d_size d))"

definition bpf_object__section_size :: "elf_obj \<Rightarrow> string option \<Rightarrow> (int \<times> u32) option" where
  "bpf_object__section_size obj name =
     (case name of
        None \<Rightarrow> Some (- EINVAL, 0)
      | Some name \<Rightarrow> do {
          (ret, sz) \<leftarrow>
            (if name = ''.data'' then Some (- ENOENT, size_of_data (eo_data obj))
             else if name = ''.bss'' then Some (- ENOENT, size_of_data (eo_bss obj))
             else if name = ''.rodata'' then Some (- ENOENT, size_of_data (eo_rodata obj))
             else do {
               r \<leftarrow> bpf_object_search_section_size obj name;
               Some (case r of Inl err \<Rightarrow> (err, 0) | Inr d \<Rightarrow> (0, of_nat d))
             });
          Some (if sz \<noteq> 0 then 0 else ret, sz)
        })"

fun variable_offset_loop :: "elf_file \<Rightarrow> elf_data \<Rightarrow> nat \<Rightarrow> string \<Rightarrow> nat list \<Rightarrow> int + u32" where
  "variable_offset_loop elf symbols strtabidx name [] = Inl (- ENOENT)"
| "variable_offset_loop elf symbols strtabidx name (si # sis) =
     (case el_getsym elf symbols si of
        None \<Rightarrow> variable_offset_loop elf symbols strtabidx name sis
      | Some esym \<Rightarrow>
          if GELF_ST_BIND (st_info esym) \<noteq> STB_GLOBAL \<or> GELF_ST_TYPE (st_info esym) \<noteq> STT_OBJECT
          then variable_offset_loop elf symbols strtabidx name sis
          else (case el_strptr elf strtabidx (st_name esym) of
                  None \<Rightarrow> Inl (- EIO)
                | Some sname \<Rightarrow> if name = sname then Inr (ucast (st_value esym)) else variable_offset_loop elf symbols strtabidx name sis))"

definition bpf_object__variable_offset :: "elf_obj \<Rightarrow> string option \<Rightarrow> (int + u32) option" where
  "bpf_object__variable_offset obj name =
     (case name of
        None \<Rightarrow> Some (Inl (- EINVAL))
      | Some name \<Rightarrow> do {
          symbols \<leftarrow> eo_symbols obj;
          elf \<leftarrow> eo_elf obj;
          Some (variable_offset_loop elf symbols (eo_strtabidx obj) name [0..<nr_syms symbols])
        })"

section \<open>Sorting\<close>

text \<open>\<^verbatim>\<open>qsort\<close> of the C library, a stable merge sort. The comparison must be consistent on the array; otherwise C
  leaves the result undefined.\<close>

definition cmp_consistent :: "('a \<Rightarrow> 'a \<Rightarrow> int) \<Rightarrow> 'a list \<Rightarrow> bool" where
  "cmp_consistent cmp xs \<longleftrightarrow> (\<forall>a\<in>set xs. \<forall>b\<in>set xs. sgn (cmp a b) = - sgn (cmp b a)) \<and>
     (\<forall>a\<in>set xs. \<forall>b\<in>set xs. \<forall>c\<in>set xs. cmp a b \<le> 0 \<longrightarrow> cmp b c \<le> 0 \<longrightarrow> cmp a c \<le> 0)"

fun cmp_insert :: "('a \<Rightarrow> 'a \<Rightarrow> int) \<Rightarrow> 'a \<Rightarrow> 'a list \<Rightarrow> 'a list" where
  "cmp_insert cmp x [] = [x]"
| "cmp_insert cmp x (y # ys) = (if cmp x y \<le> 0 then x # y # ys else y # cmp_insert cmp x ys)"

definition qsort :: "('a \<Rightarrow> 'a \<Rightarrow> int) \<Rightarrow> 'a list \<Rightarrow> 'a list option" where
  "qsort cmp xs = (if cmp_consistent cmp xs then Some (foldr (cmp_insert cmp) xs []) else None)"

lemma cmp_consistent_mono: "cmp_consistent cmp ys \<Longrightarrow> set xs \<subseteq> set ys \<Longrightarrow> cmp_consistent cmp xs"
  unfolding cmp_consistent_def by (intro conjI ballI) (blast dest: subsetD)+

lemma cmp_consistent_trans:
  "cmp_consistent cmp xs \<Longrightarrow> a \<in> set xs \<Longrightarrow> b \<in> set xs \<Longrightarrow> c \<in> set xs \<Longrightarrow> cmp a b \<le> 0 \<Longrightarrow> cmp b c \<le> 0 \<Longrightarrow> cmp a c \<le> 0"
  unfolding cmp_consistent_def by blast

lemma cmp_consistent_total:
  assumes "cmp_consistent cmp xs" "a \<in> set xs" "b \<in> set xs" "\<not> cmp a b \<le> 0"
  shows "cmp b a \<le> 0"
proof -
  have "sgn (cmp a b) = - sgn (cmp b a)" using assms(1-3) unfolding cmp_consistent_def by blast
  then show ?thesis using assms(4) by (simp add: sgn_if split: if_splits)
qed

lemma mset_cmp_insert [simp]: "mset (cmp_insert cmp x ys) = add_mset x (mset ys)"
  by (induction ys) auto

lemma set_cmp_insert [simp]: "set (cmp_insert cmp x ys) = insert x (set ys)"
  by (induction ys) auto

lemma mset_foldr_insert: "mset (foldr (cmp_insert cmp) xs []) = mset xs"
  by (induction xs) simp_all

lemma set_foldr_insert: "set (foldr (cmp_insert cmp) xs []) = set xs"
  by (induction xs) simp_all

lemma sorted_cmp_insert:
  assumes "sorted_wrt (\<lambda>a b. cmp a b \<le> 0) ys" "cmp_consistent cmp (x # ys)"
  shows "sorted_wrt (\<lambda>a b. cmp a b \<le> 0) (cmp_insert cmp x ys)"
  using assms
proof (induction ys)
  case (Cons y ys)
  have c: "cmp_consistent cmp (x # ys)" by (rule cmp_consistent_mono [OF Cons.prems(2)]) auto
  show ?case
  proof (cases "cmp x y \<le> 0")
    case True
    have "cmp x z \<le> 0" if "z \<in> set ys" for z
      using cmp_consistent_trans [OF Cons.prems(2), of x y z] True that Cons.prems(1) by simp
    then show ?thesis using True Cons.prems(1) by simp
  next
    case False
    then have "cmp y x \<le> 0" using cmp_consistent_total [OF Cons.prems(2), of x y] by simp
    then show ?thesis using False Cons.prems(1) Cons.IH c by simp
  qed
qed simp

lemma qsort_sorts:
  assumes "qsort cmp xs = Some ys"
  shows "mset ys = mset xs" "sorted_wrt (\<lambda>a b. cmp a b \<le> 0) ys"
proof -
  have c: "cmp_consistent cmp xs" and ys: "ys = foldr (cmp_insert cmp) xs []"
    using assms by (auto simp: qsort_def split: if_splits)
  show "mset ys = mset xs" by (simp add: ys mset_foldr_insert)
  show "sorted_wrt (\<lambda>a b. cmp a b \<le> 0) ys" unfolding ys using c
  proof (induction xs)
    case (Cons x xs)
    have "cmp_consistent cmp xs" "cmp_consistent cmp (x # foldr (cmp_insert cmp) xs [])"
      by (rule cmp_consistent_mono [OF Cons.prems]; auto simp: set_foldr_insert)+
    then show ?case using Cons.IH by (simp add: sorted_cmp_insert)
  qed simp
qed

end
