(* ===== verification/Elf_Maps.thy ===== *)
theory Elf_Maps
  imports Elf_File
begin

text \<open>
  The maps of an object in \<^verbatim>\<open>eBPF_app/libbpf/src/libbpf.c\<close>: the array that grows (\<^verbatim>\<open>bpf_object__add_map\<close>), the maps of the section
  \<^verbatim>\<open>maps\<close>, whose definitions are read from its bytes, the maps of the section \<^verbatim>\<open>.maps\<close>, whose definitions are read from the type
  information, the maps behind the global data, and their order (\<^verbatim>\<open>bpf_object__init_maps\<close>).
\<close>

unbundle bit_operations_syntax

section \<open>The array of maps\<close>

definition zero_def :: map_def where
  "zero_def = \<lparr>md_type = 0, md_key_size = 0, md_value_size = 0, md_max_entries = 0, md_flags = 0\<rparr>"

text \<open>A map whose bytes are zero, without descriptors.\<close>

definition fresh_map :: load_map where
  "fresh_map =
     \<lparr>lm_map = \<lparr>bm_name = '''', bm_fd = -1, bm_def = zero_def, bm_key_type_id = 0, bm_value_type_id = 0, bm_ifindex = 0, bm_reused = False,
                pm_pin_path = None, pm_pinned = False\<rparr>,
      lm_sec_idx = 0, lm_sec_offset = 0, lm_inner_map_fd = -1, lm_libbpf_type = LIBBPF_MAP_UNSPEC\<rparr>"

text \<open>The new map is the last of \<open>lo_maps\<close>.\<close>

definition bpf_object__add_map :: "'k open_env \<Rightarrow> elf_obj \<Rightarrow> int + elf_obj" where
  "bpf_object__add_map env obj =
     (case eo_spare_maps obj of
        m # ms \<Rightarrow> Inr (obj\<lparr>lo_maps := lo_maps obj @ [m], eo_spare_maps := ms\<rparr>)
      | [] \<Rightarrow>
          (let nr_maps = length (lo_maps obj); new_cap = max 4 (nr_maps * 3 div 2) in
           if \<not> oe_maps env new_cap then Inl (- ENOMEM)
           else Inr (obj\<lparr>lo_maps := lo_maps obj @ [fresh_map], eo_spare_maps := replicate (new_cap - nr_maps - 1) fresh_map\<rparr>)))"

definition last_map :: "elf_obj \<Rightarrow> load_map" where "last_map obj = last (lo_maps obj)"

definition set_last_map :: "load_map \<Rightarrow> elf_obj \<Rightarrow> elf_obj" where
  "set_last_map m obj = obj\<lparr>lo_maps := butlast (lo_maps obj) @ [m]\<rparr>"

definition set_map_name :: "string \<Rightarrow> load_map \<Rightarrow> load_map" where
  "set_map_name name m = m\<lparr>lm_map := (lm_map m)\<lparr>bm_name := name\<rparr>\<rparr>"

definition set_map_def :: "map_def \<Rightarrow> load_map \<Rightarrow> load_map" where
  "set_map_def d m = m\<lparr>lm_map := (lm_map m)\<lparr>bm_def := d\<rparr>\<rparr>"

section \<open>Global data\<close>

definition BPF_MAP_TYPE_ARRAY :: nat where "BPF_MAP_TYPE_ARRAY = 2"
definition BPF_F_RDONLY_PROG :: u32 where "BPF_F_RDONLY_PROG = 0x80"

text \<open>The name, at most 15 characters, of the object and of the section.\<close>

definition internal_map_name :: "string \<Rightarrow> string \<Rightarrow> string" where
  "internal_map_name oname tname = take (BPF_OBJ_NAME_LEN - 1) (take 8 oname @ take 7 tname)"

definition set_section_copy :: "libbpf_map_type \<Rightarrow> bytes \<Rightarrow> elf_obj \<Rightarrow> elf_obj" where
  "set_section_copy typ bs obj = (if typ = LIBBPF_MAP_DATA then obj\<lparr>lo_data := bs\<rparr> else obj\<lparr>lo_rodata := bs\<rparr>)"

text \<open>The data of a section that has an index is not a null pointer. The maps behind \<^verbatim>\<open>.data\<close> and \<^verbatim>\<open>.rodata\<close> keep a copy.\<close>

definition bpf_object__init_internal_map ::
    "'k open_env \<Rightarrow> libbpf_map_type \<Rightarrow> int \<Rightarrow> elf_data option \<Rightarrow> elf_obj \<Rightarrow> (int \<times> elf_obj) option" where
  "bpf_object__init_internal_map env typ sec_idx data obj =
     (case bpf_object__add_map env obj of
        Inl err \<Rightarrow> Some (err, obj)
      | Inr obj \<Rightarrow> do {
          tname \<leftarrow> libbpf_type_to_btf_name typ;
          let map_name = internal_map_name (eo_name obj) tname;
          let m = (last_map obj)\<lparr>lm_libbpf_type := typ, lm_sec_idx := sec_idx, lm_sec_offset := 0\<rparr>;
          if \<not> oe_strdup env map_name then Some (- ENOMEM, set_last_map m obj)
          else do {
            data \<leftarrow> data;
            let d = \<lparr>md_type = BPF_MAP_TYPE_ARRAY, md_key_size = 4, md_value_size = of_nat (d_size data), md_max_entries = 1,
                     md_flags = if typ = LIBBPF_MAP_RODATA then BPF_F_RDONLY_PROG else 0\<rparr>;
            let m = set_map_def d m;
            if typ = LIBBPF_MAP_BSS then Some (0, set_last_map (set_map_name map_name m) obj)
            else if \<not> oe_malloc env (d_size data) then Some (- ENOMEM, set_last_map m obj)
            else do {
              buf \<leftarrow> d_buf data;
              bs \<leftarrow> load buf 0 (d_size data);
              Some (0, set_section_copy typ bs (set_last_map (set_map_name map_name m) obj))
            }
          }
        })"

definition init_internal_if ::
    "'k open_env \<Rightarrow> libbpf_map_type \<Rightarrow> int \<Rightarrow> elf_data option \<Rightarrow> elf_obj \<Rightarrow> (int \<times> elf_obj) option" where
  "init_internal_if env typ shndx data obj =
     (if shndx \<ge> 0 then bpf_object__init_internal_map env typ shndx data obj else Some (0, obj))"

definition bpf_object__init_global_data_maps :: "'k open_env \<Rightarrow> elf_obj \<Rightarrow> (int \<times> elf_obj) option" where
  "bpf_object__init_global_data_maps env obj =
     (if \<not> lo_caps_global_data obj then Some (0, obj)
      else do {
        (err, obj) \<leftarrow> init_internal_if env LIBBPF_MAP_DATA (lo_data_shndx obj) (eo_data obj) obj;
        if err \<noteq> 0 then Some (err, obj)
        else do {
          (err, obj) \<leftarrow> init_internal_if env LIBBPF_MAP_RODATA (lo_rodata_shndx obj) (eo_rodata obj) obj;
          if err \<noteq> 0 then Some (err, obj)
          else init_internal_if env LIBBPF_MAP_BSS (lo_bss_shndx obj) (eo_bss obj) obj
        }
      })"

section \<open>Definitions as bytes\<close>

definition BPF_MAP_DEF :: nat where "BPF_MAP_DEF = 20"

definition def_bytes :: "map_def \<Rightarrow> bytes" where
  "def_bytes d = le_of_word 4 (of_nat (md_type d) :: u32) @ le_of_word 4 (md_key_size d) @ le_of_word 4 (md_value_size d) @
     le_of_word 4 (md_max_entries d) @ le_of_word 4 (md_flags d)"

definition def_of_bytes :: "bytes \<Rightarrow> map_def" where
  "def_of_bytes bs =
     \<lparr>md_type = unat (word_of_le (take 4 bs) :: u32), md_key_size = word_of_le (take 4 (drop 4 bs)),
      md_value_size = word_of_le (take 4 (drop 8 bs)), md_max_entries = word_of_le (take 4 (drop 12 bs)),
      md_flags = word_of_le (take 4 (drop 16 bs))\<rparr>"

text \<open>Copying \<open>n\<close> bytes over a definition.\<close>

definition copy_def :: "bytes \<Rightarrow> map_def \<Rightarrow> map_def option" where
  "copy_def bs d = map_option def_of_bytes (store (def_bytes d) 0 bs)"

definition in_section :: "elf_file \<Rightarrow> elf_data \<Rightarrow> int \<Rightarrow> nat \<Rightarrow> bool" where
  "in_section elf symbols shndx i = (case el_getsym elf symbols i of None \<Rightarrow> False | Some esym \<Rightarrow> uint (st_shndx esym) = shndx)"

text \<open>The definition at the offset of a symbol: \<open>Inl\<close> is an error. A definition that is longer than the structure must have
  zeros behind it, or is cut when the caller is not strict.\<close>

definition read_map_def :: "bool \<Rightarrow> elf_data \<Rightarrow> u64 \<Rightarrow> nat \<Rightarrow> map_def \<Rightarrow> (int + map_def) option" where
  "read_map_def strict data off map_def_sz d = do {
     buf \<leftarrow> d_buf data;
     bs \<leftarrow> load buf (unat off) map_def_sz;
     if map_def_sz \<le> BPF_MAP_DEF then map_option Inr (copy_def bs d)
     else if strict \<and> list_ex (\<lambda>b. b \<noteq> 0) (drop BPF_MAP_DEF bs) then Some (Inl (- EINVAL))
     else map_option Inr (copy_def (take BPF_MAP_DEF bs) d)
   }"

text \<open>One symbol of the section. The end of the definition is computed in 64 bits.\<close>

definition init_user_map :: "'k open_env \<Rightarrow> bool \<Rightarrow> elf_file \<Rightarrow> elf_data \<Rightarrow> nat \<Rightarrow> gelf_sym \<Rightarrow> elf_obj \<Rightarrow> (int \<times> elf_obj) option" where
  "init_user_map env strict elf data map_def_sz esym obj =
     (case bpf_object__add_map env obj of
        Inl err \<Rightarrow> Some (err, obj)
      | Inr obj \<Rightarrow>
          (case el_strptr elf (eo_strtabidx obj) (st_name esym) of
             None \<Rightarrow> Some (- LIBBPF_ERRNO__FORMAT, obj)
           | Some map_name \<Rightarrow>
               (let m = (last_map obj)\<lparr>lm_libbpf_type := LIBBPF_MAP_UNSPEC, lm_sec_idx := uint (st_shndx esym),
                          lm_sec_offset := unat (st_value esym)\<rparr> in
                if unat (st_value esym + of_nat map_def_sz) > d_size data then Some (- EINVAL, set_last_map m obj)
                else if \<not> oe_strdup env map_name then Some (- ENOMEM, set_last_map m obj)
                else do {
                  let m = set_map_name map_name m;
                  r \<leftarrow> read_map_def strict data (st_value esym) map_def_sz (bm_def (lm_map m));
                  Some (case r of
                          Inl err \<Rightarrow> (err, set_last_map m obj)
                        | Inr d \<Rightarrow> (0, set_last_map (set_map_def d m) obj))
                })))"

fun init_user_maps_loop ::
    "'k open_env \<Rightarrow> bool \<Rightarrow> elf_file \<Rightarrow> elf_data \<Rightarrow> elf_data \<Rightarrow> nat \<Rightarrow> nat list \<Rightarrow> elf_obj \<Rightarrow> (int \<times> elf_obj) option" where
  "init_user_maps_loop env strict elf symbols data map_def_sz [] obj = Some (0, obj)"
| "init_user_maps_loop env strict elf symbols data map_def_sz (i # is) obj =
     (case el_getsym elf symbols i of
        None \<Rightarrow> init_user_maps_loop env strict elf symbols data map_def_sz is obj
      | Some esym \<Rightarrow>
          if uint (st_shndx esym) \<noteq> lo_maps_shndx obj then init_user_maps_loop env strict elf symbols data map_def_sz is obj
          else do {
            (err, obj) \<leftarrow> init_user_map env strict elf data map_def_sz esym obj;
            if err \<noteq> 0 then Some (err, obj) else init_user_maps_loop env strict elf symbols data map_def_sz is obj
          })"

definition bpf_object__init_user_maps :: "'k open_env \<Rightarrow> bool \<Rightarrow> elf_obj \<Rightarrow> (int \<times> elf_obj) option" where
  "bpf_object__init_user_maps env strict obj =
     (if lo_maps_shndx obj < 0 then Some (0, obj)
      else (case eo_symbols obj of
              None \<Rightarrow> Some (- EINVAL, obj)
            | Some symbols \<Rightarrow> do {
                elf \<leftarrow> eo_elf obj;
                (case Option.bind (elf_getscn elf (lo_maps_shndx obj)) sn_data of
                   None \<Rightarrow> Some (- EINVAL, obj)
                 | Some data \<Rightarrow>
                     (let syms = [0..<nr_syms symbols];
                          nr_maps = length (filter (in_section elf symbols (lo_maps_shndx obj)) syms)
                      in if d_size data = 0 \<or> nr_maps = 0 \<or> d_size data mod nr_maps \<noteq> 0 then Some (- EINVAL, obj)
                         else init_user_maps_loop env strict elf symbols data (d_size data div nr_maps) syms obj))
              }))"

section \<open>Definitions as types\<close>

definition BTF_VAR_STATIC :: u32 where "BTF_VAR_STATIC = 0"
definition BTF_VAR_GLOBAL_ALLOCATED :: u32 where "BTF_VAR_GLOBAL_ALLOCATED = 1"
definition LIBBPF_PIN_NONE :: u32 where "LIBBPF_PIN_NONE = 0"
definition LIBBPF_PIN_BY_NAME :: u32 where "LIBBPF_PIN_BY_NAME = 1"
definition MAPS_ELF_SEC :: string where "MAPS_ELF_SEC = ''.maps''"

text \<open>The three words of an entry of a data section, and the linkage of a variable.\<close>

definition vsi_type :: "btf \<Rightarrow> btf_ptr \<Rightarrow> nat \<Rightarrow> u32 option" where "vsi_type b t i = btf_field b t (BTF_TYPE + 12 * i)"
definition vsi_offset :: "btf \<Rightarrow> btf_ptr \<Rightarrow> nat \<Rightarrow> u32 option" where "vsi_offset b t i = btf_field b t (BTF_TYPE + 12 * i + 4)"
definition vsi_size :: "btf \<Rightarrow> btf_ptr \<Rightarrow> nat \<Rightarrow> u32 option" where "vsi_size b t i = btf_field b t (BTF_TYPE + 12 * i + 8)"
definition var_linkage :: "btf \<Rightarrow> btf_ptr \<Rightarrow> u32 option" where "var_linkage b t = btf_field b t BTF_TYPE"

text \<open>An integer attribute is the length of the array that a member points to; inner \<open>None\<close> is the answer false.\<close>

definition get_map_field_int :: "btf \<Rightarrow> u32 \<Rightarrow> u32 option option" where
  "get_map_field_int b m_type = do {
     (t, _) \<leftarrow> skip_mods_and_typedefs b m_type;
     t \<leftarrow> t;
     ptr \<leftarrow> btf_is_ptr b t;
     if \<not> ptr then Some None
     else do {
       target \<leftarrow> t_type b t;
       arr_t \<leftarrow> btf__type_by_id b target;
       (case arr_t of
          None \<Rightarrow> Some None
        | Some arr_t \<Rightarrow> do {
            arr \<leftarrow> btf_is_array b arr_t;
            if \<not> arr then Some None else map_option Some (array_nelems b arr_t)
          })
     }
   }"

definition build_map_pin_path :: "'k open_env \<Rightarrow> string option \<Rightarrow> load_map \<Rightarrow> int \<times> load_map" where
  "build_map_pin_path env path m =
     (let path = (case path of None \<Rightarrow> ''/sys/fs/bpf'' | Some s \<Rightarrow> s);
          buf = path @ ''/'' @ bm_name (lm_map m)
      in if length buf \<ge> PATH_MAX then (- ENAMETOOLONG, m)
         else (let (err, mp) = bpf_map__set_pin_path (ok_fs (oe_kernel env)) (Some buf) (lm_map m) in (err, m\<lparr>lm_map := mp\<rparr>)))"

text \<open>An attribute that takes the length of an array.\<close>

definition int_attr :: "btf \<Rightarrow> u32 \<Rightarrow> load_map \<Rightarrow> (u32 \<Rightarrow> int \<times> load_map) \<Rightarrow> (int \<times> load_map) option" where
  "int_attr b m_type m upd = do {
     r \<leftarrow> get_map_field_int b m_type;
     Some (case r of None \<Rightarrow> (- EINVAL, m) | Some v \<Rightarrow> upd v)
   }"

text \<open>An attribute that takes the type a member points to, which must have a size.\<close>

definition type_attr :: "btf \<Rightarrow> u32 \<Rightarrow> load_map \<Rightarrow> (u32 \<Rightarrow> u32 \<Rightarrow> int \<times> load_map) \<Rightarrow> (int \<times> load_map) option" where
  "type_attr b m_type m upd = do {
     t \<leftarrow> btf__type_by_id b m_type;
     (case t of
        None \<Rightarrow> Some (- EINVAL, m)
      | Some t \<Rightarrow> do {
          ptr \<leftarrow> btf_is_ptr b t;
          if \<not> ptr then Some (- EINVAL, m)
          else do {
            target \<leftarrow> t_type b t;
            sz \<leftarrow> btf__resolve_size b target;
            Some (if sz < 0 then (sz, m) else upd target (of_int sz))
          }
        })
   }"

definition set_key_size :: "u32 \<Rightarrow> load_map \<Rightarrow> int \<times> load_map" where
  "set_key_size sz m =
     (let d = bm_def (lm_map m) in
      if md_key_size d \<noteq> 0 \<and> md_key_size d \<noteq> sz then (- EINVAL, m) else (0, set_map_def (d\<lparr>md_key_size := sz\<rparr>) m))"

definition set_value_size :: "u32 \<Rightarrow> load_map \<Rightarrow> int \<times> load_map" where
  "set_value_size sz m =
     (let d = bm_def (lm_map m) in
      if md_value_size d \<noteq> 0 \<and> md_value_size d \<noteq> sz then (- EINVAL, m) else (0, set_map_def (d\<lparr>md_value_size := sz\<rparr>) m))"

definition set_key_type :: "u32 \<Rightarrow> u32 \<Rightarrow> load_map \<Rightarrow> int \<times> load_map" where
  "set_key_type type_id sz m =
     (let (err, m) = set_key_size sz m
      in (err, if err = 0 then m\<lparr>lm_map := (lm_map m)\<lparr>bm_key_type_id := type_id\<rparr>\<rparr> else m))"

definition set_value_type :: "u32 \<Rightarrow> u32 \<Rightarrow> load_map \<Rightarrow> int \<times> load_map" where
  "set_value_type type_id sz m =
     (let (err, m) = set_value_size sz m
      in (err, if err = 0 then m\<lparr>lm_map := (lm_map m)\<lparr>bm_value_type_id := type_id\<rparr>\<rparr> else m))"

definition set_pinning :: "'k open_env \<Rightarrow> string option \<Rightarrow> u32 \<Rightarrow> load_map \<Rightarrow> int \<times> load_map" where
  "set_pinning env pin_root_path v m =
     (if v \<noteq> LIBBPF_PIN_NONE \<and> v \<noteq> LIBBPF_PIN_BY_NAME then (- EINVAL, m)
      else if v = LIBBPF_PIN_BY_NAME then build_map_pin_path env pin_root_path m
      else (0, m))"

text \<open>One member of the structure that defines a map.\<close>

definition btf_map_attr ::
    "'k open_env \<Rightarrow> btf \<Rightarrow> bool \<Rightarrow> string option \<Rightarrow> bytes \<Rightarrow> u32 \<Rightarrow> load_map \<Rightarrow> (int \<times> load_map) option" where
  "btf_map_attr env b strict pin_root_path name m_type m =
     (let d = bm_def (lm_map m) in
      if name = str_bytes ''type'' then int_attr b m_type m (\<lambda>v. (0, set_map_def (d\<lparr>md_type := unat v\<rparr>) m))
      else if name = str_bytes ''max_entries'' then int_attr b m_type m (\<lambda>v. (0, set_map_def (d\<lparr>md_max_entries := v\<rparr>) m))
      else if name = str_bytes ''map_flags'' then int_attr b m_type m (\<lambda>v. (0, set_map_def (d\<lparr>md_flags := v\<rparr>) m))
      else if name = str_bytes ''key_size'' then int_attr b m_type m (\<lambda>v. set_key_size v m)
      else if name = str_bytes ''key'' then type_attr b m_type m (\<lambda>target sz. set_key_type target sz m)
      else if name = str_bytes ''value_size'' then int_attr b m_type m (\<lambda>v. set_value_size v m)
      else if name = str_bytes ''value'' then type_attr b m_type m (\<lambda>target sz. set_value_type target sz m)
      else if name = str_bytes ''pinning'' then int_attr b m_type m (\<lambda>v. set_pinning env pin_root_path v m)
      else Some (if strict then - ENOTSUP else 0, m))"

fun btf_map_members ::
    "'k open_env \<Rightarrow> btf \<Rightarrow> bool \<Rightarrow> string option \<Rightarrow> btf_ptr \<Rightarrow> nat list \<Rightarrow> load_map \<Rightarrow> (int \<times> load_map) option" where
  "btf_map_members env b strict pin_root_path def [] m = Some (0, m)"
| "btf_map_members env b strict pin_root_path def (i # is) m = do {
     name_off \<leftarrow> member_name_off b def (of_nat i);
     name \<leftarrow> btf_name b name_off;
     (case name of
        None \<Rightarrow> Some (- EINVAL, m)
      | Some name \<Rightarrow> do {
          m_type \<leftarrow> member_type b def i;
          (err, m) \<leftarrow> btf_map_attr env b strict pin_root_path name m_type m;
          if err \<noteq> 0 then Some (err, m) else btf_map_members env b strict pin_root_path def is m
        })
   }"

text \<open>The checks on the variable and its structure before a map is added: \<open>Inl\<close> is an error, \<open>Inr\<close> the name, the
  offset and the structure.\<close>

definition btf_map_checks :: "btf \<Rightarrow> btf_ptr \<Rightarrow> nat \<Rightarrow> nat \<Rightarrow> (int + bytes \<times> nat \<times> btf_ptr) option" where
  "btf_map_checks b sec var_idx data_size = do {
     type_id \<leftarrow> vsi_type b sec var_idx;
     var \<leftarrow> btf__type_by_id b type_id;
     var \<leftarrow> var;
     name_off \<leftarrow> t_name_off b var;
     map_name \<leftarrow> btf_name b name_off;
     if str_is_empty map_name then Some (Inl (- EINVAL))
     else do {
       off \<leftarrow> vsi_offset b sec var_idx;
       sz \<leftarrow> vsi_size b sec var_idx;
       if unat off + unat sz > data_size then Some (Inl (- EINVAL))
       else do {
         is_var \<leftarrow> btf_is_var b var;
         if \<not> is_var then Some (Inl (- EINVAL))
         else do {
           linkage \<leftarrow> var_linkage b var;
           if linkage \<noteq> BTF_VAR_GLOBAL_ALLOCATED \<and> linkage \<noteq> BTF_VAR_STATIC then Some (Inl (- ENOTSUP))
           else do {
             var_type \<leftarrow> t_type b var;
             (def, _) \<leftarrow> skip_mods_and_typedefs b var_type;
             def \<leftarrow> def;
             is_struct \<leftarrow> btf_is_struct b def;
             if \<not> is_struct then Some (Inl (- EINVAL))
             else do {
               def_size \<leftarrow> t_size b def;
               Some (if def_size > sz then Inl (- EINVAL) else Inr (the map_name, unat off, def))
             }
           }
         }
       }
     }
   }"

definition bpf_object__init_user_btf_map ::
    "'k open_env \<Rightarrow> btf \<Rightarrow> btf_ptr \<Rightarrow> nat \<Rightarrow> int \<Rightarrow> elf_data \<Rightarrow> bool \<Rightarrow> string option \<Rightarrow> elf_obj \<Rightarrow> (int \<times> elf_obj) option" where
  "bpf_object__init_user_btf_map env b sec var_idx sec_idx data strict pin_root_path obj = do {
     r \<leftarrow> btf_map_checks b sec var_idx (d_size data);
     (case r of
        Inl err \<Rightarrow> Some (err, obj)
      | Inr (map_name, off, def) \<Rightarrow>
          (case bpf_object__add_map env obj of
             Inl err \<Rightarrow> Some (err, obj)
           | Inr obj \<Rightarrow>
               if \<not> oe_strdup env (bytes_str map_name) then Some (- ENOMEM, obj)
               else do {
                 let m = set_map_name (bytes_str map_name) (last_map obj);
                 let m = (set_map_def ((bm_def (lm_map m))\<lparr>md_type := 0\<rparr>) m)\<lparr>lm_libbpf_type := LIBBPF_MAP_UNSPEC,
                           lm_sec_idx := sec_idx, lm_sec_offset := off\<rparr>;
                 vlen \<leftarrow> btf_vlen b def;
                 (err, m) \<leftarrow> btf_map_members env b strict pin_root_path def [0..<unat vlen] m;
                 Some (if err \<noteq> 0 then err else if md_type (bm_def (lm_map m)) = 0 then - EINVAL else 0, set_last_map m obj)
               }))
   }"

text \<open>The first data section with the name; a name that is missing is read through the null pointer.\<close>

fun find_datasec :: "btf \<Rightarrow> bytes \<Rightarrow> nat list \<Rightarrow> btf_ptr option option" where
  "find_datasec b sec_name [] = Some None"
| "find_datasec b sec_name (i # is) = do {
     t \<leftarrow> btf__type_by_id b (of_nat i);
     t \<leftarrow> t;
     datasec \<leftarrow> btf_is_datasec b t;
     if \<not> datasec then find_datasec b sec_name is
     else do {
       name_off \<leftarrow> t_name_off b t;
       name \<leftarrow> btf_name b name_off;
       name \<leftarrow> name;
       if name = sec_name then Some (Some t) else find_datasec b sec_name is
     }
   }"

fun init_user_btf_maps_loop ::
    "'k open_env \<Rightarrow> btf \<Rightarrow> btf_ptr \<Rightarrow> elf_data \<Rightarrow> bool \<Rightarrow> string option \<Rightarrow> nat list \<Rightarrow> elf_obj \<Rightarrow> (int \<times> elf_obj) option" where
  "init_user_btf_maps_loop env b sec data strict pin_root_path [] obj = Some (0, obj)"
| "init_user_btf_maps_loop env b sec data strict pin_root_path (i # is) obj = do {
     (err, obj) \<leftarrow> bpf_object__init_user_btf_map env b sec i (lo_btf_maps_shndx obj) data strict pin_root_path obj;
     if err \<noteq> 0 then Some (err, obj) else init_user_btf_maps_loop env b sec data strict pin_root_path is obj
   }"

definition bpf_object__init_user_btf_maps :: "'k open_env \<Rightarrow> bool \<Rightarrow> string option \<Rightarrow> elf_obj \<Rightarrow> (int \<times> elf_obj) option" where
  "bpf_object__init_user_btf_maps env strict pin_root_path obj =
     (if lo_btf_maps_shndx obj < 0 then Some (0, obj)
      else do {
        elf \<leftarrow> eo_elf obj;
        (case Option.bind (elf_getscn elf (lo_btf_maps_shndx obj)) sn_data of
           None \<Rightarrow> Some (- EINVAL, obj)
         | Some data \<Rightarrow> do {
             b \<leftarrow> lo_btf obj;
             sec \<leftarrow> find_datasec b (str_bytes MAPS_ELF_SEC) [1..<Suc (unat (btf__get_nr_types b))];
             (case sec of
                None \<Rightarrow> Some (- ENOENT, obj)
              | Some sec \<Rightarrow> do {
                  vlen \<leftarrow> btf_vlen b sec;
                  init_user_btf_maps_loop env b sec data strict pin_root_path [0..<unat vlen] obj
                })
           })
      })"

section \<open>All maps\<close>

text \<open>The comparison returns an int: the difference of the offsets is cut to 32 bits.\<close>

definition compare_bpf_map :: "load_map \<Rightarrow> load_map \<Rightarrow> int" where
  "compare_bpf_map a b =
     (if lm_sec_idx a \<noteq> lm_sec_idx b then lm_sec_idx a - lm_sec_idx b
      else sint (of_int (int (lm_sec_offset a) - int (lm_sec_offset b)) :: u32))"

definition bpf_object__init_maps :: "'k open_env \<Rightarrow> bool \<Rightarrow> string option \<Rightarrow> elf_obj \<Rightarrow> (int \<times> elf_obj) option" where
  "bpf_object__init_maps env relaxed_maps pin_root_path obj = do {
     let strict = (\<not> relaxed_maps);
     (err, obj) \<leftarrow> bpf_object__init_user_maps env strict obj;
     if err \<noteq> 0 then Some (err, obj)
     else do {
       (err, obj) \<leftarrow> bpf_object__init_user_btf_maps env strict pin_root_path obj;
       if err \<noteq> 0 then Some (err, obj)
       else do {
         (err, obj) \<leftarrow> bpf_object__init_global_data_maps env obj;
         if err \<noteq> 0 then Some (err, obj)
         else do {
           maps \<leftarrow> qsort compare_bpf_map (lo_maps obj);
           Some (0, obj\<lparr>lo_maps := maps\<rparr>)
         }
       }
     }
   }"

section \<open>What reading the maps leaves alone\<close>

text \<open>The steps change the maps and the copies of the data; a map has no descriptor before it is created.\<close>

definition no_map_fds :: "elf_obj \<Rightarrow> bool" where
  "no_map_fds obj \<longleftrightarrow> (\<forall>m\<in>set (lo_maps obj) \<union> set (eo_spare_maps obj). bm_fd (lm_map m) = -1)"

definition map_step :: "elf_obj \<Rightarrow> elf_obj \<Rightarrow> bool" where
  "map_step obj obj' \<longleftrightarrow> eo_elf obj' = eo_elf obj \<and> eo_fd obj' = eo_fd obj \<and> lo_programs obj' = lo_programs obj \<and> lo_btf obj' = lo_btf obj \<and>
     lo_has_pseudo_calls obj' = lo_has_pseudo_calls obj \<and> lo_text_shndx obj' = lo_text_shndx obj \<and> (no_map_fds obj \<longrightarrow> no_map_fds obj')"

lemma map_step_refl [simp]: "map_step obj obj"
  by (simp add: map_step_def)

lemma map_step_trans: "map_step a b \<Longrightarrow> map_step b c \<Longrightarrow> map_step a c"
  by (simp add: map_step_def)

lemma map_set_simps [simp]:
  "bm_fd (lm_map (set_map_name name m)) = bm_fd (lm_map m)" "bm_fd (lm_map (set_map_def d m)) = bm_fd (lm_map m)"
  by (simp_all add: set_map_name_def set_map_def_def)

lemma map_step_section_copy: "map_step obj obj' \<Longrightarrow> map_step obj (set_section_copy typ bs obj')"
  by (simp add: map_step_def set_section_copy_def no_map_fds_def)

text \<open>Adding a map and filling it in.\<close>

lemma add_map_step:
  assumes "bpf_object__add_map env obj = Inr obj'"
  shows "map_step obj obj'" "lo_maps obj' \<noteq> []"
  using assms by (auto simp: bpf_object__add_map_def map_step_def no_map_fds_def fresh_map_def Let_def split: list.splits if_splits)

lemma set_last_map_step:
  assumes "map_step obj obj1" "lo_maps obj1 \<noteq> []" "bm_fd (lm_map m) = bm_fd (lm_map (last_map obj1))"
  shows "map_step obj (set_last_map m obj1)"
  using assms last_in_set [OF assms(2)]
  by (auto simp: map_step_def no_map_fds_def set_last_map_def last_map_def dest: in_set_butlastD)

lemma init_internal_map_step:
  assumes "bpf_object__init_internal_map env typ sec_idx data obj = Some (err, obj')"
  shows "map_step obj obj'"
proof (cases "bpf_object__add_map env obj")
  case (Inr obj1)
  note a = add_map_step [OF Inr]
  show ?thesis
    using assms Inr
    by (auto simp: bpf_object__init_internal_map_def Let_def intro!: map_step_section_copy set_last_map_step a split: if_splits Option.bind_splits)
qed (use assms in \<open>simp add: bpf_object__init_internal_map_def\<close>)

lemma init_internal_if_step: "init_internal_if env typ shndx data obj = Some (err, obj') \<Longrightarrow> map_step obj obj'"
  by (auto simp: init_internal_if_def intro: init_internal_map_step split: if_splits)

lemma init_global_data_maps_step: "bpf_object__init_global_data_maps env obj = Some (err, obj') \<Longrightarrow> map_step obj obj'"
  by (auto simp: bpf_object__init_global_data_maps_def split: if_splits Option.bind_splits dest!: init_internal_if_step)
    (blast intro: map_step_trans)+

lemma init_user_map_step:
  assumes "init_user_map env strict elf data sz esym obj = Some (err, obj')"
  shows "map_step obj obj'"
proof (cases "bpf_object__add_map env obj")
  case (Inr obj1)
  note a = add_map_step [OF Inr]
  show ?thesis
    using assms Inr
    by (auto simp: init_user_map_def Let_def intro!: set_last_map_step a intro: add_map_step(1) split: if_splits Option.bind_splits option.splits sum.splits)
qed (use assms in \<open>simp add: init_user_map_def\<close>)

lemma init_user_maps_loop_step: "init_user_maps_loop env strict elf symbols data sz is obj = Some (err, obj') \<Longrightarrow> map_step obj obj'"
  by (induction "is" arbitrary: obj)
    (auto split: if_splits Option.bind_splits option.splits dest!: init_user_map_step intro: map_step_trans)

lemma init_user_maps_step: "bpf_object__init_user_maps env strict obj = Some (err, obj') \<Longrightarrow> map_step obj obj'"
  by (auto simp: bpf_object__init_user_maps_def Let_def intro: init_user_maps_loop_step
      split: if_splits Option.bind_splits option.splits)

lemma int_attr_fd:
  assumes "int_attr b m_type m upd = Some (err, m')" "\<And>v. bm_fd (lm_map (snd (upd v))) = bm_fd (lm_map m)"
  shows "bm_fd (lm_map m') = bm_fd (lm_map m)"
  using assms by (auto simp: int_attr_def split: Option.bind_splits option.splits) (metis snd_conv)

lemma type_attr_fd:
  assumes "type_attr b m_type m upd = Some (err, m')" "\<And>t v. bm_fd (lm_map (snd (upd t v))) = bm_fd (lm_map m)"
  shows "bm_fd (lm_map m') = bm_fd (lm_map m)"
  using assms by (auto simp: type_attr_def split: Option.bind_splits option.splits if_splits) (metis snd_conv)

lemma set_attr_fds [simp]:
  "bm_fd (lm_map (snd (set_key_size sz m))) = bm_fd (lm_map m)" "bm_fd (lm_map (snd (set_value_size sz m))) = bm_fd (lm_map m)"
  "bm_fd (lm_map (snd (set_key_type t sz m))) = bm_fd (lm_map m)" "bm_fd (lm_map (snd (set_value_type t sz m))) = bm_fd (lm_map m)"
  "bm_fd (lm_map (snd (set_pinning env root v m))) = bm_fd (lm_map m)"
  by (auto simp: set_key_size_def set_value_size_def set_key_type_def set_value_type_def set_pinning_def build_map_pin_path_def
      bpf_map__set_pin_path_def Let_def)

lemma btf_map_attr_fd: "btf_map_attr env b strict root name m_type m = Some (err, m') \<Longrightarrow> bm_fd (lm_map m') = bm_fd (lm_map m)"
  unfolding btf_map_attr_def Let_def by (simp split: if_split_asm; erule int_attr_fd type_attr_fd; simp)

lemma btf_map_members_fd: "btf_map_members env b strict root d is m = Some (err, m') \<Longrightarrow> bm_fd (lm_map m') = bm_fd (lm_map m)"
  by (induction "is" arbitrary: m) (auto split: Option.bind_splits option.splits if_splits dest: btf_map_attr_fd)

lemma init_user_btf_map_step:
  assumes "bpf_object__init_user_btf_map env b sec i sec_idx data strict root obj = Some (err, obj')"
  shows "map_step obj obj'"
proof (cases "bpf_object__add_map env obj")
  case (Inr obj1)
  note a = add_map_step [OF Inr]
  show ?thesis
    using assms Inr
    by (auto simp: bpf_object__init_user_btf_map_def Let_def intro!: set_last_map_step a intro: add_map_step(1) dest!: btf_map_members_fd
        split: if_splits Option.bind_splits sum.splits)
qed (use assms in \<open>auto simp: bpf_object__init_user_btf_map_def split: Option.bind_splits sum.splits\<close>)

lemma init_user_btf_maps_loop_step: "init_user_btf_maps_loop env b sec data strict root is obj = Some (err, obj') \<Longrightarrow> map_step obj obj'"
  by (induction "is" arbitrary: obj) (auto split: if_splits Option.bind_splits dest!: init_user_btf_map_step intro: map_step_trans)

lemma init_user_btf_maps_step: "bpf_object__init_user_btf_maps env strict root obj = Some (err, obj') \<Longrightarrow> map_step obj obj'"
  by (auto simp: bpf_object__init_user_btf_maps_def intro: init_user_btf_maps_loop_step split: if_splits Option.bind_splits option.splits)

lemma qsort_maps_step: "qsort cmp (lo_maps obj) = Some ms \<Longrightarrow> map_step obj (obj\<lparr>lo_maps := ms\<rparr>)"
  using qsort_sorts(1) [of cmp "lo_maps obj" ms] by (auto simp: map_step_def no_map_fds_def dest: mset_eq_setD)

lemma init_maps_step:
  assumes "bpf_object__init_maps env relaxed root obj = Some (err, obj')"
  shows "map_step obj obj'"
  using assms
  by (auto simp: bpf_object__init_maps_def Let_def split: if_splits Option.bind_splits
      dest!: init_user_maps_step init_user_btf_maps_step init_global_data_maps_step qsort_maps_step)
    (blast intro: map_step_trans)+

section \<open>The maps of the section\<close>

text \<open>What the section says: the definition of a map is the bytes at the offset of its symbol, with zeros where they are shorter than the
  structure; the symbols are taken in the order of the symbol table.\<close>

definition pad_def :: "bytes \<Rightarrow> map_def" where
  "pad_def bs = def_of_bytes (take BPF_MAP_DEF (bs @ replicate BPF_MAP_DEF 0))"

definition section_syms :: "elf_file \<Rightarrow> elf_data \<Rightarrow> int \<Rightarrow> nat list \<Rightarrow> gelf_sym list" where
  "section_syms elf symbols shndx is = filter (\<lambda>s. uint (st_shndx s) = shndx) (List.map_filter (el_getsym elf symbols) is)"

definition def_at :: "bytes \<Rightarrow> nat \<Rightarrow> gelf_sym \<Rightarrow> bytes" where
  "def_at buf sz esym = take sz (drop (unat (st_value esym)) buf)"

definition user_map :: "elf_file \<Rightarrow> nat \<Rightarrow> bytes \<Rightarrow> nat \<Rightarrow> gelf_sym \<Rightarrow> load_map" where
  "user_map elf strtabidx buf sz esym =
     fresh_map\<lparr>lm_map := (lm_map fresh_map)\<lparr>bm_name := the (el_strptr elf strtabidx (st_name esym)), bm_def := pad_def (def_at buf sz esym)\<rparr>,
       lm_sec_idx := uint (st_shndx esym), lm_sec_offset := unat (st_value esym)\<rparr>"

definition spare_fresh :: "elf_obj \<Rightarrow> bool" where
  "spare_fresh obj \<longleftrightarrow> (\<forall>m\<in>set (eo_spare_maps obj). m = fresh_map)"

lemma section_syms_length: "length (section_syms elf symbols shndx is) = length (filter (in_section elf symbols shndx) is)"
  by (induction "is") (auto simp: section_syms_def in_section_def List.map_filter_def split: option.splits)

lemma add_map_fresh:
  assumes "bpf_object__add_map env obj = Inr obj'" "spare_fresh obj"
  shows "\<exists>sp. obj' = obj\<lparr>lo_maps := lo_maps obj @ [fresh_map], eo_spare_maps := sp\<rparr> \<and> spare_fresh obj'"
  using assms by (auto simp: bpf_object__add_map_def spare_fresh_def Let_def split: list.splits if_splits)

lemma zero_def_bytes: "def_bytes zero_def = replicate BPF_MAP_DEF 0"
  by code_simp

lemma copy_def_zero:
  assumes "copy_def bs zero_def = Some d"
  shows "length bs \<le> BPF_MAP_DEF \<and> d = pad_def bs"
proof -
  have "length bs \<le> BPF_MAP_DEF" "d = def_of_bytes (bs @ drop (length bs) (replicate BPF_MAP_DEF 0))"
    using assms by (auto simp: copy_def_def zero_def_bytes store_def split: if_splits)
  then show ?thesis by (simp add: pad_def_def)
qed

lemma read_map_def_reads:
  assumes "read_map_def strict data off sz zero_def = Some (Inr d)" "d_buf data = Some buf"
  shows "d = pad_def (take sz (drop (unat off) buf)) \<and> unat off + sz \<le> length buf \<and>
    (strict \<longrightarrow> (\<forall>b\<in>set (drop BPF_MAP_DEF (take sz (drop (unat off) buf))). b = 0))"
proof -
  let ?bs = "take sz (drop (unat off) buf)"
  have inside: "unat off + sz \<le> length buf" using assms by (auto simp: read_map_def_def load_def split: if_splits)
  then have len: "length ?bs = sz" by simp
  show ?thesis
  proof (cases "sz \<le> BPF_MAP_DEF")
    case True
    then have "copy_def ?bs zero_def = Some d" using assms inside by (simp add: read_map_def_def load_def)
    then show ?thesis using copy_def_zero [of ?bs d] inside True by simp
  next
    case False
    then have "copy_def (take BPF_MAP_DEF ?bs) zero_def = Some d" "strict \<longrightarrow> \<not> list_ex (\<lambda>b. b \<noteq> 0) (drop BPF_MAP_DEF ?bs)"
      using assms inside by (auto simp: read_map_def_def load_def split: if_splits)
    moreover have "pad_def (take BPF_MAP_DEF ?bs) = pad_def ?bs" using False len by (simp add: pad_def_def)
    ultimately show ?thesis using copy_def_zero [of "take BPF_MAP_DEF ?bs" d] inside by (auto simp: list_ex_iff)
  qed
qed

text \<open>A symbol whose definition was accepted.\<close>

definition sym_ok :: "bool \<Rightarrow> elf_file \<Rightarrow> nat \<Rightarrow> bytes \<Rightarrow> nat \<Rightarrow> gelf_sym \<Rightarrow> bool" where
  "sym_ok strict elf strtabidx buf sz esym \<longleftrightarrow> el_strptr elf strtabidx (st_name esym) \<noteq> None \<and> unat (st_value esym) + sz \<le> length buf \<and>
     (strict \<longrightarrow> (\<forall>b\<in>set (drop BPF_MAP_DEF (def_at buf sz esym)). b = 0))"

lemma init_user_map_reads:
  assumes "init_user_map env strict elf data sz esym obj = Some (0, obj')" "spare_fresh obj" "d_buf data = Some buf"
  shows "(\<exists>sp. obj' = obj\<lparr>lo_maps := lo_maps obj @ [user_map elf (eo_strtabidx obj) buf sz esym], eo_spare_maps := sp\<rparr> \<and> spare_fresh obj') \<and>
    sym_ok strict elf (eo_strtabidx obj) buf sz esym"
proof -
  obtain obj1 where a: "bpf_object__add_map env obj = Inr obj1"
    using assms(1) by (auto simp: init_user_map_def bpf_object__add_map_def ENOMEM_def Let_def split: list.splits if_splits)
  obtain sp where o1: "obj1 = obj\<lparr>lo_maps := lo_maps obj @ [fresh_map], eo_spare_maps := sp\<rparr>" and f: "spare_fresh obj1"
    using add_map_fresh [OF a assms(2)] by blast
  obtain name where n: "el_strptr elf (eo_strtabidx obj) (st_name esym) = Some name"
    using assms(1) a o1 by (auto simp: init_user_map_def LIBBPF_ERRNO__FORMAT_def split: option.splits)
  let ?m = "fresh_map\<lparr>lm_sec_idx := uint (st_shndx esym), lm_sec_offset := unat (st_value esym)\<rparr>"
  have lib: "fresh_map\<lparr>lm_libbpf_type := LIBBPF_MAP_UNSPEC\<rparr> = fresh_map" by (simp add: fresh_map_def)
  have zd: "bm_def (lm_map fresh_map) = zero_def" by (simp add: fresh_map_def)
  obtain d where d: "read_map_def strict data (st_value esym) sz zero_def = Some (Inr d)"
    and o': "obj' = set_last_map (set_map_def d (set_map_name name ?m)) obj1"
    using assms(1) a o1 n lib
    by (auto simp: init_user_map_def last_map_def set_map_name_def zd read_map_def_def errno_defs Let_def
        split: if_splits Option.bind_splits sum.splits)
  note r = read_map_def_reads [OF d assms(3)]
  have "obj' = obj\<lparr>lo_maps := lo_maps obj @ [user_map elf (eo_strtabidx obj) buf sz esym], eo_spare_maps := sp\<rparr>"
    using r by (simp add: o' o1 set_last_map_def set_map_def_def set_map_name_def user_map_def n def_at_def)
  moreover have "spare_fresh obj'" using f by (simp add: o' set_last_map_def spare_fresh_def)
  ultimately show ?thesis using r n by (auto simp: sym_ok_def def_at_def)
qed

lemma init_user_maps_loop_reads:
  assumes "init_user_maps_loop env strict elf symbols data sz is obj = Some (0, obj')" "spare_fresh obj" "d_buf data = Some buf"
  shows "let esyms = section_syms elf symbols (lo_maps_shndx obj) is in
    (\<exists>sp. obj' = obj\<lparr>lo_maps := lo_maps obj @ map (user_map elf (eo_strtabidx obj) buf sz) esyms, eo_spare_maps := sp\<rparr> \<and> spare_fresh obj') \<and>
    (\<forall>esym\<in>set esyms. sym_ok strict elf (eo_strtabidx obj) buf sz esym)"
  using assms(1,2)
proof (induction "is" arbitrary: obj)
  case Nil
  then show ?case by (auto simp: section_syms_def List.map_filter_def intro: exI [of _ "eo_spare_maps obj"])
next
  case (Cons i "is")
  show ?case
  proof (cases "\<exists>esym. el_getsym elf symbols i = Some esym \<and> uint (st_shndx esym) = lo_maps_shndx obj")
    case False
    then have "section_syms elf symbols (lo_maps_shndx obj) (i # is) = section_syms elf symbols (lo_maps_shndx obj) is"
      "init_user_maps_loop env strict elf symbols data sz is obj = Some (0, obj')"
      using Cons.prems(1) by (auto simp: section_syms_def List.map_filter_def split: option.splits if_splits)
    then show ?thesis using Cons.IH Cons.prems(2) by simp
  next
    case True
    then obtain esym where e: "el_getsym elf symbols i = Some esym" "uint (st_shndx esym) = lo_maps_shndx obj" by blast
    then obtain obj1 where s: "init_user_map env strict elf data sz esym obj = Some (0, obj1)"
      "init_user_maps_loop env strict elf symbols data sz is obj1 = Some (0, obj')"
      using Cons.prems(1) by (auto split: Option.bind_splits if_splits)
    obtain sp where o1: "obj1 = obj\<lparr>lo_maps := lo_maps obj @ [user_map elf (eo_strtabidx obj) buf sz esym], eo_spare_maps := sp\<rparr>"
      and f: "spare_fresh obj1" and ok: "sym_ok strict elf (eo_strtabidx obj) buf sz esym"
      using init_user_map_reads [OF s(1) Cons.prems(2) assms(3)] by blast
    have "section_syms elf symbols (lo_maps_shndx obj) (i # is) = esym # section_syms elf symbols (lo_maps_shndx obj) is"
      using e by (simp add: section_syms_def List.map_filter_def)
    then show ?thesis using Cons.IH [OF s(2) f] ok by (auto simp: o1 Let_def)
  qed
qed

text \<open>C23: The maps of the section \<^verbatim>\<open>maps\<close>. When reading them succeeds, one map was added for every symbol of the section, in the order of
  the symbol table, with the name of the symbol and the definition that its bytes spell; the section is cut into definitions of the
  same size, every definition lies inside it, and a strict caller only gets definitions whose bytes behind the known structure are
  zero.\<close>

theorem init_user_maps_reads:
  assumes "bpf_object__init_user_maps env strict obj = Some (0, obj')" "0 \<le> lo_maps_shndx obj" "spare_fresh obj"
    and "eo_symbols obj = Some symbols" "eo_elf obj = Some elf" "Option.bind (elf_getscn elf (lo_maps_shndx obj)) sn_data = Some data"
    and "d_buf data = Some buf"
  shows "let esyms = section_syms elf symbols (lo_maps_shndx obj) [0..<nr_syms symbols]; sz = d_size data div length esyms in
    esyms \<noteq> [] \<and> sz * length esyms = d_size data
    \<and> lo_maps obj' = lo_maps obj @ map (user_map elf (eo_strtabidx obj) buf sz) esyms
    \<and> (\<forall>esym\<in>set esyms. sym_ok strict elf (eo_strtabidx obj) buf sz esym)"
proof -
  let ?esyms = "section_syms elf symbols (lo_maps_shndx obj) [0..<nr_syms symbols]"
  let ?sz = "d_size data div length ?esyms"
  have n: "length ?esyms \<noteq> 0" "d_size data mod length ?esyms = 0"
    and s: "init_user_maps_loop env strict elf symbols data ?sz [0..<nr_syms symbols] obj = Some (0, obj')"
    using assms(1,2,4-6) by (auto simp: bpf_object__init_user_maps_def section_syms_length Let_def errno_defs split: if_splits)
  then have "?sz * length ?esyms = d_size data" by (metis div_mult_mod_eq add.right_neutral)
  then show ?thesis using init_user_maps_loop_reads [OF s assms(3,7)] n(1) by (auto simp: Let_def)
qed

text \<open>A section with two definitions of 24 bytes: an array and a hash table.\<close>

definition maps_buf :: bytes where
  "maps_buf = [2,0,0,0, 4,0,0,0, 8,0,0,0, 16,0,0,0, 0,0,0,0, 0,0,0,0,  1,0,0,0, 2,0,0,0, 1,0,0,0, 0,1,0,0, 0,0,0,0, 0,0,0,0]"

definition maps_data :: elf_data where "maps_data = \<lparr>d_buf = Some maps_buf, d_size = 48\<rparr>"
definition maps_symtab :: elf_data where "maps_symtab = \<lparr>d_buf = Some [], d_size = 72\<rparr>"

definition maps_file :: elf_file where
  "maps_file = \<lparr>el_ehdr = None, el_scns = [\<lparr>sn_shdr = None, sn_data = None\<rparr>, \<lparr>sn_shdr = None, sn_data = Some maps_data\<rparr>], el_rawdata = \<lambda>_. True,
     el_strptr = \<lambda>_ n. Some (if n = 1 then ''flows'' else ''ports''),
     el_getsym = \<lambda>_ i. arr_get [\<lparr>st_name = 0, st_info = 0, st_shndx = 0, st_value = 0\<rparr>, \<lparr>st_name = 1, st_info = 0x11, st_shndx = 1, st_value = 24\<rparr>,
       \<lparr>st_name = 7, st_info = 0x11, st_shndx = 1, st_value = 0\<rparr>] i,
     el_getrel = \<lambda>_ _. None\<rparr>"

definition maps_obj :: elf_obj where
  "maps_obj = zero_obj\<lparr>eo_elf := Some maps_file, eo_symbols := Some maps_symtab, eo_strtabidx := 1, lo_maps_shndx := 1\<rparr>"

definition demo_open_env :: "'k obj_kernel \<Rightarrow> 'k open_env" where
  "demo_open_env kn = \<lparr>oe_kernel = kn, oe_open = \<lambda>_ k. (- ENOENT, k), oe_btf_load = \<lambda>_ _ k. (- EINVAL, k), oe_elf_version = True,
     oe_elf_begin = \<lambda>_ _. None, oe_elf_memory = \<lambda>_. None, oe_release = ''5.4.0'', oe_calloc = True, oe_strdup = \<lambda>_. True,
     oe_pin_strdup = \<lambda>_. True, oe_malloc = \<lambda>_. True, oe_programs = \<lambda>_. True, oe_maps = \<lambda>_. True, oe_relocs = \<lambda>_. True, oe_btf_calloc = True,
     oe_btf_types = \<lambda>_. True\<rparr>"

lemma maps_obj_reads: "map_option fst (bpf_object__init_user_maps (demo_open_env small_kernel_ops) True maps_obj) = Some 0"
  by code_simp

theorem init_user_maps_reads_witness:
  "\<exists>obj'. bpf_object__init_user_maps (demo_open_env small_kernel_ops) True maps_obj = Some (0, obj') \<and>
     map (\<lambda>m. (bm_name (lm_map m), lm_sec_offset m, bm_def (lm_map m))) (lo_maps obj') =
       [(''flows'', 24, \<lparr>md_type = 1, md_key_size = 2, md_value_size = 1, md_max_entries = 256, md_flags = 0\<rparr>),
        (''ports'', 0, \<lparr>md_type = 2, md_key_size = 4, md_value_size = 8, md_max_entries = 16, md_flags = 0\<rparr>)]"
proof -
  obtain obj' where o: "bpf_object__init_user_maps (demo_open_env small_kernel_ops) True maps_obj = Some (0, obj')"
    using maps_obj_reads by auto
  have esyms: "section_syms maps_file maps_symtab 1 [0..<nr_syms maps_symtab] =
      [\<lparr>st_name = 1, st_info = 0x11, st_shndx = 1, st_value = 24\<rparr>, \<lparr>st_name = 7, st_info = 0x11, st_shndx = 1, st_value = 0\<rparr>]"
    by code_simp
  have d: "Option.bind (elf_getscn maps_file (lo_maps_shndx maps_obj)) sn_data = Some maps_data" by code_simp
  have h: "0 \<le> lo_maps_shndx maps_obj" "spare_fresh maps_obj" "eo_symbols maps_obj = Some maps_symtab" "eo_elf maps_obj = Some maps_file"
    "d_buf maps_data = Some maps_buf"
    by (simp_all add: maps_obj_def maps_data_def spare_fresh_def zero_obj_def)
  have e: "lo_maps_shndx maps_obj = 1" "lo_maps maps_obj = []" "eo_strtabidx maps_obj = 1" "d_size maps_data = 48"
    by (simp_all add: maps_obj_def maps_data_def zero_obj_def)
  have defs: "pad_def (take 24 (drop 24 maps_buf)) = \<lparr>md_type = 1, md_key_size = 2, md_value_size = 1, md_max_entries = 256, md_flags = 0\<rparr>"
    "pad_def (take 24 (drop 0 maps_buf)) = \<lparr>md_type = 2, md_key_size = 4, md_value_size = 8, md_max_entries = 16, md_flags = 0\<rparr>"
    by code_simp+
  from init_user_maps_reads [OF o h(1,2,3,4) d h(5)] have "lo_maps obj' = map (user_map maps_file 1 maps_buf 24)
      (section_syms maps_file maps_symtab 1 [0..<nr_syms maps_symtab])"
    by (simp add: Let_def e esyms numeral_2_eq_2 [symmetric])
  then have "lo_maps obj' = map (user_map maps_file 1 maps_buf 24)
      [\<lparr>st_name = 1, st_info = 0x11, st_shndx = 1, st_value = 24\<rparr>, \<lparr>st_name = 7, st_info = 0x11, st_shndx = 1, st_value = 0\<rparr>]"
    by (simp only: esyms)
  moreover have "el_strptr maps_file 1 1 = Some ''flows''" "el_strptr maps_file 1 7 = Some ''ports''" by (simp_all add: maps_file_def)
  ultimately show ?thesis using o defs by (simp add: user_map_def def_at_def)
qed
end
