(* ===== verification/Btf_Fix.thy ===== *)
theory Btf_Fix
  imports Elf_Maps
begin

text \<open>
  What is changed in the type information of an object before it goes to the kernel: the sizes of the data sections and the
  offsets of their variables are filled in from the ELF file (\<^verbatim>\<open>btf__finalize_data\<close> in \<^verbatim>\<open>eBPF_app/libbpf/src/btf.c\<close>), and kinds that
  an old kernel does not know are replaced by older ones of the same length (\<^verbatim>\<open>bpf_object__sanitize_btf\<close> in \<^verbatim>\<open>libbpf.c\<close>). Both
  write into the blob. \<open>None\<close> is an access outside the blob or through a null pointer.
\<close>

unbundle bit_operations_syntax

section \<open>Writing types\<close>

definition BTF_MAX_VLEN :: u32 where "BTF_MAX_VLEN = 0xffff"

definition BTF_INFO_ENC :: "u32 \<Rightarrow> bool \<Rightarrow> u32 \<Rightarrow> u32" where
  "BTF_INFO_ENC kind kind_flag vlen = (push_bit 31 (of_bool kind_flag) OR push_bit 24 kind) OR (vlen AND BTF_MAX_VLEN)"

definition BTF_INT_ENC :: "u32 \<Rightarrow> u32 \<Rightarrow> u32 \<Rightarrow> u32" where
  "BTF_INT_ENC encoding bits_offset nr_bits = (push_bit 24 encoding OR push_bit 16 bits_offset) OR nr_bits"

text \<open>A word of a type. The type void is not in the blob and never written.\<close>

fun set_field :: "btf_ptr \<Rightarrow> nat \<Rightarrow> u32 \<Rightarrow> btf \<Rightarrow> btf option" where
  "set_field Btf_void k v b = None"
| "set_field (Btf_at off) k v b = map_option (\<lambda>d. b\<lparr>btf_data := d\<rparr>) (store (btf_data b) (off + k) (le_of_word 4 v))"

section \<open>Data sections\<close>

text \<open>The entries of a data section, each with its twelve bytes.\<close>

definition vsi_entries :: "btf \<Rightarrow> nat \<Rightarrow> nat \<Rightarrow> bytes list option" where
  "vsi_entries b off vars =
     (if off + BTF_TYPE + 12 * vars \<le> length (btf_data b)
      then Some (map (\<lambda>i. take 12 (drop (off + BTF_TYPE + 12 * i) (btf_data b))) [0..<vars]) else None)"

definition entry_offset :: "bytes \<Rightarrow> u32" where "entry_offset e = word_of_le (take 4 (drop 4 e))"

text \<open>The difference of two unsigned offsets, as an int.\<close>

definition compare_vsi_off :: "bytes \<Rightarrow> bytes \<Rightarrow> int" where
  "compare_vsi_off a b = sint (entry_offset a - entry_offset b)"

fun sort_vsi :: "btf_ptr \<Rightarrow> nat \<Rightarrow> btf \<Rightarrow> btf option" where
  "sort_vsi Btf_void vars b = None"
| "sort_vsi (Btf_at off) vars b = do {
     es \<leftarrow> vsi_entries b off vars;
     es \<leftarrow> qsort compare_vsi_off es;
     d \<leftarrow> store (btf_data b) (off + BTF_TYPE) (concat es);
     Some (b\<lparr>btf_data := d\<rparr>)
   }"

fun fixup_vars :: "elf_obj \<Rightarrow> btf_ptr \<Rightarrow> nat list \<Rightarrow> btf \<Rightarrow> (int \<times> btf) option" where
  "fixup_vars obj t [] b = Some (0, b)"
| "fixup_vars obj t (i # is) b = do {
     type_id \<leftarrow> vsi_type b t i;
     t_var \<leftarrow> btf__type_by_id b type_id;
     t_var \<leftarrow> t_var;
     is_var \<leftarrow> btf_is_var b t_var;
     if \<not> is_var then Some (- EINVAL, b)
     else do {
       linkage \<leftarrow> var_linkage b t_var;
       if linkage = BTF_VAR_STATIC then fixup_vars obj t is b
       else do {
         name_off \<leftarrow> t_name_off b t_var;
         name \<leftarrow> btf_name b name_off;
         (case name of
            None \<Rightarrow> Some (- ENOENT, b)
          | Some name \<Rightarrow> do {
              r \<leftarrow> bpf_object__variable_offset obj (Some (bytes_str name));
              (case r of
                 Inl err \<Rightarrow> Some (- ENOENT, b)
               | Inr off \<Rightarrow> do {
                   b \<leftarrow> set_field t (BTF_TYPE + 12 * i + 4) off b;
                   fixup_vars obj t is b
                 })
            })
       }
     }
   }"

definition btf_fixup_datasec :: "elf_obj \<Rightarrow> btf_ptr \<Rightarrow> btf \<Rightarrow> (int \<times> btf) option" where
  "btf_fixup_datasec obj t b = do {
     vars \<leftarrow> btf_vlen b t;
     name_off \<leftarrow> t_name_off b t;
     name \<leftarrow> btf_name b name_off;
     (case name of
        None \<Rightarrow> Some (- ENOENT, b)
      | Some name \<Rightarrow> do {
          (ret, sz) \<leftarrow> bpf_object__section_size obj (Some (bytes_str name));
          old \<leftarrow> t_size b t;
          if ret \<noteq> 0 \<or> sz = 0 \<or> old \<noteq> 0 \<and> old \<noteq> sz then Some (- ENOENT, b)
          else do {
            b \<leftarrow> set_field t 8 sz b;
            (err, b) \<leftarrow> fixup_vars obj t [0..<unat vars] b;
            if err \<noteq> 0 then Some (err, b)
            else do {
              b \<leftarrow> sort_vsi t (unat vars) b;
              Some (0, b)
            }
          }
        })
   }"

fun finalize_loop :: "elf_obj \<Rightarrow> nat list \<Rightarrow> btf \<Rightarrow> (int \<times> btf) option" where
  "finalize_loop obj [] b = Some (0, b)"
| "finalize_loop obj (i # is) b = do {
     t \<leftarrow> arr_get (btf_types b) i;
     t \<leftarrow> t;
     datasec \<leftarrow> btf_is_datasec b t;
     if datasec then do {
       (err, b) \<leftarrow> btf_fixup_datasec obj t b;
       if err \<noteq> 0 then Some (err, b) else finalize_loop obj is b
     }
     else finalize_loop obj is b
   }"

definition btf__finalize_data :: "elf_obj \<Rightarrow> btf \<Rightarrow> (int \<times> btf) option" where
  "btf__finalize_data obj b = finalize_loop obj [1..<Suc (unat (nr_types b))] b"

section \<open>Kinds an old kernel does not know\<close>

definition btf_is_func :: "btf \<Rightarrow> btf_ptr \<Rightarrow> bool option" where
  "btf_is_func b t = map_option (\<lambda>k. k = BTF_KIND_FUNC) (btf_kind b t)"

definition btf_is_func_proto :: "btf \<Rightarrow> btf_ptr \<Rightarrow> bool option" where
  "btf_is_func_proto b t = map_option (\<lambda>k. k = BTF_KIND_FUNC_PROTO) (btf_kind b t)"

text \<open>A variable becomes an integer of one byte.\<close>

definition var_to_int :: "btf_ptr \<Rightarrow> btf \<Rightarrow> btf option" where
  "var_to_int t b = do {
     b \<leftarrow> set_field t 4 (BTF_INFO_ENC BTF_KIND_INT False 0) b;
     b \<leftarrow> set_field t 8 1 b;
     set_field t BTF_TYPE (BTF_INT_ENC 0 0 8) b
   }"

text \<open>The name of a data section loses its dots, in place.\<close>

definition undot :: "bytes \<Rightarrow> bytes" where
  "undot s = map (\<lambda>c. if c = 0x2e then 0x5f else c) s"

definition undot_name :: "nat \<Rightarrow> btf \<Rightarrow> btf option" where
  "undot_name p b = do {
     name \<leftarrow> c_str (btf_data b) p;
     d \<leftarrow> store (btf_data b) p (undot name);
     Some (b\<lparr>btf_data := d\<rparr>)
   }"

text \<open>An entry of a data section becomes a member of a structure: the three words are written from the last to the first.\<close>

definition vsi_to_member :: "btf_ptr \<Rightarrow> nat \<Rightarrow> btf \<Rightarrow> btf option" where
  "vsi_to_member t j b = do {
     off \<leftarrow> vsi_offset b t j;
     b \<leftarrow> set_field t (BTF_TYPE + 12 * j + 8) (off * 8) b;
     type_id \<leftarrow> vsi_type b t j;
     b \<leftarrow> set_field t (BTF_TYPE + 12 * j + 4) type_id b;
     vt \<leftarrow> btf__type_by_id b type_id;
     vt \<leftarrow> vt;
     name_off \<leftarrow> t_name_off b vt;
     set_field t (BTF_TYPE + 12 * j) name_off b
   }"

fun vsis_to_members :: "btf_ptr \<Rightarrow> nat list \<Rightarrow> btf \<Rightarrow> btf option" where
  "vsis_to_members t [] b = Some b"
| "vsis_to_members t (j # js) b = do { b \<leftarrow> vsi_to_member t j b; vsis_to_members t js b }"

definition datasec_to_struct :: "btf_ptr \<Rightarrow> btf \<Rightarrow> btf option" where
  "datasec_to_struct t b = do {
     name_off \<leftarrow> t_name_off b t;
     name \<leftarrow> btf__name_by_offset b name_off;
     p \<leftarrow> name;
     b \<leftarrow> undot_name p b;
     vlen \<leftarrow> btf_vlen b t;
     b \<leftarrow> set_field t 4 (BTF_INFO_ENC BTF_KIND_STRUCT False vlen) b;
     vsis_to_members t [0..<unat vlen] b
   }"

definition proto_to_enum :: "btf_ptr \<Rightarrow> btf \<Rightarrow> btf option" where
  "proto_to_enum t b = do {
     vlen \<leftarrow> btf_vlen b t;
     b \<leftarrow> set_field t 4 (BTF_INFO_ENC BTF_KIND_ENUM False vlen) b;
     set_field t 8 4 b
   }"

definition func_to_typedef :: "btf_ptr \<Rightarrow> btf \<Rightarrow> btf option" where
  "func_to_typedef t b = set_field t 4 (BTF_INFO_ENC BTF_KIND_TYPEDEF False 0) b"

definition sanitize_type :: "bool \<Rightarrow> bool \<Rightarrow> btf_ptr \<Rightarrow> btf \<Rightarrow> btf option" where
  "sanitize_type has_datasec has_func t b = do {
     is_var \<leftarrow> btf_is_var b t;
     datasec \<leftarrow> btf_is_datasec b t;
     proto \<leftarrow> btf_is_func_proto b t;
     func \<leftarrow> btf_is_func b t;
     if \<not> has_datasec \<and> is_var then var_to_int t b
     else if \<not> has_datasec \<and> datasec then datasec_to_struct t b
     else if \<not> has_func \<and> proto then proto_to_enum t b
     else if \<not> has_func \<and> func then func_to_typedef t b
     else Some b
   }"

fun sanitize_loop :: "bool \<Rightarrow> bool \<Rightarrow> nat list \<Rightarrow> btf \<Rightarrow> btf option" where
  "sanitize_loop has_datasec has_func [] b = Some b"
| "sanitize_loop has_datasec has_func (i # is) b = do {
     t \<leftarrow> btf__type_by_id b (of_nat i);
     t \<leftarrow> t;
     b \<leftarrow> sanitize_type has_datasec has_func t b;
     sanitize_loop has_datasec has_func is b
   }"

definition bpf_object__sanitize_btf :: "elf_obj \<Rightarrow> elf_obj option" where
  "bpf_object__sanitize_btf obj =
     (let has_datasec = eo_caps_btf_datasec obj; has_func = eo_caps_btf_func obj in
      case lo_btf obj of
        None \<Rightarrow> Some obj
      | Some b \<Rightarrow>
          if has_func \<and> has_datasec then Some obj
          else do {
            b \<leftarrow> sanitize_loop has_datasec has_func [1..<Suc (unat (btf__get_nr_types b))] b;
            Some (obj\<lparr>lo_btf := Some b\<rparr>)
          })"

definition bpf_object__sanitize_btf_ext :: "elf_obj \<Rightarrow> elf_obj" where
  "bpf_object__sanitize_btf_ext obj =
     (if lo_btf_ext obj = None then obj else if \<not> eo_caps_btf_func obj then obj\<lparr>lo_btf_ext := None\<rparr> else obj)"

section \<open>Replacing a kind keeps the length\<close>

lemma BTF_INFO_ENC_kind:
  assumes "k \<le> 15"
  shows "BTF_INFO_KIND (BTF_INFO_ENC k False v) = k"
proof (rule bit_word_eqI)
  fix n assume n: "n < LENGTH(32)"
  have "unat (take_bit 4 k) = unat k"
    using assms by (simp add: unsigned_take_bit_eq take_bit_nat_eq_self word_le_nat_alt)
  then have k: "k = take_bit 4 k" by (simp add: word_unat_eq_iff)
  have m: "(0xffff :: u32) = mask 16" "(0xf :: u32) = mask 4" by (simp_all add: mask_numeral)
  show "bit (BTF_INFO_KIND (BTF_INFO_ENC k False v)) n = bit k n"
    unfolding BTF_INFO_KIND_def BTF_INFO_ENC_def BTF_MAX_VLEN_def m using n by (subst (2) k) (auto simp: bit_simps)
qed

lemma BTF_INFO_ENC_vlen: "BTF_INFO_VLEN (BTF_INFO_ENC k False v) = BTF_INFO_VLEN v"
proof (rule bit_word_eqI)
  fix n assume "n < LENGTH(32)"
  have m: "(0xffff :: u32) = mask 16" by (simp add: mask_numeral)
  show "bit (BTF_INFO_VLEN (BTF_INFO_ENC k False v)) n = bit (BTF_INFO_VLEN v) n"
    unfolding BTF_INFO_VLEN_def BTF_INFO_ENC_def BTF_MAX_VLEN_def m by (auto simp: bit_simps)
qed

text \<open>What the kinds become.\<close>

definition sanitized_kind :: "bool \<Rightarrow> bool \<Rightarrow> u32 \<Rightarrow> u32" where
  "sanitized_kind has_datasec has_func k =
     (if \<not> has_datasec \<and> k = BTF_KIND_VAR then BTF_KIND_INT
      else if \<not> has_datasec \<and> k = BTF_KIND_DATASEC then BTF_KIND_STRUCT
      else if \<not> has_func \<and> k = BTF_KIND_FUNC_PROTO then BTF_KIND_ENUM
      else if \<not> has_func \<and> k = BTF_KIND_FUNC then BTF_KIND_TYPEDEF
      else k)"

text \<open>A change of the blob inside the bytes \<open>[p, p + n)\<close>, and of the strings from \<open>s\<close> on, which keep their ends.\<close>

definition touched :: "nat \<Rightarrow> nat \<Rightarrow> nat \<Rightarrow> btf \<Rightarrow> btf \<Rightarrow> bool" where
  "touched p n s b b' \<longleftrightarrow> b' = b\<lparr>btf_data := btf_data b'\<rparr> \<and> length (btf_data b') = length (btf_data b) \<and>
     (\<forall>i<length (btf_data b). (i < p \<or> p + n \<le> i) \<and> i < s \<longrightarrow> btf_data b' ! i = btf_data b ! i) \<and>
     (\<forall>i<length (btf_data b). s \<le> i \<longrightarrow> (btf_data b' ! i = 0) = (btf_data b ! i = 0))"

lemma touched_refl: "touched p n s b b"
  by (simp add: touched_def)

lemma touched_trans: "touched p n s a b \<Longrightarrow> touched p n s b c \<Longrightarrow> touched p n s a c"
  unfolding touched_def by (cases a; cases b; cases c) simp

lemma set_field_touched:
  assumes "p \<le> q + k" "q + k + 4 \<le> p + n" "p + n \<le> s" "s \<le> length (btf_data b)"
  shows "\<exists>b'. set_field (Btf_at q) k v b = Some b' \<and> touched p n s b b' \<and> load32 (btf_data b') (q + k) = Some v \<and>
    (\<forall>j. j + 4 \<le> q + k \<or> q + k + 4 \<le> j \<longrightarrow> load32 (btf_data b') j = load32 (btf_data b) j)"
proof -
  obtain d where d: "store (btf_data b) (q + k) (le_of_word 4 v) = Some d"
    using assms by (simp add: store_def)
  have "touched p n s b (b\<lparr>btf_data := d\<rparr>)"
    using assms length_store [OF d] nth_store [OF d] by (auto simp: touched_def)
  moreover have "load32 d (q + k) = Some v" using load_store_same [OF d] by (simp add: load32_def)
  moreover have "load32 d j = load32 (btf_data b) j" if "j + 4 \<le> q + k \<or> q + k + 4 \<le> j" for j
    using load_store_disjoint [OF d, of j 4] that by (simp add: load32_def)
  ultimately show ?thesis by (intro exI [of _ "b\<lparr>btf_data := d\<rparr>"]) (simp add: d)
qed

declare set_field.simps [simp del]

lemma load_touched:
  assumes "touched p n s b b'" "i + 4 \<le> p \<or> p + n \<le> i" "i + 4 \<le> s"
  shows "load32 (btf_data b') i = load32 (btf_data b) i"
proof (cases "i + 4 \<le> length (btf_data b)")
  case True
  have "btf_data b' ! (i + j) = btf_data b ! (i + j)" if "j < 4" for j
    using assms True that by (auto simp: touched_def)
  then have "take 4 (drop i (btf_data b')) = take 4 (drop i (btf_data b))"
    using True assms(1) by (intro nth_equalityI) (simp_all add: touched_def)
  then show ?thesis using True assms(1) by (simp add: load32_def load_def touched_def)
next
  case False
  then show ?thesis using assms(1) by (simp add: load32_def load_def touched_def)
qed

lemma c_str_from_prefix:
  "c_str_from bs = Some name \<Longrightarrow> length name < length bs \<and> take (length name) bs = name \<and> 0 \<notin> set name"
  by (induction bs arbitrary: name) (auto split: if_splits)

lemma c_str_from_defined: "0 \<in> set bs \<Longrightarrow> \<exists>name. c_str_from bs = Some name"
  by (induction bs) auto

lemma c_str_defined:
  assumes "p \<le> i" "i < length d" "d ! i = 0"
  shows "\<exists>name. c_str d p = Some name"
proof -
  have "drop p d ! (i - p) = 0" "i - p < length (drop p d)" using assms by simp_all
  then have "0 \<in> set (drop p d)" by (metis nth_mem)
  then show ?thesis unfolding c_str_def by (rule c_str_from_defined)
qed

lemma undot_name_touched:
  assumes "s \<le> q" "c_str (btf_data b) q = Some name"
  shows "\<exists>b'. undot_name q b = Some b' \<and> touched p n s b b' \<and> (\<forall>j. j + 4 \<le> s \<longrightarrow> load32 (btf_data b') j = load32 (btf_data b) j)"
proof -
  have nm: "length name < length (btf_data b) - q" "take (length name) (drop q (btf_data b)) = name" "0 \<notin> set name"
    using c_str_from_prefix [of "drop q (btf_data b)" name] assms(2) by (simp_all add: c_str_def)
  have len: "q + length (undot name) \<le> length (btf_data b)" using nm(1) by (simp add: undot_def)
  then obtain d where d: "store (btf_data b) q (undot name) = Some d" by (simp add: store_def)
  have "(d ! i = 0) = (btf_data b ! i = 0)" if "i < length (btf_data b)" for i
  proof (cases "q \<le> i \<and> i < q + length name")
    case True
    then have iq: "i - q < length name" by auto
    then have "name ! (i - q) \<noteq> 0" using nm(3) nth_mem by force
    then have "undot name ! (i - q) \<noteq> 0" using iq by (simp add: undot_def)
    moreover have "btf_data b ! i = name ! (i - q)"
      using True iq nm(1) arg_cong [OF nm(2), of "\<lambda>xs. xs ! (i - q)"] by (auto simp: nth_take)
    ultimately show ?thesis using True nth_store [OF d that] \<open>name ! (i - q) \<noteq> 0\<close> by (simp add: undot_def)
  next
    case False
    then show ?thesis using nth_store [OF d that] by (auto simp: undot_def)
  qed
  moreover have "d ! i = btf_data b ! i" if "i < length (btf_data b)" "i < s" for i
    using nth_store [OF d that(1)] that(2) assms(1) by simp
  ultimately have "touched p n s b (b\<lparr>btf_data := d\<rparr>)" using length_store [OF d] by (simp add: touched_def)
  moreover have "load32 d j = load32 (btf_data b) j" if "j + 4 \<le> s" for j
    using load_store_disjoint [OF d, of j 4] that assms(1) by (simp add: load32_def)
  ultimately show ?thesis using d assms(2) by (simp add: undot_name_def)
qed

text \<open>The string section lies behind the types and ends with a zero, and every type of the table is inside the blob.\<close>

definition strings_ok :: "btf \<Rightarrow> bool" where
  "strings_ok b \<longleftrightarrow> (\<exists>len. hdr_str_len (btf_data b) = Some len \<and> len \<noteq> 0 \<and> 24 \<le> btf_strings b \<and>
     btf_strings b + unat len \<le> length (btf_data b) \<and> btf_data b ! (btf_strings b + unat len - 1) = 0) \<and>
     (\<forall>tid\<le>nr_types b. \<exists>vt. btf__type_by_id b tid = Some (Some vt) \<and> t_name_off b vt \<noteq> None)"

lemma t_name_off_defined:
  "length (btf_data b') = length (btf_data b) \<Longrightarrow> (t_name_off b' vt = None) = (t_name_off b vt = None)"
  by (cases vt) (simp_all add: t_name_off_def load32_def load_def)

lemma touched_type_by_id: "touched p n s b b' \<Longrightarrow> btf__type_by_id b' = btf__type_by_id b"
  unfolding touched_def btf__type_by_id_def fun_eq_iff by (cases b) (metis btf.select_convs(2,5) btf.update_convs(1))

lemma strings_ok_touched:
  assumes "touched p n (btf_strings b) b b'" "24 \<le> p" "strings_ok b"
  shows "strings_ok b'"
proof -
  obtain len where len: "hdr_str_len (btf_data b) = Some len" "len \<noteq> 0" "24 \<le> btf_strings b"
    "btf_strings b + unat len \<le> length (btf_data b)" "btf_data b ! (btf_strings b + unat len - 1) = 0"
    using assms(3) by (auto simp: strings_ok_def)
  have b': "btf_strings b' = btf_strings b" "nr_types b' = nr_types b" "length (btf_data b') = length (btf_data b)"
    using assms(1) unfolding touched_def by (metis btf.select_convs(3,5) btf.surjective btf.update_convs(1))+
  have "hdr_str_len (btf_data b') = Some len"
    using load_touched [OF assms(1), of 20] assms(2) len(1,3) by (simp add: hdr_str_len_def)
  moreover have "btf_data b' ! (btf_strings b + unat len - 1) = 0"
  proof -
    have "0 < unat len" using len(2) by (simp add: unat_gt_0)
    then have "btf_strings b + unat len - 1 < length (btf_data b)" "btf_strings b \<le> btf_strings b + unat len - 1"
      using len(4) by linarith+
    then show ?thesis using assms(1) len(5) unfolding touched_def by blast
  qed
  ultimately show ?thesis
    using len(2-4) assms(3) b' touched_type_by_id [OF assms(1)] t_name_off_defined [OF b'(3)] by (auto simp: strings_ok_def)
qed

text \<open>The entries of a data section: their types are in the table, and its name is in the string section.\<close>

definition datasec_ok :: "btf \<Rightarrow> btf_ptr \<Rightarrow> bool" where
  "datasec_ok b t \<longleftrightarrow> (btf_kind b t = Some BTF_KIND_DATASEC \<longrightarrow>
     (case (t_name_off b t, hdr_str_len (btf_data b)) of (Some off, Some len) \<Rightarrow> off < len | _ \<Rightarrow> False) \<and>
     (case btf_vlen b t of
        None \<Rightarrow> True
      | Some vlen \<Rightarrow> list_all (\<lambda>j. case vsi_type b t j of None \<Rightarrow> False | Some tid \<Rightarrow> tid \<le> nr_types b) [0..<unat vlen]))"

lemma datasec_okD:
  assumes "datasec_ok b t" "btf_kind b t = Some BTF_KIND_DATASEC"
  shows "\<exists>off len. t_name_off b t = Some off \<and> hdr_str_len (btf_data b) = Some len \<and> off < len"
    "btf_vlen b t = Some vlen \<Longrightarrow> j < unat vlen \<Longrightarrow> \<exists>tid. vsi_type b t j = Some tid \<and> tid \<le> nr_types b"
  using assms by (auto simp: datasec_ok_def list_all_iff split: option.splits) fastforce

definition entry_types_ok :: "btf \<Rightarrow> nat \<Rightarrow> nat list \<Rightarrow> bool" where
  "entry_types_ok b q js \<longleftrightarrow> (\<forall>j\<in>set js. \<exists>tid. load32 (btf_data b) (q + BTF_TYPE + 12 * j) = Some tid \<and> tid \<le> nr_types b)"

lemma vsi_to_member_touched:
  assumes "q + BTF_TYPE + 12 * Suc j \<le> q + n" "q + n \<le> s" "s \<le> length (btf_data b)" "strings_ok b"
    "load32 (btf_data b) (q + BTF_TYPE + 12 * j) = Some tid" "tid \<le> nr_types b"
  shows "\<exists>b'. vsi_to_member (Btf_at q) j b = Some b' \<and> touched q n s b b' \<and>
    (\<forall>i. i + 4 \<le> q + BTF_TYPE + 12 * j \<or> q + BTF_TYPE + 12 * Suc j \<le> i \<longrightarrow> load32 (btf_data b') i = load32 (btf_data b) i)"
proof -
  let ?e = "BTF_TYPE + 12 * j"
  have in_t: "q \<le> q + (?e + k)" "q + (?e + k) + 4 \<le> q + n" if "k \<in> {0, 4, 8}" for k using assms(1) that by auto
  obtain off where off: "vsi_offset b (Btf_at q) j = Some off"
    using assms(1-3) by (simp add: vsi_offset_def load32_def load_def)
  obtain b1 where b1: "set_field (Btf_at q) (?e + 8) (off * 8) b = Some b1" "touched q n s b b1"
    "\<And>i. i + 4 \<le> q + (?e + 8) \<or> q + (?e + 8) + 4 \<le> i \<Longrightarrow> load32 (btf_data b1) i = load32 (btf_data b) i"
    using set_field_touched [OF in_t [of 8] assms(2,3), of "off * 8"] by auto
  have len1: "s \<le> length (btf_data b1)" using b1(2) assms(3) by (simp add: touched_def)
  have tid: "vsi_type b1 (Btf_at q) j = Some tid" using b1(3) [of "q + ?e"] assms(5) by (simp add: vsi_type_def add.assoc)
  obtain b2 where b2: "set_field (Btf_at q) (?e + 4) tid b1 = Some b2" "touched q n s b1 b2"
    "\<And>i. i + 4 \<le> q + (?e + 4) \<or> q + (?e + 4) + 4 \<le> i \<Longrightarrow> load32 (btf_data b2) i = load32 (btf_data b1) i"
    using set_field_touched [OF in_t [of 4] assms(2) len1, of tid] by auto
  have t2: "touched q n s b b2" by (rule touched_trans [OF b1(2) b2(2)])
  have len2: "s \<le> length (btf_data b2)" "length (btf_data b2) = length (btf_data b)" using t2 assms(3) by (simp_all add: touched_def)
  obtain vt name_off where vt: "btf__type_by_id b tid = Some (Some vt)" "t_name_off b2 vt = Some name_off"
    using assms(4,6) t_name_off_defined [OF len2(2)] by (fastforce simp: strings_ok_def)
  obtain b3 where b3: "set_field (Btf_at q) (?e + 0) name_off b2 = Some b3" "touched q n s b2 b3"
    "\<And>i. i + 4 \<le> q + (?e + 0) \<or> q + (?e + 0) + 4 \<le> i \<Longrightarrow> load32 (btf_data b3) i = load32 (btf_data b2) i"
    using set_field_touched [OF in_t [of 0] assms(2) len2(1), of name_off] by auto
  have "vsi_to_member (Btf_at q) j b = Some b3"
    using off b1(1) tid b2(1) touched_type_by_id [OF t2] vt b3(1) by (simp add: vsi_to_member_def)
  moreover have "touched q n s b b3" by (rule touched_trans [OF t2 b3(2)])
  moreover have "load32 (btf_data b3) i = load32 (btf_data b) i" if "i + 4 \<le> q + ?e \<or> q + (?e + 12) \<le> i" for i
    using b3(3) [of i] b2(3) [of i] b1(3) [of i] that by auto
  ultimately show ?thesis by (intro exI [of _ b3]) (simp add: add.assoc)
qed

lemma vsis_to_members_touched:
  assumes "distinct js" "\<forall>j\<in>set js. q + BTF_TYPE + 12 * Suc j \<le> q + n" "q + n \<le> s" "s \<le> length (btf_data b)" "s = btf_strings b" "24 \<le> q"
    "strings_ok b" "entry_types_ok b q js"
  shows "\<exists>b'. vsis_to_members (Btf_at q) js b = Some b' \<and> touched q n s b b' \<and>
    (\<forall>i. i + 4 \<le> q + BTF_TYPE \<longrightarrow> load32 (btf_data b') i = load32 (btf_data b) i)"
  using assms
proof (induction js arbitrary: b)
  case Nil
  then show ?case by (auto intro: touched_refl)
next
  case (Cons j js)
  obtain tid where tid: "load32 (btf_data b) (q + BTF_TYPE + 12 * j) = Some tid" "tid \<le> nr_types b"
    using Cons.prems(8) by (auto simp: entry_types_ok_def)
  obtain b1 where b1: "vsi_to_member (Btf_at q) j b = Some b1" "touched q n s b b1"
    and frame: "\<And>i. i + 4 \<le> q + BTF_TYPE + 12 * j \<or> q + BTF_TYPE + 12 * Suc j \<le> i \<Longrightarrow> load32 (btf_data b1) i = load32 (btf_data b) i"
    using vsi_to_member_touched [OF _ Cons.prems(3,4,7) tid] Cons.prems(2) by auto
  have b1': "btf_strings b1 = btf_strings b" "nr_types b1 = nr_types b" "length (btf_data b1) = length (btf_data b)"
    using b1(2) unfolding touched_def by (metis btf.select_convs(3,5) btf.surjective btf.update_convs(1))+
  have "strings_ok b1" using strings_ok_touched b1(2) Cons.prems(5-7) by blast
  moreover have "entry_types_ok b1 q js" unfolding entry_types_ok_def
  proof
    fix i assume i: "i \<in> set js"
    then have "i \<noteq> j" using Cons.prems(1) by auto
    then have "i < j \<or> j < i" by arith
    then have "load32 (btf_data b1) (q + BTF_TYPE + 12 * i) = load32 (btf_data b) (q + BTF_TYPE + 12 * i)"
      by (intro frame) auto
    then show "\<exists>tid. load32 (btf_data b1) (q + BTF_TYPE + 12 * i) = Some tid \<and> tid \<le> nr_types b1"
      using Cons.prems(8) i b1'(2) by (simp add: entry_types_ok_def)
  qed
  ultimately obtain b2 where b2: "vsis_to_members (Btf_at q) js b1 = Some b2" "touched q n s b1 b2"
    "\<forall>i. i + 4 \<le> q + BTF_TYPE \<longrightarrow> load32 (btf_data b2) i = load32 (btf_data b1) i"
    using Cons.IH [of b1] Cons.prems b1' by auto
  show ?case using b1(1) b2 touched_trans [OF b1(2) b2(2)] frame by auto
qed

lemma BTF_INFO_VLEN_idem [simp]: "BTF_INFO_VLEN (BTF_INFO_VLEN v) = BTF_INFO_VLEN v"
  by (simp add: BTF_INFO_VLEN_def and.assoc)

lemma enc_kinds:
  "BTF_INFO_KIND (BTF_INFO_ENC BTF_KIND_INT False v) = BTF_KIND_INT" "BTF_INFO_KIND (BTF_INFO_ENC BTF_KIND_STRUCT False v) = BTF_KIND_STRUCT"
  "BTF_INFO_KIND (BTF_INFO_ENC BTF_KIND_ENUM False v) = BTF_KIND_ENUM" "BTF_INFO_KIND (BTF_INFO_ENC BTF_KIND_TYPEDEF False v) = BTF_KIND_TYPEDEF"
  by (simp_all add: BTF_INFO_ENC_kind btf_kind_defs)

lemma enc_sizes:
  "btf_type_size (BTF_INFO_ENC BTF_KIND_INT False v) = 16"
  "btf_type_size (BTF_INFO_ENC BTF_KIND_STRUCT False v) = 12 + uint (BTF_INFO_VLEN v) * 12"
  "btf_type_size (BTF_INFO_ENC BTF_KIND_ENUM False v) = 12 + uint (BTF_INFO_VLEN v) * 8"
  "btf_type_size (BTF_INFO_ENC BTF_KIND_TYPEDEF False v) = 12"
  by (simp_all add: btf_type_size_def Let_def enc_kinds BTF_INFO_ENC_vlen BTF_TYPE_def, simp_all add: btf_kind_defs)

text \<open>A type of \<open>n\<close> bytes before the strings.\<close>

definition type_at :: "btf \<Rightarrow> nat \<Rightarrow> nat \<Rightarrow> u32 \<Rightarrow> bool" where
  "type_at b q n info \<longleftrightarrow> load32 (btf_data b) (q + 4) = Some info \<and> btf_type_size info = int n \<and> 24 \<le> q \<and> q + n \<le> btf_strings b \<and>
     btf_strings b \<le> length (btf_data b)"

text \<open>The result of a replacement: the same length, another kind.\<close>

definition retyped :: "nat \<Rightarrow> nat \<Rightarrow> u32 \<Rightarrow> btf \<Rightarrow> btf option \<Rightarrow> bool" where
  "retyped q n k b r \<longleftrightarrow> (\<exists>b' info'. r = Some b' \<and> touched q n (btf_strings b) b b' \<and> load32 (btf_data b') (q + 4) = Some info' \<and>
     btf_type_size info' = int n \<and> BTF_INFO_KIND info' = k)"

lemma var_to_int_retyped:
  assumes "type_at b q n info" "BTF_INFO_KIND info = BTF_KIND_VAR"
  shows "retyped q n BTF_KIND_INT b (var_to_int (Btf_at q) b)"
proof -
  define s where "s = btf_strings b"
  have n: "n = 16" using assms by (simp add: type_at_def btf_type_size_def BTF_TYPE_def Let_def) (simp add: btf_kind_defs)
  have s: "q + n \<le> s" "s \<le> length (btf_data b)" using assms(1) by (simp_all add: type_at_def s_def)
  obtain b1 where b1: "set_field (Btf_at q) 4 (BTF_INFO_ENC BTF_KIND_INT False 0) b = Some b1" "touched q n s b b1"
    "load32 (btf_data b1) (q + 4) = Some (BTF_INFO_ENC BTF_KIND_INT False 0)"
    using set_field_touched [of q q 4 n s b] s n by auto
  then have l1: "s \<le> length (btf_data b1)" using s by (simp add: touched_def)
  obtain b2 where b2: "set_field (Btf_at q) 8 1 b1 = Some b2" "touched q n s b1 b2" "load32 (btf_data b2) (q + 4) = load32 (btf_data b1) (q + 4)"
    using set_field_touched [of q q 8 n s b1 1] s(1) l1 n by auto
  then have l2: "s \<le> length (btf_data b2)" using l1 by (simp add: touched_def)
  obtain b3 where b3: "set_field (Btf_at q) 12 (BTF_INT_ENC 0 0 8) b2 = Some b3" "touched q n s b2 b3"
    "load32 (btf_data b3) (q + 4) = load32 (btf_data b2) (q + 4)"
    using set_field_touched [of q q 12 n s b2 "BTF_INT_ENC 0 0 8"] s(1) l2 n by auto
  have "var_to_int (Btf_at q) b = Some b3" using b1(1) b2(1) b3(1) by (simp add: var_to_int_def BTF_TYPE_def)
  moreover have "touched q n s b b3" by (rule touched_trans [OF touched_trans [OF b1(2) b2(2)] b3(2)])
  ultimately show ?thesis using b1(3) b2(3) b3(3) n by (simp add: retyped_def s_def enc_kinds enc_sizes)
qed

lemma proto_to_enum_retyped:
  assumes "type_at b q n info" "BTF_INFO_KIND info = BTF_KIND_FUNC_PROTO"
  shows "retyped q n BTF_KIND_ENUM b (proto_to_enum (Btf_at q) b)"
proof -
  define s where "s = btf_strings b"
  have n: "int n = 12 + uint (BTF_INFO_VLEN info) * 8"
    using assms by (simp add: type_at_def btf_type_size_def BTF_TYPE_def Let_def) (simp add: btf_kind_defs)
  have s: "q + n \<le> s" "s \<le> length (btf_data b)" using assms(1) by (simp_all add: type_at_def s_def)
  have n12: "12 \<le> n" using n uint_nonnegative [of "BTF_INFO_VLEN info"] by linarith
  have vlen: "btf_vlen b (Btf_at q) = Some (BTF_INFO_VLEN info)" using assms(1) by (simp add: btf_vlen_def t_info_def type_at_def)
  obtain b1 where b1: "set_field (Btf_at q) 4 (BTF_INFO_ENC BTF_KIND_ENUM False (BTF_INFO_VLEN info)) b = Some b1" "touched q n s b b1"
    "load32 (btf_data b1) (q + 4) = Some (BTF_INFO_ENC BTF_KIND_ENUM False (BTF_INFO_VLEN info))"
    using set_field_touched [of q q 4 n s b] s n12 by auto
  then have l1: "s \<le> length (btf_data b1)" using s by (simp add: touched_def)
  obtain b2 where b2: "set_field (Btf_at q) 8 4 b1 = Some b2" "touched q n s b1 b2" "load32 (btf_data b2) (q + 4) = load32 (btf_data b1) (q + 4)"
    using set_field_touched [of q q 8 n s b1 4] s(1) l1 n12 by auto
  have "proto_to_enum (Btf_at q) b = Some b2" using vlen b1(1) b2(1) by (simp add: proto_to_enum_def)
  then show ?thesis
    using touched_trans [OF b1(2) b2(2)] b1(3) b2(3) n by (simp add: retyped_def s_def enc_kinds enc_sizes)
qed

lemma func_to_typedef_retyped:
  assumes "type_at b q n info" "BTF_INFO_KIND info = BTF_KIND_FUNC"
  shows "retyped q n BTF_KIND_TYPEDEF b (func_to_typedef (Btf_at q) b)"
proof -
  have n: "n = 12" using assms by (simp add: type_at_def btf_type_size_def BTF_TYPE_def Let_def)
  obtain b1 where "set_field (Btf_at q) 4 (BTF_INFO_ENC BTF_KIND_TYPEDEF False 0) b = Some b1" "touched q n (btf_strings b) b b1"
    "load32 (btf_data b1) (q + 4) = Some (BTF_INFO_ENC BTF_KIND_TYPEDEF False 0)"
    using set_field_touched [of q q 4 n "btf_strings b" b] assms(1) n by (auto simp: type_at_def)
  then show ?thesis using n by (simp add: retyped_def func_to_typedef_def enc_kinds enc_sizes)
qed

lemma btf_name_pos:
  assumes "strings_ok b" "hdr_str_len (btf_data b) = Some len" "off < len"
  obtains name where "btf__name_by_offset b off = Some (Some (btf_strings b + unat off))" "c_str (btf_data b) (btf_strings b + unat off) = Some name"
proof -
  have "unat off < unat len" using assms(3) by (simp add: word_less_nat_alt)
  then have "\<exists>name. c_str (btf_data b) (btf_strings b + unat off) = Some name"
    using assms(1,2) by (intro c_str_defined [of _ "btf_strings b + unat len - 1"]) (auto simp: strings_ok_def)
  then show thesis using that assms(2,3) by (auto simp: btf__name_by_offset_def)
qed

lemma datasec_to_struct_retyped:
  assumes "type_at b q n info" "BTF_INFO_KIND info = BTF_KIND_DATASEC" "strings_ok b" "datasec_ok b (Btf_at q)"
  shows "retyped q n BTF_KIND_STRUCT b (datasec_to_struct (Btf_at q) b)"
proof -
  define s where "s = btf_strings b"
  let ?v = "BTF_INFO_VLEN info" and ?e = "BTF_INFO_ENC BTF_KIND_STRUCT False (BTF_INFO_VLEN info)"
  have info: "load32 (btf_data b) (q + 4) = Some info" and q: "24 \<le> q" using assms(1) by (simp_all add: type_at_def)
  have n: "int n = 12 + uint ?v * 12"
    using assms(1,2) by (simp add: type_at_def btf_type_size_def BTF_TYPE_def Let_def) (simp add: btf_kind_defs)
  have "int (unat ?v) = uint ?v" by simp
  then have n': "n = 12 + 12 * unat ?v" using n by linarith
  have s: "q + n \<le> s" "s \<le> length (btf_data b)" using assms(1) by (simp_all add: type_at_def s_def)
  have vlen: "btf_vlen b (Btf_at q) = Some ?v" "btf_kind b (Btf_at q) = Some BTF_KIND_DATASEC"
    using info assms(2) by (simp_all add: btf_vlen_def btf_kind_def t_info_def)
  obtain off len where off: "t_name_off b (Btf_at q) = Some off" "hdr_str_len (btf_data b) = Some len" "off < len"
    and types: "\<And>j. j < unat ?v \<Longrightarrow> \<exists>tid. vsi_type b (Btf_at q) j = Some tid \<and> tid \<le> nr_types b"
    using datasec_okD [OF assms(4) vlen(2)] vlen(1) by blast
  obtain name where name: "btf__name_by_offset b off = Some (Some (s + unat off))" "c_str (btf_data b) (s + unat off) = Some name"
    using btf_name_pos [OF assms(3) off(2,3)] by (auto simp: s_def)
  obtain b1 where b1: "undot_name (s + unat off) b = Some b1" "touched q n s b b1"
    "\<And>j. j + 4 \<le> s \<Longrightarrow> load32 (btf_data b1) j = load32 (btf_data b) j"
    using undot_name_touched [OF _ name(2), of s q n] by auto
  have f1: "btf_strings b1 = s" "nr_types b1 = nr_types b" "s \<le> length (btf_data b1)"
    using b1(2) s unfolding touched_def s_def by (metis btf.select_convs(3,5) btf.surjective btf.update_convs(1))+
  have vlen1: "btf_vlen b1 (Btf_at q) = Some ?v"
    using b1(3) [of "q + 4"] s(1) n' info by (simp add: btf_vlen_def t_info_def)
  obtain b2 where b2: "set_field (Btf_at q) 4 ?e b1 = Some b2" "touched q n s b1 b2" "load32 (btf_data b2) (q + 4) = Some ?e"
    "\<And>j. j + 4 \<le> q + 4 \<or> q + 4 + 4 \<le> j \<Longrightarrow> load32 (btf_data b2) j = load32 (btf_data b1) j"
    using set_field_touched [of q q 4 n s b1 ?e] s(1) f1(3) n' by auto
  have t2: "touched q n s b b2" by (rule touched_trans [OF b1(2) b2(2)])
  have f2: "btf_strings b2 = s" "nr_types b2 = nr_types b" "s \<le> length (btf_data b2)"
    using t2 s unfolding touched_def s_def by (metis btf.select_convs(3,5) btf.surjective btf.update_convs(1))+
  have "entry_types_ok b2 q [0..<unat ?v]"
    using types b2(4) b1(3) s(1) n' f2(2) by (simp add: entry_types_ok_def vsi_type_def BTF_TYPE_def add.assoc)
  moreover have "strings_ok b2" using strings_ok_touched [OF _ q assms(3)] t2 by (simp add: s_def)
  moreover have "\<forall>j\<in>set [0..<unat ?v]. q + BTF_TYPE + 12 * Suc j \<le> q + n" using n' by (simp add: BTF_TYPE_def)
  ultimately have "\<exists>b'. vsis_to_members (Btf_at q) [0..<unat ?v] b2 = Some b' \<and> touched q n s b2 b' \<and>
      (\<forall>i. i + 4 \<le> q + BTF_TYPE \<longrightarrow> load32 (btf_data b') i = load32 (btf_data b2) i)"
    using s(1) f2(1,3) q by (intro vsis_to_members_touched) simp_all
  then obtain b3 where b3: "vsis_to_members (Btf_at q) [0..<unat ?v] b2 = Some b3" "touched q n s b2 b3"
    "\<And>i. i + 4 \<le> q + BTF_TYPE \<Longrightarrow> load32 (btf_data b3) i = load32 (btf_data b2) i"
    by blast
  have "datasec_to_struct (Btf_at q) b = Some b3"
    using off(1) name(1) b1(1) vlen1 b2(1) b3(1) by (simp add: datasec_to_struct_def)
  moreover have "load32 (btf_data b3) (q + 4) = Some ?e" using b3(3) [of "q + 4"] b2(3) by (simp add: BTF_TYPE_def)
  ultimately show ?thesis
    using touched_trans [OF t2 b3(2)] n by (simp add: retyped_def s_def enc_kinds enc_sizes)
qed

lemma sanitize_type_retyped:
  assumes "type_at b q n info" "strings_ok b" "datasec_ok b (Btf_at q)"
  shows "retyped q n (sanitized_kind has_datasec has_func (BTF_INFO_KIND info)) b (sanitize_type has_datasec has_func (Btf_at q) b)"
proof -
  have k: "btf_kind b (Btf_at q) = Some (BTF_INFO_KIND info)" using assms(1) by (simp add: btf_kind_def t_info_def type_at_def)
  have same: "retyped q n (BTF_INFO_KIND info) b (Some b)" using assms(1) by (simp add: retyped_def type_at_def touched_refl)
  note cases = var_to_int_retyped [OF assms(1)] datasec_to_struct_retyped [OF assms(1) _ assms(2,3)] proto_to_enum_retyped [OF assms(1)]
    func_to_typedef_retyped [OF assms(1)] same
  show ?thesis
    using cases
    by (simp add: sanitize_type_def k btf_is_var_def btf_is_datasec_def btf_is_func_def btf_is_func_proto_def sanitized_kind_def)
qed

text \<open>The types of a table follow one another before the strings.\<close>

definition tsize :: "btf \<Rightarrow> nat \<Rightarrow> nat" where
  "tsize b q = (case load32 (btf_data b) (q + 4) of None \<Rightarrow> 0 | Some info \<Rightarrow> nat (btf_type_size info))"

definition laid_out :: "btf \<Rightarrow> nat list \<Rightarrow> bool" where
  "laid_out b qs \<longleftrightarrow> (\<forall>q\<in>set qs. \<exists>info. type_at b q (tsize b q) info) \<and> sorted_wrt (\<lambda>p q. p + tsize b p \<le> q) qs"

lemma laid_out_at: "laid_out b qs \<Longrightarrow> q \<in> set qs \<Longrightarrow> \<exists>info. type_at b q (tsize b q) info"
  by (simp add: laid_out_def)

text \<open>A step at one type leaves the others.\<close>

lemma tsize_pos: "type_at b q n info \<Longrightarrow> 12 \<le> n"
  using btf_type_size_cases [of info] by (auto simp: type_at_def EINVAL_def)

lemma laid_out_disjoint:
  assumes "laid_out b qs" "p \<in> set qs" "q \<in> set qs" "p \<noteq> q"
  shows "p + tsize b p \<le> q \<or> q + tsize b q \<le> p"
proof -
  obtain i j where ij: "i < length qs" "qs ! i = p" "j < length qs" "qs ! j = q" using assms(2,3) by (metis in_set_conv_nth)
  then have "i \<noteq> j" using assms(4) by auto
  then show ?thesis
    using ij assms(1) sorted_wrt_iff_nth_less [of "\<lambda>p q. p + tsize b p \<le> q" qs] by (metis laid_out_def nat_neq_iff)
qed

lemma touched_fields:
  assumes "touched p n s b b'"
  shows "btf_strings b' = btf_strings b" "nr_types b' = nr_types b" "btf_types b' = btf_types b" "length (btf_data b') = length (btf_data b)"
  using assms unfolding touched_def by (metis btf.select_convs(2,3,5) btf.surjective btf.update_convs(1))+

lemma retyped_step:
  assumes "laid_out b qs" "q \<in> set qs" "retyped q (tsize b q) k b (Some b')" "strings_ok b"
  shows "laid_out b' qs" "strings_ok b'" "tsize b' p = tsize b p \<or> p \<notin> set qs"
    "p \<in> set qs \<Longrightarrow> p \<noteq> q \<Longrightarrow> i + 4 \<le> tsize b p \<Longrightarrow> load32 (btf_data b') (p + i) = load32 (btf_data b) (p + i)"
    "btf_kind b' (Btf_at q) = Some k"
proof -
  obtain info' where t: "touched q (tsize b q) (btf_strings b) b b'" "load32 (btf_data b') (q + 4) = Some info'"
    "btf_type_size info' = int (tsize b q)" "BTF_INFO_KIND info' = k"
    using assms(3) by (auto simp: retyped_def)
  note f = touched_fields [OF t(1)]
  have q: "24 \<le> q" using assms(1,2) by (auto simp: laid_out_def type_at_def)
  show "strings_ok b'" by (rule strings_ok_touched [OF t(1) q assms(4)])
  have keep: "load32 (btf_data b') (p + i) = load32 (btf_data b) (p + i)" if "p \<in> set qs" "p \<noteq> q" "i + 4 \<le> tsize b p" for p i
    using laid_out_disjoint [OF assms(1) that(1) assms(2) that(2)] that assms(1)
    by (intro load_touched [OF t(1)]) (auto simp: laid_out_def type_at_def)
  have sz: "tsize b' p = tsize b p" if pq: "p \<in> set qs" for p
  proof (cases "p = q")
    case True
    then show ?thesis using t(2,3) by (simp add: tsize_def)
  next
    case False
    obtain info where "type_at b p (tsize b p) info" using laid_out_at [OF assms(1) pq] by (rule exE)
    then have "load32 (btf_data b') (p + 4) = load32 (btf_data b) (p + 4)"
      using keep [OF pq False, of 4] tsize_pos by fastforce
    then show ?thesis by (simp add: tsize_def)
  qed
  have at: "\<exists>info. type_at b' p (tsize b' p) info" if pq: "p \<in> set qs" for p
  proof -
    obtain info where info: "type_at b p (tsize b p) info" using laid_out_at [OF assms(1) pq] by (rule exE)
    then show ?thesis
      using keep [OF pq, of 4] tsize_pos [OF info] t(2,3) sz [OF pq] f by (cases "p = q") (auto simp: type_at_def)
  qed
  have "sorted_wrt (\<lambda>p q. p + tsize b' p \<le> q) qs"
    using assms(1) sz by (auto simp: laid_out_def sorted_wrt_iff_nth_less)
  then show "laid_out b' qs" using at by (simp add: laid_out_def)
  show "tsize b' p = tsize b p \<or> p \<notin> set qs" using sz by blast
  show "p \<in> set qs \<Longrightarrow> p \<noteq> q \<Longrightarrow> i + 4 \<le> tsize b p \<Longrightarrow> load32 (btf_data b') (p + i) = load32 (btf_data b) (p + i)" by (rule keep)
  show "btf_kind b' (Btf_at q) = Some k" using t(2,4) by (simp add: btf_kind_def t_info_def)
qed

lemma datasec_ok_keep:
  assumes "type_at b p n info" "datasec_ok b (Btf_at p)" "nr_types b' = nr_types b" "hdr_str_len (btf_data b') = hdr_str_len (btf_data b)"
    "\<And>i. i + 4 \<le> n \<Longrightarrow> load32 (btf_data b') (p + i) = load32 (btf_data b) (p + i)"
  shows "datasec_ok b' (Btf_at p)"
proof -
  have 12: "12 \<le> n" using assms(1) by (rule tsize_pos)
  have w: "load32 (btf_data b') p = load32 (btf_data b) p" "load32 (btf_data b') (p + 4) = load32 (btf_data b) (p + 4)"
    using assms(5) [of 0] assms(5) [of 4] 12 by simp_all
  have "vsi_type b' (Btf_at p) j = vsi_type b (Btf_at p) j"
    if "BTF_INFO_KIND info = BTF_KIND_DATASEC" "j < unat (BTF_INFO_VLEN info)" for j
  proof -
    have "int n = 12 + uint (BTF_INFO_VLEN info) * 12"
      using assms(1) that(1) by (simp add: type_at_def btf_type_size_def BTF_TYPE_def Let_def) (simp add: btf_kind_defs)
    moreover have "int (unat (BTF_INFO_VLEN info)) = uint (BTF_INFO_VLEN info)" by simp
    ultimately have "BTF_TYPE + 12 * j + 4 \<le> n" using that(2) unfolding BTF_TYPE_def by linarith
    then show ?thesis using assms(5) [of "BTF_TYPE + 12 * j"] by (simp add: vsi_type_def)
  qed
  moreover have "btf_kind b' (Btf_at p) = Some (BTF_INFO_KIND info)" "btf_vlen b' (Btf_at p) = Some (BTF_INFO_VLEN info)"
    "btf_kind b (Btf_at p) = Some (BTF_INFO_KIND info)" "btf_vlen b (Btf_at p) = Some (BTF_INFO_VLEN info)"
    "t_name_off b' (Btf_at p) = t_name_off b (Btf_at p)"
    using assms(1) w by (simp_all add: btf_kind_def btf_vlen_def t_info_def t_name_off_def type_at_def)
  ultimately show ?thesis using assms(2-4) by (simp add: datasec_ok_def list_all_iff cong: option.case_cong)
qed

section \<open>The blob after the replacement\<close>

text \<open>Every type of the table, before and after.\<close>

definition sanitized :: "bool \<Rightarrow> bool \<Rightarrow> btf \<Rightarrow> btf \<Rightarrow> nat list \<Rightarrow> bool" where
  "sanitized has_datasec has_func b b' qs \<longleftrightarrow>
     (\<forall>q\<in>set qs. btf_kind b' (Btf_at q) = map_option (sanitized_kind has_datasec has_func) (btf_kind b (Btf_at q)) \<and> tsize b' q = tsize b q)"

lemma touched_weaken: "touched p n s b b' \<Longrightarrow> p0 \<le> p \<Longrightarrow> p + n \<le> s \<Longrightarrow> touched p0 (s - p0) s b b'"
  unfolding touched_def by auto

lemma hdr_touched: "touched p n s b b' \<Longrightarrow> 24 \<le> p \<Longrightarrow> 24 \<le> s \<Longrightarrow> i \<le> 20 \<Longrightarrow> load32 (btf_data b') i = load32 (btf_data b) i"
  by (rule load_touched) auto

lemma sanitize_loop_sound:
  assumes "laid_out b (ds @ qs)" "btf_table b (map Btf_at (ds @ qs))" "strings_ok b" "\<forall>q\<in>set qs. datasec_ok b (Btf_at q)"
  shows "\<exists>b'. sanitize_loop has_datasec has_func [Suc (length ds)..<Suc (length (ds @ qs))] b = Some b' \<and>
    touched 24 (btf_strings b - 24) (btf_strings b) b b' \<and> laid_out b' (ds @ qs) \<and> sanitized has_datasec has_func b b' qs \<and>
    (\<forall>p\<in>set ds. btf_kind b' (Btf_at p) = btf_kind b (Btf_at p) \<and> tsize b' p = tsize b p)"
  using assms
proof (induction qs arbitrary: b ds)
  case Nil
  then show ?case by (auto intro: touched_refl simp: sanitized_def)
next
  case (Cons q qs)
  let ?all = "ds @ q # qs" and ?s = "btf_strings b"
  obtain info where info: "type_at b q (tsize b q) info" using laid_out_at [OF Cons.prems(1), of q] by auto
  have kq: "btf_kind b (Btf_at q) = Some (BTF_INFO_KIND info)" using info by (simp add: type_at_def btf_kind_def t_info_def)
  have "datasec_ok b (Btf_at q)" using Cons.prems(4) by simp
  from sanitize_type_retyped [OF info Cons.prems(3) this, of has_datasec has_func]
  obtain b1 where step: "sanitize_type has_datasec has_func (Btf_at q) b = Some b1"
    and rt: "retyped q (tsize b q) (sanitized_kind has_datasec has_func (BTF_INFO_KIND info)) b (Some b1)"
    by (auto simp: retyped_def)
  have qin: "q \<in> set ?all" by simp
  note r = retyped_step [OF Cons.prems(1) qin rt Cons.prems(3)]
  have t1: "touched q (tsize b q) ?s b b1" using rt by (simp add: retyped_def)
  note f = touched_fields [OF t1]
  have q24: "24 \<le> q" "q + tsize b q \<le> ?s" using info by (simp_all add: type_at_def)
  have tab: "btf_table b1 (map Btf_at ?all)"
    using Cons.prems(2) t1 unfolding touched_def btf_table_def by (metis (no_types, lifting) btf.select_convs(2,5,6) btf.surjective btf.update_convs(1))
  have fresh: "p \<noteq> q" if "p \<in> set ds \<or> p \<in> set qs" for p
  proof
    assume "p = q"
    moreover have "12 \<le> tsize b q" by (rule tsize_pos [OF info])
    ultimately show False using Cons.prems(1) that by (auto simp: laid_out_def sorted_wrt_append)
  qed
  have keep: "load32 (btf_data b1) (p + i) = load32 (btf_data b) (p + i)" if "p \<in> set ds \<or> p \<in> set qs" "i + 4 \<le> tsize b p" for p i
    using r(4) [of p i] fresh [OF that(1)] that by auto
  have szs: "tsize b1 p = tsize b p" if "p \<in> set ?all" for p using r(3) [of p] that by blast
  have kinds: "btf_kind b1 (Btf_at p) = btf_kind b (Btf_at p)" if p: "p \<in> set ds \<or> p \<in> set qs" for p
  proof -
    obtain i' where "type_at b p (tsize b p) i'" using laid_out_at [OF Cons.prems(1), of p] p by auto
    then show ?thesis using keep [OF p, of 4] tsize_pos by (fastforce simp: btf_kind_def t_info_def)
  qed
  have hdr: "hdr_str_len (btf_data b1) = hdr_str_len (btf_data b)"
    using hdr_touched [OF t1 q24(1)] q24 by (simp add: hdr_str_len_def)
  have "datasec_ok b1 (Btf_at p)" if p: "p \<in> set qs" for p
  proof -
    obtain i' where i': "type_at b p (tsize b p) i'" using laid_out_at [OF Cons.prems(1), of p] p by auto
    have "datasec_ok b (Btf_at p)" using Cons.prems(4) p by simp
    from datasec_ok_keep [OF i' this f(2) hdr] keep p show ?thesis by blast
  qed
  then obtain b2 where b2: "sanitize_loop has_datasec has_func [Suc (length (ds @ [q]))..<Suc (length ((ds @ [q]) @ qs))] b1 = Some b2"
    "touched 24 (?s - 24) ?s b1 b2" "laid_out b2 ?all" "sanitized has_datasec has_func b1 b2 qs"
    "\<forall>p\<in>set (ds @ [q]). btf_kind b2 (Btf_at p) = btf_kind b1 (Btf_at p) \<and> tsize b2 p = tsize b1 p"
    using Cons.IH [of b1 "ds @ [q]"] r(1,2) tab f(1) by auto
  have "touched 24 (?s - 24) ?s b b2" using touched_trans [OF touched_weaken [OF t1 q24] b2(2)] .
  moreover have "sanitized has_datasec has_func b b2 (q # qs)"
    using b2(4,5) kinds szs r(5) kq by (simp add: sanitized_def)
  moreover have "\<forall>p\<in>set ds. btf_kind b2 (Btf_at p) = btf_kind b (Btf_at p) \<and> tsize b2 p = tsize b p"
    using b2(5) kinds szs by simp
  moreover have "btf__type_by_id b (of_nat (Suc (length ds))) = Some (Some (Btf_at q))"
  proof -
    have "Suc (length ds) \<le> unat (nr_types b)" using btf_table_nr [OF Cons.prems(2)] by simp
    moreover have "unat (nr_types b) < 2 ^ LENGTH(32)" by (rule unsigned_less)
    ultimately have "unat (of_nat (Suc (length ds)) :: u32) = Suc (length ds)" by (intro unat_of_nat_small) linarith
    then show ?thesis
      using btf_table_type_by_id [OF Cons.prems(2), of "of_nat (Suc (length ds))"] by (auto simp: nth_append simp del: of_nat_Suc)
  qed
  moreover have "[Suc (length ds)..<Suc (length ?all)] = Suc (length ds) # [Suc (length (ds @ [q]))..<Suc (length ((ds @ [q]) @ qs))]"
    by (simp add: upt_conv_Cons del: upt_Suc)
  ultimately show ?case
    using step b2(1,3) by (intro exI [of _ b2]) (simp del: of_nat_Suc upt_Suc)
qed

section \<open>Parsing the blob again\<close>

lemma btf_grow_types_data:
  "btf_grow_types r (b\<lparr>btf_data := d\<rparr>) = map_option (map_sum id (\<lambda>b. b\<lparr>btf_data := d\<rparr>)) (btf_grow_types r b)"
  by (simp add: btf_grow_types_def Let_def split: Option.bind_split)

lemma btf_add_type_data:
  "btf_add_type r (b\<lparr>btf_data := d\<rparr>) t = map_option (\<lambda>(e, b). (e, b\<lparr>btf_data := d\<rparr>)) (btf_add_type r b t)"
proof (cases "btf_grow_types r b")
  case (Some x)
  then show ?thesis by (cases x) (simp_all add: btf_add_type_def btf_grow_types_data Let_def split: Option.bind_split)
qed (simp add: btf_add_type_def btf_grow_types_data)

text \<open>The table depends on the lengths of the types only.\<close>

definition same_sizes :: "bytes \<Rightarrow> bytes \<Rightarrow> nat list \<Rightarrow> bool" where
  "same_sizes d d' qs \<longleftrightarrow> (\<forall>q\<in>set qs. \<exists>i i'. load32 d (q + 4) = Some i \<and> load32 d' (q + 4) = Some i' \<and> btf_type_size i' = btf_type_size i)"

lemma btf_type_loop_data:
  assumes "btf_type_loop r off fin b = Some (0, b1)" "type_chain (btf_data b) off fin = Some qs" "same_sizes (btf_data b) d qs"
  shows "btf_type_loop r off fin (b\<lparr>btf_data := d\<rparr>) = Some (0, b1\<lparr>btf_data := d\<rparr>)"
  using assms
proof (induction r off fin b arbitrary: qs rule: btf_type_loop.induct)
  case (1 r off fin b)
  show ?case
  proof (cases "off < fin")
    case False
    then show ?thesis using 1(2) by (simp add: btf_type_loop.simps)
  next
    case True
    obtain info os where info: "load32 (btf_data b) (off + 4) = Some info" "\<not> btf_type_size info < 0" "qs = off # os"
      and os: "type_chain (btf_data b) (off + nat (btf_type_size info)) fin = Some os"
      using 1(3) True by (subst (asm) type_chain.simps) (auto split: option.splits if_splits)
    obtain info' where info': "load32 d (off + 4) = Some info'" "btf_type_size info' = btf_type_size info"
      and ss: "same_sizes (btf_data b) d os"
      using 1(4) info by (auto simp: same_sizes_def)
    have ti: "t_info b (Btf_at off) = Some info" "t_info (b\<lparr>btf_data := d\<rparr>) (Btf_at off) = Some info'"
      using info(1) info'(1) by (simp_all add: t_info_def)
    obtain b2 where add: "btf_add_type r b (Btf_at off) = Some (0, b2)"
      and loop: "btf_type_loop r (off + nat (btf_type_size info)) fin b2 = Some (0, b1)"
      using 1(2) True ti(1) info(2) by (subst (asm) btf_type_loop.simps) (auto split: option.splits if_splits)
    have "b2\<lparr>btf_data := btf_data b\<rparr> = b2" using btf_add_type_data [where r = r and b = b and d = "btf_data b" and t = "Btf_at off"] add by simp
    then have "btf_data b2 = btf_data b" by (cases b2) simp
    then have "btf_type_loop r (off + nat (btf_type_size info)) fin (b2\<lparr>btf_data := d\<rparr>) = Some (0, b1\<lparr>btf_data := d\<rparr>)"
      using 1(1) [OF True ti(1) info(2) add refl _ loop] os ss by simp
    then show ?thesis
      using True ti(2) info(2) info'(2) add by (subst btf_type_loop.simps) (simp add: btf_add_type_data)
  qed
qed

lemma load_prefix:
  assumes "take k d' = take k d" "length d' = length d" "i + n \<le> k"
  shows "load d' i n = load d i n"
proof -
  have "take n (drop i xs) = take n (drop i (take k xs))" for xs :: bytes using assms(3) by (simp add: drop_take)
  then show ?thesis using assms(1,2) by (metis load_def)
qed

lemma hdr_prefix:
  assumes "take 24 d' = take 24 d" "length d' = length d" "24 \<le> length d"
  shows "hdr_magic d' = hdr_magic d" "hdr_version d' = hdr_version d" "hdr_flags d' = hdr_flags d"
    "hdr_type_off d' = hdr_type_off d" "hdr_str_off d' = hdr_str_off d" "hdr_str_len d' = hdr_str_len d"
proof -
  have "d' ! i = d ! i" if "i < 24" for i using arg_cong [OF assms(1), of "\<lambda>xs. xs ! i"] that assms(2,3) by simp
  then show "hdr_version d' = hdr_version d" "hdr_flags d' = hdr_flags d"
    using assms(2) by (simp_all add: hdr_version_def hdr_flags_def arr_get_def)
qed (simp_all add: hdr_magic_def hdr_type_off_def hdr_str_off_def hdr_str_len_def load16_def load32_def load_prefix [OF assms(1,2)])

lemma btf_parse_hdr_data:
  assumes "take 24 d = take 24 (btf_data b)" "length d = length (btf_data b)" "24 \<le> length d"
  shows "btf_parse_hdr (b\<lparr>btf_data := d\<rparr>) = map_option (\<lambda>(e, b). (e, b\<lparr>btf_data := d\<rparr>)) (btf_parse_hdr b)"
  using hdr_prefix [OF assms(1,2)] assms(2,3) by (simp add: btf_parse_hdr_def Let_def split: Option.bind_split)

lemma btf_parse_str_sec_data:
  assumes "btf_parse_str_sec b = Some (0, b1)" "take 24 d = take 24 (btf_data b)" "length d = length (btf_data b)" "24 \<le> length d"
    "\<And>i. i < length d \<Longrightarrow> btf_strings b1 \<le> i \<Longrightarrow> (d ! i = 0) = (btf_data b ! i = 0)"
  shows "btf_parse_str_sec (b\<lparr>btf_data := d\<rparr>) = Some (0, b1\<lparr>btf_data := d\<rparr>)"
proof -
  obtain str_off str_len where h: "hdr_str_off (btf_data b) = Some str_off" "hdr_str_len (btf_data b) = Some str_len"
    using assms(1) by (auto simp: btf_parse_str_sec_def split: Option.bind_splits)
  define start fin where "start = btf_nohdr_data b + unat str_off" and "fin = start + unat str_len"
  have p: "str_len \<noteq> 0" "\<not> str_len - 1 > BTF_MAX_STR_OFFSET" "start < length (btf_data b)" "btf_data b ! start = 0"
    "fin - 1 < length (btf_data b)" "btf_data b ! (fin - 1) = 0" "b1 = b\<lparr>btf_strings := start\<rparr>"
    using assms(1) h by (auto simp: btf_parse_str_sec_def start_def fin_def Let_def errno_defs arr_get_def split: if_splits Option.bind_splits)
  have "0 < unat str_len" using p(1) by (simp add: unat_gt_0)
  then have "start \<le> fin - 1" unfolding fin_def by linarith
  then have "d ! start = 0" "d ! (fin - 1) = 0" using assms(3,5) p by simp_all
  then show ?thesis
    using hdr_prefix [OF assms(2-3)] assms(3,4) h p by (simp add: btf_parse_str_sec_def arr_get_def Let_def flip: start_def fin_def)
qed

lemma btf_new_reparse:
  assumes "btf__new c m r data sz = Some (Inr b)" "type_chain (btf_data b) (24 + unat type_off) (24 + unat str_off) = Some qs"
    "hdr_type_off (btf_data b) = Some type_off" "hdr_str_off (btf_data b) = Some str_off"
    "touched 24 n (btf_strings b) b b'" "same_sizes (btf_data b) (btf_data b') qs"
  shows "btf__new c m r (btf_data b') sz = Some (Inr b')"
proof -
  let ?d = "btf_data b'"
  define b0 where "b0 = \<lparr>btf_data = take (unat sz) data, btf_types = [], btf_strings = 0, btf_nohdr_data = 0, nr_types = 0,
      types_size = 0, btf_data_size = sz, btf_fd = -1\<rparr>"
  have cm: "c" "m" and sz: "unat sz \<le> length data" using assms(1) by (auto simp: btf__new_def load_def split: if_splits Option.bind_splits)
  obtain b1 b2 where b1: "btf_parse_hdr b0 = Some (0, b1)" and b2: "btf_parse_str_sec b1 = Some (0, b2)"
    and b3: "btf_parse_type_sec r b2 = Some (0, b)"
    using assms(1) by (auto simp: btf__new_def load_def b0_def split: if_splits Option.bind_splits)
  from btf_new_parts [OF assms(1)] have db: "btf_data b = take (unat sz) data" "24 + unat str_off \<le> unat sz" "btf_strings b = 24 + unat str_off"
    using assms(4) by (metis option.inject)+
  from btf_parse_hdr_ok [OF b1] have e1: "b1 = b0\<lparr>btf_nohdr_data := 24\<rparr>" by metis
  have e2: "b2 = b1\<lparr>btf_strings := 24 + unat str_off\<rparr>"
    using btf_parse_str_sec_ok [OF b2] assms(4) e1 db(1) by (auto simp: b0_def)
  have data: "btf_data b0 = btf_data b" "btf_data b1 = btf_data b" "btf_data b2 = btf_data b" by (simp_all add: e2 e1 b0_def db(1))
  have len: "length ?d = length (btf_data b)" "length (btf_data b) = unat sz" "24 \<le> unat sz"
    using assms(5) db sz by (simp_all add: touched_def)
  have tk: "take 24 ?d = take 24 (btf_data b)"
    using assms(5) db(3) len by (intro nth_equalityI) (simp_all add: touched_def)
  note pre = tk len(1) len(3) [folded len(2), folded len(1)]
  have "btf_parse_hdr (b0\<lparr>btf_data := ?d\<rparr>) = Some (0, b1\<lparr>btf_data := ?d\<rparr>)"
    using btf_parse_hdr_data [of ?d b0] pre b1 data by simp
  moreover have "btf_parse_str_sec (b1\<lparr>btf_data := ?d\<rparr>) = Some (0, b2\<lparr>btf_data := ?d\<rparr>)"
    using pre data assms(5) len(1) db(3) by (intro btf_parse_str_sec_data [OF b2]) (simp_all add: e2 touched_def)
  moreover have "btf_parse_type_sec r (b2\<lparr>btf_data := ?d\<rparr>) = Some (0, b\<lparr>btf_data := ?d\<rparr>)"
  proof -
    have "btf_type_loop r (24 + unat type_off) (24 + unat str_off) b2 = Some (0, b)"
      using b3 assms(3,4) data e1 e2 by (simp add: btf_parse_type_sec_def)
    then have "btf_type_loop r (24 + unat type_off) (24 + unat str_off) (b2\<lparr>btf_data := ?d\<rparr>) = Some (0, b\<lparr>btf_data := ?d\<rparr>)"
      using assms(2,6) data by (intro btf_type_loop_data) simp_all
    then show ?thesis using hdr_prefix [OF tk len(1)] len assms(3,4) e1 e2 by (simp add: btf_parse_type_sec_def)
  qed
  moreover have "load ?d 0 (unat sz) = Some ?d" using len by (simp add: load_def)
  moreover have "b0\<lparr>btf_data := ?d\<rparr> = \<lparr>btf_data = ?d, btf_types = [], btf_strings = 0, btf_nohdr_data = 0, nr_types = 0, types_size = 0,
      btf_data_size = sz, btf_fd = -1\<rparr>" by (simp add: b0_def)
  moreover have "b' = b\<lparr>btf_data := ?d\<rparr>" using assms(5) by (simp add: touched_def)
  ultimately show ?thesis using cm by (simp add: btf__new_def)
qed

text \<open>What the blob must have beyond the checks of \<^verbatim>\<open>btf__new\<close>: the last type ends before the strings, and the data sections name
  types of the table.\<close>

definition btf_regular :: "btf \<Rightarrow> bool" where
  "btf_regular b \<longleftrightarrow> list_all (\<lambda>i. case btf__type_by_id b (of_nat i) of
       Some (Some (Btf_at q)) \<Rightarrow> q + tsize b q \<le> btf_strings b \<and> datasec_ok b (Btf_at q)
     | _ \<Rightarrow> True) [1..<Suc (unat (nr_types b))]"

lemma type_chain_sorted:
  assumes "type_chain (btf_data b) off fin = Some qs"
  shows "sorted_wrt (\<lambda>p q. p + tsize b p \<le> q) qs"
  using assms
proof (induction "btf_data b" off fin arbitrary: qs rule: type_chain.induct)
  case (1 off fin)
  show ?case
  proof (cases "off < fin")
    case False
    then show ?thesis using 1(2) by (simp add: type_chain.simps)
  next
    case True
    obtain info os where info: "load32 (btf_data b) (off + 4) = Some info" "\<not> btf_type_size info < 0" "qs = off # os"
      and os: "type_chain (btf_data b) (off + nat (btf_type_size info)) fin = Some os"
      using 1(2) True by (subst (asm) type_chain.simps) (auto split: option.splits if_splits)
    have "sorted_wrt (\<lambda>p q. p + tsize b p \<le> q) os" using 1(1) [OF True info(1,2) os] .
    then show ?thesis using type_chain_bounds [OF os] info(1,3) by (auto simp: tsize_def)
  qed
qed

lemma btf_new_strings:
  assumes "btf__new c m r data sz = Some (Inr b)"
  shows "strings_ok b"
proof -
  obtain type_off str_off qs where ch: "hdr_type_off (btf_data b) = Some type_off" "hdr_str_off (btf_data b) = Some str_off"
    "type_chain (btf_data b) (24 + unat type_off) (24 + unat str_off) = Some qs" "qs \<noteq> []" "btf_table b (map Btf_at qs)"
    by (rule btf_new_chain [OF assms])
  from btf_new_parts [OF assms] have db: "btf_data b = take (unat sz) data" "btf_strings b = 24 + unat str_off"
    using ch(2) by (metis option.inject)+
  obtain b1 b2 where b2: "btf_parse_str_sec b1 = Some (0, b2)" and b1: "btf_data b1 = btf_data b" "btf_nohdr_data b1 = 24"
  proof -
    define b0 where "b0 = \<lparr>btf_data = take (unat sz) data, btf_types = [], btf_strings = 0, btf_nohdr_data = 0, nr_types = 0,
        types_size = 0, btf_data_size = sz, btf_fd = -1\<rparr>"
    obtain b1 b2 where x: "btf_parse_hdr b0 = Some (0, b1)" "btf_parse_str_sec b1 = Some (0, b2)"
      using assms by (auto simp: btf__new_def load_def b0_def split: if_splits Option.bind_splits)
    have "b1 = b0\<lparr>btf_nohdr_data := 24\<rparr>" using btf_parse_hdr_ok [OF x(1)] by metis
    then show thesis using that x(2) db(1) by (simp add: b0_def)
  qed
  obtain len where len: "hdr_str_len (btf_data b) = Some len" "len \<noteq> 0" "24 + unat str_off + unat len - 1 < length (btf_data b)"
    "btf_data b ! (24 + unat str_off + unat len - 1) = 0"
    using b2 b1 ch(2) by (auto simp: btf_parse_str_sec_def Let_def errno_defs arr_get_def split: if_splits Option.bind_splits)
  have "0 < unat len" using len(2) by (simp add: unat_gt_0)
  moreover have "\<exists>vt. btf__type_by_id b tid = Some (Some vt) \<and> t_name_off b vt \<noteq> None" if "tid \<le> nr_types b" for tid
  proof -
    have tid: "unat tid \<le> length qs" using that btf_table_nr [OF ch(5)] by (simp add: word_le_nat_alt)
    show ?thesis
    proof (cases "tid = 0")
      case True
      then show ?thesis using btf_table_type_by_id [OF ch(5), of tid] ch(4) by (simp add: t_name_off_def BTF_TYPE_def)
    next
      case False
      then have i: "unat tid - 1 < length qs" using tid by (metis One_nat_def Suc_le_lessD Suc_pred unat_gt_0)
      then have "qs ! (unat tid - 1) \<in> set qs" by simp
      from type_chain_bounds [OF ch(3) this] have "load32 (btf_data b) (qs ! (unat tid - 1) + 4) \<noteq> None" by auto
      then show ?thesis
        using btf_table_type_by_id [OF ch(5), of tid] ch(4) False tid i
        by (auto simp: t_name_off_def load32_def load_def nth_map split: if_splits)
    qed
  qed
  ultimately show ?thesis using len db(2) by (auto simp: strings_ok_def)
qed

lemma btf_new_laid_out:
  assumes "btf__new c m r data sz = Some (Inr b)" "btf_regular b" "hdr_type_off (btf_data b) = Some type_off" "hdr_str_off (btf_data b) = Some str_off"
    "type_chain (btf_data b) (24 + unat type_off) (24 + unat str_off) = Some qs" "qs \<noteq> []" "btf_table b (map Btf_at qs)"
  shows "laid_out b qs" "\<forall>q\<in>set qs. datasec_ok b (Btf_at q)"
proof -
  have reg: "q + tsize b q \<le> btf_strings b \<and> datasec_ok b (Btf_at q)" if q: "q \<in> set qs" for q
  proof -
    obtain i where i: "i < length qs" "qs ! i = q" using q by (metis in_set_conv_nth)
    have nr: "unat (nr_types b) = length qs" using btf_table_nr [OF assms(7)] by simp
    moreover have "unat (nr_types b) < 2 ^ LENGTH(32)" by (rule unsigned_less)
    ultimately have "unat (of_nat (Suc i) :: u32) = Suc i" using i(1) by (intro unat_of_nat_small) linarith
    then have "btf__type_by_id b (of_nat (Suc i)) = Some (Some (Btf_at q))"
      using btf_table_type_by_id [OF assms(7), of "of_nat (Suc i)"] assms(6) i by (auto simp del: of_nat_Suc)
    moreover have "Suc i \<in> set [1..<Suc (unat (nr_types b))]" using i(1) nr by (simp del: upt_Suc)
    then have "case btf__type_by_id b (of_nat (Suc i)) of Some (Some (Btf_at q)) \<Rightarrow> q + tsize b q \<le> btf_strings b \<and> datasec_ok b (Btf_at q) | _ \<Rightarrow> True"
      using assms(2) unfolding btf_regular_def list_all_iff by (rule bspec [rotated])
    ultimately show ?thesis by simp
  qed
  then show "\<forall>q\<in>set qs. datasec_ok b (Btf_at q)" by simp
  have s: "btf_strings b \<le> length (btf_data b)" using btf_new_strings [OF assms(1)] by (auto simp: strings_ok_def)
  have "\<exists>info. type_at b q (tsize b q) info" if q: "q \<in> set qs" for q
    using type_chain_bounds [OF assms(5) q] reg [OF q] s by (auto simp: type_at_def tsize_def)
  then show "laid_out b qs" using type_chain_sorted [OF assms(5)] by (simp add: laid_out_def)
qed

lemma sanitized_same_sizes:
  assumes "laid_out b qs" "laid_out b' qs" "sanitized has_datasec has_func b b' qs"
  shows "same_sizes (btf_data b) (btf_data b') qs"
  unfolding same_sizes_def
proof
  fix q assume q: "q \<in> set qs"
  obtain i i' where "type_at b q (tsize b q) i" "type_at b' q (tsize b' q) i'" using laid_out_at [OF assms(1) q] laid_out_at [OF assms(2) q] by auto
  then show "\<exists>i i'. load32 (btf_data b) (q + 4) = Some i \<and> load32 (btf_data b') (q + 4) = Some i' \<and> btf_type_size i' = btf_type_size i"
    using assms(3) q by (auto simp: sanitized_def type_at_def)
qed

lemma sanitized_none: "sanitized True True b b qs"
proof -
  have "sanitized_kind True True = (\<lambda>k. k)" by (simp add: sanitized_kind_def fun_eq_iff)
  then show ?thesis by (simp add: sanitized_def option.map_ident)
qed

text \<open>The replacement on an accepted blob.\<close>

lemma sanitize_btf_blob:
  assumes "btf__new c m r data sz = Some (Inr b)" "btf_regular b" "lo_btf obj = Some b"
  obtains b' qs where "bpf_object__sanitize_btf obj = Some (obj\<lparr>lo_btf := Some b'\<rparr>)" "btf__new c m r (btf_data b') sz = Some (Inr b')"
    "btf_table b (map Btf_at qs)" "qs \<noteq> []" "touched 24 (btf_strings b - 24) (btf_strings b) b b'"
    "sanitized (eo_caps_btf_datasec obj) (eo_caps_btf_func obj) b b' qs"
proof -
  let ?ds = "eo_caps_btf_datasec obj" and ?fn = "eo_caps_btf_func obj"
  obtain type_off str_off qs where ch: "hdr_type_off (btf_data b) = Some type_off" "hdr_str_off (btf_data b) = Some str_off"
    "type_chain (btf_data b) (24 + unat type_off) (24 + unat str_off) = Some qs" "qs \<noteq> []" "btf_table b (map Btf_at qs)"
    by (rule btf_new_chain [OF assms(1)])
  note lay = btf_new_laid_out [OF assms(1,2) ch]
  have "\<exists>b'. bpf_object__sanitize_btf obj = Some (obj\<lparr>lo_btf := Some b'\<rparr>) \<and> touched 24 (btf_strings b - 24) (btf_strings b) b b' \<and>
      laid_out b' qs \<and> sanitized ?ds ?fn b b' qs"
  proof (cases "?fn \<and> ?ds")
    case True
    then show ?thesis
      using assms(3) lay(1) sanitized_none [of b qs] by (intro exI [of _ b]) (simp add: bpf_object__sanitize_btf_def touched_refl)
  next
    case False
    have nr: "unat (btf__get_nr_types b) = length qs" using btf_table_nr [OF ch(5)] by (simp add: btf__get_nr_types_def)
    from sanitize_loop_sound [of b "[]" qs ?ds ?fn] lay ch(5) btf_new_strings [OF assms(1)]
    obtain b' where "sanitize_loop ?ds ?fn [1..<Suc (length qs)] b = Some b'" "touched 24 (btf_strings b - 24) (btf_strings b) b b'"
      "laid_out b' qs" "sanitized ?ds ?fn b b' qs" by auto
    then show ?thesis using False assms(3) nr by (intro exI [of _ b']) (auto simp: bpf_object__sanitize_btf_def simp del: upt_Suc)
  qed
  then obtain b' where b': "bpf_object__sanitize_btf obj = Some (obj\<lparr>lo_btf := Some b'\<rparr>)" "touched 24 (btf_strings b - 24) (btf_strings b) b b'"
    "laid_out b' qs" "sanitized ?ds ?fn b b' qs" by blast
  have "btf__new c m r (btf_data b') sz = Some (Inr b')"
    by (rule btf_new_reparse [OF assms(1) ch(3,1,2) b'(2) sanitized_same_sizes [OF lay(1) b'(3,4)]])
  then show thesis using that b' ch(4,5) by blast
qed

section \<open>Properties\<close>

text \<open>A blob with an integer, a variable, a data section, a function prototype and a function.\<close>

definition datasec_blob :: bytes where
  "datasec_blob =
     [159, 235, 1, 0, 24, 0, 0, 0, 0, 0, 0, 0, 80, 0, 0, 0, 80, 0, 0, 0, 9, 0, 0, 0,
      0, 0, 0, 0, 0, 0, 0, 1, 4, 0, 0, 0, 32, 0, 0, 1, 1, 0, 0, 0, 0, 0, 0, 14,
      1, 0, 0, 0, 0, 0, 0, 0, 3, 0, 0, 0, 1, 0, 0, 15, 4, 0, 0, 0, 2, 0, 0, 0,
      0, 0, 0, 0, 4, 0, 0, 0, 0, 0, 0, 0, 0, 0, 0, 13, 0, 0, 0, 0, 1, 0, 0, 0,
      0, 0, 0, 12, 4, 0, 0, 0, 0, 120, 0, 46, 100, 97, 116, 97, 0]"

lemma datasec_blob_new: "case btf__new True True (\<lambda>_. True) datasec_blob 113 of
    Some (Inr b) \<Rightarrow> btf_regular b \<and> nr_types b = 5 \<and> btf__type_by_id b 3 = Some (Some (Btf_at 56)) \<and> btf_kind b (Btf_at 56) = Some BTF_KIND_DATASEC
  | _ \<Rightarrow> False"
  by code_simp

text \<open>C24: replacing the kinds an old kernel does not know keeps the layout of the type information: from an accepted blob whose
  types end before the strings and whose data sections refer to types of the table, the replacement
  returns, never leaving the blob, and the changed bytes are accepted again with the very same table: every type id
  still denotes the type at the same place, of the same kind unless it was a variable, a data section, a function or
  a prototype that the kernel does not support, which have become an integer, a structure, a typedef and an enumeration.\<close>

theorem sanitize_btf_reparses:
  assumes "btf__new c m r data sz = Some (Inr b)" "btf_regular b" "lo_btf obj = Some b"
  shows "\<exists>b'. bpf_object__sanitize_btf obj = Some (obj\<lparr>lo_btf := Some b'\<rparr>) \<and> btf__new c m r (btf_data b') sz = Some (Inr b') \<and>
    (\<forall>tid t. btf__type_by_id b tid = Some (Some t) \<longrightarrow> btf__type_by_id b' tid = Some (Some t) \<and>
       btf_kind b' t = map_option (sanitized_kind (eo_caps_btf_datasec obj) (eo_caps_btf_func obj)) (btf_kind b t))"
proof -
  obtain b' qs where b': "bpf_object__sanitize_btf obj = Some (obj\<lparr>lo_btf := Some b'\<rparr>)" "btf__new c m r (btf_data b') sz = Some (Inr b')"
    "btf_table b (map Btf_at qs)" "qs \<noteq> []" "touched 24 (btf_strings b - 24) (btf_strings b) b b'"
    "sanitized (eo_caps_btf_datasec obj) (eo_caps_btf_func obj) b b' qs"
    by (rule sanitize_btf_blob [OF assms])
  have void: "btf_kind b Btf_void = Some 0" "btf_kind b' Btf_void = Some 0"
    by (simp_all add: btf_kind_def t_info_def BTF_TYPE_def BTF_INFO_KIND_def)
  have "t = Btf_void \<or> (\<exists>q\<in>set qs. t = Btf_at q)" if "btf__type_by_id b tid = Some (Some t)" for tid t
    using that btf_table_type_by_id [OF b'(3), of tid] b'(4) unat_gt_0 [of tid] by (auto split: if_splits)
  then show ?thesis
    using b'(1,2,6) void touched_type_by_id [OF b'(5)]
    by (intro exI [of _ b']) (fastforce simp: sanitized_def sanitized_kind_def btf_kind_defs)
qed

text \<open>An object with this blob for a kernel that knows neither data sections nor functions.\<close>

definition old_kernel_obj :: "btf \<Rightarrow> elf_obj" where
  "old_kernel_obj b = zero_obj\<lparr>lo_btf := Some b, eo_caps_btf_datasec := False, eo_caps_btf_func := False\<rparr>"

theorem sanitize_btf_reparses_witness:
  "\<exists>b b'. btf__new True True (\<lambda>_. True) datasec_blob 113 = Some (Inr b) \<and> btf_kind b (Btf_at 56) = Some BTF_KIND_DATASEC \<and>
    btf__new True True (\<lambda>_. True) (btf_data b') 113 = Some (Inr b') \<and> btf_kind b' (Btf_at 56) = Some BTF_KIND_STRUCT"
proof -
  obtain b where b: "btf__new True True (\<lambda>_. True) datasec_blob 113 = Some (Inr b)" "btf_regular b"
    "btf__type_by_id b 3 = Some (Some (Btf_at 56))" "btf_kind b (Btf_at 56) = Some BTF_KIND_DATASEC"
    using datasec_blob_new by (auto split: option.splits sum.splits)
  have "lo_btf (old_kernel_obj b) = Some b" by (simp add: old_kernel_obj_def)
  from sanitize_btf_reparses [OF b(1,2) this] b show ?thesis
    by (fastforce simp: old_kernel_obj_def sanitized_kind_def btf_kind_defs)
qed

text \<open>A variable of a data section whose type id is outside the table is a null pointer that is read.\<close>

lemma sanitize_unchecked_type:
  assumes "vsi_offset b (Btf_at q) j = Some off" "set_field (Btf_at q) (BTF_TYPE + 12 * j + 8) (off * 8) b = Some b1"
    "vsi_type b1 (Btf_at q) j = Some tid" "tid > nr_types b"
  shows "vsi_to_member (Btf_at q) j b = None"
proof -
  have "nr_types b1 = nr_types b" using assms(2) by (auto simp: set_field.simps)
  moreover have "nr_types b2 = nr_types b1" if "set_field (Btf_at q) k v b1 = Some b2" for k v b2 using that by (auto simp: set_field.simps)
  ultimately show ?thesis using assms by (auto simp: vsi_to_member_def btf__type_by_id_def split: Option.bind_splits)
qed

end
