(* ===== verification/Sec_Names.thy ===== *)
theory Sec_Names
  imports Elf_File "HOL-Library.Sublist"
begin

text \<open>
  The types of programs in \<^verbatim>\<open>eBPF_app/libbpf/src/libbpf.c\<close>: the table that guesses the type and the attach type of a program from the name
  of its section (\<^verbatim>\<open>section_names\<close>), the lookups in it, and the functions that read and set the type. The first entry that is a
  prefix of the name decides; it is shown to be the longest one.
\<close>

section \<open>Constants\<close>

definition ESRCH :: int where "ESRCH = 3"

definition BPF_PROG_TYPE_SOCKET_FILTER :: nat where "BPF_PROG_TYPE_SOCKET_FILTER = 1"
definition BPF_PROG_TYPE_SCHED_CLS :: nat where "BPF_PROG_TYPE_SCHED_CLS = 3"
definition BPF_PROG_TYPE_SCHED_ACT :: nat where "BPF_PROG_TYPE_SCHED_ACT = 4"
definition BPF_PROG_TYPE_TRACEPOINT :: nat where "BPF_PROG_TYPE_TRACEPOINT = 5"
definition BPF_PROG_TYPE_PERF_EVENT :: nat where "BPF_PROG_TYPE_PERF_EVENT = 7"
definition BPF_PROG_TYPE_CGROUP_SKB :: nat where "BPF_PROG_TYPE_CGROUP_SKB = 8"
definition BPF_PROG_TYPE_CGROUP_SOCK :: nat where "BPF_PROG_TYPE_CGROUP_SOCK = 9"
definition BPF_PROG_TYPE_LWT_IN :: nat where "BPF_PROG_TYPE_LWT_IN = 10"
definition BPF_PROG_TYPE_LWT_OUT :: nat where "BPF_PROG_TYPE_LWT_OUT = 11"
definition BPF_PROG_TYPE_LWT_XMIT :: nat where "BPF_PROG_TYPE_LWT_XMIT = 12"
definition BPF_PROG_TYPE_SOCK_OPS :: nat where "BPF_PROG_TYPE_SOCK_OPS = 13"
definition BPF_PROG_TYPE_SK_SKB :: nat where "BPF_PROG_TYPE_SK_SKB = 14"
definition BPF_PROG_TYPE_CGROUP_DEVICE :: nat where "BPF_PROG_TYPE_CGROUP_DEVICE = 15"
definition BPF_PROG_TYPE_SK_MSG :: nat where "BPF_PROG_TYPE_SK_MSG = 16"
definition BPF_PROG_TYPE_RAW_TRACEPOINT :: nat where "BPF_PROG_TYPE_RAW_TRACEPOINT = 17"
definition BPF_PROG_TYPE_CGROUP_SOCK_ADDR :: nat where "BPF_PROG_TYPE_CGROUP_SOCK_ADDR = 18"
definition BPF_PROG_TYPE_LWT_SEG6LOCAL :: nat where "BPF_PROG_TYPE_LWT_SEG6LOCAL = 19"
definition BPF_PROG_TYPE_LIRC_MODE2 :: nat where "BPF_PROG_TYPE_LIRC_MODE2 = 20"
definition BPF_PROG_TYPE_FLOW_DISSECTOR :: nat where "BPF_PROG_TYPE_FLOW_DISSECTOR = 22"
definition BPF_PROG_TYPE_CGROUP_SYSCTL :: nat where "BPF_PROG_TYPE_CGROUP_SYSCTL = 23"
definition BPF_PROG_TYPE_CGROUP_SOCKOPT :: nat where "BPF_PROG_TYPE_CGROUP_SOCKOPT = 25"
definition BPF_CGROUP_INET_INGRESS :: nat where "BPF_CGROUP_INET_INGRESS = 0"
definition BPF_CGROUP_INET_EGRESS :: nat where "BPF_CGROUP_INET_EGRESS = 1"
definition BPF_CGROUP_INET_SOCK_CREATE :: nat where "BPF_CGROUP_INET_SOCK_CREATE = 2"
definition BPF_CGROUP_SOCK_OPS :: nat where "BPF_CGROUP_SOCK_OPS = 3"
definition BPF_SK_SKB_STREAM_PARSER :: nat where "BPF_SK_SKB_STREAM_PARSER = 4"
definition BPF_SK_SKB_STREAM_VERDICT :: nat where "BPF_SK_SKB_STREAM_VERDICT = 5"
definition BPF_CGROUP_DEVICE :: nat where "BPF_CGROUP_DEVICE = 6"
definition BPF_SK_MSG_VERDICT :: nat where "BPF_SK_MSG_VERDICT = 7"
definition BPF_CGROUP_INET4_BIND :: nat where "BPF_CGROUP_INET4_BIND = 8"
definition BPF_CGROUP_INET6_BIND :: nat where "BPF_CGROUP_INET6_BIND = 9"
definition BPF_CGROUP_INET4_CONNECT :: nat where "BPF_CGROUP_INET4_CONNECT = 10"
definition BPF_CGROUP_INET6_CONNECT :: nat where "BPF_CGROUP_INET6_CONNECT = 11"
definition BPF_CGROUP_INET4_POST_BIND :: nat where "BPF_CGROUP_INET4_POST_BIND = 12"
definition BPF_CGROUP_INET6_POST_BIND :: nat where "BPF_CGROUP_INET6_POST_BIND = 13"
definition BPF_CGROUP_UDP4_SENDMSG :: nat where "BPF_CGROUP_UDP4_SENDMSG = 14"
definition BPF_CGROUP_UDP6_SENDMSG :: nat where "BPF_CGROUP_UDP6_SENDMSG = 15"
definition BPF_LIRC_MODE2 :: nat where "BPF_LIRC_MODE2 = 16"
definition BPF_FLOW_DISSECTOR :: nat where "BPF_FLOW_DISSECTOR = 17"
definition BPF_CGROUP_SYSCTL :: nat where "BPF_CGROUP_SYSCTL = 18"
definition BPF_CGROUP_UDP4_RECVMSG :: nat where "BPF_CGROUP_UDP4_RECVMSG = 19"
definition BPF_CGROUP_UDP6_RECVMSG :: nat where "BPF_CGROUP_UDP6_RECVMSG = 20"
definition BPF_CGROUP_GETSOCKOPT :: nat where "BPF_CGROUP_GETSOCKOPT = 21"
definition BPF_CGROUP_SETSOCKOPT :: nat where "BPF_CGROUP_SETSOCKOPT = 22"
definition BPF_TRACE_RAW_TP :: nat where "BPF_TRACE_RAW_TP = 23"

lemmas sec_type_defs = BPF_PROG_TYPE_SOCKET_FILTER_def BPF_PROG_TYPE_SCHED_CLS_def BPF_PROG_TYPE_SCHED_ACT_def BPF_PROG_TYPE_TRACEPOINT_def BPF_PROG_TYPE_PERF_EVENT_def BPF_PROG_TYPE_CGROUP_SKB_def BPF_PROG_TYPE_CGROUP_SOCK_def BPF_PROG_TYPE_LWT_IN_def BPF_PROG_TYPE_LWT_OUT_def BPF_PROG_TYPE_LWT_XMIT_def BPF_PROG_TYPE_SOCK_OPS_def BPF_PROG_TYPE_SK_SKB_def BPF_PROG_TYPE_CGROUP_DEVICE_def BPF_PROG_TYPE_SK_MSG_def BPF_PROG_TYPE_RAW_TRACEPOINT_def BPF_PROG_TYPE_CGROUP_SOCK_ADDR_def BPF_PROG_TYPE_LWT_SEG6LOCAL_def BPF_PROG_TYPE_LIRC_MODE2_def BPF_PROG_TYPE_FLOW_DISSECTOR_def BPF_PROG_TYPE_CGROUP_SYSCTL_def BPF_PROG_TYPE_CGROUP_SOCKOPT_def BPF_CGROUP_INET_INGRESS_def BPF_CGROUP_INET_EGRESS_def BPF_CGROUP_INET_SOCK_CREATE_def BPF_CGROUP_SOCK_OPS_def BPF_SK_SKB_STREAM_PARSER_def BPF_SK_SKB_STREAM_VERDICT_def BPF_CGROUP_DEVICE_def BPF_SK_MSG_VERDICT_def BPF_CGROUP_INET4_BIND_def BPF_CGROUP_INET6_BIND_def BPF_CGROUP_INET4_CONNECT_def BPF_CGROUP_INET6_CONNECT_def BPF_CGROUP_INET4_POST_BIND_def BPF_CGROUP_INET6_POST_BIND_def BPF_CGROUP_UDP4_SENDMSG_def BPF_CGROUP_UDP6_SENDMSG_def BPF_LIRC_MODE2_def BPF_FLOW_DISSECTOR_def BPF_CGROUP_SYSCTL_def BPF_CGROUP_UDP4_RECVMSG_def BPF_CGROUP_UDP6_RECVMSG_def BPF_CGROUP_GETSOCKOPT_def BPF_CGROUP_SETSOCKOPT_def BPF_TRACE_RAW_TP_def
  BPF_PROG_TYPE_UNSPEC_def BPF_PROG_TYPE_XDP_def BPF_PROG_TYPE_KPROBE_def BPF_PROG_TYPE_TRACING_def

section \<open>The table\<close>

record sec_name =
  sn_sec :: string
  sn_prog_type :: nat
  sn_expected :: nat
  sn_attachable :: bool
  sn_attach_btf :: bool
  sn_attach_type :: nat

text \<open>The macros of the table: not attachable, attachable, attachable with an expected attach type at load time, attached by type
  information. The length of an entry is that of its string.\<close>

definition BPF_PROG_SEC :: "string \<Rightarrow> nat \<Rightarrow> sec_name" where
  "BPF_PROG_SEC s ptype = \<lparr>sn_sec = s, sn_prog_type = ptype, sn_expected = 0, sn_attachable = False, sn_attach_btf = False, sn_attach_type = 0\<rparr>"

definition BPF_APROG_SEC :: "string \<Rightarrow> nat \<Rightarrow> nat \<Rightarrow> sec_name" where
  "BPF_APROG_SEC s ptype atype =
     \<lparr>sn_sec = s, sn_prog_type = ptype, sn_expected = 0, sn_attachable = True, sn_attach_btf = False, sn_attach_type = atype\<rparr>"

definition BPF_EAPROG_SEC :: "string \<Rightarrow> nat \<Rightarrow> nat \<Rightarrow> sec_name" where
  "BPF_EAPROG_SEC s ptype eatype =
     \<lparr>sn_sec = s, sn_prog_type = ptype, sn_expected = eatype, sn_attachable = True, sn_attach_btf = False, sn_attach_type = eatype\<rparr>"

definition BPF_PROG_BTF :: "string \<Rightarrow> nat \<Rightarrow> nat \<Rightarrow> sec_name" where
  "BPF_PROG_BTF s ptype eatype =
     \<lparr>sn_sec = s, sn_prog_type = ptype, sn_expected = eatype, sn_attachable = False, sn_attach_btf = True, sn_attach_type = 0\<rparr>"

definition BPF_APROG_COMPAT :: "string \<Rightarrow> nat \<Rightarrow> sec_name" where
  "BPF_APROG_COMPAT s ptype = BPF_PROG_SEC s ptype"

lemmas sec_macro_defs = BPF_PROG_SEC_def BPF_APROG_SEC_def BPF_EAPROG_SEC_def BPF_PROG_BTF_def BPF_APROG_COMPAT_def

definition section_names :: "sec_name list" where
  "section_names =
    [BPF_PROG_SEC ''socket'' BPF_PROG_TYPE_SOCKET_FILTER,
     BPF_PROG_SEC ''kprobe/'' BPF_PROG_TYPE_KPROBE,
     BPF_PROG_SEC ''uprobe/'' BPF_PROG_TYPE_KPROBE,
     BPF_PROG_SEC ''kretprobe/'' BPF_PROG_TYPE_KPROBE,
     BPF_PROG_SEC ''uretprobe/'' BPF_PROG_TYPE_KPROBE,
     BPF_PROG_SEC ''classifier'' BPF_PROG_TYPE_SCHED_CLS,
     BPF_PROG_SEC ''action'' BPF_PROG_TYPE_SCHED_ACT,
     BPF_PROG_SEC ''tracepoint/'' BPF_PROG_TYPE_TRACEPOINT,
     BPF_PROG_SEC ''tp/'' BPF_PROG_TYPE_TRACEPOINT,
     BPF_PROG_SEC ''raw_tracepoint/'' BPF_PROG_TYPE_RAW_TRACEPOINT,
     BPF_PROG_SEC ''raw_tp/'' BPF_PROG_TYPE_RAW_TRACEPOINT,
     BPF_PROG_BTF ''tp_btf/'' BPF_PROG_TYPE_TRACING BPF_TRACE_RAW_TP,
     BPF_PROG_SEC ''xdp'' BPF_PROG_TYPE_XDP,
     BPF_PROG_SEC ''perf_event'' BPF_PROG_TYPE_PERF_EVENT,
     BPF_PROG_SEC ''lwt_in'' BPF_PROG_TYPE_LWT_IN,
     BPF_PROG_SEC ''lwt_out'' BPF_PROG_TYPE_LWT_OUT,
     BPF_PROG_SEC ''lwt_xmit'' BPF_PROG_TYPE_LWT_XMIT,
     BPF_PROG_SEC ''lwt_seg6local'' BPF_PROG_TYPE_LWT_SEG6LOCAL,
     BPF_APROG_SEC ''cgroup_skb/ingress'' BPF_PROG_TYPE_CGROUP_SKB BPF_CGROUP_INET_INGRESS,
     BPF_APROG_SEC ''cgroup_skb/egress'' BPF_PROG_TYPE_CGROUP_SKB BPF_CGROUP_INET_EGRESS,
     BPF_APROG_COMPAT ''cgroup/skb'' BPF_PROG_TYPE_CGROUP_SKB,
     BPF_APROG_SEC ''cgroup/sock'' BPF_PROG_TYPE_CGROUP_SOCK BPF_CGROUP_INET_SOCK_CREATE,
     BPF_EAPROG_SEC ''cgroup/post_bind4'' BPF_PROG_TYPE_CGROUP_SOCK BPF_CGROUP_INET4_POST_BIND,
     BPF_EAPROG_SEC ''cgroup/post_bind6'' BPF_PROG_TYPE_CGROUP_SOCK BPF_CGROUP_INET6_POST_BIND,
     BPF_APROG_SEC ''cgroup/dev'' BPF_PROG_TYPE_CGROUP_DEVICE BPF_CGROUP_DEVICE,
     BPF_APROG_SEC ''sockops'' BPF_PROG_TYPE_SOCK_OPS BPF_CGROUP_SOCK_OPS,
     BPF_APROG_SEC ''sk_skb/stream_parser'' BPF_PROG_TYPE_SK_SKB BPF_SK_SKB_STREAM_PARSER,
     BPF_APROG_SEC ''sk_skb/stream_verdict'' BPF_PROG_TYPE_SK_SKB BPF_SK_SKB_STREAM_VERDICT,
     BPF_APROG_COMPAT ''sk_skb'' BPF_PROG_TYPE_SK_SKB,
     BPF_APROG_SEC ''sk_msg'' BPF_PROG_TYPE_SK_MSG BPF_SK_MSG_VERDICT,
     BPF_APROG_SEC ''lirc_mode2'' BPF_PROG_TYPE_LIRC_MODE2 BPF_LIRC_MODE2,
     BPF_APROG_SEC ''flow_dissector'' BPF_PROG_TYPE_FLOW_DISSECTOR BPF_FLOW_DISSECTOR,
     BPF_EAPROG_SEC ''cgroup/bind4'' BPF_PROG_TYPE_CGROUP_SOCK_ADDR BPF_CGROUP_INET4_BIND,
     BPF_EAPROG_SEC ''cgroup/bind6'' BPF_PROG_TYPE_CGROUP_SOCK_ADDR BPF_CGROUP_INET6_BIND,
     BPF_EAPROG_SEC ''cgroup/connect4'' BPF_PROG_TYPE_CGROUP_SOCK_ADDR BPF_CGROUP_INET4_CONNECT,
     BPF_EAPROG_SEC ''cgroup/connect6'' BPF_PROG_TYPE_CGROUP_SOCK_ADDR BPF_CGROUP_INET6_CONNECT,
     BPF_EAPROG_SEC ''cgroup/sendmsg4'' BPF_PROG_TYPE_CGROUP_SOCK_ADDR BPF_CGROUP_UDP4_SENDMSG,
     BPF_EAPROG_SEC ''cgroup/sendmsg6'' BPF_PROG_TYPE_CGROUP_SOCK_ADDR BPF_CGROUP_UDP6_SENDMSG,
     BPF_EAPROG_SEC ''cgroup/recvmsg4'' BPF_PROG_TYPE_CGROUP_SOCK_ADDR BPF_CGROUP_UDP4_RECVMSG,
     BPF_EAPROG_SEC ''cgroup/recvmsg6'' BPF_PROG_TYPE_CGROUP_SOCK_ADDR BPF_CGROUP_UDP6_RECVMSG,
     BPF_EAPROG_SEC ''cgroup/sysctl'' BPF_PROG_TYPE_CGROUP_SYSCTL BPF_CGROUP_SYSCTL,
     BPF_EAPROG_SEC ''cgroup/getsockopt'' BPF_PROG_TYPE_CGROUP_SOCKOPT BPF_CGROUP_GETSOCKOPT,
     BPF_EAPROG_SEC ''cgroup/setsockopt'' BPF_PROG_TYPE_CGROUP_SOCKOPT BPF_CGROUP_SETSOCKOPT]"

section \<open>Lookups\<close>

text \<open>\<^verbatim>\<open>strncmp\<close> with the length of the entry: the entry is a prefix of the name.\<close>

definition sec_matches :: "string \<Rightarrow> sec_name \<Rightarrow> bool" where
  "sec_matches name e \<longleftrightarrow> take (length (sn_sec e)) name = sn_sec e"

definition MAX_TYPE_NAME_SIZE :: nat where "MAX_TYPE_NAME_SIZE = 32"

text \<open>The text with all names, in a buffer of 32 bytes for each entry; inner \<open>None\<close> is the null pointer.\<close>

fun type_names_loop :: "bool \<Rightarrow> nat \<Rightarrow> string \<Rightarrow> sec_name list \<Rightarrow> string option" where
  "type_names_loop attach_type len buf [] = Some buf"
| "type_names_loop attach_type len buf (e # es) =
     (if attach_type \<and> \<not> sn_attachable e then type_names_loop attach_type len buf es
      else if length buf + length (sn_sec e) + 2 > len then None
      else type_names_loop attach_type len (buf @ CHR '' '' # sn_sec e) es)"

definition libbpf_get_type_names :: "(nat \<Rightarrow> bool) \<Rightarrow> bool \<Rightarrow> string option" where
  "libbpf_get_type_names malloc_ok attach_type =
     (let len = length section_names * MAX_TYPE_NAME_SIZE
      in if \<not> malloc_ok len then None else type_names_loop attach_type len [] section_names)"

definition libbpf_prog_type_by_name :: "string option \<Rightarrow> int + nat \<times> nat" where
  "libbpf_prog_type_by_name name = (case name of
     None \<Rightarrow> Inl (- EINVAL)
   | Some name \<Rightarrow>
       (case find (sec_matches name) section_names of
          None \<Rightarrow> Inl (- ESRCH)
        | Some e \<Rightarrow> Inr (sn_prog_type e, sn_expected e)))"

definition libbpf_attach_type_by_name :: "string option \<Rightarrow> int + nat" where
  "libbpf_attach_type_by_name name = (case name of
     None \<Rightarrow> Inl (- EINVAL)
   | Some name \<Rightarrow>
       (case find (sec_matches name) section_names of
          None \<Rightarrow> Inl (- EINVAL)
        | Some e \<Rightarrow> if \<not> sn_attachable e then Inl (- EINVAL) else Inr (sn_attach_type e)))"

text \<open>The type of a tracing program: the buffer has 128 bytes, the prefix and the end of the name of the section are put into it.
  \<^verbatim>\<open>strncat\<close> takes at most 117 characters.\<close>

definition BTF_PREFIX :: string where "BTF_PREFIX = ''btf_trace_''"

definition raw_tp_btf_name :: "string \<Rightarrow> sec_name \<Rightarrow> string" where
  "raw_tp_btf_name name e = BTF_PREFIX @ take (128 - Suc (length BTF_PREFIX)) (drop (length (sn_sec e)) name)"

definition libbpf_attach_btf_id_by_name :: "(int + btf) option \<Rightarrow> string option \<Rightarrow> (int + u32) option" where
  "libbpf_attach_btf_id_by_name kernel_btf name = do {
     r \<leftarrow> kernel_btf;
     (case r of
        Inl _ \<Rightarrow> Some (Inl (- EINVAL))
      | Inr b \<Rightarrow>
          (case name of
             None \<Rightarrow> Some (Inl (- EINVAL))
           | Some name \<Rightarrow>
               (case find (\<lambda>e. sn_attach_btf e \<and> sec_matches name e) section_names of
                  None \<Rightarrow> Some (Inl (- ESRCH))
                | Some e \<Rightarrow> do {
                    ret \<leftarrow> btf__find_by_name b (str_bytes (raw_tp_btf_name name e));
                    Some (if ret \<le> 0 then Inl (- EINVAL) else Inr (of_int ret))
                  })))
   }"

section \<open>The type of a program\<close>

definition bpf_program__get_type :: "load_prog \<Rightarrow> nat" where "bpf_program__get_type prog = ld_type prog"

definition bpf_program__is_type :: "load_prog option \<Rightarrow> nat \<Rightarrow> bool" where
  "bpf_program__is_type prog t = (case prog of None \<Rightarrow> False | Some p \<Rightarrow> ld_type p = t)"

text \<open>The functions that the macro \<^verbatim>\<open>BPF_PROG_TYPE_FNS\<close> makes for a type.\<close>

definition prog_type_setter :: "nat \<Rightarrow> load_prog option \<Rightarrow> int \<times> load_prog option" where
  "prog_type_setter t prog = (case prog of None \<Rightarrow> (- EINVAL, None) | Some p \<Rightarrow> (0, Some (p\<lparr>ld_type := t\<rparr>)))"

definition bpf_program__set_socket_filter :: "load_prog option \<Rightarrow> int \<times> load_prog option" where "bpf_program__set_socket_filter = prog_type_setter BPF_PROG_TYPE_SOCKET_FILTER"
definition bpf_program__set_kprobe :: "load_prog option \<Rightarrow> int \<times> load_prog option" where "bpf_program__set_kprobe = prog_type_setter BPF_PROG_TYPE_KPROBE"
definition bpf_program__set_sched_cls :: "load_prog option \<Rightarrow> int \<times> load_prog option" where "bpf_program__set_sched_cls = prog_type_setter BPF_PROG_TYPE_SCHED_CLS"
definition bpf_program__set_sched_act :: "load_prog option \<Rightarrow> int \<times> load_prog option" where "bpf_program__set_sched_act = prog_type_setter BPF_PROG_TYPE_SCHED_ACT"
definition bpf_program__set_tracepoint :: "load_prog option \<Rightarrow> int \<times> load_prog option" where "bpf_program__set_tracepoint = prog_type_setter BPF_PROG_TYPE_TRACEPOINT"
definition bpf_program__set_raw_tracepoint :: "load_prog option \<Rightarrow> int \<times> load_prog option" where "bpf_program__set_raw_tracepoint = prog_type_setter BPF_PROG_TYPE_RAW_TRACEPOINT"
definition bpf_program__set_xdp :: "load_prog option \<Rightarrow> int \<times> load_prog option" where "bpf_program__set_xdp = prog_type_setter BPF_PROG_TYPE_XDP"
definition bpf_program__set_perf_event :: "load_prog option \<Rightarrow> int \<times> load_prog option" where "bpf_program__set_perf_event = prog_type_setter BPF_PROG_TYPE_PERF_EVENT"
definition bpf_program__set_tracing :: "load_prog option \<Rightarrow> int \<times> load_prog option" where "bpf_program__set_tracing = prog_type_setter BPF_PROG_TYPE_TRACING"
definition bpf_program__is_socket_filter :: "load_prog option \<Rightarrow> bool" where "bpf_program__is_socket_filter prog = bpf_program__is_type prog BPF_PROG_TYPE_SOCKET_FILTER"
definition bpf_program__is_kprobe :: "load_prog option \<Rightarrow> bool" where "bpf_program__is_kprobe prog = bpf_program__is_type prog BPF_PROG_TYPE_KPROBE"
definition bpf_program__is_sched_cls :: "load_prog option \<Rightarrow> bool" where "bpf_program__is_sched_cls prog = bpf_program__is_type prog BPF_PROG_TYPE_SCHED_CLS"
definition bpf_program__is_sched_act :: "load_prog option \<Rightarrow> bool" where "bpf_program__is_sched_act prog = bpf_program__is_type prog BPF_PROG_TYPE_SCHED_ACT"
definition bpf_program__is_tracepoint :: "load_prog option \<Rightarrow> bool" where "bpf_program__is_tracepoint prog = bpf_program__is_type prog BPF_PROG_TYPE_TRACEPOINT"
definition bpf_program__is_raw_tracepoint :: "load_prog option \<Rightarrow> bool" where "bpf_program__is_raw_tracepoint prog = bpf_program__is_type prog BPF_PROG_TYPE_RAW_TRACEPOINT"
definition bpf_program__is_xdp :: "load_prog option \<Rightarrow> bool" where "bpf_program__is_xdp prog = bpf_program__is_type prog BPF_PROG_TYPE_XDP"
definition bpf_program__is_perf_event :: "load_prog option \<Rightarrow> bool" where "bpf_program__is_perf_event prog = bpf_program__is_type prog BPF_PROG_TYPE_PERF_EVENT"
definition bpf_program__is_tracing :: "load_prog option \<Rightarrow> bool" where "bpf_program__is_tracing prog = bpf_program__is_type prog BPF_PROG_TYPE_TRACING"

definition bpf_program__get_expected_attach_type :: "load_prog \<Rightarrow> nat" where
  "bpf_program__get_expected_attach_type prog = ld_attach_type prog"

definition bpf_program__set_expected_attach_type :: "nat \<Rightarrow> load_prog \<Rightarrow> load_prog" where
  "bpf_program__set_expected_attach_type t prog = prog\<lparr>ld_attach_type := t\<rparr>"

section \<open>The longest prefix\<close>

lemma sec_matches_prefix: "sec_matches name e \<longleftrightarrow> prefix (sn_sec e) name"
  unfolding sec_matches_def prefix_def by (metis append_eq_conv_conj append_take_drop_id)

text \<open>No entry is a prefix of a later one.\<close>

definition no_shadowing :: "sec_name list \<Rightarrow> bool" where
  "no_shadowing es \<longleftrightarrow> sorted_wrt (\<lambda>e e'. take (length (sn_sec e)) (sn_sec e') \<noteq> sn_sec e) es"

lemma section_names_no_shadowing: "no_shadowing section_names"
  by code_simp

lemma find_longest:
  assumes "no_shadowing es" "find (sec_matches name) es = Some e" "e' \<in> set es" "sec_matches name e'"
  shows "length (sn_sec e') \<le> length (sn_sec e)"
  using assms
proof (induction es)
  case (Cons x xs)
  show ?case
  proof (cases "sec_matches name x")
    case True
    then have x: "e = x" using Cons.prems(2) by simp
    show ?thesis
    proof (rule ccontr)
      assume shorter: "\<not> length (sn_sec e') \<le> length (sn_sec e)"
      then have "prefix (sn_sec x) (sn_sec e')"
        using True Cons.prems(4) x by (metis linear prefix_length_prefix sec_matches_prefix)
      moreover have "e' \<in> set xs" using shorter Cons.prems(3) x by auto
      ultimately show False using Cons.prems(1) by (auto simp: no_shadowing_def prefix_def)
    qed
  next
    case False
    then show ?thesis using Cons by (auto simp: no_shadowing_def)
  qed
qed simp

lemma find_sec_cases:
  obtains (none) "find (sec_matches name) section_names = None" "\<forall>e\<in>set section_names. \<not> prefix (sn_sec e) name"
    | (hit) e where "find (sec_matches name) section_names = Some e" "e \<in> set section_names" "prefix (sn_sec e) name"
        "\<forall>e'\<in>set section_names. prefix (sn_sec e') name \<longrightarrow> length (sn_sec e') \<le> length (sn_sec e)"
proof (cases "find (sec_matches name) section_names")
  case None
  then show thesis using none by (simp add: find_None_iff sec_matches_prefix)
next
  case (Some e)
  then have "e \<in> set section_names" "prefix (sn_sec e) name"
    by (auto simp: find_Some_iff sec_matches_prefix)
  then show thesis using hit Some find_longest [OF section_names_no_shadowing Some] by (simp add: sec_matches_prefix)
qed

text \<open>Every name in the table is found as itself, and a program of a name with more behind it has the type of the name.\<close>

lemma table_names_found:
  "list_all (\<lambda>e. libbpf_prog_type_by_name (Some (sn_sec e)) = Inr (sn_prog_type e, sn_expected e)) section_names"
  by code_simp

text \<open>The buffer is long enough for all the names.\<close>

lemma type_names_fit: "malloc_ok (length section_names * MAX_TYPE_NAME_SIZE) \<Longrightarrow> libbpf_get_type_names malloc_ok attach_type \<noteq> None"
proof -
  have "type_names_loop True (length section_names * MAX_TYPE_NAME_SIZE) [] section_names \<noteq> None"
    "type_names_loop False (length section_names * MAX_TYPE_NAME_SIZE) [] section_names \<noteq> None" by code_simp+
  then show "malloc_ok (length section_names * MAX_TYPE_NAME_SIZE) \<Longrightarrow> ?thesis"
    by (cases attach_type) (simp_all add: libbpf_get_type_names_def Let_def)
qed

text \<open>A tracing program finds its type under the name that its section gives, cut so that it fits the buffer.\<close>

lemma raw_tp_btf_name_fits: "length (raw_tp_btf_name name e) < 128"
  by (simp add: raw_tp_btf_name_def BTF_PREFIX_def)

section \<open>Properties\<close>

text \<open>C25: the type of a program is that of the longest name in the table that its section's name starts with: the loop stops
  at the first entry that is a prefix, and for every name this is the longest one, so that the order of the table
  is right; when no entry is a prefix the answer is \<^verbatim>\<open>-ESRCH\<close>.\<close>

theorem prog_type_longest_prefix:
  "case libbpf_prog_type_by_name (Some name) of
     Inl err \<Rightarrow> err = - ESRCH \<and> (\<forall>e\<in>set section_names. \<not> prefix (sn_sec e) name)
   | Inr (ptype, expected) \<Rightarrow> \<exists>e\<in>set section_names. prefix (sn_sec e) name \<and> ptype = sn_prog_type e \<and> expected = sn_expected e \<and>
       (\<forall>e'\<in>set section_names. prefix (sn_sec e') name \<longrightarrow> length (sn_sec e') \<le> length (sn_sec e))"
proof (cases rule: find_sec_cases [where name = name])
  case none
  then show ?thesis by (simp add: libbpf_prog_type_by_name_def)
next
  case (hit e)
  then show ?thesis by (simp add: libbpf_prog_type_by_name_def) blast
qed

theorem prog_type_longest_prefix_witness:
  "\<exists>e\<in>set section_names. prefix (sn_sec e) ''sk_skb/stream_parser/1'' \<and> sn_prog_type e = BPF_PROG_TYPE_SK_SKB \<and>
     (\<forall>e'\<in>set section_names. prefix (sn_sec e') ''sk_skb/stream_parser/1'' \<longrightarrow> length (sn_sec e') \<le> length (sn_sec e))"
proof -
  have "libbpf_prog_type_by_name (Some ''sk_skb/stream_parser/1'') = Inr (BPF_PROG_TYPE_SK_SKB, 0)" by code_simp
  then show ?thesis using prog_type_longest_prefix [of "''sk_skb/stream_parser/1''"] by auto
qed

end
