(* ===== verification/Probes.thy ===== *)
theory Probes
  imports Btf_Fix Sec_Names
begin

text \<open>
  Asking the kernel what it supports: the probes for program types, map types and helpers in
  \<^verbatim>\<open>eBPF_app/libbpf/src/libbpf_probes.c\<close>, and the capabilities that \<^verbatim>\<open>bpf_object__probe_caps\<close> in \<^verbatim>\<open>libbpf.c\<close> finds out before it reads an object. A
  probe loads a small program, map or blob of type information and closes it again: no probe leaves a descriptor
  behind. The blobs are those that the parser of the library itself accepts. \<open>None\<close> is a kernel that interrupts for ever.
\<close>

unbundle bit_operations_syntax

section \<open>Instructions\<close>

definition BPF_MOV64_IMM :: "u8 \<Rightarrow> u32 \<Rightarrow> bpf_insn" where
  "BPF_MOV64_IMM dst imm = \<lparr>in_code = 0xb7, in_dst_reg = dst, in_src_reg = 0, in_off = 0, in_imm = imm\<rparr>"

definition BPF_EXIT_INSN :: bpf_insn where
  "BPF_EXIT_INSN = \<lparr>in_code = 0x95, in_dst_reg = 0, in_src_reg = 0, in_off = 0, in_imm = 0\<rparr>"

definition BPF_EMIT_CALL :: "u32 \<Rightarrow> bpf_insn" where
  "BPF_EMIT_CALL func = \<lparr>in_code = BPF_JMP_CALL, in_dst_reg = 0, in_src_reg = 0, in_off = 0, in_imm = func\<rparr>"

definition BPF_ST_MEM_DW :: "u8 \<Rightarrow> u16 \<Rightarrow> u32 \<Rightarrow> bpf_insn" where
  "BPF_ST_MEM_DW dst off imm = \<lparr>in_code = 0x7a, in_dst_reg = dst, in_src_reg = 0, in_off = off, in_imm = imm\<rparr>"

definition BPF_LD_IMM64_RAW_FULL :: "u8 \<Rightarrow> u8 \<Rightarrow> u16 \<Rightarrow> u16 \<Rightarrow> u32 \<Rightarrow> u32 \<Rightarrow> bpf_insn list" where
  "BPF_LD_IMM64_RAW_FULL dst src off1 off2 imm1 imm2 =
     [\<lparr>in_code = BPF_LD_IMM_DW, in_dst_reg = dst, in_src_reg = src, in_off = off1, in_imm = imm1\<rparr>,
      \<lparr>in_code = 0, in_dst_reg = 0, in_src_reg = 0, in_off = off2, in_imm = imm2\<rparr>]"

definition BPF_LD_MAP_VALUE :: "u8 \<Rightarrow> u32 \<Rightarrow> u32 \<Rightarrow> bpf_insn list" where
  "BPF_LD_MAP_VALUE dst mfd value_off = BPF_LD_IMM64_RAW_FULL dst BPF_PSEUDO_MAP_VALUE 0 0 mfd value_off"

definition zero_load_attr :: bpf_load_program_attr where
  "zero_load_attr =
     \<lparr>lp_prog_type = 0, lp_expected_attach_type = 0, lp_name = None, lp_insns = [], lp_license = '''', lp_kern_version = 0,
      lp_ifindex_or_btf_id = 0, lp_prog_btf_fd = 0, lp_func_info_rec_size = 0, lp_func_info = None, lp_func_info_cnt = 0,
      lp_line_info_rec_size = 0, lp_line_info = None, lp_line_info_cnt = 0, lp_log_level = 0, lp_prog_flags = 0\<rparr>"

section \<open>Loading type information\<close>

text \<open>\<^verbatim>\<open>bpf_load_btf\<close> with its system calls: without a log first, and again with one when that fails and there is a buffer.\<close>

definition load_btf_calls :: "'k open_env \<Rightarrow> bytes \<Rightarrow> bool \<Rightarrow> bool \<Rightarrow> 'k process \<Rightarrow> int \<times> 'k process" where
  "load_btf_calls env data has_log do_log p =
     (let (r, k) = oe_btf_load env (do_log \<and> has_log) data (p_kern p); (fd, p) = sys_ret r k p
      in if fd < 0 \<and> \<not> do_log \<and> has_log
         then (let (r, k) = oe_btf_load env True data (p_kern p) in sys_ret r k p)
         else (fd, p))"

definition raw_btf :: "bytes \<Rightarrow> bytes \<Rightarrow> bytes" where
  "raw_btf types strs =
     le_of_word 2 BTF_MAGIC @ [BTF_VERSION, 0] @ le_of_word 4 (of_nat BTF_HDR :: u32) @ le_of_word 4 (0 :: u32) @
     le_of_word 4 (of_nat (length types) :: u32) @ le_of_word 4 (of_nat (length types) :: u32) @ le_of_word 4 (of_nat (length strs) :: u32) @
     types @ strs"

definition libbpf__load_raw_btf :: "'k open_env \<Rightarrow> bytes \<Rightarrow> bytes \<Rightarrow> 'k process \<Rightarrow> int \<times> 'k process" where
  "libbpf__load_raw_btf env types strs p =
     (let blob = raw_btf types strs in
      if \<not> oe_malloc env (length blob) then (- ENOMEM, p)
      else load_btf_calls env blob False False p)"

definition u32s :: "u32 list \<Rightarrow> bytes" where "u32s ws = concat (map (le_of_word 4) ws)"

text \<open>The encodings of a type: its name, its info word, and its size or type.\<close>

definition BTF_TYPE_ENC :: "u32 \<Rightarrow> u32 \<Rightarrow> u32 \<Rightarrow> u32 list" where
  "BTF_TYPE_ENC name info size_or_type = [name, info, size_or_type]"

definition BTF_TYPE_INT_ENC :: "u32 \<Rightarrow> u32 \<Rightarrow> u32 \<Rightarrow> u32 \<Rightarrow> u32 \<Rightarrow> u32 list" where
  "BTF_TYPE_INT_ENC name encoding bits_offset bits sz =
     BTF_TYPE_ENC name (BTF_INFO_ENC BTF_KIND_INT False 0) sz @ [BTF_INT_ENC encoding bits_offset bits]"

definition BTF_MEMBER_ENC :: "u32 \<Rightarrow> u32 \<Rightarrow> u32 \<Rightarrow> u32 list" where "BTF_MEMBER_ENC name typ bits_offset = [name, typ, bits_offset]"
definition BTF_PARAM_ENC :: "u32 \<Rightarrow> u32 \<Rightarrow> u32 list" where "BTF_PARAM_ENC name typ = [name, typ]"
definition BTF_VAR_SECINFO_ENC :: "u32 \<Rightarrow> u32 \<Rightarrow> u32 \<Rightarrow> u32 list" where "BTF_VAR_SECINFO_ENC typ off sz = [typ, off, sz]"

definition func_strs :: bytes where "func_strs = [0] @ str_bytes ''int'' @ [0] @ str_bytes ''x'' @ [0] @ str_bytes ''a'' @ [0]"

definition func_types :: bytes where
  "func_types = u32s (BTF_TYPE_INT_ENC 1 BTF_INT_SIGNED 0 32 4 @
     BTF_TYPE_ENC 0 (BTF_INFO_ENC BTF_KIND_FUNC_PROTO False 1) 0 @ BTF_PARAM_ENC 7 1 @
     BTF_TYPE_ENC 5 (BTF_INFO_ENC BTF_KIND_FUNC False 0) 2)"

definition datasec_strs :: bytes where "datasec_strs = [0] @ str_bytes ''x'' @ [0] @ str_bytes ''.data'' @ [0]"

definition datasec_types :: bytes where
  "datasec_types = u32s (BTF_TYPE_INT_ENC 0 BTF_INT_SIGNED 0 32 4 @
     BTF_TYPE_ENC 1 (BTF_INFO_ENC BTF_KIND_VAR False 0) 1 @ [BTF_VAR_STATIC] @
     BTF_TYPE_ENC 3 (BTF_INFO_ENC BTF_KIND_DATASEC False 1) 4 @ BTF_VAR_SECINFO_ENC 2 0 4)"

definition sk_storage_strs :: bytes where
  "sk_storage_strs = [0] @ str_bytes ''bpf_spin_lock'' @ [0] @ str_bytes ''val'' @ [0] @ str_bytes ''cnt'' @ [0] @ str_bytes ''l'' @ [0]"

definition sk_storage_types :: bytes where
  "sk_storage_types = u32s (BTF_TYPE_INT_ENC 0 BTF_INT_SIGNED 0 32 4 @
     BTF_TYPE_ENC 1 (BTF_INFO_ENC BTF_KIND_STRUCT False 1) 4 @ BTF_MEMBER_ENC 15 1 0 @
     BTF_TYPE_ENC 15 (BTF_INFO_ENC BTF_KIND_STRUCT False 2) 8 @ BTF_MEMBER_ENC 19 1 0 @ BTF_MEMBER_ENC 23 2 32)"

definition load_sk_storage_btf :: "'k open_env \<Rightarrow> 'k process \<Rightarrow> int \<times> 'k process" where
  "load_sk_storage_btf env p = libbpf__load_raw_btf env sk_storage_types sk_storage_strs p"

section \<open>Capabilities of the kernel\<close>

definition simple_prog :: "bpf_insn list" where "simple_prog = [BPF_MOV64_IMM 0 0, BPF_EXIT_INSN]"

definition bpf_object__probe_name :: "'k open_env \<Rightarrow> elf_obj \<Rightarrow> 'k process \<Rightarrow> (int \<times> elf_obj \<times> 'k process) option" where
  "bpf_object__probe_name env obj p = do {
     let kn = oe_kernel env;
     let attr = zero_load_attr\<lparr>lp_prog_type := BPF_PROG_TYPE_SOCKET_FILTER, lp_insns := simple_prog, lp_license := ''GPL''\<rparr>;
     (ret, _, p) \<leftarrow> bpf_load_program_xattr kn (oe_malloc env) attr False None 0 p;
     if ret < 0 then Some (- p_errno p, obj, p)
     else do {
       let p = snd (close_fd kn ret p);
       (ret, _, p) \<leftarrow> bpf_load_program_xattr kn (oe_malloc env) (attr\<lparr>lp_name := Some ''test''\<rparr>) False None 0 p;
       Some (if ret \<ge> 0 then (0, obj\<lparr>lo_caps_name := True\<rparr>, snd (close_fd kn ret p)) else (0, obj, p))
     }
   }"

definition global_data_prog :: "int \<Rightarrow> bpf_insn list" where
  "global_data_prog mfd = BPF_LD_MAP_VALUE 1 (of_int mfd) 16 @ [BPF_ST_MEM_DW 1 0 42, BPF_MOV64_IMM 0 0, BPF_EXIT_INSN]"

definition bpf_object__probe_global_data :: "'k open_env \<Rightarrow> elf_obj \<Rightarrow> 'k process \<Rightarrow> (int \<times> elf_obj \<times> 'k process) option" where
  "bpf_object__probe_global_data env obj p = do {
     let kn = oe_kernel env;
     let (mfd, p) = bpf_create_map_xattr kn (zero_map_attr\<lparr>cm_map_type := BPF_MAP_TYPE_ARRAY, cm_key_size := 4, cm_value_size := 32,
                         cm_max_entries := 1\<rparr>) p;
     if mfd < 0 then Some (- p_errno p, obj, p)
     else do {
       (ret, _, p) \<leftarrow> bpf_load_program_xattr kn (oe_malloc env) (zero_load_attr\<lparr>lp_prog_type := BPF_PROG_TYPE_SOCKET_FILTER,
                        lp_insns := global_data_prog mfd, lp_license := ''GPL''\<rparr>) False None 0 p;
       let (obj, p) = (if ret \<ge> 0 then (obj\<lparr>lo_caps_global_data := True\<rparr>, snd (close_fd kn ret p)) else (obj, p));
       Some (0, obj, snd (close_fd kn mfd p))
     }
   }"

definition bpf_object__probe_btf_func :: "'k open_env \<Rightarrow> elf_obj \<Rightarrow> 'k process \<Rightarrow> int \<times> elf_obj \<times> 'k process" where
  "bpf_object__probe_btf_func env obj p =
     (let (btf_fd, p) = libbpf__load_raw_btf env func_types func_strs p
      in if btf_fd \<ge> 0 then (1, obj\<lparr>eo_caps_btf_func := True\<rparr>, snd (close_fd (oe_kernel env) btf_fd p)) else (0, obj, p))"

definition bpf_object__probe_btf_datasec :: "'k open_env \<Rightarrow> elf_obj \<Rightarrow> 'k process \<Rightarrow> int \<times> elf_obj \<times> 'k process" where
  "bpf_object__probe_btf_datasec env obj p =
     (let (btf_fd, p) = libbpf__load_raw_btf env datasec_types datasec_strs p
      in if btf_fd \<ge> 0 then (1, obj\<lparr>eo_caps_btf_datasec := True\<rparr>, snd (close_fd (oe_kernel env) btf_fd p)) else (0, obj, p))"

text \<open>A probe that fails is reported and the next one is tried.\<close>

definition bpf_object__probe_caps :: "'k open_env \<Rightarrow> elf_obj \<Rightarrow> 'k process \<Rightarrow> (int \<times> elf_obj \<times> 'k process) option" where
  "bpf_object__probe_caps env obj p = do {
     (_, obj, p) \<leftarrow> bpf_object__probe_name env obj p;
     (_, obj, p) \<leftarrow> bpf_object__probe_global_data env obj p;
     let (_, obj, p) = bpf_object__probe_btf_func env obj p;
     let (_, obj, p) = bpf_object__probe_btf_datasec env obj p;
     Some (0, obj, p)
   }"

section \<open>Probes for a caller\<close>

text \<open>The text of the log that the kernel wrote, the name of an interface, and the contents of a file.\<close>

record 'k probe_env =
  pv_env :: "'k open_env"
  pv_log_text :: "'k \<Rightarrow> string"
  pv_ifname :: "u32 \<Rightarrow> string option"
  pv_read :: "int \<Rightarrow> nat \<Rightarrow> 'k \<Rightarrow> int \<times> bytes"

definition grep :: "string \<Rightarrow> string \<Rightarrow> bool" where
  "grep buffer pat \<longleftrightarrow> list_ex (\<lambda>i. take (length pat) (drop i buffer) = pat) [0..<Suc (length buffer)]"

text \<open>\<^verbatim>\<open>strtol\<close> with base zero: white space, a sign, and a number whose base its prefix gives; it saturates at 64 bits, and the
  caller cuts it to an int.\<close>

definition digit_val :: "char \<Rightarrow> nat" where
  "digit_val c = (let n = of_char c :: nat in
     if 48 \<le> n \<and> n \<le> 57 then n - 48 else if 97 \<le> n \<and> n \<le> 122 then n - 87 else if 65 \<le> n \<and> n \<le> 90 then n - 55 else 36)"

definition strtol_base :: "string \<Rightarrow> nat \<times> string" where
  "strtol_base s =
     (if take 1 s = ''0'' \<and> (take 1 (drop 1 s) = ''x'' \<or> take 1 (drop 1 s) = ''X'') \<and> drop 2 s \<noteq> [] \<and> digit_val (hd (drop 2 s)) < 16
      then (16, drop 2 s) else if take 1 s = ''0'' then (8, s) else (10, s))"

definition strtol :: "string \<Rightarrow> int" where
  "strtol s =
     (let s = dropWhile is_space s;
          neg = (take 1 s = ''-'');
          s = (if take 1 s = ''-'' \<or> take 1 s = ''+'' then drop 1 s else s);
          (base, s) = strtol_base s;
          v = int (foldl (\<lambda>a c. base * a + digit_val c) 0 (takeWhile (\<lambda>c. digit_val c < base) s))
      in if neg then max (- (2 ^ 63)) (- v) else min (2 ^ 63 - 1) v)"

definition int_of_long :: "int \<Rightarrow> int" where "int_of_long v = sint (of_int v :: u32)"

definition get_vendor_id :: "'k probe_env \<Rightarrow> u32 \<Rightarrow> 'k process \<Rightarrow> int \<times> 'k process" where
  "get_vendor_id pv ifindex p = (case pv_ifname pv ifindex of
     None \<Rightarrow> (-1, p)
   | Some ifname \<Rightarrow>
       (let path = take 63 (''/sys/class/net/'' @ ifname @ ''/device/vendor'');
            (r, k) = oe_open (pv_env pv) path (p_kern p);
            (fd, p) = sys_ret r k p
        in if fd < 0 then (-1, p)
           else (let (len, buf) = pv_read pv fd 8 (p_kern p);
                     p = snd (close_fd (oe_kernel (pv_env pv)) fd p)
                 in if len < 0 then (-1, p)
                    else if len \<ge> 8 then (-1, p)
                    else (int_of_long (strtol (c_string (take (nat len) buf))), p))))"

text \<open>The version in the probes is read with \<^verbatim>\<open>%d\<close>, which saturates below \<open>2 ^ 63\<close>.\<close>

definition scan_int :: "string \<Rightarrow> (u32 \<times> string) option" where
  "scan_int s =
     (let s = dropWhile is_space s;
          neg = (s \<noteq> [] \<and> hd s = CHR ''-'');
          s = (if s \<noteq> [] \<and> (hd s = CHR ''-'' \<or> hd s = CHR ''+'') then tl s else s);
          ds = takeWhile is_digit s;
          v = int (dec_value ds)
      in if ds = [] then None
         else Some (of_int (if neg then max (- (2 ^ 63)) (- v) else min (2 ^ 63 - 1) v), dropWhile is_digit s))"

definition probe_kernel_version :: "string \<Rightarrow> u32" where
  "probe_kernel_version release =
     (case do {
        (version, s) \<leftarrow> scan_int release;
        s \<leftarrow> scan_dot s;
        (subversion, s) \<leftarrow> scan_int s;
        s \<leftarrow> scan_dot s;
        (patchlevel, s) \<leftarrow> scan_int s;
        Some (push_bit 16 version + push_bit 8 subversion + patchlevel)
      } of None \<Rightarrow> 0 | Some v \<Rightarrow> v)"

text \<open>The result is the text in the buffer, empty unless the kernel wrote something.\<close>

definition probe_load ::
    "'k probe_env \<Rightarrow> nat \<Rightarrow> bpf_insn list \<Rightarrow> nat \<Rightarrow> u32 \<Rightarrow> 'k process \<Rightarrow> (string \<times> 'k process) option" where
  "probe_load pv prog_type insns buf_len ifindex p = do {
     let env = pv_env pv;
     let xattr = (if prog_type = BPF_PROG_TYPE_CGROUP_SOCK_ADDR then zero_load_attr\<lparr>lp_expected_attach_type := BPF_CGROUP_INET4_CONNECT\<rparr>
                  else if prog_type = BPF_PROG_TYPE_KPROBE then zero_load_attr\<lparr>lp_kern_version := probe_kernel_version (oe_release env)\<rparr>
                  else zero_load_attr);
     let xattr = xattr\<lparr>lp_prog_type := prog_type, lp_insns := insns, lp_license := ''GPL'', lp_ifindex_or_btf_id := ifindex\<rparr>;
     (fd, log, p) \<leftarrow> bpf_load_program_xattr (oe_kernel env) (oe_malloc env) xattr (buf_len \<noteq> 0) (if buf_len \<noteq> 0 then Some 0 else None) buf_len p;
     let text = (case log of None \<Rightarrow> [] | Some c \<Rightarrow> if c = 0 then [] else pv_log_text pv (p_kern p));
     Some (text, if fd \<ge> 0 then snd (close_fd (oe_kernel env) fd p) else p)
   }"

definition bpf_probe_prog_type :: "'k probe_env \<Rightarrow> nat \<Rightarrow> u32 \<Rightarrow> 'k process \<Rightarrow> (bool \<times> 'k process) option" where
  "bpf_probe_prog_type pv prog_type ifindex p = do {
     let insns = (if ifindex \<noteq> 0 \<and> prog_type = BPF_PROG_TYPE_SCHED_CLS then [BPF_MOV64_IMM 0 2, BPF_EXIT_INSN] else simple_prog);
     (_, p) \<leftarrow> probe_load pv prog_type insns 0 ifindex (p\<lparr>p_errno := 0\<rparr>);
     Some (p_errno p \<noteq> EINVAL \<and> p_errno p \<noteq> ENOTSUP, p)
   }"

definition bpf_probe_helper :: "'k probe_env \<Rightarrow> u32 \<Rightarrow> nat \<Rightarrow> u32 \<Rightarrow> 'k process \<Rightarrow> (bool \<times> 'k process) option" where
  "bpf_probe_helper pv func prog_type ifindex p = do {
     (buf, p) \<leftarrow> probe_load pv prog_type [BPF_EMIT_CALL func, BPF_EXIT_INSN] 4096 ifindex p;
     let res = (\<not> grep buf ''invalid func '' \<and> \<not> grep buf ''unknown func '');
     if ifindex \<noteq> 0 then
       (let (vendor, p) = get_vendor_id pv ifindex p
        in Some (if vendor = 0x19ee then res \<and> \<not> grep buf ''not supported by FW'' \<and> \<not> grep buf ''unsupported function id'' else res, p))
     else Some (res, p)
   }"

definition BPF_MAP_TYPE_STACK_TRACE :: nat where "BPF_MAP_TYPE_STACK_TRACE = 7"
definition BPF_MAP_TYPE_LPM_TRIE :: nat where "BPF_MAP_TYPE_LPM_TRIE = 11"
definition BPF_MAP_TYPE_CGROUP_STORAGE :: nat where "BPF_MAP_TYPE_CGROUP_STORAGE = 19"
definition BPF_MAP_TYPE_PERCPU_CGROUP_STORAGE :: nat where "BPF_MAP_TYPE_PERCPU_CGROUP_STORAGE = 21"
definition BPF_MAP_TYPE_QUEUE :: nat where "BPF_MAP_TYPE_QUEUE = 22"
definition BPF_MAP_TYPE_STACK :: nat where "BPF_MAP_TYPE_STACK = 23"
definition BPF_MAP_TYPE_SK_STORAGE :: nat where "BPF_MAP_TYPE_SK_STORAGE = 24"
definition BPF_MAP_TYPE_HASH :: nat where "BPF_MAP_TYPE_HASH = 1"
definition BPF_F_NO_PREALLOC :: u32 where "BPF_F_NO_PREALLOC = 1"

text \<open>The sizes of key and value, the number of entries and the flags that a type of maps needs. The key of the storage of a control group has
  sixteen bytes.\<close>

definition probe_map_params :: "nat \<Rightarrow> u32 \<times> u32 \<times> u32 \<times> u32" where
  "probe_map_params map_type =
     (if map_type = BPF_MAP_TYPE_STACK_TRACE then (4, 8, 1, 0)
      else if map_type = BPF_MAP_TYPE_LPM_TRIE then (8, 8, 1, BPF_F_NO_PREALLOC)
      else if map_type = BPF_MAP_TYPE_CGROUP_STORAGE \<or> map_type = BPF_MAP_TYPE_PERCPU_CGROUP_STORAGE then (16, 8, 0, 0)
      else if map_type = BPF_MAP_TYPE_QUEUE \<or> map_type = BPF_MAP_TYPE_STACK then (0, 4, 1, 0)
      else if map_type = BPF_MAP_TYPE_SK_STORAGE then (4, 8, 0, BPF_F_NO_PREALLOC)
      else (4, 4, 1, 0))"

definition probe_map_in_map :: "'k open_env \<Rightarrow> nat \<Rightarrow> 'k process \<Rightarrow> int \<times> 'k process" where
  "probe_map_in_map env map_type p =
     (let kn = oe_kernel env; (fd_inner, p) = bpf_create_map kn BPF_MAP_TYPE_HASH 4 4 1 0 p
      in if fd_inner < 0 then (-1, p)
         else (let (fd, p) = bpf_create_map_in_map kn map_type None 4 fd_inner 1 0 p in (fd, snd (close_fd kn fd_inner p))))"

definition probe_plain_map :: "'k open_env \<Rightarrow> nat \<Rightarrow> u32 \<Rightarrow> int \<Rightarrow> 'k process \<Rightarrow> int \<times> 'k process" where
  "probe_plain_map env map_type ifindex bfd p =
     (let (key_size, value_size, max_entries, map_flags) = probe_map_params map_type;
          attr = zero_map_attr\<lparr>cm_map_type := map_type, cm_key_size := key_size, cm_value_size := value_size, cm_max_entries := max_entries,
                   cm_map_flags := map_flags, cm_map_ifindex := ifindex\<rparr>;
          attr = (if bfd \<ge> 0 then attr\<lparr>cm_btf_fd := of_int bfd, cm_btf_key_type_id := 1, cm_btf_value_type_id := 3\<rparr> else attr)
      in bpf_create_map_xattr (oe_kernel env) attr p)"

definition bpf_probe_map_type :: "'k open_env \<Rightarrow> nat \<Rightarrow> u32 \<Rightarrow> 'k process \<Rightarrow> bool \<times> 'k process" where
  "bpf_probe_map_type env map_type ifindex p =
     (let kn = oe_kernel env;
          (btf_fd, p) = (if map_type = BPF_MAP_TYPE_SK_STORAGE then load_sk_storage_btf env p else (-1, p))
      in if map_type = BPF_MAP_TYPE_SK_STORAGE \<and> btf_fd < 0 then (False, p)
         else if (map_type = BPF_MAP_TYPE_ARRAY_OF_MAPS \<or> map_type = BPF_MAP_TYPE_HASH_OF_MAPS) \<and> ifindex \<noteq> 0 then (False, p)
         else (let (fd, p) = (if map_type = BPF_MAP_TYPE_ARRAY_OF_MAPS \<or> map_type = BPF_MAP_TYPE_HASH_OF_MAPS
                              then probe_map_in_map env map_type p else probe_plain_map env map_type ifindex btf_fd p);
                   p = (if fd \<ge> 0 then snd (close_fd kn fd p) else p);
                   p = (if btf_fd \<ge> 0 then snd (close_fd kn btf_fd p) else p)
               in (fd \<ge> 0, p)))"

section \<open>Descriptors\<close>

text \<open>The documented behaviour of the calls of opening: those of \<open>kernel_fds\<close>, and loading type information and opening a file
  return a descriptor that is new.\<close>

definition open_fds :: "'k open_env \<Rightarrow> ('k \<Rightarrow> int set) \<Rightarrow> ('k \<Rightarrow> int \<rightharpoonup> bpf_insn list) \<Rightarrow> bool" where
  "open_fds env opn loaded \<longleftrightarrow> kernel_fds (oe_kernel env) opn loaded \<and>
     (\<forall>l d k. fd_call opn loaded k (fst (oe_btf_load env l d k)) (snd (oe_btf_load env l d k))) \<and>
     (\<forall>path k. fd_call opn loaded k (fst (oe_open env path k)) (snd (oe_open env path k)))"

text \<open>The same descriptors, with the same programs behind them.\<close>

definition kept_fds :: "('k \<Rightarrow> int set) \<Rightarrow> ('k \<Rightarrow> int \<rightharpoonup> bpf_insn list) \<Rightarrow> 'k \<Rightarrow> 'k \<Rightarrow> bool" where
  "kept_fds opn loaded k k' \<longleftrightarrow> opn k' = opn k \<and> (\<forall>fd\<in>opn k. loaded k' fd = loaded k fd)"

lemma kept_refl [simp]: "kept_fds opn loaded k k"
  by (simp add: kept_fds_def)

lemma kept_trans: "kept_fds opn loaded k k' \<Longrightarrow> kept_fds opn loaded k' k'' \<Longrightarrow> kept_fds opn loaded k k''"
  by (simp add: kept_fds_def)

lemma fd_call_fail: "fd_call opn loaded k r k' \<Longrightarrow> r < 0 \<Longrightarrow> kept_fds opn loaded k k'"
  by (simp add: fd_call_def same_fds_def kept_fds_def)

lemma prog_call_kept: "prog_call opn loaded insns k r k' \<Longrightarrow> r < 0 \<Longrightarrow> kept_fds opn loaded k k'"
  by (simp add: prog_call_def same_fds_def kept_fds_def)

text \<open>A descriptor that is closed again: \<open>k'\<close> is the state after the call that returned it and \<open>k''\<close> one that differs in nothing that was open.\<close>

lemma close_new:
  assumes "kernel_fds kn opn loaded" "fd_call opn loaded k fd k' \<or> prog_call opn loaded insns k fd k'" "0 \<le> fd" "kept_fds opn loaded k' (p_kern p)"
  shows "kept_fds opn loaded k (p_kern (snd (close_fd kn fd p)))"
  using assms close_fd_law [OF assms(1), of fd p] by (auto simp: fd_call_def prog_call_def kept_fds_def)

lemma load_btf_calls_fd:
  assumes "open_fds env opn loaded" "load_btf_calls env data has_log do_log p = (fd, p')"
  shows "fd_call opn loaded (p_kern p) fd (p_kern p')"
proof -
  note law = assms(1) [unfolded open_fds_def, THEN conjunct2, THEN conjunct1, rule_format]
  obtain r k fd1 p1 where c1: "oe_btf_load env (do_log \<and> has_log) data (p_kern p) = (r, k)" "sys_ret r k p = (fd1, p1)" by fastforce
  then have f1: "fd_call opn loaded (p_kern p) fd1 (p_kern p1)"
    using law [of "p_kern p" "do_log \<and> has_log" data] by (simp add: sys_ret_call)
  obtain r2 k2 where c2: "oe_btf_load env True data (p_kern p1) = (r2, k2)" by fastforce
  have f2: "fd_call opn loaded (p_kern p1) r2 k2" using law [of "p_kern p1" True data] c2 by simp
  show ?thesis
  proof (cases "fd1 < 0 \<and> \<not> do_log \<and> has_log")
    case True
    then have r: "sys_ret r2 k2 p1 = (fd, p')" using assms(2) c1 c2 by (simp add: load_btf_calls_def)
    have "same_fds opn loaded (p_kern p) (p_kern p1)" using f1 True by (simp add: fd_call_def)
    then show ?thesis using sys_ret_call [OF r] f2 by (auto simp: fd_call_def same_fds_def)
  next
    case False
    then show ?thesis using assms(2) c1 f1 by (auto simp: load_btf_calls_def)
  qed
qed

lemma load_raw_btf_fd:
  "open_fds env opn loaded \<Longrightarrow> libbpf__load_raw_btf env types strs p = (fd, p') \<Longrightarrow> fd_call opn loaded (p_kern p) fd (p_kern p')"
  by (auto simp: libbpf__load_raw_btf_def Let_def fd_call_def ENOMEM_def dest!: load_btf_calls_fd split: if_splits)

text \<open>A call that returns a descriptor and closes it at once.\<close>

lemma close_if_new:
  assumes "kernel_fds kn opn loaded" "fd_call opn loaded k fd (p_kern p) \<or> prog_call opn loaded insns k fd (p_kern p)"
  shows "kept_fds opn loaded k (p_kern (if fd \<ge> 0 then snd (close_fd kn fd p) else p))"
  using assms by (auto intro: close_new fd_call_fail prog_call_kept)

lemma open_fds_kernel: "open_fds env opn loaded \<Longrightarrow> kernel_fds (oe_kernel env) opn loaded"
  by (simp add: open_fds_def)

lemma load_close_kept:
  assumes "kernel_fds kn opn loaded" "bpf_load_program_xattr kn malloc_ok la has_buf log sz p = Some (fd, log', p')"
  shows "kept_fds opn loaded (p_kern p) (p_kern (if fd \<ge> 0 then snd (close_fd kn fd p') else p'))"
  using close_if_new [OF assms(1)] bpf_load_program_xattr_call [OF assms(2) kernel_fds_allocs [OF assms(1)]] by blast

lemma probe_name_kept:
  assumes "open_fds env opn loaded" "bpf_object__probe_name env obj p = Some (r, obj', p')"
  shows "kept_fds opn loaded (p_kern p) (p_kern p')"
proof -
  let ?kn = "oe_kernel env"
    and ?a = "zero_load_attr\<lparr>lp_prog_type := BPF_PROG_TYPE_SOCKET_FILTER, lp_insns := simple_prog, lp_license := ''GPL''\<rparr>"
  note kf = open_fds_kernel [OF assms(1)]
  obtain r1 l1 p1 where c1: "bpf_load_program_xattr ?kn (oe_malloc env) ?a False None 0 p = Some (r1, l1, p1)"
    using assms(2) by (auto simp: bpf_object__probe_name_def Let_def split: Option.bind_splits)
  note k1 = load_close_kept [OF kf c1]
  show ?thesis
  proof (cases "r1 < 0")
    case True
    then show ?thesis using assms(2) c1 k1 by (simp add: bpf_object__probe_name_def Let_def)
  next
    case False
    then obtain r2 l2 p2 where c2: "bpf_load_program_xattr ?kn (oe_malloc env) (?a\<lparr>lp_name := Some ''test''\<rparr>) False None 0 (snd (close_fd ?kn r1 p1))
        = Some (r2, l2, p2)" and p': "p' = (if r2 \<ge> 0 then snd (close_fd ?kn r2 p2) else p2)"
      using assms(2) c1 by (auto simp: bpf_object__probe_name_def Let_def split: Option.bind_splits if_splits)
    show ?thesis using kept_trans [OF k1] load_close_kept [OF kf c2] False p' by simp
  qed
qed

lemma probe_global_data_kept:
  assumes "open_fds env opn loaded" "bpf_object__probe_global_data env obj p = Some (r, obj', p')"
  shows "kept_fds opn loaded (p_kern p) (p_kern p')"
proof -
  let ?kn = "oe_kernel env"
    and ?a = "zero_map_attr\<lparr>cm_map_type := BPF_MAP_TYPE_ARRAY, cm_key_size := 4, cm_value_size := 32, cm_max_entries := 1\<rparr>"
  note kf = open_fds_kernel [OF assms(1)]
  obtain m p1 where c1: "bpf_create_map_xattr ?kn ?a p = (m, p1)" by fastforce
  note f1 = create_map_xattr_call [OF kernel_fds_allocs [OF kf] c1]
  show ?thesis
  proof (cases "m < 0")
    case True
    then show ?thesis using assms(2) c1 fd_call_fail [OF f1] by (simp add: bpf_object__probe_global_data_def Let_def)
  next
    case False
    then obtain r2 l2 p2 la where c2: "bpf_load_program_xattr ?kn (oe_malloc env) la False None 0 p1 = Some (r2, l2, p2)"
      and p': "p' = snd (close_fd ?kn m (if r2 \<ge> 0 then snd (close_fd ?kn r2 p2) else p2))"
      using assms(2) c1 by (auto simp: bpf_object__probe_global_data_def Let_def split: Option.bind_splits if_splits)
    show ?thesis unfolding p' using False f1 load_close_kept [OF kf c2] by (intro close_new [OF kf]) auto
  qed
qed

lemma probe_btf_kept:
  assumes "open_fds env opn loaded"
  shows "bpf_object__probe_btf_func env obj p = (r, obj', p') \<Longrightarrow> kept_fds opn loaded (p_kern p) (p_kern p')"
    "bpf_object__probe_btf_datasec env obj p = (r, obj', p') \<Longrightarrow> kept_fds opn loaded (p_kern p) (p_kern p')"
proof -
  note kf = open_fds_kernel [OF assms]
  have "kept_fds opn loaded (p_kern p) (p_kern (if fd \<ge> 0 then snd (close_fd (oe_kernel env) fd p1) else p1))"
    if "libbpf__load_raw_btf env types strs p = (fd, p1)" for types strs fd p1
    using close_if_new [OF kf] load_raw_btf_fd [OF assms that] by blast
  then show "bpf_object__probe_btf_func env obj p = (r, obj', p') \<Longrightarrow> kept_fds opn loaded (p_kern p) (p_kern p')"
    "bpf_object__probe_btf_datasec env obj p = (r, obj', p') \<Longrightarrow> kept_fds opn loaded (p_kern p) (p_kern p')"
    by (fastforce simp: bpf_object__probe_btf_func_def bpf_object__probe_btf_datasec_def split: prod.splits if_splits)+
qed

lemma probe_caps_kept:
  assumes "open_fds env opn loaded" "bpf_object__probe_caps env obj p = Some (r, obj', p')"
  shows "kept_fds opn loaded (p_kern p) (p_kern p')"
proof -
  obtain r1 o1 p1 r2 o2 p2 r3 o3 p3 r4 where
    s: "bpf_object__probe_name env obj p = Some (r1, o1, p1)" "bpf_object__probe_global_data env o1 p1 = Some (r2, o2, p2)"
      "bpf_object__probe_btf_func env o2 p2 = (r3, o3, p3)" "bpf_object__probe_btf_datasec env o3 p3 = (r4, obj', p')"
    using assms(2) by (auto simp: bpf_object__probe_caps_def split: Option.bind_splits prod.splits)
  show ?thesis
    using probe_name_kept [OF assms(1) s(1)] probe_global_data_kept [OF assms(1) s(2)] probe_btf_kept(1) [OF assms(1) s(3)]
      probe_btf_kept(2) [OF assms(1) s(4)] by (blast intro: kept_trans)
qed

lemma probe_load_kept:
  assumes "open_fds (pv_env pv) opn loaded" "probe_load pv prog_type insns buf_len ifindex p = Some (buf, p')"
  shows "kept_fds opn loaded (p_kern p) (p_kern p')"
  using assms(2) load_close_kept [OF open_fds_kernel [OF assms(1)]]
  by (fastforce simp: probe_load_def Let_def split: Option.bind_splits)

lemma get_vendor_id_kept:
  assumes "open_fds (pv_env pv) opn loaded" "get_vendor_id pv ifindex p = (v, p')"
  shows "kept_fds opn loaded (p_kern p) (p_kern p')"
proof (cases "pv_ifname pv ifindex")
  case None
  then show ?thesis using assms(2) by (simp add: get_vendor_id_def)
next
  case (Some ifname)
  let ?path = "take 63 (''/sys/class/net/'' @ ifname @ ''/device/vendor'')"
  obtain r k fd p1 where c: "oe_open (pv_env pv) ?path (p_kern p) = (r, k)" "sys_ret r k p = (fd, p1)" by fastforce
  have "fd_call opn loaded (p_kern p) r k" using assms(1) c(1) unfolding open_fds_def by (metis fst_conv snd_conv)
  then have f: "fd_call opn loaded (p_kern p) fd (p_kern p1)" using sys_ret_call [OF c(2)] by simp
  have "p' = (if fd \<ge> 0 then snd (close_fd (oe_kernel (pv_env pv)) fd p1) else p1)"
    using assms(2) Some c by (auto simp: get_vendor_id_def Let_def split: prod.splits if_splits)
  then show ?thesis using close_if_new [OF open_fds_kernel [OF assms(1)]] f by metis
qed

lemma bpf_probe_helper_kept:
  assumes "open_fds (pv_env pv) opn loaded" "bpf_probe_helper pv func prog_type ifindex p = Some (ans, p')"
  shows "kept_fds opn loaded (p_kern p) (p_kern p')"
proof -
  obtain buf p1 where s: "probe_load pv prog_type [BPF_EMIT_CALL func, BPF_EXIT_INSN] 4096 ifindex p = Some (buf, p1)"
    using assms(2) by (auto simp: bpf_probe_helper_def split: Option.bind_splits)
  note k1 = probe_load_kept [OF assms(1) s]
  obtain v p2 where v: "get_vendor_id pv ifindex p1 = (v, p2)" by fastforce
  have "p' = p2 \<or> p' = p1" using assms(2) s v by (auto simp: bpf_probe_helper_def Let_def split: if_splits)
  then show ?thesis using k1 kept_trans [OF k1 get_vendor_id_kept [OF assms(1) v]] by auto
qed

lemma bpf_probe_prog_type_kept:
  assumes "open_fds (pv_env pv) opn loaded" "bpf_probe_prog_type pv prog_type ifindex p = Some (ans, p')"
  shows "kept_fds opn loaded (p_kern p) (p_kern p')"
  using assms(2) probe_load_kept [OF assms(1), where p = "p\<lparr>p_errno := 0\<rparr>"]
  by (auto simp: bpf_probe_prog_type_def Let_def split: Option.bind_splits)

lemma create_map_in_map_call:
  assumes "kernel_allocs kn opn loaded" "bpf_create_map_in_map kn t name ks inner me fl p = (fd, p')"
  shows "fd_call opn loaded (p_kern p) fd (p_kern p')"
proof -
  obtain a r k where c: "bk_map_create kn a (p_kern p) = (r, k)" "sys_ret r k p = (fd, p')"
    using assms(2) by (auto simp: bpf_create_map_in_map_def bpf_create_map_in_map_node_def Let_def split: prod.splits)
  have "fd_call opn loaded (p_kern p) r k" using assms(1) c(1) by (metis kernel_allocs_def fst_conv snd_conv)
  then show ?thesis using sys_ret_call [OF c(2)] by simp
qed

lemma bpf_probe_map_type_kept:
  assumes "open_fds env opn loaded" "bpf_probe_map_type env map_type ifindex p = (ans, p')"
  shows "kept_fds opn loaded (p_kern p) (p_kern p')"
proof -
  let ?kn = "oe_kernel env" and ?mm = "map_type = BPF_MAP_TYPE_ARRAY_OF_MAPS \<or> map_type = BPF_MAP_TYPE_HASH_OF_MAPS"
  note kf = open_fds_kernel [OF assms(1)]
  note al = kernel_fds_allocs [OF kf]
  obtain bfd p1 where b: "(if map_type = BPF_MAP_TYPE_SK_STORAGE then load_sk_storage_btf env p else (-1, p)) = (bfd, p1)" by fastforce
  then have fb: "fd_call opn loaded (p_kern p) bfd (p_kern p1)"
    using load_raw_btf_fd [OF assms(1)] by (auto simp: load_sk_storage_btf_def fd_call_def split: if_splits)
  obtain fd p2 where c: "(if ?mm then probe_map_in_map env map_type p1 else probe_plain_map env map_type ifindex bfd p1) = (fd, p2)" by fastforce
  let ?p3 = "if fd \<ge> 0 then snd (close_fd ?kn fd p2) else p2"
  have k3: "kept_fds opn loaded (p_kern p1) (p_kern ?p3)"
  proof (cases ?mm)
    case False
    then have "fd_call opn loaded (p_kern p1) fd (p_kern p2)"
      using c create_map_xattr_call [OF al] by (auto simp: probe_plain_map_def Let_def split: prod.splits)
    then show ?thesis using close_if_new [OF kf] by blast
  next
    case True
    obtain inner q where i: "bpf_create_map ?kn BPF_MAP_TYPE_HASH 4 4 1 0 p1 = (inner, q)" by fastforce
    then have fi: "fd_call opn loaded (p_kern p1) inner (p_kern q)" using create_map_xattr_call [OF al] by (simp add: bpf_create_map_def)
    obtain fd1 q1 where o: "bpf_create_map_in_map ?kn map_type None 4 inner 1 0 q = (fd1, q1)" by fastforce
    note fo = create_map_in_map_call [OF al o]
    show ?thesis
    proof (cases "inner < 0")
      case True
      then show ?thesis using c \<open>?mm\<close> i fd_call_fail [OF fi] by (auto simp: probe_map_in_map_def)
    next
      case False
      then have eq: "fd = fd1" "p2 = snd (close_fd ?kn inner q1)" using c \<open>?mm\<close> i o by (auto simp: probe_map_in_map_def)
      show ?thesis
        using fi fo False close_fd_law [OF kf] unfolding eq by (auto simp: fd_call_def same_fds_def kept_fds_def split: if_splits)
    qed
  qed
  let ?p4 = "if bfd \<ge> 0 then snd (close_fd ?kn bfd ?p3) else ?p3"
  have k4: "kept_fds opn loaded (p_kern p) (p_kern ?p4)"
    using fb k3 by (auto intro: close_new [OF kf] kept_trans [OF fd_call_fail])
  have "p' = p1 \<and> bfd < 0 \<or> p' = ?p4"
    using assms(2) b c by (auto simp: bpf_probe_map_type_def Let_def BPF_MAP_TYPE_SK_STORAGE_def BPF_MAP_TYPE_ARRAY_OF_MAPS_def
        BPF_MAP_TYPE_HASH_OF_MAPS_def split: prod.splits if_splits)
  then show ?thesis using k4 fd_call_fail [OF fb] by auto
qed

text \<open>The blobs of the probes are what they mean to be: the parser accepts them and finds three types of the kinds in question.\<close>

definition blob_kinds :: "bytes \<Rightarrow> u32 option list option" where
  "blob_kinds blob = (case btf__new True True (\<lambda>_. True) blob (of_nat (length blob)) of
     Some (Inr b) \<Rightarrow> Some (map (\<lambda>t. Option.bind t (btf_kind b)) (take (unat (nr_types b)) (drop 1 (btf_types b)))) | _ \<Rightarrow> None)"

lemma probe_blobs_accepted:
  "blob_kinds (raw_btf func_types func_strs) = Some [Some BTF_KIND_INT, Some BTF_KIND_FUNC_PROTO, Some BTF_KIND_FUNC]"
  "blob_kinds (raw_btf datasec_types datasec_strs) = Some [Some BTF_KIND_INT, Some BTF_KIND_VAR, Some BTF_KIND_DATASEC]"
  "blob_kinds (raw_btf sk_storage_types sk_storage_strs) = Some [Some BTF_KIND_INT, Some BTF_KIND_STRUCT, Some BTF_KIND_STRUCT]"
  by code_simp+

end
