(* ===== verification/Xsk_Prog.thy ===== *)
theory Xsk_Prog
  imports Probes
begin

text \<open>
  The program that \<^verbatim>\<open>xsk_load_xdp_prog\<close> of \<^verbatim>\<open>eBPF_app/libbpf/src/xsk.c\<close> assembles from the macros of
  \<^verbatim>\<open>include/linux/filter.h\<close>, and an interpreter of the instructions it uses: a program counter, eleven registers of 64 bits, of
  which those that a call has overwritten cannot be read, memory by address, and the two helpers of the kernel as
  arguments. Running the instructions does what the C function in the comment above them does.
\<close>

unbundle bit_operations_syntax

section \<open>Instructions\<close>

definition BPF_LDX_MEM_W :: "u8 \<Rightarrow> u8 \<Rightarrow> u16 \<Rightarrow> bpf_insn" where
  "BPF_LDX_MEM_W dst src off = \<lparr>in_code = 0x61, in_dst_reg = dst, in_src_reg = src, in_off = off, in_imm = 0\<rparr>"

definition BPF_STX_MEM_W :: "u8 \<Rightarrow> u8 \<Rightarrow> u16 \<Rightarrow> bpf_insn" where
  "BPF_STX_MEM_W dst src off = \<lparr>in_code = 0x63, in_dst_reg = dst, in_src_reg = src, in_off = off, in_imm = 0\<rparr>"

definition BPF_MOV64_REG :: "u8 \<Rightarrow> u8 \<Rightarrow> bpf_insn" where
  "BPF_MOV64_REG dst src = \<lparr>in_code = 0xbf, in_dst_reg = dst, in_src_reg = src, in_off = 0, in_imm = 0\<rparr>"

definition BPF_ALU64_ADD_IMM :: "u8 \<Rightarrow> u32 \<Rightarrow> bpf_insn" where
  "BPF_ALU64_ADD_IMM dst imm = \<lparr>in_code = 0x07, in_dst_reg = dst, in_src_reg = 0, in_off = 0, in_imm = imm\<rparr>"

definition BPF_JMP_JEQ_IMM :: "u8 \<Rightarrow> u32 \<Rightarrow> u16 \<Rightarrow> bpf_insn" where
  "BPF_JMP_JEQ_IMM dst imm off = \<lparr>in_code = 0x15, in_dst_reg = dst, in_src_reg = 0, in_off = off, in_imm = imm\<rparr>"

definition BPF_JMP32_JSGT_IMM :: "u8 \<Rightarrow> u32 \<Rightarrow> u16 \<Rightarrow> bpf_insn" where
  "BPF_JMP32_JSGT_IMM dst imm off = \<lparr>in_code = 0x66, in_dst_reg = dst, in_src_reg = 0, in_off = off, in_imm = imm\<rparr>"

definition BPF_LD_MAP_FD :: "u8 \<Rightarrow> u32 \<Rightarrow> bpf_insn list" where
  "BPF_LD_MAP_FD dst mfd = BPF_LD_IMM64_RAW_FULL dst BPF_PSEUDO_MAP_FD 0 0 mfd 0"

definition BPF_FUNC_map_lookup_elem :: u32 where "BPF_FUNC_map_lookup_elem = 1"
definition BPF_FUNC_redirect_map :: u32 where "BPF_FUNC_redirect_map = 51"

definition xsk_prog :: "int \<Rightarrow> bpf_insn list" where
  "xsk_prog xsks_map_fd =
     [BPF_LDX_MEM_W 2 1 16,
      BPF_STX_MEM_W 10 2 (- 4)] @
     BPF_LD_MAP_FD 1 (of_int xsks_map_fd) @
     [BPF_MOV64_IMM 3 2,
      BPF_EMIT_CALL BPF_FUNC_redirect_map,
      BPF_JMP32_JSGT_IMM 0 0 13,
      BPF_MOV64_REG 2 10,
      BPF_ALU64_ADD_IMM 2 (- 4)] @
     BPF_LD_MAP_FD 1 (of_int xsks_map_fd) @
     [BPF_EMIT_CALL BPF_FUNC_map_lookup_elem,
      BPF_MOV64_REG 1 0,
      BPF_MOV64_IMM 0 2,
      BPF_JMP_JEQ_IMM 1 0 5,
      BPF_LDX_MEM_W 2 10 (- 4)] @
     BPF_LD_MAP_FD 1 (of_int xsks_map_fd) @
     [BPF_MOV64_IMM 3 0,
      BPF_EMIT_CALL BPF_FUNC_redirect_map,
      BPF_EXIT_INSN]"

section \<open>Running instructions\<close>

text \<open>The helpers work on a state of the kernel. A descriptor of a map in an instruction stands for the address of the map.\<close>

record 'h bpf_helpers =
  hp_map :: "u32 \<Rightarrow> u64"
  hp_redirect_map :: "u64 \<Rightarrow> u32 \<Rightarrow> u64 \<Rightarrow> 'h \<Rightarrow> u64 \<times> 'h"
  hp_lookup :: "u64 \<Rightarrow> u32 \<Rightarrow> 'h \<Rightarrow> u64 \<times> 'h"

record 'h bpf_state =
  bs_regs :: "nat \<Rightarrow> u64 option"
  bs_mem :: "u64 \<Rightarrow> u8"
  bs_world :: 'h

definition mem_read32 :: "(u64 \<Rightarrow> u8) \<Rightarrow> u64 \<Rightarrow> u32" where
  "mem_read32 m a = word_of_le [m a, m (a + 1), m (a + 2), m (a + 3)]"

definition mem_write32 :: "u64 \<Rightarrow> u32 \<Rightarrow> (u64 \<Rightarrow> u8) \<Rightarrow> u64 \<Rightarrow> u8" where
  "mem_write32 a v m =
     (let b = le_of_word 4 v in m(a := b ! 0, a + 1 := b ! 1, a + 2 := b ! 2, a + 3 := b ! 3))"

definition set_reg :: "u8 \<Rightarrow> u64 \<Rightarrow> 'h bpf_state \<Rightarrow> 'h bpf_state" where
  "set_reg r v s = s\<lparr>bs_regs := (bs_regs s)(unat r := Some v)\<rparr>"

text \<open>A call leaves its result in register 0 and overwrites the registers 1 to 5.\<close>

definition call_result :: "u64 \<times> 'h \<Rightarrow> 'h bpf_state \<Rightarrow> 'h bpf_state" where
  "call_result r s = s\<lparr>bs_regs := (bs_regs s)(0 := Some (fst r), 1 := None, 2 := None, 3 := None, 4 := None, 5 := None), bs_world := snd r\<rparr>"

definition bpf_call :: "'h bpf_helpers \<Rightarrow> u32 \<Rightarrow> 'h bpf_state \<Rightarrow> 'h bpf_state option" where
  "bpf_call h func s =
     (if func = BPF_FUNC_redirect_map then do {
        r1 \<leftarrow> bs_regs s 1;
        r2 \<leftarrow> bs_regs s 2;
        r3 \<leftarrow> bs_regs s 3;
        Some (call_result (hp_redirect_map h r1 (ucast r2) r3 (bs_world s)) s)
      }
      else if func = BPF_FUNC_map_lookup_elem then do {
        r1 \<leftarrow> bs_regs s 1;
        r2 \<leftarrow> bs_regs s 2;
        Some (call_result (hp_lookup h r1 (mem_read32 (bs_mem s) r2) (bs_world s)) s)
      }
      else None)"

definition jump :: "nat \<Rightarrow> u16 \<Rightarrow> nat option" where
  "jump pc off = (let t = int pc + 1 + sint off in if t < 0 then None else Some (nat t))"

text \<open>One instruction: the next program counter, or the result of the program. Instructions that the program does not use are
  refused, as is reading a register that holds nothing.\<close>

definition bpf_step :: "'h bpf_helpers \<Rightarrow> bpf_insn list \<Rightarrow> nat \<Rightarrow> 'h bpf_state \<Rightarrow> ((nat + u64) \<times> 'h bpf_state) option" where
  "bpf_step h prog pc s = do {
     i \<leftarrow> arr_get prog pc;
     if in_code i = 0x61 then do {
       a \<leftarrow> bs_regs s (unat (in_src_reg i));
       Some (Inl (pc + 1), set_reg (in_dst_reg i) (ucast (mem_read32 (bs_mem s) (a + scast (in_off i)))) s)
     }
     else if in_code i = 0x63 then do {
       a \<leftarrow> bs_regs s (unat (in_dst_reg i));
       v \<leftarrow> bs_regs s (unat (in_src_reg i));
       Some (Inl (pc + 1), s\<lparr>bs_mem := mem_write32 (a + scast (in_off i)) (ucast v) (bs_mem s)\<rparr>)
     }
     else if in_code i = 0xbf then do {
       v \<leftarrow> bs_regs s (unat (in_src_reg i));
       Some (Inl (pc + 1), set_reg (in_dst_reg i) v s)
     }
     else if in_code i = 0xb7 then Some (Inl (pc + 1), set_reg (in_dst_reg i) (scast (in_imm i)) s)
     else if in_code i = 0x07 then do {
       v \<leftarrow> bs_regs s (unat (in_dst_reg i));
       Some (Inl (pc + 1), set_reg (in_dst_reg i) (v + scast (in_imm i)) s)
     }
     else if in_code i = BPF_LD_IMM_DW \<and> in_src_reg i = BPF_PSEUDO_MAP_FD then
       Some (Inl (pc + 2), set_reg (in_dst_reg i) (hp_map h (in_imm i)) s)
     else if in_code i = 0x15 then do {
       v \<leftarrow> bs_regs s (unat (in_dst_reg i));
       t \<leftarrow> jump pc (in_off i);
       Some (Inl (if v = scast (in_imm i) then t else pc + 1), s)
     }
     else if in_code i = 0x66 then do {
       v \<leftarrow> bs_regs s (unat (in_dst_reg i));
       t \<leftarrow> jump pc (in_off i);
       Some (Inl (if sint (ucast v :: u32) > sint (in_imm i) then t else pc + 1), s)
     }
     else if in_code i = BPF_JMP_CALL then do {
       s \<leftarrow> bpf_call h (in_imm i) s;
       Some (Inl (pc + 1), s)
     }
     else if in_code i = 0x95 then do {
       v \<leftarrow> bs_regs s 0;
       Some (Inr v, s)
     }
     else None
   }"

fun bpf_run :: "nat \<Rightarrow> 'h bpf_helpers \<Rightarrow> bpf_insn list \<Rightarrow> nat \<Rightarrow> 'h bpf_state \<Rightarrow> (u64 \<times> 'h bpf_state) option" where
  "bpf_run 0 h prog pc s = None"
| "bpf_run (Suc n) h prog pc s = do {
     (c, s) \<leftarrow> bpf_step h prog pc s;
     case c of Inl pc \<Rightarrow> bpf_run n h prog pc s | Inr v \<Rightarrow> Some (v, s)
   }"

text \<open>The function in the comment: \<open>index\<close> is the queue of the packet, \<^verbatim>\<open>ret\<close> has 32 bits.\<close>

definition xdp_sock_prog :: "'h bpf_helpers \<Rightarrow> u64 \<Rightarrow> u32 \<Rightarrow> 'h \<Rightarrow> u32 \<times> 'h" where
  "xdp_sock_prog h xsks_map index w =
     (let (ret, w) = hp_redirect_map h xsks_map index 2 w in
      if sint (ucast ret :: u32) > 0 then (ucast ret, w)
      else
        (let (v, w) = hp_lookup h xsks_map index w in
         if v \<noteq> 0 then (let (ret, w) = hp_redirect_map h xsks_map index 0 w in (ucast ret, w))
         else (2, w)))"

text \<open>At entry register 1 holds the address of the context and register 10 the end of the stack.\<close>

definition entry_state :: "u64 \<Rightarrow> u64 \<Rightarrow> (u64 \<Rightarrow> u8) \<Rightarrow> 'h \<Rightarrow> 'h bpf_state" where
  "entry_state ctx fp m w = \<lparr>bs_regs = [1 \<mapsto> ctx, 10 \<mapsto> fp], bs_mem = m, bs_world = w\<rparr>"

section \<open>Memory\<close>

lemma mem_read_write32 [simp]: "mem_read32 (mem_write32 a v m) a = v"
proof -
  have "le_of_word 4 v = [le_of_word 4 v ! 0, le_of_word 4 v ! 1, le_of_word 4 v ! 2, le_of_word 4 v ! 3]"
    by (simp add: numeral_eq_Suc)
  then have "word_of_le [le_of_word 4 v ! 0, le_of_word 4 v ! 1, le_of_word 4 v ! 2, le_of_word 4 v ! 3] = v"
    using word_of_le_of_word_take [of 4 v] by (simp add: take_bit_word_eq_self)
  then show ?thesis by (simp add: mem_read32_def mem_write32_def Let_def)
qed

lemma mem_write32_changes: "{b. mem_write32 (a - 4) v m b \<noteq> m b} \<subseteq> {a - 4, a - 3, a - 2, a - 1}"
proof -
  have "a - 4 + 1 = a - 3" "a - 4 + 2 = a - 2" "a - 4 + 3 = a - 1" by simp_all
  then show ?thesis by (auto simp: mem_write32_def Let_def)
qed

lemma sign_ext_4 [simp]: "(scast (- 4 :: u16) :: u64) = - 4" "(scast (- 4 :: u32) :: u64) = - 4"
  by simp_all

lemma ucast_up_down [simp]: "(ucast (ucast v :: u64) :: u32) = v"
  by (auto intro!: bit_word_eqI simp: bit_simps)

section \<open>Execution\<close>

lemmas xsk_insn_defs = BPF_LDX_MEM_W_def BPF_STX_MEM_W_def BPF_MOV64_REG_def BPF_ALU64_ADD_IMM_def BPF_JMP_JEQ_IMM_def
  BPF_JMP32_JSGT_IMM_def BPF_LD_MAP_FD_def BPF_LD_IMM64_RAW_FULL_def BPF_MOV64_IMM_def BPF_EMIT_CALL_def BPF_EXIT_INSN_def

lemmas code_defs = BPF_LD_IMM_DW_def BPF_JMP_CALL_def BPF_PSEUDO_MAP_FD_def BPF_FUNC_map_lookup_elem_def BPF_FUNC_redirect_map_def

text \<open>The instruction at each place where one starts.\<close>

lemma xsk_fetch:
  "arr_get (xsk_prog fd) 0 = Some (BPF_LDX_MEM_W 2 1 16)"
  "arr_get (xsk_prog fd) 1 = Some (BPF_STX_MEM_W 10 2 (- 4))"
  "arr_get (xsk_prog fd) 2 = Some \<lparr>in_code = BPF_LD_IMM_DW, in_dst_reg = 1, in_src_reg = BPF_PSEUDO_MAP_FD, in_off = 0, in_imm = of_int fd\<rparr>"
  "arr_get (xsk_prog fd) 4 = Some (BPF_MOV64_IMM 3 2)"
  "arr_get (xsk_prog fd) 5 = Some (BPF_EMIT_CALL BPF_FUNC_redirect_map)"
  "arr_get (xsk_prog fd) 6 = Some (BPF_JMP32_JSGT_IMM 0 0 13)"
  "arr_get (xsk_prog fd) 7 = Some (BPF_MOV64_REG 2 10)"
  "arr_get (xsk_prog fd) 8 = Some (BPF_ALU64_ADD_IMM 2 (- 4))"
  "arr_get (xsk_prog fd) 9 = Some \<lparr>in_code = BPF_LD_IMM_DW, in_dst_reg = 1, in_src_reg = BPF_PSEUDO_MAP_FD, in_off = 0, in_imm = of_int fd\<rparr>"
  "arr_get (xsk_prog fd) 11 = Some (BPF_EMIT_CALL BPF_FUNC_map_lookup_elem)"
  "arr_get (xsk_prog fd) 12 = Some (BPF_MOV64_REG 1 0)"
  "arr_get (xsk_prog fd) 13 = Some (BPF_MOV64_IMM 0 2)"
  "arr_get (xsk_prog fd) 14 = Some (BPF_JMP_JEQ_IMM 1 0 5)"
  "arr_get (xsk_prog fd) 15 = Some (BPF_LDX_MEM_W 2 10 (- 4))"
  "arr_get (xsk_prog fd) 16 = Some \<lparr>in_code = BPF_LD_IMM_DW, in_dst_reg = 1, in_src_reg = BPF_PSEUDO_MAP_FD, in_off = 0, in_imm = of_int fd\<rparr>"
  "arr_get (xsk_prog fd) 18 = Some (BPF_MOV64_IMM 3 0)"
  "arr_get (xsk_prog fd) 19 = Some (BPF_EMIT_CALL BPF_FUNC_redirect_map)"
  "arr_get (xsk_prog fd) 20 = Some (BPF_EXIT_INSN)"
  by (simp_all add: arr_get_def xsk_prog_def BPF_LD_MAP_FD_def BPF_LD_IMM64_RAW_FULL_def)

lemmas step_simps = bpf_step_def xsk_fetch xsk_insn_defs code_defs entry_state_def set_reg_def bpf_call_def call_result_def jump_def

lemma xsk_prog_first:
  "bpf_run (Suc (Suc (Suc (Suc (Suc (Suc n)))))) h (xsk_prog fd) 0 (entry_state ctx fp m w) =
     (let index = mem_read32 m (ctx + 16); (ret, w') = hp_redirect_map h (hp_map h (of_int fd)) index 2 w;
          s' = \<lparr>bs_regs = [10 \<mapsto> fp, 0 \<mapsto> ret], bs_mem = mem_write32 (fp - 4) index m, bs_world = w'\<rparr>
      in bpf_run n h (xsk_prog fd) (if sint (ucast ret :: u32) > 0 then 20 else 7) s')"
  by (simp add: step_simps Let_def split_beta del: One_nat_def)

lemma xsk_prog_second:
  assumes "s = \<lparr>bs_regs = [10 \<mapsto> fp, 0 \<mapsto> ret], bs_mem = mem_write32 (fp - 4) index m, bs_world = w\<rparr>"
  shows "bpf_run (Suc (Suc (Suc (Suc (Suc (Suc (Suc n))))))) h (xsk_prog fd) 7 s =
     (let (v, w') = hp_lookup h (hp_map h (of_int fd)) index w
      in bpf_run n h (xsk_prog fd) (if v = 0 then 20 else 15) (s\<lparr>bs_regs := [10 \<mapsto> fp, 1 \<mapsto> v, 0 \<mapsto> 2], bs_world := w'\<rparr>))"
  by (simp add: assms step_simps Let_def split_beta del: One_nat_def)

lemma xsk_prog_third:
  assumes "s = \<lparr>bs_regs = [10 \<mapsto> fp, 1 \<mapsto> v, 0 \<mapsto> 2], bs_mem = mem_write32 (fp - 4) index m, bs_world = w\<rparr>"
  shows "bpf_run (Suc (Suc (Suc (Suc n)))) h (xsk_prog fd) 15 s =
     (let (v, w') = hp_redirect_map h (hp_map h (of_int fd)) index 0 w
      in bpf_run n h (xsk_prog fd) 20 (s\<lparr>bs_regs := [10 \<mapsto> fp, 0 \<mapsto> v], bs_world := w'\<rparr>))"
  by (simp add: assms step_simps Let_def split_beta del: One_nat_def)

lemma xsk_prog_exit: "bs_regs s 0 = Some v \<Longrightarrow> bpf_run (Suc n) h (xsk_prog fd) 20 s = Some (v, s)"
  by (simp add: step_simps)

section \<open>Properties\<close>

text \<open>C32: The instructions and the C function. Whatever the two helpers do, whatever is in memory and whatever the descriptor
  of the map is, the program that the library loads ends within 18 instructions, and returns and does to the kernel what the C
  function in the comment does for the queue that the context holds; of the memory it has changed at most the four bytes
  below the end of the stack.\<close>

theorem xsk_prog_is_xdp_sock_prog:
  "\<exists>v s. bpf_run 18 h (xsk_prog fd) 0 (entry_state ctx fp m w) = Some (v, s) \<and>
     (ucast v, bs_world s) = xdp_sock_prog h (hp_map h (of_int fd)) (mem_read32 m (ctx + 16)) w \<and>
     {a. bs_mem s a \<noteq> m a} \<subseteq> {fp - 4, fp - 3, fp - 2, fp - 1}"
proof -
  let ?mp = "hp_map h (of_int fd)" and ?ix = "mem_read32 m (ctx + 16)"
  obtain r1 w1 where c1: "hp_redirect_map h ?mp ?ix 2 w = (r1, w1)" by fastforce
  obtain v w2 where c2: "hp_lookup h ?mp ?ix w1 = (v, w2)" by fastforce
  obtain r3 w3 where c3: "hp_redirect_map h ?mp ?ix 0 w2 = (r3, w3)" by fastforce
  have n: "18 = Suc (Suc (Suc (Suc (Suc (Suc (Suc (Suc (Suc (Suc (Suc (Suc (Suc (Suc (Suc (Suc (Suc (Suc 0)))))))))))))))))" by simp
  show ?thesis
    unfolding n using c1 c2 c3 mem_write32_changes [of fp ?ix m]
    by (simp add: xsk_prog_first xsk_prog_second xsk_prog_third xsk_prog_exit xdp_sock_prog_def Let_def del: bpf_run.simps)
qed

end
