(* ===== verification/Xsk_Setup.thy ===== *)
theory Xsk_Setup
  imports Xsk_Ring Xsk_Prog Netlink
begin

text \<open>
  \<^verbatim>\<open>eBPF_app/libbpf/src/xsk.c\<close>: setting up AF_XDP sockets. An area of packet buffers is registered at a socket, the four rings
  are mapped, the socket is bound to a queue of an interface, and a program that redirects the packets of the queue is
  loaded and attached unless one is there. The system calls are arguments, functions over the state of the kernel that return
  a result of at least zero or minus the error number. The structures of the rings belong to the caller, who passes their addresses: they
  are in a store. The structure of the area is passed and returned. Outer \<open>None\<close> is undefined behaviour or a call that never
  returns.
\<close>

unbundle bit_operations_syntax

section \<open>Data\<close>

definition AF_XDP :: nat where "AF_XDP = 44"
definition AF_INET :: nat where "AF_INET = 2"
definition SOCK_RAW :: nat where "SOCK_RAW = 3"
definition SOCK_DGRAM :: nat where "SOCK_DGRAM = 2"
definition EOPNOTSUPP :: int where "EOPNOTSUPP = 95"
definition IFNAMSIZ :: nat where "IFNAMSIZ = 16"
definition MAP_FAILED :: u64 where "MAP_FAILED = - 1"
definition BPF_MAP_TYPE_XSKMAP :: nat where "BPF_MAP_TYPE_XSKMAP = 17"
definition XDP_SHARED_UMEM :: u16 where "XDP_SHARED_UMEM = 1"
definition XDP_PGOFF_RX_RING :: u64 where "XDP_PGOFF_RX_RING = 0"
definition XDP_PGOFF_TX_RING :: u64 where "XDP_PGOFF_TX_RING = 0x80000000"
definition XDP_UMEM_PGOFF_FILL_RING :: u64 where "XDP_UMEM_PGOFF_FILL_RING = 0x100000000"
definition XDP_UMEM_PGOFF_COMPLETION_RING :: u64 where "XDP_UMEM_PGOFF_COMPLETION_RING = 0x180000000"
definition XSK_RING_CONS__DEFAULT_NUM_DESCS :: u32 where "XSK_RING_CONS__DEFAULT_NUM_DESCS = 2048"
definition XSK_RING_PROD__DEFAULT_NUM_DESCS :: u32 where "XSK_RING_PROD__DEFAULT_NUM_DESCS = 2048"
definition XSK_UMEM__DEFAULT_FRAME_SIZE :: u32 where "XSK_UMEM__DEFAULT_FRAME_SIZE = 4096"
definition XSK_UMEM__DEFAULT_FRAME_HEADROOM :: u32 where "XSK_UMEM__DEFAULT_FRAME_HEADROOM = 0"
definition XSK_UMEM__DEFAULT_FLAGS :: u32 where "XSK_UMEM__DEFAULT_FLAGS = 0"
definition XSK_LIBBPF_FLAGS__INHIBIT_PROG_LOAD :: u32 where "XSK_LIBBPF_FLAGS__INHIBIT_PROG_LOAD = 1"

text \<open>The whole structure of a ring: the fields of \<^theory_text>\<open>Xsk_Ring\<close> and the addresses of what is shared.\<close>

record xsk_uring = xsk_ring +
  ur_producer :: u64
  ur_consumer :: u64
  ur_ring :: u64
  ur_flags :: u64

type_synonym rings = "nat \<Rightarrow> xsk_uring"

record xsk_umem_config =
  uc_fill_size :: u32
  uc_comp_size :: u32
  uc_frame_size :: u32
  uc_frame_headroom :: u32
  uc_flags :: u32

record xsk_socket_config =
  sc_rx_size :: u32
  sc_tx_size :: u32
  sc_libbpf_flags :: u32
  sc_xdp_flags :: u32
  sc_bind_flags :: u16

record xsk_umem =
  um_fill :: nat
  um_comp :: nat
  um_area :: u64
  um_config :: xsk_umem_config
  um_fd :: int
  um_refcount :: int

text \<open>The null pointer is \<open>None\<close>; the pointer to the area is left out, the area is an argument of the functions.\<close>

record xsk_socket =
  xs_rx :: "nat option"
  xs_tx :: "nat option"
  xs_outstanding_tx :: u64
  xs_config :: xsk_socket_config
  xs_fd :: int
  xs_ifindex :: int
  xs_prog_fd :: int
  xs_xsks_map_fd :: int
  xs_queue_id :: u32
  xs_ifname :: bytes

record xdp_ring_offset =
  ro_producer :: u64
  ro_consumer :: u64
  ro_desc :: u64
  ro_flags :: u64

record xdp_mmap_offsets =
  mo_rx :: xdp_ring_offset
  mo_tx :: xdp_ring_offset
  mo_fr :: xdp_ring_offset
  mo_cr :: xdp_ring_offset

record xdp_umem_reg =
  mr_addr :: u64
  mr_len :: u64
  mr_chunk_size :: u32
  mr_headroom :: u32
  mr_flags :: u32

record sockaddr_xdp =
  sxdp_flags :: u16
  sxdp_ifindex :: u32
  sxdp_queue_id :: u32
  sxdp_shared_umem_fd :: u32

datatype xsk_sockopt =
    XDP_UMEM_REG xdp_umem_reg
  | XDP_UMEM_FILL_RING u32
  | XDP_UMEM_COMPLETION_RING u32
  | XDP_RX_RING u32
  | XDP_TX_RING u32

text \<open>The system: getting the offsets returns the bytes the kernel wrote, a mapping its address. The number of queues is the
  field \<^verbatim>\<open>max_combined\<close>. The information about a program is asked for with room for a number of identifiers of maps: it
  has the number of maps and the identifiers written; the information about a map has its name. Both take and return the length
  of the structure. What the functions of \<^theory_text>\<open>Netlink\<close> leave in the error number depends on the state.\<close>

record 'k xsk_env =
  xe_kernel :: "'k obj_kernel"
  xe_netlink :: "'k nl_env"
  xe_nl_errno :: "'k \<Rightarrow> int"
  xe_now :: u32
  xe_pagesize :: u64
  xe_socket :: "nat \<Rightarrow> nat \<Rightarrow> 'k \<Rightarrow> int \<times> 'k"
  xe_setsockopt :: "int \<Rightarrow> xsk_sockopt \<Rightarrow> 'k \<Rightarrow> int \<times> 'k"
  xe_offsets :: "int \<Rightarrow> 'k \<Rightarrow> (int \<times> bytes) \<times> 'k"
  xe_mmap :: "u64 \<Rightarrow> int \<Rightarrow> u64 \<Rightarrow> 'k \<Rightarrow> (int \<times> u64) \<times> 'k"
  xe_munmap :: "u64 \<Rightarrow> u64 \<Rightarrow> 'k \<Rightarrow> int \<times> 'k"
  xe_bind :: "int \<Rightarrow> sockaddr_xdp \<Rightarrow> 'k \<Rightarrow> int \<times> 'k"
  xe_nametoindex :: "bytes \<Rightarrow> 'k \<Rightarrow> int \<times> 'k"
  xe_channels :: "int \<Rightarrow> bytes \<Rightarrow> 'k \<Rightarrow> (int \<times> u32) \<times> 'k"
  xe_prog_fd_by_id :: "u32 \<Rightarrow> 'k \<Rightarrow> int \<times> 'k"
  xe_map_fd_by_id :: "u32 \<Rightarrow> 'k \<Rightarrow> int \<times> 'k"
  xe_prog_info :: "int \<Rightarrow> u32 \<Rightarrow> u32 \<Rightarrow> 'k \<Rightarrow> (int \<times> u32 \<times> u32 \<times> u32 list) \<times> 'k"
  xe_map_info :: "int \<Rightarrow> u32 \<Rightarrow> 'k \<Rightarrow> (int \<times> u32 \<times> bytes) \<times> 'k"
  xe_map_update :: "int \<Rightarrow> u32 \<Rightarrow> int \<Rightarrow> 'k \<Rightarrow> int \<times> 'k"
  xe_map_delete :: "int \<Rightarrow> u32 \<Rightarrow> 'k \<Rightarrow> int \<times> 'k"

text \<open>A system call, and one that writes something for the caller.\<close>

definition sys_call :: "('k \<Rightarrow> int \<times> 'k) \<Rightarrow> 'k process \<Rightarrow> int \<times> 'k process" where
  "sys_call f p = (let (r, k) = f (p_kern p) in sys_ret r k p)"

definition sys_call_out :: "('k \<Rightarrow> (int \<times> 'a) \<times> 'k) \<Rightarrow> 'k process \<Rightarrow> (int \<times> 'a) \<times> 'k process" where
  "sys_call_out f p = (let ((r, x), k) = f (p_kern p); (r, p) = sys_ret r k p in ((r, x), p))"

definition xsk_mmap :: "'k xsk_env \<Rightarrow> u64 \<Rightarrow> int \<Rightarrow> u64 \<Rightarrow> 'k process \<Rightarrow> u64 \<times> 'k process" where
  "xsk_mmap env len fd pgoff p =
     (let ((r, a), p) = sys_call_out (xe_mmap env len fd pgoff) p in (if r < 0 then MAP_FAILED else a, p))"

definition xsk_close :: "'k xsk_env \<Rightarrow> int \<Rightarrow> 'k process \<Rightarrow> 'k process" where
  "xsk_close env fd p = snd (close_fd (xe_kernel env) fd p)"

definition xsk_munmap :: "'k xsk_env \<Rightarrow> u64 \<Rightarrow> u64 \<Rightarrow> 'k process \<Rightarrow> 'k process" where
  "xsk_munmap env a len p = snd (sys_call (xe_munmap env a len) p)"

section \<open>Configuration\<close>

definition xsk_umem__fd :: "xsk_umem option \<Rightarrow> int" where
  "xsk_umem__fd umem = (case umem of None \<Rightarrow> - EINVAL | Some u \<Rightarrow> um_fd u)"

definition xsk_socket__fd :: "xsk_socket option \<Rightarrow> int" where
  "xsk_socket__fd xsk = (case xsk of None \<Rightarrow> - EINVAL | Some x \<Rightarrow> xs_fd x)"

definition xsk_page_aligned :: "'k xsk_env \<Rightarrow> u64 \<Rightarrow> bool" where
  "xsk_page_aligned env buffer \<longleftrightarrow> buffer AND (xe_pagesize env - 1) = 0"

definition xsk_set_umem_config :: "xsk_umem_config option \<Rightarrow> xsk_umem_config" where
  "xsk_set_umem_config usr_cfg = (case usr_cfg of
     None \<Rightarrow> \<lparr>uc_fill_size = XSK_RING_PROD__DEFAULT_NUM_DESCS, uc_comp_size = XSK_RING_CONS__DEFAULT_NUM_DESCS,
              uc_frame_size = XSK_UMEM__DEFAULT_FRAME_SIZE, uc_frame_headroom = XSK_UMEM__DEFAULT_FRAME_HEADROOM,
              uc_flags = XSK_UMEM__DEFAULT_FLAGS\<rparr>
   | Some c \<Rightarrow> c)"

definition xsk_set_xdp_socket_config :: "xsk_socket_config option \<Rightarrow> int + xsk_socket_config" where
  "xsk_set_xdp_socket_config usr_cfg = (case usr_cfg of
     None \<Rightarrow> Inr \<lparr>sc_rx_size = XSK_RING_CONS__DEFAULT_NUM_DESCS, sc_tx_size = XSK_RING_PROD__DEFAULT_NUM_DESCS,
                  sc_libbpf_flags = 0, sc_xdp_flags = 0, sc_bind_flags = 0\<rparr>
   | Some c \<Rightarrow> if sc_libbpf_flags c AND NOT XSK_LIBBPF_FLAGS__INHIBIT_PROG_LOAD \<noteq> 0 then Inl (- EINVAL) else Inr c)"

section \<open>Offsets\<close>

text \<open>The word at a place of the answer; four words per ring, in kernels up to 5.3 three.\<close>

definition off64 :: "bytes \<Rightarrow> nat \<Rightarrow> u64" where
  "off64 bs i = word_of_le (take 8 (drop (8 * i) bs))"

definition ring_offset_at :: "bytes \<Rightarrow> nat \<Rightarrow> xdp_ring_offset" where
  "ring_offset_at bs i = \<lparr>ro_producer = off64 bs i, ro_consumer = off64 bs (i + 1), ro_desc = off64 bs (i + 2), ro_flags = off64 bs (i + 3)\<rparr>"

definition ring_offset_v1_at :: "bytes \<Rightarrow> nat \<Rightarrow> xdp_ring_offset" where
  "ring_offset_v1_at bs i =
     \<lparr>ro_producer = off64 bs i, ro_consumer = off64 bs (i + 1), ro_desc = off64 bs (i + 2), ro_flags = off64 bs (i + 1) + 4\<rparr>"

definition mmap_offsets :: "bytes \<Rightarrow> xdp_mmap_offsets" where
  "mmap_offsets bs = \<lparr>mo_rx = ring_offset_at bs 0, mo_tx = ring_offset_at bs 4, mo_fr = ring_offset_at bs 8, mo_cr = ring_offset_at bs 12\<rparr>"

definition xsk_mmap_offsets_v1 :: "bytes \<Rightarrow> xdp_mmap_offsets" where
  "xsk_mmap_offsets_v1 bs =
     \<lparr>mo_rx = ring_offset_v1_at bs 0, mo_tx = ring_offset_v1_at bs 3, mo_fr = ring_offset_v1_at bs 6, mo_cr = ring_offset_v1_at bs 9\<rparr>"

definition xsk_get_mmap_offsets :: "'k xsk_env \<Rightarrow> int \<Rightarrow> 'k process \<Rightarrow> (int + xdp_mmap_offsets) \<times> 'k process" where
  "xsk_get_mmap_offsets env fd p =
     (let ((err, bs), p) = sys_call_out (xe_offsets env fd) p in
      if err \<noteq> 0 then (Inl err, p)
      else if length bs = 128 then (Inr (mmap_offsets bs), p)
      else if length bs = 96 then (Inr (xsk_mmap_offsets_v1 bs), p)
      else (Inl (- EINVAL), p))"

section \<open>The area of packet buffers\<close>

text \<open>Options of a socket, one after the other until one is refused; minus the error number.\<close>

fun xsk_setsockopts :: "'k xsk_env \<Rightarrow> int \<Rightarrow> xsk_sockopt list \<Rightarrow> 'k process \<Rightarrow> int \<times> 'k process" where
  "xsk_setsockopts env fd [] p = (0, p)"
| "xsk_setsockopts env fd (opt # opts) p =
     (let (err, p) = sys_call (xe_setsockopt env fd opt) p in
      if err \<noteq> 0 then (- p_errno p, p) else xsk_setsockopts env fd opts p)"

text \<open>The number of bytes of a mapping, and the fields of a ring set from the address of its mapping.\<close>

definition ring_bytes :: "xdp_ring_offset \<Rightarrow> u32 \<Rightarrow> u64 \<Rightarrow> u64" where
  "ring_bytes off sz desc_sz = ro_desc off + ucast sz * desc_sz"

definition set_ring :: "u64 \<Rightarrow> xdp_ring_offset \<Rightarrow> u32 \<Rightarrow> xsk_uring \<Rightarrow> xsk_uring" where
  "set_ring m off sz r =
     r\<lparr>ring_mask := sz - 1, ring_size := sz, ur_producer := m + ro_producer off, ur_consumer := m + ro_consumer off,
       ur_flags := m + ro_flags off, ur_ring := m + ro_desc off\<rparr>"

definition set_prod_ring :: "u64 \<Rightarrow> xdp_ring_offset \<Rightarrow> u32 \<Rightarrow> xsk_uring \<Rightarrow> xsk_uring" where
  "set_prod_ring m off sz r = (set_ring m off sz r)\<lparr>cached_cons := sz\<rparr>"

text \<open>From the offsets on: the two rings. \<open>None\<close> when something failed; the structure is freed then.\<close>

definition umem_map_rings ::
    "'k xsk_env \<Rightarrow> nat \<Rightarrow> nat \<Rightarrow> u64 \<Rightarrow> xsk_umem_config \<Rightarrow> int \<Rightarrow> xdp_mmap_offsets \<Rightarrow> rings \<Rightarrow> 'k process
      \<Rightarrow> int \<times> xsk_umem option \<times> rings \<times> 'k process" where
  "umem_map_rings env fill cmp area config fd off rs p =
     (let (m, p) = xsk_mmap env (ring_bytes (mo_fr off) (uc_fill_size config) 8) fd XDP_UMEM_PGOFF_FILL_RING p in
      if m = MAP_FAILED then (- p_errno p, None, rs, xsk_close env fd p)
      else
        (let rs = rs(fill := set_prod_ring m (mo_fr off) (uc_fill_size config) (rs fill));
             (m, p) = xsk_mmap env (ring_bytes (mo_cr off) (uc_comp_size config) 8) fd XDP_UMEM_PGOFF_COMPLETION_RING p
         in if m = MAP_FAILED
            then (- p_errno p, None, rs,
                  xsk_close env fd (xsk_munmap env m (ring_bytes (mo_fr off) (uc_fill_size config) 8) p))
            else (0, Some \<lparr>um_fill = fill, um_comp = cmp, um_area = area, um_config = config, um_fd = fd, um_refcount = 0\<rparr>,
                  rs(cmp := set_ring m (mo_cr off) (uc_comp_size config) (rs cmp)), p)))"

definition xsk_umem__create_v0_0_4 ::
    "'k xsk_env \<Rightarrow> bool \<Rightarrow> u64 \<Rightarrow> u64 \<Rightarrow> nat option \<Rightarrow> nat option \<Rightarrow> xsk_umem_config option \<Rightarrow> rings \<Rightarrow> 'k process
      \<Rightarrow> int \<times> xsk_umem option \<times> rings \<times> 'k process" where
  "xsk_umem__create_v0_0_4 env umem_ptr umem_area sz fill cmp usr_config rs p =
     (if umem_area = 0 \<or> \<not> umem_ptr \<or> fill = None \<or> cmp = None then (- EFAULT, None, rs, p)
      else if sz = 0 \<and> \<not> xsk_page_aligned env umem_area then (- EINVAL, None, rs, p)
      else if \<not> ok_malloc (xe_kernel env) 56 then (- ENOMEM, None, rs, p)
      else
        (let (fd, p) = sys_call (xe_socket env AF_XDP SOCK_RAW) p in
         if fd < 0 then (- p_errno p, None, rs, p)
         else
           (let config = xsk_set_umem_config usr_config;
                mr = \<lparr>mr_addr = umem_area, mr_len = sz, mr_chunk_size = uc_frame_size config, mr_headroom = uc_frame_headroom config,
                      mr_flags = uc_flags config\<rparr>;
                (err, p) = xsk_setsockopts env fd
                   [XDP_UMEM_REG mr, XDP_UMEM_FILL_RING (uc_fill_size config), XDP_UMEM_COMPLETION_RING (uc_comp_size config)] p
            in if err \<noteq> 0 then (err, None, rs, xsk_close env fd p)
               else (case xsk_get_mmap_offsets env fd p of
                 (Inl err, p) \<Rightarrow> (- p_errno p, None, rs, xsk_close env fd p)
               | (Inr off, p) \<Rightarrow> umem_map_rings env (the fill) (the cmp) umem_area config fd off rs p))))"

text \<open>The older version copies four fields of a configuration that must be there.\<close>

definition xsk_umem__create_v0_0_2 ::
    "'k xsk_env \<Rightarrow> bool \<Rightarrow> u64 \<Rightarrow> u64 \<Rightarrow> nat option \<Rightarrow> nat option \<Rightarrow> xsk_umem_config \<Rightarrow> rings \<Rightarrow> 'k process
      \<Rightarrow> int \<times> xsk_umem option \<times> rings \<times> 'k process" where
  "xsk_umem__create_v0_0_2 env umem_ptr umem_area sz fill cmp usr_config rs p =
     xsk_umem__create_v0_0_4 env umem_ptr umem_area sz fill cmp (Some (usr_config\<lparr>uc_flags := 0\<rparr>)) rs p"

text \<open>The second component is the structure if it still exists.\<close>

definition xsk_umem__delete :: "'k xsk_env \<Rightarrow> xsk_umem option \<Rightarrow> rings \<Rightarrow> 'k process \<Rightarrow> int \<times> xsk_umem option \<times> 'k process" where
  "xsk_umem__delete env umem rs p = (case umem of
     None \<Rightarrow> (0, None, p)
   | Some um \<Rightarrow>
       if um_refcount um \<noteq> 0 then (- EBUSY, Some um, p)
       else
         (let (res, p) = xsk_get_mmap_offsets env (um_fd um) p;
              p = (case res of
                     Inl err \<Rightarrow> p
                   | Inr off \<Rightarrow>
                       xsk_munmap env (ur_ring (rs (um_comp um)) - ro_desc (mo_cr off)) (ring_bytes (mo_cr off) (uc_comp_size (um_config um)) 8)
                         (xsk_munmap env (ur_ring (rs (um_fill um)) - ro_desc (mo_fr off)) (ring_bytes (mo_fr off) (uc_fill_size (um_config um)) 8) p))
          in (0, None, xsk_close env (um_fd um) p)))"

section \<open>The program of a queue\<close>

definition xsk_load_xdp_prog :: "'k xsk_env \<Rightarrow> xsk_socket \<Rightarrow> 'k process \<Rightarrow> (int \<times> xsk_socket \<times> 'k process) option" where
  "xsk_load_xdp_prog env xsk p = do {
     (fd, log, p) \<leftarrow> bpf_load_program (xe_kernel env) (ok_malloc (xe_kernel env)) BPF_PROG_TYPE_XDP (xsk_prog (xs_xsks_map_fd xsk))
                       ''LGPL-2.1 or BSD-2-Clause'' 0 True None (16 * 1024) p;
     if fd < 0 then Some (fd, xsk, p)
     else do {
       (r, k) \<leftarrow> bpf_set_link_xdp_fd (xe_netlink env) (xs_ifindex xsk) fd (sc_xdp_flags (xs_config xsk)) (p_kern p);
       let p = p\<lparr>p_kern := k, p_errno := xe_nl_errno env k\<rparr>;
       case r of
         Blocked \<Rightarrow> None
       | Ret err u \<Rightarrow> Some (if err \<noteq> 0 then (err, xsk, xsk_close env fd p) else (0, xsk\<lparr>xs_prog_fd := fd\<rparr>, p))
     }
   }"

definition xsk_get_max_queues :: "'k xsk_env \<Rightarrow> xsk_socket \<Rightarrow> 'k process \<Rightarrow> int \<times> 'k process" where
  "xsk_get_max_queues env xsk p =
     (let (fd, p) = sys_call (xe_socket env AF_INET SOCK_DGRAM) p in
      if fd < 0 then (- p_errno p, p)
      else
        (let ((err, max_combined), p) = sys_call_out (xe_channels env fd (take (IFNAMSIZ - 1) (xs_ifname xsk) @ [0])) p;
             ret = (if err \<noteq> 0 \<and> p_errno p \<noteq> EOPNOTSUPP then - p_errno p
                    else if err \<noteq> 0 \<or> max_combined = 0 then 1
                    else sint max_combined)
         in (ret, xsk_close env fd p)))"

definition xsk_create_bpf_maps :: "'k xsk_env \<Rightarrow> xsk_socket \<Rightarrow> 'k process \<Rightarrow> int \<times> xsk_socket \<times> 'k process" where
  "xsk_create_bpf_maps env xsk p =
     (let (max_queues, p) = xsk_get_max_queues env xsk p in
      if max_queues < 0 then (max_queues, xsk, p)
      else
        (let (fd, p) = bpf_create_map_name (xe_kernel env) BPF_MAP_TYPE_XSKMAP (Some ''xsks_map'') 4 4 (of_int max_queues) 0 p
         in if fd < 0 then (fd, xsk, p) else (0, xsk\<lparr>xs_xsks_map_fd := fd\<rparr>, p)))"

definition xsk_delete_bpf_maps :: "'k xsk_env \<Rightarrow> xsk_socket \<Rightarrow> 'k process \<Rightarrow> 'k process" where
  "xsk_delete_bpf_maps env xsk p =
     xsk_close env (xs_xsks_map_fd xsk) (snd (sys_call (xe_map_delete env (xs_xsks_map_fd xsk) (xs_queue_id xsk)) p))"

text \<open>The comparison of a name with \<^verbatim>\<open>xsks_map\<close> looks at nine bytes at most.\<close>

definition is_xsks_map :: "bytes \<Rightarrow> bool" where
  "is_xsks_map name \<longleftrightarrow> take 9 name = str_bytes ''xsks_map'' @ [0]"

fun lookup_maps_loop :: "'k xsk_env \<Rightarrow> u32 list \<Rightarrow> nat \<Rightarrow> nat \<Rightarrow> u32 \<Rightarrow> int \<Rightarrow> 'k process \<Rightarrow> (int \<times> 'k process) option" where
  "lookup_maps_loop env map_ids i 0 map_len xsks_map_fd p = Some (xsks_map_fd, p)"
| "lookup_maps_loop env map_ids i (Suc n) map_len xsks_map_fd p = do {
     mid \<leftarrow> arr_get map_ids i;
     let (fd, p) = sys_call (xe_map_fd_by_id env mid) p;
     if fd < 0 then lookup_maps_loop env map_ids (i + 1) n map_len xsks_map_fd p
     else do {
       let ((err, len, name), p) = sys_call_out (xe_map_info env fd map_len) p;
       if err \<noteq> 0 then lookup_maps_loop env map_ids (i + 1) n map_len xsks_map_fd (xsk_close env fd p)
       else if is_xsks_map name then lookup_maps_loop env map_ids (i + 1) n len fd p
       else lookup_maps_loop env map_ids (i + 1) n len xsks_map_fd (xsk_close env fd p)
     }
   }"

text \<open>The structures have 208 and 80 bytes. The identifiers are written into an array of the number of maps of the first answer.\<close>

definition xsk_lookup_bpf_maps :: "'k xsk_env \<Rightarrow> xsk_socket \<Rightarrow> 'k process \<Rightarrow> (int \<times> xsk_socket \<times> 'k process) option" where
  "xsk_lookup_bpf_maps env xsk p =
     (let ((err, prog_len, num_maps, no_ids), p) = sys_call_out (xe_prog_info env (xs_prog_fd xsk) 208 0) p in
      if err \<noteq> 0 then Some (err, xsk, p)
      else if \<not> ok_malloc (xe_kernel env) (unat num_maps * 4) then Some (- ENOMEM, xsk, p)
      else
        (let ((err, prog_len, nr_map_ids, ids), p) = sys_call_out (xe_prog_info env (xs_prog_fd xsk) prog_len num_maps) p in
         if err \<noteq> 0 then Some (err, xsk, p)
         else if length ids > unat num_maps then None
         else do {
           (fd, p) \<leftarrow> lookup_maps_loop env (ids @ replicate (unat num_maps - length ids) 0) 0 (unat nr_map_ids) 80 (- 1) p;
           Some (if fd = - 1 then - ENOENT else 0, xsk\<lparr>xs_xsks_map_fd := fd\<rparr>, p)
         }))"

definition xsk_set_bpf_maps :: "'k xsk_env \<Rightarrow> xsk_socket \<Rightarrow> 'k process \<Rightarrow> int \<times> 'k process" where
  "xsk_set_bpf_maps env xsk p = sys_call (xe_map_update env (xs_xsks_map_fd xsk) (xs_queue_id xsk) (xs_fd xsk)) p"

text \<open>Finding or making the program and its map, and the entry of the socket in the map.\<close>

definition xsk_new_xdp_prog :: "'k xsk_env \<Rightarrow> xsk_socket \<Rightarrow> 'k process \<Rightarrow> (int \<times> xsk_socket \<times> 'k process) option" where
  "xsk_new_xdp_prog env xsk p =
     (let (err, xsk, p) = xsk_create_bpf_maps env xsk p in
      if err \<noteq> 0 then Some (err, xsk, p)
      else do {
        (err, xsk, p) \<leftarrow> xsk_load_xdp_prog env xsk p;
        Some (if err \<noteq> 0 then (err, xsk, xsk_delete_bpf_maps env xsk p) else (0, xsk, p))
      })"

definition xsk_old_xdp_prog :: "'k xsk_env \<Rightarrow> u32 \<Rightarrow> xsk_socket \<Rightarrow> 'k process \<Rightarrow> (int \<times> xsk_socket \<times> 'k process) option" where
  "xsk_old_xdp_prog env attached xsk p =
     (let (fd, p) = sys_call (xe_prog_fd_by_id env attached) p; xsk = xsk\<lparr>xs_prog_fd := fd\<rparr> in
      if fd < 0 then Some (- p_errno p, xsk, p)
      else do {
        (err, xsk, p) \<leftarrow> xsk_lookup_bpf_maps env xsk p;
        Some (if err \<noteq> 0 then (err, xsk, xsk_close env (xs_prog_fd xsk) p) else (0, xsk, p))
      })"

definition xsk_setup_xdp_prog :: "'k xsk_env \<Rightarrow> xsk_socket \<Rightarrow> 'k process \<Rightarrow> (int \<times> xsk_socket \<times> 'k process) option" where
  "xsk_setup_xdp_prog env xsk p = do {
     (r, k) \<leftarrow> bpf_get_link_xdp_id (xe_netlink env) (xe_now env) (xs_ifindex xsk) (sc_xdp_flags (xs_config xsk)) (p_kern p);
     let p = p\<lparr>p_kern := k, p_errno := xe_nl_errno env k\<rparr>;
     case r of
       Blocked \<Rightarrow> None
     | Ret err info \<Rightarrow>
         if err \<noteq> 0 then Some (err, xsk, p)
         else do {
           let attached = (case info of None \<Rightarrow> 0 | Some i \<Rightarrow> i);
           (err, xsk, p) \<leftarrow> (if attached = 0 then xsk_new_xdp_prog env xsk p else xsk_old_xdp_prog env attached xsk p);
           if err \<noteq> 0 then Some (err, xsk, p)
           else do {
             let (err, p) = (if xs_rx xsk \<noteq> None then xsk_set_bpf_maps env xsk p else (0, p));
             Some (if err \<noteq> 0 then (err, xsk, xsk_close env (xs_prog_fd xsk) (xsk_delete_bpf_maps env xsk p)) else (0, xsk, p))
           }
         }
   }"

section \<open>Sockets\<close>

text \<open>The exits of the function: the labels \<^verbatim>\<open>out_socket\<close>, \<^verbatim>\<open>out_mmap_rx\<close> and \<^verbatim>\<open>out_mmap_tx\<close>.\<close>

type_synonym 'k create_result = "int \<times> xsk_socket option \<times> xsk_umem option \<times> rings \<times> 'k process"

definition out_socket :: "'k xsk_env \<Rightarrow> int \<Rightarrow> xsk_socket \<Rightarrow> xsk_umem \<Rightarrow> rings \<Rightarrow> 'k process \<Rightarrow> 'k create_result" where
  "out_socket env err xsk um rs p =
     (let um = um\<lparr>um_refcount := um_refcount um - 1\<rparr>
      in (err, None, Some um, rs, if um_refcount um \<noteq> 0 then xsk_close env (xs_fd xsk) p else p))"

definition out_mmap_rx :: "'k xsk_env \<Rightarrow> int \<Rightarrow> xdp_mmap_offsets \<Rightarrow> nat option \<Rightarrow> u64 \<Rightarrow> xsk_socket \<Rightarrow> xsk_umem \<Rightarrow> rings \<Rightarrow> 'k process \<Rightarrow> 'k create_result" where
  "out_mmap_rx env err off rx rx_map xsk um rs p =
     out_socket env err xsk um rs
       (if rx \<noteq> None then xsk_munmap env rx_map (ring_bytes (mo_rx off) (sc_rx_size (xs_config xsk)) 16) p else p)"

definition out_mmap_tx ::
    "'k xsk_env \<Rightarrow> int \<Rightarrow> xdp_mmap_offsets \<Rightarrow> nat option \<Rightarrow> nat option \<Rightarrow> u64 \<Rightarrow> u64 \<Rightarrow> xsk_socket \<Rightarrow> xsk_umem \<Rightarrow> rings \<Rightarrow> 'k process
      \<Rightarrow> 'k create_result" where
  "out_mmap_tx env err off rx tx rx_map tx_map xsk um rs p =
     out_mmap_rx env err off rx rx_map xsk um rs
       (if tx \<noteq> None then xsk_munmap env tx_map (ring_bytes (mo_tx off) (sc_tx_size (xs_config xsk)) 16) p else p)"

text \<open>Binding and the program.\<close>

definition socket_bind ::
    "'k xsk_env \<Rightarrow> xdp_mmap_offsets \<Rightarrow> nat option \<Rightarrow> nat option \<Rightarrow> u64 \<Rightarrow> u64 \<Rightarrow> xsk_socket \<Rightarrow> xsk_umem \<Rightarrow> rings \<Rightarrow> 'k process
      \<Rightarrow> 'k create_result option" where
  "socket_bind env off rx tx rx_map tx_map xsk um rs p =
     (let sxdp = (if um_refcount um > 1
                  then \<lparr>sxdp_flags = XDP_SHARED_UMEM, sxdp_ifindex = of_int (xs_ifindex xsk), sxdp_queue_id = xs_queue_id xsk,
                        sxdp_shared_umem_fd = of_int (um_fd um)\<rparr>
                  else \<lparr>sxdp_flags = sc_bind_flags (xs_config xsk), sxdp_ifindex = of_int (xs_ifindex xsk), sxdp_queue_id = xs_queue_id xsk,
                        sxdp_shared_umem_fd = 0\<rparr>);
          (err, p) = sys_call (xe_bind env (xs_fd xsk) sxdp) p
      in if err \<noteq> 0 then Some (out_mmap_tx env (- p_errno p) off rx tx rx_map tx_map xsk um rs p)
         else do {
           let xsk = xsk\<lparr>xs_prog_fd := - 1\<rparr>;
           (err, xsk, p) \<leftarrow> (if sc_libbpf_flags (xs_config xsk) AND XSK_LIBBPF_FLAGS__INHIBIT_PROG_LOAD = 0
                             then xsk_setup_xdp_prog env xsk p else Some (0, xsk, p));
           Some (if err \<noteq> 0 then out_mmap_tx env err off rx tx rx_map tx_map xsk um rs p
                 else (0, Some xsk, Some um, rs, p))
         })"

text \<open>Mapping the two rings.\<close>

definition socket_rings ::
    "'k xsk_env \<Rightarrow> xdp_mmap_offsets \<Rightarrow> nat option \<Rightarrow> nat option \<Rightarrow> xsk_socket \<Rightarrow> xsk_umem \<Rightarrow> rings \<Rightarrow> 'k process
      \<Rightarrow> 'k create_result option" where
  "socket_rings env off rx tx xsk um rs p =
     (let rx_sz = sc_rx_size (xs_config xsk); tx_sz = sc_tx_size (xs_config xsk);
          (rx_map, p) = (if rx \<noteq> None then xsk_mmap env (ring_bytes (mo_rx off) rx_sz 16) (xs_fd xsk) XDP_PGOFF_RX_RING p else (0, p))
      in if rx \<noteq> None \<and> rx_map = MAP_FAILED then Some (out_socket env (- p_errno p) xsk um rs p)
         else
           (let rs = (case rx of None \<Rightarrow> rs | Some r \<Rightarrow> rs(r := set_ring rx_map (mo_rx off) rx_sz (rs r)));
                xsk = xsk\<lparr>xs_rx := rx\<rparr>;
                (tx_map, p) = (if tx \<noteq> None then xsk_mmap env (ring_bytes (mo_tx off) tx_sz 16) (xs_fd xsk) XDP_PGOFF_TX_RING p else (0, p))
            in if tx \<noteq> None \<and> tx_map = MAP_FAILED then Some (out_mmap_rx env (- p_errno p) off rx rx_map xsk um rs p)
               else
                 (let rs = (case tx of None \<Rightarrow> rs | Some t \<Rightarrow> rs(t := set_prod_ring tx_map (mo_tx off) tx_sz (rs t)))
                  in socket_bind env off rx tx rx_map tx_map (xsk\<lparr>xs_tx := tx\<rparr>) um rs p)))"

text \<open>The interface, the options and the offsets. \<open>ifname\<close> is the memory that the pointer points to.\<close>

definition socket_open ::
    "'k xsk_env \<Rightarrow> bytes \<Rightarrow> nat option \<Rightarrow> nat option \<Rightarrow> xsk_socket \<Rightarrow> xsk_umem \<Rightarrow> rings \<Rightarrow> 'k process
      \<Rightarrow> 'k create_result option" where
  "socket_open env ifname rx tx xsk um rs p =
     (let (ifindex, p) = sys_call (xe_nametoindex env (takeWhile (\<lambda>b. b \<noteq> 0) ifname)) p in
      if ifindex \<le> 0 then Some (out_socket env (- p_errno p) xsk um rs p)
      else do {
        name \<leftarrow> load ifname 0 (IFNAMSIZ - 1);
        let xsk = xsk\<lparr>xs_ifindex := ifindex, xs_ifname := name @ [0]\<rparr>;
        let (err, p) = xsk_setsockopts env (xs_fd xsk)
              ((if rx \<noteq> None then [XDP_RX_RING (sc_rx_size (xs_config xsk))] else []) @
               (if tx \<noteq> None then [XDP_TX_RING (sc_tx_size (xs_config xsk))] else [])) p;
        if err \<noteq> 0 then Some (out_socket env err xsk um rs p)
        else (case xsk_get_mmap_offsets env (xs_fd xsk) p of
          (Inl err, p) \<Rightarrow> Some (out_socket env (- p_errno p) xsk um rs p)
        | (Inr off, p) \<Rightarrow> socket_rings env off rx tx xsk um rs p)
      })"

definition xsk_socket__create ::
    "'k xsk_env \<Rightarrow> bool \<Rightarrow> bytes \<Rightarrow> u32 \<Rightarrow> xsk_umem option \<Rightarrow> nat option \<Rightarrow> nat option \<Rightarrow> xsk_socket_config option \<Rightarrow> rings \<Rightarrow> 'k process
      \<Rightarrow> 'k create_result option" where
  "xsk_socket__create env xsk_ptr ifname queue_id umem rx tx usr_config rs p = (case umem of
     None \<Rightarrow> Some (- EFAULT, None, umem, rs, p)
   | Some um \<Rightarrow>
       if \<not> xsk_ptr \<or> rx = None \<and> tx = None then Some (- EFAULT, None, umem, rs, p)
       else if \<not> ok_malloc (xe_kernel env) 88 then Some (- ENOMEM, None, umem, rs, p)
       else (case xsk_set_xdp_socket_config usr_config of
         Inl err \<Rightarrow> Some (err, None, umem, rs, p)
       | Inr config \<Rightarrow>
           if um_refcount um \<noteq> 0 \<and> sc_libbpf_flags config AND XSK_LIBBPF_FLAGS__INHIBIT_PROG_LOAD = 0
           then Some (- EBUSY, None, umem, rs, p)
           else
             (let um' = um\<lparr>um_refcount := um_refcount um + 1\<rparr>;
                  (fd, p) = (if um_refcount um > 0 then sys_call (xe_socket env AF_XDP SOCK_RAW) p else (um_fd um, p))
              in if um_refcount um > 0 \<and> fd < 0 then Some (- p_errno p, None, Some um', rs, p)
                 else socket_open env ifname rx tx
                        \<lparr>xs_rx = None, xs_tx = None, xs_outstanding_tx = 0, xs_config = config, xs_fd = fd, xs_ifindex = 0, xs_prog_fd = 0,
                         xs_xsks_map_fd = 0, xs_queue_id = queue_id, xs_ifname = replicate IFNAMSIZ 0\<rparr> um' rs p)))"

definition xsk_socket__delete :: "'k xsk_env \<Rightarrow> xsk_socket option \<Rightarrow> xsk_umem \<Rightarrow> rings \<Rightarrow> 'k process \<Rightarrow> xsk_umem \<times> 'k process" where
  "xsk_socket__delete env xsk um rs p = (case xsk of
     None \<Rightarrow> (um, p)
   | Some x \<Rightarrow>
       (let p = (if xs_prog_fd x \<noteq> - 1 then xsk_close env (xs_prog_fd x) (xsk_delete_bpf_maps env x p) else p);
            (res, p) = xsk_get_mmap_offsets env (xs_fd x) p;
            p = (case res of
                   Inl err \<Rightarrow> p
                 | Inr off \<Rightarrow>
                     (let p = (case xs_rx x of None \<Rightarrow> p
                               | Some r \<Rightarrow> xsk_munmap env (ur_ring (rs r) - ro_desc (mo_rx off)) (ring_bytes (mo_rx off) (sc_rx_size (xs_config x)) 16) p)
                      in case xs_tx x of None \<Rightarrow> p
                         | Some t \<Rightarrow> xsk_munmap env (ur_ring (rs t) - ro_desc (mo_tx off)) (ring_bytes (mo_tx off) (sc_tx_size (xs_config x)) 16) p));
            um = um\<lparr>um_refcount := um_refcount um - 1\<rparr>
        in (um, if xs_fd x \<noteq> um_fd um then xsk_close env (xs_fd x) p else p)))"

end
