(* ===== verification/Xsk_Correct.thy ===== *)
theory Xsk_Correct
  imports Xsk_Setup
begin

text \<open>
  What setting up AF_XDP sockets leaves behind: the descriptors that are open and the mappings of memory are counted through
  every function of \<^theory_text>\<open>Xsk_Setup\<close>, on the paths that fail and on those that succeed. The kernel is described by what its calls
  do to the two sets.
\<close>

unbundle bit_operations_syntax

section \<open>The kernel\<close>

text \<open>\<open>opn\<close> are the open descriptors, \<open>mp\<close> the mappings, an address with a number of bytes. A call that changes neither, and one
  that returns a new descriptor.\<close>

definition quiet :: "('k \<Rightarrow> int set) \<Rightarrow> ('k \<Rightarrow> (u64 \<times> u64) set) \<Rightarrow> 'k \<Rightarrow> 'k \<Rightarrow> bool" where
  "quiet opn mp k k' \<longleftrightarrow> opn k' = opn k \<and> mp k' = mp k"

definition new_fd :: "('k \<Rightarrow> int set) \<Rightarrow> ('k \<Rightarrow> (u64 \<times> u64) set) \<Rightarrow> 'k \<Rightarrow> int \<times> 'k \<Rightarrow> bool" where
  "new_fd opn mp k r \<longleftrightarrow> mp (snd r) = mp k \<and>
     (if fst r \<ge> 0 then fst r \<notin> opn k \<and> opn (snd r) = insert (fst r) (opn k) else opn (snd r) = opn k)"

text \<open>A mapping is new and not at the address that stands for failure; unmapping that address does nothing.\<close>

definition mmap_law :: "'k xsk_env \<Rightarrow> ('k \<Rightarrow> int set) \<Rightarrow> ('k \<Rightarrow> (u64 \<times> u64) set) \<Rightarrow> bool" where
  "mmap_law env opn mp \<longleftrightarrow>
     (\<forall>len fd off k. case xe_mmap env len fd off k of ((r, a), k') \<Rightarrow> opn k' = opn k \<and>
        (if r \<ge> 0 then a \<noteq> MAP_FAILED \<and> (a, len) \<notin> mp k \<and> mp k' = insert (a, len) (mp k) else mp k' = mp k)) \<and>
     (\<forall>a len k. opn (snd (xe_munmap env a len k)) = opn k \<and>
        (if a = MAP_FAILED then mp (snd (xe_munmap env a len k)) = mp k
         else (a, len) \<in> mp k \<longrightarrow> mp (snd (xe_munmap env a len k)) = mp k - {(a, len)}))"

definition quiet_calls :: "'k xsk_env \<Rightarrow> ('k \<Rightarrow> int set) \<Rightarrow> ('k \<Rightarrow> (u64 \<times> u64) set) \<Rightarrow> bool" where
  "quiet_calls env opn mp \<longleftrightarrow>
     (\<forall>fd x k. quiet opn mp k (snd (xe_setsockopt env fd x k))) \<and>
     (\<forall>fd k. quiet opn mp k (snd (xe_offsets env fd k))) \<and>
     (\<forall>fd x k. quiet opn mp k (snd (xe_bind env fd x k))) \<and>
     (\<forall>x k. quiet opn mp k (snd (xe_nametoindex env x k))) \<and>
     (\<forall>fd x k. quiet opn mp k (snd (xe_channels env fd x k))) \<and>
     (\<forall>fd x y k. quiet opn mp k (snd (xe_prog_info env fd x y k))) \<and>
     (\<forall>fd x k. quiet opn mp k (snd (xe_map_info env fd x k))) \<and>
     (\<forall>fd x y k. quiet opn mp k (snd (xe_map_update env fd x y k))) \<and>
     (\<forall>fd x k. quiet opn mp k (snd (xe_map_delete env fd x k))) \<and>
     (\<forall>x k. quiet opn mp k (snd (ne_recv (xe_netlink env) k x)))"

definition xsk_laws :: "'k xsk_env \<Rightarrow> ('k \<Rightarrow> int set) \<Rightarrow> ('k \<Rightarrow> int \<rightharpoonup> bpf_insn list) \<Rightarrow> ('k \<Rightarrow> (u64 \<times> u64) set) \<Rightarrow> bool" where
  "xsk_laws env opn loaded mp \<longleftrightarrow>
     kernel_fds (xe_kernel env) opn loaded \<and>
     (\<forall>a k. mp (snd (bk_map_create (xe_kernel env) a k)) = mp k) \<and>
     (\<forall>a k. mp (snd (bk_prog_load (xe_kernel env) a k)) = mp k) \<and>
     (\<forall>fd k. mp (snd (ok_close (xe_kernel env) fd k)) = mp k) \<and>
     (\<forall>x y k. new_fd opn mp k (xe_socket env x y k)) \<and>
     (\<forall>x k. new_fd opn mp k (xe_prog_fd_by_id env x k)) \<and>
     (\<forall>x k. new_fd opn mp k (xe_map_fd_by_id env x k)) \<and>
     mmap_law env opn mp \<and> quiet_calls env opn mp"

text \<open>Relative to descriptors \<open>B\<close> and mappings \<open>C\<close> that were there, \<open>F\<close> and \<open>M\<close> have been added.\<close>

definition holds ::
    "('k \<Rightarrow> int set) \<Rightarrow> ('k \<Rightarrow> (u64 \<times> u64) set) \<Rightarrow> int set \<Rightarrow> (u64 \<times> u64) set \<Rightarrow> int set \<Rightarrow> (u64 \<times> u64) set \<Rightarrow> 'k process \<Rightarrow> bool" where
  "holds opn mp B C F M p \<longleftrightarrow>
     opn (p_kern p) = B \<union> F \<and> B \<inter> F = {} \<and> mp (p_kern p) = C \<union> M \<and> C \<inter> M = {}"

named_theorems held \<open>what a call does to the resources that are held\<close>

lemma holds_start: "holds opn mp (opn (p_kern p)) (mp (p_kern p)) {} {} p"
  by (simp add: holds_def)

lemma quiet_holds: "quiet opn mp (p_kern p) (p_kern p') \<Longrightarrow> holds opn mp B C F M p' \<longleftrightarrow> holds opn mp B C F M p"
  by (simp add: quiet_def holds_def)

lemma quiet_trans: "quiet opn mp k k' \<Longrightarrow> quiet opn mp k' k'' \<Longrightarrow> quiet opn mp k k''"
  by (simp add: quiet_def)

lemma quiet_refl [simp]: "quiet opn mp k k"
  by (simp add: quiet_def)

lemma sys_call_kern: "sys_call f p = (r, p') \<Longrightarrow> p_kern p' = snd (f (p_kern p))"
  by (auto simp: sys_call_def sys_ret_def split: prod.splits if_splits)

lemma sys_call_out_kern: "sys_call_out f p = (x, p') \<Longrightarrow> p_kern p' = snd (f (p_kern p))"
  by (auto simp: sys_call_out_def sys_ret_def split: prod.splits if_splits)

lemma new_fd_holds:
  assumes "\<And>k. new_fd opn mp k (f k)" "sys_call f p = (fd, p')" "holds opn mp B C F M p"
  shows "if fd < 0 then holds opn mp B C F M p' else fd \<notin> F \<and> fd \<notin> B \<and> holds opn mp B C (insert fd F) M p'"
proof -
  obtain r k where f: "f (p_kern p) = (r, k)" by fastforce
  then have "sys_ret r k p = (fd, p')" using assms(2) by (simp add: sys_call_def)
  then have "p_kern p' = k" "fd < 0 \<longleftrightarrow> r < 0" "0 \<le> r \<Longrightarrow> fd = r" by (auto simp: sys_ret_def split: if_splits)
  then show ?thesis using assms(1) [of "p_kern p"] f assms(3) by (auto simp: new_fd_def holds_def)
qed

lemma close_holds [held]:
  assumes "xsk_laws env opn loaded mp" "holds opn mp B C (insert fd F) M p" "fd \<notin> F"
  shows "holds opn mp B C F M (xsk_close env fd p)"
proof -
  have kf: "kernel_fds (xe_kernel env) opn loaded" and "\<And>fd k. mp (snd (ok_close (xe_kernel env) fd k)) = mp k"
    using assms(1) by (simp_all add: xsk_laws_def)
  then have "mp (p_kern (snd (close_fd (xe_kernel env) fd p))) = mp (p_kern p)" by (auto simp: close_fd_def split_beta)
  then show ?thesis using close_fd_law(1) [OF kf, of fd p] assms(2,3) by (auto simp: holds_def xsk_close_def)
qed

lemma mmap_holds:
  assumes "xsk_laws env opn loaded mp" "xsk_mmap env len fd off p = (m, p')" "holds opn mp B C F M p"
  shows "if m = MAP_FAILED then holds opn mp B C F M p' else (m, len) \<notin> M \<and> (m, len) \<notin> C \<and> holds opn mp B C F (insert (m, len) M) p'"
proof -
  obtain r a k where x: "xe_mmap env len fd off (p_kern p) = ((r, a), k)" by (metis prod.exhaust)
  have "mmap_law env opn mp" using assms(1) by (simp add: xsk_laws_def)
  from this [unfolded mmap_law_def, THEN conjunct1, THEN spec [of _ len], THEN spec [of _ fd], THEN spec [of _ off], THEN spec [of _ "p_kern p"]]
  have law: "opn k = opn (p_kern p)"
    "if r \<ge> 0 then a \<noteq> MAP_FAILED \<and> (a, len) \<notin> mp (p_kern p) \<and> mp k = insert (a, len) (mp (p_kern p)) else mp k = mp (p_kern p)"
    using x by simp_all
  have "p_kern p' = k" "m = (if r < 0 then MAP_FAILED else a)"
    using assms(2) x by (auto simp: xsk_mmap_def sys_call_out_def sys_ret_def Let_def split: if_splits)
  then show ?thesis using law assms(3) by (auto simp: holds_def split: if_splits)
qed

lemma munmap_holds [held]:
  assumes "xsk_laws env opn loaded mp" "holds opn mp B C F (insert (m, len) M) p" "(m, len) \<notin> M" "m \<noteq> MAP_FAILED"
  shows "holds opn mp B C F M (xsk_munmap env m len p)"
proof -
  have "mmap_law env opn mp" using assms(1) by (simp add: xsk_laws_def)
  then have "opn (snd (xe_munmap env m len (p_kern p))) = opn (p_kern p)"
    "(m, len) \<in> mp (p_kern p) \<Longrightarrow> mp (snd (xe_munmap env m len (p_kern p))) = mp (p_kern p) - {(m, len)}"
    using assms(4) unfolding mmap_law_def by auto
  then show ?thesis using assms(2,3) by (auto simp: holds_def xsk_munmap_def sys_call_def split_beta)
qed

lemma munmap_failed:
  assumes "xsk_laws env opn loaded mp"
  shows "quiet opn mp (p_kern p) (p_kern (xsk_munmap env MAP_FAILED len p))"
  using assms unfolding xsk_laws_def mmap_law_def
  by (auto simp: quiet_def xsk_munmap_def sys_call_def split_beta)

section \<open>Calls that hold nothing\<close>

lemma quiet_callsI:
  assumes "xsk_laws env opn loaded mp"
  shows "quiet opn mp k (snd (xe_setsockopt env fd a k))" "quiet opn mp k (snd (xe_offsets env fd k))"
    "quiet opn mp k (snd (xe_bind env fd b k))" "quiet opn mp k (snd (xe_nametoindex env c k))"
    "quiet opn mp k (snd (xe_channels env fd c k))" "quiet opn mp k (snd (xe_prog_info env fd d e k))"
    "quiet opn mp k (snd (xe_map_info env fd d k))" "quiet opn mp k (snd (xe_map_update env fd d fd' k))"
    "quiet opn mp k (snd (xe_map_delete env fd d k))" "quiet opn mp k (snd (ne_recv (xe_netlink env) k c))"
  using assms by (simp_all add: xsk_laws_def quiet_calls_def)

lemma setsockopts_quiet:
  assumes "xsk_laws env opn loaded mp" "xsk_setsockopts env fd opts p = (err, p')"
  shows "quiet opn mp (p_kern p) (p_kern p')"
  using assms(2)
proof (induction opts arbitrary: p)
  case (Cons x opts)
  obtain e p1 where c: "sys_call (xe_setsockopt env fd x) p = (e, p1)" by fastforce
  then have "quiet opn mp (p_kern p) (p_kern p1)" using quiet_callsI [OF assms(1)] by (simp add: sys_call_kern)
  then show ?case using Cons c by (auto simp: Let_def split: if_splits intro: quiet_trans)
qed simp

lemma offsets_quiet:
  assumes "xsk_laws env opn loaded mp" "xsk_get_mmap_offsets env fd p = (res, p')"
  shows "quiet opn mp (p_kern p) (p_kern p')"
proof -
  obtain e bs p1 where c: "sys_call_out (xe_offsets env fd) p = ((e, bs), p1)" by (metis prod.exhaust)
  then have "p' = p1" using assms(2) by (auto simp: xsk_get_mmap_offsets_def split: if_splits)
  then show ?thesis using quiet_callsI(2) [OF assms(1)] sys_call_out_kern [OF c] by simp
qed

text \<open>The functions over netlink change the state of the kernel only by its answer.\<close>

lemma recv_quiet: "xsk_laws env opn loaded mp \<Longrightarrow> ne_recv (xe_netlink env) k c = (x, k') \<Longrightarrow> quiet opn mp k k'"
  by (metis quiet_callsI(10) snd_conv)

lemma set_link_quiet:
  assumes "xsk_laws env opn loaded mp" "bpf_set_link_xdp_fd (xe_netlink env) ifindex fd flags k = Some (r, k')"
  shows "quiet opn mp k k'"
  using assms(2)
  by (auto simp: bpf_set_link_xdp_fd_def split: sum.splits Option.bind_splits if_splits prod.splits dest: recv_quiet [OF assms(1)])

lemma get_link_quiet:
  assumes "xsk_laws env opn loaded mp" "bpf_get_link_xdp_id (xe_netlink env) now ifindex flags k = Some (r, k')"
  shows "quiet opn mp k k'"
  using assms(2)
  by (auto simp: bpf_get_link_xdp_id_def bpf_get_link_xdp_info_def libbpf_nl_get_link_def nl_dump_def Let_def
      split: sum.splits Option.bind_splits if_splits prod.splits dest: recv_quiet [OF assms(1)])

section \<open>Loading and maps\<close>

text \<open>Whatever loading a program does not change in the kernel with one attempt, it does not change with its retries.\<close>

lemma sys_bpf_prog_load_keeps:
  assumes "sys_bpf_prog_load kn a log p = Some (fd, a', log', p')" "\<And>a k. f (snd (bk_prog_load kn a k)) = f k"
  shows "f (p_kern p') = f (p_kern p)"
proof -
  have "case res of (fd, a', log', p') \<Rightarrow> (\<forall>a k. f (snd (bk_prog_load kn a k)) = f k) \<longrightarrow> f (p_kern p') = f (p_kern p)"
    if "sys_bpf_prog_load kn a log p = Some res" for res
  proof (rule sys_bpf_prog_load.raw_induct [where P = "\<lambda>kn a log p res. case res of (fd, a', log', p') \<Rightarrow>
      (\<forall>a k. f (snd (bk_prog_load kn a k)) = f k) \<longrightarrow> f (p_kern p') = f (p_kern p)", OF _ that], goal_cases)
    case (1 rec kn a log p res)
    obtain ans k where ak: "bk_prog_load kn a (p_kern p) = (ans, k)" by fastforce
    obtain fd p1 where fp: "sys_ret (pa_ret ans) k p = (fd, p1)" by fastforce
    have keep: "f (p_kern p1) = f (p_kern p)" if "\<forall>a k. f (snd (bk_prog_load kn a k)) = f k"
      using that ak sys_ret_kern [of "pa_ret ans" k p] fp by (metis snd_conv)
    show ?case
    proof (cases "fd < 0 \<and> p_errno p1 = EAGAIN")
      case True
      then show ?thesis using 1 ak fp keep by (fastforce simp: Let_def)
    next
      case False
      then show ?thesis using 1(2) ak fp keep by (auto simp: Let_def)
    qed
  qed
  then show ?thesis using assms by fastforce
qed

lemma info_loop_keeps:
  assumes "info_loop kn malloc_ok la a finfo linfo log fd p = Some (fin, fd', a', log', p')" "\<And>a k. f (snd (bk_prog_load kn a k)) = f k"
  shows "f (p_kern p') = f (p_kern p)"
  using assms
proof (induction kn malloc_ok la a finfo linfo log fd p rule: info_loop.induct)
  case (1 kn malloc_ok la a finfo linfo log fd p)
  let ?more = "p_errno p = E2BIG \<and> (\<not> finfo \<or> \<not> linfo)" and ?c = "correct_info malloc_ok la a finfo linfo"
  show ?case
  proof (cases "?more \<and> (\<exists>r. ?c = Some (Inr (Some r)))")
    case False
    then show ?thesis using "1.prems"(1)
      by (auto simp: info_loop.simps [of kn malloc_ok la a finfo linfo] split: if_splits option.splits sum.splits)
  next
    case True
    then obtain a1 f1 l1 where more: ?more and c: "?c = Some (Inr (Some (a1, f1, l1)))" by (metis prod_cases3)
    obtain fd1 a2 log1 p1 where s: "sys_bpf_prog_load kn a1 log p = Some (fd1, a2, log1, p1)"
      using "1.prems"(1) more c by (auto simp: info_loop.simps [of kn malloc_ok la a finfo linfo] split: option.splits)
    have keep: "f (p_kern p1) = f (p_kern p)" by (rule sys_bpf_prog_load_keeps [OF s "1.prems"(2)])
    have "info_loop kn malloc_ok la a finfo linfo log fd p
        = (if fd1 \<ge> 0 then Some (True, fd1, a2, log1, p1) else info_loop kn malloc_ok la a2 f1 l1 log1 fd1 p1)"
      using more c s by (subst info_loop.simps) simp
    then show ?thesis
      using "1.IH" [OF more c refl refl refl refl s refl refl refl] "1.prems" keep by (auto split: if_splits)
  qed
qed

lemma bpf_load_program_keeps:
  assumes "bpf_load_program kn malloc_ok t insns lic ver has_buf log sz p = Some (fd, log', p')" "\<And>a k. f (snd (bk_prog_load kn a k)) = f k"
  shows "f (p_kern p') = f (p_kern p)"
  using assms(1) sys_bpf_prog_load_keeps [OF _ assms(2)] info_loop_keeps [OF _ assms(2)]
  by (auto simp: bpf_load_program_def bpf_load_program_xattr_def split: if_splits Option.bind_splits)

lemma load_holds:
  assumes "xsk_laws env opn loaded mp" "holds opn mp B C F M p"
    and "bpf_load_program (xe_kernel env) malloc_ok t insns lic ver has_buf log sz p = Some (fd, log', p')"
  shows "if fd < 0 then holds opn mp B C F M p' else fd \<notin> F \<and> fd \<notin> B \<and> holds opn mp B C (insert fd F) M p'"
proof -
  have kf: "kernel_fds (xe_kernel env) opn loaded" and m: "\<And>a k. mp (snd (bk_prog_load (xe_kernel env) a k)) = mp k"
    using assms(1) by (simp_all add: xsk_laws_def)
  have "prog_call opn loaded insns (p_kern p) fd (p_kern p')"
    using bpf_load_program_xattr_call [OF assms(3) [unfolded bpf_load_program_def] kernel_fds_allocs [OF kf]] by simp
  moreover have "mp (p_kern p') = mp (p_kern p)" by (rule bpf_load_program_keeps [OF assms(3) m])
  ultimately show ?thesis using assms(2) by (auto simp: prog_call_def same_fds_def holds_def)
qed

lemma create_map_holds:
  assumes "xsk_laws env opn loaded mp" "holds opn mp B C F M p"
    and "bpf_create_map_name (xe_kernel env) t name ks vs n flags p = (fd, p')"
  shows "if fd < 0 then holds opn mp B C F M p' else fd \<notin> F \<and> fd \<notin> B \<and> holds opn mp B C (insert fd F) M p'"
proof -
  have kf: "kernel_fds (xe_kernel env) opn loaded" and m: "\<And>a k. mp (snd (bk_map_create (xe_kernel env) a k)) = mp k"
    using assms(1) by (simp_all add: xsk_laws_def)
  have "fd_call opn loaded (p_kern p) fd (p_kern p')"
    using create_map_xattr_call [OF kernel_fds_allocs [OF kf] assms(3) [unfolded bpf_create_map_name_def]] .
  moreover have "mp (p_kern p') = mp (p_kern p)"
    using assms(3) m by (auto simp: bpf_create_map_name_def bpf_create_map_xattr_def sys_ret_def split: prod.splits if_splits) (metis snd_conv)+
  ultimately show ?thesis using assms(2) by (auto simp: fd_call_def same_fds_def holds_def)
qed

lemma socket_holds:
  assumes "xsk_laws env opn loaded mp" "sys_call (xe_socket env x y) p = (fd, p')" "holds opn mp B C F M p"
  shows "if fd < 0 then holds opn mp B C F M p' else fd \<notin> F \<and> fd \<notin> B \<and> holds opn mp B C (insert fd F) M p'"
  using assms(1) new_fd_holds [OF _ assms(2,3)] by (simp add: xsk_laws_def)

lemma sys_call_quiet:
  "sys_call f p = (r, p') \<Longrightarrow> (\<And>k. quiet opn mp k (snd (f k))) \<Longrightarrow> holds opn mp B C F M p \<Longrightarrow> holds opn mp B C F M p'"
  by (metis sys_call_kern quiet_holds)

lemma sys_call_out_quiet:
  "sys_call_out f p = (x, p') \<Longrightarrow> (\<And>k. quiet opn mp k (snd (f k))) \<Longrightarrow> holds opn mp B C F M p \<Longrightarrow> holds opn mp B C F M p'"
  by (metis sys_call_out_kern quiet_holds)

lemma max_queues_holds:
  assumes "xsk_laws env opn loaded mp" "xsk_get_max_queues env xsk p = (r, p')" "holds opn mp B C F M p"
  shows "holds opn mp B C F M p'"
proof -
  obtain fd p1 where c1: "sys_call (xe_socket env AF_INET SOCK_DGRAM) p = (fd, p1)" by fastforce
  note h1 = socket_holds [OF assms(1) c1 assms(3)]
  obtain e m p2 where c2: "sys_call_out (xe_channels env fd (take (IFNAMSIZ - 1) (xs_ifname xsk) @ [0])) p1 = ((e, m), p2)" by (metis prod.exhaust)
  show ?thesis
  proof (cases "fd < 0")
    case True
    then show ?thesis using h1 assms(2) c1 by (simp add: xsk_get_max_queues_def)
  next
    case False
    then have "holds opn mp B C (insert fd F) M p2" "fd \<notin> F"
      using h1 sys_call_out_quiet [OF c2 quiet_callsI(5) [OF assms(1)]] by auto
    from close_holds [OF assms(1) this] show ?thesis
      using False assms(2) c1 c2 by (auto simp: xsk_get_max_queues_def Let_def)
  qed
qed

text \<open>The outcome of a step that opens a descriptor for a field of the socket: nothing, or the descriptor in its field.\<close>

lemma create_maps_holds:
  assumes "xsk_laws env opn loaded mp" "xsk_create_bpf_maps env xsk p = (err, xsk', p')" "holds opn mp B C F M p"
  shows "if err \<noteq> 0 then holds opn mp B C F M p'
    else \<exists>fd\<ge>0. fd \<notin> F \<and> fd \<notin> B \<and> xsk' = xsk\<lparr>xs_xsks_map_fd := fd\<rparr> \<and> holds opn mp B C (insert fd F) M p'"
proof -
  obtain q p1 where c1: "xsk_get_max_queues env xsk p = (q, p1)" by fastforce
  note h1 = max_queues_holds [OF assms(1) c1 assms(3)]
  obtain fd p2 where c2: "bpf_create_map_name (xe_kernel env) BPF_MAP_TYPE_XSKMAP (Some ''xsks_map'') 4 4 (of_int q) 0 p1 = (fd, p2)" by fastforce
  show ?thesis
    using assms(2) c1 c2 h1 create_map_holds [OF assms(1) h1 c2]
    by (auto simp: xsk_create_bpf_maps_def split: if_splits intro!: exI [of _ fd])
qed

lemma load_prog_holds:
  assumes "xsk_laws env opn loaded mp" "xsk_load_xdp_prog env xsk p = Some (err, xsk', p')" "holds opn mp B C F M p"
  shows "if err \<noteq> 0 then xsk' = xsk \<and> holds opn mp B C F M p'
    else \<exists>fd\<ge>0. fd \<notin> F \<and> fd \<notin> B \<and> xsk' = xsk\<lparr>xs_prog_fd := fd\<rparr> \<and> holds opn mp B C (insert fd F) M p'"
proof -
  obtain fd log p1 where c1: "bpf_load_program (xe_kernel env) (ok_malloc (xe_kernel env)) BPF_PROG_TYPE_XDP (xsk_prog (xs_xsks_map_fd xsk))
      ''LGPL-2.1 or BSD-2-Clause'' 0 True None (16 * 1024) p = Some (fd, log, p1)"
    using assms(2) by (auto simp: xsk_load_xdp_prog_def split: Option.bind_splits)
  note h1 = load_holds [OF assms(1,3) c1]
  show ?thesis
  proof (cases "fd < 0")
    case True
    then show ?thesis using h1 assms(2) c1 by (simp add: xsk_load_xdp_prog_def)
  next
    case False
    then obtain r k e where c2: "bpf_set_link_xdp_fd (xe_netlink env) (xs_ifindex xsk) fd (sc_xdp_flags (xs_config xsk)) (p_kern p1) = Some (r, k)"
      and r: "r = Ret e ()" using assms(2) c1 by (auto simp: xsk_load_xdp_prog_def Let_def split: Option.bind_splits recv_result.splits)
    let ?p2 = "p1\<lparr>p_kern := k, p_errno := xe_nl_errno env k\<rparr>"
    have h2: "holds opn mp B C (insert fd F) M ?p2" "fd \<notin> F"
      using False h1 set_link_quiet [OF assms(1) c2] by (auto simp: holds_def quiet_def)
    show ?thesis
      using False h1 h2 close_holds [OF assms(1) h2] assms(2) c1 c2 r by (auto simp: xsk_load_xdp_prog_def Let_def split: if_splits intro!: exI [of _ fd])
  qed
qed

lemma delete_maps_holds:
  assumes "xsk_laws env opn loaded mp" "holds opn mp B C (insert (xs_xsks_map_fd xsk) F) M p" "xs_xsks_map_fd xsk \<notin> F"
  shows "holds opn mp B C F M (xsk_delete_bpf_maps env xsk p)"
proof -
  obtain e p1 where c: "sys_call (xe_map_delete env (xs_xsks_map_fd xsk) (xs_queue_id xsk)) p = (e, p1)" by fastforce
  have "holds opn mp B C (insert (xs_xsks_map_fd xsk) F) M p1" by (rule sys_call_quiet [OF c quiet_callsI(9) [OF assms(1)] assms(2)])
  then show ?thesis using c assms(3) close_holds [OF assms(1)] by (simp add: xsk_delete_bpf_maps_def)
qed

text \<open>A socket with a program and a map.\<close>

definition with_prog ::
    "('k \<Rightarrow> int set) \<Rightarrow> ('k \<Rightarrow> (u64 \<times> u64) set) \<Rightarrow> int set \<Rightarrow> (u64 \<times> u64) set \<Rightarrow> int set \<Rightarrow> (u64 \<times> u64) set \<Rightarrow> xsk_socket \<Rightarrow> xsk_socket \<Rightarrow> 'k process \<Rightarrow> bool" where
  "with_prog opn mp B C F M xsk xsk' p \<longleftrightarrow>
     (\<exists>m\<ge>0. \<exists>f\<ge>0. m \<noteq> f \<and> m \<notin> F \<and> f \<notin> F \<and> xsk' = xsk\<lparr>xs_xsks_map_fd := m, xs_prog_fd := f\<rparr> \<and>
        holds opn mp B C (insert m (insert f F)) M p)"

lemma with_progI:
  "0 \<le> m \<Longrightarrow> 0 \<le> f \<Longrightarrow> m \<noteq> f \<Longrightarrow> m \<notin> F \<Longrightarrow> f \<notin> F \<Longrightarrow> xsk' = xsk\<lparr>xs_xsks_map_fd := m, xs_prog_fd := f\<rparr> \<Longrightarrow>
    holds opn mp B C (insert m (insert f F)) M p \<Longrightarrow> with_prog opn mp B C F M xsk xsk' p"
  by (auto simp: with_prog_def)

lemma new_prog_holds:
  assumes "xsk_laws env opn loaded mp" "xsk_new_xdp_prog env xsk p = Some (err, xsk', p')" "holds opn mp B C F M p"
  shows "if err \<noteq> 0 then holds opn mp B C F M p' else with_prog opn mp B C F M xsk xsk' p'"
proof -
  obtain e1 x1 p1 where c1: "xsk_create_bpf_maps env xsk p = (e1, x1, p1)" by (metis prod_cases3)
  note h1 = create_maps_holds [OF assms(1) c1 assms(3)]
  show ?thesis
  proof (cases "e1 = 0")
    case False
    then show ?thesis using h1 assms(2) c1 by (auto simp: xsk_new_xdp_prog_def)
  next
    case True
    then obtain m where m: "0 \<le> m" "m \<notin> F" "x1 = xsk\<lparr>xs_xsks_map_fd := m\<rparr>" "holds opn mp B C (insert m F) M p1" using h1 by auto
    obtain e2 x2 p2 where c2: "xsk_load_xdp_prog env x1 p1 = Some (e2, x2, p2)"
      using True assms(2) c1 by (auto simp: xsk_new_xdp_prog_def split: Option.bind_splits)
    note h2 = load_prog_holds [OF assms(1) c2 m(4)]
    show ?thesis
    proof (cases "e2 = 0")
      case fail: False
      then have "holds opn mp B C F M (xsk_delete_bpf_maps env x2 p2)" using h2 m delete_maps_holds [OF assms(1)] by auto
      then show ?thesis using True fail assms(2) c1 c2 by (auto simp: xsk_new_xdp_prog_def)
    next
      case ok: True
      then obtain f where f: "0 \<le> f" "f \<notin> insert m F" "x2 = x1\<lparr>xs_prog_fd := f\<rparr>" "holds opn mp B C (insert f (insert m F)) M p2" using h2 by auto
      have "with_prog opn mp B C F M xsk x2 p2" using m f by (intro with_progI [of m f]) (auto simp: insert_commute)
      then show ?thesis using True ok assms(2) c1 c2 by (auto simp: xsk_new_xdp_prog_def)
    qed
  qed
qed

section \<open>Finding the map of a program\<close>

text \<open>The name of a map goes with its identifier: \<open>xsks\<close> are the identifiers of the maps called \<^verbatim>\<open>xsks_map\<close>. 0 identifies no map, and no
  program uses two maps of that name.\<close>

definition map_names :: "'k xsk_env \<Rightarrow> (u32 \<Rightarrow> bool) \<Rightarrow> bool" where
  "map_names env xsks \<longleftrightarrow>
     (\<forall>i len k fd k1 l name k2. xe_map_fd_by_id env i k = (fd, k1) \<longrightarrow> 0 \<le> fd \<longrightarrow> xe_map_info env fd len k1 = ((0, l, name), k2) \<longrightarrow>
        (is_xsks_map name \<longleftrightarrow> xsks i)) \<and>
     \<not> xsks 0 \<and>
     (\<forall>fd len room k r l n ids k'. xe_prog_info env fd len room k = ((r, l, n, ids), k') \<longrightarrow> length (filter xsks ids) \<le> 1)"

definition fd_set :: "int \<Rightarrow> int set" where
  "fd_set fd = (if fd = - 1 then {} else {fd})"

lemma lookup_loop_holds:
  assumes "xsk_laws env opn loaded mp" "map_names env xsks"
    and "lookup_maps_loop env ids i n len cur p = Some (fd, p')"
    and "holds opn mp B C (fd_set cur \<union> F) M p" "cur = - 1 \<or> 0 \<le> cur \<and> cur \<notin> F"
    and "length (filter xsks (take n (drop i ids))) + (if cur = - 1 then 0 else 1) \<le> 1"
  shows "holds opn mp B C (fd_set fd \<union> F) M p' \<and> (fd = - 1 \<or> 0 \<le> fd \<and> fd \<notin> F)"
  using assms(3-)
proof (induction n arbitrary: i len cur p)
  case (Suc n)
  obtain mid where mid: "arr_get ids i = Some mid" using Suc.prems(1) by (auto split: Option.bind_splits)
  then have tk: "take (Suc n) (drop i ids) = mid # take n (drop (i + 1) ids)"
    by (auto simp: arr_get_def Cons_nth_drop_Suc [symmetric] split: if_splits)
  obtain f p1 where c1: "sys_call (xe_map_fd_by_id env mid) p = (f, p1)" by fastforce
  have "\<And>k. new_fd opn mp k (xe_map_fd_by_id env mid k)" using assms(1) by (simp add: xsk_laws_def)
  note h1 = new_fd_holds [OF this c1 Suc.prems(2)]
  have cnt: "length (filter xsks (take n (drop (i + 1) ids))) + (if cur = - 1 then 0 else 1) \<le> 1"
    using Suc.prems(4) tk by (simp split: if_splits)
  note IH = Suc.IH [OF _ _ Suc.prems(3) cnt]
  show ?case
  proof (cases "f < 0")
    case True
    then show ?thesis using IH Suc.prems(1) mid c1 h1 by simp
  next
    case False
    then have f: "f \<notin> fd_set cur \<union> F" "holds opn mp B C (insert f (fd_set cur \<union> F)) M p1" using h1 by auto
    obtain e l name p2 where c2: "sys_call_out (xe_map_info env f len) p1 = ((e, l, name), p2)" by (metis prod.exhaust)
    have h2: "holds opn mp B C (insert f (fd_set cur \<union> F)) M p2" by (rule sys_call_out_quiet [OF c2 quiet_callsI(7) [OF assms(1)] f(2)])
    have h3: "holds opn mp B C (fd_set cur \<union> F) M (xsk_close env f p2)" by (rule close_holds [OF assms(1) h2 f(1)])
    show ?thesis
    proof (cases "e = 0 \<and> is_xsks_map name")
      case False
      then show ?thesis using IH [OF _ h3] Suc.prems(1) mid c1 c2 \<open>\<not> f < 0\<close> by (auto split: if_splits)
    next
      case True
      obtain k1 where k1: "xe_map_fd_by_id env mid (p_kern p) = (f, k1)" "p_kern p1 = k1"
        using c1 \<open>\<not> f < 0\<close> by (auto simp: sys_call_def sys_ret_def split: prod.splits if_splits)
      obtain k2 where "xe_map_info env f len k1 = ((0, l, name), k2)"
        using c2 True k1(2) by (auto simp: sys_call_out_def sys_ret_def split: prod.splits if_splits)
      then have "xsks mid" using assms(2) k1(1) True \<open>\<not> f < 0\<close> unfolding map_names_def by (metis not_le)
      then have cur: "cur = - 1" "length (filter xsks (take n (drop (i + 1) ids))) = 0" using Suc.prems(4) tk by (simp_all split: if_splits)
      then have "holds opn mp B C (fd_set f \<union> F) M p2" "f = - 1 \<or> 0 \<le> f \<and> f \<notin> F"
        using h2 f(1) \<open>\<not> f < 0\<close> by (auto simp: fd_set_def)
      from Suc.IH [OF _ this] show ?thesis using cur(2) Suc.prems(1) mid c1 c2 True \<open>\<not> f < 0\<close> by simp
    qed
  qed
qed (use assms in auto)

lemma lookup_maps_holds:
  assumes "xsk_laws env opn loaded mp" "map_names env xsks"
    and "xsk_lookup_bpf_maps env xsk p = Some (err, xsk', p')" "holds opn mp B C F M p"
  shows "if err \<noteq> 0 then xs_prog_fd xsk' = xs_prog_fd xsk \<and> holds opn mp B C F M p'
    else \<exists>fd\<ge>0. fd \<notin> F \<and> xsk' = xsk\<lparr>xs_xsks_map_fd := fd\<rparr> \<and> holds opn mp B C (insert fd F) M p'"
proof -
  obtain e1 l1 n1 i1 p1 where c1: "sys_call_out (xe_prog_info env (xs_prog_fd xsk) 208 0) p = ((e1, l1, n1, i1), p1)" by (metis prod.exhaust)
  obtain e2 l2 n2 ids p2 where c2: "sys_call_out (xe_prog_info env (xs_prog_fd xsk) l1 n1) p1 = ((e2, l2, n2, ids), p2)" by (metis prod.exhaust)
  have h1: "holds opn mp B C F M p1" by (rule sys_call_out_quiet [OF c1 quiet_callsI(6) [OF assms(1)] assms(4)])
  have h2: "holds opn mp B C F M p2" by (rule sys_call_out_quiet [OF c2 quiet_callsI(6) [OF assms(1)] h1])
  let ?early = "e1 \<noteq> 0 \<or> \<not> ok_malloc (xe_kernel env) (unat n1 * 4) \<or> e2 \<noteq> 0"
  show ?thesis
  proof (cases ?early)
    case True
    then show ?thesis using assms(3) c1 c2 h1 h2 by (auto simp: xsk_lookup_bpf_maps_def ENOMEM_def split: if_splits)
  next
    case False
    obtain r k where "xe_prog_info env (xs_prog_fd xsk) l1 n1 (p_kern p1) = ((r, l2, n2, ids), k)"
      using c2 by (auto simp: sys_call_out_def sys_ret_def split: prod.splits if_splits)
    then have cnt: "length (filter xsks ids) \<le> 1" "\<not> xsks 0" using assms(2) unfolding map_names_def by metis+
    let ?ids = "ids @ replicate (unat n1 - length ids) 0"
    obtain fd p3 where c3: "lookup_maps_loop env ?ids 0 (unat n2) 80 (- 1) p2 = Some (fd, p3)"
      and out: "err = (if fd = - 1 then - ENOENT else 0)" "xsk' = xsk\<lparr>xs_xsks_map_fd := fd\<rparr>" "p' = p3"
      using False assms(3) c1 c2 by (auto simp: xsk_lookup_bpf_maps_def split: if_splits Option.bind_splits)
    have le: "length (filter xsks (take n xs)) \<le> length (filter xsks xs)" for n xs
      by (metis append_take_drop_id filter_append le_add1 length_append)
    have "length (filter xsks ?ids) \<le> 1" using cnt by simp
    then have "length (filter xsks (take (unat n2) (drop 0 ?ids))) + (if (- 1 :: int) = - 1 then 0 else 1) \<le> 1"
      using le [of "unat n2" ?ids] by (simp del: filter_append take_append)
    from lookup_loop_holds [OF assms(1,2) c3 _ _ this] h2
    have "holds opn mp B C (fd_set fd \<union> F) M p3 \<and> (fd = - 1 \<or> 0 \<le> fd \<and> fd \<notin> F)" by (simp add: fd_set_def)
    then show ?thesis using out by (auto simp: fd_set_def ENOENT_def)
  qed
qed

lemma sys_call_errno: "sys_call f p = (r, p') \<Longrightarrow> r < 0 \<Longrightarrow> p_errno p' > 0"
  by (auto simp: sys_call_def sys_ret_def split: prod.splits if_splits)

lemma old_prog_holds:
  assumes "xsk_laws env opn loaded mp" "map_names env xsks"
    and "xsk_old_xdp_prog env i xsk p = Some (err, xsk', p')" "holds opn mp B C F M p"
  shows "if err \<noteq> 0 then holds opn mp B C F M p' else with_prog opn mp B C F M xsk xsk' p'"
proof -
  obtain f p1 where c1: "sys_call (xe_prog_fd_by_id env i) p = (f, p1)" by fastforce
  have "\<And>k. new_fd opn mp k (xe_prog_fd_by_id env i k)" using assms(1) by (simp add: xsk_laws_def)
  note h1 = new_fd_holds [OF this c1 assms(4)]
  show ?thesis
  proof (cases "f < 0")
    case True
    then show ?thesis using h1 assms(3) c1 sys_call_errno [OF c1] by (auto simp: xsk_old_xdp_prog_def Let_def)
  next
    case False
    then obtain e x2 p2 where c2: "xsk_lookup_bpf_maps env (xsk\<lparr>xs_prog_fd := f\<rparr>) p1 = Some (e, x2, p2)"
      using assms(3) c1 by (auto simp: xsk_old_xdp_prog_def Let_def split: Option.bind_splits)
    have f: "f \<notin> F" "holds opn mp B C (insert f F) M p1" using h1 False by auto
    note h2 = lookup_maps_holds [OF assms(1,2) c2 f(2)]
    show ?thesis
    proof (cases "e = 0")
      case fail: False
      then have "holds opn mp B C F M (xsk_close env (xs_prog_fd x2) p2)" using h2 close_holds [OF assms(1) _ f(1)] by simp
      then show ?thesis using False fail assms(3) c1 c2 by (auto simp: xsk_old_xdp_prog_def Let_def)
    next
      case ok: True
      then obtain m where m: "0 \<le> m" "m \<notin> insert f F" "x2 = xsk\<lparr>xs_prog_fd := f, xs_xsks_map_fd := m\<rparr>" "holds opn mp B C (insert m (insert f F)) M p2"
        using h2 by auto
      have "with_prog opn mp B C F M xsk x2 p2" using m f False by (intro with_progI [of m f]) auto
      then show ?thesis using False ok assms(3) c1 c2 by (auto simp: xsk_old_xdp_prog_def Let_def)
    qed
  qed
qed

lemma setup_holds:
  assumes "xsk_laws env opn loaded mp" "map_names env xsks"
    and "xsk_setup_xdp_prog env xsk p = Some (err, xsk', p')" "holds opn mp B C F M p"
  shows "if err \<noteq> 0 then holds opn mp B C F M p' else with_prog opn mp B C F M xsk xsk' p'"
proof -
  obtain e1 info k where c1: "bpf_get_link_xdp_id (xe_netlink env) (xe_now env) (xs_ifindex xsk) (sc_xdp_flags (xs_config xsk)) (p_kern p) = Some (Ret e1 info, k)"
    using assms(3) by (auto simp: xsk_setup_xdp_prog_def Let_def split: Option.bind_splits recv_result.splits)
  let ?p1 = "p\<lparr>p_kern := k, p_errno := xe_nl_errno env k\<rparr>" and ?id = "case info of None \<Rightarrow> 0 | Some i \<Rightarrow> i"
  have h1: "holds opn mp B C F M ?p1" using assms(4) get_link_quiet [OF assms(1) c1] by (simp add: holds_def quiet_def)
  show ?thesis
  proof (cases "e1 = 0")
    case False
    then show ?thesis using h1 assms(3) c1 by (auto simp: xsk_setup_xdp_prog_def Let_def)
  next
    case True
    then obtain e2 x2 p2 where c2: "(if ?id = 0 then xsk_new_xdp_prog env xsk ?p1 else xsk_old_xdp_prog env ?id xsk ?p1) = Some (e2, x2, p2)"
      using assms(3) c1 by (auto simp: xsk_setup_xdp_prog_def Let_def split: Option.bind_splits)
    have h2: "if e2 \<noteq> 0 then holds opn mp B C F M p2 else with_prog opn mp B C F M xsk x2 p2"
      using c2 new_prog_holds [OF assms(1) _ h1] old_prog_holds [OF assms(1,2) _ h1] by (metis (full_types))
    show ?thesis
    proof (cases "e2 = 0")
      case False
      then show ?thesis using True h2 assms(3) c1 c2 by (auto simp: xsk_setup_xdp_prog_def Let_def)
    next
      case ok: True
      then obtain m f where mf: "0 \<le> m" "0 \<le> f" "m \<noteq> f" "m \<notin> F" "f \<notin> F" "x2 = xsk\<lparr>xs_xsks_map_fd := m, xs_prog_fd := f\<rparr>"
        "holds opn mp B C (insert m (insert f F)) M p2" using h2 by (auto simp: with_prog_def)
      obtain e3 p3 where c3: "(if xs_rx x2 \<noteq> None then xsk_set_bpf_maps env x2 p2 else (0, p2)) = (e3, p3)" by fastforce
      then have h3: "holds opn mp B C (insert m (insert f F)) M p3"
        using mf(7) sys_call_quiet [OF _ quiet_callsI(8) [OF assms(1)] mf(7)] by (auto simp: xsk_set_bpf_maps_def split: if_splits)
      have "holds opn mp B C (insert f F) M (xsk_delete_bpf_maps env x2 p3)" using mf h3 by (intro delete_maps_holds [OF assms(1)]) auto
      then have "holds opn mp B C F M (xsk_close env (xs_prog_fd x2) (xsk_delete_bpf_maps env x2 p3))"
        using mf close_holds [OF assms(1)] by simp
      moreover have "with_prog opn mp B C F M xsk x2 p3" using mf h3 by (intro with_progI [of m f]) auto
      ultimately show ?thesis using True ok assms(3) c1 c2 c3 by (auto simp: xsk_setup_xdp_prog_def Let_def split: if_splits)
    qed
  qed
qed

section \<open>Sockets\<close>

text \<open>What a socket holds: the descriptors of its program and map, its own descriptor unless it is that of the area, and the
  mappings of its rings.\<close>

definition xsk_prog_fds :: "xsk_socket \<Rightarrow> int set" where
  "xsk_prog_fds x = (if xs_prog_fd x = - 1 then {} else {xs_xsks_map_fd x, xs_prog_fd x})"

definition sock_fd :: "xsk_umem \<Rightarrow> xsk_socket \<Rightarrow> int set" where
  "sock_fd um x = (if xs_fd x = um_fd um then {} else {xs_fd x})"

definition ring_maps :: "nat option \<Rightarrow> u64 \<Rightarrow> u64 \<Rightarrow> (u64 \<times> u64) set" where
  "ring_maps r m len = (if r = None then {} else {(m, len)})"

definition rx_len :: "xdp_mmap_offsets \<Rightarrow> xsk_socket \<Rightarrow> u64" where
  "rx_len off x = ring_bytes (mo_rx off) (sc_rx_size (xs_config x)) 16"

definition tx_len :: "xdp_mmap_offsets \<Rightarrow> xsk_socket \<Rightarrow> u64" where
  "tx_len off x = ring_bytes (mo_tx off) (sc_tx_size (xs_config x)) 16"

definition live ::
    "('k \<Rightarrow> int set) \<Rightarrow> ('k \<Rightarrow> (u64 \<times> u64) set) \<Rightarrow> int set \<Rightarrow> (u64 \<times> u64) set \<Rightarrow> int set \<Rightarrow> (u64 \<times> u64) set \<Rightarrow> xdp_mmap_offsets \<Rightarrow>
      xsk_umem \<Rightarrow> xsk_socket \<Rightarrow> rings \<Rightarrow> 'k process \<Rightarrow> bool" where
  "live opn mp B C F M off um x rs p \<longleftrightarrow> (\<exists>rxm txm.
     holds opn mp B C (xsk_prog_fds x \<union> (sock_fd um x \<union> F))
       (ring_maps (xs_tx x) txm (tx_len off x) \<union> (ring_maps (xs_rx x) rxm (rx_len off x) \<union> M)) p \<and>
     (xs_prog_fd x = - 1 \<or> xs_prog_fd x \<noteq> xs_xsks_map_fd x) \<and>
     xsk_prog_fds x \<inter> (sock_fd um x \<union> F) = {} \<and> sock_fd um x \<inter> F = {} \<and>
     ring_maps (xs_tx x) txm (tx_len off x) \<inter> (ring_maps (xs_rx x) rxm (rx_len off x) \<union> M) = {} \<and> ring_maps (xs_rx x) rxm (rx_len off x) \<inter> M = {} \<and>
     (\<forall>r. xs_rx x = Some r \<longrightarrow> rxm \<noteq> MAP_FAILED \<and> ur_ring (rs r) = rxm + ro_desc (mo_rx off)) \<and>
     (\<forall>t. xs_tx x = Some t \<longrightarrow> txm \<noteq> MAP_FAILED \<and> ur_ring (rs t) = txm + ro_desc (mo_tx off)))"

text \<open>The two outcomes of creating a socket: nothing is held and the reference is given back, or a socket is there.\<close>

definition failed ::
    "('k \<Rightarrow> int set) \<Rightarrow> ('k \<Rightarrow> (u64 \<times> u64) set) \<Rightarrow> int set \<Rightarrow> (u64 \<times> u64) set \<Rightarrow> int set \<Rightarrow> (u64 \<times> u64) set \<Rightarrow> xsk_umem \<Rightarrow> 'k create_result \<Rightarrow> bool" where
  "failed opn mp B C F M um res \<longleftrightarrow>
     (\<exists>err rs p. res = (err, None, Some (um\<lparr>um_refcount := um_refcount um - 1\<rparr>), rs, p) \<and> holds opn mp B C F M p)"

definition succeeded ::
    "('k \<Rightarrow> int set) \<Rightarrow> ('k \<Rightarrow> (u64 \<times> u64) set) \<Rightarrow> int set \<Rightarrow> (u64 \<times> u64) set \<Rightarrow> int set \<Rightarrow> (u64 \<times> u64) set \<Rightarrow> xdp_mmap_offsets \<Rightarrow>
      int \<Rightarrow> nat option \<Rightarrow> nat option \<Rightarrow> xsk_umem \<Rightarrow> rings \<Rightarrow> 'k create_result \<Rightarrow> bool" where
  "succeeded opn mp B C F M off fd rx tx um rs res \<longleftrightarrow>
     (\<exists>x rs' p. res = (0, Some x, Some um, rs', p) \<and> xs_fd x = fd \<and>
        (\<forall>a. Some a \<noteq> rx \<longrightarrow> Some a \<noteq> tx \<longrightarrow> rs' a = rs a) \<and>
        (rx \<noteq> tx \<longrightarrow> live opn mp B C F M off um x rs' p))"

text \<open>The first socket of an area has the descriptor of the area, and only that.\<close>

definition fd_ok :: "xsk_umem \<Rightarrow> xsk_socket \<Rightarrow> int set \<Rightarrow> bool" where
  "fd_ok um x F \<longleftrightarrow> (um_refcount um = 1 \<longleftrightarrow> xs_fd x = um_fd um) \<and> sock_fd um x \<inter> F = {}"

lemma out_socket_holds:
  assumes "xsk_laws env opn loaded mp" "holds opn mp B C (sock_fd um x \<union> F) M p" "fd_ok um x F"
  shows "failed opn mp B C F M um (out_socket env err x um rs p)"
  using assms(2,3) close_holds [OF assms(1), of B C "xs_fd x" F M p]
  by (auto simp: failed_def out_socket_def fd_ok_def sock_fd_def Let_def split: if_splits)

lemma unmap_ring_holds:
  assumes "xsk_laws env opn loaded mp" "holds opn mp B C F (ring_maps r m len \<union> M) p" "ring_maps r m len \<inter> M = {}"
    and "r = None \<or> m \<noteq> MAP_FAILED"
  shows "holds opn mp B C F M (if r \<noteq> None then xsk_munmap env m len p else p)"
  using assms(2-) munmap_holds [OF assms(1), of B C F m len M p] by (auto simp: ring_maps_def)

lemma out_mmap_rx_holds:
  assumes "xsk_laws env opn loaded mp" "holds opn mp B C (sock_fd um x \<union> F) (ring_maps rx rxm (rx_len off x) \<union> M) p" "fd_ok um x F"
    and "ring_maps rx rxm (rx_len off x) \<inter> M = {}" "rx = None \<or> rxm \<noteq> MAP_FAILED"
  shows "failed opn mp B C F M um (out_mmap_rx env err off rx rxm x um rs p)"
  unfolding out_mmap_rx_def rx_len_def [symmetric]
  by (rule out_socket_holds [OF assms(1) unmap_ring_holds [OF assms(1,2,4,5)] assms(3)])

lemma out_mmap_tx_holds:
  assumes "xsk_laws env opn loaded mp"
    and "holds opn mp B C (sock_fd um x \<union> F) (ring_maps tx txm (tx_len off x) \<union> (ring_maps rx rxm (rx_len off x) \<union> M)) p" "fd_ok um x F"
    and "ring_maps tx txm (tx_len off x) \<inter> (ring_maps rx rxm (rx_len off x) \<union> M) = {}" "tx = None \<or> txm \<noteq> MAP_FAILED"
    and "ring_maps rx rxm (rx_len off x) \<inter> M = {}" "rx = None \<or> rxm \<noteq> MAP_FAILED"
  shows "failed opn mp B C F M um (out_mmap_tx env err off rx tx rxm txm x um rs p)"
  unfolding out_mmap_tx_def tx_len_def [symmetric]
  by (rule out_mmap_rx_holds [OF assms(1) unmap_ring_holds [OF assms(1,2,4,5)] assms(3,6,7)])

text \<open>A failed set-up leaves the other fields of the socket alone.\<close>

lemma setup_keeps:
  assumes "xsk_setup_xdp_prog env xsk p = Some (err, xsk', p')"
  shows "xs_fd xsk' = xs_fd xsk \<and> xs_config xsk' = xs_config xsk"
proof -
  have lookup: "xs_fd x' = xs_fd x \<and> xs_config x' = xs_config x" if "xsk_lookup_bpf_maps env x q = Some (e, x', q')" for x q e x' q'
    using that by (auto simp: xsk_lookup_bpf_maps_def split: prod.splits if_splits Option.bind_splits)
  have ld: "xs_fd x' = xs_fd x \<and> xs_config x' = xs_config x" if "xsk_load_xdp_prog env x q = Some (e, x', q')" for x q e x' q'
    using that by (auto simp: xsk_load_xdp_prog_def Let_def split: if_splits Option.bind_splits recv_result.splits)
  have cr: "xs_fd x' = xs_fd x \<and> xs_config x' = xs_config x" if "xsk_create_bpf_maps env x q = (e, x', q')" for x q e x' q'
    using that by (auto simp: xsk_create_bpf_maps_def split: if_splits prod.splits)
  have new: "xs_fd x' = xs_fd x \<and> xs_config x' = xs_config x" if "xsk_new_xdp_prog env x q = Some (e, x', q')" for x q e x' q'
    using that by (auto simp: xsk_new_xdp_prog_def Let_def split: if_splits Option.bind_splits prod.splits dest!: ld cr)
  have old: "xs_fd x' = xs_fd x \<and> xs_config x' = xs_config x" if "xsk_old_xdp_prog env i x q = Some (e, x', q')" for i x q e x' q'
    using that by (auto simp: xsk_old_xdp_prog_def Let_def split: if_splits Option.bind_splits prod.splits dest!: lookup)
  show ?thesis
    using assms by (auto simp: xsk_setup_xdp_prog_def Let_def split: if_splits Option.bind_splits prod.splits recv_result.splits dest!: new old)
qed

lemma socket_bind_holds:
  assumes "xsk_laws env opn loaded mp" "map_names env xsks"
    and "socket_bind env off rx tx rxm txm x um rs p = Some res" "xs_rx x = rx" "xs_tx x = tx"
    and "holds opn mp B C (sock_fd um x \<union> F) (ring_maps tx txm (tx_len off x) \<union> (ring_maps rx rxm (rx_len off x) \<union> M)) p" "fd_ok um x F"
    and "ring_maps tx txm (tx_len off x) \<inter> (ring_maps rx rxm (rx_len off x) \<union> M) = {}"
    and "ring_maps rx rxm (rx_len off x) \<inter> M = {}"
    and rings: "\<And>r. rx = Some r \<Longrightarrow> rxm \<noteq> MAP_FAILED \<and> (rx \<noteq> tx \<longrightarrow> ur_ring (rs r) = rxm + ro_desc (mo_rx off))"
      "\<And>t. tx = Some t \<Longrightarrow> txm \<noteq> MAP_FAILED \<and> ur_ring (rs t) = txm + ro_desc (mo_tx off)"
  shows "failed opn mp B C F M um res \<or> succeeded opn mp B C F M off (xs_fd x) rx tx um rs res"
proof -
  obtain sxdp e1 p1 where c1: "sys_call (xe_bind env (xs_fd x) sxdp) p = (e1, p1)"
    and res: "(if e1 \<noteq> 0 then Some (out_mmap_tx env (- p_errno p1) off rx tx rxm txm x um rs p1)
         else do {
           let xsk = x\<lparr>xs_prog_fd := - 1\<rparr>;
           (err, xsk, p) \<leftarrow> (if sc_libbpf_flags (xs_config xsk) AND XSK_LIBBPF_FLAGS__INHIBIT_PROG_LOAD = 0
                             then xsk_setup_xdp_prog env xsk p1 else Some (0, xsk, p1));
           Some (if err \<noteq> 0 then out_mmap_tx env err off rx tx rxm txm xsk um rs p else (0, Some xsk, Some um, rs, p))
         }) = Some res"
    using assms(3) by (auto simp: socket_bind_def Let_def split: prod.splits)
  let ?N = "ring_maps tx txm (tx_len off x) \<union> (ring_maps rx rxm (rx_len off x) \<union> M)" and ?x = "x\<lparr>xs_prog_fd := - 1\<rparr>"
  have h1: "holds opn mp B C (sock_fd um x \<union> F) ?N p1" by (rule sys_call_quiet [OF c1 quiet_callsI(3) [OF assms(1)] assms(6)])
  have nf: "rx = None \<or> rxm \<noteq> MAP_FAILED" "tx = None \<or> txm \<noteq> MAP_FAILED" using rings by (cases rx; cases tx; auto)+
  note out = out_mmap_tx_holds [OF assms(1) _ _ _ nf(2) _ nf(1)]
  show ?thesis
  proof (cases "e1 = 0")
    case False
    then show ?thesis using res out [OF h1 assms(7-9)] by auto
  next
    case True
    then obtain e2 x2 p2 where c2: "(if sc_libbpf_flags (xs_config ?x) AND XSK_LIBBPF_FLAGS__INHIBIT_PROG_LOAD = 0
        then xsk_setup_xdp_prog env ?x p1 else Some (0, ?x, p1)) = Some (e2, x2, p2)"
      and r: "res = (if e2 \<noteq> 0 then out_mmap_tx env e2 off rx tx rxm txm x2 um rs p2 else (0, Some x2, Some um, rs, p2))"
      using res by (auto simp: Let_def split: Option.bind_splits)
    have h2: "if e2 \<noteq> 0 then holds opn mp B C (sock_fd um x \<union> F) ?N p2
        else x2 = ?x \<and> holds opn mp B C (sock_fd um x \<union> F) ?N p2 \<or> with_prog opn mp B C (sock_fd um x \<union> F) ?N ?x x2 p2"
      using c2 h1 setup_holds [OF assms(1,2) _ h1] by (auto split: if_splits)
    show ?thesis
    proof (cases "e2 = 0")
      case fail: False
      then have x2: "xs_fd x2 = xs_fd x" "xs_config x2 = xs_config x" using c2 setup_keeps [of env ?x p1] by (auto split: if_splits)
      have "failed opn mp B C F M um (out_mmap_tx env e2 off rx tx rxm txm x2 um rs p2)"
        using h2 fail assms(7-9) x2 by (intro out) (auto simp: sock_fd_def rx_len_def tx_len_def fd_ok_def)
      then show ?thesis using r fail by simp
    next
      case ok: True
      then have x3: "xs_fd x2 = xs_fd x" "xs_rx x2 = rx" "xs_tx x2 = tx" "xs_config x2 = xs_config x"
        and hx: "holds opn mp B C (xsk_prog_fds x2 \<union> (sock_fd um x2 \<union> F)) ?N p2" "xs_prog_fd x2 = - 1 \<or> xs_prog_fd x2 \<noteq> xs_xsks_map_fd x2"
          "xsk_prog_fds x2 \<inter> (sock_fd um x2 \<union> F) = {}"
        using h2 assms(4,5) by (auto simp: with_prog_def xsk_prog_fds_def sock_fd_def insert_commute)
      have eq: "sock_fd um x2 = sock_fd um x" "rx_len off x2 = rx_len off x" "tx_len off x2 = tx_len off x"
        using x3 by (simp_all add: rx_len_def tx_len_def sock_fd_def)
      have "live opn mp B C F M off um x2 rs p2" if ne: "rx \<noteq> tx"
      proof -
        have "\<forall>r. rx = Some r \<longrightarrow> rxm \<noteq> MAP_FAILED \<and> ur_ring (rs r) = rxm + ro_desc (mo_rx off)"
          "\<forall>t. tx = Some t \<longrightarrow> txm \<noteq> MAP_FAILED \<and> ur_ring (rs t) = txm + ro_desc (mo_tx off)" using rings ne by blast+
        then show ?thesis
          unfolding live_def eq x3 using hx [unfolded eq] assms(7-9) unfolding fd_ok_def by blast
      qed
      then show ?thesis using r ok x3(1) by (auto simp: succeeded_def)
    qed
  qed
qed

lemma map_ring_holds:
  assumes "xsk_laws env opn loaded mp" "holds opn mp B C F M p"
    and "(if r \<noteq> None then xsk_mmap env len fd off p else (0, p)) = (m, p')"
  shows "if r \<noteq> None \<and> m = MAP_FAILED then holds opn mp B C F M p'
    else ring_maps r m len \<inter> M = {} \<and> holds opn mp B C F (ring_maps r m len \<union> M) p'"
  using assms(2,3) mmap_holds [OF assms(1) _ assms(2), of len fd off m p'] by (cases r) (auto simp: ring_maps_def)

lemma socket_rings_holds:
  assumes "xsk_laws env opn loaded mp" "map_names env xsks"
    and "socket_rings env off rx tx x um rs p = Some res"
    and "holds opn mp B C (sock_fd um x \<union> F) M p" "fd_ok um x F"
  shows "failed opn mp B C F M um res \<or> succeeded opn mp B C F M off (xs_fd x) rx tx um rs res"
proof -
  obtain rxm p1 where c1: "(if rx \<noteq> None then xsk_mmap env (rx_len off x) (xs_fd x) XDP_PGOFF_RX_RING p else (0, p)) = (rxm, p1)" by fastforce
  note h1 = map_ring_holds [OF assms(1,4) c1]
  let ?x = "x\<lparr>xs_rx := rx\<rparr>" and ?rs = "case rx of None \<Rightarrow> rs | Some r \<Rightarrow> rs(r := set_ring rxm (mo_rx off) (sc_rx_size (xs_config x)) (rs r))"
  obtain txm p2 where c2: "(if tx \<noteq> None then xsk_mmap env (tx_len off x) (xs_fd x) XDP_PGOFF_TX_RING p1 else (0, p1)) = (txm, p2)" by fastforce
  let ?rs2 = "case tx of None \<Rightarrow> ?rs | Some t \<Rightarrow> ?rs(t := set_prod_ring txm (mo_tx off) (sc_tx_size (xs_config x)) (?rs t))"
  have c2': "(if tx \<noteq> None then xsk_mmap env (ring_bytes (mo_tx off) (sc_tx_size (xs_config x)) 16) (xs_fd ?x) XDP_PGOFF_TX_RING p1 else (0, p1)) = (txm, p2)"
    using c2 by (simp add: tx_len_def cong: if_cong)
  have res: "Some res = (if rx \<noteq> None \<and> rxm = MAP_FAILED then Some (out_socket env (- p_errno p1) x um rs p1)
      else if tx \<noteq> None \<and> txm = MAP_FAILED then Some (out_mmap_rx env (- p_errno p2) off rx rxm ?x um ?rs p2)
      else socket_bind env off rx tx rxm txm (?x\<lparr>xs_tx := tx\<rparr>) um ?rs2 p2)"
    unfolding assms(3) [symmetric] socket_rings_def Let_def c1 [unfolded rx_len_def] prod.case c2' by (rule refl)
  have eq: "sock_fd um (y\<lparr>xs_rx := a\<rparr>) = sock_fd um y" "sock_fd um (y\<lparr>xs_tx := b\<rparr>) = sock_fd um y" "rx_len off (y\<lparr>xs_rx := a\<rparr>) = rx_len off y"
    "rx_len off (y\<lparr>xs_tx := b\<rparr>) = rx_len off y" "tx_len off (y\<lparr>xs_rx := a\<rparr>) = tx_len off y" "tx_len off (y\<lparr>xs_tx := b\<rparr>) = tx_len off y"
    "fd_ok um (y\<lparr>xs_rx := a\<rparr>) F = fd_ok um y F" "fd_ok um (y\<lparr>xs_tx := b\<rparr>) F = fd_ok um y F" for y a b
    by (simp_all add: sock_fd_def rx_len_def tx_len_def fd_ok_def)
  show ?thesis
  proof (cases "rx \<noteq> None \<and> rxm = MAP_FAILED")
    case True
    then show ?thesis using res h1 out_socket_holds [OF assms(1) _ assms(5)] by auto
  next
    case rxok: False
    then have m1: "ring_maps rx rxm (rx_len off x) \<inter> M = {}" "holds opn mp B C (sock_fd um x \<union> F) (ring_maps rx rxm (rx_len off x) \<union> M) p1" "rx = None \<or> rxm \<noteq> MAP_FAILED"
      using h1 by auto
    note h2 = map_ring_holds [OF assms(1) m1(2) c2]
    show ?thesis
    proof (cases "tx \<noteq> None \<and> txm = MAP_FAILED")
      case True
      then have "holds opn mp B C (sock_fd um ?x \<union> F) (ring_maps rx rxm (rx_len off ?x) \<union> M) p2" using h2 by (simp add: eq)
      from out_mmap_rx_holds [OF assms(1) this] have "failed opn mp B C F M um (out_mmap_rx env err off rx rxm ?x um rs' p2)" for err rs'
        using m1(1,3) assms(5) by (simp add: eq)
      then show ?thesis using res [unfolded if_not_P [OF rxok] if_P [OF True]] by simp
    next
      case False
      then have m2: "ring_maps tx txm (tx_len off x) \<inter> (ring_maps rx rxm (rx_len off x) \<union> M) = {}" "txm \<noteq> MAP_FAILED \<or> tx = None"
        "holds opn mp B C (sock_fd um x \<union> F) (ring_maps tx txm (tx_len off x) \<union> (ring_maps rx rxm (rx_len off x) \<union> M)) p2"
        using h2 by auto
      have bind: "socket_bind env off rx tx rxm txm (?x\<lparr>xs_tx := tx\<rparr>) um ?rs2 p2 = Some res" using res [unfolded if_not_P [OF rxok] if_not_P [OF False]] by simp
      have "failed opn mp B C F M um res \<or> succeeded opn mp B C F M off (xs_fd (?x\<lparr>xs_tx := tx\<rparr>)) rx tx um ?rs2 res"
      proof (rule socket_bind_holds [OF assms(1,2) bind])
        show "rxm \<noteq> MAP_FAILED \<and> (rx \<noteq> tx \<longrightarrow> ur_ring (?rs2 r) = rxm + ro_desc (mo_rx off))" if "rx = Some r" for r
          using that m1(3) by (cases tx) (auto simp: set_ring_def set_prod_ring_def)
        show "txm \<noteq> MAP_FAILED \<and> ur_ring (?rs2 t) = txm + ro_desc (mo_tx off)" if "tx = Some t" for t
          using that m2(2) by (auto simp: set_ring_def set_prod_ring_def)
      qed (use m1 m2 assms(5) in \<open>simp_all add: eq\<close>)
      then show ?thesis
      proof (rule disj_forward)
        show "succeeded opn mp B C F M off (xs_fd x) rx tx um rs res" if "succeeded opn mp B C F M off (xs_fd (?x\<lparr>xs_tx := tx\<rparr>)) rx tx um ?rs2 res"
          using that unfolding succeeded_def by (auto split: option.splits)
      qed
    qed
  qed
qed

text \<open>A socket reports the same offsets at any time.\<close>

definition fixed_offsets :: "'k xsk_env \<Rightarrow> ('k \<Rightarrow> int set) \<Rightarrow> int \<Rightarrow> bytes \<Rightarrow> bool" where
  "fixed_offsets env opn fd bs \<longleftrightarrow> (length bs = 128 \<or> length bs = 96) \<and> (\<forall>k. fd \<in> opn k \<longrightarrow> fst (xe_offsets env fd k) = (0, bs))"

definition offsets_of :: "bytes \<Rightarrow> xdp_mmap_offsets" where
  "offsets_of bs = (if length bs = 128 then mmap_offsets bs else xsk_mmap_offsets_v1 bs)"

lemma fixed_offsets_get:
  assumes "fixed_offsets env opn fd bs" "fd \<in> opn (p_kern p)"
  shows "fst (xsk_get_mmap_offsets env fd p) = Inr (offsets_of bs)"
proof -
  obtain k where "xe_offsets env fd (p_kern p) = ((0, bs), k)" using assms by (metis fixed_offsets_def surjective_pairing)
  then show ?thesis using assms(1) by (auto simp: xsk_get_mmap_offsets_def sys_call_out_def sys_ret_def fixed_offsets_def offsets_of_def)
qed

lemma socket_open_holds:
  assumes "xsk_laws env opn loaded mp" "map_names env xsks"
    and "socket_open env ifname rx tx x um rs p = Some res"
    and "holds opn mp B C (sock_fd um x \<union> F) M p" "fd_ok um x F" "xs_fd x \<in> opn (p_kern p)"
  shows "failed opn mp B C F M um res \<or>
    (\<exists>off. succeeded opn mp B C F M off (xs_fd x) rx tx um rs res \<and> (\<forall>bs. fixed_offsets env opn (xs_fd x) bs \<longrightarrow> off = offsets_of bs))"
proof -
  obtain i p1 where c1: "sys_call (xe_nametoindex env (takeWhile (\<lambda>b. b \<noteq> 0) ifname)) p = (i, p1)" by fastforce
  have h1: "holds opn mp B C (sock_fd um x \<union> F) M p1" by (rule sys_call_quiet [OF c1 quiet_callsI(4) [OF assms(1)] assms(4)])
  show ?thesis
  proof (cases "i \<le> 0")
    case True
    then show ?thesis using assms(3) c1 out_socket_holds [OF assms(1) h1 assms(5)] by (auto simp: socket_open_def)
  next
    case False
    then obtain name where ld: "load ifname 0 (IFNAMSIZ - 1) = Some name" using assms(3) c1 by (auto simp: socket_open_def split: Option.bind_splits)
    let ?x = "x\<lparr>xs_ifindex := i, xs_ifname := name @ [0]\<rparr>"
    have eq: "sock_fd um ?x = sock_fd um x" "fd_ok um ?x F = fd_ok um x F" by (simp_all add: sock_fd_def fd_ok_def)
    let ?opts = "(if rx \<noteq> None then [XDP_RX_RING (sc_rx_size (xs_config ?x))] else []) @
               (if tx \<noteq> None then [XDP_TX_RING (sc_tx_size (xs_config ?x))] else [])"
    obtain e p2 where c2: "xsk_setsockopts env (xs_fd x) ?opts p1 = (e, p2)" by fastforce
    have r: "(if e \<noteq> 0 then Some (out_socket env e ?x um rs p2)
        else (case xsk_get_mmap_offsets env (xs_fd x) p2 of
          (Inl err, p) \<Rightarrow> Some (out_socket env (- p_errno p) ?x um rs p)
        | (Inr off, p) \<Rightarrow> socket_rings env off rx tx ?x um rs p)) = Some res"
      using assms(3) c1 c2 False ld
      by (simp add: socket_open_def del: One_nat_def not_None_eq) (simp add: Let_def split: if_splits del: not_None_eq)
    have h2: "holds opn mp B C (sock_fd um ?x \<union> F) M p2" using h1 setsockopts_quiet [OF assms(1) c2] by (simp add: quiet_holds eq)
    obtain o3 p3 where c3: "xsk_get_mmap_offsets env (xs_fd x) p2 = (o3, p3)" by fastforce
    have h3: "holds opn mp B C (sock_fd um ?x \<union> F) M p3" using h2 offsets_quiet [OF assms(1) c3] by (simp add: quiet_holds)
    note out = out_socket_holds [OF assms(1)]
    show ?thesis
    proof (cases "e \<noteq> 0 \<or> (\<exists>err. o3 = Inl err)")
      case True
      then show ?thesis using r c3 out [OF h2] out [OF h3] assms(5) by (auto simp: eq split: if_splits)
    next
      case False
      then obtain off where off: "o3 = Inr off" "e = 0" by (cases o3) auto
      have "opn (p_kern p2) = opn (p_kern p)" using h2 assms(4) by (simp add: holds_def eq)
      then have fixed: "\<forall>bs. fixed_offsets env opn (xs_fd x) bs \<longrightarrow> off = offsets_of bs"
        using fixed_offsets_get [of env opn "xs_fd x" _ p2] assms(6) c3 off(1) by auto
      have "socket_rings env off rx tx ?x um rs p3 = Some res" using r c3 off by simp
      from socket_rings_holds [OF assms(1,2) this h3] show ?thesis using assms(5) fixed by (auto simp: eq)
    qed
  qed
qed

lemma socket_create_holds:
  assumes "xsk_laws env opn loaded mp" "map_names env xsks"
    and "xsk_socket__create env ptr ifname qid (Some um) rx tx cfg rs p = Some (r, so, uo, rs', p')"
    and "0 \<le> um_refcount um" "um_fd um \<in> opn (p_kern p)" "holds opn mp B C F M p"
  shows "case so of
      None \<Rightarrow> holds opn mp B C F M p' \<and> (uo = Some um \<or> 0 < um_refcount um \<and> uo = Some (um\<lparr>um_refcount := um_refcount um + 1\<rparr>))
    | Some x \<Rightarrow> (um_refcount um = 0 \<longrightarrow> xs_fd x = um_fd um) \<and> (\<exists>off. succeeded opn mp B C F M off (xs_fd x) rx tx (um\<lparr>um_refcount := um_refcount um + 1\<rparr>) rs (r, so, uo, rs', p') \<and>
        (\<forall>bs. fixed_offsets env opn (xs_fd x) bs \<longrightarrow> off = offsets_of bs))"
proof -
  let ?um = "um\<lparr>um_refcount := um_refcount um + 1\<rparr>"
  have early: ?thesis if "so = None" "uo = Some um" "p' = p" using that assms(6) by simp
  show ?thesis
  proof (cases "(\<exists>c. xsk_set_xdp_socket_config cfg = Inr c \<and> ptr \<and> (rx \<noteq> None \<or> tx \<noteq> None) \<and> ok_malloc (xe_kernel env) 88 \<and>
      \<not> (um_refcount um \<noteq> 0 \<and> sc_libbpf_flags c AND XSK_LIBBPF_FLAGS__INHIBIT_PROG_LOAD = 0))")
    case False
    then have "so = None \<and> uo = Some um \<and> p' = p"
      using assms(3) by (cases "xsk_set_xdp_socket_config cfg") (auto simp: xsk_socket__create_def split: if_splits)
    then show ?thesis using early by simp
  next
    case True
    then obtain c where c: "xsk_set_xdp_socket_config cfg = Inr c" "ptr" "rx \<noteq> None \<or> tx \<noteq> None" "ok_malloc (xe_kernel env) 88"
      "\<not> (um_refcount um \<noteq> 0 \<and> sc_libbpf_flags c AND XSK_LIBBPF_FLAGS__INHIBIT_PROG_LOAD = 0)" by blast
    obtain fd p1 where c1: "(if um_refcount um > 0 then sys_call (xe_socket env AF_XDP SOCK_RAW) p else (um_fd um, p)) = (fd, p1)" by fastforce
    let ?x = "\<lparr>xs_rx = None, xs_tx = None, xs_outstanding_tx = 0, xs_config = c, xs_fd = fd, xs_ifindex = 0, xs_prog_fd = 0,
                         xs_xsks_map_fd = 0, xs_queue_id = qid, xs_ifname = replicate IFNAMSIZ 0\<rparr>"
    have "xsk_socket__create env ptr ifname qid (Some um) rx tx cfg rs p =
        (if um_refcount um > 0 \<and> fd < 0 then Some (- p_errno p1, None, Some ?um, rs, p1) else socket_open env ifname rx tx ?x ?um rs p1)"
      using c unfolding xsk_socket__create_def Let_def c1 option.case sum.case prod.case by auto
    then have res: "Some (r, so, uo, rs', p') = (if um_refcount um > 0 \<and> fd < 0 then Some (- p_errno p1, None, Some ?um, rs, p1)
        else socket_open env ifname rx tx ?x ?um rs p1)" using assms(3) by simp
    have new: "0 < um_refcount um \<Longrightarrow> if fd < 0 then holds opn mp B C F M p1 else fd \<notin> F \<and> fd \<notin> B \<and> holds opn mp B C (insert fd F) M p1"
      using c1 socket_holds [OF assms(1) _ assms(6)] by simp
    show ?thesis
    proof (cases "um_refcount um > 0 \<and> fd < 0")
      case True
      then show ?thesis using res new by simp
    next
      case False
      have open_eq: "socket_open env ifname rx tx ?x ?um rs p1 = Some (r, so, uo, rs', p')" using res [unfolded if_not_P [OF False]] by simp
      have own: "holds opn mp B C (sock_fd ?um ?x \<union> F) M p1 \<and> fd_ok ?um ?x F \<and> xs_fd ?x \<in> opn (p_kern p1)"
      proof (cases "um_refcount um > 0")
        case True
        then have "fd \<notin> F" "fd \<notin> B" "holds opn mp B C (insert fd F) M p1" using new False by auto
        moreover have "fd \<noteq> um_fd um" using calculation(1,2) assms(5,6) by (auto simp: holds_def)
        ultimately show ?thesis using True by (auto simp: sock_fd_def fd_ok_def holds_def)
      next
        case first: False
        then have "fd = um_fd um" "p1 = p" "um_refcount um = 0" using c1 assms(4) by auto
        then show ?thesis using assms(5,6) by (simp add: sock_fd_def fd_ok_def)
      qed
      from socket_open_holds [OF assms(1,2) open_eq] own
      have "failed opn mp B C F M ?um (r, so, uo, rs', p') \<or> (\<exists>off. succeeded opn mp B C F M off fd rx tx ?um rs (r, so, uo, rs', p') \<and>
          (\<forall>bs. fixed_offsets env opn fd bs \<longrightarrow> off = offsets_of bs))" by simp
      moreover have "um_refcount um = 0 \<Longrightarrow> fd = um_fd um" using c1 by simp
      ultimately show ?thesis by (cases so) (auto simp: failed_def succeeded_def)
    qed
  qed
qed

lemma close_sock_holds:
  assumes "xsk_laws env opn loaded mp" "holds opn mp B C (sock_fd um x \<union> F) M p" "sock_fd um x \<inter> F = {}"
  shows "holds opn mp B C F M (if xs_fd x \<noteq> um_fd um then xsk_close env (xs_fd x) p else p)"
  using assms(2,3) close_holds [OF assms(1), of B C "xs_fd x" F M p] by (auto simp: sock_fd_def)

lemma close_prog_holds:
  assumes "xsk_laws env opn loaded mp" "holds opn mp B C (xsk_prog_fds x \<union> F) M p" "xsk_prog_fds x \<inter> F = {}"
    and "xs_prog_fd x = - 1 \<or> xs_prog_fd x \<noteq> xs_xsks_map_fd x"
  shows "holds opn mp B C F M (if xs_prog_fd x \<noteq> - 1 then xsk_close env (xs_prog_fd x) (xsk_delete_bpf_maps env x p) else p)"
proof (cases "xs_prog_fd x = - 1")
  case False
  then have "holds opn mp B C (insert (xs_xsks_map_fd x) (insert (xs_prog_fd x) F)) M p" "xs_xsks_map_fd x \<notin> insert (xs_prog_fd x) F" "xs_prog_fd x \<notin> F"
    using assms(2-4) by (auto simp: xsk_prog_fds_def)
  then show ?thesis using False close_holds [OF assms(1) delete_maps_holds [OF assms(1)]] by simp
qed (use assms(2) in \<open>simp add: xsk_prog_fds_def\<close>)

text \<open>Deleting a socket releases what it held.\<close>

lemma socket_delete_holds:
  assumes "xsk_laws env opn loaded mp" "live opn mp B C F M off um x rs p" "fixed_offsets env opn (xs_fd x) bs" "off = offsets_of bs"
    and "um_fd um \<in> B \<union> F" "xsk_socket__delete env (Some x) um rs p = (um', p')"
  shows "holds opn mp B C F M p' \<and> um' = um\<lparr>um_refcount := um_refcount um - 1\<rparr>"
proof -
  obtain rxm txm where l: "holds opn mp B C (xsk_prog_fds x \<union> (sock_fd um x \<union> F))
       (ring_maps (xs_tx x) txm (tx_len off x) \<union> (ring_maps (xs_rx x) rxm (rx_len off x) \<union> M)) p"
     "xs_prog_fd x = - 1 \<or> xs_prog_fd x \<noteq> xs_xsks_map_fd x"
     "xsk_prog_fds x \<inter> (sock_fd um x \<union> F) = {}" "sock_fd um x \<inter> F = {}"
     "ring_maps (xs_tx x) txm (tx_len off x) \<inter> (ring_maps (xs_rx x) rxm (rx_len off x) \<union> M) = {}" "ring_maps (xs_rx x) rxm (rx_len off x) \<inter> M = {}"
     and rings: "\<forall>r. xs_rx x = Some r \<longrightarrow> rxm \<noteq> MAP_FAILED \<and> ur_ring (rs r) = rxm + ro_desc (mo_rx off)"
       "\<forall>t. xs_tx x = Some t \<longrightarrow> txm \<noteq> MAP_FAILED \<and> ur_ring (rs t) = txm + ro_desc (mo_tx off)"
    using assms(2) unfolding live_def by blast
  define p1 where "p1 = (if xs_prog_fd x \<noteq> - 1 then xsk_close env (xs_prog_fd x) (xsk_delete_bpf_maps env x p) else p)"
  let ?R = "ring_maps (xs_rx x) rxm (rx_len off x)" and ?T = "ring_maps (xs_tx x) txm (tx_len off x)"
  have h1: "holds opn mp B C (sock_fd um x \<union> F) (?T \<union> (?R \<union> M)) p1" unfolding p1_def by (rule close_prog_holds [OF assms(1) l(1,3,2)])
  then have "xs_fd x \<in> opn (p_kern p1)" using assms(5) by (auto simp: holds_def sock_fd_def split: if_splits)
  from fixed_offsets_get [OF assms(3) this] obtain p2 where c2: "xsk_get_mmap_offsets env (xs_fd x) p1 = (Inr off, p2)"
    using assms(4) by (metis prod.collapse)
  have h2: "holds opn mp B C (sock_fd um x \<union> F) (?R \<union> (?T \<union> M)) p2"
    using h1 offsets_quiet [OF assms(1) c2] by (simp add: quiet_holds Un_left_commute)
  define p3 where "p3 = (if xs_rx x \<noteq> None then xsk_munmap env rxm (rx_len off x) p2 else p2)"
  define p4 where "p4 = (if xs_tx x \<noteq> None then xsk_munmap env txm (tx_len off x) p3 else p3)"
  have d: "?R \<inter> (?T \<union> M) = {}" "?T \<inter> M = {}" "xs_rx x = None \<or> rxm \<noteq> MAP_FAILED" "xs_tx x = None \<or> txm \<noteq> MAP_FAILED"
    using l(5,6) rings by (auto simp: option.expand)
  have "holds opn mp B C (sock_fd um x \<union> F) (?T \<union> M) p3" unfolding p3_def by (rule unmap_ring_holds [OF assms(1) h2 d(1,3)])
  then have "holds opn mp B C (sock_fd um x \<union> F) M p4" unfolding p4_def by (rule unmap_ring_holds [OF assms(1) _ d(2,4)])
  from close_sock_holds [OF assms(1) this l(4)]
  have h5: "holds opn mp B C F M (if xs_fd x \<noteq> um_fd um then xsk_close env (xs_fd x) p4 else p4)" .
  have "p4 = (let p = (case xs_rx x of None \<Rightarrow> p2 | Some r \<Rightarrow> xsk_munmap env (ur_ring (rs r) - ro_desc (mo_rx off)) (ring_bytes (mo_rx off) (sc_rx_size (xs_config x)) 16) p2)
      in case xs_tx x of None \<Rightarrow> p | Some t \<Rightarrow> xsk_munmap env (ur_ring (rs t) - ro_desc (mo_tx off)) (ring_bytes (mo_tx off) (sc_tx_size (xs_config x)) 16) p)"
    using rings by (cases "xs_rx x"; cases "xs_tx x") (simp_all add: p3_def p4_def rx_len_def tx_len_def)
  then show ?thesis using assms(6) h5 c2 unfolding p1_def by (auto simp: xsk_socket__delete_def Let_def)
qed

section \<open>The area of packet buffers\<close>

definition fill_len :: "xdp_mmap_offsets \<Rightarrow> xsk_umem_config \<Rightarrow> u64" where
  "fill_len off c = ring_bytes (mo_fr off) (uc_fill_size c) 8"

definition comp_len :: "xdp_mmap_offsets \<Rightarrow> xsk_umem_config \<Rightarrow> u64" where
  "comp_len off c = ring_bytes (mo_cr off) (uc_comp_size c) 8"

definition umem_live ::
    "('k \<Rightarrow> int set) \<Rightarrow> ('k \<Rightarrow> (u64 \<times> u64) set) \<Rightarrow> int set \<Rightarrow> (u64 \<times> u64) set \<Rightarrow> int set \<Rightarrow> (u64 \<times> u64) set \<Rightarrow> xdp_mmap_offsets \<Rightarrow>
      xsk_umem \<Rightarrow> u64 \<Rightarrow> u64 \<Rightarrow> 'k process \<Rightarrow> bool" where
  "umem_live opn mp B C F M off um fm cm p \<longleftrightarrow>
     holds opn mp B C (insert (um_fd um) F) (insert (cm, comp_len off (um_config um)) (insert (fm, fill_len off (um_config um)) M)) p \<and>
     um_fd um \<notin> F \<and> (fm, fill_len off (um_config um)) \<notin> M \<and>
     (cm, comp_len off (um_config um)) \<notin> insert (fm, fill_len off (um_config um)) M \<and> fm \<noteq> MAP_FAILED \<and> cm \<noteq> MAP_FAILED"

text \<open>The rings as they are set from the addresses of their mappings.\<close>

definition umem_rings :: "xdp_mmap_offsets \<Rightarrow> xsk_umem_config \<Rightarrow> nat \<Rightarrow> nat \<Rightarrow> u64 \<Rightarrow> u64 \<Rightarrow> rings \<Rightarrow> rings" where
  "umem_rings off cfg fill cmp fm cm rs =
     (let rs = rs(fill := set_prod_ring fm (mo_fr off) (uc_fill_size cfg) (rs fill))
      in rs(cmp := set_ring cm (mo_cr off) (uc_comp_size cfg) (rs cmp)))"

lemma umem_map_rings_holds:
  assumes "xsk_laws env opn loaded mp" "umem_map_rings env fill cmp area cfg fd off rs p = (r, uo, rs', p')"
    and "holds opn mp B C (insert fd F) M p" "fd \<notin> F"
  shows "case uo of
      None \<Rightarrow> holds opn mp B C F M p' \<or> (\<exists>a. (a, fill_len off cfg) \<notin> M \<and> holds opn mp B C F (insert (a, fill_len off cfg) M) p')
    | Some um \<Rightarrow> r = 0 \<and> um = \<lparr>um_fill = fill, um_comp = cmp, um_area = area, um_config = cfg, um_fd = fd, um_refcount = 0\<rparr> \<and>
        (\<exists>fm cm. umem_live opn mp B C F M off um fm cm p' \<and>
           rs' = umem_rings off cfg fill cmp fm cm rs)"
proof -
  obtain fm p1 where c1: "xsk_mmap env (fill_len off cfg) fd XDP_UMEM_PGOFF_FILL_RING p = (fm, p1)" by fastforce
  obtain cm p2 where c2: "xsk_mmap env (comp_len off cfg) fd XDP_UMEM_PGOFF_COMPLETION_RING p1 = (cm, p2)" by fastforce
  note h1 = mmap_holds [OF assms(1) c1 assms(3)]
  note def = umem_map_rings_def fill_len_def [symmetric] comp_len_def [symmetric]
  show ?thesis
  proof (cases "fm = MAP_FAILED")
    case True
    then show ?thesis using h1 assms(2,4) c1 close_holds [OF assms(1)] by (auto simp: def)
  next
    case f: False
    then have m1: "(fm, fill_len off cfg) \<notin> M" "holds opn mp B C (insert fd F) (insert (fm, fill_len off cfg) M) p1" using h1 by auto
    note h2 = mmap_holds [OF assms(1) c2 m1(2)]
    show ?thesis
    proof (cases "cm = MAP_FAILED")
      case True
      then have "holds opn mp B C (insert fd F) (insert (fm, fill_len off cfg) M) (xsk_munmap env cm (fill_len off cfg) p2)"
        using h2 quiet_holds [OF munmap_failed [OF assms(1), of p2]] by simp
      then have "holds opn mp B C F (insert (fm, fill_len off cfg) M) (xsk_close env fd (xsk_munmap env cm (fill_len off cfg) p2))"
        using close_holds [OF assms(1)] assms(4) by blast
      then show ?thesis using f True assms(2) c1 c2 m1(1) by (auto simp: def)
    next
      case c: False
      let ?um = "\<lparr>um_fill = fill, um_comp = cmp, um_area = area, um_config = cfg, um_fd = fd, um_refcount = 0\<rparr>"
      have "umem_live opn mp B C F M off ?um fm cm p2" using h2 c f m1(1) assms(4) by (simp add: umem_live_def)
      moreover have "r = 0 \<and> uo = Some ?um \<and> rs' = umem_rings off cfg fill cmp fm cm rs \<and> p' = p2"
        using c f assms(2) c1 c2 by (auto simp: def umem_rings_def Let_def)
      ultimately show ?thesis by auto
    qed
  qed
qed

lemma umem_create_holds:
  assumes "xsk_laws env opn loaded mp" "xsk_umem__create_v0_0_4 env ptr area sz fo co ucfg rs p = (r, uo, rs', p')"
    and "holds opn mp B C F M p"
  shows "case uo of
      None \<Rightarrow> holds opn mp B C F M p' \<or> (\<exists>x. x \<notin> M \<and> holds opn mp B C F (insert x M) p')
    | Some um \<Rightarrow> r = 0 \<and> um_refcount um = 0 \<and> fo = Some (um_fill um) \<and> co = Some (um_comp um) \<and> um_config um = xsk_set_umem_config ucfg \<and>
        (\<exists>off fm cm. umem_live opn mp B C F M off um fm cm p' \<and>
           rs' = umem_rings off (um_config um) (um_fill um) (um_comp um) fm cm rs \<and>
           (\<forall>bs. fixed_offsets env opn (um_fd um) bs \<longrightarrow> off = offsets_of bs))"
proof -
  let ?early = "area = 0 \<or> \<not> ptr \<or> fo = None \<or> co = None \<or> sz = 0 \<and> \<not> xsk_page_aligned env area \<or> \<not> ok_malloc (xe_kernel env) 56"
  let ?cfg = "xsk_set_umem_config ucfg"
  let ?mr = "\<lparr>mr_addr = area, mr_len = sz, mr_chunk_size = uc_frame_size ?cfg, mr_headroom = uc_frame_headroom ?cfg, mr_flags = uc_flags ?cfg\<rparr>"
  obtain fd p1 where c1: "sys_call (xe_socket env AF_XDP SOCK_RAW) p = (fd, p1)" by fastforce
  note h1 = socket_holds [OF assms(1) c1 assms(3)]
  obtain e p2 where c2: "xsk_setsockopts env fd
      [XDP_UMEM_REG ?mr, XDP_UMEM_FILL_RING (uc_fill_size ?cfg), XDP_UMEM_COMPLETION_RING (uc_comp_size ?cfg)] p1 = (e, p2)" by fastforce
  obtain o3 p3 where c3: "xsk_get_mmap_offsets env fd p2 = (o3, p3)" by fastforce
  have res: "(r, uo, rs', p') = (if fd < 0 then (- p_errno p1, None, rs, p1)
      else if e \<noteq> 0 then (e, None, rs, xsk_close env fd p2)
      else (case o3 of Inl err \<Rightarrow> (- p_errno p3, None, rs, xsk_close env fd p3)
            | Inr off \<Rightarrow> umem_map_rings env (the fo) (the co) area ?cfg fd off rs p3))" if "\<not> ?early"
    using that unfolding assms(2) [symmetric] xsk_umem__create_v0_0_4_def Let_def c1 prod.case c2 c3 by (auto split: sum.splits)
  show ?thesis
  proof (cases ?early)
    case True
    then have "uo = None \<and> p' = p" using assms(2) by (auto simp: xsk_umem__create_v0_0_4_def split: if_splits)
    then show ?thesis using assms(3) by simp
  next
    case ok: False
    show ?thesis
    proof (cases "fd < 0")
      case True
      then show ?thesis using res [OF ok] h1 by simp
    next
      case fd: False
      then have f: "fd \<notin> F" "holds opn mp B C (insert fd F) M p1" using h1 by auto
      have h2: "holds opn mp B C (insert fd F) M p2" using f(2) setsockopts_quiet [OF assms(1) c2] by (simp add: quiet_holds)
      have h3: "holds opn mp B C (insert fd F) M p3" using h2 offsets_quiet [OF assms(1) c3] by (simp add: quiet_holds)
      note cl = close_holds [OF assms(1) _ f(1)]
      show ?thesis
      proof (cases "e \<noteq> 0 \<or> (\<exists>err. o3 = Inl err)")
        case True
        then show ?thesis using res [OF ok] fd cl [OF h2] cl [OF h3] by (auto split: if_splits)
      next
        case False
        then obtain off where off: "o3 = Inr off" "e = 0" by (cases o3) auto
        have "umem_map_rings env (the fo) (the co) area ?cfg fd off rs p3 = (r, uo, rs', p')" using res [OF ok] fd off by simp
        note m = umem_map_rings_holds [OF assms(1) this h3 f(1)]
        have "fd \<in> opn (p_kern p2)" using h2 by (simp add: holds_def)
        then have "\<forall>bs. fixed_offsets env opn fd bs \<longrightarrow> off = offsets_of bs" using fixed_offsets_get [of env opn fd _ p2] c3 off(1) by auto
        moreover obtain fill cmp where "fo = Some fill" "co = Some cmp" using ok by (cases fo; cases co) auto
        ultimately show ?thesis using m by (cases uo) auto
      qed
    qed
  qed
qed

lemma umem_delete_holds:
  assumes "xsk_laws env opn loaded mp" "umem_live opn mp B C F M off um fm cm p" "fixed_offsets env opn (um_fd um) bs" "off = offsets_of bs"
    and "um_refcount um = 0" "ur_ring (rs (um_fill um)) = fm + ro_desc (mo_fr off)" "ur_ring (rs (um_comp um)) = cm + ro_desc (mo_cr off)"
  shows "\<exists>p'. xsk_umem__delete env (Some um) rs p = (0, None, p') \<and> holds opn mp B C F M p'"
proof -
  let ?f = "(fm, fill_len off (um_config um))" and ?c = "(cm, comp_len off (um_config um))"
  have l: "holds opn mp B C (insert (um_fd um) F) (insert ?f (insert ?c M)) p" "um_fd um \<notin> F" "?f \<notin> insert ?c M" "?c \<notin> M" "fm \<noteq> MAP_FAILED" "cm \<noteq> MAP_FAILED"
    using assms(2) by (auto simp: umem_live_def insert_commute)
  have "um_fd um \<in> opn (p_kern p)" using l(1) by (simp add: holds_def)
  from fixed_offsets_get [OF assms(3) this] obtain p2 where c2: "xsk_get_mmap_offsets env (um_fd um) p = (Inr off, p2)"
    using assms(4) by (metis prod.collapse)
  have "holds opn mp B C (insert (um_fd um) F) (insert ?f (insert ?c M)) p2" using l(1) offsets_quiet [OF assms(1) c2] by (simp add: quiet_holds)
  from munmap_holds [OF assms(1) munmap_holds [OF assms(1) this l(3,5)] l(4,6)]
  have "holds opn mp B C F M (xsk_close env (um_fd um)
      (xsk_munmap env cm (comp_len off (um_config um)) (xsk_munmap env fm (fill_len off (um_config um)) p2)))"
    using close_holds [OF assms(1)] l(2) by blast
  then show ?thesis using c2 assms(5-7) by (simp add: xsk_umem__delete_def fill_len_def comp_len_def)
qed

section \<open>Entries of a ring\<close>

text \<open>The eight bytes of an entry are inside one of the mappings.\<close>

definition entry_mapped :: "(u64 \<times> u64) set \<Rightarrow> xsk_uring \<Rightarrow> nat \<Rightarrow> bool" where
  "entry_mapped ms r slot \<longleftrightarrow> (\<exists>(a, len) \<in> ms. unat (ur_ring r + of_nat (8 * slot) - a) + 8 \<le> unat len)"

lemma slot_less: "(sz :: u32) \<noteq> 0 \<Longrightarrow> unat (idx AND (sz - 1)) < unat sz"
proof -
  assume "sz \<noteq> 0"
  then have "unat (sz - 1) = unat sz - 1" "0 < unat sz" by (simp_all add: unat_minus_one unat_gt_0)
  moreover have "unat (idx AND (sz - 1)) \<le> unat (sz - 1)" by (simp add: word_and_le1 flip: word_le_nat_alt)
  ultimately show ?thesis by linarith
qed

lemma entry_in_mapping:
  assumes "sz \<noteq> 0" "unat (ro_desc off) + 8 * unat sz < 2 ^ 64" "(a, ring_bytes off sz 8) \<in> ms" "ur_ring r = a + ro_desc off"
  shows "entry_mapped ms r (unat (idx AND (sz - 1)))"
proof -
  let ?i = "unat (idx AND (sz - 1))" and ?d = "ro_desc off"
  have i: "?i < unat sz" by (rule slot_less [OF assms(1)])
  have n: "unat (?d + of_nat m) = unat ?d + m" if "m \<le> 8 * unat sz" for m
  proof -
    have "m < 2 ^ 64" using that assms(2) by linarith
    then have "unat (of_nat m :: u64) = m" by (simp add: unsigned_of_nat take_bit_nat_eq_self)
    then show ?thesis using that assms(2) by (subst unat_add_lem [THEN iffD1]) simp_all
  qed
  have "ring_bytes off sz 8 = ?d + of_nat (8 * unat sz)" by (simp add: ring_bytes_def mult.commute)
  then have "unat (ring_bytes off sz 8) = unat ?d + 8 * unat sz" using n [of "8 * unat sz"] by simp
  moreover have "unat (ur_ring r + of_nat (8 * ?i) - a) = unat ?d + 8 * ?i" using n [of "8 * ?i"] i assms(4) by simp
  ultimately show ?thesis using i assms(3) by (force simp: entry_mapped_def)
qed

section \<open>Properties\<close>



text \<open>C33: The rings of a new area. With structures that were zeroed and sizes that are powers of two, the fill ring is the
  producing end and the completion ring the consuming end of a ring at its start, as the bounded queue of the header needs
  it; and for every index, also one that has wrapped around, the entry that the accessors compute lies inside the memory
  mapped for the ring.\<close>

theorem umem_rings_ready:
  assumes "xsk_laws env opn loaded mp"
    and "xsk_umem__create_v0_0_4 env ptr area sz (Some fill) (Some cmp) ucfg rs p = (r, Some um, rs', p')" "fill \<noteq> cmp"
    and "fixed_offsets env opn (um_fd um) bs" "off = offsets_of bs" "cfg = xsk_set_umem_config ucfg"
    and "uc_fill_size cfg = 2 ^ n" "uc_comp_size cfg = 2 ^ m" "n < 32" "m < 32"
    and "unat (ro_desc (mo_fr off)) + 8 * 2 ^ n < 2 ^ 64" "unat (ro_desc (mo_cr off)) + 8 * 2 ^ m < 2 ^ 64"
    and "cached_prod (rs fill) = 0" "cached_prod (rs cmp) = 0" "cached_cons (rs cmp) = 0"
  shows "xsk_ring.truncate (rs' fill) = xp_prod (ring_start n 0 ds) \<and> xsk_ring.truncate (rs' cmp) = xp_cons (ring_start m 0 ds) \<and>
    (\<forall>idx. entry_mapped (mp (p_kern p')) (rs' fill) (xsk_ring_prod__fill_addr (xsk_ring.truncate (rs' fill)) idx)) \<and>
    (\<forall>idx. entry_mapped (mp (p_kern p')) (rs' cmp) (xsk_ring_cons__comp_addr (xsk_ring.truncate (rs' cmp)) idx))"
proof -
  obtain fm cm where u: "um_config um = cfg" "umem_live opn mp (opn (p_kern p)) (mp (p_kern p)) {} {} off um fm cm p'"
    "rs' = umem_rings off cfg fill cmp fm cm rs"
    using umem_create_holds [OF assms(1,2) holds_start] assms(4-6) by auto
  have pw: "unat (2 ^ n :: u32) = 2 ^ n" "unat (2 ^ m :: u32) = 2 ^ m" using assms(9,10) free_entries [of n 0 0] free_entries [of m 0 0] by simp_all
  have fill: "rs' fill = set_prod_ring fm (mo_fr off) (2 ^ n) (rs fill)" and cmp: "rs' cmp = set_ring cm (mo_cr off) (2 ^ m) (rs cmp)"
    using u(3) assms(3,7,8) by (simp_all add: umem_rings_def)
  have mp: "(fm, ring_bytes (mo_fr off) (2 ^ n) 8) \<in> mp (p_kern p')" "(cm, ring_bytes (mo_cr off) (2 ^ m) 8) \<in> mp (p_kern p')"
    using u(1,2) assms(7,8) by (auto simp: umem_live_def holds_def fill_len_def comp_len_def)
  have nz: "(2 ^ n :: u32) \<noteq> 0" "(2 ^ m :: u32) \<noteq> 0" using pw by (metis power_eq_0_iff unat_0 zero_neq_numeral)+
  have "entry_mapped (mp (p_kern p')) (rs' fill) (unat (idx AND (2 ^ n - 1 :: u32)))" for idx
    using assms(11) pw fill by (intro entry_in_mapping [OF nz(1) _ mp(1)]) (simp_all add: set_prod_ring_def set_ring_def)
  moreover have "entry_mapped (mp (p_kern p')) (rs' cmp) (unat (idx AND (2 ^ m - 1 :: u32)))" for idx
    using assms(12) pw cmp by (intro entry_in_mapping [OF nz(2) _ mp(2)]) (simp_all add: set_ring_def)
  ultimately show ?thesis
    using assms(13-15) fill cmp
    by (simp add: xsk_ring_prod__fill_addr_def xsk_ring_cons__comp_addr_def ring_start_def set_ring_def set_prod_ring_def xsk_ring.defs mask_eq_exp_minus_1)
qed

section \<open>An example\<close>

text \<open>A kernel with a list of open descriptors, the programs behind them and a list of mappings at four addresses. It knows every interface with a
  name, has one queue, and reports offsets as kernels from 5.4 on do.\<close>

type_synonym xk = "int list \<times> (int \<rightharpoonup> bpf_insn list) \<times> (u64 \<times> u64) list"

definition xk_kernel :: "xk obj_kernel" where
  "xk_kernel =
     \<lparr>bk_map_create = \<lambda>a (fds, ld, ms). (next_fd fds, next_fd fds # fds, ld, ms),
      bk_prog_load = \<lambda>a (fds, ld, ms).
        (\<lparr>pa_ret = next_fd fds, pa_func_rec_size = 0, pa_line_rec_size = 0, pa_log = None\<rparr>, next_fd fds # fds, ld(next_fd fds \<mapsto> pl_insns a), ms),
      ok_close = \<lambda>fd (fds, ld, ms). (0, removeAll fd fds, ld(fd := None), ms),
      ok_obj_get = \<lambda>_ k. (- ENOENT, k), ok_info = \<lambda>_ _. Inl (- EINVAL), ok_open_root = \<lambda>k. (- ENOENT, k), ok_dup3 = \<lambda>_ _ k. (- EINVAL, k),
      ok_update = \<lambda>_ _ k. (0, k), ok_freeze = \<lambda>_ k. (0, k),
      ok_fs = \<lparr>fs_strdup = \<lambda>_. True, fs_mkdir = \<lambda>_ k. (0, k), fs_statfs = \<lambda>_ _. Inl (- ENOENT), fs_obj_pin = \<lambda>_ _ k. (- EINVAL, k),
               fs_unlink = \<lambda>_ k. (- ENOENT, k), fs_rmdir = \<lambda>_ k. (- ENOENT, k)\<rparr>,
      ok_cpus = 4, ok_malloc = \<lambda>_. True, ok_strdup = True\<rparr>"

definition xk_offsets :: bytes where
  "xk_offsets = concat (map (le_of_word 8) (concat (replicate 4 [0 :: u64, 64, 128, 68])))"

definition xk_env :: "xk xsk_env" where
  "xk_env =
     \<lparr>xe_kernel = xk_kernel,
      xe_netlink = \<lparr>ne_socket = -1, ne_bind = 0, ne_getsockname = 0, ne_addrlen_ok = True, ne_pid = 1, ne_send = 0, ne_recv = \<lambda>k _. ([], k), ne_buf = []\<rparr>,
      xe_nl_errno = \<lambda>_. 0, xe_now = 0, xe_pagesize = 4096,
      xe_socket = \<lambda>_ _ (fds, ld, ms). (next_fd fds, next_fd fds # fds, ld, ms),
      xe_setsockopt = \<lambda>_ _ k. (0, k),
      xe_offsets = \<lambda>fd k. ((0, xk_offsets), k),
      xe_mmap = \<lambda>len _ _ (fds, ld, ms). (case find (\<lambda>a. a \<notin> fst ` set ms) [0x10000, 0x20000, 0x30000, 0x40000] of
         None \<Rightarrow> ((- ENOMEM, 0), fds, ld, ms) | Some a \<Rightarrow> ((0, a), fds, ld, (a, len) # ms)),
      xe_munmap = \<lambda>a len (fds, ld, ms). (0, fds, ld, if a = MAP_FAILED then ms else removeAll (a, len) ms),
      xe_bind = \<lambda>_ sa k. (if sxdp_queue_id sa = 0 then 0 else - EINVAL, k),
      xe_nametoindex = \<lambda>name k. (if name = [] then - 19 else 2, k),
      xe_channels = \<lambda>_ _ k. ((0, 1), k),
      xe_prog_fd_by_id = \<lambda>_ k. (- ENOENT, k), xe_map_fd_by_id = \<lambda>_ k. (- ENOENT, k),
      xe_prog_info = \<lambda>_ _ _ k. ((- EINVAL, 0, 0, []), k), xe_map_info = \<lambda>_ _ k. ((- EINVAL, 0, []), k),
      xe_map_update = \<lambda>_ _ _ k. (0, k), xe_map_delete = \<lambda>_ _ k. (0, k)\<rparr>"

abbreviation xk_opn :: "xk \<Rightarrow> int set" where "xk_opn k \<equiv> set (fst k)"
abbreviation xk_maps :: "xk \<Rightarrow> (u64 \<times> u64) set" where "xk_maps k \<equiv> set (snd (snd k))"

lemma xk_kernel_fds: "kernel_fds xk_kernel xk_opn (\<lambda>k. fst (snd k))"
  by (auto simp: kernel_fds_def kernel_allocs_def xk_kernel_def fd_call_def prog_call_def same_fds_def)

lemma xk_mmap_law: "mmap_law xk_env xk_opn xk_maps"
  by (auto simp: mmap_law_def xk_env_def MAP_FAILED_def ENOMEM_def split: option.splits if_splits intro: rev_image_eqI)

lemma xk_laws: "xsk_laws xk_env xk_opn (\<lambda>k. fst (snd k)) xk_maps"
  using xk_kernel_fds xk_mmap_law
  by (auto simp: xsk_laws_def quiet_calls_def quiet_def new_fd_def xk_env_def xk_kernel_def ENOENT_def)

lemma xk_names: "map_names xk_env (\<lambda>_. False)"
  by (auto simp: map_names_def xk_env_def ENOENT_def)

lemma xk_offsets_length: "length xk_offsets = 128"
  by code_simp

lemma xk_offsets_value:
  "mmap_offsets xk_offsets = (let o1 = \<lparr>ro_producer = 0, ro_consumer = 64, ro_desc = 128, ro_flags = 68\<rparr> in \<lparr>mo_rx = o1, mo_tx = o1, mo_fr = o1, mo_cr = o1\<rparr>)"
  by code_simp

lemma xk_fixed: "fixed_offsets xk_env xk_opn fd xk_offsets"
  by (simp add: fixed_offsets_def xk_env_def xk_offsets_length)

definition xk_start :: "xk process" where
  "xk_start = \<lparr>p_kern = ([0, 1, 2], Map.empty, []), p_errno = 0, p_user = \<lambda>_. 0\<rparr>"

definition xk_rings :: rings where
  "xk_rings = (\<lambda>_. \<lparr>cached_prod = 0, cached_cons = 0, ring_mask = 0, ring_size = 0, ur_producer = 0, ur_consumer = 0, ur_ring = 0, ur_flags = 0\<rparr>)"

definition xk_umem :: xsk_umem where
  "xk_umem = \<lparr>um_fill = 1, um_comp = 2, um_area = 0x100000, um_config = xsk_set_umem_config None, um_fd = 3, um_refcount = 0\<rparr>"

definition xk_name :: bytes where "xk_name = [101, 116, 104, 48] @ replicate 12 0"

definition xk_config :: xsk_socket_config where
  "xk_config = \<lparr>sc_rx_size = 64, sc_tx_size = 64, sc_libbpf_flags = 1, sc_xdp_flags = 0, sc_bind_flags = 0\<rparr>"

lemma xk_get: "xsk_get_mmap_offsets xk_env fd p =
    (Inr (let o1 = \<lparr>ro_producer = 0, ro_consumer = 64, ro_desc = 128, ro_flags = 68\<rparr> in \<lparr>mo_rx = o1, mo_tx = o1, mo_fr = o1, mo_cr = o1\<rparr>), p)"
  unfolding xk_offsets_value [symmetric] by (simp add: xsk_get_mmap_offsets_def sys_call_out_def sys_ret_def xk_env_def xk_offsets_length)

lemma xk_calls:
  "xe_kernel xk_env = xk_kernel" "ok_malloc xk_kernel n = True" "ok_close xk_kernel fd (fds, ld, ms) = (0, removeAll fd fds, ld(fd := None), ms)"
  "xe_socket xk_env a b (fds, ld, ms) = (next_fd fds, next_fd fds # fds, ld, ms)" "xe_setsockopt xk_env fd c k = (0, k)"
  "xe_mmap xk_env len fd off (fds, ld, ms) = (case find (\<lambda>a. a \<notin> fst ` set ms) [0x10000, 0x20000, 0x30000, 0x40000] of
         None \<Rightarrow> ((- ENOMEM, 0), fds, ld, ms) | Some a \<Rightarrow> ((0, a), fds, ld, (a, len) # ms))"
  "xe_munmap xk_env m len (fds, ld, ms) = (0, fds, ld, if m = MAP_FAILED then ms else removeAll (m, len) ms)"
  "xe_bind xk_env fd sa k = (if sxdp_queue_id sa = 0 then 0 else - EINVAL, k)"
  "xe_nametoindex xk_env name k = (if name = [] then - 19 else 2, k)"
  by (simp_all add: xk_env_def xk_kernel_def)

lemmas xk_simps = xk_calls xk_get xk_start_def xk_umem_def xk_name_def xk_config_def sys_call_def sys_call_out_def sys_ret_def next_fd_def
  xsk_mmap_def xsk_munmap_def xsk_close_def close_fd_def ring_bytes_def MAP_FAILED_def xsk_set_umem_config_def xsk_set_xdp_socket_config_def
  XSK_RING_PROD__DEFAULT_NUM_DESCS_def XSK_RING_CONS__DEFAULT_NUM_DESCS_def XSK_LIBBPF_FLAGS__INHIBIT_PROG_LOAD_def IFNAMSIZ_def load_def errno_defs

lemma xk_umem_created:
  "\<exists>rs. xsk_umem__create_v0_0_4 xk_env True 0x100000 0x8000 (Some 1) (Some 2) None xk_rings xk_start =
     (0, Some xk_umem, rs, xk_start\<lparr>p_kern := ([3, 0, 1, 2], Map.empty, [(0x20000, 16512), (0x10000, 16512)])\<rparr>)"
  by (simp add: xsk_umem__create_v0_0_4_def umem_map_rings_def xk_simps Let_def)

lemma xk_socket_created:
  "\<exists>x rs' p. xsk_socket__create xk_env True xk_name 0 (Some xk_umem) (Some 3) (Some 4) (Some xk_config) rs
       (xk_start\<lparr>p_kern := ([3, 0, 1, 2], Map.empty, [(0x20000, 16512), (0x10000, 16512)])\<rparr>) =
     Some (0, Some x, Some (xk_umem\<lparr>um_refcount := 1\<rparr>), rs', p)"
  by (simp add: xsk_socket__create_def socket_open_def socket_rings_def socket_bind_def xk_simps Let_def)

lemma xk_socket_refused:
  "\<exists>rs' p. xsk_socket__create xk_env True xk_name 1 (Some xk_umem) (Some 3) (Some 4) (Some xk_config) rs
       (xk_start\<lparr>p_kern := ([3, 0, 1, 2], Map.empty, [(0x20000, 16512), (0x10000, 16512)])\<rparr>) =
     Some (- EINVAL, None, Some xk_umem, rs', p)"
  by (simp add: xsk_socket__create_def socket_open_def socket_rings_def socket_bind_def out_mmap_tx_def out_mmap_rx_def out_socket_def xk_simps Let_def)



theorem umem_rings_ready_witness:
  "\<exists>rs p. xsk_umem__create_v0_0_4 xk_env True 0x100000 0x8000 (Some 1) (Some 2) None xk_rings xk_start = (0, Some xk_umem, rs, p) \<and>
     xsk_ring.truncate (rs 1) = xp_prod (ring_start 11 0 ([] :: nat list)) \<and>
     entry_mapped (xk_maps (p_kern p)) (rs 1) (xsk_ring_prod__fill_addr (xsk_ring.truncate (rs 1)) 4095)"
proof -
  obtain rs p where c: "xsk_umem__create_v0_0_4 xk_env True 0x100000 0x8000 (Some 1) (Some 2) None xk_rings xk_start = (0, Some xk_umem, rs, p)"
    using xk_umem_created by blast
  have off: "offsets_of xk_offsets = mmap_offsets xk_offsets" by (simp add: offsets_of_def xk_offsets_length)
  have "xsk_ring.truncate (rs 1) = xp_prod (ring_start 11 0 ([] :: nat list)) \<and> xsk_ring.truncate (rs 2) = xp_cons (ring_start 11 0 ([] :: nat list)) \<and>
    (\<forall>idx. entry_mapped (xk_maps (p_kern p)) (rs 1) (xsk_ring_prod__fill_addr (xsk_ring.truncate (rs 1)) idx)) \<and>
    (\<forall>idx. entry_mapped (xk_maps (p_kern p)) (rs 2) (xsk_ring_cons__comp_addr (xsk_ring.truncate (rs 2)) idx))"
    by (rule umem_rings_ready [OF xk_laws c _ xk_fixed off [symmetric] refl])
      (simp_all add: xk_offsets_value xsk_set_umem_config_def XSK_RING_PROD__DEFAULT_NUM_DESCS_def XSK_RING_CONS__DEFAULT_NUM_DESCS_def xk_rings_def Let_def)
  then show ?thesis using c by blast
qed

end
