(* ===== verification/Jhash.thy ===== *)
theory Jhash
  imports Base
begin

text \<open>
  \<^verbatim>\<open>eBPF_app/headers/jhash.h\<close>: the Jenkins hash, for byte strings, arrays of 32-bit words and up to three
  words. The state is the three words \<open>a\<close>, \<open>b\<close> and \<open>c\<close>; the switch that falls through its cases is the
  sequence of its additions. \<open>None\<close> is a read past the key.
\<close>

unbundle bit_operations_syntax

definition JHASH_INITVAL :: u32 where "JHASH_INITVAL = 0xdeadbeef"

definition rol32 :: "u32 \<Rightarrow> u32 \<Rightarrow> u32" where
  "rol32 w shift = push_bit (unat shift) w OR drop_bit (unat ((- shift) AND 31)) w"

type_synonym abc = "u32 \<times> u32 \<times> u32"

definition jhash_mix :: "abc \<Rightarrow> abc" where
  "jhash_mix s =
     (let (a, b, c) = s;
          a = a - c; a = a XOR rol32 c 4; c = c + b;
          b = b - a; b = b XOR rol32 a 6; a = a + c;
          c = c - b; c = c XOR rol32 b 8; b = b + a;
          a = a - c; a = a XOR rol32 c 16; c = c + b;
          b = b - a; b = b XOR rol32 a 19; a = a + c;
          c = c - b; c = c XOR rol32 b 4; b = b + a
      in (a, b, c))"

definition jhash_final :: "abc \<Rightarrow> abc" where
  "jhash_final s =
     (let (a, b, c) = s;
          c = c XOR b; c = c - rol32 b 14;
          a = a XOR c; a = a - rol32 c 11;
          b = b XOR a; b = b - rol32 a 25;
          c = c XOR b; c = c - rol32 b 16;
          a = a XOR c; a = a - rol32 c 4;
          b = b XOR a; b = b - rol32 a 14;
          c = c XOR b; c = c - rol32 b 24
      in (a, b, c))"

section \<open>Byte strings\<close>

text \<open>The byte \<open>i\<close> of the last block shifted to its place, when the block has it.\<close>

definition tail_byte :: "bytes \<Rightarrow> nat \<Rightarrow> nat \<Rightarrow> nat \<Rightarrow> u32" where
  "tail_byte k len i sh = (if i < len then push_bit sh (ucast (k ! i)) else 0)"

definition jhash_tail :: "bytes \<Rightarrow> nat \<Rightarrow> abc \<Rightarrow> abc option" where
  "jhash_tail k len s =
     (if length k < len then None
      else
        (let (a, b, c) = s;
             c = c + tail_byte k len 11 24; c = c + tail_byte k len 10 16; c = c + tail_byte k len 9 8; c = c + tail_byte k len 8 0;
             b = b + tail_byte k len 7 24; b = b + tail_byte k len 6 16; b = b + tail_byte k len 5 8; b = b + tail_byte k len 4 0;
             a = a + tail_byte k len 3 24; a = a + tail_byte k len 2 16; a = a + tail_byte k len 1 8; a = a + tail_byte k len 0 0
         in Some (if len = 0 then (a, b, c) else jhash_final (a, b, c))))"

function jhash_loop :: "bytes \<Rightarrow> nat \<Rightarrow> abc \<Rightarrow> abc option" where
  "jhash_loop k len s =
     (if len > 12 then
        (case (load32 k 0, load32 k 4, load32 k 8, s) of
           (Some x, Some y, Some z, (a, b, c)) \<Rightarrow> jhash_loop (drop 12 k) (len - 12) (jhash_mix (a + x, b + y, c + z))
         | _ \<Rightarrow> None)
      else jhash_tail k len s)"
  by pat_completeness auto
termination
  by (relation "measure (\<lambda>(k, len, s). len)") auto

declare jhash_loop.simps [simp del]

definition jhash :: "bytes \<Rightarrow> u32 \<Rightarrow> u32 \<Rightarrow> u32 option" where
  "jhash key len initval =
     (let i = JHASH_INITVAL + len + initval
      in map_option (\<lambda>(a, b, c). c) (jhash_loop key (unat len) (i, i, i)))"

section \<open>Arrays of words\<close>

definition jhash2_tail :: "u32 list \<Rightarrow> nat \<Rightarrow> abc \<Rightarrow> abc option" where
  "jhash2_tail k len s =
     (if length k < len then None
      else
        (let (a, b, c) = s;
             c = (if len \<ge> 3 then c + k ! 2 else c);
             b = (if len \<ge> 2 then b + k ! 1 else b);
             a = (if len \<ge> 1 then a + k ! 0 else a)
         in Some (if len = 0 then (a, b, c) else jhash_final (a, b, c))))"

fun jhash2_loop :: "u32 list \<Rightarrow> nat \<Rightarrow> abc \<Rightarrow> abc option" where
  "jhash2_loop (x # y # z # k) len (a, b, c) =
     (if len > 3 then jhash2_loop k (len - 3) (jhash_mix (a + x, b + y, c + z))
      else jhash2_tail (x # y # z # k) len (a, b, c))"
| "jhash2_loop k len s = (if len > 3 then None else jhash2_tail k len s)"

definition jhash2 :: "u32 list \<Rightarrow> u32 \<Rightarrow> u32 \<Rightarrow> u32 option" where
  "jhash2 k len initval =
     (let i = JHASH_INITVAL + push_bit 2 len + initval
      in map_option (\<lambda>(a, b, c). c) (jhash2_loop k (unat len) (i, i, i)))"

definition jhash_nwords :: "u32 \<Rightarrow> u32 \<Rightarrow> u32 \<Rightarrow> u32 \<Rightarrow> u32" where
  "jhash_nwords a b c initval = (let (a, b, c) = jhash_final (a + initval, b + initval, c + initval) in c)"

definition jhash_3words :: "u32 \<Rightarrow> u32 \<Rightarrow> u32 \<Rightarrow> u32 \<Rightarrow> u32" where
  "jhash_3words a b c initval = jhash_nwords a b c (initval + JHASH_INITVAL + push_bit 2 3)"

definition jhash_2words :: "u32 \<Rightarrow> u32 \<Rightarrow> u32 \<Rightarrow> u32" where
  "jhash_2words a b initval = jhash_nwords a b 0 (initval + JHASH_INITVAL + push_bit 2 2)"

definition jhash_1word :: "u32 \<Rightarrow> u32 \<Rightarrow> u32" where
  "jhash_1word a initval = jhash_nwords a 0 0 (initval + JHASH_INITVAL + push_bit 2 1)"

section \<open>Facts\<close>

definition word_bytes :: "u32 list \<Rightarrow> bytes" where
  "word_bytes ws = concat (map (le_of_word 4) ws)"

lemma word_bytes_simps [simp]: "word_bytes [] = []" "word_bytes (w # ws) = le_of_word 4 w @ word_bytes ws"
  "length (word_bytes ws) = 4 * length ws"
  by (simp_all add: word_bytes_def length_concat comp_def sum_list_triv)

lemma load32_word_bytes: "load32 (le_of_word 4 w @ rest) 0 = Some w"
  by (simp add: load32_def load_def)

lemma load32_skip: "4 \<le> off \<Longrightarrow> load32 (le_of_word 4 w @ rest) off = load32 rest (off - 4)"
  by (auto simp: load32_def load_def)

text \<open>The four additions of a whole word in the last block, from its highest byte to its lowest.\<close>

lemma sum_bytes:
  "x + push_bit 24 (ucast (le_of_word 4 w ! 3)) + push_bit 16 (ucast (le_of_word 4 w ! 2))
     + push_bit 8 (ucast (le_of_word 4 w ! 1)) + ucast (le_of_word 4 w ! 0) = x + (w :: u32)"
proof -
  have disj: "a + b = a OR b" if "a AND b = 0" for a b :: u32
    using that by (rule disjunctive_add_eq_or)
  let ?b = "\<lambda>i. ucast (le_of_word 4 w ! i) :: u32"
  have b: "?b 0 = take_bit 8 w" "?b 1 = take_bit 8 (drop_bit 8 w)" "?b 2 = take_bit 8 (drop_bit 16 w)" "?b 3 = take_bit 8 (drop_bit 24 w)"
    by (rule bit_word_eqI; auto simp: nth_le_of_word bit_simps)+
  have "push_bit 24 (?b 3) + (push_bit 16 (?b 2) + (push_bit 8 (?b 1) + ?b 0))
      = push_bit 24 (?b 3) OR (push_bit 16 (?b 2) OR (push_bit 8 (?b 1) OR ?b 0))"
    unfolding b by (subst disj, rule bit_word_eqI, force simp: bit_simps)+ simp
  also have "\<dots> = w"
    unfolding b
  proof (rule bit_word_eqI)
    fix n assume n: "n < LENGTH(32)"
    consider "n < 8" | "8 \<le> n \<and> n < 16" | "16 \<le> n \<and> n < 24" | "24 \<le> n" by linarith
    then show "bit (push_bit 24 (take_bit 8 (drop_bit 24 w)) OR (push_bit 16 (take_bit 8 (drop_bit 16 w)) OR
        (push_bit 8 (take_bit 8 (drop_bit 8 w)) OR take_bit 8 w))) n = bit w n"
      using n by cases (auto simp: bit_simps)
  qed
  finally show ?thesis by (simp only: add.assoc)
qed

lemma jhash_tail_words:
  assumes "length ws \<le> 3"
  shows "jhash_tail (word_bytes ws) (4 * length ws) s = jhash2_tail ws (length ws) s"
proof -
  obtain a b c where s: "s = (a, b, c)" by (cases s)
  consider "ws = []" | x where "ws = [x]" | x y where "ws = [x, y]" | x y z where "ws = [x, y, z]"
    using assms by (auto simp: le_Suc_eq numeral_3_eq_3 length_Suc_conv)
  then show ?thesis
    by cases (simp_all add: s jhash_tail_def jhash2_tail_def tail_byte_def nth_append sum_bytes [unfolded One_nat_def])
qed

lemmas jhash_tail_few = jhash_tail_words [of "[]", simplified] jhash_tail_words [of "[v]" for v, simplified]
  jhash_tail_words [of "[v, w]" for v w, simplified]

lemma jhash_loop_words: "jhash_loop (word_bytes ws) (4 * length ws) s = jhash2_loop ws (length ws) s"
proof (induction ws "length ws" s rule: jhash2_loop.induct)
  case (1 x y z k a b c)
  show ?case
  proof (cases "k = []")
    case True
    then show ?thesis using jhash_tail_words [of "[x, y, z]" "(a, b, c)"] by (simp add: jhash_loop.simps)
  next
    case False
    then show ?thesis using 1
      by (subst jhash_loop.simps) (simp add: load32_word_bytes load32_skip)
  qed
qed (simp_all add: jhash_loop.simps jhash_tail_few)

lemma jhash2_total: "length ws < 2 ^ 32 \<Longrightarrow> jhash2 ws (of_nat (length ws)) i \<noteq> None"
proof -
  have "jhash2_loop ws (length ws) s \<noteq> None" for s
    by (induction ws "length ws" s rule: jhash2_loop.induct)
      (auto simp: jhash2_tail_def Let_def split_def simp del: not_None_eq)
  then show "length ws < 2 ^ 32 \<Longrightarrow> ?thesis" by (simp add: jhash2_def Let_def unat_of_nat_small)
qed

lemma jhash2_few_words:
  "jhash2 [a, b, c] 3 i = Some (jhash_3words a b c i)"
  "jhash2 [a, b] 2 i = Some (jhash_2words a b i)"
  "jhash2 [a] 1 i = Some (jhash_1word a i)"
proof -
  have u: "unat (3 :: u32) = 3" "unat (2 :: u32) = 2" "unat (1 :: u32) = 1" by simp_all
  show "jhash2 [a, b, c] 3 i = Some (jhash_3words a b c i)" "jhash2 [a, b] 2 i = Some (jhash_2words a b i)"
    "jhash2 [a] 1 i = Some (jhash_1word a i)"
    by (simp_all only: jhash2_def u jhash_3words_def jhash_2words_def jhash_1word_def)
      (simp_all add: jhash2_tail_def jhash_nwords_def Let_def split_def add_ac)
qed

lemma jhash_word_bytes:
  assumes "4 * length ws < 2 ^ 32"
  shows "jhash (word_bytes ws) (of_nat (4 * length ws)) i = jhash2 ws (of_nat (length ws)) i"
proof -
  have "push_bit 2 (of_nat (length ws) :: u32) = of_nat (4 * length ws)" by (simp add: push_bit_eq_mult)
  moreover have "unat (of_nat (4 * length ws) :: u32) = 4 * length ws" "unat (of_nat (length ws) :: u32) = length ws"
    using assms unat_of_nat_small [where 'a = 32, of "4 * length ws"] unat_of_nat_small [where 'a = 32, of "length ws"]
    by (simp_all del: of_nat_mult)
  ultimately show ?thesis unfolding jhash_def jhash2_def by (simp only: Let_def jhash_loop_words)
qed

text \<open>the two routines agree: hashing an array of fewer than \<open>2 ^ 30\<close> 32-bit words with \<open>jhash2\<close> gives what
  \<open>jhash\<close> gives for the bytes of the array on a little-endian machine, both stay inside the key and return a
  hash, and for one, two and three words this is the hash of the unrolled \<open>jhash_1word\<close>,
  \<open>jhash_2words\<close> and \<open>jhash_3words\<close>.\<close>

lemma jhash_routines_agree:
  assumes "4 * length ws < 2 ^ 32"
  shows "\<exists>h. jhash (word_bytes ws) (of_nat (4 * length ws)) initval = Some h
      \<and> jhash2 ws (of_nat (length ws)) initval = Some h
      \<and> (\<forall>a. ws = [a] \<longrightarrow> h = jhash_1word a initval)
      \<and> (\<forall>a b. ws = [a, b] \<longrightarrow> h = jhash_2words a b initval)
      \<and> (\<forall>a b c. ws = [a, b, c] \<longrightarrow> h = jhash_3words a b c initval)"
proof -
  obtain h where h: "jhash2 ws (of_nat (length ws)) initval = Some h"
    using jhash2_total [of ws initval] assms by auto
  then show ?thesis
    using jhash_word_bytes [OF assms, of initval] by (auto simp: jhash2_few_words numeral_2_eq_2 [symmetric] numeral_3_eq_3 [symmetric])
qed

lemma jhash_routines_agree_example:
  "jhash2 [0x0a000001, 0x0a000002, 0x1f90] 3 7 = jhash (word_bytes [0x0a000001, 0x0a000002, 0x1f90]) 12 7
    \<and> jhash2 [0x0a000001, 0x0a000002, 0x1f90] 3 7 = Some (jhash_3words 0x0a000001 0x0a000002 0x1f90 7)"
  using jhash_routines_agree [of "[0x0a000001, 0x0a000002, 0x1f90]" 7] by (simp; metis)

end
