(* ===== verification/Obj_Open.thy ===== *)
theory Obj_Open
  imports Probes
begin

text \<open>
  Opening an object in \<^verbatim>\<open>eBPF_app/libbpf/src/libbpf.c\<close>: the walk over the sections of the file (\<^verbatim>\<open>bpf_object__elf_collect\<close>), its type
  information, \<^verbatim>\<open>__bpf_object__open\<close> with its variants, and \<^verbatim>\<open>bpf_object__close\<close>. The parts are those of \<open>Elf_File\<close>, \<open>Elf_Maps\<close>, \<open>Btf_Fix\<close>,
  \<open>Probes\<close>, \<open>Reloc\<close> and \<open>Sec_Names\<close>; an object that was opened is what \<open>Obj_Load\<close> loads. Outer \<open>None\<close> is undefined behaviour,
  or a kernel that interrupts for ever.
\<close>

unbundle bit_operations_syntax

section \<open>Type information of the object\<close>

definition BTF_ELF_SEC :: string where "BTF_ELF_SEC = ''.BTF''"
definition BTF_EXT_ELF_SEC :: string where "BTF_EXT_ELF_SEC = ''.BTF.ext''"

text \<open>The bytes of a section; an empty one may have no buffer.\<close>

definition sec_bytes :: "elf_data \<Rightarrow> bytes option" where
  "sec_bytes data = (case d_buf data of Some b \<Rightarrow> Some b | None \<Rightarrow> if d_size data = 0 then Some [] else None)"

definition bpf_object__is_btf_mandatory :: "elf_obj \<Rightarrow> bool" where
  "bpf_object__is_btf_mandatory obj \<longleftrightarrow> lo_btf_maps_shndx obj \<ge> 0"

text \<open>Parsing the section and filling in the data sections: \<open>Inl\<close> is the error that leaves the object without type
  information; \<open>Inr None\<close>: the file has no such section.\<close>

definition init_btf_data :: "'k open_env \<Rightarrow> elf_data option \<Rightarrow> elf_obj \<Rightarrow> (int + btf option) option" where
  "init_btf_data env data obj = (case data of
     None \<Rightarrow> Some (Inr None)
   | Some data \<Rightarrow> do {
       buf \<leftarrow> sec_bytes data;
       r \<leftarrow> btf__new (oe_btf_calloc env) (oe_malloc env (d_size data)) (oe_btf_types env) buf (of_nat (d_size data));
       (case r of
          Inl err \<Rightarrow> Some (Inl err)
        | Inr b \<Rightarrow> do {
            (err, b) \<leftarrow> btf__finalize_data obj b;
            Some (if err \<noteq> 0 then Inl err else Inr (Some b))
          })
     })"

text \<open>An extension section that is not accepted is ignored.\<close>

definition init_btf_ext_data :: "'k open_env \<Rightarrow> elf_data option \<Rightarrow> btf option \<Rightarrow> btf_extension option option" where
  "init_btf_ext_data env data b =
     (if b = None then Some None
      else (case data of
              None \<Rightarrow> Some None
            | Some data \<Rightarrow> do {
                buf \<leftarrow> sec_bytes data;
                r \<leftarrow> btf_ext__new (oe_btf_calloc env) (oe_malloc env (d_size data)) buf (of_nat (d_size data));
                Some (case r of Inl err \<Rightarrow> None | Inr e \<Rightarrow> Some e)
              }))"

definition bpf_object__init_btf :: "'k open_env \<Rightarrow> elf_data option \<Rightarrow> elf_data option \<Rightarrow> elf_obj \<Rightarrow> (int \<times> elf_obj) option" where
  "bpf_object__init_btf env btf_sec btf_ext_sec obj = do {
     let btf_required = bpf_object__is_btf_mandatory obj;
     r \<leftarrow> init_btf_data env btf_sec obj;
     (case r of
        Inl err \<Rightarrow> Some (if btf_required then err else 0, obj\<lparr>lo_btf := None\<rparr>)
      | Inr b \<Rightarrow> do {
          e \<leftarrow> init_btf_ext_data env btf_ext_sec b;
          Some (if btf_required \<and> b = None then - ENOENT else 0, obj\<lparr>lo_btf := b, lo_btf_ext := e\<rparr>)
        })
   }"

text \<open>\<^verbatim>\<open>btf__load\<close> with its system calls.\<close>

definition btf_load_calls :: "'k open_env \<Rightarrow> btf \<Rightarrow> 'k process \<Rightarrow> int \<times> btf \<times> 'k process" where
  "btf_load_calls env b p =
     (if btf_fd b \<ge> 0 then (- EEXIST, b, p)
      else if \<not> oe_malloc env BPF_LOG_BUF_SIZE then (- ENOMEM, b, p)
      else (let (fd, p) = load_btf_calls env (take (unat (btf_data_size b)) (btf_data b)) True False p
            in (if fd < 0 then - p_errno p else 0, b\<lparr>btf_fd := fd\<rparr>, p)))"

text \<open>Freeing type information closes its descriptor.\<close>

definition btf_free_calls :: "'k open_env \<Rightarrow> btf option \<Rightarrow> 'k process \<Rightarrow> 'k process" where
  "btf_free_calls env b p = foldl (\<lambda>p fd. snd (close_fd (oe_kernel env) fd p)) p (btf__free b)"

definition bpf_object__sanitize_and_load_btf :: "'k open_env \<Rightarrow> elf_obj \<Rightarrow> 'k process \<Rightarrow> (int \<times> elf_obj \<times> 'k process) option" where
  "bpf_object__sanitize_and_load_btf env obj p =
     (if lo_btf obj = None then Some (0, obj, p)
      else do {
        obj \<leftarrow> bpf_object__sanitize_btf obj;
        let obj = bpf_object__sanitize_btf_ext obj;
        b \<leftarrow> lo_btf obj;
        let (err, b, p) = btf_load_calls env b p;
        Some (if err \<noteq> 0
              then (if bpf_object__is_btf_mandatory obj then err else 0, obj\<lparr>lo_btf := None, lo_btf_ext := None\<rparr>, btf_free_calls env (Some b) p)
              else (0, obj\<lparr>lo_btf := Some b\<rparr>, p))
      })"

section \<open>The sections of the file\<close>

definition section_have_execinstr :: "elf_file \<Rightarrow> int \<Rightarrow> bool" where
  "section_have_execinstr elf idx = (case elf_getscn elf idx of
     None \<Rightarrow> False
   | Some scn \<Rightarrow> (case sn_shdr scn of None \<Rightarrow> False | Some sh \<Rightarrow> sh_flags sh AND SHF_EXECINSTR \<noteq> 0))"

text \<open>The sections with type information are variables of the walk.\<close>

record walk =
  wk_obj :: elf_obj
  wk_btf :: "elf_data option"
  wk_btf_ext :: "elf_data option"

definition on_obj :: "walk \<Rightarrow> (int \<times> elf_obj) option \<Rightarrow> (int \<times> walk) option" where
  "on_obj w r = map_option (\<lambda>(err, obj). (err, w\<lparr>wk_obj := obj\<rparr>)) r"

text \<open>A section with a header, a name and data: the code tests the name first, then the type.\<close>

definition collect_section :: "'k open_env \<Rightarrow> elf_file \<Rightarrow> int \<Rightarrow> string \<Rightarrow> elf_shdr \<Rightarrow> elf_data \<Rightarrow> walk \<Rightarrow> (int \<times> walk) option" where
  "collect_section env elf idx name sh data w =
     (let obj = wk_obj w in
      if name = ''license'' then on_obj w (bpf_object__init_license data obj)
      else if name = ''version'' then on_obj w (bpf_object__init_kversion data obj)
      else if name = ''maps'' then Some (0, w\<lparr>wk_obj := obj\<lparr>lo_maps_shndx := idx\<rparr>\<rparr>)
      else if name = MAPS_ELF_SEC then Some (0, w\<lparr>wk_obj := obj\<lparr>lo_btf_maps_shndx := idx\<rparr>\<rparr>)
      else if name = BTF_ELF_SEC then Some (0, w\<lparr>wk_btf := Some data\<rparr>)
      else if name = BTF_EXT_ELF_SEC then Some (0, w\<lparr>wk_btf_ext := Some data\<rparr>)
      else if sh_type sh = SHT_SYMTAB then
        if eo_symbols obj \<noteq> None then Some (- LIBBPF_ERRNO__FORMAT, w)
        else Some (0, w\<lparr>wk_obj := obj\<lparr>eo_symbols := Some data, eo_strtabidx := unat (sh_link sh)\<rparr>\<rparr>)
      else if sh_type sh = SHT_PROGBITS \<and> d_size data > 0 then
        if sh_flags sh AND SHF_EXECINSTR \<noteq> 0
        then on_obj w (bpf_object__add_program env data name idx (if name = ''.text'' then obj\<lparr>lo_text_shndx := idx\<rparr> else obj))
        else if name = ''.data'' then Some (0, w\<lparr>wk_obj := obj\<lparr>eo_data := Some data, lo_data_shndx := idx\<rparr>\<rparr>)
        else if name = ''.rodata'' then Some (0, w\<lparr>wk_obj := obj\<lparr>eo_rodata := Some data, lo_rodata_shndx := idx\<rparr>\<rparr>)
        else Some (0, w)
      else if sh_type sh = SHT_REL then
        if \<not> section_have_execinstr elf (sint (sh_info sh)) then Some (0, w)
        else if \<not> oe_relocs env (length (eo_reloc obj) + 1) then Some (- ENOMEM, w)
        else Some (0, w\<lparr>wk_obj := obj\<lparr>eo_reloc := eo_reloc obj @ [(sh, data)]\<rparr>\<rparr>)
      else if sh_type sh = SHT_NOBITS \<and> name = ''.bss'' then Some (0, w\<lparr>wk_obj := obj\<lparr>eo_bss := Some data, lo_bss_shndx := idx\<rparr>\<rparr>)
      else Some (0, w))"

fun collect_sections_from :: "'k open_env \<Rightarrow> elf_file \<Rightarrow> nat \<Rightarrow> int \<Rightarrow> elf_scn list \<Rightarrow> walk \<Rightarrow> (int \<times> walk) option" where
  "collect_sections_from env elf shstrndx idx [] w = Some (0, w)"
| "collect_sections_from env elf shstrndx idx (scn # scns) w =
     (case sn_shdr scn of
        None \<Rightarrow> Some (- LIBBPF_ERRNO__FORMAT, w)
      | Some sh \<Rightarrow>
          (case el_strptr elf shstrndx (sh_name sh) of
             None \<Rightarrow> Some (- LIBBPF_ERRNO__FORMAT, w)
           | Some name \<Rightarrow>
               (case sn_data scn of
                  None \<Rightarrow> Some (- LIBBPF_ERRNO__FORMAT, w)
                | Some data \<Rightarrow> do {
                    (err, w) \<leftarrow> collect_section env elf idx name sh data w;
                    if err \<noteq> 0 then Some (err, w) else collect_sections_from env elf shstrndx (idx + 1) scns w
                  })))"

text \<open>What follows the walk.\<close>

definition elf_collect_rest :: "'k open_env \<Rightarrow> bool \<Rightarrow> string option \<Rightarrow> walk \<Rightarrow> 'k process \<Rightarrow> (int \<times> elf_obj \<times> 'k process) option" where
  "elf_collect_rest env relaxed_maps pin_root_path w p = do {
     (err, obj) \<leftarrow> bpf_object__init_btf env (wk_btf w) (wk_btf_ext w) (wk_obj w);
     if err \<noteq> 0 then Some (err, obj, p)
     else do {
       (err, obj) \<leftarrow> bpf_object__init_maps env relaxed_maps pin_root_path obj;
       if err \<noteq> 0 then Some (err, obj, p)
       else do {
         (err, obj, p) \<leftarrow> bpf_object__sanitize_and_load_btf env obj p;
         if err \<noteq> 0 then Some (err, obj, p)
         else do {
           (err, obj) \<leftarrow> bpf_object__init_prog_names env obj;
           Some (err, obj, p)
         }
       }
     }
   }"

definition bpf_object__elf_collect ::
    "'k open_env \<Rightarrow> bool \<Rightarrow> string option \<Rightarrow> elf_obj \<Rightarrow> 'k process \<Rightarrow> (int \<times> elf_obj \<times> 'k process) option" where
  "bpf_object__elf_collect env relaxed_maps pin_root_path obj p = do {
     elf \<leftarrow> eo_elf obj;
     let shstrndx = e_shstrndx (eo_ehdr obj);
     if \<not> el_rawdata elf shstrndx then Some (- LIBBPF_ERRNO__FORMAT, obj, p)
     else do {
       (err, w) \<leftarrow> collect_sections_from env elf shstrndx 1 (tl (el_scns elf)) \<lparr>wk_obj = obj, wk_btf = None, wk_btf_ext = None\<rparr>;
       let obj = wk_obj w;
       if err \<noteq> 0 then Some (err, obj, p)
       else if eo_strtabidx obj = 0 \<or> eo_strtabidx obj > length (tl (el_scns elf)) then Some (- LIBBPF_ERRNO__FORMAT, obj, p)
       else elf_collect_rest env relaxed_maps pin_root_path w p
     }
   }"

section \<open>Relocation entries\<close>

definition elf_sym_of :: "gelf_sym \<Rightarrow> elf_sym" where
  "elf_sym_of esym = \<lparr>es_shndx = unat (st_shndx esym), es_value = unat (st_value esym), es_global = GELF_ST_BIND (st_info esym) = STB_GLOBAL\<rparr>"

definition elf_rel_of :: "elf_file \<Rightarrow> elf_data \<Rightarrow> elf_data \<Rightarrow> nat \<Rightarrow> elf_rel" where
  "elf_rel_of elf symbols data i =
     map_option (\<lambda>(off, symidx). (off, map_option elf_sym_of (el_getsym elf symbols symidx))) (el_getrel elf data i)"

text \<open>The number of entries of a section: a section of a program with entries of size zero is a division by zero.\<close>

definition reloc_sec_of :: "'k open_env \<Rightarrow> elf_file \<Rightarrow> elf_data \<Rightarrow> reloc_obj \<Rightarrow> elf_shdr \<times> elf_data \<Rightarrow> reloc_sec option" where
  "reloc_sec_of env elf symbols ro s = (case s of (sh, data) \<Rightarrow>
     let idx = sint (sh_info sh); nrels = sh_size sh div sh_entsize sh in
     if sh_entsize sh = 0 \<and> bpf_object__find_prog_by_idx ro idx \<noteq> None then None
     else Some (sh_type sh = SHT_REL, idx, oe_malloc env (12 * nrels), map (elf_rel_of elf symbols data) [0..<nrels]))"

fun collect_reloc_secs ::
    "'k open_env \<Rightarrow> elf_file \<Rightarrow> elf_data \<Rightarrow> (elf_shdr \<times> elf_data) list \<Rightarrow> reloc_obj \<Rightarrow> (int \<times> reloc_obj) option" where
  "collect_reloc_secs env elf symbols [] ro = Some (0, ro)"
| "collect_reloc_secs env elf symbols (s # ss) ro = do {
     sec \<leftarrow> reloc_sec_of env elf symbols ro s;
     (err, ro) \<leftarrow> bpf_object__collect_reloc True [sec] ro;
     if err \<noteq> 0 then Some (err, ro) else collect_reloc_secs env elf symbols ss ro
   }"

definition collect_object_relocs :: "'k open_env \<Rightarrow> elf_obj \<Rightarrow> (int \<times> elf_obj) option" where
  "collect_object_relocs env obj = do {
     elf \<leftarrow> eo_elf obj;
     symbols \<leftarrow> eo_symbols obj;
     ro \<leftarrow> reloc_part (load_obj.truncate obj);
     (err, ro) \<leftarrow> collect_reloc_secs env elf symbols (eo_reloc obj) ro;
     Some (err, obj\<lparr>lo_programs := map2 (\<lambda>prog rp. prog\<lparr>ld_prog := rp\<rparr>) (lo_programs obj) (ro_programs ro),
                     lo_has_pseudo_calls := ro_has_pseudo_calls ro\<rparr>)
   }"

section \<open>Types of the programs\<close>

definition is_storage :: "elf_obj \<Rightarrow> load_prog \<Rightarrow> bool" where
  "is_storage obj prog \<longleftrightarrow> rp_idx (ld_prog prog) = lo_text_shndx obj \<and> lo_has_pseudo_calls obj"

fun set_prog_types :: "(int + btf) option \<Rightarrow> elf_obj \<Rightarrow> load_prog list \<Rightarrow> (int \<times> load_prog list) option" where
  "set_prog_types kernel_btf obj [] = Some (0, [])"
| "set_prog_types kernel_btf obj (prog # progs) =
     (let next_progs = (\<lambda>prog. map_option (\<lambda>(err, ps). (err, prog # ps)) (set_prog_types kernel_btf obj progs));
          name = bytes_str (rp_section_name (ld_prog prog))
      in if is_storage obj prog then next_progs prog
         else (case libbpf_prog_type_by_name (Some name) of
                 Inl err \<Rightarrow> if err = - ESRCH then next_progs prog else Some (err, prog # progs)
               | Inr (prog_type, attach_type) \<Rightarrow>
                   (let prog = bpf_program__set_expected_attach_type attach_type (prog\<lparr>ld_type := prog_type\<rparr>)
                    in if prog_type = BPF_PROG_TYPE_TRACING then do {
                         r \<leftarrow> libbpf_attach_btf_id_by_name kernel_btf (Some name);
                         (case r of Inl err \<Rightarrow> Some (err, prog # progs) | Inr btf_id \<Rightarrow> next_progs (prog\<lparr>ld_attach_btf_id := btf_id\<rparr>))
                       }
                       else next_progs prog)))"

section \<open>Closing\<close>

fun exit_progs :: "'k obj_kernel \<Rightarrow> load_prog list \<Rightarrow> 'k process \<Rightarrow> 'k process option" where
  "exit_progs kn [] p = Some p"
| "exit_progs kn (prog # progs) p = do { (_, p) \<leftarrow> bpf_program__exit kn prog p; exit_progs kn progs p }"

text \<open>Memory is given back as well; the descriptors are what remains to be seen of the object.\<close>

definition bpf_object__close :: "'k open_env \<Rightarrow> elf_obj \<Rightarrow> 'k process \<Rightarrow> 'k process option" where
  "bpf_object__close env obj p = do {
     let (obj, p) = bpf_object__elf_finish env obj p;
     (_, lo, p) \<leftarrow> bpf_object__unload (oe_kernel env) (load_obj.truncate obj) p;
     let p = btf_free_calls env (lo_btf obj) p;
     exit_progs (oe_kernel env) (lo_programs lo) p
   }"

section \<open>Opening\<close>

text \<open>The options as the caller lays them out: their size, and the bytes behind the fields that this version knows.\<close>

record open_opts =
  op_sz :: nat
  op_object_name :: "string option"
  op_relaxed_maps :: bool
  op_relaxed_core_relocs :: bool
  op_pin_root_path :: "string option"
  op_tail :: bytes

definition OPEN_OPTS :: nat where "OPEN_OPTS = 32"

fun zero_tail :: "bytes \<Rightarrow> nat \<Rightarrow> bool option" where
  "zero_tail tail 0 = Some True"
| "zero_tail [] (Suc n) = None"
| "zero_tail (c # cs) (Suc n) = (if c \<noteq> 0 then Some False else zero_tail cs n)"

definition libbpf_validate_opts :: "bytes \<Rightarrow> nat \<Rightarrow> nat \<Rightarrow> bool option" where
  "libbpf_validate_opts tail opts_sz user_sz =
     (if user_sz < 8 then Some False else if user_sz > opts_sz then zero_tail tail (user_sz - opts_sz) else Some True)"

text \<open>\<^verbatim>\<open>OPTS_HAS\<close> with the ends of the fields: 16, 17, 18 and 32.\<close>

definition OPTS_HAS :: "open_opts option \<Rightarrow> nat \<Rightarrow> bool" where
  "OPTS_HAS opts field_end = (case opts of None \<Rightarrow> False | Some oo \<Rightarrow> op_sz oo \<ge> field_end)"

fun hex_digits :: "nat \<Rightarrow> string" where
  "hex_digits n =
     (let c = (\<lambda>d. if d < 10 then char_of (48 + d) else char_of (87 + d)) in
      if n < 16 then [c n] else hex_digits (n div 16) @ [c (n mod 16)])"

declare hex_digits.simps [simp del]

text \<open>A buffer is its address and its bytes.\<close>

definition buf_name :: "u64 \<times> bytes \<Rightarrow> string" where
  "buf_name b = take 63 (hex_digits (unat (fst b)) @ ''-'' @ hex_digits (length (snd b)))"

text \<open>The steps after the object was made; the error of the first that fails, with the object as it is then.\<close>

definition open_steps ::
    "'k open_env \<Rightarrow> core_env \<Rightarrow> bool \<Rightarrow> string option \<Rightarrow> elf_obj \<Rightarrow> 'k process \<Rightarrow> (int \<times> elf_obj \<times> 'k process) option" where
  "open_steps env core relaxed_maps pin_root_path obj p = do {
     let (err, obj, p) = bpf_object__elf_init env obj p;
     if err \<noteq> 0 then Some (err, obj, p)
     else if bpf_object__check_endianness obj \<noteq> 0 then Some (bpf_object__check_endianness obj, obj, p)
     else do {
       (_, obj, p) \<leftarrow> bpf_object__probe_caps env obj p;
       (err, obj, p) \<leftarrow> bpf_object__elf_collect env relaxed_maps pin_root_path obj p;
       if err \<noteq> 0 then Some (err, obj, p)
       else do {
         (err, obj) \<leftarrow> collect_object_relocs env obj;
         if err \<noteq> 0 then Some (err, obj, p)
         else do {
           let (obj, p) = bpf_object__elf_finish env obj p;
           (err, progs) \<leftarrow> set_prog_types (bpf_core_find_kernel_btf core) obj (lo_programs obj);
           Some (err, obj\<lparr>lo_programs := progs\<rparr>, p)
         }
       }
     }
   }"

text \<open>Making the object and opening it; on an error it is closed.\<close>

definition open_new ::
    "'k open_env \<Rightarrow> core_env \<Rightarrow> open_opts option \<Rightarrow> string \<Rightarrow> bytes option \<Rightarrow> string option \<Rightarrow> 'k process \<Rightarrow> ((int + elf_obj) \<times> 'k process) option" where
  "open_new env core opts path obj_buf name p =
     (case bpf_object__new env path obj_buf name of
        Inl err \<Rightarrow> Some (Inl err, p)
      | Inr obj \<Rightarrow> do {
          let obj = obj\<lparr>lo_relaxed_core_relocs := OPTS_HAS opts 18 \<and> op_relaxed_core_relocs (the opts)\<rparr>;
          (err, obj, p) \<leftarrow> open_steps env core (OPTS_HAS opts 17 \<and> op_relaxed_maps (the opts))
            (if OPTS_HAS opts 32 then op_pin_root_path (the opts) else None) obj p;
          if err \<noteq> 0 then map_option (\<lambda>p. (Inl err, p)) (bpf_object__close env obj p)
          else Some (Inr obj, p)
        })"

definition bpf_object_open ::
    "'k open_env \<Rightarrow> core_env \<Rightarrow> string option \<Rightarrow> (u64 \<times> bytes) option \<Rightarrow> open_opts option \<Rightarrow> 'k process
      \<Rightarrow> ((int + elf_obj) \<times> 'k process) option" where
  "bpf_object_open env core path obj_buf opts p =
     (if \<not> oe_elf_version env then Some (Inl (- LIBBPF_ERRNO__LIBELF), p)
      else do {
        valid \<leftarrow> (case opts of None \<Rightarrow> Some True | Some oo \<Rightarrow> libbpf_validate_opts (op_tail oo) OPEN_OPTS (op_sz oo));
        if \<not> valid then Some (Inl (- EINVAL), p)
        else do {
          let name = (if OPTS_HAS opts 16 then op_object_name (the opts) else path);
          let (name, path) = (case obj_buf of
                None \<Rightarrow> (name, path)
              | Some b \<Rightarrow> (let name = (if name = None then Some (buf_name b) else name) in (name, name)));
          path \<leftarrow> path;
          open_new env core opts path (map_option snd obj_buf) name p
        }
      })"

text \<open>The functions for the caller; inner \<open>None\<close> is the null pointer.\<close>

definition open_opts_default :: open_opts where
  "open_opts_default = \<lparr>op_sz = OPEN_OPTS, op_object_name = None, op_relaxed_maps = False, op_relaxed_core_relocs = False,
     op_pin_root_path = None, op_tail = []\<rparr>"

definition MAPS_RELAX_COMPAT :: u32 where "MAPS_RELAX_COMPAT = 1"

definition bpf_object_open_xattr :: "'k open_env \<Rightarrow> core_env \<Rightarrow> string option \<Rightarrow> u32 \<Rightarrow> 'k process \<Rightarrow> ((int + elf_obj) option \<times> 'k process) option" where
  "bpf_object_open_xattr env core path flags p =
     (if path = None then Some (None, p)
      else map_option (\<lambda>(r, p). (Some r, p))
        (bpf_object_open env core path None (Some (open_opts_default\<lparr>op_relaxed_maps := flags AND MAPS_RELAX_COMPAT \<noteq> 0\<rparr>)) p))"

definition bpf_object__open :: "'k open_env \<Rightarrow> core_env \<Rightarrow> string option \<Rightarrow> 'k process \<Rightarrow> ((int + elf_obj) option \<times> 'k process) option" where
  "bpf_object__open env core path p = bpf_object_open_xattr env core path 0 p"

definition bpf_object__open_file ::
    "'k open_env \<Rightarrow> core_env \<Rightarrow> string option \<Rightarrow> open_opts option \<Rightarrow> 'k process \<Rightarrow> ((int + elf_obj) \<times> 'k process) option" where
  "bpf_object__open_file env core path opts p =
     (if path = None then Some (Inl (- EINVAL), p) else bpf_object_open env core path None opts p)"

definition bpf_object__open_mem ::
    "'k open_env \<Rightarrow> core_env \<Rightarrow> (u64 \<times> bytes) option \<Rightarrow> open_opts option \<Rightarrow> 'k process \<Rightarrow> ((int + elf_obj) \<times> 'k process) option" where
  "bpf_object__open_mem env core obj_buf opts p =
     (if obj_buf = None \<or> map_option snd obj_buf = Some [] then Some (Inl (- EINVAL), p)
      else bpf_object_open env core None obj_buf opts p)"

definition bpf_object__open_buffer ::
    "'k open_env \<Rightarrow> core_env \<Rightarrow> (u64 \<times> bytes) option \<Rightarrow> string option \<Rightarrow> 'k process \<Rightarrow> ((int + elf_obj) option \<times> 'k process) option" where
  "bpf_object__open_buffer env core obj_buf name p =
     (if obj_buf = None \<or> map_option snd obj_buf = Some [] then Some (None, p)
      else map_option (\<lambda>(r, p). (Some r, p))
        (bpf_object__open_mem env core obj_buf (Some (open_opts_default\<lparr>op_object_name := name, op_relaxed_maps := True\<rparr>)) p))"

end
