(* ===== verification/Open_Correct.thy ===== *)
theory Open_Correct
  imports Obj_Open
begin

text \<open>
  What opening an object guarantees: the programs are the executable sections of the file, byte for byte and in their order, with the types
  that their names ask for; a failed open leaves no descriptor behind, and closing an object that was opened gives back what it
  held.
\<close>

unbundle bit_operations_syntax

section \<open>The steps of opening\<close>

text \<open>Nothing of a program changes but its name, its type and the descriptions of its relocations.\<close>

definition prog_view :: "load_prog \<Rightarrow> int \<times> bytes \<times> bpf_insn list" where
  "prog_view prog = (rp_idx (ld_prog prog), rp_section_name (ld_prog prog), rp_insns (ld_prog prog))"

definition no_prog_fds :: "load_prog \<Rightarrow> bool" where
  "no_prog_fds prog \<longleftrightarrow> ld_fds prog = None \<and> ld_nr prog = -1"

definition no_fds :: "elf_obj \<Rightarrow> bool" where
  "no_fds obj \<longleftrightarrow> no_map_fds obj \<and> (\<forall>prog\<in>set (lo_programs obj). no_prog_fds prog)"

definition open_step :: "elf_obj \<Rightarrow> elf_obj \<Rightarrow> bool" where
  "open_step obj obj' \<longleftrightarrow> eo_elf obj' = eo_elf obj \<and> eo_fd obj' = eo_fd obj \<and> map prog_view (lo_programs obj') = map prog_view (lo_programs obj) \<and>
     (no_fds obj \<longrightarrow> no_fds obj')"

lemma open_step_refl [simp]: "open_step obj obj"
  by (simp add: open_step_def)

lemma open_step_trans: "open_step a b \<Longrightarrow> open_step b c \<Longrightarrow> open_step a c"
  by (simp add: open_step_def)

lemma map_open_step: "map_step obj obj' \<Longrightarrow> open_step obj obj'"
  by (simp add: map_step_def open_step_def no_fds_def)

lemma open_step_same:
  assumes "eo_elf obj' = eo_elf obj" "eo_fd obj' = eo_fd obj" "lo_programs obj' = lo_programs obj" "lo_maps obj' = lo_maps obj"
    "eo_spare_maps obj' = eo_spare_maps obj"
  shows "open_step obj obj'"
  using assms by (simp add: open_step_def no_fds_def no_map_fds_def)

lemma probe_caps_step:
  assumes "bpf_object__probe_caps env obj p = Some (r, obj', p')"
  shows "open_step obj obj' \<and> lo_btf obj' = lo_btf obj \<and> eo_ehdr obj' = eo_ehdr obj"
proof -
  obtain r1 o1 p1 r2 o2 p2 r3 o3 p3 r4 where
    s: "bpf_object__probe_name env obj p = Some (r1, o1, p1)" "bpf_object__probe_global_data env o1 p1 = Some (r2, o2, p2)"
      "bpf_object__probe_btf_func env o2 p2 = (r3, o3, p3)" "bpf_object__probe_btf_datasec env o3 p3 = (r4, obj', p')"
    using assms by (auto simp: bpf_object__probe_caps_def split: Option.bind_splits prod.splits)
  have "open_step obj o1 \<and> lo_btf o1 = lo_btf obj \<and> eo_ehdr o1 = eo_ehdr obj" using s(1)
    by (auto simp: bpf_object__probe_name_def Let_def intro!: open_step_same split: Option.bind_splits if_splits)
  moreover have "open_step o1 o2 \<and> lo_btf o2 = lo_btf o1 \<and> eo_ehdr o2 = eo_ehdr o1" using s(2)
    by (auto simp: bpf_object__probe_global_data_def Let_def intro!: open_step_same split: Option.bind_splits if_splits prod.splits)
  moreover have "open_step o2 o3 \<and> lo_btf o3 = lo_btf o2 \<and> eo_ehdr o3 = eo_ehdr o2" using s(3)
    by (auto simp: bpf_object__probe_btf_func_def intro!: open_step_same split: if_splits prod.splits)
  moreover have "open_step o3 obj' \<and> lo_btf obj' = lo_btf o3 \<and> eo_ehdr obj' = eo_ehdr o3" using s(4)
    by (auto simp: bpf_object__probe_btf_datasec_def intro!: open_step_same split: if_splits prod.splits)
  ultimately show ?thesis by (metis open_step_trans)
qed

lemma init_btf_step: "bpf_object__init_btf env bs es obj = Some (err, obj') \<Longrightarrow> open_step obj obj'"
  by (auto simp: bpf_object__init_btf_def Let_def intro!: open_step_same split: Option.bind_splits sum.splits)

text \<open>The loops that go over the programs replace a prefix of them by programs that look the same.\<close>

definition same_progs :: "load_prog list \<Rightarrow> load_prog list \<Rightarrow> bool" where
  "same_progs progs progs' \<longleftrightarrow> map prog_view progs' = map prog_view progs \<and> ((\<forall>p\<in>set progs. no_prog_fds p) \<longrightarrow> (\<forall>p\<in>set progs'. no_prog_fds p))"

lemma same_progs_refl [simp]: "same_progs progs progs"
  by (simp add: same_progs_def)

lemma same_progs_Cons:
  "same_progs progs progs' \<Longrightarrow> prog_view prog' = prog_view prog \<Longrightarrow> (no_prog_fds prog \<Longrightarrow> no_prog_fds prog') \<Longrightarrow> same_progs (prog # progs) (prog' # progs')"
  by (simp add: same_progs_def)

lemma prog_view_simps [simp]:
  "prog_view (prog\<lparr>ld_name := n\<rparr>) = prog_view prog" "no_prog_fds (prog\<lparr>ld_name := n\<rparr>) = no_prog_fds prog"
  "prog_view (prog\<lparr>ld_type := t\<rparr>) = prog_view prog" "no_prog_fds (prog\<lparr>ld_type := t\<rparr>) = no_prog_fds prog"
  "prog_view (prog\<lparr>ld_attach_btf_id := i\<rparr>) = prog_view prog" "no_prog_fds (prog\<lparr>ld_attach_btf_id := i\<rparr>) = no_prog_fds prog"
  "prog_view (bpf_program__set_expected_attach_type a prog) = prog_view prog"
  "no_prog_fds (bpf_program__set_expected_attach_type a prog) = no_prog_fds prog"
  by (simp_all add: prog_view_def no_prog_fds_def bpf_program__set_expected_attach_type_def)

lemma init_prog_names_loop_view: "init_prog_names_loop env elf symbols obj progs = (err, progs') \<Longrightarrow> same_progs progs progs'"
proof (induction progs arbitrary: err progs')
  case (Cons prog progs)
  obtain e ps where r: "init_prog_names_loop env elf symbols obj progs = (e, ps)" by fastforce
  note v = Cons.IH [OF r]
  have "progs' = prog # progs \<or> (\<exists>n. progs' = prog\<lparr>ld_name := n\<rparr> # ps)"
    using Cons.prems by (simp add: r Let_def split: sum.split_asm option.split_asm if_split_asm) auto
  then show ?case using v by (auto intro: same_progs_Cons)
qed simp

lemma init_prog_names_step:
  assumes "bpf_object__init_prog_names env obj = Some (err, obj')"
  shows "open_step obj obj' \<and> lo_btf obj' = lo_btf obj"
proof (cases "lo_programs obj = []")
  case False
  then obtain elf symbols progs where "init_prog_names_loop env elf symbols obj (lo_programs obj) = (err, progs)" "obj' = obj\<lparr>lo_programs := progs\<rparr>"
    using assms by (auto simp: bpf_object__init_prog_names_def split: Option.bind_splits prod.splits)
  then show ?thesis using init_prog_names_loop_view [of env elf symbols obj "lo_programs obj"]
    by (simp add: same_progs_def open_step_def no_fds_def no_map_fds_def)
qed (use assms in \<open>simp add: bpf_object__init_prog_names_def\<close>)

lemma sanitize_btf_step:
  "bpf_object__sanitize_btf obj = Some obj' \<Longrightarrow> open_step obj obj'" "open_step obj (bpf_object__sanitize_btf_ext obj)"
  by (auto simp: bpf_object__sanitize_btf_def bpf_object__sanitize_btf_ext_def Let_def intro!: open_step_same
      split: option.splits if_splits Option.bind_splits)

lemma sanitize_and_load_step:
  assumes "bpf_object__sanitize_and_load_btf env obj p = Some (err, obj', p')"
  shows "open_step obj obj'"
proof (cases "lo_btf obj = None")
  case False
  then obtain o1 where o1: "bpf_object__sanitize_btf obj = Some o1"
    using assms by (auto simp: bpf_object__sanitize_and_load_btf_def split: Option.bind_splits)
  then have "open_step (bpf_object__sanitize_btf_ext o1) obj'"
    using assms False
    by (auto simp: bpf_object__sanitize_and_load_btf_def Let_def intro!: open_step_same split: Option.bind_splits prod.splits if_splits)
  then show ?thesis using sanitize_btf_step(1) [OF o1] sanitize_btf_step(2) [of o1] by (blast intro: open_step_trans)
qed (use assms in \<open>simp add: bpf_object__sanitize_and_load_btf_def\<close>)

section \<open>Relocation entries\<close>

definition reloc_view :: "reloc_prog \<Rightarrow> int \<times> bytes \<times> bpf_insn list" where
  "reloc_view rp = (rp_idx rp, rp_section_name rp, rp_insns rp)"

lemma map_update_same: "i < length xs \<Longrightarrow> f y = f (xs ! i) \<Longrightarrow> map f (xs[i := y]) = map f xs"
  by (metis list_update_id map_update)

lemma find_takeWhile:
  assumes "find (\<lambda>p. f p = idx) xs = Some x"
  shows "length (takeWhile (\<lambda>p. f p \<noteq> idx) xs) < length xs \<and> xs ! length (takeWhile (\<lambda>p. f p \<noteq> idx) xs) = x"
  using assms by (induction xs) (auto split: if_splits)

lemma collect_sections_view: "collect_sections secs ro = Some (err, ro') \<Longrightarrow> map reloc_view (ro_programs ro') = map reloc_view (ro_programs ro)"
proof (induction secs ro arbitrary: ro' rule: collect_sections.induct)
  case (2 is_rel idx malloc_ok rels secs obj)
  show ?case
  proof (cases "is_rel \<and> bpf_object__find_prog_by_idx obj idx \<noteq> None")
    case True
    then obtain prog e prog1 obj1 where f: "bpf_object__find_prog_by_idx obj idx = Some prog"
      and c: "bpf_program__collect_reloc malloc_ok rels prog obj = Some (e, prog1, obj1)"
      using "2.prems" by (auto split: Option.bind_splits)
    let ?i = "length (takeWhile (\<lambda>p. rp_idx p \<noteq> idx) (ro_programs obj))"
    have o1: "ro_programs obj1 = ro_programs obj" "reloc_view prog1 = reloc_view prog"
      using c by (auto simp: bpf_program__collect_reloc_def reloc_view_def split: if_splits Option.bind_splits)
    have same: "map reloc_view ((ro_programs obj)[?i := prog1]) = map reloc_view (ro_programs obj)"
      using find_takeWhile [of rp_idx idx "ro_programs obj" prog] f o1(2) by (auto simp: bpf_object__find_prog_by_idx_def intro: map_update_same)
    show ?thesis
    proof (cases "e = 0")
      case True
      then show ?thesis using "2.IH" [OF _ f c refl refl refl refl] "2.prems" f c \<open>is_rel \<and> _\<close> same o1 by (auto simp: Let_def)
    next
      case False
      then show ?thesis using "2.prems" f c \<open>is_rel \<and> _\<close> same o1 by (auto simp: Let_def)
    qed
  qed (use "2.prems" in \<open>auto split: if_splits option.splits\<close>)
qed simp

lemma collect_reloc_secs_view:
  "collect_reloc_secs env elf symbols ss ro = Some (err, ro') \<Longrightarrow> map reloc_view (ro_programs ro') = map reloc_view (ro_programs ro)"
  by (induction ss arbitrary: ro)
    (auto simp: bpf_object__collect_reloc_def split: Option.bind_splits if_splits dest!: collect_sections_view)

lemma map2_view:
  assumes "map reloc_view rps = map (reloc_view \<circ> ld_prog) progs"
  shows "map prog_view (map2 (\<lambda>prog rp. prog\<lparr>ld_prog := rp\<rparr>) progs rps) = map prog_view progs"
    "\<forall>p\<in>set progs. no_prog_fds p \<Longrightarrow> \<forall>p\<in>set (map2 (\<lambda>prog rp. prog\<lparr>ld_prog := rp\<rparr>) progs rps). no_prog_fds p"
proof -
  have len: "length rps = length progs" using assms by (metis length_map)
  show "map prog_view (map2 (\<lambda>prog rp. prog\<lparr>ld_prog := rp\<rparr>) progs rps) = map prog_view progs"
  proof (rule nth_equalityI)
    fix i assume "i < length (map prog_view (map2 (\<lambda>prog rp. prog\<lparr>ld_prog := rp\<rparr>) progs rps))"
    then have i: "i < length progs" by simp
    then have "reloc_view (rps ! i) = reloc_view (ld_prog (progs ! i))" using assms len by (metis comp_apply nth_map)
    then show "map prog_view (map2 (\<lambda>prog rp. prog\<lparr>ld_prog := rp\<rparr>) progs rps) ! i = map prog_view progs ! i"
      using i len by (simp add: prog_view_def reloc_view_def)
  qed (simp add: len)
  show "\<forall>p\<in>set progs. no_prog_fds p \<Longrightarrow> \<forall>p\<in>set (map2 (\<lambda>prog rp. prog\<lparr>ld_prog := rp\<rparr>) progs rps). no_prog_fds p"
    by (auto simp: no_prog_fds_def dest!: set_zip_leftD)
qed

lemma collect_relocs_step:
  assumes "collect_object_relocs env obj = Some (err, obj')"
  shows "open_step obj obj' \<and> lo_btf obj' = lo_btf obj"
proof -
  obtain elf symbols ro ro' where r: "reloc_part (load_obj.truncate obj) = Some ro"
    "collect_reloc_secs env elf symbols (eo_reloc obj) ro = Some (err, ro')"
    "obj' = obj\<lparr>lo_programs := map2 (\<lambda>prog rp. prog\<lparr>ld_prog := rp\<rparr>) (lo_programs obj) (ro_programs ro'),
                lo_has_pseudo_calls := ro_has_pseudo_calls ro'\<rparr>"
    using assms by (auto simp: collect_object_relocs_def split: Option.bind_splits)
  have "ro_programs ro = map ld_prog (lo_programs obj)" using r(1) by (auto simp: reloc_part_def load_obj.defs split: if_splits)
  then have "map reloc_view (ro_programs ro') = map (reloc_view \<circ> ld_prog) (lo_programs obj)" using collect_reloc_secs_view [OF r(2)] by simp
  from map2_view [OF this] r(3) show ?thesis by (simp add: open_step_def no_fds_def no_map_fds_def)
qed

lemma set_prog_types_view: "set_prog_types kb obj progs = Some (err, progs') \<Longrightarrow> same_progs progs progs'"
proof (induction progs arbitrary: err progs')
  case (Cons prog progs)
  show ?case using Cons.prems
    by (simp add: Let_def split: sum.split_asm if_split_asm prod.split_asm Option.bind_split_asm) (auto intro!: same_progs_Cons intro: Cons.IH same_progs_refl)
qed simp

section \<open>The programs of the file\<close>

text \<open>The executable sections of a file, with their index, name and bytes. Sections with one of the names below are never programs.\<close>

definition reserved_sections :: "string list" where
  "reserved_sections = [''license'', ''version'', ''maps'', MAPS_ELF_SEC, BTF_ELF_SEC, BTF_EXT_ELF_SEC]"

definition is_program :: "string \<Rightarrow> elf_shdr \<Rightarrow> elf_data \<Rightarrow> bool" where
  "is_program name sh data \<longleftrightarrow>
     name \<notin> set reserved_sections \<and> sh_type sh = SHT_PROGBITS \<and> d_size data > 0 \<and> sh_flags sh AND SHF_EXECINSTR \<noteq> 0"

fun program_sections :: "elf_file \<Rightarrow> nat \<Rightarrow> int \<Rightarrow> elf_scn list \<Rightarrow> (int \<times> bytes \<times> bytes) list" where
  "program_sections elf shstrndx idx [] = []"
| "program_sections elf shstrndx idx (scn # scns) =
     (let sh = the (sn_shdr scn); data = the (sn_data scn); name = the (el_strptr elf shstrndx (sh_name sh))
      in (if is_program name sh data then [(idx, str_bytes name, take (d_size data) (the (d_buf data)))] else []) @
         program_sections elf shstrndx (idx + 1) scns)"

text \<open>A program as the section it comes from.\<close>

definition prog_section :: "load_prog \<Rightarrow> int \<times> bytes \<times> bytes" where
  "prog_section prog = (let (idx, name, insns) = prog_view prog in (idx, name, encode_insns insns))"

lemma view_section: "map prog_view ps = map prog_view qs \<Longrightarrow> map prog_section ps = map prog_section qs"
proof -
  assume v: "map prog_view ps = map prog_view qs"
  have "map prog_section xs = map (\<lambda>(idx, name, insns). (idx, name, encode_insns insns)) (map prog_view xs)" for xs
    by (simp add: prog_section_def comp_def Let_def case_prod_beta)
  then show ?thesis using v by metis
qed

lemma add_program_section:
  assumes "bpf_object__add_program env data name idx obj = Some (0, obj')"
  shows "\<exists>prog. obj' = obj\<lparr>lo_programs := lo_programs obj @ [prog]\<rparr> \<and> prog_section prog = (idx, str_bytes name, take (d_size data) (the (d_buf data)))
    \<and> no_prog_fds prog"
proof -
  obtain prog where i: "bpf_program__init env data name idx = Some (Inr prog)" and o: "obj' = obj\<lparr>lo_programs := lo_programs obj @ [prog]\<rparr>"
    using assms by (auto simp: bpf_object__add_program_def bpf_program__init_def errno_defs split: Option.bind_splits sum.splits if_splits)
  then obtain buf where "d_size data mod 8 = 0" "d_buf data = Some buf" "d_size data \<le> length buf"
    "prog = zero_prog\<lparr>ld_nr := -1, ld_type := BPF_PROG_TYPE_UNSPEC, ld_prog := zero_reloc_prog\<lparr>rp_section_name := str_bytes name,
       rp_insns := decode_insns (take (d_size data) buf), rp_idx := idx\<rparr>\<rparr>"
    by (auto simp: bpf_program__init_def load_def split: if_splits Option.bind_splits)
  then show ?thesis using o
    by (auto simp: prog_section_def prog_view_def encode_decode_insns zero_reloc_prog_def zero_prog_def no_prog_fds_def)
qed

text \<open>A section of the walk adds a program or none, and a step that fails adds none.\<close>

lemma on_obj_Some: "on_obj w r = Some (err, w') \<longleftrightarrow> (\<exists>obj. r = Some (err, obj) \<and> w' = w\<lparr>wk_obj := obj\<rparr>)"
  by (auto simp: on_obj_def)

lemma collect_section_keeps:
  assumes "collect_section env elf idx name sh data w = Some (err, w')"
  shows "eo_elf (wk_obj w') = eo_elf (wk_obj w) \<and> eo_fd (wk_obj w') = eo_fd (wk_obj w) \<and> lo_maps (wk_obj w') = lo_maps (wk_obj w) \<and>
    eo_spare_maps (wk_obj w') = eo_spare_maps (wk_obj w) \<and> lo_btf (wk_obj w') = lo_btf (wk_obj w)"
  using assms
  by (auto simp: collect_section_def Let_def on_obj_Some bpf_object__init_license_def bpf_object__init_kversion_def bpf_object__add_program_def
      split: if_split_asm Option.bind_splits sum.splits)

lemma collect_section_programs:
  assumes "collect_section env elf idx name sh data w = Some (err, w')"
  shows "is_program name sh data \<Longrightarrow> err = 0 \<Longrightarrow> \<exists>prog. lo_programs (wk_obj w') = lo_programs (wk_obj w) @ [prog] \<and>
      prog_section prog = (idx, str_bytes name, take (d_size data) (the (d_buf data))) \<and> no_prog_fds prog"
    "is_program name sh data \<Longrightarrow> err \<noteq> 0 \<Longrightarrow> lo_programs (wk_obj w') = lo_programs (wk_obj w)"
    "\<not> is_program name sh data \<Longrightarrow> lo_programs (wk_obj w') = lo_programs (wk_obj w)"
proof -
  let ?add = "bpf_object__add_program env data name idx (if name = ''.text'' then (wk_obj w)\<lparr>lo_text_shndx := idx\<rparr> else wk_obj w)"
  have prog: "on_obj w ?add = Some (err, w')" if "is_program name sh data"
    using assms that by (simp add: collect_section_def is_program_def reserved_sections_def elf_const_defs Let_def)
  show "\<exists>prog. lo_programs (wk_obj w') = lo_programs (wk_obj w) @ [prog] \<and>
      prog_section prog = (idx, str_bytes name, take (d_size data) (the (d_buf data))) \<and> no_prog_fds prog"
    if "is_program name sh data" "err = 0"
    using prog [OF that(1)] that(2) by (auto simp: on_obj_Some dest!: add_program_section split: if_splits)
  show "lo_programs (wk_obj w') = lo_programs (wk_obj w)" if "is_program name sh data" "err \<noteq> 0"
    using prog [OF that(1)] that(2) by (auto simp: on_obj_Some bpf_object__add_program_def split: if_splits Option.bind_splits sum.splits)
  show "lo_programs (wk_obj w') = lo_programs (wk_obj w)" if "\<not> is_program name sh data"
    using assms that
    by (auto simp: collect_section_def is_program_def reserved_sections_def Let_def on_obj_Some bpf_object__init_license_def
        bpf_object__init_kversion_def split: if_split_asm Option.bind_splits)
qed

lemma collect_sections_from_keeps:
  assumes "collect_sections_from env elf shstrndx idx scns w = Some (err, w')"
  shows "eo_elf (wk_obj w') = eo_elf (wk_obj w) \<and> eo_fd (wk_obj w') = eo_fd (wk_obj w) \<and> lo_btf (wk_obj w') = lo_btf (wk_obj w) \<and>
    (no_fds (wk_obj w) \<longrightarrow> no_fds (wk_obj w'))"
  using assms
proof (induction scns arbitrary: idx w)
  case (Cons scn scns)
  show ?case
  proof (cases "\<exists>sh name data. sn_shdr scn = Some sh \<and> el_strptr elf shstrndx (sh_name sh) = Some name \<and> sn_data scn = Some data")
    case True
    then obtain sh name data e w1 where "sn_shdr scn = Some sh" "el_strptr elf shstrndx (sh_name sh) = Some name" "sn_data scn = Some data"
      and s: "collect_section env elf idx name sh data w = Some (e, w1)"
      using Cons.prems by (auto split: Option.bind_splits)
    then have r: "e \<noteq> 0 \<and> w' = w1 \<or> collect_sections_from env elf shstrndx (idx + 1) scns w1 = Some (err, w')"
      using Cons.prems by (auto split: if_splits)
    have "no_fds (wk_obj w) \<longrightarrow> no_fds (wk_obj w1)"
      using collect_section_keeps [OF s] collect_section_programs [OF s]
      by (cases "is_program name sh data"; cases "e = 0") (auto simp: no_fds_def no_map_fds_def)
    then show ?thesis using r Cons.IH collect_section_keeps [OF s] by metis
  qed (use Cons.prems in \<open>auto split: option.splits\<close>)
qed simp

lemma collect_sections_from_programs:
  assumes "collect_sections_from env elf shstrndx idx scns w = Some (0, w')"
  shows "map prog_section (lo_programs (wk_obj w')) = map prog_section (lo_programs (wk_obj w)) @ program_sections elf shstrndx idx scns"
  using assms
proof (induction scns arbitrary: idx w)
  case (Cons scn scns)
  then obtain sh name data w1 where d: "sn_shdr scn = Some sh" "el_strptr elf shstrndx (sh_name sh) = Some name" "sn_data scn = Some data"
    and s: "collect_section env elf idx name sh data w = Some (0, w1)" and r: "collect_sections_from env elf shstrndx (idx + 1) scns w1 = Some (0, w')"
    by (auto simp: LIBBPF_ERRNO__FORMAT_def split: Option.bind_splits option.splits if_splits)
  show ?case using Cons.IH [OF r] collect_section_programs [OF s] d by (cases "is_program name sh data") auto
qed simp


section \<open>Opening an object\<close>

lemma elf_collect_rest_step:
  assumes "elf_collect_rest env relaxed root w p = Some (err, obj', p')"
  shows "open_step (wk_obj w) obj'"
proof -
  obtain e1 o1 where s1: "bpf_object__init_btf env (wk_btf w) (wk_btf_ext w) (wk_obj w) = Some (e1, o1)"
    using assms by (auto simp: elf_collect_rest_def split: Option.bind_splits)
  note k1 = init_btf_step [OF s1]
  show ?thesis
  proof (cases "e1 = 0")
    case True
    then obtain e2 o2 where s2: "bpf_object__init_maps env relaxed root o1 = Some (e2, o2)"
      using assms s1 by (auto simp: elf_collect_rest_def split: Option.bind_splits)
    note k2 = open_step_trans [OF k1 map_open_step [OF init_maps_step [OF s2]]]
    show ?thesis
    proof (cases "e2 = 0")
      case True
      then obtain e3 o3 p3 where s3: "bpf_object__sanitize_and_load_btf env o2 p = Some (e3, o3, p3)"
        using assms s1 s2 \<open>e1 = 0\<close> by (auto simp: elf_collect_rest_def split: Option.bind_splits)
      note k3 = open_step_trans [OF k2 sanitize_and_load_step [OF s3]]
      have "obj' = o3 \<or> (\<exists>e. bpf_object__init_prog_names env o3 = Some (e, obj'))"
        using assms s1 s2 s3 \<open>e1 = 0\<close> \<open>e2 = 0\<close> by (auto simp: elf_collect_rest_def split: Option.bind_splits if_splits)
      then show ?thesis using k3 open_step_trans [OF k3] init_prog_names_step by metis
    qed (use assms s1 s2 \<open>e1 = 0\<close> k2 in \<open>auto simp: elf_collect_rest_def\<close>)
  qed (use assms s1 k1 in \<open>auto simp: elf_collect_rest_def\<close>)
qed

lemma elf_init_ok:
  assumes "bpf_object__elf_init env obj p = (0, obj', p')" "eo_obj_buf obj = Some bytes" "bytes \<noteq> []" "oe_elf_memory env bytes = Some elf"
  shows "\<exists>ep. el_ehdr elf = Some ep \<and> obj' = obj\<lparr>eo_elf := Some elf, eo_ehdr := ep\<rparr> \<and> p' = p"
  using assms
  by (auto simp: bpf_object__elf_init_def elf_init_checked_def elf_check_ehdr_def LIBBPF_ERRNO__FORMAT_def LIBBPF_ERRNO__LIBELF_def Let_def
      split: if_splits option.splits)

lemma elf_collect_programs:
  assumes "bpf_object__elf_collect env relaxed root obj p = Some (0, obj', p')" "eo_elf obj = Some elf"
  shows "map prog_section (lo_programs obj')
    = map prog_section (lo_programs obj) @ program_sections elf (e_shstrndx (eo_ehdr obj)) 1 (tl (el_scns elf))"
proof -
  obtain w where w: "collect_sections_from env elf (e_shstrndx (eo_ehdr obj)) 1 (tl (el_scns elf)) \<lparr>wk_obj = obj, wk_btf = None, wk_btf_ext = None\<rparr>
      = Some (0, w)" and r: "elf_collect_rest env relaxed root w p = Some (0, obj', p')"
    using assms by (auto simp: bpf_object__elf_collect_def Let_def LIBBPF_ERRNO__FORMAT_def split: if_splits Option.bind_splits)
  have "map prog_view (lo_programs obj') = map prog_view (lo_programs (wk_obj w))"
    using elf_collect_rest_step [OF r] by (simp add: open_step_def)
  from view_section [OF this] show ?thesis using collect_sections_from_programs [OF w] by simp
qed

text \<open>The steps of an open that succeeds.\<close>

lemma open_steps_ok:
  assumes "open_steps env core relaxed root obj p = Some (0, obj', p')"
  obtains o1 p1 r o2 p2 o3 p3 o4 o5 progs where "bpf_object__elf_init env obj p = (0, o1, p1)" "bpf_object__probe_caps env o1 p1 = Some (r, o2, p2)"
    "bpf_object__elf_collect env relaxed root o2 p2 = Some (0, o3, p3)" "collect_object_relocs env o3 = Some (0, o4)"
    "bpf_object__elf_finish env o4 p3 = (o5, p')" "set_prog_types (bpf_core_find_kernel_btf core) o5 (lo_programs o5) = Some (0, progs)"
    "obj' = o5\<lparr>lo_programs := progs\<rparr>"
proof -
  obtain o1 p1 where s1: "bpf_object__elf_init env obj p = (0, o1, p1)" and e: "bpf_object__check_endianness o1 = 0"
    using assms by (cases "bpf_object__elf_init env obj p") (auto simp: open_steps_def split: if_splits)
  obtain r o2 p2 where s2: "bpf_object__probe_caps env o1 p1 = Some (r, o2, p2)"
    using assms s1 e by (auto simp: open_steps_def split: Option.bind_splits)
  obtain o3 p3 where s3: "bpf_object__elf_collect env relaxed root o2 p2 = Some (0, o3, p3)"
    using assms s1 s2 e by (auto simp: open_steps_def split: Option.bind_splits if_splits)
  obtain o4 where s4: "collect_object_relocs env o3 = Some (0, o4)"
    using assms s1 s2 s3 e by (auto simp: open_steps_def split: Option.bind_splits if_splits)
  obtain o5 p5 where s5: "bpf_object__elf_finish env o4 p3 = (o5, p5)" by fastforce
  obtain progs where "set_prog_types (bpf_core_find_kernel_btf core) o5 (lo_programs o5) = Some (0, progs)" "obj' = o5\<lparr>lo_programs := progs\<rparr>" "p' = p5"
    using assms s1 s2 s3 s4 s5 e by (auto simp: open_steps_def split: Option.bind_splits)
  with that s1 s2 s3 s4 s5 show thesis by blast
qed

definition typed_by_name :: "elf_obj \<Rightarrow> load_prog \<Rightarrow> bool" where
  "typed_by_name obj prog \<longleftrightarrow> is_storage obj prog \<or>
     (case libbpf_prog_type_by_name (Some (bytes_str (rp_section_name (ld_prog prog)))) of
        Inl err \<Rightarrow> err = - ESRCH
      | Inr (prog_type, attach_type) \<Rightarrow> ld_type prog = prog_type \<and> ld_attach_type prog = attach_type)"

lemma typed_by_name_set:
  assumes "libbpf_prog_type_by_name (Some (bytes_str (rp_section_name (ld_prog prog)))) = Inr (t, a)"
  shows "typed_by_name obj (bpf_program__set_expected_attach_type a (prog\<lparr>ld_type := t\<rparr>))"
    "typed_by_name obj ((bpf_program__set_expected_attach_type a (prog\<lparr>ld_type := t\<rparr>))\<lparr>ld_attach_btf_id := i\<rparr>)"
  using assms by (simp_all add: typed_by_name_def bpf_program__set_expected_attach_type_def)

lemma type_by_name_errors: "libbpf_prog_type_by_name name \<noteq> Inl 0" "libbpf_attach_btf_id_by_name kb name \<noteq> Some (Inl 0)"
  by (auto simp: libbpf_prog_type_by_name_def libbpf_attach_btf_id_by_name_def EINVAL_def ESRCH_def split: option.splits sum.splits Option.bind_splits)

lemma set_prog_types_typed: "set_prog_types kb obj progs = Some (0, progs') \<Longrightarrow> \<forall>prog\<in>set progs'. typed_by_name obj prog"
proof (induction progs arbitrary: progs')
  case (Cons prog progs)
  have "\<exists>prog' ps. progs' = prog' # ps \<and> set_prog_types kb obj progs = Some (0, ps) \<and> typed_by_name obj prog'"
    using Cons.prems type_by_name_errors
    by (simp add: Let_def split: sum.split_asm if_split_asm prod.split_asm Option.bind_split_asm)
      (auto simp: typed_by_name_set ESRCH_def, auto simp: typed_by_name_def ESRCH_def)
  then show ?case using Cons.IH by auto
qed simp

text \<open>C17: The programs of an object that was opened from memory are the executable sections of the file that libelf found there: in the same order,
  each with the index and the name of its section and with instructions whose bytes are those of the section. A program
  whose section has a known name has the type and the attach type of that name, unless it only stores functions.\<close>

theorem open_mem_programs:
  assumes "bpf_object__open_mem env core (Some (addr, bytes)) opts p = Some (Inr obj, p')"
    and "oe_elf_memory env bytes = Some elf" "el_ehdr elf = Some ep"
  shows "map prog_section (lo_programs obj) = program_sections elf (e_shstrndx ep) 1 (tl (el_scns elf))
    \<and> (\<forall>prog\<in>set (lo_programs obj). typed_by_name obj prog)"
proof -
  have ne: "bytes \<noteq> []" using assms(1) by (auto simp: bpf_object__open_mem_def)
  obtain o0 relaxed root where s: "open_steps env core relaxed root o0 p = Some (0, obj, p')"
    and o0: "eo_obj_buf o0 = Some bytes" "lo_programs o0 = []"
    using assms(1) ne
    by (auto simp: bpf_object__open_mem_def bpf_object_open_def open_new_def bpf_object__new_def zero_obj_def Let_def
        split: if_splits Option.bind_splits sum.splits)
  obtain o1 p1 r o2 p2 o3 p3 o4 o5 progs where st: "bpf_object__elf_init env o0 p = (0, o1, p1)" "bpf_object__probe_caps env o1 p1 = Some (r, o2, p2)"
    "bpf_object__elf_collect env relaxed root o2 p2 = Some (0, o3, p3)" "collect_object_relocs env o3 = Some (0, o4)"
    "bpf_object__elf_finish env o4 p3 = (o5, p')" "set_prog_types (bpf_core_find_kernel_btf core) o5 (lo_programs o5) = Some (0, progs)"
    and obj: "obj = o5\<lparr>lo_programs := progs\<rparr>"
    by (rule open_steps_ok [OF s])
  have o1: "eo_elf o1 = Some elf" "eo_ehdr o1 = ep" "lo_programs o1 = []"
    using elf_init_ok [OF st(1) o0(1) ne assms(2)] assms(3) o0(2) by auto
  have o2: "eo_elf o2 = Some elf" "map prog_view (lo_programs o2) = []" using probe_caps_step [OF st(2)] o1 by (auto simp: open_step_def)
  have eh: "eo_ehdr o2 = eo_ehdr o1" using probe_caps_step [OF st(2)] by simp
  have "map prog_view progs = map prog_view (lo_programs o3)"
    using set_prog_types_view [OF st(6)] collect_relocs_step [OF st(4)] st(5)
    by (auto simp: same_progs_def open_step_def bpf_object__elf_finish_def split: if_splits)
  from view_section [OF this] have "map prog_section progs = program_sections elf (e_shstrndx ep) 1 (tl (el_scns elf))"
    using elf_collect_programs [OF st(3) o2(1)] o1 o2 eh by simp
  then show ?thesis using set_prog_types_typed [OF st(6)] by (simp add: obj typed_by_name_def is_storage_def)
qed


section \<open>Descriptors\<close>

text \<open>The descriptors of an object that is being opened: that of the file, until libelf is done with it, and that of the type
  information.\<close>

definition elf_fds :: "elf_obj \<Rightarrow> int set" where
  "elf_fds obj = (if eo_elf obj = None then {} else own_fd (eo_fd obj))"

definition btf_fds :: "elf_obj \<Rightarrow> int set" where
  "btf_fds obj = (case lo_btf obj of None \<Rightarrow> {} | Some b \<Rightarrow> own_fd (btf_fd b))"

definition open_inv :: "('k \<Rightarrow> int set) \<Rightarrow> int set \<Rightarrow> elf_obj \<Rightarrow> 'k process \<Rightarrow> bool" where
  "open_inv opn base obj p \<longleftrightarrow> no_fds obj \<and> (\<forall>b. lo_btf obj = Some b \<longrightarrow> -1 \<le> btf_fd b) \<and>
     fd_inv base (elf_fds obj \<union> btf_fds obj) (opn (p_kern p))"

lemma open_inv_step:
  assumes "open_inv opn base obj p" "open_step obj obj'" "lo_btf obj' = lo_btf obj" "opn (p_kern p') = opn (p_kern p)"
  shows "open_inv opn base obj' p'"
  using assms by (auto simp: open_inv_def open_step_def elf_fds_def btf_fds_def)

lemma elf_finish_inv:
  assumes "open_fds env opn loaded" "open_inv opn base obj p" "bpf_object__elf_finish env obj p = (obj', p')"
  shows "open_inv opn base obj' p' \<and> eo_elf obj' = None \<and> lo_programs obj' = lo_programs obj"
proof (cases "eo_elf obj")
  case (Some elf)
  then have "fd_inv base (btf_fds obj) (opn (p_kern p'))"
    using assms(2,3) zclose_inv [OF open_fds_kernel [OF assms(1)], of base "eo_fd obj" "btf_fds obj" p]
    by (auto simp: open_inv_def elf_fds_def bpf_object__elf_finish_def)
  then show ?thesis using assms(2,3) Some
    by (auto simp: open_inv_def elf_fds_def btf_fds_def bpf_object__elf_finish_def no_fds_def no_map_fds_def)
qed (use assms(2,3) in \<open>auto simp: bpf_object__elf_finish_def\<close>)

lemma unload_progs_none:
  assumes "\<forall>prog\<in>set progs. ld_nr prog = -1"
  shows "\<exists>ps. unload_progs kn progs p = Some (ps, p) \<and> (\<forall>prog\<in>set ps. ld_nr prog = -1)"
  using assms by (induction progs) (auto simp: bpf_program__unload_def)

lemma exit_progs_none: "\<forall>prog\<in>set progs. ld_nr prog = -1 \<Longrightarrow> exit_progs kn progs p = Some p"
  by (induction progs) (auto simp: bpf_program__exit_def bpf_program__unload_def)

lemma close_maps_none: "\<forall>m\<in>set ms. bm_fd (lm_map m) = -1 \<Longrightarrow> snd (close_maps kn ms p) = p"
  by (induction ms) (auto simp: zclose_def Let_def split: prod.splits)

lemma unload_none:
  assumes "no_fds obj"
  shows "\<exists>lo. bpf_object__unload kn (load_obj.truncate obj) p = Some (0, lo, p) \<and> (\<forall>prog\<in>set (lo_programs lo). ld_nr prog = -1)"
proof -
  obtain ms where m: "close_maps kn (lo_maps obj) p = (ms, p)"
    using assms close_maps_none [of "lo_maps obj" kn p] by (metis Un_iff no_fds_def no_map_fds_def prod.collapse)
  obtain ps where "unload_progs kn (lo_programs obj) p = Some (ps, p)" "\<forall>prog\<in>set ps. ld_nr prog = -1"
    using assms unload_progs_none [of "lo_programs obj" kn p] by (auto simp: no_fds_def no_prog_fds_def)
  then show ?thesis by (simp add: bpf_object__unload_def load_obj.defs m)
qed

lemma btf_free_inv:
  assumes "open_fds env opn loaded" "fd_inv base (btf_fds obj) (opn (p_kern p))" "\<forall>b. lo_btf obj = Some b \<longrightarrow> -1 \<le> btf_fd b"
  shows "opn (p_kern (btf_free_calls env (lo_btf obj) p)) = base"
proof (cases "lo_btf obj")
  case (Some b)
  then show ?thesis
    using assms(2,3) close_fd_law(1) [OF open_fds_kernel [OF assms(1)], of "btf_fd b" p]
    by (auto simp: btf_free_calls_def btf__free_def btf_fds_def own_fd_def fd_inv_def)
qed (use assms(2) in \<open>simp add: btf_free_calls_def btf__free_def btf_fds_def fd_inv_none\<close>)

lemma close_releases:
  assumes "open_fds env opn loaded" "open_inv opn base obj p"
  shows "\<exists>p'. bpf_object__close env obj p = Some p' \<and> opn (p_kern p') = base"
proof -
  obtain o1 p1 where f: "bpf_object__elf_finish env obj p = (o1, p1)" by fastforce
  note i = elf_finish_inv [OF assms f]
  then obtain lo where u: "bpf_object__unload (oe_kernel env) (load_obj.truncate o1) p1 = Some (0, lo, p1)" "\<forall>prog\<in>set (lo_programs lo). ld_nr prog = -1"
    using unload_none [of o1 "oe_kernel env" p1] by (auto simp: open_inv_def)
  have "fd_inv base (btf_fds o1) (opn (p_kern p1))" "\<forall>b. lo_btf o1 = Some b \<longrightarrow> -1 \<le> btf_fd b"
    using i by (auto simp: open_inv_def elf_fds_def)
  from btf_free_inv [OF assms(1) this] show ?thesis using f u(1) by (simp add: bpf_object__close_def exit_progs_none [OF u(2)])
qed

lemma new_inv:
  assumes "bpf_object__new env path buf name = Inr obj"
  shows "open_inv opn (opn (p_kern p)) obj p" "eo_elf obj = None" "lo_btf obj = None" "eo_fd obj = -1"
  using assms
  by (auto simp: bpf_object__new_def zero_obj_def open_inv_def no_fds_def no_map_fds_def elf_fds_def btf_fds_def fd_inv_def split: if_splits)

lemma elf_init_inv:
  assumes "open_fds env opn loaded" "\<forall>fd k. oe_elf_begin env fd k \<noteq> None" "open_inv opn base obj p" "eo_elf obj = None" "eo_fd obj = -1"
    and "bpf_object__elf_init env obj p = (err, obj', p')"
  shows "open_inv opn base obj' p' \<and> lo_btf obj' = lo_btf obj"
proof -
  note kf = open_fds_kernel [OF assms(1)]
  have checked: "open_inv opn base obj' p' \<and> lo_btf obj' = lo_btf obj"
    if c: "elf_init_checked env (Some elf) o1 q = (err, obj', p')" and o1: "o1 = obj\<lparr>eo_fd := fd\<rparr>"
      and i: "fd_inv base (own_fd fd \<union> btf_fds obj) (opn (p_kern q))" for elf o1 fd q
  proof (cases "elf_check_ehdr elf")
    case (Inl e)
    then have "bpf_object__elf_finish env (o1\<lparr>eo_elf := Some elf\<rparr>) q = (obj', p')" using c by (simp add: elf_init_checked_def)
    moreover have "open_inv opn base (o1\<lparr>eo_elf := Some elf\<rparr>) q"
      using i assms(3) by (simp add: o1 open_inv_def elf_fds_def btf_fds_def no_fds_def no_map_fds_def)
    ultimately show ?thesis
      using elf_finish_inv [OF assms(1), of base "o1\<lparr>eo_elf := Some elf\<rparr>" q] o1 by (auto simp: bpf_object__elf_finish_def)
  next
    case (Inr ep)
    then show ?thesis using c i assms(3) by (auto simp: elf_init_checked_def o1 open_inv_def elf_fds_def btf_fds_def no_fds_def no_map_fds_def)
  qed
  have base: "fd_inv base (btf_fds obj) (opn (p_kern p))" using assms(3,4) by (simp add: open_inv_def elf_fds_def)
  show ?thesis
  proof (cases "\<exists>buf. eo_obj_buf obj = Some buf \<and> buf \<noteq> []")
    case True
    then obtain buf where "eo_obj_buf obj = Some buf" "buf \<noteq> []" by blast
    then have c: "elf_init_checked env (oe_elf_memory env buf) obj p = (err, obj', p')" using assms(4,6) by (simp add: bpf_object__elf_init_def)
    show ?thesis
    proof (cases "oe_elf_memory env buf")
      case None
      then have "obj' = obj\<lparr>eo_elf := None\<rparr>" "p' = p" using c by (auto simp: elf_init_checked_def bpf_object__elf_finish_def)
      then show ?thesis using assms(3,4) by (simp add: open_inv_def elf_fds_def btf_fds_def no_fds_def no_map_fds_def)
    next
      case (Some elf)
      have "elf_init_checked env (Some elf) obj p = (err, obj', p')" "obj = obj\<lparr>eo_fd := -1\<rparr>" using c Some assms(5) by simp_all
      from checked [OF this] show ?thesis using base by (simp add: own_fd_def)
    qed
  next
    case False
    then have c: "elf_init_file env obj p = (err, obj', p')" using assms(4,6) by (auto simp: bpf_object__elf_init_def split: option.splits)
    obtain r k fd q where o: "oe_open env (eo_path obj) (p_kern p) = (r, k)" "sys_ret r k p = (fd, q)" by fastforce
    have "fd_call opn loaded (p_kern p) r k" using assms(1) o(1) unfolding open_fds_def by (metis fst_conv snd_conv)
    then have f: "fd_call opn loaded (p_kern p) fd (p_kern q)" using sys_ret_call [OF o(2)] by simp
    show ?thesis
    proof (cases "fd < 0")
      case True
      then have "obj' = obj\<lparr>eo_fd := fd\<rparr>" "p' = q" using c o by (auto simp: elf_init_file_def)
      moreover have "opn (p_kern q) = opn (p_kern p)" using f True by (simp add: fd_call_def same_fds_def)
      ultimately show ?thesis using assms(3,4) by (simp add: open_inv_def elf_fds_def btf_fds_def no_fds_def no_map_fds_def)
    next
      case False
      then have "fd_inv base (own_fd fd \<union> btf_fds obj) (opn (p_kern q))"
        using f base fd_inv_new [OF base, of fd] by (simp add: fd_call_def own_fd_def)
      moreover obtain elf where "oe_elf_begin env fd (p_kern q) = Some elf" using assms(2) by blast
      ultimately show ?thesis using checked [of elf "obj\<lparr>eo_fd := fd\<rparr>" q fd] c o False by (simp add: elf_init_file_def)
    qed
  qed
qed


text \<open>Nothing but loading gives the type information a descriptor.\<close>

lemma set_field_fd: "set_field t k v b = Some b' \<Longrightarrow> btf_fd b' = btf_fd b"
  by (cases t) (auto simp: set_field.simps)

lemma sort_vsi_fd: "sort_vsi t n b = Some b' \<Longrightarrow> btf_fd b' = btf_fd b"
  by (cases t) (auto split: Option.bind_splits)

lemma fixup_vars_fd: "fixup_vars obj t is b = Some (err, b') \<Longrightarrow> btf_fd b' = btf_fd b"
proof (induction "is" arbitrary: b)
  case (Cons i "is")
  have "b' = b \<or> (\<exists>b1. btf_fd b1 = btf_fd b \<and> fixup_vars obj t is b1 = Some (err, b'))"
    using Cons.prems by (auto split: Option.bind_splits if_splits option.splits sum.splits dest: set_field_fd)
  then show ?case using Cons.IH by metis
qed simp

lemma fixup_datasec_fd: "btf_fixup_datasec obj t b = Some (err, b') \<Longrightarrow> btf_fd b' = btf_fd b"
  by (auto simp: btf_fixup_datasec_def split: Option.bind_splits if_splits option.splits dest!: set_field_fd fixup_vars_fd sort_vsi_fd)

lemma finalize_fd: "btf__finalize_data obj b = Some (err, b') \<Longrightarrow> btf_fd b' = btf_fd b"
proof -
  have "finalize_loop obj is b = Some (err, b') \<Longrightarrow> btf_fd b' = btf_fd b" for "is" b
    by (induction "is" arbitrary: b) (auto split: Option.bind_splits if_splits dest!: fixup_datasec_fd)
  then show "btf__finalize_data obj b = Some (err, b') \<Longrightarrow> btf_fd b' = btf_fd b" by (simp add: btf__finalize_data_def)
qed

lemma btf_new_fd:
  assumes "btf__new c m r data sz = Some (Inr b)"
  shows "btf_fd b = -1"
  by (rule btf_new_parts [OF assms])

lemma sanitize_type_fd: "sanitize_type has_ds has_f t b = Some b' \<Longrightarrow> btf_fd b' = btf_fd b"
proof -
  have undot: "undot_name p b = Some b' \<Longrightarrow> btf_fd b' = btf_fd b" for p b b' by (auto simp: undot_name_def split: Option.bind_splits)
  have mem: "vsi_to_member t j b = Some b' \<Longrightarrow> btf_fd b' = btf_fd b" for j b b'
    by (auto simp: vsi_to_member_def split: Option.bind_splits dest!: set_field_fd)
  have mems: "vsis_to_members t js b = Some b' \<Longrightarrow> btf_fd b' = btf_fd b" for js b b'
    by (induction js arbitrary: b) (auto split: Option.bind_splits dest!: mem)
  show "sanitize_type has_ds has_f t b = Some b' \<Longrightarrow> btf_fd b' = btf_fd b"
    by (auto simp: sanitize_type_def var_to_int_def datasec_to_struct_def proto_to_enum_def func_to_typedef_def
        split: Option.bind_splits if_splits dest!: set_field_fd undot mems)
qed

lemma sanitize_fd:
  assumes "bpf_object__sanitize_btf obj = Some obj'"
  shows "rel_option (\<lambda>b b'. btf_fd b' = btf_fd b) (lo_btf obj) (lo_btf obj')"
proof -
  have "sanitize_loop has_ds has_f is b = Some b' \<Longrightarrow> btf_fd b' = btf_fd b" for has_ds has_f "is" b b'
    by (induction "is" arbitrary: b) (auto split: Option.bind_splits dest!: sanitize_type_fd)
  then show ?thesis using assms by (cases "lo_btf obj") (auto simp: bpf_object__sanitize_btf_def Let_def split: if_splits Option.bind_splits)
qed

lemma init_btf_fd:
  assumes "bpf_object__init_btf env bs es obj = Some (err, obj')" "lo_btf obj' = Some b"
  shows "btf_fd b = -1"
  using assms
  by (auto simp: bpf_object__init_btf_def init_btf_data_def Let_def split: Option.bind_splits sum.splits option.splits if_splits
      dest!: btf_new_fd finalize_fd)

lemma load_btf_calls_range: "load_btf_calls env data has_log do_log p = (fd, p') \<Longrightarrow> -1 \<le> fd"
  by (auto simp: load_btf_calls_def sys_ret_def Let_def split: prod.splits if_splits)

lemma sanitize_and_load_inv:
  assumes "open_fds env opn loaded" "open_inv opn base obj p" "\<And>b. lo_btf obj = Some b \<Longrightarrow> btf_fd b = -1"
    and "bpf_object__sanitize_and_load_btf env obj p = Some (err, obj', p')"
  shows "open_inv opn base obj' p'"
proof (cases "lo_btf obj = None")
  case False
  then obtain b o1 where b: "lo_btf obj = Some b" and s: "bpf_object__sanitize_btf obj = Some o1"
    using assms(4) by (auto simp: bpf_object__sanitize_and_load_btf_def split: Option.bind_splits)
  obtain b1 where o1: "bpf_object__sanitize_btf obj = Some o1" "lo_btf o1 = Some b1" "btf_fd b1 = -1"
    using sanitize_fd [OF s] s b assms(3) [OF b] by (cases "lo_btf o1") auto
  obtain e b2 p2 where l: "btf_load_calls env b1 p = (e, b2, p2)" by (metis prod_cases3)
  have f: "fd_call opn loaded (p_kern p) (btf_fd b2) (p_kern p2) \<and> -1 \<le> btf_fd b2 \<and> (e = 0 \<or> btf_fd b2 < 0)"
  proof (cases "oe_malloc env BPF_LOG_BUF_SIZE")
    case False
    then show ?thesis using l o1(3) by (auto simp: btf_load_calls_def fd_call_def)
  next
    case True
    then show ?thesis using l o1(3) load_btf_calls_fd [OF assms(1)] load_btf_calls_range
      by (auto simp: btf_load_calls_def split: prod.splits if_splits)
  qed
  have base: "fd_inv base (elf_fds obj) (opn (p_kern p))" "no_fds obj" using assms(2,3) by (auto simp: open_inv_def btf_fds_def own_fd_def split: option.splits)
  have st: "open_step obj obj'" by (rule sanitize_and_load_step [OF assms(4)])
  then have elf: "elf_fds obj' = elf_fds obj" "no_fds obj'" using base(2) by (auto simp: open_step_def elf_fds_def)
  have lb: "lo_btf (bpf_object__sanitize_btf_ext o1) = Some b1" using o1(2) by (simp add: bpf_object__sanitize_btf_ext_def)
  have r: "e \<noteq> 0 \<and> lo_btf obj' = None \<and> p' = btf_free_calls env (Some b2) p2 \<or> e = 0 \<and> lo_btf obj' = Some b2 \<and> p' = p2"
    using assms(4) False o1(1) l lb by (auto simp: bpf_object__sanitize_and_load_btf_def Let_def split: if_splits)
  show ?thesis
  proof (cases "e = 0")
    case True
    then have "lo_btf obj' = Some b2" "p' = p2" using r by auto
    then show ?thesis using f base elf fd_inv_new [OF base(1), of "btf_fd b2"]
      by (auto simp: open_inv_def btf_fds_def own_fd_def fd_call_def same_fds_def)
  next
    case False
    then have "lo_btf obj' = None" "btf_fd b2 = -1" "p' = p2" using r f by (auto simp: btf_free_calls_def btf__free_def)
    then show ?thesis using f base elf by (auto simp: open_inv_def btf_fds_def fd_call_def same_fds_def)
  qed
qed (use assms in \<open>simp add: bpf_object__sanitize_and_load_btf_def\<close>)


lemma elf_collect_rest_inv:
  assumes "open_fds env opn loaded" "open_inv opn base (wk_obj w) p" "lo_btf (wk_obj w) = None"
    and "elf_collect_rest env relaxed root w p = Some (err, obj', p')"
  shows "open_inv opn base obj' p'"
proof -
  obtain e1 o1 where s1: "bpf_object__init_btf env (wk_btf w) (wk_btf_ext w) (wk_obj w) = Some (e1, o1)"
    using assms(4) by (auto simp: elf_collect_rest_def split: Option.bind_splits)
  note fd1 = init_btf_fd [OF s1]
  have i1: "open_inv opn base o1 p"
    using assms(2,3) init_btf_step [OF s1] fd1
    by (auto simp: open_inv_def open_step_def elf_fds_def btf_fds_def own_fd_def split: option.splits)
  show ?thesis
  proof (cases "e1 = 0")
    case True
    then obtain e2 o2 where s2: "bpf_object__init_maps env relaxed root o1 = Some (e2, o2)"
      using assms(4) s1 by (auto simp: elf_collect_rest_def split: Option.bind_splits)
    note m = init_maps_step [OF s2]
    then have b2: "lo_btf o2 = lo_btf o1" by (simp add: map_step_def)
    note i2 = open_inv_step [where p' = p, OF i1 map_open_step [OF m] b2 refl]
    show ?thesis
    proof (cases "e2 = 0")
      case True
      then obtain e3 o3 p3 where s3: "bpf_object__sanitize_and_load_btf env o2 p = Some (e3, o3, p3)"
        using assms(4) s1 s2 \<open>e1 = 0\<close> by (auto simp: elf_collect_rest_def split: Option.bind_splits)
      have i3: "open_inv opn base o3 p3" using sanitize_and_load_inv [OF assms(1) i2 _ s3] fd1 b2 by simp
      have "obj' = o3 \<or> (\<exists>e. bpf_object__init_prog_names env o3 = Some (e, obj'))" "p' = p3"
        using assms(4) s1 s2 s3 \<open>e1 = 0\<close> \<open>e2 = 0\<close> by (auto simp: elf_collect_rest_def split: Option.bind_splits if_splits)
      then show ?thesis using i3 init_prog_names_step open_inv_step [OF i3] by metis
    qed (use assms(4) s1 s2 \<open>e1 = 0\<close> i2 in \<open>auto simp: elf_collect_rest_def\<close>)
  qed (use assms(4) s1 i1 in \<open>auto simp: elf_collect_rest_def\<close>)
qed

lemma elf_collect_inv:
  assumes "open_fds env opn loaded" "open_inv opn base obj p" "lo_btf obj = None"
    and "bpf_object__elf_collect env relaxed root obj p = Some (err, obj', p')"
  shows "open_inv opn base obj' p'"
proof -
  obtain elf where elf: "eo_elf obj = Some elf" using assms(4) by (auto simp: bpf_object__elf_collect_def split: Option.bind_splits)
  let ?w0 = "\<lparr>wk_obj = obj, wk_btf = None, wk_btf_ext = None\<rparr>"
  show ?thesis
  proof (cases "el_rawdata elf (e_shstrndx (eo_ehdr obj))")
    case True
    then obtain e w where w: "collect_sections_from env elf (e_shstrndx (eo_ehdr obj)) 1 (tl (el_scns elf)) ?w0 = Some (e, w)"
      using assms(4) elf by (auto simp: bpf_object__elf_collect_def Let_def split: Option.bind_splits)
    note k = collect_sections_from_keeps [OF w]
    have i: "open_inv opn base (wk_obj w) p" "lo_btf (wk_obj w) = None"
      using assms(2,3) k by (auto simp: open_inv_def elf_fds_def btf_fds_def)
    have "obj' = wk_obj w \<and> p' = p \<or> elf_collect_rest env relaxed root w p = Some (err, obj', p')"
      using assms(4) elf w True by (auto simp: bpf_object__elf_collect_def Let_def split: if_splits)
    then show ?thesis using i elf_collect_rest_inv [OF assms(1) i] by auto
  qed (use assms elf in \<open>auto simp: bpf_object__elf_collect_def Let_def\<close>)
qed

lemma open_steps_inv:
  assumes "open_fds env opn loaded" "\<forall>fd k. oe_elf_begin env fd k \<noteq> None" "open_inv opn base obj p" "eo_elf obj = None" "eo_fd obj = -1" "lo_btf obj = None"
    and "open_steps env core relaxed root obj p = Some (err, obj', p')"
  shows "open_inv opn base obj' p' \<and> (err = 0 \<longrightarrow> eo_elf obj' = None)"
proof -
  obtain e1 o1 p1 where s1: "bpf_object__elf_init env obj p = (e1, o1, p1)" by (metis prod_cases3)
  have i1: "open_inv opn base o1 p1" "lo_btf o1 = None" using elf_init_inv [OF assms(1-5) s1] assms(6) by auto
  show ?thesis
  proof (cases "e1 = 0 \<and> bpf_object__check_endianness o1 = 0")
    case True
    then obtain r o2 p2 where s2: "bpf_object__probe_caps env o1 p1 = Some (r, o2, p2)"
      using assms(7) s1 by (auto simp: open_steps_def split: Option.bind_splits)
    have i2: "open_inv opn base o2 p2" "lo_btf o2 = None"
      using open_inv_step [OF i1(1)] probe_caps_step [OF s2] probe_caps_kept [OF assms(1) s2] i1(2) by (auto simp: kept_fds_def)
    obtain e3 o3 p3 where s3: "bpf_object__elf_collect env relaxed root o2 p2 = Some (e3, o3, p3)"
      using assms(7) s1 s2 True by (auto simp: open_steps_def split: Option.bind_splits)
    note i3 = elf_collect_inv [OF assms(1) i2 s3]
    show ?thesis
    proof (cases "e3 = 0")
      case c3: True
      then obtain e4 o4 where s4: "collect_object_relocs env o3 = Some (e4, o4)"
        using assms(7) s1 s2 s3 True by (auto simp: open_steps_def split: Option.bind_splits)
      have i4: "open_inv opn base o4 p3" using open_inv_step [OF i3, of o4 p3] collect_relocs_step [OF s4] by simp
      obtain o5 p5 where s5: "bpf_object__elf_finish env o4 p3 = (o5, p5)" by fastforce
      note i5 = elf_finish_inv [OF assms(1) i4 s5]
      show ?thesis
      proof (cases "e4 = 0")
        case c4: True
        then obtain progs where "set_prog_types (bpf_core_find_kernel_btf core) o5 (lo_programs o5) = Some (err, progs)"
          and r: "obj' = o5\<lparr>lo_programs := progs\<rparr>" "p' = p5"
          using assms(7) s1 s2 s3 s4 s5 c3 True by (auto simp: open_steps_def split: Option.bind_splits)
        then have "open_step o5 obj'" using set_prog_types_view by (auto simp: open_step_def same_progs_def no_fds_def no_map_fds_def)
        then show ?thesis using open_inv_step [of opn base o5 p5 obj' p5] i5 r by (simp add: open_step_def)
      qed (use assms(7) s1 s2 s3 s4 c3 i4 True in \<open>auto simp: open_steps_def\<close>)
    qed (use assms(7) s1 s2 s3 i3 True in \<open>auto simp: open_steps_def\<close>)
  qed (use assms(7) s1 i1 in \<open>auto simp: open_steps_def split: if_splits\<close>)
qed

lemma open_new_releases:
  assumes "open_fds env opn loaded" "\<forall>fd k. oe_elf_begin env fd k \<noteq> None" and n: "bpf_object__new env path buf name = Inr o0"
    and s: "open_steps env core relaxed root (o0\<lparr>lo_relaxed_core_relocs := rcore\<rparr>) p = Some (err, o1, p1)"
    and r: "(if err \<noteq> 0 then map_option (\<lambda>p. (Inl err, p)) (bpf_object__close env o1 p1) else Some (Inr o1, p1)) = Some (r, p')"
  shows "case r of
      Inl err \<Rightarrow> opn (p_kern p') = opn (p_kern p)
    | Inr obj \<Rightarrow> fd_inv (opn (p_kern p)) (btf_fds obj) (opn (p_kern p')) \<and>
        (\<exists>p''. bpf_object__close env obj p' = Some p'' \<and> opn (p_kern p'') = opn (p_kern p))"
proof -
  have i0: "open_inv opn (opn (p_kern p)) (o0\<lparr>lo_relaxed_core_relocs := rcore\<rparr>) p"
    using open_inv_step [OF new_inv(1) [where opn = opn and p = p, OF n], where obj' = "o0\<lparr>lo_relaxed_core_relocs := rcore\<rparr>" and p' = p]
      open_step_same [of "o0\<lparr>lo_relaxed_core_relocs := rcore\<rparr>" o0] by simp
  have i1: "open_inv opn (opn (p_kern p)) o1 p1" "err = 0 \<longrightarrow> eo_elf o1 = None"
    using open_steps_inv [OF assms(1,2) i0 _ _ _ s] new_inv(2-4) [OF n] by auto
  obtain p2 where c: "bpf_object__close env o1 p1 = Some p2" "opn (p_kern p2) = opn (p_kern p)" using close_releases [OF assms(1) i1(1)] by blast
  show ?thesis
  proof (cases "err = 0")
    case True
    then show ?thesis using r c i1 by (auto simp: open_inv_def elf_fds_def)
  next
    case False
    then show ?thesis using r c by auto
  qed
qed



section \<open>An example\<close>

text \<open>A file with a license, a program in the section \<^verbatim>\<open>xdp_prog\<close> that passes every packet, and its symbol.\<close>

definition demo_ehdr :: elf_ehdr where "demo_ehdr = \<lparr>e_type = ET_REL, e_machine = EM_BPF, e_data = ELFDATA2LSB, e_shstrndx = 1\<rparr>"

definition demo_shdr :: "nat \<Rightarrow> u32 \<Rightarrow> u64 \<Rightarrow> nat \<Rightarrow> elf_scn" where
  "demo_shdr name typ flags sz = \<lparr>sn_shdr = Some \<lparr>sh_name = name, sh_type = typ, sh_flags = flags, sh_size = sz, sh_link = 1, sh_info = 0, sh_entsize = 24\<rparr>,
     sn_data = Some \<lparr>d_buf = Some (replicate sz 0), d_size = sz\<rparr>\<rparr>"

definition pass_bytes :: bytes where "pass_bytes = [0xb7, 0, 0, 0, 2, 0, 0, 0, 0x95, 0, 0, 0, 0, 0, 0, 0]"

definition demo_file :: elf_file where
  "demo_file = \<lparr>el_ehdr = Some demo_ehdr,
     el_scns = [\<lparr>sn_shdr = None, sn_data = None\<rparr>, demo_shdr 1 3 0 32, (demo_shdr 2 1 6 16)\<lparr>sn_data := Some \<lparr>d_buf = Some pass_bytes, d_size = 16\<rparr>\<rparr>,
       (demo_shdr 3 1 3 4)\<lparr>sn_data := Some \<lparr>d_buf = Some [0x47, 0x50, 0x4c, 0], d_size = 4\<rparr>\<rparr>, demo_shdr 4 2 0 48],
     el_rawdata = \<lambda>i. i = 1,
     el_strptr = \<lambda>_ n. arr_get ['''', ''.strtab'', ''xdp_prog'', ''license'', ''.symtab'', ''pass''] n,
     el_getsym = \<lambda>_ i. arr_get [\<lparr>st_name = 0, st_info = 0, st_shndx = 0, st_value = 0\<rparr>, \<lparr>st_name = 5, st_info = 0x12, st_shndx = 2, st_value = 0\<rparr>] i,
     el_getrel = \<lambda>_ _. None\<rparr>"

text \<open>The kernel of the example of loading, with files and with type information.\<close>

definition small_open_env :: "elf_file \<Rightarrow> small_kernel open_env" where
  "small_open_env elf = (demo_open_env small_kernel_ops)\<lparr>oe_open := \<lambda>_ (fds, ld). (next_fd fds, next_fd fds # fds, ld),
     oe_btf_load := \<lambda>_ _ (fds, ld). (next_fd fds, next_fd fds # fds, ld), oe_elf_begin := \<lambda>_ _. Some elf, oe_elf_memory := \<lambda>_. Some elf\<rparr>"

lemma small_open_fds: "open_fds (small_open_env elf) (\<lambda>k. set (fst k)) snd"
  using small_kernel_fds by (auto simp: open_fds_def small_open_env_def demo_open_env_def fd_call_def)

lemmas probe_prog_defs = simple_prog_def global_data_prog_def BPF_MOV64_IMM_def BPF_EXIT_INSN_def BPF_LD_MAP_VALUE_def BPF_ST_MEM_DW_def

lemmas small_open_defs = small_open_env_def demo_open_env_def small_kernel_ops_def small_process_def

lemma small_close [simp]: "removeAll (next_fd fds) fds = fds" "removeAll (next_fd (fd # fds)) fds = fds"
  using next_fd_fresh(1) [of "fd # fds"] by simp_all

lemma small_probe_caps:
  "bpf_object__probe_caps (small_open_env elf) obj (small_process\<lparr>p_kern := (fds, Map.empty)\<rparr>)
     = Some (0, obj\<lparr>lo_caps_name := True, lo_caps_global_data := True, eo_caps_btf_func := True, eo_caps_btf_datasec := True\<rparr>,
         small_process\<lparr>p_kern := (fds, Map.empty)\<rparr>)"
proof -
  let ?p = "small_process\<lparr>p_kern := (fds, Map.empty)\<rparr>" and ?env = "small_open_env elf"
  have "bpf_object__probe_name ?env obj ?p = Some (0, obj\<lparr>lo_caps_name := True\<rparr>, ?p)"
    by (simp add: bpf_object__probe_name_def bpf_load_program_xattr_def sys_bpf_prog_load.simps prog_args_of_def zero_load_attr_def
        small_open_defs sys_ret_def close_fd_def probe_prog_defs)
  moreover have "bpf_object__probe_global_data ?env obj ?p = Some (0, obj\<lparr>lo_caps_global_data := True\<rparr>, ?p)" for obj
    by (simp add: bpf_object__probe_global_data_def bpf_load_program_xattr_def sys_bpf_prog_load.simps prog_args_of_def zero_load_attr_def
        bpf_create_map_xattr_def map_args_of_def small_open_defs sys_ret_def close_fd_def probe_prog_defs)
  moreover have "libbpf__load_raw_btf ?env types strs ?p = (next_fd fds, small_process\<lparr>p_kern := (next_fd fds # fds, Map.empty)\<rparr>)" for types strs
    by (simp add: libbpf__load_raw_btf_def load_btf_calls_def small_open_defs sys_ret_def)
  moreover have "snd (close_fd (oe_kernel ?env) (next_fd fds) (small_process\<lparr>p_kern := (next_fd fds # fds, Map.empty)\<rparr>)) = ?p"
    by (simp add: close_fd_def small_open_defs sys_ret_def)
  ultimately show ?thesis by (simp add: bpf_object__probe_caps_def bpf_object__probe_btf_func_def bpf_object__probe_btf_datasec_def)
qed

text \<open>The walk over the sections of the example.\<close>

definition pass_prog :: load_prog where
  "pass_prog = zero_prog\<lparr>ld_nr := -1, ld_type := BPF_PROG_TYPE_UNSPEC,
     ld_prog := zero_reloc_prog\<lparr>rp_section_name := str_bytes ''xdp_prog'', rp_insns := decode_insns pass_bytes, rp_idx := 2\<rparr>\<rparr>"

definition demo_symtab :: elf_data where "demo_symtab = \<lparr>d_buf = Some (replicate 48 0), d_size = 48\<rparr>"

lemma demo_walk:
  assumes "lo_programs obj = []" "eo_license obj = replicate 64 0" "eo_symbols obj = None"
  shows "collect_sections_from (small_open_env elf) demo_file 1 1 (tl (el_scns demo_file)) \<lparr>wk_obj = obj, wk_btf = None, wk_btf_ext = None\<rparr>
    = Some (0, \<lparr>wk_obj = obj\<lparr>lo_programs := [pass_prog], eo_license := [0x47, 0x50, 0x4c, 0] @ replicate 60 0, lo_license := ''GPL'',
        eo_symbols := Some demo_symtab, eo_strtabidx := 1\<rparr>, wk_btf = None, wk_btf_ext = None\<rparr>)"
proof -
  have lic: "c_string ([0x47, 0x50, 0x4c, 0] @ replicate 60 0) = ''GPL''" by code_simp
  show ?thesis using assms lic
    by (simp add: demo_file_def demo_shdr_def collect_section_def Let_def elf_const_defs MAPS_ELF_SEC_def BTF_ELF_SEC_def BTF_EXT_ELF_SEC_def
        arr_get_def on_obj_def bpf_object__add_program_def bpf_program__init_def bpf_object__init_license_def load_def store_def
        small_open_env_def demo_open_env_def pass_prog_def pass_bytes_def demo_symtab_def)
qed

text \<open>An object before its sections are read.\<close>

definition demo_start :: "int \<Rightarrow> elf_obj \<Rightarrow> bool" where
  "demo_start fd obj \<longleftrightarrow> lo_programs obj = [] \<and> eo_license obj = replicate 64 0 \<and> eo_symbols obj = None \<and> eo_elf obj = Some demo_file \<and> eo_ehdr obj = demo_ehdr \<and>
     eo_fd obj = fd \<and> eo_reloc obj = [] \<and> lo_maps obj = [] \<and> lo_btf obj = None \<and> lo_btf_ext obj = None \<and> lo_maps_shndx obj = -1 \<and> lo_btf_maps_shndx obj = -1 \<and>
     lo_data_shndx obj = -1 \<and> lo_rodata_shndx obj = -1 \<and> lo_bss_shndx obj = -1 \<and> lo_text_shndx obj = 0 \<and> \<not> lo_has_pseudo_calls obj"

definition demo_read :: "elf_obj \<Rightarrow> elf_obj" where
  "demo_read obj = obj\<lparr>lo_programs := [pass_prog\<lparr>ld_name := Some ''pass''\<rparr>], eo_license := [0x47, 0x50, 0x4c, 0] @ replicate 60 0, lo_license := ''GPL'',
     eo_symbols := Some demo_symtab, eo_strtabidx := 1, lo_btf := None, lo_btf_ext := None, lo_maps := []\<rparr>"

lemma demo_prog_names:
  assumes "eo_strtabidx obj = 1"
  shows "init_prog_names_loop (small_open_env elf) demo_file demo_symtab obj [pass_prog] = (0, [pass_prog\<lparr>ld_name := Some ''pass''\<rparr>])"
proof -
  have "[0..<nr_syms demo_symtab] = [0, 1]" by code_simp
  then show ?thesis using assms
    by (simp add: pass_prog_def demo_file_def arr_get_def GELF_ST_BIND_def STB_GLOBAL_def small_open_env_def demo_open_env_def drop_bit_eq_div)
qed

lemma demo_collect:
  assumes "demo_start fd obj"
  shows "bpf_object__elf_collect (small_open_env elf) relaxed root obj p = Some (0, demo_read obj, p)"
proof -
  have w: "collect_sections_from (small_open_env elf) demo_file 1 1 (tl (el_scns demo_file)) \<lparr>wk_obj = obj, wk_btf = None, wk_btf_ext = None\<rparr>
    = Some (0, \<lparr>wk_obj = obj\<lparr>lo_programs := [pass_prog], eo_license := [0x47, 0x50, 0x4c, 0] @ replicate 60 0, lo_license := ''GPL'',
        eo_symbols := Some demo_symtab, eo_strtabidx := 1\<rparr>, wk_btf = None, wk_btf_ext = None\<rparr>)"
    by (rule demo_walk) (use assms in \<open>simp_all add: demo_start_def\<close>)
  have r: "el_rawdata demo_file 1" "length (el_scns demo_file) = 5" "e_shstrndx demo_ehdr = 1" by (simp_all add: demo_file_def demo_ehdr_def)
  show ?thesis using assms
    by (simp add: bpf_object__elf_collect_def Let_def w r demo_start_def elf_collect_rest_def bpf_object__init_btf_def init_btf_data_def
        init_btf_ext_data_def bpf_object__is_btf_mandatory_def bpf_object__init_maps_def bpf_object__init_user_maps_def
        bpf_object__init_user_btf_maps_def bpf_object__init_global_data_maps_def init_internal_if_def qsort_def cmp_consistent_def
        bpf_object__sanitize_and_load_btf_def bpf_object__init_prog_names_def demo_prog_names demo_read_def
        del: One_nat_def init_prog_names_loop.simps)
qed

lemma pass_type: "libbpf_prog_type_by_name (Some (bytes_str (str_bytes ''xdp_prog''))) = Inr (6, 0)"
  unfolding bytes_str_inverse by code_simp

lemma demo_steps:
  assumes i: "bpf_object__elf_init (small_open_env demo_file) obj p = (0, o1, small_process\<lparr>p_kern := (fds, Map.empty)\<rparr>)" and o1: "demo_start fd o1"
  shows "\<exists>obj' p'. open_steps (small_open_env demo_file) core relaxed root obj p = Some (0, obj', p')
    \<and> (fd = -1 \<longrightarrow> p_kern p' = (fds, Map.empty)) \<and> lo_btf obj' = None"
proof -
  let ?o2 = "o1\<lparr>lo_caps_name := True, lo_caps_global_data := True, eo_caps_btf_func := True, eo_caps_btf_datasec := True\<rparr>"
  have s2: "demo_start fd ?o2" using o1 by (simp add: demo_start_def)
  have e: "bpf_object__check_endianness o1 = 0" using o1 by (simp add: demo_start_def bpf_object__check_endianness_def demo_ehdr_def)
  note c = demo_collect [OF s2]
  let ?o3 = "demo_read ?o2"
  have r: "collect_object_relocs (small_open_env demo_file) ?o3 = Some (0, ?o3)"
    using o1 by (simp add: collect_object_relocs_def demo_read_def demo_start_def reloc_part_def load_obj.defs)
  obtain o5 p5 where f: "bpf_object__elf_finish (small_open_env demo_file) ?o3 (small_process\<lparr>p_kern := (fds, Map.empty)\<rparr>) = (o5, p5)" by fastforce
  have o5: "lo_programs o5 = [pass_prog\<lparr>ld_name := Some ''pass''\<rparr>]" "\<not> lo_has_pseudo_calls o5" "lo_btf o5 = None" "fd = -1 \<longrightarrow> p_kern p5 = (fds, Map.empty)"
    using f o1 by (auto simp: bpf_object__elf_finish_def demo_read_def demo_start_def zclose_def)
  have "set_prog_types kb o5 (lo_programs o5) = Some (0, [bpf_program__set_expected_attach_type 0 (pass_prog\<lparr>ld_name := Some ''pass'', ld_type := 6\<rparr>)])" for kb
    using o5 pass_type by (simp add: is_storage_def pass_prog_def BPF_PROG_TYPE_TRACING_def)
  then show ?thesis using i e c r f o5 by (simp add: open_steps_def small_probe_caps)
qed

lemma demo_new:
  assumes "bpf_object__new (small_open_env demo_file) path buf name = Inr obj"
  shows "demo_start fd (obj\<lparr>lo_relaxed_core_relocs := rc, eo_fd := fd, eo_elf := Some demo_file, eo_ehdr := demo_ehdr\<rparr>)" "eo_elf obj = None" "eo_obj_buf obj = buf"
    "eo_fd obj = -1"
  using assms by (auto simp: bpf_object__new_def zero_obj_def demo_start_def split: if_splits)

lemma demo_ehdr_ok: "elf_check_ehdr demo_file = Inr demo_ehdr"
  by (simp add: elf_check_ehdr_def demo_file_def demo_ehdr_def)

lemma demo_open_new:
  "\<exists>obj p'. open_new (small_open_env demo_file) core opts path buf name small_process = Some (Inr obj, p') \<and> lo_btf obj = None"
proof -
  let ?env = "small_open_env demo_file"
  obtain o0 where n: "bpf_object__new ?env path buf name = Inr o0" by (simp add: bpf_object__new_def small_open_env_def demo_open_env_def)
  let ?o0 = "o0\<lparr>lo_relaxed_core_relocs := OPTS_HAS opts 18 \<and> op_relaxed_core_relocs (the opts)\<rparr>"
  have env: "oe_elf_memory ?env b = Some demo_file" "oe_elf_begin ?env fd k = Some demo_file" for b fd k by (simp_all add: small_open_env_def)
  have "\<exists>fd o1 fds. bpf_object__elf_init ?env ?o0 small_process = (0, o1, small_process\<lparr>p_kern := (fds, Map.empty)\<rparr>) \<and> demo_start fd o1"
  proof (cases "\<exists>b. buf = Some b \<and> b \<noteq> []")
    case True
    then have "bpf_object__elf_init ?env ?o0 small_process = (0, ?o0\<lparr>eo_elf := Some demo_file, eo_ehdr := demo_ehdr\<rparr>, small_process)"
      using demo_new(2,3) [OF n] by (auto simp: bpf_object__elf_init_def elf_init_checked_def env demo_ehdr_ok)
    moreover have "demo_start (-1) (?o0\<lparr>eo_elf := Some demo_file, eo_ehdr := demo_ehdr\<rparr>)"
      using n by (auto simp: bpf_object__new_def zero_obj_def demo_start_def split: if_splits)
    moreover have "small_process = small_process\<lparr>p_kern := ([0, 1, 2], Map.empty)\<rparr>" by (simp add: small_process_def)
    ultimately show ?thesis by metis
  next
    case False
    have "oe_open ?env path (p_kern small_process) = (3, [3, 0, 1, 2], Map.empty)" for path
      by (simp add: small_open_env_def small_process_def next_fd_def)
    then have "elf_init_file ?env ?o0 small_process
        = (0, ?o0\<lparr>eo_fd := 3, eo_elf := Some demo_file, eo_ehdr := demo_ehdr\<rparr>, small_process\<lparr>p_kern := ([3, 0, 1, 2], Map.empty)\<rparr>)"
      by (simp add: elf_init_file_def sys_ret_def elf_init_checked_def env demo_ehdr_ok)
    moreover have "bpf_object__elf_init ?env ?o0 small_process = elf_init_file ?env ?o0 small_process"
      using False demo_new(2,3) [OF n] by (auto simp: bpf_object__elf_init_def split: option.splits)
    ultimately show ?thesis using demo_new(1) [OF n] by metis
  qed
  then obtain fd o1 fds where i: "bpf_object__elf_init ?env ?o0 small_process = (0, o1, small_process\<lparr>p_kern := (fds, Map.empty)\<rparr>)" "demo_start fd o1" by blast
  obtain obj p' where "open_steps ?env core (OPTS_HAS opts 17 \<and> op_relaxed_maps (the opts)) (if OPTS_HAS opts 32 then op_pin_root_path (the opts) else None)
      ?o0 small_process = Some (0, obj, p')" "lo_btf obj = None"
    using demo_steps [OF i] by blast
  then show ?thesis using n by (simp add: open_new_def Let_def)
qed

theorem open_mem_programs_witness:
  "\<exists>obj p'. bpf_object__open_mem (small_open_env demo_file) (fst small_core) (Some (0x1000, [1])) None small_process = Some (Inr obj, p') \<and>
     map prog_section (lo_programs obj) = [(2, str_bytes ''xdp_prog'', pass_bytes)] \<and> (\<forall>prog\<in>set (lo_programs obj). typed_by_name obj prog)"
proof -
  let ?name = "Some (buf_name (0x1000, [1]))"
  obtain obj p' where "open_new (small_open_env demo_file) (fst small_core) None (the ?name) (Some [1]) ?name small_process = Some (Inr obj, p')"
    using demo_open_new by blast
  then have o: "bpf_object__open_mem (small_open_env demo_file) (fst small_core) (Some (0x1000, [1])) None small_process = Some (Inr obj, p')"
    by (simp add: bpf_object__open_mem_def bpf_object_open_def small_open_env_def demo_open_env_def OPTS_HAS_def Let_def)
  have "oe_elf_memory (small_open_env demo_file) [1] = Some demo_file" "el_ehdr demo_file = Some demo_ehdr"
    by (simp_all add: small_open_env_def demo_file_def)
  from open_mem_programs [OF o this] have "map prog_section (lo_programs obj) = program_sections demo_file (e_shstrndx demo_ehdr) 1 (tl (el_scns demo_file))"
    "\<forall>prog\<in>set (lo_programs obj). typed_by_name obj prog" by auto
  moreover have "program_sections demo_file (e_shstrndx demo_ehdr) 1 (tl (el_scns demo_file)) = [(2, str_bytes ''xdp_prog'', pass_bytes)]" by code_simp
  ultimately show ?thesis using o by auto
qed



text \<open>A file that libelf does not recognise keeps its descriptor open: the cleaning up returns early.\<close>

lemma unrecognised_file_leaks:
  "\<exists>p'. bpf_object_open ((small_open_env demo_file)\<lparr>oe_elf_begin := \<lambda>_ _. None\<rparr>) core (Some ''notes.txt'') None None small_process = Some (Inl (- 4000), p')
     \<and> fst (p_kern p') = [3, 0, 1, 2]"
  by (simp add: bpf_object_open_def open_new_def bpf_object__new_def OPTS_HAS_def small_open_env_def demo_open_env_def open_steps_def
      bpf_object__elf_init_def elf_init_file_def elf_init_checked_def bpf_object__elf_finish_def zero_obj_def small_process_def next_fd_def
      sys_ret_def bpf_object__close_def bpf_object__unload_def btf_free_calls_def btf__free_def load_obj.defs LIBBPF_ERRNO__LIBELF_def)

section \<open>Probing\<close>

text \<open>No probe of the kernel leaves a descriptor behind: neither the probes of an object that is being opened nor those for a caller, whatever
  the kernel answers; the programs behind the descriptors that were open are the same as before.\<close>

lemma probes_leave_no_fds:
  assumes "open_fds (pv_env pv) opn loaded"
  shows "(bpf_object__probe_caps (pv_env pv) obj p = Some (r, obj', p1) \<longrightarrow> kept_fds opn loaded (p_kern p) (p_kern p1)) \<and>
    (bpf_probe_prog_type pv prog_type ifindex p = Some (known, p2) \<longrightarrow> kept_fds opn loaded (p_kern p) (p_kern p2)) \<and>
    (bpf_probe_helper pv func prog_type ifindex p = Some (known, p3) \<longrightarrow> kept_fds opn loaded (p_kern p) (p_kern p3)) \<and>
    (bpf_probe_map_type (pv_env pv) map_type ifindex p = (known, p4) \<longrightarrow> kept_fds opn loaded (p_kern p) (p_kern p4))"
  using assms by (blast intro: probe_caps_kept bpf_probe_prog_type_kept bpf_probe_helper_kept bpf_probe_map_type_kept)

definition small_probe_env :: "small_kernel probe_env" where
  "small_probe_env = \<lparr>pv_env = small_open_env demo_file, pv_log_text = \<lambda>_. '''', pv_ifname = \<lambda>_. None, pv_read = \<lambda>_ _ _. (0, [])\<rparr>"

lemma probes_leave_no_fds_example:
  "\<exists>obj' p1 p4. bpf_object__probe_caps (pv_env small_probe_env) zero_obj small_process = Some (0, obj', p1) \<and> lo_caps_name obj' \<and>
     set (fst (p_kern p1)) = {0, 1, 2} \<and> bpf_probe_map_type (pv_env small_probe_env) 14 0 small_process = (True, p4) \<and> set (fst (p_kern p4)) = {0, 1, 2}"
proof -
  have env: "open_fds (pv_env small_probe_env) (\<lambda>k. set (fst k)) snd" using small_open_fds by (simp add: small_probe_env_def)
  have p: "small_process = small_process\<lparr>p_kern := ([0, 1, 2], Map.empty)\<rparr>" by (simp add: small_process_def)
  obtain obj' p1 where c: "bpf_object__probe_caps (pv_env small_probe_env) zero_obj small_process = Some (0, obj', p1)" "lo_caps_name obj'"
    using small_probe_caps [of demo_file zero_obj "[0, 1, 2]"] p by (simp add: small_probe_env_def)
  obtain p4 where m: "bpf_probe_map_type (pv_env small_probe_env) 14 0 small_process = (True, p4)"
    by (simp add: bpf_probe_map_type_def probe_plain_map_def bpf_create_map_xattr_def small_probe_env_def small_open_defs sys_ret_def next_fd_def
        BPF_MAP_TYPE_SK_STORAGE_def BPF_MAP_TYPE_ARRAY_OF_MAPS_def BPF_MAP_TYPE_HASH_OF_MAPS_def map_args_of_def zero_map_attr_def Let_def)
  have k: "set (fst (p_kern small_process)) = {0, 1, 2}" by (auto simp: small_process_def)
  show ?thesis
    using c m k probes_leave_no_fds [OF env, where obj = zero_obj and p = small_process and r = 0 and obj' = obj' and ?p1.0 = p1 and map_type = 14 and ifindex = 0
        and known = True and ?p4.0 = p4] by (auto simp: kept_fds_def)
qed

end
