(* ===== verification/Perf_Buffer.thy ===== *)
theory Perf_Buffer
  imports Base
begin

text \<open>
  The reading side of a perf ring buffer in \<^verbatim>\<open>eBPF_app/libbpf/src/libbpf.c\<close>: \<^verbatim>\<open>bpf_perf_event_read_simple\<close>, which
  walks over the records the kernel has written and puts a record that wraps around the end of the ring
  together in a side buffer, and the dispatch of the records to the callbacks of \<^verbatim>\<open>perf_buffer\<close>. The data area
  of the ring is a byte list, its head and tail are the free-running 64-bit counters of the shared page. A callback
  works on a state of the caller and sees the bytes of its record.
\<close>

unbundle bit_operations_syntax

section \<open>Reading records\<close>

definition LIBBPF_PERF_EVENT_DONE :: int where "LIBBPF_PERF_EVENT_DONE = 0"
definition LIBBPF_PERF_EVENT_ERROR :: int where "LIBBPF_PERF_EVENT_ERROR = -1"
definition LIBBPF_PERF_EVENT_CONT :: int where "LIBBPF_PERF_EVENT_CONT = -2"

text \<open>The record at offset \<open>off\<close> of the ring with \<open>n\<close> bytes, and the side buffer after it was fetched. Inner
  \<open>None\<close> is a failed allocation, after which there is no side buffer. Fresh memory is zeros here; every byte of it
  that is used is written first.\<close>

definition fetch_record :: "(nat \<Rightarrow> bool) \<Rightarrow> bytes \<Rightarrow> nat \<Rightarrow> nat \<Rightarrow> bytes \<Rightarrow> (bytes \<times> bytes) option option" where
  "fetch_record malloc_ok ring off n copy =
     (if off + n > length ring then
        (let len_first = length ring - off;
             len_secnd = n - len_first
         in if length copy < n \<and> \<not> malloc_ok n then Some None
            else do {
              let copy = (if length copy < n then replicate n 0 else copy);
              first \<leftarrow> load ring off len_first;
              secnd \<leftarrow> load ring 0 len_secnd;
              copy \<leftarrow> store copy 0 first;
              copy \<leftarrow> store copy len_first secnd;
              Some (Some (take n copy, copy))
            })
      else do { r \<leftarrow> load ring off n; Some (Some (r, copy)) })"

text \<open>The loop; \<open>ret\<close> is what the last callback returned.\<close>

partial_function (option) perf_read_loop ::
    "(nat \<Rightarrow> bool) \<Rightarrow> bytes \<Rightarrow> u64 \<Rightarrow> (bytes \<Rightarrow> 's \<Rightarrow> (int \<times> 's) option) \<Rightarrow> int \<Rightarrow> u64 \<Rightarrow> bytes \<Rightarrow> 's
      \<Rightarrow> (int \<times> u64 \<times> bytes \<times> 's) option" where
  "perf_read_loop malloc_ok ring data_head fn ret data_tail copy s =
     (if data_head = data_tail then Some (ret, data_tail, copy, s)
      else do {
        let off = unat (data_tail AND (of_nat (length ring) - 1));
        ehdr_size \<leftarrow> load16 ring (off + 6);
        fetched \<leftarrow> fetch_record malloc_ok ring off (unat ehdr_size) copy;
        (case fetched of
           None \<Rightarrow> Some (LIBBPF_PERF_EVENT_ERROR, data_tail, [], s)
         | Some (r, copy) \<Rightarrow> do {
             (ret, s) \<leftarrow> fn r s;
             let data_tail = data_tail + ucast ehdr_size;
             if ret \<noteq> LIBBPF_PERF_EVENT_CONT then Some (ret, data_tail, copy, s)
             else perf_read_loop malloc_ok ring data_head fn ret data_tail copy s
           })
      })"

text \<open>The memory of one buffer: its processor, the ring with its counters, and the side buffer.\<close>

record perf_cpu_buf =
  pc_cpu :: int
  pr_ring :: bytes
  pr_head :: u64
  pr_tail :: u64
  pr_copy :: bytes

definition bpf_perf_event_read_simple ::
    "(nat \<Rightarrow> bool) \<Rightarrow> (bytes \<Rightarrow> 's \<Rightarrow> (int \<times> 's) option) \<Rightarrow> perf_cpu_buf \<Rightarrow> 's \<Rightarrow> (int \<times> perf_cpu_buf \<times> 's) option" where
  "bpf_perf_event_read_simple malloc_ok fn b s = do {
     (ret, data_tail, copy, s) \<leftarrow>
       perf_read_loop malloc_ok (pr_ring b) (pr_head b) fn LIBBPF_PERF_EVENT_CONT (pr_tail b) (pr_copy b) s;
     Some (ret, b\<lparr>pr_tail := data_tail, pr_copy := copy\<rparr>, s)
   }"

section \<open>Dispatching records\<close>

definition PERF_RECORD_LOST :: u32 where "PERF_RECORD_LOST = 2"
definition PERF_RECORD_SAMPLE :: u32 where "PERF_RECORD_SAMPLE = 9"

text \<open>The callbacks of a buffer, each may be missing; the context they share is the state.\<close>

record 's perf_buffer =
  event_cb :: "(int \<Rightarrow> bytes \<Rightarrow> 's \<Rightarrow> (int \<times> 's) option) option"
  sample_cb :: "(int \<Rightarrow> bytes \<Rightarrow> u32 \<Rightarrow> 's \<Rightarrow> 's option) option"
  lost_cb :: "(int \<Rightarrow> u64 \<Rightarrow> 's \<Rightarrow> 's option) option"

definition perf_buffer__process_record :: "'s perf_buffer \<Rightarrow> int \<Rightarrow> bytes \<Rightarrow> 's \<Rightarrow> (int \<times> 's) option" where
  "perf_buffer__process_record pb cpu e s =
     (case event_cb pb of
        Some cb \<Rightarrow> cb cpu e s
      | None \<Rightarrow> do {
          typ \<leftarrow> load32 e 0;
          if typ = PERF_RECORD_SAMPLE then
            (case sample_cb pb of
               None \<Rightarrow> Some (LIBBPF_PERF_EVENT_CONT, s)
             | Some cb \<Rightarrow> do {
                 sz \<leftarrow> load32 e 8;
                 s \<leftarrow> cb cpu (drop 12 e) sz s;
                 Some (LIBBPF_PERF_EVENT_CONT, s)
               })
          else if typ = PERF_RECORD_LOST then
            (case lost_cb pb of
               None \<Rightarrow> Some (LIBBPF_PERF_EVENT_CONT, s)
             | Some cb \<Rightarrow> do {
                 lost \<leftarrow> load64 e 16;
                 s \<leftarrow> cb cpu lost s;
                 Some (LIBBPF_PERF_EVENT_CONT, s)
               })
          else Some (LIBBPF_PERF_EVENT_ERROR, s)
        })"

definition perf_buffer__process_records ::
    "(nat \<Rightarrow> bool) \<Rightarrow> 's perf_buffer \<Rightarrow> perf_cpu_buf \<Rightarrow> 's \<Rightarrow> (int \<times> perf_cpu_buf \<times> 's) option" where
  "perf_buffer__process_records malloc_ok pb b s = do {
     (ret, b, s) \<leftarrow> bpf_perf_event_read_simple malloc_ok (perf_buffer__process_record pb (pc_cpu b)) b s;
     Some (if ret \<noteq> LIBBPF_PERF_EVENT_CONT then (ret, b, s) else (0, b, s))
   }"

text \<open>\<^verbatim>\<open>perf_buffer__poll\<close> on the buffers that \<^verbatim>\<open>epoll_wait\<close> reports, by their index; a failed wait is minus its
  error number.\<close>

fun poll_loop :: "(nat \<Rightarrow> bool) \<Rightarrow> 's perf_buffer \<Rightarrow> nat list \<Rightarrow> perf_cpu_buf list \<Rightarrow> 's \<Rightarrow> (int \<times> perf_cpu_buf list \<times> 's) option" where
  "poll_loop malloc_ok pb [] bufs s = Some (0, bufs, s)"
| "poll_loop malloc_ok pb (i # is) bufs s = do {
     b \<leftarrow> arr_get bufs i;
     (err, b, s) \<leftarrow> perf_buffer__process_records malloc_ok pb b s;
     bufs \<leftarrow> arr_set bufs i b;
     if err \<noteq> 0 then Some (err, bufs, s) else poll_loop malloc_ok pb is bufs s
   }"

definition perf_buffer__poll ::
    "(nat \<Rightarrow> bool) \<Rightarrow> 's perf_buffer \<Rightarrow> int + nat list \<Rightarrow> perf_cpu_buf list \<Rightarrow> 's \<Rightarrow> (int \<times> perf_cpu_buf list \<times> 's) option" where
  "perf_buffer__poll malloc_ok pb ready bufs s =
     (case ready of
        Inl err \<Rightarrow> Some (err, bufs, s)
      | Inr is \<Rightarrow> do {
          (err, bufs, s) \<leftarrow> poll_loop malloc_ok pb is bufs s;
          Some (if err \<noteq> 0 then err else int (length is), bufs, s)
        })"

section \<open>The content of the ring\<close>

definition ring_bytes :: "bytes \<Rightarrow> nat \<Rightarrow> nat \<Rightarrow> bytes" where
  "ring_bytes ring t n = map (\<lambda>i. ring ! ((t + i) mod length ring)) [0..<n]"

text \<open>A record as the kernel writes it: its size is in its header and a multiple of eight.\<close>

definition wf_record :: "bytes \<Rightarrow> bool" where
  "wf_record r \<longleftrightarrow> 8 \<le> length r \<and> 8 dvd length r \<and> length r < 2 ^ 16 \<and> load16 r 6 = Some (of_nat (length r))"

text \<open>Between the tail and the head are the records \<open>recs\<close>.\<close>

definition ring_holds :: "bytes \<Rightarrow> u64 \<Rightarrow> u64 \<Rightarrow> bytes list \<Rightarrow> bool" where
  "ring_holds ring head tail recs \<longleftrightarrow>
     (\<exists>k. 3 \<le> k \<and> k < 64 \<and> length ring = 2 ^ k) \<and> 8 dvd unat tail \<and> length (concat recs) \<le> length ring \<and>
     head = tail + of_nat (length (concat recs)) \<and> ring_bytes ring (unat tail) (length (concat recs)) = concat recs \<and>
     (\<forall>r\<in>set recs. wf_record r)"

lemma length_ring_bytes [simp]: "length (ring_bytes ring t n) = n"
  by (simp add: ring_bytes_def)

lemma nth_ring_bytes: "i < n \<Longrightarrow> ring_bytes ring t n ! i = ring ! ((t + i) mod length ring)"
  by (simp add: ring_bytes_def)

lemma ring_bytes_append: "ring_bytes ring t (n + m) = ring_bytes ring t n @ ring_bytes ring (t + n) m"
  by (rule nth_equalityI) (auto simp: nth_ring_bytes nth_append add.assoc)

lemma ring_bytes_mod: "ring_bytes ring (t mod length ring) n = ring_bytes ring t n"
  by (rule nth_equalityI) (simp_all add: nth_ring_bytes mod_add_left_eq)

lemma ring_bytes_straight:
  assumes "off + n \<le> length ring" "off < length ring"
  shows "ring_bytes ring off n = take n (drop off ring)"
  using assms by (intro nth_equalityI) (simp_all add: nth_ring_bytes)

lemma ring_bytes_wrap:
  assumes "off < length ring" "length ring < off + n" "n \<le> length ring"
  shows "ring_bytes ring off n = drop off ring @ take (n - (length ring - off)) ring"
proof -
  have n: "n = (length ring - off) + (n - (length ring - off))" using assms by simp
  have "ring_bytes ring off n = ring_bytes ring off (length ring - off) @ ring_bytes ring (length ring) (n - (length ring - off))"
    using ring_bytes_append [of ring off "length ring - off" "n - (length ring - off)"] n assms(1) by simp
  moreover have "ring_bytes ring (length ring) (n - (length ring - off)) = take (n - (length ring - off)) ring"
  proof -
    have "n - (length ring - off) \<le> length ring" "0 < length ring" using assms by auto
    then show ?thesis
      using ring_bytes_mod [of ring "length ring"] ring_bytes_straight [of 0 "n - (length ring - off)" ring] by simp
  qed
  ultimately show ?thesis using ring_bytes_straight [of off "length ring - off" ring] assms(1) by simp
qed

lemma fetch_record_ring:
  assumes "off < length ring" "n \<le> length ring" "\<And>n. malloc_ok n"
  shows "\<exists>copy'. fetch_record malloc_ok ring off n copy = Some (Some (ring_bytes ring off n, copy'))"
proof (cases "off + n > length ring")
  case False
  then show ?thesis using assms(1) by (simp add: fetch_record_def load_def ring_bytes_straight)
next
  case True
  define c0 where "c0 = (if length copy < n then replicate n 0 else copy)"
  let ?f = "drop off ring" and ?g = "take (n - (length ring - off)) ring"
  have len: "n \<le> length c0" by (simp add: c0_def)
  have st: "store c0 0 ?f = Some (?f @ drop (length ring - off) c0)"
    using len True by (simp add: store_def)
  have "store (?f @ drop (length ring - off) c0) (length ring - off) ?g = Some (?f @ ?g @ drop n c0)"
    using len True assms(1,2) by (simp add: store_def)
  then show ?thesis
    using True assms st by (auto simp: fetch_record_def load_def Let_def c0_def [symmetric] ring_bytes_wrap)
qed

text \<open>The specification of the walk: the callback on each record in order, until one asks to stop. The result has the
  records that are left.\<close>

fun process_all :: "(bytes \<Rightarrow> 's \<Rightarrow> (int \<times> 's) option) \<Rightarrow> int \<Rightarrow> bytes list \<Rightarrow> 's \<Rightarrow> (int \<times> bytes list \<times> 's) option" where
  "process_all fn ret [] s = Some (ret, [], s)"
| "process_all fn ret (r # rs) s = do {
     (ret, s) \<leftarrow> fn r s;
     if ret \<noteq> LIBBPF_PERF_EVENT_CONT then Some (ret, rs, s) else process_all fn ret rs s
   }"

lemma ring_holds_step:
  assumes "ring_holds ring head tail (r # recs)"
  shows "head \<noteq> tail"
    and "unat (tail AND (of_nat (length ring) - 1)) = unat tail mod length ring"
    and "load16 ring (unat tail mod length ring + 6) = Some (of_nat (length r))"
    and "ring_bytes ring (unat tail mod length ring) (length r) = r"
    and "ring_holds ring head (tail + of_nat (length r)) recs"
proof -
  obtain k where k: "3 \<le> k" "k < 64" "length ring = 2 ^ k" and t8: "8 dvd unat tail"
    and tot: "length r + length (concat recs) \<le> length ring" and head: "head = tail + of_nat (length r + length (concat recs))"
    and rb: "ring_bytes ring (unat tail) (length r + length (concat recs)) = r @ concat recs" and wf: "wf_record r"
    and wfs: "\<forall>r\<in>set recs. wf_record r"
    using assms by (auto simp: ring_holds_def)
  let ?off = "unat tail mod length ring"
  have r: "ring_bytes ring (unat tail) (length r) = r" and rest: "ring_bytes ring (unat tail + length r) (length (concat recs)) = concat recs"
    using rb by (simp_all add: ring_bytes_append)
  have big: "(2 :: nat) ^ k < 2 ^ 64" using k(2) by (rule power_strict_increasing) simp
  have "unat (of_nat (length r + length (concat recs)) :: u64) = length r + length (concat recs)"
    using tot k(3) big by (intro unat_of_nat_small) simp
  moreover have "length r + length (concat recs) \<noteq> 0" using wf by (auto simp: wf_record_def)
  ultimately have "(of_nat (length r + length (concat recs)) :: u64) \<noteq> 0" by (metis unat_0)
  then show "head \<noteq> tail" using head by simp
  have "(of_nat (length ring) :: u64) - 1 = mask k" by (simp add: k(3) mask_eq_exp_minus_1)
  then show "unat (tail AND (of_nat (length ring) - 1)) = ?off"
    using index_mod [of k tail 0] k by simp
  have N8: "8 dvd length ring" using le_imp_power_dvd [OF k(1), of "2 :: nat"] k(3) by simp
  have off8: "8 dvd ?off" using t8 N8 by (simp add: dvd_mod)
  have offN: "?off + 8 \<le> length ring"
  proof -
    have "?off < length ring" using k(3) by simp
    then show ?thesis using off8 N8 by (auto elim!: dvdE)
  qed
  show bytes: "ring_bytes ring ?off (length r) = r" using r by (simp add: ring_bytes_mod)
  have "load16 r 6 = load16 ring (?off + 6)"
  proof -
    have 8: "8 \<le> length r" using wf by (simp add: wf_record_def)
    have "take 8 r = take 8 (drop ?off ring)"
      using arg_cong [OF bytes, of "take 8"] ring_bytes_append [of ring ?off 8 "length r - 8"] 8
        ring_bytes_straight [of ?off 8 ring] offN by simp
    then have "take 2 (drop 6 (take 8 r)) = take 2 (drop 6 (take 8 (drop ?off ring)))" by simp
    then show ?thesis using 8 offN by (simp add: load16_def load_def drop_take add.commute)
  qed
  then show "load16 ring (?off + 6) = Some (of_nat (length r))" using wf by (simp add: wf_record_def)
  have "ring_bytes ring (unat (tail + of_nat (length r))) (length (concat recs)) = concat recs"
  proof -
    have "unat (tail + of_nat (length r)) mod 2 ^ k = (unat tail + length r) mod 2 ^ k"
      using index_mod [of k tail "length r"] index_mod [of k "tail + of_nat (length r)" 0] k(2) by simp
    then show ?thesis
      using rest ring_bytes_mod [of ring "unat (tail + of_nat (length r))"] ring_bytes_mod [of ring "unat tail + length r"] k(3) by metis
  qed
  moreover have "8 dvd unat (tail + of_nat (length r))"
  proof -
    have "unat (tail + of_nat (length r)) mod 2 ^ 3 = (unat tail + length r) mod 2 ^ 3"
      using index_mod [of 3 tail "length r"] index_mod [of 3 "tail + of_nat (length r)" 0] by simp
    moreover have "8 dvd unat tail + length r" using t8 wf by (simp add: wf_record_def)
    ultimately show ?thesis by (simp add: dvd_eq_mod_eq_0)
  qed
  ultimately show "ring_holds ring head (tail + of_nat (length r)) recs"
    using k tot head wfs by (auto simp: ring_holds_def add.assoc)
qed

lemma perf_read_loop_spec:
  assumes "ring_holds ring head tail recs" "\<And>n. malloc_ok n" "process_all fn ret recs s = Some (ret', left, s')"
  shows "\<exists>copy' tail'. perf_read_loop malloc_ok ring head fn ret tail copy s = Some (ret', tail', copy', s') \<and> ring_holds ring head tail' left"
  using assms(1,3)
proof (induction recs arbitrary: tail ret copy s)
  case Nil
  then have "head = tail" by (simp add: ring_holds_def)
  then show ?case using Nil by (auto simp: perf_read_loop.simps)
next
  case (Cons r recs)
  note st = ring_holds_step [OF Cons.prems(1)]
  let ?off = "unat tail mod length ring"
  have len: "length ring > 0" "length r \<le> length ring" "length r < 2 ^ 16"
    using Cons.prems(1) by (auto simp: ring_holds_def wf_record_def)
  then have n: "unat (of_nat (length r) :: u16) = length r" by (intro unat_of_nat_small) simp
  obtain copy1 where f: "fetch_record malloc_ok ring ?off (length r) copy = Some (Some (r, copy1))"
    using fetch_record_ring [of ?off ring "length r" malloc_ok copy] len assms(2) st(4) by auto
  have uc: "(ucast (of_nat (length r) :: u16) :: u64) = of_nat (length r)" using n by (metis of_nat_unat)
  obtain ret1 s1 where fn: "fn r s = Some (ret1, s1)" using Cons.prems(2) by (auto split: Option.bind_splits)
  have loop: "perf_read_loop malloc_ok ring head fn ret tail copy s =
      (if ret1 \<noteq> LIBBPF_PERF_EVENT_CONT then Some (ret1, tail + of_nat (length r), copy1, s1)
       else perf_read_loop malloc_ok ring head fn ret1 (tail + of_nat (length r)) copy1 s1)"
    using st(1,2,3) f fn by (subst perf_read_loop.simps) (simp add: Let_def n uc)
  show ?case
  proof (cases "ret1 = LIBBPF_PERF_EVENT_CONT")
    case True
    then have "process_all fn ret1 recs s1 = Some (ret', left, s')" using Cons.prems(2) fn by simp
    from Cons.IH [OF st(5) this] show ?thesis using loop True by simp
  next
    case False
    then show ?thesis using loop Cons.prems(2) fn st(5) by auto
  qed
qed

section \<open>Properties\<close>

text \<open>C29: reading a perf ring hands the records that the kernel has written between the tail and the head to the callback, each
  once, whole and in order, also when a record wraps around the end of the ring or the counters wrap around, until the
  callback asks to stop; then the tail is after the records that were handed over and the ring holds
  exactly the rest, so that the next call continues there.\<close>

theorem perf_read_simple_in_order:
  assumes "ring_holds (pr_ring b) (pr_head b) (pr_tail b) recs" "\<And>n. malloc_ok n"
    and "process_all fn LIBBPF_PERF_EVENT_CONT recs s = Some (ret, left, s')"
  shows "\<exists>b'. bpf_perf_event_read_simple malloc_ok fn b s = Some (ret, b', s')
    \<and> pr_ring b' = pr_ring b \<and> pr_head b' = pr_head b \<and> ring_holds (pr_ring b') (pr_head b') (pr_tail b') left"
  using perf_read_loop_spec [where malloc_ok = malloc_ok, OF assms, where copy = "pr_copy b"] by (auto simp: bpf_perf_event_read_simple_def)

text \<open>A ring of 32 bytes in which a lost record and a sample wait, the sample wrapped around the end.\<close>

definition sample_lost :: bytes where
  "sample_lost = le_of_word 4 (2 :: u32) @ le_of_word 2 (0 :: u16) @ le_of_word 2 (16 :: u16) @ replicate 8 7"

definition sample_rec :: bytes where
  "sample_rec = le_of_word 4 (9 :: u32) @ le_of_word 2 (0 :: u16) @ le_of_word 2 (16 :: u16) @ le_of_word 4 (4 :: u32) @ [1, 2, 3, 4]"

definition sample_perf :: perf_cpu_buf where
  "sample_perf = \<lparr>pc_cpu = 0, pr_ring = drop 8 sample_rec @ sample_lost @ take 8 sample_rec, pr_head = 40, pr_tail = 8, pr_copy = []\<rparr>"

lemma sample_perf_holds: "ring_holds (pr_ring sample_perf) (pr_head sample_perf) (pr_tail sample_perf) [sample_lost, sample_rec]"
proof -
  have "length (pr_ring sample_perf) = 32" "length (concat [sample_lost, sample_rec]) = 32" by code_simp+
  moreover have "ring_bytes (pr_ring sample_perf) (unat (pr_tail sample_perf)) 32 = concat [sample_lost, sample_rec]" by code_simp
  moreover have "load16 sample_lost 6 = Some 16" "load16 sample_rec 6 = Some 16" "length sample_lost = 16" "length sample_rec = 16"
    by code_simp+
  then have "wf_record sample_lost" "wf_record sample_rec" by (simp_all add: wf_record_def)
  moreover have "8 dvd unat (pr_tail sample_perf)" by (simp add: sample_perf_def)
  moreover have "pr_head sample_perf = pr_tail sample_perf + of_nat 32" by (simp add: sample_perf_def)
  ultimately show ?thesis
    unfolding ring_holds_def by (intro conjI exI [of _ 5]) (simp_all only: set_simps ball_simps, simp_all)
qed

text \<open>A callback that keeps the records it sees.\<close>

definition keep_record :: "bytes \<Rightarrow> bytes list \<Rightarrow> (int \<times> bytes list) option" where
  "keep_record r s = Some (LIBBPF_PERF_EVENT_CONT, s @ [r])"

theorem perf_read_simple_in_order_witness:
  "\<exists>b'. bpf_perf_event_read_simple (\<lambda>_. True) keep_record sample_perf [] = Some (LIBBPF_PERF_EVENT_CONT, b', [sample_lost, sample_rec])
    \<and> pr_tail b' = 40"
proof -
  have "process_all keep_record LIBBPF_PERF_EVENT_CONT [sample_lost, sample_rec] [] =
      Some (LIBBPF_PERF_EVENT_CONT, [], [sample_lost, sample_rec])"
    by (simp add: keep_record_def)
  from perf_read_simple_in_order [OF sample_perf_holds _ this, of "\<lambda>_. True"]
  show ?thesis by (auto simp: ring_holds_def sample_perf_def)
qed

end
