(* ===== verification/Spec2Isabelle.thy ===== *)
theory Spec2Isabelle
  imports KM_Module Client_Server Rewrite Ebpf_Main Hashmap Netlink Linfo Xsk_Correct Jhash Open_Correct Perf_Buffer
begin

text \<open>
  \<^bold>\<open>The program.\<close> The repository measures how long a UDP packet takes from the network driver to a program in
  user space, in three ways. A client (\<^verbatim>\<open>mymodule/helper/client.c\<close>) sends packets that carry a running
  number, the uid. They are received by a kernel module that takes them off the device with a receive handler and
  hands them to a polling program through a proc file (\<^verbatim>\<open>mymodule/kernel_module\<close>), by an XDP program
  that records them in BPF maps which a program in user space polls (\<^verbatim>\<open>eBPF_app/eBPF_measure\<close>), or by a plain
  socket server (\<^verbatim>\<open>mymodule/helper/server.c\<close>). Every receiver keeps a table of time stamps indexed by the uid
  and exports it as a text file. The eBPF application brings along the helpers of the XDP tutorial
  (\<^verbatim>\<open>eBPF_app/common\<close>, \<^verbatim>\<open>eBPF_app/headers\<close>) and a copy of libbpf (\<^verbatim>\<open>eBPF_app/libbpf\<close>).

  \<^bold>\<open>Conventions.\<close> Theory \<open>Base\<close> holds the machine words, memory as byte lists and the shared lemmas. What C leaves
  undefined (an access outside an object, a freed or null pointer, a value never written) is the value \<open>None\<close> of
  the option monad: a theorem that a function returns \<open>Some\<close> says that it stays inside its objects. Error codes
  are integers, an error pointer is \<open>Inl\<close>. Integers have the width of the C code wherever it can
  wrap; counts that are checked or bounded are natural numbers. What the code asks of the kernel, of the C
  library's allocator or of a tool outside the repository is an argument of the definitions, and what the
  code relies on is a named hypothesis, with a concrete instance in the witness.

  \<^bold>\<open>The kernel module.\<close> \<open>Common_Defs\<close> has the parameters and the payload of \<^verbatim>\<open>common.h\<close>. \<open>Log_Table\<close> is the
  table of time stamps that the four receivers share (allocation with its clean-up, guarded store, export); the
  locale \<open>uid_log\<close> is its contract, and the export is shown to be readable back. \<open>KM_Cache\<close> models
  \<^verbatim>\<open>rxhPacketIn\<close> and \<^verbatim>\<open>read\<close> of \<^verbatim>\<open>intercept-module.c\<close>: an array of slots with a status each and the index after
  the last write, both scanned cyclically. \<open>Fifo\<close> specifies a bounded queue as the locale \<open>bounded_fifo\<close> with
  what follows for every sequence of operations; \<open>KM_Fifo\<close> shows that the cache implements it (the handler
  enqueues or counts an overflow, a read dequeues up to a buffer full), that the last arrival of a uid is what the
  log holds, and exactly when the copy of a payload stays inside its slot: the client's payload does not.
  \<open>KM_Module\<close> adds the proc file on a heap of pages, and loading and unloading with the resources that are
  held: what a life cycle exports, which exits leak. \<open>User_Processing\<close> is the polling program: it logs what the
  module delivers, and its copy of a whole payload out of a slot leaves the buffer for the last slots.

  \<^bold>\<open>Client and server.\<close> \<open>Client_Server\<close> has the sending loop with its clock, the reference server, and both
  together: every packet that arrives is logged at its uid.

  \<^bold>\<open>The XDP side.\<close> \<open>Parsing\<close> is \<^verbatim>\<open>parsing_helpers.h\<close> on packets as byte lists; the locale \<open>bounded_parser\<close>, interpreted
  for every parser, says that none reads outside the packet. \<open>Rewrite\<close> is \<^verbatim>\<open>rewrite_helpers.h\<close>: pushing and popping
  a tag are inverse. \<open>Ebpf_Kern\<close> is \<^verbatim>\<open>ebpf_measure_kern.c\<close> over the documented behaviour of array maps, and the
  statistics of \<^verbatim>\<open>xdp_stats_kern.h\<close>; \<open>Ebpf_User\<close> the polling loop and the export of
  \<^verbatim>\<open>ebpf_measure_user.c\<close>, interleaved with the XDP program (uids are processed in order, a lost packet blocks the
  rest). \<open>Params\<close> is the command line, \<open>Bpf_Object\<close> what the loader calls of \<^verbatim>\<open>libbpf.c\<close>,
  \<open>Xdp_Loader\<close> attaching, pinning and reusing, \<open>Ebpf_Main\<close> the \<^verbatim>\<open>main\<close> function from its options to the detaching.

  \<^bold>\<open>libbpf.\<close> \<open>Hashmap\<close> is \<^verbatim>\<open>hashmap.c\<close>, every operation and iterator, refining a finite map through the locale
  \<open>finite_map_impl\<close>. \<open>Nlattr\<close> and \<open>Netlink\<close> are the attribute parser and the exchange with the kernel
  (\<^verbatim>\<open>nlattr.c\<close>, \<^verbatim>\<open>netlink.c\<close>, \<^verbatim>\<open>libbpf_errno.c\<close>): parsing inverts printing, stays in the buffer, and an
  attach request reaches a kernel that answers as documented with the interface, descriptor and flags of the
  call. \<open>Linfo\<close> is \<^verbatim>\<open>bpf_prog_linfo.c\<close>: a lookup returns the last line that starts at or before the address. \<open>Xsk_Ring\<close>
  is the shared rings of \<^verbatim>\<open>xsk.h\<close>, a second implementation of \<open>bounded_fifo\<close>, across the wrap-around of the 32-bit
  indices; \<open>Xsk_Setup\<close> is \<^verbatim>\<open>xsk.c\<close>, where the sockets and their rings are made, over a kernel that is an argument, and \<open>Xsk_Correct\<close>
  counts descriptors and mappings through every exit of it: a socket that fails leaves nothing behind, the life of an area and a socket gives
  everything back, and the entries of a mapped ring lie in its mapping. \<open>Xsk_Prog\<close> runs the program that is loaded for a queue with an interpreter of the
  instructions it uses and shows that it is the C function of its comment; 18 steps are enough, since it only jumps forward. \<open>Jhash\<close> is \<^verbatim>\<open>headers/jhash.h\<close>, whose routines agree. \<open>Btf\<close> and \<open>Btf_Ext\<close> are the type
  information of \<^verbatim>\<open>btf.c\<close>: the table an accepted blob has, the size of a type (against a relation without bounds), the types of
  a map, the layout of an accepted extension section and the relocation of its records. \<open>Pinning\<close> has the pinning of maps
  and programs in \<^verbatim>\<open>libbpf.c\<close> with its rollback over a file system that behaves as documented: all or nothing.
  \<open>Reloc\<close> collects the relocation entries of a program and patches its instructions, together with the copy of the text
  section: every entry is honoured and nothing else changes; the copy depends on the order of the programs.
  \<open>Btf_Query\<close>, \<open>Core_Spec\<close> and \<open>Core_Reloc\<close> are the relocation against the types of the running kernel: parsing access strings, matching fields by name,
  candidates with their cache in the hash table, the values that are patched in. \<open>Core_Match\<close> gives access paths their meaning, and
  \<open>Core_Correct\<close> shows that a relocated offset is that of the same designator in a type of the same name, that the shifts for a bit field extract its bits,
  and when the search for candidates stays in its block.
  \<open>Bpf_Sys\<close> is creating maps and loading programs in \<^verbatim>\<open>bpf.c\<close>, over a kernel that is an argument; \<open>Obj_Load\<close> is
  \<^verbatim>\<open>bpf_object__load\<close> with what it calls, ending in the relocation of \<open>Reloc\<close> and the pinning of \<open>Pinning\<close>: a successful
  load leaves open descriptors of the relocated programs, a failed one leaves no descriptor behind.
  \<open>Elf_File\<close>, \<open>Elf_Maps\<close> and \<open>Btf_Fix\<close> read an object file: its programs, maps and type information, given what libelf
  returns for the file; a map is shown to get the definition that its bytes spell, and type information that is rewritten for an old
  kernel is accepted by the parser again. \<open>Sec_Names\<close> is the table from section names to program types, where the first match is the
  longest; \<open>Probes\<close> are the probes of the kernel (\<^verbatim>\<open>libbpf.c\<close>, \<^verbatim>\<open>libbpf_probes.c\<close>). \<open>Obj_Open\<close> puts them together to
  \<^verbatim>\<open>bpf_object__open\<close> and \<^verbatim>\<open>bpf_object__close\<close>; \<open>Open_Correct\<close> shows that the programs are the executable sections of the
  file, byte for byte, and that opening, probing and closing leave no descriptor behind, except for a file that libelf rejects.
  \<open>Perf_Buffer\<close> reads perf rings and dispatches their records.

  \<^bold>\<open>Termination and bounds.\<close> Loops are structural or come with a measure; the loops of the receiving programs run
  over the list of events that arrive, and the polling of \<open>Ebpf_User\<close> over the list of its rounds.
  \<open>MAX_RESOLVE_DEPTH\<close> is the bound of 32 in the C code itself. The search of \<open>Btf_Ext.reloc_loop\<close> need
  not end on data that was never checked, so it is a partial function, and it is shown to return on every section that
  the checks accept; so is the walk of \<open>Perf_Buffer\<close>, which returns on every ring that holds whole records,
  and skipping modifiers in \<open>Btf_Query\<close>, which returns on every chain that ends. Waiting for an answer of the kernel that never comes is the value \<open>Blocked\<close> of \<open>Netlink\<close>.

  \<^bold>\<open>Not modelled.\<close> libelf itself, which is an argument. Of libbpf: opening perf buffers and attaching to
  trace points in \<^verbatim>\<open>libbpf.c\<close>, which are sequences of calls to the kernel;
  deduplicating type information in \<^verbatim>\<open>btf.c\<close>; \<^verbatim>\<open>btf_dump.c\<close>, which prints C text; the
  wrappers of \<^verbatim>\<open>bpf.c\<close> that only fill in one command;
  \<^verbatim>\<open>str_error.c\<close>, one call of the C library. The copies of kernel headers, the installed copies of libbpf's
  headers and the generated helper list declare and do not compute. The scripts that plot the measurements,
  the headers of another project under \<^verbatim>\<open>lkmc\<close> and the build and test scripts are outside the program.
  Concurrency inside one operation is not modelled either: an operation of a component is one step, and
  components interleave at operations. Timing is a value that the environment supplies.

  \<^bold>\<open>Plan.\<close> What would come next: deduplication as a quotient of the type graph.
\<close>

end
